(* ===== verification/Prelude.thy ===== *)
theory Prelude imports Main "HOL-Library.Word" "HOL-Library.AList" begin

text \<open>
  Shared vocabulary of the development: bytes as 8-bit words, the error sum with its bind,
  typed-array buffers, decimal and hexadecimal digits, and the list lemmas several components use.
\<close>

named_theorems err_simps \<open>rewrite rules for the error sum\<close>
named_theorems buf_simps \<open>rewrite rules for typed-array writes\<close>

subsection \<open>Bytes\<close>

type_synonym byte = "8 word"
type_synonym bytes = "byte list"

text \<open>What a \<open>Uint8Array\<close> keeps of a number stored in it: the value modulo 256.\<close>

definition u8 :: "nat \<Rightarrow> byte" where
  "u8 n = word_of_nat n"

lemma unat_u8 [simp]: "unat (u8 n) = n mod 256"
  by (simp add: u8_def unat_of_nat)

lemma u8_unat [simp]: "u8 (unat b) = b"
  by (simp add: u8_def)

lemma u8_mod [simp]: "u8 (n mod 256) = u8 n"
  by (rule word_unat_eq_iff [THEN iffD2]) simp

lemma u8_eq_iff: "u8 a = u8 b \<longleftrightarrow> a mod 256 = b mod 256"
  by (simp add: word_unat_eq_iff)

lemma unat_byte_less [simp]: "unat (b :: byte) < 256"
  by (rule less_le_trans [OF unsigned_less]) simp

text \<open>The little-endian value of a byte string, and the \<open>w\<close> low bytes of a number.\<close>

primrec le_nat :: "bytes \<Rightarrow> nat" where
  "le_nat [] = 0"
| "le_nat (b # bs) = unat b + 256 * le_nat bs"

primrec le_bytes :: "nat \<Rightarrow> nat \<Rightarrow> bytes" where
  "le_bytes 0 n = []"
| "le_bytes (Suc w) n = u8 n # le_bytes w (n div 256)"

lemma length_le_bytes [simp]: "length (le_bytes w n) = w"
  by (induction w arbitrary: n) auto

lemma le_bytes_2: "le_bytes 2 n = [u8 n, u8 (n div 256)]"
  by (simp only: numeral_2_eq_2 le_bytes.simps)

lemma le_bytes_4:
  "le_bytes 4 n = [u8 n, u8 (n div 256), u8 (n div 65536), u8 (n div 16777216)]"
proof -
  have "(4 :: nat) = Suc (Suc (Suc (Suc 0)))" by simp
  then have "le_bytes 4 n = [u8 n, u8 (n div 256), u8 (n div 256 div 256), u8 (n div 256 div 256 div 256)]"
    by (simp only: le_bytes.simps)
  then show ?thesis by (simp only: div_mult2_eq [symmetric]) simp
qed

lemma le_nat_le_bytes: "le_nat (le_bytes w n) = n mod 256 ^ w"
proof (induction w arbitrary: n)
  case 0
  then show ?case by simp
next
  case (Suc w)
  have "n mod (256 * 256 ^ w) = 256 * (n div 256 mod 256 ^ w) + n mod 256"
    by (rule mod_mult2_eq)
  then show ?case by (simp add: Suc.IH)
qed

lemma le_bytes_inj: "n < 256 ^ w \<Longrightarrow> m < 256 ^ w \<Longrightarrow> le_bytes w n = le_bytes w m \<longleftrightarrow> n = m"
  by (metis le_nat_le_bytes mod_less)

lemma le_nat_append: "le_nat (xs @ ys) = le_nat xs + 256 ^ length xs * le_nat ys"
  by (induction xs) (auto simp: algebra_simps)

lemma le_nat_less: "le_nat bs < 256 ^ length bs"
proof (induction bs)
  case Nil
  then show ?case by simp
next
  case (Cons b bs)
  have "unat b + 256 * le_nat bs < 256 * (le_nat bs + 1)"
    using unat_byte_less [of b] by (simp only: distrib_left mult_1_right)
  also have "\<dots> \<le> 256 * 256 ^ length bs"
    using Cons by (intro mult_le_mono2) simp
  finally show ?case by simp
qed

subsection \<open>Errors as sums\<close>

text \<open>
  A function of the source that may throw returns \<open>'e + 'a\<close>: \<open>Inl\<close> the error, \<open>Inr\<close> the
  value. \<open>ebind\<close> is sequencing: the first error ends the computation, as an exception does.
\<close>

definition ebind :: "'e + 'a \<Rightarrow> ('a \<Rightarrow> 'e + 'b) \<Rightarrow> 'e + 'b" where
  "ebind m f = (case m of Inl e \<Rightarrow> Inl e | Inr x \<Rightarrow> f x)"

definition emap :: "('a \<Rightarrow> 'b) \<Rightarrow> 'e + 'a \<Rightarrow> 'e + 'b" where
  "emap f m = ebind m (\<lambda>x. Inr (f x))"

definition eguard :: "bool \<Rightarrow> 'e \<Rightarrow> 'e + unit" where
  "eguard b e = (if b then Inr () else Inl e)"

primrec emapM :: "('a \<Rightarrow> 'e + 'b) \<Rightarrow> 'a list \<Rightarrow> 'e + 'b list" where
  "emapM f [] = Inr []"
| "emapM f (x # xs) = ebind (f x) (\<lambda>y. ebind (emapM f xs) (\<lambda>ys. Inr (y # ys)))"

definition is_ok :: "'e + 'a \<Rightarrow> bool" where
  "is_ok m = (case m of Inl _ \<Rightarrow> False | Inr _ \<Rightarrow> True)"

lemma ebind_Inl [simp, err_simps]: "ebind (Inl e) f = Inl e"
  by (simp add: ebind_def)

lemma ebind_Inr [simp, err_simps]: "ebind (Inr x) f = f x"
  by (simp add: ebind_def)

lemma is_ok_simps [simp, err_simps]: "is_ok (Inl e) = False" "is_ok (Inr x) = True"
  by (simp_all add: is_ok_def)

lemma ebind_eq_Inr [err_simps]: "ebind m f = Inr y \<longleftrightarrow> (\<exists>x. m = Inr x \<and> f x = Inr y)"
  by (cases m) auto

lemma ebind_eq_InrE [elim]:
  assumes "ebind m f = Inr y"
  obtains x where "m = Inr x" and "f x = Inr y"
  using assms by (auto simp: ebind_eq_Inr)

lemma ebind_assoc: "ebind (ebind m f) g = ebind m (\<lambda>x. ebind (f x) g)"
  by (cases m) auto

lemma emap_simps [simp, err_simps]: "emap f (Inl e) = Inl e" "emap f (Inr x) = Inr (f x)"
  by (simp_all add: emap_def)

lemma eguard_simps [simp, err_simps]: "eguard True e = Inr ()" "eguard False e = Inl e"
  by (simp_all add: eguard_def)

lemma eguard_eq_Inr [simp, err_simps]: "eguard b e = Inr u \<longleftrightarrow> b"
  by (simp add: eguard_def)

lemma if_Inl_eq_Inr [simp, err_simps]:
  "((if b then Inl e else m) = Inr x) \<longleftrightarrow> \<not> b \<and> m = Inr x"
  "((if b then m else Inl e) = Inr x) \<longleftrightarrow> b \<and> m = Inr x"
  by auto

lemma ebind_if: "ebind (if b then m else n) f = (if b then ebind m f else ebind n f)"
  by simp

lemma emapM_Inr: "(\<And>x. x \<in> set xs \<Longrightarrow> f x = Inr (g x)) \<Longrightarrow> emapM f xs = Inr (map g xs)"
  by (induction xs) auto

lemma emapM_length: "emapM f xs = Inr ys \<Longrightarrow> length ys = length xs"
  by (induction xs arbitrary: ys) (auto simp: ebind_eq_Inr)

lemma set_update_subset: "set (AList.update k v m) \<subseteq> insert (k, v) (set m)"
  by (induction m) auto

lemma is_ok_iff: "is_ok m \<longleftrightarrow> (\<exists>x. m = Inr x)"
  by (cases m) auto

subsection \<open>Typed-array buffers\<close>

text \<open>
  \<open>out[o] = b\<close> on a \<open>Uint8Array\<close> is \<open>out[o := b]\<close>: both leave an index past the end alone.
  \<open>out.set(data, o)\<close> throws a \<open>RangeError\<close> when the data does not fit (\<open>None\<close> here).
\<close>

definition buf_set :: "bytes \<Rightarrow> nat \<Rightarrow> bytes \<Rightarrow> bytes option" where
  "buf_set out o' data =
     (if o' + length data \<le> length out
      then Some (take o' out @ data @ drop (o' + length data) out) else None)"

lemma buf_set_append [buf_simps]:
  "length data \<le> length suf \<Longrightarrow>
     buf_set (pre @ suf) (length pre) data = Some (pre @ data @ drop (length data) suf)"
  by (simp add: buf_set_def)

lemma buf_put_append [buf_simps]:
  "suf \<noteq> [] \<Longrightarrow> (pre @ suf)[length pre := b] = (pre @ [b]) @ tl suf"
  by (cases suf) (simp_all add: list_update_append)

subsection \<open>Digits\<close>

text \<open>The lower-case hexadecimal digits of \<open>Number.prototype.toString(16)\<close>.\<close>

definition hex_digit :: "nat \<Rightarrow> char" where
  "hex_digit n = char_of (if n mod 16 < 10 then 48 + n mod 16 else 87 + n mod 16)"

definition hex_byte :: "byte \<Rightarrow> string" where
  "hex_byte b = [hex_digit (unat b div 16), hex_digit (unat b mod 16)]"

definition hex_string :: "bytes \<Rightarrow> string" where
  "hex_string bs = concat (map hex_byte bs)"

definition digit_val :: "char \<Rightarrow> nat option" where
  "digit_val c = (let n = of_char c in if 48 \<le> n \<and> n \<le> 57 then Some (n - 48) else None)"

definition hex_val :: "char \<Rightarrow> nat option" where
  "hex_val c = (let n = of_char c :: nat in
     if 48 \<le> n \<and> n \<le> 57 then Some (n - 48)
     else if 97 \<le> n \<and> n \<le> 102 then Some (n - 87)
     else if 65 \<le> n \<and> n \<le> 70 then Some (n - 55) else None)"

definition is_digit :: "char \<Rightarrow> bool" where
  "is_digit c = (digit_val c \<noteq> None)"

definition is_hex :: "char \<Rightarrow> bool" where
  "is_hex c = (hex_val c \<noteq> None)"

text \<open>\<open>String.prototype.toLowerCase\<close> on the ASCII letters.\<close>

definition lower_char :: "char \<Rightarrow> char" where
  "lower_char c = (let n = of_char c :: nat in if 65 \<le> n \<and> n \<le> 90 then char_of (n + 32) else c)"

definition lower_string :: "string \<Rightarrow> string" where
  "lower_string = map lower_char"

primrec num_of_digits :: "nat \<Rightarrow> string \<Rightarrow> nat" where
  "num_of_digits acc [] = acc"
| "num_of_digits acc (c # cs) = num_of_digits (10 * acc + the (digit_val c)) cs"

text \<open>\<open>String(n)\<close> for a non-negative integer.\<close>

fun digits_of_nat :: "nat \<Rightarrow> string" where
  "digits_of_nat n =
     (if n < 10 then [char_of (48 + n)] else digits_of_nat (n div 10) @ [char_of (48 + n mod 10)])"

declare digits_of_nat.simps [simp del]

text \<open>The bytes a string of hexadecimal digits spells, two digits each.\<close>

fun unhex :: "string \<Rightarrow> bytes" where
  "unhex (a # b # r) = u8 (16 * the (hex_val a) + the (hex_val b)) # unhex r"
| "unhex _ = []"

lemma hex_val_less: "hex_val c = Some v \<Longrightarrow> v < 16"
  by (auto simp: hex_val_def Let_def split: if_splits)

lemma hex_digit_val: "hex_val c = Some v \<Longrightarrow> hex_digit v = lower_char c"
  by (auto simp: hex_val_def hex_digit_def lower_char_def Let_def split: if_splits)

lemma hex_val_digit: "hex_val (hex_digit n) = Some (n mod 16)"
  by (auto simp: hex_val_def hex_digit_def Let_def)

lemma is_hex_digit [simp]: "is_hex (hex_digit n)"
  by (simp add: is_hex_def hex_val_digit)

lemma hex_string_simps [simp]:
  "hex_string [] = []"
  "hex_string (b # bs) = hex_digit (unat b div 16) # hex_digit (unat b mod 16) # hex_string bs"
  by (simp_all add: hex_string_def hex_byte_def)

lemma hex_string_append [simp]: "hex_string (xs @ ys) = hex_string xs @ hex_string ys"
  by (simp add: hex_string_def)

lemma length_hex_string [simp]: "length (hex_string bs) = 2 * length bs"
  by (induction bs) auto

lemma is_hex_hex_string: "c \<in> set (hex_string bs) \<Longrightarrow> is_hex c"
  by (induction bs) auto

lemma unhex_hex_string [simp]: "unhex (hex_string bs) = bs"
proof (induction bs)
  case Nil
  then show ?case by simp
next
  case (Cons b bs)
  have "unat b div 16 < 16" by (rule less_mult_imp_div_less) simp
  then have "unat b div 16 mod 16 = unat b div 16" by simp
  then have "16 * (unat b div 16 mod 16) + unat b mod 16 = unat b" by simp
  with Cons show ?case by (simp add: hex_val_digit)
qed

lemma hex_string_unhex:
  "even (length s) \<Longrightarrow> list_all is_hex s \<Longrightarrow> hex_string (unhex s) = lower_string s"
proof (induction s rule: unhex.induct)
  case (1 a b r)
  then obtain v w where v: "hex_val a = Some v" and w: "hex_val b = Some w"
    by (auto simp: is_hex_def)
  from hex_val_less [OF v] hex_val_less [OF w]
  have d: "(16 * v + w) mod 256 = 16 * v + w" "(16 * v + w) div 16 = v" "(16 * v + w) mod 16 = w"
    by simp_all
  with 1 v w show ?case by (simp add: hex_digit_val lower_string_def)
qed (simp_all add: lower_string_def)

lemma length_unhex: "length (unhex s) = length s div 2"
  by (induction s rule: unhex.induct) auto

lemma is_hex_lower: "is_hex c \<Longrightarrow> is_hex (lower_char c)"
  using hex_digit_val [of c] is_hex_digit unfolding is_hex_def [of c] by (metis not_None_eq)

lemma hex_val_lower: "hex_val (lower_char c) = hex_val c"
proof (cases "hex_val c")
  case (Some v)
  then show ?thesis using hex_digit_val [OF Some] hex_val_digit [of v] hex_val_less [OF Some] by simp
next
  case None
  then show ?thesis
    by (auto simp: hex_val_def lower_char_def Let_def split: if_splits)
qed

lemma unhex_lower [simp]: "unhex (lower_string s) = unhex s"
  by (induction s rule: unhex.induct) (simp_all add: lower_string_def hex_val_lower)

lemma length_lower_string [simp]: "length (lower_string s) = length s"
  by (simp add: lower_string_def)

lemma digit_char: "n < 10 \<Longrightarrow> digit_val (char_of (48 + n)) = Some n"
  by (simp add: digit_val_def)

lemma num_of_digits_append: "num_of_digits acc (xs @ ys) = num_of_digits (num_of_digits acc xs) ys"
  by (induction xs arbitrary: acc) auto

lemma num_digits_of_nat: "num_of_digits 0 (digits_of_nat n) = n"
proof (induction n rule: digits_of_nat.induct)
  case (1 n)
  show ?case
  proof (cases "n < 10")
    case True
    then show ?thesis by (subst digits_of_nat.simps) (simp add: digit_char)
  next
    case False
    with 1 show ?thesis
      by (subst digits_of_nat.simps) (simp add: num_of_digits_append digit_char)
  qed
qed

lemma digits_of_nat_digits: "list_all is_digit (digits_of_nat n) \<and> digits_of_nat n \<noteq> []"
proof (induction n rule: digits_of_nat.induct)
  case (1 n)
  have d: "is_digit (char_of (48 + m))" if "m < 10" for m :: nat
    using that by (simp add: is_digit_def digit_char)
  show ?case
  proof (cases "n < 10")
    case True
    then show ?thesis using d by (subst (1 2) digits_of_nat.simps) simp
  next
    case False
    then show ?thesis using d 1 by (subst (1 2) digits_of_nat.simps) simp
  qed
qed

lemma length_digits_of_nat: "0 < k \<Longrightarrow> n < 10 ^ k \<Longrightarrow> length (digits_of_nat n) \<le> k"
proof (induction k arbitrary: n)
  case (Suc k)
  show ?case
  proof (cases "n < 10")
    case True
    then show ?thesis by (subst digits_of_nat.simps) simp
  next
    case False
    then have k: "0 < k" using Suc.prems by (cases k) auto
    have "n div 10 < 10 ^ k" using Suc.prems by (simp add: less_mult_imp_div_less mult.commute)
    with Suc.IH k False show ?thesis by (subst digits_of_nat.simps) simp
  qed
qed simp

subsection \<open>Trimming\<close>

text \<open>\<open>String.prototype.trim\<close> on 8-bit characters.\<close>

definition is_space :: "char \<Rightarrow> bool" where
  "is_space c = (let n = of_char c :: nat in n = 32 \<or> (9 \<le> n \<and> n \<le> 13) \<or> n = 160)"

definition trim :: "string \<Rightarrow> string" where
  "trim s = rev (dropWhile is_space (rev (dropWhile is_space s)))"

lemma not_space_digit: "is_digit c \<Longrightarrow> \<not> is_space c"
  by (auto simp: is_digit_def digit_val_def is_space_def Let_def split: if_splits)

lemma trim_id: "s \<noteq> [] \<Longrightarrow> \<not> is_space (hd s) \<Longrightarrow> \<not> is_space (last s) \<Longrightarrow> trim s = s"
proof -
  assume s: "s \<noteq> []" "\<not> is_space (hd s)" "\<not> is_space (last s)"
  then have "dropWhile is_space s = s" "dropWhile is_space (rev s) = rev s"
    by (metis dropWhile_eq_self_iff, metis dropWhile_eq_self_iff hd_rev)
  then show "trim s = s" by (simp add: trim_def)
qed

end
