(* ===== verification/JsText.thy ===== *)
theory JsText imports Prelude begin

text \<open>
  JavaScript strings as the standard library's text codecs see them: a string is a list of UTF-16
  code units, \<open>TextEncoder.encode\<close> turns it into UTF-8 (a lone surrogate becomes U+FFFD) and
  \<open>new TextDecoder('utf-8', { fatal: true }).decode\<close> turns bytes back, refusing anything that is
  not well-formed UTF-8 and dropping a leading byte-order mark. Ends with their round trip.
\<close>

type_synonym js_string = "16 word list"

definition hi_surrogate :: "16 word \<Rightarrow> bool" where
  "hi_surrogate u = (0xD800 \<le> unat u \<and> unat u \<le> 0xDBFF)"

definition lo_surrogate :: "16 word \<Rightarrow> bool" where
  "lo_surrogate u = (0xDC00 \<le> unat u \<and> unat u \<le> 0xDFFF)"

definition pair_point :: "16 word \<Rightarrow> 16 word \<Rightarrow> nat" where
  "pair_point u v = 0x10000 + (unat u - 0xD800) * 0x400 + (unat v - 0xDC00)"

text \<open>The code points of a string, as \<open>TextEncoder\<close> reads it.\<close>

fun utf16_points :: "js_string \<Rightarrow> nat list" where
  "utf16_points [] = []"
| "utf16_points [u] = [if hi_surrogate u \<or> lo_surrogate u then 0xFFFD else unat u]"
| "utf16_points (u # v # r) =
     (if hi_surrogate u
      then (if lo_surrogate v then pair_point u v # utf16_points r
            else 0xFFFD # utf16_points (v # r))
      else (if lo_surrogate u then 0xFFFD else unat u) # utf16_points (v # r))"

fun well_formed_utf16 :: "js_string \<Rightarrow> bool" where
  "well_formed_utf16 [] = True"
| "well_formed_utf16 [u] = (\<not> hi_surrogate u \<and> \<not> lo_surrogate u)"
| "well_formed_utf16 (u # v # r) =
     (if hi_surrogate u then lo_surrogate v \<and> well_formed_utf16 r
      else \<not> lo_surrogate u \<and> well_formed_utf16 (v # r))"

definition point_units :: "nat \<Rightarrow> js_string" where
  "point_units c =
     (if c < 0x10000 then [word_of_nat c]
      else [word_of_nat (0xD800 + (c - 0x10000) div 0x400),
            word_of_nat (0xDC00 + (c - 0x10000) mod 0x400)])"

definition utf8_point :: "nat \<Rightarrow> bytes" where
  "utf8_point c =
     (if c < 0x80 then [u8 c]
      else if c < 0x800 then [u8 (0xC0 + c div 64), u8 (0x80 + c mod 64)]
      else if c < 0x10000
      then [u8 (0xE0 + c div 4096), u8 (0x80 + c div 64 mod 64), u8 (0x80 + c mod 64)]
      else [u8 (0xF0 + c div 262144), u8 (0x80 + c div 4096 mod 64),
            u8 (0x80 + c div 64 mod 64), u8 (0x80 + c mod 64)])"

definition utf8 :: "js_string \<Rightarrow> bytes" where
  "utf8 s = concat (map utf8_point (utf16_points s))"

definition is_cont :: "byte \<Rightarrow> bool" where
  "is_cont b = (0x80 \<le> unat b \<and> unat b \<le> 0xBF)"

text \<open>The decoder on byte values: lead byte, allowed range of the second byte, continuation bytes.\<close>

fun utf8_scalars :: "bytes \<Rightarrow> nat list option" where
  "utf8_scalars [] = Some []"
| "utf8_scalars (b # r) =
     (let n = unat b in
      if n < 0x80 then map_option (Cons n) (utf8_scalars r)
      else if 0xC2 \<le> n \<and> n \<le> 0xDF then
        (case r of b1 # r1 \<Rightarrow>
           if is_cont b1
           then map_option (Cons ((n - 0xC0) * 64 + (unat b1 - 0x80))) (utf8_scalars r1) else None
         | [] \<Rightarrow> None)
      else if 0xE0 \<le> n \<and> n \<le> 0xEF then
        (case r of b1 # b2 # r2 \<Rightarrow>
           if is_cont b1 \<and> is_cont b2 \<and> (n = 0xE0 \<longrightarrow> 0xA0 \<le> unat b1) \<and> (n = 0xED \<longrightarrow> unat b1 \<le> 0x9F)
           then map_option (Cons ((n - 0xE0) * 4096 + (unat b1 - 0x80) * 64 + (unat b2 - 0x80)))
                  (utf8_scalars r2) else None
         | _ \<Rightarrow> None)
      else if 0xF0 \<le> n \<and> n \<le> 0xF4 then
        (case r of b1 # b2 # b3 # r3 \<Rightarrow>
           if is_cont b1 \<and> is_cont b2 \<and> is_cont b3 \<and>
              (n = 0xF0 \<longrightarrow> 0x90 \<le> unat b1) \<and> (n = 0xF4 \<longrightarrow> unat b1 \<le> 0x8F)
           then map_option (Cons ((n - 0xF0) * 262144 + (unat b1 - 0x80) * 4096
                                  + (unat b2 - 0x80) * 64 + (unat b3 - 0x80)))
                  (utf8_scalars r3) else None
         | _ \<Rightarrow> None)
      else None)"

definition strip_bom :: "bytes \<Rightarrow> bytes" where
  "strip_bom bs = (if take 3 bs = [0xEF, 0xBB, 0xBF] then drop 3 bs else bs)"

text \<open>The helper \<open>utf8Decode\<close> of the parser: \<open>undefined\<close> (here \<open>None\<close>) when the decoder throws.\<close>

definition utf8Decode :: "bytes \<Rightarrow> js_string option" where
  "utf8Decode b = map_option (\<lambda>cs. concat (map point_units cs)) (utf8_scalars (strip_bom b))"

subsection \<open>Round trip\<close>

definition scalar :: "nat \<Rightarrow> bool" where
  "scalar c = (c < 0x110000 \<and> \<not> (0xD800 \<le> c \<and> c \<le> 0xDFFF))"

lemma cont_byte [simp]: "is_cont (u8 (0x80 + n mod 64))" "unat (u8 (0x80 + n mod 64)) = 0x80 + n mod 64"
  by (simp_all add: is_cont_def)

lemma utf8_scalars_1: "c < 0x80 \<Longrightarrow> utf8_scalars (utf8_point c @ r) = map_option (Cons c) (utf8_scalars r)"
  by (simp add: utf8_point_def)

lemma utf8_scalars_2_bytes:
  assumes "unat b0 = 0xC0 + x" "2 \<le> x" "x < 32" "unat b1 = 0x80 + y" "y < 64"
  shows "utf8_scalars (b0 # b1 # r) = map_option (Cons (x * 64 + y)) (utf8_scalars r)"
  using assms by (simp add: is_cont_def)

lemma utf8_scalars_3_bytes:
  assumes "unat b0 = 0xE0 + x" "x < 16" "unat b1 = 0x80 + y" "y < 64" "unat b2 = 0x80 + z" "z < 64"
    and "x = 0 \<Longrightarrow> 32 \<le> y" "x = 13 \<Longrightarrow> y \<le> 31"
  shows "utf8_scalars (b0 # b1 # b2 # r) = map_option (Cons (x * 4096 + y * 64 + z)) (utf8_scalars r)"
  using assms by (simp add: is_cont_def)

lemma utf8_scalars_4_bytes:
  assumes "unat b0 = 0xF0 + w" "w < 5" "unat b1 = 0x80 + x" "x < 64" "unat b2 = 0x80 + y" "y < 64"
    "unat b3 = 0x80 + z" "z < 64" and "w = 0 \<Longrightarrow> 16 \<le> x" "w = 4 \<Longrightarrow> x \<le> 15"
  shows "utf8_scalars (b0 # b1 # b2 # b3 # r)
         = map_option (Cons (w * 262144 + x * 4096 + y * 64 + z)) (utf8_scalars r)"
  using assms by (simp add: is_cont_def)

lemma cont_value: "unat (u8 (0x80 + n mod 64)) = 0x80 + n mod 64" "n mod 64 < (64 :: nat)"
  by simp_all

lemma split_64: "c = c div 64 * 64 + (c mod 64 :: nat)"
  by simp

lemma split_4096: "c = c div 4096 * 4096 + c div 64 mod 64 * 64 + (c mod 64 :: nat)"
proof -
  have "c div 4096 = c div 64 div 64" by (simp add: div_mult2_eq [symmetric])
  then show ?thesis using split_64 [of c] split_64 [of "c div 64"] by linarith
qed

lemma split_262144:
  "c = c div 262144 * 262144 + c div 4096 mod 64 * 4096 + c div 64 mod 64 * 64 + (c mod 64 :: nat)"
proof -
  have "c div 262144 = c div 4096 div 64" by (simp add: div_mult2_eq [symmetric])
  then show ?thesis using split_4096 [of c] split_64 [of "c div 4096"] by linarith
qed

lemma utf8_scalars_2:
  assumes "0x80 \<le> c" and "c < 0x800"
  shows "utf8_scalars (utf8_point c @ r) = map_option (Cons c) (utf8_scalars r)"
proof -
  have "2 \<le> c div 64" "c div 64 < 32" using assms by auto
  then have "utf8_scalars (u8 (0xC0 + c div 64) # u8 (0x80 + c mod 64) # r)
             = map_option (Cons (c div 64 * 64 + c mod 64)) (utf8_scalars r)"
    by (intro utf8_scalars_2_bytes cont_value) simp_all
  with assms show ?thesis by (simp add: utf8_point_def del: utf8_scalars.simps)
qed

lemma utf8_scalars_3:
  assumes "0x800 \<le> c" and "c < 0x10000" and "scalar c"
  shows "utf8_scalars (utf8_point c @ r) = map_option (Cons c) (utf8_scalars r)"
proof -
  have b: "c div 4096 < 16" using assms by auto
  have lo: "32 \<le> c div 64 mod 64" if "c div 4096 = 0" using split_4096 [of c] that assms(1) by arith
  have hi: "c div 64 mod 64 \<le> 31" if "c div 4096 = 13"
    using split_4096 [of c] that assms(3) unfolding scalar_def by arith
  have "utf8_scalars (u8 (0xE0 + c div 4096) # u8 (0x80 + c div 64 mod 64) # u8 (0x80 + c mod 64) # r)
        = map_option (Cons (c div 4096 * 4096 + c div 64 mod 64 * 64 + c mod 64)) (utf8_scalars r)"
    using b lo hi by (intro utf8_scalars_3_bytes cont_value) simp_all
  with assms split_4096 [of c] show ?thesis
    by (simp add: utf8_point_def del: utf8_scalars.simps unat_u8)
qed

lemma utf8_scalars_4:
  assumes "0x10000 \<le> c" and "c < 0x110000"
  shows "utf8_scalars (utf8_point c @ r) = map_option (Cons c) (utf8_scalars r)"
proof -
  have b: "c div 262144 < 5" using assms by auto
  have lo: "16 \<le> c div 4096 mod 64" if "c div 262144 = 0"
    using split_262144 [of c] that assms(1) cont_value(2) [of "c div 64"] cont_value(2) [of c] by arith
  have hi: "c div 4096 mod 64 \<le> 15" if "c div 262144 = 4"
    using split_262144 [of c] that assms(2) by arith
  have "utf8_scalars (u8 (0xF0 + c div 262144) # u8 (0x80 + c div 4096 mod 64)
           # u8 (0x80 + c div 64 mod 64) # u8 (0x80 + c mod 64) # r)
        = map_option (Cons (c div 262144 * 262144 + c div 4096 mod 64 * 4096
                            + c div 64 mod 64 * 64 + c mod 64)) (utf8_scalars r)"
    using b lo hi by (intro utf8_scalars_4_bytes cont_value) simp_all
  with assms split_262144 [of c] show ?thesis
    by (simp add: utf8_point_def del: utf8_scalars.simps unat_u8)
qed

lemma utf8_scalars_point:
  assumes "scalar c"
  shows "utf8_scalars (utf8_point c @ r) = map_option (Cons c) (utf8_scalars r)"
proof -
  consider "c < 0x80" | "0x80 \<le> c" "c < 0x800" | "0x800 \<le> c" "c < 0x10000"
    | "0x10000 \<le> c" "c < 0x110000"
    using assms unfolding scalar_def by linarith
  then show ?thesis
    by cases (use assms in \<open>simp_all only: utf8_scalars_1 utf8_scalars_2 utf8_scalars_3 utf8_scalars_4\<close>)
qed

lemma utf8_scalars_points:
  "\<forall>c \<in> set cs. scalar c \<Longrightarrow> utf8_scalars (concat (map utf8_point cs)) = Some cs"
  by (induction cs) (simp_all add: utf8_scalars_point)

lemma unit_less: "unat (u :: 16 word) < 0x10000"
  by (rule less_le_trans [OF unsigned_less]) simp

lemma scalar_unit: "\<not> hi_surrogate u \<Longrightarrow> \<not> lo_surrogate u \<Longrightarrow> scalar (unat u)"
  using unit_less [of u] unfolding scalar_def hi_surrogate_def lo_surrogate_def by linarith

lemma scalar_pair: "hi_surrogate u \<Longrightarrow> lo_surrogate v \<Longrightarrow> scalar (pair_point u v)"
  unfolding scalar_def hi_surrogate_def lo_surrogate_def pair_point_def by linarith

lemma scalar_fffd: "scalar 0xFFFD"
  by (simp add: scalar_def)

lemma utf16_points_scalar: "\<forall>c \<in> set (utf16_points s). scalar c"
  by (induction s rule: utf16_points.induct) (simp_all add: scalar_unit scalar_pair scalar_fffd)

lemma pair_point_units:
  assumes "hi_surrogate u" and "lo_surrogate v"
  shows "point_units (pair_point u v) = [u, v]"
proof -
  have lo: "unat v - 0xDC00 < 0x400" using assms(2) unfolding lo_surrogate_def by arith
  have p: "pair_point u v - 0x10000 = (unat v - 0xDC00) + 0x400 * (unat u - 0xD800)"
    by (simp add: pair_point_def)
  from lo have "(pair_point u v - 0x10000) div 0x400 = unat u - 0xD800"
    and "(pair_point u v - 0x10000) mod 0x400 = unat v - 0xDC00"
    unfolding p by (simp_all only: div_mult_self2 mod_mult_self2) simp_all
  moreover have "0x10000 \<le> pair_point u v" by (simp add: pair_point_def)
  moreover note assms
  ultimately show ?thesis
    by (simp add: point_units_def hi_surrogate_def lo_surrogate_def)
qed

lemma unit_point_units: "point_units (unat (u :: 16 word)) = [u]"
  using unit_less [of u] by (simp add: point_units_def)

lemma utf16_points_units:
  "well_formed_utf16 s \<Longrightarrow> concat (map point_units (utf16_points s)) = s"
  by (induction s rule: utf16_points.induct)
     (auto simp: pair_point_units unit_point_units split: if_splits)

lemma utf8_scalars_utf8: "utf8_scalars (utf8 s) = Some (utf16_points s)"
  by (simp add: utf8_def utf8_scalars_points utf16_points_scalar)

text \<open>No byte-order mark in front: what the decoder does not drop.\<close>

definition no_bom :: "js_string \<Rightarrow> bool" where
  "no_bom s = (take 3 (utf8 s) \<noteq> [0xEF, 0xBB, 0xBF])"

theorem utf8_roundtrip:
  "well_formed_utf16 s \<Longrightarrow> no_bom s \<Longrightarrow> utf8Decode (utf8 s) = Some s"
  by (simp add: utf8Decode_def no_bom_def strip_bom_def utf8_scalars_utf8 utf16_points_units)

lemma utf8_point_nonempty: "utf8_point c \<noteq> []"
  by (simp add: utf8_point_def)

lemma utf8_eq_Nil [simp]: "utf8 s = [] \<longleftrightarrow> s = []"
  by (cases s rule: utf16_points.cases) (simp_all add: utf8_def utf8_point_nonempty)

end
