(* ===== verification/InscBase.thy ===== *)
theory InscBase imports JsText begin

text \<open>
  \<open>platform/inscription/src/constants.ts\<close> and \<open>bytes.ts\<close>: limits, opcodes of the reveal, the
  errors the library throws, and the byte helpers (CompactSize, little-endian integers, txids).
  Third-party primitives (\<open>@scure/base\<close>, \<open>@noble/hashes\<close>) are fields of the record \<open>hash_lib\<close>.
\<close>

subsection \<open>Constants\<close>

definition MAX_STANDARD_TX_WEIGHT :: nat where "MAX_STANDARD_TX_WEIGHT = 400000"
definition MAX_BLOCK_WEIGHT :: nat where "MAX_BLOCK_WEIGHT = 4000000"
definition BLOCK_LANE_MAX_TX_WEIGHT :: nat where "BLOCK_LANE_MAX_TX_WEIGHT = 3990000"
definition MAX_SCRIPT_ELEMENT_SIZE :: nat where "MAX_SCRIPT_ELEMENT_SIZE = 520"
definition DUST_P2TR :: int where "DUST_P2TR = 330"
definition DEFAULT_POSTAGE :: int where "DEFAULT_POSTAGE = 546"
definition REVEAL_TX_VERSION :: int where "REVEAL_TX_VERSION = 2"
definition REVEAL_LOCKTIME :: nat where "REVEAL_LOCKTIME = 0"
definition REVEAL_SEQUENCE :: nat where "REVEAL_SEQUENCE = 0xfffffffd"
definition TAPSCRIPT_LEAF_VERSION :: byte where "TAPSCRIPT_LEAF_VERSION = 0xc0"
definition SIGHASH_SINGLE_ANYONECANPAY :: byte where "SIGHASH_SINGLE_ANYONECANPAY = 0x83"
definition SIGHASH_ALL_ANYONECANPAY :: byte where "SIGHASH_ALL_ANYONECANPAY = 0x81"
definition SIGHASH_DEFAULT :: byte where "SIGHASH_DEFAULT = 0x00"
definition SIGHASH_ALL :: byte where "SIGHASH_ALL = 0x01"

lemmas sighash_defs = SIGHASH_SINGLE_ANYONECANPAY_def SIGHASH_ALL_ANYONECANPAY_def
  SIGHASH_DEFAULT_def SIGHASH_ALL_def

lemmas limit_defs = MAX_STANDARD_TX_WEIGHT_def MAX_BLOCK_WEIGHT_def BLOCK_LANE_MAX_TX_WEIGHT_def
  MAX_SCRIPT_ELEMENT_SIZE_def DUST_P2TR_def DEFAULT_POSTAGE_def

text \<open>
  A \<open>throw new Error(message)\<close>: the constant text of the message, without the values the source
  interpolates into it.
\<close>

datatype insc_error = Error string

datatype RevealSighashMode = AllAnyonecanpay | SingleAnyonecanpay

text \<open>The mode, or the hash-type byte itself, or \<open>undefined\<close>.\<close>

datatype sighash_arg = Mode RevealSighashMode | TypeByte byte

definition DEFAULT_REVEAL_SIGHASH_MODE :: RevealSighashMode where
  "DEFAULT_REVEAL_SIGHASH_MODE = AllAnyonecanpay"

definition revealSighashType :: "sighash_arg option \<Rightarrow> insc_error + byte" where
  "revealSighashType mode =
     (let m = (case mode of None \<Rightarrow> Mode DEFAULT_REVEAL_SIGHASH_MODE | Some m \<Rightarrow> m) in
      if m = Mode AllAnyonecanpay \<or> m = TypeByte SIGHASH_ALL_ANYONECANPAY
      then Inr SIGHASH_ALL_ANYONECANPAY
      else if m = Mode SingleAnyonecanpay \<or> m = TypeByte SIGHASH_SINGLE_ANYONECANPAY
      then Inr SIGHASH_SINGLE_ANYONECANPAY
      else Inl (Error ''unknown reveal sighash mode''))"

subsection \<open>Third-party primitives\<close>

record hash_lib =
  hexEncode :: "bytes \<Rightarrow> string"
  hexDecode :: "string \<Rightarrow> bytes option"
  sha256 :: "bytes \<Rightarrow> bytes"

text \<open>
  Documented behaviour of \<open>@scure/base\<close>'s \<open>hex\<close>: \<open>encode\<close> writes two lower-case digits per byte,
  \<open>decode\<close> inverts it. SHA-256 digests have 32 bytes.
\<close>

definition hex_documented :: "'z hash_lib_scheme \<Rightarrow> bool" where
  "hex_documented L \<longleftrightarrow> (\<forall>bs. hexEncode L bs = hex_string bs \<and> hexDecode L (hex_string bs) = Some bs)"

definition sha256_documented :: "'z hash_lib_scheme \<Rightarrow> bool" where
  "sha256_documented L \<longleftrightarrow> (\<forall>bs. length (sha256 L bs) = 32)"

subsection \<open>Byte helpers\<close>

definition equalBytes :: "bytes \<Rightarrow> bytes \<Rightarrow> bool" where
  "equalBytes a b = (length a = length b \<and> list_all (\<lambda>i. a ! i = b ! i) [0..<length a])"

lemma equalBytes_iff [simp]: "equalBytes a b \<longleftrightarrow> a = b"
  by (auto simp: equalBytes_def list_all_iff intro: nth_equalityI)

text \<open>The copy loop of \<open>concatBytes\<close>: each part is \<open>set\<close> into the buffer at the running offset.\<close>

primrec concat_into :: "bytes \<Rightarrow> nat \<Rightarrow> bytes list \<Rightarrow> bytes option" where
  "concat_into out o' [] = Some out"
| "concat_into out o' (p # ps) =
     (case buf_set out o' p of None \<Rightarrow> None | Some out' \<Rightarrow> concat_into out' (o' + length p) ps)"

definition concatBytes :: "bytes list \<Rightarrow> bytes" where
  "concatBytes parts =
     (case concat_into (replicate (sum_list (map length parts)) 0) 0 parts of
        Some out \<Rightarrow> out | None \<Rightarrow> [])"

lemma concat_into_append:
  "length suf = sum_list (map length ps) \<Longrightarrow>
     concat_into (pre @ suf) (length pre) ps = Some (pre @ concat ps)"
proof (induction ps arbitrary: pre suf)
  case Nil
  then show ?case by simp
next
  case (Cons p ps)
  have "concat_into ((pre @ p) @ drop (length p) suf) (length (pre @ p)) ps
        = Some ((pre @ p) @ concat ps)"
    using Cons.prems by (intro Cons.IH) simp
  with Cons.prems show ?case by (simp add: buf_set_append)
qed

lemma concatBytes_eq [simp]: "concatBytes parts = concat parts"
  using concat_into_append [of "replicate (sum_list (map length parts)) 0" parts "[]"]
  by (simp add: concatBytes_def)

definition compactSizeLen :: "nat \<Rightarrow> nat" where
  "compactSizeLen n = (if n < 0xfd then 1 else if n \<le> 0xffff then 3 else if n \<le> 0xffffffff then 5 else 9)"

definition MAX_SAFE_INTEGER :: nat where "MAX_SAFE_INTEGER = 2 ^ 53 - 1"

definition compactSize :: "nat \<Rightarrow> insc_error + bytes" where
  "compactSize n =
     (if n > MAX_SAFE_INTEGER then Inl (Error ''compactSize: invalid'')
      else if n < 0xfd then Inr [u8 n]
      else if n \<le> 0xffff then Inr [0xfd, u8 (n mod 256), u8 (n div 256)]
      else if n \<le> 0xffffffff
      then Inr [0xfe, u8 (n mod 256), u8 (n div 256 mod 256), u8 (n div 65536 mod 256), u8 (n div 16777216)]
      else Inl (Error ''compactSize: > 2^32 not supported''))"

definition u32le :: "nat \<Rightarrow> bytes" where
  "u32le n = [u8 (n mod 256), u8 (n div 256 mod 256), u8 (n div 65536 mod 256), u8 (n div 16777216 mod 256)]"

text \<open>\<open>n >>> 0\<close> is the residue modulo \<open>2 ^ 32\<close>.\<close>

definition i32le :: "int \<Rightarrow> bytes" where
  "i32le n = u32le (nat (n mod 2 ^ 32))"

text \<open>The loop of \<open>u64le\<close>: \<open>k\<close> more bytes, \<open>v\<close> what is left of the number.\<close>

primrec u64le_loop :: "nat \<Rightarrow> nat \<Rightarrow> bytes" where
  "u64le_loop 0 v = []"
| "u64le_loop (Suc k) v = u8 (v mod 256) # u64le_loop k (v div 256)"

definition u64le :: "int \<Rightarrow> insc_error + bytes" where
  "u64le n = (if n < 0 \<or> n > 0xffffffffffffffff then Inl (Error ''u64: out of range'')
              else Inr (u64le_loop 8 (nat n)))"

definition is_txid :: "string \<Rightarrow> bool" where
  "is_txid s = (length s = 64 \<and> list_all is_hex s)"

definition txidToInternal :: "'z hash_lib_scheme \<Rightarrow> string \<Rightarrow> insc_error + bytes" where
  "txidToInternal L txid =
     (if \<not> is_txid txid then Inl (Error ''invalid txid'')
      else case hexDecode L (lower_string txid) of None \<Rightarrow> Inl (Error ''hex.decode'') | Some bs \<Rightarrow> Inr (rev bs))"

definition internalToTxid :: "'z hash_lib_scheme \<Rightarrow> bytes \<Rightarrow> string" where
  "internalToTxid L bs = hexEncode L (rev bs)"

definition sha256Hex :: "'z hash_lib_scheme \<Rightarrow> bytes \<Rightarrow> string" where
  "sha256Hex L bs = hexEncode L (sha256 L bs)"

text \<open>\<open>assertBytes\<close> with a length: the \<open>instanceof\<close> test is the typing of the model.\<close>

definition assertBytes :: "bytes \<Rightarrow> nat \<Rightarrow> string \<Rightarrow> insc_error + unit" where
  "assertBytes b len name = (if length b \<noteq> len then Inl (Error (name @ '' has the wrong length'')) else Inr ())"

subsection \<open>Facts about the byte helpers\<close>

lemma u32le_eq: "u32le n = le_bytes 4 n"
  by (simp add: u32le_def le_bytes_4)

lemma length_u32le [simp]: "length (u32le n) = 4"
  by (simp add: u32le_def)

lemma u32le_inj: "n < 2 ^ 32 \<Longrightarrow> m < 2 ^ 32 \<Longrightarrow> u32le n = u32le m \<longleftrightarrow> n = m"
  unfolding u32le_eq by (rule le_bytes_inj) simp_all

lemma u64le_loop_eq: "u64le_loop k v = le_bytes k v"
  by (induction k arbitrary: v) (simp_all add: u8_eq_iff)

lemma length_u64le: "u64le n = Inr bs \<Longrightarrow> length bs = 8"
  by (auto simp: u64le_def u64le_loop_eq)

lemma u64le_inj:
  assumes "u64le n = Inr bs" and "u64le m = Inr bs"
  shows "n = m"
proof -
  have "nat n < 256 ^ 8" "nat m < 256 ^ 8" "0 \<le> n" "0 \<le> m"
    using assms by (auto simp: u64le_def)
  moreover have "le_bytes 8 (nat n) = le_bytes 8 (nat m)"
    using assms by (auto simp: u64le_def u64le_loop_eq)
  ultimately show ?thesis by (simp add: le_bytes_inj)
qed

lemma compactSize_ok: "n \<le> 0xffffffff \<longleftrightarrow> is_ok (compactSize n)"
  by (auto simp: compactSize_def MAX_SAFE_INTEGER_def)

lemma compactSize_length: "compactSize n = Inr bs \<Longrightarrow> length bs = compactSizeLen n"
  by (auto simp: compactSize_def compactSizeLen_def split: if_splits)

text \<open>The prefix read back: what a consensus decoder does with the first byte.\<close>

definition compact_value :: "bytes \<Rightarrow> nat" where
  "compact_value bs =
     (if unat (hd bs) < 0xfd then unat (hd bs)
      else if hd bs = 0xfd then le_nat (take 2 (tl bs)) else le_nat (take 4 (tl bs)))"

lemma compact_value_compactSize: "compactSize n = Inr bs \<Longrightarrow> compact_value (bs @ r) = n"
proof -
  assume c: "compactSize n = Inr bs"
  consider "n < 0xfd" | "0xfd \<le> n" "n \<le> 0xffff" | "0xffff < n" "n \<le> 0xffffffff"
    using c by (auto simp: compactSize_def split: if_splits)
  then show ?thesis
  proof cases
    case 1
    with c have "bs = [u8 n]" by (simp add: compactSize_def split: if_splits)
    moreover from 1 have "unat (u8 n) = n" by simp
    ultimately show ?thesis using 1 by (simp add: compact_value_def del: unat_u8)
  next
    case 2
    with c have "bs = 0xfd # le_bytes 2 n"
      by (simp add: compactSize_def le_bytes_2 split: if_splits)
    with 2 show ?thesis by (simp add: compact_value_def le_nat_le_bytes)
  next
    case 3
    with c have "bs = 0xfe # le_bytes 4 n"
      by (simp add: compactSize_def le_bytes_4 split: if_splits)
    with 3 show ?thesis by (simp add: compact_value_def le_nat_le_bytes)
  qed
qed

lemma compactSize_prefix_free:
  assumes "compactSize n = Inr a" and "compactSize m = Inr b" and "a @ x = b @ y"
  shows "n = m \<and> x = y"
proof -
  have "n = m" using compact_value_compactSize [OF assms(1), of x]
      compact_value_compactSize [OF assms(2), of y] assms(3) by simp
  with assms show ?thesis by simp
qed

lemma length_i32le [simp]: "length (i32le n) = 4"
  by (simp add: i32le_def)

lemma txidToInternal_ok:
  assumes "hex_documented L" and "is_txid t"
  shows "txidToInternal L t = Inr (rev (unhex t))"
proof -
  have "hex_string (unhex t) = lower_string t"
    using assms(2) by (intro hex_string_unhex) (auto simp: is_txid_def)
  then have "hexDecode L (lower_string t) = Some (unhex t)"
    using assms(1) by (metis hex_documented_def)
  with assms(2) show ?thesis by (simp add: txidToInternal_def)
qed

lemma length_txidToInternal:
  "hex_documented L \<Longrightarrow> txidToInternal L t = Inr bs \<Longrightarrow> length bs = 32"
  by (auto simp: txidToInternal_ok length_unhex txidToInternal_def is_txid_def
           split: if_splits option.splits dest: txidToInternal_ok)

text \<open>
  Reading a txid into internal byte order and writing it back gives the same txid in
  lower case.
\<close>

lemma txid_roundtrip:
  assumes "hex_documented L" and "txidToInternal L t = Inr bs"
  shows "internalToTxid L bs = lower_string t"
proof -
  have t: "is_txid t" using assms(2) by (auto simp: txidToInternal_def split: if_splits)
  then have "hex_string (unhex t) = lower_string t"
    by (intro hex_string_unhex) (auto simp: is_txid_def)
  moreover have "bs = rev (unhex t)" using txidToInternal_ok [OF assms(1) t] assms(2) by simp
  ultimately show ?thesis using assms(1) by (simp add: internalToTxid_def hex_documented_def)
qed

end
