(* ===== verification/Envelope.thy ===== *)
theory Envelope imports InscBase begin

text \<open>
  \<open>platform/inscription/src/envelope.ts\<close>: the tapscript builder. The writer works on a
  preallocated buffer with a running offset, as the code does; \<open>envelope_bytes\<close> is the byte string
  it is meant to leave there, and the refinement lemmas show that it does and that the final
  length check can never fail.
\<close>

subsection \<open>Content and opcodes\<close>

record InscriptionContent =
  contentType :: js_string
  body :: bytes
  parentId :: "string option"
  metadata :: "bytes option"

definition OP_0 :: byte where "OP_0 = 0x00"
definition OP_PUSHDATA1 :: byte where "OP_PUSHDATA1 = 0x4c"
definition OP_PUSHDATA2 :: byte where "OP_PUSHDATA2 = 0x4d"
definition OP_IF :: byte where "OP_IF = 0x63"
definition OP_ENDIF :: byte where "OP_ENDIF = 0x68"
definition OP_CHECKSIG :: byte where "OP_CHECKSIG = 0xac"

definition TAG_BODY :: nat where "TAG_BODY = 0"
definition TAG_CONTENT_TYPE :: nat where "TAG_CONTENT_TYPE = 1"
definition TAG_POINTER :: nat where "TAG_POINTER = 2"
definition TAG_PARENT :: nat where "TAG_PARENT = 3"
definition TAG_METADATA :: nat where "TAG_METADATA = 5"
definition TAG_METAPROTOCOL :: nat where "TAG_METAPROTOCOL = 7"
definition TAG_CONTENT_ENCODING :: nat where "TAG_CONTENT_ENCODING = 9"
definition TAG_DELEGATE :: nat where "TAG_DELEGATE = 11"

lemmas tag_defs = TAG_BODY_def TAG_CONTENT_TYPE_def TAG_POINTER_def TAG_PARENT_def TAG_METADATA_def
  TAG_METAPROTOCOL_def TAG_CONTENT_ENCODING_def TAG_DELEGATE_def

lemmas op_defs = OP_0_def OP_PUSHDATA1_def OP_PUSHDATA2_def OP_IF_def OP_ENDIF_def OP_CHECKSIG_def

definition CHUNK :: nat where "CHUNK = MAX_SCRIPT_ELEMENT_SIZE"

definition PROTOCOL_ID :: bytes where "PROTOCOL_ID = [0x6f, 0x72, 0x64]"

lemma PROTOCOL_ID_utf8: "PROTOCOL_ID = utf8 (map (\<lambda>c. word_of_nat (of_char c)) ''ord'')"
  by (simp add: PROTOCOL_ID_def utf8_def hi_surrogate_def lo_surrogate_def utf8_point_def u8_def)

subsection \<open>Pushes\<close>

definition pushSize :: "nat \<Rightarrow> insc_error + nat" where
  "pushSize n =
     (if n = 0 then Inr 1
      else if n \<le> 75 then Inr (1 + n)
      else if n \<le> 0xff then Inr (2 + n)
      else if n \<le> MAX_SCRIPT_ELEMENT_SIZE then Inr (3 + n)
      else Inl (Error ''push exceeds MAX_SCRIPT_ELEMENT_SIZE''))"

text \<open>\<open>writePush(out, o, data)\<close>: the buffer after the writes and the offset returned.\<close>

definition writePush :: "bytes \<Rightarrow> nat \<Rightarrow> bytes \<Rightarrow> insc_error + (bytes \<times> nat)" where
  "writePush out ofs data =
     (let n = length data in
      if n = 0 then Inr (out[ofs := OP_0], ofs + 1)
      else ebind
        (if n \<le> 75 then Inr (out[ofs := u8 n], ofs + 1)
         else if n \<le> 0xff then Inr (out[ofs := OP_PUSHDATA1, ofs + 1 := u8 n], ofs + 2)
         else if n \<le> MAX_SCRIPT_ELEMENT_SIZE
         then Inr (out[ofs := OP_PUSHDATA2, ofs + 1 := u8 (n mod 256), ofs + 2 := u8 (n div 256)], ofs + 3)
         else Inl (Error ''push exceeds MAX_SCRIPT_ELEMENT_SIZE''))
        (\<lambda>(out1, o1). case buf_set out1 o1 data of
             None \<Rightarrow> Inl (Error ''offset is out of bounds'')
           | Some out2 \<Rightarrow> Inr (out2, o1 + n)))"

text \<open>\<open>chunkSizes(len)\<close>: the loop over \<open>off\<close>.\<close>

function chunkSizes_from :: "nat \<Rightarrow> nat \<Rightarrow> nat list" where
  "chunkSizes_from off len =
     (if off < len then min CHUNK (len - off) # chunkSizes_from (off + CHUNK) len else [])"
  by pat_completeness auto
termination
  by (relation "measure (\<lambda>(off, len). len - off)") (auto simp: CHUNK_def MAX_SCRIPT_ELEMENT_SIZE_def)

declare chunkSizes_from.simps [simp del]

definition chunkSizes :: "nat \<Rightarrow> nat list" where
  "chunkSizes len = chunkSizes_from 0 len"

subsection \<open>Inscription ids\<close>

text \<open>\<open>/^([0-9a-fA-F]{64})i(0|[1-9][0-9]*)$/\<close>: the txid group and the digits group.\<close>

definition match_inscription_id :: "string \<Rightarrow> (string \<times> string) option" where
  "match_inscription_id s =
     (let h = take 64 s; r = drop 64 s in
      if length h = 64 \<and> list_all is_hex h then
        (case r of
           c # ds \<Rightarrow>
             if c = CHR ''i'' \<and> ds \<noteq> [] \<and> list_all is_digit ds \<and> (ds = ''0'' \<or> hd ds \<noteq> CHR ''0'')
             then Some (h, ds) else None
         | [] \<Rightarrow> None)
      else None)"

text \<open>The loop \<open>while (end > 32 && bytes[end - 1] === 0) end--\<close>.\<close>

fun trim_end :: "bytes \<Rightarrow> nat \<Rightarrow> nat" where
  "trim_end bs 0 = 0"
| "trim_end bs (Suc e) = (if 32 \<le> e \<and> bs ! e = 0 then trim_end bs e else Suc e)"

text \<open>
  The loop over \<open>i\<close> that reads the txid's digit pairs from the right:
  \<open>parseInt(txid.slice(62 - 2 * i, 64 - 2 * i), 16)\<close>.
\<close>

definition parse_pair :: "string \<Rightarrow> nat \<Rightarrow> byte" where
  "parse_pair txid i =
     u8 (16 * the (hex_val (txid ! (62 - 2 * i))) + the (hex_val (txid ! (63 - 2 * i))))"

definition encodeParentId :: "string \<Rightarrow> insc_error + bytes" where
  "encodeParentId ident =
     (case match_inscription_id ident of
        None \<Rightarrow> Inl (Error ''invalid inscription id'')
      | Some (h, ds) \<Rightarrow>
          (let index = num_of_digits 0 ds in
           if index > 0xffffffff then Inl (Error ''inscription index out of range'')
           else
             let txid = lower_string h;
                 bs = map (parse_pair txid) [0..<32]
                      @ [u8 (index mod 256), u8 (index div 256 mod 256),
                         u8 (index div 65536 mod 256), u8 (index div 16777216 mod 256)]
             in Inr (take (trim_end bs 36) bs)))"

subsection \<open>The script\<close>

record Prepared =
  pContentType :: bytes
  pParent :: "bytes option"
  pMetadata :: "bytes option"
  pBody :: bytes

definition prepare :: "InscriptionContent \<Rightarrow> insc_error + Prepared" where
  "prepare content =
     (if contentType content = [] then Inl (Error ''content.contentType must be a non-empty string'')
      else let ct = utf8 (contentType content) in
        if length ct > MAX_SCRIPT_ELEMENT_SIZE then Inl (Error ''content.contentType exceeds 520 bytes'')
        else let md = (case metadata content of
                         None \<Rightarrow> None
                       | Some m \<Rightarrow> if length m > 0 then Some m else None) in
          ebind (case parentId content of
                   None \<Rightarrow> Inr None
                 | Some i \<Rightarrow> emap Some (encodeParentId i))
            (\<lambda>parent. Inr \<lparr>pContentType = ct, pParent = parent, pMetadata = md, pBody = body content\<rparr>))"

text \<open>\<open>for (const n of sizes) len += c + pushSize(n)\<close>, with \<open>c\<close> the size added per chunk before it.\<close>

primrec add_push_sizes :: "(insc_error + nat) \<Rightarrow> nat list \<Rightarrow> nat \<Rightarrow> insc_error + nat" where
  "add_push_sizes c [] len = Inr len"
| "add_push_sizes c (n # ns) len =
     ebind c (\<lambda>k. ebind (pushSize n) (\<lambda>m. add_push_sizes c ns (len + k + m)))"

definition scriptLength :: "Prepared \<Rightarrow> insc_error + nat" where
  "scriptLength p =
     ebind (pushSize 3) (\<lambda>s3. ebind (pushSize 1) (\<lambda>s1. ebind (pushSize (length (pContentType p))) (\<lambda>sct.
     let len0 = 33 + 1 + 1 + 1 + s3 + (s1 + sct) in
     ebind (case pParent p of
              None \<Rightarrow> Inr len0
            | Some q \<Rightarrow> ebind (pushSize (length q)) (\<lambda>sp. Inr (len0 + (s1 + sp)))) (\<lambda>len1.
     ebind (case pMetadata p of
              None \<Rightarrow> Inr len1
            | Some m \<Rightarrow> add_push_sizes (pushSize 1) (chunkSizes (length m)) len1) (\<lambda>len2.
     ebind (add_push_sizes (Inr 0) (chunkSizes (length (pBody p))) (len2 + 1)) (\<lambda>len3.
     Inr (len3 + 1)))))))"

definition inscriptionScriptLength :: "InscriptionContent \<Rightarrow> insc_error + nat" where
  "inscriptionScriptLength content = ebind (prepare content) scriptLength"

text \<open>
  The two chunk loops of the builder: \<open>tag\<close> is the tag pushed before each chunk (metadata) or
  \<open>None\<close> (body).
\<close>

function write_chunks ::
  "byte option \<Rightarrow> bytes \<Rightarrow> nat \<Rightarrow> bytes \<times> nat \<Rightarrow> insc_error + (bytes \<times> nat)" where
  "write_chunks tag data off (out, ofs) =
     (if off < length data then
        ebind (case tag of None \<Rightarrow> Inr (out, ofs) | Some t \<Rightarrow> writePush out ofs [t])
          (\<lambda>(out1, o1). ebind (writePush out1 o1 (take CHUNK (drop off data)))
             (\<lambda>st. write_chunks tag data (off + CHUNK) st))
      else Inr (out, ofs))"
  by pat_completeness auto
termination
  by (relation "measure (\<lambda>(tag, data, off, st). length data - off)")
     (auto simp: CHUNK_def MAX_SCRIPT_ELEMENT_SIZE_def)

declare write_chunks.simps [simp del]

definition buildInscriptionScript :: "bytes \<Rightarrow> InscriptionContent \<Rightarrow> insc_error + bytes" where
  "buildInscriptionScript revealPubkey content =
     ebind (assertBytes revealPubkey 32 ''revealPubkey'') (\<lambda>_.
     ebind (prepare content) (\<lambda>p.
     ebind (scriptLength p) (\<lambda>len.
     ebind (writePush (replicate len 0) 0 revealPubkey) (\<lambda>(out, ofs).
     let out = out[ofs := OP_CHECKSIG, ofs + 1 := OP_0, ofs + 2 := OP_IF]; ofs = ofs + 3 in
     ebind (writePush out ofs PROTOCOL_ID) (\<lambda>(out, ofs).
     ebind (writePush out ofs [u8 TAG_CONTENT_TYPE]) (\<lambda>(out, ofs).
     ebind (writePush out ofs (pContentType p)) (\<lambda>(out, ofs).
     ebind (case pParent p of
              None \<Rightarrow> Inr (out, ofs)
            | Some q \<Rightarrow> ebind (writePush out ofs [u8 TAG_PARENT]) (\<lambda>(out, ofs). writePush out ofs q))
       (\<lambda>(out, ofs).
     ebind (case pMetadata p of
              None \<Rightarrow> Inr (out, ofs)
            | Some m \<Rightarrow> write_chunks (Some (u8 TAG_METADATA)) m 0 (out, ofs)) (\<lambda>(out, ofs).
     let out = out[ofs := OP_0]; ofs = ofs + 1 in
     ebind (write_chunks None (pBody p) 0 (out, ofs)) (\<lambda>(out, ofs).
     let out = out[ofs := OP_ENDIF]; ofs = ofs + 1 in
     if ofs \<noteq> length out then Inl (Error ''internal: script length mismatch'') else Inr out))))))))))"

definition inscriptionIdFromReveal :: "string \<Rightarrow> nat \<Rightarrow> insc_error + string" where
  "inscriptionIdFromReveal revealTxid index =
     (if \<not> is_txid revealTxid then Inl (Error ''invalid txid'')
      else if index > 0xffffffff then Inl (Error ''invalid index'')
      else Inr (lower_string revealTxid @ ''i'' @ digits_of_nat index))"

subsection \<open>The bytes the builder is meant to write\<close>

text \<open>One minimal push, and the pushes of a chunk list, each preceded by its tag push if it has one.\<close>

definition push_bytes :: "bytes \<Rightarrow> bytes" where
  "push_bytes data =
     (let n = length data in
      if n = 0 then [OP_0]
      else if n \<le> 75 then u8 n # data
      else if n \<le> 255 then OP_PUSHDATA1 # u8 n # data
      else OP_PUSHDATA2 # u8 (n mod 256) # u8 (n div 256) # data)"

function chunked :: "bytes \<Rightarrow> bytes list" where
  "chunked data = (if data = [] then [] else take CHUNK data # chunked (drop CHUNK data))"
  by pat_completeness auto
termination
  by (relation "measure length") (auto simp: CHUNK_def MAX_SCRIPT_ELEMENT_SIZE_def)

declare chunked.simps [simp del]

definition tag_bytes :: "byte option \<Rightarrow> bytes" where
  "tag_bytes tag = (case tag of None \<Rightarrow> [] | Some t \<Rightarrow> push_bytes [t])"

definition tagged_pushes :: "byte option \<Rightarrow> bytes list \<Rightarrow> bytes" where
  "tagged_pushes tag cs = concat (map (\<lambda>c. tag_bytes tag @ push_bytes c) cs)"

definition envelope_bytes :: "bytes \<Rightarrow> Prepared \<Rightarrow> bytes" where
  "envelope_bytes pk p =
     push_bytes pk @ [OP_CHECKSIG, OP_0, OP_IF] @ push_bytes PROTOCOL_ID
     @ push_bytes [u8 TAG_CONTENT_TYPE] @ push_bytes (pContentType p)
     @ (case pParent p of None \<Rightarrow> [] | Some q \<Rightarrow> push_bytes [u8 TAG_PARENT] @ push_bytes q)
     @ (case pMetadata p of None \<Rightarrow> [] | Some m \<Rightarrow> tagged_pushes (Some (u8 TAG_METADATA)) (chunked m))
     @ [OP_0] @ tagged_pushes None (chunked (pBody p)) @ [OP_ENDIF]"

subsection \<open>Chunks\<close>

lemma CHUNK_eq: "CHUNK = 520"
  by (simp add: CHUNK_def MAX_SCRIPT_ELEMENT_SIZE_def)

lemma chunked_Nil [simp]: "chunked [] = []"
  by (simp add: chunked.simps)

lemma chunked_step: "data \<noteq> [] \<Longrightarrow> chunked data = take CHUNK data # chunked (drop CHUNK data)"
  by (subst chunked.simps) simp

lemma concat_chunked [simp]: "concat (chunked data) = data"
proof (induction data rule: chunked.induct)
  case (1 data)
  then show ?case by (cases "data = []") (simp_all add: chunked_step)
qed

lemma chunked_sizes: "c \<in> set (chunked data) \<Longrightarrow> c \<noteq> [] \<and> length c \<le> 520"
proof (induction data rule: chunked.induct)
  case (1 data)
  then show ?case by (cases "data = []") (auto simp: chunked_step CHUNK_eq)
qed

lemma chunkSizes_chunked: "chunkSizes_from off (length data) = map length (chunked (drop off data))"
proof (induction off "length data" rule: chunkSizes_from.induct)
  case (1 off)
  show ?case
  proof (cases "off < length data")
    case True
    then have "drop off data \<noteq> []" by simp
    with True 1 show ?thesis
      by (subst chunkSizes_from.simps) (simp add: chunked_step min.commute add.commute)
  next
    case False
    then show ?thesis by (subst chunkSizes_from.simps) simp
  qed
qed

lemma tagged_pushes_simps [simp]:
  "tagged_pushes tag [] = []"
  "tagged_pushes tag (c # cs) = tag_bytes tag @ push_bytes c @ tagged_pushes tag cs"
  by (simp_all add: tagged_pushes_def)

subsection \<open>The writer implements the bytes\<close>

lemma pushSize_ok: "length data \<le> 520 \<Longrightarrow> pushSize (length data) = Inr (length (push_bytes data))"
  by (simp add: pushSize_def push_bytes_def Let_def MAX_SCRIPT_ELEMENT_SIZE_def)

lemma pushSize_1: "pushSize (Suc 0) = Inr (length (push_bytes [t]))"
  using pushSize_ok [of "[t]"] by simp

text \<open>A buffer with the prefix \<open>w\<close> written and room for the rest.\<close>

definition written :: "bytes \<Rightarrow> nat \<Rightarrow> bytes \<times> nat \<Rightarrow> bool" where
  "written w room st \<longleftrightarrow> (\<exists>r. st = (w @ r, length w) \<and> length r = room)"

lemma written_start: "written [] n (replicate n 0, 0)"
  by (simp add: written_def)

lemma written_put1:
  "written w (Suc k) (out, ofs) \<Longrightarrow> written (w @ [b]) k (out[ofs := b], Suc ofs)"
  by (auto simp: written_def buf_simps length_Suc_conv)

lemma update_concat: "(w @ r)[length w := b] = w @ r[0 := b]"
  by (simp add: list_update_append)

lemma writePush_written:
  assumes "written w (length (push_bytes data) + k) (out, ofs)" and "length data \<le> 520"
  shows "\<exists>st. writePush out ofs data = Inr st \<and> written (w @ push_bytes data) k st"
proof -
  obtain r where r: "out = w @ r" "ofs = length w" "length r = length (push_bytes data) + k"
    using assms(1) by (auto simp: written_def)
  let ?n = "length data"
  have room: "buf_set ((w @ h) @ r') (length w + length h) data
      = Some ((w @ h @ data) @ drop ?n r')" if "?n \<le> length r'" for h r'
    using that buf_set_append [of data r' "w @ h"] by simp
  consider "data = []" | "data \<noteq> []" "?n \<le> 75" | "75 < ?n" "?n \<le> 255" | "255 < ?n"
    by fastforce
  then show ?thesis
  proof cases
    case 1
    with r show ?thesis
      by (cases r) (auto simp: writePush_def push_bytes_def written_def list_update_append)
  next
    case 2
    with r obtain a r' where r': "r = a # r'" "length r' = ?n + k"
      by (cases r) (auto simp: push_bytes_def)
    with 2 r room [of r' "[u8 ?n]"] show ?thesis
      by (simp add: writePush_def push_bytes_def written_def list_update_append Let_def)
  next
    case 3
    then have pb: "push_bytes data = OP_PUSHDATA1 # u8 ?n # data" by (auto simp: push_bytes_def Let_def)
    with r have "length r = Suc (Suc (?n + k))" by simp
    then obtain a b r' where r': "r = a # b # r'" "length r' = ?n + k" by (auto simp: length_Suc_conv)
    from 3 pb r r' room [of r' "[OP_PUSHDATA1, u8 ?n]"] show ?thesis
      by (auto simp: writePush_def written_def list_update_append Let_def)
  next
    case 4
    then have pb: "push_bytes data = OP_PUSHDATA2 # u8 (?n mod 256) # u8 (?n div 256) # data"
      by (auto simp: push_bytes_def Let_def)
    with r have "length r = Suc (Suc (Suc (?n + k)))" by simp
    then obtain a b c r' where r': "r = a # b # c # r'" "length r' = ?n + k" by (auto simp: length_Suc_conv)
    from 4 pb r r' assms(2) room [of r' "[OP_PUSHDATA2, u8 (?n mod 256), u8 (?n div 256)]"] show ?thesis
      by (auto simp: writePush_def written_def list_update_append Let_def
          MAX_SCRIPT_ELEMENT_SIZE_def numeral_2_eq_2 numeral_3_eq_3)
  qed
qed

lemma write_chunks_written:
  "written w (length (tagged_pushes tag (chunked (drop off data))) + k) st \<Longrightarrow>
     \<exists>st'. write_chunks tag data off st = Inr st'
         \<and> written (w @ tagged_pushes tag (chunked (drop off data))) k st'"
proof (induction "length data - off" arbitrary: off w st rule: less_induct)
  case less
  obtain out ofs where st: "st = (out, ofs)" by (cases st)
  show ?case
  proof (cases "off < length data")
    case False
    with less.prems st show ?thesis by (subst st, subst write_chunks.simps) simp
  next
    case True
    let ?c = "take CHUNK (drop off data)"
    let ?rest = "tagged_pushes tag (chunked (drop (off + CHUNK) data))"
    have ch: "chunked (drop off data) = ?c # chunked (drop (off + CHUNK) data)"
      using True by (simp add: chunked_step add.commute)
    have len: "length ?c \<le> 520" by (simp add: CHUNK_eq)
    have "\<exists>st1. (case tag of None \<Rightarrow> Inr (out, ofs) | Some t \<Rightarrow> writePush out ofs [t]) = Inr st1
            \<and> written (w @ tag_bytes tag) (length (push_bytes ?c) + (length ?rest + k)) st1"
      using less.prems st ch writePush_written [of w "[the tag]" "length (push_bytes ?c) + (length ?rest + k)" out ofs]
      by (cases tag) (auto simp: tag_bytes_def add.assoc)
    then obtain out1 o1 where
      1: "(case tag of None \<Rightarrow> Inr (out, ofs) | Some t \<Rightarrow> writePush out ofs [t]) = Inr (out1, o1)"
         "written (w @ tag_bytes tag) (length (push_bytes ?c) + (length ?rest + k)) (out1, o1)"
      by fastforce
    obtain st2 where 2: "writePush out1 o1 ?c = Inr st2"
        "written ((w @ tag_bytes tag) @ push_bytes ?c) (length ?rest + k) st2"
      using writePush_written [OF 1(2) len] by blast
    have "length data - (off + CHUNK) < length data - off" using True by (simp add: CHUNK_eq)
    from less.hyps [OF this 2(2)] obtain st3 where
      3: "write_chunks tag data (off + CHUNK) st2 = Inr st3"
         "written (((w @ tag_bytes tag) @ push_bytes ?c) @ ?rest) k st3"
      by blast
    have "write_chunks tag data off st = Inr st3"
      using True 1(1) 2(1) 3(1) by (subst st, subst write_chunks.simps) simp
    with 3(2) ch show ?thesis by auto
  qed
qed

lemma add_push_sizes_eq:
  assumes "c = Inr (length (tag_bytes tag))" and "\<forall>x\<in>set cs. length x \<le> 520"
  shows "add_push_sizes c (map length cs) len = Inr (len + length (tagged_pushes tag cs))"
  using assms by (induction cs arbitrary: len) (simp_all add: pushSize_ok)

lemma chunk_lengths: "\<forall>x\<in>set (chunked data). length x \<le> 520"
  using chunked_sizes by blast

text \<open>What \<open>prepare\<close> guarantees of its result.\<close>

definition prepared_ok :: "Prepared \<Rightarrow> bool" where
  "prepared_ok p \<longleftrightarrow> pContentType p \<noteq> [] \<and> length (pContentType p) \<le> 520
     \<and> (\<forall>q. pParent p = Some q \<longrightarrow> 32 \<le> length q \<and> length q \<le> 36) \<and> pMetadata p \<noteq> Some []"

lemma trim_end_bounds: "e \<le> 36 \<Longrightarrow> 32 \<le> e \<Longrightarrow> 32 \<le> trim_end bs e \<and> trim_end bs e \<le> e"
proof (induction e)
  case (Suc e)
  then show ?case by (cases "32 \<le> e") auto
qed simp

lemma encodeParentId_length: "encodeParentId i = Inr q \<Longrightarrow> 32 \<le> length q \<and> length q \<le> 36"
  using trim_end_bounds [of 36]
  by (auto simp: encodeParentId_def Let_def split: option.splits if_splits)

lemma prepare_ok: "prepare content = Inr p \<Longrightarrow> prepared_ok p"
  using utf8_eq_Nil [of "contentType content"]
  by (auto simp: prepare_def prepared_ok_def Let_def MAX_SCRIPT_ELEMENT_SIZE_def emap_def ebind_eq_Inr
      split: if_splits option.splits dest: encodeParentId_length)

lemma scriptLength_eq:
  assumes "length pk = 32" and "prepared_ok p"
  shows "scriptLength p = Inr (length (envelope_bytes pk p))"
proof -
  have 3: "pushSize 3 = Inr 4" and 1: "pushSize 1 = Inr 2" "pushSize (Suc 0) = Inr 2"
    by (simp_all add: pushSize_def)
  have ct: "pushSize (length (pContentType p)) = Inr (length (push_bytes (pContentType p)))"
    using assms(2) by (simp add: pushSize_ok prepared_ok_def)
  have par: "pushSize (length q) = Inr (length (push_bytes q))" if "pParent p = Some q" for q
    using assms(2) that by (simp add: pushSize_ok prepared_ok_def)
  have md: "add_push_sizes (Inr 2) (chunkSizes (length m)) len
      = Inr (len + length (tagged_pushes (Some t) (chunked m)))" for m t len
    using add_push_sizes_eq [of "Inr 2" "Some t" "chunked m"] chunk_lengths [of m]
    by (simp add: chunkSizes_def chunkSizes_chunked tag_bytes_def push_bytes_def)
  have bd: "add_push_sizes (Inr 0) (chunkSizes (length m)) len
      = Inr (len + length (tagged_pushes None (chunked m)))" for m len
    using add_push_sizes_eq [of "Inr 0" None "chunked m"] chunk_lengths [of m]
    by (simp add: chunkSizes_def chunkSizes_chunked tag_bytes_def)
  have pk: "length (push_bytes pk) = 33" "length (push_bytes PROTOCOL_ID) = 4" "length (push_bytes [t]) = 2" for t
    using assms(1) by (simp_all add: push_bytes_def PROTOCOL_ID_def Let_def)
  show ?thesis
    by (simp add: scriptLength_def envelope_bytes_def 3 1 ct par md [of _ _ "u8 TAG_METADATA"] bd pk [simplified] split: option.split)
qed

text \<open>
  A step of the builder \<open>writes\<close> a byte string when it appends it to what is written; a
  continuation \<open>finishes\<close> it when it fills the buffer exactly and returns it.
\<close>

definition writes :: "(bytes \<times> nat \<Rightarrow> insc_error + (bytes \<times> nat)) \<Rightarrow> bytes \<Rightarrow> bool" where
  "writes f b \<longleftrightarrow> (\<forall>w k st. written w (length b + k) st \<longrightarrow> (\<exists>st'. f st = Inr st' \<and> written (w @ b) k st'))"

definition finishes :: "(bytes \<times> nat \<Rightarrow> insc_error + bytes) \<Rightarrow> bytes \<Rightarrow> bool" where
  "finishes f b \<longleftrightarrow> (\<forall>w st. written w (length b) st \<longrightarrow> f st = Inr (w @ b))"

lemma writes_none: "writes Inr []" "writes (case_prod (\<lambda>out ofs. Inr (out, ofs))) []"
  by (auto simp: writes_def)

lemma writes_push: "length d \<le> 520 \<Longrightarrow> writes (case_prod (\<lambda>out ofs. writePush out ofs d)) (push_bytes d)"
  unfolding writes_def split_paired_all using writePush_written by simp

lemma writes_chunks:
  "writes (write_chunks tag d 0) (tagged_pushes tag (chunked d))"
  "writes (case_prod (\<lambda>out ofs. write_chunks tag d 0 (out, ofs))) (tagged_pushes tag (chunked d))"
  using write_chunks_written [of _ tag 0 d] by (simp_all add: writes_def)

lemma writes_bind:
  assumes "writes (case_prod F) a" and "writes g b"
  shows "writes (case_prod (\<lambda>out ofs. ebind (F out ofs) g)) (a @ b)"
  unfolding writes_def
proof (intro allI impI)
  fix w k st
  assume "written w (length (a @ b) + k) st"
  then obtain st1 where 1: "case_prod F st = Inr st1" "written (w @ a) (length b + k) st1"
    using assms(1) unfolding writes_def by (metis add.assoc length_append)
  then obtain st2 where "g st1 = Inr st2" "written ((w @ a) @ b) k st2"
    using assms(2) unfolding writes_def by blast
  with 1(1) show "\<exists>st'. case_prod (\<lambda>out ofs. ebind (F out ofs) g) st = Inr st' \<and> written (w @ a @ b) k st'"
    by (cases st) simp
qed

lemma finishes_bind:
  assumes "writes (case_prod F) a" and "finishes g b"
  shows "finishes (case_prod (\<lambda>out ofs. ebind (F out ofs) g)) (a @ b)"
  unfolding finishes_def
proof (intro allI impI)
  fix w st
  assume "written w (length (a @ b)) st"
  then obtain st1 where "case_prod F st = Inr st1" "written (w @ a) (length b) st1"
    using assms(1) unfolding writes_def by (metis length_append)
  moreover from this have "g st1 = Inr ((w @ a) @ b)"
    using assms(2) unfolding finishes_def by blast
  ultimately show "case_prod (\<lambda>out ofs. ebind (F out ofs) g) st = Inr (w @ a @ b)"
    by (cases st) simp
qed

lemma finishes_put:
  assumes "finishes (case_prod G) b"
  shows "finishes (case_prod (\<lambda>out ofs. G (out[ofs := x]) (Suc ofs))) (x # b)"
  unfolding finishes_def
proof (intro allI impI)
  fix w st
  assume *: "written w (length (x # b)) st"
  obtain out ofs where st: "st = (out, ofs)" by (cases st)
  with * have "written (w @ [x]) (length b) (out[ofs := x], Suc ofs)" by (auto intro: written_put1)
  with assms have "case_prod G (out[ofs := x], Suc ofs) = Inr ((w @ [x]) @ b)"
    unfolding finishes_def by blast
  with st show "case_prod (\<lambda>out ofs. G (out[ofs := x]) (Suc ofs)) st = Inr (w @ x # b)" by simp
qed

lemma finishes_check: "finishes (case_prod (\<lambda>out ofs. if ofs \<noteq> length out then Inl e else Inr out)) []"
  by (auto simp: finishes_def written_def)

lemma writes_parent:
  assumes "prepared_ok p"
  shows "writes (case_prod (\<lambda>out ofs. case pParent p of None \<Rightarrow> Inr (out, ofs)
      | Some q \<Rightarrow> ebind (writePush out ofs [u8 TAG_PARENT]) (\<lambda>(out, ofs). writePush out ofs q)))
    (case pParent p of None \<Rightarrow> [] | Some q \<Rightarrow> push_bytes [u8 TAG_PARENT] @ push_bytes q)"
  using assms by (cases "pParent p")
    (auto simp: prepared_ok_def writes_none intro!: writes_bind writes_push)

lemma writes_metadata:
  "writes (case_prod (\<lambda>out ofs. case pMetadata p of None \<Rightarrow> Inr (out, ofs)
      | Some m \<Rightarrow> write_chunks (Some (u8 TAG_METADATA)) m 0 (out, ofs)))
    (case pMetadata p of None \<Rightarrow> [] | Some m \<Rightarrow> tagged_pushes (Some (u8 TAG_METADATA)) (chunked m))"
  by (cases "pMetadata p") (auto simp: writes_none intro!: writes_chunks)

lemma buildInscriptionScript_eq:
  assumes "length pk = 32" and "prepare content = Inr p"
  shows "buildInscriptionScript pk content = Inr (envelope_bytes pk p)"
proof -
  note ok = prepare_ok [OF assms(2)]
  have ct: "length (pContentType p) \<le> 520" using ok by (simp add: prepared_ok_def)
  have small: "length PROTOCOL_ID \<le> 520" "length [u8 TAG_CONTENT_TYPE] \<le> 520" "length pk \<le> 520"
    using assms(1) by (simp_all add: PROTOCOL_ID_def)
  note tail = finishes_put [OF finishes_check [where e = "Error ''internal: script length mismatch''"], where x = OP_ENDIF]
  note body = finishes_put [OF finishes_bind [OF writes_chunks(2) [where tag = None and d = "pBody p"] tail], where x = OP_0]
  note meta = finishes_bind [OF writes_metadata [of p] body]
  note parent = finishes_bind [OF writes_parent [OF ok] meta]
  note ord = finishes_bind [OF writes_push [OF small(1)]
    finishes_bind [OF writes_push [OF small(2)] finishes_bind [OF writes_push [OF ct] parent]]]
  note ops = finishes_put [OF finishes_put [OF finishes_put [OF ord, where x = OP_IF], where x = OP_0], where x = OP_CHECKSIG]
  note all = finishes_bind [OF writes_push [OF small(3)] ops]
  have e: "envelope_bytes pk p = push_bytes pk @ [OP_CHECKSIG, OP_0, OP_IF] @ push_bytes PROTOCOL_ID
     @ push_bytes [u8 TAG_CONTENT_TYPE] @ push_bytes (pContentType p)
     @ (case pParent p of None \<Rightarrow> [] | Some q \<Rightarrow> push_bytes [u8 TAG_PARENT] @ push_bytes q)
     @ (case pMetadata p of None \<Rightarrow> [] | Some m \<Rightarrow> tagged_pushes (Some (u8 TAG_METADATA)) (chunked m))
     @ OP_0 # tagged_pushes None (chunked (pBody p)) @ [OP_ENDIF]"
    by (simp add: envelope_bytes_def)
  have "written [] (length (envelope_bytes pk p)) (replicate (length (envelope_bytes pk p)) 0, 0)"
    by (rule written_start)
  with all have "case_prod (\<lambda>out ofs. ebind (writePush out ofs pk) (\<lambda>(out, ofs).
     let out = out[ofs := OP_CHECKSIG, ofs + 1 := OP_0, ofs + 2 := OP_IF]; ofs = ofs + 3 in
     ebind (writePush out ofs PROTOCOL_ID) (\<lambda>(out, ofs).
     ebind (writePush out ofs [u8 TAG_CONTENT_TYPE]) (\<lambda>(out, ofs).
     ebind (writePush out ofs (pContentType p)) (\<lambda>(out, ofs).
     ebind (case pParent p of
              None \<Rightarrow> Inr (out, ofs)
            | Some q \<Rightarrow> ebind (writePush out ofs [u8 TAG_PARENT]) (\<lambda>(out, ofs). writePush out ofs q))
       (\<lambda>(out, ofs).
     ebind (case pMetadata p of
              None \<Rightarrow> Inr (out, ofs)
            | Some m \<Rightarrow> write_chunks (Some (u8 TAG_METADATA)) m 0 (out, ofs)) (\<lambda>(out, ofs).
     let out = out[ofs := OP_0]; ofs = ofs + 1 in
     ebind (write_chunks None (pBody p) 0 (out, ofs)) (\<lambda>(out, ofs).
     let out = out[ofs := OP_ENDIF]; ofs = ofs + 1 in
     if ofs \<noteq> length out then Inl (Error ''internal: script length mismatch'') else Inr out)))))))) 
     (replicate (length (envelope_bytes pk p)) 0, 0) = Inr ([] @ envelope_bytes pk p)"
    unfolding finishes_def e Let_def numeral_3_eq_3 by simp
  then show ?thesis
    using scriptLength_eq [OF assms(1) ok] assms
    by (simp add: buildInscriptionScript_def assertBytes_def)
qed

lemma buildInscriptionScript_ok:
  "buildInscriptionScript pk c = Inr s \<longleftrightarrow>
     (\<exists>p. length pk = 32 \<and> prepare c = Inr p \<and> s = envelope_bytes pk p)"
proof
  assume b: "buildInscriptionScript pk c = Inr s"
  then have l: "length pk = 32" by (auto simp: buildInscriptionScript_def assertBytes_def split: if_splits)
  with b obtain p where p: "prepare c = Inr p"
    by (cases "prepare c") (auto simp: buildInscriptionScript_def assertBytes_def)
  with l b buildInscriptionScript_eq [OF l p] show "\<exists>p. length pk = 32 \<and> prepare c = Inr p \<and> s = envelope_bytes pk p"
    by simp
qed (auto simp: buildInscriptionScript_eq)

lemma inscriptionScriptLength_eq:
  "buildInscriptionScript pk c = Inr s \<Longrightarrow> inscriptionScriptLength c = Inr (length s)"
  by (auto simp: buildInscriptionScript_ok inscriptionScriptLength_def scriptLength_eq prepare_ok)

text \<open>A concrete content, for the witnesses.\<close>

definition simple_content :: InscriptionContent where
  "simple_content = \<lparr>contentType = [116], body = [7, 8], parentId = None, metadata = None\<rparr>"

lemma simple_prepare:
  "prepare simple_content = Inr \<lparr>pContentType = [116], pParent = None, pMetadata = None, pBody = [7, 8]\<rparr>"
  by (simp add: prepare_def simple_content_def utf8_def hi_surrogate_def lo_surrogate_def utf8_point_def
      u8_def MAX_SCRIPT_ELEMENT_SIZE_def)

lemma simple_script:
  "buildInscriptionScript (replicate 32 1) simple_content = Inr (envelope_bytes (replicate 32 1)
     \<lparr>pContentType = [116], pParent = None, pMetadata = None, pBody = [7, 8]\<rparr>)"
  by (simp add: buildInscriptionScript_eq simple_prepare)

lemma length_simple_script:
  "length (envelope_bytes (replicate 32 1)
     \<lparr>pContentType = [116], pParent = None, pMetadata = None, pBody = [7, 8]\<rparr>) = 49"
  by (simp add: envelope_bytes_def push_bytes_def PROTOCOL_ID_def chunked_step CHUNK_eq tag_bytes_def Let_def)

end
