(* ===== verification/Parse.thy ===== *)
theory Parse imports Envelope "HOL-Library.AList" begin

text \<open>
  \<open>platform/inscription/src/parse.ts\<close>: the envelope parser. Scripts are split into operations
  with offsets, envelopes are found among the operations, and each envelope's pushes are read as
  fields and body. That the parser inverts the builder of
  \<open>Envelope\<close> is shown in \<open>Roundtrip\<close>.
\<close>

subsection \<open>Tags and results\<close>

definition ENVELOPE_TAGS :: "nat \<Rightarrow> string option" where
  "ENVELOPE_TAGS = map_of
     [(1, ''content_type''), (2, ''pointer''), (3, ''parent''), (5, ''metadata''),
      (7, ''metaprotocol''), (9, ''content_encoding''), (11, ''delegate''), (13, ''rune''),
      (15, ''note''), (17, ''properties''), (19, ''property_encoding'')]"

definition KNOWN_TAGS :: "nat \<Rightarrow> bool" where
  "KNOWN_TAGS t = (ENVELOPE_TAGS t \<noteq> None)"

definition REPEATABLE_TAG_HEX :: "string \<Rightarrow> bool" where
  "REPEATABLE_TAG_HEX h = (h \<in> set [''03'', ''05'', ''11''])"

record EnvelopeFlags =
  pushnum :: bool
  duplicateField :: bool
  incompleteField :: bool
  unrecognizedEvenField :: bool

record ParsedField =
  fTag :: "nat option"
  fName :: string
  fValue :: bytes
  fOffset :: nat

record ParsedInscription =
  iContentType :: "js_string option"
  iBody :: bytes
  iHasBody :: bool
  iBodyChunks :: "(bytes \<times> nat) list"
  iParents :: "string list"
  iMetadata :: "bytes option"
  iPointer :: "nat option"
  iMetaprotocol :: "js_string option"
  iContentEncoding :: "js_string option"
  iDelegate :: "string option"
  iFields :: "ParsedField list"
  iFlags :: EnvelopeFlags
  iOffset :: nat
  iLength :: nat

definition OP_1NEGATE :: byte where "OP_1NEGATE = 0x4f"

subsection \<open>Values\<close>

text \<open>The loops run from the last byte to the first: \<open>foldr\<close>.\<close>

definition le_loop :: "bytes \<Rightarrow> nat" where
  "le_loop bs = foldr (\<lambda>b n. n * 256 + unat b) bs 0"

definition leInt :: "bytes \<Rightarrow> nat option" where
  "leInt v =
     (if length v > 8 \<and> list_ex (\<lambda>b. b \<noteq> 0) (drop 8 v) then None
      else let n = le_loop (take 8 v) in
        if n \<le> MAX_SAFE_INTEGER then Some n else None)"

definition decodeInscriptionId :: "'z hash_lib_scheme \<Rightarrow> bytes \<Rightarrow> string option" where
  "decodeInscriptionId L v =
     (if length v < 32 \<or> length v > 36 then None
      else let txid = hexEncode L (rev (take 32 v)); index = le_loop (drop 32 v) in
        Some (txid @ ''i'' @ digits_of_nat index))"

subsection \<open>Operations of a script\<close>

record Op =
  opOpcode :: byte
  opOffset :: nat
  opData :: "bytes option"
  opDataOffset :: nat

text \<open>
  The opcode switch: a truncated length prefix returns from the loop; otherwise \<open>len\<close> stays \<open>-1\<close>
  or is set, with \<open>i\<close> past the prefix.
\<close>

datatype push_head = Truncated | NotPush | PushLen nat nat

definition pushHead :: "bytes \<Rightarrow> byte \<Rightarrow> nat \<Rightarrow> push_head" where
  "pushHead script opc i =
     (if opc \<le> 0x4b then PushLen (unat opc) i
      else if opc = 0x4c then
        (if i + 1 > length script then Truncated else PushLen (unat (script ! i)) (i + 1))
      else if opc = 0x4d then
        (if i + 2 > length script then Truncated
         else PushLen (unat (script ! i) + 256 * unat (script ! (i + 1))) (i + 2))
      else if opc = 0x4e then
        (if i + 4 > length script then Truncated
         else PushLen (unat (script ! i) + 256 * unat (script ! (i + 1))
                + 65536 * unat (script ! (i + 2)) + 16777216 * unat (script ! (i + 3))) (i + 4))
      else NotPush)"

lemma pushHead_le: "pushHead script opc i = PushLen len j \<Longrightarrow> i \<le> j"
  by (auto simp: pushHead_def split: if_splits)

function decodeOps_from :: "bytes \<Rightarrow> nat \<Rightarrow> Op list" where
  "decodeOps_from script i =
     (if i < length script then
        let opc = script ! i in
        (case pushHead script opc (i + 1) of
           Truncated \<Rightarrow> []
         | NotPush \<Rightarrow>
             \<lparr>opOpcode = opc, opOffset = i, opData = None, opDataOffset = 0\<rparr> # decodeOps_from script (i + 1)
         | PushLen len j \<Rightarrow>
             if j + len > length script then []
             else \<lparr>opOpcode = opc, opOffset = i, opData = Some (take len (drop j script)), opDataOffset = j\<rparr>
                  # decodeOps_from script (j + len))
      else [])"
  by pat_completeness auto
termination
  by (relation "measure (\<lambda>(script, i). length script - i)") (auto dest: pushHead_le)

declare decodeOps_from.simps [simp del]

definition decodeOps :: "bytes \<Rightarrow> Op list" where
  "decodeOps script = decodeOps_from script 0"

subsection \<open>Envelopes\<close>

record RawEnvelope =
  rOffset :: nat
  rLength :: nat
  rPushes :: "(bytes \<times> nat) list"
  rPushnum :: bool

text \<open>
  The inner loop over \<open>j\<close>, on the operations still ahead: the pushes, the \<open>pushnum\<close> flag, the end
  offset, and the operations after the \<open>OP_ENDIF\<close>. \<open>None\<close> when \<open>end\<close> stays \<open>-1\<close>.
\<close>

fun collect_pushes ::
  "nat \<Rightarrow> Op list \<Rightarrow> (bytes \<times> nat) list \<Rightarrow> bool \<Rightarrow> ((bytes \<times> nat) list \<times> bool \<times> nat \<times> Op list) option" where
  "collect_pushes base [] pushes pn = None"
| "collect_pushes base (q # qs) pushes pn =
     (case opData q of
        Some d \<Rightarrow> collect_pushes base qs (pushes @ [(d, base + opDataOffset q)]) pn
      | None \<Rightarrow>
          if opOpcode q = OP_ENDIF then Some (pushes, pn, opOffset q + 1, qs)
          else if opOpcode q = OP_1NEGATE
          then collect_pushes base qs (pushes @ [([0x81], base + opOffset q)]) True
          else if 0x51 \<le> opOpcode q \<and> opOpcode q \<le> 0x60
          then collect_pushes base qs (pushes @ [([opOpcode q - 0x50], base + opOffset q)]) True
          else None)"

lemma collect_pushes_length:
  "collect_pushes base qs ps pn = Some (ps', pn', e, rest) \<Longrightarrow> length rest < length qs"
proof (induction base qs ps pn rule: collect_pushes.induct)
  case (2 base q qs pushes pn)
  then show ?case
    by (fastforce split: option.splits if_splits)
qed simp

definition is_envelope_start :: "Op \<Rightarrow> Op \<Rightarrow> Op \<Rightarrow> bool" where
  "is_envelope_start a b p \<longleftrightarrow>
     opData a = Some [] \<and> opOpcode b = OP_IF \<and> opData p = Some PROTOCOL_ID"

text \<open>The outer loop, on the operations from \<open>i\<close> on; \<open>i = j\<close> resumes after the \<open>OP_ENDIF\<close>.\<close>

function find_raw_envelopes :: "nat \<Rightarrow> Op list \<Rightarrow> RawEnvelope list" where
  "find_raw_envelopes base (a # b # p # rest) =
     (if \<not> is_envelope_start a b p then find_raw_envelopes base (b # p # rest)
      else case collect_pushes base rest [] False of
          None \<Rightarrow> find_raw_envelopes base (b # p # rest)
        | Some (pushes, pn, end', rest') \<Rightarrow>
            \<lparr>rOffset = base + opOffset a, rLength = end' - opOffset a, rPushes = pushes, rPushnum = pn\<rparr>
            # find_raw_envelopes base rest')"
| "find_raw_envelopes base [] = []"
| "find_raw_envelopes base [a] = []"
| "find_raw_envelopes base [a, b] = []"
  by pat_completeness auto
termination
  by (relation "measure (\<lambda>(base, qs). length qs)") (auto dest: collect_pushes_length)

definition findRawEnvelopes :: "bytes \<Rightarrow> nat \<Rightarrow> RawEnvelope list" where
  "findRawEnvelopes script base = find_raw_envelopes base (decodeOps script)"

subsection \<open>Fields and body\<close>

text \<open>\<open>pushes.findIndex((p, i) => i % 2 === 0 && p.bytes.length === 0)\<close>, counting from \<open>i\<close>.\<close>

fun body_index :: "nat \<Rightarrow> (bytes \<times> nat) list \<Rightarrow> nat option" where
  "body_index i [] = None"
| "body_index i (p # ps) = (if even i \<and> fst p = [] then Some i else body_index (i + 1) ps)"

text \<open>What the field loop accumulates.\<close>

record FieldScan =
  sFields :: "ParsedField list"
  sSeen :: "(string \<times> nat) list"
  sIncomplete :: bool
  sUnrecognizedEven :: bool

definition scan_field :: "'z hash_lib_scheme \<Rightarrow> bytes \<Rightarrow> bytes \<times> nat \<Rightarrow> FieldScan \<Rightarrow> FieldScan" where
  "scan_field L key val s =
     (let tag = (if length key = 1 then Some (unat (key ! 0)) else None);
          name = (case tag of None \<Rightarrow> ''unknown''
                  | Some t \<Rightarrow> (case ENVELOPE_TAGS t of None \<Rightarrow> ''unknown'' | Some n \<Rightarrow> n));
          keyHex = hexEncode L key;
          known = (case tag of None \<Rightarrow> False | Some t \<Rightarrow> KNOWN_TAGS t);
          first = (case key of [] \<Rightarrow> 0 | b # _ \<Rightarrow> unat b);
          count = (case map_of (sSeen s) keyHex of None \<Rightarrow> 0 | Some n \<Rightarrow> n)
      in \<lparr>sFields = sFields s @ [\<lparr>fTag = tag, fName = name, fValue = fst val, fOffset = snd val\<rparr>],
          sSeen = AList.update keyHex (count + 1) (sSeen s),
          sIncomplete = sIncomplete s,
          sUnrecognizedEven = (sUnrecognizedEven s \<or> (\<not> known \<and> even first))\<rparr>)"

fun scan_fields :: "'z hash_lib_scheme \<Rightarrow> (bytes \<times> nat) list \<Rightarrow> FieldScan \<Rightarrow> FieldScan" where
  "scan_fields L [] s = s"
| "scan_fields L [key] s = s\<lparr>sIncomplete := True\<rparr>"
| "scan_fields L (key # val # ps) s = scan_fields L ps (scan_field L (fst key) val s)"

definition first_field :: "ParsedField list \<Rightarrow> nat \<Rightarrow> bytes option" where
  "first_field fs tag = map_option fValue (List.find (\<lambda>f. fTag f = Some tag) fs)"

definition decodeRawEnvelope :: "'z hash_lib_scheme \<Rightarrow> RawEnvelope \<Rightarrow> ParsedInscription" where
  "decodeRawEnvelope L raw =
     (let pushes = rPushes raw;
          bodyAt = body_index 0 pushes;
          head = (case bodyAt of None \<Rightarrow> pushes | Some k \<Rightarrow> take k pushes);
          s = scan_fields L head \<lparr>sFields = [], sSeen = [], sIncomplete = False, sUnrecognizedEven = False\<rparr>;
          flds = sFields s;
          dup = list_ex (\<lambda>(k, n). n > 1 \<and> \<not> REPEATABLE_TAG_HEX k) (sSeen s);
          text = (\<lambda>tag. Option.bind (first_field flds tag) utf8Decode);
          metaChunks = map fValue (filter (\<lambda>f. fTag f = Some TAG_METADATA) flds);
          chunks = (case bodyAt of None \<Rightarrow> [] | Some k \<Rightarrow> drop (k + 1) pushes)
      in \<lparr>iContentType = text TAG_CONTENT_TYPE,
          iBody = concatBytes (map fst chunks),
          iHasBody = (bodyAt \<noteq> None),
          iBodyChunks = chunks,
          iParents = List.map_filter (\<lambda>f. decodeInscriptionId L (fValue f))
                       (filter (\<lambda>f. fTag f = Some TAG_PARENT) flds),
          iMetadata = (if metaChunks \<noteq> [] then Some (concatBytes metaChunks) else None),
          iPointer = Option.bind (first_field flds TAG_POINTER) leInt,
          iMetaprotocol = text TAG_METAPROTOCOL,
          iContentEncoding = text TAG_CONTENT_ENCODING,
          iDelegate = Option.bind (first_field flds TAG_DELEGATE) (decodeInscriptionId L),
          iFields = flds,
          iFlags = \<lparr>pushnum = rPushnum raw, duplicateField = dup, incompleteField = sIncomplete s,
                    unrecognizedEvenField = sUnrecognizedEven s\<rparr>,
          iOffset = rOffset raw,
          iLength = rLength raw\<rparr>)"

subsection \<open>Entry points\<close>

datatype parse_input = Script bytes | WitnessStack "bytes list"

definition tapscriptFromWitness :: "bytes list \<Rightarrow> bytes option" where
  "tapscriptFromWitness stack =
     (let items = (if length stack \<ge> 2 \<and> last stack \<noteq> [] \<and> hd (last stack) = 0x50
                   then butlast stack else stack)
      in if length items < 2 then None else Some (items ! (length items - 2)))"

definition toScript :: "parse_input \<Rightarrow> bytes option" where
  "toScript input = (case input of Script s \<Rightarrow> Some s | WitnessStack st \<Rightarrow> tapscriptFromWitness st)"

definition parseEnvelopes :: "'z hash_lib_scheme \<Rightarrow> parse_input \<Rightarrow> nat \<Rightarrow> ParsedInscription list" where
  "parseEnvelopes L input base =
     (case toScript input of None \<Rightarrow> []
      | Some script \<Rightarrow> map (decodeRawEnvelope L) (findRawEnvelopes script base))"

definition parseEnvelope :: "'z hash_lib_scheme \<Rightarrow> parse_input \<Rightarrow> nat \<Rightarrow> ParsedInscription option" where
  "parseEnvelope L input base =
     (case parseEnvelopes L input base of [] \<Rightarrow> None | e # _ \<Rightarrow> Some e)"

end
