(* ===== verification/Roundtrip.thy ===== *)
theory Roundtrip imports Parse begin

text \<open>
  The parser inverts the builder. A script is described as a list of items (a minimal push or a
  bare opcode); the operations the parser decodes from its bytes are the items again, at their
  offsets, so the round trip is a computation on items.
\<close>

subsection \<open>Items\<close>

datatype script_item = Push bytes | Bare byte

primrec item_bytes :: "script_item \<Rightarrow> bytes" where
  "item_bytes (Push d) = push_bytes d"
| "item_bytes (Bare b) = [b]"

primrec item_ok :: "script_item \<Rightarrow> bool" where
  "item_ok (Push d) = (length d \<le> 520)"
| "item_ok (Bare b) = (0x4e < b)"

definition head_len :: "bytes \<Rightarrow> nat" where
  "head_len d = length (push_bytes d) - length d"

primrec item_op :: "nat \<Rightarrow> script_item \<Rightarrow> Op" where
  "item_op pos (Push d) =
     \<lparr>opOpcode = hd (push_bytes d), opOffset = pos, opData = Some d, opDataOffset = pos + head_len d\<rparr>"
| "item_op pos (Bare b) = \<lparr>opOpcode = b, opOffset = pos, opData = None, opDataOffset = 0\<rparr>"

primrec ops_of :: "nat \<Rightarrow> script_item list \<Rightarrow> Op list" where
  "ops_of pos [] = []"
| "ops_of pos (x # xs) = item_op pos x # ops_of (pos + length (item_bytes x)) xs"

definition items_bytes :: "script_item list \<Rightarrow> bytes" where
  "items_bytes xs = concat (map item_bytes xs)"

lemma items_bytes_simps [simp]:
  "items_bytes [] = []" "items_bytes (x # xs) = item_bytes x @ items_bytes xs"
  "items_bytes (xs @ ys) = items_bytes xs @ items_bytes ys"
  by (simp_all add: items_bytes_def)

lemma ops_of_append: "ops_of pos (xs @ ys) = ops_of pos xs @ ops_of (pos + length (items_bytes xs)) ys"
  by (induction xs arbitrary: pos) (simp_all add: add.assoc)

lemma length_ops_of [simp]: "length (ops_of pos xs) = length xs"
  by (induction xs arbitrary: pos) simp_all

subsection \<open>Decoding the operations of items\<close>

lemma push_bytes_nonempty [simp]: "push_bytes d \<noteq> []"
  by (simp add: push_bytes_def Let_def)

lemma pushHead_push:
  assumes "length d \<le> 520"
  shows "pushHead (pre @ push_bytes d @ r) (hd (push_bytes d)) (Suc (length pre))
         = PushLen (length d) (length pre + head_len d)"
proof -
  consider "d = []" | "d \<noteq> []" "length d \<le> 75" | "75 < length d" "length d \<le> 255" | "255 < length d"
    by fastforce
  then show ?thesis
  proof cases
    case 1
    then show ?thesis by (simp add: push_bytes_def pushHead_def head_len_def OP_0_def)
  next
    case 2
    then have "u8 (length d) \<le> 0x4b" by (simp add: word_le_nat_alt)
    with 2 show ?thesis by (simp add: push_bytes_def pushHead_def head_len_def Let_def)
  next
    case 3
    then have "d \<noteq> []" by auto
    with 3 show ?thesis
      by (simp add: push_bytes_def pushHead_def head_len_def Let_def OP_PUSHDATA1_def nth_append)
  next
    case 4
    then have "d \<noteq> []" by auto
    moreover have "unat (u8 (length d div 256)) = length d div 256"
      using assms by simp
    moreover have "length d mod 256 + 256 * (length d div 256) = length d" by simp
    ultimately show ?thesis using 4
      by (simp add: push_bytes_def pushHead_def head_len_def Let_def OP_PUSHDATA2_def nth_append
          del: unat_u8) simp
  qed
qed

lemma push_bytes_split: "\<exists>h. push_bytes d = h @ d \<and> length h = head_len d"
  by (auto simp: push_bytes_def head_len_def Let_def OP_0_def)

lemma head_len_Nil [simp]: "head_len [] = 1"
  by (simp add: head_len_def push_bytes_def)

lemma pushHead_bare: "0x4e < b \<Longrightarrow> pushHead s b i = NotPush"
  by (auto simp: pushHead_def word_le_nat_alt word_less_nat_alt)

lemma decodeOps_items:
  "list_all item_ok xs \<Longrightarrow>
     decodeOps_from (pre @ items_bytes xs) (length pre) = ops_of (length pre) xs"
proof (induction xs arbitrary: pre)
  case Nil
  then show ?case by (subst decodeOps_from.simps) simp
next
  case (Cons x xs)
  have IH: "decodeOps_from ((pre @ item_bytes x) @ items_bytes xs) (length (pre @ item_bytes x))
      = ops_of (length (pre @ item_bytes x)) xs"
    using Cons by (intro Cons.IH) simp
  show ?case
  proof (cases x)
    case (Push d)
    with Cons.prems have d: "length d \<le> 520" by simp
    obtain h where h: "push_bytes d = h @ d" "length h = head_len d" using push_bytes_split by blast
    have nth: "(pre @ push_bytes d @ items_bytes xs) ! length pre = hd (push_bytes d)"
      by (simp add: nth_append hd_conv_nth)
    have len: "length (push_bytes d) = head_len d + length d" using h by simp
    have tk: "take (length d) (drop (length pre + head_len d) (pre @ push_bytes d @ items_bytes xs)) = d"
      using h by simp
    show ?thesis
      using IH Push pushHead_push [OF d, of pre "items_bytes xs"] nth tk
      by (subst decodeOps_from.simps) (simp add: len add.assoc Let_def)
  next
    case (Bare b)
    with Cons.prems IH show ?thesis
      by (subst decodeOps_from.simps) (simp add: pushHead_bare nth_append)
  qed
qed

lemma decodeOps_items_bytes: "list_all item_ok xs \<Longrightarrow> decodeOps (items_bytes xs) = ops_of 0 xs"
  using decodeOps_items [of xs "[]"] by (simp add: decodeOps_def)

subsection \<open>Finding the envelope\<close>

primrec push_list :: "nat \<Rightarrow> bytes list \<Rightarrow> (bytes \<times> nat) list" where
  "push_list pos [] = []"
| "push_list pos (d # ds) = (d, pos + head_len d) # push_list (pos + length (push_bytes d)) ds"

lemma map_fst_push_list [simp]: "map fst (push_list pos ds) = ds"
  by (induction ds arbitrary: pos) simp_all

lemma collect_items:
  "collect_pushes base (ops_of pos (map Push ds @ Bare OP_ENDIF # r)) acc pn
   = Some (acc @ push_list (base + pos) ds, pn, pos + length (items_bytes (map Push ds)) + 1,
           ops_of (pos + length (items_bytes (map Push ds)) + 1) r)"
  by (induction ds arbitrary: pos acc) (simp_all add: add.assoc)

definition leaf_items :: "bytes \<Rightarrow> bytes list \<Rightarrow> script_item list" where
  "leaf_items pk ds =
     [Push pk, Bare OP_CHECKSIG, Push [], Bare OP_IF, Push PROTOCOL_ID] @ map Push ds @ [Bare OP_ENDIF]"

lemma find_leaf_items:
  assumes "length pk = 32"
  shows "\<exists>ps. find_raw_envelopes base (ops_of 0 (leaf_items pk ds)) =
     [\<lparr>rOffset = base + 34, rLength = length (items_bytes (leaf_items pk ds)) - 34,
       rPushes = ps, rPushnum = False\<rparr>] \<and> map fst ps = ds"
proof -
  have pk: "pk \<noteq> []" "length (push_bytes pk) = 33" using assms by (auto simp: push_bytes_def)
  have e: "push_bytes [] = [OP_0]" "length (push_bytes PROTOCOL_ID) = 4"
    by (simp_all add: push_bytes_def PROTOCOL_ID_def)
  have n: "is_envelope_start a b p = False" if "opData a \<noteq> Some []" for a b p
    using that by (simp add: is_envelope_start_def)
  note c = collect_items [of base "Suc (Suc (Suc (33 + 4)))" ds "[]" "[]" False]
  show ?thesis
    using pk e c by (auto simp: leaf_items_def n is_envelope_start_def)
qed

subsection \<open>Reading fields\<close>

definition tag_of :: "bytes \<Rightarrow> nat option" where
  "tag_of key = (if length key = 1 then Some (unat (key ! 0)) else None)"

definition known_key :: "bytes \<Rightarrow> bool" where
  "known_key key = (case tag_of key of None \<Rightarrow> False | Some t \<Rightarrow> KNOWN_TAGS t)"

definition field_proj :: "ParsedField \<Rightarrow> nat option \<times> bytes" where
  "field_proj f = (fTag f, fValue f)"

definition bump :: "'z hash_lib_scheme \<Rightarrow> bytes \<Rightarrow> (string \<times> nat) list \<Rightarrow> (string \<times> nat) list" where
  "bump L key m =
     AList.update (hexEncode L key) ((case map_of m (hexEncode L key) of None \<Rightarrow> 0 | Some n \<Rightarrow> n) + 1) m"

definition kv_list :: "(bytes \<times> bytes) list \<Rightarrow> bytes list" where
  "kv_list kvs = concat (map (\<lambda>(k, v). [k, v]) kvs)"

lemma kv_list_simps [simp]:
  "kv_list [] = []" "kv_list ((k, v) # kvs) = k # v # kv_list kvs"
  "kv_list (xs @ ys) = kv_list xs @ kv_list ys"
  by (simp_all add: kv_list_def)

lemma even_length_kv_list [simp]: "even (length (kv_list kvs))"
  by (induction kvs) auto

lemma scan_fields_kv:
  assumes "map fst ps = kv_list kvs" and "list_all known_key (map fst kvs)"
  shows "map field_proj (sFields (scan_fields L ps s))
           = map field_proj (sFields s) @ map (\<lambda>(k, v). (tag_of k, v)) kvs
       \<and> sIncomplete (scan_fields L ps s) = sIncomplete s
       \<and> sUnrecognizedEven (scan_fields L ps s) = sUnrecognizedEven s
       \<and> sSeen (scan_fields L ps s) = fold (\<lambda>(k, v). bump L k) kvs (sSeen s)"
  using assms
proof (induction kvs arbitrary: ps s)
  case Nil
  then show ?case by simp
next
  case (Cons kv kvs)
  obtain k v where kv: "kv = (k, v)" by (cases kv)
  with Cons.prems(1) obtain o1 o2 ps' where ps: "ps = (k, o1) # (v, o2) # ps'" "map fst ps' = kv_list kvs"
    by (cases ps; cases "tl ps") auto
  have kk: "known_key k" using Cons.prems(2) kv by simp
  show ?case
    using Cons.IH [OF ps(2), of "scan_field L k (v, o2) s"] Cons.prems(2) kv ps(1) kk
    by (simp add: scan_field_def Let_def field_proj_def tag_of_def bump_def known_key_def
        split: if_splits)
qed

lemma body_index_kv:
  assumes "map fst ps = kv_list kvs" and "\<forall>(k, v)\<in>set kvs. k \<noteq> []" and "even n"
  shows "body_index n (ps @ ([], e) # r) = Some (n + length ps)"
  using assms
proof (induction kvs arbitrary: ps n)
  case Nil
  then show ?case by simp
next
  case (Cons kv kvs)
  obtain k v where kv: "kv = (k, v)" by (cases kv)
  with Cons.prems(1) obtain o1 o2 ps' where ps: "ps = (k, o1) # (v, o2) # ps'" "map fst ps' = kv_list kvs"
    by (cases ps; cases "tl ps") auto
  with Cons.prems kv Cons.IH [OF ps(2), of "Suc (Suc n)"] show ?case by simp
qed

lemma first_field_proj:
  "first_field fs t = map_option snd (List.find (\<lambda>x. fst x = Some t) (map field_proj fs))"
  by (induction fs) (auto simp: first_field_def field_proj_def)

lemma filter_field_proj:
  "map fValue (filter (\<lambda>f. fTag f = Some t) fs)
     = map snd (filter (\<lambda>x. fst x = Some t) (map field_proj fs))"
  by (induction fs) (auto simp: field_proj_def)

lemma map_filter_comp: "List.map_filter (\<lambda>f. g (h f)) xs = List.map_filter g (map h xs)"
  by (induction xs) (auto simp: List.map_filter_def)

subsection \<open>Repeated tags\<close>

definition no_dup :: "(string \<times> nat) list \<Rightarrow> bool" where
  "no_dup m \<longleftrightarrow> \<not> list_ex (\<lambda>(k, n). n > 1 \<and> \<not> REPEATABLE_TAG_HEX k) m"

lemma no_dup_bump_repeatable:
  "no_dup m \<Longrightarrow> REPEATABLE_TAG_HEX (hexEncode L k) \<Longrightarrow> no_dup (bump L k m)"
  using set_update_subset by (fastforce simp: no_dup_def bump_def list_ex_iff)

lemma no_dup_fold_repeatable:
  "no_dup m \<Longrightarrow> REPEATABLE_TAG_HEX (hexEncode L k) \<Longrightarrow>
     no_dup (fold (\<lambda>(k, v). bump L k) (map (\<lambda>v. (k, v)) vs) m)"
  by (induction vs arbitrary: m) (simp_all add: no_dup_bump_repeatable)

subsection \<open>Inscription ids\<close>

lemma digits_of_num:
  "list_all is_digit ds \<Longrightarrow> ds \<noteq> [] \<Longrightarrow> ds = ''0'' \<or> hd ds \<noteq> CHR ''0'' \<Longrightarrow>
     digits_of_nat (num_of_digits 0 ds) = ds"
proof (induction ds rule: rev_induct)
  case (snoc c xs)
  obtain v where v: "digit_val c = Some v" using snoc.prems(1) by (auto simp: is_digit_def)
  then have v10: "v < 10" and c: "char_of (48 + v) = c"
    by (auto simp: digit_val_def Let_def split: if_splits)
  show ?case
  proof (cases "xs = []")
    case True
    with v v10 c show ?thesis by (subst digits_of_nat.simps) simp
  next
    case False
    with snoc.prems have h: "hd xs \<noteq> CHR ''0''" by (cases xs) auto
    then have IH: "digits_of_nat (num_of_digits 0 xs) = xs" using snoc False by simp
    have "num_of_digits 0 xs \<noteq> 0"
    proof
      assume "num_of_digits 0 xs = 0"
      with IH have "xs = [char_of (48 :: nat)]" by (simp add: digits_of_nat.simps)
      moreover have "char_of (48 :: nat) = CHR ''0''" by code_simp
      ultimately have "xs = ''0''" by simp
      with h show False by simp
    qed
    then have "\<not> 10 * num_of_digits 0 xs + v < 10" by simp
    then show ?thesis
      using IH v v10 c by (subst digits_of_nat.simps) (simp add: num_of_digits_append)
  qed
qed simp

lemma le_loop_eq: "le_loop bs = le_nat bs"
  by (induction bs) (simp_all add: le_loop_def)

lemma le_nat_trim:
  "e \<le> length bs \<Longrightarrow> le_nat (drop 32 (take (trim_end bs e) bs)) = le_nat (drop 32 (take e bs))"
proof (induction e)
  case (Suc e)
  show ?case
  proof (cases "32 \<le> e \<and> bs ! e = 0")
    case True
    have "drop 32 (take (Suc e) bs) = drop 32 (take e bs) @ [bs ! e]"
      using Suc.prems True by (simp add: take_Suc_conv_app_nth)
    then have "le_nat (drop 32 (take (Suc e) bs)) = le_nat (drop 32 (take e bs))"
      using True by (simp add: le_nat_append)
    with Suc True show ?thesis by simp
  next
    case False
    then show ?thesis by auto
  qed
qed simp

lemma unhex_nth:
  "2 * j + 1 < length s \<Longrightarrow>
     unhex s ! j = u8 (16 * the (hex_val (s ! (2 * j))) + the (hex_val (s ! (2 * j + 1))))"
proof (induction s arbitrary: j rule: unhex.induct)
  case (1 a b r)
  then show ?case by (cases j) simp_all
qed auto

lemma parse_pairs: "length h = 64 \<Longrightarrow> map (parse_pair h) [0..<32] = rev (unhex h)"
proof (rule nth_equalityI)
  fix i assume h: "length h = 64" and i: "i < length (map (parse_pair h) [0..<32])"
  then have "rev (unhex h) ! i = unhex h ! (31 - i)"
    by (simp add: rev_nth length_unhex)
  moreover have "2 * (31 - i) = 62 - 2 * i" "2 * (31 - i) + 1 = 63 - 2 * i" using i by auto
  ultimately show "map (parse_pair h) [0..<32] ! i = rev (unhex h) ! i"
    using unhex_nth [of "31 - i" h] h i by (simp add: parse_pair_def)
qed (simp add: length_unhex)

lemma match_inscription_idE:
  assumes "match_inscription_id s = Some (h, ds)"
  obtains "s = h @ CHR ''i'' # ds" and "length h = 64" and "list_all is_hex h"
    and "list_all is_digit ds" and "ds \<noteq> []" and "ds = ''0'' \<or> hd ds \<noteq> CHR ''0''"
proof -
  have "h = take 64 s" "drop 64 s = CHR ''i'' # ds" "length h = 64" "list_all is_hex h"
      "list_all is_digit ds" "ds \<noteq> []" "ds = ''0'' \<or> hd ds \<noteq> CHR ''0''"
    using assms by (auto simp: match_inscription_id_def Let_def split: if_splits list.splits)
  moreover have "s = take 64 s @ drop 64 s" by simp
  ultimately show thesis using that by metis
qed

lemma lower_digit: "is_digit c \<Longrightarrow> lower_char c = c"
  by (auto simp: is_digit_def digit_val_def lower_char_def Let_def split: if_splits)

lemma lower_string_id:
  "list_all is_digit ds \<Longrightarrow> lower_string (h @ CHR ''i'' # ds) = lower_string h @ ''i'' @ ds"
  by (auto simp: lower_string_def list_all_iff lower_digit map_idI) (simp add: lower_char_def)

lemma decode_encodeParentId:
  assumes "hex_documented L" and "encodeParentId i = Inr q"
  shows "decodeInscriptionId L q = Some (lower_string i)"
proof -
  obtain h ds where m: "match_inscription_id i = Some (h, ds)"
    using assms(2) by (auto simp: encodeParentId_def split: option.splits)
  from m obtain i: "i = h @ CHR ''i'' # ds" "length h = 64" "list_all is_hex h"
      "list_all is_digit ds" "ds \<noteq> []" "ds = ''0'' \<or> hd ds \<noteq> CHR ''0''"
    by (rule match_inscription_idE)
  define n where "n = num_of_digits 0 ds"
  define t where "t = map (parse_pair (lower_string h)) [0..<32]"
  define bs where "bs = t @ u32le n"
  have n: "n \<le> 0xffffffff" and q: "q = take (trim_end bs 36) bs"
    using assms(2) m by (simp_all add: encodeParentId_def Let_def n_def bs_def u32le_def t_def split: if_splits)
  have t: "t = rev (unhex h)" unfolding t_def using parse_pairs [of "lower_string h"] i(2) by simp
  have lt: "length t = 32" by (simp add: t_def)
  have lb: "length bs = 36" by (simp add: bs_def lt)
  have b: "32 \<le> trim_end bs 36" "trim_end bs 36 \<le> 36" using trim_end_bounds [of 36 bs] by simp_all
  have "take 32 q = t" using b lb q lt by (simp add: bs_def)
  then have "hexEncode L (rev (take 32 q)) = lower_string h"
    using assms(1) t i by (simp add: hex_documented_def hex_string_unhex)
  moreover have "le_nat (drop 32 q) = n"
    using le_nat_trim [of 36 bs] lb q lt n
    by (simp add: bs_def u32le_eq le_nat_le_bytes)
  moreover have "digits_of_nat n = ds" unfolding n_def using i by (intro digits_of_num)
  moreover have "32 \<le> length q" "length q \<le> 36" using q b lb by auto
  ultimately show ?thesis
    using i by (simp add: decodeInscriptionId_def le_loop_eq lower_string_id)
qed

subsection \<open>The round trip\<close>

definition content_fields :: "Prepared \<Rightarrow> (bytes \<times> bytes) list" where
  "content_fields p =
     ([u8 TAG_CONTENT_TYPE], pContentType p)
     # (case pParent p of None \<Rightarrow> [] | Some q \<Rightarrow> [([u8 TAG_PARENT], q)])
     @ map (\<lambda>c. ([u8 TAG_METADATA], c)) (case pMetadata p of None \<Rightarrow> [] | Some m \<Rightarrow> chunked m)"

definition content_pushes :: "Prepared \<Rightarrow> bytes list" where
  "content_pushes p = kv_list (content_fields p) @ [] # chunked (pBody p)"

lemma tagged_pushes_items:
  "tagged_pushes (Some t) cs = items_bytes (map Push (kv_list (map (\<lambda>c. ([t], c)) cs)))"
  "tagged_pushes None cs = items_bytes (map Push cs)"
  by (induction cs) (simp_all add: tag_bytes_def)

lemma envelope_items: "envelope_bytes pk p = items_bytes (leaf_items pk (content_pushes p))"
proof -
  have "push_bytes [] = [OP_0]" by (simp add: push_bytes_def)
  then show ?thesis
    by (cases "pParent p"; cases "pMetadata p")
       (simp_all add: envelope_bytes_def leaf_items_def content_pushes_def content_fields_def
         tagged_pushes_items)
qed

lemma leaf_items_ok:
  assumes "length pk = 32" and "prepared_ok p"
  shows "list_all item_ok (leaf_items pk (content_pushes p))"
proof -
  have "list_all (\<lambda>d. length d \<le> 520) (kv_list (map (\<lambda>c. ([t], c)) (chunked m)))" for t m
    using chunk_lengths [of m] by (auto simp: kv_list_def list_all_iff)
  moreover have "list_all (\<lambda>d. length d \<le> 520) (chunked (pBody p))"
    using chunk_lengths by (auto simp: list_all_iff)
  ultimately show ?thesis
    using assms
    by (cases "pParent p"; cases "pMetadata p")
       (auto simp: leaf_items_def op_defs PROTOCOL_ID_def content_pushes_def content_fields_def
         prepared_ok_def list_all_iff)
qed

lemma content_fields_known: "list_all known_key (map fst (content_fields p))"
  by (cases "pParent p")
     (auto simp: content_fields_def known_key_def tag_of_def KNOWN_TAGS_def ENVELOPE_TAGS_def tag_defs
        list_all_iff)

lemma content_seen_no_dup:
  assumes "hex_documented L"
  shows "no_dup (fold (\<lambda>(k, v). bump L k) (content_fields p) [])"
proof -
  have d: "hex_digit 0 = CHR ''0''" "hex_digit 1 = CHR ''1''" "hex_digit (Suc 0) = CHR ''1''"
      "hex_digit 3 = CHR ''3''" "hex_digit 5 = CHR ''5''"
    by code_simp+
  have h: "hexEncode L [u8 TAG_METADATA] = ''05''" "hexEncode L [u8 TAG_CONTENT_TYPE] = ''01''"
      "hexEncode L [u8 TAG_PARENT] = ''03''"
    using assms d by (simp_all add: hex_documented_def tag_defs)
  have "REPEATABLE_TAG_HEX (hexEncode L [u8 TAG_METADATA])" by (simp add: h REPEATABLE_TAG_HEX_def)
  note rep = no_dup_fold_repeatable [OF _ this]
  have b: "bump L [u8 TAG_CONTENT_TYPE] [] = [(''01'', 1)]"
      "bump L [u8 TAG_PARENT] [(''01'', 1)] = [(''01'', 1), (''03'', 1)]"
    unfolding bump_def h by simp_all
  have n: "no_dup [(''01'', 1)]" "no_dup [(''01'', 1), (''03'', 1)]" by (simp_all add: no_dup_def)
  show ?thesis
    by (cases "pParent p") (simp_all add: content_fields_def b rep n del: One_nat_def)
qed

lemma find_fields_content:
  "List.find (\<lambda>x. fst x = Some t) (map (\<lambda>(k, v). (tag_of k, v)) (content_fields p)) =
     (if t = TAG_CONTENT_TYPE then Some (Some t, pContentType p)
      else if t = TAG_PARENT then map_option (Pair (Some t)) (pParent p)
      else if t = TAG_METADATA
      then (case pMetadata p of None \<Rightarrow> None | Some m \<Rightarrow> 
              (case chunked m of [] \<Rightarrow> None | c # _ \<Rightarrow> Some (Some t, c)))
      else None)"
proof -
  have "List.find (\<lambda>x. fst x = Some t) (map (\<lambda>c. (Some 5, c)) cs) = 
      (if t = 5 then (case cs of [] \<Rightarrow> None | c # _ \<Rightarrow> Some (Some t, c)) else None)" for cs :: "bytes list"
    by (induction cs) auto
  then show ?thesis
    by (cases "pParent p"; cases "pMetadata p")
       (auto simp: content_fields_def tag_of_def tag_defs comp_def)
qed

lemma filter_fields_content:
  "filter (\<lambda>x. fst x = Some TAG_PARENT) (map (\<lambda>(k, v). (tag_of k, v)) (content_fields p))
     = (case pParent p of None \<Rightarrow> [] | Some q \<Rightarrow> [(Some TAG_PARENT, q)])"
  "map snd (filter (\<lambda>x. fst x = Some TAG_METADATA) (map (\<lambda>(k, v). (tag_of k, v)) (content_fields p)))
     = (case pMetadata p of None \<Rightarrow> [] | Some m \<Rightarrow> chunked m)"
  by (cases "pParent p"; cases "pMetadata p";
      simp add: content_fields_def tag_of_def tag_defs comp_def filter_empty_conv)+

lemma decodeRaw_content:
  assumes L: "hex_documented L" and ps: "map fst (rPushes raw) = content_pushes p" and "\<not> rPushnum raw"
  shows "\<exists>flds offs. decodeRawEnvelope L raw =
     \<lparr>iContentType = utf8Decode (pContentType p), iBody = pBody p, iHasBody = True,
      iBodyChunks = zip (chunked (pBody p)) offs,
      iParents = List.map_filter (decodeInscriptionId L) (case pParent p of None \<Rightarrow> [] | Some q \<Rightarrow> [q]),
      iMetadata = (case pMetadata p of None \<Rightarrow> None | Some [] \<Rightarrow> None | Some m \<Rightarrow> Some m),
      iPointer = None, iMetaprotocol = None, iContentEncoding = None, iDelegate = None,
      iFields = flds, iFlags = \<lparr>pushnum = False, duplicateField = False, incompleteField = False,
        unrecognizedEvenField = False\<rparr>, iOffset = rOffset raw, iLength = rLength raw\<rparr>"
proof -
  obtain ph e r where sp: "rPushes raw = ph @ ([], e) # r" "map fst ph = kv_list (content_fields p)"
      "map fst r = chunked (pBody p)"
    using ps by (auto simp: content_pushes_def map_eq_append_conv)
  have "\<forall>(k, v)\<in>set (content_fields p). k \<noteq> []"
    by (cases "pParent p") (auto simp: content_fields_def)
  with sp have at: "body_index 0 (rPushes raw) = Some (length ph)"
    using body_index_kv [OF sp(2), of 0 e r] by simp
  define s where "s = scan_fields L ph \<lparr>sFields = [], sSeen = [], sIncomplete = False, sUnrecognizedEven = False\<rparr>"
  have s: "map field_proj (sFields s) = map (\<lambda>(k, v). (tag_of k, v)) (content_fields p)"
     "\<not> sIncomplete s" "\<not> sUnrecognizedEven s" "no_dup (sSeen s)"
    using scan_fields_kv [OF sp(2) content_fields_known, of L] content_seen_no_dup [OF L]
    by (simp_all add: s_def)
  have ff: "first_field (sFields s) t = map_option snd (List.find (\<lambda>x. fst x = Some t)
      (map (\<lambda>(k, v). (tag_of k, v)) (content_fields p)))" for t
    by (simp add: first_field_proj s(1))
  have md: "map fValue (filter (\<lambda>f. fTag f = Some TAG_METADATA) (sFields s))
      = (case pMetadata p of None \<Rightarrow> [] | Some m \<Rightarrow> chunked m)"
    by (simp only: filter_field_proj s(1) filter_fields_content)
  have pa: "map fValue (filter (\<lambda>f. fTag f = Some TAG_PARENT) (sFields s))
      = (case pParent p of None \<Rightarrow> [] | Some q \<Rightarrow> [q])"
    by (simp only: filter_field_proj s(1) filter_fields_content) (simp split: option.split)
  have md': "(if map fValue (filter (\<lambda>f. fTag f = Some TAG_METADATA) (sFields s)) \<noteq> []
      then Some (concatBytes (map fValue (filter (\<lambda>f. fTag f = Some TAG_METADATA) (sFields s)))) else None)
      = (case pMetadata p of None \<Rightarrow> None | Some [] \<Rightarrow> None | Some m \<Rightarrow> Some m)"
    unfolding md by (auto simp: chunked_step split: option.split list.split)
  have nd: "list_ex (\<lambda>(k, n). n > 1 \<and> \<not> REPEATABLE_TAG_HEX k) (sSeen s) = False"
    using s(4) by (simp add: no_dup_def)
  have z: "r = zip (chunked (pBody p)) (map snd r)" using sp(3) by (metis zip_map_fst_snd)
  have tags: "first_field (sFields s) TAG_CONTENT_TYPE = Some (pContentType p)"
      "first_field (sFields s) TAG_POINTER = None" "first_field (sFields s) TAG_METAPROTOCOL = None"
      "first_field (sFields s) TAG_CONTENT_ENCODING = None" "first_field (sFields s) TAG_DELEGATE = None"
    unfolding ff find_fields_content by (simp_all add: tag_defs)
  have tk: "take (length ph) (rPushes raw) = ph" "drop (length ph + 1) (rPushes raw) = r"
    by (simp_all add: sp(1))
  have eq: "decodeRawEnvelope L raw =
     \<lparr>iContentType = utf8Decode (pContentType p), iBody = pBody p, iHasBody = True,
      iBodyChunks = r,
      iParents = List.map_filter (decodeInscriptionId L) (case pParent p of None \<Rightarrow> [] | Some q \<Rightarrow> [q]),
      iMetadata = (case pMetadata p of None \<Rightarrow> None | Some [] \<Rightarrow> None | Some m \<Rightarrow> Some m),
      iPointer = None, iMetaprotocol = None, iContentEncoding = None, iDelegate = None,
      iFields = sFields s, iFlags = \<lparr>pushnum = False, duplicateField = False, incompleteField = False,
        unrecognizedEvenField = False\<rparr>, iOffset = rOffset raw, iLength = rLength raw\<rparr>"
    unfolding decodeRawEnvelope_def Let_def at option.case tk s_def [symmetric] map_filter_comp pa md' nd tags sp(3)
    using assms(3) s(2,3) by simp
  show ?thesis using eq z by metis
qed

lemma prepare_fields:
  assumes "prepare c = Inr p"
  shows "pContentType p = utf8 (contentType c)" and "pBody p = body c"
    and "pMetadata p = (case metadata c of None \<Rightarrow> None | Some [] \<Rightarrow> None | Some m \<Rightarrow> Some m)"
    and "(case parentId c of None \<Rightarrow> pParent p = None
          | Some i \<Rightarrow> \<exists>q. encodeParentId i = Inr q \<and> pParent p = Some q)"
  using assms
  by (auto simp: prepare_def Let_def emap_def ebind_eq_Inr split: if_splits option.splits list.splits)

subsection \<open>Properties\<close>

text \<open>
  C1: the parser inverts the builder. For every content whose MIME type is well-formed UTF-16 text not
  starting with a byte-order mark, the script the builder returns holds exactly one inscription,
  and parsing it recovers the MIME type, the body, the metadata (absent and empty are the same
  script), the parent id in its lower-case form, and none of ord's cursed flags; the envelope
  starts right after the 34 bytes of the key check and ends with the script.
\<close>

theorem parse_build_roundtrip:
  assumes "hex_documented L" and "buildInscriptionScript pk c = Inr script"
    and "well_formed_utf16 (contentType c)" and "no_bom (contentType c)"
  shows "\<exists>e. parseEnvelopes L (Script script) base = [e]
    \<and> parseEnvelope L (Script script) base = Some e
    \<and> iContentType e = Some (contentType c)
    \<and> iHasBody e \<and> iBody e = body c
    \<and> iMetadata e = (case metadata c of None \<Rightarrow> None | Some [] \<Rightarrow> None | Some m \<Rightarrow> Some m)
    \<and> iParents e = (case parentId c of None \<Rightarrow> [] | Some i \<Rightarrow> [lower_string i])
    \<and> iPointer e = None \<and> iDelegate e = None \<and> iContentEncoding e = None \<and> iMetaprotocol e = None
    \<and> iFlags e = \<lparr>pushnum = False, duplicateField = False, incompleteField = False,
                    unrecognizedEvenField = False\<rparr>
    \<and> iOffset e = base + 34 \<and> iLength e = length script - 34"
proof -
  obtain p where pk: "length pk = 32" and p: "prepare c = Inr p" and s: "script = envelope_bytes pk p"
    using assms(2) by (auto simp: buildInscriptionScript_ok)
  note f = prepare_fields [OF p]
  have ops: "decodeOps script = ops_of 0 (leaf_items pk (content_pushes p))"
    using leaf_items_ok [OF pk prepare_ok [OF p]] by (simp add: s envelope_items decodeOps_items_bytes)
  obtain ps where ps: "findRawEnvelopes script base =
     [\<lparr>rOffset = base + 34, rLength = length script - 34, rPushes = ps, rPushnum = False\<rparr>]"
     "map fst ps = content_pushes p"
    using find_leaf_items [OF pk, of base "content_pushes p"]
    unfolding findRawEnvelopes_def ops unfolding s envelope_items by blast
  let ?raw = "\<lparr>rOffset = base + 34, rLength = length script - 34, rPushes = ps, rPushnum = False\<rparr>"
  have par: "List.map_filter (decodeInscriptionId L) (case pParent p of None \<Rightarrow> [] | Some q \<Rightarrow> [q])
      = (case parentId c of None \<Rightarrow> [] | Some i \<Rightarrow> [lower_string i])"
    using f(4) decode_encodeParentId [OF assms(1)]
    by (auto simp: List.map_filter_def split: option.splits)
  have ct: "utf8Decode (pContentType p) = Some (contentType c)"
    using utf8_roundtrip [OF assms(3,4)] f(1) by simp
  have md: "(case pMetadata p of None \<Rightarrow> None | Some [] \<Rightarrow> None | Some m \<Rightarrow> Some m)
      = (case metadata c of None \<Rightarrow> None | Some [] \<Rightarrow> None | Some m \<Rightarrow> Some m)"
    unfolding f(3) by (auto split: option.split list.split)
  have "parseEnvelopes L (Script script) base = [decodeRawEnvelope L ?raw]"
    by (simp add: parseEnvelopes_def toScript_def ps(1))
  moreover have "map fst (rPushes ?raw) = content_pushes p" "\<not> rPushnum ?raw" by (simp_all add: ps(2))
  then obtain flds offs where "decodeRawEnvelope L ?raw = 
     \<lparr>iContentType = Some (contentType c), iBody = body c, iHasBody = True,
      iBodyChunks = zip (chunked (pBody p)) offs,
      iParents = (case parentId c of None \<Rightarrow> [] | Some i \<Rightarrow> [lower_string i]),
      iMetadata = (case metadata c of None \<Rightarrow> None | Some [] \<Rightarrow> None | Some m \<Rightarrow> Some m),
      iPointer = None, iMetaprotocol = None, iContentEncoding = None, iDelegate = None,
      iFields = flds, iFlags = \<lparr>pushnum = False, duplicateField = False, incompleteField = False,
        unrecognizedEvenField = False\<rparr>, iOffset = base + 34, iLength = length script - 34\<rparr>"
    using decodeRaw_content [OF assms(1), of ?raw p] unfolding par ct md f(2) by auto
  ultimately show ?thesis by (simp add: parseEnvelope_def)
qed

definition example_lib :: hash_lib where
  "example_lib = \<lparr>hexEncode = hex_string, hexDecode = (\<lambda>s. Some (unhex s)), sha256 = (\<lambda>bs. replicate 32 0)\<rparr>"

lemma example_lib_documented: "hex_documented example_lib" "sha256_documented example_lib"
  by (simp_all add: example_lib_def hex_documented_def sha256_documented_def)

definition example_id :: string where
  "example_id = concat (replicate 32 ''0A'') @ ''i258''"

definition example_content :: InscriptionContent where
  "example_content = \<lparr>contentType = [116, 47, 112], body = [7, 8, 9],
     parentId = Some example_id, metadata = Some [0xa0]\<rparr>"

lemma example_script: "\<exists>s. buildInscriptionScript (replicate 32 1) example_content = Inr s"
proof -
  have "match_inscription_id example_id = Some (concat (replicate 32 ''0A''), ''258'')"
    "num_of_digits 0 ''258'' = 258"
    by code_simp+
  then have "\<exists>q. encodeParentId example_id = Inr q"
    by (simp add: encodeParentId_def Let_def)
  moreover have "length (utf8 [116, 47, 112]) \<le> 520"
    by (simp add: utf8_def hi_surrogate_def lo_surrogate_def utf8_point_def u8_def)
  ultimately have "\<exists>p. prepare example_content = Inr p"
    by (auto simp: prepare_def example_content_def MAX_SCRIPT_ELEMENT_SIZE_def Let_def)
  then show ?thesis by (auto simp: buildInscriptionScript_ok)
qed

theorem parse_build_roundtrip_witness:
  "\<exists>script e. buildInscriptionScript (replicate 32 1) example_content = Inr script
     \<and> parseEnvelope example_lib (Script script) 5 = Some e
     \<and> iBody e = [7, 8, 9] \<and> iParents e = [concat (replicate 32 ''0a'') @ ''i258'']"
proof -
  have 1: "well_formed_utf16 (contentType example_content)" "no_bom (contentType example_content)"
    by (simp_all add: example_content_def hi_surrogate_def lo_surrogate_def no_bom_def utf8_def utf8_point_def u8_def)
  obtain s where s: "buildInscriptionScript (replicate 32 1) example_content = Inr s"
    using example_script by blast
  from parse_build_roundtrip [OF example_lib_documented(1) s 1, of 5]
  obtain e where e: "parseEnvelope example_lib (Script s) 5 = Some e" "iBody e = body example_content"
     "iParents e = (case parentId example_content of None \<Rightarrow> [] | Some i \<Rightarrow> [lower_string i])"
    by blast
  moreover have "lower_string example_id = concat (replicate 32 ''0a'') @ ''i258''"
    by code_simp
  ultimately show ?thesis using s by (auto simp: example_content_def)
qed

end
