(* ===== verification/Sizing.thy ===== *)
theory Sizing imports Envelope Complex_Main begin

text \<open>
  \<open>platform/inscription/src/sizing.ts\<close>: the weight of the reveal, its fee lane and the exact fee
  quote. The weight is compared with BIP-141's weight of the serialized transaction; the quote with
  the ceiling of the rational number the fee rate's decimal text denotes.
\<close>

subsection \<open>Weight\<close>

datatype Lane = Standard | Block

definition P2TR_SCRIPT_LEN :: nat where "P2TR_SCRIPT_LEN = 34"
definition INPUT_BASE :: nat where "INPUT_BASE = 41"
definition COMMIT_SIG :: nat where "COMMIT_SIG = 65"
definition COMMIT_SIG_DEFAULT :: nat where "COMMIT_SIG_DEFAULT = 64"
definition PARENT_SIG :: nat where "PARENT_SIG = 64"
definition CONTROL_BLOCK :: nat where "CONTROL_BLOCK = 33"

lemmas size_defs = P2TR_SCRIPT_LEN_def INPUT_BASE_def COMMIT_SIG_def COMMIT_SIG_DEFAULT_def
  PARENT_SIG_def CONTROL_BLOCK_def

datatype CommitSighashForSizing = SizeDefault | SizeAll | SizeAllAcp | SizeSingleAcp | SizeByte nat

definition commitSignatureSize :: "CommitSighashForSizing option \<Rightarrow> nat" where
  "commitSignatureSize sighash =
     (if sighash = Some SizeDefault \<or> sighash = Some (SizeByte 0) then COMMIT_SIG_DEFAULT else COMMIT_SIG)"

definition outputSize :: "nat \<Rightarrow> nat" where
  "outputSize scriptLen = 8 + compactSizeLen scriptLen + scriptLen"

definition isP2TR :: "bytes \<Rightarrow> bool" where
  "isP2TR script = (length script = 34 \<and> script ! 0 = 0x51 \<and> script ! 1 = 0x20)"

record RevealWeightArgs =
  wContent :: InscriptionContent
  wWithParent :: bool
  wRecipientScript :: bytes
  wParentReturnScript :: "bytes option"
  wParentInputScript :: "bytes option"
  wCommitSighash :: "CommitSighashForSizing option"

definition estimateRevealWeight :: "RevealWeightArgs \<Rightarrow> insc_error + nat" where
  "estimateRevealWeight args =
     (if wRecipientScript args = [] then Inl (Error ''recipientScript is required'')
      else if wWithParent args \<and> (case wParentInputScript args of None \<Rightarrow> False | Some s \<Rightarrow> \<not> isP2TR s)
      then Inl (Error ''parentInputScript must be P2TR (key-path spend is assumed)'')
      else ebind (inscriptionScriptLength (wContent args)) (\<lambda>leafLen.
        let nIn = (if wWithParent args then 2 else 1);
            nOut = (if wWithParent args then 2 else 1);
            base0 = 4 + compactSizeLen nIn + nIn * INPUT_BASE + compactSizeLen nOut + 4;
            base1 = base0 + outputSize (length (wRecipientScript args));
            base2 = (if wWithParent args
                     then base1 + outputSize (case wParentReturnScript args of
                            None \<Rightarrow> P2TR_SCRIPT_LEN | Some s \<Rightarrow> length s)
                     else base1);
            commitSig = commitSignatureSize (wCommitSighash args);
            witness0 = 2 + compactSizeLen 3 + (compactSizeLen commitSig + commitSig)
                     + (compactSizeLen leafLen + leafLen) + (compactSizeLen CONTROL_BLOCK + CONTROL_BLOCK);
            witness1 = (if wWithParent args then witness0 + (compactSizeLen 1 + compactSizeLen PARENT_SIG + PARENT_SIG)
                        else witness0)
        in Inr (base2 * 4 + witness1)))"

definition estimateResignedRescueWeight :: "InscriptionContent \<Rightarrow> bytes \<Rightarrow> insc_error + nat" where
  "estimateResignedRescueWeight content recipientScript =
     emap (\<lambda>w. w - (COMMIT_SIG - PARENT_SIG))
       (estimateRevealWeight \<lparr>wContent = content, wWithParent = False, wRecipientScript = recipientScript,
          wParentReturnScript = None, wParentInputScript = None, wCommitSighash = None\<rparr>)"

text \<open>Weights are JavaScript numbers that are integers here; negative and unsafe ones are errors.\<close>

definition vsizeFromWeight :: "int \<Rightarrow> insc_error + nat" where
  "vsizeFromWeight weight =
     (if weight < 0 \<or> weight > int MAX_SAFE_INTEGER then Inl (Error ''invalid weight'')
      else Inr ((nat weight + 3) div 4))"

definition laneFor :: "int \<Rightarrow> insc_error + Lane option" where
  "laneFor revealWeight =
     (if revealWeight < 0 then Inl (Error ''invalid weight'')
      else if revealWeight \<le> int MAX_STANDARD_TX_WEIGHT then Inr (Some Standard)
      else if revealWeight \<le> int BLOCK_LANE_MAX_TX_WEIGHT then Inr (Some Block)
      else Inr None)"

subsection \<open>Fee quote\<close>

text \<open>
  A JavaScript number as the quote sees it: not finite, or finite with its sign and the text
  \<open>String(x)\<close> gives (the shortest round-trip decimal).
\<close>

datatype js_number = NotFinite | Finite bool string

text \<open>\<open>/^(\d+)(?:\.(\d+))?(?:e([+-]?\d+))?$/\<close>: the three groups.\<close>

definition match_exponent :: "string \<Rightarrow> int option option" where
  "match_exponent s =
     (case s of
        [] \<Rightarrow> Some None
      | c # r \<Rightarrow>
          if c = CHR ''e'' then
            (let ds = (case r of d # r' \<Rightarrow> if d = CHR ''+'' \<or> d = CHR ''-'' then r' else r | [] \<Rightarrow> []) in
             if ds \<noteq> [] \<and> list_all is_digit ds
             then Some (Some (if hd r = CHR ''-'' then - int (num_of_digits 0 ds) else int (num_of_digits 0 ds)))
             else None)
          else None)"

definition match_decimal :: "string \<Rightarrow> (string \<times> string \<times> int) option" where
  "match_decimal s =
     (let ip = takeWhile is_digit s; r = dropWhile is_digit s in
      if ip = [] then None
      else let (frc, r2) = (case r of
                 c # r1 \<Rightarrow> if c = CHR ''.'' \<and> takeWhile is_digit r1 \<noteq> []
                           then (takeWhile is_digit r1, dropWhile is_digit r1) else ([], r)
               | [] \<Rightarrow> ([], []))
        in map_option (\<lambda>e. (ip, frc, case e of None \<Rightarrow> 0 | Some k \<Rightarrow> k)) (match_exponent r2))"

definition toDecimal :: "js_number \<Rightarrow> insc_error + (nat \<times> nat)" where
  "toDecimal x =
     (case x of
        NotFinite \<Rightarrow> Inl (Error ''invalid fee rate'')
      | Finite neg text \<Rightarrow>
          if neg then Inl (Error ''invalid fee rate'')
          else (case match_decimal text of
              None \<Rightarrow> Inl (Error ''cannot parse fee rate'')
            | Some (ip, frc, ex) \<Rightarrow>
                let num = num_of_digits 0 (ip @ frc);
                    scale = int (length frc) - ex
                in if scale < 0 then Inr (num * 10 ^ nat (- scale), 10 ^ 0)
                   else Inr (num, 10 ^ nat scale)))"

record Quote =
  qRevealVsize :: nat
  qRevealFee :: int
  qCommitValue :: int

definition quoteReveal :: "int \<Rightarrow> js_number \<Rightarrow> int \<Rightarrow> insc_error + Quote" where
  "quoteReveal revealWeight feeRate postage =
     ebind (vsizeFromWeight revealWeight) (\<lambda>revealVsize.
     if postage < 0 then Inl (Error ''postage must be a non-negative bigint'')
     else ebind (toDecimal feeRate) (\<lambda>(num, den).
       let product = int revealVsize * int num;
           revealFee = (product + int den - 1) div int den
       in Inr \<lparr>qRevealVsize = revealVsize, qRevealFee = revealFee, qCommitValue = revealFee + postage\<rparr>))"

subsection \<open>The serialized transaction\<close>

text \<open>
  BIP-141: the transaction's bytes without and with its witness data, and the weight. This is
  what the network measures; it is independent of the estimator's constants.
\<close>

record TxIn =
  tiOutpoint :: bytes
  tiScriptSig :: bytes
  tiSequence :: nat

record WitnessTx =
  wtVersion :: nat
  wtIns :: "TxIn list"
  wtOuts :: "(nat \<times> bytes) list"
  wtWitness :: "bytes list list"
  wtLockTime :: nat

definition var_bytes :: "bytes \<Rightarrow> bytes" where
  "var_bytes b = (case compactSize (length b) of Inr p \<Rightarrow> p @ b | Inl _ \<Rightarrow> [])"

definition count_bytes :: "nat \<Rightarrow> bytes" where
  "count_bytes n = (case compactSize n of Inr p \<Rightarrow> p | Inl _ \<Rightarrow> [])"

definition in_bytes :: "TxIn \<Rightarrow> bytes" where
  "in_bytes i = tiOutpoint i @ var_bytes (tiScriptSig i) @ le_bytes 4 (tiSequence i)"

definition out_bytes :: "nat \<times> bytes \<Rightarrow> bytes" where
  "out_bytes x = le_bytes 8 (fst x) @ var_bytes (snd x)"

definition body_bytes :: "WitnessTx \<Rightarrow> bytes" where
  "body_bytes t = count_bytes (length (wtIns t)) @ concat (map in_bytes (wtIns t))
     @ count_bytes (length (wtOuts t)) @ concat (map out_bytes (wtOuts t))"

definition stack_bytes :: "bytes list \<Rightarrow> bytes" where
  "stack_bytes w = count_bytes (length w) @ concat (map var_bytes w)"

definition legacy_bytes :: "WitnessTx \<Rightarrow> bytes" where
  "legacy_bytes t = le_bytes 4 (wtVersion t) @ body_bytes t @ le_bytes 4 (wtLockTime t)"

definition segwit_bytes :: "WitnessTx \<Rightarrow> bytes" where
  "segwit_bytes t = le_bytes 4 (wtVersion t) @ [0x00, 0x01] @ body_bytes t
     @ concat (map stack_bytes (wtWitness t)) @ le_bytes 4 (wtLockTime t)"

definition bip141_weight :: "WitnessTx \<Rightarrow> nat" where
  "bip141_weight t = 3 * length (legacy_bytes t) + length (segwit_bytes t)"

text \<open>
  A fully signed reveal: \<open>[commit] -> [child]\<close>, or with a parent \<open>[parent, commit] -> [return, child]\<close>,
  the commit input spent by a 65-byte (or, for SIGHASH_DEFAULT, 64-byte) signature, the leaf script
  and a 33-byte control block.
\<close>

definition commit_in_ok :: "TxIn \<Rightarrow> bool" where
  "commit_in_ok i \<longleftrightarrow> length (tiOutpoint i) = 36 \<and> tiScriptSig i = []"

definition signed_reveal ::
  "bool \<Rightarrow> TxIn \<Rightarrow> TxIn \<Rightarrow> nat \<times> bytes \<Rightarrow> nat \<times> bytes \<Rightarrow> bytes list \<Rightarrow> bytes \<Rightarrow> WitnessTx" where
  "signed_reveal withParent parentIn commitIn returnOut childOut commitWitness parentSig =
     (if withParent
      then \<lparr>wtVersion = nat REVEAL_TX_VERSION, wtIns = [parentIn, commitIn], wtOuts = [returnOut, childOut],
            wtWitness = [[parentSig], commitWitness], wtLockTime = REVEAL_LOCKTIME\<rparr>
      else \<lparr>wtVersion = nat REVEAL_TX_VERSION, wtIns = [commitIn], wtOuts = [childOut],
            wtWitness = [commitWitness], wtLockTime = REVEAL_LOCKTIME\<rparr>)"

subsection \<open>Facts\<close>

lemma length_var_bytes: "length b \<le> 0xffffffff \<Longrightarrow> length (var_bytes b) = compactSizeLen (length b) + length b"
proof -
  assume "length b \<le> 0xffffffff"
  then obtain p where p: "compactSize (length b) = Inr p"
    using compactSize_ok [of "length b"] by (auto simp: is_ok_iff)
  with compactSize_length [OF p] show ?thesis by (simp add: var_bytes_def)
qed

lemma length_count_bytes: "n \<le> 0xffffffff \<Longrightarrow> length (count_bytes n) = compactSizeLen n"
proof -
  assume "n \<le> 0xffffffff"
  then obtain p where p: "compactSize n = Inr p"
    using compactSize_ok [of n] by (auto simp: is_ok_iff)
  with compactSize_length [OF p] show ?thesis by (simp add: count_bytes_def)
qed

lemma length_in_bytes: "commit_in_ok i \<Longrightarrow> length (in_bytes i) = INPUT_BASE"
  by (simp add: commit_in_ok_def in_bytes_def length_var_bytes compactSizeLen_def INPUT_BASE_def)

lemma length_out_bytes: "length s \<le> 0xffffffff \<Longrightarrow> length (out_bytes (v, s)) = outputSize (length s)"
  by (simp add: out_bytes_def length_var_bytes outputSize_def)

lemma bip141_weight_split:
  "bip141_weight t = 4 * length (legacy_bytes t) + 2 + length (concat (map stack_bytes (wtWitness t)))"
  by (simp add: bip141_weight_def legacy_bytes_def segwit_bytes_def)

lemma length_3_witness:
  assumes "length sig = k" "k \<le> 65" "length s \<le> 0xffffffff" "length cb = 33"
  shows "length (stack_bytes [sig, s, cb])
    = compactSizeLen 3 + (compactSizeLen k + k) + (compactSizeLen (length s) + length s)
      + (compactSizeLen CONTROL_BLOCK + CONTROL_BLOCK)"
  using assms
  by (simp add: stack_bytes_def length_count_bytes length_var_bytes CONTROL_BLOCK_def numeral_3_eq_3)

text \<open>The rational number a decimal text denotes, digit strings read at their place.\<close>

definition decimal_denotes :: "string \<Rightarrow> rat option" where
  "decimal_denotes text =
     map_option (\<lambda>(ip, frc, ex).
        (of_nat (num_of_digits 0 ip) + of_nat (num_of_digits 0 frc) / 10 ^ length frc) * 10 powi ex)
       (match_decimal text)"

lemma num_of_digits_shift: "num_of_digits acc ds = acc * 10 ^ length ds + num_of_digits 0 ds"
proof (induction ds arbitrary: acc)
  case (Cons d ds)
  show ?case
    using Cons [of "10 * acc + the (digit_val d)"] Cons [of "the (digit_val d)"]
    by (simp add: algebra_simps)
qed simp

lemma toDecimal_denotes:
  assumes "toDecimal (Finite neg text) = Inr (num, den)"
  shows "decimal_denotes text = Some (of_nat num / of_nat den)" and "0 < den" and "\<not> neg"
proof -
  show neg: "\<not> neg" using assms by (simp add: toDecimal_def split: if_splits)
  then obtain ip frc ex where m: "match_decimal text = Some (ip, frc, ex)"
    using assms by (auto simp: toDecimal_def split: option.splits)
  let ?n = "num_of_digits 0 (ip @ frc)"
  have n: "of_nat ?n = (of_nat (num_of_digits 0 ip) + of_nat (num_of_digits 0 frc) / 10 ^ length frc)
      * (10 :: rat) ^ length frc"
    by (simp add: num_of_digits_append num_of_digits_shift [of "num_of_digits 0 ip"] field_simps)
  show "0 < den" using assms m neg
    by (auto simp: toDecimal_def Let_def split: if_splits)
  show "decimal_denotes text = Some (of_nat num / of_nat den)"
  proof (cases "int (length frc) - ex < 0")
    case True
    then have "num = ?n * 10 ^ nat (ex - int (length frc))" "den = 1"
      using assms m neg by (auto simp: toDecimal_def Let_def)
    moreover have "(10 :: rat) powi ex = 10 ^ length frc * 10 ^ nat (ex - int (length frc))"
      using True by (auto simp: power_int_def power_add [symmetric] nat_diff_distrib)
    ultimately show ?thesis using m n by (simp add: decimal_denotes_def)
  next
    case False
    then have d: "num = ?n" "den = 10 ^ nat (int (length frc) - ex)"
      using assms m neg by (auto simp: toDecimal_def Let_def)
    have "(10 :: rat) powi ex * 10 ^ nat (int (length frc) - ex) = 10 powi (ex + (int (length frc) - ex))"
      using False by (subst power_int_add) (simp_all add: power_int_def)
    then have "(10 :: rat) powi ex * 10 ^ nat (int (length frc) - ex) = 10 ^ length frc" by simp
    then have "(10 :: rat) powi ex = 10 ^ length frc / 10 ^ nat (int (length frc) - ex)"
      by (simp add: field_simps)
    with m n d show ?thesis by (simp add: decimal_denotes_def)
  qed
qed

lemma ceil_div:
  assumes "0 < d"
  shows "(p + d - 1) div d = \<lceil>rat_of_int p / rat_of_int d\<rceil>"
proof -
  have "p + d - 1 = d * (- ((- p) div d)) + (d - 1 - (- p) mod d)"
    using mult_div_mod_eq [of d "- p"] by (simp add: algebra_simps)
  then have "(p + d - 1) div d = - ((- p) div d)"
    by (rule int_div_pos_eq) (use assms pos_mod_bound [of d "- p"] pos_mod_sign [of d "- p"] in linarith)+
  then show ?thesis by (simp add: ceiling_divide_eq_div)
qed

lemma vsize_ceil: "(w + 3) div 4 = nat \<lceil>rat_of_nat w / 4\<rceil>"
proof -
  have "(int w + 4 - 1) div 4 = \<lceil>rat_of_int (int w) / rat_of_int 4\<rceil>" by (rule ceil_div) simp
  moreover have "(int w + 4 - 1) div 4 = int ((w + 3) div 4)" by (simp add: zdiv_int)
  ultimately have "int ((w + 3) div 4) = \<lceil>rat_of_nat w / 4\<rceil>" by simp
  then show ?thesis by (metis nat_int)
qed

subsection \<open>Properties\<close>

text \<open>
  C2: the estimator is exact. For a reveal built on the script of \<open>buildInscriptionScript\<close>, signed
  with a signature of the size the chosen hash type has, the estimate is the BIP-141 weight of the
  serialized transaction, in both layouts.
\<close>

theorem estimateRevealWeight_exact:
  assumes "buildInscriptionScript pk (wContent args) = Inr script" and "length script \<le> 0xffffffff"
    and "wRecipientScript args \<noteq> []" and "length (wRecipientScript args) \<le> 0xffffffff"
    and "wWithParent args \<longrightarrow> (case wParentInputScript args of None \<Rightarrow> True | Some s \<Rightarrow> isP2TR s)"
    and "length returnScript = (case wParentReturnScript args of None \<Rightarrow> 34 | Some s \<Rightarrow> length s)"
    and "length returnScript \<le> 0xffffffff"
    and "commit_in_ok parentIn" and "commit_in_ok commitIn"
    and "length sig = commitSignatureSize (wCommitSighash args)" and "length cb = 33" and "length psig = 64"
  shows "estimateRevealWeight args = Inr (bip141_weight (signed_reveal (wWithParent args) parentIn commitIn
           (rv, returnScript) (cv, wRecipientScript args) [sig, script, cb] psig))"
proof -
  have sig: "commitSignatureSize (wCommitSighash args) \<le> 65"
    by (simp add: commitSignatureSize_def size_defs)
  have p: "\<not> (wWithParent args \<and> (case wParentInputScript args of None \<Rightarrow> False | Some s \<Rightarrow> \<not> isP2TR s))"
    using assms(5) by (auto split: option.splits)
  have st1: "length (stack_bytes [psig]) = compactSizeLen 1 + compactSizeLen PARENT_SIG + PARENT_SIG"
    using assms(12) by (simp add: stack_bytes_def length_count_bytes length_var_bytes PARENT_SIG_def)
  have cs: "compactSizeLen (Suc 0) = 1" "compactSizeLen 1 = 1" "compactSizeLen 2 = 1" "compactSizeLen 3 = 1"
    "compactSizeLen (Suc (Suc 0)) = 1"
    by (simp_all add: compactSizeLen_def)
  have ret: "outputSize (case wParentReturnScript args of None \<Rightarrow> P2TR_SCRIPT_LEN | Some s \<Rightarrow> length s)
      = outputSize (length returnScript)"
    by (subst assms(6)) (simp add: P2TR_SCRIPT_LEN_def split: option.split)
  show ?thesis
    using assms(3,4,7) p
    by (simp add: estimateRevealWeight_def inscriptionScriptLength_eq [OF assms(1)] bip141_weight_split
        signed_reveal_def legacy_bytes_def body_bytes_def length_count_bytes length_in_bytes assms(8,9)
        length_out_bytes ret st1 length_3_witness [OF assms(10) sig assms(2,11)] cs Let_def)
qed

definition example_in :: TxIn where
  "example_in = \<lparr>tiOutpoint = replicate 36 3, tiScriptSig = [], tiSequence = REVEAL_SEQUENCE\<rparr>"

theorem estimateRevealWeight_exact_witness:
  "estimateRevealWeight \<lparr>wContent = simple_content, wWithParent = True,
      wRecipientScript = replicate 34 1, wParentReturnScript = None, wParentInputScript = None, wCommitSighash = None\<rparr>
   = Inr (bip141_weight (signed_reveal True example_in example_in (330, replicate 34 2) (546, replicate 34 1)
       [replicate 65 9, envelope_bytes (replicate 32 1)
          \<lparr>pContentType = [116], pParent = None, pMetadata = None, pBody = [7, 8]\<rparr>, replicate 33 5] (replicate 64 4)))"
proof -
  let ?a = "\<lparr>wContent = simple_content, wWithParent = True,
      wRecipientScript = replicate 34 1, wParentReturnScript = None, wParentInputScript = None, wCommitSighash = None\<rparr>"
  have b: "buildInscriptionScript (replicate 32 1) (wContent ?a) = Inr (envelope_bytes (replicate 32 1)
          \<lparr>pContentType = [116], pParent = None, pMetadata = None, pBody = [7, 8]\<rparr>)"
    by (simp add: simple_script)
  have i: "commit_in_ok example_in" by (simp add: commit_in_ok_def example_in_def)
  have "estimateRevealWeight ?a = Inr (bip141_weight (signed_reveal (wWithParent ?a) example_in example_in
      (330, replicate 34 2) (546, wRecipientScript ?a) [replicate 65 9, envelope_bytes (replicate 32 1)
          \<lparr>pContentType = [116], pParent = None, pMetadata = None, pBody = [7, 8]\<rparr>, replicate 33 5] (replicate 64 4)))"
    by (rule estimateRevealWeight_exact [OF b _ _ _ _ _ _ i i])
       (simp_all add: length_simple_script commitSignatureSize_def size_defs)
  then show ?thesis by simp
qed

lemma quoteReveal_fields:
  assumes "quoteReveal w (Finite neg text) postage = Inr q"
  shows "0 \<le> w" and "qRevealVsize q = nat \<lceil>rat_of_int w / 4\<rceil>"
    and "\<exists>r. decimal_denotes text = Some r \<and> qRevealFee q = \<lceil>of_nat (qRevealVsize q) * r\<rceil>"
    and "qCommitValue q = qRevealFee q + postage \<and> 0 \<le> postage \<and> \<not> neg"
proof -
  obtain num den where w: "0 \<le> w" "w \<le> int MAX_SAFE_INTEGER" "0 \<le> postage"
      and d: "toDecimal (Finite neg text) = Inr (num, den)"
      and q: "q = \<lparr>qRevealVsize = (nat w + 3) div 4,
        qRevealFee = (int ((nat w + 3) div 4) * int num + int den - 1) div int den,
        qCommitValue = (int ((nat w + 3) div 4) * int num + int den - 1) div int den + postage\<rparr>"
    using assms by (auto simp: quoteReveal_def vsizeFromWeight_def Let_def ebind_eq_Inr split: if_splits)
  note t = toDecimal_denotes [OF d]
  have "(int ((nat w + 3) div 4) * int num + int den - 1) div int den
      = \<lceil>of_nat ((nat w + 3) div 4) * (rat_of_nat num / of_nat den)\<rceil>"
    using ceil_div [of "int den" "int ((nat w + 3) div 4) * int num"] t(2) by simp
  with t w q vsize_ceil [of "nat w"]
  show "0 \<le> w" "qRevealVsize q = nat \<lceil>rat_of_int w / 4\<rceil>"
    "\<exists>r. decimal_denotes text = Some r \<and> qRevealFee q = \<lceil>of_nat (qRevealVsize q) * r\<rceil>"
    "qCommitValue q = qRevealFee q + postage \<and> 0 \<le> postage \<and> \<not> neg"
    by simp_all
qed

text \<open>
  The fee quote is exact. The fee is the ceiling of the virtual size times the rational number
  the fee rate's decimal text denotes (no binary rounding error), the virtual size is a quarter of
  the weight rounded up, and the commit value is the fee plus the postage.
\<close>

theorem quoteReveal_exact:
  assumes "quoteReveal w (Finite neg text) postage = Inr q"
  shows "qRevealVsize q = nat \<lceil>rat_of_int w / 4\<rceil>
    \<and> (\<exists>r. decimal_denotes text = Some r \<and> qRevealFee q = \<lceil>of_nat (qRevealVsize q) * r\<rceil>)
    \<and> qCommitValue q = qRevealFee q + postage \<and> 0 \<le> postage \<and> \<not> neg"
  using quoteReveal_fields [OF assms] by blast

theorem quoteReveal_exact_witness:
  "quoteReveal 4000 (Finite False ''1.1'') 546 = Inr \<lparr>qRevealVsize = 1000, qRevealFee = 1100, qCommitValue = 1646\<rparr>
   \<and> (\<exists>r. decimal_denotes ''1.1'' = Some r \<and> (1100 :: int) = \<lceil>of_nat 1000 * r\<rceil>)"
proof -
  have q: "quoteReveal 4000 (Finite False ''1.1'') 546 = Inr \<lparr>qRevealVsize = 1000, qRevealFee = 1100, qCommitValue = 1646\<rparr>"
  proof -
    have "match_decimal ''1.1'' = Some (''1'', ''1'', 0)" "num_of_digits 0 ''11'' = 11" by code_simp+
    then have "toDecimal (Finite False ''1.1'') = Inr (11, 10)" by (simp add: toDecimal_def)
    then show ?thesis by (simp add: quoteReveal_def vsizeFromWeight_def MAX_SAFE_INTEGER_def)
  qed
  from quoteReveal_exact [OF q] q show ?thesis by simp
qed

end
