(* ===== verification/Sighash.thy ===== *)
theory Sighash imports InscBase begin

text \<open>
  \<open>platform/inscription/src/sighash.ts\<close>: the BIP-341/342 signature hash of the commit input. The
  message is laid out exactly as the code concatenates it; the last section shows what a digest
  commits to.
\<close>

definition TAG :: "'z hash_lib_scheme \<Rightarrow> bytes" where
  "TAG L = sha256 L (map (\<lambda>c. word_of_nat (of_char c)) ''TapSighash'')"

definition taggedHash :: "'z hash_lib_scheme \<Rightarrow> bytes \<Rightarrow> bytes" where
  "taggedHash L msg = sha256 L (concatBytes [TAG L, TAG L, msg])"

record SighashOutput =
  soScript :: bytes
  soValue :: int

definition serializeOutput :: "SighashOutput \<Rightarrow> insc_error + bytes" where
  "serializeOutput x =
     ebind (u64le (soValue x)) (\<lambda>v. ebind (compactSize (length (soScript x))) (\<lambda>n.
       Inr (concatBytes [v, n, soScript x])))"

record SighashArgs =
  aTxid :: string
  aVout :: nat
  aCommitValue :: int
  aCommitScript :: bytes
  aTapLeafHash :: bytes
  aChildScript :: "bytes option"
  aChildValue :: "int option"
  aOutputs :: "SighashOutput list option"
  aSighashType :: "byte option"
  aVersion :: "int option"
  aLockTime :: "nat option"
  aSequence :: "nat option"

definition args_type :: "SighashArgs \<Rightarrow> byte" where
  "args_type args = (case aSighashType args of Some t \<Rightarrow> t
     | None \<Rightarrow> (if aOutputs args \<noteq> None then SIGHASH_ALL_ANYONECANPAY else SIGHASH_SINGLE_ANYONECANPAY))"

definition args_version :: "SighashArgs \<Rightarrow> int" where
  "args_version args = (case aVersion args of Some v \<Rightarrow> v | None \<Rightarrow> REVEAL_TX_VERSION)"

definition args_lockTime :: "SighashArgs \<Rightarrow> nat" where
  "args_lockTime args = (case aLockTime args of Some v \<Rightarrow> v | None \<Rightarrow> REVEAL_LOCKTIME)"

definition args_sequence :: "SighashArgs \<Rightarrow> nat" where
  "args_sequence args = (case aSequence args of Some v \<Rightarrow> v | None \<Rightarrow> REVEAL_SEQUENCE)"

text \<open>The argument of \<open>taggedHash\<close> on each of the three branches.\<close>

definition sighash_message :: "'z hash_lib_scheme \<Rightarrow> SighashArgs \<Rightarrow> insc_error + bytes" where
  "sighash_message L args =
     (let sighashType = args_type args in
      ebind (txidToInternal L (aTxid args)) (\<lambda>txid.
      let prevout = concatBytes [txid, u32le (aVout args)] in
      ebind (u64le (aCommitValue args)) (\<lambda>amount.
      ebind (compactSize (length (aCommitScript args))) (\<lambda>spkLen.
      let scriptPubKey = concatBytes [spkLen, aCommitScript args];
          nSequence = u32le (args_sequence args);
          ext = concatBytes [aTapLeafHash args, [0x00], u32le 0xffffffff];
          hd = concatBytes [[0x00], [sighashType], i32le (args_version args), u32le (args_lockTime args)];
          spendType = [0x02 :: byte] in
      if sighashType = SIGHASH_SINGLE_ANYONECANPAY then
        (case (aChildScript args, aChildValue args) of
           (Some cs, Some cv) \<Rightarrow>
             ebind (serializeOutput \<lparr>soScript = cs, soValue = cv\<rparr>) (\<lambda>so.
               Inr (concatBytes [hd, spendType, prevout, amount, scriptPubKey, nSequence, sha256 L so, ext]))
         | _ \<Rightarrow> Inl (Error ''0x83 needs childScript and childValue''))
      else
        (case aOutputs args of
           None \<Rightarrow> Inl (Error ''needs outputs'')
         | Some outs \<Rightarrow>
             if outs = [] then Inl (Error ''needs outputs'')
             else ebind (emapM serializeOutput outs) (\<lambda>ser.
               let shaOutputs = sha256 L (concatBytes ser) in
               if sighashType = SIGHASH_ALL_ANYONECANPAY then
                 Inr (concatBytes [hd, shaOutputs, spendType, prevout, amount, scriptPubKey, nSequence, ext])
               else if sighashType = SIGHASH_DEFAULT \<or> sighashType = SIGHASH_ALL then
                 Inr (concatBytes [hd, sha256 L prevout, sha256 L amount, sha256 L scriptPubKey,
                   sha256 L nSequence, shaOutputs, spendType, u32le 0, ext])
               else Inl (Error ''unsupported sighash type'')))))))"

definition revealCommitSighash :: "'z hash_lib_scheme \<Rightarrow> SighashArgs \<Rightarrow> insc_error + bytes" where
  "revealCommitSighash L args = emap (taggedHash L) (sighash_message L args)"

subsection \<open>Serialized outputs are uniquely readable\<close>

lemma serializeOutput_prefix:
  assumes "serializeOutput x = Inr a" and "serializeOutput y = Inr b" and "a @ r = b @ s"
  shows "x = y \<and> r = s"
proof -
  obtain v n where a: "u64le (soValue x) = Inr v" "compactSize (length (soScript x)) = Inr n"
      "a = v @ n @ soScript x"
    using assms(1) by (auto simp: serializeOutput_def ebind_eq_Inr)
  obtain w m where b: "u64le (soValue y) = Inr w" "compactSize (length (soScript y)) = Inr m"
      "b = w @ m @ soScript y"
    using assms(2) by (auto simp: serializeOutput_def ebind_eq_Inr)
  have "v = w" and rest: "n @ soScript x @ r = m @ soScript y @ s"
    using assms(3) a(3) b(3) length_u64le [OF a(1)] length_u64le [OF b(1)] by auto
  then have val: "soValue x = soValue y" using a(1) b(1) by (auto intro: u64le_inj)
  from compactSize_prefix_free [OF a(2) b(2) rest]
  have "length (soScript x) = length (soScript y)" "soScript x @ r = soScript y @ s" by auto
  with val show ?thesis by simp
qed

lemma serializeOutput_nonempty: "serializeOutput x = Inr a \<Longrightarrow> a \<noteq> []"
  by (auto simp: serializeOutput_def ebind_eq_Inr dest!: length_u64le)

lemma serialize_outputs_inj:
  "emapM serializeOutput xs = Inr as \<Longrightarrow> emapM serializeOutput ys = Inr bs \<Longrightarrow>
     concat as = concat bs \<Longrightarrow> xs = ys"
proof (induction xs arbitrary: ys as bs)
  case Nil
  then show ?case using serializeOutput_nonempty by (cases ys) (fastforce simp: ebind_eq_Inr)+
next
  case (Cons x xs)
  obtain a as' where a: "serializeOutput x = Inr a" "emapM serializeOutput xs = Inr as'" "as = a # as'"
    using Cons.prems(1) by (auto simp: ebind_eq_Inr)
  have "ys \<noteq> []" using Cons.prems(2,3) a serializeOutput_nonempty by auto
  then obtain y ys' where ys: "ys = y # ys'" by (cases ys) auto
  obtain b bs' where b: "serializeOutput y = Inr b" "emapM serializeOutput ys' = Inr bs'" "bs = b # bs'"
    using Cons.prems(2) ys by (auto simp: ebind_eq_Inr)
  have "x = y \<and> concat as' = concat bs'"
    using serializeOutput_prefix [OF a(1) b(1)] Cons.prems(3) unfolding a(3) b(3) by simp
  with Cons.IH [OF a(2) b(2)] show ?case unfolding ys by simp
qed

subsection \<open>What a digest commits to\<close>

text \<open>
  The byte strings a call hashes. Two calls collide only if two of them do: that no two of the
  (at most fourteen) strings of two calls have the same SHA-256 digest is the hypothesis on the
  hash, as an injectivity statement on this explicit finite set.
\<close>

definition amount_bytes :: "SighashArgs \<Rightarrow> bytes" where
  "amount_bytes args = (case u64le (aCommitValue args) of Inr b \<Rightarrow> b | Inl _ \<Rightarrow> [])"

definition spk_bytes :: "SighashArgs \<Rightarrow> bytes" where
  "spk_bytes args = (case compactSize (length (aCommitScript args)) of
     Inr b \<Rightarrow> b @ aCommitScript args | Inl _ \<Rightarrow> [])"

definition prevout_bytes :: "'z hash_lib_scheme \<Rightarrow> SighashArgs \<Rightarrow> bytes" where
  "prevout_bytes L args = (case txidToInternal L (aTxid args) of
     Inr b \<Rightarrow> b @ u32le (aVout args) | Inl _ \<Rightarrow> [])"

text \<open>The outputs signed: all of them, or for 0x83 the child output alone.\<close>

definition signed_outputs :: "SighashArgs \<Rightarrow> SighashOutput list" where
  "signed_outputs args =
     (if args_type args = SIGHASH_SINGLE_ANYONECANPAY
      then (case (aChildScript args, aChildValue args) of
              (Some cs, Some cv) \<Rightarrow> [\<lparr>soScript = cs, soValue = cv\<rparr>] | _ \<Rightarrow> [])
      else (case aOutputs args of Some os \<Rightarrow> os | None \<Rightarrow> []))"

definition outputs_bytes :: "SighashArgs \<Rightarrow> bytes" where
  "outputs_bytes args = (case emapM serializeOutput (signed_outputs args) of
     Inr bs \<Rightarrow> concat bs | Inl _ \<Rightarrow> [])"

definition message_bytes :: "'z hash_lib_scheme \<Rightarrow> SighashArgs \<Rightarrow> bytes" where
  "message_bytes L args = TAG L @ TAG L @ (case sighash_message L args of Inr m \<Rightarrow> m | Inl _ \<Rightarrow> [])"

definition hashed :: "'z hash_lib_scheme \<Rightarrow> SighashArgs \<Rightarrow> bytes set" where
  "hashed L args = {message_bytes L args, outputs_bytes args, prevout_bytes L args, amount_bytes args,
     spk_bytes args, u32le (args_sequence args)}"

definition wf_args :: "SighashArgs \<Rightarrow> bool" where
  "wf_args args \<longleftrightarrow> length (aTapLeafHash args) = 32 \<and> aVout args < 2 ^ 32
     \<and> args_lockTime args < 2 ^ 32 \<and> args_sequence args < 2 ^ 32"

text \<open>Everything a signature over the digest binds.\<close>

definition committed ::
  "SighashArgs \<Rightarrow> byte \<times> int \<times> nat \<times> string \<times> nat \<times> int \<times> bytes \<times> nat \<times> SighashOutput list \<times> bytes" where
  "committed args =
     (args_type args, args_version args mod 2 ^ 32, args_lockTime args, lower_string (aTxid args),
      aVout args, aCommitValue args, aCommitScript args, args_sequence args, signed_outputs args,
      aTapLeafHash args)"

lemma emapM_single: "emapM f [x] = emap (\<lambda>y. [y]) (f x)"
  by (simp add: emap_def)

text \<open>The message on the three branches, over the named parts.\<close>

lemma sighash_message_cases:
  assumes "sighash_message L args = Inr m"
  obtains (single) "args_type args = SIGHASH_SINGLE_ANYONECANPAY"
      "m = [0x00, args_type args] @ i32le (args_version args) @ u32le (args_lockTime args) @ [0x02]
           @ prevout_bytes L args @ amount_bytes args @ spk_bytes args @ u32le (args_sequence args)
           @ sha256 L (outputs_bytes args) @ aTapLeafHash args @ [0x00] @ u32le 0xffffffff"
    | (all_acp) "args_type args = SIGHASH_ALL_ANYONECANPAY"
      "m = [0x00, args_type args] @ i32le (args_version args) @ u32le (args_lockTime args)
           @ sha256 L (outputs_bytes args) @ [0x02]
           @ prevout_bytes L args @ amount_bytes args @ spk_bytes args @ u32le (args_sequence args)
           @ aTapLeafHash args @ [0x00] @ u32le 0xffffffff"
    | (all) "args_type args = SIGHASH_DEFAULT \<or> args_type args = SIGHASH_ALL"
      "m = [0x00, args_type args] @ i32le (args_version args) @ u32le (args_lockTime args)
           @ sha256 L (prevout_bytes L args) @ sha256 L (amount_bytes args) @ sha256 L (spk_bytes args)
           @ sha256 L (u32le (args_sequence args)) @ sha256 L (outputs_bytes args) @ [0x02] @ u32le 0
           @ aTapLeafHash args @ [0x00] @ u32le 0xffffffff"
proof -
  obtain t v n where p: "txidToInternal L (aTxid args) = Inr t" "u64le (aCommitValue args) = Inr v"
      "compactSize (length (aCommitScript args)) = Inr n"
    using assms by (auto simp: sighash_message_def Let_def ebind_eq_Inr)
  have parts: "prevout_bytes L args = t @ u32le (aVout args)" "amount_bytes args = v"
      "spk_bytes args = n @ aCommitScript args"
    using p by (simp_all add: prevout_bytes_def amount_bytes_def spk_bytes_def)
  show thesis
  proof (cases "args_type args = SIGHASH_SINGLE_ANYONECANPAY")
    case True
    then obtain cs cv so where c: "aChildScript args = Some cs" "aChildValue args = Some cv"
        "serializeOutput \<lparr>soScript = cs, soValue = cv\<rparr> = Inr so"
      using assms p by (auto simp: sighash_message_def Let_def ebind_eq_Inr split: option.splits)
    then have "outputs_bytes args = so"
      using True by (simp add: outputs_bytes_def signed_outputs_def emapM_single del: emapM.simps)
    with True c p parts assms show thesis
      by (intro single) (simp_all add: sighash_message_def Let_def)
  next
    case False
    then obtain os ser where o: "aOutputs args = Some os" "emapM serializeOutput os = Inr ser"
      using assms p by (auto simp: sighash_message_def Let_def ebind_eq_Inr split: option.splits if_splits)
    with False have ob: "outputs_bytes args = concat ser"
      by (simp add: outputs_bytes_def signed_outputs_def)
    show thesis
    proof (cases "args_type args = SIGHASH_ALL_ANYONECANPAY")
      case True
      with False o ob p parts assms show thesis
        by (intro all_acp) (simp_all add: sighash_message_def Let_def)
    next
      case nacp: False
      then have "args_type args = SIGHASH_DEFAULT \<or> args_type args = SIGHASH_ALL"
        using False o p assms by (auto simp: sighash_message_def Let_def ebind_eq_Inr split: if_splits)
      with False nacp o ob p parts assms show thesis
        by (intro all) (simp_all add: sighash_message_def Let_def)
    qed
  qed
qed

lemma message_parts_ok:
  assumes "sighash_message L args = Inr m"
  shows "\<exists>t. txidToInternal L (aTxid args) = Inr t \<and> prevout_bytes L args = t @ u32le (aVout args)"
    and "\<exists>v. u64le (aCommitValue args) = Inr v \<and> amount_bytes args = v"
    and "\<exists>n. compactSize (length (aCommitScript args)) = Inr n \<and> spk_bytes args = n @ aCommitScript args"
    and "\<exists>bs. emapM serializeOutput (signed_outputs args) = Inr bs \<and> outputs_bytes args = concat bs"
proof -
  show "\<exists>t. txidToInternal L (aTxid args) = Inr t \<and> prevout_bytes L args = t @ u32le (aVout args)"
    and "\<exists>v. u64le (aCommitValue args) = Inr v \<and> amount_bytes args = v"
    and "\<exists>n. compactSize (length (aCommitScript args)) = Inr n \<and> spk_bytes args = n @ aCommitScript args"
    using assms by (auto simp: sighash_message_def Let_def ebind_eq_Inr prevout_bytes_def amount_bytes_def spk_bytes_def)
  have "\<exists>bs. emapM serializeOutput (signed_outputs args) = Inr bs"
    using assms by (auto simp: sighash_message_def Let_def ebind_eq_Inr emap_def signed_outputs_def
        split: option.splits if_splits)
  then show "\<exists>bs. emapM serializeOutput (signed_outputs args) = Inr bs \<and> outputs_bytes args = concat bs"
    by (auto simp: outputs_bytes_def)
qed

lemma i32le_inj: "i32le v = i32le w \<Longrightarrow> v mod 2 ^ 32 = w mod 2 ^ 32"
proof -
  assume "i32le v = i32le w"
  moreover have "nat (v mod 2 ^ 32) < 2 ^ 32" "nat (w mod 2 ^ 32) < 2 ^ 32"
    by (simp_all add: nat_less_iff)
  ultimately have "nat (v mod 2 ^ 32) = nat (w mod 2 ^ 32)" by (simp add: i32le_def u32le_inj)
  then show ?thesis by (simp add: nat_eq_iff)
qed

text \<open>The named parts determine the fields they were made from.\<close>

lemma prevout_bytes_inj:
  assumes "hex_documented L" and "sighash_message L a = Inr m" and "sighash_message L b = Inr n"
    and "aVout a < 2 ^ 32" and "aVout b < 2 ^ 32" and "prevout_bytes L a = prevout_bytes L b"
  shows "lower_string (aTxid a) = lower_string (aTxid b) \<and> aVout a = aVout b"
proof -
  obtain s t where s: "txidToInternal L (aTxid a) = Inr s" "prevout_bytes L a = s @ u32le (aVout a)"
      and t: "txidToInternal L (aTxid b) = Inr t" "prevout_bytes L b = t @ u32le (aVout b)"
    using message_parts_ok(1) [OF assms(2)] message_parts_ok(1) [OF assms(3)] by auto
  have "s = t" "u32le (aVout a) = u32le (aVout b)"
    using assms(6) s t length_txidToInternal [OF assms(1) s(1)] length_txidToInternal [OF assms(1) t(1)]
    by simp_all
  with txid_roundtrip [OF assms(1) s(1)] txid_roundtrip [OF assms(1) t(1)] assms(4,5)
  show ?thesis by (simp add: u32le_inj)
qed

lemma length_prevout_bytes:
  "hex_documented L \<Longrightarrow> sighash_message L a = Inr m \<Longrightarrow> length (prevout_bytes L a) = 36"
  using message_parts_ok(1) by (fastforce dest: length_txidToInternal)

lemma length_amount_bytes: "sighash_message L a = Inr m \<Longrightarrow> length (amount_bytes a) = 8"
  using message_parts_ok(2) by (fastforce dest: length_u64le)

lemma amount_bytes_inj:
  assumes "sighash_message L a = Inr m" and "sighash_message L b = Inr n" and "amount_bytes a = amount_bytes b"
  shows "aCommitValue a = aCommitValue b"
  using message_parts_ok(2) [OF assms(1)] message_parts_ok(2) [OF assms(2)] assms(3)
  by (auto intro: u64le_inj)

lemma spk_bytes_prefix:
  assumes "sighash_message L a = Inr m" and "sighash_message L b = Inr n"
    and "spk_bytes a @ x = spk_bytes b @ y"
  shows "aCommitScript a = aCommitScript b \<and> x = y"
proof -
  obtain s t where s: "compactSize (length (aCommitScript a)) = Inr s" "spk_bytes a = s @ aCommitScript a"
      and t: "compactSize (length (aCommitScript b)) = Inr t" "spk_bytes b = t @ aCommitScript b"
    using message_parts_ok(3) [OF assms(1)] message_parts_ok(3) [OF assms(2)] by auto
  have "length (aCommitScript a) = length (aCommitScript b)
      \<and> aCommitScript a @ x = aCommitScript b @ y"
    by (rule compactSize_prefix_free [OF s(1) t(1)]) (use assms(3) in \<open>simp only: s(2) t(2) append_assoc\<close>)
  then show ?thesis by (metis append_eq_append_conv)
qed

lemma outputs_bytes_inj:
  assumes "sighash_message L a = Inr m" and "sighash_message L b = Inr n" and "outputs_bytes a = outputs_bytes b"
  shows "signed_outputs a = signed_outputs b"
  using message_parts_ok(4) [OF assms(1)] message_parts_ok(4) [OF assms(2)] assms(3)
  by (auto intro: serialize_outputs_inj)

lemmas type_eqs = sighash_defs

lemma sighash_message_inj:
  assumes L: "hex_documented L" "sha256_documented L"
    and ma: "sighash_message L a = Inr m" and mb: "sighash_message L b = Inr m"
    and wf: "wf_args a" "wf_args b" and inj: "inj_on (sha256 L) (hashed L a \<union> hashed L b)"
  shows "committed a = committed b"
proof -
  have sl: "length (sha256 L x) = 32" for x using L(2) by (simp add: sha256_documented_def)
  have sha: "x = y" if "sha256 L x = sha256 L y" "x \<in> hashed L a" "y \<in> hashed L b" for x y
    using inj that by (auto dest: inj_onD)
  note lens = length_prevout_bytes [OF L(1) ma] length_prevout_bytes [OF L(1) mb]
    length_amount_bytes [OF ma] length_amount_bytes [OF mb] sl
  have leaf: "length (aTapLeafHash a) = length (aTapLeafHash b)"
    using wf by (simp add: wf_args_def)
  note ca = sighash_message_cases [OF ma] and cb = sighash_message_cases [OF mb]
  have "m ! 1 = args_type a" by (cases rule: ca) simp_all
  moreover have "m ! 1 = args_type b" by (cases rule: cb) simp_all
  ultimately have ty: "args_type a = args_type b" by simp
  have fin: "i32le (args_version a) = i32le (args_version b) \<Longrightarrow> u32le (args_lockTime a) = u32le (args_lockTime b)
      \<Longrightarrow> prevout_bytes L a = prevout_bytes L b \<Longrightarrow> amount_bytes a = amount_bytes b
      \<Longrightarrow> aCommitScript a = aCommitScript b
      \<Longrightarrow> u32le (args_sequence a) = u32le (args_sequence b) \<Longrightarrow> outputs_bytes a = outputs_bytes b
      \<Longrightarrow> aTapLeafHash a = aTapLeafHash b \<Longrightarrow> ?thesis"
    using prevout_bytes_inj [OF L(1) ma mb] amount_bytes_inj [OF ma mb] outputs_bytes_inj [OF ma mb] wf ty
    by (auto simp: committed_def wf_args_def u32le_inj dest: i32le_inj)
  have out: "sha256 L (outputs_bytes a) = sha256 L (outputs_bytes b) \<Longrightarrow> outputs_bytes a = outputs_bytes b"
    by (rule sha) (simp_all add: hashed_def)
  from ma show ?thesis
  proof (cases rule: sighash_message_cases)
    case single
    then have mb': "m = [0x00, args_type b] @ i32le (args_version b) @ u32le (args_lockTime b) @ [0x02]
           @ prevout_bytes L b @ amount_bytes b @ spk_bytes b @ u32le (args_sequence b)
           @ sha256 L (outputs_bytes b) @ aTapLeafHash b @ [0x00] @ u32le 0xffffffff"
      by (cases rule: cb) (simp_all add: ty sighash_defs)
    with single(2) lens have 1: "i32le (args_version a) = i32le (args_version b)"
        "u32le (args_lockTime a) = u32le (args_lockTime b)"
        "prevout_bytes L a = prevout_bytes L b" "amount_bytes a = amount_bytes b"
        "spk_bytes a @ (u32le (args_sequence a) @ sha256 L (outputs_bytes a) @ aTapLeafHash a @ [0x00] @ u32le 0xffffffff)
         = spk_bytes b @ (u32le (args_sequence b) @ sha256 L (outputs_bytes b) @ aTapLeafHash b @ [0x00] @ u32le 0xffffffff)"
      by simp_all
    from spk_bytes_prefix [OF ma mb 1(5)] leaf lens have "aCommitScript a = aCommitScript b"
        "u32le (args_sequence a) = u32le (args_sequence b)"
        "sha256 L (outputs_bytes a) = sha256 L (outputs_bytes b)" "aTapLeafHash a = aTapLeafHash b"
      by simp_all
    with 1 out show ?thesis by (intro fin) auto
  next
    case all_acp
    then have mb': "m = [0x00, args_type b] @ i32le (args_version b) @ u32le (args_lockTime b)
           @ sha256 L (outputs_bytes b) @ [0x02]
           @ prevout_bytes L b @ amount_bytes b @ spk_bytes b @ u32le (args_sequence b)
           @ aTapLeafHash b @ [0x00] @ u32le 0xffffffff"
      by (cases rule: cb) (simp_all add: ty sighash_defs)
    with all_acp(2) lens have 1: "i32le (args_version a) = i32le (args_version b)"
        "u32le (args_lockTime a) = u32le (args_lockTime b)"
        "sha256 L (outputs_bytes a) = sha256 L (outputs_bytes b)"
        "prevout_bytes L a = prevout_bytes L b" "amount_bytes a = amount_bytes b"
        "spk_bytes a @ (u32le (args_sequence a) @ aTapLeafHash a @ [0x00] @ u32le 0xffffffff)
         = spk_bytes b @ (u32le (args_sequence b) @ aTapLeafHash b @ [0x00] @ u32le 0xffffffff)"
      by simp_all
    from spk_bytes_prefix [OF ma mb 1(6)] leaf lens have "aCommitScript a = aCommitScript b"
        "u32le (args_sequence a) = u32le (args_sequence b)" "aTapLeafHash a = aTapLeafHash b"
      by simp_all
    with 1 out show ?thesis by (intro fin) auto
  next
    case all
    then have mb': "m = [0x00, args_type b] @ i32le (args_version b) @ u32le (args_lockTime b)
           @ sha256 L (prevout_bytes L b) @ sha256 L (amount_bytes b) @ sha256 L (spk_bytes b)
           @ sha256 L (u32le (args_sequence b)) @ sha256 L (outputs_bytes b) @ [0x02] @ u32le 0
           @ aTapLeafHash b @ [0x00] @ u32le 0xffffffff"
      by (cases rule: cb) (auto simp: ty sighash_defs)
    with all(2) lens leaf have 1: "i32le (args_version a) = i32le (args_version b)"
        "u32le (args_lockTime a) = u32le (args_lockTime b)"
        "sha256 L (prevout_bytes L a) = sha256 L (prevout_bytes L b)"
        "sha256 L (amount_bytes a) = sha256 L (amount_bytes b)"
        "sha256 L (spk_bytes a) = sha256 L (spk_bytes b)"
        "sha256 L (u32le (args_sequence a)) = sha256 L (u32le (args_sequence b))"
        "sha256 L (outputs_bytes a) = sha256 L (outputs_bytes b)" "aTapLeafHash a = aTapLeafHash b"
      by simp_all
    have "prevout_bytes L a = prevout_bytes L b" "amount_bytes a = amount_bytes b" "spk_bytes a = spk_bytes b"
        "u32le (args_sequence a) = u32le (args_sequence b)"
      using 1 by (auto intro: sha simp: hashed_def)
    moreover from this have "aCommitScript a = aCommitScript b"
      using spk_bytes_prefix [OF ma mb, of "[]" "[]"] by simp
    ultimately show ?thesis using 1 out by (intro fin) auto
  qed
qed

subsection \<open>Property\<close>

text \<open>
  C3: the digest is binding. If two calls return the same digest, then either they commit to the same
  hash type, version, lock time, outpoint, value, commit script, sequence, leaf hash and signed
  outputs, or SHA-256 maps two of the byte strings they hash to the same digest.
\<close>

theorem revealCommitSighash_binding:
  assumes "hex_documented L" and "sha256_documented L" and "wf_args a" and "wf_args b"
    and "inj_on (sha256 L) (hashed L a \<union> hashed L b)"
    and "revealCommitSighash L a = Inr d" and "revealCommitSighash L b = Inr d"
  shows "committed a = committed b"
proof -
  obtain m n where m: "sighash_message L a = Inr m" "taggedHash L m = d"
      and n: "sighash_message L b = Inr n" "taggedHash L n = d"
    using assms(6,7) by (auto simp: revealCommitSighash_def emap_def ebind_eq_Inr)
  have "sha256 L (message_bytes L a) = sha256 L (message_bytes L b)"
    using m n by (simp add: message_bytes_def taggedHash_def)
  then have "message_bytes L a = message_bytes L b"
    by (rule inj_onD [OF assms(5)]) (simp_all add: hashed_def)
  then have "m = n" using m n by (simp add: message_bytes_def)
  with sighash_message_inj [OF assms(1,2) m(1) _ assms(3-5)] n show ?thesis by simp
qed

text \<open>A concrete instance: a hash that separates lengths, and the same outpoint in both letter cases.\<close>

definition length_lib :: hash_lib where
  "length_lib = \<lparr>hexEncode = hex_string, hexDecode = (\<lambda>s. Some (unhex s)),
     sha256 = (\<lambda>bs. replicate 31 0 @ [u8 (length bs)])\<rparr>"

definition case_args :: "char \<Rightarrow> SighashArgs" where
  "case_args c = \<lparr>aTxid = replicate 64 c, aVout = 1, aCommitValue = 900, aCommitScript = replicate 34 7,
     aTapLeafHash = replicate 32 5, aChildScript = Some (replicate 34 9), aChildValue = Some 546,
     aOutputs = None, aSighashType = None, aVersion = None, aLockTime = None, aSequence = None\<rparr>"

lemma length_lib_documented: "hex_documented length_lib" "sha256_documented length_lib"
  by (simp_all add: length_lib_def hex_documented_def sha256_documented_def)

lemma case_args_txid:
  "txidToInternal length_lib (replicate 64 CHR ''a'') = Inr (rev (unhex (replicate 64 CHR ''a'')))"
  "txidToInternal length_lib (replicate 64 CHR ''A'') = Inr (rev (unhex (replicate 64 CHR ''a'')))"
proof -
  have l: "lower_string (replicate 64 CHR ''A'') = replicate 64 CHR ''a''"
    "is_txid (replicate 64 CHR ''a'')" "is_txid (replicate 64 CHR ''A'')"
    by (simp_all add: is_txid_def lower_string_def lower_char_def is_hex_def hex_val_def list_all_iff) code_simp
  from txidToInternal_ok [OF length_lib_documented(1) l(2)] txidToInternal_ok [OF length_lib_documented(1) l(3)]
    unhex_lower [of "replicate 64 CHR ''A''"] l(1)
  show "txidToInternal length_lib (replicate 64 CHR ''a'') = Inr (rev (unhex (replicate 64 CHR ''a'')))"
    "txidToInternal length_lib (replicate 64 CHR ''A'') = Inr (rev (unhex (replicate 64 CHR ''a'')))"
    by simp_all
qed

lemma case_args_same:
  "sighash_message length_lib (case_args CHR ''A'') = sighash_message length_lib (case_args CHR ''a'')"
  "hashed length_lib (case_args CHR ''A'') = hashed length_lib (case_args CHR ''a'')"
proof -
  show m: "sighash_message length_lib (case_args CHR ''A'') = sighash_message length_lib (case_args CHR ''a'')"
    unfolding sighash_message_def case_args_def args_type_def args_version_def args_lockTime_def
      args_sequence_def SighashArgs.simps case_args_txid ..
  have "prevout_bytes length_lib (case_args CHR ''A'') = prevout_bytes length_lib (case_args CHR ''a'')"
    unfolding prevout_bytes_def case_args_def SighashArgs.simps case_args_txid ..
  moreover have "outputs_bytes (case_args CHR ''A'') = outputs_bytes (case_args CHR ''a'')"
    "amount_bytes (case_args CHR ''A'') = amount_bytes (case_args CHR ''a'')"
    "spk_bytes (case_args CHR ''A'') = spk_bytes (case_args CHR ''a'')"
    "args_sequence (case_args CHR ''A'') = args_sequence (case_args CHR ''a'')"
    by (simp_all add: outputs_bytes_def signed_outputs_def args_type_def amount_bytes_def spk_bytes_def
        args_sequence_def case_args_def cong: sum.case_cong)
  ultimately show "hashed length_lib (case_args CHR ''A'') = hashed length_lib (case_args CHR ''a'')"
    by (simp add: hashed_def message_bytes_def m)
qed

lemma case_args_message:
  obtains m where "sighash_message length_lib (case_args CHR ''a'') = Inr m" and "length m = 163"
proof -
  have ty: "args_type (case_args CHR ''a'') = SIGHASH_SINGLE_ANYONECANPAY"
    by (simp add: args_type_def case_args_def)
  have "is_ok (sighash_message length_lib (case_args CHR ''a''))"
    using ty case_args_txid(1)
    by (simp add: sighash_message_def case_args_def Let_def u64le_def compactSize_def MAX_SAFE_INTEGER_def
        serializeOutput_def)
  then obtain m where m: "sighash_message length_lib (case_args CHR ''a'') = Inr m" by (auto simp: is_ok_iff)
  have l: "length (prevout_bytes length_lib (case_args CHR ''a'')) = 36"
    "length (amount_bytes (case_args CHR ''a'')) = 8" "length (spk_bytes (case_args CHR ''a'')) = 35"
    "length (aTapLeafHash (case_args CHR ''a'')) = 32" "length (sha256 length_lib x) = 32" for x
    using length_prevout_bytes [OF length_lib_documented(1) m] length_amount_bytes [OF m]
    by (simp_all add: spk_bytes_def case_args_def compactSize_def MAX_SAFE_INTEGER_def length_lib_def)
  from m have "length m = 163"
    by (cases rule: sighash_message_cases) (simp_all add: ty l sighash_defs)
  with m that show thesis by blast
qed

theorem revealCommitSighash_binding_witness:
  "\<exists>d. revealCommitSighash length_lib (case_args CHR ''A'') = Inr d
     \<and> committed (case_args CHR ''A'') = committed (case_args CHR ''a'')"
proof -
  obtain m where m: "sighash_message length_lib (case_args CHR ''a'') = Inr m" "length m = 163"
    by (rule case_args_message)
  let ?a = "case_args CHR ''A''" and ?b = "case_args CHR ''a''"
  have d: "revealCommitSighash length_lib ?b = Inr (taggedHash length_lib m)"
    "revealCommitSighash length_lib ?a = Inr (taggedHash length_lib m)"
    using m(1) by (simp_all add: revealCommitSighash_def case_args_same)
  have wf: "wf_args ?a" "wf_args ?b"
    by (simp_all add: wf_args_def case_args_def args_lockTime_def args_sequence_def REVEAL_LOCKTIME_def
        REVEAL_SEQUENCE_def)
  have l: "length (message_bytes length_lib ?b) = 227" "length (outputs_bytes ?b) = 43"
    "length (prevout_bytes length_lib ?b) = 36" "length (amount_bytes ?b) = 8" "length (spk_bytes ?b) = 35"
    using m length_prevout_bytes [OF length_lib_documented(1) m(1)] length_amount_bytes [OF m(1)]
    by (simp_all add: message_bytes_def TAG_def length_lib_def spk_bytes_def case_args_def compactSize_def
        MAX_SAFE_INTEGER_def outputs_bytes_def signed_outputs_def args_type_def serializeOutput_def u64le_def
        u64le_loop_eq)
  have sep: "sha256 length_lib x = sha256 length_lib y \<longleftrightarrow> length x mod 256 = length y mod 256" for x y
    by (simp add: length_lib_def u8_eq_iff)
  have "inj_on (sha256 length_lib) (hashed length_lib ?b)"
    by (simp add: inj_on_def hashed_def sep l)
  then have "inj_on (sha256 length_lib) (hashed length_lib ?a \<union> hashed length_lib ?b)"
    by (simp add: case_args_same)
  from revealCommitSighash_binding [OF length_lib_documented wf this d(2,1)] d(2) show ?thesis by blast
qed

end
