(* ===== verification/Psbt.thy ===== *)
theory Psbt imports Envelope Sizing Sighash begin

text \<open>
  \<open>psbt.ts\<close>, \<open>network.ts\<close>, \<open>commit.ts\<close> and \<open>leaf.ts\<close> of \<open>platform/inscription/src\<close>. The
  PSBT library \<open>@scure/btc-signer\<close> and \<open>@noble/curves\<close> are the fields of the record \<open>btc_lib\<close>:
  a transaction is a value of an abstract type \<open>'tx\<close> read through its accessors, and a field
  that can throw returns an option. What the code relies on is the predicate \<open>tx_documented\<close>.
\<close>

subsection \<open>The PSBT library\<close>

record ControlBlock =
  cbVersion :: nat
  cbInternalKey :: bytes
  cbMerklePath :: "bytes list"

record LeafKey =
  lkPubKey :: bytes
  lkLeafHash :: bytes

text \<open>The PSBT input and output fields the sources read or write. \<open>None\<close> is an absent field.\<close>

record TxInput =
  inTxid :: "bytes option"
  inIndex :: "nat option"
  inSequence :: "nat option"
  inWitnessUtxo :: "(bytes \<times> int) option"
  inTapInternalKey :: "bytes option"
  inTapMerkleRoot :: "bytes option"
  inTapLeafScript :: "(ControlBlock \<times> bytes) list option"
  inSighashType :: "byte option"
  inTapScriptSig :: "(LeafKey \<times> bytes) list option"
  inTapKeySig :: "bytes option"
  inFinalScriptWitness :: "bytes list option"

definition empty_input :: TxInput where
  "empty_input = \<lparr>inTxid = None, inIndex = None, inSequence = None, inWitnessUtxo = None,
     inTapInternalKey = None, inTapMerkleRoot = None, inTapLeafScript = None, inSighashType = None,
     inTapScriptSig = None, inTapKeySig = None, inFinalScriptWitness = None\<rparr>"

record TxOutput =
  outScript :: "bytes option"
  outAmount :: "int option"

record BtcNetworkParams =
  npBech32 :: string
  npPubKeyHash :: nat
  npScriptHash :: nat
  npWif :: nat

record 'tx btc_lib = hash_lib +
  base64Decode :: "string \<Rightarrow> bytes option"
  base64Encode :: "bytes \<Rightarrow> string"
  newTransaction :: "int \<Rightarrow> nat \<Rightarrow> bool \<Rightarrow> 'tx"
  fromPSBT :: "bytes \<Rightarrow> 'tx option"
  toPSBT :: "'tx \<Rightarrow> bytes"
  inputsLength :: "'tx \<Rightarrow> nat"
  outputsLength :: "'tx \<Rightarrow> nat"
  txVersion :: "'tx \<Rightarrow> int"
  txLockTime :: "'tx \<Rightarrow> nat"
  getInput :: "'tx \<Rightarrow> nat \<Rightarrow> TxInput option"
  getOutput :: "'tx \<Rightarrow> nat \<Rightarrow> TxOutput option"
  addInput :: "'tx \<Rightarrow> TxInput \<Rightarrow> 'tx option"
  addOutput :: "'tx \<Rightarrow> TxOutput \<Rightarrow> 'tx option"
  updateInput :: "'tx \<Rightarrow> nat \<Rightarrow> TxInput \<Rightarrow> bool \<Rightarrow> 'tx option"
  signIdx :: "'tx \<Rightarrow> bytes \<Rightarrow> nat \<Rightarrow> byte list option \<Rightarrow> 'tx option"
  finalizeTx :: "'tx \<Rightarrow> 'tx option"
  finalizeIdx :: "'tx \<Rightarrow> nat \<Rightarrow> 'tx option"
  toBytes :: "'tx \<Rightarrow> bool \<Rightarrow> bool \<Rightarrow> bytes option"
  txId :: "'tx \<Rightarrow> string"
  preimageWitnessV1 :: "'tx \<Rightarrow> nat \<Rightarrow> bytes list \<Rightarrow> byte \<Rightarrow> int list \<Rightarrow> bytes \<Rightarrow> byte \<Rightarrow> bytes option"
  tapLeafHash :: "bytes \<Rightarrow> byte \<Rightarrow> bytes"
  unspendableKey :: bytes
  taprootTweakPubkey :: "bytes \<Rightarrow> bytes \<Rightarrow> (bytes \<times> nat) option"
  encodeTr :: "bytes \<Rightarrow> bytes"
  addressEncodeTr :: "BtcNetworkParams \<Rightarrow> bytes \<Rightarrow> string"
  addressDecodeScript :: "BtcNetworkParams \<Rightarrow> string \<Rightarrow> bytes option"
  mainNetwork :: BtcNetworkParams
  testNetwork :: BtcNetworkParams
  getPublicKey :: "bytes \<Rightarrow> bytes option"
  schnorrVerify :: "bytes \<Rightarrow> bytes \<Rightarrow> bytes \<Rightarrow> bool"
  p2trScript :: "bytes \<Rightarrow> bytes option"

text \<open>An exception of the library, as an error value.\<close>

definition lib_call :: "'a option \<Rightarrow> insc_error + 'a" where
  "lib_call r = (case r of None \<Rightarrow> Inl (Error ''library error'') | Some x \<Rightarrow> Inr x)"

lemma lib_call_simps [simp]: "lib_call None = Inl (Error ''library error'')" "lib_call (Some x) = Inr x"
  "lib_call r = Inr x \<longleftrightarrow> r = Some x"
  by (simp_all add: lib_call_def split: option.split)

text \<open>
  Documented behaviour of \<open>Transaction\<close>: a new transaction is empty with the given version and
  lock time, and \<open>addInput\<close> and \<open>addOutput\<close>, when they do not throw, append.
\<close>

definition same_frame :: "('tx, 'z) btc_lib_scheme \<Rightarrow> 'tx \<Rightarrow> 'tx \<Rightarrow> bool" where
  "same_frame L t u \<longleftrightarrow> txVersion L u = txVersion L t \<and> txLockTime L u = txLockTime L t"

definition tx_documented :: "('tx, 'z) btc_lib_scheme \<Rightarrow> bool" where
  "tx_documented L \<longleftrightarrow>
     (\<forall>v l a. inputsLength L (newTransaction L v l a) = 0 \<and> outputsLength L (newTransaction L v l a) = 0
        \<and> txVersion L (newTransaction L v l a) = v \<and> txLockTime L (newTransaction L v l a) = l)
   \<and> (\<forall>t i u. addInput L t i = Some u \<longrightarrow>
        same_frame L t u \<and> inputsLength L u = Suc (inputsLength L t) \<and> outputsLength L u = outputsLength L t
        \<and> getInput L u (inputsLength L t) = Some i
        \<and> (\<forall>k < inputsLength L t. getInput L u k = getInput L t k)
        \<and> (\<forall>k. getOutput L u k = getOutput L t k))
   \<and> (\<forall>t x u. addOutput L t x = Some u \<longrightarrow>
        same_frame L t u \<and> outputsLength L u = Suc (outputsLength L t) \<and> inputsLength L u = inputsLength L t
        \<and> getOutput L u (outputsLength L t) = Some x
        \<and> (\<forall>k < outputsLength L t. getOutput L u k = getOutput L t k)
        \<and> (\<forall>k. getInput L u k = getInput L t k))
   \<and> (\<forall>t k. (\<exists>i. getInput L t k = Some i) \<longleftrightarrow> k < inputsLength L t)
   \<and> (\<forall>t k. (\<exists>x. getOutput L t k = Some x) \<longleftrightarrow> k < outputsLength L t)"

subsection \<open>psbt.ts\<close>

definition decodePsbt :: "('tx, 'z) btc_lib_scheme \<Rightarrow> string \<Rightarrow> insc_error + 'tx" where
  "decodePsbt L psbtBase64 =
     (if psbtBase64 = [] then Inl (Error ''PSBT base64 string required'')
      else case base64Decode L psbtBase64 of
          None \<Rightarrow> Inl (Error ''PSBT is not valid base64'')
        | Some bs \<Rightarrow> lib_call (fromPSBT L bs))"

definition encodePsbt :: "('tx, 'z) btc_lib_scheme \<Rightarrow> 'tx \<Rightarrow> string" where
  "encodePsbt L tx = base64Encode L (toPSBT L tx)"

definition new_tx :: "('tx, 'z) btc_lib_scheme \<Rightarrow> 'tx" where
  "new_tx L = newTransaction L REVEAL_TX_VERSION REVEAL_LOCKTIME True"

definition inputTxid :: "('tx, 'z) btc_lib_scheme \<Rightarrow> 'tx \<Rightarrow> nat \<Rightarrow> insc_error + string" where
  "inputTxid L tx idx =
     ebind (lib_call (getInput L tx idx)) (\<lambda>i.
       case inTxid i of None \<Rightarrow> Inl (Error ''input has no txid'') | Some t \<Rightarrow> Inr (hexEncode L t))"

record RawFacts =
  rfHex :: string
  rfTxid :: string
  rfWeight :: nat
  rfVsize :: nat

definition rawFacts :: "('tx, 'z) btc_lib_scheme \<Rightarrow> 'tx \<Rightarrow> insc_error + RawFacts" where
  "rawFacts L tx =
     ebind (lib_call (toBytes L tx True True)) (\<lambda>full.
     ebind (lib_call (toBytes L tx True False)) (\<lambda>stripped.
       let weight = length stripped * 3 + length full
       in Inr \<lparr>rfHex = hexEncode L full, rfTxid = txId L tx, rfWeight = weight, rfVsize = (weight + 3) div 4\<rparr>))"

subsection \<open>network.ts and commit.ts\<close>

datatype Network = Mainnet | Testnet | Signet | Regtest

definition REGTEST :: BtcNetworkParams where
  "REGTEST = \<lparr>npBech32 = ''bcrt'', npPubKeyHash = 0x6f, npScriptHash = 0xc4, npWif = 0xef\<rparr>"

primrec networkParams :: "('tx, 'z) btc_lib_scheme \<Rightarrow> Network \<Rightarrow> BtcNetworkParams" where
  "networkParams L Mainnet = mainNetwork L"
| "networkParams L Testnet = testNetwork L"
| "networkParams L Signet = testNetwork L"
| "networkParams L Regtest = REGTEST"

definition NUMS_INTERNAL_KEY :: "('tx, 'z) btc_lib_scheme \<Rightarrow> bytes" where
  "NUMS_INTERNAL_KEY L = unspendableKey L"

record CommitInfo =
  ciAddress :: string
  ciScript :: bytes
  ciLeafScript :: bytes
  ciControlBlock :: bytes
  ciTapLeafHash :: bytes

definition commitFromLeaf :: "('tx, 'z) btc_lib_scheme \<Rightarrow> bytes \<Rightarrow> Network \<Rightarrow> insc_error + CommitInfo" where
  "commitFromLeaf L leafScript network =
     (let leafHash = tapLeafHash L leafScript TAPSCRIPT_LEAF_VERSION in
      ebind (lib_call (taprootTweakPubkey L (NUMS_INTERNAL_KEY L) leafHash)) (\<lambda>(outputKey, parity).
        Inr \<lparr>ciAddress = addressEncodeTr L (networkParams L network) outputKey,
             ciScript = encodeTr L outputKey,
             ciLeafScript = leafScript,
             ciControlBlock = concatBytes [[u8 (unat TAPSCRIPT_LEAF_VERSION + parity)], NUMS_INTERNAL_KEY L],
             ciTapLeafHash = leafHash\<rparr>))"

definition commitAddress ::
  "('tx, 'z) btc_lib_scheme \<Rightarrow> bytes \<Rightarrow> InscriptionContent \<Rightarrow> Network \<Rightarrow> insc_error + CommitInfo" where
  "commitAddress L revealPubkey content network =
     ebind (assertBytes revealPubkey 32 ''revealPubkey'') (\<lambda>_.
     ebind (buildInscriptionScript revealPubkey content) (\<lambda>script. commitFromLeaf L script network))"

definition addressToScript :: "('tx, 'z) btc_lib_scheme \<Rightarrow> string \<Rightarrow> Network \<Rightarrow> insc_error + bytes" where
  "addressToScript L address network = lib_call (addressDecodeScript L (networkParams L network) address)"

subsection \<open>leaf.ts\<close>

definition OP_PUSH32 :: byte where "OP_PUSH32 = 0x20"

definition LEAF_SIGHASH_TYPES :: "byte list" where
  "LEAF_SIGHASH_TYPES = [SIGHASH_DEFAULT, SIGHASH_ALL, SIGHASH_ALL_ANYONECANPAY, SIGHASH_SINGLE_ANYONECANPAY]"

definition leafKeyOf :: "bytes \<Rightarrow> insc_error + bytes" where
  "leafKeyOf leafScript =
     (if length leafScript < 34 \<or> leafScript ! 0 \<noteq> OP_PUSH32 \<or> leafScript ! 33 \<noteq> OP_CHECKSIG
      then Inl (Error ''leaf script does not start with <32-byte key> OP_CHECKSIG (not an inscription envelope)'')
      else Inr (take 32 (drop 1 leafScript)))"

datatype sig_source = TapScriptSig | FinalScriptWitness

record LeafSignature =
  lsSig :: bytes
  lsSighashType :: byte
  lsPubKey :: bytes
  lsLeafScript :: bytes
  lsControlBlock :: bytes
  lsLeafHash :: bytes
  lsSource :: sig_source

definition hashTypeOf :: "bytes \<Rightarrow> insc_error + byte" where
  "hashTypeOf sig =
     (if length sig = 64 then Inr SIGHASH_DEFAULT
      else if length sig = 65 then
        (if sig ! 64 \<notin> set LEAF_SIGHASH_TYPES then Inl (Error ''unsupported hash type'') else Inr (sig ! 64))
      else Inl (Error ''Schnorr signature must be 64 or 65 bytes''))"

record SingleLeaf =
  slLeafScript :: bytes
  slControlBlock :: bytes
  slLeafHash :: bytes

definition singleLeafOf :: "('tx, 'z) btc_lib_scheme \<Rightarrow> 'tx \<Rightarrow> nat \<Rightarrow> insc_error + SingleLeaf" where
  "singleLeafOf L tx idx =
     ebind (lib_call (getInput L tx idx)) (\<lambda>input.
       case inTapLeafScript input of
         Some [(cb, scriptWithVer)] \<Rightarrow>
           if scriptWithVer = [] \<or> last scriptWithVer \<noteq> TAPSCRIPT_LEAF_VERSION
           then Inl (Error ''leaf version must be 0xc0'')
           else if cbMerklePath cb \<noteq> []
           then Inl (Error ''control block must have an empty merkle path (single leaf)'')
           else (case buf_set ((replicate 33 0)[0 := u8 (cbVersion cb)]) 1 (cbInternalKey cb) of
               None \<Rightarrow> Inl (Error ''offset is out of bounds'')
             | Some controlBlock \<Rightarrow>
                 Inr \<lparr>slLeafScript = butlast scriptWithVer, slControlBlock = controlBlock,
                      slLeafHash = tapLeafHash L (butlast scriptWithVer) TAPSCRIPT_LEAF_VERSION\<rparr>)
       | _ \<Rightarrow> Inl (Error ''input must carry exactly one tapLeafScript''))"

text \<open>\<open>expected\<close>: the leaf the signature must be for, and optionally the key.\<close>

definition final_leaf_signature ::
  "('tx, 'z) btc_lib_scheme \<Rightarrow> bytes list \<Rightarrow> (SingleLeaf \<times> bytes option) option \<Rightarrow> insc_error + LeafSignature" where
  "final_leaf_signature L w expected =
     (case w of
        [sig, leafScript, controlBlock] \<Rightarrow>
          if length controlBlock \<noteq> 33 then Inl (Error ''finalized control block must be 33 bytes (single leaf)'')
          else if unat (controlBlock ! 0) div 2 * 2 \<noteq> unat TAPSCRIPT_LEAF_VERSION
          then Inl (Error ''finalized control block leaf version is not 0xc0'')
          else if \<not> equalBytes (drop 1 controlBlock) (NUMS_INTERNAL_KEY L)
          then Inl (Error ''finalized control block internal key is not NUMS'')
          else if (case expected of None \<Rightarrow> False | Some (e, _) \<Rightarrow> \<not> equalBytes leafScript (slLeafScript e))
          then Inl (Error ''finalized witness spends a different leaf than the inscription envelope'')
          else if (case expected of None \<Rightarrow> False | Some (e, _) \<Rightarrow> \<not> equalBytes controlBlock (slControlBlock e))
          then Inl (Error ''finalized witness control block mismatch'')
          else ebind (leafKeyOf leafScript) (\<lambda>pubKey.
            if (case expected of Some (_, Some k) \<Rightarrow> \<not> equalBytes pubKey k | _ \<Rightarrow> False)
            then Inl (Error ''finalized leaf names another key'')
            else ebind (hashTypeOf sig) (\<lambda>sighashType.
              Inr \<lparr>lsSig = sig, lsSighashType = sighashType, lsPubKey = pubKey, lsLeafScript = leafScript,
                   lsControlBlock = controlBlock, lsLeafHash = tapLeafHash L leafScript TAPSCRIPT_LEAF_VERSION,
                   lsSource = FinalScriptWitness\<rparr>))
      | _ \<Rightarrow> Inl (Error ''finalized witness: expected [sig, leafScript, controlBlock]''))"

definition extractLeafSignature ::
  "('tx, 'z) btc_lib_scheme \<Rightarrow> 'tx \<Rightarrow> nat \<Rightarrow> (SingleLeaf \<times> bytes option) option \<Rightarrow> insc_error + LeafSignature" where
  "extractLeafSignature L tx idx expected =
     ebind (lib_call (getInput L tx idx)) (\<lambda>input.
     case inFinalScriptWitness input of
       Some (w # ws) \<Rightarrow> final_leaf_signature L (w # ws) expected
     | _ \<Rightarrow>
       ebind (case expected of Some (e, _) \<Rightarrow> Inr e | None \<Rightarrow> singleLeafOf L tx idx) (\<lambda>leaf.
       ebind (case expected of Some (_, Some k) \<Rightarrow> Inr k | _ \<Rightarrow> leafKeyOf (slLeafScript leaf)) (\<lambda>leafPubkey.
       let sigs = (case inTapScriptSig input of None \<Rightarrow> [] | Some s \<Rightarrow> s) in
       if sigs = [] then Inl (Error ''input is unsigned'')
       else let forLeaf = filter (\<lambda>(k, _). equalBytes (lkLeafHash k) (slLeafHash leaf)) sigs in
         if forLeaf = [] then Inl (Error ''signature is for a different leaf'')
         else (case List.find (\<lambda>(k, _). equalBytes (lkPubKey k) leafPubkey) forLeaf of
             None \<Rightarrow> Inl (Error ''signature is by another key'')
           | Some (_, sig) \<Rightarrow>
               ebind (hashTypeOf sig) (\<lambda>sighashType.
                 Inr \<lparr>lsSig = sig, lsSighashType = sighashType, lsPubKey = leafPubkey,
                      lsLeafScript = slLeafScript leaf, lsControlBlock = slControlBlock leaf,
                      lsLeafHash = slLeafHash leaf, lsSource = TapScriptSig\<rparr>)))))"

definition controlBlockStruct :: "bytes \<Rightarrow> ControlBlock" where
  "controlBlockStruct controlBlock =
     \<lparr>cbVersion = unat (controlBlock ! 0), cbInternalKey = take 32 (drop 1 controlBlock), cbMerklePath = []\<rparr>"

subsection \<open>Facts\<close>

lemma leafKeyOf_length: "leafKeyOf s = Inr k \<Longrightarrow> length k = 32"
  by (auto simp: leafKeyOf_def split: if_splits)

lemma hashTypeOf_ok:
  "hashTypeOf sig = Inr t \<Longrightarrow>
     t \<in> set LEAF_SIGHASH_TYPES \<and> (length sig = 64 \<and> t = SIGHASH_DEFAULT \<or> length sig = 65 \<and> sig ! 64 = t)"
  by (auto simp: hashTypeOf_def LEAF_SIGHASH_TYPES_def split: if_splits)

lemma leafKeyOf_envelope:
  assumes "buildInscriptionScript pk c = Inr s"
  shows "leafKeyOf s = Inr pk"
proof -
  obtain p where p: "length pk = 32" "s = envelope_bytes pk p"
    using assms by (auto simp: buildInscriptionScript_ok)
  then have "pk \<noteq> []" by auto
  with p obtain r where s: "s = 0x20 # pk @ OP_CHECKSIG # r"
    by (auto simp: envelope_bytes_def push_bytes_def u8_def)
  have "(pk @ OP_CHECKSIG # r) ! 32 = OP_CHECKSIG" using p(1) by (metis nth_append_length)
  with s p(1) show ?thesis by (simp add: leafKeyOf_def OP_PUSH32_def)
qed

end
