(* ===== verification/Reveal.thy ===== *)
theory Reveal imports Psbt begin

text \<open>
  \<open>reveal.ts\<close> of \<open>platform/inscription/src\<close>: the half-signed reveal the browser builds, the parent
  attachment of the service, and the rescue paths. The library calls are those of \<open>Psbt\<close>.
\<close>

record Outpoint =
  opTxid :: string
  opVout :: nat

definition checkOutpoint :: "Outpoint \<Rightarrow> insc_error + unit" where
  "checkOutpoint o' =
     (if \<not> is_txid (opTxid o') then Inl (Error ''txid invalid'')
      else if opVout o' > 0xffffffff then Inl (Error ''vout invalid'') else Inr ())"

definition commitSignature :: "('tx, 'z) btc_lib_scheme \<Rightarrow> 'tx \<Rightarrow> nat \<Rightarrow> insc_error + bytes option" where
  "commitSignature L tx idx =
     ebind (lib_call (getInput L tx idx)) (\<lambda>input.
     case inFinalScriptWitness input of
       Some [sig, _, _] \<Rightarrow> Inr (Some sig)
     | _ \<Rightarrow> (case inTapScriptSig input of
               Some [(_, sig)] \<Rightarrow> Inr (Some sig)
             | _ \<Rightarrow> Inr None))"

definition unfinalizedCommitInput :: "('tx, 'z) btc_lib_scheme \<Rightarrow> 'tx \<Rightarrow> nat \<Rightarrow> insc_error + TxInput" where
  "unfinalizedCommitInput L tx idx =
     ebind (lib_call (getInput L tx idx)) (\<lambda>input.
     if inFinalScriptWitness input = None \<or> inFinalScriptWitness input = Some [] then Inr input
     else ebind (extractLeafSignature L tx idx None) (\<lambda>ls.
       Inr (empty_input\<lparr>inTxid := inTxid input, inIndex := inIndex input, inSequence := inSequence input,
         inWitnessUtxo := inWitnessUtxo input, inTapInternalKey := Some (NUMS_INTERNAL_KEY L),
         inTapMerkleRoot := Some (lsLeafHash ls),
         inTapLeafScript := Some [(controlBlockStruct (lsControlBlock ls), lsLeafScript ls @ [TAPSCRIPT_LEAF_VERSION])],
         inSighashType := (if lsSighashType ls = SIGHASH_DEFAULT then None else Some (lsSighashType ls)),
         inTapScriptSig := Some [(\<lparr>lkPubKey = lsPubKey ls, lkLeafHash = lsLeafHash ls\<rparr>, lsSig ls)]\<rparr>)))"

definition output_at :: "('tx, 'z) btc_lib_scheme \<Rightarrow> 'tx \<Rightarrow> nat \<Rightarrow> insc_error + SighashOutput" where
  "output_at L tx i =
     ebind (lib_call (getOutput L tx i)) (\<lambda>x.
       case (outScript x, outAmount x) of
         (Some s, Some a) \<Rightarrow> Inr \<lparr>soScript = s, soValue = a\<rparr>
       | _ \<Rightarrow> Inl (Error ''output incomplete''))"

definition outputsOf :: "('tx, 'z) btc_lib_scheme \<Rightarrow> 'tx \<Rightarrow> insc_error + SighashOutput list" where
  "outputsOf L tx = emapM (output_at L tx) [0..<outputsLength L tx]"

definition assertHalfSigned :: "('tx, 'z) btc_lib_scheme \<Rightarrow> 'tx \<Rightarrow> insc_error + byte" where
  "assertHalfSigned L tx =
     (if inputsLength L tx \<noteq> 1 then Inl (Error ''half-signed reveal must have exactly 1 input'')
      else if txVersion L tx \<noteq> REVEAL_TX_VERSION \<or> txLockTime L tx \<noteq> REVEAL_LOCKTIME
      then Inl (Error ''half-signed reveal must have nVersion=2 and nLockTime=0'')
      else ebind (commitSignature L tx 0) (\<lambda>sg.
        case sg of
          None \<Rightarrow> Inl (Error ''commit input must carry exactly one 65-byte signature'')
        | Some sig \<Rightarrow>
            if length sig \<noteq> 65 \<or> (sig ! 64 \<noteq> SIGHASH_SINGLE_ANYONECANPAY \<and> sig ! 64 \<noteq> SIGHASH_ALL_ANYONECANPAY)
            then Inl (Error ''commit input must carry exactly one 65-byte signature'')
            else let type = sig ! 64;
                     maxOutputs = (if type = SIGHASH_ALL_ANYONECANPAY then 2 else 1)
              in if outputsLength L tx < 1 \<or> outputsLength L tx > maxOutputs
                 then Inl (Error ''half-signed reveal has the wrong number of outputs'')
                 else ebind (lib_call (getInput L tx 0)) (\<lambda>i.
                   if (case inSequence i of None \<Rightarrow> 0xffffffff | Some s \<Rightarrow> s) \<noteq> REVEAL_SEQUENCE
                   then Inl (Error ''commit input nSequence mismatch'') else Inr type)))"

text \<open>\<open>for (const o of outputs) tx.addOutput(...)\<close>.\<close>

primrec add_outputs :: "('tx, 'z) btc_lib_scheme \<Rightarrow> 'tx \<Rightarrow> SighashOutput list \<Rightarrow> insc_error + 'tx" where
  "add_outputs L tx [] = Inr tx"
| "add_outputs L tx (x # xs) =
     ebind (lib_call (addOutput L tx \<lparr>outScript = Some (soScript x), outAmount = Some (soValue x)\<rparr>))
       (\<lambda>tx'. add_outputs L tx' xs)"

text \<open>\<open>addInput\<close> reads a string \<open>txid\<close> as hexadecimal.\<close>

definition txid_bytes :: "'z hash_lib_scheme \<Rightarrow> string \<Rightarrow> insc_error + bytes" where
  "txid_bytes L txid = lib_call (hexDecode L (lower_string txid))"

record HalfSignedArgs =
  haNetwork :: Network
  haRevealPrivkey :: bytes
  haContent :: InscriptionContent
  haCommitOutpoint :: Outpoint
  haCommitValue :: int
  haRecipientAddress :: string
  haPostage :: int
  haSighash :: "RevealSighashMode option"
  haWithParent :: "bool option"
  haParentReturnAddress :: "string option"
  haParentValue :: "int option"

record HalfSigned =
  hsPsbt :: string
  hsSignature :: bytes
  hsSighashType :: byte

definition commit_input ::
  "('tx, 'z) btc_lib_scheme \<Rightarrow> CommitInfo \<Rightarrow> Outpoint \<Rightarrow> int \<Rightarrow> byte option \<Rightarrow> insc_error + TxInput" where
  "commit_input L commit o' commitValue sighashType =
     ebind (txid_bytes L (opTxid o')) (\<lambda>txid.
       Inr (empty_input\<lparr>inTxid := Some txid, inIndex := Some (opVout o'), inSequence := Some REVEAL_SEQUENCE,
         inWitnessUtxo := Some (ciScript commit, commitValue), inTapInternalKey := Some (NUMS_INTERNAL_KEY L),
         inTapLeafScript := Some [(\<lparr>cbVersion = unat (ciControlBlock commit ! 0), cbInternalKey = NUMS_INTERNAL_KEY L,
                                     cbMerklePath = []\<rparr>, ciLeafScript commit @ [TAPSCRIPT_LEAF_VERSION])],
         inSighashType := sighashType\<rparr>))"

definition half_signed_outputs ::
  "('tx, 'z) btc_lib_scheme \<Rightarrow> HalfSignedArgs \<Rightarrow> byte \<Rightarrow> bytes \<Rightarrow> insc_error + SighashOutput list" where
  "half_signed_outputs L args sighashType recipientScript =
     (let child = \<lparr>soScript = recipientScript, soValue = haPostage args\<rparr>;
          withParent = (case haWithParent args of Some b \<Rightarrow> b | None \<Rightarrow> parentId (haContent args) \<noteq> None)
      in if sighashType = SIGHASH_ALL_ANYONECANPAY \<and> withParent then
           (case haParentReturnAddress args of
              None \<Rightarrow> Inl (Error ''parentReturnAddress is required for sighash all_anyonecanpay with a parent'')
            | Some addr \<Rightarrow>
                (case haParentValue args of
                   None \<Rightarrow> Inl (Error ''parentValue must be a positive bigint for sighash all_anyonecanpay with a parent'')
                 | Some v \<Rightarrow>
                     if v \<le> 0
                     then Inl (Error ''parentValue must be a positive bigint for sighash all_anyonecanpay with a parent'')
                     else ebind (addressToScript L addr (haNetwork args)) (\<lambda>s.
                       Inr [\<lparr>soScript = s, soValue = v\<rparr>, child])))
         else Inr [child])"

definition buildHalfSignedReveal ::
  "('tx, 'z) btc_lib_scheme \<Rightarrow> HalfSignedArgs \<Rightarrow> insc_error + HalfSigned" where
  "buildHalfSignedReveal L args =
     ebind (assertBytes (haRevealPrivkey args) 32 ''revealPrivkey'') (\<lambda>_.
     ebind (checkOutpoint (haCommitOutpoint args)) (\<lambda>_.
     if haPostage args < DUST_P2TR then Inl (Error ''postage must be a bigint >= dust'')
     else if haCommitValue args \<le> haPostage args
     then Inl (Error ''commitValue must exceed postage (fee = commitValue - postage)'')
     else
     ebind (revealSighashType (map_option Mode (haSighash args))) (\<lambda>sighashType.
     ebind (lib_call (getPublicKey L (haRevealPrivkey args))) (\<lambda>revealPubkey.
     ebind (commitAddress L revealPubkey (haContent args) (haNetwork args)) (\<lambda>commit.
     ebind (addressToScript L (haRecipientAddress args) (haNetwork args)) (\<lambda>recipientScript.
     ebind (half_signed_outputs L args sighashType recipientScript) (\<lambda>outs.
     ebind (add_outputs L (new_tx L) outs) (\<lambda>tx0.
     ebind (commit_input L commit (haCommitOutpoint args) (haCommitValue args) (Some sighashType)) (\<lambda>inp.
     ebind (lib_call (addInput L tx0 inp)) (\<lambda>tx1.
     ebind (lib_call (signIdx L tx1 (haRevealPrivkey args) 0 (Some [sighashType]))) (\<lambda>tx.
     ebind (commitSignature L tx 0) (\<lambda>sg.
     case sg of
       None \<Rightarrow> Inl (Error ''internal: commit input was not signed'')
     | Some signature \<Rightarrow>
         if length signature \<noteq> 65 \<or> signature ! 64 \<noteq> sighashType
         then Inl (Error ''internal: commit input was not signed'')
         else ebind (revealCommitSighash L
             \<lparr>aTxid = opTxid (haCommitOutpoint args), aVout = opVout (haCommitOutpoint args),
              aCommitValue = haCommitValue args, aCommitScript = ciScript commit,
              aTapLeafHash = ciTapLeafHash commit, aChildScript = Some recipientScript,
              aChildValue = Some (haPostage args), aOutputs = Some outs, aSighashType = Some sighashType,
              aVersion = None, aLockTime = None, aSequence = None\<rparr>) (\<lambda>digest.
           if \<not> schnorrVerify L (take 64 signature) digest revealPubkey
           then Inl (Error ''internal: signature does not verify against independent sighash'')
           else Inr \<lparr>hsPsbt = encodePsbt L tx, hsSignature = signature, hsSighashType = sighashType\<rparr>)))))))))))))"

record AttachArgs =
  atNetwork :: Network
  atHalfSigned :: string
  atParentOutpoint :: Outpoint
  atParentValue :: int
  atParentScript :: bytes
  atParentReturnAddress :: string

text \<open>The outputs of the parent layout: prepended for 0x83, checked against what is signed for 0x81.\<close>

definition attach_outputs ::
  "('tx, 'z) btc_lib_scheme \<Rightarrow> 'tx \<Rightarrow> byte \<Rightarrow> bytes \<Rightarrow> int \<Rightarrow> insc_error + SighashOutput list" where
  "attach_outputs L half type parentReturnScript parentValue =
     (if type = SIGHASH_SINGLE_ANYONECANPAY
      then emap (\<lambda>os. \<lparr>soScript = parentReturnScript, soValue = parentValue\<rparr> # os) (outputsOf L half)
      else ebind (outputsOf L half) (\<lambda>outs.
        case outs of
          [ret, child] \<Rightarrow>
            if \<not> equalBytes (soScript ret) parentReturnScript
            then Inl (Error ''0x81 half-signed reveal output 0 is not the parent return address'')
            else if soValue ret \<noteq> parentValue
            then Inl (Error ''0x81 half-signed reveal output 0 value is not parentValue'')
            else Inr outs
        | _ \<Rightarrow> Inl (Error ''0x81 half-signed reveal was built without a parent return output'')))"

definition attachParent :: "('tx, 'z) btc_lib_scheme \<Rightarrow> AttachArgs \<Rightarrow> insc_error + string" where
  "attachParent L args =
     ebind (checkOutpoint (atParentOutpoint args)) (\<lambda>_.
     if \<not> isP2TR (atParentScript args) then Inl (Error ''parentScript must be a P2TR scriptPubKey'')
     else if atParentValue args \<le> 0 then Inl (Error ''parentValue must be a positive bigint'')
     else
     ebind (decodePsbt L (atHalfSigned args)) (\<lambda>half.
     ebind (assertHalfSigned L half) (\<lambda>type.
     ebind (unfinalizedCommitInput L half 0) (\<lambda>commitIn.
     ebind (inputTxid L half 0) (\<lambda>ctxid.
     ebind (lib_call (getInput L half 0)) (\<lambda>in0.
     if ctxid = lower_string (opTxid (atParentOutpoint args)) \<and> inIndex in0 = Some (opVout (atParentOutpoint args))
     then Inl (Error ''parent outpoint equals commit outpoint'')
     else
     ebind (addressToScript L (atParentReturnAddress args) (atNetwork args)) (\<lambda>parentReturnScript.
     ebind (attach_outputs L half type parentReturnScript (atParentValue args)) (\<lambda>outs.
     ebind (add_outputs L (new_tx L) outs) (\<lambda>tx0.
     ebind (txid_bytes L (opTxid (atParentOutpoint args))) (\<lambda>ptxid.
     ebind (lib_call (addInput L tx0 (empty_input\<lparr>inTxid := Some ptxid,
         inIndex := Some (opVout (atParentOutpoint args)), inSequence := Some REVEAL_SEQUENCE,
         inWitnessUtxo := Some (atParentScript args, atParentValue args)\<rparr>))) (\<lambda>tx1.
     ebind (lib_call (addInput L tx1 commitIn)) (\<lambda>tx. Inr (encodePsbt L tx)))))))))))))"

definition signParentInput :: "('tx, 'z) btc_lib_scheme \<Rightarrow> string \<Rightarrow> bytes \<Rightarrow> insc_error + string" where
  "signParentInput L psbtBase64 parentPrivkey =
     ebind (assertBytes parentPrivkey 32 ''parentPrivkey'') (\<lambda>_.
     ebind (decodePsbt L psbtBase64) (\<lambda>tx.
     if inputsLength L tx \<noteq> 2 \<or> outputsLength L tx \<noteq> 2
     then Inl (Error ''parent reveal must have 2 inputs and 2 outputs'')
     else
     ebind (lib_call (getInput L tx 0)) (\<lambda>parentIn.
     case inWitnessUtxo parentIn of
       None \<Rightarrow> Inl (Error ''parent input has no witnessUtxo'')
     | Some (prevScript, prevAmount) \<Rightarrow>
         ebind (lib_call (getOutput L tx 0)) (\<lambda>out0.
         if outAmount out0 \<noteq> Some prevAmount
         then Inl (Error ''parent return value must equal parent input value (child sat placement)'')
         else
         ebind (lib_call (getPublicKey L parentPrivkey)) (\<lambda>internal.
         ebind (lib_call (p2trScript L internal)) (\<lambda>script.
         if \<not> equalBytes script prevScript then Inl (Error ''parentPrivkey does not control input 0'')
         else
         ebind (commitSignature L tx 1) (\<lambda>sg.
         if sg = None then Inl (Error ''commit input (index 1) is not signed'')
         else
         ebind (lib_call (updateInput L tx 0 (empty_input\<lparr>inTapInternalKey := Some internal\<rparr>) False)) (\<lambda>tx1.
         ebind (lib_call (signIdx L tx1 parentPrivkey 0 None)) (\<lambda>tx2. Inr (encodePsbt L tx2)))))))))) "

definition input_signed :: "TxInput \<Rightarrow> bool" where
  "input_signed i \<longleftrightarrow> inTapKeySig i \<noteq> None \<or> (inTapScriptSig i \<noteq> None \<and> inTapScriptSig i \<noteq> Some [])
     \<or> (inFinalScriptWitness i \<noteq> None \<and> inFinalScriptWitness i \<noteq> Some [])"

definition finalizeAll :: "('tx, 'z) btc_lib_scheme \<Rightarrow> 'tx \<Rightarrow> insc_error + 'tx" where
  "finalizeAll L tx =
     ebind (emapM (\<lambda>i. ebind (lib_call (getInput L tx i)) (\<lambda>inp.
        if input_signed inp then Inr () else Inl (Error ''input is unsigned''))) [0..<inputsLength L tx]) (\<lambda>_.
     lib_call (finalizeTx L tx))"

definition finalizeReveal :: "('tx, 'z) btc_lib_scheme \<Rightarrow> string \<Rightarrow> insc_error + RawFacts" where
  "finalizeReveal L psbtBase64 =
     ebind (decodePsbt L psbtBase64) (\<lambda>tx. ebind (finalizeAll L tx) (\<lambda>tx'. rawFacts L tx'))"

definition buildRescueReveal :: "('tx, 'z) btc_lib_scheme \<Rightarrow> Network \<Rightarrow> string \<Rightarrow> insc_error + RawFacts" where
  "buildRescueReveal L network halfSigned =
     ebind (decodePsbt L halfSigned) (\<lambda>tx.
     ebind (assertHalfSigned L tx) (\<lambda>type.
     if type = SIGHASH_ALL_ANYONECANPAY \<and> outputsLength L tx \<noteq> 1
     then Inl (Error ''0x81 half-signed reveal commits to a parent return output; rescue with buildResignedRescue (K_e) instead'')
     else ebind (finalizeAll L tx) (\<lambda>tx'. rawFacts L tx')))"

record RescueArgs =
  raNetwork :: Network
  raRevealPrivkey :: bytes
  raContent :: InscriptionContent
  raCommitOutpoint :: Outpoint
  raCommitValue :: int
  raRecipientAddress :: string
  raPostage :: int
  raFeeRate :: "js_number option"

record RescueResult =
  rrFacts :: RawFacts
  rrFee :: int
  rrOverpay :: "int option"

definition buildResignedRescue :: "('tx, 'z) btc_lib_scheme \<Rightarrow> RescueArgs \<Rightarrow> insc_error + RescueResult" where
  "buildResignedRescue L args =
     ebind (assertBytes (raRevealPrivkey args) 32 ''revealPrivkey'') (\<lambda>_.
     ebind (checkOutpoint (raCommitOutpoint args)) (\<lambda>_.
     if raPostage args < DUST_P2TR then Inl (Error ''postage must be a bigint >= dust'')
     else if raCommitValue args \<le> raPostage args
     then Inl (Error ''commitValue must exceed postage (fee = commitValue - postage)'')
     else
     ebind (lib_call (getPublicKey L (raRevealPrivkey args))) (\<lambda>revealPubkey.
     ebind (commitAddress L revealPubkey (raContent args) (raNetwork args)) (\<lambda>commit.
     ebind (addressToScript L (raRecipientAddress args) (raNetwork args)) (\<lambda>recipientScript.
     let fee = raCommitValue args - raPostage args in
     ebind (case raFeeRate args of
              None \<Rightarrow> Inr None
            | Some rate \<Rightarrow>
                ebind (estimateResignedRescueWeight (raContent args) recipientScript) (\<lambda>weight.
                ebind (quoteReveal (int weight) rate 0) (\<lambda>q.
                if fee < qRevealFee q then Inl (Error ''commit does not fund the fee'')
                else Inr (Some (fee - qRevealFee q))))) (\<lambda>overpay.
     ebind (lib_call (addOutput L (new_tx L) \<lparr>outScript = Some recipientScript, outAmount = Some (raPostage args)\<rparr>)) (\<lambda>tx0.
     ebind (commit_input L commit (raCommitOutpoint args) (raCommitValue args) None) (\<lambda>inp.
     ebind (lib_call (addInput L tx0 inp)) (\<lambda>tx1.
     ebind (lib_call (signIdx L tx1 (raRevealPrivkey args) 0 (Some [SIGHASH_DEFAULT]))) (\<lambda>tx.
     ebind (commitSignature L tx 0) (\<lambda>sg.
     case sg of
       None \<Rightarrow> Inl (Error ''internal: commit input was not signed with SIGHASH_DEFAULT'')
     | Some signature \<Rightarrow>
         if length signature \<noteq> 64
         then Inl (Error ''internal: commit input was not signed with SIGHASH_DEFAULT'')
         else ebind (revealCommitSighash L
             \<lparr>aTxid = opTxid (raCommitOutpoint args), aVout = opVout (raCommitOutpoint args),
              aCommitValue = raCommitValue args, aCommitScript = ciScript commit,
              aTapLeafHash = ciTapLeafHash commit, aChildScript = None, aChildValue = None,
              aOutputs = Some [\<lparr>soScript = recipientScript, soValue = raPostage args\<rparr>],
              aSighashType = Some SIGHASH_DEFAULT, aVersion = None, aLockTime = None, aSequence = None\<rparr>) (\<lambda>digest.
           if \<not> schnorrVerify L signature digest revealPubkey
           then Inl (Error ''internal: signature does not verify against independent sighash'')
           else ebind (finalizeAll L tx) (\<lambda>tx'. ebind (rawFacts L tx') (\<lambda>facts.
             Inr \<lparr>rrFacts = facts, rrFee = fee, rrOverpay = overpay\<rparr>))))))))))))))"

end
