(* ===== verification/Verify.thy ===== *)
theory Verify imports Reveal begin

text \<open>
  \<open>verify.ts\<close> of \<open>platform/inscription/src\<close>: what the service checks of a half-signed reveal before
  storing it, and how that check, \<open>attachParent\<close> and the builder of \<open>reveal.ts\<close> fit together.
\<close>

datatype VerifyResult = Verified | Rejected string

record VerifyArgs =
  vaNetwork :: Network
  vaPsbt :: string
  vaRevealPubkey :: bytes
  vaContent :: InscriptionContent
  vaCommitOutpoint :: Outpoint
  vaCommitValue :: int
  vaRecipientAddress :: string
  vaPostage :: int
  vaSighash :: "sighash_arg option"
  vaParentReturnAddress :: "string option"
  vaParentValue :: "int option"

text \<open>\<open>try { s = addressToScript(...) } catch { return fail(...) }\<close>\<close>

definition try_script ::
  "insc_error + bytes \<Rightarrow> string \<Rightarrow> (bytes \<Rightarrow> insc_error + VerifyResult) \<Rightarrow> insc_error + VerifyResult" where
  "try_script r reason k = (case r of Inl _ \<Rightarrow> Inr (Rejected reason) | Inr s \<Rightarrow> k s)"

text \<open>The parent-return check: continues with the outputs pushed so far.\<close>

definition verify_parent_return ::
  "('tx, 'z) btc_lib_scheme \<Rightarrow> 'tx \<Rightarrow> Network \<Rightarrow> string option \<Rightarrow> int option
     \<Rightarrow> (SighashOutput list \<Rightarrow> insc_error + VerifyResult) \<Rightarrow> insc_error + VerifyResult" where
  "verify_parent_return L tx network addr val k =
     try_script (case addr of None \<Rightarrow> Inl (Error '''') | Some a \<Rightarrow> addressToScript L a network)
       ''expected parent return address invalid'' (\<lambda>parentReturnScript.
     ebind (lib_call (getOutput L tx 0)) (\<lambda>ret.
     if outScript ret \<noteq> Some parentReturnScript then Inr (Rejected ''parent return output address mismatch'')
     else if outAmount ret \<noteq> val then Inr (Rejected ''parent return output value mismatch'')
     else k [\<lparr>soScript = parentReturnScript, soValue = (case val of Some v \<Rightarrow> v | None \<Rightarrow> 0)\<rparr>]))"

text \<open>The child check, common to both verifiers.\<close>

definition verify_child ::
  "('tx, 'z) btc_lib_scheme \<Rightarrow> 'tx \<Rightarrow> nat \<Rightarrow> bytes \<Rightarrow> int \<Rightarrow> insc_error + VerifyResult \<Rightarrow> insc_error + VerifyResult" where
  "verify_child L tx idx recipientScript postage k =
     ebind (lib_call (getOutput L tx idx)) (\<lambda>child.
     if outScript child \<noteq> Some recipientScript then Inr (Rejected ''child output recipient mismatch'')
     else if outAmount child \<noteq> Some postage then Inr (Rejected ''child output postage mismatch'')
     else k)"

definition sighash_args_of ::
  "VerifyArgs \<Rightarrow> CommitInfo \<Rightarrow> byte \<Rightarrow> bytes \<Rightarrow> SighashOutput list \<Rightarrow> SighashArgs" where
  "sighash_args_of args commit sighashType recipientScript outs =
     \<lparr>aTxid = opTxid (vaCommitOutpoint args), aVout = opVout (vaCommitOutpoint args),
      aCommitValue = vaCommitValue args, aCommitScript = ciScript commit,
      aTapLeafHash = ciTapLeafHash commit, aChildScript = Some recipientScript,
      aChildValue = Some (vaPostage args), aOutputs = Some outs, aSighashType = Some sighashType,
      aVersion = None, aLockTime = None, aSequence = None\<rparr>"

text \<open>The signature checks at the end.\<close>

definition verify_signature ::
  "('tx, 'z) btc_lib_scheme \<Rightarrow> VerifyArgs \<Rightarrow> TxInput \<Rightarrow> CommitInfo \<Rightarrow> byte \<Rightarrow> bytes \<Rightarrow> SighashOutput list
     \<Rightarrow> insc_error + VerifyResult" where
  "verify_signature L args input commit sighashType recipientScript outs =
     (case inTapScriptSig input of
        Some [(k, sig)] \<Rightarrow>
          if \<not> equalBytes (lkPubKey k) (vaRevealPubkey args) then Inr (Rejected ''signature pubkey is not the reveal key'')
          else if \<not> equalBytes (lkLeafHash k) (ciTapLeafHash commit) then Inr (Rejected ''signature leaf hash mismatch'')
          else if length sig \<noteq> 65 then Inr (Rejected ''signature must be 65 bytes'')
          else if sig ! 64 \<noteq> sighashType then Inr (Rejected ''sighash type mismatch'')
          else ebind (revealCommitSighash L (sighash_args_of args commit sighashType recipientScript outs)) (\<lambda>digest.
            if \<not> schnorrVerify L (take 64 sig) digest (vaRevealPubkey args)
            then Inr (Rejected ''schnorr signature does not verify'')
            else Inr Verified)
      | _ \<Rightarrow> Inr (Rejected ''commit input must carry exactly one tapscript signature''))"

text \<open>The leaf checks; \<open>k\<close> is the rest.\<close>

definition verify_leaf ::
  "('tx, 'z) btc_lib_scheme \<Rightarrow> TxInput \<Rightarrow> CommitInfo \<Rightarrow> byte \<Rightarrow> insc_error + VerifyResult \<Rightarrow> insc_error + VerifyResult" where
  "verify_leaf L input commit sighashType k =
     (case inTapLeafScript input of
        Some [(cb, scriptWithVer)] \<Rightarrow>
          if scriptWithVer = [] \<or> last scriptWithVer \<noteq> TAPSCRIPT_LEAF_VERSION
          then Inr (Rejected ''leaf version must be 0xc0'')
          else if \<not> equalBytes (butlast scriptWithVer) (ciLeafScript commit)
          then Inr (Rejected ''leaf script does not match the inscription script for this content'')
          else if cbVersion cb \<noteq> unat (ciControlBlock commit ! 0)
               \<or> \<not> equalBytes (cbInternalKey cb) (NUMS_INTERNAL_KEY L) \<or> cbMerklePath cb \<noteq> []
          then Inr (Rejected ''control block mismatch'')
          else if inSighashType input \<noteq> None \<and> inSighashType input \<noteq> Some sighashType
          then Inr (Rejected ''PSBT sighashType mismatch'')
          else k
      | _ \<Rightarrow> Inr (Rejected ''commit input must carry exactly one tapLeafScript''))"

text \<open>The output checks and the signature, from the recipient's script on.\<close>

definition verify_outputs ::
  "('tx, 'z) btc_lib_scheme \<Rightarrow> VerifyArgs \<Rightarrow> byte \<Rightarrow> bool \<Rightarrow> 'tx \<Rightarrow> TxInput \<Rightarrow> CommitInfo \<Rightarrow> bytes
     \<Rightarrow> insc_error + VerifyResult" where
  "verify_outputs L args sighashType expectParentReturn tx input commit recipientScript =
     (let expectedOutputs = (if expectParentReturn then 2 else 1);
          rest = (\<lambda>outs. verify_child L tx (expectedOutputs - 1) recipientScript (vaPostage args)
                (verify_signature L args input commit sighashType recipientScript
                   (outs @ [\<lparr>soScript = recipientScript, soValue = vaPostage args\<rparr>])))
      in if expectParentReturn
         then verify_parent_return L tx (vaNetwork args) (vaParentReturnAddress args) (vaParentValue args) rest
         else rest [])"

text \<open>The checks on the decoded transaction, in the order of the source.\<close>

definition verify_tx ::
  "('tx, 'z) btc_lib_scheme \<Rightarrow> VerifyArgs \<Rightarrow> byte \<Rightarrow> bool \<Rightarrow> 'tx \<Rightarrow> insc_error + VerifyResult" where
  "verify_tx L args sighashType expectParentReturn tx =
     (let expectedOutputs = (if expectParentReturn then 2 else 1) in
      if inputsLength L tx \<noteq> 1 then Inr (Rejected ''expected 1 input'')
      else if outputsLength L tx \<noteq> expectedOutputs then Inr (Rejected ''wrong number of outputs'')
      else if txVersion L tx \<noteq> REVEAL_TX_VERSION then Inr (Rejected ''nVersion must be 2'')
      else if txLockTime L tx \<noteq> REVEAL_LOCKTIME then Inr (Rejected ''nLockTime must be 0'')
      else
      ebind (lib_call (getInput L tx 0)) (\<lambda>input.
      ebind (inputTxid L tx 0) (\<lambda>txid.
      if txid \<noteq> lower_string (opTxid (vaCommitOutpoint args)) \<or> inIndex input \<noteq> Some (opVout (vaCommitOutpoint args))
      then Inr (Rejected ''commit outpoint mismatch'')
      else if (case inSequence input of None \<Rightarrow> 0xffffffff | Some s \<Rightarrow> s) \<noteq> REVEAL_SEQUENCE
      then Inr (Rejected ''commit input nSequence mismatch'')
      else
      ebind (commitAddress L (vaRevealPubkey args) (vaContent args) (vaNetwork args)) (\<lambda>commit.
      case inWitnessUtxo input of
        None \<Rightarrow> Inr (Rejected ''commit input has no witnessUtxo'')
      | Some (prevScript, prevAmount) \<Rightarrow>
          if prevAmount \<noteq> vaCommitValue args then Inr (Rejected ''commit value mismatch'')
          else if \<not> equalBytes prevScript (ciScript commit)
          then Inr (Rejected ''commit scriptPubKey mismatch (content, key or network)'')
          else
          verify_leaf L input commit sighashType
          (try_script (addressToScript L (vaRecipientAddress args) (vaNetwork args))
            ''expected recipient address invalid'' (\<lambda>recipientScript.
             verify_outputs L args sighashType expectParentReturn tx input commit recipientScript))))))"

definition verify_body :: "('tx, 'z) btc_lib_scheme \<Rightarrow> VerifyArgs \<Rightarrow> insc_error + VerifyResult" where
  "verify_body L args =
     ebind (assertBytes (vaRevealPubkey args) 32 ''revealPubkey'') (\<lambda>_.
     if vaPostage args < DUST_P2TR then Inr (Rejected ''expected postage below dust'')
     else if vaCommitValue args \<le> vaPostage args then Inr (Rejected ''commit value does not exceed postage'')
     else ebind (revealSighashType (vaSighash args)) (\<lambda>sighashType.
     let expectParentReturn = (sighashType = SIGHASH_ALL_ANYONECANPAY \<and> vaParentReturnAddress args \<noteq> None) in
     if expectParentReturn \<and> (case vaParentValue args of None \<Rightarrow> True | Some v \<Rightarrow> v \<le> 0)
     then Inr (Rejected ''expectedParentValue must be a positive bigint when expectedParentReturnAddress is given'')
     else case decodePsbt L (vaPsbt args) of
       Inl _ \<Rightarrow> Inr (Rejected ''PSBT does not decode'')
     | Inr tx \<Rightarrow> verify_tx L args sighashType expectParentReturn tx))"

text \<open>The outer \<open>try\<close>: an exception is a refusal.\<close>

definition verifyHalfSignedReveal :: "('tx, 'z) btc_lib_scheme \<Rightarrow> VerifyArgs \<Rightarrow> VerifyResult" where
  "verifyHalfSignedReveal L args =
     (case verify_body L args of Inl _ \<Rightarrow> Rejected ''verification error'' | Inr r \<Rightarrow> r)"

subsection \<open>What the checks establish\<close>

text \<open>
  The outputs the order expects: the parent return, when the hash type is 0x81 and an address is
  given, then the child.
\<close>

definition expects_parent :: "VerifyArgs \<Rightarrow> byte \<Rightarrow> bool" where
  "expects_parent args t = (t = SIGHASH_ALL_ANYONECANPAY \<and> vaParentReturnAddress args \<noteq> None)"

definition expected_outputs ::
  "('tx, 'z) btc_lib_scheme \<Rightarrow> VerifyArgs \<Rightarrow> byte \<Rightarrow> insc_error + SighashOutput list" where
  "expected_outputs L args t =
     ebind (addressToScript L (vaRecipientAddress args) (vaNetwork args)) (\<lambda>r.
     let child = \<lparr>soScript = r, soValue = vaPostage args\<rparr> in
     if expects_parent args t
     then ebind (addressToScript L (the (vaParentReturnAddress args)) (vaNetwork args)) (\<lambda>p.
       Inr [\<lparr>soScript = p, soValue = the (vaParentValue args)\<rparr>, child])
     else Inr [child])"

lemma try_script_Verified:
  "try_script r reason k = Inr Verified \<longleftrightarrow> (\<exists>s. r = Inr s \<and> k s = Inr Verified)"
  by (simp add: try_script_def split: sum.split)

lemma lib_bind_eq_Inr: "ebind (lib_call r) f = Inr y \<longleftrightarrow> (\<exists>x. r = Some x \<and> f x = Inr y)"
  by (cases r) simp_all

lemma output_is:
  "(\<exists>x. g = Some x \<and> outScript x = Some s \<and> outAmount x = Some v \<and> P)
     \<longleftrightarrow> g = Some \<lparr>outScript = Some s, outAmount = Some v\<rparr> \<and> P"
  by (auto intro: TxOutput.equality)

lemma verify_child_Verified:
  "verify_child L tx i s v k = Inr Verified \<longleftrightarrow>
     getOutput L tx i = Some \<lparr>outScript = Some s, outAmount = Some v\<rparr> \<and> k = Inr Verified"
  unfolding output_is [symmetric] by (auto simp: verify_child_def lib_bind_eq_Inr)

lemma verify_parent_return_Verified:
  "verify_parent_return L tx n (Some a) (Some v) k = Inr Verified \<longleftrightarrow>
     (\<exists>s. addressToScript L a n = Inr s \<and> getOutput L tx 0 = Some \<lparr>outScript = Some s, outAmount = Some v\<rparr>
        \<and> k [\<lparr>soScript = s, soValue = v\<rparr>] = Inr Verified)"
  unfolding output_is [symmetric]
  by (auto simp: verify_parent_return_def try_script_Verified lib_bind_eq_Inr)

lemma verify_signature_Verified:
  "verify_signature L args input commit t r outs = Inr Verified \<longleftrightarrow>
     (\<exists>k sig d. inTapScriptSig input = Some [(k, sig)] \<and> lkPubKey k = vaRevealPubkey args
        \<and> lkLeafHash k = ciTapLeafHash commit \<and> length sig = 65 \<and> sig ! 64 = t
        \<and> revealCommitSighash L (sighash_args_of args commit t r outs) = Inr d
        \<and> schnorrVerify L (take 64 sig) d (vaRevealPubkey args))"
  by (auto simp: verify_signature_def ebind_eq_Inr split: option.splits list.splits if_splits)

lemma last_version: "s \<noteq> [] \<and> last s = v \<and> butlast s = l \<longleftrightarrow> s = l @ [v]"
  by (metis append_butlast_last_id butlast_snoc last_snoc snoc_eq_iff_butlast)

lemma verify_leaf_Verified:
  "verify_leaf L input commit t k = Inr Verified \<longleftrightarrow>
     (\<exists>cb. inTapLeafScript input = Some [(cb, ciLeafScript commit @ [TAPSCRIPT_LEAF_VERSION])]
        \<and> cbVersion cb = unat (ciControlBlock commit ! 0) \<and> cbInternalKey cb = NUMS_INTERNAL_KEY L
        \<and> cbMerklePath cb = []
        \<and> (inSighashType input = None \<or> inSighashType input = Some t) \<and> k = Inr Verified)"
proof -
  have "verify_leaf L input commit t k = Inr Verified \<longleftrightarrow>
     (\<exists>cb s. inTapLeafScript input = Some [(cb, s)]
        \<and> (s \<noteq> [] \<and> last s = TAPSCRIPT_LEAF_VERSION \<and> butlast s = ciLeafScript commit)
        \<and> cbVersion cb = unat (ciControlBlock commit ! 0) \<and> cbInternalKey cb = NUMS_INTERNAL_KEY L
        \<and> cbMerklePath cb = []
        \<and> (inSighashType input = None \<or> inSighashType input = Some t) \<and> k = Inr Verified)"
    by (auto simp: verify_leaf_def split: option.splits list.splits if_splits)
  then show ?thesis unfolding last_version by blast
qed

text \<open>
  The specification of an acceptable half-signed reveal: everything the signature commits to is
  the order's expected value, and the signature is valid for it.
\<close>

definition signed_for :: "('tx, 'z) btc_lib_scheme \<Rightarrow> VerifyArgs \<Rightarrow> TxInput \<Rightarrow> CommitInfo \<Rightarrow> byte \<Rightarrow> bytes
    \<Rightarrow> SighashOutput list \<Rightarrow> bool" where
  "signed_for L args inp commit t r outs \<longleftrightarrow>
     (\<exists>k sig d. inTapScriptSig inp = Some [(k, sig)] \<and> lkPubKey k = vaRevealPubkey args
        \<and> lkLeafHash k = ciTapLeafHash commit \<and> length sig = 65 \<and> sig ! 64 = t
        \<and> revealCommitSighash L (sighash_args_of args commit t r outs) = Inr d
        \<and> schnorrVerify L (take 64 sig) d (vaRevealPubkey args))"

definition commit_input_for :: "('tx, 'z) btc_lib_scheme \<Rightarrow> VerifyArgs \<Rightarrow> TxInput \<Rightarrow> CommitInfo \<Rightarrow> byte \<Rightarrow> bool" where
  "commit_input_for L args inp commit t \<longleftrightarrow>
     map_option (hexEncode L) (inTxid inp) = Some (lower_string (opTxid (vaCommitOutpoint args)))
   \<and> inIndex inp = Some (opVout (vaCommitOutpoint args)) \<and> inSequence inp = Some REVEAL_SEQUENCE
   \<and> inWitnessUtxo inp = Some (ciScript commit, vaCommitValue args)
   \<and> (\<exists>cb. inTapLeafScript inp = Some [(cb, ciLeafScript commit @ [TAPSCRIPT_LEAF_VERSION])]
        \<and> cbVersion cb = unat (ciControlBlock commit ! 0) \<and> cbInternalKey cb = NUMS_INTERNAL_KEY L
        \<and> cbMerklePath cb = [])
   \<and> (inSighashType inp = None \<or> inSighashType inp = Some t)"

definition outputs_are :: "('tx, 'z) btc_lib_scheme \<Rightarrow> 'tx \<Rightarrow> SighashOutput list \<Rightarrow> bool" where
  "outputs_are L tx outs \<longleftrightarrow> outputsLength L tx = length outs
     \<and> (\<forall>k < length outs. getOutput L tx k = Some \<lparr>outScript = Some (soScript (outs ! k)), outAmount = Some (soValue (outs ! k))\<rparr>)"

definition acceptable :: "('tx, 'z) btc_lib_scheme \<Rightarrow> VerifyArgs \<Rightarrow> byte \<Rightarrow> 'tx \<Rightarrow> TxInput \<Rightarrow> CommitInfo
    \<Rightarrow> bytes \<Rightarrow> SighashOutput list \<Rightarrow> bool" where
  "acceptable L args t tx inp commit r outs \<longleftrightarrow>
     DUST_P2TR \<le> vaPostage args \<and> vaPostage args < vaCommitValue args
   \<and> revealSighashType (vaSighash args) = Inr t
   \<and> (expects_parent args t \<longrightarrow> (\<exists>v>0. vaParentValue args = Some v))
   \<and> decodePsbt L (vaPsbt args) = Inr tx
   \<and> inputsLength L tx = 1 \<and> txVersion L tx = REVEAL_TX_VERSION \<and> txLockTime L tx = REVEAL_LOCKTIME
   \<and> getInput L tx 0 = Some inp
   \<and> commitAddress L (vaRevealPubkey args) (vaContent args) (vaNetwork args) = Inr commit
   \<and> commit_input_for L args inp commit t
   \<and> addressToScript L (vaRecipientAddress args) (vaNetwork args) = Inr r
   \<and> expected_outputs L args t = Inr outs \<and> outputs_are L tx outs
   \<and> signed_for L args inp commit t r outs"

lemma outputs_are_1: "outputs_are L tx [x] \<longleftrightarrow> outputsLength L tx = 1
   \<and> getOutput L tx 0 = Some \<lparr>outScript = Some (soScript x), outAmount = Some (soValue x)\<rparr>"
  by (simp add: outputs_are_def)

lemma outputs_are_2: "outputs_are L tx [x, y] \<longleftrightarrow> outputsLength L tx = 2
   \<and> getOutput L tx 0 = Some \<lparr>outScript = Some (soScript x), outAmount = Some (soValue x)\<rparr>
   \<and> getOutput L tx 1 = Some \<lparr>outScript = Some (soScript y), outAmount = Some (soValue y)\<rparr>"
  by (auto simp: outputs_are_def less_Suc_eq)

lemma inputTxid_eq_Inr:
  "inputTxid L tx 0 = Inr x \<longleftrightarrow> (\<exists>i. getInput L tx 0 = Some i \<and> map_option (hexEncode L) (inTxid i) = Some x)"
  by (auto simp: inputTxid_def lib_bind_eq_Inr split: option.splits)

lemma sequence_is: "(case s of None \<Rightarrow> 0xffffffff | Some x \<Rightarrow> x) = REVEAL_SEQUENCE \<longleftrightarrow> s = Some REVEAL_SEQUENCE"
  by (auto simp: REVEAL_SEQUENCE_def split: option.splits)

lemma commitAddress_length: "commitAddress L pk c n = Inr ci \<Longrightarrow> length pk = 32"
  by (auto simp: commitAddress_def assertBytes_def split: if_splits)

lemma verify_rest_Verified:
  assumes "expects_parent args t \<longrightarrow> (\<exists>v>0. vaParentValue args = Some v)"
    and "addressToScript L (vaRecipientAddress args) (vaNetwork args) = Inr r"
    and "outputsLength L tx = (if expects_parent args t then 2 else 1)"
  shows "verify_outputs L args t (expects_parent args t) tx inp commit r = Inr Verified
    \<longleftrightarrow> (\<exists>outs. expected_outputs L args t = Inr outs \<and> outputs_are L tx outs \<and> signed_for L args inp commit t r outs)"
proof (cases "expects_parent args t")
  case True
  with assms obtain v a where va: "vaParentValue args = Some v" "vaParentReturnAddress args = Some a"
    by (auto simp: expects_parent_def)
  have c: "outputsLength L tx = 2" using True assms(3) by simp
  show ?thesis
    by (simp add: verify_outputs_def True va assms(2) c verify_child_Verified verify_parent_return_Verified verify_signature_Verified
        expected_outputs_def Let_def signed_for_def [symmetric] ebind_eq_Inr del: ex_simps)
       (auto simp: outputs_are_2 c)
next
  case False
  with assms(2,3) show ?thesis
    by (simp add: verify_outputs_def verify_child_Verified verify_signature_Verified expected_outputs_def Let_def
        outputs_are_1 signed_for_def)
qed

lemma expected_outputs_length:
  "expected_outputs L args t = Inr outs \<Longrightarrow> length outs = (if expects_parent args t then 2 else 1)"
  by (auto simp: expected_outputs_def Let_def ebind_eq_Inr split: if_splits)

lemma verify_tx_Verified:
  assumes "expects_parent args t \<longrightarrow> (\<exists>v>0. vaParentValue args = Some v)"
  shows "verify_tx L args t (expects_parent args t) tx = Inr Verified \<longleftrightarrow>
     inputsLength L tx = 1 \<and> txVersion L tx = REVEAL_TX_VERSION \<and> txLockTime L tx = REVEAL_LOCKTIME
     \<and> (\<exists>inp commit r outs. getInput L tx 0 = Some inp
         \<and> commitAddress L (vaRevealPubkey args) (vaContent args) (vaNetwork args) = Inr commit
         \<and> commit_input_for L args inp commit t
         \<and> addressToScript L (vaRecipientAddress args) (vaNetwork args) = Inr r
         \<and> expected_outputs L args t = Inr outs \<and> outputs_are L tx outs
         \<and> signed_for L args inp commit t r outs)" (is "?l \<longleftrightarrow> ?r")
proof
  assume l: ?l
  then have n: "inputsLength L tx = 1" "txVersion L tx = REVEAL_TX_VERSION" "txLockTime L tx = REVEAL_LOCKTIME"
      "outputsLength L tx = (if expects_parent args t then 2 else 1)"
    by (auto simp: verify_tx_def Let_def split: if_splits)
  from l n obtain inp where i: "getInput L tx 0 = Some inp"
      "map_option (hexEncode L) (inTxid inp) = Some (lower_string (opTxid (vaCommitOutpoint args)))"
      "inIndex inp = Some (opVout (vaCommitOutpoint args))" "inSequence inp = Some REVEAL_SEQUENCE"
    by (auto simp: verify_tx_def Let_def lib_bind_eq_Inr ebind_eq_Inr inputTxid_eq_Inr
        sequence_is split: if_splits)
  have tid: "inputTxid L tx 0 = Inr (lower_string (opTxid (vaCommitOutpoint args)))"
    using i by (simp add: inputTxid_eq_Inr)
  from l n i tid obtain commit where c:
      "commitAddress L (vaRevealPubkey args) (vaContent args) (vaNetwork args) = Inr commit"
      "inWitnessUtxo inp = Some (ciScript commit, vaCommitValue args)"
    by (auto simp: verify_tx_def Let_def ebind_eq_Inr sequence_is split: if_splits option.splits)
  note l2 = l [unfolded verify_tx_def Let_def, simplified n i tid c, simplified]
  from l2 c(2) obtain r where r: "addressToScript L (vaRecipientAddress args) (vaNetwork args) = Inr r"
      "commit_input_for L args inp commit t"
    using i c by (auto simp: sequence_is verify_leaf_Verified try_script_Verified commit_input_for_def)
  have "verify_outputs L args t (expects_parent args t) tx inp commit r = Inr Verified"
    using l2 i c r by (auto simp: sequence_is verify_leaf_Verified try_script_Verified)
  with verify_rest_Verified [OF assms r(1) n(4)]
  have "\<exists>outs. expected_outputs L args t = Inr outs \<and> outputs_are L tx outs \<and> signed_for L args inp commit t r outs"
    by blast
  with n i c r show ?r by blast
next
  assume ?r
  then obtain inp commit r outs where
    n: "inputsLength L tx = 1" "txVersion L tx = REVEAL_TX_VERSION" "txLockTime L tx = REVEAL_LOCKTIME"
    and i: "getInput L tx 0 = Some inp"
    and c: "commitAddress L (vaRevealPubkey args) (vaContent args) (vaNetwork args) = Inr commit"
      "commit_input_for L args inp commit t"
    and r: "addressToScript L (vaRecipientAddress args) (vaNetwork args) = Inr r"
    and x: "expected_outputs L args t = Inr outs" "outputs_are L tx outs" "signed_for L args inp commit t r outs"
    by blast
  have o: "outputsLength L tx = (if expects_parent args t then 2 else 1)"
    using x(1,2) by (simp add: outputs_are_def expected_outputs_length)
  have tid: "inputTxid L tx 0 = Inr (lower_string (opTxid (vaCommitOutpoint args)))"
    using i c(2) by (simp add: inputTxid_eq_Inr commit_input_for_def)
  have rest: "verify_outputs L args t (expects_parent args t) tx inp commit r = Inr Verified"
    using verify_rest_Verified [OF assms r o, of inp commit] x by blast
  show ?l
    using n o i tid c(1) c(2) r rest
    unfolding verify_tx_def Let_def
    by (simp add: commit_input_for_def sequence_is verify_leaf_Verified try_script_def del: ex_simps) 
qed

lemma verify_body_Verified:
  "verify_body L args = Inr Verified \<longleftrightarrow> (\<exists>t tx inp commit r outs. acceptable L args t tx inp commit r outs)"
  (is "?l \<longleftrightarrow> ?r")
proof
  assume v: ?l
  then obtain t where t: "revealSighashType (vaSighash args) = Inr t"
    and g: "length (vaRevealPubkey args) = 32" "DUST_P2TR \<le> vaPostage args" "vaPostage args < vaCommitValue args"
    by (auto simp: verify_body_def assertBytes_def ebind_eq_Inr split: if_splits)
  have pv: "expects_parent args t \<longrightarrow> (\<exists>v>0. vaParentValue args = Some v)"
    using v t g by (auto simp: verify_body_def assertBytes_def expects_parent_def Let_def
        split: if_splits option.splits)
  have "\<exists>tx. decodePsbt L (vaPsbt args) = Inr tx \<and> verify_tx L args t (expects_parent args t) tx = Inr Verified"
    using v t g pv by (cases "decodePsbt L (vaPsbt args)")
      (auto simp: verify_body_def assertBytes_def expects_parent_def Let_def split: if_splits)
  then show ?r
    using verify_tx_Verified [OF pv, of L] t g pv unfolding acceptable_def by blast
next
  assume ?r
  then obtain t tx inp commit r outs where a: "acceptable L args t tx inp commit r outs" by blast
  then have pv: "expects_parent args t \<longrightarrow> (\<exists>v>0. vaParentValue args = Some v)"
    and t: "revealSighashType (vaSighash args) = Inr t" and tx: "decodePsbt L (vaPsbt args) = Inr tx"
    by (simp_all add: acceptable_def)
  have v: "verify_tx L args t (expects_parent args t) tx = Inr Verified"
    using verify_tx_Verified [OF pv, of L tx] a unfolding acceptable_def by blast
  have l: "length (vaRevealPubkey args) = 32" "DUST_P2TR \<le> vaPostage args" "vaPostage args < vaCommitValue args"
    using a commitAddress_length by (auto simp: acceptable_def)
  have "\<not> (expects_parent args t \<and> (case vaParentValue args of None \<Rightarrow> True | Some v \<Rightarrow> v \<le> 0))"
    using pv by auto
  with v t tx l show ?l
    unfolding verify_body_def Let_def assertBytes_def expects_parent_def by simp
qed

subsection \<open>Attaching the parent\<close>

lemma add_outputs_frame:
  assumes "tx_documented L" and "add_outputs L t xs = Inr u"
  shows "inputsLength L u = inputsLength L t \<and> same_frame L t u
    \<and> outputsLength L u = outputsLength L t + length xs
    \<and> (\<forall>k < outputsLength L t. getOutput L u k = getOutput L t k)
    \<and> (\<forall>k < length xs. getOutput L u (outputsLength L t + k)
          = Some \<lparr>outScript = Some (soScript (xs ! k)), outAmount = Some (soValue (xs ! k))\<rparr>)"
  using assms(2)
proof (induction xs arbitrary: t)
  case Nil
  then show ?case by (simp add: same_frame_def)
next
  case (Cons x xs)
  then obtain t1 where t1: "addOutput L t \<lparr>outScript = Some (soScript x), outAmount = Some (soValue x)\<rparr> = Some t1"
      "add_outputs L t1 xs = Inr u"
    by (auto simp: lib_bind_eq_Inr)
  from t1(1) have d: "same_frame L t t1" "outputsLength L t1 = Suc (outputsLength L t)"
      "inputsLength L t1 = inputsLength L t"
      "getOutput L t1 (outputsLength L t) = Some \<lparr>outScript = Some (soScript x), outAmount = Some (soValue x)\<rparr>"
      "\<And>k. k < outputsLength L t \<Longrightarrow> getOutput L t1 k = getOutput L t k"
    using assms(1) unfolding tx_documented_def by blast+
  note IH = Cons.IH [OF t1(2)]
  have "getOutput L u (outputsLength L t + k)
      = Some \<lparr>outScript = Some (soScript ((x # xs) ! k)), outAmount = Some (soValue ((x # xs) ! k))\<rparr>"
    if "k < length (x # xs)" for k
  proof (cases k)
    case 0
    with IH d(2,4) show ?thesis by simp
  next
    case (Suc j)
    with IH d(2) that show ?thesis by simp
  qed
  with IH d show ?case by (simp add: same_frame_def)
qed

lemma outputs_are_outputsOf: "outputs_are L tx outs \<Longrightarrow> outputsOf L tx = Inr outs"
proof -
  assume a: "outputs_are L tx outs"
  then have "output_at L tx k = Inr (outs ! k)" if "k \<in> set [0..<outputsLength L tx]" for k
    using that by (simp add: outputs_are_def output_at_def)
  then have "outputsOf L tx = Inr (map ((!) outs) [0..<outputsLength L tx])"
    unfolding outputsOf_def by (rule emapM_Inr)
  with a show ?thesis by (simp add: outputs_are_def map_nth)
qed

text \<open>The transaction the two \<open>addInput\<close> calls complete.\<close>

lemma attached_tx:
  assumes d: "tx_documented L" and "add_outputs L (new_tx L) outs = Inr tx0"
    and "addInput L tx0 i0 = Some tx1" and "addInput L tx1 i1 = Some tx"
  shows "inputsLength L tx = 2 \<and> getInput L tx 0 = Some i0 \<and> getInput L tx 1 = Some i1
    \<and> outputs_are L tx outs \<and> txVersion L tx = REVEAL_TX_VERSION \<and> txLockTime L tx = REVEAL_LOCKTIME"
proof -
  have n: "inputsLength L (new_tx L) = 0" "outputsLength L (new_tx L) = 0"
      "txVersion L (new_tx L) = REVEAL_TX_VERSION" "txLockTime L (new_tx L) = REVEAL_LOCKTIME"
    using d unfolding tx_documented_def new_tx_def by blast+
  note o = add_outputs_frame [OF d assms(2)]
  have add: "same_frame L t u \<and> inputsLength L u = Suc (inputsLength L t) \<and> outputsLength L u = outputsLength L t
        \<and> getInput L u (inputsLength L t) = Some i
        \<and> (\<forall>k < inputsLength L t. getInput L u k = getInput L t k)
        \<and> (\<forall>k. getOutput L u k = getOutput L t k)" if "addInput L t i = Some u" for t i u
    using d that unfolding tx_documented_def by blast
  show ?thesis
    using n o add [OF assms(3)] add [OF assms(4)] by (simp add: outputs_are_def same_frame_def)
qed

text \<open>What \<open>attachParent\<close> returns when it returns, in one statement.\<close>

definition attached ::
  "('tx, 'z) btc_lib_scheme \<Rightarrow> AttachArgs \<Rightarrow> 'tx \<Rightarrow> byte \<Rightarrow> 'tx \<Rightarrow> SighashOutput list \<Rightarrow> bool" where
  "attached L args half type tx outs \<longleftrightarrow>
     (\<exists>commitIn parentIn. unfinalizedCommitInput L half 0 = Inr commitIn
        \<and> inputsLength L tx = 2 \<and> getInput L tx 0 = Some parentIn \<and> getInput L tx 1 = Some commitIn
        \<and> map_option (hexEncode L) (inTxid parentIn) = Some (lower_string (opTxid (atParentOutpoint args)))
        \<and> inWitnessUtxo parentIn = Some (atParentScript args, atParentValue args)
        \<and> inIndex parentIn = Some (opVout (atParentOutpoint args)) \<and> inSequence parentIn = Some REVEAL_SEQUENCE)
   \<and> outputs_are L tx outs \<and> txVersion L tx = REVEAL_TX_VERSION \<and> txLockTime L tx = REVEAL_LOCKTIME
   \<and> length outs = 2 \<and> soValue (outs ! 0) = atParentValue args
   \<and> addressToScript L (atParentReturnAddress args) (atNetwork args) = Inr (soScript (outs ! 0))
   \<and> (if type = SIGHASH_ALL_ANYONECANPAY then outputsOf L half = Inr outs else outputsOf L half = Inr (tl outs))"

lemma assertHalfSigned_ok:
  "assertHalfSigned L tx = Inr t \<longleftrightarrow>
     inputsLength L tx = 1 \<and> txVersion L tx = REVEAL_TX_VERSION \<and> txLockTime L tx = REVEAL_LOCKTIME
     \<and> (\<exists>sig i. commitSignature L tx 0 = Inr (Some sig) \<and> length sig = 65 \<and> sig ! 64 = t
         \<and> (t = SIGHASH_SINGLE_ANYONECANPAY \<or> t = SIGHASH_ALL_ANYONECANPAY)
         \<and> 1 \<le> outputsLength L tx \<and> outputsLength L tx \<le> (if t = SIGHASH_ALL_ANYONECANPAY then 2 else 1)
         \<and> getInput L tx 0 = Some i \<and> inSequence i = Some REVEAL_SEQUENCE)"
proof -
  have o: "(case sg of None \<Rightarrow> Inl e | Some x \<Rightarrow> f x) = Inr t \<longleftrightarrow> (\<exists>x. sg = Some x \<and> f x = Inr t)"
    for sg :: "bytes option" and e f
    by (cases sg) simp_all
  show ?thesis
    unfolding assertHalfSigned_def Let_def if_Inl_eq_Inr ebind_eq_Inr o lib_call_simps sequence_is
    by (simp only: de_Morgan_disj not_not not_less sum.inject if_Inl_eq_Inr sequence_is) blast
qed

lemma assertHalfSigned_type:
  "assertHalfSigned L tx = Inr t \<Longrightarrow> (t = SIGHASH_SINGLE_ANYONECANPAY \<or> t = SIGHASH_ALL_ANYONECANPAY)
     \<and> 1 \<le> outputsLength L tx \<and> outputsLength L tx \<le> (if t = SIGHASH_ALL_ANYONECANPAY then 2 else 1)"
  unfolding assertHalfSigned_ok by blast

lemma attach_outputs_ok:
  assumes "attach_outputs L half t s v = Inr outs" and "assertHalfSigned L half = Inr t"
  shows "length outs = 2 \<and> soValue (outs ! 0) = v \<and> soScript (outs ! 0) = s
    \<and> (if t = SIGHASH_ALL_ANYONECANPAY then outputsOf L half = Inr outs else outputsOf L half = Inr (tl outs))"
proof -
  note t = assertHalfSigned_type [OF assms(2)]
  show ?thesis
  proof (cases "t = SIGHASH_ALL_ANYONECANPAY")
    case True
    then have "t \<noteq> SIGHASH_SINGLE_ANYONECANPAY" by (simp add: sighash_defs)
    with assms(1) obtain os where os: "outputsOf L half = Inr os"
      by (auto simp: attach_outputs_def ebind_eq_Inr)
    with assms(1) \<open>t \<noteq> SIGHASH_SINGLE_ANYONECANPAY\<close> True show ?thesis
      by (cases os; cases "tl os"; cases "tl (tl os)") (auto simp: attach_outputs_def)
  next
    case False
    with t assms(1) obtain os where os: "outputsOf L half = Inr os" "outs = \<lparr>soScript = s, soValue = v\<rparr> # os"
      by (auto simp: attach_outputs_def emap_def ebind_eq_Inr)
    moreover have "length os = 1"
      using os(1) t False emapM_length by (fastforce simp: outputsOf_def)
    ultimately show ?thesis using False by simp
  qed
qed

text \<open>The bytes \<open>addInput\<close> reads out of a checked outpoint are the ones its identifier names.\<close>

lemma txid_bytes_ok:
  assumes "hex_documented L" and "checkOutpoint p = Inr ()"
  shows "txid_bytes L (opTxid p) = Inr (unhex (opTxid p))"
    and "hexEncode L (unhex (opTxid p)) = lower_string (opTxid p)" and "length (unhex (opTxid p)) = 32"
proof -
  have t: "is_txid (opTxid p)" using assms(2) by (auto simp: checkOutpoint_def split: if_splits)
  then have x: "hex_string (unhex (opTxid p)) = lower_string (opTxid p)"
    by (intro hex_string_unhex) (auto simp: is_txid_def)
  with assms(1) show "hexEncode L (unhex (opTxid p)) = lower_string (opTxid p)" by (simp add: hex_documented_def)
  from x assms(1) have "hexDecode L (lower_string (opTxid p)) = Some (unhex (opTxid p))" by (metis hex_documented_def)
  then show "txid_bytes L (opTxid p) = Inr (unhex (opTxid p))" by (simp add: txid_bytes_def)
  show "length (unhex (opTxid p)) = 32" using t by (simp add: length_unhex is_txid_def)
qed

text \<open>
  When \<open>addInput\<close> and \<open>addOutput\<close> do not throw. The library refuses to extend a transaction whose signatures
  cover what is added, so the documented behaviour speaks of transactions that carry no signature: an output with a
  script the address decoder gives and a non-negative amount is taken, and so is an input that the library itself
  returned or that consists of an outpoint, a sequence number and the output it spends.
\<close>

definition unsigned_tx :: "('tx, 'z) btc_lib_scheme \<Rightarrow> 'tx \<Rightarrow> bool" where
  "unsigned_tx L t \<longleftrightarrow> (\<forall>k i. getInput L t k = Some i \<longrightarrow> \<not> input_signed i)"

definition plain_input :: "TxInput \<Rightarrow> bool" where
  "plain_input i \<longleftrightarrow> (\<exists>txid n s v. length txid = 32 \<and> n \<le> 0xffffffff \<and> 0 \<le> v
     \<and> i = empty_input\<lparr>inTxid := Some txid, inIndex := Some n, inSequence := Some REVEAL_SEQUENCE, inWitnessUtxo := Some (s, v)\<rparr>)"

definition add_documented :: "('tx, 'z) btc_lib_scheme \<Rightarrow> bool" where
  "add_documented L \<longleftrightarrow>
     (\<forall>t s v. unsigned_tx L t \<longrightarrow> 0 \<le> v \<longrightarrow> (\<exists>n a. addressDecodeScript L n a = Some s)
        \<longrightarrow> addOutput L t \<lparr>outScript = Some s, outAmount = Some v\<rparr> \<noteq> None)
   \<and> (\<forall>t i. unsigned_tx L t \<longrightarrow> plain_input i \<or> (\<exists>u k. getInput L u k = Some i) \<longrightarrow> addInput L t i \<noteq> None)"

lemma unsigned_new: "tx_documented L \<Longrightarrow> unsigned_tx L (new_tx L)"
  unfolding unsigned_tx_def new_tx_def tx_documented_def by (metis less_zeroE)

lemma unsigned_output: "tx_documented L \<Longrightarrow> addOutput L t x = Some u \<Longrightarrow> unsigned_tx L t \<Longrightarrow> unsigned_tx L u"
  unfolding tx_documented_def unsigned_tx_def by metis

lemma unsigned_input:
  assumes "tx_documented L" and "addInput L t i = Some u" and "unsigned_tx L t" and "\<not> input_signed i"
  shows "unsigned_tx L u"
  unfolding unsigned_tx_def
proof (intro allI impI)
  fix k j assume j: "getInput L u k = Some j"
  have a: "inputsLength L u = Suc (inputsLength L t)" "getInput L u (inputsLength L t) = Some i"
      "\<forall>k < inputsLength L t. getInput L u k = getInput L t k"
    using assms(1,2) unfolding tx_documented_def by blast+
  have "k < inputsLength L u" using assms(1) j unfolding tx_documented_def by blast
  then consider "k < inputsLength L t" | "k = inputsLength L t" using a(1) by linarith
  then show "\<not> input_signed j"
  proof cases
    case 1
    with a(3) j assms(3) show ?thesis by (auto simp: unsigned_tx_def)
  next
    case 2
    with a(2) j assms(4) show ?thesis by simp
  qed
qed

lemma add_outputs_unsigned:
  assumes "tx_documented L" and "add_documented L" and "unsigned_tx L t"
    and "\<forall>x \<in> set xs. 0 \<le> soValue x \<and> (\<exists>n a. addressDecodeScript L n a = Some (soScript x))"
  shows "\<exists>u. add_outputs L t xs = Inr u \<and> unsigned_tx L u"
  using assms(3,4)
proof (induction xs arbitrary: t)
  case (Cons x xs)
  then have "addOutput L t \<lparr>outScript = Some (soScript x), outAmount = Some (soValue x)\<rparr> \<noteq> None"
    using assms(2) unfolding add_documented_def by simp
  then obtain t1 where t1: "addOutput L t \<lparr>outScript = Some (soScript x), outAmount = Some (soValue x)\<rparr> = Some t1"
    by blast
  from Cons.IH [OF unsigned_output [OF assms(1) t1 Cons.prems(1)]] Cons.prems(2) t1 show ?case by simp
qed simp

lemma acceptable_half_signed:
  assumes "acceptable L args t tx inp commit r outs"
    and "inFinalScriptWitness inp = None \<or> inFinalScriptWitness inp = Some []"
  shows "assertHalfSigned L tx = Inr t" and "unfinalizedCommitInput L tx 0 = Inr inp"
proof -
  have i: "getInput L tx 0 = Some inp" using assms(1) by (simp add: acceptable_def)
  with assms(2) show "unfinalizedCommitInput L tx 0 = Inr inp"
    by (auto simp: unfinalizedCommitInput_def)
  obtain k sig where k: "inTapScriptSig inp = Some [(k, sig)]" "length sig = 65" "sig ! 64 = t"
    using assms(1) by (auto simp: acceptable_def signed_for_def)
  have cs: "commitSignature L tx 0 = Inr (Some sig)"
    using i k(1) assms(2) by (auto simp: commitSignature_def)
  have ty: "t = SIGHASH_SINGLE_ANYONECANPAY \<or> t = SIGHASH_ALL_ANYONECANPAY"
    using assms(1) by (auto simp: acceptable_def revealSighashType_def Let_def split: if_splits)
  have "length outs = (if expects_parent args t then 2 else 1)" "outputsLength L tx = length outs"
    using assms(1) by (auto simp: acceptable_def outputs_are_def dest: expected_outputs_length)
  then have "1 \<le> outputsLength L tx \<and> outputsLength L tx \<le> (if t = SIGHASH_ALL_ANYONECANPAY then 2 else 1)"
    by (auto simp: expects_parent_def)
  with assms(1) i k cs ty show "assertHalfSigned L tx = Inr t"
    unfolding assertHalfSigned_ok by (auto simp: acceptable_def commit_input_for_def)
qed

subsection \<open>The finalized witness\<close>

text \<open>Two inputs, and two transactions, that differ in nothing but final script witnesses.\<close>

definition drop_witness :: "TxInput \<Rightarrow> TxInput" where
  "drop_witness i = i\<lparr>inFinalScriptWitness := None\<rparr>"

definition same_but_witness :: "('tx, 'z) btc_lib_scheme \<Rightarrow> 'tx \<Rightarrow> 'tx \<Rightarrow> bool" where
  "same_but_witness L t u \<longleftrightarrow>
     inputsLength L u = inputsLength L t \<and> outputsLength L u = outputsLength L t \<and> same_frame L t u
   \<and> (\<forall>k. getOutput L u k = getOutput L t k)
   \<and> (\<forall>k. map_option drop_witness (getInput L u k) = map_option drop_witness (getInput L t k))"

lemma drop_witness_eq: "drop_witness j = drop_witness i \<Longrightarrow> \<exists>w. j = i\<lparr>inFinalScriptWitness := w\<rparr>"
  by (cases i; cases j) (simp add: drop_witness_def)

lemma verify_outputs_witness:
  assumes "same_but_witness L tx tx'"
  shows "verify_outputs L args t e tx' (inp\<lparr>inFinalScriptWitness := w\<rparr>) commit = verify_outputs L args t e tx inp commit"
  using assms
  by (intro ext) (simp add: same_but_witness_def verify_outputs_def Let_def verify_child_def verify_parent_return_def verify_signature_def)

lemma verify_leaf_witness: "verify_leaf L (inp\<lparr>inFinalScriptWitness := w\<rparr>) commit t k = verify_leaf L inp commit t k"
  by (cases inp) (simp only: verify_leaf_def TxInput.update_convs TxInput.select_convs)

lemma verify_tx_witness:
  assumes "same_but_witness L tx tx'"
  shows "verify_tx L args t e tx' = verify_tx L args t e tx"
proof (cases "getInput L tx 0")
  case None
  with assms have "getInput L tx' 0 = None" by (metis same_but_witness_def option.map_disc_iff)
  with None assms show ?thesis by (simp add: verify_tx_def Let_def same_but_witness_def same_frame_def)
next
  case (Some inp)
  with assms obtain j where j: "getInput L tx' 0 = Some j" "drop_witness j = drop_witness inp"
    unfolding same_but_witness_def by (metis map_option_eq_Some option.simps(9))
  from drop_witness_eq [OF j(2)] obtain w where w: "j = inp\<lparr>inFinalScriptWitness := w\<rparr>" by blast
  show ?thesis
    using assms Some j(1) unfolding w
    by (simp add: verify_tx_def Let_def inputTxid_def same_but_witness_def [of L tx tx'] same_frame_def
        verify_leaf_witness verify_outputs_witness [OF assms] cong: if_cong option.case_cong)
qed

lemma verify_tx_psbt: "verify_tx L (args\<lparr>vaPsbt := p\<rparr>) t e tx = verify_tx L args t e tx"
  by (cases args) (simp only: verify_tx_def verify_outputs_def verify_signature_def sighash_args_of_def
      VerifyArgs.update_convs VerifyArgs.select_convs)

subsection \<open>Properties\<close>

text \<open>
  C4: the service accepts a half-signed reveal exactly when it is what the order expects. The
  verifier returns \<open>Verified\<close> if and only if the PSBT decodes to one input spending the expected
  outpoint, value and commit script of this content and key, with the expected sequence, leaf and
  control block, exactly the expected outputs, and a 65-byte signature of the expected hash type
  that verifies over the digest recomputed from the expected values alone.
\<close>

theorem verifyHalfSignedReveal_iff:
  "verifyHalfSignedReveal L args = Verified \<longleftrightarrow>
     (\<exists>t tx inp commit r outs. acceptable L args t tx inp commit r outs)"
  unfolding verify_body_Verified [symmetric]
  by (cases "verify_body L args") (simp_all add: verifyHalfSignedReveal_def)

text \<open>
  C5: attaching the parent places the child's sat. When \<open>attachParent\<close> returns, the result spends the
  parent outpoint (its transaction and its index) first and the unchanged commit input second; output 0 pays the parent return
  address exactly the value of the parent input, so the child output starts at the first sat of the
  commit input; for 0x81 the outputs are exactly the signed ones, for 0x83 the signed child
  follows the inserted return output.
\<close>

theorem attachParent_places_child:
  assumes "tx_documented L" and "hex_documented L" and "attachParent L args = Inr p"
  shows "\<exists>half type tx outs. decodePsbt L (atHalfSigned args) = Inr half \<and> assertHalfSigned L half = Inr type
    \<and> p = encodePsbt L tx \<and> attached L args half type tx outs"
proof -
  obtain half type commitIn in0 s outs tx0 ptxid tx1 tx where
    h: "decodePsbt L (atHalfSigned args) = Inr half" "assertHalfSigned L half = Inr type"
       "unfinalizedCommitInput L half 0 = Inr commitIn"
    and s: "addressToScript L (atParentReturnAddress args) (atNetwork args) = Inr s"
       "attach_outputs L half type s (atParentValue args) = Inr outs"
    and t: "add_outputs L (new_tx L) outs = Inr tx0"
       "addInput L tx0 (empty_input\<lparr>inTxid := Some ptxid,
         inIndex := Some (opVout (atParentOutpoint args)), inSequence := Some REVEAL_SEQUENCE,
         inWitnessUtxo := Some (atParentScript args, atParentValue args)\<rparr>) = Some tx1"
       "addInput L tx1 commitIn = Some tx" "p = encodePsbt L tx"
    and o: "checkOutpoint (atParentOutpoint args) = Inr ()" "txid_bytes L (opTxid (atParentOutpoint args)) = Inr ptxid"
    using assms(3) by (auto simp: attachParent_def ebind_eq_Inr split: if_splits)
  have "hexEncode L ptxid = lower_string (opTxid (atParentOutpoint args))"
    using txid_bytes_ok [OF assms(2) o(1)] o(2) by simp
  with attached_tx [OF assms(1) t(1-3)] attach_outputs_ok [OF s(2) h(2)] h s(1)
  have "attached L args half type tx outs" by (simp add: attached_def)
  with h t(4) show ?thesis by blast
qed

text \<open>
  C6: a verified reveal can be attached. After the service has verified a reveal with a parent return
  (0x81) and the input carries no finalized witness, \<open>attachParent\<close> with the same network, return
  address and value, a P2TR parent script and a parent outpoint other than the commit outpoint
  returns a PSBT; none of its checks can fail. Of the library this uses that a transaction without signatures takes
  further inputs and outputs: \<open>attachParent\<close> adds both outputs and the unsigned parent input before the signed one.
\<close>

theorem verified_attach_succeeds:
  assumes "hex_documented L" and "tx_documented L" and "add_documented L"
    and "acceptable L va t tx inp commit r outs" and "expects_parent va t"
    and "inFinalScriptWitness inp = None"
    and "atHalfSigned aa = vaPsbt va" and "atNetwork aa = vaNetwork va"
    and "vaParentReturnAddress va = Some (atParentReturnAddress aa)"
    and "vaParentValue va = Some (atParentValue aa)"
    and "checkOutpoint (atParentOutpoint aa) = Inr ()" and "isP2TR (atParentScript aa)"
    and "lower_string (opTxid (vaCommitOutpoint va)) \<noteq> lower_string (opTxid (atParentOutpoint aa))
         \<or> opVout (vaCommitOutpoint va) \<noteq> opVout (atParentOutpoint aa)"
  shows "\<exists>p. attachParent L aa = Inr p"
proof -
  note ac = assms(4) [unfolded acceptable_def]
  have v: "atParentValue aa > 0" "DUST_P2TR \<le> vaPostage va" using ac assms(5,10) by auto
  have dec: "decodePsbt L (atHalfSigned aa) = Inr tx" using ac assms(7) by simp
  have half: "assertHalfSigned L tx = Inr t" "unfinalizedCommitInput L tx 0 = Inr inp"
    using acceptable_half_signed [OF assms(4)] assms(6) by simp_all
  have i: "getInput L tx 0 = Some inp" using ac by simp
  have tid: "inputTxid L tx 0 = Inr (lower_string (opTxid (vaCommitOutpoint va)))"
      "inIndex inp = Some (opVout (vaCommitOutpoint va))"
    using ac by (simp_all add: inputTxid_eq_Inr commit_input_for_def)
  obtain p where p: "addressToScript L (atParentReturnAddress aa) (atNetwork aa) = Inr p"
      "outs = [\<lparr>soScript = p, soValue = atParentValue aa\<rparr>, \<lparr>soScript = r, soValue = vaPostage va\<rparr>]"
    using ac assms(5,8,9,10) by (auto simp: expected_outputs_def Let_def ebind_eq_Inr)
  have ty: "t = SIGHASH_ALL_ANYONECANPAY" "t \<noteq> SIGHASH_SINGLE_ANYONECANPAY"
    using assms(5) by (auto simp: expects_parent_def sighash_defs)
  have ao: "attach_outputs L tx t p (atParentValue aa) = Inr outs"
    using outputs_are_outputsOf [of L tx outs] ac p(2) ty by (simp add: attach_outputs_def)
  have "\<forall>x \<in> set outs. 0 \<le> soValue x \<and> (\<exists>n a. addressDecodeScript L n a = Some (soScript x))"
    using p ac v by (auto simp: addressToScript_def DUST_P2TR_def)
  with add_outputs_unsigned [OF assms(2,3) unsigned_new [OF assms(2)]]
  obtain tx0 where t0: "add_outputs L (new_tx L) outs = Inr tx0" "unsigned_tx L tx0" by blast
  note pt = txid_bytes_ok [OF assms(1,11)]
  have ne: "\<not> (lower_string (opTxid (vaCommitOutpoint va)) = lower_string (opTxid (atParentOutpoint aa))
      \<and> inIndex inp = Some (opVout (atParentOutpoint aa)))"
    using assms(13) tid(2) by auto
  define i0 where "i0 = empty_input\<lparr>inTxid := Some (unhex (opTxid (atParentOutpoint aa))),
    inIndex := Some (opVout (atParentOutpoint aa)),
    inSequence := Some REVEAL_SEQUENCE, inWitnessUtxo := Some (atParentScript aa, atParentValue aa)\<rparr>"
  have "opVout (atParentOutpoint aa) \<le> 0xffffffff" using assms(11) by (auto simp: checkOutpoint_def split: if_splits)
  with pt(3) v(1) have "plain_input i0" unfolding plain_input_def i0_def by (intro exI conjI) (auto simp: less_imp_le)
  then obtain tx1 where t1: "addInput L tx0 i0 = Some tx1" using assms(3) t0(2) unfolding add_documented_def by blast
  have "unsigned_tx L tx1"
    by (rule unsigned_input [OF assms(2) t1 t0(2)]) (simp add: i0_def empty_input_def input_signed_def)
  with i obtain tx2 where t2: "addInput L tx1 inp = Some tx2" using assms(3) unfolding add_documented_def by blast
  show ?thesis
    using assms(11,12) v(1) ne
    by (simp add: attachParent_def dec half i tid(1) p(1) ao t0(1) pt(1) i0_def [symmetric] t1 t2)
qed

text \<open>
  C7: the verdict does not depend on the finalized witness. Two PSBTs that decode to transactions equal up to the final
  script witnesses of their inputs get the same verdict, reason included. Yet the signature that \<open>attachParent\<close> and the
  finalizer take from a transaction with a three-item final witness is the first item of that witness, whatever was
  verified.
\<close>

theorem verify_ignores_final_witness:
  assumes "decodePsbt L (vaPsbt args) = Inr tx" and "decodePsbt L psbt = Inr tx'" and "same_but_witness L tx tx'"
  shows "verifyHalfSignedReveal L (args\<lparr>vaPsbt := psbt\<rparr>) = verifyHalfSignedReveal L args
    \<and> (\<forall>inp w l cb. getInput L tx' 0 = Some inp \<and> inFinalScriptWitness inp = Some [w, l, cb]
        \<longrightarrow> commitSignature L tx' 0 = Inr (Some w))"
proof
  have "verify_body L (args\<lparr>vaPsbt := psbt\<rparr>) = verify_body L args"
    using assms(1,2) verify_tx_witness [OF assms(3)]
    by (simp add: verify_body_def Let_def verify_tx_psbt cong: if_cong option.case_cong sum.case_cong)
  then show "verifyHalfSignedReveal L (args\<lparr>vaPsbt := psbt\<rparr>) = verifyHalfSignedReveal L args"
    by (simp add: verifyHalfSignedReveal_def)
qed (simp add: commitSignature_def)

subsection \<open>A concrete library and order\<close>

record ConcTx =
  cxVersion :: int
  cxLock :: nat
  cxIns :: "TxInput list"
  cxOuts :: "TxOutput list"

text \<open>
  The transaction of the PSBT \<open>cA==\<close> is the parameter; \<open>cQ==\<close> is the same with a final witness on every
  input. As in the library, no output is added once an input is signed.
\<close>

definition with_witness :: "ConcTx \<Rightarrow> ConcTx" where
  "with_witness T = T\<lparr>cxIns := map (\<lambda>i. i\<lparr>inFinalScriptWitness := Some [[1], [2], [3]]\<rparr>) (cxIns T)\<rparr>"

definition conc_lib :: "ConcTx \<Rightarrow> ConcTx btc_lib" where
  "conc_lib T = \<lparr>hexEncode = hex_string, hexDecode = (\<lambda>s. Some (unhex s)), sha256 = (\<lambda>bs. replicate 32 0),
     base64Decode = (\<lambda>s. Some [if s = ''cQ=='' then 2 else 1]), base64Encode = (\<lambda>b. ''cA==''),
     newTransaction = (\<lambda>v l a. \<lparr>cxVersion = v, cxLock = l, cxIns = [], cxOuts = []\<rparr>),
     fromPSBT = (\<lambda>b. Some (if b = [2] then with_witness T else T)), toPSBT = (\<lambda>t. [1]),
     inputsLength = (\<lambda>t. length (cxIns t)), outputsLength = (\<lambda>t. length (cxOuts t)),
     txVersion = cxVersion, txLockTime = cxLock,
     getInput = (\<lambda>t k. if k < length (cxIns t) then Some (cxIns t ! k) else None),
     getOutput = (\<lambda>t k. if k < length (cxOuts t) then Some (cxOuts t ! k) else None),
     addInput = (\<lambda>t i. Some (t\<lparr>cxIns := cxIns t @ [i]\<rparr>)),
     addOutput = (\<lambda>t x. if list_ex input_signed (cxIns t) then None else Some (t\<lparr>cxOuts := cxOuts t @ [x]\<rparr>)),
     updateInput = (\<lambda>t k i b. Some t), signIdx = (\<lambda>t k i h. Some t),
     finalizeTx = Some, finalizeIdx = (\<lambda>t i. Some t), toBytes = (\<lambda>t a b. Some [2]), txId = (\<lambda>t. ''00''),
     preimageWitnessV1 = (\<lambda>t i s h a l v. Some [3]), tapLeafHash = (\<lambda>s v. replicate 32 6),
     unspendableKey = replicate 32 5, taprootTweakPubkey = (\<lambda>k h. Some (replicate 32 4, 0)),
     encodeTr = (\<lambda>k. 0x51 # 0x20 # k), addressEncodeTr = (\<lambda>n k. ''bc1p''),
     addressDecodeScript = (\<lambda>n a. Some (0x51 # 0x20 # replicate 32 (if a = ''R'' then 8 else 9))),
     mainNetwork = REGTEST, testNetwork = REGTEST,
     getPublicKey = (\<lambda>k. Some (replicate 32 1)), schnorrVerify = (\<lambda>s d k. True),
     p2trScript = (\<lambda>k. Some (0x51 # 0x20 # k))\<rparr>"

lemma conc_lib_documented: "hex_documented (conc_lib T)" "tx_documented (conc_lib T)"
  by (auto simp: conc_lib_def hex_documented_def tx_documented_def same_frame_def nth_append split: if_splits)

lemma conc_add_documented: "add_documented (conc_lib T)"
  by (auto simp: conc_lib_def add_documented_def unsigned_tx_def list_ex_iff in_set_conv_nth split: if_splits)

lemma conc_lib_simps:
  "base64Decode (conc_lib T) s = Some [if s = ''cQ=='' then 2 else 1]" "base64Encode (conc_lib T) b = ''cA==''"
  "fromPSBT (conc_lib T) b = Some (if b = [2] then with_witness T else T)"
  "hexDecode (conc_lib T) s = Some (unhex s)"
  "newTransaction (conc_lib T) v l u = \<lparr>cxVersion = v, cxLock = l, cxIns = [], cxOuts = []\<rparr>"
  "getInput (conc_lib T) t k = (if k < length (cxIns t) then Some (cxIns t ! k) else None)"
  "addInput (conc_lib T) t i = Some (t\<lparr>cxIns := cxIns t @ [i]\<rparr>)"
  "addOutput (conc_lib T) t x = (if list_ex input_signed (cxIns t) then None else Some (t\<lparr>cxOuts := cxOuts t @ [x]\<rparr>))"
  "addressDecodeScript (conc_lib T) n a = Some (0x51 # 0x20 # replicate 32 (if a = ''R'' then 8 else 9))"
  by (simp_all add: conc_lib_def)

definition simple_leaf :: bytes where
  "simple_leaf = envelope_bytes (replicate 32 1)
     \<lparr>pContentType = [116], pParent = None, pMetadata = None, pBody = [7, 8]\<rparr>"

definition conc_commit :: CommitInfo where
  "conc_commit = \<lparr>ciAddress = ''bc1p'', ciScript = 0x51 # 0x20 # replicate 32 4, ciLeafScript = simple_leaf,
     ciControlBlock = 0xc0 # replicate 32 5, ciTapLeafHash = replicate 32 6\<rparr>"

definition conc_outs :: "SighashOutput list" where
  "conc_outs = [\<lparr>soScript = 0x51 # 0x20 # replicate 32 9, soValue = 10000\<rparr>,
     \<lparr>soScript = 0x51 # 0x20 # replicate 32 8, soValue = 546\<rparr>]"

definition conc_input :: "bytes list option \<Rightarrow> TxInput" where
  "conc_input w = \<lparr>inTxid = Some (unhex (replicate 64 CHR ''a'')), inIndex = Some 0, inSequence = Some REVEAL_SEQUENCE,
     inWitnessUtxo = Some (0x51 # 0x20 # replicate 32 4, 2000), inTapInternalKey = Some (replicate 32 5),
     inTapMerkleRoot = None,
     inTapLeafScript = Some [(\<lparr>cbVersion = 0xc0, cbInternalKey = replicate 32 5, cbMerklePath = []\<rparr>, simple_leaf @ [0xc0])],
     inSighashType = Some 0x81,
     inTapScriptSig = Some [(\<lparr>lkPubKey = replicate 32 1, lkLeafHash = replicate 32 6\<rparr>, replicate 64 3 @ [0x81])],
     inTapKeySig = None, inFinalScriptWitness = w\<rparr>"

definition conc_tx :: "bytes list option \<Rightarrow> ConcTx" where
  "conc_tx w = \<lparr>cxVersion = 2, cxLock = 0, cxIns = [conc_input w],
     cxOuts = map (\<lambda>x. \<lparr>outScript = Some (soScript x), outAmount = Some (soValue x)\<rparr>) conc_outs\<rparr>"

definition conc_args :: VerifyArgs where
  "conc_args = \<lparr>vaNetwork = Signet, vaPsbt = ''cA=='', vaRevealPubkey = replicate 32 1, vaContent = simple_content,
     vaCommitOutpoint = \<lparr>opTxid = replicate 64 CHR ''a'', opVout = 0\<rparr>, vaCommitValue = 2000,
     vaRecipientAddress = ''R'', vaPostage = 546, vaSighash = None, vaParentReturnAddress = Some ''P'',
     vaParentValue = Some 10000\<rparr>"

definition conc_attach :: AttachArgs where
  "conc_attach = \<lparr>atNetwork = Signet, atHalfSigned = ''cA=='',
     atParentOutpoint = \<lparr>opTxid = replicate 64 CHR ''b'', opVout = 1\<rparr>, atParentValue = 10000,
     atParentScript = 0x51 # 0x20 # replicate 32 2, atParentReturnAddress = ''P''\<rparr>"

lemma conc_txids:
  "is_txid (replicate 64 CHR ''a'')" "is_txid (replicate 64 CHR ''b'')"
  "lower_string (replicate 64 CHR ''a'') = replicate 64 CHR ''a''"
  "lower_string (replicate 64 CHR ''b'') = replicate 64 CHR ''b''"
  "(replicate 64 CHR ''a'' :: string) \<noteq> replicate 64 CHR ''b''"
  by code_simp+

lemma conc_commitAddress:
  "commitAddress (conc_lib T) (replicate 32 1) simple_content Signet = Inr conc_commit"
  by (simp add: commitAddress_def assertBytes_def simple_script commitFromLeaf_def conc_commit_def
      conc_lib_def NUMS_INTERNAL_KEY_def simple_leaf_def TAPSCRIPT_LEAF_VERSION_def u8_def)

lemma conc_digest:
  "\<exists>d. revealCommitSighash (conc_lib T) (sighash_args_of conc_args conc_commit 0x81 r conc_outs) = Inr d"
proof -
  have "is_ok (sighash_message (conc_lib T) (sighash_args_of conc_args conc_commit 0x81 r conc_outs))"
    using txidToInternal_ok [OF conc_lib_documented(1) conc_txids(1)]
    by (simp add: sighash_message_def sighash_args_of_def conc_args_def conc_commit_def args_type_def
        sighash_defs Let_def u64le_def compactSize_def MAX_SAFE_INTEGER_def conc_outs_def serializeOutput_def)
  then show ?thesis by (auto simp: revealCommitSighash_def is_ok_iff)
qed

lemma conc_acceptable:
  "acceptable (conc_lib (conc_tx w)) conc_args 0x81 (conc_tx w) (conc_input w) conc_commit
     (0x51 # 0x20 # replicate 32 8) conc_outs"
proof -
  let ?L = "conc_lib (conc_tx w)"
  have e: "expects_parent conc_args 0x81"
    by (simp add: expects_parent_def conc_args_def sighash_defs)
  have a: "addressToScript ?L ''R'' Signet = Inr (0x51 # 0x20 # replicate 32 8)"
      "addressToScript ?L ''P'' Signet = Inr (0x51 # 0x20 # replicate 32 9)"
    by (simp_all add: addressToScript_def conc_lib_def)
  have x: "expected_outputs ?L conc_args 0x81 = Inr conc_outs"
    using a e by (simp add: expected_outputs_def conc_args_def conc_outs_def)
  have h: "hexEncode ?L (unhex (replicate 64 CHR ''a'')) = replicate 64 CHR ''a''"
    using hex_string_unhex [of "replicate 64 CHR ''a''"] conc_txids by (simp add: conc_lib_def is_txid_def)
  have c: "commit_input_for ?L conc_args (conc_input w) conc_commit 0x81"
    using h conc_txids
    by (simp add: commit_input_for_def conc_input_def conc_args_def conc_commit_def TAPSCRIPT_LEAF_VERSION_def
        NUMS_INTERNAL_KEY_def) (simp add: conc_lib_def)
  have s: "signed_for ?L conc_args (conc_input w) conc_commit 0x81 r conc_outs" for r
    using conc_digest [of "conc_tx w" r]
    by (auto simp: signed_for_def conc_input_def conc_args_def conc_commit_def nth_append conc_lib_def)
  show ?thesis
    unfolding acceptable_def
    using e a x c s conc_commitAddress [of "conc_tx w"]
    by (simp add: conc_args_def DUST_P2TR_def decodePsbt_def outputs_are_def revealSighashType_def
        DEFAULT_REVEAL_SIGHASH_MODE_def sighash_defs)
       (simp add: conc_lib_def conc_tx_def REVEAL_TX_VERSION_def REVEAL_LOCKTIME_def)
qed

lemma conc_attach_ok: "attachParent (conc_lib (conc_tx None)) conc_attach = Inr ''cA==''"
proof -
  let ?L = "conc_lib (conc_tx None)"
  note half = acceptable_half_signed [OF conc_acceptable [of None]]
  have h: "assertHalfSigned ?L (conc_tx None) = Inr 0x81" "unfinalizedCommitInput ?L (conc_tx None) 0 = Inr (conc_input None)"
    using half by (simp_all add: conc_input_def)
  have o: "outputsOf ?L (conc_tx None) = Inr conc_outs"
    by (rule outputs_are_outputsOf) (use conc_acceptable [of None] in \<open>simp add: acceptable_def\<close>)
  have t: "inputTxid ?L (conc_tx None) 0 = Inr (replicate 64 CHR ''a'')"
    using conc_acceptable [of None] conc_txids unfolding acceptable_def
    by (auto simp: inputTxid_eq_Inr commit_input_for_def conc_args_def)
  have n: "replicate 64 CHR ''a'' \<noteq> lower_string (replicate 64 CHR ''b'')" using conc_txids by metis
  show ?thesis
    using h o t n conc_txids
    by (simp add: attachParent_def conc_attach_def checkOutpoint_def isP2TR_def decodePsbt_def attach_outputs_def
        sighash_defs addressToScript_def conc_outs_def txid_bytes_def new_tx_def encodePsbt_def conc_lib_simps
        conc_tx_def)
qed

theorem attachParent_places_child_witness:
  "\<exists>half type tx outs. decodePsbt (conc_lib (conc_tx None)) ''cA=='' = Inr half
    \<and> attached (conc_lib (conc_tx None)) conc_attach half type tx outs"
  using attachParent_places_child [OF conc_lib_documented(2,1) conc_attach_ok]
  by (auto simp: conc_attach_def)

theorem verified_attach_succeeds_witness:
  "\<exists>p. attachParent (conc_lib (conc_tx None)) conc_attach = Inr p"
  by (rule verified_attach_succeeds [OF conc_lib_documented(1,2) conc_add_documented conc_acceptable])
     (use conc_txids in \<open>simp_all add: expects_parent_def conc_args_def sighash_defs conc_input_def conc_attach_def
        checkOutpoint_def isP2TR_def\<close>)

lemma conc_same_but_witness: "same_but_witness (conc_lib T) T (with_witness T)"
  by (simp add: same_but_witness_def same_frame_def conc_lib_def with_witness_def drop_witness_def)

theorem verify_ignores_final_witness_witness:
  "verifyHalfSignedReveal (conc_lib (conc_tx None)) (conc_args\<lparr>vaPsbt := ''cQ==''\<rparr>) = Verified
     \<and> commitSignature (conc_lib (conc_tx None)) (with_witness (conc_tx None)) 0 = Inr (Some [1])"
proof -
  let ?L = "conc_lib (conc_tx None)"
  have d: "decodePsbt ?L (vaPsbt conc_args) = Inr (conc_tx None)" "decodePsbt ?L ''cQ=='' = Inr (with_witness (conc_tx None))"
    by (simp_all add: decodePsbt_def conc_lib_simps conc_args_def)
  have "verify_body ?L conc_args = Inr Verified"
    using conc_acceptable [of None] verify_body_Verified by blast
  then have "verifyHalfSignedReveal ?L conc_args = Verified" by (simp add: verifyHalfSignedReveal_def)
  moreover have "getInput ?L (with_witness (conc_tx None)) 0 = Some (conc_input (Some [[1], [2], [3]]))"
    by (simp add: conc_lib_simps with_witness_def conc_tx_def conc_input_def)
  ultimately show ?thesis
    using verify_ignores_final_witness [OF d conc_same_but_witness] by (simp add: conc_input_def)
qed

end
