(* ===== verification/Wallet.thy ===== *)
theory Wallet imports Verify begin

text \<open>
  \<open>wallet.ts\<close> of \<open>platform/inscription/src\<close>: reveals signed by the user's wallet. The wallet's
  answer comes back finalized or not; \<open>extractLeafSignature\<close> (theory \<open>Psbt\<close>) normalises it.
\<close>

datatype WalletRevealSighash = WDefault | WAll | WAllAnyonecanpay

primrec walletRevealSighashType :: "WalletRevealSighash \<Rightarrow> byte" where
  "walletRevealSighashType WDefault = SIGHASH_DEFAULT"
| "walletRevealSighashType WAll = SIGHASH_ALL"
| "walletRevealSighashType WAllAnyonecanpay = SIGHASH_ALL_ANYONECANPAY"

definition checkAmounts :: "int \<Rightarrow> int \<Rightarrow> insc_error + unit" where
  "checkAmounts postage commitValue =
     (if postage < DUST_P2TR then Inl (Error ''postage must be a bigint >= dust'')
      else if commitValue \<le> postage
      then Inl (Error ''commitValue must exceed postage (fee = commitValue - postage)'') else Inr ())"

definition addCommitInput ::
  "('tx, 'z) btc_lib_scheme \<Rightarrow> 'tx \<Rightarrow> CommitInfo \<Rightarrow> Outpoint \<Rightarrow> int \<Rightarrow> byte \<Rightarrow> insc_error + 'tx" where
  "addCommitInput L tx commit commitOutpoint commitValue sighashType =
     ebind (txid_bytes L (opTxid commitOutpoint)) (\<lambda>txid.
     lib_call (addInput L tx (empty_input\<lparr>inTxid := Some txid, inIndex := Some (opVout commitOutpoint),
       inSequence := Some REVEAL_SEQUENCE, inWitnessUtxo := Some (ciScript commit, commitValue),
       inTapInternalKey := Some (NUMS_INTERNAL_KEY L), inTapMerkleRoot := Some (ciTapLeafHash commit),
       inTapLeafScript := Some [(controlBlockStruct (ciControlBlock commit), ciLeafScript commit @ [TAPSCRIPT_LEAF_VERSION])],
       inSighashType := (if sighashType = SIGHASH_DEFAULT then None else Some sighashType)\<rparr>)))"

record UnsignedRevealArgs =
  urNetwork :: Network
  urLeafPubkey :: bytes
  urContent :: InscriptionContent
  urCommitOutpoint :: Outpoint
  urCommitValue :: int
  urRecipientAddress :: string
  urPostage :: int
  urWithParent :: "bool option"
  urParentReturnAddress :: "string option"
  urParentValue :: "int option"
  urSighash :: "WalletRevealSighash option"

record UnsignedReveal =
  uvPsbt :: string
  uvInputIndex :: nat
  uvLeafScript :: bytes
  uvControlBlock :: bytes
  uvTapLeafHash :: bytes
  uvCommitAddress :: string
  uvSighashType :: byte

definition buildUnsignedRevealPsbt ::
  "('tx, 'z) btc_lib_scheme \<Rightarrow> UnsignedRevealArgs \<Rightarrow> insc_error + UnsignedReveal" where
  "buildUnsignedRevealPsbt L args =
     ebind (assertBytes (urLeafPubkey args) 32 ''leafPubkey'') (\<lambda>_.
     ebind (checkOutpoint (urCommitOutpoint args)) (\<lambda>_.
     ebind (checkAmounts (urPostage args) (urCommitValue args)) (\<lambda>_.
     let withParent = (case urWithParent args of Some b \<Rightarrow> b | None \<Rightarrow> parentId (urContent args) \<noteq> None);
         sighash = (case urSighash args of Some s \<Rightarrow> s | None \<Rightarrow> (if withParent then WAllAnyonecanpay else WDefault)) in
     if withParent \<and> sighash \<noteq> WAllAnyonecanpay
     then Inl (Error ''sighash cannot take a parent: use all_anyonecanpay'')
     else let sighashType = walletRevealSighashType sighash in
     ebind (commitAddress L (urLeafPubkey args) (urContent args) (urNetwork args)) (\<lambda>commit.
     ebind (addressToScript L (urRecipientAddress args) (urNetwork args)) (\<lambda>recipientScript.
     let child = \<lparr>soScript = recipientScript, soValue = urPostage args\<rparr> in
     ebind (if withParent then
              (case urParentReturnAddress args of
                 None \<Rightarrow> Inl (Error ''parentReturnAddress is required with a parent'')
               | Some a \<Rightarrow>
                   (case urParentValue args of
                      None \<Rightarrow> Inl (Error ''parentValue must be a positive bigint with a parent'')
                    | Some v \<Rightarrow>
                        if v \<le> 0 then Inl (Error ''parentValue must be a positive bigint with a parent'')
                        else ebind (addressToScript L a (urNetwork args)) (\<lambda>s.
                          Inr [\<lparr>soScript = s, soValue = v\<rparr>, child])))
            else Inr [child]) (\<lambda>outs.
     ebind (add_outputs L (new_tx L) outs) (\<lambda>tx0.
     ebind (addCommitInput L tx0 commit (urCommitOutpoint args) (urCommitValue args) sighashType) (\<lambda>tx.
     Inr \<lparr>uvPsbt = encodePsbt L tx, uvInputIndex = 0, uvLeafScript = ciLeafScript commit,
          uvControlBlock = ciControlBlock commit, uvTapLeafHash = ciTapLeafHash commit,
          uvCommitAddress = ciAddress commit, uvSighashType = sighashType\<rparr>))))))))"

record UnsignedRescueArgs =
  usNetwork :: Network
  usLeafPubkey :: bytes
  usContent :: InscriptionContent
  usCommitOutpoint :: Outpoint
  usCommitValue :: int
  usRecipientAddress :: string
  usPostage :: int
  usFeeRate :: "js_number option"
  usSighash :: "WalletRevealSighash option"

record UnsignedRescue =
  uqPsbt :: string
  uqInputIndex :: nat
  uqCommitAddress :: string
  uqFee :: int
  uqSighashType :: byte

definition buildUnsignedRescuePsbt ::
  "('tx, 'z) btc_lib_scheme \<Rightarrow> UnsignedRescueArgs \<Rightarrow> insc_error + UnsignedRescue" where
  "buildUnsignedRescuePsbt L args =
     ebind (assertBytes (usLeafPubkey args) 32 ''leafPubkey'') (\<lambda>_.
     ebind (checkOutpoint (usCommitOutpoint args)) (\<lambda>_.
     ebind (checkAmounts (usPostage args) (usCommitValue args)) (\<lambda>_.
     let sighash = (case usSighash args of Some s \<Rightarrow> s | None \<Rightarrow> WDefault) in
     if sighash \<noteq> WDefault \<and> sighash \<noteq> WAll then Inl (Error ''rescue sighash must be default or all'')
     else let sighashType = walletRevealSighashType sighash in
     ebind (commitAddress L (usLeafPubkey args) (usContent args) (usNetwork args)) (\<lambda>commit.
     ebind (addressToScript L (usRecipientAddress args) (usNetwork args)) (\<lambda>recipientScript.
     let fee = usCommitValue args - usPostage args in
     ebind (case usFeeRate args of
              None \<Rightarrow> Inr ()
            | Some rate \<Rightarrow>
                ebind (estimateRevealWeight \<lparr>wContent = usContent args, wWithParent = False,
                    wRecipientScript = recipientScript, wParentReturnScript = None, wParentInputScript = None,
                    wCommitSighash = Some (if sighash = WDefault then SizeDefault else SizeAll)\<rparr>) (\<lambda>weight.
                ebind (quoteReveal (int weight) rate 0) (\<lambda>q.
                if fee < qRevealFee q then Inl (Error ''commit does not fund the fee'') else Inr ()))) (\<lambda>_.
     ebind (lib_call (addOutput L (new_tx L) \<lparr>outScript = Some recipientScript, outAmount = Some (usPostage args)\<rparr>)) (\<lambda>tx0.
     ebind (addCommitInput L tx0 commit (usCommitOutpoint args) (usCommitValue args) sighashType) (\<lambda>tx.
     Inr \<lparr>uqPsbt = encodePsbt L tx, uqInputIndex = 0, uqCommitAddress = ciAddress commit, uqFee = fee,
          uqSighashType = sighashType\<rparr>))))))))"

subsection \<open>Finalizing a wallet's answer\<close>

definition prevout_of :: "('tx, 'z) btc_lib_scheme \<Rightarrow> 'tx \<Rightarrow> nat \<Rightarrow> insc_error + (bytes \<times> int)" where
  "prevout_of L tx i =
     ebind (lib_call (getInput L tx i)) (\<lambda>inp.
       case inWitnessUtxo inp of None \<Rightarrow> Inl (Error ''input has no witnessUtxo'') | Some p \<Rightarrow> Inr p)"

definition assertLeafSignatureValid ::
  "('tx, 'z) btc_lib_scheme \<Rightarrow> 'tx \<Rightarrow> nat \<Rightarrow> LeafSignature \<Rightarrow> insc_error + unit" where
  "assertLeafSignatureValid L tx idx ls =
     ebind (emapM (prevout_of L tx) [0..<inputsLength L tx]) (\<lambda>prevs.
     ebind (lib_call (preimageWitnessV1 L tx idx (map fst prevs) (lsSighashType ls) (map snd prevs)
              (lsLeafScript ls) TAPSCRIPT_LEAF_VERSION)) (\<lambda>digest.
     if \<not> schnorrVerify L (take 64 (lsSig ls)) digest (lsPubKey ls)
     then Inl (Error ''signature does not verify for leaf key'') else Inr ()))"

text \<open>One round of the loop over the inputs.\<close>

definition finalize_wallet_input :: "('tx, 'z) btc_lib_scheme \<Rightarrow> 'tx \<Rightarrow> nat \<Rightarrow> insc_error + 'tx" where
  "finalize_wallet_input L tx idx =
     ebind (lib_call (getInput L tx idx)) (\<lambda>input.
     if inFinalScriptWitness input \<noteq> None \<and> inFinalScriptWitness input \<noteq> Some [] then
       (if length (the (inFinalScriptWitness input)) = 1 then Inr tx
        else ebind (extractLeafSignature L tx idx None) (\<lambda>ls.
          ebind (assertLeafSignatureValid L tx idx ls) (\<lambda>_. Inr tx)))
     else if inTapLeafScript input \<noteq> None \<and> inTapLeafScript input \<noteq> Some [] then
       ebind (extractLeafSignature L tx idx None) (\<lambda>ls.
       ebind (assertLeafSignatureValid L tx idx ls) (\<lambda>_.
       lib_call (updateInput L tx idx
         (empty_input\<lparr>inFinalScriptWitness := Some [lsSig ls, lsLeafScript ls, lsControlBlock ls]\<rparr>) True)))
     else if inTapKeySig input \<noteq> None then lib_call (finalizeIdx L tx idx)
     else Inl (Error ''input is unsigned''))"

text \<open>The loop: \<open>n\<close> rounds from \<open>idx\<close> on.\<close>

primrec finalize_wallet_inputs :: "('tx, 'z) btc_lib_scheme \<Rightarrow> nat \<Rightarrow> nat \<Rightarrow> 'tx \<Rightarrow> insc_error + 'tx" where
  "finalize_wallet_inputs L 0 idx tx = Inr tx"
| "finalize_wallet_inputs L (Suc n) idx tx =
     ebind (finalize_wallet_input L tx idx) (\<lambda>tx'. finalize_wallet_inputs L n (Suc idx) tx')"

definition finalizeWalletSignedReveal :: "('tx, 'z) btc_lib_scheme \<Rightarrow> string \<Rightarrow> insc_error + RawFacts" where
  "finalizeWalletSignedReveal L psbtBase64 =
     ebind (decodePsbt L psbtBase64) (\<lambda>tx.
     if inputsLength L tx < 1 then Inl (Error ''reveal has no inputs'')
     else if txVersion L tx \<noteq> REVEAL_TX_VERSION \<or> txLockTime L tx \<noteq> REVEAL_LOCKTIME
     then Inl (Error ''reveal must have nVersion=2 and nLockTime=0'')
     else ebind (finalize_wallet_inputs L (inputsLength L tx) 0 tx) (\<lambda>tx'. rawFacts L tx'))"

subsection \<open>Verifying a wallet's answer\<close>

record WalletVerifyArgs =
  wvNetwork :: Network
  wvPsbt :: string
  wvLeafPubkey :: bytes
  wvContent :: InscriptionContent
  wvCommitOutpoint :: Outpoint
  wvCommitValue :: int
  wvRecipientAddress :: string
  wvPostage :: int
  wvParentReturnAddress :: "string option"
  wvParentValue :: "int option"
  wvSighash :: "WalletRevealSighash option"

definition wallet_expects_parent :: "WalletVerifyArgs \<Rightarrow> bool" where
  "wallet_expects_parent args = (wvParentReturnAddress args \<noteq> None)"

definition allowed_types :: "WalletVerifyArgs \<Rightarrow> byte list" where
  "allowed_types args =
     (if wallet_expects_parent args then [SIGHASH_ALL_ANYONECANPAY]
      else case wvSighash args of
          Some s \<Rightarrow> [walletRevealSighashType s]
        | None \<Rightarrow> [SIGHASH_DEFAULT, SIGHASH_ALL, SIGHASH_ALL_ANYONECANPAY])"

definition commit_leaf :: "CommitInfo \<Rightarrow> SingleLeaf" where
  "commit_leaf commit = \<lparr>slLeafScript = ciLeafScript commit, slControlBlock = ciControlBlock commit,
     slLeafHash = ciTapLeafHash commit\<rparr>"

text \<open>The unfinalized shape: the leaf fields must be exactly ours.\<close>

definition wallet_leaf_fields ::
  "('tx, 'z) btc_lib_scheme \<Rightarrow> 'tx \<Rightarrow> TxInput \<Rightarrow> CommitInfo \<Rightarrow> insc_error + VerifyResult \<Rightarrow> insc_error + VerifyResult" where
  "wallet_leaf_fields L tx input commit k =
     (if inTapLeafScript input = None \<or> inTapLeafScript input = Some [] then k
      else case singleLeafOf L tx 0 of
          Inl (Error m) \<Rightarrow> Inr (Rejected m)
        | Inr leaf \<Rightarrow>
            if \<not> equalBytes (slLeafScript leaf) (ciLeafScript commit)
            then Inr (Rejected ''leaf script does not match the inscription script for this content'')
            else if \<not> equalBytes (slControlBlock leaf) (ciControlBlock commit)
            then Inr (Rejected ''control block mismatch'')
            else if (case inTapInternalKey input of None \<Rightarrow> False | Some x \<Rightarrow> \<not> equalBytes x (NUMS_INTERNAL_KEY L))
            then Inr (Rejected ''tapInternalKey is not NUMS'')
            else if (case inTapMerkleRoot input of None \<Rightarrow> False | Some x \<Rightarrow> \<not> equalBytes x (ciTapLeafHash commit))
            then Inr (Rejected ''tapMerkleRoot mismatch'')
            else k)"

definition wallet_sighash_args ::
  "WalletVerifyArgs \<Rightarrow> CommitInfo \<Rightarrow> byte \<Rightarrow> SighashOutput list \<Rightarrow> SighashArgs" where
  "wallet_sighash_args args commit sighashType outs =
     \<lparr>aTxid = opTxid (wvCommitOutpoint args), aVout = opVout (wvCommitOutpoint args),
      aCommitValue = wvCommitValue args, aCommitScript = ciScript commit,
      aTapLeafHash = ciTapLeafHash commit, aChildScript = None, aChildValue = None,
      aOutputs = Some outs, aSighashType = Some sighashType,
      aVersion = None, aLockTime = None, aSequence = None\<rparr>"

definition wallet_signature ::
  "('tx, 'z) btc_lib_scheme \<Rightarrow> WalletVerifyArgs \<Rightarrow> 'tx \<Rightarrow> TxInput \<Rightarrow> CommitInfo \<Rightarrow> SighashOutput list
     \<Rightarrow> insc_error + VerifyResult" where
  "wallet_signature L args tx input commit outs =
     (case extractLeafSignature L tx 0 (Some (commit_leaf commit, Some (wvLeafPubkey args))) of
        Inl (Error m) \<Rightarrow> Inr (Rejected m)
      | Inr ls \<Rightarrow>
          if lsSighashType ls \<notin> set (allowed_types args) then Inr (Rejected ''sighash type not allowed'')
          else if inSighashType input \<noteq> None \<and> inSighashType input \<noteq> Some (lsSighashType ls)
          then Inr (Rejected ''PSBT sighashType does not match the signature'')
          else ebind (revealCommitSighash L (wallet_sighash_args args commit (lsSighashType ls) outs)) (\<lambda>digest.
            if \<not> schnorrVerify L (take 64 (lsSig ls)) digest (wvLeafPubkey args)
            then Inr (Rejected ''schnorr signature does not verify for the leaf key'')
            else Inr Verified))"

definition wallet_outputs ::
  "('tx, 'z) btc_lib_scheme \<Rightarrow> WalletVerifyArgs \<Rightarrow> 'tx \<Rightarrow> TxInput \<Rightarrow> CommitInfo \<Rightarrow> bytes \<Rightarrow> insc_error + VerifyResult" where
  "wallet_outputs L args tx input commit recipientScript =
     (let expectedOutputs = (if wallet_expects_parent args then 2 else 1);
          rest = (\<lambda>outs. verify_child L tx (expectedOutputs - 1) recipientScript (wvPostage args)
            (wallet_signature L args tx input commit
               (outs @ [\<lparr>soScript = recipientScript, soValue = wvPostage args\<rparr>])))
      in if wallet_expects_parent args
         then verify_parent_return L tx (wvNetwork args) (wvParentReturnAddress args) (wvParentValue args) rest
         else rest [])"

definition wallet_verify_tx ::
  "('tx, 'z) btc_lib_scheme \<Rightarrow> WalletVerifyArgs \<Rightarrow> 'tx \<Rightarrow> insc_error + VerifyResult" where
  "wallet_verify_tx L args tx =
     (let expectedOutputs = (if wallet_expects_parent args then 2 else 1) in
      if inputsLength L tx \<noteq> 1 then Inr (Rejected ''expected 1 input'')
      else if outputsLength L tx \<noteq> expectedOutputs then Inr (Rejected ''wrong number of outputs'')
      else if txVersion L tx \<noteq> REVEAL_TX_VERSION then Inr (Rejected ''nVersion must be 2'')
      else if txLockTime L tx \<noteq> REVEAL_LOCKTIME then Inr (Rejected ''nLockTime must be 0'')
      else
      ebind (lib_call (getInput L tx 0)) (\<lambda>input.
      ebind (inputTxid L tx 0) (\<lambda>txid.
      if txid \<noteq> lower_string (opTxid (wvCommitOutpoint args)) \<or> inIndex input \<noteq> Some (opVout (wvCommitOutpoint args))
      then Inr (Rejected ''commit outpoint mismatch'')
      else if (case inSequence input of None \<Rightarrow> 0xffffffff | Some s \<Rightarrow> s) \<noteq> REVEAL_SEQUENCE
      then Inr (Rejected ''commit input nSequence mismatch'')
      else
      ebind (commitAddress L (wvLeafPubkey args) (wvContent args) (wvNetwork args)) (\<lambda>commit.
      case inWitnessUtxo input of
        None \<Rightarrow> Inr (Rejected ''commit input has no witnessUtxo'')
      | Some (prevScript, prevAmount) \<Rightarrow>
          if prevAmount \<noteq> wvCommitValue args then Inr (Rejected ''commit value mismatch'')
          else if \<not> equalBytes prevScript (ciScript commit)
          then Inr (Rejected ''commit scriptPubKey mismatch (content, key or network)'')
          else wallet_leaf_fields L tx input commit
            (try_script (addressToScript L (wvRecipientAddress args) (wvNetwork args))
              ''expected recipient address invalid'' (\<lambda>recipientScript.
               wallet_outputs L args tx input commit recipientScript))))))"

definition wallet_verify_body :: "('tx, 'z) btc_lib_scheme \<Rightarrow> WalletVerifyArgs \<Rightarrow> insc_error + VerifyResult" where
  "wallet_verify_body L args =
     ebind (assertBytes (wvLeafPubkey args) 32 ''leafPubkey'') (\<lambda>_.
     if wvPostage args < DUST_P2TR then Inr (Rejected ''expected postage below dust'')
     else if wvCommitValue args \<le> wvPostage args then Inr (Rejected ''commit value does not exceed postage'')
     else if wallet_expects_parent args \<and> (case wvParentValue args of None \<Rightarrow> True | Some v \<Rightarrow> v \<le> 0)
     then Inr (Rejected ''expectedParentValue must be a positive bigint when expectedParentReturnAddress is given'')
     else if wallet_expects_parent args \<and> wvSighash args \<noteq> None \<and> wvSighash args \<noteq> Some WAllAnyonecanpay
     then Inr (Rejected ''a reveal with a parent must be signed all_anyonecanpay'')
     else case decodePsbt L (wvPsbt args) of
       Inl _ \<Rightarrow> Inr (Rejected ''PSBT does not decode'')
     | Inr tx \<Rightarrow> wallet_verify_tx L args tx)"

definition verifyWalletSignedReveal :: "('tx, 'z) btc_lib_scheme \<Rightarrow> WalletVerifyArgs \<Rightarrow> VerifyResult" where
  "verifyWalletSignedReveal L args =
     (case wallet_verify_body L args of Inl _ \<Rightarrow> Rejected ''verification error'' | Inr r \<Rightarrow> r)"

definition leafKeyOfPsbt :: "('tx, 'z) btc_lib_scheme \<Rightarrow> string \<Rightarrow> nat \<Rightarrow> insc_error + bytes" where
  "leafKeyOfPsbt L psbtBase64 inputIndex =
     ebind (decodePsbt L psbtBase64) (\<lambda>tx.
     ebind (singleLeafOf L tx inputIndex) (\<lambda>leaf. leafKeyOf (slLeafScript leaf)))"

subsection \<open>What the checks establish\<close>

definition wallet_expected_outputs ::
  "('tx, 'z) btc_lib_scheme \<Rightarrow> WalletVerifyArgs \<Rightarrow> insc_error + SighashOutput list" where
  "wallet_expected_outputs L args =
     ebind (addressToScript L (wvRecipientAddress args) (wvNetwork args)) (\<lambda>r.
     let child = \<lparr>soScript = r, soValue = wvPostage args\<rparr> in
     if wallet_expects_parent args
     then ebind (addressToScript L (the (wvParentReturnAddress args)) (wvNetwork args)) (\<lambda>p.
       Inr [\<lparr>soScript = p, soValue = the (wvParentValue args)\<rparr>, child])
     else Inr [child])"

definition wallet_signed_for ::
  "('tx, 'z) btc_lib_scheme \<Rightarrow> WalletVerifyArgs \<Rightarrow> 'tx \<Rightarrow> TxInput \<Rightarrow> CommitInfo \<Rightarrow> SighashOutput list \<Rightarrow> bool" where
  "wallet_signed_for L args tx inp commit outs \<longleftrightarrow>
     (\<exists>ls d. extractLeafSignature L tx 0 (Some (commit_leaf commit, Some (wvLeafPubkey args))) = Inr ls
        \<and> lsSighashType ls \<in> set (allowed_types args)
        \<and> (inSighashType inp = None \<or> inSighashType inp = Some (lsSighashType ls))
        \<and> revealCommitSighash L (wallet_sighash_args args commit (lsSighashType ls) outs) = Inr d
        \<and> schnorrVerify L (take 64 (lsSig ls)) d (wvLeafPubkey args))"

definition wallet_leaf_ok :: "('tx, 'z) btc_lib_scheme \<Rightarrow> 'tx \<Rightarrow> TxInput \<Rightarrow> CommitInfo \<Rightarrow> bool" where
  "wallet_leaf_ok L tx inp commit \<longleftrightarrow>
     inTapLeafScript inp = None \<or> inTapLeafScript inp = Some []
     \<or> (\<exists>leaf. singleLeafOf L tx 0 = Inr leaf \<and> slLeafScript leaf = ciLeafScript commit
          \<and> slControlBlock leaf = ciControlBlock commit
          \<and> (inTapInternalKey inp = None \<or> inTapInternalKey inp = Some (NUMS_INTERNAL_KEY L))
          \<and> (inTapMerkleRoot inp = None \<or> inTapMerkleRoot inp = Some (ciTapLeafHash commit)))"

definition wallet_input_for :: "('tx, 'z) btc_lib_scheme \<Rightarrow> WalletVerifyArgs \<Rightarrow> 'tx \<Rightarrow> TxInput \<Rightarrow> CommitInfo \<Rightarrow> bool" where
  "wallet_input_for L args tx inp commit \<longleftrightarrow>
     map_option (hexEncode L) (inTxid inp) = Some (lower_string (opTxid (wvCommitOutpoint args)))
   \<and> inIndex inp = Some (opVout (wvCommitOutpoint args)) \<and> inSequence inp = Some REVEAL_SEQUENCE
   \<and> inWitnessUtxo inp = Some (ciScript commit, wvCommitValue args)
   \<and> wallet_leaf_ok L tx inp commit"

definition wallet_tx_ok :: "('tx, 'z) btc_lib_scheme \<Rightarrow> WalletVerifyArgs \<Rightarrow> 'tx \<Rightarrow> bool" where
  "wallet_tx_ok L args tx \<longleftrightarrow>
     inputsLength L tx = 1 \<and> txVersion L tx = REVEAL_TX_VERSION \<and> txLockTime L tx = REVEAL_LOCKTIME
   \<and> (\<exists>inp commit outs. getInput L tx 0 = Some inp
       \<and> commitAddress L (wvLeafPubkey args) (wvContent args) (wvNetwork args) = Inr commit
       \<and> wallet_input_for L args tx inp commit
       \<and> wallet_expected_outputs L args = Inr outs \<and> outputs_are L tx outs
       \<and> wallet_signed_for L args tx inp commit outs)"

definition wallet_order_ok :: "WalletVerifyArgs \<Rightarrow> bool" where
  "wallet_order_ok args \<longleftrightarrow>
     DUST_P2TR \<le> wvPostage args \<and> wvPostage args < wvCommitValue args
   \<and> (wallet_expects_parent args \<longrightarrow> (\<exists>v>0. wvParentValue args = Some v)
        \<and> (wvSighash args = None \<or> wvSighash args = Some WAllAnyonecanpay))"

lemma wallet_leaf_fields_Verified:
  "wallet_leaf_fields L tx inp commit k = Inr Verified \<longleftrightarrow> wallet_leaf_ok L tx inp commit \<and> k = Inr Verified"
proof (cases "inTapLeafScript inp = None \<or> inTapLeafScript inp = Some []")
  case True
  then show ?thesis by (auto simp: wallet_leaf_fields_def wallet_leaf_ok_def)
next
  case False
  show ?thesis
  proof (cases "singleLeafOf L tx 0")
    case (Inl e)
    with False show ?thesis by (cases e) (simp add: wallet_leaf_fields_def wallet_leaf_ok_def)
  next
    case (Inr leaf)
    with False show ?thesis
      by (auto simp: wallet_leaf_fields_def wallet_leaf_ok_def split: option.splits)
  qed
qed

lemma wallet_signature_Verified:
  "wallet_signature L args tx inp commit outs = Inr Verified \<longleftrightarrow> wallet_signed_for L args tx inp commit outs"
proof (cases "extractLeafSignature L tx 0 (Some (commit_leaf commit, Some (wvLeafPubkey args)))")
  case (Inl e)
  then show ?thesis by (cases e) (simp add: wallet_signature_def wallet_signed_for_def)
next
  case (Inr ls)
  then show ?thesis
    by (auto simp: wallet_signature_def wallet_signed_for_def ebind_eq_Inr split: if_splits)
qed

lemma wallet_outputs_Verified:
  assumes "wallet_expects_parent args \<longrightarrow> (\<exists>v>0. wvParentValue args = Some v)"
    and "addressToScript L (wvRecipientAddress args) (wvNetwork args) = Inr r"
    and "outputsLength L tx = (if wallet_expects_parent args then 2 else 1)"
  shows "wallet_outputs L args tx inp commit r = Inr Verified
    \<longleftrightarrow> (\<exists>outs. wallet_expected_outputs L args = Inr outs \<and> outputs_are L tx outs
           \<and> wallet_signed_for L args tx inp commit outs)"
proof (cases "wallet_expects_parent args")
  case True
  with assms obtain v a where va: "wvParentValue args = Some v" "wvParentReturnAddress args = Some a"
    by (auto simp: wallet_expects_parent_def)
  have c: "outputsLength L tx = 2" using True assms(3) by simp
  show ?thesis
    by (simp add: wallet_outputs_def True va assms(2) c verify_child_Verified verify_parent_return_Verified
        wallet_signature_Verified wallet_expected_outputs_def Let_def ebind_eq_Inr del: ex_simps)
       (auto simp: outputs_are_2 c)
next
  case False
  with assms(2,3) show ?thesis
    by (simp add: wallet_outputs_def verify_child_Verified wallet_signature_Verified
        wallet_expected_outputs_def Let_def outputs_are_1)
qed

lemma wallet_expected_outputs_facts:
  "wallet_expected_outputs L args = Inr outs \<Longrightarrow> length outs = (if wallet_expects_parent args then 2 else 1)
     \<and> (\<exists>r. addressToScript L (wvRecipientAddress args) (wvNetwork args) = Inr r)"
  by (auto simp: wallet_expected_outputs_def Let_def ebind_eq_Inr split: if_splits)

lemma wallet_verify_tx_Verified:
  assumes pv: "wallet_expects_parent args \<longrightarrow> (\<exists>v>0. wvParentValue args = Some v)"
  shows "wallet_verify_tx L args tx = Inr Verified \<longleftrightarrow> wallet_tx_ok L args tx" (is "?l \<longleftrightarrow> ?r")
proof
  assume l: ?l
  then have n: "inputsLength L tx = 1" "txVersion L tx = REVEAL_TX_VERSION" "txLockTime L tx = REVEAL_LOCKTIME"
      "outputsLength L tx = (if wallet_expects_parent args then 2 else 1)"
    by (auto simp: wallet_verify_tx_def Let_def split: if_splits)
  from l n obtain inp where i: "getInput L tx 0 = Some inp"
      "map_option (hexEncode L) (inTxid inp) = Some (lower_string (opTxid (wvCommitOutpoint args)))"
      "inIndex inp = Some (opVout (wvCommitOutpoint args))" "inSequence inp = Some REVEAL_SEQUENCE"
    by (auto simp: wallet_verify_tx_def Let_def lib_bind_eq_Inr ebind_eq_Inr inputTxid_eq_Inr
        sequence_is split: if_splits)
  have tid: "inputTxid L tx 0 = Inr (lower_string (opTxid (wvCommitOutpoint args)))"
    using i by (simp add: inputTxid_eq_Inr)
  from l n i tid obtain commit where c:
      "commitAddress L (wvLeafPubkey args) (wvContent args) (wvNetwork args) = Inr commit"
      "inWitnessUtxo inp = Some (ciScript commit, wvCommitValue args)"
    by (auto simp: wallet_verify_tx_def Let_def ebind_eq_Inr sequence_is split: if_splits option.splits)
  note l2 = l [unfolded wallet_verify_tx_def Let_def, simplified n i tid c, simplified]
  from l2 c(2) i obtain r where r: "addressToScript L (wvRecipientAddress args) (wvNetwork args) = Inr r"
      "wallet_leaf_ok L tx inp commit"
    by (auto simp: c(1) sequence_is wallet_leaf_fields_Verified try_script_Verified)
  have "wallet_outputs L args tx inp commit r = Inr Verified"
    using l2 i c r by (auto simp: sequence_is wallet_leaf_fields_Verified try_script_Verified)
  with wallet_outputs_Verified [OF pv r(1) n(4)]
  have "\<exists>outs. wallet_expected_outputs L args = Inr outs \<and> outputs_are L tx outs
      \<and> wallet_signed_for L args tx inp commit outs"
    by blast
  with n i c r show ?r unfolding wallet_tx_ok_def wallet_input_for_def by blast
next
  assume ?r
  then obtain inp commit outs where
    n: "inputsLength L tx = 1" "txVersion L tx = REVEAL_TX_VERSION" "txLockTime L tx = REVEAL_LOCKTIME"
    and i: "getInput L tx 0 = Some inp"
    and c: "commitAddress L (wvLeafPubkey args) (wvContent args) (wvNetwork args) = Inr commit"
      "wallet_input_for L args tx inp commit"
    and x: "wallet_expected_outputs L args = Inr outs" "outputs_are L tx outs"
      "wallet_signed_for L args tx inp commit outs"
    unfolding wallet_tx_ok_def by blast
  obtain r where r: "addressToScript L (wvRecipientAddress args) (wvNetwork args) = Inr r"
    using wallet_expected_outputs_facts [OF x(1)] by blast
  have o: "outputsLength L tx = (if wallet_expects_parent args then 2 else 1)"
    using x(1,2) wallet_expected_outputs_facts [OF x(1)] by (simp add: outputs_are_def)
  have tid: "inputTxid L tx 0 = Inr (lower_string (opTxid (wvCommitOutpoint args)))"
    using i c(2) by (simp add: inputTxid_eq_Inr wallet_input_for_def)
  have rest: "wallet_outputs L args tx inp commit r = Inr Verified"
    using wallet_outputs_Verified [OF pv r o, of inp commit] x by blast
  show ?l
    using n o i tid c(1) c(2) r rest
    unfolding wallet_verify_tx_def Let_def
    by (simp add: wallet_input_for_def sequence_is wallet_leaf_fields_Verified try_script_def)
qed

subsection \<open>Properties\<close>

text \<open>
  C8: the wallet verifier accepts exactly what the order expects. \<open>verifyWalletSignedReveal\<close> returns
  \<open>Verified\<close> if and only if the order's amounts are sane, the PSBT decodes to a transaction with the
  one commit input and exactly the expected outputs, the leaf fields (when present) are ours, and
  the leaf signature extracted for this leaf and key has an allowed hash type and verifies over the
  digest recomputed from the expected values.
\<close>

theorem verifyWalletSignedReveal_iff:
  "verifyWalletSignedReveal L args = Verified \<longleftrightarrow>
     wallet_order_ok args \<and> (\<exists>tx. decodePsbt L (wvPsbt args) = Inr tx \<and> wallet_tx_ok L args tx)"
proof -
  have v: "verifyWalletSignedReveal L args = Verified \<longleftrightarrow> wallet_verify_body L args = Inr Verified"
    by (cases "wallet_verify_body L args") (simp_all add: verifyWalletSignedReveal_def)
  show ?thesis
  proof (cases "wallet_order_ok args")
    case False
    then show ?thesis
      by (auto simp: v wallet_verify_body_def wallet_order_ok_def assertBytes_def ebind_eq_Inr
          split: option.splits if_splits)
  next
    case True
    then have pv: "wallet_expects_parent args \<longrightarrow> (\<exists>v>0. wvParentValue args = Some v)"
      by (simp add: wallet_order_ok_def)
    have b: "wallet_verify_body L args = Inr Verified \<longleftrightarrow> length (wvLeafPubkey args) = 32
        \<and> (\<exists>tx. decodePsbt L (wvPsbt args) = Inr tx \<and> wallet_verify_tx L args tx = Inr Verified)"
      using True
      by (cases "decodePsbt L (wvPsbt args)")
         (auto simp: wallet_verify_body_def wallet_order_ok_def assertBytes_def split: option.splits)
    show ?thesis
      using True commitAddress_length
      unfolding v b wallet_verify_tx_Verified [OF pv] by (auto simp: wallet_tx_ok_def)
  qed
qed

text \<open>
  A leaf signature is read for the pinned leaf and key only, whichever shape the wallet
  returned: the extracted signature names the expected key, leaf script, control block and hash,
  is 64 bytes for SIGHASH_DEFAULT and otherwise 65 bytes ending in its hash type.
\<close>

theorem extractLeafSignature_pinned:
  assumes "extractLeafSignature L tx idx (Some (e, Some k)) = Inr ls"
    and "slLeafHash e = tapLeafHash L (slLeafScript e) TAPSCRIPT_LEAF_VERSION"
  shows "lsPubKey ls = k \<and> lsLeafScript ls = slLeafScript e \<and> lsControlBlock ls = slControlBlock e
    \<and> lsLeafHash ls = slLeafHash e \<and> lsSighashType ls \<in> set LEAF_SIGHASH_TYPES
    \<and> (length (lsSig ls) = 64 \<and> lsSighashType ls = SIGHASH_DEFAULT
       \<or> length (lsSig ls) = 65 \<and> lsSig ls ! 64 = lsSighashType ls)"
proof -
  obtain inp where i: "getInput L tx idx = Some inp"
    using assms(1) by (auto simp: extractLeafSignature_def lib_bind_eq_Inr)
  consider w ws where "inFinalScriptWitness inp = Some (w # ws)"
    | "\<nexists>w ws. inFinalScriptWitness inp = Some (w # ws)"
    by blast
  then show ?thesis
  proof cases
    case 1
    with assms(1) i have "final_leaf_signature L (w # ws) (Some (e, Some k)) = Inr ls"
      by (simp add: extractLeafSignature_def)
    then show ?thesis
      using assms(2)
      by (auto simp: final_leaf_signature_def ebind_eq_Inr split: list.splits if_splits
          dest!: hashTypeOf_ok)
  next
    case 2
    then have "(case inFinalScriptWitness inp of Some (w # ws) \<Rightarrow> a w ws | _ \<Rightarrow> b) = b"
      for a :: "bytes \<Rightarrow> bytes list \<Rightarrow> insc_error + LeafSignature" and b
      by (auto split: option.splits list.splits)
    with assms(1) i show ?thesis
      by (auto simp: extractLeafSignature_def Let_def ebind_eq_Inr
          split: if_splits option.splits dest!: hashTypeOf_ok)
  qed
qed

theorem extractLeafSignature_pinned_witness:
  "\<exists>ls. extractLeafSignature (conc_lib (conc_tx None)) (conc_tx None) 0
       (Some (commit_leaf conc_commit, Some (replicate 32 1))) = Inr ls \<and> lsLeafScript ls = simple_leaf"
proof -
  let ?L = "conc_lib (conc_tx None)"
  have x: "\<exists>ls. extractLeafSignature ?L (conc_tx None) 0
       (Some (commit_leaf conc_commit, Some (replicate 32 1))) = Inr ls"
    by (simp add: extractLeafSignature_def conc_lib_simps conc_tx_def conc_input_def commit_leaf_def
        conc_commit_def hashTypeOf_def nth_append LEAF_SIGHASH_TYPES_def sighash_defs)
  then obtain ls where ls: "extractLeafSignature ?L (conc_tx None) 0
       (Some (commit_leaf conc_commit, Some (replicate 32 1))) = Inr ls" by blast
  have "slLeafHash (commit_leaf conc_commit) = tapLeafHash ?L (slLeafScript (commit_leaf conc_commit)) TAPSCRIPT_LEAF_VERSION"
    by (simp add: commit_leaf_def conc_commit_def conc_lib_def)
  from extractLeafSignature_pinned [OF ls this] ls show ?thesis
    by (auto simp: commit_leaf_def conc_commit_def)
qed

text \<open>
  A rescue pays its rate. When the unsigned rescue is built with a finite fee rate, the fee is the
  commit value minus the postage and is at least the exact virtual size of the rescue times the
  rational rate the number's text denotes.
\<close>

theorem unsigned_rescue_pays_rate:
  assumes "buildUnsignedRescuePsbt L args = Inr q" and "usFeeRate args = Some (Finite neg text)"
  shows "uqFee q = usCommitValue args - usPostage args \<and> DUST_P2TR \<le> usPostage args
    \<and> (\<exists>script w rate. addressToScript L (usRecipientAddress args) (usNetwork args) = Inr script
        \<and> estimateRevealWeight \<lparr>wContent = usContent args, wWithParent = False, wRecipientScript = script,
             wParentReturnScript = None, wParentInputScript = None,
             wCommitSighash = Some (if usSighash args = Some WAll then SizeAll else SizeDefault)\<rparr> = Inr w
        \<and> decimal_denotes text = Some rate
        \<and> of_nat (nat \<lceil>rat_of_nat w / 4\<rceil>) * rate \<le> of_int (uqFee q))"
proof -
  let ?sz = "case usSighash args of Some s \<Rightarrow> s | None \<Rightarrow> WDefault"
  obtain script w qq where s: "addressToScript L (usRecipientAddress args) (usNetwork args) = Inr script"
    and w: "estimateRevealWeight \<lparr>wContent = usContent args, wWithParent = False, wRecipientScript = script,
             wParentReturnScript = None, wParentInputScript = None,
             wCommitSighash = Some (if ?sz = WDefault then SizeDefault else SizeAll)\<rparr> = Inr w"
    and q: "quoteReveal (int w) (Finite neg text) 0 = Inr qq" "\<not> usCommitValue args - usPostage args < qRevealFee qq"
    and sz: "?sz = WDefault \<or> ?sz = WAll" and f: "uqFee q = usCommitValue args - usPostage args"
    and d: "DUST_P2TR \<le> usPostage args"
    using assms by (auto simp: buildUnsignedRescuePsbt_def Let_def ebind_eq_Inr checkAmounts_def split: if_splits)
  have "(if ?sz = WDefault then SizeDefault else SizeAll) = (if usSighash args = Some WAll then SizeAll else SizeDefault)"
    using sz by (auto split: option.splits)
  with w have w': "estimateRevealWeight \<lparr>wContent = usContent args, wWithParent = False, wRecipientScript = script,
             wParentReturnScript = None, wParentInputScript = None,
             wCommitSighash = Some (if usSighash args = Some WAll then SizeAll else SizeDefault)\<rparr> = Inr w"
    by simp
  note qf = quoteReveal_fields [OF q(1)]
  from qf(3) obtain rate where rate: "decimal_denotes text = Some rate"
      "qRevealFee qq = \<lceil>of_nat (qRevealVsize qq) * rate\<rceil>" by blast
  have "of_nat (nat \<lceil>rat_of_nat w / 4\<rceil>) * rate \<le> of_int (qRevealFee qq)"
    using qf(2) rate(2) by (simp add: le_of_int_ceiling)
  also have "\<dots> \<le> of_int (uqFee q)" using q(2) f by simp
  finally show ?thesis using s w' rate(1) f d by blast
qed

definition conc_rescue :: UnsignedRescueArgs where
  "conc_rescue = \<lparr>usNetwork = Signet, usLeafPubkey = replicate 32 1, usContent = simple_content,
     usCommitOutpoint = \<lparr>opTxid = replicate 64 CHR ''a'', opVout = 0\<rparr>, usCommitValue = 2000,
     usRecipientAddress = ''R'', usPostage = 546, usFeeRate = Some (Finite False ''1''), usSighash = None\<rparr>"

theorem unsigned_rescue_pays_rate_witness:
  "\<exists>q. buildUnsignedRescuePsbt (conc_lib (conc_tx None)) conc_rescue = Inr q \<and> uqFee q = 1454"
proof -
  let ?L = "conc_lib (conc_tx None)"
  have len: "inscriptionScriptLength simple_content = Inr 49"
    using inscriptionScriptLength_eq [OF simple_script] length_simple_script by simp
  have m: "match_decimal ''1'' = Some (''1'', [], 0)" "digit_val CHR ''1'' = Some 1" by code_simp+
  have w: "estimateRevealWeight \<lparr>wContent = simple_content, wWithParent = False,
       wRecipientScript = 0x51 # 0x20 # replicate 32 8, wParentReturnScript = None, wParentInputScript = None,
       wCommitSighash = Some SizeDefault\<rparr> = Inr 528"
    by (simp add: estimateRevealWeight_def len compactSizeLen_def size_defs outputSize_def commitSignatureSize_def Let_def)
  have q: "quoteReveal 528 (Finite False ''1'') 0 = Inr \<lparr>qRevealVsize = 132, qRevealFee = 132, qCommitValue = 132\<rparr>"
    by (simp add: quoteReveal_def vsizeFromWeight_def toDecimal_def m MAX_SAFE_INTEGER_def)
  have "\<exists>q. buildUnsignedRescuePsbt ?L conc_rescue = Inr q"
    using conc_commitAddress [of "conc_tx None"] conc_txids w q
    by (simp add: buildUnsignedRescuePsbt_def conc_rescue_def checkOutpoint_def checkAmounts_def DUST_P2TR_def
        addressToScript_def conc_lib_simps addCommitInput_def txid_bytes_def assertBytes_def new_tx_def)
  then obtain r where r: "buildUnsignedRescuePsbt ?L conc_rescue = Inr r" by blast
  have f: "usFeeRate conc_rescue = Some (Finite False ''1'')" by (simp add: conc_rescue_def)
  from unsigned_rescue_pays_rate [OF r f] r show ?thesis by (auto simp: conc_rescue_def)
qed

end
