(* ===== verification/LedgerTypes.thy ===== *)
theory LedgerTypes imports Prelude begin

text \<open>
  The domain of \<open>platform/ledger/src\<close>: \<open>domain/types.ts\<close>, \<open>domain/state.ts\<close>, \<open>domain/errors.ts\<close> and
  \<open>money.ts\<close>. Text is a list of 8-bit characters; satoshi amounts and other validated numbers are
  integers; times are the ISO strings the code stores.
\<close>

subsection \<open>Types\<close>

datatype Product = Blockspace | Scribbit | Degent
datatype OrderStatus = OCreated | OAwaitingPayment | OPaid | OExpired | OCancelled | ORefunded
datatype PaymentMethod = Onchain | Lightning | Card
datatype PaymentStatus = PCreated | PPending | PPaid | PUnderpaid | POverpaid | PExpired | PFailed | PRefunded
datatype RefundStatus = RPending | RCompleted | RFailed

record LineItem =
  liSku :: string
  liDescription :: string
  liQuantity :: int
  liUnitSats :: int

record Order =
  oId :: string
  oProduct :: Product
  oCustomerRef :: string
  oLineItems :: "LineItem list"
  oTotalSats :: int
  oStatus :: OrderStatus
  oMetadata :: "(string \<times> string) list"
  oVersion :: nat
  oCreatedAt :: string
  oUpdatedAt :: string

record CheckoutDetails =
  chAddress :: "string option"
  chBolt11 :: "string option"
  chCheckoutUrl :: "string option"
  chClientSecret :: "string option"

text \<open>\<open>providerData\<close> maps keys to the JSON text of their values.\<close>

record PaymentIntent =
  pyId :: string
  pyOrderId :: string
  pyProduct :: Product
  pyMethod :: PaymentMethod
  pyProvider :: string
  pyProviderRef :: string
  pyAmountSats :: int
  pyAmountPaidSats :: int
  pyRefundedSats :: int
  pyStatus :: PaymentStatus
  pyCheckout :: CheckoutDetails
  pyExpiresAt :: "string option"
  pyPaidAt :: "string option"
  pyTxid :: "string option"
  pyPreimage :: "string option"
  pyProviderData :: "(string \<times> string) list"
  pyVersion :: nat
  pyCreatedAt :: string
  pyUpdatedAt :: string

record Refund =
  reId :: string
  rePaymentId :: string
  reOrderId :: string
  reAmountSats :: int
  reStatus :: RefundStatus
  reReason :: string
  reProviderRef :: "string option"
  reDestination :: "string option"
  reDetail :: "string option"
  reCreatedAt :: string
  reUpdatedAt :: string

subsection \<open>Errors\<close>

text \<open>
  \<open>LedgerError\<close> with its HTTP status and code, its subclass \<open>ConcurrencyError\<close>, a \<open>WebhookError\<close>
  with its code, and any other exception (a \<open>RangeError\<close>, a provider's failure).
  \<open>OutOfFuel\<close> is not raised by the code: it marks a model run that was given too little fuel.
\<close>

datatype ledger_error =
    LedgerError nat string | ConcurrencyError | WebhookError string | OtherError | OutOfFuel

definition notFound :: ledger_error where "notFound = LedgerError 404 ''not_found''"
definition invalid :: ledger_error where "invalid = LedgerError 400 ''invalid_request''"

definition error_code :: "ledger_error \<Rightarrow> string option" where
  "error_code e = (case e of LedgerError _ c \<Rightarrow> Some c | ConcurrencyError \<Rightarrow> Some ''concurrent_update''
     | _ \<Rightarrow> None)"

subsection \<open>Transition tables\<close>

primrec ORDER_TRANSITIONS :: "OrderStatus \<Rightarrow> OrderStatus list" where
  "ORDER_TRANSITIONS OCreated = [OAwaitingPayment, OCancelled, OExpired]"
| "ORDER_TRANSITIONS OAwaitingPayment = [OPaid, OCancelled, OExpired]"
| "ORDER_TRANSITIONS OPaid = [ORefunded]"
| "ORDER_TRANSITIONS OExpired = []"
| "ORDER_TRANSITIONS OCancelled = []"
| "ORDER_TRANSITIONS ORefunded = []"

primrec PAYMENT_TRANSITIONS :: "PaymentStatus \<Rightarrow> PaymentStatus list" where
  "PAYMENT_TRANSITIONS PCreated = [PPending, PPaid, PUnderpaid, POverpaid, PExpired, PFailed]"
| "PAYMENT_TRANSITIONS PPending = [PPaid, PUnderpaid, POverpaid, PExpired, PFailed]"
| "PAYMENT_TRANSITIONS PUnderpaid = [PPending, PPaid, POverpaid, PRefunded, PFailed]"
| "PAYMENT_TRANSITIONS PPaid = [PRefunded]"
| "PAYMENT_TRANSITIONS POverpaid = [PRefunded]"
| "PAYMENT_TRANSITIONS PExpired = [PPending, PPaid, PUnderpaid, POverpaid]"
| "PAYMENT_TRANSITIONS PFailed = []"
| "PAYMENT_TRANSITIONS PRefunded = []"

primrec REFUND_TRANSITIONS :: "RefundStatus \<Rightarrow> RefundStatus list" where
  "REFUND_TRANSITIONS RPending = [RCompleted, RFailed]"
| "REFUND_TRANSITIONS RCompleted = []"
| "REFUND_TRANSITIONS RFailed = []"

definition assertTransition :: "('s \<Rightarrow> 's list) \<Rightarrow> 's \<Rightarrow> 's \<Rightarrow> ledger_error + unit" where
  "assertTransition table from to =
     (if to \<notin> set (table from) then Inl (LedgerError 409 ''illegal_transition'') else Inr ())"

definition assertOrderTransition :: "OrderStatus \<Rightarrow> OrderStatus \<Rightarrow> ledger_error + unit" where
  "assertOrderTransition = assertTransition ORDER_TRANSITIONS"

definition assertPaymentTransition :: "PaymentStatus \<Rightarrow> PaymentStatus \<Rightarrow> ledger_error + unit" where
  "assertPaymentTransition = assertTransition PAYMENT_TRANSITIONS"

definition assertRefundTransition :: "RefundStatus \<Rightarrow> RefundStatus \<Rightarrow> ledger_error + unit" where
  "assertRefundTransition = assertTransition REFUND_TRANSITIONS"

definition canOrderTransition :: "OrderStatus \<Rightarrow> OrderStatus \<Rightarrow> bool" where
  "canOrderTransition from to = (to \<in> set (ORDER_TRANSITIONS from))"

definition canPaymentTransition :: "PaymentStatus \<Rightarrow> PaymentStatus \<Rightarrow> bool" where
  "canPaymentTransition from to = (to \<in> set (PAYMENT_TRANSITIONS from))"

text \<open>Any number of transitions of a table.\<close>

definition order_reach :: "OrderStatus \<Rightarrow> OrderStatus \<Rightarrow> bool" where
  "order_reach = (\<lambda>a b. canOrderTransition a b)\<^sup>*\<^sup>*"

definition payment_reach :: "PaymentStatus \<Rightarrow> PaymentStatus \<Rightarrow> bool" where
  "payment_reach = (\<lambda>a b. canPaymentTransition a b)\<^sup>*\<^sup>*"

lemma order_reach_refl [simp]: "order_reach a a"
  by (simp add: order_reach_def)

lemma order_reach_step: "canOrderTransition a b \<Longrightarrow> order_reach a b"
  by (simp add: order_reach_def)

lemma order_reach_trans: "order_reach a b \<Longrightarrow> order_reach b c \<Longrightarrow> order_reach a c"
  by (simp add: order_reach_def)

lemma payment_reach_refl [simp]: "payment_reach a a"
  by (simp add: payment_reach_def)

lemma payment_reach_step: "canPaymentTransition a b \<Longrightarrow> payment_reach a b"
  by (simp add: payment_reach_def)

lemma payment_reach_trans: "payment_reach a b \<Longrightarrow> payment_reach b c \<Longrightarrow> payment_reach a c"
  by (simp add: payment_reach_def)

lemma order_reach_terminal: "order_reach a b \<Longrightarrow> ORDER_TRANSITIONS a = [] \<Longrightarrow> b = a"
  unfolding order_reach_def by (induction rule: converse_rtranclp_induct) (auto simp: canOrderTransition_def)

lemma payment_reach_terminal: "payment_reach a b \<Longrightarrow> PAYMENT_TRANSITIONS a = [] \<Longrightarrow> b = a"
  unfolding payment_reach_def by (induction rule: converse_rtranclp_induct) (auto simp: canPaymentTransition_def)

text \<open>What a paid order or payment can still become.\<close>

lemma order_reach_from_paid: "order_reach OPaid b \<longleftrightarrow> b = OPaid \<or> b = ORefunded"
proof
  assume "order_reach OPaid b"
  then have "order_reach OPaid b \<and> (b = OPaid \<or> b = ORefunded)"
    unfolding order_reach_def
    by (induction rule: rtranclp_induct) (auto simp: canOrderTransition_def)
  then show "b = OPaid \<or> b = ORefunded" by simp
qed (auto intro: order_reach_step simp: canOrderTransition_def)

subsection \<open>Money\<close>

definition SATS_PER_BTC :: int where "SATS_PER_BTC = 100000000"
definition MAX_SATS :: int where "MAX_SATS = 2100000000000000"

definition assertSats :: "int \<Rightarrow> ledger_error + int" where
  "assertSats v = (if v < 0 \<or> v > MAX_SATS then Inl OtherError else Inr v)"

definition padStart :: "nat \<Rightarrow> char \<Rightarrow> string \<Rightarrow> string" where
  "padStart n c s = replicate (n - length s) c @ s"

definition padEnd :: "nat \<Rightarrow> char \<Rightarrow> string \<Rightarrow> string" where
  "padEnd n c s = s @ replicate (n - length s) c"

definition satsToBtc :: "int \<Rightarrow> ledger_error + string" where
  "satsToBtc sats =
     ebind (assertSats sats) (\<lambda>_.
       let whole = sats div SATS_PER_BTC; frc = sats mod SATS_PER_BTC in
       Inr (digits_of_nat (nat whole) @ ''.'' @ padStart 8 (CHR ''0'') (digits_of_nat (nat frc))))"

text \<open>\<open>/^(\d+)(?:\.(\d{0,8}))?$/\<close>: the two groups, the second empty when absent.\<close>

definition match_btc :: "string \<Rightarrow> (string \<times> string) option" where
  "match_btc s =
     (let ip = takeWhile is_digit s; r = dropWhile is_digit s in
      if ip = [] then None
      else (case r of
          [] \<Rightarrow> Some (ip, [])
        | c # r1 \<Rightarrow> if c = CHR ''.'' \<and> length r1 \<le> 8 \<and> list_all is_digit r1 then Some (ip, r1) else None))"

definition btcToSats :: "string \<Rightarrow> ledger_error + int" where
  "btcToSats btc =
     (case match_btc (trim btc) of
        None \<Rightarrow> Inl OtherError
      | Some (ip, fr) \<Rightarrow>
          assertSats (int (num_of_digits 0 ip) * SATS_PER_BTC + int (num_of_digits 0 (padEnd 8 (CHR ''0'') fr))))"

definition satsToFiatMinor :: "int \<Rightarrow> int \<Rightarrow> ledger_error + int" where
  "satsToFiatMinor sats minorPerBtc =
     ebind (assertSats sats) (\<lambda>_.
     if minorPerBtc \<le> 0 then Inl OtherError
     else Inr ((sats * minorPerBtc + SATS_PER_BTC div 2) div SATS_PER_BTC))"

subsection \<open>Facts about money\<close>

lemma num_of_zeros: "num_of_digits acc (replicate k (CHR ''0'') @ s) = num_of_digits (acc * 10 ^ k) s"
proof (induction k arbitrary: acc)
  case (Suc k)
  have "digit_val (CHR ''0'') = Some 0" by code_simp
  with Suc show ?case by (simp add: mult.assoc mult.commute [of 10])
qed simp

lemma takeWhile_digits: "list_all is_digit xs \<Longrightarrow> \<not> is_digit c \<Longrightarrow>
   takeWhile is_digit (xs @ c # r) = xs \<and> dropWhile is_digit (xs @ c # r) = c # r"
  by (induction xs) auto

text \<open>
  Amounts survive the conversion to a BTC string. Parsing the string \<open>satsToBtc\<close> prints gives the
  satoshi amount back.
\<close>

theorem btc_string_roundtrip:
  assumes "satsToBtc n = Inr s"
  shows "btcToSats s = Inr n"
proof -
  have n: "0 \<le> n" "n \<le> MAX_SATS"
    using assms by (auto simp: satsToBtc_def assertSats_def split: if_splits)
  define ip where "ip = digits_of_nat (nat (n div SATS_PER_BTC))"
  define dd where "dd = digits_of_nat (nat (n mod SATS_PER_BTC))"
  define fr where "fr = padStart 8 (CHR ''0'') dd"
  have s: "s = ip @ CHR ''.'' # fr"
    using assms n by (simp add: satsToBtc_def assertSats_def Let_def ip_def fr_def dd_def)
  have lt: "nat (n mod SATS_PER_BTC) < 10 ^ 8" by (simp add: SATS_PER_BTC_def nat_less_iff)
  have ld: "length dd \<le> 8" unfolding dd_def using lt by (intro length_digits_of_nat) simp_all
  have z: "is_digit (CHR ''0'')" "\<not> is_digit (CHR ''.'')" by code_simp+
  have dg: "list_all is_digit ip" "ip \<noteq> []" "list_all is_digit dd" "dd \<noteq> []"
    using digits_of_nat_digits by (auto simp: ip_def dd_def)
  have fr: "list_all is_digit fr" "length fr = 8" "fr \<noteq> []"
    using ld dg z by (auto simp: fr_def padStart_def list_all_iff)
  have "is_digit (hd s)" "is_digit (last s)"
    using s dg fr by (auto simp: list_all_iff)
  then have t: "trim s = s" using s by (intro trim_id) (auto dest: not_space_digit)
  have "match_btc s = Some (ip, fr)"
    using takeWhile_digits [OF dg(1) z(2), of fr] dg(2) fr by (simp add: match_btc_def s Let_def)
  moreover have "num_of_digits 0 fr = nat (n mod SATS_PER_BTC)"
    by (simp add: fr_def padStart_def num_of_zeros dd_def num_digits_of_nat)
  moreover have "num_of_digits 0 ip = nat (n div SATS_PER_BTC)" by (simp add: ip_def num_digits_of_nat)
  moreover have "int (nat (n div SATS_PER_BTC)) * SATS_PER_BTC + int (nat (n mod SATS_PER_BTC)) = n"
    using n(1) by (simp add: SATS_PER_BTC_def pos_imp_zdiv_nonneg_iff)
  ultimately show ?thesis
    using t n fr(2) by (simp add: btcToSats_def padEnd_def assertSats_def)
qed

theorem btc_string_roundtrip_witness: "btcToSats ''0.00000005'' = Inr 5"
proof -
  have d: "digits_of_nat 0 = ''0''" "digits_of_nat 5 = ''5''" by code_simp+
  have z: "replicate 7 CHR ''0'' = ''0000000''" by (simp add: numeral_eq_Suc)
  have "satsToBtc 5 = Inr ''0.00000005''"
    by (simp add: satsToBtc_def assertSats_def MAX_SATS_def SATS_PER_BTC_def d z padStart_def)
  then show ?thesis by (rule btc_string_roundtrip)
qed

end
