(* ===== verification/LedgerJson.thy ===== *)
theory LedgerJson imports LedgerTypes "HOL-Library.AList" begin

text \<open>
  The JSON side of \<open>platform/ledger/src/service.ts\<close>: the canonical text that request fingerprints hash,
  and \<open>validateOrderInput\<close>. A number is an integer or the text JavaScript prints for any other number;
  an object lists its properties in the order the code enumerates them.
\<close>

datatype json =
    JNull | JBool bool | JInt int | JFloat string | JStr string
  | JArr "json list" | JObj "(string \<times> json) list"

subsection \<open>Canonical text\<close>

definition hex4 :: "nat \<Rightarrow> string" where
  "hex4 n = [hex_digit (n div 4096), hex_digit (n div 256), hex_digit (n div 16), hex_digit n]"

text \<open>\<open>JSON.stringify\<close> of one character of a string, and of a string.\<close>

definition quote_char :: "char \<Rightarrow> string" where
  "quote_char c = (let n = of_char c :: nat; bs = char_of (92 :: nat) in
     if n = 34 \<or> n = 92 then [bs, c]
     else if n = 8 then [bs, char_of (98 :: nat)] else if n = 9 then [bs, char_of (116 :: nat)]
     else if n = 10 then [bs, char_of (110 :: nat)] else if n = 12 then [bs, char_of (102 :: nat)]
     else if n = 13 then [bs, char_of (114 :: nat)]
     else if n < 32 then [bs, char_of (117 :: nat)] @ hex4 n
     else [c])"

definition quote :: "string \<Rightarrow> string" where
  "quote s = [char_of (34 :: nat)] @ concat (map quote_char s) @ [char_of (34 :: nat)]"

text \<open>\<open>String(n)\<close> of an integer below \<open>10 ^ 21\<close>, from where JavaScript prints an exponent.\<close>

definition int_text :: "int \<Rightarrow> string" where
  "int_text n = (if n < 0 then ''-'' @ digits_of_nat (nat (- n)) else digits_of_nat (nat n))"

fun join_with :: "string \<Rightarrow> string list \<Rightarrow> string" where
  "join_with d [] = []"
| "join_with d [x] = x"
| "join_with d (x # y # r) = x @ d @ join_with d (y # r)"

text \<open>The order of \<open>Array.prototype.sort\<close> on strings: by code unit.\<close>

fun str_le :: "string \<Rightarrow> string \<Rightarrow> bool" where
  "str_le [] t = True"
| "str_le (a # s) [] = False"
| "str_le (a # s) (b # t) = (if a = b then str_le s t else (of_char a :: nat) < of_char b)"

fun insert_key :: "string \<times> 'a \<Rightarrow> (string \<times> 'a) list \<Rightarrow> (string \<times> 'a) list" where
  "insert_key p [] = [p]"
| "insert_key p (q # qs) = (if str_le (fst p) (fst q) then p # q # qs else q # insert_key p qs)"

definition sort_keys :: "(string \<times> 'a) list \<Rightarrow> (string \<times> 'a) list" where
  "sort_keys ps = foldr insert_key ps []"

definition member_text :: "string \<times> string \<Rightarrow> string" where
  "member_text p = quote (fst p) @ '':'' @ snd p"

fun canonical :: "json \<Rightarrow> string" where
  "canonical JNull = ''null''"
| "canonical (JBool b) = (if b then ''true'' else ''false'')"
| "canonical (JInt n) = int_text n"
| "canonical (JFloat t) = t"
| "canonical (JStr s) = quote s"
| "canonical (JArr xs) = ''['' @ join_with '','' (map canonical xs) @ '']''"
| "canonical (JObj ps) =
     CHR 0x7B # join_with '','' (map member_text (sort_keys (map (\<lambda>(k, v). (k, canonical v)) ps))) @ [CHR 0x7D]"

subsection \<open>Requests\<close>

record CreateOrderInput =
  coProduct :: Product
  coCustomerRef :: string
  coLineItems :: "LineItem list"
  coMetadata :: "(string \<times> string) list option"

definition product_name :: "Product \<Rightarrow> string" where
  "product_name p = (case p of Blockspace \<Rightarrow> ''blockspace'' | Scribbit \<Rightarrow> ''scribbit'' | Degent \<Rightarrow> ''degent'')"

definition product_of :: "string \<Rightarrow> Product option" where
  "product_of s = List.find (\<lambda>p. product_name p = s) [Blockspace, Scribbit, Degent]"

definition method_name :: "PaymentMethod \<Rightarrow> string" where
  "method_name m = (case m of Onchain \<Rightarrow> ''onchain'' | Lightning \<Rightarrow> ''lightning'' | Card \<Rightarrow> ''card'')"

definition method_of :: "string \<Rightarrow> PaymentMethod option" where
  "method_of s = List.find (\<lambda>m. method_name m = s) [Onchain, Lightning, Card]"

definition MAX_LINE_ITEMS :: nat where "MAX_LINE_ITEMS = 100"
definition MAX_METADATA_KEYS :: nat where "MAX_METADATA_KEYS = 20"
definition MAX_STR :: nat where "MAX_STR = 512"

definition isStr :: "nat \<Rightarrow> json option \<Rightarrow> string option" where
  "isStr mx j = (case j of Some (JStr s) \<Rightarrow> if 0 < length s \<and> length s \<le> mx then Some s else None | _ \<Rightarrow> None)"

text \<open>\<open>typeof v === 'object'\<close> and not null: an array passes, and has none of the properties.\<close>

definition properties_of :: "json \<Rightarrow> (string \<times> json) list option" where
  "properties_of j = (case j of JObj ps \<Rightarrow> Some ps | JArr _ \<Rightarrow> Some [] | _ \<Rightarrow> None)"

definition assertSats_json :: "json option \<Rightarrow> ledger_error + int" where
  "assertSats_json j = (case j of Some (JInt n) \<Rightarrow> assertSats n | _ \<Rightarrow> Inl OtherError)"

definition line_item_of :: "json \<Rightarrow> ledger_error + LineItem" where
  "line_item_of raw =
     (case properties_of raw of
        None \<Rightarrow> Inl invalid
      | Some li \<Rightarrow>
          (case isStr 128 (map_of li ''sku'') of
             None \<Rightarrow> Inl invalid
           | Some sku \<Rightarrow>
               (case isStr MAX_STR (map_of li ''description'') of
                  None \<Rightarrow> Inl invalid
                | Some description \<Rightarrow>
                    (case map_of li ''quantity'' of
                       Some (JInt quantity) \<Rightarrow>
                         if quantity < 1 \<or> quantity > 1000000 then Inl invalid
                         else (case assertSats_json (map_of li ''unitSats'') of
                             Inl _ \<Rightarrow> Inl invalid
                           | Inr unitSats \<Rightarrow>
                               Inr \<lparr>liSku = sku, liDescription = description, liQuantity = quantity,
                                    liUnitSats = unitSats\<rparr>)
                     | _ \<Rightarrow> Inl invalid))))"

definition metadata_entry :: "string \<times> json \<Rightarrow> ledger_error + (string \<times> string)" where
  "metadata_entry p =
     (case (isStr 64 (Some (JStr (fst p))), snd p) of
        (Some k, JStr v) \<Rightarrow> if length v > MAX_STR then Inl invalid else Inr (k, v)
      | _ \<Rightarrow> Inl invalid)"

text \<open>\<open>metadata[k] = v\<close>: assigning a string to \<open>__proto__\<close> of an object literal has no effect.\<close>

definition set_property :: "string \<times> string \<Rightarrow> (string \<times> string) list \<Rightarrow> (string \<times> string) list" where
  "set_property p m = (if fst p = ''__proto__'' then m else AList.update (fst p) (snd p) m)"

definition metadata_of :: "json option \<Rightarrow> ledger_error + (string \<times> string) list option" where
  "metadata_of j =
     (case j of
        None \<Rightarrow> Inr None
      | Some (JObj entries) \<Rightarrow>
          if length entries > MAX_METADATA_KEYS then Inl invalid
          else ebind (emapM metadata_entry entries) (\<lambda>kvs. Inr (Some (fold set_property kvs [])))
      | Some _ \<Rightarrow> Inl invalid)"

definition validateOrderInput :: "json \<Rightarrow> ledger_error + CreateOrderInput" where
  "validateOrderInput input =
     (case properties_of input of
        None \<Rightarrow> Inl invalid
      | Some ps \<Rightarrow>
          (case map_of ps ''product'' of
             Some (JStr name) \<Rightarrow>
               (case product_of name of
                  None \<Rightarrow> Inl invalid
                | Some product \<Rightarrow>
                    (case isStr 256 (map_of ps ''customerRef'') of
                       None \<Rightarrow> Inl invalid
                     | Some customerRef \<Rightarrow>
                         (case map_of ps ''lineItems'' of
                            Some (JArr raws) \<Rightarrow>
                              if raws = [] \<or> length raws > MAX_LINE_ITEMS then Inl invalid
                              else ebind (emapM line_item_of raws) (\<lambda>lineItems.
                                ebind (metadata_of (map_of ps ''metadata'')) (\<lambda>metadata.
                                Inr \<lparr>coProduct = product, coCustomerRef = customerRef,
                                     coLineItems = lineItems, coMetadata = metadata\<rparr>))
                          | _ \<Rightarrow> Inl invalid)))
           | _ \<Rightarrow> Inl invalid))"

text \<open>The objects whose canonical text is fingerprinted.\<close>

definition line_item_json :: "LineItem \<Rightarrow> json" where
  "line_item_json li =
     JObj [(''sku'', JStr (liSku li)), (''description'', JStr (liDescription li)),
           (''quantity'', JInt (liQuantity li)), (''unitSats'', JInt (liUnitSats li))]"

definition order_input_json :: "CreateOrderInput \<Rightarrow> json" where
  "order_input_json i =
     JObj ([(''product'', JStr (product_name (coProduct i))), (''customerRef'', JStr (coCustomerRef i)),
            (''lineItems'', JArr (map line_item_json (coLineItems i)))]
       @ (case coMetadata i of None \<Rightarrow> []
          | Some m \<Rightarrow> [(''metadata'', JObj (map (\<lambda>(k, v). (k, JStr v)) m))]))"

definition option_json :: "string option \<Rightarrow> json" where
  "option_json s = (case s of None \<Rightarrow> JNull | Some t \<Rightarrow> JStr t)"

subsection \<open>What validation guarantees\<close>

definition valid_line_item :: "LineItem \<Rightarrow> bool" where
  "valid_line_item li \<longleftrightarrow>
     0 < length (liSku li) \<and> length (liSku li) \<le> 128 \<and>
     0 < length (liDescription li) \<and> length (liDescription li) \<le> 512 \<and>
     1 \<le> liQuantity li \<and> liQuantity li \<le> 1000000 \<and> 0 \<le> liUnitSats li \<and> liUnitSats li \<le> MAX_SATS"

lemma isStr_Some: "isStr mx j = Some s \<longleftrightarrow> j = Some (JStr s) \<and> 0 < length s \<and> length s \<le> mx"
  by (auto simp: isStr_def split: option.splits json.splits)

lemma assertSats_Inr: "assertSats v = Inr n \<longleftrightarrow> n = v \<and> 0 \<le> v \<and> v \<le> MAX_SATS"
  by (auto simp: assertSats_def)

lemma assertSats_json_Inr: "assertSats_json j = Inr n \<longleftrightarrow> j = Some (JInt n) \<and> 0 \<le> n \<and> n \<le> MAX_SATS"
  by (auto simp: assertSats_json_def assertSats_Inr split: option.splits json.splits)

lemma line_item_of_valid: "line_item_of raw = Inr li \<Longrightarrow> valid_line_item li"
  by (auto simp: line_item_of_def valid_line_item_def isStr_Some assertSats_json_Inr MAX_STR_def
      split: option.splits json.splits sum.splits if_splits)

lemma emapM_all: "emapM f xs = Inr ys \<Longrightarrow> (\<And>x y. f x = Inr y \<Longrightarrow> P y) \<Longrightarrow> list_all P ys"
  by (induction xs arbitrary: ys) (auto simp: ebind_eq_Inr)

lemma emapM_map_id: "(\<And>x. x \<in> set xs \<Longrightarrow> f (g x) = Inr x) \<Longrightarrow> emapM f (map g xs) = Inr xs"
  by (induction xs) auto

definition valid_pair :: "string \<times> string \<Rightarrow> bool" where
  "valid_pair p \<longleftrightarrow> 0 < length (fst p) \<and> length (fst p) \<le> 64 \<and> length (snd p) \<le> 512 \<and> fst p \<noteq> ''__proto__''"

definition valid_metadata :: "(string \<times> string) list \<Rightarrow> bool" where
  "valid_metadata m \<longleftrightarrow> distinct (map fst m) \<and> length m \<le> 20 \<and> list_all valid_pair m"

definition valid_order_input :: "CreateOrderInput \<Rightarrow> bool" where
  "valid_order_input i \<longleftrightarrow>
     0 < length (coCustomerRef i) \<and> length (coCustomerRef i) \<le> 256 \<and>
     coLineItems i \<noteq> [] \<and> length (coLineItems i) \<le> 100 \<and> list_all valid_line_item (coLineItems i) \<and>
     (\<forall>m. coMetadata i = Some m \<longrightarrow> valid_metadata m)"

lemma update_append_fresh: "k \<notin> fst ` set m \<Longrightarrow> AList.update k v m = m @ [(k, v)]"
  by (induction m) auto

lemma length_update: "length (AList.update k v m) \<le> Suc (length m)"
  by (induction m) auto

lemma fold_set_property:
  "list_all (\<lambda>p. fst p = ''__proto__'' \<or> valid_pair p) kvs \<Longrightarrow> distinct (map fst m) \<Longrightarrow> list_all valid_pair m \<Longrightarrow>
   let r = fold set_property kvs m in
     distinct (map fst r) \<and> list_all valid_pair r \<and> length r \<le> length m + length kvs"
proof (induction kvs arbitrary: m)
  case (Cons p kvs)
  let ?m = "set_property p m"
  have "list_all valid_pair ?m"
    using Cons.prems set_update_subset [of "fst p" "snd p" m] by (auto simp: set_property_def list_all_iff)
  moreover have "distinct (map fst ?m)"
    using Cons.prems distinct_update [of m "fst p" "snd p"] by (simp add: set_property_def)
  moreover have "length ?m \<le> Suc (length m)"
    using length_update [of "fst p" "snd p" m] by (simp add: set_property_def)
  ultimately show ?case using Cons.IH [of ?m] Cons.prems by (simp add: Let_def)
qed simp

lemma metadata_entry_Inr:
  "metadata_entry p = Inr q \<longleftrightarrow>
     snd p = JStr (snd q) \<and> fst q = fst p \<and> 0 < length (fst q) \<and> length (fst q) \<le> 64 \<and> length (snd q) \<le> 512"
  by (cases q) (auto simp: metadata_entry_def isStr_def MAX_STR_def split: option.splits json.splits if_splits)

lemma metadata_of_valid: "metadata_of j = Inr (Some m) \<Longrightarrow> valid_metadata m"
proof -
  assume m: "metadata_of j = Inr (Some m)"
  then obtain entries where j: "j = Some (JObj entries)" "length entries \<le> 20"
    by (auto simp: metadata_of_def MAX_METADATA_KEYS_def split: option.splits json.splits if_splits)
  with m obtain kvs where e: "length entries \<le> 20" "emapM metadata_entry entries = Inr kvs"
      "m = fold set_property kvs []"
    by (auto simp: metadata_of_def ebind_eq_Inr split: if_splits)
  have "list_all (\<lambda>p. fst p = ''__proto__'' \<or> valid_pair p) kvs"
    by (rule emapM_all [OF e(2)]) (auto simp: metadata_entry_Inr valid_pair_def)
  from fold_set_property [OF this, of "[]"] emapM_length [OF e(2)] e
  show "valid_metadata m" by (simp add: valid_metadata_def Let_def)
qed

lemma validated: "validateOrderInput j = Inr i \<Longrightarrow> valid_order_input i"
proof -
  assume "validateOrderInput j = Inr i"
  then obtain raws lis mj md where r: "raws \<noteq> []" "length raws \<le> 100" "emapM line_item_of raws = Inr lis"
      "metadata_of mj = Inr md" "coLineItems i = lis" "coMetadata i = md"
      "0 < length (coCustomerRef i)" "length (coCustomerRef i) \<le> 256"
    by (auto simp: validateOrderInput_def MAX_LINE_ITEMS_def isStr_Some ebind_eq_Inr
        split: option.splits json.splits if_splits)
  have "list_all valid_line_item lis" using r(3) by (rule emapM_all) (rule line_item_of_valid)
  moreover have "length lis = length raws" using r(3) by (rule emapM_length)
  ultimately show "valid_order_input i"
    using r metadata_of_valid [of mj] by (auto simp: valid_order_input_def)
qed

lemma fold_set_property_id:
  "distinct (map fst (m @ kvs)) \<Longrightarrow> list_all valid_pair kvs \<Longrightarrow> fold set_property kvs m = m @ kvs"
proof (induction kvs arbitrary: m)
  case (Cons p kvs)
  have "set_property p m = m @ [p]"
    using Cons.prems by (cases p) (auto simp: set_property_def valid_pair_def update_append_fresh)
  with Cons show ?case by simp
qed simp

lemma product_of_name: "product_of (product_name p) = Some p"
  by (cases p) (simp_all add: product_of_def product_name_def)

lemma line_item_of_json: "valid_line_item li \<Longrightarrow> line_item_of (line_item_json li) = Inr li"
  by (cases li) (auto simp: line_item_of_def line_item_json_def properties_of_def valid_line_item_def isStr_def
      MAX_STR_def assertSats_json_def assertSats_def)

lemma metadata_of_json:
  "valid_metadata m \<Longrightarrow> metadata_of (Some (JObj (map (\<lambda>(k, v). (k, JStr v)) m))) = Inr (Some m)"
proof -
  assume v: "valid_metadata m"
  have "emapM metadata_entry (map (\<lambda>(k, v). (k, JStr v)) m) = Inr m"
    using v by (intro emapM_map_id) (auto simp: metadata_entry_Inr valid_metadata_def list_all_iff valid_pair_def)
  with v fold_set_property_id [of "[]" m] show ?thesis
    by (simp add: metadata_of_def valid_metadata_def MAX_METADATA_KEYS_def)
qed

lemma validate_json: "valid_order_input i \<Longrightarrow> validateOrderInput (order_input_json i) = Inr i"
proof -
  assume v: "valid_order_input i"
  have "emapM line_item_of (map line_item_json (coLineItems i)) = Inr (coLineItems i)"
    using v by (intro emapM_map_id) (auto simp: valid_order_input_def list_all_iff line_item_of_json)
  moreover have "metadata_of (case coMetadata i of None \<Rightarrow> None
      | Some m \<Rightarrow> Some (JObj (map (\<lambda>(k, v). (k, JStr v)) m))) = Inr (coMetadata i)"
    using v metadata_of_json by (auto simp: metadata_of_def valid_order_input_def split: option.split)
  ultimately show ?thesis
    using v unfolding validateOrderInput_def order_input_json_def
    by (cases i; cases "coMetadata i")
       (auto simp: properties_of_def product_of_name isStr_def valid_order_input_def MAX_LINE_ITEMS_def)
qed

text \<open>
  C9: what \<open>validateOrderInput\<close> returns is valid (1 to 100 items of positive quantity and bounded
  price, bounded strings, at most 20 distinct metadata keys), and validating it again changes nothing.
\<close>

theorem validateOrderInput_normalises:
  assumes "validateOrderInput j = Inr i"
  shows "valid_order_input i \<and> validateOrderInput (order_input_json i) = Inr i"
  using validated [OF assms] validate_json by blast

definition example_input :: json where
  "example_input = JObj
     [(''product'', JStr ''scribbit''), (''customerRef'', JStr ''c1''), (''extra'', JBool True),
      (''lineItems'', JArr [JObj [(''sku'', JStr ''s''), (''description'', JStr ''d''),
         (''quantity'', JInt 2), (''unitSats'', JInt 500)]]),
      (''metadata'', JObj [(''__proto__'', JStr ''x''), (''b'', JStr ''1''), (''a'', JStr ''2'')])]"

definition example_clean :: CreateOrderInput where
  "example_clean = \<lparr>coProduct = Scribbit, coCustomerRef = ''c1'',
     coLineItems = [\<lparr>liSku = ''s'', liDescription = ''d'', liQuantity = 2, liUnitSats = 500\<rparr>],
     coMetadata = Some [(''b'', ''1''), (''a'', ''2'')]\<rparr>"

lemma example_validates: "validateOrderInput example_input = Inr example_clean"
  by (simp add: example_input_def example_clean_def validateOrderInput_def properties_of_def product_of_def
      product_name_def isStr_def line_item_of_def MAX_LINE_ITEMS_def MAX_STR_def assertSats_json_def
      assertSats_def MAX_SATS_def metadata_of_def MAX_METADATA_KEYS_def metadata_entry_def set_property_def)

theorem validateOrderInput_normalises_witness:
  "valid_order_input example_clean \<and> validateOrderInput (order_input_json example_clean) = Inr example_clean"
  by (rule validateOrderInput_normalises [OF example_validates])

subsection \<open>Canonical text determines the value\<close>

text \<open>
  \<open>norm_json\<close> sorts the properties of every object; values with the same canonical text have the same
  normal form. \<open>raw_text\<close> prints without sorting. Numbers other than integers are left out.
\<close>

fun norm_json :: "json \<Rightarrow> json" where
  "norm_json (JArr xs) = JArr (map norm_json xs)"
| "norm_json (JObj ps) = JObj (sort_keys (map (\<lambda>(k, v). (k, norm_json v)) ps))"
| "norm_json j = j"

fun raw_text :: "json \<Rightarrow> string" where
  "raw_text JNull = ''null''"
| "raw_text (JBool b) = (if b then ''true'' else ''false'')"
| "raw_text (JInt n) = int_text n"
| "raw_text (JFloat t) = t"
| "raw_text (JStr s) = quote s"
| "raw_text (JArr xs) = ''['' @ join_with '','' (map raw_text xs) @ '']''"
| "raw_text (JObj ps) = CHR 0x7B # join_with '','' (map (\<lambda>(k, v). member_text (k, raw_text v)) ps) @ [CHR 0x7D]"

fun no_float :: "json \<Rightarrow> bool" where
  "no_float (JArr xs) = list_all no_float xs"
| "no_float (JObj ps) = list_all (\<lambda>(k, v). no_float v) ps"
| "no_float (JFloat t) = False"
| "no_float j = True"

lemma sort_keys_map: "sort_keys (map (\<lambda>(k, v). (k, f v)) ps) = map (\<lambda>(k, v). (k, f v)) (sort_keys ps)"
proof -
  have i: "insert_key (k, f v) (map (\<lambda>(k, v). (k, f v)) qs) = map (\<lambda>(k, v). (k, f v)) (insert_key (k, v) qs)" for k v qs
    by (induction qs) auto
  show ?thesis unfolding sort_keys_def by (induction ps) (auto simp: i)
qed

lemma set_insert_key: "set (insert_key p qs) = insert p (set qs)"
  by (induction p qs rule: insert_key.induct) auto

lemma set_sort_keys [simp]: "set (sort_keys ps) = set ps"
  unfolding sort_keys_def by (induction ps) (simp_all add: set_insert_key)

lemma map_fst_insert_key: "map fst (insert_key p qs) = map fst (insert_key (fst p, ()) (map (\<lambda>q. (fst q, ())) qs))"
  by (induction p qs rule: insert_key.induct) auto

lemma length_insert_key: "length (insert_key p qs) = Suc (length qs)"
  by (induction p qs rule: insert_key.induct) auto

lemma length_sort_keys [simp]: "length (sort_keys ps) = length ps"
  unfolding sort_keys_def by (induction ps) (simp_all add: length_insert_key)

lemma canonical_raw: "canonical j = raw_text (norm_json j)"
proof (induction j rule: canonical.induct)
  case (7 ps)
  have "map (\<lambda>(k, v). (k, canonical v)) ps = map (\<lambda>(k, v). (k, raw_text v)) (map (\<lambda>(k, v). (k, norm_json v)) ps)"
    using 7 by auto
  then have "sort_keys (map (\<lambda>(k, v). (k, canonical v)) ps)
      = map (\<lambda>(k, v). (k, raw_text v)) (sort_keys (map (\<lambda>(k, v). (k, norm_json v)) ps))"
    by (simp only: sort_keys_map)
  then show ?case by (simp add: comp_def case_prod_unfold)
qed (auto cong: map_cong)

lemma no_float_norm: "no_float j \<Longrightarrow> no_float (norm_json j)"
  by (induction j rule: norm_json.induct) (fastforce simp: list_all_iff)+

text \<open>Reading back one character of a string literal.\<close>

definition unquote1 :: "string \<Rightarrow> char \<times> string" where
  "unquote1 s = (let d = of_char (hd (tl s)) :: nat; r = tl (tl s) in
     if of_char (hd s) \<noteq> (92 :: nat) then (hd s, tl s)
     else if d = 98 then (char_of (8 :: nat), r) else if d = 116 then (char_of (9 :: nat), r)
     else if d = 110 then (char_of (10 :: nat), r) else if d = 102 then (char_of (12 :: nat), r)
     else if d = 114 then (char_of (13 :: nat), r)
     else if d = 117 then (char_of (16 * the (hex_val (r ! 2)) + the (hex_val (r ! 3))), drop 4 r)
     else (hd (tl s), r))"

lemma unquote1_char: "unquote1 (quote_char c @ r) = (c, r)"
proof -
  define n :: nat where "n = of_char c"
  have c: "c = char_of n" "n < 256" by (simp_all add: n_def)
  have h: "the (hex_val (hex_digit m)) = m mod 16" for m by (simp add: hex_val_digit)
  consider "n = 34 \<or> n = 92" | "n \<in> {8, 9, 10, 12, 13}" | "n < 32" "n \<notin> {8, 9, 10, 12, 13}"
    | "32 \<le> n" "n \<noteq> 34" "n \<noteq> 92" by fastforce
  then show ?thesis
  proof cases
    case 1
    then have "quote_char c = [char_of (92 :: nat), c]"
      by (simp add: quote_char_def Let_def n_def [symmetric])
    with 1 show ?thesis by (auto simp: unquote1_def n_def [symmetric])
  next
    case 2
    then have "\<exists>e. quote_char c = [char_of (92 :: nat), char_of e] \<and>
        (n, e) \<in> {(8, 98), (9, 116), (10, 110), (12, 102), (13, 114 :: nat)}"
      by (simp add: quote_char_def Let_def n_def [symmetric]) argo
    then show ?thesis by (auto simp: unquote1_def c(1))
  next
    case 3
    then have "quote_char c = [char_of (92 :: nat), char_of (117 :: nat)] @ hex4 n"
      by (auto simp: quote_char_def Let_def n_def [symmetric])
    moreover have "16 * (n div 16 mod 16) + n mod 16 = n" using 3 by (simp add: mod_less)
    ultimately show ?thesis by (simp add: unquote1_def hex4_def h c(1))
  next
    case 4
    then show ?thesis by (auto simp: quote_char_def unquote1_def Let_def n_def [symmetric])
  qed
qed

lemma quote_char_start: "quote_char c \<noteq> [] \<and> hd (quote_char c) \<noteq> char_of (34 :: nat)"
proof -
  have "of_char c \<noteq> (34 :: nat)" if "c \<noteq> char_of (34 :: nat)" using that by (metis char_of_char)
  then show ?thesis
    by (auto simp: quote_char_def Let_def dest: arg_cong [of _ _ "of_char :: char \<Rightarrow> nat"])
qed

lemma quote_char_neq: "char_of (34 :: nat) # r \<noteq> quote_char d @ u" "quote_char d @ u \<noteq> char_of (34 :: nat) # r"
  using quote_char_start [of d] by (cases "quote_char d"; force)+

lemma quote_chars_prefix:
  "concat (map quote_char s) @ char_of (34 :: nat) # r = concat (map quote_char t) @ char_of (34 :: nat) # r' \<Longrightarrow>
   s = t \<and> r = r'"
proof (induction s arbitrary: t)
  case Nil
  then show ?case
  proof (cases t)
    case (Cons d t')
    with Nil show ?thesis by (simp add: quote_char_neq)
  qed simp
next
  case (Cons c s)
  show ?case
  proof (cases t)
    case Nil
    with Cons.prems show ?thesis by (simp add: quote_char_neq)
  next
    case (Cons d t')
    let ?u = "concat (map quote_char s) @ char_of (34 :: nat) # r"
    let ?v = "concat (map quote_char t') @ char_of (34 :: nat) # r'"
    have eq: "quote_char c @ ?u = quote_char d @ ?v"
      using Cons.prems unfolding Cons by (simp only: list.map concat.simps append_assoc)
    have "(c, ?u) = unquote1 (quote_char c @ ?u)" by (rule unquote1_char [symmetric])
    also have "\<dots> = unquote1 (quote_char d @ ?v)" by (rule arg_cong [OF eq])
    also have "\<dots> = (d, ?v)" by (rule unquote1_char)
    finally have "c = d \<and> ?u = ?v" by (simp only: prod.inject)
    then have "c = d" and "?u = ?v" by (rule conjunct1, rule conjunct2)
    with Cons.IH [OF \<open>?u = ?v\<close>] show ?thesis unfolding Cons by (simp only: simp_thms)
  qed
qed

lemma quote_prefix: "quote s @ r = quote t @ r' \<Longrightarrow> s = t \<and> r = r'"
proof -
  assume "quote s @ r = quote t @ r'"
  then have "concat (map quote_char s) @ char_of (34 :: nat) # r = concat (map quote_char t) @ char_of (34 :: nat) # r'"
    unfolding quote_def by (simp only: append_assoc append_Cons append_Nil list.inject)
  then show ?thesis by (rule quote_chars_prefix)
qed

text \<open>What may follow a value: the end, or one of \<open>,\<close>, \<open>]\<close> and the closing brace.\<close>

definition stops :: "string \<Rightarrow> bool" where
  "stops r = (case r of [] \<Rightarrow> True | c # _ \<Rightarrow> c \<in> {CHR '','', CHR '']'', CHR 0x7D})"

lemma stops_simps [simp]: "stops []" "stops (CHR '','' # r)" "stops (CHR '']'' # r)" "stops (CHR 0x7D # r)"
  by (simp_all add: stops_def)

definition num_char :: "char \<Rightarrow> bool" where "num_char c = (is_digit c \<or> c = CHR ''-'')"

lemma num_char_stops: "stops r \<Longrightarrow> takeWhile num_char r = []"
  by (cases r) (auto simp: stops_def num_char_def is_digit_def digit_val_def)

lemma int_text_chars: "\<forall>c \<in> set (int_text n). num_char c"
  using digits_of_nat_digits [of "nat n"] digits_of_nat_digits [of "nat (- n)"]
  by (auto simp: int_text_def num_char_def list_all_iff)

lemma int_text_inj: "int_text n = int_text m \<Longrightarrow> n = m"
proof -
  assume e: "int_text n = int_text m"
  have d: "hd (digits_of_nat k) \<noteq> CHR ''-'' \<and> digits_of_nat k \<noteq> []" for k
  proof -
    have "is_digit (hd (digits_of_nat k))" using digits_of_nat_digits [of k] by (auto simp: list_all_iff)
    then show ?thesis using digits_of_nat_digits [of k] by (auto simp: is_digit_def digit_val_def)
  qed
  have n: "digits_of_nat a = digits_of_nat b \<Longrightarrow> a = b" for a b using num_digits_of_nat by metis
  show ?thesis
  proof (cases "n < 0"; cases "m < 0")
    assume "n < 0" "m < 0"
    with e n [of "nat (- n)" "nat (- m)"] show ?thesis by (simp add: int_text_def)
  next
    assume "\<not> n < 0" "\<not> m < 0"
    with e n [of "nat n" "nat m"] show ?thesis by (simp add: int_text_def)
  next
    assume "n < 0" "\<not> m < 0"
    with e d [of "nat m"] show ?thesis by (cases "digits_of_nat (nat m)") (simp_all add: int_text_def)
  next
    assume "\<not> n < 0" "m < 0"
    with e d [of "nat n"] show ?thesis by (cases "digits_of_nat (nat n)") (simp_all add: int_text_def)
  qed
qed

lemma int_text_prefix:
  assumes "int_text n @ r = int_text m @ r'" and "stops r" and "stops r'"
  shows "n = m \<and> r = r'"
proof -
  have "takeWhile num_char (int_text n @ r) = int_text n" "takeWhile num_char (int_text m @ r') = int_text m"
    using int_text_chars num_char_stops assms(2,3) by (simp_all add: takeWhile_append2)
  with assms(1) have "int_text n = int_text m" by simp
  with assms(1) int_text_inj show ?thesis by auto
qed

lemma int_text_start: "int_text n \<noteq> [] \<and> num_char (hd (int_text n))"
  using int_text_chars [of n] digits_of_nat_digits [of "nat n"]
  by (auto simp: int_text_def hd_in_set)

text \<open>The kind of a value shows in the first character of its text.\<close>

definition start_kind :: "char \<Rightarrow> nat" where
  "start_kind c = (if c = CHR ''n'' then 0 else if c = CHR ''t'' then 1 else if c = CHR ''f'' then 2
     else if c = CHR 0x22 then 3 else if c = CHR ''['' then 4 else if c = CHR 0x7B then 5
     else if num_char c then 6 else 7)"

fun kind :: "json \<Rightarrow> nat" where
  "kind JNull = 0" | "kind (JBool b) = (if b then 1 else 2)" | "kind (JStr s) = 3" | "kind (JArr xs) = 4"
| "kind (JObj ps) = 5" | "kind (JInt n) = 6" | "kind (JFloat t) = 7"

lemma quote_mark: "char_of (34 :: nat) = CHR 0x22"
  by code_simp

lemma raw_start: "no_float j \<Longrightarrow> raw_text j \<noteq> [] \<and> start_kind (hd (raw_text j)) = kind j"
proof (cases j)
  case (JInt n)
  have nc: "\<not> num_char (CHR ''n'')" "\<not> num_char (CHR ''t'')" "\<not> num_char (CHR ''f'')" "\<not> num_char (CHR 0x22)"
    "\<not> num_char (CHR ''['')" "\<not> num_char (CHR 0x7B)"
    by (simp_all add: num_char_def is_digit_def digit_val_def)
  have "num_char (hd (int_text n))" using int_text_start by simp
  then have "start_kind (hd (int_text n)) = 6" using nc by (auto simp: start_kind_def)
  then show ?thesis using JInt int_text_start [of n] by simp
qed (auto simp: start_kind_def quote_def quote_mark)

lemma join_with_Cons: "join_with d (x # xs) = x @ concat (map (\<lambda>y. d @ y) xs)"
  by (induction xs arbitrary: x) auto

lemma tail_prefix:
  assumes "\<And>x y r r'. x \<in> set xs \<Longrightarrow> y \<in> set ys \<Longrightarrow> f x @ r = f y @ r' \<Longrightarrow> stops r \<Longrightarrow> stops r' \<Longrightarrow> x = y \<and> r = r'"
    and "c = CHR '']'' \<or> c = CHR 0x7D"
    and "concat (map (\<lambda>x. CHR '','' # f x) xs) @ c # r = concat (map (\<lambda>x. CHR '','' # f x) ys) @ c # r'"
  shows "xs = ys \<and> r = r'"
  using assms
proof (induction xs arbitrary: ys)
  case Nil
  then show ?case by (cases ys) auto
next
  case (Cons x xs)
  obtain y ys' where ys: "ys = y # ys'" using Cons.prems(2,3) by (cases ys) auto
  let ?t = "\<lambda>zs q. concat (map (\<lambda>x. CHR '','' # f x) zs) @ c # q"
  have st: "stops (?t zs q)" for zs q using Cons.prems(2) by (cases zs) auto
  have "x = y \<and> ?t xs r = ?t ys' r'"
    using Cons.prems(3) ys st by (intro Cons.prems(1)) auto
  moreover have "xs = ys' \<and> r = r'"
    by (rule Cons.IH [OF _ Cons.prems(2)]) (use Cons.prems(1) ys calculation in auto)
  ultimately show ?case using ys by simp
qed

lemma join_prefix:
  assumes "\<And>x y r r'. x \<in> set xs \<Longrightarrow> y \<in> set ys \<Longrightarrow> f x @ r = f y @ r' \<Longrightarrow> stops r \<Longrightarrow> stops r' \<Longrightarrow> x = y \<and> r = r'"
    and "c = CHR '']'' \<or> c = CHR 0x7D"
    and "\<And>x. x \<in> set xs \<union> set ys \<Longrightarrow> f x \<noteq> [] \<and> hd (f x) \<noteq> c"
    and "join_with '','' (map f xs) @ c # r = join_with '','' (map f ys) @ c # r'"
  shows "xs = ys \<and> r = r'"
proof (cases xs)
  case Nil
  show ?thesis
  proof (cases ys)
    case (Cons y ys')
    with assms(3) [of y] assms(4) Nil show ?thesis by (cases "f y") (auto simp: join_with_Cons)
  qed (use assms(4) Nil in auto)
next
  case (Cons x xs')
  show ?thesis
  proof (cases ys)
    case Nil
    with assms(3) [of x] assms(4) Cons show ?thesis by (cases "f x") (auto simp: join_with_Cons)
  next
    case ys: (Cons y ys')
    have m: "concat (map (\<lambda>y. '','' @ y) (map f zs)) = concat (map (\<lambda>x. CHR '','' # f x) zs)" for zs
      by (induction zs) auto
    let ?t = "\<lambda>zs q. concat (map (\<lambda>x. CHR '','' # f x) zs) @ c # q"
    have st: "stops (?t zs q)" for zs q using assms(2) by (cases zs) auto
    have "f x @ ?t xs' r = f y @ ?t ys' r'"
      using assms(4) unfolding Cons ys list.map join_with_Cons m by simp
    then have *: "x = y \<and> ?t xs' r = ?t ys' r'"
      using st Cons ys by (intro assms(1)) auto
    have "xs' = ys' \<and> r = r'"
      by (rule tail_prefix [where f = f, OF _ assms(2)]) (use assms(1) * Cons ys in auto)
    with * Cons ys show ?thesis by simp
  qed
qed

lemma member_prefix:
  assumes "member_text (k, s) @ r = member_text (k', s') @ r'"
  shows "k = k' \<and> s @ r = s' @ r'"
proof -
  have "quote k @ (CHR '':'' # s @ r) = quote k' @ (CHR '':'' # s' @ r')"
    using assms by (simp add: member_text_def)
  from quote_prefix [OF this] show ?thesis by simp
qed

lemma raw_kind: "no_float x \<Longrightarrow> no_float y \<Longrightarrow> raw_text x @ r = raw_text y @ r' \<Longrightarrow> kind x = kind y"
  using raw_start [of x] raw_start [of y] by (metis hd_append2)

lemma raw_prefix:
  "no_float x \<Longrightarrow> no_float y \<Longrightarrow> raw_text x @ r = raw_text y @ r' \<Longrightarrow> stops r \<Longrightarrow> stops r' \<Longrightarrow> x = y \<and> r = r'"
proof (induction x arbitrary: y r r' rule: raw_text.induct)
  case (6 xs)
  then obtain ys where y: "y = JArr ys"
    using raw_kind [OF 6(2-4)] by (cases y) (auto split: if_splits)
  have nb: "raw_text j \<noteq> [] \<and> hd (raw_text j) \<noteq> CHR '']''" if "no_float j" for j
    using raw_start [OF that] that by (cases j) (auto simp: start_kind_def num_char_def is_digit_def digit_val_def split: if_splits)
  have "xs = ys \<and> r = r'"
  proof (rule join_prefix [where f = raw_text and c = "CHR '']''"])
    show "join_with '','' (map raw_text xs) @ CHR '']'' # r = join_with '','' (map raw_text ys) @ CHR '']'' # r'"
      using 6(4) y by simp
    show "x = z \<and> s = s'" if "x \<in> set xs" "z \<in> set ys" "raw_text x @ s = raw_text z @ s'" "stops s" "stops s'" for x z s s'
      using 6(1) [OF that(1) _ _ that(3-5)] 6(2,3) y that(1,2) by (simp add: list_all_iff)
    show "raw_text z \<noteq> [] \<and> hd (raw_text z) \<noteq> CHR '']''" if "z \<in> set xs \<union> set ys" for z
      using 6(2,3) y that by (intro nb) (auto simp: list_all_iff)
  qed simp
  then show ?case using y by simp
next
  case (7 ps)
  then obtain qs where y: "y = JObj qs"
    using raw_kind [OF 7(2-4)] by (cases y) (auto split: if_splits)
  let ?f = "\<lambda>(k, v). member_text (k, raw_text v)"
  have "ps = qs \<and> r = r'"
  proof (rule join_prefix [where f = ?f and c = "CHR 0x7D"])
    show "join_with '','' (map ?f ps) @ CHR 0x7D # r = join_with '','' (map ?f qs) @ CHR 0x7D # r'"
      using 7(4) y by simp
    fix p q s s'
    assume pq: "p \<in> set ps" "q \<in> set qs" "?f p @ s = ?f q @ s'" "stops s" "stops s'"
    obtain k v k' v' where p: "p = (k, v)" and q: "q = (k', v')" by (cases p, cases q) auto
    have "k = k'" "raw_text v @ s = raw_text v' @ s'"
      by (use member_prefix [OF pq(3) [unfolded p q case_prod_conv]] in simp_all)
    moreover have "no_float v" "no_float v'" using 7(2,3) pq y p q by (auto simp: list_all_iff)
    ultimately show "p = q \<and> s = s'"
      using 7(1) [OF pq(1) p [symmetric], of v' s s'] pq(4,5) p q by simp
  qed (auto simp: member_text_def quote_def quote_mark)
  then show ?case using y by simp
next
  case (3 n)
  then obtain m where y: "y = JInt m"
    using raw_kind [OF 3(1-3)] by (cases y) (auto split: if_splits)
  show ?case using int_text_prefix [of n r m r'] 3(3-5) y by simp
next
  case (5 s)
  then obtain t where y: "y = JStr t"
    using raw_kind [OF 5(1-3)] by (cases y) (auto split: if_splits)
  have "quote s @ r = quote t @ r'" using 5(3) y by (simp only: raw_text.simps)
  from quote_prefix [OF this] show ?case using y by (simp only: simp_thms)
next
  case 1
  then show ?case using raw_kind [OF 1(1-3)] by (cases y) (auto split: if_splits)
next
  case (2 b)
  then show ?case using raw_kind [OF 2(1-3)] by (cases y) (auto split: if_splits)
qed simp

lemma canonical_inj: "no_float x \<Longrightarrow> no_float y \<Longrightarrow> canonical x = canonical y \<Longrightarrow> norm_json x = norm_json y"
  using raw_prefix [of "norm_json x" "norm_json y" "[]" "[]"] by (simp add: canonical_raw no_float_norm)

text \<open>Sorting by distinct keys depends on the set of properties only.\<close>

lemma str_le_total: "str_le s t \<or> str_le t s"
proof (induction s t rule: str_le.induct)
  case (3 a s b t)
  show ?case
  proof (cases "a = b")
    case False
    then have "(of_char a :: nat) < of_char b \<or> (of_char b :: nat) < of_char a"
      by (metis char_of_char nat_neq_iff)
    then show ?thesis using False by simp
  qed (use 3 in simp)
qed auto

lemma str_le_antisym: "str_le s t \<Longrightarrow> str_le t s \<Longrightarrow> s = t"
proof (induction s t rule: str_le.induct)
  case (1 t)
  then show ?case by (cases t) auto
qed (auto split: if_splits)

lemma str_le_trans: "str_le s t \<Longrightarrow> str_le t u \<Longrightarrow> str_le s u"
proof (induction s t arbitrary: u rule: str_le.induct)
  case (3 a s b t)
  then show ?case by (cases u) (auto split: if_splits)
qed auto

abbreviation keys_sorted :: "(string \<times> 'a) list \<Rightarrow> bool" where
  "keys_sorted ps \<equiv> sorted_wrt (\<lambda>p q. str_le (fst p) (fst q)) ps"

lemma sorted_insert_key: "keys_sorted qs \<Longrightarrow> keys_sorted (insert_key p qs)"
proof (induction p qs rule: insert_key.induct)
  case (2 p q qs)
  have "str_le (fst q) (fst p)" if "\<not> str_le (fst p) (fst q)" using that str_le_total by blast
  moreover have "str_le (fst p) (fst r)" if "str_le (fst p) (fst q)" "r \<in> set qs" for r
    using that 2(2) str_le_trans by fastforce
  ultimately show ?case using 2 by (auto simp: set_insert_key)
qed simp

lemma sorted_sort_keys: "keys_sorted (sort_keys ps)"
  unfolding sort_keys_def by (induction ps) (simp_all add: sorted_insert_key)

lemma distinct_insert_key: "distinct (map fst (insert_key p qs)) \<longleftrightarrow> distinct (map fst (p # qs))"
proof (induction p qs rule: insert_key.induct)
  case (2 p q qs)
  then show ?case by (auto simp: set_insert_key)
qed simp

lemma distinct_sort_keys: "distinct (map fst (sort_keys ps)) \<longleftrightarrow> distinct (map fst ps)"
proof (induction ps)
  case (Cons p ps)
  have "fst ` set (sort_keys ps) = fst ` set ps" by simp
  with Cons show ?case by (simp add: sort_keys_def distinct_insert_key)
qed (simp add: sort_keys_def)

lemma keys_sorted_unique:
  "keys_sorted ps \<Longrightarrow> keys_sorted qs \<Longrightarrow> distinct (map fst ps) \<Longrightarrow> distinct (map fst qs) \<Longrightarrow>
   set ps = set qs \<Longrightarrow> ps = qs"
proof (induction ps arbitrary: qs)
  case (Cons p ps)
  then obtain q qs' where qs: "qs = q # qs'" by (cases qs) auto
  have "p = q"
  proof (rule ccontr)
    assume "p \<noteq> q"
    then have "p \<in> set qs'" "q \<in> set ps" using Cons.prems(5) qs by auto
    then have "str_le (fst q) (fst p)" "str_le (fst p) (fst q)" using Cons.prems(1,2) qs by auto
    then have "fst p = fst q" by (intro str_le_antisym)
    with \<open>p \<in> set qs'\<close> Cons.prems(4) qs show False by (metis distinct.simps(2) image_eqI list.set_map list.simps(9))
  qed
  moreover have "p \<notin> set ps" "q \<notin> set qs'" using Cons.prems(3,4) qs by (auto simp: image_iff)
  ultimately have "set ps = set qs'" using Cons.prems(5) qs by auto
  with Cons \<open>p = q\<close> qs show ?case by auto
qed simp

lemma sort_keys_eq_iff:
  assumes "distinct (map fst ps)" and "distinct (map fst qs)"
  shows "sort_keys ps = sort_keys qs \<longleftrightarrow> set ps = set qs"
  using keys_sorted_unique [OF sorted_sort_keys sorted_sort_keys, of ps qs] assms
  by (auto simp: distinct_sort_keys dest: arg_cong [of _ _ set])

lemma map_of_eq_iff_set:
  assumes "distinct (map fst ps)" and "distinct (map fst qs)"
  shows "map_of ps = map_of qs \<longleftrightarrow> set ps = set qs"
  using assms by (metis map_of_inject_set)

definition same_request :: "CreateOrderInput \<Rightarrow> CreateOrderInput \<Rightarrow> bool" where
  "same_request i i' \<longleftrightarrow>
     coProduct i = coProduct i' \<and> coCustomerRef i = coCustomerRef i' \<and> coLineItems i = coLineItems i' \<and>
     rel_option (\<lambda>m m'. set m = set m') (coMetadata i) (coMetadata i')"

lemma norm_line_item_inj: "norm_json (line_item_json a) = norm_json (line_item_json b) \<longleftrightarrow> a = b"
proof -
  have n: "norm_json (line_item_json li) = JObj (sort_keys [(''sku'', JStr (liSku li)),
      (''description'', JStr (liDescription li)), (''quantity'', JInt (liQuantity li)),
      (''unitSats'', JInt (liUnitSats li))])" for li
    by (simp add: line_item_json_def)
  have "a = b" if "norm_json (line_item_json a) = norm_json (line_item_json b)"
  proof -
    let ?s = "\<lambda>li. {(''sku'', JStr (liSku li)), (''description'', JStr (liDescription li)),
      (''quantity'', JInt (liQuantity li)), (''unitSats'', JInt (liUnitSats li))}"
    have s: "?s a = ?s b" using that [unfolded n] by (simp add: sort_keys_eq_iff)
    have "(''sku'', JStr (liSku a)) \<in> ?s b" "(''description'', JStr (liDescription a)) \<in> ?s b"
      "(''quantity'', JInt (liQuantity a)) \<in> ?s b" "(''unitSats'', JInt (liUnitSats a)) \<in> ?s b"
      by (simp_all only: s [symmetric] insert_iff simp_thms)
    then show "a = b" by (cases a; cases b) simp
  qed
  then show ?thesis by blast
qed

lemma product_name_inj: "product_name a = product_name b \<longleftrightarrow> a = b"
  by (cases a; cases b) (simp_all add: product_name_def)

lemma norm_metadata:
  assumes "distinct (map fst m)" and "distinct (map fst m')"
  shows "norm_json (JObj (map (\<lambda>(k, v). (k, JStr v)) m)) = norm_json (JObj (map (\<lambda>(k, v). (k, JStr v)) m'))
    \<longleftrightarrow> set m = set m'"
proof -
  let ?g = "\<lambda>(k, v). (k, JStr v)"
  have d: "distinct (map fst (map ?g xs)) = distinct (map fst xs)" for xs :: "(string \<times> string) list"
    by (simp add: comp_def case_prod_unfold)
  have "inj ?g" by (auto simp: inj_on_def)
  from inj_image_eq_iff [OF this, of "set m" "set m'"]
  have "set (map ?g m) = set (map ?g m') \<longleftrightarrow> set m = set m'" by (simp only: list.set_map)
  then show ?thesis using assms d sort_keys_eq_iff [of "map ?g m" "map ?g m'"]
    by (simp add: comp_def case_prod_unfold)
qed

lemma norm_order_input:
  assumes "valid_order_input i" and "valid_order_input i'"
  shows "norm_json (order_input_json i) = norm_json (order_input_json i') \<longleftrightarrow> same_request i i'"
proof -
  let ?md = "\<lambda>m. JObj (map (\<lambda>(k, v). (k, JStr v)) m)"
  let ?ps = "\<lambda>i. [(''product'', JStr (product_name (coProduct i))), (''customerRef'', JStr (coCustomerRef i)),
     (''lineItems'', JArr (map norm_json (map line_item_json (coLineItems i))))]
     @ (case coMetadata i of None \<Rightarrow> [] | Some m \<Rightarrow> [(''metadata'', norm_json (?md m))])"
  have n: "norm_json (order_input_json i) = JObj (sort_keys (?ps i))" for i
    by (cases "coMetadata i") (simp_all add: order_input_json_def)
  have d: "distinct (map fst (?ps i))" for i by (cases "coMetadata i") simp_all
  have g: "map_of (?ps i) ''metadata'' = map_option (\<lambda>m. norm_json (?md m)) (coMetadata i)" for i
    by (cases "coMetadata i") simp_all
  have li: "map norm_json (map line_item_json xs) = map norm_json (map line_item_json ys) \<longleftrightarrow> xs = ys" for xs ys
    by (induction xs arbitrary: ys) (case_tac ys; simp add: norm_line_item_inj)+
  have md: "map_option (\<lambda>m. norm_json (?md m)) (coMetadata i) = map_option (\<lambda>m. norm_json (?md m)) (coMetadata i')
      \<longleftrightarrow> rel_option (\<lambda>m m'. set m = set m') (coMetadata i) (coMetadata i')"
    using assms norm_metadata
    by (cases "coMetadata i"; cases "coMetadata i'") (auto simp: valid_order_input_def valid_metadata_def)
  have "norm_json (order_input_json i) = norm_json (order_input_json i') \<longleftrightarrow> set (?ps i) = set (?ps i')"
    unfolding n json.inject by (rule sort_keys_eq_iff [OF d d])
  also have "\<dots> \<longleftrightarrow> map_of (?ps i) = map_of (?ps i')" by (rule map_of_eq_iff_set [OF d d, symmetric])
  also have "\<dots> \<longleftrightarrow> same_request i i'"
  proof
    assume e: "map_of (?ps i) = map_of (?ps i')"
    from fun_cong [OF e, of "''product''"] fun_cong [OF e, of "''customerRef''"] fun_cong [OF e, of "''lineItems''"]
      fun_cong [OF e, of "''metadata''"]
    show "same_request i i'"
      unfolding g md by (simp add: same_request_def product_name_inj li del: map_map)
  next
    assume s: "same_request i i'"
    then have "map_option (\<lambda>m. norm_json (?md m)) (coMetadata i) = map_option (\<lambda>m. norm_json (?md m)) (coMetadata i')"
      unfolding md by (simp add: same_request_def)
    with s show "map_of (?ps i) = map_of (?ps i')"
      by (cases "coMetadata i"; cases "coMetadata i'") (auto simp: same_request_def)
  qed
  finally show ?thesis .
qed

lemma no_float_order: "no_float (order_input_json i)"
  by (auto simp: order_input_json_def line_item_json_def list_all_iff split: option.splits)

text \<open>
  C10: the idempotency fingerprint covers exactly the request. Two validated orders have the same
  canonical text if and only if they agree on product, customer, items in order, and metadata up to the
  order of its keys.
\<close>

theorem canonical_identifies_request:
  assumes "valid_order_input i" and "valid_order_input i'"
  shows "canonical (order_input_json i) = canonical (order_input_json i') \<longleftrightarrow> same_request i i'"
  using norm_order_input [OF assms] canonical_inj [OF no_float_order no_float_order, of i i']
  by (auto simp: canonical_raw)

theorem canonical_identifies_request_witness:
  "canonical (order_input_json example_clean) =
   canonical (order_input_json (example_clean\<lparr>coMetadata := Some [(''a'', ''2''), (''b'', ''1'')]\<rparr>))"
proof -
  have v: "valid_order_input example_clean"
      "valid_order_input (example_clean\<lparr>coMetadata := Some [(''a'', ''2''), (''b'', ''1'')]\<rparr>)"
    by (simp_all add: valid_order_input_def example_clean_def valid_line_item_def valid_metadata_def
        valid_pair_def MAX_SATS_def)
  show ?thesis
    unfolding canonical_identifies_request [OF v] by (auto simp: same_request_def example_clean_def)
qed


end
