(* ===== verification/EventsMatch.thy ===== *)
theory EventsMatch imports LedgerJson begin

text \<open>
  \<open>match.ts\<close> of \<open>platform/events/src\<close>: routing keys, subscription patterns and topic templates as dot-separated
  words, and the memoised matcher with its proof against the declarative meaning of a pattern.
\<close>

subsection \<open>Words\<close>

text \<open>\<open>s.split('.')\<close>, which has at least one word, and \<open>words.join('.')\<close>.\<close>

fun split_dots :: "string \<Rightarrow> string list" where
  "split_dots [] = [[]]"
| "split_dots (c # s) =
     (if c = CHR ''.'' then [] # split_dots s
      else case split_dots s of [] \<Rightarrow> [[c]] | w # ws \<Rightarrow> (c # w) # ws)"

abbreviation join_dots :: "string list \<Rightarrow> string" where
  "join_dots \<equiv> join_with ''.''"

text \<open>\<open>/^[a-z0-9_-]+$/\<close>.\<close>

definition word_char :: "char \<Rightarrow> bool" where
  "word_char c = (let n = of_char c :: nat in
     (97 \<le> n \<and> n \<le> 122) \<or> (48 \<le> n \<and> n \<le> 57) \<or> c = CHR ''_'' \<or> c = CHR ''-'')"

definition WORD :: "string \<Rightarrow> bool" where
  "WORD w = (w \<noteq> [] \<and> list_all word_char w)"

definition PATTERN_WORD :: "string \<Rightarrow> bool" where
  "PATTERN_WORD w = (WORD w \<or> w = ''*'' \<or> w = ''#'')"

definition isRoutingKey :: "string \<Rightarrow> bool" where
  "isRoutingKey s = (s \<noteq> [] \<and> list_all WORD (split_dots s))"

definition isPattern :: "string \<Rightarrow> bool" where
  "isPattern s = (s \<noteq> [] \<and> list_all PATTERN_WORD (split_dots s))"

subsection \<open>The memoised matcher\<close>

text \<open>
  \<open>go\<close> on the words from index \<open>i\<close> of the pattern and from \<open>j\<close> of the key, \<open>n\<close> words long; the memo maps
  \<open>i * (n + 1) + j\<close> to the answer found before.
\<close>

function go :: "nat \<Rightarrow> string list \<Rightarrow> string list \<Rightarrow> nat \<Rightarrow> nat \<Rightarrow> (nat \<rightharpoonup> bool) \<Rightarrow> bool \<times> (nat \<rightharpoonup> bool)" where
  "go n ps ks i j memo =
     (let key = i * (n + 1) + j in
      case memo key of
        Some hit \<Rightarrow> (hit, memo)
      | None \<Rightarrow>
          let (r, m) =
            (case ps of
               [] \<Rightarrow> (ks = [], memo)
             | w # ps' \<Rightarrow>
                 if w = ''#''
                 then (let (r1, m1) = go n ps' ks (i + 1) j memo in
                       if r1 then (True, m1)
                       else (case ks of [] \<Rightarrow> (False, m1) | k # ks' \<Rightarrow> go n (w # ps') ks' i (j + 1) m1))
                 else (case ks of
                        [] \<Rightarrow> (False, memo)
                      | k # ks' \<Rightarrow> if w = ''*'' \<or> w = k then go n ps' ks' (i + 1) (j + 1) memo else (False, memo)))
          in (r, m(key \<mapsto> r)))"
  by pat_completeness auto

termination
  by (relation "measure (\<lambda>(n, ps, ks, i, j, memo). length ps + length ks)") auto

declare go.simps [simp del]

definition matchesPattern :: "string \<Rightarrow> string \<Rightarrow> bool" where
  "matchesPattern pattern routingKey =
     (let p = split_dots pattern; k = split_dots routingKey in fst (go (length k) p k 0 0 Map.empty))"

text \<open>What a pattern means: \<open>#\<close> stands for any number of words, \<open>*\<close> for one, any other word for itself.\<close>

primrec fits :: "string list \<Rightarrow> string list \<Rightarrow> bool" where
  "fits [] ks = (ks = [])"
| "fits (w # ps) ks =
     (if w = ''#'' then \<exists>n \<le> length ks. fits ps (drop n ks)
      else ks \<noteq> [] \<and> (w = ''*'' \<or> w = hd ks) \<and> fits ps (tl ks))"

lemma fits_hash: "fits (''#'' # ps) ks \<longleftrightarrow> fits ps ks \<or> (ks \<noteq> [] \<and> fits (''#'' # ps) (tl ks))"
proof
  assume "fits (''#'' # ps) ks"
  then obtain n where n: "n \<le> length ks" "fits ps (drop n ks)" by auto
  show "fits ps ks \<or> (ks \<noteq> [] \<and> fits (''#'' # ps) (tl ks))"
  proof (cases n)
    case (Suc m)
    then have "ks \<noteq> []" "fits (''#'' # ps) (tl ks)" using n by (auto simp: drop_Suc intro!: exI [of _ m])
    then show ?thesis by blast
  qed (use n in simp)
next
  assume "fits ps ks \<or> (ks \<noteq> [] \<and> fits (''#'' # ps) (tl ks))"
  then show "fits (''#'' # ps) ks"
  proof
    assume "fits ps ks"
    then show ?thesis by (auto intro!: exI [of _ 0])
  next
    assume h: "ks \<noteq> [] \<and> fits (''#'' # ps) (tl ks)"
    then obtain n where "n \<le> length (tl ks)" "fits ps (drop n (tl ks))" by auto
    with h show ?thesis by (auto simp: drop_Suc Suc_le_eq intro!: exI [of _ "Suc n"]) (cases ks; simp)
  qed
qed

text \<open>Every entry of the memo is right for the indices its key stands for.\<close>

definition memo_ok :: "string list \<Rightarrow> string list \<Rightarrow> (nat \<rightharpoonup> bool) \<Rightarrow> bool" where
  "memo_ok p k memo \<longleftrightarrow> (\<forall>i j r. j \<le> length k \<longrightarrow> memo (i * (length k + 1) + j) = Some r \<longrightarrow> r = fits (drop i p) (drop j k))"

lemma memo_upd:
  assumes "memo_ok p k m" and "j \<le> length k" and "r = fits (drop i p) (drop j k)"
  shows "memo_ok p k (m(i * (length k + 1) + j \<mapsto> r))"
  unfolding memo_ok_def
proof (intro allI impI)
  fix i' j' r'
  assume j: "j' \<le> length k" and m: "(m(i * (length k + 1) + j \<mapsto> r)) (i' * (length k + 1) + j') = Some r'"
  show "r' = fits (drop i' p) (drop j' k)"
  proof (cases "i' * (length k + 1) + j' = i * (length k + 1) + j")
    case True
    have d: "(a * m + b) div m = a" if "b < m" for a b m :: nat using that by simp
    have "i' = (i' * (length k + 1) + j') div (length k + 1)" "i = (i * (length k + 1) + j) div (length k + 1)"
      using d [of j' "length k + 1"] d [of j "length k + 1"] j assms(2) by (simp_all del: mult_Suc_right)
    with True have "i' = i" by simp
    with True assms(3) m show ?thesis by simp
  next
    case False
    with m j assms(1) show ?thesis by (simp add: memo_ok_def)
  qed
qed

lemma go_fits:
  "memo_ok p k memo \<Longrightarrow> ps = drop i p \<Longrightarrow> ks = drop j k \<Longrightarrow> j \<le> length k \<Longrightarrow> n = length k \<Longrightarrow>
   fst (go n ps ks i j memo) = fits ps ks \<and> memo_ok p k (snd (go n ps ks i j memo))"
proof (induction "length ps + length ks" arbitrary: ps ks i j memo rule: less_induct)
  case less
  note ok = less(2) and at = less(3,4) and j = less(5) and n = less(6)
  show ?case
  proof (cases "memo (i * (n + 1) + j)")
    case (Some r)
    then have "r = fits ps ks" using ok j unfolding memo_ok_def at n by blast
    then show ?thesis using Some ok by (subst (1 2) go.simps) (simp add: Let_def)
  next
    case None
    define b where "b = (case ps of
               [] \<Rightarrow> (ks = [], memo)
             | w # ps' \<Rightarrow>
                 if w = ''#''
                 then (let (r1, m1) = go n ps' ks (i + 1) j memo in
                       if r1 then (True, m1)
                       else (case ks of [] \<Rightarrow> (False, m1) | k # ks' \<Rightarrow> go n (w # ps') ks' i (j + 1) m1))
                 else (case ks of
                        [] \<Rightarrow> (False, memo)
                      | k # ks' \<Rightarrow> if w = ''*'' \<or> w = k then go n ps' ks' (i + 1) (j + 1) memo else (False, memo)))"
    have go: "go n ps ks i j memo = (fst b, (snd b)(i * (n + 1) + j \<mapsto> fst b))"
      using None by (subst go.simps) (simp add: Let_def b_def split_beta)
    have "fst b = fits ps ks \<and> memo_ok p k (snd b)"
    proof (cases ps)
      case Nil
      then show ?thesis using ok by (simp add: b_def)
    next
      case (Cons w ps')
      have p': "ps' = drop (i + 1) p" using at(1) Cons by (metis drop_Suc Suc_eq_plus1 list.sel(3) tl_drop)
      have rest: "tl ks = drop (j + 1) k" using at(2) by (simp add: drop_Suc tl_drop)
      have j': "ks \<noteq> [] \<Longrightarrow> j + 1 \<le> length k" using at(2) by simp
      show ?thesis
      proof (cases "w = ''#''")
        case True
        have 1: "fst (go n ps' ks (i + 1) j memo) = fits ps' ks \<and> memo_ok p k (snd (go n ps' ks (i + 1) j memo))"
          by (rule less(1)) (use Cons ok p' at j n in auto)
        obtain r1 m1 where g: "go n ps' ks (i + 1) j memo = (r1, m1)" by fastforce
        show ?thesis
        proof (cases "r1 \<or> ks = []")
          case True
          then show ?thesis using 1 g Cons \<open>w = ''#''\<close> fits_hash [of ps' ks]
            by (auto simp: b_def simp del: fits.simps split: list.split)
        next
          case False
          then have 2: "fst (go n ps (tl ks) i (j + 1) m1) = fits ps (tl ks) \<and> memo_ok p k (snd (go n ps (tl ks) i (j + 1) m1))"
          proof (intro less(1))
            show "length ps + length (tl ks) < length ps + length ks" using False by (cases ks) simp_all
          qed (use 1 g False at(1) rest j' n in auto)
          show ?thesis using 1 2 False g Cons \<open>w = ''#''\<close> fits_hash [of ps' ks]
            by (cases ks) (simp_all add: b_def del: fits.simps)
        qed
      next
        case False
        show ?thesis
        proof (cases "ks \<noteq> [] \<and> (w = ''*'' \<or> w = hd ks)")
          case True
          then have "fst (go n ps' (tl ks) (i + 1) (j + 1) memo) = fits ps' (tl ks) \<and>
              memo_ok p k (snd (go n ps' (tl ks) (i + 1) (j + 1) memo))"
          proof (intro less(1))
            show "length ps' + length (tl ks) < length ps + length ks" using True Cons by (cases ks) simp_all
          qed (use True Cons ok p' rest j' n in auto)
          with True False Cons show ?thesis by (cases ks) (auto simp: b_def)
        qed (use False Cons ok in \<open>auto simp: b_def split: list.split\<close>)
      qed
    qed
    then show ?thesis using memo_upd [of p k "snd b" j "fst b" i] j n at unfolding go by simp
  qed
qed

lemma matches_fits: "matchesPattern pattern key \<longleftrightarrow> fits (split_dots pattern) (split_dots key)"
proof -
  have "memo_ok (split_dots pattern) (split_dots key) Map.empty" by (simp add: memo_ok_def)
  from go_fits [OF this, of "split_dots pattern" 0 "split_dots key" 0] show ?thesis
    by (simp add: matchesPattern_def Let_def)
qed

text \<open>
  C21: the matcher is right. \<open>matchesPattern\<close>, with its memo, answers exactly whether the words of the routing key
  fit the words of the pattern, where a star is one word and a hash any number of them.
\<close>

theorem matchesPattern_iff: "matchesPattern pattern key \<longleftrightarrow> fits (split_dots pattern) (split_dots key)"
  by (rule matches_fits)

end
