(* ===== verification/LedgerStore.thy ===== *)
theory LedgerStore imports LedgerTypes "HOL-Library.AList" begin

text \<open>
  \<open>store/order-store.ts\<close> and \<open>store/memory-store.ts\<close> of \<open>platform/ledger/src\<close>. A JavaScript \<open>Map\<close>
  is an association list in insertion order (\<open>AList.update\<close> replaces in place or appends), a \<open>Set\<close>
  a list. The optimistic-concurrency contract of the store port is the locale \<open>versioned_store\<close>.
\<close>

datatype resource_type = OrderResource | PaymentResource | RefundResource

record IdempotencyRecord =
  idScope :: string
  idKey :: string
  idFingerprint :: string
  idResourceType :: resource_type
  idResourceId :: string

record MemoryOrderStore =
  stOrders :: "(string \<times> Order) list"
  stPayments :: "(string \<times> PaymentIntent) list"
  stRefunds :: "(string \<times> Refund) list"
  stIdem :: "(string \<times> IdempotencyRecord) list"
  stDeliveries :: "string list"
  stIndexes :: "(string \<times> nat) list"

definition empty_store :: MemoryOrderStore where
  "empty_store = \<lparr>stOrders = [], stPayments = [], stRefunds = [], stIdem = [], stDeliveries = [], stIndexes = []\<rparr>"

text \<open>The key \<open>`${a}\u0000${b}`\<close>.\<close>

definition joined_key :: "string \<Rightarrow> string \<Rightarrow> string" where
  "joined_key a b = a @ [char_of (0 :: nat)] @ b"

definition putIdem :: "MemoryOrderStore \<Rightarrow> IdempotencyRecord option \<Rightarrow> ledger_error + MemoryOrderStore" where
  "putIdem st idem =
     (case idem of
        None \<Rightarrow> Inr st
      | Some r \<Rightarrow>
          let k = joined_key (idScope r) (idKey r) in
          if map_of (stIdem st) k \<noteq> None then Inl (LedgerError 409 ''idempotency_conflict'')
          else Inr (st\<lparr>stIdem := AList.update k r (stIdem st)\<rparr>))"

subsection \<open>Orders\<close>

definition memCreateOrder ::
  "Order \<Rightarrow> IdempotencyRecord option \<Rightarrow> MemoryOrderStore \<Rightarrow> ledger_error + MemoryOrderStore" where
  "memCreateOrder order idem st =
     (if map_of (stOrders st) (oId order) \<noteq> None then Inl (LedgerError 409 ''duplicate_id'')
      else ebind (putIdem st idem) (\<lambda>st'.
        Inr (st'\<lparr>stOrders := AList.update (oId order) order (stOrders st')\<rparr>)))"

definition memGetOrder :: "MemoryOrderStore \<Rightarrow> string \<Rightarrow> Order option" where
  "memGetOrder st i = map_of (stOrders st) i"

definition memUpdateOrder :: "MemoryOrderStore \<Rightarrow> Order \<Rightarrow> ledger_error + (MemoryOrderStore \<times> Order)" where
  "memUpdateOrder st order =
     (case map_of (stOrders st) (oId order) of
        None \<Rightarrow> Inl notFound
      | Some cur \<Rightarrow>
          if oVersion cur \<noteq> oVersion order then Inl ConcurrencyError
          else let nxt = order\<lparr>oVersion := oVersion order + 1\<rparr> in
            Inr (st\<lparr>stOrders := AList.update (oId order) nxt (stOrders st)\<rparr>, nxt))"

subsection \<open>Payments\<close>

definition memCreatePayment ::
  "PaymentIntent \<Rightarrow> IdempotencyRecord option \<Rightarrow> MemoryOrderStore \<Rightarrow> ledger_error + MemoryOrderStore" where
  "memCreatePayment payment idem st =
     (if map_of (stPayments st) (pyId payment) \<noteq> None then Inl (LedgerError 409 ''duplicate_id'')
      else if list_ex (\<lambda>p. pyProvider p = pyProvider payment \<and> pyProviderRef p = pyProviderRef payment)
                (map snd (stPayments st))
      then Inl (LedgerError 409 ''duplicate_provider_ref'')
      else ebind (putIdem st idem) (\<lambda>st'.
        Inr (st'\<lparr>stPayments := AList.update (pyId payment) payment (stPayments st')\<rparr>)))"

definition memGetPayment :: "MemoryOrderStore \<Rightarrow> string \<Rightarrow> PaymentIntent option" where
  "memGetPayment st i = map_of (stPayments st) i"

definition memUpdatePayment ::
  "MemoryOrderStore \<Rightarrow> PaymentIntent \<Rightarrow> ledger_error + (MemoryOrderStore \<times> PaymentIntent)" where
  "memUpdatePayment st payment =
     (case map_of (stPayments st) (pyId payment) of
        None \<Rightarrow> Inl notFound
      | Some cur \<Rightarrow>
          if pyVersion cur \<noteq> pyVersion payment then Inl ConcurrencyError
          else let nxt = payment\<lparr>pyVersion := pyVersion payment + 1\<rparr> in
            Inr (st\<lparr>stPayments := AList.update (pyId payment) nxt (stPayments st)\<rparr>, nxt))"

text \<open>
  \<open>[...].sort(byCreated)\<close>: a stable insertion sort; \<open>collate\<close> stands for \<open>localeCompare\<close>, whose
  order depends on the runtime's locale data.
\<close>

fun insert_by :: "('a \<Rightarrow> 'a \<Rightarrow> bool) \<Rightarrow> 'a \<Rightarrow> 'a list \<Rightarrow> 'a list" where
  "insert_by le x [] = [x]"
| "insert_by le x (y # ys) = (if le x y then x # y # ys else y # insert_by le x ys)"

definition sort_by :: "('a \<Rightarrow> 'a \<Rightarrow> bool) \<Rightarrow> 'a list \<Rightarrow> 'a list" where
  "sort_by le xs = foldr (insert_by le) xs []"

definition byCreated :: "(string \<Rightarrow> string \<Rightarrow> int) \<Rightarrow> string \<times> string \<Rightarrow> string \<times> string \<Rightarrow> bool" where
  "byCreated collate a b =
     (let c = collate (fst a) (fst b) in (if c \<noteq> 0 then c else collate (snd a) (snd b)) \<le> 0)"

definition memListPaymentsByOrder ::
  "(string \<Rightarrow> string \<Rightarrow> int) \<Rightarrow> string \<Rightarrow> MemoryOrderStore \<Rightarrow> PaymentIntent list" where
  "memListPaymentsByOrder collate orderId st =
     sort_by (\<lambda>a b. byCreated collate (pyCreatedAt a, pyId a) (pyCreatedAt b, pyId b))
       (filter (\<lambda>p. pyOrderId p = orderId) (map snd (stPayments st)))"

definition memListPaymentsByStatus ::
  "(string \<Rightarrow> string \<Rightarrow> int) \<Rightarrow> PaymentStatus list \<Rightarrow> nat \<Rightarrow> MemoryOrderStore \<Rightarrow> PaymentIntent list" where
  "memListPaymentsByStatus collate statuses limit st =
     take limit (sort_by (\<lambda>a b. byCreated collate (pyCreatedAt a, pyId a) (pyCreatedAt b, pyId b))
       (filter (\<lambda>p. pyStatus p \<in> set statuses) (map snd (stPayments st))))"

definition memFindPaymentByProviderRef :: "string \<Rightarrow> string \<Rightarrow> MemoryOrderStore \<Rightarrow> PaymentIntent option" where
  "memFindPaymentByProviderRef provider providerRef st =
     List.find (\<lambda>p. pyProvider p = provider \<and> pyProviderRef p = providerRef) (map snd (stPayments st))"

subsection \<open>Refunds, idempotency, deliveries, address indexes\<close>

definition memCreateRefund ::
  "Refund \<Rightarrow> IdempotencyRecord option \<Rightarrow> MemoryOrderStore \<Rightarrow> ledger_error + MemoryOrderStore" where
  "memCreateRefund refund idem st =
     (if map_of (stRefunds st) (reId refund) \<noteq> None then Inl (LedgerError 409 ''duplicate_id'')
      else ebind (putIdem st idem) (\<lambda>st'.
        Inr (st'\<lparr>stRefunds := AList.update (reId refund) refund (stRefunds st')\<rparr>)))"

definition memGetRefund :: "MemoryOrderStore \<Rightarrow> string \<Rightarrow> Refund option" where
  "memGetRefund st i = map_of (stRefunds st) i"

definition memUpdateRefund :: "MemoryOrderStore \<Rightarrow> Refund \<Rightarrow> ledger_error + (MemoryOrderStore \<times> Refund)" where
  "memUpdateRefund st refund =
     (if map_of (stRefunds st) (reId refund) = None then Inl notFound
      else Inr (st\<lparr>stRefunds := AList.update (reId refund) refund (stRefunds st)\<rparr>, refund))"

definition memListRefundsByPayment ::
  "(string \<Rightarrow> string \<Rightarrow> int) \<Rightarrow> string \<Rightarrow> MemoryOrderStore \<Rightarrow> Refund list" where
  "memListRefundsByPayment collate paymentId st =
     sort_by (\<lambda>a b. byCreated collate (reCreatedAt a, reId a) (reCreatedAt b, reId b))
       (filter (\<lambda>r. rePaymentId r = paymentId) (map snd (stRefunds st)))"

definition memListRefundsByOrder ::
  "(string \<Rightarrow> string \<Rightarrow> int) \<Rightarrow> string \<Rightarrow> MemoryOrderStore \<Rightarrow> Refund list" where
  "memListRefundsByOrder collate orderId st =
     sort_by (\<lambda>a b. byCreated collate (reCreatedAt a, reId a) (reCreatedAt b, reId b))
       (filter (\<lambda>r. reOrderId r = orderId) (map snd (stRefunds st)))"

definition memFindIdempotency :: "string \<Rightarrow> string \<Rightarrow> MemoryOrderStore \<Rightarrow> IdempotencyRecord option" where
  "memFindIdempotency scope key st = map_of (stIdem st) (joined_key scope key)"

definition memRecordWebhookDelivery :: "string \<Rightarrow> string \<Rightarrow> MemoryOrderStore \<Rightarrow> bool \<times> MemoryOrderStore" where
  "memRecordWebhookDelivery provider deliveryId st =
     (let k = joined_key provider deliveryId in
      if k \<in> set (stDeliveries st) then (False, st)
      else (True, st\<lparr>stDeliveries := stDeliveries st @ [k]\<rparr>))"

definition memAllocateAddressIndex :: "string \<Rightarrow> MemoryOrderStore \<Rightarrow> nat \<times> MemoryOrderStore" where
  "memAllocateAddressIndex scope st =
     (let n = (case map_of (stIndexes st) scope of None \<Rightarrow> 0 | Some n \<Rightarrow> n) in
      (n, st\<lparr>stIndexes := AList.update scope (n + 1) (stIndexes st)\<rparr>))"

subsection \<open>The optimistic-concurrency contract\<close>

text \<open>
  What the store port promises of its versioned updates: an update of a stale version is refused
  with \<open>ConcurrencyError\<close>, a successful one bumps the version and touches that entity only.
\<close>

locale versioned_store =
  fixes get :: "'s \<Rightarrow> string \<Rightarrow> 'e option"
    and upd :: "'s \<Rightarrow> 'e \<Rightarrow> ledger_error + ('s \<times> 'e)"
    and eid :: "'e \<Rightarrow> string"
    and ver :: "'e \<Rightarrow> nat"
  assumes upd_current: "upd s e = Inr (s', e') \<Longrightarrow> \<exists>c. get s (eid e) = Some c \<and> ver c = ver e"
    and upd_get: "upd s e = Inr (s', e') \<Longrightarrow> get s' k = (if k = eid e then Some e' else get s k)"
    and upd_bump: "upd s e = Inr (s', e') \<Longrightarrow> eid e' = eid e \<and> ver e' = Suc (ver e)"
    and upd_stale: "get s (eid e) = Some c \<Longrightarrow> ver c \<noteq> ver e \<Longrightarrow> upd s e = Inl ConcurrencyError"
begin

text \<open>Every entity is kept, and only changes by moving to a later version.\<close>

definition advances :: "'s \<Rightarrow> 's \<Rightarrow> bool" where
  "advances s s' \<longleftrightarrow> (\<forall>k e. get s k = Some e \<longrightarrow> (\<exists>e'. get s' k = Some e' \<and> (e' = e \<or> ver e < ver e')))"

lemma advances_refl: "advances s s"
  by (simp add: advances_def)

lemma advances_trans: "advances s t \<Longrightarrow> advances t u \<Longrightarrow> advances s u"
  unfolding advances_def by (metis less_trans)

lemma upd_advances: "upd s e = Inr (s', e') \<Longrightarrow> advances s s'"
  using upd_current [of s e s' e'] upd_get [of s e s' e'] upd_bump [of s e s' e']
  by (auto simp: advances_def)

lemma unchanged_version: "advances s t \<Longrightarrow> get s k = Some e \<Longrightarrow> get t k = Some e' \<Longrightarrow> ver e' = ver e \<Longrightarrow> e' = e"
  by (force simp: advances_def)

text \<open>A successful write saw the very entity its writer had read.\<close>

lemma write_sees_read:
  assumes "get s (eid a) = Some e" and "advances s t" and "upd t a = Inr (u, b)" and "ver a = ver e"
  shows "get t (eid a) = Some e"
  using assms upd_current [OF assms(3)] unchanged_version [OF assms(2,1)] by fastforce

text \<open>Of two writers that read the same version, the second fails.\<close>

lemma second_writer_fails:
  assumes "upd s a = Inr (s1, a')" and "advances s1 s2" and "eid b = eid a" and "ver b = ver a"
  shows "upd s2 b = Inl ConcurrencyError"
proof -
  have "get s1 (eid b) = Some a'" and "ver a' = Suc (ver b)"
    using upd_get [OF assms(1)] upd_bump [OF assms(1)] assms(3,4) by simp_all
  then obtain c where "get s2 (eid b) = Some c" "ver c \<noteq> ver b"
    using assms(2) unfolding advances_def by fastforce
  then show ?thesis by (rule upd_stale)
qed

end

interpretation os: versioned_store memGetOrder memUpdateOrder oId oVersion
  by unfold_locales
     (auto simp: memGetOrder_def memUpdateOrder_def update_conv' Let_def notFound_def
       split: option.splits if_splits)

interpretation ps: versioned_store memGetPayment memUpdatePayment pyId pyVersion
  by unfold_locales
     (auto simp: memGetPayment_def memUpdatePayment_def update_conv' Let_def notFound_def
       split: option.splits if_splits)

text \<open>
  No lost update of a payment. When a payment was written after being read at some version, any
  later write that still carries that version is refused with \<open>ConcurrencyError\<close>, whatever versioned
  writes happened in between.
\<close>

theorem payment_second_writer_fails:
  assumes "memUpdatePayment s a = Inr (s1, a')" and "ps.advances s1 s2"
    and "pyId b = pyId a" and "pyVersion b = pyVersion a"
  shows "memUpdatePayment s2 b = Inl ConcurrencyError"
  using assms by (rule ps.second_writer_fails)

definition example_payment :: PaymentIntent where
  "example_payment = \<lparr>pyId = ''pay_1'', pyOrderId = ''ord_1'', pyProduct = Scribbit, pyMethod = Onchain,
     pyProvider = ''fake'', pyProviderRef = ''fake-1'', pyAmountSats = 1000, pyAmountPaidSats = 0,
     pyRefundedSats = 0, pyStatus = PCreated,
     pyCheckout = \<lparr>chAddress = None, chBolt11 = None, chCheckoutUrl = None, chClientSecret = None\<rparr>,
     pyExpiresAt = None, pyPaidAt = None, pyTxid = None, pyPreimage = None, pyProviderData = [],
     pyVersion = 0, pyCreatedAt = ''t0'', pyUpdatedAt = ''t0''\<rparr>"

theorem payment_second_writer_fails_witness:
  "memUpdatePayment (empty_store\<lparr>stPayments := [(''pay_1'', example_payment\<lparr>pyVersion := 1\<rparr>)]\<rparr>)
     (example_payment\<lparr>pyStatus := PPaid\<rparr>) = Inl ConcurrencyError"
proof -
  have u: "memUpdatePayment (empty_store\<lparr>stPayments := [(''pay_1'', example_payment)]\<rparr>) example_payment
      = Inr (empty_store\<lparr>stPayments := [(''pay_1'', example_payment\<lparr>pyVersion := 1\<rparr>)]\<rparr>, example_payment\<lparr>pyVersion := 1\<rparr>)"
    by (simp add: memUpdatePayment_def empty_store_def example_payment_def Let_def)
  show ?thesis
    by (rule payment_second_writer_fails [OF u ps.advances_refl]) simp_all
qed

end
