(* ===== verification/LedgerService.thy ===== *)
theory LedgerService imports LedgerStore LedgerJson begin

text \<open>
  \<open>service.ts\<close> of \<open>platform/ledger/src\<close>: every operation of \<open>LedgerService\<close> as a state-passing
  computation. An operation may be interrupted at each call that it awaits; what the rest of the system
  does to the shared store meanwhile, and how much time passes, is the next element of the schedule
  \<open>lgSched\<close>. A computation that throws keeps the effects it had.
\<close>

subsection \<open>State and computations\<close>

record OrderStatusData =
  odOrderId :: string
  odProduct :: Product
  odCustomerRef :: string
  odStatus :: OrderStatus
  odPreviousStatus :: "OrderStatus option"
  odTotalSats :: int
  odAt :: string
  odDetail :: "string option"

record PaymentStatusData =
  pdPaymentId :: string
  pdOrderId :: string
  pdProduct :: Product
  pdMethod :: PaymentMethod
  pdProvider :: string
  pdStatus :: PaymentStatus
  pdPreviousStatus :: "PaymentStatus option"
  pdAmountSats :: int
  pdAmountPaidSats :: int
  pdAt :: string
  pdPaidAt :: "string option"
  pdTxid :: "string option"
  pdDetail :: "string option"

datatype ledger_event = OrderEvent OrderStatusData | PaymentEvent PaymentStatusData

text \<open>
  \<open>lgNow\<close> is the clock in milliseconds since 1970, \<open>lgIds\<close> counts the ids handed out, \<open>lgEvents\<close> are the
  events the bus accepted and \<open>lgDropped\<close> those given to \<open>onPublishError\<close>; \<open>lgWorld\<close> is the state of the
  payment providers and of whatever is behind them.
\<close>

record 'w Ledger =
  lgStore :: MemoryOrderStore
  lgSched :: "(nat \<times> (MemoryOrderStore \<Rightarrow> MemoryOrderStore)) list"
  lgNow :: nat
  lgIds :: nat
  lgEvents :: "ledger_event list"
  lgDropped :: "ledger_event list"
  lgWorld :: 'w

type_synonym ('w, 'a) lg = "'w Ledger \<Rightarrow> (ledger_error + 'a) \<times> 'w Ledger"

definition lret :: "'a \<Rightarrow> ('w, 'a) lg" where "lret x w = (Inr x, w)"
definition lraise :: "ledger_error \<Rightarrow> ('w, 'a) lg" where "lraise e w = (Inl e, w)"

definition lbind :: "('w, 'a) lg \<Rightarrow> ('a \<Rightarrow> ('w, 'b) lg) \<Rightarrow> ('w, 'b) lg" where
  "lbind m f w = (case m w of (Inl e, w') \<Rightarrow> (Inl e, w') | (Inr x, w') \<Rightarrow> f x w')"

text \<open>\<open>try { m } catch (e) { h(e) }\<close>.\<close>

definition ltry :: "('w, 'a) lg \<Rightarrow> (ledger_error \<Rightarrow> ('w, 'a) lg) \<Rightarrow> ('w, 'a) lg" where
  "ltry m h w = (case m w of (Inl e, w') \<Rightarrow> h e w' | (Inr x, w') \<Rightarrow> (Inr x, w'))"

definition llift :: "ledger_error + 'a \<Rightarrow> ('w, 'a) lg" where
  "llift r = (case r of Inl e \<Rightarrow> lraise e | Inr x \<Rightarrow> lret x)"

text \<open>An awaited call: the others take one step of the schedule first.\<close>

definition pause :: "('w, unit) lg" where
  "pause w = (case lgSched w of
       [] \<Rightarrow> (Inr (), w)
     | (d, f) # r \<Rightarrow> (Inr (), w\<lparr>lgSched := r, lgNow := lgNow w + d, lgStore := f (lgStore w)\<rparr>))"

definition store_read :: "(MemoryOrderStore \<Rightarrow> 'a) \<Rightarrow> ('w, 'a) lg" where
  "store_read g = lbind pause (\<lambda>_ w. (Inr (g (lgStore w)), w))"

definition store_write :: "(MemoryOrderStore \<Rightarrow> ledger_error + (MemoryOrderStore \<times> 'a)) \<Rightarrow> ('w, 'a) lg" where
  "store_write f = lbind pause (\<lambda>_ w.
     case f (lgStore w) of Inl e \<Rightarrow> (Inl e, w) | Inr (st, x) \<Rightarrow> (Inr x, w\<lparr>lgStore := st\<rparr>))"

definition get_now :: "('w, nat) lg" where "get_now w = (Inr (lgNow w), w)"

subsection \<open>Dates\<close>

text \<open>
  \<open>Date.prototype.toISOString\<close> for the years 1970 to 9999: days since 1970 to a civil date, counting years
  from March.
\<close>

definition pad :: "nat \<Rightarrow> nat \<Rightarrow> string" where
  "pad k n = padStart k (CHR ''0'') (digits_of_nat n)"

definition civil_from_days :: "nat \<Rightarrow> nat \<times> nat \<times> nat" where
  "civil_from_days z =
     (let z = z + 719468; era = z div 146097; doe = z mod 146097;
          yoe = (doe - doe div 1460 + doe div 36524 - doe div 146096) div 365;
          doy = doe - (365 * yoe + yoe div 4 - yoe div 100);
          mp = (5 * doy + 2) div 153;
          d = doy - (153 * mp + 2) div 5 + 1;
          m = (if mp < 10 then mp + 3 else mp - 9);
          y = yoe + era * 400 + (if m \<le> 2 then 1 else 0)
      in (y, m, d))"

definition toISOString :: "nat \<Rightarrow> string" where
  "toISOString ms =
     (let (y, m, d) = civil_from_days (ms div 86400000); t = ms mod 86400000 in
      pad 4 y @ ''-'' @ pad 2 m @ ''-'' @ pad 2 d @ ''T'' @ pad 2 (t div 3600000) @ '':'' @
      pad 2 (t div 60000 mod 60) @ '':'' @ pad 2 (t div 1000 mod 60) @ ''.'' @ pad 3 (t mod 1000) @ ''Z'')"

subsection \<open>The provider port\<close>

record CreateIntentInput =
  ciIntentId :: string
  ciOrder :: Order
  ciMethod :: PaymentMethod
  ciAmountSats :: int
  ciExpiresAt :: "string option"
  ciNow :: nat

record ProviderIntent =
  piProviderRef :: string
  piCheckout :: CheckoutDetails
  piExpiresAt :: "string option"
  piProviderData :: "(string \<times> string) list option"

record ProviderUpdate =
  puStatus :: PaymentStatus
  puAmountPaidSats :: "json option"
  puPaidAt :: "string option"
  puTxid :: "string option"
  puPreimage :: "string option"
  puProviderData :: "(string \<times> string) list option"
  puDetail :: "string option"

record ProviderRefundResult =
  prrStatus :: RefundStatus
  prrProviderRef :: "string option"
  prrDetail :: "string option"

record WebhookRefund =
  wrProviderRef :: string
  wrStatus :: RefundStatus
  wrDetail :: "string option"

record ProviderWebhook =
  whDeliveryId :: string
  whProviderRef :: string
  whUpdate :: "ProviderUpdate option"
  whRefund :: "WebhookRefund option"
  whEventType :: string

type_synonym headers = "(string \<times> string) list"

record 'w PaymentProvider =
  prName :: string
  prMethods :: "PaymentMethod list"
  prCreateIntent :: "CreateIntentInput \<Rightarrow> ('w, ProviderIntent) lg"
  prPoll :: "PaymentIntent \<Rightarrow> nat \<Rightarrow> ('w, ProviderUpdate option) lg"
  prRefund :: "PaymentIntent \<Rightarrow> Refund \<Rightarrow> ('w, ProviderRefundResult) lg"
  prParseWebhook :: "(string \<Rightarrow> headers \<Rightarrow> nat \<Rightarrow> ('w, ProviderWebhook) lg) option"

subsection \<open>The service\<close>

text \<open>
  The options of the constructor and what the service takes from its runtime: \<open>svNewId\<close> is the n-th id,
  \<open>svParseDate\<close> is \<open>Date.parse\<close> in milliseconds (\<open>None\<close> for \<open>NaN\<close>; the formats it accepts beside ISO
  are the runtime's), \<open>svSha256Hex\<close> the hash of the UTF-8 bytes of a text in hexadecimal, \<open>svCollate\<close>
  \<open>localeCompare\<close>, and \<open>svBus\<close> whether the bus accepts an event, \<open>None\<close> for no bus.
\<close>

record 'w LedgerService =
  svProviders :: "'w PaymentProvider list"
  svDefaultProvider :: "PaymentMethod \<Rightarrow> string option"
  svVerifyWebhooks :: bool
  svBus :: "(ledger_event \<Rightarrow> bool) option"
  svSource :: string
  svNewId :: "nat \<Rightarrow> string"
  svParseDate :: "string \<Rightarrow> int option"
  svSha256Hex :: "string \<Rightarrow> string"
  svCollate :: "string \<Rightarrow> string \<Rightarrow> int"

record CallerContext =
  ccProduct :: "Product option"
  ccIdempotencyKey :: "string option"

record CreatePaymentInput =
  cpMethod :: string
  cpProvider :: "string option"
  cpExpiresAt :: "string option"

record RefundInput =
  riAmountSats :: "json option"
  riReason :: string
  riDestination :: "string option"

record ApplyResult =
  apPayment :: PaymentIntent
  apOrder :: Order
  apApplied :: bool
  apReason :: "string option"

record WebhookResult =
  wrDuplicate :: bool
  wrApplied :: bool
  wrEventType :: string
  wrReason :: "string option"

text \<open>A string option as a condition: absent and empty are both false.\<close>

definition truthy :: "string option \<Rightarrow> string option" where
  "truthy s = (case s of Some t \<Rightarrow> if t = [] then None else Some t | None \<Rightarrow> None)"

definition fingerprint :: "'w LedgerService \<Rightarrow> json \<Rightarrow> string" where
  "fingerprint sv v = svSha256Hex sv (canonical v)"

definition provider_named :: "'w LedgerService \<Rightarrow> string \<Rightarrow> 'w PaymentProvider option" where
  "provider_named sv name = List.find (\<lambda>p. prName p = name) (svProviders sv)"

definition serviceOk :: "'w LedgerService \<Rightarrow> bool" where
  "serviceOk sv = distinct (map prName (svProviders sv))"

definition newId :: "'w LedgerService \<Rightarrow> ('w, string) lg" where
  "newId sv w = (Inr (svNewId sv (lgIds w)), w\<lparr>lgIds := lgIds w + 1\<rparr>)"

definition idemRecord ::
  "string \<Rightarrow> string option \<Rightarrow> string \<Rightarrow> resource_type \<Rightarrow> string \<Rightarrow> IdempotencyRecord option" where
  "idemRecord scope key fp ty rid =
     map_option (\<lambda>k. \<lparr>idScope = scope, idKey = k, idFingerprint = fp, idResourceType = ty, idResourceId = rid\<rparr>)
       (truthy key)"

subsection \<open>Events\<close>

text \<open>
  \<open>Topic.create\<close> of the two ledger topics of \<open>platform/events/src/platform-topics.ts\<close>: the payload is
  checked against the topic's schema and the envelope's attributes, and a violation throws.
\<close>

definition date_shape :: "string \<Rightarrow> bool" where
  "date_shape s =
     (let dg = (\<lambda>i. i < length s \<and> is_digit (s ! i)); at = (\<lambda>i c. i < length s \<and> lower_char (s ! i) = c);
          rest = drop 19 s; frp = takeWhile is_digit (tl rest);
          zone = (if rest \<noteq> [] \<and> hd rest = CHR ''.'' \<and> frp \<noteq> [] then dropWhile is_digit (tl rest) else rest)
      in list_all dg [0, 1, 2, 3, 5, 6, 8, 9, 11, 12, 14, 15, 17, 18] \<and>
         at 4 (CHR ''-'') \<and> at 7 (CHR ''-'') \<and> at 10 (CHR ''t'') \<and> at 13 (CHR '':'') \<and> at 16 (CHR '':'') \<and>
         (lower_string zone = ''z'' \<or>
          (length zone = 6 \<and> zone ! 0 \<in> {CHR ''+'', CHR ''-''} \<and> is_digit (zone ! 1) \<and> is_digit (zone ! 2) \<and>
           zone ! 3 = CHR '':'' \<and> is_digit (zone ! 4) \<and> is_digit (zone ! 5))))"

definition date_time :: "'w LedgerService \<Rightarrow> string \<Rightarrow> bool" where
  "date_time sv s = (date_shape s \<and> svParseDate sv s \<noteq> None)"

definition sats_range :: "int \<Rightarrow> bool" where "sats_range n = (0 \<le> n \<and> n \<le> MAX_SATS)"

definition hex64 :: "string \<Rightarrow> bool" where
  "hex64 s = (length s = 64 \<and> list_all (\<lambda>c. is_hex c \<and> lower_char c = c) s)"

definition event_valid :: "'w LedgerService \<Rightarrow> ledger_event \<Rightarrow> bool" where
  "event_valid sv ev = (svSource sv \<noteq> [] \<and> (case ev of
      OrderEvent d \<Rightarrow> odOrderId d \<noteq> [] \<and> odCustomerRef d \<noteq> [] \<and> length (odCustomerRef d) \<le> 256 \<and>
        sats_range (odTotalSats d) \<and> date_time sv (odAt d)
    | PaymentEvent d \<Rightarrow> pdPaymentId d \<noteq> [] \<and> pdOrderId d \<noteq> [] \<and> pdProvider d \<noteq> [] \<and>
        sats_range (pdAmountSats d) \<and> sats_range (pdAmountPaidSats d) \<and> date_time sv (pdAt d) \<and>
        (case pdPaidAt d of None \<Rightarrow> True | Some t \<Rightarrow> date_time sv t) \<and>
        (case pdTxid d of None \<Rightarrow> True | Some t \<Rightarrow> hex64 t)))"

text \<open>\<open>publish\<close>: a failing bus is reported, not thrown.\<close>

definition publish :: "'w LedgerService \<Rightarrow> ledger_event \<Rightarrow> ('w, unit) lg" where
  "publish sv ev =
     (case svBus sv of
        None \<Rightarrow> lret ()
      | Some accepts \<Rightarrow> lbind pause (\<lambda>_ w.
          if accepts ev then (Inr (), w\<lparr>lgEvents := lgEvents w @ [ev]\<rparr>)
          else (Inr (), w\<lparr>lgDropped := lgDropped w @ [ev]\<rparr>)))"

definition emit :: "'w LedgerService \<Rightarrow> ledger_event \<Rightarrow> ('w, unit) lg" where
  "emit sv ev = (if event_valid sv ev then publish sv ev else lraise OtherError)"

definition emitOrder ::
  "'w LedgerService \<Rightarrow> Order \<Rightarrow> OrderStatus option \<Rightarrow> string option \<Rightarrow> ('w, unit) lg" where
  "emitOrder sv o1 previous detail =
     emit sv (OrderEvent \<lparr>odOrderId = oId o1, odProduct = oProduct o1, odCustomerRef = oCustomerRef o1,
       odStatus = oStatus o1, odPreviousStatus = previous, odTotalSats = oTotalSats o1,
       odAt = oUpdatedAt o1, odDetail = truthy detail\<rparr>)"

definition emitPayment ::
  "'w LedgerService \<Rightarrow> PaymentIntent \<Rightarrow> PaymentStatus option \<Rightarrow> string option \<Rightarrow> ('w, unit) lg" where
  "emitPayment sv p previous detail =
     emit sv (PaymentEvent \<lparr>pdPaymentId = pyId p, pdOrderId = pyOrderId p, pdProduct = pyProduct p,
       pdMethod = pyMethod p, pdProvider = pyProvider p, pdStatus = pyStatus p, pdPreviousStatus = previous,
       pdAmountSats = pyAmountSats p, pdAmountPaidSats = pyAmountPaidSats p, pdAt = pyUpdatedAt p,
       pdPaidAt = truthy (pyPaidAt p),
       pdTxid = (case truthy (pyTxid p) of Some t \<Rightarrow> if hex64 t then Some t else None | None \<Rightarrow> None),
       pdDetail = truthy detail\<rparr>)"

subsection \<open>Orders\<close>

text \<open>
  The answer to a replayed request: the resource recorded under the idempotency key, if there is one; the
  same key with another fingerprint is an error.
\<close>

definition idem_replay ::
  "string \<Rightarrow> string option \<Rightarrow> string \<Rightarrow> (MemoryOrderStore \<Rightarrow> string \<Rightarrow> 'a option) \<Rightarrow> ('w, 'a option) lg" where
  "idem_replay scope key fp get =
     (case truthy key of
        None \<Rightarrow> lret None
      | Some k \<Rightarrow> lbind (store_read (memFindIdempotency scope k)) (\<lambda>existing.
          case existing of
            None \<Rightarrow> lret None
          | Some r \<Rightarrow>
              if idFingerprint r \<noteq> fp then lraise (LedgerError 422 ''idempotency_conflict'')
              else lbind (store_read (\<lambda>st. get st (idResourceId r))) (\<lambda>x.
                case x of None \<Rightarrow> lraise notFound | Some y \<Rightarrow> lret (Some y))))"

definition new_order :: "CreateOrderInput \<Rightarrow> string \<Rightarrow> string \<Rightarrow> Order" where
  "new_order clean i at =
     \<lparr>oId = ''ord_'' @ i, oProduct = coProduct clean, oCustomerRef = coCustomerRef clean,
      oLineItems = coLineItems clean,
      oTotalSats = sum_list (map (\<lambda>li. liQuantity li * liUnitSats li) (coLineItems clean)),
      oStatus = OCreated, oMetadata = (case coMetadata clean of None \<Rightarrow> [] | Some m \<Rightarrow> m),
      oVersion = 0, oCreatedAt = at, oUpdatedAt = at\<rparr>"

text \<open>
  \<open>createOrder\<close> calls itself after losing a race on its idempotency key; the first argument bounds that
  recursion.
\<close>

primrec createOrder :: "nat \<Rightarrow> 'w LedgerService \<Rightarrow> json \<Rightarrow> CallerContext \<Rightarrow> ('w, Order \<times> bool) lg" where
  "createOrder 0 sv input ctx = lraise OutOfFuel"
| "createOrder (Suc n) sv input ctx =
     lbind (llift (validateOrderInput input)) (\<lambda>clean.
     if ccProduct ctx \<noteq> None \<and> ccProduct ctx \<noteq> Some (coProduct clean)
     then lraise (LedgerError 403 ''product_mismatch'')
     else
       let scope = ''order:'' @ product_name (coProduct clean);
           fp = fingerprint sv (order_input_json clean);
           key = ccIdempotencyKey ctx
       in lbind (idem_replay scope key fp memGetOrder) (\<lambda>replay.
          case replay of
            Some order \<Rightarrow> lret (order, False)
          | None \<Rightarrow>
              lbind get_now (\<lambda>now. lbind (newId sv) (\<lambda>i.
              let order = new_order clean i (toISOString now) in
              lbind (llift (assertSats (oTotalSats order))) (\<lambda>_.
              lbind (ltry
                  (lbind (store_write (\<lambda>st. emap (\<lambda>st'. (st', ()))
                       (memCreateOrder order (idemRecord scope key fp OrderResource (oId order)) st)))
                     (\<lambda>_. lret None))
                  (\<lambda>e. if error_code e = Some ''idempotency_conflict'' \<and> truthy key \<noteq> None
                       then lbind (createOrder n sv input ctx) (\<lambda>r. lret (Some r)) else lraise e))
                (\<lambda>winner. case winner of
                    Some r \<Rightarrow> lret r
                  | None \<Rightarrow> lbind (emitOrder sv order None None) (\<lambda>_. lret (order, True))))))))"

definition getOrder :: "string \<Rightarrow> CallerContext \<Rightarrow> ('w, Order) lg" where
  "getOrder i ctx =
     lbind (store_read (\<lambda>st. memGetOrder st i)) (\<lambda>order.
     case order of
       None \<Rightarrow> lraise notFound
     | Some x \<Rightarrow> if ccProduct ctx \<noteq> None \<and> ccProduct ctx \<noteq> Some (oProduct x) then lraise notFound else lret x)"

definition transitionOrder ::
  "'w LedgerService \<Rightarrow> Order \<Rightarrow> OrderStatus \<Rightarrow> string option \<Rightarrow> ('w, Order) lg" where
  "transitionOrder sv order to detail =
     lbind (llift (assertOrderTransition (oStatus order) to)) (\<lambda>_.
     lbind get_now (\<lambda>now.
     lbind (store_write (\<lambda>st. memUpdateOrder st (order\<lparr>oStatus := to, oUpdatedAt := toISOString now\<rparr>))) (\<lambda>nxt.
     lbind (emitOrder sv nxt (Some (oStatus order)) detail) (\<lambda>_. lret nxt))))"

definition cancelOrder :: "'w LedgerService \<Rightarrow> string \<Rightarrow> CallerContext \<Rightarrow> string \<Rightarrow> ('w, Order) lg" where
  "cancelOrder sv i ctx detail =
     lbind (getOrder i ctx) (\<lambda>order.
     if oStatus order = OCancelled then lret order
     else lbind (llift (assertOrderTransition (oStatus order) OCancelled)) (\<lambda>_.
       lbind (store_read (memListPaymentsByOrder (svCollate sv) (oId order))) (\<lambda>ps.
       if filter (\<lambda>p. pyStatus p = PPending) ps \<noteq> [] then lraise (LedgerError 409 ''payment_active'')
       else transitionOrder sv order OCancelled (Some detail))))"

definition expireOrder :: "'w LedgerService \<Rightarrow> string \<Rightarrow> string \<Rightarrow> ('w, Order) lg" where
  "expireOrder sv i detail =
     lbind (store_read (\<lambda>st. memGetOrder st i)) (\<lambda>order.
     case order of
       None \<Rightarrow> lraise notFound
     | Some x \<Rightarrow> if oStatus x = OExpired then lret x else transitionOrder sv x OExpired (Some detail))"

subsection \<open>Payments\<close>

text \<open>
  \<open>(preferred && providers.get(preferred)) ?? ...\<close>: an empty preferred name is no provider at all, an
  unknown one falls back to the first provider that serves the method.
\<close>

definition pickProvider ::
  "'w LedgerService \<Rightarrow> PaymentMethod \<Rightarrow> string option \<Rightarrow> ledger_error + 'w PaymentProvider" where
  "pickProvider sv method name =
     (let unavailable = Inl (LedgerError 400 ''method_unavailable'');
          serving = (\<lambda>p. case p of None \<Rightarrow> unavailable
                      | Some x \<Rightarrow> if method \<in> set (prMethods x) then Inr x else unavailable);
          first = List.find (\<lambda>x. method \<in> set (prMethods x)) (svProviders sv)
      in case truthy name of
           Some n \<Rightarrow> serving (provider_named sv n)
         | None \<Rightarrow>
             (case svDefaultProvider sv method of
                None \<Rightarrow> serving first
              | Some preferred \<Rightarrow>
                  if preferred = [] then unavailable
                  else (case provider_named sv preferred of Some x \<Rightarrow> serving (Some x) | None \<Rightarrow> serving first)))"

definition payment_request_json :: "string \<Rightarrow> string \<Rightarrow> string option \<Rightarrow> json" where
  "payment_request_json method provider expiresAt =
     JObj [(''method'', JStr method), (''provider'', JStr provider), (''expiresAt'', option_json expiresAt)]"

definition new_payment ::
  "string \<Rightarrow> Order \<Rightarrow> PaymentMethod \<Rightarrow> string \<Rightarrow> ProviderIntent \<Rightarrow> string \<Rightarrow> PaymentIntent" where
  "new_payment i order method provider created at =
     \<lparr>pyId = i, pyOrderId = oId order, pyProduct = oProduct order, pyMethod = method,
      pyProvider = provider, pyProviderRef = piProviderRef created, pyAmountSats = oTotalSats order,
      pyAmountPaidSats = 0, pyRefundedSats = 0, pyStatus = PCreated, pyCheckout = piCheckout created,
      pyExpiresAt = piExpiresAt created, pyPaidAt = None, pyTxid = None, pyPreimage = None,
      pyProviderData = (case piProviderData created of None \<Rightarrow> [] | Some d \<Rightarrow> d),
      pyVersion = 0, pyCreatedAt = at, pyUpdatedAt = at\<rparr>"

text \<open>The part of \<open>createPayment\<close> after the replay check.\<close>

definition open_payment ::
  "'w LedgerService \<Rightarrow> Order \<Rightarrow> PaymentMethod \<Rightarrow> 'w PaymentProvider \<Rightarrow> CreatePaymentInput \<Rightarrow> CallerContext
     \<Rightarrow> string \<Rightarrow> string \<Rightarrow> ('w, PaymentIntent \<times> bool) lg" where
  "open_payment sv order method provider input ctx scope fp =
     (if oStatus order \<noteq> OCreated \<and> oStatus order \<noteq> OAwaitingPayment
      then lraise (LedgerError 409 ''order_not_payable'')
      else lbind (store_read (memListPaymentsByOrder (svCollate sv) (oId order))) (\<lambda>ps.
        if list_ex (\<lambda>p. pyStatus p = PCreated \<or> pyStatus p = PPending) ps
        then lraise (LedgerError 409 ''payment_active'')
        else if oTotalSats order = 0 then lraise (LedgerError 409 ''nothing_to_pay'')
        else lbind get_now (\<lambda>now. lbind (newId sv) (\<lambda>i.
          let intentId = ''pay_'' @ i; at = toISOString now; expiresAt = cpExpiresAt input in
          if (case truthy expiresAt of None \<Rightarrow> False
              | Some e \<Rightarrow> (case svParseDate sv e of None \<Rightarrow> False | Some t \<Rightarrow> t \<le> int now))
          then lraise invalid
          else lbind pause (\<lambda>_. lbind (prCreateIntent provider
               \<lparr>ciIntentId = intentId, ciOrder = order, ciMethod = method, ciAmountSats = oTotalSats order,
                ciExpiresAt = expiresAt, ciNow = now\<rparr>) (\<lambda>created.
            let payment = new_payment intentId order method (prName provider) created at in
            lbind (store_write (\<lambda>st. emap (\<lambda>st'. (st', ()))
                (memCreatePayment payment
                   (idemRecord scope (ccIdempotencyKey ctx) fp PaymentResource intentId) st))) (\<lambda>_.
            lbind (if oStatus order = OCreated
                   then lbind (transitionOrder sv order OAwaitingPayment None) (\<lambda>_. lret ())
                   else lret ()) (\<lambda>_.
            lbind (emitPayment sv payment None None) (\<lambda>_. lret (payment, True))))))))))"

definition createPayment ::
  "'w LedgerService \<Rightarrow> string \<Rightarrow> CreatePaymentInput \<Rightarrow> CallerContext \<Rightarrow> ('w, PaymentIntent \<times> bool) lg" where
  "createPayment sv orderId input ctx =
     (case method_of (cpMethod input) of
        None \<Rightarrow> lraise invalid
      | Some method \<Rightarrow>
          if (case cpExpiresAt input of None \<Rightarrow> False | Some e \<Rightarrow> svParseDate sv e = None) then lraise invalid
          else lbind (getOrder orderId ctx) (\<lambda>order.
            lbind (llift (pickProvider sv method (cpProvider input))) (\<lambda>provider.
            let scope = ''payment:'' @ oId order;
                fp = fingerprint sv
                  (payment_request_json (cpMethod input) (prName provider) (cpExpiresAt input))
            in lbind (idem_replay scope (ccIdempotencyKey ctx) fp memGetPayment) (\<lambda>replay.
               case replay of
                 Some payment \<Rightarrow> lret (payment, False)
               | None \<Rightarrow> open_payment sv order method provider input ctx scope fp))))"

definition getPayment :: "string \<Rightarrow> CallerContext \<Rightarrow> ('w, PaymentIntent) lg" where
  "getPayment i ctx =
     lbind (store_read (\<lambda>st. memGetPayment st i)) (\<lambda>p.
     case p of
       None \<Rightarrow> lraise notFound
     | Some x \<Rightarrow> if ccProduct ctx \<noteq> None \<and> ccProduct ctx \<noteq> Some (pyProduct x) then lraise notFound else lret x)"

definition listPayments :: "'w LedgerService \<Rightarrow> string \<Rightarrow> CallerContext \<Rightarrow> ('w, PaymentIntent list) lg" where
  "listPayments sv orderId ctx =
     lbind (getOrder orderId ctx) (\<lambda>_. store_read (memListPaymentsByOrder (svCollate sv) orderId))"

definition deriveOrderStatus ::
  "'w LedgerService \<Rightarrow> Order \<Rightarrow> PaymentIntent \<Rightarrow> string option \<Rightarrow> ('w, Order) lg" where
  "deriveOrderStatus sv order payment detail =
     (let target =
        (if (pyStatus payment = PPaid \<or> pyStatus payment = POverpaid) \<and> oStatus order = OAwaitingPayment
         then Some OPaid
         else if pyStatus payment = PRefunded \<and> oStatus order = OPaid then Some ORefunded else None)
      in case target of
           None \<Rightarrow> lret order
         | Some t \<Rightarrow> if \<not> canOrderTransition (oStatus order) t then lret order
                     else transitionOrder sv order t detail)"

definition payment_status_name :: "PaymentStatus \<Rightarrow> string" where
  "payment_status_name s = (case s of PCreated \<Rightarrow> ''created'' | PPending \<Rightarrow> ''pending'' | PPaid \<Rightarrow> ''paid''
     | PUnderpaid \<Rightarrow> ''underpaid'' | POverpaid \<Rightarrow> ''overpaid'' | PExpired \<Rightarrow> ''expired'' | PFailed \<Rightarrow> ''failed''
     | PRefunded \<Rightarrow> ''refunded'')"

text \<open>The intent with the provider's update merged in.\<close>

definition merge_update :: "PaymentIntent \<Rightarrow> ProviderUpdate \<Rightarrow> string \<Rightarrow> ledger_error + PaymentIntent" where
  "merge_update payment update at =
     (let nxt = puStatus update; m0 = payment\<lparr>pyStatus := nxt, pyUpdatedAt := at\<rparr> in
      ebind (case puAmountPaidSats update of
               None \<Rightarrow> Inr m0
             | Some v \<Rightarrow> emap (\<lambda>n. m0\<lparr>pyAmountPaidSats := n\<rparr>) (assertSats_json (Some v))) (\<lambda>m1.
      let m2 = (case puTxid update of None \<Rightarrow> m1 | Some t \<Rightarrow> m1\<lparr>pyTxid := Some t\<rparr>);
          m3 = (case puPreimage update of None \<Rightarrow> m2 | Some t \<Rightarrow> m2\<lparr>pyPreimage := Some t\<rparr>);
          m4 = (case puProviderData update of None \<Rightarrow> m3
                | Some d \<Rightarrow> m3\<lparr>pyProviderData := fold (\<lambda>(k, v). AList.update k v) d (pyProviderData payment)\<rparr>);
          m5 = (if (nxt = PPaid \<or> nxt = POverpaid) \<and> truthy (pyPaidAt m4) = None
                then m4\<lparr>pyPaidAt := (case puPaidAt update of None \<Rightarrow> Some at | Some t \<Rightarrow> Some t)\<rparr> else m4);
          m6 = (if nxt = PPaid \<and> puAmountPaidSats update = None \<and> pyAmountPaidSats m5 = 0
                then m5\<lparr>pyAmountPaidSats := pyAmountSats m5\<rparr> else m5)
      in Inr m6))"

text \<open>The end of \<open>applyOnce\<close>: the merged intent is written, then event and order follow.\<close>

definition store_merged ::
  "'w LedgerService \<Rightarrow> PaymentIntent \<Rightarrow> Order \<Rightarrow> PaymentIntent \<Rightarrow> bool \<Rightarrow> string option \<Rightarrow> ('w, ApplyResult) lg" where
  "store_merged sv payment order merged amountsChanged why =
     (let changesStatus = (pyStatus merged \<noteq> pyStatus payment) in
      lbind (store_write (\<lambda>st. memUpdatePayment st merged)) (\<lambda>stored.
      lbind (if changesStatus
             then lbind (emitPayment sv stored (Some (pyStatus payment)) why) (\<lambda>_.
               deriveOrderStatus sv order stored why)
             else lret order) (\<lambda>order'.
      lret \<lparr>apPayment = stored, apOrder = order', apApplied = (changesStatus \<or> amountsChanged),
            apReason = None\<rparr>)))"

text \<open>\<open>applyOnce\<close> once the payment and its order are read.\<close>

definition apply_to ::
  "'w LedgerService \<Rightarrow> ProviderUpdate \<Rightarrow> string option \<Rightarrow> PaymentIntent \<Rightarrow> Order \<Rightarrow> ('w, ApplyResult) lg" where
  "apply_to sv update detail payment order =
     (let previous = pyStatus payment; nxt = puStatus update; changesStatus = (nxt \<noteq> previous) in
      if changesStatus \<and> \<not> canPaymentTransition previous nxt
      then lret \<lparr>apPayment = payment, apOrder = order, apApplied = False,
             apReason = Some (''illegal transition '' @ payment_status_name previous @ '' -> ''
               @ payment_status_name nxt)\<rparr>
      else lbind get_now (\<lambda>now.
        lbind (llift (merge_update payment update (toISOString now))) (\<lambda>merged.
        let amountsChanged = (pyAmountPaidSats merged \<noteq> pyAmountPaidSats payment
              \<or> pyTxid merged \<noteq> pyTxid payment \<or> pyPreimage merged \<noteq> pyPreimage payment)
        in if \<not> changesStatus \<and> \<not> amountsChanged \<and> puProviderData update = None
           then lret \<lparr>apPayment = payment, apOrder = order, apApplied = False, apReason = Some ''no change''\<rparr>
           else store_merged sv payment order merged amountsChanged
                  (case puDetail update of Some d \<Rightarrow> Some d | None \<Rightarrow> detail))))"

definition applyOnce ::
  "'w LedgerService \<Rightarrow> string \<Rightarrow> ProviderUpdate \<Rightarrow> string option \<Rightarrow> ('w, ApplyResult) lg" where
  "applyOnce sv paymentId update detail =
     lbind (store_read (\<lambda>st. memGetPayment st paymentId)) (\<lambda>found.
     case found of
       None \<Rightarrow> lraise notFound
     | Some payment \<Rightarrow>
         lbind (store_read (\<lambda>st. memGetOrder st (pyOrderId payment))) (\<lambda>found.
         case found of
           None \<Rightarrow> lraise notFound
         | Some order \<Rightarrow> apply_to sv update detail payment order))"

text \<open>\<open>for (let attempt = 0; ; attempt++)\<close> with \<open>attempt < 3\<close>: \<open>k\<close> more attempts after this one.\<close>

primrec apply_retrying ::
  "nat \<Rightarrow> 'w LedgerService \<Rightarrow> string \<Rightarrow> ProviderUpdate \<Rightarrow> string option \<Rightarrow> ('w, ApplyResult) lg" where
  "apply_retrying 0 sv i u d = applyOnce sv i u d"
| "apply_retrying (Suc k) sv i u d =
     ltry (applyOnce sv i u d) (\<lambda>e. if e = ConcurrencyError then apply_retrying k sv i u d else lraise e)"

definition applyUpdate ::
  "'w LedgerService \<Rightarrow> string \<Rightarrow> ProviderUpdate \<Rightarrow> string option \<Rightarrow> ('w, ApplyResult) lg" where
  "applyUpdate = apply_retrying 3"

subsection \<open>Refunds\<close>

definition refund_request_json :: "RefundInput \<Rightarrow> json" where
  "refund_request_json input =
     JObj [(''amountSats'', case riAmountSats input of None \<Rightarrow> JNull | Some v \<Rightarrow> v),
           (''reason'', JStr (riReason input)), (''destination'', option_json (riDestination input))]"

text \<open>
  The loop that credits a completed refund to its payment: \<open>k\<close> more attempts. The event and the order's
  status are inside the \<open>try\<close>.
\<close>

definition credit_to ::
  "'w LedgerService \<Rightarrow> int \<Rightarrow> string option \<Rightarrow> string \<Rightarrow> PaymentIntent \<Rightarrow> ('w, unit) lg" where
  "credit_to sv amount detail at payment =
     (let refundedSats = pyRefundedSats payment + amount;
          full = (refundedSats \<ge> pyAmountPaidSats payment \<and> canPaymentTransition (pyStatus payment) PRefunded);
          why = (case detail of Some d \<Rightarrow> Some d | None \<Rightarrow> Some ''refunded'')
      in lbind (store_write (\<lambda>st. memUpdatePayment st
           (payment\<lparr>pyRefundedSats := refundedSats,
              pyStatus := (if full then PRefunded else pyStatus payment), pyUpdatedAt := at\<rparr>))) (\<lambda>updated.
         if full
         then lbind (emitPayment sv updated (Some (pyStatus payment)) why) (\<lambda>_.
           lbind (store_read (\<lambda>st. memGetOrder st (pyOrderId payment))) (\<lambda>found.
           case found of
             None \<Rightarrow> lret ()
           | Some order \<Rightarrow> lbind (deriveOrderStatus sv order updated why) (\<lambda>_. lret ())))
         else lret ()))"

definition credit_once :: "'w LedgerService \<Rightarrow> Refund \<Rightarrow> string option \<Rightarrow> string \<Rightarrow> ('w, unit) lg" where
  "credit_once sv refund detail at =
     lbind (store_read (\<lambda>st. memGetPayment st (rePaymentId refund))) (\<lambda>found.
     case found of
       None \<Rightarrow> lraise notFound
     | Some payment \<Rightarrow> credit_to sv (reAmountSats refund) detail at payment)"

primrec credit_retrying ::
  "nat \<Rightarrow> 'w LedgerService \<Rightarrow> Refund \<Rightarrow> string option \<Rightarrow> string \<Rightarrow> ('w, unit) lg" where
  "credit_retrying 0 sv r d at = credit_once sv r d at"
| "credit_retrying (Suc k) sv r d at =
     ltry (credit_once sv r d at)
       (\<lambda>e. if e = ConcurrencyError then credit_retrying k sv r d at else lraise e)"

definition settleRefund ::
  "'w LedgerService \<Rightarrow> Refund \<Rightarrow> RefundStatus \<Rightarrow> string option \<Rightarrow> ('w, Refund) lg" where
  "settleRefund sv refund status detail =
     (if reStatus refund = status then lret refund
      else lbind (llift (assertRefundTransition (reStatus refund) status)) (\<lambda>_.
        lbind get_now (\<lambda>now.
        let at = toISOString now in
        lbind (store_write (\<lambda>st. memUpdateRefund st
            (refund\<lparr>reStatus := status, reDetail := (case detail of None \<Rightarrow> reDetail refund | Some d \<Rightarrow> Some d),
               reUpdatedAt := at\<rparr>))) (\<lambda>nxt.
        if status \<noteq> RCompleted then lret nxt
        else lbind (credit_retrying 3 sv refund detail at) (\<lambda>_. lret nxt)))))"

definition settleRefundById ::
  "'w LedgerService \<Rightarrow> string \<Rightarrow> RefundStatus \<Rightarrow> string option \<Rightarrow> ('w, Refund) lg" where
  "settleRefundById sv i status detail =
     lbind (store_read (\<lambda>st. memGetRefund st i)) (\<lambda>found.
     case found of None \<Rightarrow> lraise notFound | Some refund \<Rightarrow> settleRefund sv refund status detail)"

text \<open>The amount a refund request comes to: the request's own, or the excess, or all that is left.\<close>

definition refund_amount :: "PaymentIntent \<Rightarrow> RefundInput \<Rightarrow> ledger_error + int" where
  "refund_amount payment input =
     (if pyStatus payment \<notin> {PPaid, POverpaid, PUnderpaid} then Inl (LedgerError 409 ''not_refundable'')
      else
        let available = pyAmountPaidSats payment - pyRefundedSats payment;
            default = (if pyStatus payment = POverpaid
                       then min available (pyAmountPaidSats payment - pyAmountSats payment) else available)
        in ebind (case riAmountSats input of None \<Rightarrow> Inr default | Some v \<Rightarrow> assertSats_json (Some v)) (\<lambda>amount.
           if amount \<le> 0 then Inl (LedgerError 409 ''nothing_to_refund'')
           else if amount > available then Inl (LedgerError 409 ''refund_exceeds_paid'')
           else Inr amount))"

definition new_refund :: "string \<Rightarrow> PaymentIntent \<Rightarrow> int \<Rightarrow> RefundInput \<Rightarrow> string \<Rightarrow> Refund" where
  "new_refund i payment amount input at =
     \<lparr>reId = ''ref_'' @ i, rePaymentId = pyId payment, reOrderId = pyOrderId payment, reAmountSats = amount,
      reStatus = RPending, reReason = riReason input, reProviderRef = None,
      reDestination = riDestination input, reDetail = None, reCreatedAt = at, reUpdatedAt = at\<rparr>"

text \<open>The part of \<open>refund\<close> after its checks: the refund is recorded, sent to the provider and settled.\<close>

definition send_refund ::
  "'w LedgerService \<Rightarrow> 'w PaymentProvider \<Rightarrow> PaymentIntent \<Rightarrow> int \<Rightarrow> RefundInput \<Rightarrow> string \<Rightarrow> string option \<Rightarrow> string
     \<Rightarrow> ('w, Refund \<times> bool) lg" where
  "send_refund sv provider payment amount input scope key fp =
     lbind get_now (\<lambda>now. lbind (newId sv) (\<lambda>i.
     let r0 = new_refund i payment amount input (toISOString now) in
     lbind (store_write (\<lambda>st. emap (\<lambda>st'. (st', ()))
         (memCreateRefund r0 (idemRecord scope key fp RefundResource (reId r0)) st))) (\<lambda>_.
     lbind pause (\<lambda>_. lbind (prRefund provider payment r0) (\<lambda>result.
     let r1 = r0\<lparr>reProviderRef := prrProviderRef result, reDetail := prrDetail result\<rparr> in
     if prrStatus result = RPending
     then lbind (store_write (\<lambda>st. memUpdateRefund st r1)) (\<lambda>r2. lret (r2, True))
     else lbind (settleRefund sv r1 (prrStatus result) (prrDetail result)) (\<lambda>r2.
       lret (r2, True)))))))"

definition refund :: "'w LedgerService \<Rightarrow> string \<Rightarrow> RefundInput \<Rightarrow> CallerContext \<Rightarrow> ('w, Refund \<times> bool) lg" where
  "refund sv paymentId input ctx =
     (if trim (riReason input) = [] \<or> length (riReason input) > MAX_STR then lraise invalid
      else if (case riDestination input of None \<Rightarrow> False | Some d \<Rightarrow> d = [] \<or> length d > MAX_STR)
      then lraise invalid
      else lbind (getPayment paymentId ctx) (\<lambda>payment.
        let scope = ''refund:'' @ pyId payment; fp = fingerprint sv (refund_request_json input);
            key = ccIdempotencyKey ctx
        in lbind (idem_replay scope key fp memGetRefund) (\<lambda>replay.
           case replay of
             Some r \<Rightarrow> lret (r, False)
           | None \<Rightarrow>
               lbind (llift (refund_amount payment input)) (\<lambda>amount.
               case provider_named sv (pyProvider payment) of
                 None \<Rightarrow> lraise (LedgerError 503 ''provider_unavailable'')
               | Some provider \<Rightarrow> send_refund sv provider payment amount input scope key fp))))"

definition getRefund :: "string \<Rightarrow> CallerContext \<Rightarrow> ('w, Refund) lg" where
  "getRefund i ctx =
     lbind (store_read (\<lambda>st. memGetRefund st i)) (\<lambda>found.
     case found of None \<Rightarrow> lraise notFound
     | Some r \<Rightarrow> lbind (getPayment (rePaymentId r) ctx) (\<lambda>_. lret r))"

definition listRefunds :: "'w LedgerService \<Rightarrow> string \<Rightarrow> CallerContext \<Rightarrow> ('w, Refund list) lg" where
  "listRefunds sv orderId ctx =
     lbind (getOrder orderId ctx) (\<lambda>_. store_read (memListRefundsByOrder (svCollate sv) orderId))"

subsection \<open>Webhooks\<close>

definition webhook_result :: "bool \<Rightarrow> bool \<Rightarrow> ProviderWebhook \<Rightarrow> string option \<Rightarrow> WebhookResult" where
  "webhook_result duplicate applied hook reason =
     \<lparr>wrDuplicate = duplicate, wrApplied = applied, wrEventType = whEventType hook, wrReason = reason\<rparr>"

text \<open>\<open>handleWebhook\<close> after the delivery was recorded and its payment found.\<close>

definition process_webhook ::
  "'w LedgerService \<Rightarrow> 'w PaymentProvider \<Rightarrow> ProviderWebhook \<Rightarrow> nat \<Rightarrow> PaymentIntent \<Rightarrow> ('w, WebhookResult) lg" where
  "process_webhook sv provider hook now payment =
     (case whRefund hook of
        Some wr \<Rightarrow>
          lbind (store_read (memListRefundsByPayment (svCollate sv) (pyId payment))) (\<lambda>rs.
          case List.find (\<lambda>r. reProviderRef r = Some (wrProviderRef wr)) rs of
            None \<Rightarrow> lret (webhook_result False False hook (Some ''unknown_refund''))
          | Some r \<Rightarrow>
              if reStatus r \<noteq> RPending then lret (webhook_result False False hook (Some ''refund_settled''))
              else lbind (settleRefund sv r (wrStatus wr) (wrDetail wr)) (\<lambda>_.
                lret (webhook_result False True hook None)))
      | None \<Rightarrow>
          lbind (if svVerifyWebhooks sv
                 then ltry (lbind pause (\<lambda>_. lbind (prPoll provider payment now) (\<lambda>polled.
                        lret (case polled of Some u \<Rightarrow> Some u | None \<Rightarrow> whUpdate hook))))
                      (\<lambda>_. lret (whUpdate hook))
                 else lret (whUpdate hook)) (\<lambda>update.
          case update of
            None \<Rightarrow> lret (webhook_result False False hook (Some ''informational''))
          | Some u \<Rightarrow>
              lbind (applyUpdate sv (pyId payment) u (Some (''webhook '' @ whEventType hook))) (\<lambda>res.
              lret (webhook_result False (apApplied res) hook (truthy (apReason res))))))"

definition handleWebhook ::
  "'w LedgerService \<Rightarrow> string \<Rightarrow> string \<Rightarrow> headers \<Rightarrow> ('w, WebhookResult) lg" where
  "handleWebhook sv providerName rawBody hs =
     (case provider_named sv providerName of
        None \<Rightarrow> lraise notFound
      | Some provider \<Rightarrow>
          (case prParseWebhook provider of
             None \<Rightarrow> lraise notFound
           | Some parse \<Rightarrow>
               lbind get_now (\<lambda>now.
               lbind pause (\<lambda>_. lbind (parse rawBody hs now) (\<lambda>hook.
               lbind (store_write (\<lambda>st. let (fresh, st') = memRecordWebhookDelivery (prName provider) (whDeliveryId hook) st
                                         in Inr (st', fresh))) (\<lambda>fresh.
               if \<not> fresh then lret (webhook_result True False hook (Some ''replay''))
               else lbind (store_read (memFindPaymentByProviderRef (prName provider) (whProviderRef hook))) (\<lambda>found.
                 case found of
                   None \<Rightarrow> lret (webhook_result False False hook (Some ''unknown_reference''))
                 | Some payment \<Rightarrow> process_webhook sv provider hook now payment)))))))"

end
