(* ===== verification/EventsSchema.thy ===== *)
theory EventsSchema imports Complex_Main EventsMatch LedgerService begin

text \<open>
  \<open>schema.ts\<close> of \<open>platform/events/src\<close>: the JSON Schema validator. A schema is a datatype with one selector per
  keyword the validator reads (\<open>type\<close> is kept as the list the code turns it into); annotations are left out. The
  recursion through \<open>$ref\<close> need not end, so \<open>check\<close> takes fuel; without references the depth of the schema is
  enough. Own properties only: names inherited from \<open>Object.prototype\<close> are not modelled.
\<close>

subsection \<open>Schemas\<close>

datatype JsonType = TString | TNumber | TInteger | TBoolean | TObject | TArray | TNull

datatype JsonSchema = JsonSchema
  (scRef: "string option")
  (scDefs: "(string \<times> JsonSchema) list option")
  (scType: "JsonType list option")
  (scEnum: "json list option")
  (scConst: "json option")
  (scProperties: "(string \<times> JsonSchema) list option")
  (scRequired: "string list option")
  (scAdditional: "(bool + JsonSchema) option")
  (scItems: "JsonSchema option")
  (scMinItems: "nat option")
  (scMaxItems: "nat option")
  (scMinLength: "nat option")
  (scMaxLength: "nat option")
  (scPattern: "string option")
  (scMinimum: "json option")
  (scMaximum: "json option")
  (scExclusiveMinimum: "json option")
  (scExclusiveMaximum: "json option")
  (scFormat: "string option")
  (scOneOf: "JsonSchema list option")
  (scAnyOf: "JsonSchema list option")
  (scAllOf: "JsonSchema list option")

record ValidationIssue =
  viPath :: string
  viMessage :: string

text \<open>
  \<open>Inl\<close> is the exception for an unsupported or dangling reference; \<open>OutOfDepth\<close> marks a run that was given too
  little fuel.
\<close>

datatype schema_error = DanglingRef string | OutOfDepth

text \<open>
  What the validator takes from its runtime: whether \<open>Date.parse\<close> reads a text, the regular expression engine and
  the value of the text of a number that is not an integer.
\<close>

record schema_env =
  seParsesDate :: "string \<Rightarrow> bool"
  seRegExp :: "string \<Rightarrow> string \<Rightarrow> bool"
  seNumber :: "string \<Rightarrow> rat"

definition type_name :: "JsonType \<Rightarrow> string" where
  "type_name t = (case t of TString \<Rightarrow> ''string'' | TNumber \<Rightarrow> ''number'' | TInteger \<Rightarrow> ''integer''
     | TBoolean \<Rightarrow> ''boolean'' | TObject \<Rightarrow> ''object'' | TArray \<Rightarrow> ''array'' | TNull \<Rightarrow> ''null'')"

subsection \<open>Values\<close>

definition typeOf :: "json \<Rightarrow> JsonType" where
  "typeOf v = (case v of JNull \<Rightarrow> TNull | JBool _ \<Rightarrow> TBoolean | JInt _ \<Rightarrow> TInteger | JFloat _ \<Rightarrow> TNumber
     | JStr _ \<Rightarrow> TString | JArr _ \<Rightarrow> TArray | JObj _ \<Rightarrow> TObject)"

definition typeMatches :: "JsonType \<Rightarrow> JsonType \<Rightarrow> bool" where
  "typeMatches actual expected = (actual = expected \<or> (expected = TNumber \<and> actual = TInteger))"

lemma json_size_arr: "x \<in> set xs \<Longrightarrow> size x < Suc (size_list size xs)"
  by (induction xs) auto

lemma json_size_obj: "(k, v) \<in> set ps \<Longrightarrow> size v < Suc (size_list (size_prod (\<lambda>_. 0) size) ps)"
  by (induction ps) auto

function deepEqual :: "json \<Rightarrow> json \<Rightarrow> bool" where
  "deepEqual (JArr xs) (JArr ys) = (length xs = length ys \<and> list_all (\<lambda>(x, y). deepEqual x y) (zip xs ys))"
| "deepEqual (JObj ps) (JObj qs) =
     (length ps = length qs \<and>
      list_all (\<lambda>(k, v). case map_of qs k of None \<Rightarrow> False | Some w \<Rightarrow> deepEqual v w) ps)"
| "deepEqual JNull b = (b = JNull)"
| "deepEqual (JBool x) b = (b = JBool x)"
| "deepEqual (JInt x) b = (b = JInt x)"
| "deepEqual (JFloat x) b = (b = JFloat x)"
| "deepEqual (JStr x) b = (b = JStr x)"
| "deepEqual (JArr xs) JNull = False" | "deepEqual (JArr xs) (JBool b) = False" | "deepEqual (JArr xs) (JInt i) = False"
| "deepEqual (JArr xs) (JFloat f) = False" | "deepEqual (JArr xs) (JStr s) = False" | "deepEqual (JArr xs) (JObj qs) = False"
| "deepEqual (JObj ps) JNull = False" | "deepEqual (JObj ps) (JBool b) = False" | "deepEqual (JObj ps) (JInt i) = False"
| "deepEqual (JObj ps) (JFloat f) = False" | "deepEqual (JObj ps) (JStr s) = False" | "deepEqual (JObj ps) (JArr ys) = False"
  by pat_completeness auto

termination
  by (relation "measure (\<lambda>(a, b). size a)")
     (auto dest: set_zip_leftD json_size_arr json_size_obj)

definition num_value :: "schema_env \<Rightarrow> json \<Rightarrow> rat" where
  "num_value env v = (case v of JInt n \<Rightarrow> of_int n | JFloat t \<Rightarrow> seNumber env t | _ \<Rightarrow> 0)"

text \<open>\<open>k.replace(/~/g, '~0').replace(/\//g, '~1')\<close>.\<close>

definition esc :: "string \<Rightarrow> string" where
  "esc k = concat (map (\<lambda>c. if c = CHR ''~'' then ''~0'' else if c = CHR ''/'' then ''~1'' else [c]) k)"

subsection \<open>Formats\<close>

definition uri_shape :: "string \<Rightarrow> bool" where
  "uri_shape s =
     (let alpha = (\<lambda>c. let n = of_char (lower_char c) :: nat in 97 \<le> n \<and> n \<le> 122);
          scheme = takeWhile (\<lambda>c. alpha c \<or> is_digit c \<or> c \<in> {CHR ''+'', CHR ''.'', CHR ''-''}) s;
          rest = drop (length scheme) s
      in scheme \<noteq> [] \<and> alpha (hd scheme) \<and> rest \<noteq> [] \<and> hd rest = CHR '':'' \<and> list_all (\<lambda>c. \<not> is_space c) (tl rest))"

definition uuid_shape :: "string \<Rightarrow> bool" where
  "uuid_shape s = (length s = 36 \<and>
     list_all (\<lambda>i. if i \<in> {8, 13, 18, 23} then s ! i = CHR ''-'' else is_hex (s ! i)) [0..<36])"

definition FORMATS :: "schema_env \<Rightarrow> string \<Rightarrow> (string \<Rightarrow> bool) option" where
  "FORMATS env name =
     (if name = ''date-time'' then Some (\<lambda>s. date_shape s \<and> seParsesDate env s)
      else if name = ''uri'' then Some uri_shape
      else if name = ''uuid'' then Some uuid_shape else None)"

subsection \<open>The validator\<close>

text \<open>\<open>/^#\/\$defs\/(.+)$/\<close> and the definition it names in the root schema; a dot stands for no line break.\<close>

definition resolve_ref :: "JsonSchema \<Rightarrow> string \<Rightarrow> schema_error + JsonSchema" where
  "resolve_ref base r =
     (if take 8 r = ''#/$defs/'' \<and> length r > 8 \<and> list_all (\<lambda>c. c \<noteq> CHR 0x0A \<and> c \<noteq> CHR 0x0D) (drop 8 r)
      then (case scDefs base of
              None \<Rightarrow> Inl (DanglingRef r)
            | Some ds \<Rightarrow> (case map_of ds (drop 8 r) of None \<Rightarrow> Inl (DanglingRef r) | Some s \<Rightarrow> Inr s))
      else Inl (DanglingRef r))"

definition added :: "string \<Rightarrow> bool \<Rightarrow> string \<Rightarrow> ValidationIssue list" where
  "added path b msg = (if b then [\<lparr>viPath = (if path = [] then ''/'' else path), viMessage = msg\<rparr>] else [])"

definition on :: "'a option \<Rightarrow> ('a \<Rightarrow> 'b list) \<Rightarrow> 'b list" where
  "on x f = (case x of None \<Rightarrow> [] | Some a \<Rightarrow> f a)"

definition check_string :: "schema_env \<Rightarrow> JsonSchema \<Rightarrow> string \<Rightarrow> string \<Rightarrow> ValidationIssue list" where
  "check_string env s path str =
     on (scMinLength s) (\<lambda>m. added path (length str < m) (''shorter than '' @ digits_of_nat m)) @
     on (scMaxLength s) (\<lambda>m. added path (length str > m) (''longer than '' @ digits_of_nat m)) @
     on (scPattern s) (\<lambda>p. added path (\<not> seRegExp env p str) (''does not match '' @ p)) @
     on (truthy (scFormat s)) (\<lambda>f. case FORMATS env f of
         None \<Rightarrow> [] | Some ok \<Rightarrow> added path (\<not> ok str) (''not a valid '' @ f))"

definition check_number :: "schema_env \<Rightarrow> JsonSchema \<Rightarrow> string \<Rightarrow> json \<Rightarrow> ValidationIssue list" where
  "check_number env s path v =
     (let n = num_value env v in
      on (scMinimum s) (\<lambda>m. added path (n < num_value env m) (''below minimum '' @ raw_text m)) @
      on (scMaximum s) (\<lambda>m. added path (n > num_value env m) (''above maximum '' @ raw_text m)) @
      on (scExclusiveMinimum s) (\<lambda>m. added path (n \<le> num_value env m) (''must be > '' @ raw_text m)) @
      on (scExclusiveMaximum s) (\<lambda>m. added path (n \<ge> num_value env m) (''must be < '' @ raw_text m)))"

text \<open>\<open>const\<close> and \<open>enum\<close>.\<close>

definition check_fixed :: "JsonSchema \<Rightarrow> string \<Rightarrow> json \<Rightarrow> ValidationIssue list" where
  "check_fixed s path v =
     on (scConst s) (\<lambda>c. added path (\<not> deepEqual c v) (''must equal '' @ raw_text c)) @
     on (scEnum s) (\<lambda>es. added path (\<not> list_ex (\<lambda>e. deepEqual e v) es)
       (''must be one of '' @ join_with '', '' (map raw_text es)))"

text \<open>The checks of a value's parts: \<open>chk\<close> checks a part against its schema.\<close>

definition check_items ::
  "(JsonSchema \<Rightarrow> json \<Rightarrow> string \<Rightarrow> schema_error + ValidationIssue list) \<Rightarrow> JsonSchema \<Rightarrow> string \<Rightarrow> json list
     \<Rightarrow> schema_error + ValidationIssue list" where
  "check_items chk s path arr =
     (let size_issues =
        on (scMinItems s) (\<lambda>m. added path (length arr < m) (''fewer than '' @ digits_of_nat m @ '' items'')) @
        on (scMaxItems s) (\<lambda>m. added path (length arr > m) (''more than '' @ digits_of_nat m @ '' items''))
      in case scItems s of
           None \<Rightarrow> Inr size_issues
         | Some it \<Rightarrow> emap (\<lambda>rs. size_issues @ concat rs)
             (emapM (\<lambda>(i, x). chk it x (path @ ''/'' @ digits_of_nat i)) (zip [0..<length arr] arr)))"

definition check_member ::
  "(JsonSchema \<Rightarrow> json \<Rightarrow> string \<Rightarrow> schema_error + ValidationIssue list) \<Rightarrow> JsonSchema \<Rightarrow> string \<Rightarrow> string \<times> json
     \<Rightarrow> schema_error + ValidationIssue list" where
  "check_member chk s path p =
     (let here = path @ ''/'' @ esc (fst p) in
      case (case scProperties s of None \<Rightarrow> None | Some ps \<Rightarrow> map_of ps (fst p)) of
        Some ps \<Rightarrow> chk ps (snd p) here
      | None \<Rightarrow>
          (case scAdditional s of
             Some (Inl False) \<Rightarrow> Inr [\<lparr>viPath = here, viMessage = ''additional property not allowed''\<rparr>]
           | Some (Inr ad) \<Rightarrow> chk ad (snd p) here
           | _ \<Rightarrow> Inr []))"

definition check_object ::
  "(JsonSchema \<Rightarrow> json \<Rightarrow> string \<Rightarrow> schema_error + ValidationIssue list) \<Rightarrow> JsonSchema \<Rightarrow> string \<Rightarrow> (string \<times> json) list
     \<Rightarrow> schema_error + ValidationIssue list" where
  "check_object chk s path obj =
     emap (\<lambda>rs. on (scRequired s) (\<lambda>req. concat (map (\<lambda>r. added path (map_of obj r = None)
         (''missing required property '' @ char_of (34 :: nat) # r @ [char_of (34 :: nat)])) req)) @ concat rs)
       (emapM (check_member chk s path) obj)"

text \<open>\<open>subs.some(sub => probe(sub))\<close> stops at the first schema without issues.\<close>

primrec some_probe :: "('s \<Rightarrow> 'e + 'i list) \<Rightarrow> 's list \<Rightarrow> 'e + bool" where
  "some_probe chk [] = Inr False"
| "some_probe chk (x # xs) = ebind (chk x) (\<lambda>r. if r = [] then Inr True else some_probe chk xs)"

text \<open>\<open>allOf\<close>, \<open>anyOf\<close> and \<open>oneOf\<close>; a probe only counts whether there are issues.\<close>

definition check_combined ::
  "(JsonSchema \<Rightarrow> schema_error + ValidationIssue list) \<Rightarrow> JsonSchema \<Rightarrow> string \<Rightarrow> schema_error + ValidationIssue list" where
  "check_combined chk s path =
     ebind (case scAllOf s of None \<Rightarrow> Inr [] | Some subs \<Rightarrow> emap concat (emapM chk subs)) (\<lambda>all.
     ebind (case scAnyOf s of None \<Rightarrow> Inr []
            | Some subs \<Rightarrow> emap (\<lambda>b. added path (\<not> b) ''does not match any schema in anyOf'')
                (some_probe chk subs)) (\<lambda>any.
     ebind (case scOneOf s of None \<Rightarrow> Inr []
            | Some subs \<Rightarrow> emap (\<lambda>rs. let n = length (filter (\<lambda>r. r = []) rs) in
                added path (n \<noteq> 1) (''must match exactly one schema in oneOf (matched '' @ digits_of_nat n @ '')''))
                (emapM chk subs)) (\<lambda>one.
     Inr (all @ any @ one))))"

primrec check ::
  "nat \<Rightarrow> schema_env \<Rightarrow> JsonSchema \<Rightarrow> JsonSchema \<Rightarrow> json \<Rightarrow> string \<Rightarrow> schema_error + ValidationIssue list" where
  "check 0 env base s v path = Inl OutOfDepth"
| "check (Suc n) env base s v path =
     ebind (case truthy (scRef s) of None \<Rightarrow> Inr []
            | Some r \<Rightarrow> ebind (resolve_ref base r) (\<lambda>s'. check n env base s' v path)) (\<lambda>refs.
     let t = typeOf v in
     if (case scType s of None \<Rightarrow> False | Some types \<Rightarrow> \<not> list_ex (typeMatches t) types)
     then Inr (refs @ on (scType s) (\<lambda>types. added path True
        (''expected '' @ join_with ''|'' (map type_name types) @ '', got '' @ type_name t)))
     else
       ebind (case v of
            JArr arr \<Rightarrow> check_items (check n env base) s path arr
          | JObj obj \<Rightarrow> check_object (check n env base) s path obj
          | _ \<Rightarrow> Inr []) (\<lambda>kids.
       ebind (check_combined (\<lambda>sub. check n env base sub v path) s path) (\<lambda>comb.
       Inr (refs @ check_fixed s path v
            @ (case v of JStr str \<Rightarrow> check_string env s path str | _ \<Rightarrow> [])
            @ (if t = TNumber \<or> t = TInteger then check_number env s path v else [])
            @ kids @ comb))))"

text \<open>\<open>ValidationResult\<close>: the issues; the value is valid when there are none.\<close>

definition validate :: "nat \<Rightarrow> schema_env \<Rightarrow> JsonSchema \<Rightarrow> json \<Rightarrow> schema_error + ValidationIssue list" where
  "validate n env schema v = check n env schema schema v []"

subsection \<open>Validation ends\<close>

text \<open>The schemas inside a schema that \<open>check\<close> descends into without a reference.\<close>

definition subschemas :: "JsonSchema \<Rightarrow> JsonSchema list" where
  "subschemas s = on (scProperties s) (map snd) @ on (scAdditional s) (\<lambda>a. case a of Inl _ \<Rightarrow> [] | Inr x \<Rightarrow> [x]) @
     on (scItems s) (\<lambda>x. [x]) @ on (scOneOf s) id @ on (scAnyOf s) id @ on (scAllOf s) id"

lemma size_list_mem: "x \<in> set xs \<Longrightarrow> size x < Suc (size_list size xs)" for xs :: "JsonSchema list"
  by (induction xs) auto

lemma size_pairs_mem: "x \<in> snd ` set xs \<Longrightarrow> size x < Suc (size_list (size_prod (\<lambda>_. 0) size) xs)" for xs :: "(string \<times> JsonSchema) list"
proof (induction xs)
  case (Cons p xs)
  then show ?case by (cases p) force
qed simp

lemma subschema_size: "x \<in> set (subschemas s) \<Longrightarrow> size x < size s"
  by (cases s) (auto simp: subschemas_def on_def dest!: size_list_mem size_pairs_mem split: option.splits sum.splits)

function ref_free :: "JsonSchema \<Rightarrow> bool" where
  "ref_free s = (truthy (scRef s) = None \<and> list_all ref_free (subschemas s))"
  by pat_completeness auto

termination
  by (relation "measure size") (auto dest: subschema_size)

declare ref_free.simps [simp del]

text \<open>Two computations with the same answer, which is not an exception.\<close>

definition same_answer :: "'e + 'a \<Rightarrow> 'e + 'a \<Rightarrow> bool" where
  "same_answer m n \<longleftrightarrow> m = n \<and> (\<exists>r. m = Inr r)"

lemma same_Inr: "same_answer (Inr r) (Inr r)"
  by (simp add: same_answer_def)

lemma same_ebind: "same_answer m n \<Longrightarrow> (\<And>x. same_answer (h x) (k x)) \<Longrightarrow> same_answer (ebind m h) (ebind n k)"
  by (force simp: same_answer_def)

lemma same_emap: "same_answer m n \<Longrightarrow> same_answer (emap h m) (emap h n)"
  by (auto simp: same_answer_def emap_def)

lemma same_emapM: "(\<And>x. x \<in> set xs \<Longrightarrow> same_answer (f x) (g x)) \<Longrightarrow> same_answer (emapM f xs) (emapM g xs)"
  by (induction xs) (auto intro!: same_Inr same_ebind)

lemma same_probe: "(\<And>x. x \<in> set xs \<Longrightarrow> same_answer (f x) (g x)) \<Longrightarrow> same_answer (some_probe f xs) (some_probe g xs)"
  by (induction xs) (auto intro!: same_Inr same_ebind)

lemma same_option: "same_answer m n \<Longrightarrow> (\<And>y. x = Some y \<Longrightarrow> same_answer (f y) (g y)) \<Longrightarrow>
   same_answer (case x of None \<Rightarrow> m | Some y \<Rightarrow> f y) (case x of None \<Rightarrow> n | Some y \<Rightarrow> g y)"
  by (cases x) simp_all

lemma same_if: "same_answer m n \<Longrightarrow> same_answer m' n' \<Longrightarrow> same_answer (if b then m else m') (if b then n else n')"
  by simp

lemmas same_rules = same_Inr same_ebind same_emap same_emapM same_probe same_option same_if

text \<open>Two checkers with the same answers on some schemas.\<close>

definition agree ::
  "JsonSchema list \<Rightarrow> (JsonSchema \<Rightarrow> json \<Rightarrow> string \<Rightarrow> schema_error + ValidationIssue list)
     \<Rightarrow> (JsonSchema \<Rightarrow> json \<Rightarrow> string \<Rightarrow> schema_error + ValidationIssue list) \<Rightarrow> bool" where
  "agree ss f g \<longleftrightarrow> (\<forall>x \<in> set ss. \<forall>v p. same_answer (f x v p) (g x v p))"

lemma subschemas_mem:
  "scItems s = Some a \<Longrightarrow> a \<in> set (subschemas s)" "scAdditional s = Some (Inr b) \<Longrightarrow> b \<in> set (subschemas s)"
  "scProperties s = Some ps \<Longrightarrow> map_of ps k = Some c \<Longrightarrow> c \<in> set (subschemas s)"
  "scAllOf s = Some l \<Longrightarrow> x \<in> set l \<Longrightarrow> x \<in> set (subschemas s)" "scAnyOf s = Some l \<Longrightarrow> x \<in> set l \<Longrightarrow> x \<in> set (subschemas s)"
  "scOneOf s = Some l \<Longrightarrow> x \<in> set l \<Longrightarrow> x \<in> set (subschemas s)"
  by (force simp: subschemas_def on_def dest: map_of_SomeD)+

lemma check_items_agree: "agree (subschemas s) f g \<Longrightarrow> same_answer (check_items f s path arr) (check_items g s path arr)"
  unfolding check_items_def Let_def
  by (intro same_rules) (auto simp: agree_def dest: subschemas_mem(1))

lemma check_member_agree: "agree (subschemas s) f g \<Longrightarrow> same_answer (check_member f s path p) (check_member g s path p)"
proof -
  assume ag: "agree (subschemas s) f g"
  have ad: "same_answer (case scAdditional s of Some (Inl False) \<Rightarrow> Inr [\<lparr>viPath = here, viMessage = ''additional property not allowed''\<rparr>]
       | Some (Inr ad) \<Rightarrow> f ad (snd p) here | _ \<Rightarrow> Inr [])
     (case scAdditional s of Some (Inl False) \<Rightarrow> Inr [\<lparr>viPath = here, viMessage = ''additional property not allowed''\<rparr>]
       | Some (Inr ad) \<Rightarrow> g ad (snd p) here | _ \<Rightarrow> Inr [])" for here
    using ag by (auto simp: agree_def same_Inr split: option.split sum.split bool.split dest: subschemas_mem(2))
  show ?thesis
    unfolding check_member_def Let_def
    by (rule same_option [OF ad]) (use ag in \<open>auto simp: agree_def dest: subschemas_mem(3) split: option.splits\<close>)
qed

lemma check_object_agree: "agree (subschemas s) f g \<Longrightarrow> same_answer (check_object f s path obj) (check_object g s path obj)"
  unfolding check_object_def by (intro same_emap same_emapM check_member_agree)

lemma check_combined_agree:
  "agree (subschemas s) f g \<Longrightarrow> same_answer (check_combined (\<lambda>x. f x v p) s path) (check_combined (\<lambda>x. g x v p) s path)"
  unfolding check_combined_def
  by (intro same_rules) (auto simp: agree_def dest: subschemas_mem(4,5,6))

lemma check_agree:
  "ref_free s \<Longrightarrow> size s < n \<Longrightarrow> size s < m \<Longrightarrow> same_answer (check n env base s v path) (check m env base s v path)"
proof (induction "size s" arbitrary: s n m v path rule: less_induct)
  case less
  then obtain n' m' where nm: "n = Suc n'" "m = Suc m'" by (metis Suc_pred less_nat_zero_code not_gr_zero)
  have free: "truthy (scRef s) = None" "\<And>x. x \<in> set (subschemas s) \<Longrightarrow> ref_free x"
    using less.prems(1) by (auto simp: ref_free.simps [of s] list_all_iff)
  have ag: "agree (subschemas s) (check n' env base) (check m' env base)"
    unfolding agree_def
  proof (intro ballI allI)
    fix x v p
    assume "x \<in> set (subschemas s)"
    with subschema_size [OF this] free(2) [OF this] less.prems(2,3) nm
    show "same_answer (check n' env base x v p) (check m' env base x v p)" by (intro less.hyps) auto
  qed
  have parts: "same_answer (case v of JArr arr \<Rightarrow> check_items (check n' env base) s path arr
       | JObj obj \<Rightarrow> check_object (check n' env base) s path obj | _ \<Rightarrow> Inr [])
     (case v of JArr arr \<Rightarrow> check_items (check m' env base) s path arr
       | JObj obj \<Rightarrow> check_object (check m' env base) s path obj | _ \<Rightarrow> Inr [])"
    using check_items_agree [OF ag] check_object_agree [OF ag] same_Inr by (cases v) simp_all
  show ?case
    unfolding nm check.simps free(1) option.case ebind_Inr Let_def
    by (intro same_if same_Inr same_ebind parts check_combined_agree [OF ag])
qed

text \<open>
  Validation ends. For a schema without references the validator always comes to a list of issues, and the list
  is the same for any fuel beyond the size of the schema.
\<close>

theorem validate_ends:
  assumes "ref_free s"
  shows "\<exists>issues. \<forall>n > size s. validate n env s v = Inr issues"
proof -
  have same: "same_answer (check n env s s v []) (check (Suc (size s)) env s s v [])" if "size s < n" for n
    by (rule check_agree [OF assms that lessI])
  obtain r where "check (Suc (size s)) env s s v [] = Inr r"
    using same [OF lessI] unfolding same_answer_def by blast
  then show ?thesis
    unfolding validate_def using same unfolding same_answer_def by metis
qed

definition name_schema :: JsonSchema where
  "name_schema = JsonSchema None None (Some [TString]) None None None None None None None None (Some 1) None None None None
     None None None None None None"

definition iso_env :: schema_env where
  "iso_env = \<lparr>seParsesDate = (\<lambda>_. True), seRegExp = (\<lambda>_ _. True), seNumber = (\<lambda>_. 0)\<rparr>"

theorem validate_ends_witness: "\<exists>issues. \<forall>n > size name_schema. validate n iso_env name_schema JNull = Inr issues"
  by (rule validate_ends) (simp add: name_schema_def ref_free.simps subschemas_def on_def truthy_def)

end
