(* ===== verification/EventsTopics.thy ===== *)
theory EventsTopics imports EventsSchema begin

text \<open>
  \<open>topics.ts\<close> and \<open>envelope.ts\<close> of \<open>platform/events/src\<close>: topic definitions, the names they stand for, the registry,
  the evolution rule, and the CloudEvents envelope. Error messages are left out, the issues of a refused payload are
  kept; version numbers are exact naturals.
\<close>

subsection \<open>Names\<close>

definition ident_char :: "char \<Rightarrow> bool" where
  "ident_char c = (let n = of_char (lower_char c) :: nat in (97 \<le> n \<and> n \<le> 122) \<or> is_digit c \<or> c = CHR ''_'')"

definition ident_start :: "char \<Rightarrow> bool" where
  "ident_start c = (let n = of_char (lower_char c) :: nat in 97 \<le> n \<and> n \<le> 122)"

definition is_ident :: "string \<Rightarrow> bool" where
  "is_ident s = (s \<noteq> [] \<and> ident_start (hd s) \<and> list_all ident_char (tl s))"

text \<open>\<open>w.startsWith('{')\<close> and \<open>w.slice(1, -1)\<close>.\<close>

definition is_param :: "string \<Rightarrow> bool" where "is_param w = (w \<noteq> [] \<and> hd w = CHR 0x7B)"
definition param_of :: "string \<Rightarrow> string" where "param_of w = butlast (tl w)"
definition placeholder :: "string \<Rightarrow> string" where "placeholder p = CHR 0x7B # p @ [CHR 0x7D]"

definition NAME_WORD :: "string \<Rightarrow> bool" where
  "NAME_WORD w = (WORD w \<or> (is_ident (param_of w) \<and> w = placeholder (param_of w)))"

text \<open>\<open>templateToPattern\<close>: every placeholder in the text becomes a star; scanning from the left.\<close>

definition placeholder_length :: "string \<Rightarrow> nat option" where
  "placeholder_length s =
     (case s of
        [] \<Rightarrow> None
      | c # r \<Rightarrow>
          let p = takeWhile ident_char r; e = drop (length p) r in
          if c = CHR 0x7B \<and> is_ident p \<and> e \<noteq> [] \<and> hd e = CHR 0x7D then Some (length p + 2) else None)"

function templateToPattern :: "string \<Rightarrow> string" where
  "templateToPattern [] = []"
| "templateToPattern (c # s) =
     (case placeholder_length (c # s) of
        Some n \<Rightarrow> CHR ''*'' # templateToPattern (drop (n - 1) s)
      | None \<Rightarrow> c # templateToPattern s)"
  by pat_completeness auto

termination
  by (relation "measure length") auto

definition version_part :: "string \<Rightarrow> bool" where
  "version_part s = (s = ''0'' \<or> (s \<noteq> [] \<and> list_all is_digit s \<and> hd s \<noteq> CHR ''0''))"

datatype topic_error = TopicError "ValidationIssue list" | TopicSchemaError schema_error | EnvelopeError

definition parseSemver :: "string \<Rightarrow> topic_error + (nat \<times> nat \<times> nat)" where
  "parseSemver v =
     (case split_dots v of
        [a, b, c] \<Rightarrow> if version_part a \<and> version_part b \<and> version_part c
                      then Inr (num_of_digits 0 a, num_of_digits 0 b, num_of_digits 0 c) else Inl (TopicError [])
      | _ \<Rightarrow> Inl (TopicError []))"

text \<open>\<open>/\.v([1-9]\d*)$/\<close>: the last word, when there is one before it.\<close>

definition version_suffix :: "string \<Rightarrow> string option" where
  "version_suffix name =
     (let ws = split_dots name; w = last ws in
      if length ws \<ge> 2 \<and> w \<noteq> [] \<and> hd w = CHR ''v'' \<and> version_part (tl w) \<and> tl w \<noteq> ''0'' then Some (tl w) else None)"

definition topicFamily :: "string \<Rightarrow> string" where
  "topicFamily name = (if version_suffix name = None then name else join_dots (butlast (split_dots name)))"

subsection \<open>Topics\<close>

record TopicParam =
  tpDescription :: string
  tpEnum :: "string list option"

record TopicDefinition =
  tdName :: string
  tdVersion :: string
  tdSchema :: JsonSchema
  tdProducer :: string
  tdDescription :: string
  tdParams :: "(string \<times> TopicParam) list option"
  tdDataschema :: "string option"

text \<open>A frozen topic; \<open>tpWords\<close> is what its methods close over.\<close>

record Topic = TopicDefinition +
  tpWords :: "string list"
  tpParams :: "(string \<times> TopicParam) list"
  tpParamNames :: "string list"
  tpPattern :: string
  tpMajor :: nat
  tpFamily :: string

definition defineTopic :: "TopicDefinition \<Rightarrow> topic_error + Topic" where
  "defineTopic def =
     (let ws = split_dots (tdName def) in
      if tdName def = [] \<or> \<not> list_all NAME_WORD ws then Inl (TopicError [])
      else ebind (parseSemver (tdVersion def)) (\<lambda>(major, _, _).
      let suffix = version_suffix (tdName def);
          params = (case tdParams def of None \<Rightarrow> [] | Some ps \<Rightarrow> ps);
          names = map param_of (filter is_param ws)
      in if major \<le> 1 \<and> suffix \<noteq> None then Inl (TopicError [])
         else if major \<ge> 2 \<and> (case suffix of None \<Rightarrow> True | Some d \<Rightarrow> num_of_digits 0 d \<noteq> major) then Inl (TopicError [])
         else if tdProducer def = [] \<or> tdDescription def = [] then Inl (TopicError [])
         else if \<not> distinct names then Inl (TopicError [])
         else if list_ex (\<lambda>p. map_of params p = None) names then Inl (TopicError [])
         else if list_ex (\<lambda>(p, _). p \<notin> set names) params then Inl (TopicError [])
         else if list_ex (\<lambda>(_, sp). list_ex (\<lambda>v. \<not> WORD v) (case tpEnum sp of None \<Rightarrow> [] | Some e \<Rightarrow> e)) params
         then Inl (TopicError [])
         else Inr (TopicDefinition.extend def
           \<lparr>tpWords = ws, tpParams = params, tpParamNames = names, tpPattern = templateToPattern (tdName def),
            tpMajor = max 1 major, tpFamily = topicFamily (tdName def)\<rparr>)))"

text \<open>A value a parameter may take.\<close>

definition allowed_value :: "Topic \<Rightarrow> string \<Rightarrow> string \<Rightarrow> bool" where
  "allowed_value t p v = (WORD v \<and>
     (case map_of (tpParams t) p of
        Some sp \<Rightarrow> (case tpEnum sp of None \<Rightarrow> True | Some e \<Rightarrow> v \<in> set e)
      | None \<Rightarrow> True))"

definition checkParam :: "Topic \<Rightarrow> string \<Rightarrow> string option \<Rightarrow> topic_error + string" where
  "checkParam t p v = (case v of None \<Rightarrow> Inl (TopicError []) | Some x \<Rightarrow> if allowed_value t p x then Inr x else Inl (TopicError []))"

definition typeFor :: "Topic \<Rightarrow> (string \<times> string) list \<Rightarrow> topic_error + string" where
  "typeFor t values =
     emap join_dots (emapM (\<lambda>w. if is_param w then checkParam t (param_of w) (map_of values (param_of w)) else Inr w) (tpWords t))"

fun match_words :: "Topic \<Rightarrow> string list \<Rightarrow> string list \<Rightarrow> (string \<times> string) list \<Rightarrow> (string \<times> string) list option" where
  "match_words t (w # ws) (v # vs) out =
     (if is_param w
      then (if allowed_value t (param_of w) v then match_words t ws vs (AList.update (param_of w) v out) else None)
      else if w = v then match_words t ws vs out else None)"
| "match_words t _ _ out = Some out"

definition topic_match :: "Topic \<Rightarrow> string \<Rightarrow> (string \<times> string) list option" where
  "topic_match t ty =
     (let parts = split_dots ty in if length parts \<noteq> length (tpWords t) then None else match_words t (tpWords t) parts [])"

subsection \<open>Envelopes\<close>

record EventEnvelope =
  evId :: string
  evSource :: string
  evType :: string
  evSubject :: "string option"
  evTime :: string
  evDataschema :: "string option"
  evData :: json
  evTraceparent :: "string option"

record CreateEventInput =
  ceSource :: string
  ceType :: string
  ceData :: json
  ceSubject :: "string option"
  ceId :: "string option"
  ceTime :: "(string + nat) option"
  ceDataschema :: "string option"
  ceTraceparent :: "string option"

definition traceparent_shape :: "string \<Rightarrow> bool" where
  "traceparent_shape s = (length s = 55 \<and>
     list_all (\<lambda>i. if i \<in> {2, 35, 52} then s ! i = CHR ''-'' else is_hex (s ! i) \<and> lower_char (s ! i) = s ! i) [0..<55])"

text \<open>\<open>assertEnvelope\<close> on a value from the wire.\<close>

definition str_member :: "string \<Rightarrow> (string \<times> json) list \<Rightarrow> string option" where
  "str_member k ps = (case map_of ps k of Some (JStr s) \<Rightarrow> Some s | _ \<Rightarrow> None)"

definition optional_member :: "(string \<Rightarrow> bool) \<Rightarrow> string \<Rightarrow> (string \<times> json) list \<Rightarrow> bool" where
  "optional_member ok k ps = (case map_of ps k of None \<Rightarrow> True | Some (JStr s) \<Rightarrow> ok s | Some _ \<Rightarrow> False)"

definition assertEnvelope :: "schema_env \<Rightarrow> json \<Rightarrow> topic_error + unit" where
  "assertEnvelope env v =
     (case properties_of v of
        None \<Rightarrow> Inl EnvelopeError
      | Some e \<Rightarrow>
          if str_member ''specversion'' e \<noteq> Some ''1.0'' then Inl EnvelopeError
          else if list_ex (\<lambda>k. truthy (str_member k e) = None) [''id'', ''source'', ''type'', ''time''] then Inl EnvelopeError
          else if \<not> isRoutingKey (the (str_member ''type'' e)) then Inl EnvelopeError
          else if \<not> seParsesDate env (the (str_member ''time'' e)) then Inl EnvelopeError
          else if str_member ''datacontenttype'' e \<noteq> Some ''application/json'' then Inl EnvelopeError
          else if map_of e ''data'' = None then Inl EnvelopeError
          else if \<not> optional_member (\<lambda>_. True) ''subject'' e then Inl EnvelopeError
          else if \<not> optional_member (\<lambda>_. True) ''dataschema'' e then Inl EnvelopeError
          else if \<not> optional_member traceparent_shape ''traceparent'' e then Inl EnvelopeError
          else Inr ())"

definition isEventEnvelope :: "schema_env \<Rightarrow> json \<Rightarrow> bool" where
  "isEventEnvelope env v = (case assertEnvelope env v of Inl _ \<Rightarrow> False | Inr _ \<Rightarrow> True)"

definition opt_entry :: "string \<Rightarrow> string option \<Rightarrow> (string \<times> json) list" where
  "opt_entry k v = (case v of None \<Rightarrow> [] | Some s \<Rightarrow> [(k, JStr s)])"

definition envelope_json :: "EventEnvelope \<Rightarrow> json" where
  "envelope_json e = JObj
     ([(''specversion'', JStr ''1.0''), (''id'', JStr (evId e)), (''source'', JStr (evSource e)),
       (''type'', JStr (evType e)), (''time'', JStr (evTime e)), (''datacontenttype'', JStr ''application/json''),
       (''data'', evData e)] @ opt_entry ''subject'' (evSubject e) @ opt_entry ''dataschema'' (evDataschema e)
      @ opt_entry ''traceparent'' (evTraceparent e))"

text \<open>\<open>createEvent\<close>; \<open>now\<close> and \<open>newId\<close> are the clock's and the generator's answers.\<close>

definition createEvent :: "schema_env \<Rightarrow> nat \<Rightarrow> string \<Rightarrow> CreateEventInput \<Rightarrow> topic_error + EventEnvelope" where
  "createEvent env now newid input =
     (let e = \<lparr>evId = (case ceId input of None \<Rightarrow> newid | Some i \<Rightarrow> i), evSource = ceSource input, evType = ceType input,
               evSubject = ceSubject input,
               evTime = (case ceTime input of None \<Rightarrow> toISOString now | Some (Inl s) \<Rightarrow> s | Some (Inr d) \<Rightarrow> toISOString d),
               evDataschema = ceDataschema input, evData = ceData input, evTraceparent = ceTraceparent input\<rparr>
      in ebind (assertEnvelope env (envelope_json e)) (\<lambda>_. Inr e))"

text \<open>\<open>topic.create\<close>: the payload is checked first, then the type is bound, then the envelope is built.\<close>

definition topic_validate :: "nat \<Rightarrow> schema_env \<Rightarrow> Topic \<Rightarrow> json \<Rightarrow> topic_error + ValidationIssue list" where
  "topic_validate n env t data = (case validate n env (tdSchema t) data of Inl e \<Rightarrow> Inl (TopicSchemaError e) | Inr r \<Rightarrow> Inr r)"

definition topic_create ::
  "nat \<Rightarrow> schema_env \<Rightarrow> nat \<Rightarrow> string \<Rightarrow> Topic \<Rightarrow> (string \<times> string) list \<Rightarrow> CreateEventInput \<Rightarrow> topic_error + EventEnvelope" where
  "topic_create n env now newid t values input =
     ebind (topic_validate n env t (ceData input)) (\<lambda>issues.
     if issues \<noteq> [] then Inl (TopicError issues)
     else ebind (typeFor t values) (\<lambda>ty.
       createEvent env now newid (input\<lparr>ceType := ty,
         ceDataschema := (case truthy (tdDataschema t) of None \<Rightarrow> ceDataschema input | Some d \<Rightarrow> Some d)\<rparr>)))"

subsection \<open>The registry\<close>

definition overlaps :: "string \<Rightarrow> string \<Rightarrow> bool" where
  "overlaps a b =
     (let x = split_dots a; y = split_dots b in
      length x = length y \<and> list_all (\<lambda>(v, w). is_param v \<or> is_param w \<or> v = w) (zip x y))"

text \<open>The registry's map, in insertion order.\<close>

type_synonym TopicRegistry = "(string \<times> Topic) list"

definition register :: "Topic \<Rightarrow> TopicRegistry \<Rightarrow> topic_error + TopicRegistry" where
  "register t reg =
     (if map_of reg (tdName t) \<noteq> None then Inl (TopicError [])
      else if list_ex (\<lambda>(_, x). overlaps (tdName x) (tdName t)) reg then Inl (TopicError [])
      else Inr (AList.update (tdName t) t reg))"

definition registry_get :: "string \<Rightarrow> TopicRegistry \<Rightarrow> Topic option" where
  "registry_get name reg = map_of reg name"

fun resolve_in :: "Topic list \<Rightarrow> string \<Rightarrow> (Topic \<times> (string \<times> string) list) option" where
  "resolve_in [] ty = None"
| "resolve_in (t # ts) ty = (case topic_match t ty of Some ps \<Rightarrow> Some (t, ps) | None \<Rightarrow> resolve_in ts ty)"

definition registry_resolve :: "string \<Rightarrow> TopicRegistry \<Rightarrow> (Topic \<times> (string \<times> string) list) option" where
  "registry_resolve ty reg = resolve_in (map snd reg) ty"

definition registry_validate :: "nat \<Rightarrow> schema_env \<Rightarrow> TopicRegistry \<Rightarrow> EventEnvelope \<Rightarrow> topic_error + ValidationIssue list" where
  "registry_validate n env reg e =
     (case registry_resolve (evType e) reg of
        None \<Rightarrow> Inr [\<lparr>viPath = ''/type'', viMessage = ''unknown topic '' @ char_of (34 :: nat) # evType e @ [char_of (34 :: nat)]\<rparr>]
      | Some (t, _) \<Rightarrow> emap (map (\<lambda>i. i\<lparr>viPath := ''/data'' @ (if viPath i = ''/'' then [] else viPath i)\<rparr>))
          (topic_validate n env t (evData e)))"

definition registry_assertValid :: "nat \<Rightarrow> schema_env \<Rightarrow> TopicRegistry \<Rightarrow> EventEnvelope \<Rightarrow> topic_error + unit" where
  "registry_assertValid n env reg e =
     ebind (registry_validate n env reg e) (\<lambda>issues. if issues = [] then Inr () else Inl (TopicError issues))"

subsection \<open>Evolution\<close>

text \<open>What changed, and where; \<open>EnumValuesRemoved\<close> keeps the values.\<close>

datatype change = TypeChanged | ConstChanged | EnumDropped | EnumValuesRemoved "json list" | PropertyRemoved | NoLongerRequired

definition typesOf :: "JsonSchema \<Rightarrow> string list" where
  "typesOf s = sort_by str_le (map type_name (case scType s of None \<Rightarrow> [] | Some ts \<Rightarrow> ts))"

definition own_changes :: "JsonSchema \<Rightarrow> JsonSchema \<Rightarrow> string \<Rightarrow> (string \<times> change) list" where
  "own_changes prev nxt path =
     (let here = (if path = [] then ''/'' else path) in
      (if join_with '','' (typesOf prev) \<noteq> join_with '','' (typesOf nxt) then [(here, TypeChanged)] else []) @
      on (scConst prev) (\<lambda>c. if map_option raw_text (scConst nxt) \<noteq> Some (raw_text c) then [(here, ConstChanged)] else []) @
      on (scEnum prev) (\<lambda>pe. case scEnum nxt of
          None \<Rightarrow> [(here, EnumDropped)]
        | Some ne \<Rightarrow>
            let removed = filter (\<lambda>v. \<not> list_ex (\<lambda>w. raw_text w = raw_text v) ne) pe in
            if removed \<noteq> [] then [(here, EnumValuesRemoved removed)] else []))"

definition requires :: "JsonSchema \<Rightarrow> string \<Rightarrow> bool" where
  "requires s k = (case scRequired s of None \<Rightarrow> False | Some r \<Rightarrow> k \<in> set r)"

definition properties :: "JsonSchema \<Rightarrow> (string \<times> JsonSchema) list" where
  "properties s = (case scProperties s of None \<Rightarrow> [] | Some ps \<Rightarrow> ps)"

lemma size_property: "(k, ps) \<in> set (properties s) \<Longrightarrow> size ps < size s"
proof -
  have l: "(k, ps) \<in> set xs \<Longrightarrow> size ps < Suc (size_list (size_prod (\<lambda>_. 0) size) xs)" for xs :: "(string \<times> JsonSchema) list"
    by (induction xs) auto
  assume "(k, ps) \<in> set (properties s)"
  then show ?thesis by (cases s) (auto simp: properties_def dest!: l split: option.splits)
qed

lemma size_items: "scItems s = Some it \<Longrightarrow> size it < size s"
  by (cases s) auto

function detectBreakingChanges :: "JsonSchema \<Rightarrow> JsonSchema \<Rightarrow> string \<Rightarrow> (string \<times> change) list" where
  "detectBreakingChanges prev nxt path =
     own_changes prev nxt path @
     concat (map (\<lambda>(k, ps).
       case map_of (properties nxt) k of
         None \<Rightarrow> [(path @ ''/'' @ k, PropertyRemoved)]
       | Some ns \<Rightarrow>
           (if requires prev k \<and> \<not> requires nxt k then [(path @ ''/'' @ k, NoLongerRequired)] else [])
           @ detectBreakingChanges ps ns (path @ ''/'' @ k)) (properties prev)) @
     (case (scItems prev, scItems nxt) of
        (Some a, Some b) \<Rightarrow> detectBreakingChanges a b (path @ ''/items'')
      | _ \<Rightarrow> [])"
  by pat_completeness auto

termination
  by (relation "measure (\<lambda>(p, n, path). size p)") (auto dest: size_property size_items [OF sym])

declare detectBreakingChanges.simps [simp del]

definition assertCompatibleEvolution :: "Topic \<Rightarrow> Topic \<Rightarrow> topic_error + unit" where
  "assertCompatibleEvolution prev nxt =
     ebind (parseSemver (tdVersion prev)) (\<lambda>(pM, pm, pp).
     ebind (parseSemver (tdVersion nxt)) (\<lambda>(nM, nm, np).
     if nM * 10 ^ 12 + nm * 10 ^ 6 + np \<le> pM * 10 ^ 12 + pm * 10 ^ 6 + pp then Inl (TopicError [])
     else if topicFamily (tdName nxt) \<noteq> tpFamily prev then Inl (TopicError [])
     else if nM = pM \<and> tdName nxt \<noteq> tdName prev then Inl (TopicError [])
     else if nM = pM \<and> detectBreakingChanges (tdSchema prev) (tdSchema nxt) [] \<noteq> [] then Inl (TopicError [])
     else Inr ()))"

subsection \<open>Words and names\<close>

lemma split_nonempty [simp]: "split_dots s \<noteq> []"
  by (induction s) (auto split: list.split)

lemma join_split [simp]: "join_dots (split_dots s) = s"
proof (induction s)
  case (Cons c s)
  obtain w ws where w: "split_dots s = w # ws" by (cases "split_dots s") auto
  with Cons show ?case by (cases ws) auto
qed simp

lemma split_word: "CHR ''.'' \<notin> set w \<Longrightarrow> split_dots w = [w]"
  by (induction w) auto

lemma split_append: "CHR ''.'' \<notin> set w \<Longrightarrow> split_dots (w @ CHR ''.'' # s) = w # split_dots s"
  by (induction w) auto

lemma split_join: "ws \<noteq> [] \<Longrightarrow> list_all (\<lambda>w. CHR ''.'' \<notin> set w) ws \<Longrightarrow> split_dots (join_dots ws) = ws"
proof (induction ws)
  case (Cons w ws)
  then show ?case by (cases ws) (auto simp: split_word split_append)
qed simp

lemma WORD_no_dot: "WORD w \<Longrightarrow> CHR ''.'' \<notin> set w"
proof
  assume "WORD w" "CHR ''.'' \<in> set w"
  then have "word_char (CHR ''.'')" by (auto simp: WORD_def list_all_iff)
  moreover have "\<not> word_char (CHR ''.'')" by code_simp
  ultimately show False by simp
qed

lemma not_word_brace: "\<not> word_char (CHR 0x7B)" by code_simp

lemma WORD_not_param: "WORD w \<Longrightarrow> \<not> is_param w"
  using not_word_brace by (cases w) (auto simp: WORD_def is_param_def)

lemma param_placeholder [simp]: "is_param (placeholder p)" "param_of (placeholder p) = p"
  by (simp_all add: is_param_def param_of_def placeholder_def)

lemma NAME_WORD_cases: "NAME_WORD w \<Longrightarrow> (WORD w \<and> \<not> is_param w) \<or> (is_param w \<and> is_ident (param_of w) \<and> w = placeholder (param_of w))"
  by (auto simp: NAME_WORD_def WORD_not_param) (metis param_placeholder(1))

subsection \<open>Bound names\<close>

text \<open>What \<open>defineTopic\<close> establishes of a topic.\<close>

definition topic_ok :: "Topic \<Rightarrow> bool" where
  "topic_ok t \<longleftrightarrow> tpWords t = split_dots (tdName t) \<and> list_all NAME_WORD (tpWords t) \<and>
     tpParamNames t = map param_of (filter is_param (tpWords t)) \<and> distinct (tpParamNames t) \<and>
     tpPattern t = templateToPattern (tdName t)"

lemma defineTopic_ok: "defineTopic def = Inr t \<Longrightarrow> topic_ok t \<and> tdName t = tdName def \<and> tdSchema t = tdSchema def"
  by (auto simp: defineTopic_def Let_def ebind_eq_Inr topic_ok_def TopicDefinition.defs split: if_splits prod.splits)

lemma typeFor_words:
  assumes "list_all NAME_WORD ws"
    and "emapM (\<lambda>w. if is_param w then checkParam t (param_of w) (map_of values (param_of w)) else Inr w) ws = Inr vs"
    and "distinct (map fst out @ map param_of (filter is_param ws))"
  shows "list_all WORD vs \<and> length vs = length ws \<and>
     match_words t ws vs out = Some (out @ map (\<lambda>p. (p, the (map_of values p))) (map param_of (filter is_param ws)))"
  using assms
proof (induction ws arbitrary: vs out)
  case (Cons w ws)
  let ?f = "\<lambda>w. if is_param w then checkParam t (param_of w) (map_of values (param_of w)) else Inr w"
  obtain v vs' where v: "?f w = Inr v" "emapM ?f ws = Inr vs'" "vs = v # vs'"
    using Cons.prems(2) by (auto simp: ebind_eq_Inr split: if_splits)
  show ?case
  proof (cases "is_param w")
    case True
    then have a: "map_of values (param_of w) = Some v" "allowed_value t (param_of w) v"
      using v(1) by (auto simp: checkParam_def split: option.splits if_splits)
    have fresh: "param_of w \<notin> fst ` set out" using Cons.prems(3) True by auto
    have d: "distinct (map fst (AList.update (param_of w) v out) @ map param_of (filter is_param ws))"
      using Cons.prems(3) True by (auto simp: update_append_fresh [OF fresh])
    have "list_all WORD vs' \<and> length vs' = length ws \<and>
       match_words t ws vs' (AList.update (param_of w) v out) =
         Some (AList.update (param_of w) v out @ map (\<lambda>p. (p, the (map_of values p))) (map param_of (filter is_param ws)))"
      using Cons.prems(1) by (intro Cons.IH [OF _ v(2) d]) simp
    with True a v(3) show ?thesis by (simp add: allowed_value_def update_append_fresh [OF fresh])
  next
    case False
    then have "WORD w" "v = w" using Cons.prems(1) v(1) NAME_WORD_cases [of w] by auto
    moreover have "list_all WORD vs' \<and> length vs' = length ws \<and>
       match_words t ws vs' out = Some (out @ map (\<lambda>p. (p, the (map_of values p))) (map param_of (filter is_param ws)))"
      using Cons.prems(1,3) False by (intro Cons.IH [OF _ v(2)]) simp_all
    ultimately show ?thesis using False v(3) by simp
  qed
qed simp

text \<open>
  A bound name gives its parameters back. When a defined topic binds values to a name, the name is a routing key,
  and the topic matches it with exactly its parameters bound to the values they had.
\<close>

theorem typeFor_match:
  assumes "defineTopic def = Inr t" and "typeFor t values = Inr ty"
  shows "isRoutingKey ty \<and> topic_match t ty = Some (map (\<lambda>p. (p, the (map_of values p))) (tpParamNames t))"
proof -
  have ok: "topic_ok t" using defineTopic_ok [OF assms(1)] by simp
  then have ws: "list_all NAME_WORD (tpWords t)" "tpWords t \<noteq> []" "distinct (map param_of (filter is_param (tpWords t)))"
    by (auto simp: topic_ok_def)
  obtain vs where vs: "emapM (\<lambda>w. if is_param w then checkParam t (param_of w) (map_of values (param_of w)) else Inr w) (tpWords t) = Inr vs"
      "ty = join_dots vs"
    using assms(2) by (auto simp: typeFor_def emap_def ebind_eq_Inr)
  from typeFor_words [OF ws(1) vs(1), of "[]"] ws(3)
  have m: "list_all WORD vs" "length vs = length (tpWords t)"
    "match_words t (tpWords t) vs [] = Some (map (\<lambda>p. (p, the (map_of values p))) (tpParamNames t))"
    using ok by (simp_all add: topic_ok_def)
  have ne: "vs \<noteq> []" using m(2) ws(2) by auto
  have sp: "split_dots ty = vs"
    unfolding vs(2) using m(1) ne by (intro split_join) (auto simp: list_all_iff dest: WORD_no_dot)
  then have "ty \<noteq> []" using m(1) ne by (cases ty) (auto simp: WORD_def)
  with sp m show ?thesis by (simp add: isRoutingKey_def topic_match_def Let_def)
qed

definition any_schema :: JsonSchema where
  "any_schema = JsonSchema None None None None None None None None None None None None None None None None None None None None None None"

text \<open>\<open>block.indexed.{network}\<close> without its payload schema.\<close>

definition block_topic_def :: TopicDefinition where
  "block_topic_def = \<lparr>tdName = ''block.indexed.'' @ placeholder ''network'', tdVersion = ''1.0.0'', tdSchema = any_schema,
     tdProducer = ''bitcoin-indexer'', tdDescription = ''d'',
     tdParams = Some [(''network'', \<lparr>tpDescription = ''d'', tpEnum = Some [''mainnet'', ''testnet'', ''signet'', ''regtest'']\<rparr>)],
     tdDataschema = None\<rparr>"

definition block_topic :: Topic where
  "block_topic = TopicDefinition.extend block_topic_def
     \<lparr>tpWords = [''block'', ''indexed'', placeholder ''network''],
      tpParams = [(''network'', \<lparr>tpDescription = ''d'', tpEnum = Some [''mainnet'', ''testnet'', ''signet'', ''regtest'']\<rparr>)],
      tpParamNames = [''network''], tpPattern = ''block.indexed.*'', tpMajor = 1, tpFamily = ''block.indexed.'' @ placeholder ''network''\<rparr>"

lemma block_topic_defined: "defineTopic block_topic_def = Inr block_topic"
  by code_simp

lemma block_topic_bound: "typeFor block_topic [(''network'', ''signet'')] = Inr ''block.indexed.signet''"
  by code_simp

lemma block_topic_matched: "topic_match block_topic ''block.indexed.signet'' = Some [(''network'', ''signet'')]"
  by code_simp

theorem typeFor_match_witness:
  "isRoutingKey ''block.indexed.signet'' \<and>
   topic_match block_topic ''block.indexed.signet'' = Some [(''network'', ''signet'')]"
proof -
  have "tpParamNames block_topic = [''network'']" by (simp add: block_topic_def TopicDefinition.defs)
  with typeFor_match [OF block_topic_defined block_topic_bound] show ?thesis by simp
qed

subsection \<open>Patterns\<close>

definition star_word :: "string \<Rightarrow> string" where "star_word w = (if is_param w then ''*'' else w)"

lemma takeWhile_ident: "is_ident p \<Longrightarrow> takeWhile ident_char (p @ CHR 0x7D # r) = p"
proof -
  assume p: "is_ident p"
  have "\<not> ident_char (CHR 0x7D)" by code_simp
  moreover have "list_all ident_char p"
    using p by (cases p) (auto simp: is_ident_def ident_char_def ident_start_def Let_def)
  ultimately show ?thesis by (simp add: takeWhile_append2 list_all_iff)
qed

lemma template_placeholder: "is_ident p \<Longrightarrow> templateToPattern (placeholder p @ s) = CHR ''*'' # templateToPattern s"
proof -
  assume p: "is_ident p"
  have "placeholder_length (placeholder p @ s) = Some (length p + 2)"
    using p takeWhile_ident [OF p, of s] by (simp add: placeholder_length_def placeholder_def)
  then show ?thesis by (simp add: placeholder_def)
qed

lemma template_char: "c \<noteq> CHR 0x7B \<Longrightarrow> templateToPattern (c # s) = c # templateToPattern s"
  by (simp add: placeholder_length_def Let_def)

lemma template_word: "CHR 0x7B \<notin> set w \<Longrightarrow> templateToPattern (w @ s) = w @ templateToPattern s"
  by (induction w) (auto simp: template_char simp del: templateToPattern.simps)

lemma template_name_word: "NAME_WORD w \<Longrightarrow> templateToPattern (w @ s) = star_word w @ templateToPattern s"
proof -
  assume w: "NAME_WORD w"
  show ?thesis
  proof (cases "is_param w")
    case True
    with NAME_WORD_cases [OF w] have "is_ident (param_of w)" "w = placeholder (param_of w)" by auto
    then show ?thesis using template_placeholder [of "param_of w" s] True by (simp add: star_word_def)
  next
    case False
    with NAME_WORD_cases [OF w] have "WORD w" by auto
    then have "CHR 0x7B \<notin> set w" using not_word_brace by (auto simp: WORD_def list_all_iff)
    with False show ?thesis by (simp add: star_word_def template_word)
  qed
qed

lemma template_join: "list_all NAME_WORD ws \<Longrightarrow> templateToPattern (join_dots ws) = join_dots (map star_word ws)"
proof (induction ws)
  case (Cons w ws)
  show ?case
  proof (cases ws)
    case Nil
    then show ?thesis using Cons.prems template_name_word [of w "[]"] by simp
  next
    case (Cons w' ws')
    have "templateToPattern (join_dots (w # ws)) = star_word w @ templateToPattern (''.'' @ join_dots ws)"
      using Cons.prems template_name_word [of w "''.'' @ join_dots ws"] \<open>ws = w' # ws'\<close> by simp
    then show ?thesis using Cons.prems Cons.IH \<open>ws = w' # ws'\<close> by (simp add: template_char del: templateToPattern.simps(2))
  qed
qed simp

lemma fits_words:
  assumes "list_all NAME_WORD ws" and "match_words t ws vs out = Some ps" and "length vs = length ws"
  shows "fits (map star_word ws) vs"
  using assms
proof (induction t ws vs out rule: match_words.induct)
  case (1 t w ws v vs out)
  have hash: "star_word w \<noteq> ''#''"
  proof -
    have "\<not> word_char (CHR ''#'')" by code_simp
    with NAME_WORD_cases [of w] 1(3) show ?thesis by (auto simp: star_word_def WORD_def)
  qed
  show ?case using 1 hash by (auto simp: star_word_def split: if_splits)
qed auto

lemma split_pattern:
  assumes "list_all NAME_WORD ws" and "ws \<noteq> []"
  shows "split_dots (join_dots (map star_word ws)) = map star_word ws"
proof (rule split_join)
  show "list_all (\<lambda>w. CHR ''.'' \<notin> set w) (map star_word ws)"
    using assms(1) NAME_WORD_cases WORD_no_dot by (fastforce simp: list_all_iff star_word_def)
qed (use assms in simp)

text \<open>
  The binding key of a topic covers its names. Every event type that a defined topic matches is routed to a
  subscription to the topic's pattern, the template with its placeholders as stars.
\<close>

theorem pattern_covers_topic:
  assumes "defineTopic def = Inr t" and "topic_match t ty = Some ps"
  shows "matchesPattern (tpPattern t) ty"
proof -
  have ok: "topic_ok t" using defineTopic_ok [OF assms(1)] by simp
  then have ws: "list_all NAME_WORD (tpWords t)" "tpWords t \<noteq> []" by (auto simp: topic_ok_def)
  have p: "split_dots (tpPattern t) = map star_word (tpWords t)"
    using ok split_pattern [OF ws] template_join [OF ws(1)] by (simp add: topic_ok_def)
  have "fits (map star_word (tpWords t)) (split_dots ty)"
    using assms(2) fits_words [OF ws(1)] by (auto simp: topic_match_def Let_def split: if_splits)
  then show ?thesis unfolding matches_fits p .
qed

theorem pattern_covers_topic_witness: "matchesPattern (tpPattern block_topic) ''block.indexed.signet''"
  by (rule pattern_covers_topic [OF block_topic_defined block_topic_matched])

subsection \<open>One topic per type\<close>

inductive registered :: "TopicRegistry \<Rightarrow> bool" where
  empty: "registered []"
| more: "registered reg \<Longrightarrow> defineTopic def = Inr t \<Longrightarrow> register t reg = Inr reg' \<Longrightarrow> registered reg'"

lemma match_overlap:
  assumes "match_words a xs vs out = Some ps" and "match_words b ys vs out' = Some qs"
    and "length xs = length vs" and "length ys = length vs"
  shows "list_all (\<lambda>(v, w). is_param v \<or> is_param w \<or> v = w) (zip xs ys)"
  using assms
proof (induction vs arbitrary: xs ys out out')
  case (Cons v vs)
  then obtain x xs' y ys' where "xs = x # xs'" "ys = y # ys'" by (metis length_Suc_conv length_Cons)
  with Cons show ?case by (auto split: if_splits)
qed auto

lemma match_both_overlap:
  assumes "topic_ok a" and "topic_ok b" and "topic_match a ty = Some ps" and "topic_match b ty = Some qs"
  shows "overlaps (tdName a) (tdName b)"
  using assms match_overlap [of a "tpWords a" "split_dots ty" "[]" ps b "tpWords b" "[]" qs]
  by (auto simp: topic_match_def Let_def overlaps_def topic_ok_def split: if_splits)

definition separate :: "Topic list \<Rightarrow> bool" where
  "separate ts \<longleftrightarrow> list_all topic_ok ts \<and>
     (\<forall>i j. i < j \<longrightarrow> j < length ts \<longrightarrow> \<not> overlaps (tdName (ts ! i)) (tdName (ts ! j)))"

lemma separate_snoc: "separate ts \<Longrightarrow> topic_ok t \<Longrightarrow> (\<And>x. x \<in> set ts \<Longrightarrow> \<not> overlaps (tdName x) (tdName t)) \<Longrightarrow> separate (ts @ [t])"
  by (auto simp: separate_def nth_append less_Suc_eq)

lemma registered_separate: "registered reg \<Longrightarrow> separate (map snd reg)"
proof (induction rule: registered.induct)
  case empty
  show ?case by (simp add: separate_def)
next
  case (more reg def t reg')
  have r: "map_of reg (tdName t) = None" "\<not> list_ex (\<lambda>(_, x). overlaps (tdName x) (tdName t)) reg"
    "reg' = AList.update (tdName t) t reg"
    using more(3) by (auto simp: register_def split: if_splits)
  then have "reg' = reg @ [(tdName t, t)]" by (simp add: update_append_fresh map_of_eq_None_iff)
  moreover have "separate (map snd reg @ [t])"
    using more(4) defineTopic_ok [OF more(2)] r(2) by (intro separate_snoc) (auto simp: list_ex_iff)
  ultimately show ?case by simp
qed

lemma resolve_in_unique:
  assumes "separate ts" and "t \<in> set ts" and "topic_match t ty = Some ps"
  shows "resolve_in ts ty = Some (t, ps)"
  using assms
proof (induction ts)
  case (Cons x xs)
  have sep: "separate xs" using Cons.prems(1) unfolding separate_def by (auto 0 3 dest: spec [where x = "Suc _"])
  show ?case
  proof (cases "t = x")
    case False
    then have t: "t \<in> set xs" using Cons.prems(2) by simp
    then obtain j where j: "j < length xs" "xs ! j = t" by (auto simp: in_set_conv_nth)
    have "\<not> overlaps (tdName x) (tdName t)"
      using Cons.prems(1) j unfolding separate_def by (metis length_Cons nth_Cons_0 nth_Cons_Suc not_less_eq zero_less_Suc)
    moreover have "topic_ok x" "topic_ok t" using Cons.prems(1) t by (auto simp: separate_def list_all_iff)
    ultimately have "topic_match x ty = None"
      using match_both_overlap [of x t ty _ ps] Cons.prems(3) by (cases "topic_match x ty") auto
    then show ?thesis using Cons.IH [OF sep t Cons.prems(3)] by simp
  qed (use Cons.prems(3) in simp)
qed simp

text \<open>
  C22: an event type belongs to one topic. In a registry filled by \<open>register\<close> with defined topics, a type that some
  topic of the registry matches resolves to that topic and its parameters, so no two topics claim the same type and
  the order of registration does not matter.
\<close>

theorem registry_resolves_uniquely:
  assumes "registered reg" and "t \<in> set (map snd reg)" and "topic_match t ty = Some ps"
  shows "registry_resolve ty reg = Some (t, ps)"
  using resolve_in_unique [OF registered_separate [OF assms(1)] assms(2,3)] by (simp add: registry_resolve_def)

theorem registry_resolves_uniquely_witness:
  "registry_resolve ''block.indexed.signet'' [(tdName block_topic, block_topic)] = Some (block_topic, [(''network'', ''signet'')])"
proof -
  have "register block_topic [] = Inr [(tdName block_topic, block_topic)]" by (simp add: register_def)
  from registered.more [OF registered.empty block_topic_defined this]
  show ?thesis by (rule registry_resolves_uniquely) (simp_all add: block_topic_matched)
qed

end
