(* ===== verification/LedgerSafety.thy ===== *)
theory LedgerSafety imports LedgerService begin

text \<open>
  What the ledger's operations do to the store while others write to it. The locale \<open>rely_guarantee\<close>
  gives triples for the computations of \<open>LedgerService\<close>: the schedule only makes moves of a relation \<open>R\<close>,
  and the operation only makes such moves itself. It is interpreted on \<open>ledger_rely\<close>, the moves that keep
  every entity, change statuses along the transition tables and preserve the invariant \<open>store_inv\<close>.
\<close>

subsection \<open>Triples\<close>

locale rely_guarantee =
  fixes R :: "MemoryOrderStore \<Rightarrow> MemoryOrderStore \<Rightarrow> bool"
  assumes R_refl: "R s s"
    and R_trans: "R s t \<Longrightarrow> R t u \<Longrightarrow> R s u"
begin

definition sched_ok :: "'w Ledger \<Rightarrow> bool" where
  "sched_ok w \<longleftrightarrow> (\<forall>(d, f) \<in> set (lgSched w). \<forall>s. R s (f s))"

definition stable :: "(MemoryOrderStore \<Rightarrow> bool) \<Rightarrow> bool" where
  "stable P \<longleftrightarrow> (\<forall>s t. P s \<longrightarrow> R s t \<longrightarrow> P t)"

text \<open>From \<open>P\<close>, \<open>m\<close> moves the store by \<open>R\<close> and ends in \<open>Q\<close> with a value or in \<open>E\<close> with an error.\<close>

definition rg ::
  "(MemoryOrderStore \<Rightarrow> bool) \<Rightarrow> ('w, 'a) lg \<Rightarrow> ('a \<Rightarrow> MemoryOrderStore \<Rightarrow> bool)
     \<Rightarrow> (ledger_error \<Rightarrow> MemoryOrderStore \<Rightarrow> bool) \<Rightarrow> bool" where
  "rg P m Q E \<longleftrightarrow> (\<forall>w r w'. sched_ok w \<longrightarrow> P (lgStore w) \<longrightarrow> m w = (r, w') \<longrightarrow>
     R (lgStore w) (lgStore w') \<and> sched_ok w' \<and>
     (case r of Inr x \<Rightarrow> Q x (lgStore w') | Inl e \<Rightarrow> E e (lgStore w')))"

lemma rgI:
  "(\<And>w r w'. sched_ok w \<Longrightarrow> P (lgStore w) \<Longrightarrow> m w = (r, w') \<Longrightarrow>
     R (lgStore w) (lgStore w') \<and> sched_ok w' \<and>
     (case r of Inr x \<Rightarrow> Q x (lgStore w') | Inl e \<Rightarrow> E e (lgStore w'))) \<Longrightarrow> rg P m Q E"
  by (simp add: rg_def)

lemma rgD:
  "rg P m Q E \<Longrightarrow> sched_ok w \<Longrightarrow> P (lgStore w) \<Longrightarrow> m w = (r, w') \<Longrightarrow>
     R (lgStore w) (lgStore w') \<and> sched_ok w' \<and>
     (case r of Inr x \<Rightarrow> Q x (lgStore w') | Inl e \<Rightarrow> E e (lgStore w'))"
  by (simp add: rg_def)

lemma stableD: "stable P \<Longrightarrow> P s \<Longrightarrow> R s t \<Longrightarrow> P t"
  by (auto simp: stable_def)

lemma stable_True: "stable (\<lambda>_. b)"
  by (simp add: stable_def)

lemma stable_conj: "stable P \<Longrightarrow> stable Q \<Longrightarrow> stable (\<lambda>s. P s \<and> Q s)"
  by (auto simp: stable_def)

lemma stable_disj: "stable P \<Longrightarrow> stable Q \<Longrightarrow> stable (\<lambda>s. P s \<or> Q s)"
  by (auto simp: stable_def)

lemma stable_imp: "stable P \<Longrightarrow> stable (\<lambda>s. b \<longrightarrow> P s)"
  by (auto simp: stable_def)

lemma rg_weaken:
  "rg P m Q E \<Longrightarrow> (\<And>s. P' s \<Longrightarrow> P s) \<Longrightarrow> (\<And>x s. Q x s \<Longrightarrow> Q' x s) \<Longrightarrow> (\<And>e s. E e s \<Longrightarrow> E' e s) \<Longrightarrow> rg P' m Q' E'"
proof (rule rgI)
  fix w r w'
  assume h: "rg P m Q E" "\<And>s. P' s \<Longrightarrow> P s" "\<And>x s. Q x s \<Longrightarrow> Q' x s" "\<And>e s. E e s \<Longrightarrow> E' e s"
    and w: "sched_ok w" "P' (lgStore w)" "m w = (r, w')"
  from rgD [OF h(1) w(1) h(2) [OF w(2)] w(3)]
  show "R (lgStore w) (lgStore w') \<and> sched_ok w' \<and>
      (case r of Inr x \<Rightarrow> Q' x (lgStore w') | Inl e \<Rightarrow> E' e (lgStore w'))"
    by (cases r) (simp_all add: h(3,4))
qed

lemma rg_pre: "rg P m Q E \<Longrightarrow> (\<And>s. P' s \<Longrightarrow> P s) \<Longrightarrow> rg P' m Q E"
  by (erule rg_weaken) simp_all

text \<open>A stable assertion survives any computation.\<close>

lemma rg_frame: "rg P m Q E \<Longrightarrow> stable I \<Longrightarrow>
   rg (\<lambda>s. P s \<and> I s) m (\<lambda>x s. Q x s \<and> I s) (\<lambda>e s. E e s \<and> I s)"
proof (rule rgI)
  fix w r w'
  assume h: "rg P m Q E" "stable I" and w: "sched_ok w" "P (lgStore w) \<and> I (lgStore w)" "m w = (r, w')"
  from rgD [OF h(1) w(1) conjunct1 [OF w(2)] w(3)] stableD [OF h(2) conjunct2 [OF w(2)]]
  show "R (lgStore w) (lgStore w') \<and> sched_ok w' \<and>
      (case r of Inr x \<Rightarrow> Q x (lgStore w') \<and> I (lgStore w') | Inl e \<Rightarrow> E e (lgStore w') \<and> I (lgStore w'))"
    by (cases r) simp_all
qed

lemma rg_false: "(\<And>s. \<not> P s) \<Longrightarrow> rg P m Q E"
  by (simp add: rg_def)

lemma rg_ret: "(\<And>s. P s \<Longrightarrow> Q x s) \<Longrightarrow> rg P (lret x) Q E"
  by (auto simp: rg_def lret_def R_refl)

lemma rg_raise: "(\<And>s. P s \<Longrightarrow> E e s) \<Longrightarrow> rg P (lraise e) Q E"
  by (auto simp: rg_def lraise_def R_refl)

lemma rg_lift: "(\<And>x s. P s \<Longrightarrow> r = Inr x \<Longrightarrow> Q x s) \<Longrightarrow> (\<And>e s. P s \<Longrightarrow> r = Inl e \<Longrightarrow> E e s) \<Longrightarrow> rg P (llift r) Q E"
  by (cases r) (auto simp: llift_def intro!: rg_ret rg_raise)

lemma rg_bind: "rg P m Q E \<Longrightarrow> (\<And>x. rg (Q x) (f x) T E) \<Longrightarrow> rg P (lbind m f) T E"
proof (rule rgI)
  fix w r w'
  assume m: "rg P m Q E" and f: "\<And>x. rg (Q x) (f x) T E" and w: "sched_ok w" "P (lgStore w)"
    and b: "lbind m f w = (r, w')"
  obtain r1 w1 where m1: "m w = (r1, w1)" by fastforce
  from rgD [OF m w m1] have 1: "R (lgStore w) (lgStore w1)" "sched_ok w1" by simp_all
  show "R (lgStore w) (lgStore w') \<and> sched_ok w' \<and>
     (case r of Inr x \<Rightarrow> T x (lgStore w') | Inl e \<Rightarrow> E e (lgStore w'))"
  proof (cases r1)
    case (Inl e)
    with b m1 rgD [OF m w m1] show ?thesis by (auto simp: lbind_def)
  next
    case (Inr x)
    with rgD [OF m w m1] have "Q x (lgStore w1)" by simp
    moreover have "f x w1 = (r, w')" using b m1 Inr by (simp add: lbind_def)
    ultimately show ?thesis using rgD [OF f 1(2)] R_trans [OF 1(1)] by blast
  qed
qed

lemma rg_try: "rg P m Q F \<Longrightarrow> (\<And>e. rg (F e) (h e) Q E) \<Longrightarrow> rg P (ltry m h) Q E"
proof (rule rgI)
  fix w r w'
  assume m: "rg P m Q F" and h: "\<And>e. rg (F e) (h e) Q E" and w: "sched_ok w" "P (lgStore w)"
    and b: "ltry m h w = (r, w')"
  obtain r1 w1 where m1: "m w = (r1, w1)" by fastforce
  from rgD [OF m w m1] have 1: "R (lgStore w) (lgStore w1)" "sched_ok w1" by simp_all
  show "R (lgStore w) (lgStore w') \<and> sched_ok w' \<and>
     (case r of Inr x \<Rightarrow> Q x (lgStore w') | Inl e \<Rightarrow> E e (lgStore w'))"
  proof (cases r1)
    case (Inr x)
    with b m1 rgD [OF m w m1] show ?thesis by (auto simp: ltry_def)
  next
    case (Inl e)
    with rgD [OF m w m1] have "F e (lgStore w1)" by simp
    moreover have "h e w1 = (r, w')" using b m1 Inl by (simp add: ltry_def)
    ultimately show ?thesis using rgD [OF h 1(2)] R_trans [OF 1(1)] by blast
  qed
qed

lemma rg_pause: "stable P \<Longrightarrow> rg P pause (\<lambda>_. P) E"
proof (rule rgI)
  fix w r and w' :: "'w Ledger"
  assume "stable P" "sched_ok w" "P (lgStore w)" "pause w = (r, w')"
  then show "R (lgStore w) (lgStore w') \<and> sched_ok w' \<and> (case r of Inr x \<Rightarrow> P (lgStore w') | Inl e \<Rightarrow> E e (lgStore w'))"
    by (auto simp: pause_def sched_ok_def stable_def R_refl split: list.splits prod.splits)
qed

lemma rg_read: "stable P \<Longrightarrow> (\<And>s. P s \<Longrightarrow> Q (g s) s) \<Longrightarrow> rg P (store_read g) Q E"
  unfolding store_read_def by (rule rg_bind [OF rg_pause]) (auto simp: rg_def R_refl)

lemma rg_write:
  assumes "stable P" and "\<And>s st x. P s \<Longrightarrow> f s = Inr (st, x) \<Longrightarrow> R s st \<and> Q x st"
    and "\<And>s e. P s \<Longrightarrow> f s = Inl e \<Longrightarrow> E e s"
  shows "rg P (store_write f) Q E"
  unfolding store_write_def
proof (rule rg_bind [OF rg_pause [OF assms(1)]], rule rgI)
  fix w r and w' :: "'w Ledger"
  assume w: "sched_ok w" "P (lgStore w)"
    and b: "(case f (lgStore w) of Inl e \<Rightarrow> (Inl e, w) | Inr (st, x) \<Rightarrow> (Inr x, w\<lparr>lgStore := st\<rparr>)) = (r, w')"
  show "R (lgStore w) (lgStore w') \<and> sched_ok w' \<and>
     (case r of Inr x \<Rightarrow> Q x (lgStore w') | Inl e \<Rightarrow> E e (lgStore w'))"
    using w b assms(2,3) [OF w(2)] R_refl
    by (auto simp: sched_ok_def split: sum.splits prod.splits)
qed

lemma rg_get_now: "(\<And>n s. P s \<Longrightarrow> Q n s) \<Longrightarrow> rg P get_now Q E"
  by (auto simp: rg_def get_now_def R_refl)

lemma rg_newId: "(\<And>i s. P s \<Longrightarrow> Q i s) \<Longrightarrow> rg P (newId sv) Q E"
  by (auto simp: rg_def newId_def R_refl sched_ok_def)

lemma rg_if: "(b \<Longrightarrow> rg P m Q E) \<Longrightarrow> (\<not> b \<Longrightarrow> rg P n Q E) \<Longrightarrow> rg P (if b then m else n) Q E"
  by simp

lemma rg_option: "(x = None \<Longrightarrow> rg P m Q E) \<Longrightarrow> (\<And>y. x = Some y \<Longrightarrow> rg P (n y) Q E) \<Longrightarrow>
   rg P (case x of None \<Rightarrow> m | Some y \<Rightarrow> n y) Q E"
  by (cases x) auto

lemma rg_publish: "stable P \<Longrightarrow> rg P (publish sv ev) (\<lambda>_. P) E"
  unfolding publish_def
proof (rule rg_option)
  assume "stable P"
  fix accepts
  show "rg P (lbind pause (\<lambda>_ w.
          if accepts ev then (Inr (), w\<lparr>lgEvents := lgEvents w @ [ev]\<rparr>)
          else (Inr (), w\<lparr>lgDropped := lgDropped w @ [ev]\<rparr>))) (\<lambda>_. P) E"
    by (rule rg_bind [OF rg_pause [OF \<open>stable P\<close>]]) (auto simp: rg_def R_refl sched_ok_def split: if_splits)
qed (auto intro: rg_ret)

lemma rg_emit: "stable P \<Longrightarrow> (\<And>s. P s \<Longrightarrow> E OtherError s) \<Longrightarrow> rg P (emit sv ev) (\<lambda>_. P) E"
  unfolding emit_def by (auto intro: rg_publish rg_raise)

lemma rg_emitOrder: "stable P \<Longrightarrow> (\<And>s. P s \<Longrightarrow> E OtherError s) \<Longrightarrow> rg P (emitOrder sv x p d) (\<lambda>_. P) E"
  unfolding emitOrder_def by (rule rg_emit)

lemma rg_emitPayment: "stable P \<Longrightarrow> (\<And>s. P s \<Longrightarrow> E OtherError s) \<Longrightarrow> rg P (emitPayment sv x p d) (\<lambda>_. P) E"
  unfolding emitPayment_def by (rule rg_emit)

text \<open>The same rules at the head of a computation.\<close>

lemma bind_lift: "(\<And>x. r = Inr x \<Longrightarrow> rg P (f x) T E) \<Longrightarrow> (\<And>e s. r = Inl e \<Longrightarrow> P s \<Longrightarrow> E e s) \<Longrightarrow>
   rg P (lbind (llift r) f) T E"
  by (cases r) (auto simp: rg_def lbind_def llift_def lret_def lraise_def R_refl)

lemma bind_now: "(\<And>n. rg P (f n) T E) \<Longrightarrow> rg P (lbind get_now f) T E"
  by (rule rg_bind [OF rg_get_now])

lemma bind_newId: "(\<And>i. rg P (f i) T E) \<Longrightarrow> rg P (lbind (newId sv) f) T E"
  by (rule rg_bind [OF rg_newId])

lemma bind_pause: "stable P \<Longrightarrow> (\<And>u. rg P (f u) T E) \<Longrightarrow> rg P (lbind pause f) T E"
  by (rule rg_bind [OF rg_pause])

lemma bind_read: "stable P \<Longrightarrow> (\<And>s. P s \<Longrightarrow> Q (g s) s) \<Longrightarrow> (\<And>x. rg (Q x) (f x) T E) \<Longrightarrow>
   rg P (lbind (store_read g) f) T E"
  by (rule rg_bind [OF rg_read])

lemma bind_write: "stable P \<Longrightarrow> (\<And>s st x. P s \<Longrightarrow> f s = Inr (st, x) \<Longrightarrow> R s st \<and> Q x st) \<Longrightarrow>
   (\<And>s e. P s \<Longrightarrow> f s = Inl e \<Longrightarrow> E e s) \<Longrightarrow> (\<And>x. rg (Q x) (k x) T E) \<Longrightarrow>
   rg P (lbind (store_write f) k) T E"
  by (rule rg_bind [OF rg_write])

lemma bind_emitOrder: "stable P \<Longrightarrow> (\<And>s. P s \<Longrightarrow> E OtherError s) \<Longrightarrow> (\<And>u. rg P (f u) T E) \<Longrightarrow>
   rg P (lbind (emitOrder sv x p d) f) T E"
  by (rule rg_bind [OF rg_emitOrder])

lemma bind_emitPayment: "stable P \<Longrightarrow> (\<And>s. P s \<Longrightarrow> E OtherError s) \<Longrightarrow> (\<And>u. rg P (f u) T E) \<Longrightarrow>
   rg P (lbind (emitPayment sv x p d) f) T E"
  by (rule rg_bind [OF rg_emitPayment])

end

subsection \<open>The moves of the ledger\<close>

definition order_step :: "Order \<Rightarrow> Order \<Rightarrow> bool" where
  "order_step a b \<longleftrightarrow> b = a \<or>
     (oVersion a < oVersion b \<and> order_reach (oStatus a) (oStatus b) \<and> oId b = oId a \<and> oProduct b = oProduct a \<and>
      oCustomerRef b = oCustomerRef a \<and> oLineItems b = oLineItems a \<and> oTotalSats b = oTotalSats a \<and>
      oMetadata b = oMetadata a \<and> oCreatedAt b = oCreatedAt a)"

definition payment_step :: "PaymentIntent \<Rightarrow> PaymentIntent \<Rightarrow> bool" where
  "payment_step a b \<longleftrightarrow> b = a \<or>
     (pyVersion a < pyVersion b \<and> payment_reach (pyStatus a) (pyStatus b) \<and> pyId b = pyId a \<and>
      pyOrderId b = pyOrderId a \<and> pyProduct b = pyProduct a \<and> pyMethod b = pyMethod a \<and>
      pyProvider b = pyProvider a \<and> pyProviderRef b = pyProviderRef a \<and> pyAmountSats b = pyAmountSats a \<and>
      pyCheckout b = pyCheckout a \<and> pyExpiresAt b = pyExpiresAt a \<and> pyCreatedAt b = pyCreatedAt a \<and>
      pyRefundedSats a \<le> pyRefundedSats b)"

definition refund_step :: "Refund \<Rightarrow> Refund \<Rightarrow> bool" where
  "refund_step a b \<longleftrightarrow> reId b = reId a \<and> rePaymentId b = rePaymentId a \<and> reOrderId b = reOrderId a \<and>
     reAmountSats b = reAmountSats a \<and> reReason b = reReason a \<and> reDestination b = reDestination a \<and>
     reCreatedAt b = reCreatedAt a"

text \<open>Every entry of a map is kept and only changes by steps.\<close>

definition keeps :: "('e \<Rightarrow> 'e \<Rightarrow> bool) \<Rightarrow> (string \<rightharpoonup> 'e) \<Rightarrow> (string \<rightharpoonup> 'e) \<Rightarrow> bool" where
  "keeps step m m' \<longleftrightarrow> (\<forall>k a. m k = Some a \<longrightarrow> (\<exists>b. m' k = Some b \<and> step a b))"

definition settled :: "PaymentStatus set" where "settled = {PPaid, POverpaid, PRefunded}"

text \<open>
  The store's invariant: entities are stored under their ids; a payment belongs to an order and asks for its
  total; no two payments share a provider reference; a paid order has a settled payment and a refunded order
  a refunded one; a refund belongs to a payment and is positive.
\<close>

definition order_ok :: "(string \<rightharpoonup> PaymentIntent) \<Rightarrow> string \<Rightarrow> Order \<Rightarrow> bool" where
  "order_ok pays k x \<longleftrightarrow> oId x = k \<and> 0 \<le> oTotalSats x \<and> oTotalSats x \<le> MAX_SATS \<and>
     (oStatus x = OPaid \<longrightarrow> (\<exists>j p. pays j = Some p \<and> pyOrderId p = k \<and> pyStatus p \<in> settled)) \<and>
     (oStatus x = ORefunded \<longrightarrow> (\<exists>j p. pays j = Some p \<and> pyOrderId p = k \<and> pyStatus p = PRefunded))"

definition payment_ok :: "(string \<rightharpoonup> Order) \<Rightarrow> string \<Rightarrow> PaymentIntent \<Rightarrow> bool" where
  "payment_ok ords k p \<longleftrightarrow>
     pyId p = k \<and> 0 \<le> pyAmountPaidSats p \<and> pyAmountPaidSats p \<le> MAX_SATS \<and> 0 \<le> pyRefundedSats p \<and>
     (\<exists>x. ords (pyOrderId p) = Some x \<and> pyProduct p = oProduct x \<and> pyAmountSats p = oTotalSats x)"

definition refund_ok :: "(string \<rightharpoonup> PaymentIntent) \<Rightarrow> string \<Rightarrow> Refund \<Rightarrow> bool" where
  "refund_ok pays k r \<longleftrightarrow> reId r = k \<and> 0 < reAmountSats r \<and>
     (\<exists>p. pays (rePaymentId r) = Some p \<and> pyOrderId p = reOrderId r)"

definition orders_inv :: "MemoryOrderStore \<Rightarrow> bool" where
  "orders_inv s \<longleftrightarrow> (\<forall>k x. map_of (stOrders s) k = Some x \<longrightarrow> order_ok (map_of (stPayments s)) k x)"

definition payments_inv :: "MemoryOrderStore \<Rightarrow> bool" where
  "payments_inv s \<longleftrightarrow> (\<forall>k p. map_of (stPayments s) k = Some p \<longrightarrow> payment_ok (map_of (stOrders s)) k p)"

definition refs_inv :: "MemoryOrderStore \<Rightarrow> bool" where
  "refs_inv s \<longleftrightarrow> (\<forall>k p j q. map_of (stPayments s) k = Some p \<longrightarrow> map_of (stPayments s) j = Some q \<longrightarrow>
     pyProvider p = pyProvider q \<longrightarrow> pyProviderRef p = pyProviderRef q \<longrightarrow> k = j)"

definition refunds_inv :: "MemoryOrderStore \<Rightarrow> bool" where
  "refunds_inv s \<longleftrightarrow> (\<forall>k r. map_of (stRefunds s) k = Some r \<longrightarrow> refund_ok (map_of (stPayments s)) k r)"

definition keys_inv :: "MemoryOrderStore \<Rightarrow> bool" where
  "keys_inv s \<longleftrightarrow> distinct (map fst (stOrders s)) \<and> distinct (map fst (stPayments s)) \<and> distinct (map fst (stRefunds s))"

definition store_inv :: "MemoryOrderStore \<Rightarrow> bool" where
  "store_inv s \<longleftrightarrow> orders_inv s \<and> payments_inv s \<and> refs_inv s \<and> refunds_inv s \<and> keys_inv s"

definition ledger_rely :: "MemoryOrderStore \<Rightarrow> MemoryOrderStore \<Rightarrow> bool" where
  "ledger_rely s t \<longleftrightarrow>
     keeps order_step (map_of (stOrders s)) (map_of (stOrders t)) \<and>
     keeps payment_step (map_of (stPayments s)) (map_of (stPayments t)) \<and>
     keeps refund_step (map_of (stRefunds s)) (map_of (stRefunds t)) \<and>
     keeps (=) (map_of (stIdem s)) (map_of (stIdem t)) \<and>
     set (stDeliveries s) \<subseteq> set (stDeliveries t) \<and>
     (store_inv s \<longrightarrow> store_inv t)"

lemma order_step_refl [simp]: "order_step a a"
  by (simp add: order_step_def)

lemma payment_step_refl [simp]: "payment_step a a"
  by (simp add: payment_step_def)

lemma refund_step_refl [simp]: "refund_step a a"
  by (simp add: refund_step_def)

lemma order_step_trans: "order_step a b \<Longrightarrow> order_step b c \<Longrightarrow> order_step a c"
  unfolding order_step_def by (auto intro: order_reach_trans)

lemma payment_step_trans: "payment_step a b \<Longrightarrow> payment_step b c \<Longrightarrow> payment_step a c"
  unfolding payment_step_def by (auto intro: payment_reach_trans)

lemma refund_step_trans: "refund_step a b \<Longrightarrow> refund_step b c \<Longrightarrow> refund_step a c"
  unfolding refund_step_def by auto

lemma keeps_refl: "(\<And>a. step a a) \<Longrightarrow> keeps step m m"
  by (simp add: keeps_def)

lemma keeps_trans: "(\<And>a b c. step a b \<Longrightarrow> step b c \<Longrightarrow> step a c) \<Longrightarrow> keeps step m n \<Longrightarrow> keeps step n r \<Longrightarrow> keeps step m r"
  unfolding keeps_def by metis

lemma keeps_upd: "(\<And>a. step a a) \<Longrightarrow> (\<And>a. m k = Some a \<Longrightarrow> step a b) \<Longrightarrow> keeps step m (m(k \<mapsto> b))"
  by (auto simp: keeps_def)

interpretation lr: rely_guarantee ledger_rely
proof
  show "ledger_rely s s" for s
    by (simp add: ledger_rely_def keeps_refl)
  show "ledger_rely s t \<Longrightarrow> ledger_rely t u \<Longrightarrow> ledger_rely s u" for s t u
    unfolding ledger_rely_def
    by (auto intro: keeps_trans [of order_step] keeps_trans [of payment_step] keeps_trans [of refund_step]
        keeps_trans [of "(=)"] order_step_trans payment_step_trans refund_step_trans)
qed

text \<open>What an operation knows of an entity it has read: the store holds it or a later state of it.\<close>

definition seen_order :: "Order \<Rightarrow> MemoryOrderStore \<Rightarrow> bool" where
  "seen_order x s \<longleftrightarrow> (\<exists>b. map_of (stOrders s) (oId x) = Some b \<and> order_step x b)"

definition seen_payment :: "PaymentIntent \<Rightarrow> MemoryOrderStore \<Rightarrow> bool" where
  "seen_payment p s \<longleftrightarrow> (\<exists>b. map_of (stPayments s) (pyId p) = Some b \<and> payment_step p b)"

definition seen_refund :: "Refund \<Rightarrow> MemoryOrderStore \<Rightarrow> bool" where
  "seen_refund r s \<longleftrightarrow> (\<exists>b. map_of (stRefunds s) (reId r) = Some b \<and> refund_step r b)"

definition has_idem :: "string \<Rightarrow> IdempotencyRecord \<Rightarrow> MemoryOrderStore \<Rightarrow> bool" where
  "has_idem k r s \<longleftrightarrow> map_of (stIdem s) k = Some r"

lemma stable_inv: "lr.stable store_inv"
  by (auto simp: lr.stable_def ledger_rely_def)

lemma stable_seen_order: "lr.stable (seen_order x)"
  unfolding lr.stable_def seen_order_def ledger_rely_def keeps_def by (meson order_step_trans)

lemma stable_seen_payment: "lr.stable (seen_payment x)"
  unfolding lr.stable_def seen_payment_def ledger_rely_def keeps_def by (meson payment_step_trans)

lemma stable_seen_refund: "lr.stable (seen_refund x)"
  unfolding lr.stable_def seen_refund_def ledger_rely_def keeps_def by (meson refund_step_trans)

lemma stable_has_idem: "lr.stable (has_idem k r)"
  unfolding lr.stable_def has_idem_def ledger_rely_def keeps_def by metis

lemmas stable_intros = lr.stable_conj lr.stable_disj lr.stable_imp lr.stable_True stable_inv stable_seen_order
  stable_seen_payment stable_seen_refund stable_has_idem

text \<open>A write that succeeds at the version that was read replaces exactly what was read.\<close>

lemma seen_order_current:
  "seen_order x s \<Longrightarrow> map_of (stOrders s) (oId x) = Some c \<Longrightarrow> oVersion c = oVersion x \<Longrightarrow> c = x"
  by (auto simp: seen_order_def order_step_def)

lemma seen_payment_current:
  "seen_payment x s \<Longrightarrow> map_of (stPayments s) (pyId x) = Some c \<Longrightarrow> pyVersion c = pyVersion x \<Longrightarrow> c = x"
  by (auto simp: seen_payment_def payment_step_def)

lemma reach_settled: "payment_reach a b \<Longrightarrow> a \<in> settled \<Longrightarrow> b \<in> settled"
  unfolding payment_reach_def
  by (induction rule: rtranclp_induct) (auto simp: settled_def canPaymentTransition_def)

lemma reach_refunded: "payment_reach PRefunded b \<Longrightarrow> b = PRefunded"
  by (erule payment_reach_terminal) simp

subsection \<open>Writes are moves\<close>

text \<open>Why an order may be paid or refunded: a payment of that order was seen settled, or refunded.\<close>

definition cause :: "Order \<Rightarrow> OrderStatus \<Rightarrow> MemoryOrderStore \<Rightarrow> bool" where
  "cause x to s \<longleftrightarrow>
     (to = OPaid \<longrightarrow> (\<exists>p. seen_payment p s \<and> pyOrderId p = oId x \<and> pyStatus p \<in> settled)) \<and>
     (to = ORefunded \<longrightarrow> (\<exists>p. seen_payment p s \<and> pyOrderId p = oId x \<and> pyStatus p = PRefunded))"

lemma stable_cause: "lr.stable (cause x to)"
  using stable_seen_payment unfolding cause_def lr.stable_def by meson

lemma cause_payment:
  assumes "cause x to s"
  shows "to = OPaid \<Longrightarrow> \<exists>j p. map_of (stPayments s) j = Some p \<and> pyOrderId p = oId x \<and> pyStatus p \<in> settled"
    and "to = ORefunded \<Longrightarrow> \<exists>j p. map_of (stPayments s) j = Some p \<and> pyOrderId p = oId x \<and> pyStatus p = PRefunded"
  using assms reach_settled reach_refunded
  by (fastforce simp: cause_def seen_payment_def payment_step_def)+

lemma store_invD:
  "store_inv s \<Longrightarrow> orders_inv s" "store_inv s \<Longrightarrow> payments_inv s" "store_inv s \<Longrightarrow> refs_inv s"
  "store_inv s \<Longrightarrow> refunds_inv s" "store_inv s \<Longrightarrow> keys_inv s"
  by (simp_all add: store_inv_def)

text \<open>The entries of one map stay well formed when another map only moves by steps.\<close>

lemma order_ok_keeps:
  assumes "order_ok m k x" and "keeps payment_step m m'"
  shows "order_ok m' k x"
proof -
  have ex: "\<exists>j p. m' j = Some p \<and> pyOrderId p = k \<and> pyStatus p \<in> S"
    if "\<exists>j p. m j = Some p \<and> pyOrderId p = k \<and> pyStatus p \<in> S" and S: "S = settled \<or> S = {PRefunded}" for S
  proof -
    from that(1) obtain j p where p: "m j = Some p" "pyOrderId p = k" "pyStatus p \<in> S" by blast
    with assms(2) obtain q where q: "m' j = Some q" "payment_step p q" unfolding keeps_def by blast
    have "pyStatus q \<in> S"
      using S p(3) q(2) reach_settled reach_refunded unfolding payment_step_def by auto
    with p q show ?thesis unfolding payment_step_def by auto
  qed
  show ?thesis
    using assms(1) ex [of settled] ex [of "{PRefunded}"] unfolding order_ok_def by (simp only: singleton_iff) blast
qed

lemma payment_ok_keeps: "payment_ok m k p \<Longrightarrow> keeps order_step m m' \<Longrightarrow> payment_ok m' k p"
  unfolding payment_ok_def keeps_def order_step_def by metis

lemma refund_ok_keeps: "refund_ok m k r \<Longrightarrow> keeps payment_step m m' \<Longrightarrow> refund_ok m' k r"
  unfolding refund_ok_def keeps_def payment_step_def by metis

lemma store_inv_frame:
  assumes "store_inv s" and "keeps order_step (map_of (stOrders s)) (map_of (stOrders t))"
    and "keeps payment_step (map_of (stPayments s)) (map_of (stPayments t))"
  shows "map_of (stOrders t) = map_of (stOrders s) \<Longrightarrow> orders_inv t"
    and "map_of (stPayments t) = map_of (stPayments s) \<Longrightarrow> payments_inv t \<and> refs_inv t"
    and "map_of (stRefunds t) = map_of (stRefunds s) \<Longrightarrow> refunds_inv t"
  using store_invD [OF assms(1)] order_ok_keeps [OF _ assms(3)] payment_ok_keeps [OF _ assms(2)]
    refund_ok_keeps [OF _ assms(3)]
  unfolding orders_inv_def payments_inv_def refs_inv_def refunds_inv_def by simp_all

text \<open>Adding or replacing one entry.\<close>

lemma orders_inv_upd:
  assumes "orders_inv s" and "stPayments t = stPayments s" and "map_of (stOrders t) = (map_of (stOrders s))(k \<mapsto> x)"
    and "order_ok (map_of (stPayments s)) k x"
  shows "orders_inv t"
  using assms unfolding orders_inv_def by simp

lemma payments_inv_upd:
  assumes "payments_inv s" and "stOrders t = stOrders s" and "map_of (stPayments t) = (map_of (stPayments s))(k \<mapsto> p)"
    and "payment_ok (map_of (stOrders s)) k p"
  shows "payments_inv t"
  using assms unfolding payments_inv_def by simp

lemma refs_inv_upd:
  assumes "refs_inv s" and "map_of (stPayments t) = (map_of (stPayments s))(k \<mapsto> p)"
    and "\<And>j q. map_of (stPayments s) j = Some q \<Longrightarrow> j \<noteq> k \<Longrightarrow> pyProvider q = pyProvider p \<Longrightarrow>
       pyProviderRef q \<noteq> pyProviderRef p"
  shows "refs_inv t"
  unfolding refs_inv_def
proof (intro allI impI)
  fix i p1 j p2
  assume i: "map_of (stPayments t) i = Some p1" and j: "map_of (stPayments t) j = Some p2"
    and same: "pyProvider p1 = pyProvider p2" "pyProviderRef p1 = pyProviderRef p2"
  show "i = j"
  proof (cases "i = k \<or> j = k")
    case False
    then have "map_of (stPayments s) i = Some p1" "map_of (stPayments s) j = Some p2"
      using i j unfolding assms(2) by simp_all
    then show ?thesis using assms(1) same unfolding refs_inv_def by blast
  next
    case True
    show ?thesis
    proof (rule ccontr)
      assume n: "i \<noteq> j"
      from True show False
      proof
        assume "i = k"
        with i j n have "p1 = p" "map_of (stPayments s) j = Some p2" unfolding assms(2) by simp_all
        then show False using assms(3) [of j p2] same n \<open>i = k\<close> by simp
      next
        assume "j = k"
        with i j n have "p2 = p" "map_of (stPayments s) i = Some p1" unfolding assms(2) by simp_all
        then show False using assms(3) [of i p1] same n \<open>j = k\<close> by simp
      qed
    qed
  qed
qed

lemma refunds_inv_upd:
  assumes "refunds_inv s" and "stPayments t = stPayments s" and "map_of (stRefunds t) = (map_of (stRefunds s))(k \<mapsto> r)"
    and "refund_ok (map_of (stPayments s)) k r"
  shows "refunds_inv t"
  using assms unfolding refunds_inv_def by simp

lemma order_write:
  assumes seen: "seen_order x s" and inv: "store_inv s" and can: "canOrderTransition (oStatus x) to"
    and cause: "cause x to s"
    and upd: "memUpdateOrder s (x\<lparr>oStatus := to, oUpdatedAt := at\<rparr>) = Inr (st, nxt)"
  shows "ledger_rely s st \<and> seen_order nxt st \<and> store_inv st"
proof -
  let ?n = "x\<lparr>oStatus := to, oUpdatedAt := at, oVersion := oVersion x + 1\<rparr>"
  have u: "map_of (stOrders s) (oId x) = Some x" "nxt = ?n"
      "st = s\<lparr>stOrders := AList.update (oId x) ?n (stOrders s)\<rparr>"
    using upd seen_order_current [OF seen]
    by (auto simp: memUpdateOrder_def Let_def split: option.splits if_splits)
  have ok: "order_ok (map_of (stPayments s)) (oId x) x"
    using store_invD(1) [OF inv] u(1) unfolding orders_inv_def by blast
  have keep: "keeps order_step (map_of (stOrders s)) (map_of (stOrders st))"
    using u(1) can by (auto simp: u(3) update_conv' order_step_def order_reach_step intro!: keeps_upd)
  have p: "keeps payment_step (map_of (stPayments s)) (map_of (stPayments st))" by (simp add: u(3) keeps_refl)
  have "orders_inv st"
  proof (rule orders_inv_upd [OF store_invD(1) [OF inv], where k = "oId x" and x = ?n])
    show "order_ok (map_of (stPayments s)) (oId x) ?n"
      using ok cause_payment [OF cause] unfolding order_ok_def by simp
  qed (simp_all add: u(3) update_conv')
  then have "store_inv st"
    using store_inv_frame(2,3) [OF inv keep p] store_invD(5) [OF inv]
    by (simp add: store_inv_def u(3) keys_inv_def distinct_update)
  with keep p show ?thesis
    by (simp add: ledger_rely_def keeps_refl u(2,3) seen_order_def update_conv')
qed

text \<open>What a write may change of a payment it has read.\<close>

definition payment_change :: "PaymentIntent \<Rightarrow> PaymentIntent \<Rightarrow> bool" where
  "payment_change p m \<longleftrightarrow> (pyStatus m = pyStatus p \<or> canPaymentTransition (pyStatus p) (pyStatus m)) \<and>
     pyId m = pyId p \<and> pyOrderId m = pyOrderId p \<and> pyProduct m = pyProduct p \<and> pyMethod m = pyMethod p \<and>
     pyProvider m = pyProvider p \<and> pyProviderRef m = pyProviderRef p \<and> pyAmountSats m = pyAmountSats p \<and>
     pyCheckout m = pyCheckout p \<and> pyExpiresAt m = pyExpiresAt p \<and> pyCreatedAt m = pyCreatedAt p \<and>
     pyVersion m = pyVersion p \<and> pyRefundedSats p \<le> pyRefundedSats m"

lemma payment_write:
  assumes seen: "seen_payment p s" and inv: "store_inv s" and ch: "payment_change p m"
    and paid: "0 \<le> pyAmountPaidSats m" "pyAmountPaidSats m \<le> MAX_SATS"
    and upd: "memUpdatePayment s m = Inr (st, nxt)"
  shows "ledger_rely s st \<and> seen_payment nxt st \<and> store_inv st \<and> nxt = m\<lparr>pyVersion := pyVersion m + 1\<rparr>"
proof -
  let ?n = "m\<lparr>pyVersion := pyVersion p + 1\<rparr>"
  have i: "pyId m = pyId p" "pyVersion m = pyVersion p" using ch by (simp_all add: payment_change_def)
  have u: "map_of (stPayments s) (pyId p) = Some p" "nxt = ?n"
      "st = s\<lparr>stPayments := AList.update (pyId p) ?n (stPayments s)\<rparr>"
    using upd seen_payment_current [OF seen] i
    by (auto simp: memUpdatePayment_def Let_def split: option.splits if_splits)
  have ok: "payment_ok (map_of (stOrders s)) (pyId p) p"
    using store_invD(2) [OF inv] u(1) unfolding payments_inv_def by blast
  have step: "payment_step p ?n"
    using ch unfolding payment_step_def payment_change_def by (auto intro: payment_reach_step)
  have keep: "keeps payment_step (map_of (stPayments s)) (map_of (stPayments st))"
    using u(1) step by (auto simp: u(3) update_conv' intro!: keeps_upd)
  have x: "keeps order_step (map_of (stOrders s)) (map_of (stOrders st))" by (simp add: u(3) keeps_refl)
  have "payments_inv st"
  proof (rule payments_inv_upd [OF store_invD(2) [OF inv], where k = "pyId p" and p = ?n])
    show "payment_ok (map_of (stOrders s)) (pyId p) ?n"
      using ok ch paid unfolding payment_ok_def payment_change_def by simp
  qed (simp_all add: u(3) update_conv')
  moreover have "refs_inv st"
  proof (rule refs_inv_upd [OF store_invD(3) [OF inv], where k = "pyId p" and p = ?n])
    show "pyProviderRef q \<noteq> pyProviderRef ?n"
      if "map_of (stPayments s) j = Some q" "j \<noteq> pyId p" "pyProvider q = pyProvider ?n" for j q
      using store_invD(3) [OF inv] that u(1) ch unfolding refs_inv_def payment_change_def by auto
  qed (simp add: u(3) update_conv')
  ultimately have "store_inv st"
    using store_inv_frame(1,3) [OF inv x keep] store_invD(5) [OF inv]
    by (simp add: store_inv_def u(3) keys_inv_def distinct_update)
  with keep x show ?thesis using i
    by (simp add: ledger_rely_def keeps_refl u(2,3) seen_payment_def update_conv')
qed

end
