(* ===== verification/LedgerOps.thy ===== *)
theory LedgerOps imports LedgerSafety begin

text \<open>
  Triples for every operation of the ledger service: whatever well-behaved writes happen around it, the
  operation only moves the store by \<open>ledger_rely\<close> and keeps its invariant.
\<close>

abbreviation any_error :: "ledger_error \<Rightarrow> MemoryOrderStore \<Rightarrow> bool" where
  "any_error \<equiv> \<lambda>_ _. True"

abbreviation safe :: "('w, 'a) lg \<Rightarrow> bool" where
  "safe m \<equiv> lr.rg store_inv m (\<lambda>_. store_inv) any_error"

subsection \<open>Creating and overwriting entries\<close>

lemma putIdem_fields:
  assumes "putIdem s idem = Inr t"
  shows "stOrders t = stOrders s" "stPayments t = stPayments s" "stRefunds t = stRefunds s"
    "stDeliveries t = stDeliveries s" "keeps (=) (map_of (stIdem s)) (map_of (stIdem t))"
    "idem = Some r \<Longrightarrow> has_idem (joined_key (idScope r) (idKey r)) r t"
  using assms
  by (auto simp: putIdem_def Let_def update_conv' keeps_def has_idem_def split: option.splits if_splits)

lemma order_create:
  assumes inv: "store_inv s" and x: "oStatus x = OCreated" "0 \<le> oTotalSats x" "oTotalSats x \<le> MAX_SATS"
    and c: "memCreateOrder x idem s = Inr st"
  shows "ledger_rely s st \<and> store_inv st \<and> seen_order x st \<and>
    (\<forall>r. idem = Some r \<longrightarrow> has_idem (joined_key (idScope r) (idKey r)) r st)"
proof -
  obtain s' where n: "map_of (stOrders s) (oId x) = None" and p: "putIdem s idem = Inr s'"
      and st: "st = s'\<lparr>stOrders := AList.update (oId x) x (stOrders s')\<rparr>"
    using c by (auto simp: memCreateOrder_def split: if_splits)
  note f = putIdem_fields [OF p]
  have keep: "keeps order_step (map_of (stOrders s)) (map_of (stOrders st))"
    using n by (auto simp: st f update_conv' intro!: keeps_upd)
  have p: "keeps payment_step (map_of (stPayments s)) (map_of (stPayments st))" by (simp add: st f keeps_refl)
  have "orders_inv st"
    by (rule orders_inv_upd [OF store_invD(1) [OF inv], where k = "oId x" and x = x])
       (simp_all add: st f update_conv' order_ok_def x)
  then have "store_inv st"
    using store_inv_frame(2,3) [OF inv keep p] store_invD(5) [OF inv]
    by (simp add: store_inv_def st f keys_inv_def distinct_update)
  with keep p f(5,6) show ?thesis
    by (simp add: ledger_rely_def st f keeps_refl seen_order_def update_conv' has_idem_def)
qed

lemma payment_create:
  assumes inv: "store_inv s" and x: "seen_order x s"
    and p: "pyOrderId p = oId x" "pyProduct p = oProduct x" "pyAmountSats p = oTotalSats x"
      "pyAmountPaidSats p = 0" "pyRefundedSats p = 0"
    and c: "memCreatePayment p idem s = Inr st"
  shows "ledger_rely s st \<and> store_inv st \<and> seen_payment p st"
proof -
  obtain s' where n: "map_of (stPayments s) (pyId p) = None" and i: "putIdem s idem = Inr s'"
      and nr: "\<not> list_ex (\<lambda>q. pyProvider q = pyProvider p \<and> pyProviderRef q = pyProviderRef p) (map snd (stPayments s))"
      and st: "st = s'\<lparr>stPayments := AList.update (pyId p) p (stPayments s')\<rparr>"
    using c by (auto simp: memCreatePayment_def split: if_splits)
  note f = putIdem_fields [OF i]
  obtain b where b: "map_of (stOrders s) (oId x) = Some b" "order_step x b" using x by (auto simp: seen_order_def)
  have keep: "keeps payment_step (map_of (stPayments s)) (map_of (stPayments st))"
    using n by (auto simp: st f update_conv' intro!: keeps_upd)
  have o: "keeps order_step (map_of (stOrders s)) (map_of (stOrders st))" by (simp add: st f keeps_refl)
  have "payments_inv st"
    by (rule payments_inv_upd [OF store_invD(2) [OF inv], where k = "pyId p" and p = p])
       (use b in \<open>auto simp: st f update_conv' payment_ok_def p order_step_def MAX_SATS_def\<close>)
  moreover have "refs_inv st"
  proof (rule refs_inv_upd [OF store_invD(3) [OF inv], where k = "pyId p" and p = p])
    show "pyProviderRef q \<noteq> pyProviderRef p"
      if "map_of (stPayments s) j = Some q" "j \<noteq> pyId p" "pyProvider q = pyProvider p" for j q
      using nr that map_of_SomeD [OF that(1)] by (force simp: list_ex_iff)
  qed (simp add: st f update_conv')
  ultimately have "store_inv st"
    using store_inv_frame(1,3) [OF inv o keep] store_invD(5) [OF inv]
    by (simp add: store_inv_def st f keys_inv_def distinct_update)
  with keep o f(5) show ?thesis
    by (simp add: ledger_rely_def st f keeps_refl seen_payment_def update_conv')
qed

lemma refund_upd_inv:
  assumes inv: "store_inv s" and ok: "refund_ok (map_of (stPayments s)) (reId r) r"
    and step: "\<And>c. map_of (stRefunds s) (reId r) = Some c \<Longrightarrow> refund_step c r"
    and f: "stOrders st = stOrders s" "stPayments st = stPayments s" "stDeliveries st = stDeliveries s"
      "keeps (=) (map_of (stIdem s)) (map_of (stIdem st))"
      "stRefunds st = AList.update (reId r) r (stRefunds s)"
  shows "ledger_rely s st \<and> store_inv st \<and> seen_refund r st"
proof -
  have keep: "keeps refund_step (map_of (stRefunds s)) (map_of (stRefunds st))"
    using step by (auto simp: f update_conv' intro!: keeps_upd)
  have o: "keeps order_step (map_of (stOrders s)) (map_of (stOrders st))"
    and p: "keeps payment_step (map_of (stPayments s)) (map_of (stPayments st))" by (simp_all add: f keeps_refl)
  have "refunds_inv st"
    by (rule refunds_inv_upd [OF store_invD(4) [OF inv] _ _ ok]) (simp_all add: f update_conv')
  then have "store_inv st"
    using store_inv_frame(1,2) [OF inv o p] store_invD(5) [OF inv]
    by (simp add: store_inv_def f keys_inv_def distinct_update)
  with keep o p f(4) show ?thesis
    by (simp add: ledger_rely_def f seen_refund_def update_conv')
qed

lemma refund_create:
  assumes inv: "store_inv s" and p: "seen_payment p s" and r: "rePaymentId r = pyId p" "reOrderId r = pyOrderId p"
    "0 < reAmountSats r" and c: "memCreateRefund r idem s = Inr st"
  shows "ledger_rely s st \<and> store_inv st \<and> seen_refund r st"
proof -
  obtain s' where n: "map_of (stRefunds s) (reId r) = None" and i: "putIdem s idem = Inr s'"
      and st: "st = s'\<lparr>stRefunds := AList.update (reId r) r (stRefunds s')\<rparr>"
    using c by (auto simp: memCreateRefund_def split: if_splits)
  note f = putIdem_fields [OF i]
  obtain b where b: "map_of (stPayments s) (pyId p) = Some b" "payment_step p b" using p by (auto simp: seen_payment_def)
  show ?thesis
    by (rule refund_upd_inv [OF inv])
       (use b n r in \<open>auto simp: refund_ok_def payment_step_def st f intro: f(5)\<close>)
qed

lemma refund_write:
  assumes inv: "store_inv s" and seen: "seen_refund r s" and m: "refund_step r m"
    and u: "memUpdateRefund s m = Inr (st, nxt)"
  shows "ledger_rely s st \<and> store_inv st \<and> seen_refund m st \<and> nxt = m"
proof -
  obtain c where c: "map_of (stRefunds s) (reId r) = Some c" "refund_step r c" using seen by (auto simp: seen_refund_def)
  have st: "st = s\<lparr>stRefunds := AList.update (reId m) m (stRefunds s)\<rparr>" "nxt = m"
    using u by (auto simp: memUpdateRefund_def split: if_splits)
  have "refund_ok (map_of (stPayments s)) (reId r) c"
    using store_invD(4) [OF inv] c(1) unfolding refunds_inv_def by blast
  then have "refund_ok (map_of (stPayments s)) (reId m) m"
    using c(2) m unfolding refund_ok_def refund_step_def by metis
  moreover have "refund_step d m" if "map_of (stRefunds s) (reId m) = Some d" for d
    using that c m unfolding refund_step_def by (metis option.inject)
  ultimately have "ledger_rely s st \<and> store_inv st \<and> seen_refund m st"
    by (intro refund_upd_inv [OF inv]) (simp_all add: st keeps_refl)
  then show ?thesis using st(2) by simp
qed

lemma deliveries_write:
  assumes "store_inv s" and "memRecordWebhookDelivery a b s = (fresh, st)"
  shows "ledger_rely s st \<and> store_inv st"
proof -
  have f: "stOrders st = stOrders s" "stPayments st = stPayments s" "stRefunds st = stRefunds s"
      "stIdem st = stIdem s" "set (stDeliveries s) \<subseteq> set (stDeliveries st)"
    using assms(2) by (auto simp: memRecordWebhookDelivery_def Let_def split: if_splits)
  have "store_inv st"
    using assms(1) by (simp add: store_inv_def orders_inv_def payments_inv_def refs_inv_def refunds_inv_def keys_inv_def f)
  then show ?thesis by (simp add: ledger_rely_def f keeps_refl)
qed

subsection \<open>Orders\<close>

lemma read_order: "store_inv s \<Longrightarrow> map_of (stOrders s) k = Some x \<Longrightarrow> oId x = k \<and> seen_order x s"
  by (auto simp: store_inv_def orders_inv_def order_ok_def seen_order_def)

lemma read_payment: "store_inv s \<Longrightarrow> map_of (stPayments s) k = Some p \<Longrightarrow>
   pyId p = k \<and> seen_payment p s \<and> 0 \<le> pyAmountPaidSats p \<and> pyAmountPaidSats p \<le> MAX_SATS"
  by (auto simp: store_inv_def payments_inv_def payment_ok_def seen_payment_def)

lemma read_refund: "store_inv s \<Longrightarrow> map_of (stRefunds s) k = Some r \<Longrightarrow> reId r = k \<and> seen_refund r s \<and> 0 < reAmountSats r"
  by (auto simp: store_inv_def refunds_inv_def refund_ok_def seen_refund_def)

lemma rg_transition:
  "lr.rg (\<lambda>s. store_inv s \<and> seen_order x s \<and> cause x to s) (transitionOrder sv x to d)
     (\<lambda>n s. store_inv s \<and> seen_order n s) any_error"
  unfolding transitionOrder_def
proof (intro lr.bind_lift lr.bind_now)
  fix u now
  assume a: "assertOrderTransition (oStatus x) to = Inr u"
  then have can: "canOrderTransition (oStatus x) to"
    by (simp add: assertOrderTransition_def assertTransition_def canOrderTransition_def split: if_splits)
  show "lr.rg (\<lambda>s. store_inv s \<and> seen_order x s \<and> cause x to s)
      (lbind (store_write (\<lambda>st. memUpdateOrder st (x\<lparr>oStatus := to, oUpdatedAt := toISOString now\<rparr>)))
        (\<lambda>nxt. lbind (emitOrder sv nxt (Some (oStatus x)) d) (\<lambda>_. lret nxt)))
      (\<lambda>n s. store_inv s \<and> seen_order n s) any_error"
    by (rule lr.bind_write [where Q = "\<lambda>n s. store_inv s \<and> seen_order n s"])
       (auto intro!: stable_intros stable_cause lr.bind_emitOrder lr.rg_ret dest: order_write [OF _ _ can])
qed simp

lemma rg_getOrder: "lr.rg store_inv (getOrder i ctx) (\<lambda>x s. store_inv s \<and> seen_order x s \<and> oId x = i) any_error"
  unfolding getOrder_def
proof (rule lr.bind_read [where Q = "\<lambda>r s. store_inv s \<and> (\<forall>x. r = Some x \<longrightarrow> seen_order x s \<and> oId x = i)"])
  show "store_inv s \<Longrightarrow> store_inv s \<and> (\<forall>x. memGetOrder s i = Some x \<longrightarrow> seen_order x s \<and> oId x = i)" for s
    using read_order by (auto simp: memGetOrder_def)
qed (auto intro!: stable_intros lr.rg_option lr.rg_if lr.rg_ret lr.rg_raise)

lemma cause_trivial: "to \<noteq> OPaid \<Longrightarrow> to \<noteq> ORefunded \<Longrightarrow> cause x to s"
  by (simp add: cause_def)

lemma rg_cancelOrder: "safe (cancelOrder sv i ctx d)"
  unfolding cancelOrder_def
proof (rule lr.rg_bind [OF rg_getOrder])
  fix x
  let ?P = "\<lambda>s. store_inv s \<and> seen_order x s \<and> oId x = i"
  have t: "lr.rg ?P (transitionOrder sv x OCancelled (Some d)) (\<lambda>_. store_inv) any_error"
    by (rule lr.rg_weaken [OF rg_transition]) (auto simp: cause_trivial)
  show "lr.rg ?P (if oStatus x = OCancelled then lret x
     else lbind (llift (assertOrderTransition (oStatus x) OCancelled)) (\<lambda>_.
       lbind (store_read (memListPaymentsByOrder (svCollate sv) (oId x))) (\<lambda>ps.
       if filter (\<lambda>p. pyStatus p = PPending) ps \<noteq> [] then lraise (LedgerError 409 ''payment_active'')
       else transitionOrder sv x OCancelled (Some d)))) (\<lambda>_. store_inv) any_error"
    by (intro lr.rg_if lr.rg_ret lr.bind_lift lr.bind_read [where Q = "\<lambda>_. ?P"] lr.rg_raise t)
       (auto intro!: stable_intros)
qed

lemma rg_expireOrder: "safe (expireOrder sv i d)"
  unfolding expireOrder_def
proof (rule lr.bind_read [where Q = "\<lambda>r s. store_inv s \<and> (\<forall>x. r = Some x \<longrightarrow> seen_order x s)"], rule stable_inv)
  show "store_inv s \<Longrightarrow> store_inv s \<and> (\<forall>x. memGetOrder s i = Some x \<longrightarrow> seen_order x s)" for s
    using read_order by (auto simp: memGetOrder_def)
  fix r
  show "lr.rg (\<lambda>s. store_inv s \<and> (\<forall>x. r = Some x \<longrightarrow> seen_order x s))
     (case r of None \<Rightarrow> lraise notFound
      | Some x \<Rightarrow> if oStatus x = OExpired then lret x else transitionOrder sv x OExpired (Some d)) (\<lambda>_. store_inv) any_error"
    by (intro lr.rg_option lr.rg_if lr.rg_raise lr.rg_ret lr.rg_weaken [OF rg_transition]) (auto simp: cause_trivial)
qed

subsection \<open>Payments\<close>

lemma rg_getPayment: "lr.rg store_inv (getPayment i ctx)
   (\<lambda>p s. store_inv s \<and> seen_payment p s \<and> pyId p = i) any_error"
  unfolding getPayment_def
proof (rule lr.bind_read [where Q = "\<lambda>r s. store_inv s \<and> (\<forall>p. r = Some p \<longrightarrow> seen_payment p s \<and> pyId p = i)"])
  show "store_inv s \<Longrightarrow> store_inv s \<and> (\<forall>p. memGetPayment s i = Some p \<longrightarrow> seen_payment p s \<and> pyId p = i)" for s
    using read_payment by (auto simp: memGetPayment_def)
qed (auto intro!: stable_intros lr.rg_option lr.rg_if lr.rg_ret lr.rg_raise)

lemma rg_deriveOrderStatus:
  "lr.rg (\<lambda>s. store_inv s \<and> seen_order x s \<and> seen_payment p s \<and> pyOrderId p = oId x)
     (deriveOrderStatus sv x p d) (\<lambda>_. store_inv) any_error"
proof -
  have "lr.rg (\<lambda>s. store_inv s \<and> seen_order x s \<and> seen_payment p s \<and> pyOrderId p = oId x)
      (transitionOrder sv x t d) (\<lambda>_. store_inv) any_error"
    if "t = OPaid \<longrightarrow> pyStatus p \<in> settled" "t = ORefunded \<longrightarrow> pyStatus p = PRefunded" for t
    by (rule lr.rg_weaken [OF rg_transition]) (use that in \<open>auto simp: cause_def\<close>)
  then show ?thesis
    unfolding deriveOrderStatus_def Let_def
    by (auto intro!: lr.rg_ret simp: settled_def)
qed

lemma payment_change_simps [simp]:
  "payment_change p (m\<lparr>pyTxid := a\<rparr>) = payment_change p m" "payment_change p (m\<lparr>pyPreimage := b\<rparr>) = payment_change p m"
  "payment_change p (m\<lparr>pyProviderData := c\<rparr>) = payment_change p m" "payment_change p (m\<lparr>pyPaidAt := d\<rparr>) = payment_change p m"
  "payment_change p (m\<lparr>pyAmountPaidSats := e\<rparr>) = payment_change p m" "payment_change p (m\<lparr>pyUpdatedAt := f\<rparr>) = payment_change p m"
  by (simp_all add: payment_change_def)

lemma merge_update_change:
  assumes m: "merge_update p u at = Inr m" and c: "puStatus u \<noteq> pyStatus p \<Longrightarrow> canPaymentTransition (pyStatus p) (puStatus u)"
    and b: "0 \<le> pyAmountPaidSats p" "pyAmountPaidSats p \<le> MAX_SATS" "0 \<le> pyAmountSats p" "pyAmountSats p \<le> MAX_SATS"
  shows "payment_change p m \<and> 0 \<le> pyAmountPaidSats m \<and> pyAmountPaidSats m \<le> MAX_SATS \<and> pyStatus m = puStatus u"
proof -
  obtain m1 where m1: "(case puAmountPaidSats u of None \<Rightarrow> Inr (p\<lparr>pyStatus := puStatus u, pyUpdatedAt := at\<rparr>)
       | Some v \<Rightarrow> emap (\<lambda>n. p\<lparr>pyStatus := puStatus u, pyUpdatedAt := at, pyAmountPaidSats := n\<rparr>)
           (assertSats_json (Some v))) = Inr m1"
    using m by (auto simp: merge_update_def Let_def ebind_eq_Inr split: option.splits)
  then have "\<exists>n. m1 = p\<lparr>pyStatus := puStatus u, pyUpdatedAt := at, pyAmountPaidSats := n\<rparr> \<and> 0 \<le> n \<and> n \<le> MAX_SATS"
  proof (cases "puAmountPaidSats u")
    case None
    with m1 b show ?thesis by (intro exI [of _ "pyAmountPaidSats p"]) auto
  next
    case (Some v)
    with m1 show ?thesis by (auto simp: emap_def ebind_eq_Inr assertSats_json_Inr)
  qed
  then obtain n where n: "m1 = p\<lparr>pyStatus := puStatus u, pyUpdatedAt := at, pyAmountPaidSats := n\<rparr>" "0 \<le> n" "n \<le> MAX_SATS"
    by blast
  have c1: "payment_change p m1" "pyStatus m1 = puStatus u" "pyAmountSats m1 = pyAmountSats p" "pyAmountPaidSats m1 = n"
    using n(1) c by (auto simp: payment_change_def)
  define m4 where "m4 = (let m2 = (case puTxid u of None \<Rightarrow> m1 | Some t \<Rightarrow> m1\<lparr>pyTxid := Some t\<rparr>);
       m3 = (case puPreimage u of None \<Rightarrow> m2 | Some t \<Rightarrow> m2\<lparr>pyPreimage := Some t\<rparr>)
    in case puProviderData u of None \<Rightarrow> m3
       | Some d \<Rightarrow> m3\<lparr>pyProviderData := fold (\<lambda>(k, v). AList.update k v) d (pyProviderData p)\<rparr>)"
  have c4: "payment_change p m4" "pyStatus m4 = puStatus u" "pyAmountSats m4 = pyAmountSats p" "pyAmountPaidSats m4 = n"
    using c1 by (simp_all add: m4_def Let_def split: option.split)
  define m5 where "m5 = (if (puStatus u = PPaid \<or> puStatus u = POverpaid) \<and> truthy (pyPaidAt m4) = None
       then m4\<lparr>pyPaidAt := (case puPaidAt u of None \<Rightarrow> Some at | Some t \<Rightarrow> Some t)\<rparr> else m4)"
  have c5: "payment_change p m5" "pyStatus m5 = puStatus u" "pyAmountSats m5 = pyAmountSats p" "pyAmountPaidSats m5 = n"
    using c4 by (simp_all add: m5_def)
  have "m = (if puStatus u = PPaid \<and> puAmountPaidSats u = None \<and> pyAmountPaidSats m5 = 0
      then m5\<lparr>pyAmountPaidSats := pyAmountSats m5\<rparr> else m5)"
    using m unfolding merge_update_def Let_def m1 ebind_Inr m5_def m4_def by simp
  then have "payment_change p m \<and> pyStatus m = puStatus u \<and> (pyAmountPaidSats m = n \<or> pyAmountPaidSats m = pyAmountSats p)"
    using c5 by simp
  with n b show ?thesis by auto
qed

lemma seen_payment_amount: "store_inv s \<Longrightarrow> map_of (stPayments s) k = Some p \<Longrightarrow>
   0 \<le> pyAmountSats p \<and> pyAmountSats p \<le> MAX_SATS"
  by (fastforce simp: store_inv_def payments_inv_def payment_ok_def orders_inv_def order_ok_def)

definition good_payment :: "PaymentIntent \<Rightarrow> bool" where
  "good_payment p \<longleftrightarrow> 0 \<le> pyAmountPaidSats p \<and> pyAmountPaidSats p \<le> MAX_SATS \<and> 0 \<le> pyAmountSats p \<and> pyAmountSats p \<le> MAX_SATS"

lemma read_good: "store_inv s \<Longrightarrow> map_of (stPayments s) k = Some p \<Longrightarrow>
   pyId p = k \<and> seen_payment p s \<and> good_payment p"
  using read_payment seen_payment_amount by (auto simp: good_payment_def)

lemma rg_store_merged:
  assumes m: "payment_change p m" "0 \<le> pyAmountPaidSats m" "pyAmountPaidSats m \<le> MAX_SATS" and x: "oId x = pyOrderId p"
  shows "lr.rg (\<lambda>s. store_inv s \<and> seen_payment p s \<and> seen_order x s) (store_merged sv p x m c d) (\<lambda>_. store_inv) any_error"
  unfolding store_merged_def Let_def
proof (rule lr.bind_write [where Q = "\<lambda>q s. store_inv s \<and> seen_order x s \<and> seen_payment q s \<and> pyOrderId q = oId x"])
  show "ledger_rely s st \<and> store_inv st \<and> seen_order x st \<and> seen_payment q st \<and> pyOrderId q = oId x"
    if "store_inv s \<and> seen_payment p s \<and> seen_order x s" "memUpdatePayment s m = Inr (st, q)" for s st q
  proof -
    have w: "ledger_rely s st \<and> seen_payment q st \<and> store_inv st \<and> q = m\<lparr>pyVersion := pyVersion m + 1\<rparr>"
      using payment_write [OF _ _ m that(2)] that(1) by blast
    moreover have "seen_order x st" using lr.stableD [OF stable_seen_order] w that(1) by blast
    moreover have "pyOrderId q = oId x" using w m(1) x by (simp add: payment_change_def)
    ultimately show ?thesis by blast
  qed
  let ?Q = "\<lambda>q s. store_inv s \<and> seen_order x s \<and> seen_payment q s \<and> pyOrderId q = oId x"
  have "lr.rg (?Q q) (if pyStatus m \<noteq> pyStatus p
        then lbind (emitPayment sv q (Some (pyStatus p)) d) (\<lambda>_. deriveOrderStatus sv x q d)
        else lret x) (\<lambda>_. store_inv) any_error" for q
    by (intro lr.rg_if lr.bind_emitPayment rg_deriveOrderStatus lr.rg_ret stable_intros) auto
  then show "lr.rg (?Q q) (lbind (if pyStatus m \<noteq> pyStatus p
        then lbind (emitPayment sv q (Some (pyStatus p)) d) (\<lambda>_. deriveOrderStatus sv x q d)
        else lret x) (\<lambda>order'. lret \<lparr>apPayment = q, apOrder = order',
           apApplied = (pyStatus m \<noteq> pyStatus p \<or> c), apReason = None\<rparr>)) (\<lambda>_. store_inv) any_error" for q
    by (rule lr.rg_bind) (auto intro: lr.rg_ret)
qed (auto intro!: stable_intros)

lemma rg_apply_to:
  assumes good: "good_payment p" and x: "oId x = pyOrderId p"
  shows "lr.rg (\<lambda>s. store_inv s \<and> seen_payment p s \<and> seen_order x s) (apply_to sv u d p x) (\<lambda>_. store_inv) any_error"
  unfolding apply_to_def Let_def
proof (intro lr.rg_if lr.rg_ret lr.bind_now lr.bind_lift rg_store_merged)
  fix now m
  assume can: "\<not> (puStatus u \<noteq> pyStatus p \<and> \<not> canPaymentTransition (pyStatus p) (puStatus u))"
    and m: "merge_update p u (toISOString now) = Inr m"
  have "payment_change p m \<and> 0 \<le> pyAmountPaidSats m \<and> pyAmountPaidSats m \<le> MAX_SATS"
    using merge_update_change [OF m] can good by (auto simp: good_payment_def)
  then show "payment_change p m" "0 \<le> pyAmountPaidSats m" "pyAmountPaidSats m \<le> MAX_SATS" by simp_all
qed (use x in auto)

lemma rg_applyOnce: "safe (applyOnce sv i u d)"
  unfolding applyOnce_def
proof (rule lr.bind_read [where Q = "\<lambda>r s. store_inv s \<and> (\<forall>p. r = Some p \<longrightarrow> seen_payment p s \<and> good_payment p)"], rule stable_inv)
  show "store_inv s \<Longrightarrow> store_inv s \<and> (\<forall>p. memGetPayment s i = Some p \<longrightarrow> seen_payment p s \<and> good_payment p)" for s
    using read_good by (auto simp: memGetPayment_def)
  have o: "lr.rg (\<lambda>s. store_inv s \<and> seen_payment p s \<and> good_payment p)
      (lbind (store_read (\<lambda>st. memGetOrder st (pyOrderId p))) (\<lambda>found.
         case found of None \<Rightarrow> lraise notFound | Some order \<Rightarrow> apply_to sv u d p order)) (\<lambda>_. store_inv) any_error" for p
  proof (rule lr.bind_read [where Q = "\<lambda>r s. (store_inv s \<and> seen_payment p s) \<and> good_payment p \<and>
      (\<forall>x. r = Some x \<longrightarrow> seen_order x s \<and> oId x = pyOrderId p)"])
    show "(store_inv s \<and> seen_payment p s) \<and> good_payment p \<and>
        (\<forall>x. memGetOrder s (pyOrderId p) = Some x \<longrightarrow> seen_order x s \<and> oId x = pyOrderId p)"
      if "store_inv s \<and> seen_payment p s \<and> good_payment p" for s
      using read_order that by (auto simp: memGetOrder_def)
    show "lr.rg (\<lambda>s. (store_inv s \<and> seen_payment p s) \<and> good_payment p \<and>
        (\<forall>x. r = Some x \<longrightarrow> seen_order x s \<and> oId x = pyOrderId p))
       (case r of None \<Rightarrow> lraise notFound | Some order \<Rightarrow> apply_to sv u d p order) (\<lambda>_. store_inv) any_error" for r
    proof (rule lr.rg_option)
      fix x
      assume r: "r = Some x"
      show "lr.rg (\<lambda>s. (store_inv s \<and> seen_payment p s) \<and> good_payment p \<and>
          (\<forall>x. r = Some x \<longrightarrow> seen_order x s \<and> oId x = pyOrderId p)) (apply_to sv u d p x) (\<lambda>_. store_inv) any_error"
      proof (cases "good_payment p \<and> oId x = pyOrderId p")
        case True
        then show ?thesis by (intro lr.rg_pre [OF rg_apply_to]) (auto simp: r)
      next
        case False
        then show ?thesis by (intro lr.rg_false) (auto simp: r)
      qed
    qed (auto intro: lr.rg_raise)
  qed (intro stable_intros)
  show "lr.rg (\<lambda>s. store_inv s \<and> (\<forall>p. r = Some p \<longrightarrow> seen_payment p s \<and> good_payment p))
     (case r of None \<Rightarrow> lraise notFound
      | Some payment \<Rightarrow> lbind (store_read (\<lambda>st. memGetOrder st (pyOrderId payment))) (\<lambda>found.
         case found of None \<Rightarrow> lraise notFound | Some order \<Rightarrow> apply_to sv u d payment order)) (\<lambda>_. store_inv) any_error" for r
    by (intro lr.rg_option lr.rg_pre [OF o] lr.rg_raise) auto
qed

lemma rg_apply_retrying: "safe (apply_retrying k sv i u d)"
proof (induction k)
  case (Suc k)
  have "lr.rg store_inv (applyOnce sv i u d) (\<lambda>_. store_inv) (\<lambda>_. store_inv)"
    using lr.rg_frame [OF rg_applyOnce stable_inv] by (rule lr.rg_weaken) auto
  then show ?case by (auto intro!: lr.rg_try [where F = "\<lambda>_. store_inv"] Suc lr.rg_raise)
qed (simp add: rg_applyOnce)

lemma rg_applyUpdate: "safe (applyUpdate sv i u d)"
  unfolding applyUpdate_def by (rule rg_apply_retrying)

subsection \<open>Requests that create entities\<close>

lemma safe_frame: "safe m \<Longrightarrow> lr.stable I \<Longrightarrow>
   lr.rg (\<lambda>s. store_inv s \<and> I s) m (\<lambda>_ s. store_inv s \<and> I s) any_error"
  by (drule (1) lr.rg_frame) (erule lr.rg_weaken, auto)

lemma bind_safe: "safe m \<Longrightarrow> lr.stable I \<Longrightarrow> (\<And>x. lr.rg (\<lambda>s. store_inv s \<and> I s) (f x) T any_error) \<Longrightarrow>
   lr.rg (\<lambda>s. store_inv s \<and> I s) (lbind m f) T any_error"
  by (rule lr.rg_bind [OF safe_frame])

lemma bind_safe0: "safe m \<Longrightarrow> (\<And>x. lr.rg store_inv (f x) T any_error) \<Longrightarrow> lr.rg store_inv (lbind m f) T any_error"
  by (rule lr.rg_bind)

lemma rg_idem_replay: "safe (idem_replay scope key fp get)"
  unfolding idem_replay_def
  by (auto intro!: lr.rg_option lr.rg_ret lr.bind_read [where Q = "\<lambda>_. store_inv"] stable_inv lr.rg_if lr.rg_raise)

definition provider_ok :: "'w PaymentProvider \<Rightarrow> bool" where
  "provider_ok p \<longleftrightarrow> (\<forall>i. safe (prCreateIntent p i)) \<and> (\<forall>i n. safe (prPoll p i n)) \<and>
     (\<forall>i r. safe (prRefund p i r)) \<and>
     (\<forall>parse b h n. prParseWebhook p = Some parse \<longrightarrow> safe (parse b h n))"

definition service_ok :: "'w LedgerService \<Rightarrow> bool" where
  "service_ok sv \<longleftrightarrow> (\<forall>p \<in> set (svProviders sv). provider_ok p)"

lemma provider_named_ok: "service_ok sv \<Longrightarrow> provider_named sv n = Some p \<Longrightarrow> provider_ok p"
  by (auto simp: service_ok_def provider_named_def find_Some_iff)

lemma pickProvider_ok: "service_ok sv \<Longrightarrow> pickProvider sv m n = Inr p \<Longrightarrow> provider_ok p"
  by (auto simp: pickProvider_def Let_def service_ok_def provider_named_def find_Some_iff
      split: option.splits if_splits)

lemma new_order_ok: "assertSats (oTotalSats (new_order c i at)) = Inr v \<Longrightarrow>
   oStatus (new_order c i at) = OCreated \<and> 0 \<le> oTotalSats (new_order c i at) \<and> oTotalSats (new_order c i at) \<le> MAX_SATS"
  by (simp add: assertSats_Inr) (simp add: new_order_def)

lemma rg_createOrder: "safe (createOrder n sv input ctx)"
proof (induction n)
  case 0
  show ?case by (simp add: lr.rg_raise)
next
  case (Suc n)
  have again: "safe (lbind (createOrder n sv input ctx) (\<lambda>r. lret (Some r)))"
    by (rule bind_safe0 [OF Suc]) (rule lr.rg_ret)
  have "safe (lbind (store_write (\<lambda>st. emap (\<lambda>st'. (st', ())) (memCreateOrder x idem st))) (\<lambda>_. lret None) :: ('a, (Order \<times> bool) option) lg)"
    if "oStatus x = OCreated" "0 \<le> oTotalSats x" "oTotalSats x \<le> MAX_SATS" for x idem
    by (rule lr.bind_write [where Q = "\<lambda>_. store_inv"])
       (use that in \<open>auto simp: emap_def ebind_eq_Inr dest: order_create intro!: stable_inv lr.rg_ret\<close>)
  then have store: "safe (ltry (lbind (store_write (\<lambda>st. emap (\<lambda>st'. (st', ())) (memCreateOrder x idem st))) (\<lambda>_. lret None))
      (\<lambda>e. if error_code e = Some ''idempotency_conflict'' \<and> truthy (ccIdempotencyKey ctx) \<noteq> None
           then lbind (createOrder n sv input ctx) (\<lambda>r. lret (Some r)) else lraise e))"
    if "oStatus x = OCreated" "0 \<le> oTotalSats x" "oTotalSats x \<le> MAX_SATS" for x idem
    using that lr.rg_frame [OF _ stable_inv]
    by (intro lr.rg_try [where F = "\<lambda>_. store_inv"] lr.rg_if again lr.rg_raise) (fastforce intro: lr.rg_weaken)+
  show ?case
    unfolding createOrder.simps Let_def
    by (intro lr.bind_lift lr.rg_if lr.rg_raise bind_safe0 [OF rg_idem_replay] lr.rg_option lr.rg_ret lr.bind_now
        lr.bind_newId bind_safe0 [OF store] lr.bind_emitOrder stable_inv)
       (auto dest: new_order_ok)
qed

lemma rg_open_payment:
  assumes p: "provider_ok pr"
  shows "lr.rg (\<lambda>s. store_inv s \<and> seen_order x s) (open_payment sv x m pr input ctx scope fp) (\<lambda>_. store_inv) any_error"
proof -
  let ?P = "\<lambda>s. store_inv s \<and> seen_order x s"
  have st: "lr.stable ?P" by (intro stable_intros)
  have create: "safe (prCreateIntent pr i)" for i using p by (simp add: provider_ok_def)
  have tr: "lr.rg ?P (transitionOrder sv x OAwaitingPayment None) (\<lambda>_. store_inv) any_error"
    by (rule lr.rg_weaken [OF rg_transition]) (auto simp: cause_trivial)
  have move: "lr.rg ?P (if oStatus x = OCreated then lbind (transitionOrder sv x OAwaitingPayment None) (\<lambda>_. lret ())
      else lret ()) (\<lambda>_. store_inv) any_error"
    by (intro lr.rg_if lr.rg_bind [OF tr] lr.rg_ret) auto
  have tail: "lr.rg ?P (lbind (if oStatus x = OCreated then lbind (transitionOrder sv x OAwaitingPayment None) (\<lambda>_. lret ())
      else lret ()) (\<lambda>_. lbind (emitPayment sv q None None) (\<lambda>_. lret (q, True)))) (\<lambda>_. store_inv) any_error" for q
    by (rule lr.rg_bind [OF move]) (auto intro!: lr.bind_emitPayment lr.rg_ret stable_inv)
  have fin: "lr.rg ?P (lbind (store_write (\<lambda>st. emap (\<lambda>st'. (st', ()))
        (memCreatePayment (new_payment i x m n c at) idem st))) (\<lambda>_.
      lbind (if oStatus x = OCreated then lbind (transitionOrder sv x OAwaitingPayment None) (\<lambda>_. lret ()) else lret ())
        (\<lambda>_. lbind (emitPayment sv (new_payment i x m n c at) None None) (\<lambda>_. lret (new_payment i x m n c at, True)))))
      (\<lambda>_. store_inv) any_error" for i n c at idem
  proof (rule lr.bind_write [where Q = "\<lambda>_. ?P", OF st])
    fix s t u
    assume s: "?P s" and "emap (\<lambda>st'. (st', ())) (memCreatePayment (new_payment i x m n c at) idem s) = Inr (t, u)"
    then have "memCreatePayment (new_payment i x m n c at) idem s = Inr t" by (auto simp: emap_def ebind_eq_Inr)
    then have "ledger_rely s t \<and> store_inv t"
      using payment_create [where x = x and s = s and st = t and idem = idem and p = "new_payment i x m n c at"] s
      by (simp add: new_payment_def)
    then show "ledger_rely s t \<and> ?P t" using s lr.stableD [OF stable_seen_order] by blast
  qed (simp, rule tail)
  show ?thesis
    unfolding open_payment_def Let_def
    by (intro lr.rg_if lr.rg_raise lr.bind_read [where Q = "\<lambda>_. ?P"] lr.bind_now lr.bind_newId lr.bind_pause
        bind_safe [OF create] stable_seen_order fin st) auto
qed

lemma rg_createPayment:
  assumes "service_ok sv"
  shows "safe (createPayment sv i input ctx)"
proof -
  have o: "lr.rg store_inv (getOrder i ctx) (\<lambda>x s. store_inv s \<and> seen_order x s) any_error"
    by (rule lr.rg_weaken [OF rg_getOrder]) auto
  show ?thesis
    unfolding createPayment_def Let_def
    by (intro lr.rg_option lr.rg_if lr.rg_raise lr.rg_bind [OF o] lr.bind_lift bind_safe [OF rg_idem_replay]
        stable_seen_order lr.rg_ret rg_open_payment) (auto dest: pickProvider_ok [OF assms])
qed

subsection \<open>Refunds and webhooks\<close>

lemma rg_credit_to:
  assumes r: "0 < r" and good: "good_payment p"
  shows "lr.rg (\<lambda>s. store_inv s \<and> seen_payment p s) (credit_to sv r d at p) (\<lambda>_. store_inv) any_error"
proof -
  let ?full = "pyRefundedSats p + r \<ge> pyAmountPaidSats p \<and> canPaymentTransition (pyStatus p) PRefunded"
  let ?m = "p\<lparr>pyRefundedSats := pyRefundedSats p + r, pyStatus := (if ?full then PRefunded else pyStatus p), pyUpdatedAt := at\<rparr>"
  let ?Q = "\<lambda>q s. store_inv s \<and> seen_payment q s \<and> pyOrderId q = pyOrderId p"
  have derive: "lr.rg (\<lambda>s. ?Q q s \<and> seen_order x s \<and> oId x = pyOrderId p)
      (lbind (deriveOrderStatus sv x q w) (\<lambda>_. lret ())) (\<lambda>_. store_inv) any_error" for q x w
    by (rule lr.rg_bind [OF lr.rg_pre [OF rg_deriveOrderStatus]]) (auto intro: lr.rg_ret)
  have follow: "lr.rg (\<lambda>s. ?Q q s \<and> (\<forall>x. g = Some x \<longrightarrow> seen_order x s \<and> oId x = pyOrderId p))
      (case g of None \<Rightarrow> lret () | Some x \<Rightarrow> lbind (deriveOrderStatus sv x q w) (\<lambda>_. lret ())) (\<lambda>_. store_inv) any_error" for q w g
    by (intro lr.rg_option lr.rg_ret lr.rg_pre [OF derive]) auto
  have read: "lr.rg (?Q q) (lbind (store_read (\<lambda>st. memGetOrder st (pyOrderId p))) (\<lambda>found. case found of None \<Rightarrow> lret ()
      | Some x \<Rightarrow> lbind (deriveOrderStatus sv x q w) (\<lambda>_. lret ()))) (\<lambda>_. store_inv) any_error" for q w
    by (rule lr.bind_read [where Q = "\<lambda>f s. ?Q q s \<and> (\<forall>x. f = Some x \<longrightarrow> seen_order x s \<and> oId x = pyOrderId p)", OF _ _ follow])
       (use read_order in \<open>auto simp: memGetOrder_def intro!: stable_intros\<close>)
  have ch: "payment_change p ?m" using r by (auto simp: payment_change_def)
  have w: "ledger_rely s st \<and> ?Q q st" if "store_inv s \<and> seen_payment p s" "memUpdatePayment s ?m = Inr (st, q)" for s st q
    using payment_write [OF _ _ ch _ _ that(2)] that(1) good by (auto simp: good_payment_def)
  show ?thesis
    unfolding credit_to_def Let_def
    by (rule lr.bind_write [where Q = ?Q, OF _ w])
       (auto intro!: stable_intros lr.rg_if lr.bind_emitPayment lr.rg_ret read)
qed

lemma rg_credit_once:
  assumes "0 < reAmountSats r"
  shows "safe (credit_once sv r d at)"
  unfolding credit_once_def
proof (rule lr.bind_read [where Q = "\<lambda>f s. store_inv s \<and> (\<forall>p. f = Some p \<longrightarrow> seen_payment p s \<and> good_payment p)"], rule stable_inv)
  show "store_inv s \<Longrightarrow> store_inv s \<and> (\<forall>p. memGetPayment s (rePaymentId r) = Some p \<longrightarrow> seen_payment p s \<and> good_payment p)" for s
    using read_good by (auto simp: memGetPayment_def)
  have "lr.rg (\<lambda>s. store_inv s \<and> seen_payment p s \<and> good_payment p) (credit_to sv (reAmountSats r) d at p)
      (\<lambda>_. store_inv) any_error" for p
    by (cases "good_payment p") (auto intro: lr.rg_pre [OF rg_credit_to [OF assms]] lr.rg_false)
  then show "lr.rg (\<lambda>s. store_inv s \<and> (\<forall>p. f = Some p \<longrightarrow> seen_payment p s \<and> good_payment p))
     (case f of None \<Rightarrow> lraise notFound | Some p \<Rightarrow> credit_to sv (reAmountSats r) d at p) (\<lambda>_. store_inv) any_error" for f
    by (intro lr.rg_option lr.rg_raise) (auto elim: lr.rg_pre)
qed

lemma rg_credit_retrying: "0 < reAmountSats r \<Longrightarrow> safe (credit_retrying k sv r d at)"
proof (induction k)
  case (Suc k)
  have "lr.rg store_inv (credit_once sv r d at) (\<lambda>_. store_inv) (\<lambda>_. store_inv)"
    using lr.rg_frame [OF rg_credit_once [OF Suc.prems] stable_inv] by (rule lr.rg_weaken) auto
  then show ?case by (auto intro!: lr.rg_try [where F = "\<lambda>_. store_inv"] Suc lr.rg_raise)
qed (simp add: rg_credit_once)

lemma rg_settleRefund:
  assumes "0 < reAmountSats r"
  shows "lr.rg (\<lambda>s. store_inv s \<and> seen_refund r s) (settleRefund sv r st d) (\<lambda>_. store_inv) any_error"
  unfolding settleRefund_def Let_def
proof (intro lr.rg_if lr.rg_ret lr.bind_lift lr.bind_now)
  fix u now
  let ?m = "r\<lparr>reStatus := st, reDetail := case d of None \<Rightarrow> reDetail r | Some d \<Rightarrow> Some d, reUpdatedAt := toISOString now\<rparr>"
  have m: "refund_step r ?m" by (simp add: refund_step_def)
  show "lr.rg (\<lambda>s. store_inv s \<and> seen_refund r s) (lbind (store_write (\<lambda>st. memUpdateRefund st ?m)) (\<lambda>nxt.
        if st \<noteq> RCompleted then lret nxt
        else lbind (credit_retrying 3 sv r d (toISOString now)) (\<lambda>_. lret nxt))) (\<lambda>_. store_inv) any_error"
    by (rule lr.bind_write [where Q = "\<lambda>_. store_inv"])
       (auto intro!: stable_intros lr.rg_if lr.rg_ret bind_safe0 [OF rg_credit_retrying [OF assms]] dest: refund_write [OF _ _ m])
qed auto

lemma rg_settleRefundById: "safe (settleRefundById sv i st d)"
  unfolding settleRefundById_def
proof (rule lr.bind_read [where Q = "\<lambda>f s. store_inv s \<and> (\<forall>r. f = Some r \<longrightarrow> seen_refund r s \<and> 0 < reAmountSats r)"], rule stable_inv)
  show "store_inv s \<Longrightarrow> store_inv s \<and> (\<forall>r. memGetRefund s i = Some r \<longrightarrow> seen_refund r s \<and> 0 < reAmountSats r)" for s
    using read_refund by (auto simp: memGetRefund_def)
  have "lr.rg (\<lambda>s. store_inv s \<and> seen_refund r s \<and> 0 < reAmountSats r) (settleRefund sv r st d) (\<lambda>_. store_inv) any_error" for r
    by (cases "0 < reAmountSats r") (auto intro: lr.rg_pre [OF rg_settleRefund] lr.rg_false)
  then show "lr.rg (\<lambda>s. store_inv s \<and> (\<forall>r. f = Some r \<longrightarrow> seen_refund r s \<and> 0 < reAmountSats r))
     (case f of None \<Rightarrow> lraise notFound | Some r \<Rightarrow> settleRefund sv r st d) (\<lambda>_. store_inv) any_error" for f
    by (intro lr.rg_option lr.rg_raise) (auto elim: lr.rg_pre)
qed

lemma rg_send_refund:
  assumes p: "provider_ok pr" and a: "0 < a"
  shows "lr.rg (\<lambda>s. store_inv s \<and> seen_payment p s) (send_refund sv pr p a input scope key fp) (\<lambda>_. store_inv) any_error"
proof -
  let ?r0 = "\<lambda>i n. new_refund i p a input (toISOString n)"
  let ?Q = "\<lambda>r s. store_inv s \<and> seen_refund r s"
  have prov: "safe (prRefund pr p r)" for r using p by (simp add: provider_ok_def)
  have st: "lr.stable (?Q r)" for r by (intro stable_intros)
  have fin: "lr.rg (?Q r0) (if prrStatus res = RPending
       then lbind (store_write (\<lambda>st. memUpdateRefund st (r0\<lparr>reProviderRef := prrProviderRef res, reDetail := prrDetail res\<rparr>)))
         (\<lambda>r2. lret (r2, True))
       else lbind (settleRefund sv (r0\<lparr>reProviderRef := prrProviderRef res, reDetail := prrDetail res\<rparr>) (prrStatus res)
         (prrDetail res)) (\<lambda>r2. lret (r2, True))) (\<lambda>_. store_inv) any_error"
    if "0 < reAmountSats r0" for r0 res
  proof -
    let ?r1 = "r0\<lparr>reProviderRef := prrProviderRef res, reDetail := prrDetail res\<rparr>"
    have step: "refund_step r0 ?r1" by (simp add: refund_step_def)
    have seen: "?Q r0 s \<Longrightarrow> store_inv s \<and> seen_refund ?r1 s" for s
      by (auto simp: seen_refund_def refund_step_def)
    show ?thesis
      by (intro lr.rg_if lr.bind_write [where Q = "\<lambda>_. store_inv"] lr.rg_bind [OF lr.rg_pre [OF rg_settleRefund seen]] lr.rg_ret)
         (use that st refund_write [OF _ _ step] in auto)
  qed
  have new: "lr.rg (\<lambda>s. store_inv s \<and> seen_payment p s)
      (lbind (store_write (\<lambda>st. emap (\<lambda>st'. (st', ())) (memCreateRefund (?r0 i n) idem st))) k) (\<lambda>_. store_inv) any_error"
    if "\<And>u. lr.rg (?Q (?r0 i n)) (k u) (\<lambda>_. store_inv) any_error" for i n idem k
  proof (rule lr.bind_write [where Q = "\<lambda>_. ?Q (?r0 i n)"])
    fix s t u
    assume s: "store_inv s \<and> seen_payment p s" and "emap (\<lambda>st'. (st', ())) (memCreateRefund (?r0 i n) idem s) = Inr (t, u)"
    then have "memCreateRefund (?r0 i n) idem s = Inr t" by (auto simp: emap_def ebind_eq_Inr)
    with refund_create [of s p "?r0 i n" idem t] s a
    show "ledger_rely s t \<and> ?Q (?r0 i n) t" by (simp add: new_refund_def)
  qed (use that in \<open>auto intro!: stable_intros\<close>)
  have amt: "0 < reAmountSats (?r0 i n)" for i n using a by (simp add: new_refund_def)
  show ?thesis
    unfolding send_refund_def Let_def
    by (intro lr.bind_now lr.bind_newId new lr.bind_pause bind_safe [OF prov] stable_seen_refund st fin amt)
qed

lemma rg_refund:
  assumes "service_ok sv"
  shows "safe (refund sv i input ctx)"
proof -
  have p: "lr.rg store_inv (getPayment i ctx) (\<lambda>p s. store_inv s \<and> seen_payment p s) any_error"
    by (rule lr.rg_weaken [OF rg_getPayment]) auto
  have pos: "refund_amount p input = Inr a \<Longrightarrow> 0 < a" for p a
    by (auto simp: refund_amount_def Let_def ebind_eq_Inr split: if_splits)
  show ?thesis
    unfolding refund_def Let_def
    by (intro lr.rg_if lr.rg_raise lr.rg_bind [OF p] bind_safe [OF rg_idem_replay] stable_seen_payment lr.rg_option
        lr.rg_ret lr.bind_lift rg_send_refund) (auto intro: provider_named_ok [OF assms] pos)
qed

lemma rg_getRefund: "safe (getRefund i ctx)"
  unfolding getRefund_def
  by (intro lr.bind_read [where Q = "\<lambda>_. store_inv"] lr.rg_option lr.rg_raise stable_inv
      lr.rg_bind [OF lr.rg_weaken [where Q' = "\<lambda>_. store_inv", OF rg_getPayment]] lr.rg_ret) auto

lemma rg_listPayments: "safe (listPayments sv i ctx)"
  unfolding listPayments_def
  by (intro lr.rg_bind [OF lr.rg_weaken [where Q' = "\<lambda>_. store_inv", OF rg_getOrder]] lr.rg_read stable_inv) auto

lemma rg_listRefunds: "safe (listRefunds sv i ctx)"
  unfolding listRefunds_def
  by (intro lr.rg_bind [OF lr.rg_weaken [where Q' = "\<lambda>_. store_inv", OF rg_getOrder]] lr.rg_read stable_inv) auto

lemma set_sort_by: "set (sort_by le xs) = set xs"
proof -
  have "set (insert_by le x ys) = insert x (set ys)" for x ys by (induction le x ys rule: insert_by.induct) auto
  then show ?thesis unfolding sort_by_def by (induction xs) auto
qed

lemma listed_payment:
  "store_inv s \<Longrightarrow> p \<in> set (map snd (stPayments s)) \<Longrightarrow> map_of (stPayments s) (pyId p) = Some p"
proof -
  assume s: "store_inv s" and "p \<in> set (map snd (stPayments s))"
  then obtain k where "map_of (stPayments s) k = Some p"
    using store_invD(5) [OF s] by (auto simp: keys_inv_def intro: map_of_is_SomeI)
  with read_payment [OF s this] show ?thesis by simp
qed

lemma listed_refund:
  "store_inv s \<Longrightarrow> r \<in> set (map snd (stRefunds s)) \<Longrightarrow> seen_refund r s \<and> 0 < reAmountSats r"
proof -
  assume s: "store_inv s" and "r \<in> set (map snd (stRefunds s))"
  then obtain k where "map_of (stRefunds s) k = Some r"
    using store_invD(5) [OF s] by (auto simp: keys_inv_def intro: map_of_is_SomeI)
  with read_refund [OF s this] show ?thesis by simp
qed

lemma rg_process_webhook:
  assumes p: "provider_ok pr"
  shows "safe (process_webhook sv pr hook now payment)"
proof -
  have poll: "safe (prPoll pr payment now)" using p by (simp add: provider_ok_def)
  have polled: "safe (ltry (lbind pause (\<lambda>_. lbind (prPoll pr payment now) (\<lambda>polled.
        lret (case polled of Some u \<Rightarrow> Some u | None \<Rightarrow> whUpdate hook)))) (\<lambda>_. lret (whUpdate hook)))"
  proof (rule lr.rg_try [where F = "\<lambda>_. store_inv"])
    have "safe (lbind pause (\<lambda>_. lbind (prPoll pr payment now) (\<lambda>polled.
        lret (case polled of Some u \<Rightarrow> Some u | None \<Rightarrow> whUpdate hook))))"
      by (intro lr.bind_pause stable_inv bind_safe0 [OF poll] lr.rg_ret)
    from lr.rg_frame [OF this stable_inv]
    show "lr.rg store_inv (lbind pause (\<lambda>_. lbind (prPoll pr payment now) (\<lambda>polled.
        lret (case polled of Some u \<Rightarrow> Some u | None \<Rightarrow> whUpdate hook)))) (\<lambda>_. store_inv) (\<lambda>_. store_inv)"
      by (rule lr.rg_weaken) auto
  qed (rule lr.rg_ret)
  have settle: "lr.rg (\<lambda>s. store_inv s \<and> (\<forall>r \<in> set rs. seen_refund r s \<and> 0 < reAmountSats r))
      (case List.find (\<lambda>r. reProviderRef r = Some (wrProviderRef wr)) rs of
         None \<Rightarrow> lret (webhook_result False False hook (Some ''unknown_refund''))
       | Some r \<Rightarrow> if reStatus r \<noteq> RPending then lret (webhook_result False False hook (Some ''refund_settled''))
              else lbind (settleRefund sv r (wrStatus wr) (wrDetail wr)) (\<lambda>_. lret (webhook_result False True hook None)))
      (\<lambda>_. store_inv) any_error" for rs wr
  proof (intro lr.rg_option lr.rg_if lr.rg_ret)
    fix r
    assume "List.find (\<lambda>r. reProviderRef r = Some (wrProviderRef wr)) rs = Some r"
    then have r: "r \<in> set rs" by (auto simp: find_Some_iff)
    show "lr.rg (\<lambda>s. store_inv s \<and> (\<forall>r \<in> set rs. seen_refund r s \<and> 0 < reAmountSats r))
        (lbind (settleRefund sv r (wrStatus wr) (wrDetail wr)) (\<lambda>_. lret (webhook_result False True hook None)))
        (\<lambda>_. store_inv) any_error"
    proof (cases "0 < reAmountSats r")
      case True
      show ?thesis
        by (rule lr.rg_bind [OF lr.rg_pre [OF rg_settleRefund [OF True]]]) (use r in \<open>auto intro: lr.rg_ret\<close>)
    next
      case False
      then show ?thesis using r by (intro lr.rg_false) auto
    qed
  qed auto
  show ?thesis
    unfolding process_webhook_def
    by (intro lr.rg_option lr.bind_read [OF stable_inv _ settle] bind_safe0 lr.rg_if polled lr.rg_ret rg_applyUpdate)
       (force simp: memListRefundsByPayment_def set_sort_by dest: listed_refund)+
qed

lemma rg_handleWebhook:
  assumes "service_ok sv"
  shows "safe (handleWebhook sv n b h)"
proof -
  have parse: "safe (parse b h now)" if "provider_named sv n = Some pr" "prParseWebhook pr = Some parse" for pr parse now
    using provider_named_ok [OF assms that(1)] that(2) by (simp add: provider_ok_def)
  have w: "ledger_rely s t \<and> store_inv t"
    if "store_inv s" "(let (fresh, st') = memRecordWebhookDelivery a c s in Inr (st', fresh)) = Inr (t, u)" for s t u a c
    using deliveries_write [OF that(1)] that(2) by (auto split: prod.splits)
  show ?thesis
    unfolding handleWebhook_def
    by (intro lr.rg_option lr.rg_raise lr.bind_now lr.bind_pause stable_inv bind_safe0 [OF parse]
        lr.bind_write [where Q = "\<lambda>_. store_inv", OF stable_inv w] lr.rg_if lr.rg_ret
        lr.bind_read [where Q = "\<lambda>_. store_inv"] rg_process_webhook)
       (auto intro: provider_named_ok [OF assms])
qed

end
