(* ===== verification/LedgerWorker.thy ===== *)
theory LedgerWorker imports LedgerOps begin

text \<open>
  \<open>worker.ts\<close>, \<open>providers/onchain.ts\<close> and \<open>providers/fake.ts\<close> of \<open>platform/ledger/src\<close>: the
  reconciliation loop, the confirmation policy, and the two providers that need no HTTP client.
  Address derivation (\<open>@scure/bip32\<close>, \<open>@scure/btc-signer\<close>) and the chain backend are parameters.
\<close>

subsection \<open>The worker\<close>

record 'w LedgerWorker =
  wkProviders :: "'w PaymentProvider list"
  wkBatch :: "nat option"
  wkExpiredGraceMs :: "int option"

record TickResult =
  tkPolled :: nat
  tkApplied :: nat
  tkErrors :: nat

definition OPEN :: "PaymentStatus list" where "OPEN = [PCreated, PPending, PUnderpaid, PExpired]"

text \<open>An expired intent is still polled while its grace lasts. A date that does not parse never runs out.\<close>

definition skip_expired :: "'w LedgerService \<Rightarrow> 'w LedgerWorker \<Rightarrow> nat \<Rightarrow> PaymentIntent \<Rightarrow> bool" where
  "skip_expired sv wk now intent =
     (pyStatus intent = PExpired \<and>
      (pyMethod intent \<noteq> Onchain \<or>
       (case truthy (pyExpiresAt intent) of
          None \<Rightarrow> True
        | Some e \<Rightarrow> (case svParseDate sv e of None \<Rightarrow> False
            | Some t \<Rightarrow> int now - t > (case wkExpiredGraceMs wk of None \<Rightarrow> 24 * 3600000 | Some g \<Rightarrow> g)))))"

definition expiry_due :: "'w LedgerService \<Rightarrow> nat \<Rightarrow> string option \<Rightarrow> bool" where
  "expiry_due sv now expiresAt =
     (case truthy expiresAt of
        None \<Rightarrow> False
      | Some e \<Rightarrow> (case svParseDate sv e of None \<Rightarrow> False | Some t \<Rightarrow> t \<le> int now))"

definition expired_update :: "string option \<Rightarrow> ProviderUpdate" where
  "expired_update detail =
     \<lparr>puStatus = PExpired, puAmountPaidSats = None, puPaidAt = None, puTxid = None, puPreimage = None,
      puProviderData = None, puDetail = detail\<rparr>"

definition tick_intent ::
  "'w LedgerService \<Rightarrow> 'w LedgerWorker \<Rightarrow> nat \<Rightarrow> PaymentIntent \<Rightarrow> TickResult \<Rightarrow> ('w, TickResult) lg" where
  "tick_intent sv wk now intent res0 =
     (if skip_expired sv wk now intent then lret res0
      else case List.find (\<lambda>p. prName p = pyProvider intent) (wkProviders wk) of
        None \<Rightarrow> lret res0
      | Some provider \<Rightarrow>
          let res = res0\<lparr>tkPolled := tkPolled res0 + 1\<rparr> in
          ltry
            (lbind pause (\<lambda>_. lbind (prPoll provider intent now) (\<lambda>polled.
             let update = (if polled = None \<and> pyStatus intent = PCreated \<and> expiry_due sv now (pyExpiresAt intent)
                           then Some (expired_update (Some ''expired without payment'')) else polled)
             in case update of
                  None \<Rightarrow> lret res
                | Some u \<Rightarrow>
                    lbind (applyUpdate sv (pyId intent) u (Some ''worker poll'')) (\<lambda>applied.
                    lret (if apApplied applied then res\<lparr>tkApplied := tkApplied res + 1\<rparr> else res)))))
            (\<lambda>e. lret (res\<lparr>tkErrors := tkErrors res + 1\<rparr>)))"

primrec tick_loop ::
  "'w LedgerService \<Rightarrow> 'w LedgerWorker \<Rightarrow> nat \<Rightarrow> PaymentIntent list \<Rightarrow> TickResult \<Rightarrow> ('w, TickResult) lg" where
  "tick_loop sv wk now [] res = lret res"
| "tick_loop sv wk now (i # is) res = lbind (tick_intent sv wk now i res) (tick_loop sv wk now is)"

definition tick :: "'w LedgerService \<Rightarrow> 'w LedgerWorker \<Rightarrow> ('w, TickResult) lg" where
  "tick sv wk =
     lbind get_now (\<lambda>now.
     lbind (store_read (memListPaymentsByStatus (svCollate sv) OPEN (case wkBatch wk of None \<Rightarrow> 200 | Some b \<Rightarrow> b)))
       (\<lambda>intents. tick_loop sv wk now intents \<lparr>tkPolled = 0, tkApplied = 0, tkErrors = 0\<rparr>))"

subsection \<open>The confirmation policy\<close>

record ChainTx =
  ctTxid :: string
  ctSequences :: "nat list"
  ctVout :: "(string option \<times> int) list"
  ctConfirmed :: bool
  ctBlockHeight :: "int option"

record ConfirmationPolicy =
  cpConfirmations :: int
  cpUnderTolerance :: "int option"
  cpOverTolerance :: "int option"

definition isReplaceable :: "ChainTx \<Rightarrow> bool" where
  "isReplaceable tx = list_ex (\<lambda>s. s < 0xfffffffe) (ctSequences tx)"

record OnchainEvaluation = ProviderUpdate +
  oeCreditedSats :: int
  oeAwaitingSats :: int
  oeReplaceableSats :: int

record OnchainInput =
  oiAddress :: string
  oiTxs :: "ChainTx list"
  oiTipHeight :: int
  oiAmountSats :: int
  oiPolicy :: ConfirmationPolicy
  oiExpiresAt :: "string option"
  oiNow :: nat

record OnchainScan =
  scCredited :: int
  scAwaiting :: int
  scReplaceable :: int
  scTxids :: "string list"

text \<open>What a transaction pays to the address, and its confirmations at the tip.\<close>

definition paid_to :: "string \<Rightarrow> ChainTx \<Rightarrow> int" where
  "paid_to address tx = sum_list (map snd (filter (\<lambda>v. fst v = Some address) (ctVout tx)))"

definition confs_at :: "int \<Rightarrow> ChainTx \<Rightarrow> int" where
  "confs_at tip tx = (case ctBlockHeight tx of
      Some h \<Rightarrow> if ctConfirmed tx then max 0 (tip - h + 1) else 0
    | None \<Rightarrow> 0)"

definition scan_tx :: "OnchainInput \<Rightarrow> ChainTx \<Rightarrow> OnchainScan \<Rightarrow> OnchainScan" where
  "scan_tx inp tx sc =
     (let v = paid_to (oiAddress inp) tx in
      if v \<le> 0 then sc
      else if \<not> ctConfirmed tx \<and> isReplaceable tx then sc\<lparr>scReplaceable := scReplaceable sc + v\<rparr>
      else if confs_at (oiTipHeight inp) tx \<ge> cpConfirmations (oiPolicy inp)
      then sc\<lparr>scCredited := scCredited sc + v, scTxids := scTxids sc @ [ctTxid tx]\<rparr>
      else sc\<lparr>scAwaiting := scAwaiting sc + v\<rparr>)"

definition scan_txs :: "OnchainInput \<Rightarrow> OnchainScan" where
  "scan_txs inp = fold (scan_tx inp) (oiTxs inp) \<lparr>scCredited = 0, scAwaiting = 0, scReplaceable = 0, scTxids = []\<rparr>"

definition evaluateOnchain :: "'w LedgerService \<Rightarrow> OnchainInput \<Rightarrow> OnchainEvaluation option" where
  "evaluateOnchain sv inp =
     (let underTol = (case cpUnderTolerance (oiPolicy inp) of None \<Rightarrow> 0 | Some t \<Rightarrow> t);
          overTol = (case cpOverTolerance (oiPolicy inp) of None \<Rightarrow> 0 | Some t \<Rightarrow> t);
          sc = scan_txs inp; credited = scCredited sc; seen = credited + scAwaiting sc;
          txid = (case scTxids sc of [] \<Rightarrow> None | t # _ \<Rightarrow> truthy (Some t));
          mk = (\<lambda>st paid tx detail.
            \<lparr>puStatus = st, puAmountPaidSats = Some (JInt credited), puPaidAt = paid, puTxid = tx, puPreimage = None,
             puProviderData = None, puDetail = detail, oeCreditedSats = credited, oeAwaitingSats = scAwaiting sc,
             oeReplaceableSats = scReplaceable sc\<rparr>)
      in if credited \<ge> oiAmountSats inp - underTol
         then Some (mk (if credited > oiAmountSats inp + overTol then POverpaid else PPaid)
                (Some (toISOString (oiNow inp))) txid None)
         else if seen \<ge> oiAmountSats inp - underTol then Some (mk PPending None None (Some ''awaiting confirmations''))
         else if credited > 0 then Some (mk PUnderpaid None txid None)
         else if seen > 0 \<or> scReplaceable sc > 0
         then Some (mk PPending None None
                (Some (if scReplaceable sc > 0 \<and> seen = 0 then ''replaceable transaction seen''
                       else ''awaiting confirmations'')))
         else if expiry_due sv (oiNow inp) (oiExpiresAt inp) then Some (mk PExpired None None None)
         else None)"

subsection \<open>Providers\<close>

text \<open>
  The on-chain provider. \<open>ocAddressAt\<close> derives the address of an index from the account key, \<open>None\<close> when
  the library throws; the chain backend answers in the providers' world.
\<close>

record 'w OnchainOptions =
  ocScope :: string
  ocNetwork :: string
  ocAddressAt :: "nat \<Rightarrow> string option"
  ocAddressTxs :: "string \<Rightarrow> ('w, ChainTx list) lg"
  ocTipHeight :: "('w, int) lg"
  ocPolicy :: ConfirmationPolicy
  ocExpiryMinutes :: "nat option"

definition onchain_addressAt :: "'w OnchainOptions \<Rightarrow> nat \<Rightarrow> ledger_error + string" where
  "onchain_addressAt op index =
     (if index \<ge> 0x80000000 then Inl OtherError
      else case ocAddressAt op index of None \<Rightarrow> Inl OtherError | Some a \<Rightarrow> Inr a)"

definition no_checkout :: CheckoutDetails where
  "no_checkout = \<lparr>chAddress = None, chBolt11 = None, chCheckoutUrl = None, chClientSecret = None\<rparr>"

definition onchain_createIntent :: "'w OnchainOptions \<Rightarrow> CreateIntentInput \<Rightarrow> ('w, ProviderIntent) lg" where
  "onchain_createIntent op inp =
     lbind (store_write (\<lambda>st. let (n, st') = memAllocateAddressIndex (ocScope op) st in Inr (st', n))) (\<lambda>index.
     lbind (llift (onchain_addressAt op index)) (\<lambda>address.
     lret \<lparr>piProviderRef = address, piCheckout = no_checkout\<lparr>chAddress := Some address\<rparr>,
           piExpiresAt = (case ciExpiresAt inp of Some e \<Rightarrow> Some e
             | None \<Rightarrow> Some (toISOString (ciNow inp + (case ocExpiryMinutes op of None \<Rightarrow> 60 | Some m \<Rightarrow> m) * 60000))),
           piProviderData = Some [(''addressIndex'', digits_of_nat index), (''network'', quote (ocNetwork op))]\<rparr>))"

definition onchain_poll ::
  "'w LedgerService \<Rightarrow> 'w OnchainOptions \<Rightarrow> PaymentIntent \<Rightarrow> nat \<Rightarrow> ('w, ProviderUpdate option) lg" where
  "onchain_poll sv op intent now =
     lbind (ocAddressTxs op (pyProviderRef intent)) (\<lambda>txs. lbind (ocTipHeight op) (\<lambda>tip.
     case evaluateOnchain sv
         \<lparr>oiAddress = pyProviderRef intent, oiTxs = txs, oiTipHeight = tip, oiAmountSats = pyAmountSats intent,
          oiPolicy = ocPolicy op, oiExpiresAt = pyExpiresAt intent, oiNow = now\<rparr> of
       None \<Rightarrow> lret None
     | Some ev \<Rightarrow> lret (Some ((ProviderUpdate.truncate ev)\<lparr>puProviderData := Some
           (fold (\<lambda>(k, v). AList.update k v)
              [(''creditedSats'', int_text (oeCreditedSats ev)), (''awaitingSats'', int_text (oeAwaitingSats ev)),
               (''replaceableSats'', int_text (oeReplaceableSats ev))] (pyProviderData intent))\<rparr>))))"

definition onchain_refund :: "PaymentIntent \<Rightarrow> Refund \<Rightarrow> ('w, ProviderRefundResult) lg" where
  "onchain_refund intent r =
     (if truthy (reDestination r) = None
      then lret \<lparr>prrStatus = RFailed, prrProviderRef = None,
             prrDetail = Some ''on-chain refunds need a destination address''\<rparr>
      else lret \<lparr>prrStatus = RPending, prrProviderRef = None,
             prrDetail = Some ''manual payout: the ledger holds no keys (see RUNBOOK)''\<rparr>)"

definition onchain_provider :: "'w LedgerService \<Rightarrow> 'w OnchainOptions \<Rightarrow> 'w PaymentProvider" where
  "onchain_provider sv op =
     \<lparr>prName = ''onchain'', prMethods = [Onchain], prCreateIntent = onchain_createIntent op,
      prPoll = onchain_poll sv op, prRefund = onchain_refund, prParseWebhook = None\<rparr>"

text \<open>The deterministic provider of \<open>fake.ts\<close>; its fields are the world.\<close>

record FakeState =
  fkIntents :: "(string \<times> CreateIntentInput) list"
  fkRefunds :: "(PaymentIntent \<times> Refund) list"
  fkQueued :: "(string \<times> ProviderUpdate) list"
  fkSeq :: nat
  fkRefundResult :: ProviderRefundResult

definition fake_createIntent :: "string \<Rightarrow> CreateIntentInput \<Rightarrow> (FakeState, ProviderIntent) lg" where
  "fake_createIntent name inp w =
     (let s = lgWorld w; n = fkSeq s + 1; ref = name @ ''-'' @ digits_of_nat n;
          checkout = (case ciMethod inp of
              Onchain \<Rightarrow> no_checkout\<lparr>chAddress := Some (''bcrt1qfake'' @ digits_of_nat n)\<rparr>
            | Lightning \<Rightarrow> no_checkout\<lparr>chBolt11 := Some (''lnbcrt'' @ int_text (ciAmountSats inp) @ ''n1fake'' @ digits_of_nat n)\<rparr>
            | Card \<Rightarrow> no_checkout\<lparr>chClientSecret := Some (ref @ ''_secret''),
                        chCheckoutUrl := Some (''https://fake.invalid/checkout/'' @ ref)\<rparr>)
      in (Inr \<lparr>piProviderRef = ref, piCheckout = checkout, piExpiresAt = ciExpiresAt inp, piProviderData = None\<rparr>,
          w\<lparr>lgWorld := s\<lparr>fkSeq := n, fkIntents := AList.update ref inp (fkIntents s)\<rparr>\<rparr>))"

definition plain_update :: "PaymentStatus \<Rightarrow> ProviderUpdate" where
  "plain_update st = \<lparr>puStatus = st, puAmountPaidSats = None, puPaidAt = None, puTxid = None, puPreimage = None,
     puProviderData = None, puDetail = None\<rparr>"

definition fake_queue :: "string \<Rightarrow> ProviderUpdate \<Rightarrow> FakeState \<Rightarrow> FakeState" where
  "fake_queue ref u s = s\<lparr>fkQueued := AList.update ref u (fkQueued s)\<rparr>"

text \<open>\<open>extra\<close> spreads further fields over the update.\<close>

definition fake_settle ::
  "string \<Rightarrow> int option \<Rightarrow> (ProviderUpdate \<Rightarrow> ProviderUpdate) \<Rightarrow> FakeState \<Rightarrow> ledger_error + FakeState" where
  "fake_settle ref amount extra s =
     (case map_of (fkIntents s) ref of
        None \<Rightarrow> Inl OtherError
      | Some inp \<Rightarrow>
          let paid = (case amount of None \<Rightarrow> ciAmountSats inp | Some a \<Rightarrow> a);
              st = (if paid < ciAmountSats inp then PUnderpaid
                    else if paid > ciAmountSats inp then POverpaid else PPaid)
          in Inr (fake_queue ref (extra ((plain_update st)\<lparr>puAmountPaidSats := Some (JInt paid),
                    puPaidAt := Some (toISOString (ciNow inp))\<rparr>)) s))"

definition fake_pending :: "string \<Rightarrow> int \<Rightarrow> FakeState \<Rightarrow> FakeState" where
  "fake_pending ref amount = fake_queue ref ((plain_update PPending)\<lparr>puAmountPaidSats := Some (JInt amount)\<rparr>)"

definition fake_expire :: "string \<Rightarrow> FakeState \<Rightarrow> FakeState" where
  "fake_expire ref = fake_queue ref (plain_update PExpired)"

definition fake_fail :: "string \<Rightarrow> string \<Rightarrow> FakeState \<Rightarrow> FakeState" where
  "fake_fail ref detail = fake_queue ref ((plain_update PFailed)\<lparr>puDetail := Some detail\<rparr>)"

definition fake_poll :: "PaymentIntent \<Rightarrow> nat \<Rightarrow> (FakeState, ProviderUpdate option) lg" where
  "fake_poll intent now w =
     (let s = lgWorld w; ref = pyProviderRef intent in
      (Inr (map_of (fkQueued s) ref), w\<lparr>lgWorld := s\<lparr>fkQueued := AList.delete ref (fkQueued s)\<rparr>\<rparr>))"

definition fake_refund :: "PaymentIntent \<Rightarrow> Refund \<Rightarrow> (FakeState, ProviderRefundResult) lg" where
  "fake_refund intent r w =
     (let s = lgWorld w in (Inr (fkRefundResult s), w\<lparr>lgWorld := s\<lparr>fkRefunds := fkRefunds s @ [(intent, r)]\<rparr>\<rparr>))"

definition fake_provider :: "string \<Rightarrow> PaymentMethod list \<Rightarrow> FakeState PaymentProvider" where
  "fake_provider name methods =
     \<lparr>prName = name, prMethods = methods, prCreateIntent = fake_createIntent name, prPoll = fake_poll,
      prRefund = fake_refund, prParseWebhook = None\<rparr>"

definition fake_start :: FakeState where
  "fake_start = \<lparr>fkIntents = [], fkRefunds = [], fkQueued = [], fkSeq = 0,
     fkRefundResult = \<lparr>prrStatus = RCompleted, prrProviderRef = Some ''fake-refund'', prrDetail = None\<rparr>\<rparr>"

end
