(* ===== verification/LedgerProps.thy ===== *)
theory LedgerProps imports LedgerWorker begin

text \<open>
  The ledger as a whole: every public operation as a call, the stores that calls and other writers can reach,
  and what holds of them. Also the promises of single operations: idempotent creation, replayed webhooks,
  refund amounts, the confirmation policy.
\<close>

subsection \<open>Providers and worker are well behaved\<close>

lemma fake_provider_ok: "provider_ok (fake_provider name methods)"
proof -
  have "safe (fake_createIntent name i)" "safe (fake_poll p n)" "safe (fake_refund p r)" for i p n r
    by (auto simp: lr.rg_def fake_createIntent_def fake_poll_def fake_refund_def Let_def lr.R_refl lr.sched_ok_def)
  then show ?thesis by (simp add: provider_ok_def fake_provider_def)
qed

lemma address_write:
  assumes "store_inv s" and "memAllocateAddressIndex a s = (n, st)"
  shows "ledger_rely s st \<and> store_inv st"
proof -
  have f: "st = s\<lparr>stIndexes := stIndexes st\<rparr>" using assms(2) by (auto simp: memAllocateAddressIndex_def Let_def)
  have "store_inv (s\<lparr>stIndexes := x\<rparr>)" for x
    using assms(1) by (simp add: store_inv_def orders_inv_def payments_inv_def refs_inv_def refunds_inv_def keys_inv_def)
  then have i: "store_inv (s\<lparr>stIndexes := stIndexes st\<rparr>)" .
  have "ledger_rely s (s\<lparr>stIndexes := x\<rparr>)" for x
    using \<open>\<And>x. store_inv (s\<lparr>stIndexes := x\<rparr>)\<close> by (simp add: ledger_rely_def keeps_refl)
  with i show ?thesis unfolding f [symmetric] by (metis f)
qed

text \<open>The chain backend does not write to the ledger's store.\<close>

definition chain_ok :: "'w OnchainOptions \<Rightarrow> bool" where
  "chain_ok op \<longleftrightarrow> (\<forall>a. safe (ocAddressTxs op a)) \<and> safe (ocTipHeight op)"

lemma onchain_provider_ok:
  fixes op :: "'w OnchainOptions"
  assumes "chain_ok op"
  shows "provider_ok (onchain_provider sv op)"
proof -
  have w: "ledger_rely s t \<and> store_inv t"
    if "store_inv s" "(let (n, st') = memAllocateAddressIndex a s in Inr (st', n)) = Inr (t, u)" for s t u a
    using address_write [OF that(1)] that(2) by (auto split: prod.splits)
  have "safe (onchain_createIntent op i)" for i
    unfolding onchain_createIntent_def
    by (intro lr.bind_write [where Q = "\<lambda>_. store_inv", OF stable_inv w] lr.bind_lift lr.rg_ret) auto
  moreover have "safe (onchain_poll sv op p n)" for p n
    unfolding onchain_poll_def using assms
    by (intro bind_safe0 lr.rg_option lr.rg_ret) (auto simp: chain_ok_def)
  moreover have "safe (onchain_refund p r :: ('w, ProviderRefundResult) lg)" for p r
    unfolding onchain_refund_def by (intro lr.rg_if lr.rg_ret)
  ultimately show ?thesis by (simp add: provider_ok_def onchain_provider_def)
qed

definition worker_ok :: "'w LedgerWorker \<Rightarrow> bool" where
  "worker_ok wk \<longleftrightarrow> (\<forall>p \<in> set (wkProviders wk). provider_ok p)"

lemma rg_tick_intent:
  assumes "worker_ok wk"
  shows "safe (tick_intent sv wk now i res)"
proof -
  have poll: "safe (prPoll p i now)" if "List.find (\<lambda>p. prName p = pyProvider i) (wkProviders wk) = Some p" for p
    using assms that by (auto simp: worker_ok_def find_Some_iff provider_ok_def)
  have m: "lr.rg store_inv m (\<lambda>_. store_inv) (\<lambda>_. store_inv)" if "safe m" for m :: "('a, TickResult) lg"
    using lr.rg_frame [OF that stable_inv] by (rule lr.rg_weaken) auto
  show ?thesis
    unfolding tick_intent_def Let_def
    by (intro lr.rg_if lr.rg_ret lr.rg_option lr.rg_try [where F = "\<lambda>_. store_inv"] m lr.bind_pause stable_inv
        bind_safe0 [OF poll] bind_safe0 [OF rg_applyUpdate])
qed

lemma rg_tick_loop: "worker_ok wk \<Longrightarrow> safe (tick_loop sv wk now is res)"
  by (induction "is" arbitrary: res) (auto intro: lr.rg_ret bind_safe0 rg_tick_intent)

lemma rg_tick: "worker_ok wk \<Longrightarrow> safe (tick sv wk)"
  unfolding tick_def
  by (intro lr.bind_now lr.bind_read [where Q = "\<lambda>_. store_inv"] stable_inv rg_tick_loop) auto

subsection \<open>Calls and reachable stores\<close>

text \<open>The public methods of \<open>LedgerService\<close>, and a tick of the worker.\<close>

datatype ledger_call =
    CreateOrder json CallerContext
  | GetOrder string CallerContext
  | CancelOrder string CallerContext string
  | ExpireOrder string string
  | CreatePayment string CreatePaymentInput CallerContext
  | GetPayment string CallerContext
  | ListPayments string CallerContext
  | ApplyUpdate string ProviderUpdate "string option"
  | RefundPayment string RefundInput CallerContext
  | GetRefund string CallerContext
  | SettleRefund string RefundStatus "string option"
  | ListRefunds string CallerContext
  | HandleWebhook string string headers
  | Tick

definition ldrop :: "('w, 'a) lg \<Rightarrow> ('w, unit) lg" where
  "ldrop m = lbind m (\<lambda>_. lret ())"

primrec perform :: "'w LedgerService \<Rightarrow> 'w LedgerWorker \<Rightarrow> ledger_call \<Rightarrow> ('w, unit) lg" where
  "perform sv wk (CreateOrder j c) = ldrop (createOrder 2 sv j c)"
| "perform sv wk (GetOrder i c) = ldrop (getOrder i c)"
| "perform sv wk (CancelOrder i c d) = ldrop (cancelOrder sv i c d)"
| "perform sv wk (ExpireOrder i d) = ldrop (expireOrder sv i d)"
| "perform sv wk (CreatePayment i p c) = ldrop (createPayment sv i p c)"
| "perform sv wk (GetPayment i c) = ldrop (getPayment i c)"
| "perform sv wk (ListPayments i c) = ldrop (listPayments sv i c)"
| "perform sv wk (ApplyUpdate i u d) = ldrop (applyUpdate sv i u d)"
| "perform sv wk (RefundPayment i r c) = ldrop (refund sv i r c)"
| "perform sv wk (GetRefund i c) = ldrop (getRefund i c)"
| "perform sv wk (SettleRefund i s d) = ldrop (settleRefundById sv i s d)"
| "perform sv wk (ListRefunds i c) = ldrop (listRefunds sv i c)"
| "perform sv wk (HandleWebhook p b h) = ldrop (handleWebhook sv p b h)"
| "perform sv wk Tick = ldrop (tick sv wk)"

lemma rg_perform: "service_ok sv \<Longrightarrow> worker_ok wk \<Longrightarrow> safe (perform sv wk c)"
  unfolding ldrop_def
  by (cases c)
     (simp_all add: ldrop_def, intro bind_safe0 lr.rg_ret rg_createOrder rg_cancelOrder rg_expireOrder rg_createPayment rg_listPayments
       rg_applyUpdate rg_refund rg_getRefund rg_settleRefundById rg_listRefunds rg_handleWebhook rg_tick
       lr.rg_weaken [where Q' = "\<lambda>_. store_inv", OF rg_getOrder] lr.rg_weaken [where Q' = "\<lambda>_. store_inv", OF rg_getPayment]; simp)+

text \<open>
  Every other writer of the schedule makes moves of \<open>ledger_rely\<close>. By \<open>rg_perform\<close> that is what another
  call of the service does between any two of its own awaits.
\<close>

definition well_behaved :: "'w Ledger \<Rightarrow> bool" where
  "well_behaved w \<longleftrightarrow> (\<forall>(d, f) \<in> set (lgSched w). \<forall>s. ledger_rely s (f s))"

lemma perform_moves:
  assumes "service_ok sv" and "worker_ok wk" and "well_behaved w" and "store_inv (lgStore w)"
    and "perform sv wk c w = (r, w')"
  shows "ledger_rely (lgStore w) (lgStore w') \<and> store_inv (lgStore w')"
proof -
  have "lr.sched_ok w" using assms(3) by (simp add: lr.sched_ok_def well_behaved_def)
  from lr.rgD [OF rg_perform [OF assms(1,2)] this assms(4,5)] assms(4)
  show ?thesis by (simp add: ledger_rely_def)
qed

inductive reachable :: "'w LedgerService \<Rightarrow> 'w LedgerWorker \<Rightarrow> MemoryOrderStore \<Rightarrow> bool" for sv wk where
  start: "reachable sv wk empty_store"
| other: "reachable sv wk s \<Longrightarrow> ledger_rely s t \<Longrightarrow> reachable sv wk t"
| call: "reachable sv wk (lgStore w) \<Longrightarrow> well_behaved w \<Longrightarrow> perform sv wk c w = (r, w') \<Longrightarrow> reachable sv wk (lgStore w')"

lemma empty_store_inv: "store_inv empty_store"
  by (simp add: store_inv_def orders_inv_def payments_inv_def refs_inv_def refunds_inv_def keys_inv_def empty_store_def)

lemma reachable_inv: "reachable sv wk s \<Longrightarrow> service_ok sv \<Longrightarrow> worker_ok wk \<Longrightarrow> store_inv s"
proof (induction rule: reachable.induct)
  case (call w c r w')
  then show ?case using perform_moves by blast
qed (auto simp: empty_store_inv ledger_rely_def)


subsection \<open>An example ledger\<close>

definition ex_service :: "FakeState LedgerService" where
  "ex_service = \<lparr>svProviders = [fake_provider ''fake'' [Onchain, Lightning, Card]], svDefaultProvider = (\<lambda>_. None),
     svVerifyWebhooks = True, svBus = None, svSource = ''urn:bsh:ledger'', svNewId = digits_of_nat,
     svParseDate = (\<lambda>_. Some 0), svSha256Hex = (\<lambda>s. s), svCollate = (\<lambda>_ _. 0)\<rparr>"

definition ex_worker :: "FakeState LedgerWorker" where
  "ex_worker = \<lparr>wkProviders = svProviders ex_service, wkBatch = None, wkExpiredGraceMs = None\<rparr>"

definition ex_order :: Order where
  "ex_order = \<lparr>oId = ''ord_1'', oProduct = Scribbit, oCustomerRef = ''c'', oLineItems = [], oTotalSats = 1000,
     oStatus = OAwaitingPayment, oMetadata = [], oVersion = 1, oCreatedAt = ''t0'', oUpdatedAt = ''t0''\<rparr>"

definition ex_store :: MemoryOrderStore where
  "ex_store = empty_store\<lparr>stOrders := [(''ord_1'', ex_order)], stPayments := [(''pay_1'', example_payment)]\<rparr>"

definition ex_ledger :: "MemoryOrderStore \<Rightarrow> FakeState Ledger" where
  "ex_ledger st = \<lparr>lgStore = st, lgSched = [], lgNow = 0, lgIds = 5, lgEvents = [], lgDropped = [], lgWorld = fake_start\<rparr>"

definition internal_caller :: CallerContext where
  "internal_caller = \<lparr>ccProduct = None, ccIdempotencyKey = None\<rparr>"

lemma ex_service_ok: "service_ok ex_service" "worker_ok ex_worker"
  by (simp_all add: service_ok_def worker_ok_def ex_service_def ex_worker_def fake_provider_ok)

lemma ex_ledger_ok: "well_behaved (ex_ledger st)" "lgStore (ex_ledger st) = st"
  by (simp_all add: well_behaved_def ex_ledger_def)

lemma ex_store_inv: "store_inv ex_store"
  by (auto simp: store_inv_def orders_inv_def payments_inv_def refs_inv_def refunds_inv_def keys_inv_def ex_store_def
      ex_order_def example_payment_def empty_store_def order_ok_def payment_ok_def MAX_SATS_def split: if_splits)

text \<open>Runs of the example: the clock stands at the first instant of 1970, and nobody else writes.\<close>

lemma truthy_simps [simp]: "truthy None = None" "truthy (Some s) = (if s = [] then None else Some s)"
  by (auto simp: truthy_def)

lemmas run_simps = Let_def lbind_def lret_def lraise_def ltry_def llift_def pause_def store_read_def store_write_def
  get_now_def newId_def

lemma pads: "pad 4 1970 = ''1970'' \<and> pad 2 (Suc 0) = ''01'' \<and> pad 2 0 = ''00'' \<and> pad 3 0 = ''000''"
  by code_simp

lemma pad_zero: "pad 4 1970 = ''1970''" "pad 2 1 = ''01''" "pad 2 (Suc 0) = ''01''" "pad 2 0 = ''00''" "pad 3 0 = ''000''"
  using pads by simp_all

lemma first_day: "civil_from_days 0 = (1970, 1, 1)"
  unfolding civil_from_days_def by (simp only: Let_def [of "0 + 719468 :: nat"], simp)

lemma iso_zero: "toISOString 0 = ''1970-01-01T00:00:00.000Z''"
  unfolding toISOString_def by (simp add: first_day pad_zero)

lemma date_zero: "date_time ex_service ''1970-01-01T00:00:00.000Z''"
proof -
  have "date_shape ''1970-01-01T00:00:00.000Z''" by code_simp
  then show ?thesis by (simp add: date_time_def ex_service_def)
qed

lemma ex_quiet [simp]: "lgSched (ex_ledger st) = []" "lgNow (ex_ledger st) = 0" "lgStore (ex_ledger st) = st"
  by (simp_all add: ex_ledger_def)

lemma ex_emitOrder:
  "oId x \<noteq> [] \<Longrightarrow> oCustomerRef x \<noteq> [] \<Longrightarrow> length (oCustomerRef x) \<le> 256 \<Longrightarrow> sats_range (oTotalSats x) \<Longrightarrow>
   oUpdatedAt x = ''1970-01-01T00:00:00.000Z'' \<Longrightarrow> emitOrder ex_service x p d w = (Inr (), w)"
  using date_zero by (simp add: emitOrder_def emit_def event_valid_def ex_service_def publish_def lret_def)

subsection \<open>Histories\<close>

text \<open>
  C12: the history of an order. Whatever call is made, and whatever well-behaved writes happen between its
  awaits, an order in the store is still there afterwards: unchanged, or at a later version with a status that
  the transition table reaches from the old one and with the same owner, line items, total and metadata. In
  particular a cancelled, expired or refunded order never changes again.
\<close>

theorem order_history_legal:
  assumes "service_ok sv" and "worker_ok wk" and "well_behaved w" and "store_inv (lgStore w)"
    and "perform sv wk c w = (r, w')" and "map_of (stOrders (lgStore w)) k = Some a"
  shows "\<exists>b. map_of (stOrders (lgStore w')) k = Some b \<and> (b = a \<or> oVersion a < oVersion b) \<and>
     order_reach (oStatus a) (oStatus b) \<and> (ORDER_TRANSITIONS (oStatus a) = [] \<longrightarrow> oStatus b = oStatus a) \<and>
     oProduct b = oProduct a \<and> oCustomerRef b = oCustomerRef a \<and> oLineItems b = oLineItems a \<and>
     oTotalSats b = oTotalSats a \<and> oMetadata b = oMetadata a \<and> oCreatedAt b = oCreatedAt a"
proof -
  obtain b where b: "map_of (stOrders (lgStore w')) k = Some b" "order_step a b"
    using perform_moves [OF assms(1-5)] assms(6) unfolding ledger_rely_def keeps_def by blast
  then show ?thesis unfolding order_step_def
    by (intro exI [of _ b]) (auto dest: order_reach_terminal)
qed

theorem order_history_legal_witness:
  "\<exists>b. map_of (stOrders (lgStore (snd (perform ex_service ex_worker
       (CancelOrder ''ord_1'' internal_caller ''changed mind'') (ex_ledger ex_store))))) ''ord_1'' = Some b \<and>
     order_reach OAwaitingPayment (oStatus b) \<and> oTotalSats b = 1000"
proof -
  have k: "map_of (stOrders (lgStore (ex_ledger ex_store))) ''ord_1'' = Some ex_order"
    by (simp add: ex_ledger_def ex_store_def)
  have "store_inv (lgStore (ex_ledger ex_store))" by (simp add: ex_ledger_ok(2) ex_store_inv)
  from order_history_legal [OF ex_service_ok ex_ledger_ok(1) this prod.collapse [symmetric] k]
  moreover have "oStatus ex_order = OAwaitingPayment" "oTotalSats ex_order = 1000" by (simp_all add: ex_order_def)
  ultimately show ?thesis by metis
qed

text \<open>
  The history of a payment. Under the same conditions a payment keeps its order, provider reference,
  amount and checkout data; its status moves along the transition table and the amount refunded never shrinks.
\<close>

theorem payment_history_legal:
  assumes "service_ok sv" and "worker_ok wk" and "well_behaved w" and "store_inv (lgStore w)"
    and "perform sv wk c w = (r, w')" and "map_of (stPayments (lgStore w)) k = Some p"
  shows "\<exists>q. map_of (stPayments (lgStore w')) k = Some q \<and> (q = p \<or> pyVersion p < pyVersion q) \<and>
     payment_reach (pyStatus p) (pyStatus q) \<and> (PAYMENT_TRANSITIONS (pyStatus p) = [] \<longrightarrow> pyStatus q = pyStatus p) \<and>
     pyOrderId q = pyOrderId p \<and> pyMethod q = pyMethod p \<and> pyProvider q = pyProvider p \<and>
     pyProviderRef q = pyProviderRef p \<and> pyAmountSats q = pyAmountSats p \<and> pyCheckout q = pyCheckout p \<and>
     pyExpiresAt q = pyExpiresAt p \<and> pyRefundedSats p \<le> pyRefundedSats q \<and>
     0 \<le> pyAmountPaidSats q \<and> pyAmountPaidSats q \<le> MAX_SATS"
proof -
  note m = perform_moves [OF assms(1-5)]
  obtain q where q: "map_of (stPayments (lgStore w')) k = Some q" "payment_step p q"
    using m assms(6) unfolding ledger_rely_def keeps_def by blast
  have "0 \<le> pyAmountPaidSats q \<and> pyAmountPaidSats q \<le> MAX_SATS"
    using read_payment [OF conjunct2 [OF m] q(1)] by simp
  with q show ?thesis unfolding payment_step_def
    by (intro exI [of _ q]) (auto dest: payment_reach_terminal)
qed

theorem payment_history_legal_witness:
  "\<exists>q. map_of (stPayments (lgStore (snd (perform ex_service ex_worker Tick (ex_ledger ex_store))))) ''pay_1'' = Some q \<and>
     payment_reach PCreated (pyStatus q) \<and> pyAmountSats q = 1000"
proof -
  have k: "map_of (stPayments (lgStore (ex_ledger ex_store))) ''pay_1'' = Some example_payment"
    by (simp add: ex_ledger_def ex_store_def)
  have "store_inv (lgStore (ex_ledger ex_store))" by (simp add: ex_ledger_ok(2) ex_store_inv)
  from payment_history_legal [OF ex_service_ok ex_ledger_ok(1) this prod.collapse [symmetric] k]
  moreover have "pyStatus example_payment = PCreated" "pyAmountSats example_payment = 1000"
    by (simp_all add: example_payment_def)
  ultimately show ?thesis by metis
qed

subsection \<open>Reachable stores\<close>

text \<open>
  C11: an order is only marked paid for money. In every store the service can reach from an empty one, in any
  order of calls, worker ticks and writes between their awaits, an order that is paid has a payment for its whole
  total that is settled, and an order that is refunded has one that is refunded; both belong to the order.
\<close>

theorem paid_order_has_settled_payment:
  assumes "service_ok sv" and "worker_ok wk" and "reachable sv wk s" and "map_of (stOrders s) k = Some x"
  shows "(oStatus x = OPaid \<longrightarrow> (\<exists>j p. map_of (stPayments s) j = Some p \<and> pyOrderId p = k \<and>
       pyStatus p \<in> {PPaid, POverpaid, PRefunded} \<and> pyAmountSats p = oTotalSats x)) \<and>
     (oStatus x = ORefunded \<longrightarrow> (\<exists>j p. map_of (stPayments s) j = Some p \<and> pyOrderId p = k \<and> pyStatus p = PRefunded \<and>
       pyAmountSats p = oTotalSats x))"
proof -
  have inv: "store_inv s" using reachable_inv [OF assms(3,1,2)] .
  have ok: "order_ok (map_of (stPayments s)) k x"
    using store_invD(1) [OF inv] assms(4) unfolding orders_inv_def by blast
  have amount: "pyAmountSats p = oTotalSats x" if "map_of (stPayments s) j = Some p" "pyOrderId p = k" for j p
    using store_invD(2) [OF inv] that assms(4) unfolding payments_inv_def payment_ok_def by fastforce
  show ?thesis using ok amount unfolding order_ok_def settled_def by blast
qed

theorem paid_order_has_settled_payment_witness:
  "\<exists>j p. map_of (stPayments (ex_store\<lparr>stOrders := [(''ord_1'', ex_order\<lparr>oStatus := OPaid\<rparr>)],
        stPayments := [(''pay_1'', example_payment\<lparr>pyStatus := PPaid\<rparr>)]\<rparr>)) j = Some p \<and> pyOrderId p = ''ord_1'' \<and>
     pyStatus p \<in> {PPaid, POverpaid, PRefunded} \<and> pyAmountSats p = oTotalSats (ex_order\<lparr>oStatus := OPaid\<rparr>)"
proof -
  let ?s = "ex_store\<lparr>stOrders := [(''ord_1'', ex_order\<lparr>oStatus := OPaid\<rparr>)],
        stPayments := [(''pay_1'', example_payment\<lparr>pyStatus := PPaid\<rparr>)]\<rparr>"
  have "store_inv ?s"
    by (auto simp: store_inv_def orders_inv_def payments_inv_def refs_inv_def refunds_inv_def keys_inv_def ex_store_def
      ex_order_def example_payment_def empty_store_def order_ok_def payment_ok_def MAX_SATS_def settled_def split: if_splits)
  then have "ledger_rely empty_store ?s"
    by (simp add: ledger_rely_def keeps_def empty_store_def)
  then have "reachable ex_service ex_worker ?s" by (rule reachable.other [OF reachable.start])
  from paid_order_has_settled_payment [OF ex_service_ok this, of "''ord_1''" "ex_order\<lparr>oStatus := OPaid\<rparr>"]
  show ?thesis by simp
qed

end
