(* ===== verification/LedgerReplay.thy ===== *)
theory LedgerReplay imports LedgerProps begin

text \<open>
  Requests that arrive twice: \<open>createOrder\<close> retried under an idempotency key, and webhook deliveries sent again.
  Whatever the rest of the system does between the two, the second has no effect of its own.
\<close>

subsection \<open>Retried order creation\<close>

text \<open>Order \<open>x\<close> is recorded under the key of the request \<open>clean\<close>.\<close>

definition order_key :: "CreateOrderInput \<Rightarrow> string \<Rightarrow> string" where
  "order_key clean k = joined_key (''order:'' @ product_name (coProduct clean)) k"

definition known_order :: "'w LedgerService \<Rightarrow> CreateOrderInput \<Rightarrow> string \<Rightarrow> Order \<Rightarrow> MemoryOrderStore \<Rightarrow> bool" where
  "known_order sv clean k x s \<longleftrightarrow> seen_order x s \<and>
     (\<exists>r. has_idem (order_key clean k) r s \<and> idFingerprint r = fingerprint sv (order_input_json clean) \<and> idResourceId r = oId x)"

lemma stable_ex_idem: "lr.stable (\<lambda>s. \<exists>r. has_idem k r s \<and> P r)"
  using stable_has_idem unfolding lr.stable_def by blast

lemma stable_known: "lr.stable (known_order sv clean k x)"
  unfolding known_order_def by (intro lr.stable_conj stable_seen_order stable_ex_idem)

text \<open>The replay check: what it finds is recorded, and what is recorded it finds.\<close>

lemma rg_replay_found:
  assumes "truthy key = Some k"
  shows "lr.rg store_inv (idem_replay (''order:'' @ product_name (coProduct clean)) key (fingerprint sv (order_input_json clean)) memGetOrder)
     (\<lambda>r s. store_inv s \<and> (\<forall>x. r = Some x \<longrightarrow> known_order sv clean k x s)) any_error"
proof -
  let ?fp = "fingerprint sv (order_input_json clean)"
  let ?Q1 = "\<lambda>f s. store_inv s \<and> (\<forall>r. f = Some r \<longrightarrow> has_idem (order_key clean k) r s)"
  let ?Q2 = "\<lambda>r x s. store_inv s \<and> (\<forall>y. x = Some y \<longrightarrow> known_order sv clean k y s)"
  have rd: "?Q2 r (memGetOrder s (idResourceId r)) s"
    if "store_inv s \<and> has_idem (order_key clean k) r s" "idFingerprint r = ?fp" for r s
    using that read_order [of s] by (auto simp: memGetOrder_def known_order_def)
  have inner: "lr.rg (\<lambda>s. store_inv s \<and> has_idem (order_key clean k) r s)
      (lbind (store_read (\<lambda>st. memGetOrder st (idResourceId r))) (\<lambda>x. case x of None \<Rightarrow> lraise notFound | Some y \<Rightarrow> lret (Some y)))
      (?Q2 r) any_error" if "idFingerprint r = ?fp" for r
    by (rule lr.bind_read [where Q = "?Q2 r", OF _ rd])
       (auto intro!: stable_intros lr.rg_option lr.rg_raise lr.rg_ret simp: that)
  show ?thesis
    unfolding idem_replay_def assms option.case
  proof (rule lr.bind_read [where Q = ?Q1, OF stable_inv])
    show "lr.rg (?Q1 f) (case f of None \<Rightarrow> lret None
        | Some r \<Rightarrow> if idFingerprint r \<noteq> ?fp then lraise (LedgerError 422 ''idempotency_conflict'')
          else lbind (store_read (\<lambda>st. memGetOrder st (idResourceId r)))
            (\<lambda>x. case x of None \<Rightarrow> lraise notFound | Some y \<Rightarrow> lret (Some y)))
        (\<lambda>r s. store_inv s \<and> (\<forall>x. r = Some x \<longrightarrow> known_order sv clean k x s)) any_error" for f
      by (cases f) (auto intro!: lr.rg_ret lr.rg_raise lr.rg_if lr.rg_pre [OF inner])
  qed (simp add: memFindIdempotency_def order_key_def has_idem_def)
qed

lemma rg_replay_known:
  assumes "truthy key = Some k"
  shows "lr.rg (\<lambda>s. store_inv s \<and> known_order sv clean k x s)
     (idem_replay (''order:'' @ product_name (coProduct clean)) key (fingerprint sv (order_input_json clean)) memGetOrder)
     (\<lambda>r s. \<exists>y. r = Some y \<and> oId y = oId x) (\<lambda>_ _. False)"
proof -
  let ?fp = "fingerprint sv (order_input_json clean)"
  let ?P = "\<lambda>s. store_inv s \<and> known_order sv clean k x s"
  have st: "lr.stable ?P" by (intro lr.stable_conj stable_inv stable_known)
  have get: "\<exists>y. memGetOrder s (oId x) = Some y \<and> oId y = oId x" if "?P s" for s
    using that read_order [of s] by (auto simp: known_order_def seen_order_def memGetOrder_def)
  have inner: "lr.rg ?P (lbind (store_read (\<lambda>st. memGetOrder st (oId x)))
      (\<lambda>x. case x of None \<Rightarrow> lraise notFound | Some y \<Rightarrow> lret (Some y))) (\<lambda>r s. \<exists>y. r = Some y \<and> oId y = oId x) (\<lambda>_ _. False)"
    by (rule lr.bind_read [where Q = "\<lambda>r s. \<exists>y. r = Some y \<and> oId y = oId x", OF st get])
       (auto intro!: lr.rg_option lr.rg_raise lr.rg_ret)
  show ?thesis
    unfolding idem_replay_def assms option.case
  proof (rule lr.bind_read [where Q = "\<lambda>f s. ?P s \<and> (\<exists>r. f = Some r \<and> idFingerprint r = ?fp \<and> idResourceId r = oId x)", OF st])
    show "?P s \<Longrightarrow> ?P s \<and> (\<exists>r. memFindIdempotency (''order:'' @ product_name (coProduct clean)) k s = Some r \<and>
        idFingerprint r = ?fp \<and> idResourceId r = oId x)" for s
      by (auto simp: memFindIdempotency_def order_key_def has_idem_def known_order_def)
    show "lr.rg (\<lambda>s. ?P s \<and> (\<exists>r. f = Some r \<and> idFingerprint r = ?fp \<and> idResourceId r = oId x))
        (case f of None \<Rightarrow> lret None
        | Some r \<Rightarrow> if idFingerprint r \<noteq> ?fp then lraise (LedgerError 422 ''idempotency_conflict'')
          else lbind (store_read (\<lambda>st. memGetOrder st (idResourceId r)))
            (\<lambda>x. case x of None \<Rightarrow> lraise notFound | Some y \<Rightarrow> lret (Some y)))
        (\<lambda>r s. \<exists>y. r = Some y \<and> oId y = oId x) (\<lambda>_ _. False)" for f
    proof (cases "\<exists>r. f = Some r \<and> idFingerprint r = ?fp \<and> idResourceId r = oId x")
      case True
      then show ?thesis using lr.rg_pre [OF inner] by auto
    qed (auto intro!: lr.rg_false)
  qed
qed


lemma lbind_Inr: "lbind (llift (Inr x)) f = f x"
  by (simp add: fun_eq_iff lbind_def llift_def lret_def)

lemma create_known:
  assumes inv: "store_inv s" and x: "oStatus x = OCreated" "0 \<le> oTotalSats x" "oTotalSats x \<le> MAX_SATS"
    and k: "truthy key = Some k"
    and c: "memCreateOrder x (idemRecord (''order:'' @ product_name (coProduct clean)) key
              (fingerprint sv (order_input_json clean)) OrderResource (oId x)) s = Inr t"
  shows "ledger_rely s t \<and> store_inv t \<and> known_order sv clean k x t"
  using order_create [OF inv x c] k
  by (auto simp: idemRecord_def known_order_def order_key_def intro!: exI)

lemma rg_createOrder_known:
  assumes v: "validateOrderInput j = Inr clean" and k: "truthy (ccIdempotencyKey ctx) = Some k"
  shows "lr.rg store_inv (createOrder n sv j ctx) (\<lambda>xc s. store_inv s \<and> known_order sv clean k (fst xc) s) any_error"
proof (induction n)
  case 0
  show ?case by (simp add: lr.rg_raise)
next
  case (Suc n)
  let ?Q = "\<lambda>xc s. store_inv s \<and> known_order sv clean k (fst xc) s"
  let ?W = "\<lambda>x r s. case r of None \<Rightarrow> ?Q (x, True) s | Some xc \<Rightarrow> ?Q xc s"
  have again: "lr.rg store_inv (lbind (createOrder n sv j ctx) (\<lambda>r. lret (Some r))) (?W x) any_error" for x
    by (rule lr.rg_bind [OF Suc]) (rule lr.rg_ret, simp)
  have store: "lr.rg store_inv (ltry (lbind (store_write (\<lambda>st. emap (\<lambda>st'. (st', ())) (memCreateOrder x
          (idemRecord (''order:'' @ product_name (coProduct clean)) (ccIdempotencyKey ctx)
             (fingerprint sv (order_input_json clean)) OrderResource (oId x)) st))) (\<lambda>_. lret None))
        (\<lambda>e. if error_code e = Some ''idempotency_conflict'' \<and> truthy (ccIdempotencyKey ctx) \<noteq> None
           then lbind (createOrder n sv j ctx) (\<lambda>r. lret (Some r)) else lraise e)) (?W x) any_error"
    if x: "oStatus x = OCreated" "0 \<le> oTotalSats x" "oTotalSats x \<le> MAX_SATS" for x
  proof (rule lr.rg_try [where F = "\<lambda>_. store_inv"])
    show "lr.rg store_inv (lbind (store_write (\<lambda>st. emap (\<lambda>st'. (st', ())) (memCreateOrder x
          (idemRecord (''order:'' @ product_name (coProduct clean)) (ccIdempotencyKey ctx)
             (fingerprint sv (order_input_json clean)) OrderResource (oId x)) st))) (\<lambda>_. lret None)) (?W x) (\<lambda>_. store_inv)"
    proof (rule lr.bind_write [where Q = "\<lambda>_. ?Q (x, True)", OF stable_inv])
      fix s t u
      assume s: "store_inv s" and "emap (\<lambda>st'. (st', ())) (memCreateOrder x
          (idemRecord (''order:'' @ product_name (coProduct clean)) (ccIdempotencyKey ctx)
             (fingerprint sv (order_input_json clean)) OrderResource (oId x)) s) = Inr (t, u)"
      then have "memCreateOrder x (idemRecord (''order:'' @ product_name (coProduct clean)) (ccIdempotencyKey ctx)
             (fingerprint sv (order_input_json clean)) OrderResource (oId x)) s = Inr t"
        by (auto simp: emap_def ebind_eq_Inr)
      from create_known [OF s x k this] show "ledger_rely s t \<and> ?Q (x, True) t" by simp
    qed (simp_all add: lr.rg_ret)
  qed (intro lr.rg_if again lr.rg_raise, simp)
  have emit: "lr.rg (?W x r) (case r of Some y \<Rightarrow> lret y
      | None \<Rightarrow> lbind (emitOrder sv x None None) (\<lambda>_. lret (x, True))) ?Q any_error" for x r
    by (cases r) (auto intro!: lr.rg_ret lr.bind_emitOrder lr.stable_conj stable_inv stable_known)
  have fresh: "lr.rg store_inv (lbind get_now (\<lambda>now. lbind (newId sv) (\<lambda>i.
          let order = new_order clean i (toISOString now) in
          lbind (llift (assertSats (oTotalSats order))) (\<lambda>_.
          lbind (ltry
              (lbind (store_write (\<lambda>st. emap (\<lambda>st'. (st', ()))
                   (memCreateOrder order (idemRecord (''order:'' @ product_name (coProduct clean)) (ccIdempotencyKey ctx)
                      (fingerprint sv (order_input_json clean)) OrderResource (oId order)) st))) (\<lambda>_. lret None))
              (\<lambda>e. if error_code e = Some ''idempotency_conflict'' \<and> truthy (ccIdempotencyKey ctx) \<noteq> None
                   then lbind (createOrder n sv j ctx) (\<lambda>r. lret (Some r)) else lraise e))
            (\<lambda>winner. case winner of Some r \<Rightarrow> lret r
              | None \<Rightarrow> lbind (emitOrder sv order None None) (\<lambda>_. lret (order, True))))))) ?Q any_error"
    unfolding Let_def
    by (intro lr.bind_now lr.bind_newId lr.bind_lift lr.rg_bind [OF store emit]) (auto dest: new_order_ok)
  have replay: "lr.rg (\<lambda>s. store_inv s \<and> (\<forall>x. r = Some x \<longrightarrow> known_order sv clean k x s))
      (case r of Some x \<Rightarrow> lret (x, False) | None \<Rightarrow> m) ?Q any_error" if "lr.rg store_inv m ?Q any_error" for r m
    using that by (cases r) (auto intro!: lr.rg_ret)
  show ?case
    unfolding createOrder.simps v lbind_Inr Let_def
    by (intro lr.rg_if lr.rg_raise lr.rg_bind [OF rg_replay_found [OF k] replay] fresh [unfolded Let_def]) simp
qed

text \<open>
  What a call leaves behind that writes nothing: the store is what the writes interleaved by others made of it, and no
  identifier was drawn, no event sent or dropped, and no provider asked.
\<close>

definition only_others :: "'w Ledger \<Rightarrow> 'w Ledger \<Rightarrow> bool" where
  "only_others w w' \<longleftrightarrow>
     (\<exists>k \<le> length (lgSched w). lgSched w' = drop k (lgSched w) \<and> lgStore w' = fold snd (take k (lgSched w)) (lgStore w))
   \<and> lgIds w' = lgIds w \<and> lgEvents w' = lgEvents w \<and> lgDropped w' = lgDropped w \<and> lgWorld w' = lgWorld w"

definition quiet :: "('w, 'a) lg \<Rightarrow> bool" where "quiet m \<longleftrightarrow> (\<forall>w. only_others w (snd (m w)))"

lemma only_others_refl: "only_others w w"
  by (auto simp: only_others_def intro: exI [of _ 0])

lemma only_others_trans:
  assumes "only_others w u" and "only_others u v"
  shows "only_others w v"
proof -
  obtain k where k: "k \<le> length (lgSched w)" "lgSched u = drop k (lgSched w)" "lgStore u = fold snd (take k (lgSched w)) (lgStore w)"
    using assms(1) by (auto simp: only_others_def)
  obtain l where l: "l \<le> length (lgSched u)" "lgSched v = drop l (lgSched u)" "lgStore v = fold snd (take l (lgSched u)) (lgStore u)"
    using assms(2) by (auto simp: only_others_def)
  have "lgSched v = drop (k + l) (lgSched w) \<and> lgStore v = fold snd (take (k + l) (lgSched w)) (lgStore w)"
    using k(2,3) l(2,3) by (simp add: take_add add.commute)
  moreover have "k + l \<le> length (lgSched w)" using k(1,2) l(1) by simp
  ultimately show ?thesis using assms unfolding only_others_def by metis
qed

lemma quiet_bind: "quiet m \<Longrightarrow> (\<And>x. quiet (f x)) \<Longrightarrow> quiet (lbind m f)"
  unfolding quiet_def lbind_def by (auto split: prod.split sum.split) (metis only_others_trans snd_conv)+

lemma quiet_ret: "quiet (lret x)" "quiet (lraise e)"
  by (simp_all add: quiet_def lret_def lraise_def only_others_refl)

lemma quiet_read: "quiet (store_read g)"
proof -
  have "quiet pause"
    by (auto simp: quiet_def pause_def only_others_def intro: exI [of _ 0] exI [of _ 1] split: list.split)
  then show ?thesis
    unfolding store_read_def by (rule quiet_bind) (simp add: quiet_def only_others_refl)
qed

lemma lbind_step: "m w = (Inr x, u) \<Longrightarrow> lbind m f w = f x u"
  by (simp add: lbind_def)

lemma quiet_replay: "quiet (idem_replay scope key fp get)"
  by (auto simp: idem_replay_def intro!: quiet_bind quiet_read quiet_ret split: option.split)

text \<open>
  C13: a retried order is created once. When \<open>createOrder\<close> has answered a request that carries an idempotency
  key, the same request answers with the same order from then on and creates nothing, whatever calls and writes
  came in between and whatever happens while it runs: the store it leaves is the one the writes of others made, it draws
  no identifier and sends no event. It does not fail either.
\<close>

theorem createOrder_retry_returns_same_order:
  assumes "store_inv (lgStore w)" and "well_behaved w" and "truthy (ccIdempotencyKey ctx) = Some k"
    and "createOrder 2 sv j ctx w = (Inr (x, c), w1)"
    and "ledger_rely (lgStore w1) (lgStore w2)" and "well_behaved w2" and "createOrder 2 sv j ctx w2 = (r, w3)"
  shows "\<exists>y. r = Inr (y, False) \<and> oId y = oId x \<and> only_others w2 w3"
proof -
  have ok: "lr.sched_ok w" "lr.sched_ok w2" using assms(2,6) by (simp_all add: lr.sched_ok_def well_behaved_def)
  obtain clean where v: "validateOrderInput j = Inr clean"
    using assms(4) by (cases "validateOrderInput j") (auto simp: numeral_2_eq_2 lbind_def llift_def lraise_def)
  have p: "ccProduct ctx = None \<or> ccProduct ctx = Some (coProduct clean)"
    using assms(4) by (auto simp: numeral_2_eq_2 v lbind_Inr lraise_def split: if_splits)
  have "store_inv (lgStore w1) \<and> known_order sv clean k x (lgStore w1)"
    using lr.rgD [OF rg_createOrder_known [OF v assms(3)] ok(1) assms(1,4)] by simp
  then have s: "store_inv (lgStore w2) \<and> known_order sv clean k x (lgStore w2)"
    using lr.stableD [OF stable_inv _ assms(5)] lr.stableD [OF stable_known _ assms(5)] by blast
  let ?m = "idem_replay (''order:'' @ product_name (coProduct clean)) (ccIdempotencyKey ctx)
      (fingerprint sv (order_input_json clean)) memGetOrder"
  obtain q u where u: "?m w2 = (q, u)" by fastforce
  then obtain y where y: "q = Inr (Some y)" "oId y = oId x"
    using lr.rgD [OF rg_replay_known [OF assms(3)] ok(2) s u] by (cases q) auto
  have "only_others w2 u" using quiet_replay [unfolded quiet_def, rule_format] u by (metis snd_conv)
  moreover have "r = Inr (y, False) \<and> w3 = u"
    using assms(7) p u y(1) by (auto simp: numeral_2_eq_2 v lbind_Inr Let_def lbind_step lret_def)
  ultimately show ?thesis using y(2) by blast
qed

definition keyed_caller :: CallerContext where
  "keyed_caller = \<lparr>ccProduct = Some Scribbit, ccIdempotencyKey = Some ''key-1''\<rparr>"

lemma ex_createOrder:
  "\<exists>x w. createOrder 2 ex_service (order_input_json example_clean) keyed_caller (ex_ledger empty_store) = (Inr (x, True), w)"
proof -
  have v: "validateOrderInput (order_input_json example_clean) = Inr example_clean"
    by (rule validate_json)
       (simp add: valid_order_input_def example_clean_def valid_line_item_def valid_metadata_def valid_pair_def MAX_SATS_def)
  have x: "oTotalSats (new_order example_clean i t) = 1000 \<and> oCustomerRef (new_order example_clean i t) = ''c1'' \<and>
      oId (new_order example_clean i t) = ''ord_'' @ i \<and> oUpdatedAt (new_order example_clean i t) = t" for i t
    by (simp add: new_order_def example_clean_def)
  have m: "assertSats 1000 = Inr 1000" "sats_range 1000" by (simp_all add: assertSats_def sats_range_def MAX_SATS_def)
  have p: "coProduct example_clean = Scribbit" by (simp add: example_clean_def)
  show ?thesis
    by (simp add: numeral_2_eq_2 v lbind_Inr keyed_caller_def p)
       (simp add: idem_replay_def run_simps memFindIdempotency_def empty_store_def x m iso_zero ex_emitOrder
         memCreateOrder_def putIdem_def emap_def ebind_def idemRecord_def)
qed

theorem createOrder_retry_returns_same_order_witness:
  "\<exists>x w y. createOrder 2 ex_service (order_input_json example_clean) keyed_caller (ex_ledger empty_store) = (Inr (x, True), w) \<and>
     fst (createOrder 2 ex_service (order_input_json example_clean) keyed_caller w) = Inr (y, False) \<and> oId y = oId x"
proof -
  obtain x w where x: "createOrder 2 ex_service (order_input_json example_clean) keyed_caller (ex_ledger empty_store) = (Inr (x, True), w)"
    using ex_createOrder by blast
  have k: "truthy (ccIdempotencyKey keyed_caller) = Some ''key-1''" by (simp add: keyed_caller_def)
  have "store_inv (lgStore (ex_ledger empty_store))" by (simp add: empty_store_inv)
  note first = this ex_ledger_ok(1) k x
  have ok: "lr.sched_ok (ex_ledger empty_store)" by (simp add: lr.sched_ok_def)
  have "lr.sched_ok w" using lr.rgD [OF rg_createOrder ok first(1) x] by simp
  then have "well_behaved w" by (simp add: lr.sched_ok_def well_behaved_def)
  from createOrder_retry_returns_same_order [OF first lr.R_refl this prod.collapse [symmetric]] x
  show ?thesis by blast
qed

subsection \<open>Lost races\<close>

lemma emapM_Inl: "emapM f xs = Inl e \<Longrightarrow> \<exists>x \<in> set xs. f x = Inl e"
  by (induction xs) (auto simp: ebind_def split: sum.splits)

lemma validate_not_fuel: "validateOrderInput j \<noteq> Inl OutOfFuel"
proof -
  have l: "line_item_of x \<noteq> Inl OutOfFuel" for x
    by (auto simp: line_item_of_def invalid_def split: option.splits json.splits sum.splits)
  have e: "metadata_entry x \<noteq> Inl OutOfFuel" for x
    by (auto simp: metadata_entry_def invalid_def split: option.splits json.splits)
  have m: "metadata_of x \<noteq> Inl OutOfFuel" for x
    using e by (auto simp: metadata_of_def invalid_def ebind_def split: option.splits json.splits sum.splits dest: emapM_Inl)
  show ?thesis
    using l m by (auto simp: validateOrderInput_def invalid_def ebind_def split: option.splits json.splits sum.splits dest: emapM_Inl)
qed

lemma rg_replay_no_fuel:
  "lr.rg (\<lambda>s. store_inv s \<and> P s) (idem_replay scope key fp get) (\<lambda>_. store_inv) (\<lambda>e _. e \<noteq> OutOfFuel)" if "lr.stable P"
proof -
  have st: "lr.stable (\<lambda>s. store_inv s \<and> P s)" by (intro lr.stable_conj stable_inv that)
  show ?thesis
    unfolding idem_replay_def
    by (intro lr.rg_option lr.rg_ret lr.bind_read [where Q = "\<lambda>_ s. store_inv s \<and> P s"] st lr.rg_if lr.rg_raise)
       (auto simp: notFound_def)
qed

lemma rg_replay_hits:
  assumes "truthy key = Some k"
  shows "lr.rg (\<lambda>s. store_inv s \<and> (\<exists>r. has_idem (joined_key scope k) r s)) (idem_replay scope key fp get)
     (\<lambda>x s. store_inv s \<and> x \<noteq> None) (\<lambda>e _. e \<noteq> OutOfFuel)"
proof -
  let ?P = "\<lambda>s. store_inv s \<and> (\<exists>r. has_idem (joined_key scope k) r s)"
  have st: "lr.stable ?P" using stable_ex_idem [where P = "\<lambda>_. True"] by (intro lr.stable_conj stable_inv) simp
  have inner: "lr.rg store_inv (lbind (store_read (\<lambda>st. get st i)) (\<lambda>x. case x of None \<Rightarrow> lraise notFound | Some y \<Rightarrow> lret (Some y)))
      (\<lambda>x s. store_inv s \<and> x \<noteq> None) (\<lambda>e _. e \<noteq> OutOfFuel)" for i
    by (rule lr.bind_read [where Q = "\<lambda>_. store_inv"])
       (auto intro!: stable_inv lr.rg_option lr.rg_raise lr.rg_ret simp: notFound_def)
  have "lr.rg (\<lambda>s. ?P s \<and> f \<noteq> None)
      (case f of None \<Rightarrow> lret None
      | Some r \<Rightarrow> if idFingerprint r \<noteq> fp then lraise (LedgerError 422 ''idempotency_conflict'')
        else lbind (store_read (\<lambda>st. get st (idResourceId r))) (\<lambda>x. case x of None \<Rightarrow> lraise notFound | Some y \<Rightarrow> lret (Some y)))
      (\<lambda>x s. store_inv s \<and> x \<noteq> None) (\<lambda>e _. e \<noteq> OutOfFuel)" for f
    by (cases f) (simp add: lr.rg_false, auto intro!: lr.rg_if lr.rg_raise lr.rg_pre [OF inner [simplified]])
  then show ?thesis
    unfolding idem_replay_def assms option.case
    by (intro lr.bind_read [where Q = "\<lambda>f s. ?P s \<and> f \<noteq> None"] st) (auto simp: memFindIdempotency_def has_idem_def)
qed

lemma rg_createOrder_recorded:
  assumes v: "validateOrderInput j = Inr clean" and k: "truthy (ccIdempotencyKey ctx) = Some k"
  shows "lr.rg (\<lambda>s. store_inv s \<and> (\<exists>r. has_idem (order_key clean k) r s)) (createOrder (Suc n) sv j ctx)
     (\<lambda>_. store_inv) (\<lambda>e _. e \<noteq> OutOfFuel)"
proof -
  have "lr.rg (\<lambda>s. store_inv s \<and> x \<noteq> None) (case x of Some y \<Rightarrow> lret (y, False) | None \<Rightarrow> m)
      (\<lambda>_. store_inv) (\<lambda>e _. e \<noteq> OutOfFuel)" for x :: "Order option" and m
    by (cases x) (simp_all add: lr.rg_ret lr.rg_false)
  note b = lr.rg_bind [OF rg_replay_hits [OF k] this]
  show ?thesis
    unfolding createOrder.simps v lbind_Inr Let_def order_key_def
    by (intro lr.rg_if lr.rg_raise b) simp
qed

text \<open>\<open>memCreateOrder\<close> reports a conflict only when the key is recorded.\<close>

lemma create_conflict:
  "memCreateOrder x (idemRecord scope key fp ty i) s = Inl e \<Longrightarrow>
   e \<noteq> OutOfFuel \<and> (error_code e = Some ''idempotency_conflict'' \<longrightarrow>
     (\<forall>k. truthy key = Some k \<longrightarrow> (\<exists>r. has_idem (joined_key scope k) r s)))"
  by (auto simp: memCreateOrder_def putIdem_def idemRecord_def error_code_def has_idem_def ebind_def Let_def
      split: if_splits option.splits sum.splits)

lemma new_order_created [simp]: "oStatus (new_order c i t) = OCreated"
  by (simp add: new_order_def)

lemma rg_createOrder_fuel:
  "lr.rg store_inv (createOrder (Suc (Suc n)) sv j ctx) (\<lambda>_. store_inv) (\<lambda>e _. e \<noteq> OutOfFuel)"
proof (cases "validateOrderInput j")
  case (Inl e)
  then show ?thesis using validate_not_fuel [of j]
    by (simp add: createOrder.simps(2) [of "Suc n"] del: createOrder.simps) (intro lr.bind_lift, auto)
next
  case (Inr clean)
  let ?E = "\<lambda>e _ :: MemoryOrderStore. e \<noteq> OutOfFuel"
  let ?scope = "''order:'' @ product_name (coProduct clean)"
  let ?key = "ccIdempotencyKey ctx"
  let ?idem = "idemRecord ?scope ?key (fingerprint sv (order_input_json clean)) OrderResource"
  let ?F = "\<lambda>e s. store_inv s \<and> e \<noteq> OutOfFuel \<and> (error_code e = Some ''idempotency_conflict'' \<longrightarrow>
     (\<forall>k. truthy ?key = Some k \<longrightarrow> (\<exists>r. has_idem (order_key clean k) r s)))"
  let ?h = "\<lambda>e. if error_code e = Some ''idempotency_conflict'' \<and> truthy ?key \<noteq> None
     then lbind (createOrder (Suc n) sv j ctx) (\<lambda>r. lret (Some r)) else lraise e"
  have again: "lr.rg (?F e) (?h e) (\<lambda>_. store_inv) ?E" for e
  proof (cases "error_code e = Some ''idempotency_conflict'' \<and> truthy ?key \<noteq> None")
    case True
    then obtain k where k: "truthy ?key = Some k" by blast
    have "lr.rg (?F e) (createOrder (Suc n) sv j ctx) (\<lambda>_. store_inv) ?E"
      by (rule lr.rg_pre [OF rg_createOrder_recorded [OF Inr k]]) (use True k in auto)
    then show ?thesis using True by (auto intro!: lr.rg_bind lr.rg_ret simp del: createOrder.simps)
  next
    case False
    then show ?thesis by (auto intro!: lr.rg_raise)
  qed
  have store: "lr.rg store_inv (ltry (lbind (store_write (\<lambda>st. emap (\<lambda>st'. (st', ()))
        (memCreateOrder x (?idem (oId x)) st))) (\<lambda>_. lret None)) ?h) (\<lambda>_. store_inv) ?E"
    if x: "oStatus x = OCreated" "0 \<le> oTotalSats x" "oTotalSats x \<le> MAX_SATS" for x
  proof (rule lr.rg_try [OF _ again])
    show "lr.rg store_inv (lbind (store_write (\<lambda>st. emap (\<lambda>st'. (st', ()))
        (memCreateOrder x (?idem (oId x)) st))) (\<lambda>_. lret None)) (\<lambda>_. store_inv) ?F"
    proof (rule lr.bind_write [where Q = "\<lambda>_. store_inv", OF stable_inv])
      fix s t u
      assume "store_inv s" "emap (\<lambda>st'. (st', ())) (memCreateOrder x (?idem (oId x)) s) = Inr (t, u)"
      then show "ledger_rely s t \<and> store_inv t"
        using order_create [OF _ x] by (auto simp: emap_def ebind_eq_Inr)
    next
      fix s e
      assume s: "store_inv s" and "emap (\<lambda>st'. (st', ())) (memCreateOrder x (?idem (oId x)) s) = Inl e"
      then have "memCreateOrder x (?idem (oId x)) s = Inl e" by (auto simp: emap_def ebind_def split: sum.splits)
      from create_conflict [OF this] s show "?F e s" by (simp add: order_key_def)
    qed (auto intro: lr.rg_ret)
  qed
  have emit: "lr.rg store_inv (case r of Some y \<Rightarrow> lret y
      | None \<Rightarrow> lbind (emitOrder sv x None None) (\<lambda>_. lret (x, True))) (\<lambda>_. store_inv) ?E" for x r
    by (cases r) (auto intro!: lr.rg_ret lr.bind_emitOrder stable_inv)
  have replay: "lr.rg store_inv (idem_replay scope key fp get) (\<lambda>_. store_inv) ?E" for scope key fp get
    using rg_replay_no_fuel [OF lr.stable_True [of True], of scope key fp get] by simp
  show ?thesis
    unfolding createOrder.simps(2) [of "Suc n"] Inr lbind_Inr Let_def
    by (intro lr.rg_if lr.rg_raise lr.rg_bind [OF replay] lr.rg_option lr.bind_now lr.bind_newId lr.bind_lift
        lr.rg_bind [OF store emit] lr.rg_ret) (auto dest: new_order_ok simp: assertSats_def split: if_splits)
qed

text \<open>
  C14: losing the race for an idempotency key costs one retry. The call that \<open>createOrder\<close> makes to itself never
  makes a further one: the recursion ends within two levels, whatever else writes to the store meanwhile.
\<close>

theorem createOrder_retries_once:
  assumes "store_inv (lgStore w)" and "well_behaved w"
  shows "fst (createOrder 2 sv j ctx w) \<noteq> Inl OutOfFuel"
proof -
  have ok: "lr.sched_ok w" using assms(2) by (simp add: lr.sched_ok_def well_behaved_def)
  obtain r w' where c: "createOrder (Suc (Suc 0)) sv j ctx w = (r, w')" by fastforce
  from lr.rgD [OF rg_createOrder_fuel ok assms(1) c] have "r \<noteq> Inl OutOfFuel" by (cases r) auto
  with c show ?thesis by (simp add: numeral_2_eq_2 del: createOrder.simps)
qed

theorem createOrder_retries_once_witness:
  "fst (createOrder 2 ex_service JNull keyed_caller (ex_ledger ex_store)) \<noteq> Inl OutOfFuel"
  by (rule createOrder_retries_once) (simp_all add: ex_store_inv ex_ledger_ok)

subsection \<open>Replayed webhooks\<close>

definition delivered :: "string \<Rightarrow> string \<Rightarrow> MemoryOrderStore \<Rightarrow> bool" where
  "delivered provider d s \<longleftrightarrow> joined_key provider d \<in> set (stDeliveries s)"

lemma stable_delivered: "lr.stable (delivered provider d)"
  by (auto simp: lr.stable_def delivered_def ledger_rely_def)

text \<open>The provider's parser authenticates the request as \<open>hook\<close> and leaves the ledger alone.\<close>

definition parses :: "'w PaymentProvider \<Rightarrow> string \<Rightarrow> headers \<Rightarrow> ProviderWebhook \<Rightarrow> bool" where
  "parses p body hs hook \<longleftrightarrow> (\<exists>parse. prParseWebhook p = Some parse \<and> (\<forall>t w. parse body hs t w = (Inr hook, w)))"

lemma record_delivery:
  assumes "store_inv s" and "memRecordWebhookDelivery a d s = (fresh, t)"
  shows "ledger_rely s t \<and> store_inv t \<and> delivered a d t \<and> fresh = (\<not> delivered a d s)"
  using deliveries_write [OF assms] assms(2)
  by (auto simp: memRecordWebhookDelivery_def delivered_def Let_def split: if_splits)

lemma rg_delivery:
  assumes "service_ok sv" and p: "provider_named sv n = Some p" and h: "parses p body hs hook"
  shows "lr.rg store_inv (handleWebhook sv n body hs) (\<lambda>_. delivered (prName p) (whDeliveryId hook))
     (\<lambda>_. delivered (prName p) (whDeliveryId hook))"
proof -
  let ?D = "delivered (prName p) (whDeliveryId hook)"
  obtain parse where parse: "prParseWebhook p = Some parse" "\<And>t w. parse body hs t w = (Inr hook, w)"
    using h unfolding parses_def by blast
  have rp: "lr.rg store_inv (parse body hs t) (\<lambda>x s. x = hook \<and> store_inv s) (\<lambda>_. ?D)" for t
    by (rule lr.rgI) (auto simp: parse(2) lr.R_refl)
  have pw: "lr.rg (\<lambda>s. store_inv s \<and> ?D s) (process_webhook sv p hook t q) (\<lambda>_. ?D) (\<lambda>_. ?D)" for t q
    by (rule lr.rg_weaken [OF lr.rg_frame [OF rg_process_webhook stable_delivered]])
       (use provider_named_ok [OF assms(1) p] in auto)
  have st: "lr.stable (\<lambda>s. store_inv s \<and> ?D s)" by (intro lr.stable_conj stable_inv stable_delivered)
  have after: "lr.rg (\<lambda>s. store_inv s \<and> ?D s) (if \<not> fresh then lret (webhook_result True False hook (Some ''replay''))
      else lbind (store_read (memFindPaymentByProviderRef (prName p) (whProviderRef hook))) (\<lambda>found.
        case found of None \<Rightarrow> lret (webhook_result False False hook (Some ''unknown_reference''))
        | Some q \<Rightarrow> process_webhook sv p hook t q)) (\<lambda>_. ?D) (\<lambda>_. ?D)" for fresh t
    by (intro lr.rg_if lr.rg_ret lr.bind_read [where Q = "\<lambda>_ s. store_inv s \<and> ?D s"] st lr.rg_option pw) auto
  have w: "ledger_rely s t \<and> store_inv t \<and> ?D t"
    if "store_inv s" "(let (fresh, st') = memRecordWebhookDelivery (prName p) (whDeliveryId hook) s in Inr (st', fresh)) = Inr (t, u)" for s t u
    using record_delivery [OF that(1)] that(2) by (auto split: prod.splits)
  have rec: "lr.rg (\<lambda>s. x = hook \<and> store_inv s)
      (lbind (store_write (\<lambda>st. let (fresh, st') = memRecordWebhookDelivery (prName p) (whDeliveryId x) st in Inr (st', fresh)))
        (\<lambda>fresh. if \<not> fresh then lret (webhook_result True False x (Some ''replay''))
           else lbind (store_read (memFindPaymentByProviderRef (prName p) (whProviderRef x))) (\<lambda>found.
             case found of None \<Rightarrow> lret (webhook_result False False x (Some ''unknown_reference''))
             | Some q \<Rightarrow> process_webhook sv p x t q))) (\<lambda>_. ?D) (\<lambda>_. ?D)" for x t
  proof (cases "x = hook")
    case True
    show ?thesis unfolding True
      by (rule lr.rg_pre [OF lr.bind_write [where Q = "\<lambda>_ s. store_inv s \<and> ?D s", OF stable_inv w _ after]])
         (auto simp: Let_def split: prod.splits)
  qed (simp add: lr.rg_false)
  show ?thesis
    unfolding handleWebhook_def p parse(1) option.case
    by (intro lr.bind_now lr.bind_pause stable_inv lr.rg_bind [OF rp rec])
qed

lemma rg_redelivery:
  assumes p: "provider_named sv n = Some p" and h: "parses p body hs hook"
  shows "lr.rg (\<lambda>s. store_inv s \<and> delivered (prName p) (whDeliveryId hook) s) (handleWebhook sv n body hs)
     (\<lambda>r _. r = webhook_result True False hook (Some ''replay'')) (\<lambda>_ _. False)"
proof -
  let ?P = "\<lambda>s. store_inv s \<and> delivered (prName p) (whDeliveryId hook) s"
  obtain parse where parse: "prParseWebhook p = Some parse" "\<And>t w. parse body hs t w = (Inr hook, w)"
    using h unfolding parses_def by blast
  have st: "lr.stable ?P" by (intro lr.stable_conj stable_inv stable_delivered)
  have rp: "lr.rg ?P (parse body hs t) (\<lambda>x s. x = hook \<and> ?P s) (\<lambda>_ _. False)" for t
    by (rule lr.rgI) (auto simp: parse(2) lr.R_refl)
  have rec: "lr.rg (\<lambda>s. x = hook \<and> ?P s)
      (lbind (store_write (\<lambda>st. let (fresh, st') = memRecordWebhookDelivery (prName p) (whDeliveryId x) st in Inr (st', fresh)))
        (\<lambda>fresh. if \<not> fresh then lret (webhook_result True False x (Some ''replay'')) else k fresh))
      (\<lambda>r _. r = webhook_result True False hook (Some ''replay'')) (\<lambda>_ _. False)" for x k
  proof (cases "x = hook")
    case True
    have w: "ledger_rely s t \<and> \<not> u"
      if "?P s" "(let (fresh, st') = memRecordWebhookDelivery (prName p) (whDeliveryId hook) s in Inr (st', fresh)) = Inr (t, u)" for s t u
      using record_delivery [of s] that by (auto split: prod.splits)
    have "lr.rg (\<lambda>_. \<not> fresh) (if \<not> fresh then lret (webhook_result True False hook (Some ''replay'')) else k fresh)
        (\<lambda>r _. r = webhook_result True False hook (Some ''replay'')) (\<lambda>_ _. False)" for fresh
      by (cases fresh) (simp_all add: lr.rg_ret lr.rg_false)
    then show ?thesis unfolding True
      by (intro lr.rg_pre [OF lr.bind_write [where Q = "\<lambda>fresh _. \<not> fresh", OF st w]])
         (auto simp: Let_def split: prod.splits)
  qed (simp add: lr.rg_false)
  show ?thesis
    unfolding handleWebhook_def p parse(1) option.case
    by (intro lr.bind_now lr.bind_pause st lr.rg_bind [OF rp rec])
qed

text \<open>
  C15: a webhook delivery takes effect at most once. After a delivery has been handled, with any outcome, another
  one with the same delivery id from the same provider is answered as a replay and, left alone, changes nothing,
  whatever happened in between. A delivery whose handling failed is used up as well.
\<close>

theorem webhook_applied_once:
  assumes "service_ok sv" and "provider_named sv n = Some p"
    and "parses p body hs hook" and "parses p body' hs' hook'" and "whDeliveryId hook' = whDeliveryId hook"
    and "store_inv (lgStore w)" and "well_behaved w" and "handleWebhook sv n body hs w = (r, w1)"
    and "ledger_rely (lgStore w1) (lgStore w2)" and "well_behaved w2" and "handleWebhook sv n body' hs' w2 = (r', w3)"
  shows "r' = Inr (webhook_result True False hook' (Some ''replay'')) \<and> (lgSched w2 = [] \<longrightarrow> lgStore w3 = lgStore w2)"
proof -
  have ok: "lr.sched_ok w" "lr.sched_ok w2" using assms(7,10) by (simp_all add: lr.sched_ok_def well_behaved_def)
  let ?P = "\<lambda>s. store_inv s \<and> delivered (prName p) (whDeliveryId hook) s"
  from lr.rgD [OF rg_delivery [OF assms(1,2,3)] ok(1) assms(6,8)]
  have "delivered (prName p) (whDeliveryId hook) (lgStore w1)" by (cases r) auto
  moreover have "store_inv (lgStore w1)"
    using lr.rgD [OF rg_handleWebhook [OF assms(1)] ok(1) assms(6,8)] assms(6) by (auto simp: ledger_rely_def)
  ultimately have P: "?P (lgStore w2)"
    using lr.stableD [OF stable_inv _ assms(9)] lr.stableD [OF stable_delivered _ assms(9)] by blast
  then have r: "r' = Inr (webhook_result True False hook' (Some ''replay''))"
    using lr.rgD [OF rg_redelivery [OF assms(2,4)] ok(2) _ assms(11)] assms(5) by (cases r') auto
  have "lgStore w3 = lgStore w2" if "lgSched w2 = []"
    using assms(4,11) P that
    by (auto simp: parses_def handleWebhook_def assms(2,5) run_simps memRecordWebhookDelivery_def delivered_def)
  with r show ?thesis by blast
qed

definition ex_hook :: ProviderWebhook where
  "ex_hook = \<lparr>whDeliveryId = ''evt_1'', whProviderRef = ''fake-1'', whUpdate = Some (plain_update PPaid), whRefund = None,
     whEventType = ''payment.settled''\<rparr>"

definition hooked_provider :: "FakeState PaymentProvider" where
  "hooked_provider = (fake_provider ''fake'' [Onchain])\<lparr>prParseWebhook := Some (\<lambda>b h t w. (Inr ex_hook, w))\<rparr>"

definition hooked_service :: "FakeState LedgerService" where
  "hooked_service = ex_service\<lparr>svProviders := [hooked_provider]\<rparr>"

lemma hooked_ok: "service_ok hooked_service" "provider_named hooked_service ''fake'' = Some hooked_provider"
  "parses hooked_provider b h ex_hook"
proof -
  have "lr.rg store_inv (\<lambda>w. (Inr ex_hook, w)) (\<lambda>_. store_inv) any_error" by (rule lr.rgI) (auto simp: lr.R_refl)
  then show "service_ok hooked_service"
    using fake_provider_ok [of "''fake''" "[Onchain]"]
    by (auto simp: service_ok_def hooked_service_def hooked_provider_def provider_ok_def)
qed (simp_all add: provider_named_def hooked_service_def hooked_provider_def fake_provider_def parses_def)

theorem webhook_applied_once_witness:
  "\<exists>w. fst (handleWebhook hooked_service ''fake'' ''body'' [] w) = Inr (webhook_result True False ex_hook (Some ''replay''))"
proof -
  let ?m = "handleWebhook hooked_service ''fake'' ''body'' []"
  have ok: "lr.sched_ok (ex_ledger ex_store)" by (simp add: lr.sched_ok_def)
  have inv: "store_inv (lgStore (ex_ledger ex_store))" by (simp add: ex_store_inv)
  have "lr.sched_ok (snd (?m (ex_ledger ex_store)))"
    using lr.rgD [OF rg_handleWebhook [OF hooked_ok(1)] ok inv prod.collapse [symmetric]] by simp
  then have "well_behaved (snd (?m (ex_ledger ex_store)))" by (simp add: lr.sched_ok_def well_behaved_def)
  from webhook_applied_once [OF hooked_ok(1,2,3,3) refl inv ex_ledger_ok(1) prod.collapse [symmetric] lr.R_refl this prod.collapse [symmetric]]
  show ?thesis by blast
qed

end
