(* ===== verification/LedgerMoney.thy ===== *)
theory LedgerMoney imports LedgerReplay begin

text \<open>
  What the ledger does with money: the confirmation policy of the on-chain provider against a reference
  definition, the amount a refund request comes to, the worker's report, callers of other products; and two runs
  in which a payment is refunded more than was paid.
\<close>

subsection \<open>The confirmation policy\<close>

text \<open>A transaction that counts: it pays the address and is not an unconfirmed replaceable one.\<close>

definition counts :: "OnchainInput \<Rightarrow> ChainTx \<Rightarrow> bool" where
  "counts inp tx \<longleftrightarrow> 0 < paid_to (oiAddress inp) tx \<and> (ctConfirmed tx \<or> \<not> isReplaceable tx)"

definition deep :: "OnchainInput \<Rightarrow> ChainTx \<Rightarrow> bool" where
  "deep inp tx \<longleftrightarrow> cpConfirmations (oiPolicy inp) \<le> confs_at (oiTipHeight inp) tx"

definition total_paid :: "OnchainInput \<Rightarrow> (ChainTx \<Rightarrow> bool) \<Rightarrow> int" where
  "total_paid inp P = sum_list (map (paid_to (oiAddress inp)) (filter P (oiTxs inp)))"

lemma fold_scan:
  "fold (scan_tx inp) txs sc =
     \<lparr>scCredited = scCredited sc + sum_list (map (paid_to (oiAddress inp)) (filter (\<lambda>t. counts inp t \<and> deep inp t) txs)),
      scAwaiting = scAwaiting sc + sum_list (map (paid_to (oiAddress inp)) (filter (\<lambda>t. counts inp t \<and> \<not> deep inp t) txs)),
      scReplaceable = scReplaceable sc + sum_list (map (paid_to (oiAddress inp))
        (filter (\<lambda>t. 0 < paid_to (oiAddress inp) t \<and> \<not> counts inp t) txs)),
      scTxids = scTxids sc @ map ctTxid (filter (\<lambda>t. counts inp t \<and> deep inp t) txs)\<rparr>"
proof (induction txs arbitrary: sc)
  case (Cons t txs)
  show ?case
    unfolding fold_simps comp_def Cons.IH
    by (auto simp: scan_tx_def Let_def counts_def deep_def)
qed simp

lemma sum_filter_split: "sum_list (map f (filter P xs)) =
   sum_list (map f (filter (\<lambda>x. P x \<and> Q x) xs)) + sum_list (map f (filter (\<lambda>x. P x \<and> \<not> Q x) xs))" for f :: "'a \<Rightarrow> int"
  by (induction xs) auto

lemma sum_filter_pos:
  fixes f :: "'a \<Rightarrow> int"
  assumes "\<And>x. P x \<Longrightarrow> 0 < f x"
  shows "0 \<le> sum_list (map f (filter P xs)) \<and> (0 < sum_list (map f (filter P xs)) \<longleftrightarrow> list_ex P xs)"
proof (induction xs)
  case (Cons x xs)
  then show ?case using assms [of x] by (cases "P x") (auto intro: add_pos_nonneg)
qed simp

text \<open>
  C16: the confirmation policy. An address history makes the intent paid exactly when the outputs of transactions
  that are deep enough, leaving out unconfirmed replaceable ones, come to the amount less the tolerance; the credited
  sum is that total, it is overpaid when it exceeds the amount and the other tolerance, and pending or underpaid
  otherwise.
\<close>

theorem evaluateOnchain_verdict:
  "map_option (\<lambda>ev. (puStatus ev, puAmountPaidSats ev)) (evaluateOnchain sv inp) =
     (let credited = total_paid inp (\<lambda>t. counts inp t \<and> deep inp t);
          due = oiAmountSats inp - (case cpUnderTolerance (oiPolicy inp) of None \<Rightarrow> 0 | Some t \<Rightarrow> t);
          most = oiAmountSats inp + (case cpOverTolerance (oiPolicy inp) of None \<Rightarrow> 0 | Some t \<Rightarrow> t)
      in map_option (\<lambda>st. (st, Some (JInt credited)))
        (if due \<le> credited then Some (if most < credited then POverpaid else PPaid)
         else if due \<le> total_paid inp (counts inp) then Some PPending
         else if 0 < credited then Some PUnderpaid
         else if list_ex (\<lambda>t. 0 < paid_to (oiAddress inp) t) (oiTxs inp) then Some PPending
         else if expiry_due sv (oiNow inp) (oiExpiresAt inp) then Some PExpired else None))"
proof -
  let ?p = "paid_to (oiAddress inp)"
  define c where "c = total_paid inp (\<lambda>t. counts inp t \<and> deep inp t)"
  define a where "a = total_paid inp (\<lambda>t. counts inp t \<and> \<not> deep inp t)"
  define r where "r = total_paid inp (\<lambda>t. 0 < ?p t \<and> \<not> counts inp t)"
  have sc: "scCredited (scan_txs inp) = c" "scAwaiting (scan_txs inp) = a" "scReplaceable (scan_txs inp) = r"
    by (simp_all add: scan_txs_def fold_scan c_def a_def r_def total_paid_def)
  have seen: "total_paid inp (counts inp) = c + a"
    unfolding c_def a_def total_paid_def by (rule sum_filter_split)
  have pos: "0 \<le> total_paid inp P" "0 < total_paid inp P \<longleftrightarrow> list_ex P (oiTxs inp)"
    if "\<And>t. P t \<Longrightarrow> 0 < ?p t" for P
    using sum_filter_pos [of P ?p] that unfolding total_paid_def by simp_all
  have nn: "0 \<le> c" "0 \<le> a" "0 \<le> r" unfolding c_def a_def r_def by (rule pos(1), simp add: counts_def)+
  have "0 < c \<or> 0 < a \<or> 0 < r \<longleftrightarrow> list_ex (\<lambda>t. 0 < ?p t) (oiTxs inp)"
    unfolding c_def a_def r_def by (subst (1 2 3) pos(2)) (auto simp: counts_def list_ex_iff)
  then have ex: "list_ex (\<lambda>t. 0 < ?p t) (oiTxs inp) \<longleftrightarrow> 0 < c \<or> 0 < c + a \<or> 0 < r" using nn by auto
  show ?thesis
    unfolding evaluateOnchain_def Let_def sc seen ex c_def [symmetric] by simp
qed

text \<open>
  A tolerance that reaches the amount lets an order be paid with nothing. An intent of at most the
  underpayment tolerance is reported paid from an address that has never received a transaction.
\<close>

theorem tolerance_pays_nothing:
  assumes "oiTxs inp = []" and "cpUnderTolerance (oiPolicy inp) = Some t" and "0 < oiAmountSats inp" and "oiAmountSats inp \<le> t"
    and "cpOverTolerance (oiPolicy inp) = None"
  shows "\<exists>ev. evaluateOnchain sv inp = Some ev \<and> puStatus ev = PPaid \<and> puAmountPaidSats ev = Some (JInt 0)"
  using assms by (simp add: evaluateOnchain_def scan_txs_def Let_def)

definition ex_history :: OnchainInput where
  "ex_history = \<lparr>oiAddress = ''bc1q'', oiTxs = [], oiTipHeight = 100, oiAmountSats = 500,
     oiPolicy = \<lparr>cpConfirmations = 1, cpUnderTolerance = Some 1000, cpOverTolerance = None\<rparr>, oiExpiresAt = None, oiNow = 0\<rparr>"

theorem tolerance_pays_nothing_witness:
  "\<exists>ev. evaluateOnchain ex_service ex_history = Some ev \<and> puStatus ev = PPaid \<and> puAmountPaidSats ev = Some (JInt 0)"
  by (rule tolerance_pays_nothing [where t = 1000]) (simp_all add: ex_history_def)

subsection \<open>Refund requests\<close>

text \<open>
  What a refund request comes to. \<open>refund\<close> goes on with an amount exactly when the payment is paid, overpaid
  or underpaid, the amount is positive and no more than what was paid and not yet refunded, and it is the amount
  asked for or, without one, the excess of an overpayment or all that is left.
\<close>

theorem refund_amount_iff:
  "refund_amount p input = Inr a \<longleftrightarrow>
     pyStatus p \<in> {PPaid, POverpaid, PUnderpaid} \<and> 0 < a \<and> a \<le> pyAmountPaidSats p - pyRefundedSats p \<and>
     (case riAmountSats input of
        Some v \<Rightarrow> v = JInt a \<and> a \<le> MAX_SATS
      | None \<Rightarrow> a = (if pyStatus p = POverpaid
          then min (pyAmountPaidSats p - pyRefundedSats p) (pyAmountPaidSats p - pyAmountSats p)
          else pyAmountPaidSats p - pyRefundedSats p))"
  by (auto simp: refund_amount_def Let_def ebind_eq_Inr assertSats_json_Inr split: option.splits if_splits)

subsection \<open>Callers of other products\<close>

text \<open>An order of another product than the caller's.\<close>

definition foreign_order :: "CallerContext \<Rightarrow> string \<Rightarrow> MemoryOrderStore \<Rightarrow> bool" where
  "foreign_order ctx i s \<longleftrightarrow> (\<exists>x. map_of (stOrders s) i = Some x \<and> ccProduct ctx \<notin> {None, Some (oProduct x)})"

definition foreign_payment :: "CallerContext \<Rightarrow> string \<Rightarrow> MemoryOrderStore \<Rightarrow> bool" where
  "foreign_payment ctx i s \<longleftrightarrow> (\<exists>p. map_of (stPayments s) i = Some p \<and> ccProduct ctx \<notin> {None, Some (pyProduct p)})"

lemma stable_foreign: "lr.stable (foreign_order ctx i)" "lr.stable (foreign_payment ctx j)"
  unfolding lr.stable_def foreign_order_def foreign_payment_def ledger_rely_def keeps_def order_step_def payment_step_def
  by metis+

lemma rg_foreign_order: "lr.rg (foreign_order ctx i) (getOrder i ctx) (\<lambda>_ _. False) (\<lambda>e _. e = notFound)"
  unfolding getOrder_def
proof (rule lr.bind_read [where Q = "\<lambda>f _. \<exists>x. f = Some x \<and> ccProduct ctx \<notin> {None, Some (oProduct x)}", OF stable_foreign(1)])
  show "lr.rg (\<lambda>_. \<exists>x. f = Some x \<and> ccProduct ctx \<notin> {None, Some (oProduct x)})
      (case f of None \<Rightarrow> lraise notFound
       | Some x \<Rightarrow> if ccProduct ctx \<noteq> None \<and> ccProduct ctx \<noteq> Some (oProduct x) then lraise notFound else lret x)
      (\<lambda>_ _. False) (\<lambda>e _. e = notFound)" for f
    by (cases "\<exists>x. f = Some x \<and> ccProduct ctx \<notin> {None, Some (oProduct x)}")
       (auto intro!: lr.rg_raise, simp_all add: lr.rg_false)
qed (auto simp: foreign_order_def memGetOrder_def)

lemma rg_foreign_payment: "lr.rg (foreign_payment ctx i) (getPayment i ctx) (\<lambda>_ _. False) (\<lambda>e _. e = notFound)"
  unfolding getPayment_def
proof (rule lr.bind_read [where Q = "\<lambda>f _. \<exists>x. f = Some x \<and> ccProduct ctx \<notin> {None, Some (pyProduct x)}", OF stable_foreign(2)])
  show "lr.rg (\<lambda>_. \<exists>x. f = Some x \<and> ccProduct ctx \<notin> {None, Some (pyProduct x)})
      (case f of None \<Rightarrow> lraise notFound
       | Some x \<Rightarrow> if ccProduct ctx \<noteq> None \<and> ccProduct ctx \<noteq> Some (pyProduct x) then lraise notFound else lret x)
      (\<lambda>_ _. False) (\<lambda>e _. e = notFound)" for f
    by (cases "\<exists>x. f = Some x \<and> ccProduct ctx \<notin> {None, Some (pyProduct x)}")
       (auto intro!: lr.rg_raise, simp_all add: lr.rg_false)
qed (auto simp: foreign_payment_def memGetPayment_def)

lemma rg_bind_fails: "lr.rg P m (\<lambda>_ _. False) E \<Longrightarrow> lr.rg P (lbind m f) (\<lambda>_ _. False) E"
  by (erule lr.rg_bind) (rule lr.rg_false, simp)

lemma fails_with:
  assumes "lr.rg P m (\<lambda>_ _. False) (\<lambda>e _. e = notFound)" and "well_behaved w" and "P (lgStore w)"
  shows "fst (m w) = Inl notFound"
proof -
  have "lr.sched_ok w" using assms(2) by (simp add: lr.sched_ok_def well_behaved_def)
  from lr.rgD [OF assms(1) this assms(3) prod.collapse [symmetric]] show ?thesis by (cases "fst (m w)") auto
qed

text \<open>
  A product only sees its own orders and payments. Every call of a product's key about an order or a payment of
  another product ends in \<open>not_found\<close>, whatever is written meanwhile: reading, cancelling and paying an order,
  listing its payments and refunds, reading and refunding a payment.
\<close>

theorem foreign_calls_not_found:
  assumes "well_behaved w" and "foreign_order ctx i (lgStore w)" and "foreign_payment ctx j (lgStore w)"
    and "method_of (cpMethod pay) \<noteq> None" and "cpExpiresAt pay = None"
    and "0 < length (trim (riReason input))" and "length (riReason input) \<le> MAX_STR" and "riDestination input = None"
  shows "fst (getOrder i ctx w) = Inl notFound \<and> fst (cancelOrder sv i ctx d w) = Inl notFound \<and>
     fst (listPayments sv i ctx w) = Inl notFound \<and> fst (listRefunds sv i ctx w) = Inl notFound \<and>
     fst (createPayment sv i pay ctx w) = Inl notFound \<and> fst (getPayment j ctx w) = Inl notFound \<and>
     fst (refund sv j input ctx w) = Inl notFound"
proof -
  note o = rg_foreign_order [of ctx i] and p = rg_foreign_payment [of ctx j]
  obtain m where m: "method_of (cpMethod pay) = Some m" using assms(4) by blast
  note fo = fails_with [where P = "foreign_order ctx i", OF _ assms(1,2)]
    and fp = fails_with [where P = "foreign_payment ctx j", OF _ assms(1,3)]
  have listings: "lr.rg (foreign_order ctx i) (cancelOrder sv i ctx d) (\<lambda>_ _. False) (\<lambda>e _. e = notFound)"
    "lr.rg (foreign_order ctx i) (listPayments sv i ctx) (\<lambda>_ _. False) (\<lambda>e _. e = notFound)"
    "lr.rg (foreign_order ctx i) (listRefunds sv i ctx) (\<lambda>_ _. False) (\<lambda>e _. e = notFound)"
    unfolding cancelOrder_def listPayments_def listRefunds_def by (rule rg_bind_fails [OF o])+
  have paying: "lr.rg (foreign_order ctx i) (createPayment sv i pay ctx) (\<lambda>_ _. False) (\<lambda>e _. e = notFound)"
    unfolding createPayment_def m assms(5) by (simp add: rg_bind_fails [OF o])
  have refunding: "lr.rg (foreign_payment ctx j) (refund sv j input ctx) (\<lambda>_ _. False) (\<lambda>e _. e = notFound)"
    using assms(6,7) unfolding refund_def assms(8) by (simp add: rg_bind_fails [OF p] linorder_not_less)
  show ?thesis by (intro conjI fo fp o p listings paying refunding)
qed

theorem foreign_calls_not_found_witness:
  "fst (getOrder ''ord_1'' (internal_caller\<lparr>ccProduct := Some Degent\<rparr>) (ex_ledger ex_store)) = Inl notFound"
proof -
  let ?c = "internal_caller\<lparr>ccProduct := Some Degent\<rparr>"
  let ?p = "\<lparr>cpMethod = ''card'', cpProvider = None, cpExpiresAt = None\<rparr>"
  let ?r = "\<lparr>riAmountSats = None, riReason = ''r'', riDestination = None\<rparr>"
  have f: "foreign_order ?c ''ord_1'' (lgStore (ex_ledger ex_store))" "foreign_payment ?c ''pay_1'' (lgStore (ex_ledger ex_store))"
    by (simp_all add: foreign_order_def foreign_payment_def ex_store_def ex_order_def example_payment_def)
  have t: "trim ''r'' = ''r''" by code_simp
  have m: "method_of (cpMethod ?p) \<noteq> None" by (simp add: method_of_def method_name_def)
  from foreign_calls_not_found [OF ex_ledger_ok(1) f m, of ?r] show ?thesis by (simp add: t MAX_STR_def)
qed

subsection \<open>The worker\<close>

lemma lbind_InrE:
  assumes "lbind m f w = (Inr t, w')"
  obtains x v where "m w = (Inr x, v)" "f x v = (Inr t, w')"
  using assms by (auto simp: lbind_def split: prod.splits sum.splits)

lemma store_read_value: "\<exists>v. store_read g w = (Inr (g (lgStore v)), v)"
  by (cases "lgSched w") (auto simp: store_read_def lbind_def pause_def)

lemma tick_intent_reports:
  "\<exists>t w'. tick_intent sv wk now i res w = (Inr t, w') \<and> tkPolled t \<le> tkPolled res + 1 \<and>
     tkApplied t + tkErrors t + tkPolled res \<le> tkApplied res + tkErrors res + tkPolled t"
proof (cases "skip_expired sv wk now i")
  case True
  then show ?thesis by (simp add: tick_intent_def lret_def)
next
  case False
  show ?thesis
  proof (cases "List.find (\<lambda>p. prName p = pyProvider i) (wkProviders wk)")
    case None
    with False show ?thesis by (simp add: tick_intent_def lret_def)
  next
    case (Some p)
    let ?r = "res\<lparr>tkPolled := tkPolled res + 1\<rparr>"
    let ?m = "lbind pause (\<lambda>_. lbind (prPoll p i now) (\<lambda>polled.
        case if polled = None \<and> pyStatus i = PCreated \<and> expiry_due sv now (pyExpiresAt i)
             then Some (expired_update (Some ''expired without payment'')) else polled of
          None \<Rightarrow> lret ?r
        | Some u \<Rightarrow> lbind (applyUpdate sv (pyId i) u (Some ''worker poll''))
            (\<lambda>a. lret (if apApplied a then ?r\<lparr>tkApplied := tkApplied ?r + 1\<rparr> else ?r))))"
    have m: "t = ?r \<or> t = ?r\<lparr>tkApplied := tkApplied ?r + 1\<rparr>" if "?m w = (Inr t, w')" for t w'
      using that by (elim lbind_InrE) (auto elim!: lbind_InrE simp: lret_def split: option.splits if_splits)
    obtain x w' where x: "?m w = (x, w')" by fastforce
    then have "\<exists>t w''. tick_intent sv wk now i res w = (Inr t, w'') \<and>
        (t = ?r \<or> t = ?r\<lparr>tkApplied := tkApplied ?r + 1\<rparr> \<or> t = ?r\<lparr>tkErrors := tkErrors ?r + 1\<rparr>)"
      unfolding tick_intent_def Some option.case Let_def ltry_def using False m
      by (cases x) (auto simp: lret_def)
    then show ?thesis by auto
  qed
qed

lemma tick_loop_reports:
  "\<exists>t w'. tick_loop sv wk now is res w = (Inr t, w') \<and> tkPolled t \<le> tkPolled res + length is \<and>
     tkApplied t + tkErrors t + tkPolled res \<le> tkApplied res + tkErrors res + tkPolled t"
proof (induction "is" arbitrary: res w)
  case (Cons i "is")
  obtain t w' where t: "tick_intent sv wk now i res w = (Inr t, w')" "tkPolled t \<le> tkPolled res + 1"
      "tkApplied t + tkErrors t + tkPolled res \<le> tkApplied res + tkErrors res + tkPolled t"
    using tick_intent_reports by blast
  obtain u w'' where u: "tick_loop sv wk now is t w' = (Inr u, w'')" "tkPolled u \<le> tkPolled t + length is"
      "tkApplied u + tkErrors u + tkPolled t \<le> tkApplied t + tkErrors t + tkPolled u"
    using Cons by blast
  show ?case using t u by (auto simp: lbind_def)
qed (simp add: lret_def)

text \<open>
  A tick always reports. Whatever the providers and the store do, short of failing to list the intents, a tick
  of the worker returns its counts: it polls at most one batch and every applied update and every error is one of
  the intents it polled.
\<close>

theorem tick_reports:
  "\<exists>t w'. tick sv wk w = (Inr t, w') \<and> tkApplied t + tkErrors t \<le> tkPolled t \<and>
     tkPolled t \<le> (case wkBatch wk of None \<Rightarrow> 200 | Some b \<Rightarrow> b)"
proof -
  let ?b = "case wkBatch wk of None \<Rightarrow> 200 | Some b \<Rightarrow> b"
  let ?is = "\<lambda>s. memListPaymentsByStatus (svCollate sv) OPEN ?b s"
  have len: "length (?is s) \<le> ?b" for s by (simp add: memListPaymentsByStatus_def)
  obtain v where v: "store_read ?is w = (Inr (?is (lgStore v)), v)"
    using store_read_value by blast
  obtain t w' where t: "tick_loop sv wk (lgNow w) (?is (lgStore v)) \<lparr>tkPolled = 0, tkApplied = 0, tkErrors = 0\<rparr> v = (Inr t, w')"
      "tkPolled t \<le> length (?is (lgStore v))" "tkApplied t + tkErrors t \<le> tkPolled t"
    using tick_loop_reports [of sv wk "lgNow w" "?is (lgStore v)" "\<lparr>tkPolled = 0, tkApplied = 0, tkErrors = 0\<rparr>" v] by auto
  show ?thesis
    unfolding tick_def lbind_def [of get_now] get_now_def
    using v t len [of "lgStore v"] by (auto simp: lbind_def)
qed

subsection \<open>Refunding more than was paid\<close>

definition paid_payment :: PaymentIntent where
  "paid_payment = example_payment\<lparr>pyStatus := PPaid, pyAmountPaidSats := 1000\<rparr>"

definition ex_refund :: Refund where
  "ex_refund = \<lparr>reId = ''ref_1'', rePaymentId = ''pay_1'', reOrderId = ''ord_1'', reAmountSats = 1000, reStatus = RPending,
     reReason = ''r'', reProviderRef = None, reDestination = None, reDetail = None, reCreatedAt = ''t'', reUpdatedAt = ''t''\<rparr>"

text \<open>A paid order whose payment has one pending refund, of everything.\<close>

definition refund_store :: MemoryOrderStore where
  "refund_store = ex_store\<lparr>stOrders := [(''ord_1'', ex_order\<lparr>oStatus := OPaid\<rparr>)], stPayments := [(''pay_1'', paid_payment)],
     stRefunds := [(''ref_1'', ex_refund)]\<rparr>"

lemma ex_emitPayment:
  "pyId p \<noteq> [] \<Longrightarrow> pyOrderId p \<noteq> [] \<Longrightarrow> pyProvider p \<noteq> [] \<Longrightarrow> sats_range (pyAmountSats p) \<Longrightarrow> sats_range (pyAmountPaidSats p) \<Longrightarrow>
   pyPaidAt p = None \<Longrightarrow> pyTxid p = None \<Longrightarrow> pyUpdatedAt p = ''1970-01-01T00:00:00.000Z'' \<Longrightarrow>
   emitPayment ex_service p st d w = (Inr (), w)"
  using date_zero by (simp add: emitPayment_def emit_def event_valid_def ex_service_def publish_def lret_def)

lemma sats_1000: "sats_range 1000" by (simp add: sats_range_def MAX_SATS_def)

lemmas settle_simps = run_simps settleRefundById_def settleRefund_def assertRefundTransition_def assertTransition_def
  memGetRefund_def memUpdateRefund_def memGetPayment_def memUpdatePayment_def memGetOrder_def memUpdateOrder_def
  credit_once_def credit_to_def deriveOrderStatus_def transitionOrder_def assertOrderTransition_def
  canPaymentTransition_def canOrderTransition_def iso_zero ex_emitOrder ex_emitPayment sats_1000

abbreviation settle_1 :: "(FakeState, Refund) lg" where
  "settle_1 \<equiv> settleRefundById ex_service ''ref_1'' RCompleted None"

definition settled_store :: MemoryOrderStore where
  "settled_store = refund_store\<lparr>
     stOrders := [(''ord_1'', ex_order\<lparr>oStatus := ORefunded, oUpdatedAt := ''1970-01-01T00:00:00.000Z'', oVersion := 2\<rparr>)],
     stPayments := [(''pay_1'', paid_payment\<lparr>pyRefundedSats := 1000, pyStatus := PRefunded,
       pyUpdatedAt := ''1970-01-01T00:00:00.000Z'', pyVersion := 1\<rparr>)],
     stRefunds := [(''ref_1'', ex_refund\<lparr>reStatus := RCompleted, reUpdatedAt := ''1970-01-01T00:00:00.000Z''\<rparr>)]\<rparr>"

lemma settle_alone: "\<exists>r. settle_1 (ex_ledger refund_store) = (Inr r, ex_ledger settled_store)"
  by (simp add: settle_simps refund_store_def ex_store_def ex_order_def paid_payment_def example_payment_def ex_refund_def
      empty_store_def ex_ledger_def settled_store_def numeral_3_eq_3)

text \<open>The refund is settled twice at once: the other call runs between this one's read of the refund and its write.\<close>

definition settle_race :: "FakeState Ledger" where
  "settle_race = (ex_ledger refund_store)\<lparr>lgSched := [(0, \<lambda>s. s), (0, \<lambda>s. lgStore (snd (settle_1 (ex_ledger s))))]\<rparr>"

text \<open>
  A run that shows a fault. A refund settled by two callers at once is credited twice: starting from one pending refund of
  all 1000 sat of a payment, two overlapping calls of \<open>settleRefund\<close> for that one refund both succeed and leave 2000 sat refunded
  of 1000 sat paid: the refund's own record has no version, so the second call does not notice the first.
\<close>

theorem overlapping_settlements_credit_twice:
  "\<exists>r w p. settle_1 settle_race = (Inr r, w) \<and> map_of (stPayments (lgStore w)) ''pay_1'' = Some p \<and>
     pyAmountPaidSats p = 1000 \<and> pyRefundedSats p = 2000"
proof -
  have other: "lgStore (snd (settle_1 (ex_ledger refund_store))) = settled_store"
    using settle_alone by auto
  have start: "settle_1 settle_race = settleRefund ex_service ex_refund RCompleted None
      ((ex_ledger refund_store)\<lparr>lgSched := [(0, \<lambda>s. lgStore (snd (settle_1 (ex_ledger s))))]\<rparr>)"
    unfolding settle_race_def
    by (simp add: settleRefundById_def store_read_def lbind_def pause_def memGetRefund_def ex_ledger_def refund_store_def)
  show ?thesis
    unfolding start using other
    by (simp add: settle_simps settled_store_def refund_store_def ex_store_def ex_order_def paid_payment_def
        example_payment_def ex_refund_def empty_store_def ex_ledger_def numeral_3_eq_3)
qed

text \<open>A provider that pays refunds out later, as the on-chain one does.\<close>

definition slow_ledger :: "MemoryOrderStore \<Rightarrow> FakeState Ledger" where
  "slow_ledger st = (ex_ledger st)\<lparr>lgWorld := fake_start\<lparr>fkRefundResult := \<lparr>prrStatus = RPending, prrProviderRef = None, prrDetail = None\<rparr>\<rparr>\<rparr>"

definition whole :: RefundInput where
  "whole = \<lparr>riAmountSats = None, riReason = ''r'', riDestination = None\<rparr>"

text \<open>
  A run that shows another. Pending refunds are not counted, so while refunds of a payment are pending, further ones are
  accepted for the same money: two requests for all of a payment of 1000 sat are both recorded, and once both are settled 2000 sat count as
  refunded.
\<close>

theorem pending_refunds_exceed_payment:
  "\<exists>r1 r2 w1 w2 w3 w4 p.
     refund ex_service ''pay_1'' whole internal_caller (slow_ledger (refund_store\<lparr>stRefunds := []\<rparr>)) = (Inr (r1, True), w1) \<and>
     refund ex_service ''pay_1'' whole internal_caller w1 = (Inr (r2, True), w2) \<and> reId r1 \<noteq> reId r2 \<and>
     reAmountSats r1 = 1000 \<and> reAmountSats r2 = 1000 \<and>
     settleRefundById ex_service (reId r1) RCompleted None w2 = (Inr (r1\<lparr>reStatus := RCompleted\<rparr>), w3) \<and>
     settleRefundById ex_service (reId r2) RCompleted None w3 = (Inr (r2\<lparr>reStatus := RCompleted\<rparr>), w4) \<and>
     map_of (stPayments (lgStore w4)) ''pay_1'' = Some p \<and> pyAmountPaidSats p = 1000 \<and> pyRefundedSats p = 2000"
proof -
  let ?t = "''1970-01-01T00:00:00.000Z''"
  let ?r = "\<lambda>i. ex_refund\<lparr>reId := ''ref_'' @ i, reReason := ''r'', reCreatedAt := ?t, reUpdatedAt := ?t\<rparr>"
  have d: "digits_of_nat 5 = ''5''" "digits_of_nat 6 = ''6''" by (code_simp, code_simp)
  have tr: "trim ''r'' = ''r''" by code_simp
  note defs = refund_store_def ex_store_def ex_order_def paid_payment_def example_payment_def ex_refund_def
      empty_store_def ex_ledger_def slow_ledger_def whole_def internal_caller_def fake_start_def
  let ?w1 = "(slow_ledger (refund_store\<lparr>stRefunds := [(''ref_5'', ?r ''5'')]\<rparr>))\<lparr>lgIds := 6,
     lgWorld := fkRefunds_update (\<lambda>_. [(paid_payment, ?r ''5'')]) (lgWorld (slow_ledger empty_store))\<rparr>"
  have prov: "provider_named ex_service ''fake'' = Some (fake_provider ''fake'' [Onchain, Lightning, Card])"
    "svNewId ex_service = digits_of_nat"
    by (simp_all add: provider_named_def ex_service_def fake_provider_def)
  have 1: "refund ex_service ''pay_1'' whole internal_caller (slow_ledger (refund_store\<lparr>stRefunds := []\<rparr>)) = (Inr (?r ''5'', True), ?w1)"
    by (simp add: defs run_simps refund_def tr MAX_STR_def getPayment_def memGetPayment_def idem_replay_def refund_amount_def
        prov send_refund_def new_refund_def iso_zero d memCreateRefund_def idemRecord_def putIdem_def emap_def ebind_def
        fake_provider_def fake_refund_def memUpdateRefund_def)
  let ?w2 = "(slow_ledger (refund_store\<lparr>stRefunds := [(''ref_5'', ?r ''5''), (''ref_6'', ?r ''6'')]\<rparr>))\<lparr>lgIds := 7,
     lgWorld := fkRefunds_update (\<lambda>_. [(paid_payment, ?r ''5''), (paid_payment, ?r ''6'')]) (lgWorld (slow_ledger empty_store))\<rparr>"
  have 2: "refund ex_service ''pay_1'' whole internal_caller ?w1 = (Inr (?r ''6'', True), ?w2)"
    by (simp add: defs run_simps refund_def tr MAX_STR_def getPayment_def memGetPayment_def idem_replay_def refund_amount_def
        prov send_refund_def new_refund_def iso_zero d memCreateRefund_def idemRecord_def putIdem_def emap_def ebind_def
        fake_provider_def fake_refund_def memUpdateRefund_def)
  have 3: "\<exists>w. settleRefundById ex_service ''ref_5'' RCompleted None ?w2 = (Inr (?r ''5''\<lparr>reStatus := RCompleted\<rparr>), w) \<and>
      (\<exists>w'. settleRefundById ex_service ''ref_6'' RCompleted None w = (Inr (?r ''6''\<lparr>reStatus := RCompleted\<rparr>), w') \<and>
        (\<exists>p. map_of (stPayments (lgStore w')) ''pay_1'' = Some p \<and> pyAmountPaidSats p = 1000 \<and> pyRefundedSats p = 2000))"
    by (simp add: settle_simps defs numeral_3_eq_3)
  then obtain w3 w4 p where 4: "settleRefundById ex_service ''ref_5'' RCompleted None ?w2 = (Inr (?r ''5''\<lparr>reStatus := RCompleted\<rparr>), w3)"
      "settleRefundById ex_service ''ref_6'' RCompleted None w3 = (Inr (?r ''6''\<lparr>reStatus := RCompleted\<rparr>), w4)"
      "map_of (stPayments (lgStore w4)) ''pay_1'' = Some p" "pyAmountPaidSats p = 1000" "pyRefundedSats p = 2000"
    by blast
  have i: "reId (?r ''5'') = ''ref_5''" "reId (?r ''6'') = ''ref_6''" by simp_all
  have a: "reAmountSats (?r ''5'') = 1000" "reAmountSats (?r ''6'') = 1000" by (simp_all add: ex_refund_def)
  have n: "reId (?r ''5'') \<noteq> reId (?r ''6'')" unfolding i by simp
  show ?thesis
    by (intro exI conjI, rule 1, rule 2, rule n, rule a(1), rule a(2), unfold i, rule 4(1), rule 4(2), rule 4(3), rule 4(4), rule 4(5))
qed

end
