(* ===== verification/LedgerReceipt.thy ===== *)
theory LedgerReceipt imports LedgerMoney begin

text \<open>
  \<open>receipt.ts\<close> of \<open>platform/ledger/src\<close>: receipts as records, their text, and when a receipt can be printed. Of an
  order the receipt keeps the fields the code picks; \<open>toLocaleString('en-US')\<close> groups the digits of an integer by
  thousands.
\<close>

record ReceiptPayment =
  rpId :: string
  rpMethod :: PaymentMethod
  rpProvider :: string
  rpStatus :: PaymentStatus
  rpAmountSats :: int
  rpAmountPaidSats :: int
  rpRefundedSats :: int
  rpPaidAt :: "string option"
  rpTxid :: "string option"
  rpReference :: string

record ReceiptOrder =
  roId :: string
  roProduct :: Product
  roCustomerRef :: string
  roStatus :: OrderStatus
  roTotalSats :: int
  roLineItems :: "LineItem list"
  roCreatedAt :: string
  roMetadata :: "(string \<times> string) list"

record ReceiptRefund =
  rrId :: string
  rrPaymentId :: string
  rrAmountSats :: int
  rrStatus :: RefundStatus
  rrReason :: string
  rrCreatedAt :: string

record Receipt =
  rcReceiptId :: string
  rcIssuedAt :: string
  rcOrder :: ReceiptOrder
  rcPayments :: "ReceiptPayment list"
  rcRefunds :: "ReceiptRefund list"
  rcTotalSats :: int
  rcPaidSats :: int
  rcRefundedSats :: int
  rcDueSats :: int

text \<open>\<open>order.id.replace(/^ord_/, '')\<close>.\<close>

definition strip_ord :: "string \<Rightarrow> string" where
  "strip_ord i = (if take 4 i = ''ord_'' then drop 4 i else i)"

definition receipt_payment :: "PaymentIntent \<Rightarrow> ReceiptPayment" where
  "receipt_payment p =
     \<lparr>rpId = pyId p, rpMethod = pyMethod p, rpProvider = pyProvider p, rpStatus = pyStatus p, rpAmountSats = pyAmountSats p,
      rpAmountPaidSats = pyAmountPaidSats p, rpRefundedSats = pyRefundedSats p, rpPaidAt = pyPaidAt p,
      rpTxid = truthy (pyTxid p), rpReference = pyProviderRef p\<rparr>"

definition receipt_refund :: "Refund \<Rightarrow> ReceiptRefund" where
  "receipt_refund r =
     \<lparr>rrId = reId r, rrPaymentId = rePaymentId r, rrAmountSats = reAmountSats r, rrStatus = reStatus r,
      rrReason = reReason r, rrCreatedAt = reCreatedAt r\<rparr>"

definition buildReceipt :: "Order \<Rightarrow> PaymentIntent list \<Rightarrow> Refund list \<Rightarrow> string \<Rightarrow> Receipt" where
  "buildReceipt order payments refunds issuedAt =
     (let paidSats = sum_list (map pyAmountPaidSats payments); refundedSats = sum_list (map pyRefundedSats payments) in
      \<lparr>rcReceiptId = ''rcpt_'' @ strip_ord (oId order), rcIssuedAt = issuedAt,
       rcOrder = \<lparr>roId = oId order, roProduct = oProduct order, roCustomerRef = oCustomerRef order,
         roStatus = oStatus order, roTotalSats = oTotalSats order, roLineItems = oLineItems order,
         roCreatedAt = oCreatedAt order, roMetadata = oMetadata order\<rparr>,
       rcPayments = map receipt_payment payments, rcRefunds = map receipt_refund refunds,
       rcTotalSats = oTotalSats order, rcPaidSats = paidSats, rcRefundedSats = refundedSats,
       rcDueSats = max 0 (oTotalSats order - paidSats + refundedSats)\<rparr>)"

subsection \<open>The text\<close>

fun group_thousands :: "string \<Rightarrow> string" where
  "group_thousands (a # b # c # d # r) = a # b # c # CHR '','' # group_thousands (d # r)"
| "group_thousands s = s"

definition locale_text :: "int \<Rightarrow> string" where
  "locale_text n =
     (if n < 0 then ''-'' @ rev (group_thousands (rev (int_text (- n)))) else rev (group_thousands (rev (int_text n))))"

definition fmt :: "int \<Rightarrow> ledger_error + string" where
  "fmt sats = ebind (satsToBtc sats) (\<lambda>b. Inr (locale_text sats @ '' sat ('' @ b @ '' BTC)''))"

definition order_status_name :: "OrderStatus \<Rightarrow> string" where
  "order_status_name s = (case s of OCreated \<Rightarrow> ''created'' | OAwaitingPayment \<Rightarrow> ''awaiting_payment'' | OPaid \<Rightarrow> ''paid''
     | OExpired \<Rightarrow> ''expired'' | OCancelled \<Rightarrow> ''cancelled'' | ORefunded \<Rightarrow> ''refunded'')"

definition refund_status_name :: "RefundStatus \<Rightarrow> string" where
  "refund_status_name s = (case s of RPending \<Rightarrow> ''pending'' | RCompleted \<Rightarrow> ''completed'' | RFailed \<Rightarrow> ''failed'')"

definition item_line :: "LineItem \<Rightarrow> string" where
  "item_line li =
     take 48 (padEnd 48 (CHR '' '') (int_text (liQuantity li) @ '' x '' @ liDescription li @ '' ['' @ liSku li @ '']''))
     @ '' '' @ padStart 20 (CHR '' '') (int_text (liQuantity li * liUnitSats li)) @ '' sat''"

definition payment_lines :: "ReceiptPayment \<Rightarrow> ledger_error + string list" where
  "payment_lines p =
     ebind (fmt (rpAmountPaidSats p)) (\<lambda>f.
     Inr ([''  '' @ rpId p @ ''  '' @ method_name (rpMethod p) @ ''/'' @ rpProvider p @ ''  '' @
             payment_status_name (rpStatus p) @ ''  '' @ f
             @ (case truthy (rpPaidAt p) of None \<Rightarrow> [] | Some t \<Rightarrow> ''  at '' @ t)]
          @ (case truthy (rpTxid p) of None \<Rightarrow> [] | Some t \<Rightarrow> [''    txid '' @ t])
          @ [''    ref  '' @ rpReference p]))"

definition refund_line :: "ReceiptRefund \<Rightarrow> ledger_error + string" where
  "refund_line x =
     ebind (fmt (rrAmountSats x)) (\<lambda>f.
     Inr (''  '' @ rrId x @ ''  '' @ refund_status_name (rrStatus x) @ ''  '' @ f @ ''  '' @ rrReason x))"

definition renderReceiptText :: "Receipt \<Rightarrow> ledger_error + string" where
  "renderReceiptText r =
     (let line = replicate 72 (CHR ''-''); o1 = rcOrder r in
      ebind (emapM payment_lines (rcPayments r)) (\<lambda>pays.
      ebind (emapM refund_line (rcRefunds r)) (\<lambda>refs.
      ebind (fmt (rcPaidSats r)) (\<lambda>paid. ebind (fmt (rcRefundedSats r)) (\<lambda>refunded. ebind (fmt (rcDueSats r)) (\<lambda>due.
      Inr (join_with [char_of (10 :: nat)]
        ([''RECEIPT '' @ rcReceiptId r, ''Issued   '' @ rcIssuedAt r,
          ''Order    '' @ roId o1 @ ''  ('' @ product_name (roProduct o1) @ '')'',
          ''Customer '' @ roCustomerRef o1, ''Status   '' @ order_status_name (roStatus o1), line]
         @ map item_line (roLineItems o1)
         @ [line, padEnd 48 (CHR '' '') ''TOTAL'' @ '' '' @ padStart 20 (CHR '' '') (int_text (rcTotalSats r)) @ '' sat'']
         @ (if rcPayments r = [] then [] else ['''', ''Payments''] @ concat pays)
         @ (if rcRefunds r = [] then [] else ['''', ''Refunds''] @ refs)
         @ ['''', line, ''Paid     '' @ paid, ''Refunded '' @ refunded, ''Due      '' @ due, '''']))))))))"

subsection \<open>What a receipt says\<close>

lemma fmt_Inr: "(\<exists>s. fmt n = Inr s) \<longleftrightarrow> 0 \<le> n \<and> n \<le> MAX_SATS"
  by (auto simp: fmt_def satsToBtc_def assertSats_def Let_def)

lemma emapM_total: "(\<exists>ys. emapM f xs = Inr ys) \<longleftrightarrow> (\<forall>x \<in> set xs. \<exists>y. f x = Inr y)"
proof (induction xs)
  case (Cons x xs)
  have "(\<exists>ys. emapM f (x # xs) = Inr ys) \<longleftrightarrow> (\<exists>y. f x = Inr y) \<and> (\<exists>ys. emapM f xs = Inr ys)"
    by (auto simp: ebind_eq_Inr)
  with Cons show ?case by simp
qed simp

lemma payment_lines_Inr: "(\<exists>s. payment_lines p = Inr s) \<longleftrightarrow> 0 \<le> rpAmountPaidSats p \<and> rpAmountPaidSats p \<le> MAX_SATS"
  unfolding fmt_Inr [symmetric] by (auto simp: payment_lines_def ebind_eq_Inr)

lemma refund_line_Inr: "(\<exists>s. refund_line x = Inr s) \<longleftrightarrow> 0 \<le> rrAmountSats x \<and> rrAmountSats x \<le> MAX_SATS"
  unfolding fmt_Inr [symmetric] by (auto simp: refund_line_def ebind_eq_Inr)

lemma render_Inr:
  "(\<exists>t. renderReceiptText r = Inr t) \<longleftrightarrow>
     (\<exists>a. emapM payment_lines (rcPayments r) = Inr a) \<and> (\<exists>b. emapM refund_line (rcRefunds r) = Inr b) \<and>
     (\<exists>c. fmt (rcPaidSats r) = Inr c) \<and> (\<exists>d. fmt (rcRefundedSats r) = Inr d) \<and> (\<exists>e. fmt (rcDueSats r) = Inr e)"
proof -
  have b: "(\<exists>t. ebind m f = Inr t) \<longleftrightarrow> (\<exists>a. m = Inr a \<and> (\<exists>t. f a = Inr t))" for m :: "'e + 'a" and f :: "'a \<Rightarrow> 'e + 'b"
    by (auto simp: ebind_eq_Inr)
  have i: "\<exists>t. Inr x = Inr t" for x :: 'a by blast
  show ?thesis unfolding renderReceiptText_def Let_def b using i by blast
qed

text \<open>
  When a receipt can be printed. The text of the receipt of an order exists exactly when every amount on it is an
  amount of satoshis: what each payment was paid, what each refund gives back, and the three sums, of which the
  amount due is never negative.
\<close>

theorem receipt_prints_iff:
  "(\<exists>t. renderReceiptText (buildReceipt x ps rs at) = Inr t) \<longleftrightarrow>
     list_all (\<lambda>p. sats_range (pyAmountPaidSats p)) ps \<and> list_all (\<lambda>r. sats_range (reAmountSats r)) rs \<and>
     sats_range (sum_list (map pyAmountPaidSats ps)) \<and> sats_range (sum_list (map pyRefundedSats ps)) \<and>
     oTotalSats x - sum_list (map pyAmountPaidSats ps) + sum_list (map pyRefundedSats ps) \<le> MAX_SATS"
  unfolding render_Inr emapM_total payment_lines_Inr refund_line_Inr fmt_Inr
  by (auto simp: buildReceipt_def Let_def receipt_payment_def receipt_refund_def sats_range_def list_all_iff MAX_SATS_def)

lemma length_int_text: "0 \<le> n \<Longrightarrow> n \<le> MAX_SATS \<Longrightarrow> length (int_text n) \<le> 20"
  by (auto simp: int_text_def MAX_SATS_def intro!: length_digits_of_nat)

text \<open>
  The item lines of a receipt line up, at 73 columns. Every line item whose price is an amount of satoshis takes
  the same width, one more than the 72 columns of the rules and of the comment on \<open>renderReceiptText\<close>.
\<close>

theorem item_line_width:
  assumes "0 \<le> liQuantity li * liUnitSats li" and "liQuantity li * liUnitSats li \<le> MAX_SATS"
  shows "length (item_line li) = 73"
  using length_int_text [OF assms] by (simp add: item_line_def padEnd_def padStart_def)

theorem item_line_width_witness:
  "length (item_line \<lparr>liSku = ''s'', liDescription = ''d'', liQuantity = 2, liUnitSats = 500\<rparr>) = 73"
  by (rule item_line_width) (simp_all add: MAX_SATS_def)

end
