(* ===== verification/EventsPlatform.thy ===== *)
theory EventsPlatform imports EventsTopics LedgerReceipt begin

text \<open>
  \<open>platform-topics.ts\<close> of \<open>platform/events/src\<close>: the platform's topics with their payload schemas and the registry
  they fill, and what the validator accepts of the schemas the topics are built from.
\<close>

subsection \<open>Schema builders\<close>

definition string_schema :: "nat option \<Rightarrow> nat option \<Rightarrow> string option \<Rightarrow> string option \<Rightarrow> JsonSchema" where
  "string_schema lo hi pat fm = JsonSchema None None (Some [TString]) None None None None None None None None lo hi pat
     None None None None fm None None None"

definition enum_schema :: "string list \<Rightarrow> JsonSchema" where
  "enum_schema vs = JsonSchema None None (Some [TString]) (Some (map JStr vs)) None None None None None None None None None None
     None None None None None None None None"

definition nullable_enum :: "string list \<Rightarrow> JsonSchema" where
  "nullable_enum vs = JsonSchema None None (Some [TString, TNull]) (Some (map JStr vs @ [JNull])) None None None None None None None
     None None None None None None None None None None None"

definition const_schema :: "string \<Rightarrow> JsonSchema" where
  "const_schema c = JsonSchema None None None None (Some (JStr c)) None None None None None None None None None
     None None None None None None None None"

definition int_schema :: "int option \<Rightarrow> int option \<Rightarrow> JsonSchema" where
  "int_schema lo hi = JsonSchema None None (Some [TInteger]) None None None None None None None None None None None
     (map_option JInt lo) (map_option JInt hi) None None None None None None"

definition array_schema :: "JsonSchema \<Rightarrow> nat option \<Rightarrow> JsonSchema" where
  "array_schema it lo = JsonSchema None None (Some [TArray]) None None None None None (Some it) lo None None None None
     None None None None None None None None"

definition object_schema :: "string list \<Rightarrow> (string \<times> JsonSchema) list \<Rightarrow> JsonSchema" where
  "object_schema req props = JsonSchema None None (Some [TObject]) None None (Some props) (Some req) None None None None None None
     None None None None None None None None None"

subsection \<open>The topics\<close>

definition CONTRACT_PATH :: string where "CONTRACT_PATH = ''contracts/asyncapi/platform-events.yaml''"
definition SCHEMA_BASE :: string where
  "SCHEMA_BASE = ''https://blockspace.holdings/'' @ CONTRACT_PATH @ ''#/components/schemas/''"
definition sourceFor :: "string \<Rightarrow> string" where "sourceFor c = ''urn:bsh:'' @ c"

definition NETWORKS :: "string list" where "NETWORKS = [''mainnet'', ''testnet'', ''signet'', ''regtest'']"

definition MINT_ORDER_STATUSES :: "string list" where
  "MINT_ORDER_STATUSES = [''awaiting_content'', ''reviewing'', ''approved'', ''rejected'', ''awaiting_payment'', ''paid'',
     ''queued'', ''revealing'', ''revealed'', ''confirmed'', ''verified'', ''delivered'', ''expired'', ''rescue_available'', ''failed'']"

definition BATCH_STATUSES :: "string list" where
  "BATCH_STATUSES = [''created'', ''funded'', ''committed'', ''revealed'', ''confirmed'', ''failed'', ''cancelled'']"

definition LEDGER_PRODUCTS :: "string list" where "LEDGER_PRODUCTS = [''blockspace'', ''scribbit'', ''degent'']"

definition LEDGER_ORDER_STATUSES :: "string list" where
  "LEDGER_ORDER_STATUSES = [''created'', ''awaiting_payment'', ''paid'', ''expired'', ''cancelled'', ''refunded'']"

definition LEDGER_PAYMENT_STATUSES :: "string list" where
  "LEDGER_PAYMENT_STATUSES = [''created'', ''pending'', ''paid'', ''underpaid'', ''overpaid'', ''expired'', ''failed'', ''refunded'']"

definition LEDGER_PAYMENT_METHODS :: "string list" where "LEDGER_PAYMENT_METHODS = [''onchain'', ''lightning'', ''card'']"

definition hex64_pattern :: string where "hex64_pattern = ''^[0-9a-f]{64}$''"

definition hex64_schema :: JsonSchema where "hex64_schema = string_schema None None (Some hex64_pattern) None"
definition inscriptionId_schema :: JsonSchema where
  "inscriptionId_schema = string_schema None None (Some ''^[0-9a-f]{64}i[0-9]+$'') None"
definition network_schema :: JsonSchema where "network_schema = enum_schema NETWORKS"
definition dateTime_schema :: JsonSchema where "dateTime_schema = string_schema None None None (Some ''date-time'')"
definition text_schema :: JsonSchema where "text_schema = string_schema None None None None"
definition nonempty_schema :: JsonSchema where "nonempty_schema = string_schema (Some 1) None None None"
definition sats_schema :: JsonSchema where "sats_schema = int_schema (Some 0) (Some 2100000000000000)"
definition ledgerProduct_schema :: JsonSchema where "ledgerProduct_schema = enum_schema LEDGER_PRODUCTS"

definition topic_of ::
  "string \<Rightarrow> string \<Rightarrow> string \<Rightarrow> (string \<times> TopicParam) list option \<Rightarrow> string \<Rightarrow> JsonSchema \<Rightarrow> TopicDefinition" where
  "topic_of name producer description params data schema =
     \<lparr>tdName = name, tdVersion = ''1.0.0'', tdSchema = schema, tdProducer = producer, tdDescription = description,
      tdParams = params, tdDataschema = Some (SCHEMA_BASE @ data)\<rparr>"

definition blockIndexed :: TopicDefinition where
  "blockIndexed = topic_of (''block.indexed.'' @ placeholder ''network'') ''bitcoin-indexer''
     ''A block has been fully indexed at the tip of the given network. Re-emitted for replacement blocks after a reorg.''
     (Some [(''network'', \<lparr>tpDescription = ''Bitcoin network (testnet = testnet4).'', tpEnum = Some NETWORKS\<rparr>)]) ''BlockIndexed''
     (object_schema [''network'', ''height'', ''hash'', ''previousHash'', ''time'']
       [(''network'', network_schema), (''height'', int_schema (Some 0) None), (''hash'', hex64_schema),
        (''previousHash'', hex64_schema), (''time'', dateTime_schema), (''txCount'', int_schema (Some 1) None),
        (''reorgDepth'', int_schema (Some 0) None)])"

definition collectionMinted :: TopicDefinition where
  "collectionMinted = topic_of ''collection.minted'' ''degent-mint''
     ''An inscription belonging to a collection has been revealed on chain (confirmed).'' None ''CollectionMinted''
     (object_schema [''collectionId'', ''network'', ''inscriptionId'', ''txid'', ''mintedAt'']
       [(''collectionId'', string_schema (Some 1) (Some 128) None None), (''network'', network_schema),
        (''inscriptionId'', inscriptionId_schema), (''parentInscriptionId'', inscriptionId_schema), (''txid'', hex64_schema),
        (''orderId'', nonempty_schema), (''contentHash'', hex64_schema), (''mintedAt'', dateTime_schema)])"

definition collectionCertified :: TopicDefinition where
  "collectionCertified = topic_of ''collection.certified'' ''blockspace-certify''
     ''A collection passed provenance certification (parent/child links and optional content hashes).'' None ''CollectionCertified''
     (object_schema [''collectionId'', ''network'', ''parentInscriptionId'', ''checks'', ''certifiedAt'']
       [(''collectionId'', string_schema (Some 1) (Some 128) None None), (''network'', network_schema),
        (''parentInscriptionId'', inscriptionId_schema),
        (''checks'', array_schema (enum_schema [''parent_link'', ''content_hash'']) (Some 1)),
        (''inscriptionCount'', int_schema (Some 0) None), (''certifiedAt'', dateTime_schema)])"

definition degentMintOrder :: TopicDefinition where
  "degentMintOrder = topic_of (''degent.mint.order.'' @ placeholder ''status'') ''degent-mint''
     (''A degent.club mint order changed status. This schema is canonical for the shared topic; the producer'' @ [CHR 0x27] @
      ''s own OrderStatusEvent (contracts/asyncapi/degent-mint.yaml in DegentClub/degent) must stay compatible with it. On this bus it travels as CloudEvents '' @
      [CHR 0x60] @ ''data'' @ [CHR 0x60] @ ''.'')
     (Some [(''status'', \<lparr>tpDescription = ''The status the order moved to.'', tpEnum = Some MINT_ORDER_STATUSES\<rparr>)]) ''MintOrderStatusChanged''
     (object_schema [''type'', ''eventId'', ''orderId'', ''network'', ''status'', ''previousStatus'', ''at'', ''lane'']
       [(''type'', string_schema None None (Some (''^degent'' @ CHR 0x5C # ''.mint'' @ CHR 0x5C # ''.order'' @ CHR 0x5C # ''.[a-z_]+$'')) None),
        (''eventId'', nonempty_schema), (''orderId'', nonempty_schema), (''network'', network_schema),
        (''status'', enum_schema MINT_ORDER_STATUSES), (''previousStatus'', nullable_enum MINT_ORDER_STATUSES),
        (''at'', dateTime_schema), (''lane'', enum_schema [''standard'', ''block'']), (''detail'', text_schema),
        (''txid'', hex64_schema), (''inscriptionId'', inscriptionId_schema)])"

definition batchStatus :: TopicDefinition where
  "batchStatus = topic_of (''batch.'' @ placeholder ''status'') ''scribbit-ledger''
     ''A scribb.it inscription batch changed status in the ledger.''
     (Some [(''status'', \<lparr>tpDescription = ''The status the batch moved to.'', tpEnum = Some BATCH_STATUSES\<rparr>)]) ''BatchStatusChanged''
     (object_schema [''batchId'', ''network'', ''status'', ''previousStatus'', ''at'', ''orderCount'']
       [(''batchId'', nonempty_schema), (''network'', network_schema), (''status'', enum_schema BATCH_STATUSES),
        (''previousStatus'', nullable_enum BATCH_STATUSES), (''at'', dateTime_schema), (''orderCount'', int_schema (Some 0) None),
        (''feeSats'', int_schema (Some 0) None), (''txids'', array_schema hex64_schema None), (''detail'', text_schema)])"

definition ledgerOrderStatus :: TopicDefinition where
  "ledgerOrderStatus = topic_of (''ledger.order.'' @ placeholder ''status'') ''ledger''
     ''An order in the shared ledger changed status. Amounts are integer satoshis.''
     (Some [(''status'', \<lparr>tpDescription = ''The status the order moved to.'', tpEnum = Some LEDGER_ORDER_STATUSES\<rparr>)])
     ''LedgerOrderStatusChanged''
     (object_schema [''orderId'', ''product'', ''customerRef'', ''status'', ''previousStatus'', ''currency'', ''totalSats'', ''at'']
       [(''orderId'', nonempty_schema), (''product'', ledgerProduct_schema),
        (''customerRef'', string_schema (Some 1) (Some 256) None None), (''status'', enum_schema LEDGER_ORDER_STATUSES),
        (''previousStatus'', nullable_enum LEDGER_ORDER_STATUSES), (''currency'', const_schema ''sat''),
        (''totalSats'', sats_schema), (''at'', dateTime_schema), (''detail'', text_schema)])"

definition ledgerPaymentStatus :: TopicDefinition where
  "ledgerPaymentStatus = topic_of (''ledger.payment.'' @ placeholder ''status'') ''ledger''
     ''A payment intent in the shared ledger changed status (on-chain, Lightning via BTCPay, or card). Amounts are integer satoshis.''
     (Some [(''status'', \<lparr>tpDescription = ''The status the payment moved to.'', tpEnum = Some LEDGER_PAYMENT_STATUSES\<rparr>)])
     ''LedgerPaymentStatusChanged''
     (object_schema [''paymentId'', ''orderId'', ''product'', ''method'', ''provider'', ''status'', ''previousStatus'', ''amountSats'',
         ''amountPaidSats'', ''at'']
       [(''paymentId'', nonempty_schema), (''orderId'', nonempty_schema), (''product'', ledgerProduct_schema),
        (''method'', enum_schema LEDGER_PAYMENT_METHODS), (''provider'', nonempty_schema),
        (''status'', enum_schema LEDGER_PAYMENT_STATUSES), (''previousStatus'', nullable_enum LEDGER_PAYMENT_STATUSES),
        (''amountSats'', sats_schema), (''amountPaidSats'', sats_schema), (''at'', dateTime_schema), (''paidAt'', dateTime_schema),
        (''txid'', hex64_schema), (''detail'', text_schema)])"

definition PLATFORM_TOPICS :: "topic_error + Topic list" where
  "PLATFORM_TOPICS = emapM defineTopic
     [blockIndexed, collectionMinted, collectionCertified, degentMintOrder, batchStatus, ledgerOrderStatus, ledgerPaymentStatus]"

text \<open>The constructor of \<open>TopicRegistry\<close>.\<close>

primrec register_all :: "Topic list \<Rightarrow> TopicRegistry \<Rightarrow> topic_error + TopicRegistry" where
  "register_all [] reg = Inr reg"
| "register_all (t # ts) reg = ebind (register t reg) (register_all ts)"

definition platformRegistry :: "topic_error + TopicRegistry" where
  "platformRegistry = ebind PLATFORM_TOPICS (\<lambda>ts. register_all ts [])"

subsection \<open>The registry is well formed\<close>

text \<open>
  The platform's registry can be built. Every platform topic is a valid definition and none overlaps another, so
  \<open>platformRegistry\<close> succeeds with the seven topics in order.
\<close>

theorem platform_registry_builds:
  "map_sum id (map fst) platformRegistry =
     Inr (map tdName [blockIndexed, collectionMinted, collectionCertified, degentMintOrder, batchStatus, ledgerOrderStatus, ledgerPaymentStatus])"
  by code_simp

subsection \<open>What the payload schemas accept\<close>

lemma emapM_concat_nil: "(\<exists>rs. emapM f xs = Inr rs \<and> concat rs = []) \<longleftrightarrow> list_all (\<lambda>x. f x = Inr []) xs"
proof (induction xs)
  case (Cons x xs)
  have "(\<exists>rs. emapM f (x # xs) = Inr rs \<and> concat rs = []) \<longleftrightarrow> f x = Inr [] \<and> (\<exists>rs. emapM f xs = Inr rs \<and> concat rs = [])"
    by (auto simp: ebind_eq_Inr)
  with Cons show ?case by simp
qed simp

lemma added_nil: "added p b m = [] \<longleftrightarrow> \<not> b"
  by (simp add: added_def)

lemma check_object_nil:
  "check_object chk s path obj = Inr [] \<longleftrightarrow>
     (case scRequired s of None \<Rightarrow> True | Some req \<Rightarrow> list_all (\<lambda>r. map_of obj r \<noteq> None) req) \<and>
     list_all (\<lambda>p. check_member chk s path p = Inr []) obj"
proof -
  have split: "emap (\<lambda>rs. a @ concat rs) m = Inr [] \<longleftrightarrow> a = [] \<and> (\<exists>rs. m = Inr rs \<and> concat rs = [])"
    for a :: "ValidationIssue list" and m :: "schema_error + ValidationIssue list list"
    by (cases m) (auto simp: emap_def)
  show ?thesis
    unfolding check_object_def split emapM_concat_nil
    by (cases "scRequired s") (auto simp: on_def added_nil list_all_iff)
qed

lemmas builder_defs = string_schema_def enum_schema_def nullable_enum_def const_schema_def int_schema_def object_schema_def

lemma combined_none: "scAllOf s = None \<Longrightarrow> scAnyOf s = None \<Longrightarrow> scOneOf s = None \<Longrightarrow> check_combined chk s path = Inr []"
  by (simp add: check_combined_def)

lemma check_string_schema:
  "check (Suc n) env base (string_schema lo hi pat fm) v path = Inr [] \<longleftrightarrow>
     (\<exists>s. v = JStr s \<and> (case lo of None \<Rightarrow> True | Some m \<Rightarrow> m \<le> length s) \<and> (case hi of None \<Rightarrow> True | Some m \<Rightarrow> length s \<le> m) \<and>
       (case pat of None \<Rightarrow> True | Some p \<Rightarrow> seRegExp env p s) \<and>
       (case truthy fm of None \<Rightarrow> True | Some f \<Rightarrow> (case FORMATS env f of None \<Rightarrow> True | Some ok \<Rightarrow> ok s)))"
  by (cases v) (auto simp: string_schema_def combined_none typeOf_def typeMatches_def on_def added_def check_fixed_def
      check_string_def split: option.splits)

lemma check_enum_schema:
  "check (Suc n) env base (enum_schema vs) v path = Inr [] \<longleftrightarrow> (\<exists>s \<in> set vs. v = JStr s)"
  by (cases v) (auto simp: enum_schema_def combined_none typeOf_def typeMatches_def on_def added_def check_fixed_def
      check_string_def list_ex_iff)

lemma check_nullable_enum:
  "check (Suc n) env base (nullable_enum vs) v path = Inr [] \<longleftrightarrow> v = JNull \<or> (\<exists>s \<in> set vs. v = JStr s)"
  by (cases v) (auto simp: nullable_enum_def combined_none typeOf_def typeMatches_def on_def added_def check_fixed_def
      check_string_def list_ex_iff)

lemma check_const_schema: "check (Suc n) env base (const_schema c) v path = Inr [] \<longleftrightarrow> v = JStr c"
proof (cases v)
  case (JStr x)
  then show ?thesis by (auto simp: const_schema_def combined_none typeOf_def on_def added_def check_fixed_def check_string_def)
qed (auto simp: const_schema_def combined_none typeOf_def on_def added_def check_fixed_def check_string_def ebind_def split: sum.split)

lemma check_int_schema:
  "check (Suc n) env base (int_schema lo hi) v path = Inr [] \<longleftrightarrow>
     (\<exists>i. v = JInt i \<and> (case lo of None \<Rightarrow> True | Some m \<Rightarrow> m \<le> i) \<and> (case hi of None \<Rightarrow> True | Some m \<Rightarrow> i \<le> m))"
  by (cases v) (auto simp: int_schema_def combined_none typeOf_def typeMatches_def on_def added_def check_fixed_def
      check_number_def num_value_def split: option.splits)

lemma check_object_schema:
  "check (Suc n) env base (object_schema req props) (JObj obj) path = Inr [] \<longleftrightarrow>
     list_all (\<lambda>r. map_of obj r \<noteq> None) req \<and>
     list_all (\<lambda>p. case map_of props (fst p) of None \<Rightarrow> True
        | Some s \<Rightarrow> check n env base s (snd p) (path @ ''/'' @ esc (fst p)) = Inr []) obj"
proof -
  have "check (Suc n) env base (object_schema req props) (JObj obj) path =
      check_object (check n env base) (object_schema req props) path obj"
    by (simp add: object_schema_def combined_none typeOf_def typeMatches_def on_def check_fixed_def ebind_def split: sum.split)
  moreover have "scRequired (object_schema req props) = Some req" by (simp add: object_schema_def)
  moreover have "check_member chk (object_schema req props) path p = Inr [] \<longleftrightarrow>
      (case map_of props (fst p) of None \<Rightarrow> True | Some s \<Rightarrow> chk s (snd p) (path @ ''/'' @ esc (fst p)) = Inr [])" for chk p
    by (auto simp: check_member_def object_schema_def Let_def split: option.split)
  ultimately show ?thesis by (simp add: check_object_nil)
qed

end
