(* ===== verification/EventsLedger.thy ===== *)
theory EventsLedger imports EventsPlatform begin

text \<open>
  The ledger's events on the platform's topics: the payloads of \<open>emitOrder\<close> and \<open>emitPayment\<close> (\<open>service.ts\<close>) as
  JSON values, and the proof that the check \<open>event_valid\<close> the ledger's model makes of an event is what
  \<open>topic.create\<close> of the real topic, with its schema and envelope, comes to.
\<close>

subsection \<open>Payloads\<close>

definition order_payload :: "OrderStatusData \<Rightarrow> json" where
  "order_payload d = JObj ([(''orderId'', JStr (odOrderId d)), (''product'', JStr (product_name (odProduct d))),
     (''customerRef'', JStr (odCustomerRef d)), (''status'', JStr (order_status_name (odStatus d))),
     (''previousStatus'', case odPreviousStatus d of None \<Rightarrow> JNull | Some s \<Rightarrow> JStr (order_status_name s)),
     (''currency'', JStr ''sat''), (''totalSats'', JInt (odTotalSats d)), (''at'', JStr (odAt d))]
     @ opt_entry ''detail'' (odDetail d))"

definition payment_payload :: "PaymentStatusData \<Rightarrow> json" where
  "payment_payload d = JObj ([(''paymentId'', JStr (pdPaymentId d)), (''orderId'', JStr (pdOrderId d)),
     (''product'', JStr (product_name (pdProduct d))), (''method'', JStr (method_name (pdMethod d))),
     (''provider'', JStr (pdProvider d)), (''status'', JStr (payment_status_name (pdStatus d))),
     (''previousStatus'', case pdPreviousStatus d of None \<Rightarrow> JNull | Some s \<Rightarrow> JStr (payment_status_name s)),
     (''amountSats'', JInt (pdAmountSats d)), (''amountPaidSats'', JInt (pdAmountPaidSats d)), (''at'', JStr (pdAt d))]
     @ opt_entry ''paidAt'' (pdPaidAt d) @ opt_entry ''txid'' (pdTxid d) @ opt_entry ''detail'' (pdDetail d))"

definition status_event :: "string \<Rightarrow> json \<Rightarrow> string \<Rightarrow> CreateEventInput" where
  "status_event src data subject = \<lparr>ceSource = src, ceType = [], ceData = data, ceSubject = Some subject, ceId = None,
     ceTime = None, ceDataschema = None, ceTraceparent = None\<rparr>"

text \<open>\<open>ledgerOrderStatus.create\<close> and \<open>ledgerPaymentStatus.create\<close> as the service calls them.\<close>

definition create_ledger_event ::
  "nat \<Rightarrow> schema_env \<Rightarrow> nat \<Rightarrow> string \<Rightarrow> string \<Rightarrow> ledger_event \<Rightarrow> topic_error + EventEnvelope" where
  "create_ledger_event n env now newid src ev = (case ev of
      OrderEvent d \<Rightarrow> ebind (defineTopic ledgerOrderStatus) (\<lambda>t.
        topic_create n env now newid t [(''status'', order_status_name (odStatus d))] (status_event src (order_payload d) (odOrderId d)))
    | PaymentEvent d \<Rightarrow> ebind (defineTopic ledgerPaymentStatus) (\<lambda>t.
        topic_create n env now newid t [(''status'', payment_status_name (pdStatus d))] (status_event src (payment_payload d) (pdOrderId d))))"

subsection \<open>Names and envelopes\<close>

definition bound_names :: "TopicDefinition \<Rightarrow> string \<Rightarrow> string list \<Rightarrow> bool" where
  "bound_names d prefix ss = (case defineTopic d of Inl _ \<Rightarrow> False
     | Inr t \<Rightarrow> list_all (\<lambda>s. typeFor t [(''status'', s)] = Inr (prefix @ s) \<and> isRoutingKey (prefix @ s)) ss)"

lemma ledger_names:
  "bound_names ledgerOrderStatus ''ledger.order.'' LEDGER_ORDER_STATUSES \<and>
   bound_names ledgerPaymentStatus ''ledger.payment.'' LEDGER_PAYMENT_STATUSES"
  by code_simp

lemma bound_namesE:
  assumes "bound_names d prefix ss"
  obtains t where "defineTopic d = Inr t" and "tdSchema t = tdSchema d"
    and "\<And>s. s \<in> set ss \<Longrightarrow> typeFor t [(''status'', s)] = Inr (prefix @ s) \<and> isRoutingKey (prefix @ s)"
  using assms defineTopic_ok [of d] by (cases "defineTopic d") (auto simp: bound_names_def list_all_iff)

lemma order_status_listed: "order_status_name s \<in> set LEDGER_ORDER_STATUSES"
  by (cases s) (simp_all add: order_status_name_def LEDGER_ORDER_STATUSES_def)

lemma payment_status_listed: "payment_status_name s \<in> set LEDGER_PAYMENT_STATUSES"
  by (cases s) (simp_all add: payment_status_name_def LEDGER_PAYMENT_STATUSES_def)

lemma product_listed: "product_name p \<in> set LEDGER_PRODUCTS"
  by (cases p) (simp_all add: product_name_def LEDGER_PRODUCTS_def)

lemma method_listed: "method_name m \<in> set LEDGER_PAYMENT_METHODS"
  by (cases m) (simp_all add: method_name_def LEDGER_PAYMENT_METHODS_def)

lemma iso_nonempty: "toISOString ms \<noteq> []"
  by (simp add: toISOString_def Let_def split: prod.split)

lemma created_iff:
  assumes "isRoutingKey ty" and "newid \<noteq> []" and "seParsesDate env (toISOString now)"
  shows "(\<exists>e. createEvent env now newid ((status_event src data subject)\<lparr>ceType := ty, ceDataschema := ds\<rparr>) = Inr e) \<longleftrightarrow> src \<noteq> []"
  using assms iso_nonempty [of now]
  by (auto simp: createEvent_def status_event_def Let_def assertEnvelope_def envelope_json_def properties_of_def str_member_def
      optional_member_def opt_entry_def truthy_def isRoutingKey_def split: option.splits)

text \<open>Creation succeeds when the payload has no issues, the name binds and the source is not empty.\<close>

lemma topic_create_iff:
  assumes "typeFor t values = Inr ty" and "isRoutingKey ty" and "newid \<noteq> []" and "seParsesDate env (toISOString now)"
  shows "(\<exists>e. topic_create n env now newid t values (status_event src data subject) = Inr e) \<longleftrightarrow>
    src \<noteq> [] \<and> check n env (tdSchema t) (tdSchema t) data [] = Inr []"
proof -
  have d: "ceData (status_event src data subject) = data" by (simp add: status_event_def)
  show ?thesis
    using created_iff [OF assms(2,3,4), where src = src and data = data and subject = subject]
    by (cases "check n env (tdSchema t) (tdSchema t) data []")
       (auto simp: topic_create_def topic_validate_def validate_def d assms(1))
qed

subsection \<open>The two checks agree\<close>

text \<open>The runtime of the ledger: the validator's date parser and regular expressions are the ones \<open>event_valid\<close> uses.\<close>

definition ledger_env :: "'w LedgerService \<Rightarrow> schema_env \<Rightarrow> bool" where
  "ledger_env sv env \<longleftrightarrow> seParsesDate env = (\<lambda>s. svParseDate sv s \<noteq> None) \<and> seRegExp env hex64_pattern = hex64"

declare check.simps [simp del]

lemma date_check: "ledger_env sv env \<Longrightarrow> check (Suc n) env base dateTime_schema (JStr s) p = Inr [] \<longleftrightarrow> date_time sv s"
  by (simp add: dateTime_schema_def check_string_schema FORMATS_def truthy_def ledger_env_def date_time_def)

lemma hex_check: "ledger_env sv env \<Longrightarrow> check (Suc n) env base hex64_schema (JStr s) p = Inr [] \<longleftrightarrow> hex64 s"
  by (simp add: hex64_schema_def check_string_schema truthy_def ledger_env_def)

lemma sats_check: "check (Suc n) env base sats_schema (JInt i) p = Inr [] \<longleftrightarrow> sats_range i"
  by (simp add: sats_schema_def check_int_schema sats_range_def MAX_SATS_def)

lemma nonempty_check: "check (Suc n) env base nonempty_schema (JStr s) p = Inr [] \<longleftrightarrow> s \<noteq> []"
  by (cases s) (simp_all add: nonempty_schema_def check_string_schema truthy_def)

lemma text_check: "check (Suc n) env base text_schema (JStr s) p = Inr []"
  by (simp add: text_schema_def check_string_schema truthy_def)

lemma opt_entry_all: "list_all P (opt_entry k v) \<longleftrightarrow> (case v of None \<Rightarrow> True | Some s \<Rightarrow> P (k, JStr s))"
  by (simp add: opt_entry_def split: option.split)

lemma previous_check:
  "set vs \<supseteq> range f \<Longrightarrow> check (Suc n) env base (nullable_enum vs) (case x of None \<Rightarrow> JNull | Some s \<Rightarrow> JStr (f s)) p = Inr []"
  by (cases x) (auto simp: check_nullable_enum)

lemma order_payload_check:
  assumes "ledger_env sv env"
  shows "check (Suc (Suc n)) env base (tdSchema ledgerOrderStatus) (order_payload d) [] = Inr [] \<longleftrightarrow>
    odOrderId d \<noteq> [] \<and> odCustomerRef d \<noteq> [] \<and> length (odCustomerRef d) \<le> 256 \<and> sats_range (odTotalSats d) \<and> date_time sv (odAt d)"
proof -
  have prev: "check (Suc n) env base (nullable_enum LEDGER_ORDER_STATUSES)
      (case x of None \<Rightarrow> JNull | Some s \<Rightarrow> JStr (order_status_name s)) p = Inr []" for x p
    using order_status_listed by (intro previous_check) auto
  have ref: "check (Suc n) env base (string_schema (Some (Suc 0)) (Some 256) None None) (JStr s) p = Inr [] \<longleftrightarrow> s \<noteq> [] \<and> length s \<le> 256" for s p
    by (cases s) (simp_all add: check_string_schema truthy_def)
  show ?thesis
    by (auto simp: ledgerOrderStatus_def topic_of_def order_payload_def check_object_schema opt_entry_all ledgerProduct_schema_def
        check_enum_schema product_listed order_status_listed prev ref check_const_schema sats_check date_check [OF assms]
        nonempty_check text_check split: option.split)
qed

lemma payment_payload_check:
  assumes "ledger_env sv env"
  shows "check (Suc (Suc n)) env base (tdSchema ledgerPaymentStatus) (payment_payload d) [] = Inr [] \<longleftrightarrow>
    pdPaymentId d \<noteq> [] \<and> pdOrderId d \<noteq> [] \<and> pdProvider d \<noteq> [] \<and> sats_range (pdAmountSats d) \<and> sats_range (pdAmountPaidSats d) \<and>
    date_time sv (pdAt d) \<and> (case pdPaidAt d of None \<Rightarrow> True | Some t \<Rightarrow> date_time sv t) \<and>
    (case pdTxid d of None \<Rightarrow> True | Some t \<Rightarrow> hex64 t)"
proof -
  have prev: "check (Suc n) env base (nullable_enum LEDGER_PAYMENT_STATUSES)
      (case x of None \<Rightarrow> JNull | Some s \<Rightarrow> JStr (payment_status_name s)) p = Inr []" for x p
    using payment_status_listed by (intro previous_check) auto
  show ?thesis
    by (auto simp: ledgerPaymentStatus_def topic_of_def payment_payload_def check_object_schema opt_entry_all ledgerProduct_schema_def
        check_enum_schema product_listed method_listed payment_status_listed prev sats_check date_check [OF assms]
        hex_check [OF assms] nonempty_check text_check split: option.split)
qed

text \<open>
  C17: the ledger's check of its events is the topic's. For every order or payment event the ledger emits,
  \<open>event_valid\<close> holds exactly when \<open>create\<close> of the platform's topic, with the payload validated against the topic's
  schema, the name bound to the status and the envelope checked, yields an envelope.
\<close>

theorem event_valid_iff_created:
  assumes "ledger_env sv env" and "newid \<noteq> []" and "svParseDate sv (toISOString now) \<noteq> None" and "2 \<le> n"
  shows "event_valid sv ev \<longleftrightarrow> (\<exists>e. create_ledger_event n env now newid (svSource sv) ev = Inr e)"
proof -
  obtain m where n: "n = Suc (Suc m)" using assms(4) by (metis add_2_eq_Suc le_Suc_ex)
  have clock: "seParsesDate env (toISOString now)" using assms(1,3) by (simp add: ledger_env_def)
  obtain t where t: "defineTopic ledgerOrderStatus = Inr t" "tdSchema t = tdSchema ledgerOrderStatus"
      and names: "\<And>s. s \<in> set LEDGER_ORDER_STATUSES \<Longrightarrow>
        typeFor t [(''status'', s)] = Inr (''ledger.order.'' @ s) \<and> isRoutingKey (''ledger.order.'' @ s)"
    using bound_namesE [OF conjunct1 [OF ledger_names]] by blast
  obtain u where u: "defineTopic ledgerPaymentStatus = Inr u" "tdSchema u = tdSchema ledgerPaymentStatus"
      and pnames: "\<And>s. s \<in> set LEDGER_PAYMENT_STATUSES \<Longrightarrow>
        typeFor u [(''status'', s)] = Inr (''ledger.payment.'' @ s) \<and> isRoutingKey (''ledger.payment.'' @ s)"
    using bound_namesE [OF conjunct2 [OF ledger_names]] by blast
  note on = names [OF order_status_listed] and pn = pnames [OF payment_status_listed]
  show ?thesis
  proof (cases ev)
    case (OrderEvent d)
    show ?thesis
      using topic_create_iff [OF conjunct1 [OF on] conjunct2 [OF on] assms(2) clock, where n = n and src = "svSource sv"]
      by (simp add: OrderEvent create_ledger_event_def t event_valid_def n order_payload_check [OF assms(1)])
  next
    case (PaymentEvent d)
    show ?thesis
      using topic_create_iff [OF conjunct1 [OF pn] conjunct2 [OF pn] assms(2) clock, where n = n and src = "svSource sv"]
      by (simp add: PaymentEvent create_ledger_event_def u event_valid_def n payment_payload_check [OF assms(1)])
  qed
qed

text \<open>The example ledger's event for its order, and the runtime that goes with the ledger.\<close>

definition ex_event :: ledger_event where
  "ex_event = OrderEvent \<lparr>odOrderId = ''ord_1'', odProduct = Scribbit, odCustomerRef = ''c'', odStatus = OPaid,
     odPreviousStatus = Some OAwaitingPayment, odTotalSats = 1000, odAt = ''1970-01-01T00:00:00.000Z'', odDetail = None\<rparr>"

definition ex_env :: schema_env where
  "ex_env = \<lparr>seParsesDate = (\<lambda>s. svParseDate ex_service s \<noteq> None),
     seRegExp = (\<lambda>p. if p = hex64_pattern then hex64 else (\<lambda>_. False)), seNumber = (\<lambda>_. 0)\<rparr>"

theorem event_valid_iff_created_witness:
  "\<exists>e. create_ledger_event 2 ex_env 0 ''e1'' (svSource ex_service) ex_event = Inr e"
proof -
  have env: "ledger_env ex_service ex_env" by (simp add: ledger_env_def ex_env_def)
  have now: "svParseDate ex_service (toISOString 0) \<noteq> None"
    using date_zero by (simp add: iso_zero date_time_def)
  have "event_valid ex_service ex_event"
    using date_zero sats_1000 by (simp add: event_valid_def ex_event_def ex_service_def)
  with event_valid_iff_created [OF env _ now, of "''e1''" 2 ex_event] show ?thesis by simp
qed

end
