(* ===== verification/EventsOutbox.thy ===== *)
theory EventsOutbox imports EventsTopics begin

text \<open>
  \<open>backoff.ts\<close> and \<open>outbox.ts\<close> of \<open>platform/events/src\<close>: the delay before a retry, the in-memory outbox store with
  the contract of its port, the relay pass of \<open>OutboxPublisher\<close>, and the outbox as a system of relays that share one
  store. Times are whole milliseconds; delays are computed on exact rationals.
\<close>

subsection \<open>Backoff\<close>

datatype jitter = NoJitter | FullJitter | EqualJitter

record BackoffPolicy =
  boInitialMs :: rat
  boFactor :: rat
  boMaxMs :: rat
  boJitter :: "jitter option"

definition DEFAULT_BACKOFF :: BackoffPolicy where
  "DEFAULT_BACKOFF = \<lparr>boInitialMs = 1000, boFactor = 2, boMaxMs = 60000, boJitter = Some NoJitter\<rparr>"

text \<open>\<open>r\<close> is the answer of \<open>random()\<close>.\<close>

definition backoffDelay :: "nat \<Rightarrow> BackoffPolicy \<Rightarrow> rat \<Rightarrow> int" where
  "backoffDelay attempt p r =
     (let base = min (boMaxMs p) (boInitialMs p * boFactor p ^ (attempt - 1)) in
      case boJitter p of
        Some FullJitter \<Rightarrow> \<lfloor>r * base\<rfloor>
      | Some EqualJitter \<Rightarrow> \<lfloor>base / 2 + r * (base / 2)\<rfloor>
      | _ \<Rightarrow> \<lfloor>base\<rfloor>)"

subsection \<open>The store\<close>

record OutboxRecord =
  obId :: string
  obEvent :: EventEnvelope
  obCreatedAt :: int
  obAttempts :: nat
  obNextAttemptAt :: "int option"
  obPublishedAt :: "int option"
  obLastError :: "string option"

text \<open>The map of \<open>InMemoryOutboxStore\<close>, in insertion order.\<close>

type_synonym OutboxRows = "(string \<times> OutboxRecord) list"

definition append_row :: "int \<Rightarrow> EventEnvelope \<Rightarrow> OutboxRows \<Rightarrow> OutboxRows" where
  "append_row now e rows =
     (if map_of rows (evId e) \<noteq> None then rows
      else rows @ [(evId e, \<lparr>obId = evId e, obEvent = e, obCreatedAt = now, obAttempts = 0, obNextAttemptAt = Some now,
                             obPublishedAt = None, obLastError = None\<rparr>)])"

definition outbox_append :: "schema_env \<Rightarrow> int \<Rightarrow> EventEnvelope list \<Rightarrow> OutboxRows \<Rightarrow> topic_error + OutboxRows" where
  "outbox_append env now es rows =
     ebind (emapM (\<lambda>e. assertEnvelope env (envelope_json e)) es) (\<lambda>_. Inr (fold (append_row now) es rows))"

definition is_due :: "int \<Rightarrow> OutboxRecord \<Rightarrow> bool" where
  "is_due now r = (obPublishedAt r = None \<and> (case obNextAttemptAt r of None \<Rightarrow> False | Some t \<Rightarrow> t \<le> now))"

definition due_rows :: "nat \<Rightarrow> int \<Rightarrow> OutboxRows \<Rightarrow> OutboxRecord list" where
  "due_rows limit now rows = take limit (sort_key obCreatedAt (filter (is_due now) (map snd rows)))"

definition lease_rows :: "string set \<Rightarrow> int \<Rightarrow> OutboxRows \<Rightarrow> OutboxRows" where
  "lease_rows ids t rows = map (\<lambda>(k, r). (k, if k \<in> ids then r\<lparr>obNextAttemptAt := Some t\<rparr> else r)) rows"

definition outbox_claim :: "nat \<Rightarrow> int \<Rightarrow> int \<Rightarrow> OutboxRows \<Rightarrow> OutboxRecord list \<times> OutboxRows" where
  "outbox_claim limit now leaseUntil rows =
     (let due = due_rows limit now rows in
      (map (\<lambda>r. r\<lparr>obNextAttemptAt := Some leaseUntil\<rparr>) due, lease_rows (obId ` set due) leaseUntil rows))"

definition markPublished :: "string \<Rightarrow> int \<Rightarrow> OutboxRows \<Rightarrow> OutboxRows" where
  "markPublished i t rows = AList.map_entry i (\<lambda>r. r\<lparr>obPublishedAt := Some t\<rparr>) rows"

definition markFailed :: "string \<Rightarrow> string \<Rightarrow> int option \<Rightarrow> OutboxRows \<Rightarrow> OutboxRows" where
  "markFailed i err nxt rows =
     AList.map_entry i (\<lambda>r. r\<lparr>obAttempts := obAttempts r + 1, obLastError := Some err, obNextAttemptAt := nxt\<rparr>) rows"

definition unpublished :: "OutboxRows \<Rightarrow> OutboxRecord list" where
  "unpublished rows = filter (\<lambda>r. obPublishedAt r = None) (map snd rows)"

subsection \<open>The relay pass\<close>

record OutboxPublisherOptions =
  opBatchSize :: "nat option"
  opLeaseMs :: "int option"
  opBackoff :: "BackoffPolicy option"
  opMaxAttempts :: "nat option"

definition batch_size :: "OutboxPublisherOptions \<Rightarrow> nat" where
  "batch_size opts = (case opBatchSize opts of None \<Rightarrow> 100 | Some n \<Rightarrow> n)"

definition lease_ms :: "OutboxPublisherOptions \<Rightarrow> int" where
  "lease_ms opts = (case opLeaseMs opts of None \<Rightarrow> 30000 | Some n \<Rightarrow> n)"

definition relay_backoff :: "OutboxPublisherOptions \<Rightarrow> BackoffPolicy" where
  "relay_backoff opts = (case opBackoff opts of
     None \<Rightarrow> \<lparr>boInitialMs = 1000, boFactor = 2, boMaxMs = 300000, boJitter = None\<rparr> | Some p \<Rightarrow> p)"

definition max_attempts :: "OutboxPublisherOptions \<Rightarrow> nat" where
  "max_attempts opts = (case opMaxAttempts opts of None \<Rightarrow> 20 | Some n \<Rightarrow> n)"

text \<open>The \<open>catch\<close> of a refused publish: when the row may be claimed again, never once it is parked.\<close>

definition retry_at :: "OutboxPublisherOptions \<Rightarrow> int \<Rightarrow> rat \<Rightarrow> OutboxRecord \<Rightarrow> int option" where
  "retry_at opts now rnd row =
     (let attempts = obAttempts row + 1 in
      if max_attempts opts \<le> attempts then None else Some (now + backoffDelay attempts (relay_backoff opts) rnd))"

text \<open>
  The bus the relay publishes to answers the \<open>n\<close>-th publish with an error or accepts it, in so many milliseconds.
  \<open>owLog\<close> keeps the events it accepted; \<open>owErrors\<close> what \<open>onError\<close> was told.
\<close>

record relay_bus =
  rbPublish :: "nat \<Rightarrow> EventEnvelope \<Rightarrow> string option"
  rbTook :: "nat \<Rightarrow> nat"
  rbRandom :: "nat \<Rightarrow> rat"

record OutboxWorld =
  owRows :: OutboxRows
  owNow :: int
  owLog :: "EventEnvelope list"
  owTries :: nat
  owRunning :: bool
  owErrors :: "(string \<times> string \<times> bool) list"

fun relay_rows :: "OutboxPublisherOptions \<Rightarrow> relay_bus \<Rightarrow> OutboxRecord list \<Rightarrow> OutboxWorld \<Rightarrow> (nat \<times> nat) \<times> OutboxWorld" where
  "relay_rows opts b [] w = ((0, 0), w)"
| "relay_rows opts b (row # rows) w =
     (let n = owTries w; now = owNow w + int (rbTook b n); w1 = w\<lparr>owTries := n + 1, owNow := now\<rparr> in
      case rbPublish b n (obEvent row) of
        Some err \<Rightarrow>
          let nxt = retry_at opts now (rbRandom b n) row;
              ((p, f), w2) = relay_rows opts b rows
                (w1\<lparr>owRows := markFailed (obId row) err nxt (owRows w1),
                    owErrors := owErrors w1 @ [(obId row, err, nxt = None)]\<rparr>)
          in ((p, f + 1), w2)
      | None \<Rightarrow>
          let ((p, f), w2) = relay_rows opts b rows
                (w1\<lparr>owLog := owLog w1 @ [obEvent row], owRows := markPublished (obId row) now (owRows w1)\<rparr>)
          in ((p + 1, f), w2))"

definition relayOnce :: "OutboxPublisherOptions \<Rightarrow> relay_bus \<Rightarrow> OutboxWorld \<Rightarrow> (nat \<times> nat) \<times> OutboxWorld" where
  "relayOnce opts b w =
     (if owRunning w then ((0, 0), w)
      else
        let (rows, st) = outbox_claim (batch_size opts) (owNow w) (owNow w + lease_ms opts) (owRows w);
            (result, w') = relay_rows opts b rows (w\<lparr>owRows := st, owRunning := True\<rparr>)
        in (result, w'\<lparr>owRunning := False\<rparr>))"

definition enqueue ::
  "nat \<Rightarrow> schema_env \<Rightarrow> TopicRegistry option \<Rightarrow> EventEnvelope list \<Rightarrow> OutboxWorld \<Rightarrow> topic_error + OutboxWorld" where
  "enqueue n env registry es w =
     ebind (case registry of None \<Rightarrow> Inr [] | Some reg \<Rightarrow> emapM (registry_assertValid n env reg) es) (\<lambda>_.
     ebind (outbox_append env (owNow w) es (owRows w)) (\<lambda>rows. Inr (w\<lparr>owRows := rows\<rparr>)))"

subsection \<open>The contract of the store\<close>

text \<open>
  What the port promises: \<open>append\<close> adds a row for an id that is not there and leaves every other row alone, \<open>claim\<close>
  hands out due rows, each once, and hides exactly these until the lease ends, \<open>markPublished\<close> and \<open>markFailed\<close>
  touch the row they name.
\<close>

definition fresh_row :: "int \<Rightarrow> EventEnvelope \<Rightarrow> OutboxRecord" where
  "fresh_row now e = \<lparr>obId = evId e, obEvent = e, obCreatedAt = now, obAttempts = 0, obNextAttemptAt = Some now,
     obPublishedAt = None, obLastError = None\<rparr>"

definition rows_ok :: "OutboxRows \<Rightarrow> bool" where
  "rows_ok rows \<longleftrightarrow> distinct (map fst rows) \<and> (\<forall>(k, r) \<in> set rows. obId r = k \<and> evId (obEvent r) = k)"

locale outbox_port =
  fixes row :: "'s \<Rightarrow> string \<Rightarrow> OutboxRecord option"
    and ok :: "'s \<Rightarrow> bool"
    and insert_row :: "int \<Rightarrow> EventEnvelope \<Rightarrow> 's \<Rightarrow> 's"
    and claim :: "nat \<Rightarrow> int \<Rightarrow> int \<Rightarrow> 's \<Rightarrow> OutboxRecord list \<times> 's"
    and published :: "string \<Rightarrow> int \<Rightarrow> 's \<Rightarrow> 's"
    and failed :: "string \<Rightarrow> string \<Rightarrow> int option \<Rightarrow> 's \<Rightarrow> 's"
  assumes row_ids: "ok s \<Longrightarrow> row s k = Some r \<Longrightarrow> obId r = k \<and> evId (obEvent r) = k"
    and insert_ok: "ok s \<Longrightarrow> ok (insert_row now e s)"
    and insert_lookup: "row (insert_row now e s) k = (if k = evId e \<and> row s k = None then Some (fresh_row now e) else row s k)"
    and claim_ok: "ok s \<Longrightarrow> claim n now t s = (batch, s') \<Longrightarrow> ok s' \<and> distinct (map obId batch)"
    and claim_batch: "ok s \<Longrightarrow> claim n now t s = (batch, s') \<Longrightarrow> r \<in> set batch \<Longrightarrow>
        \<exists>c. row s (obId r) = Some c \<and> is_due now c \<and> r = c\<lparr>obNextAttemptAt := Some t\<rparr>"
    and claim_lookup: "ok s \<Longrightarrow> claim n now t s = (batch, s') \<Longrightarrow>
        row s' k = map_option (\<lambda>r. if k \<in> obId ` set batch then r\<lparr>obNextAttemptAt := Some t\<rparr> else r) (row s k)"
    and published_ok: "ok s \<Longrightarrow> ok (published i t s)"
    and published_lookup: "row (published i t s) k = map_option (\<lambda>r. if k = i then r\<lparr>obPublishedAt := Some t\<rparr> else r) (row s k)"
    and failed_ok: "ok s \<Longrightarrow> ok (failed i err nxt s)"
    and failed_lookup: "row (failed i err nxt s) k = map_option (\<lambda>r. if k = i
        then r\<lparr>obAttempts := obAttempts r + 1, obLastError := Some err, obNextAttemptAt := nxt\<rparr> else r) (row s k)"
begin

text \<open>No row is lost, none changes its event, and a published row stays published.\<close>

definition kept :: "'s \<Rightarrow> 's \<Rightarrow> bool" where
  "kept s s' \<longleftrightarrow> (\<forall>k r. row s k = Some r \<longrightarrow>
     (\<exists>r'. row s' k = Some r' \<and> obEvent r' = obEvent r \<and> (obPublishedAt r \<noteq> None \<longrightarrow> obPublishedAt r' \<noteq> None)))"

lemma kept_refl: "kept s s"
  by (simp add: kept_def)

lemma kept_trans: "kept s t \<Longrightarrow> kept t u \<Longrightarrow> kept s u"
  unfolding kept_def by metis

lemma kept_ops:
  "kept s (insert_row now e s)" "kept s (published i t s)" "kept s (failed i err nxt s)"
  "ok s \<Longrightarrow> claim n now t s = (batch, s') \<Longrightarrow> kept s s'"
  by (auto simp: kept_def insert_lookup published_lookup failed_lookup claim_lookup fresh_row_def)

lemma append_facts: "ok s \<Longrightarrow> ok (fold (insert_row now) es s) \<and> kept s (fold (insert_row now) es s)"
proof (induction es arbitrary: s)
  case (Cons e es)
  then show ?case using kept_trans [OF kept_ops(1) [of s now e]] insert_ok by simp
qed (simp add: kept_refl)

text \<open>A row after an append is the old one, or a fresh one of an id that was not there.\<close>

lemma append_lookup:
  "row (fold (insert_row now) es s) k = Some r \<Longrightarrow> row s k = Some r \<or> (row s k = None \<and> obPublishedAt r = None \<and> obEvent r \<in> set es)"
proof (induction es arbitrary: s)
  case (Cons e es)
  from Cons.IH [of "insert_row now e s"] Cons.prems show ?case
    by (auto simp: insert_lookup fresh_row_def split: if_splits)
qed simp

lemma claimed_row:
  assumes "ok s" and "claim n now t s = (batch, s')" and "r \<in> set batch"
  shows "row s' (obId r) = Some r \<and> obPublishedAt r = None \<and> obNextAttemptAt r = Some t"
  using claim_batch [OF assms] claim_lookup [OF assms(1,2), of "obId r"] assms(3) by (auto simp: is_due_def)

end

subsection \<open>The in-memory store keeps the contract\<close>

lemma map_of_lease: "map_of (lease_rows ids t rows) k =
   map_option (\<lambda>r. if k \<in> ids then r\<lparr>obNextAttemptAt := Some t\<rparr> else r) (map_of rows k)"
  by (induction rows) (auto simp: lease_rows_def)

lemma map_of_entry: "map_of (AList.map_entry i f rows) k = map_option (\<lambda>r. if k = i then f r else r) (map_of rows k)"
  by (cases "map_of rows k") (auto simp: AList.map_of_map_entry)

lemma fst_entry: "map fst (AList.map_entry i f rows) = map fst rows"
  by (induction rows) auto

lemma rows_ok_entry: "rows_ok rows \<Longrightarrow> (\<And>r. obId (f r) = obId r \<and> obEvent (f r) = obEvent r) \<Longrightarrow> rows_ok (AList.map_entry i f rows)"
proof -
  assume ok: "rows_ok rows" and f: "\<And>r. obId (f r) = obId r \<and> obEvent (f r) = obEvent r"
  have "\<forall>(k, r) \<in> set (AList.map_entry i f rows). \<exists>q. (k, q) \<in> set rows \<and> obId r = obId q \<and> obEvent r = obEvent q"
    using f by (induction rows) auto
  then show ?thesis using ok by (fastforce simp: rows_ok_def fst_entry)
qed

lemma rows_ok_lookup: "rows_ok rows \<Longrightarrow> map_of rows k = Some r \<longleftrightarrow> (k, r) \<in> set rows"
  by (simp add: rows_ok_def map_of_eq_Some_iff)

lemma rows_ok_ids: "rows_ok rows \<Longrightarrow> map obId (map snd rows) = map fst rows"
  by (auto simp: rows_ok_def)

lemma due_rows_set: "r \<in> set (due_rows n now rows) \<Longrightarrow> r \<in> snd ` set rows \<and> is_due now r"
  by (auto simp: due_rows_def dest: in_set_takeD)

lemma distinct_due: "rows_ok rows \<Longrightarrow> distinct (map obId (due_rows n now rows))"
proof -
  assume ok: "rows_ok rows"
  have "distinct (map obId (map snd rows))" using ok unfolding rows_ok_ids [OF ok] by (simp add: rows_ok_def)
  then have "distinct (map obId (filter (is_due now) (map snd rows)))" by (rule distinct_map_filter)
  then have "distinct (map obId (sort_key obCreatedAt (filter (is_due now) (map snd rows))))"
    by (simp add: distinct_map)
  then show ?thesis by (simp add: due_rows_def take_map [symmetric])
qed

interpretation ob: outbox_port "\<lambda>rows. map_of rows" rows_ok append_row outbox_claim markPublished markFailed
proof (unfold_locales, goal_cases)
  case (1 s k r)
  then show ?case by (auto simp: rows_ok_def dest: map_of_SomeD)
next
  case (2 s now e)
  then show ?case by (auto simp: rows_ok_def append_row_def map_of_eq_None_iff)
next
  case (3 now e s k)
  then show ?case by (auto simp: append_row_def fresh_row_def map_add_def split: option.split)
next
  case (4 s n now t batch s')
  have "map fst (lease_rows ids t s) = map fst s" for ids by (auto simp: lease_rows_def)
  moreover have "\<forall>(k, r) \<in> set (lease_rows ids t s). obId r = k \<and> evId (obEvent r) = k" for ids
    using 4(1) by (auto simp: rows_ok_def lease_rows_def)
  ultimately have "rows_ok (lease_rows ids t s)" for ids using 4(1) by (simp add: rows_ok_def)
  then show ?case using 4(2) distinct_due [OF 4(1)] by (auto simp: outbox_claim_def Let_def comp_def)
next
  case (5 s n now t batch s' r)
  then obtain c where c: "c \<in> set (due_rows n now s)" "r = c\<lparr>obNextAttemptAt := Some t\<rparr>"
    by (auto simp: outbox_claim_def Let_def)
  then have "map_of s (obId c) = Some c"
    using due_rows_set [OF c(1)] 5(1) by (auto simp: rows_ok_lookup) (auto simp: rows_ok_def)
  with c due_rows_set [OF c(1)] show ?case by auto
next
  case (6 s n now t batch s' k)
  then show ?case by (auto simp: outbox_claim_def Let_def map_of_lease image_image)
next
  case (7 s i t)
  then show ?case unfolding markPublished_def by (rule rows_ok_entry) simp
next
  case (8 i t s k)
  then show ?case by (simp add: markPublished_def map_of_entry)
next
  case (9 s i err nxt)
  then show ?case unfolding markFailed_def by (rule rows_ok_entry) simp
next
  case (10 i err nxt s k)
  show ?case unfolding markFailed_def map_of_entry by (rule refl)
qed

end
