(* ===== verification/EventsRelay.thy ===== *)
theory EventsRelay imports EventsOutbox begin

text \<open>
  The outbox as a system: any number of relays share one store, each working through the batch it claimed while the
  clock runs, producers append, and relays crash between any two of their awaits. The steps of one relay are those of
  \<open>relayOnce\<close> (\<open>outbox.ts\<close>), which is shown to be a run of them. Whatever the interleaving, no event is lost or
  invented; when no batch outlasts its lease and no relay crashes, none is delivered twice.
\<close>

subsection \<open>Steps\<close>

text \<open>A relay: the rows of its batch that are left, whether the bus has accepted the first of them, and its lease.\<close>

record relay =
  rlRunning :: bool
  rlBatch :: "OutboxRecord list"
  rlPending :: bool
  rlLease :: int

definition idle_relay :: relay where
  "idle_relay = \<lparr>rlRunning = False, rlBatch = [], rlPending = False, rlLease = 0\<rparr>"

record system =
  syRows :: OutboxRows
  syNow :: int
  syLog :: "EventEnvelope list"
  syRelays :: "nat \<Rightarrow> relay"

definition initial_system :: "int \<Rightarrow> system" where
  "initial_system t = \<lparr>syRows = [], syNow = t, syLog = [], syRelays = (\<lambda>_. idle_relay)\<rparr>"

datatype act = Tick | Enqueue | Begin nat | Accept nat | Reject nat | Settle nat | Finish nat | Crash nat

inductive relay_step :: "OutboxPublisherOptions \<Rightarrow> schema_env \<Rightarrow> system \<Rightarrow> act \<Rightarrow> system \<Rightarrow> bool" for opts env where
  tick: "relay_step opts env s Tick (s\<lparr>syNow := syNow s + int d\<rparr>)"
| enqueue: "outbox_append env (syNow s) es (syRows s) = Inr rows \<Longrightarrow> relay_step opts env s Enqueue (s\<lparr>syRows := rows\<rparr>)"
| claims: "\<not> rlRunning (syRelays s i) \<Longrightarrow>
    outbox_claim (batch_size opts) (syNow s) (syNow s + lease_ms opts) (syRows s) = (batch, rows) \<Longrightarrow>
    relay_step opts env s (Begin i) (s\<lparr>syRows := rows, syRelays := (syRelays s)
      (i := \<lparr>rlRunning = True, rlBatch = batch, rlPending = False, rlLease = syNow s + lease_ms opts\<rparr>)\<rparr>)"
| accept: "rlBatch (syRelays s i) = r # rs \<Longrightarrow> \<not> rlPending (syRelays s i) \<Longrightarrow>
    relay_step opts env s (Accept i) (s\<lparr>syLog := syLog s @ [obEvent r],
      syRelays := (syRelays s)(i := (syRelays s i)\<lparr>rlPending := True\<rparr>)\<rparr>)"
| reject: "rlBatch (syRelays s i) = r # rs \<Longrightarrow> \<not> rlPending (syRelays s i) \<Longrightarrow>
    relay_step opts env s (Reject i) (s\<lparr>syRows := markFailed (obId r) err (retry_at opts (syNow s) rnd r) (syRows s),
      syRelays := (syRelays s)(i := (syRelays s i)\<lparr>rlBatch := rs\<rparr>)\<rparr>)"
| settle: "rlBatch (syRelays s i) = r # rs \<Longrightarrow> rlPending (syRelays s i) \<Longrightarrow>
    relay_step opts env s (Settle i) (s\<lparr>syRows := markPublished (obId r) (syNow s) (syRows s),
      syRelays := (syRelays s)(i := (syRelays s i)\<lparr>rlBatch := rs, rlPending := False\<rparr>)\<rparr>)"
| finish: "rlRunning (syRelays s i) \<Longrightarrow> rlBatch (syRelays s i) = [] \<Longrightarrow>
    relay_step opts env s (Finish i) (s\<lparr>syRelays := (syRelays s)(i := (syRelays s i)\<lparr>rlRunning := False\<rparr>)\<rparr>)"
| crash: "relay_step opts env s (Crash i) (s\<lparr>syRelays := (syRelays s)(i := idle_relay)\<rparr>)"

inductive_cases relay_stepE: "relay_step opts env s a s'"

inductive runs :: "OutboxPublisherOptions \<Rightarrow> schema_env \<Rightarrow> system \<Rightarrow> system \<Rightarrow> bool" for opts env where
  none: "runs opts env s s"
| more: "runs opts env s t \<Longrightarrow> relay_step opts env t a u \<Longrightarrow> runs opts env s u"

subsection \<open>Nothing is lost or invented\<close>

definition delivered_ok :: "system \<Rightarrow> bool" where
  "delivered_ok s \<longleftrightarrow> rows_ok (syRows s) \<and>
     (\<forall>k r. map_of (syRows s) k = Some r \<longrightarrow> obPublishedAt r \<noteq> None \<longrightarrow> obEvent r \<in> set (syLog s)) \<and>
     (\<forall>e \<in> set (syLog s). \<exists>r. map_of (syRows s) (evId e) = Some r \<and> obEvent r = e)"

definition batch_ok :: "system \<Rightarrow> relay \<Rightarrow> bool" where
  "batch_ok s x \<longleftrightarrow> (\<forall>r \<in> set (rlBatch x). \<exists>c. map_of (syRows s) (obId r) = Some c \<and> obEvent c = obEvent r) \<and>
     (\<not> rlRunning x \<longrightarrow> rlBatch x = []) \<and> (rlPending x \<longrightarrow> rlBatch x \<noteq> [] \<and> obEvent (hd (rlBatch x)) \<in> set (syLog s))"

definition system_ok :: "system \<Rightarrow> bool" where
  "system_ok s \<longleftrightarrow> delivered_ok s \<and> (\<forall>i. batch_ok s (syRelays s i))"

lemma step_kept: "rows_ok (syRows s) \<Longrightarrow> relay_step opts env s a s' \<Longrightarrow>
   rows_ok (syRows s') \<and> ob.kept (syRows s) (syRows s') \<and> set (syLog s) \<subseteq> set (syLog s')"
  by (erule relay_step.cases)
     (auto simp: ob.kept_refl outbox_append_def ebind_eq_Inr ob.append_facts ob.published_ok ob.failed_ok
       intro: ob.kept_ops dest: ob.claim_ok)

lemma batch_ok_mono:
  "batch_ok s x \<Longrightarrow> ob.kept (syRows s) (syRows s') \<Longrightarrow> set (syLog s) \<subseteq> set (syLog s') \<Longrightarrow> batch_ok s' x"
  by (fastforce simp: batch_ok_def ob.kept_def)

lemma initial_ok: "system_ok (initial_system t)"
  by (simp add: system_ok_def delivered_ok_def batch_ok_def initial_system_def idle_relay_def rows_ok_def)

lemma log_kept:
  "\<forall>e \<in> set (syLog s). \<exists>r. map_of (syRows s) (evId e) = Some r \<and> obEvent r = e \<Longrightarrow> ob.kept (syRows s) (syRows s') \<Longrightarrow>
   \<forall>e \<in> set (syLog s). \<exists>r. map_of (syRows s') (evId e) = Some r \<and> obEvent r = e"
  by (force simp: ob.kept_def)

lemma step_delivered:
  assumes ok: "system_ok s" and step: "relay_step opts env s a s'"
  shows "delivered_ok s'"
proof -
  have k: "rows_ok (syRows s)" "rows_ok (syRows s')" "ob.kept (syRows s) (syRows s')"
    using ok step_kept [OF _ step] by (auto simp: system_ok_def delivered_ok_def)
  have pub: "map_of (syRows s) i = Some r \<Longrightarrow> obPublishedAt r \<noteq> None \<Longrightarrow> obEvent r \<in> set (syLog s)" for i r
    using ok by (auto simp: system_ok_def delivered_ok_def)
  have known: "\<forall>e \<in> set (syLog s). \<exists>r. map_of (syRows s') (evId e) = Some r \<and> obEvent r = e"
    using ok by (intro log_kept [OF _ k(3)]) (auto simp: system_ok_def delivered_ok_def)
  have bat: "batch_ok s (syRelays s i)" for i using ok by (simp add: system_ok_def)
  show ?thesis
    using step
  proof cases
    case (enqueue es rows)
    then show ?thesis
      using k known pub by (auto simp: delivered_ok_def outbox_append_def ebind_eq_Inr dest!: ob.append_lookup)
  next
    case (claims i batch rows)
    then show ?thesis
      using k known pub by (auto simp: delivered_ok_def ob.claim_lookup [OF k(1) claims(4)] split: if_splits)
  next
    case (accept i r rs)
    then obtain c where "map_of (syRows s) (obId r) = Some c" "obEvent c = obEvent r"
      using bat [of i] by (auto simp: batch_ok_def)
    moreover from this have "evId (obEvent r) = obId r" using ob.row_ids [OF k(1)] by metis
    ultimately show ?thesis using accept k known pub by (auto simp: delivered_ok_def)
  next
    case (reject i r rs err rnd)
    then show ?thesis using k known pub by (auto simp: delivered_ok_def ob.failed_lookup split: if_splits)
  next
    case (settle i r rs)
    then have "obEvent r \<in> set (syLog s)" "\<exists>c. map_of (syRows s) (obId r) = Some c \<and> obEvent c = obEvent r"
      using bat [of i] by (auto simp: batch_ok_def)
    then show ?thesis using settle k known pub by (auto simp: delivered_ok_def ob.published_lookup split: if_splits)
  qed (use k known pub in \<open>auto simp: delivered_ok_def\<close>)
qed

lemma step_batches:
  assumes ok: "system_ok s" and step: "relay_step opts env s a s'"
  shows "batch_ok s' (syRelays s' j)"
proof -
  have k: "rows_ok (syRows s)" "ob.kept (syRows s) (syRows s')" "set (syLog s) \<subseteq> set (syLog s')"
    using ok step_kept [OF _ step] by (auto simp: system_ok_def delivered_ok_def)
  have old: "batch_ok s' (syRelays s i)" for i
    using ok batch_ok_mono [OF _ k(2,3)] by (simp add: system_ok_def)
  have idle: "batch_ok s' idle_relay" by (simp add: batch_ok_def idle_relay_def)
  show ?thesis
    using step
  proof cases
    case (claims i batch rows)
    have "batch_ok s' \<lparr>rlRunning = True, rlBatch = batch, rlPending = False, rlLease = l\<rparr>" for l
      using ob.claimed_row [OF k(1) claims(4)] claims(2) by (auto simp: batch_ok_def)
    then show ?thesis using claims old by auto
  next
    case (accept i r rs)
    then have "batch_ok s' ((syRelays s i)\<lparr>rlPending := True\<rparr>)" using old [of i] by (auto simp: batch_ok_def)
    then show ?thesis using accept old by auto
  next
    case (reject i r rs err rnd)
    then have "batch_ok s' ((syRelays s i)\<lparr>rlBatch := rs\<rparr>)" using old [of i] by (auto simp: batch_ok_def)
    then show ?thesis using reject old by auto
  next
    case (settle i r rs)
    then have "batch_ok s' ((syRelays s i)\<lparr>rlBatch := rs, rlPending := False\<rparr>)" using old [of i] by (auto simp: batch_ok_def)
    then show ?thesis using settle old by auto
  next
    case (finish i)
    then have "batch_ok s' ((syRelays s i)\<lparr>rlRunning := False\<rparr>)" using old [of i] by (auto simp: batch_ok_def)
    then show ?thesis using finish old by auto
  qed (use old idle in auto)
qed

lemma runs_ok: "runs opts env s s' \<Longrightarrow> system_ok s \<Longrightarrow> system_ok s' \<and> ob.kept (syRows s) (syRows s')"
proof (induction rule: runs.induct)
  case (more s t a u)
  then have t: "system_ok t" "ob.kept (syRows s) (syRows t)" by auto
  then have "rows_ok (syRows t)" by (simp add: system_ok_def delivered_ok_def)
  from step_kept [OF this more(2)] t show ?case
    using step_delivered [OF t(1) more(2)] step_batches [OF t(1) more(2)] ob.kept_trans by (auto simp: system_ok_def)
qed (simp add: ob.kept_refl)

text \<open>
  C18: no event is lost and none is made up. From an empty outbox, with any number of relays, any interleaving, any
  refusals of the bus and any crashes: a row stays in the store with its event; a row that is marked published was
  accepted by the bus; and everything the bus accepted is the event of a row.
\<close>

theorem outbox_at_least_once:
  assumes "runs opts env (initial_system t) s" and "runs opts env s s'"
    and "map_of (syRows s) k = Some r"
  shows "\<exists>r'. map_of (syRows s') k = Some r' \<and> obEvent r' = obEvent r \<and>
      (obPublishedAt r' \<noteq> None \<longrightarrow> obEvent r \<in> set (syLog s')) \<and>
      (\<forall>e \<in> set (syLog s'). \<exists>c. map_of (syRows s') (evId e) = Some c \<and> obEvent c = e)"
proof -
  have "system_ok s" using runs_ok [OF assms(1) initial_ok] by simp
  from runs_ok [OF assms(2) this] have s: "delivered_ok s'" "ob.kept (syRows s) (syRows s')"
    by (auto simp: system_ok_def)
  from s(2) assms(3) obtain r' where r': "map_of (syRows s') k = Some r'" "obEvent r' = obEvent r"
    unfolding ob.kept_def by blast
  then show ?thesis using s(1) unfolding delivered_ok_def by metis
qed

subsection \<open>Delivered once\<close>

lemma append_row_keeps: "map_of rows k = Some c \<Longrightarrow> map_of (fold (append_row now) es rows) k = Some c"
  by (induction es arbitrary: rows) (simp_all add: ob.insert_lookup)

text \<open>
  A careful step: no relay crashes, and every batch that is not finished is still within its lease. This is what
  \<open>leaseMs\<close> asks for (\<open>must exceed a batch's publish time\<close>).
\<close>

definition in_lease :: "system \<Rightarrow> bool" where
  "in_lease s \<longleftrightarrow> (\<forall>i. rlBatch (syRelays s i) \<noteq> [] \<longrightarrow> syNow s < rlLease (syRelays s i))"

inductive careful_runs :: "OutboxPublisherOptions \<Rightarrow> schema_env \<Rightarrow> system \<Rightarrow> system \<Rightarrow> bool" for opts env where
  none: "careful_runs opts env s s"
| more: "careful_runs opts env s t \<Longrightarrow> relay_step opts env t a u \<Longrightarrow> (\<forall>i. a \<noteq> Crash i) \<Longrightarrow> in_lease u \<Longrightarrow> careful_runs opts env s u"

text \<open>
  Every relay holds its rows: unpublished, hidden until its lease ends, and held by no other relay. \<open>B\<close> and \<open>L\<close> are
  the batches and the leases of the relays, \<open>M\<close> the rows by id.
\<close>

definition holds :: "(nat \<Rightarrow> OutboxRecord list) \<Rightarrow> (nat \<Rightarrow> int) \<Rightarrow> (string \<Rightarrow> OutboxRecord option) \<Rightarrow> bool" where
  "holds B L M \<longleftrightarrow> (\<forall>i. distinct (map obId (B i))) \<and>
     (\<forall>i. \<forall>r \<in> set (B i). \<exists>c. M (obId r) = Some c \<and> obPublishedAt c = None \<and> obNextAttemptAt c = Some (L i)) \<and>
     (\<forall>i j. i \<noteq> j \<longrightarrow> (\<forall>r \<in> set (B i). \<forall>q \<in> set (B j). obId r \<noteq> obId q))"

definition held_ok :: "system \<Rightarrow> bool" where
  "held_ok s \<longleftrightarrow> holds (\<lambda>i. rlBatch (syRelays s i)) (\<lambda>i. rlLease (syRelays s i)) (map_of (syRows s))"

lemma holds_rows: "holds B L M \<Longrightarrow> (\<And>i r. r \<in> set (B i) \<Longrightarrow> M' (obId r) = M (obId r)) \<Longrightarrow> holds B L M'"
  by (simp add: holds_def)

lemma holds_row: "holds B L M \<Longrightarrow> r \<in> set (B i) \<Longrightarrow> \<exists>c. M (obId r) = Some c \<and> obPublishedAt c = None \<and> obNextAttemptAt c = Some (L i)"
  by (simp add: holds_def)

lemma holds_apart: "holds B L M \<Longrightarrow> r \<in> set (B i) \<Longrightarrow> q \<in> set (B j) \<Longrightarrow> obId r = obId q \<Longrightarrow> i = j"
  unfolding holds_def by metis

lemma holds_tail: "holds B L M \<Longrightarrow> B i = r # rs \<Longrightarrow> q \<in> set ((B(i := rs)) j) \<Longrightarrow> obId q \<noteq> obId r"
proof -
  assume h: "holds B L M" and b: "B i = r # rs" and q: "q \<in> set ((B(i := rs)) j)"
  show ?thesis
  proof (cases "j = i")
    case True
    have "distinct (map obId (B i))" using h by (simp add: holds_def)
    then have "obId r \<notin> obId ` set rs" using b by simp
    moreover have "obId q \<in> obId ` set rs" using True q by simp
    ultimately show ?thesis by metis
  next
    case False
    then show ?thesis using holds_apart [OF h, of r i q j] b q by auto
  qed
qed

lemma holds_drop: "holds B L M \<Longrightarrow> B i = r # rs \<Longrightarrow> holds (B(i := rs)) L M"
proof -
  assume h: "holds B L M" and b: "B i = r # rs"
  have "distinct (map obId (B i))" using h by (simp add: holds_def)
  then have "distinct (map obId ((B(i := rs)) j))" for j using h b by (simp add: holds_def)
  moreover have "set ((B(i := rs)) j) \<subseteq> set (B j)" for j using b by auto
  ultimately show ?thesis using h unfolding holds_def by (meson subsetD)
qed

lemma holds_claim:
  assumes "holds B L M" and "distinct (map obId b)"
    and "\<And>r. r \<in> set b \<Longrightarrow> \<exists>c. M (obId r) = Some c \<and> obPublishedAt c = None \<and> obNextAttemptAt c = Some l"
    and "\<And>r q j. r \<in> set b \<Longrightarrow> q \<in> set (B j) \<Longrightarrow> obId r \<noteq> obId q"
  shows "holds (B(i := b)) (L(i := l)) M"
  using assms unfolding holds_def by (simp add: eq_commute) metis

lemma relays_same: "(\<lambda>j. f (R j))(i := f (R i)) = (\<lambda>j. f (R j))"
  by auto

lemma relays_upd: "(\<lambda>j. f ((R(i := x)) j)) = (\<lambda>j. f (R j))(i := f x)"
  by auto

text \<open>No event twice in the log, and what is in the log and not yet marked is the first row of a relay that waits to mark it.\<close>

definition logged_ok :: "system \<Rightarrow> bool" where
  "logged_ok s \<longleftrightarrow> distinct (map evId (syLog s)) \<and>
     (\<forall>e \<in> set (syLog s). \<forall>c. map_of (syRows s) (evId e) = Some c \<longrightarrow> obPublishedAt c = None \<longrightarrow>
        (\<exists>i. rlPending (syRelays s i) \<and> rlBatch (syRelays s i) \<noteq> [] \<and> obId (hd (rlBatch (syRelays s i))) = evId e))"

lemma step_held:
  assumes ok: "system_ok s" and lease: "in_lease s" and held: "held_ok s" and step: "relay_step opts env s a s'"
    and a: "\<forall>i. a \<noteq> Crash i"
  shows "held_ok s'"
proof -
  have rows: "rows_ok (syRows s)" using ok by (simp add: system_ok_def delivered_ok_def)
  have h: "holds (\<lambda>i. rlBatch (syRelays s i)) (\<lambda>i. rlLease (syRelays s i)) (map_of (syRows s))"
    using held by (simp add: held_ok_def)
  show ?thesis
    using step
  proof cases
    case (enqueue es rows')
    have "map_of (fold (append_row (syNow s)) es (syRows s)) (obId r) = map_of (syRows s) (obId r)"
      if "r \<in> set (rlBatch (syRelays s i))" for r i
      using append_row_keeps holds_row [OF h that] by force
    then have "holds (\<lambda>i. rlBatch (syRelays s i)) (\<lambda>i. rlLease (syRelays s i)) (map_of (fold (append_row (syNow s)) es (syRows s)))"
      using holds_rows [OF h] by blast
    then show ?thesis using enqueue by (auto simp: held_ok_def outbox_append_def ebind_eq_Inr)
  next
    case (claims i batch rows')
    have fresh: "obId r \<noteq> obId q" if r: "r \<in> set batch" and q: "q \<in> set (rlBatch (syRelays s k))" for r q k
    proof
      assume eq: "obId r = obId q"
      obtain c where "map_of (syRows s) (obId r) = Some c" "is_due (syNow s) c"
        using ob.claim_batch [OF rows claims(4) r] by blast
      moreover have "syNow s < rlLease (syRelays s k)" using lease q by (force simp: in_lease_def)
      ultimately show False using holds_row [OF h q] eq by (auto simp: is_due_def)
    qed
    have "map_of rows' (obId q) = map_of (syRows s) (obId q)" if "q \<in> set (rlBatch (syRelays s k))" for q k
    proof -
      have "obId q \<notin> obId ` set batch" using fresh [OF _ that] by force
      then show ?thesis using ob.claim_lookup [OF rows claims(4), of "obId q"] by (simp add: option.map_ident)
    qed
    then have "holds (\<lambda>i. rlBatch (syRelays s i)) (\<lambda>i. rlLease (syRelays s i)) (map_of rows')"
      using holds_rows [OF h] by blast
    then have "holds ((\<lambda>i. rlBatch (syRelays s i))(i := batch)) ((\<lambda>i. rlLease (syRelays s i))(i := syNow s + lease_ms opts)) (map_of rows')"
    proof (rule holds_claim)
      show "distinct (map obId batch)" using ob.claim_ok [OF rows claims(4)] by simp
      show "\<exists>c. map_of rows' (obId r) = Some c \<and> obPublishedAt c = None \<and> obNextAttemptAt c = Some (syNow s + lease_ms opts)"
        if "r \<in> set batch" for r using ob.claimed_row [OF rows claims(4) that] by blast
      show "obId r \<noteq> obId q" if "r \<in> set batch" "q \<in> set (rlBatch (syRelays s j))" for r q j by (rule fresh [OF that])
    qed
    then show ?thesis using claims by (simp add: held_ok_def relays_upd [where f = rlBatch] relays_upd [where f = rlLease] del: fun_upd_apply)
  next
    case (accept i r rs)
    have "(\<lambda>j. rlBatch (((syRelays s)(i := (syRelays s i)\<lparr>rlPending := True\<rparr>)) j)) = (\<lambda>j. rlBatch (syRelays s j))"
      "(\<lambda>j. rlLease (((syRelays s)(i := (syRelays s i)\<lparr>rlPending := True\<rparr>)) j)) = (\<lambda>j. rlLease (syRelays s j))" by auto
    then show ?thesis using accept h by (simp add: held_ok_def del: fun_upd_apply)
  next
    case (reject i r rs err rnd)
    from holds_rows [OF holds_drop [OF h reject(3)], of "map_of (syRows s')"] holds_tail [OF h reject(3)]
    have "holds ((\<lambda>i. rlBatch (syRelays s i))(i := rs)) (\<lambda>i. rlLease (syRelays s i)) (map_of (syRows s'))"
      by (auto simp: reject ob.failed_lookup option.map_ident simp del: fun_upd_apply)
    then show ?thesis using reject by (simp add: held_ok_def relays_upd [where f = rlBatch] relays_upd [where f = rlLease] relays_same [where f = rlLease] del: fun_upd_apply)
  next
    case (settle i r rs)
    from holds_rows [OF holds_drop [OF h settle(3)], of "map_of (syRows s')"] holds_tail [OF h settle(3)]
    have "holds ((\<lambda>i. rlBatch (syRelays s i))(i := rs)) (\<lambda>i. rlLease (syRelays s i)) (map_of (syRows s'))"
      by (auto simp: settle ob.published_lookup option.map_ident simp del: fun_upd_apply)
    then show ?thesis using settle by (simp add: held_ok_def relays_upd [where f = rlBatch] relays_upd [where f = rlLease] relays_same [where f = rlLease] del: fun_upd_apply)
  next
    case (finish i)
    have "(\<lambda>j. rlBatch (((syRelays s)(i := (syRelays s i)\<lparr>rlRunning := False\<rparr>)) j)) = (\<lambda>j. rlBatch (syRelays s j))"
      "(\<lambda>j. rlLease (((syRelays s)(i := (syRelays s i)\<lparr>rlRunning := False\<rparr>)) j)) = (\<lambda>j. rlLease (syRelays s j))" by auto
    then show ?thesis using finish h by (simp add: held_ok_def del: fun_upd_apply)
  qed (use a held in \<open>auto simp: held_ok_def\<close>)
qed

lemma step_logged:
  assumes ok: "system_ok s" and lease: "in_lease s" and held: "held_ok s" and logged: "logged_ok s"
    and step: "relay_step opts env s a s'" and a: "\<forall>i. a \<noteq> Crash i"
  shows "logged_ok s'"
proof -
  have rows: "rows_ok (syRows s)" using ok by (simp add: system_ok_def delivered_ok_def)
  have h: "holds (\<lambda>i. rlBatch (syRelays s i)) (\<lambda>i. rlLease (syRelays s i)) (map_of (syRows s))"
    using held by (simp add: held_ok_def)
  have dist: "distinct (map evId (syLog s))" using logged by (simp add: logged_ok_def)
  have waits: "\<exists>i. rlPending (syRelays s i) \<and> rlBatch (syRelays s i) \<noteq> [] \<and> obId (hd (rlBatch (syRelays s i))) = evId e"
    if "e \<in> set (syLog s)" "map_of (syRows s) (evId e) = Some c" "obPublishedAt c = None" for e c
    using logged that by (simp add: logged_ok_def)
  have known: "\<exists>c. map_of (syRows s) (evId e) = Some c" if "e \<in> set (syLog s)" for e
    using ok that by (auto simp: system_ok_def delivered_ok_def)
  text \<open>The head of a relay that waits for the bus is not in the log.\<close>
  have silent: "obId r \<noteq> evId e" if e: "e \<in> set (syLog s)" and i: "rlBatch (syRelays s i) = r # rs" "\<not> rlPending (syRelays s i)" for e i r rs
  proof
    assume eq: "obId r = evId e"
    obtain c where "map_of (syRows s) (evId e) = Some c" "obPublishedAt c = None"
      using holds_row [OF h, of r i] i eq by auto
    then obtain k where k: "rlPending (syRelays s k)" "rlBatch (syRelays s k) \<noteq> []" "obId (hd (rlBatch (syRelays s k))) = evId e"
      using waits [OF e] by blast
    have "i = k" using holds_apart [OF h, of r i "hd (rlBatch (syRelays s k))" k] i k eq by simp
    with i k show False by simp
  qed
  show ?thesis
    using step
  proof cases
    case (enqueue es rows')
    then have "rows' = fold (append_row (syNow s)) es (syRows s)" by (auto simp: outbox_append_def ebind_eq_Inr)
    then have "map_of rows' (evId e) = map_of (syRows s) (evId e)" if "e \<in> set (syLog s)" for e
      using known [OF that] append_row_keeps by force
    then show ?thesis using enqueue dist waits by (simp add: logged_ok_def)
  next
    case (claims i batch rows')
    have "\<exists>k. k \<noteq> i \<and> rlPending (syRelays s k) \<and> rlBatch (syRelays s k) \<noteq> [] \<and> obId (hd (rlBatch (syRelays s k))) = evId e"
      if e: "e \<in> set (syLog s)" "map_of rows' (evId e) = Some c" "obPublishedAt c = None" for e c
    proof -
      obtain c' where "map_of (syRows s) (evId e) = Some c'" "obPublishedAt c' = None"
        using e(2,3) ob.claim_lookup [OF rows claims(4), of "evId e"] by (auto split: if_splits)
      then obtain k where k: "rlPending (syRelays s k)" "rlBatch (syRelays s k) \<noteq> []" "obId (hd (rlBatch (syRelays s k))) = evId e"
        using waits [OF e(1)] by blast
      moreover have "k \<noteq> i" using claims(3) ok k(1,2) by (auto simp: system_ok_def batch_ok_def)
      ultimately show ?thesis by blast
    qed
    then show ?thesis using claims dist by (auto simp: logged_ok_def)
  next
    case (accept i r rs)
    obtain c where "map_of (syRows s) (obId r) = Some c" "obEvent c = obEvent r"
      using ok accept(3) unfolding system_ok_def batch_ok_def by (metis list.set_intros(1))
    then have r: "evId (obEvent r) = obId r" using ob.row_ids [OF rows] by metis
    have "distinct (map evId (syLog s'))" using dist accept silent r by force
    moreover have "\<exists>k. rlPending (syRelays s' k) \<and> rlBatch (syRelays s' k) \<noteq> [] \<and> obId (hd (rlBatch (syRelays s' k))) = evId e"
      if "e \<in> set (syLog s')" "map_of (syRows s') (evId e) = Some c" "obPublishedAt c = None" for e c
    proof (cases "e = obEvent r")
      case True
      then show ?thesis using accept r by (intro exI [of _ i]) simp
    next
      case False
      with that accept obtain k where "rlPending (syRelays s k)" "rlBatch (syRelays s k) \<noteq> []"
          "obId (hd (rlBatch (syRelays s k))) = evId e"
        using waits [of e c] by auto
      then show ?thesis using accept by (intro exI [of _ k]) auto
    qed
    ultimately show ?thesis by (simp add: logged_ok_def)
  next
    case (reject i r rs err rnd)
    have "\<exists>k. rlPending (syRelays s' k) \<and> rlBatch (syRelays s' k) \<noteq> [] \<and> obId (hd (rlBatch (syRelays s' k))) = evId e"
      if e: "e \<in> set (syLog s)" "map_of (syRows s') (evId e) = Some c" "obPublishedAt c = None" for e c
    proof -
      obtain k where "rlPending (syRelays s k)" "rlBatch (syRelays s k) \<noteq> []" "obId (hd (rlBatch (syRelays s k))) = evId e"
        using waits [of e c] e silent [OF e(1) reject(3,4)]
        by (auto simp: reject ob.failed_lookup option.map_ident)
      then show ?thesis using reject by (intro exI [of _ k]) auto
    qed
    then show ?thesis using dist reject by (simp add: logged_ok_def)
  next
    case (settle i r rs)
    have "\<exists>k. rlPending (syRelays s' k) \<and> rlBatch (syRelays s' k) \<noteq> [] \<and> obId (hd (rlBatch (syRelays s' k))) = evId e"
      if l: "e \<in> set (syLog s)" and m: "map_of (syRows s') (evId e) = Some c" and p: "obPublishedAt c = None" for e c
    proof -
      have ne: "evId e \<noteq> obId r"
      proof
        assume "evId e = obId r"
        then obtain q where "c = q\<lparr>obPublishedAt := Some (syNow s)\<rparr>" using m by (auto simp: settle ob.published_lookup)
        with p show False by simp
      qed
      then have e: "map_of (syRows s) (evId e) = Some c" "evId e \<noteq> obId r"
        using m by (simp_all add: settle ob.published_lookup option.map_ident)
      then obtain k where "rlPending (syRelays s k)" "rlBatch (syRelays s k) \<noteq> []" "obId (hd (rlBatch (syRelays s k))) = evId e"
        using waits [OF l e(1) p] by blast
      moreover from this e(2) settle(3) have "k \<noteq> i" by auto
      ultimately show ?thesis using settle by (intro exI [of _ k]) auto
    qed
    then show ?thesis using dist settle by (simp add: logged_ok_def)
  next
    case (finish i)
    have "rlPending (syRelays s' k) = rlPending (syRelays s k)" "rlBatch (syRelays s' k) = rlBatch (syRelays s k)" for k
      using finish by auto
    then show ?thesis using dist waits finish by (simp add: logged_ok_def)
  qed (use a logged in \<open>auto simp: logged_ok_def\<close>)
qed

lemma careful_runs_ok:
  "careful_runs opts env s s' \<Longrightarrow> system_ok s \<Longrightarrow> in_lease s \<Longrightarrow> held_ok s \<Longrightarrow> logged_ok s \<Longrightarrow>
   system_ok s' \<and> in_lease s' \<and> held_ok s' \<and> logged_ok s'"
proof (induction rule: careful_runs.induct)
  case (more s t a u)
  then have t: "system_ok t" "in_lease t" "held_ok t" "logged_ok t" by auto
  show ?case
    using step_delivered [OF t(1) more(2)] step_batches [OF t(1) more(2)] step_held [OF t(1,2,3) more(2,3)]
      step_logged [OF t more(2,3)] more(4) by (simp add: system_ok_def)
qed simp

lemma initial_careful: "in_lease (initial_system t)" "held_ok (initial_system t)" "logged_ok (initial_system t)"
  by (simp_all add: in_lease_def held_ok_def holds_def logged_ok_def initial_system_def idle_relay_def)

text \<open>
  C19: within their leases, relays deliver each event once. When no relay crashes and every batch is finished before
  its lease ends, the bus accepts the event of every published row exactly once, however many relays share the store
  and however their steps interleave, and it never accepts any event twice.
\<close>

theorem outbox_exactly_once:
  assumes "careful_runs opts env (initial_system t) s"
  shows "distinct (syLog s) \<and>
    (\<forall>k r. map_of (syRows s) k = Some r \<longrightarrow> obPublishedAt r \<noteq> None \<longrightarrow> count_list (syLog s) (obEvent r) = 1)"
proof -
  have ok: "delivered_ok s" "logged_ok s"
    using careful_runs_ok [OF assms initial_ok initial_careful] by (simp_all add: system_ok_def)
  then have d: "distinct (syLog s)" by (auto simp: logged_ok_def distinct_map)
  have "e \<in> set es \<Longrightarrow> distinct es \<Longrightarrow> count_list es e = 1" for e :: EventEnvelope and es
    by (induction es) (auto simp: count_list_0_iff)
  with d ok(1) show ?thesis unfolding delivered_ok_def by blast
qed

subsection \<open>An example run\<close>

text \<open>One event is enqueued, claimed by the first relay, accepted by the bus and marked.\<close>

definition ex_envelope :: EventEnvelope where
  "ex_envelope = \<lparr>evId = ''e1'', evSource = ''urn:bsh:ledger'', evType = ''ledger.order.paid'', evSubject = None,
     evTime = ''1970-01-01T00:00:00.000Z'', evDataschema = None, evData = JNull, evTraceparent = None\<rparr>"

definition ex_relay_opts :: OutboxPublisherOptions where
  "ex_relay_opts = \<lparr>opBatchSize = None, opLeaseMs = None, opBackoff = None, opMaxAttempts = None\<rparr>"

definition ex_row :: "int option \<Rightarrow> OutboxRecord" where
  "ex_row p = \<lparr>obId = ''e1'', obEvent = ex_envelope, obCreatedAt = 0, obAttempts = 0,
     obNextAttemptAt = Some 30000, obPublishedAt = p, obLastError = None\<rparr>"

definition ex_system :: "OutboxRows \<Rightarrow> EventEnvelope list \<Rightarrow> OutboxRecord list \<Rightarrow> bool \<Rightarrow> system" where
  "ex_system rows sent batch pending = \<lparr>syRows = rows, syNow = 0, syLog = sent,
     syRelays = (\<lambda>_. idle_relay)(0 := \<lparr>rlRunning = True, rlBatch = batch, rlPending = pending, rlLease = 30000\<rparr>)\<rparr>"

definition ex_done :: system where
  "ex_done = ex_system [(''e1'', ex_row (Some 0))] [ex_envelope] [] False"

lemma ex_append: "outbox_append iso_env 0 [ex_envelope] [] = Inr [(''e1'', fresh_row 0 ex_envelope)]"
proof -
  have "assertEnvelope iso_env (envelope_json ex_envelope) = Inr ()" by code_simp
  then show ?thesis by (simp add: outbox_append_def append_row_def fresh_row_def ex_envelope_def)
qed

lemma ex_claim: "outbox_claim (batch_size ex_relay_opts) 0 (0 + lease_ms ex_relay_opts) [(''e1'', fresh_row 0 ex_envelope)] =
   ([ex_row None], [(''e1'', ex_row None)])"
  by (simp add: outbox_claim_def due_rows_def is_due_def lease_rows_def fresh_row_def ex_row_def batch_size_def lease_ms_def
      ex_relay_opts_def ex_envelope_def Let_def)

lemma ex_run: "careful_runs ex_relay_opts iso_env (initial_system 0) ex_done"
proof -
  let ?s1 = "(initial_system 0)\<lparr>syRows := [(''e1'', fresh_row 0 ex_envelope)]\<rparr>"
  let ?s2 = "ex_system [(''e1'', ex_row None)] [] [ex_row None] False"
  let ?s3 = "ex_system [(''e1'', ex_row None)] [ex_envelope] [ex_row None] True"
  have 1: "relay_step ex_relay_opts iso_env (initial_system 0) Enqueue ?s1"
    by (rule relay_step.enqueue [where es = "[ex_envelope]"]) (simp add: initial_system_def ex_append)
  have 2: "relay_step ex_relay_opts iso_env ?s1 (Begin 0) ?s2"
    using relay_step.claims [of ?s1 0 ex_relay_opts "[ex_row None]" "[(''e1'', ex_row None)]" iso_env] ex_claim
    by (simp add: initial_system_def idle_relay_def ex_system_def lease_ms_def ex_relay_opts_def)
  have 3: "relay_step ex_relay_opts iso_env ?s2 (Accept 0) ?s3"
    using relay_step.accept [of ?s2 0 "ex_row None" "[]" ex_relay_opts iso_env] by (simp add: ex_system_def ex_row_def)
  have 4: "relay_step ex_relay_opts iso_env ?s3 (Settle 0) ex_done"
    using relay_step.settle [of ?s3 0 "ex_row None" "[]" ex_relay_opts iso_env]
    by (simp add: ex_system_def ex_done_def ex_row_def markPublished_def)
  have l: "in_lease ?s1" "in_lease ?s2" "in_lease ?s3" "in_lease ex_done"
    by (auto simp: in_lease_def initial_system_def idle_relay_def ex_system_def ex_done_def)
  show ?thesis
    by (rule careful_runs.more [OF careful_runs.more [OF careful_runs.more [OF careful_runs.more [OF careful_runs.none 1 _ l(1)]
      2 _ l(2)] 3 _ l(3)] 4 _ l(4)]) simp_all
qed

lemma careful_runs_runs: "careful_runs opts env s s' \<Longrightarrow> runs opts env s s'"
  by (induction rule: careful_runs.induct) (auto intro: runs.intros)

lemma ex_done_row: "map_of (syRows ex_done) ''e1'' = Some (ex_row (Some 0))"
  by (simp add: ex_done_def ex_system_def)

theorem outbox_at_least_once_witness: "ex_envelope \<in> set (syLog ex_done) \<and> map_of (syRows ex_done) ''e1'' = Some (ex_row (Some 0))"
proof -
  have "obEvent (ex_row (Some 0)) = ex_envelope" "obPublishedAt (ex_row (Some 0)) \<noteq> None" by (simp_all add: ex_row_def)
  with outbox_at_least_once [OF careful_runs_runs [OF ex_run] runs.none ex_done_row] ex_done_row show ?thesis by auto
qed

theorem outbox_exactly_once_witness: "count_list (syLog ex_done) ex_envelope = 1"
proof -
  have "obEvent (ex_row (Some 0)) = ex_envelope" "obPublishedAt (ex_row (Some 0)) \<noteq> None" by (simp_all add: ex_row_def)
  with outbox_exactly_once [OF ex_run] ex_done_row show ?thesis by metis
qed

end
