(* ===== verification/EventsDrain.thy ===== *)
theory EventsDrain imports EventsRelay begin

text \<open>
  The relay pass \<open>relayOnce\<close> (\<open>outbox.ts\<close>) as it runs: it is a run of the steps of \<open>EventsRelay\<close>, so what holds of
  the system holds of it, and with a bus that accepts, repeated passes publish everything that is due.
\<close>

subsection \<open>A pass is a run of steps\<close>

definition world_system :: "OutboxWorld \<Rightarrow> (nat \<Rightarrow> relay) \<Rightarrow> system" where
  "world_system w R = \<lparr>syRows = owRows w, syNow = owNow w, syLog = owLog w, syRelays = R\<rparr>"

definition busy_relay :: "OutboxRecord list \<Rightarrow> int \<Rightarrow> relay" where
  "busy_relay rows l = \<lparr>rlRunning = True, rlBatch = rows, rlPending = False, rlLease = l\<rparr>"

lemma runs_trans: "runs opts env t u \<Longrightarrow> runs opts env s t \<Longrightarrow> runs opts env s u"
  by (induction rule: runs.induct) (auto intro: runs.more)

lemma runs_step: "relay_step opts env s a t \<Longrightarrow> runs opts env t u \<Longrightarrow> runs opts env s u"
  using runs_trans runs.more [OF runs.none] by blast

lemma relay_rows_runs:
  "R i = busy_relay rows l \<Longrightarrow> relay_rows opts b rows w = (res, w') \<Longrightarrow>
   runs opts env (world_system w R) (world_system w' (R(i := busy_relay [] l)))"
proof (induction rows arbitrary: w R res w')
  case Nil
  then have "R(i := busy_relay [] l) = R" "w' = w" by auto
  then show ?case by (simp add: runs.none)
next
  case (Cons row rows)
  let ?n = "owTries w" and ?now = "owNow w + int (rbTook b (owTries w))"
  let ?w1 = "w\<lparr>owTries := ?n + 1, owNow := ?now\<rparr>"
  have t: "relay_step opts env (world_system w R) Tick (world_system ?w1 R)"
    using relay_step.tick [of opts env "world_system w R" "rbTook b ?n"] by (simp add: world_system_def)
  show ?case
  proof (cases "rbPublish b ?n (obEvent row)")
    case None
    let ?w2 = "?w1\<lparr>owLog := owLog ?w1 @ [obEvent row], owRows := markPublished (obId row) ?now (owRows ?w1)\<rparr>"
    let ?R1 = "R(i := (R i)\<lparr>rlPending := True\<rparr>)" and ?R2 = "R(i := busy_relay rows l)"
    obtain res2 where r: "relay_rows opts b rows ?w2 = (res2, w')"
      using Cons.prems(2) None by (auto simp: Let_def split: prod.splits)
    have a: "relay_step opts env (world_system ?w1 R) (Accept i) (world_system (?w1\<lparr>owLog := owLog ?w1 @ [obEvent row]\<rparr>) ?R1)"
      using relay_step.accept [of "world_system ?w1 R" i row rows opts env] Cons.prems(1)
      by (simp add: world_system_def busy_relay_def)
    have s: "relay_step opts env (world_system (?w1\<lparr>owLog := owLog ?w1 @ [obEvent row]\<rparr>) ?R1) (Settle i) (world_system ?w2 ?R2)"
      using relay_step.settle [of "world_system (?w1\<lparr>owLog := owLog ?w1 @ [obEvent row]\<rparr>) ?R1" i row rows opts env] Cons.prems(1)
      by (simp add: world_system_def busy_relay_def)
    have "runs opts env (world_system ?w2 ?R2) (world_system w' (?R2(i := busy_relay [] l)))"
      by (rule Cons.IH [OF _ r]) simp
    then show ?thesis using runs_step [OF t runs_step [OF a runs_step [OF s]]] by (simp del: fun_upd_apply)
  next
    case (Some err)
    let ?nxt = "retry_at opts ?now (rbRandom b ?n) row"
    let ?w2 = "?w1\<lparr>owRows := markFailed (obId row) err ?nxt (owRows ?w1), owErrors := owErrors ?w1 @ [(obId row, err, ?nxt = None)]\<rparr>"
    let ?R2 = "R(i := busy_relay rows l)"
    obtain res2 where r: "relay_rows opts b rows ?w2 = (res2, w')"
      using Cons.prems(2) Some by (auto simp: Let_def split: prod.splits)
    have s: "relay_step opts env (world_system ?w1 R) (Reject i) (world_system ?w2 ?R2)"
      using relay_step.reject [of "world_system ?w1 R" i row rows opts env err "rbRandom b ?n"] Cons.prems(1)
      by (simp add: world_system_def busy_relay_def)
    have "runs opts env (world_system ?w2 ?R2) (world_system w' (?R2(i := busy_relay [] l)))"
      by (rule Cons.IH [OF _ r]) simp
    then show ?thesis using runs_step [OF t runs_step [OF s]] by (simp del: fun_upd_apply)
  qed
qed

lemma relayOnce_runs:
  assumes "relayOnce opts b w = (res, w')" and "\<not> owRunning w" and "\<not> rlRunning (R i)"
  shows "\<exists>x. runs opts env (world_system w R) (world_system w' (R(i := x)))"
proof -
  obtain rows st where c: "outbox_claim (batch_size opts) (owNow w) (owNow w + lease_ms opts) (owRows w) = (rows, st)" by fastforce
  let ?l = "owNow w + lease_ms opts" and ?w1 = "w\<lparr>owRows := st, owRunning := True\<rparr>"
  let ?R1 = "R(i := busy_relay rows ?l)"
  obtain res' w2 where r: "relay_rows opts b rows ?w1 = (res', w2)" by fastforce
  have w': "w' = w2\<lparr>owRunning := False\<rparr>" using assms(1,2) c r by (simp add: relayOnce_def)
  have s: "relay_step opts env (world_system w R) (Begin i) (world_system ?w1 ?R1)"
    using relay_step.claims [of "world_system w R" i opts rows st env] assms(3) c by (simp add: world_system_def busy_relay_def)
  have "runs opts env (world_system ?w1 ?R1) (world_system w2 (?R1(i := busy_relay [] ?l)))"
    by (rule relay_rows_runs [OF _ r]) simp
  then have "runs opts env (world_system w R) (world_system w' (R(i := busy_relay [] ?l)))"
    using runs_step [OF s] by (simp add: w' world_system_def)
  then show ?thesis by blast
qed

subsection \<open>Draining\<close>

text \<open>What a pass over claimed rows does when the bus accepts everything.\<close>

lemma relay_rows_accepted:
  assumes "\<And>n e. rbPublish b n e = None" and "relay_rows opts b rows w = (res, w')"
  shows "owNow w \<le> owNow w' \<and> owRunning w' = owRunning w \<and> res = (length rows, 0) \<and> owLog w' = owLog w @ map obEvent rows \<and>
    (rows_ok (owRows w) \<longrightarrow> rows_ok (owRows w')) \<and>
    (\<forall>k. k \<notin> obId ` set rows \<longrightarrow> map_of (owRows w') k = map_of (owRows w) k) \<and>
    (\<forall>k r. k \<in> obId ` set rows \<longrightarrow> map_of (owRows w) k = Some r \<longrightarrow> (\<exists>r'. map_of (owRows w') k = Some r' \<and> obPublishedAt r' \<noteq> None))"
  using assms(2)
proof (induction rows arbitrary: w res w')
  case (Cons row rows)
  let ?n = "owTries w" and ?now = "owNow w + int (rbTook b (owTries w))"
  let ?w2 = "w\<lparr>owTries := ?n + 1, owNow := ?now, owLog := owLog w @ [obEvent row], owRows := markPublished (obId row) ?now (owRows w)\<rparr>"
  obtain res2 where r: "relay_rows opts b rows ?w2 = (res2, w')" "res = (fst res2 + 1, snd res2)"
    using Cons.prems assms(1) by (auto simp: Let_def split: prod.splits)
  note ih = Cons.IH [OF r(1)]
  have pub: "\<exists>r'. map_of (owRows w') k = Some r' \<and> obPublishedAt r' \<noteq> None"
    if "k \<in> obId ` set (row # rows)" "map_of (owRows w) k = Some c" for k c
  proof (cases "k \<in> obId ` set rows")
    case True
    with ih that(2) show ?thesis by (simp add: ob.published_lookup)
  next
    case False
    with ih that show ?thesis by (simp add: ob.published_lookup)
  qed
  have same: "map_of (owRows w') k = map_of (owRows w) k" if "k \<notin> obId ` set (row # rows)" for k
    using ih that by (simp add: ob.published_lookup option.map_ident)
  have rest: "owNow w \<le> owNow w' \<and> owRunning w' = owRunning w \<and> res = (length (row # rows), 0) \<and>
      owLog w' = owLog w @ map obEvent (row # rows) \<and> (rows_ok (owRows w) \<longrightarrow> rows_ok (owRows w'))"
    using ih r(2) ob.published_ok by auto
  show ?case using rest pub same by blast
qed simp

definition open_rows :: "OutboxRows \<Rightarrow> string set" where
  "open_rows rows = {k. \<exists>r. map_of rows k = Some r \<and> obPublishedAt r = None \<and> obNextAttemptAt r \<noteq> None}"

lemma finite_open: "finite (open_rows rows)"
  by (rule finite_subset [of _ "dom (map_of rows)"]) (auto simp: open_rows_def finite_dom_map_of)

lemma accepted_pass:
  assumes "\<And>n e. rbPublish b n e = None" and "rows_ok (owRows w)" and "\<not> owRunning w"
    and "w' = snd (relayOnce opts b w)"
  shows "rows_ok (owRows w') \<and> \<not> owRunning w' \<and> owNow w \<le> owNow w' \<and>
    (\<forall>k. k \<notin> obId ` set (due_rows (batch_size opts) (owNow w) (owRows w)) \<longrightarrow> map_of (owRows w') k = map_of (owRows w) k) \<and>
    (\<forall>r \<in> set (due_rows (batch_size opts) (owNow w) (owRows w)). \<exists>r'. map_of (owRows w') (obId r) = Some r' \<and> obPublishedAt r' \<noteq> None)"
proof -
  let ?due = "due_rows (batch_size opts) (owNow w) (owRows w)"
  obtain rows st where c: "outbox_claim (batch_size opts) (owNow w) (owNow w + lease_ms opts) (owRows w) = (rows, st)" by fastforce
  obtain res w2 where r: "relay_rows opts b rows (w\<lparr>owRows := st, owRunning := True\<rparr>) = (res, w2)" by fastforce
  have ids: "obId ` set rows = obId ` set ?due" using c by (auto simp: outbox_claim_def Let_def image_image)
  have w': "w' = w2\<lparr>owRunning := False\<rparr>" using assms(3,4) c r by (simp add: relayOnce_def)
  have st: "rows_ok st" using ob.claim_ok [OF assms(2) c] by simp
  have look: "map_of st k = map_option (\<lambda>r. if k \<in> obId ` set rows then r\<lparr>obNextAttemptAt := Some (owNow w + lease_ms opts)\<rparr> else r)
      (map_of (owRows w) k)" for k by (rule ob.claim_lookup [OF assms(2) c])
  have there: "\<exists>q. map_of st (obId x) = Some q" if x: "x \<in> set ?due" for x
  proof -
    have "obId x \<in> obId ` set rows" using x ids by simp
    then obtain y where y: "y \<in> set rows" "obId y = obId x" by auto
    from ob.claimed_row [OF assms(2) c y(1)] y(2) show ?thesis by auto
  qed
  show ?thesis
    using relay_rows_accepted [OF assms(1) r] st look there unfolding w' ids by (auto simp: option.map_ident)
qed

lemma due_lookup: "rows_ok rows \<Longrightarrow> r \<in> set (due_rows n now rows) \<Longrightarrow> map_of rows (obId r) = Some r \<and> is_due now r"
proof -
  assume ok: "rows_ok rows" and r: "r \<in> set (due_rows n now rows)"
  from due_rows_set [OF r] obtain k where k: "(k, r) \<in> set rows" "is_due now r" by auto
  then have "map_of rows k = Some r" using rows_ok_lookup [OF ok] by blast
  with k ob.row_ids [OF ok this] show ?thesis by simp
qed

lemma is_due_open: "is_due now r \<Longrightarrow> obPublishedAt r = None \<and> obNextAttemptAt r \<noteq> None"
  by (auto simp: is_due_def split: option.splits)

lemma due_all:
  assumes "rows_ok rows" and "length (due_rows n now rows) < n" and "map_of rows k = Some r" and "is_due now r"
  shows "r \<in> set (due_rows n now rows)"
proof -
  have "r \<in> set (sort_key obCreatedAt (filter (is_due now) (map snd rows)))"
    using assms(3,4) by (force dest: map_of_SomeD)
  with assms(2) show ?thesis by (simp add: due_rows_def)
qed

text \<open>A pass either publishes everything that is due or closes a whole batch of the open rows.\<close>

lemma pass_progress:
  assumes "\<And>n e. rbPublish b n e = None" and "rows_ok (owRows w)" and "\<not> owRunning w" and "w' = snd (relayOnce opts b w)"
  shows "(\<forall>k r. map_of (owRows w) k = Some r \<longrightarrow> is_due (owNow w) r \<longrightarrow> (\<exists>r'. map_of (owRows w') k = Some r' \<and> obPublishedAt r' \<noteq> None)) \<or>
    card (open_rows (owRows w')) + batch_size opts \<le> card (open_rows (owRows w))"
proof -
  let ?due = "due_rows (batch_size opts) (owNow w) (owRows w)"
  note pass = accepted_pass [OF assms]
  show ?thesis
  proof (cases "length ?due < batch_size opts")
    case True
    have "\<exists>r'. map_of (owRows w') k = Some r' \<and> obPublishedAt r' \<noteq> None"
      if "map_of (owRows w) k = Some r" "is_due (owNow w) r" for k r
      using pass due_all [OF assms(2) True that] ob.row_ids [OF assms(2) that(1)] by metis
    then show ?thesis by blast
  next
    case False
    then have len: "length ?due = batch_size opts" by (simp add: due_rows_def)
    let ?ids = "obId ` set ?due"
    have card: "card ?ids = batch_size opts"
      using distinct_card [OF distinct_due [OF assms(2)]] len by simp
    have sub: "?ids \<subseteq> open_rows (owRows w)"
      using due_lookup [OF assms(2)] is_due_open unfolding open_rows_def by blast
    have "open_rows (owRows w') \<subseteq> open_rows (owRows w) - ?ids"
    proof
      fix k assume k: "k \<in> open_rows (owRows w')"
      then have "k \<notin> ?ids" using pass by (force simp: open_rows_def)
      with k pass show "k \<in> open_rows (owRows w) - ?ids" by (auto simp: open_rows_def)
    qed
    then have "card (open_rows (owRows w')) \<le> card (open_rows (owRows w) - ?ids)"
      by (rule card_mono [OF finite_Diff [OF finite_open]])
    moreover have "card (open_rows (owRows w) - ?ids) = card (open_rows (owRows w)) - card ?ids"
      by (rule card_Diff_subset [OF _ sub]) simp
    moreover have "card ?ids \<le> card (open_rows (owRows w))" by (rule card_mono [OF finite_open sub])
    ultimately show ?thesis using card by linarith
  qed
qed

primrec relay_passes :: "OutboxPublisherOptions \<Rightarrow> relay_bus \<Rightarrow> nat \<Rightarrow> OutboxWorld \<Rightarrow> OutboxWorld" where
  "relay_passes opts b 0 w = w"
| "relay_passes opts b (Suc m) w = relay_passes opts b m (snd (relayOnce opts b w))"

lemma passes_kept:
  assumes "\<And>n e. rbPublish b n e = None"
  shows "rows_ok (owRows w) \<Longrightarrow> \<not> owRunning w \<Longrightarrow> map_of (owRows w) k = Some r \<Longrightarrow> obPublishedAt r \<noteq> None \<Longrightarrow>
    \<exists>r'. map_of (owRows (relay_passes opts b m w)) k = Some r' \<and> obPublishedAt r' \<noteq> None"
proof (induction m arbitrary: w r)
  case (Suc m)
  let ?w1 = "snd (relayOnce opts b w)"
  note pass = accepted_pass [OF assms Suc.prems(1,2) refl]
  have "\<exists>r1. map_of (owRows ?w1) k = Some r1 \<and> obPublishedAt r1 \<noteq> None"
    using pass Suc.prems(3,4) by (cases "k \<in> obId ` set (due_rows (batch_size opts) (owNow w) (owRows w))") auto
  then obtain r1 where "map_of (owRows ?w1) k = Some r1" "obPublishedAt r1 \<noteq> None" by blast
  with Suc.IH [of ?w1 r1] pass show ?case by simp
qed simp

lemma passes_drain:
  assumes "\<And>n e. rbPublish b n e = None"
  shows "rows_ok (owRows w) \<Longrightarrow> \<not> owRunning w \<Longrightarrow> card (open_rows (owRows w)) \<le> m * batch_size opts \<Longrightarrow>
    map_of (owRows w) k = Some r \<Longrightarrow> is_due (owNow w) r \<Longrightarrow>
    \<exists>r'. map_of (owRows (relay_passes opts b m w)) k = Some r' \<and> obPublishedAt r' \<noteq> None"
proof (induction m arbitrary: w)
  case 0
  then have "k \<in> open_rows (owRows w)" using is_due_open unfolding open_rows_def by blast
  with 0 finite_open show ?case by (auto simp: card_eq_0_iff)
next
  case (Suc m)
  let ?w1 = "snd (relayOnce opts b w)"
  note pass = accepted_pass [OF assms Suc.prems(1,2) refl]
  have next_pass: "relay_passes opts b (Suc m) w = relay_passes opts b m ?w1"
    by simp
  show ?case
  proof (cases "\<exists>r'. map_of (owRows ?w1) k = Some r' \<and> obPublishedAt r' \<noteq> None")
    case True
    then show ?thesis unfolding next_pass using passes_kept [OF assms] pass by blast
  next
    case False
    then have "card (open_rows (owRows ?w1)) + batch_size opts \<le> card (open_rows (owRows w))"
      using pass_progress [OF assms Suc.prems(1,2) refl, of opts] Suc.prems(4,5) by blast
    moreover have "map_of (owRows ?w1) k = Some r"
    proof -
      have "k \<notin> obId ` set (due_rows (batch_size opts) (owNow w) (owRows w))" using False pass [of opts] by blast
      then show ?thesis using pass [of opts] Suc.prems(4) by simp
    qed
    moreover have "is_due (owNow ?w1) r" using Suc.prems(5) pass [of opts] by (auto simp: is_due_def split: option.splits)
    ultimately show ?thesis unfolding next_pass using Suc.IH [of ?w1] Suc.prems(3) pass [of opts] by simp
  qed
qed

text \<open>
  C20: the relay drains its outbox. While the bus accepts what it is given, enough passes to cover the open rows at
  \<open>batchSize\<close> a pass publish every row that was due at the start.
\<close>

theorem relay_drains:
  assumes "\<And>n e. rbPublish b n e = None" and "rows_ok (owRows w)" and "\<not> owRunning w"
    and "card (open_rows (owRows w)) \<le> m * batch_size opts"
    and "map_of (owRows w) k = Some r" and "is_due (owNow w) r"
  shows "\<exists>r'. map_of (owRows (relay_passes opts b m w)) k = Some r' \<and> obPublishedAt r' \<noteq> None"
  by (rule passes_drain [OF assms])

text \<open>Two events, a bus that takes 5 ms for each, and batches of one.\<close>

definition drain_world :: OutboxWorld where
  "drain_world = \<lparr>owRows = [(''e1'', fresh_row 0 ex_envelope), (''e2'', fresh_row 1 (ex_envelope\<lparr>evId := ''e2''\<rparr>))], owNow = 1,
     owLog = [], owTries = 0, owRunning = False, owErrors = []\<rparr>"

definition drain_opts :: OutboxPublisherOptions where
  "drain_opts = \<lparr>opBatchSize = Some 1, opLeaseMs = None, opBackoff = None, opMaxAttempts = None\<rparr>"

definition drain_bus :: relay_bus where
  "drain_bus = \<lparr>rbPublish = (\<lambda>_ _. None), rbTook = (\<lambda>_. 5), rbRandom = (\<lambda>_. 0)\<rparr>"

theorem relay_drains_witness:
  "\<exists>r'. map_of (owRows (relay_passes drain_opts drain_bus 2 drain_world)) ''e2'' = Some r' \<and> obPublishedAt r' \<noteq> None"
proof (rule relay_drains)
  have "card (open_rows (owRows drain_world)) \<le> card (set (map fst (owRows drain_world)))"
    by (rule card_mono) (auto simp: open_rows_def drain_world_def split: if_splits)
  then show "card (open_rows (owRows drain_world)) \<le> 2 * batch_size drain_opts"
    by (simp add: drain_world_def drain_opts_def batch_size_def)
  show "rows_ok (owRows drain_world)" by (simp add: rows_ok_def drain_world_def fresh_row_def ex_envelope_def)
  show "map_of (owRows drain_world) ''e2'' = Some (fresh_row 1 (ex_envelope\<lparr>evId := ''e2''\<rparr>))" by (simp add: drain_world_def)
  show "is_due (owNow drain_world) (fresh_row 1 (ex_envelope\<lparr>evId := ''e2''\<rparr>))"
    by (simp add: is_due_def fresh_row_def drain_world_def)
qed (simp_all add: drain_bus_def drain_world_def)

end
