(* ===== verification/SignerPolicy.thy ===== *)
theory SignerPolicy imports Psbt EventsMatch begin

text \<open>
  \<open>policy.ts\<close>, \<open>audit.ts\<close> and \<open>errors.ts\<close> of \<open>platform/signer/src\<close>: what a policy sees of a signing request, the
  built-in policies, and the audit log. A policy that throws answers with an error; the texts of errors are left out,
  the reasons of denials are kept.
\<close>

subsection \<open>Errors\<close>

datatype SignerErrorCode = InvalidRequest | UnknownKey | PsbtInvalid | InputMismatch | AlreadySigned | PolicyDenied
  | KeyProviderError | SignatureInvalid

text \<open>What can be thrown: a \<open>SignerError\<close>, or anything else.\<close>

datatype signer_exn = SignerError SignerErrorCode | OtherExn

definition STATUS :: "SignerErrorCode \<Rightarrow> nat" where
  "STATUS c = (case c of InvalidRequest \<Rightarrow> 400 | PsbtInvalid \<Rightarrow> 400 | UnknownKey \<Rightarrow> 404 | InputMismatch \<Rightarrow> 422
     | AlreadySigned \<Rightarrow> 409 | PolicyDenied \<Rightarrow> 403 | KeyProviderError \<Rightarrow> 500 | SignatureInvalid \<Rightarrow> 500)"

subsection \<open>Requests as policies see them\<close>

datatype PolicyDecision = Allow | Deny string

record 'req Policy =
  poName :: string
  poInspect :: "'req \<Rightarrow> signer_exn + PolicyDecision"

record Prevout =
  pvTxid :: string
  pvVout :: nat
  pvAmount :: int
  pvScript :: string

record TxOut =
  ouAmount :: int
  ouScript :: string
  ouAddress :: "string option"

record TaprootKeyPathInspection =
  tiKeyId :: string
  tiInputIndex :: nat
  tiSighashType :: byte
  tiInput :: Prevout
  tiInputs :: "Prevout list"
  tiOutputs :: "TxOut list"
  tiVersion :: int
  tiLockTime :: nat
  tiFee :: int
  tiPrincipal :: string

record SchnorrDigestInspection =
  diKeyId :: string
  diPurpose :: string
  diDigest32 :: string
  diPrincipal :: string

subsection \<open>Policies\<close>

text \<open>The first denial wins; the policies after it are not asked.\<close>

primrec inspect_all :: "'r Policy list \<Rightarrow> 'r \<Rightarrow> signer_exn + PolicyDecision" where
  "inspect_all [] r = Inr Allow"
| "inspect_all (p # ps) r =
     ebind (poInspect p r) (\<lambda>d. case d of Allow \<Rightarrow> inspect_all ps r | Deny why \<Rightarrow> Inr (Deny (poName p @ '': '' @ why)))"

definition allOf :: "'r Policy list \<Rightarrow> string \<Rightarrow> 'r Policy" where
  "allOf ps name = \<lparr>poName = name, poInspect = inspect_all ps\<rparr>"

definition allowAll :: "'r Policy" where
  "allowAll = \<lparr>poName = ''allow-all'', poInspect = (\<lambda>_. Inr Allow)\<rparr>"

definition denyAll :: "string \<Rightarrow> 'r Policy" where
  "denyAll why = \<lparr>poName = ''deny-all'', poInspect = (\<lambda>_. Inr (Deny why))\<rparr>"

definition allow_if :: "bool \<Rightarrow> string \<Rightarrow> signer_exn + PolicyDecision" where
  "allow_if b why = Inr (if b then Allow else Deny why)"

definition allowedSighashTypes :: "byte list \<Rightarrow> TaprootKeyPathInspection Policy" where
  "allowedSighashTypes types = \<lparr>poName = ''sighash'', poInspect = (\<lambda>r.
     allow_if (tiSighashType r \<in> set types) (''sighash type 0x'' @ hex_byte (tiSighashType r) @ '' is not allowed''))\<rparr>"

definition maxInputValue :: "int \<Rightarrow> TaprootKeyPathInspection Policy" where
  "maxInputValue maxSats = \<lparr>poName = ''max-input-value'', poInspect = (\<lambda>r.
     allow_if (pvAmount (tiInput r) \<le> maxSats)
       (''input value '' @ int_text (pvAmount (tiInput r)) @ '' exceeds '' @ int_text maxSats @ '' sats''))\<rparr>"

definition maxFee :: "int \<Rightarrow> TaprootKeyPathInspection Policy" where
  "maxFee maxSats = \<lparr>poName = ''max-fee'', poInspect = (\<lambda>r.
     allow_if (0 \<le> tiFee r \<and> tiFee r \<le> maxSats)
       (''fee '' @ int_text (tiFee r) @ '' sats is outside [0, '' @ int_text maxSats @ '']''))\<rparr>"

definition output_allowed :: "string list \<Rightarrow> TxOut \<Rightarrow> bool" where
  "output_allowed allowed x =
     (let ok = set (map lower_string allowed) in
      lower_string (ouScript x) \<in> ok \<or>
      (case ouAddress x of None \<Rightarrow> False | Some a \<Rightarrow> a \<noteq> [] \<and> lower_string a \<in> ok))"

fun first_foreign :: "string list \<Rightarrow> nat \<Rightarrow> TxOut list \<Rightarrow> (nat \<times> TxOut) option" where
  "first_foreign allowed i [] = None"
| "first_foreign allowed i (x # xs) = (if output_allowed allowed x then first_foreign allowed (i + 1) xs else Some (i, x))"

definition outputAllowlist :: "string list \<Rightarrow> TaprootKeyPathInspection Policy" where
  "outputAllowlist allowed = \<lparr>poName = ''output-allowlist'', poInspect = (\<lambda>r.
     case first_foreign allowed 0 (tiOutputs r) of
       None \<Rightarrow> Inr Allow
     | Some (i, x) \<Rightarrow> Inr (Deny (''output '' @ digits_of_nat i @ '' ('' @
         (case ouAddress x of None \<Rightarrow> ouScript x | Some a \<Rightarrow> a) @ '') is not in the allowlist'')))\<rparr>"

definition quoted :: "string \<Rightarrow> string" where "quoted s = CHR 0x22 # s @ [CHR 0x22]"

definition purposeAllowlist :: "string list \<Rightarrow> SchnorrDigestInspection Policy" where
  "purposeAllowlist purposes = \<lparr>poName = ''purpose-allowlist'', poInspect = (\<lambda>r.
     allow_if (diPurpose r \<in> set purposes) (''purpose '' @ quoted (diPurpose r) @ '' is not allowed''))\<rparr>"

text \<open>\<open>principalAllowlist\<close> reads the key and the principal of either kind of request, here given as selectors.\<close>

definition principalAllowlist ::
  "('r \<Rightarrow> string) \<Rightarrow> ('r \<Rightarrow> string) \<Rightarrow> (string \<times> string list) list \<Rightarrow> 'r Policy" where
  "principalAllowlist keyId who byKey = \<lparr>poName = ''principal-allowlist'', poInspect = (\<lambda>r.
     case map_of byKey (keyId r) of
       None \<Rightarrow> Inr (Deny (''key '' @ quoted (keyId r) @ '' has no principal allowlist''))
     | Some ps \<Rightarrow> allow_if (who r \<in> set ps)
         (''principal '' @ quoted (who r) @ '' may not use key '' @ quoted (keyId r)))\<rparr>"

subsection \<open>The audit log\<close>

datatype audit_kind = TaprootKeypath | SchnorrDigest
datatype AuditDecision = AuditAllow | AuditDeny | AuditError

text \<open>The reason of a denial is the policy's text, that of an error its code.\<close>

datatype audit_reason = Denied string | Failed SignerErrorCode

record taproot_facts =
  tfSighashType :: byte
  tfDigest :: string
  tfInput :: Prevout
  tfOutputs :: "(int \<times> string) list"
  tfFee :: int
  tfFinalize :: bool

text \<open>\<open>details\<close>: what is known of the request when the record is written.\<close>

record audit_details =
  adInputIndex :: "int option"
  adFacts :: "taproot_facts option"
  adTxid :: "string option"
  adPurpose :: "string option"
  adDigest :: "string option"

record AuditRecord =
  auId :: string
  auAt :: int
  auKind :: audit_kind
  auKeyId :: string
  auPrincipal :: string
  auDecision :: AuditDecision
  auReason :: "audit_reason option"
  auRequestId :: "string option"
  auDurationMs :: int
  auDetails :: audit_details

text \<open>\<open>InMemoryAuditLog\<close>: the last \<open>capacity\<close> records.\<close>

definition audit_append :: "nat \<Rightarrow> AuditRecord \<Rightarrow> AuditRecord list \<Rightarrow> AuditRecord list" where
  "audit_append capacity r records =
     (let rs = records @ [r] in if length rs > capacity then drop (length rs - capacity) rs else rs)"

record AuditQuery =
  aqKeyId :: "string option"
  aqDecision :: "AuditDecision option"
  aqPrincipal :: "string option"
  aqLimit :: "int option"

definition query_matches :: "AuditQuery \<Rightarrow> AuditRecord \<Rightarrow> bool" where
  "query_matches q r =
     ((case aqKeyId q of Some k \<Rightarrow> k = [] \<or> auKeyId r = k | None \<Rightarrow> True) \<and>
      (case aqDecision q of Some d \<Rightarrow> auDecision r = d | None \<Rightarrow> True) \<and>
      (case aqPrincipal q of Some p \<Rightarrow> p = [] \<or> auPrincipal r = p | None \<Rightarrow> True))"

definition audit_list :: "AuditQuery \<Rightarrow> AuditRecord list \<Rightarrow> AuditRecord list" where
  "audit_list q records =
     (let limit = max 1 (min (case aqLimit q of None \<Rightarrow> 100 | Some n \<Rightarrow> n) 1000)
      in take (nat limit) (filter (query_matches q) (rev records)))"

subsection \<open>What the policies promise\<close>

lemma inspect_Cons: "inspect_all (p # ps) r = Inr Allow \<longleftrightarrow> poInspect p r = Inr Allow \<and> inspect_all ps r = Inr Allow"
  by (cases "poInspect p r") (auto split: PolicyDecision.split)

lemma inspect_all_Allow: "inspect_all ps r = Inr Allow \<longleftrightarrow> list_all (\<lambda>p. poInspect p r = Inr Allow) ps"
  by (induction ps) (simp_all add: inspect_Cons del: inspect_all.simps(2))

text \<open>A policy's contract: whatever it allows satisfies a predicate.\<close>

locale policy_contract =
  fixes policy :: "'r Policy" and safe :: "'r \<Rightarrow> bool"
  assumes allows: "poInspect policy r = Inr Allow \<Longrightarrow> safe r"
begin

text \<open>A policy that is asked among others keeps its promise for the whole.\<close>

lemma member: "policy \<in> set ps \<Longrightarrow> inspect_all ps r = Inr Allow \<Longrightarrow> safe r"
  by (auto simp: inspect_all_Allow list_all_iff allows)

lemma in_allOf: "policy \<in> set ps \<Longrightarrow> poInspect (allOf ps name) r = Inr Allow \<Longrightarrow> safe r"
  by (simp add: allOf_def member)

end

lemma allow_if_Allow: "allow_if b why = Inr Allow \<longleftrightarrow> b"
  by (simp add: allow_if_def)

lemma first_foreign_None: "first_foreign allowed i xs = None \<longleftrightarrow> list_all (output_allowed allowed) xs"
  by (induction allowed i xs rule: first_foreign.induct) auto

interpretation fee: policy_contract "maxFee m" "\<lambda>r. 0 \<le> tiFee r \<and> tiFee r \<le> m" for m
  by unfold_locales (simp add: maxFee_def allow_if_Allow)

interpretation outs: policy_contract "outputAllowlist allowed" "\<lambda>r. list_all (output_allowed allowed) (tiOutputs r)" for allowed
  by unfold_locales (auto simp: outputAllowlist_def first_foreign_None split: option.splits)

interpretation sighash: policy_contract "allowedSighashTypes types" "\<lambda>r. tiSighashType r \<in> set types" for types
  by unfold_locales (simp add: allowedSighashTypes_def allow_if_Allow)

interpretation worth: policy_contract "maxInputValue m" "\<lambda>r. pvAmount (tiInput r) \<le> m" for m
  by unfold_locales (simp add: maxInputValue_def allow_if_Allow)

interpretation purpose: policy_contract "purposeAllowlist purposes" "\<lambda>r. diPurpose r \<in> set purposes" for purposes
  by unfold_locales (simp add: purposeAllowlist_def allow_if_Allow)

end
