(* ===== verification/Signer.thy ===== *)
theory Signer imports SignerPolicy begin

text \<open>
  \<open>taproot.ts\<close>, \<open>key-provider.ts\<close> and \<open>signer.ts\<close> of \<open>platform/signer/src\<close>: inspection of a PSBT input, the key
  boundary, and the two signing operations with their audit trail. The key provider, the audit sink, the clock and the
  identifiers are fields of the signer's options; the state records which digests went to the key provider and which
  audit records were written.
\<close>

subsection \<open>The PSBT library as the signer uses it\<close>

text \<open>
  Beyond \<open>btc_lib\<close>: the tweaked key of a key-path output, the sighash of a key-path spend, an output of an input's
  previous transaction, rendering a script as an address, and the id of a complete transaction.
\<close>

record 'tx signer_lib = "'tx btc_lib" +
  p2trTweakedPubkey :: "bytes \<Rightarrow> bytes option"
  keyPathPreimage :: "'tx \<Rightarrow> nat \<Rightarrow> bytes list \<Rightarrow> byte \<Rightarrow> int list \<Rightarrow> bytes option"
  nonWitnessOutput :: "'tx \<Rightarrow> nat \<Rightarrow> nat \<Rightarrow> (bytes \<times> int) option"
  addressOfScript :: "BtcNetworkParams \<Rightarrow> bytes \<Rightarrow> string option"
  completeTxid :: "'tx \<Rightarrow> string option"

text \<open>An exception of the library inside a \<open>try\<close> that turns it into a \<open>SignerError\<close>, and one outside.\<close>

definition or_throw :: "'e \<Rightarrow> 'a option \<Rightarrow> 'e + 'a" where
  "or_throw e x = (case x of None \<Rightarrow> Inl e | Some a \<Rightarrow> Inr a)"

lemma or_throw_Inr [simp]: "or_throw e x = Inr a \<longleftrightarrow> x = Some a"
  by (simp add: or_throw_def split: option.split)

definition signer_guard :: "bool \<Rightarrow> SignerErrorCode \<Rightarrow> signer_exn + unit" where
  "signer_guard b c = (if b then Inr () else Inl (SignerError c))"

lemma signer_guard_Inr [simp]: "signer_guard b c = Inr u \<longleftrightarrow> b"
  by (simp add: signer_guard_def)

subsection \<open>Inspecting a PSBT\<close>

definition SIGHASH_TYPES :: "byte list" where
  "SIGHASH_TYPES = [0x00, 0x01, 0x02, 0x03, 0x81, 0x82, 0x83]"

definition parsePsbt :: "('tx, 'z) signer_lib_scheme \<Rightarrow> string \<Rightarrow> signer_exn + 'tx" where
  "parsePsbt L psbt =
     ebind (or_throw (SignerError PsbtInvalid) (base64Decode L psbt)) (\<lambda>bs.
     or_throw (SignerError PsbtInvalid) (fromPSBT L bs))"

definition prevoutOf :: "('tx, 'z) signer_lib_scheme \<Rightarrow> 'tx \<Rightarrow> nat \<Rightarrow> signer_exn + Prevout" where
  "prevoutOf L tx i =
     ebind (or_throw OtherExn (getInput L tx i)) (\<lambda>inp.
     case (inTxid inp, inIndex inp) of
       (Some t, Some v) \<Rightarrow>
         (case inWitnessUtxo inp of
            Some (script, amount) \<Rightarrow> Inr \<lparr>pvTxid = hexEncode L t, pvVout = v, pvAmount = amount, pvScript = hexEncode L script\<rparr>
          | None \<Rightarrow>
              (case nonWitnessOutput L tx i v of
                 Some (script, amount) \<Rightarrow> Inr \<lparr>pvTxid = hexEncode L t, pvVout = v, pvAmount = amount, pvScript = hexEncode L script\<rparr>
               | None \<Rightarrow> Inl (SignerError PsbtInvalid)))
     | _ \<Rightarrow> Inl (SignerError PsbtInvalid))"

text \<open>\<open>addressOf\<close>, and the test with which an empty address is left out.\<close>

definition addressOf :: "('tx, 'z) signer_lib_scheme \<Rightarrow> bytes \<Rightarrow> Network \<Rightarrow> string option" where
  "addressOf L script network =
     (case addressOfScript L (networkParams L network) script of None \<Rightarrow> None | Some a \<Rightarrow> if a = [] then None else Some a)"

definition output_of :: "('tx, 'z) signer_lib_scheme \<Rightarrow> Network \<Rightarrow> 'tx \<Rightarrow> nat \<Rightarrow> signer_exn + TxOut" where
  "output_of L network tx i =
     ebind (or_throw OtherExn (getOutput L tx i)) (\<lambda>x.
     case (outScript x, outAmount x) of
       (Some s, Some a) \<Rightarrow> Inr \<lparr>ouAmount = a, ouScript = hexEncode L s, ouAddress = addressOf L s network\<rparr>
     | _ \<Rightarrow> Inl (SignerError PsbtInvalid))"

record 'tx TaprootInspection =
  tnTx :: 'tx
  tnInputIndex :: nat
  tnSighashType :: byte
  tnDigest :: bytes
  tnOutputKey :: bytes
  tnInput :: Prevout
  tnInputs :: "Prevout list"
  tnOutputs :: "TxOut list"
  tnVersion :: int
  tnLockTime :: nat
  tnFee :: int

text \<open>What makes an input a spend of the key's own key-path output that nobody has signed yet.\<close>

definition check_target :: "('tx, 'z) signer_lib_scheme \<Rightarrow> bytes \<Rightarrow> bytes \<Rightarrow> Prevout \<Rightarrow> TxInput \<Rightarrow> signer_exn + unit" where
  "check_target L key script inp target =
     ebind (signer_guard (pvScript inp = hexEncode L script) InputMismatch) (\<lambda>_.
     ebind (signer_guard (case inTapInternalKey target of None \<Rightarrow> True | Some k \<Rightarrow> hexEncode L k = hexEncode L key) InputMismatch) (\<lambda>_.
     ebind (signer_guard (case inTapMerkleRoot target of None \<Rightarrow> True | Some r \<Rightarrow> r = []) InputMismatch) (\<lambda>_.
     ebind (signer_guard (case inTapLeafScript target of None \<Rightarrow> True | Some l \<Rightarrow> l = []) InputMismatch) (\<lambda>_.
     signer_guard (inTapKeySig target = None \<and> inFinalScriptWitness target = None) AlreadySigned))))"

definition inspectTaprootKeyPath ::
  "('tx, 'z) signer_lib_scheme \<Rightarrow> string \<Rightarrow> int \<Rightarrow> bytes \<Rightarrow> Network \<Rightarrow> signer_exn + 'tx TaprootInspection" where
  "inspectTaprootKeyPath L psbt index key network =
     ebind (signer_guard (0 \<le> index) InvalidRequest) (\<lambda>_.
     ebind (parsePsbt L psbt) (\<lambda>tx. let i = nat index in
     ebind (signer_guard (i < inputsLength L tx) InvalidRequest) (\<lambda>_.
     ebind (emapM (prevoutOf L tx) [0..<inputsLength L tx]) (\<lambda>inputs.
     ebind (or_throw OtherExn (getInput L tx i)) (\<lambda>target.
     ebind (or_throw OtherExn (p2trScript L key)) (\<lambda>script.
     ebind (or_throw OtherExn (p2trTweakedPubkey L key)) (\<lambda>outputKey.
     ebind (check_target L key script (inputs ! i) target) (\<lambda>_.
     let t = (case inSighashType target of None \<Rightarrow> 0x00 | Some t \<Rightarrow> t) in
     ebind (signer_guard (t \<in> set SIGHASH_TYPES) PsbtInvalid) (\<lambda>_.
     ebind (emapM (\<lambda>p. or_throw (SignerError PsbtInvalid) (hexDecode L (pvScript p))) inputs) (\<lambda>scripts.
     ebind (or_throw (SignerError PsbtInvalid) (keyPathPreimage L tx i scripts t (map pvAmount inputs))) (\<lambda>digest.
     ebind (emapM (output_of L network tx) [0..<outputsLength L tx]) (\<lambda>outputs.
     Inr \<lparr>tnTx = tx, tnInputIndex = i, tnSighashType = t, tnDigest = digest, tnOutputKey = outputKey, tnInput = inputs ! i,
          tnInputs = inputs, tnOutputs = outputs, tnVersion = txVersion L tx, tnLockTime = txLockTime L tx,
          tnFee = sum_list (map pvAmount inputs) - sum_list (map ouAmount outputs)\<rparr>))))))))))))"

text \<open>\<open>attachKeyPathSignature\<close>: the signed PSBT and, for a finalized complete transaction, its id.\<close>

definition attachKeyPathSignature ::
  "('tx, 'z) signer_lib_scheme \<Rightarrow> 'tx TaprootInspection \<Rightarrow> bytes \<Rightarrow> bool \<Rightarrow> signer_exn + (string \<times> string option)" where
  "attachKeyPathSignature L insp sig finalize =
     ebind (signer_guard (length sig = 64) SignatureInvalid) (\<lambda>_.
     ebind (signer_guard (schnorrVerify L sig (tnDigest insp) (tnOutputKey insp)) SignatureInvalid) (\<lambda>_.
     let tapKeySig = (if tnSighashType insp = 0x00 then sig else sig @ [tnSighashType insp]) in
     ebind (or_throw OtherExn (updateInput L (tnTx insp) (tnInputIndex insp) (empty_input\<lparr>inTapKeySig := Some tapKeySig\<rparr>) True)) (\<lambda>tx1.
     ebind (if finalize then or_throw OtherExn (finalizeIdx L tx1 (tnInputIndex insp)) else Inr tx1) (\<lambda>tx2.
     Inr (base64Encode L (toPSBT L tx2), if finalize then completeTxid L tx2 else None)))))"

subsection \<open>The key boundary\<close>

datatype tweak = NoTweak | Bip341

text \<open>\<open>KeyProvider\<close>: both operations may throw.\<close>

record KeyProvider =
  kpPublicKey :: "string \<Rightarrow> signer_exn + bytes"
  kpSign :: "string \<Rightarrow> bytes \<Rightarrow> tweak \<Rightarrow> signer_exn + bytes"

text \<open>\<open>/^[A-Za-z0-9][A-Za-z0-9._-]{0,63}$/\<close>.\<close>

definition KEY_ID :: "string \<Rightarrow> bool" where
  "KEY_ID k =
     (let alnum = (\<lambda>c. let n = of_char (lower_char c) :: nat in (97 \<le> n \<and> n \<le> 122) \<or> is_digit c) in
      k \<noteq> [] \<and> length k \<le> 64 \<and> alnum (hd k) \<and> list_all (\<lambda>c. alnum c \<or> c = CHR ''.'' \<or> c = CHR ''_'' \<or> c = CHR ''-'') (tl k))"

text \<open>
  \<open>InMemoryKeyProvider\<close>: private keys by id. \<open>pub\<close>, \<open>sign\<close> and \<open>tweak\<close> stand for the curve library; \<open>pub\<close> throws on
  a scalar that is out of range.
\<close>

record curve =
  cuPublicKey :: "bytes \<Rightarrow> bytes option"
  cuSign :: "bytes \<Rightarrow> bytes \<Rightarrow> bytes option"
  cuTweak :: "bytes \<Rightarrow> bytes \<Rightarrow> bytes option"

type_synonym key_map = "(string \<times> bytes) list"

definition key_add :: "curve \<Rightarrow> string \<Rightarrow> bytes \<Rightarrow> key_map \<Rightarrow> signer_exn + key_map" where
  "key_add C keyId priv ks =
     ebind (signer_guard (KEY_ID keyId) InvalidRequest) (\<lambda>_.
     ebind (signer_guard (length priv = 32) InvalidRequest) (\<lambda>_.
     ebind (or_throw OtherExn (cuPublicKey C priv)) (\<lambda>_. Inr (AList.update keyId priv ks))))"

definition key_lookup :: "string \<Rightarrow> key_map \<Rightarrow> signer_exn + bytes" where
  "key_lookup keyId ks = or_throw (SignerError UnknownKey) (map_of ks keyId)"

definition memory_provider :: "curve \<Rightarrow> key_map \<Rightarrow> KeyProvider" where
  "memory_provider C ks = \<lparr>
     kpPublicKey = (\<lambda>keyId. ebind (key_lookup keyId ks) (\<lambda>k. or_throw OtherExn (cuPublicKey C k))),
     kpSign = (\<lambda>keyId msg tw.
       ebind (signer_guard (length msg = 32) InvalidRequest) (\<lambda>_.
       ebind (key_lookup keyId ks) (\<lambda>priv.
       ebind (if tw = Bip341 then or_throw OtherExn (cuTweak C priv []) else Inr priv) (\<lambda>k.
       or_throw OtherExn (cuSign C msg k)))))\<rparr>"

subsection \<open>The signer\<close>

record 'tx SignerOptions =
  soLib :: "'tx signer_lib"
  soKeys :: KeyProvider
  soAuditFails :: "AuditRecord \<Rightarrow> bool"
  soAllowedPurposes :: "string list"
  soTaprootPolicies :: "TaprootKeyPathInspection Policy list option"
  soDigestPolicies :: "SchnorrDigestInspection Policy list option"
  soAllowedSighashTypes :: "byte list option"
  soNetwork :: Network
  soNow :: "nat \<Rightarrow> int"
  soNewId :: "nat \<Rightarrow> string"

text \<open>\<open>soAuditFails\<close> says when the sink throws instead of taking a record. Clock readings and ids are counted.\<close>

record signer_state =
  sgAudit :: "AuditRecord list"
  sgSigned :: "(string \<times> bytes \<times> tweak) list"
  sgReads :: nat
  sgIds :: nat

record SignTaprootKeyPathRequest =
  trPsbtBase64 :: string
  trInputIndex :: int
  trKeyId :: string
  trFinalize :: bool

record SignTaprootKeyPathResult =
  tsPsbtBase64 :: string
  tsKeyId :: string
  tsInputIndex :: nat
  tsSighashType :: byte
  tsSignature :: string
  tsDigest :: string
  tsTxid :: "string option"

record SignSchnorrDigestRequest =
  drKeyId :: string
  drDigest32 :: string
  drPurpose :: string

record SignSchnorrDigestResult =
  dsKeyId :: string
  dsPurpose :: string
  dsDigest32 :: string
  dsSignature :: string
  dsPublicKey :: string

record CallContext =
  ctPrincipal :: "string option"
  ctRequestId :: "string option"

definition principal_of :: "CallContext \<Rightarrow> string" where
  "principal_of ctx = (case ctPrincipal ctx of None \<Rightarrow> ''local'' | Some p \<Rightarrow> p)"

definition taproot_policy :: "'tx SignerOptions \<Rightarrow> TaprootKeyPathInspection Policy" where
  "taproot_policy sp = allOf (allowedSighashTypes (case soAllowedSighashTypes sp of None \<Rightarrow> [0x00, 0x01] | Some ts \<Rightarrow> ts)
     # (case soTaprootPolicies sp of None \<Rightarrow> [allowAll] | Some ps \<Rightarrow> ps)) ''taproot''"

definition digest_policy :: "'tx SignerOptions \<Rightarrow> SchnorrDigestInspection Policy" where
  "digest_policy sp = allOf (purposeAllowlist (soAllowedPurposes sp)
     # (case soDigestPolicies sp of None \<Rightarrow> [allowAll] | Some ps \<Rightarrow> ps)) ''digest''"

text \<open>\<open>audit\<close>: the clock is read for the time and for the duration.\<close>

definition audit ::
  "'tx SignerOptions \<Rightarrow> audit_kind \<Rightarrow> string \<Rightarrow> CallContext \<Rightarrow> AuditDecision \<Rightarrow> audit_reason option \<Rightarrow> int \<Rightarrow> audit_details
     \<Rightarrow> signer_state \<Rightarrow> (signer_exn + unit) \<times> signer_state" where
  "audit sp knd keyId ctx decision why started details s =
     (let r = \<lparr>auId = soNewId sp (sgIds s), auAt = soNow sp (sgReads s), auKind = knd, auKeyId = keyId,
               auPrincipal = principal_of ctx, auDecision = decision, auReason = why,
               auRequestId = (case ctRequestId ctx of None \<Rightarrow> None | Some q \<Rightarrow> if q = [] then None else Some q),
               auDurationMs = max 0 (soNow sp (sgReads s + 1) - started), auDetails = details\<rparr>;
          s1 = s\<lparr>sgReads := sgReads s + 2, sgIds := sgIds s + 1\<rparr>
      in if soAuditFails sp r then (Inl OtherExn, s1) else (Inr (), s1\<lparr>sgAudit := sgAudit s1 @ [r]\<rparr>))"

text \<open>The handler around both operations: a denial was audited already, anything else is audited as an error.\<close>

definition finish_call ::
  "'tx SignerOptions \<Rightarrow> audit_kind \<Rightarrow> string \<Rightarrow> CallContext \<Rightarrow> int \<Rightarrow> audit_details \<Rightarrow> (signer_exn + 'a) \<times> signer_state
     \<Rightarrow> (signer_exn + 'a) \<times> signer_state" where
  "finish_call sp knd keyId ctx started details m =
     (case m of
        (Inr a, s) \<Rightarrow> (Inr a, s)
      | (Inl e, s) \<Rightarrow>
          if e = SignerError PolicyDenied then (Inl e, s)
          else
            let code = (case e of SignerError c \<Rightarrow> c | OtherExn \<Rightarrow> KeyProviderError) in
            (case audit sp knd keyId ctx AuditError (Some (Failed code)) started details s of
               (Inl e', s') \<Rightarrow> (Inl e', s')
             | (Inr _, s') \<Rightarrow> (Inl (SignerError code), s')))"

definition no_details :: audit_details where
  "no_details = \<lparr>adInputIndex = None, adFacts = None, adTxid = None, adPurpose = None, adDigest = None\<rparr>"

definition taproot_view :: "string \<Rightarrow> string \<Rightarrow> 'tx TaprootInspection \<Rightarrow> TaprootKeyPathInspection" where
  "taproot_view keyId who i = \<lparr>tiKeyId = keyId, tiInputIndex = tnInputIndex i, tiSighashType = tnSighashType i,
     tiInput = tnInput i, tiInputs = tnInputs i, tiOutputs = tnOutputs i, tiVersion = tnVersion i, tiLockTime = tnLockTime i,
     tiFee = tnFee i, tiPrincipal = who\<rparr>"

text \<open>The request up to its inspection.\<close>

definition taproot_inspect :: "'tx SignerOptions \<Rightarrow> SignTaprootKeyPathRequest \<Rightarrow> signer_exn + 'tx TaprootInspection" where
  "taproot_inspect sp req =
     ebind (signer_guard (trPsbtBase64 req \<noteq> []) InvalidRequest) (\<lambda>_.
     ebind (signer_guard (KEY_ID (trKeyId req)) InvalidRequest) (\<lambda>_.
     ebind (kpPublicKey (soKeys sp) (trKeyId req)) (\<lambda>x.
     inspectTaprootKeyPath (soLib sp) (trPsbtBase64 req) (trInputIndex req) x (soNetwork sp))))"

definition taproot_details :: "'tx SignerOptions \<Rightarrow> SignTaprootKeyPathRequest \<Rightarrow> 'tx TaprootInspection \<Rightarrow> audit_details" where
  "taproot_details sp req i = no_details\<lparr>adInputIndex := Some (trInputIndex req), adFacts := Some
     \<lparr>tfSighashType = tnSighashType i, tfDigest = hexEncode (soLib sp) (tnDigest i), tfInput = tnInput i,
      tfOutputs = map (\<lambda>x. (ouAmount x, case ouAddress x of None \<Rightarrow> ouScript x | Some a \<Rightarrow> a)) (tnOutputs i),
      tfFee = tnFee i, tfFinalize = trFinalize req\<rparr>\<rparr>"

text \<open>From the policy's decision on: deny, or sign, attach and record.\<close>

definition taproot_decided ::
  "'tx SignerOptions \<Rightarrow> SignTaprootKeyPathRequest \<Rightarrow> CallContext \<Rightarrow> int \<Rightarrow> 'tx TaprootInspection \<Rightarrow> signer_state
     \<Rightarrow> audit_details \<times> (signer_exn + SignTaprootKeyPathResult) \<times> signer_state" where
  "taproot_decided sp req ctx started i s =
     (let details = taproot_details sp req i; record_as = audit sp TaprootKeypath (trKeyId req) ctx in
      case poInspect (taproot_policy sp) (taproot_view (trKeyId req) (principal_of ctx) i) of
        Inl e \<Rightarrow> (details, Inl e, s)
      | Inr (Deny why) \<Rightarrow>
          (case record_as AuditDeny (Some (Denied why)) started details s of
             (Inl e, s') \<Rightarrow> (details, Inl e, s')
           | (Inr _, s') \<Rightarrow> (details, Inl (SignerError PolicyDenied), s'))
      | Inr Allow \<Rightarrow>
          let s1 = s\<lparr>sgSigned := sgSigned s @ [(trKeyId req, tnDigest i, Bip341)]\<rparr> in
          (case ebind (kpSign (soKeys sp) (trKeyId req) (tnDigest i) Bip341) (\<lambda>sig.
                  ebind (attachKeyPathSignature (soLib sp) i sig (trFinalize req)) (\<lambda>out. Inr (sig, out))) of
             Inl e \<Rightarrow> (details, Inl e, s1)
           | Inr (sig, psbt, txid) \<Rightarrow>
               let details' = details\<lparr>adTxid := txid\<rparr> in
               (case record_as AuditAllow None started details' s1 of
                  (Inl e, s') \<Rightarrow> (details', Inl e, s')
                | (Inr _, s') \<Rightarrow> (details', Inr \<lparr>tsPsbtBase64 = psbt, tsKeyId = trKeyId req, tsInputIndex = tnInputIndex i,
                    tsSighashType = tnSighashType i, tsSignature = hexEncode (soLib sp) sig,
                    tsDigest = hexEncode (soLib sp) (tnDigest i), tsTxid = txid\<rparr>, s'))))"

definition signTaprootKeyPath ::
  "'tx SignerOptions \<Rightarrow> SignTaprootKeyPathRequest \<Rightarrow> CallContext \<Rightarrow> signer_state
     \<Rightarrow> (signer_exn + SignTaprootKeyPathResult) \<times> signer_state" where
  "signTaprootKeyPath sp req ctx s =
     (let started = soNow sp (sgReads s); s0 = s\<lparr>sgReads := sgReads s + 1\<rparr>;
          (details, m) = (case taproot_inspect sp req of
             Inl e \<Rightarrow> (no_details\<lparr>adInputIndex := Some (trInputIndex req)\<rparr>, Inl e, s0)
           | Inr i \<Rightarrow> taproot_decided sp req ctx started i s0)
      in finish_call sp TaprootKeypath (trKeyId req) ctx started details m)"

text \<open>\<open>/^[a-z][a-z0-9]*(\.[a-z][a-z0-9-]*)*$/\<close> and \<open>/^[0-9a-fA-F]{64}$/\<close>.\<close>

definition lower_letter :: "char \<Rightarrow> bool" where
  "lower_letter c = (let n = of_char c :: nat in 97 \<le> n \<and> n \<le> 122)"

definition PURPOSE :: "string \<Rightarrow> bool" where
  "PURPOSE s = (case split_dots s of [] \<Rightarrow> False | w # ws \<Rightarrow>
     w \<noteq> [] \<and> lower_letter (hd w) \<and> list_all (\<lambda>c. lower_letter c \<or> is_digit c) (tl w) \<and>
     list_all (\<lambda>v. v \<noteq> [] \<and> lower_letter (hd v) \<and> list_all (\<lambda>c. lower_letter c \<or> is_digit c \<or> c = CHR ''-'') (tl v)) ws)"

definition HEX32 :: "string \<Rightarrow> bool" where
  "HEX32 s = (length s = 64 \<and> list_all is_hex s)"

definition digest_inspect :: "'tx SignerOptions \<Rightarrow> SignSchnorrDigestRequest \<Rightarrow> signer_exn + bytes" where
  "digest_inspect sp req =
     ebind (signer_guard (KEY_ID (drKeyId req)) InvalidRequest) (\<lambda>_.
     ebind (signer_guard (PURPOSE (drPurpose req)) InvalidRequest) (\<lambda>_.
     ebind (signer_guard (HEX32 (drDigest32 req)) InvalidRequest) (\<lambda>_.
     or_throw OtherExn (hexDecode (soLib sp) (lower_string (drDigest32 req))))))"

definition digest_view :: "SignSchnorrDigestRequest \<Rightarrow> string \<Rightarrow> SchnorrDigestInspection" where
  "digest_view req who = \<lparr>diKeyId = drKeyId req, diPurpose = drPurpose req, diDigest32 = lower_string (drDigest32 req), diPrincipal = who\<rparr>"

definition digest_decided ::
  "'tx SignerOptions \<Rightarrow> SignSchnorrDigestRequest \<Rightarrow> CallContext \<Rightarrow> int \<Rightarrow> audit_details \<Rightarrow> bytes \<Rightarrow> signer_state
     \<Rightarrow> (signer_exn + SignSchnorrDigestResult) \<times> signer_state" where
  "digest_decided sp req ctx started details digest s =
     (let record_as = audit sp SchnorrDigest (drKeyId req) ctx in
      case poInspect (digest_policy sp) (digest_view req (principal_of ctx)) of
        Inl e \<Rightarrow> (Inl e, s)
      | Inr (Deny why) \<Rightarrow>
          (case record_as AuditDeny (Some (Denied why)) started details s of
             (Inl e, s') \<Rightarrow> (Inl e, s')
           | (Inr _, s') \<Rightarrow> (Inl (SignerError PolicyDenied), s'))
      | Inr Allow \<Rightarrow>
          (case kpPublicKey (soKeys sp) (drKeyId req) of
             Inl e \<Rightarrow> (Inl e, s)
           | Inr pub \<Rightarrow>
               let s1 = s\<lparr>sgSigned := sgSigned s @ [(drKeyId req, digest, NoTweak)]\<rparr> in
               (case kpSign (soKeys sp) (drKeyId req) digest NoTweak of
                  Inl e \<Rightarrow> (Inl e, s1)
                | Inr sig \<Rightarrow>
                    if length sig \<noteq> 64 \<or> \<not> schnorrVerify (soLib sp) sig digest pub then (Inl (SignerError SignatureInvalid), s1)
                    else
                      (case record_as AuditAllow None started details s1 of
                         (Inl e, s') \<Rightarrow> (Inl e, s')
                       | (Inr _, s') \<Rightarrow> (Inr \<lparr>dsKeyId = drKeyId req, dsPurpose = drPurpose req,
                           dsDigest32 = lower_string (drDigest32 req), dsSignature = hexEncode (soLib sp) sig,
                           dsPublicKey = hexEncode (soLib sp) pub\<rparr>, s')))))"

definition signSchnorrDigest ::
  "'tx SignerOptions \<Rightarrow> SignSchnorrDigestRequest \<Rightarrow> CallContext \<Rightarrow> signer_state
     \<Rightarrow> (signer_exn + SignSchnorrDigestResult) \<times> signer_state" where
  "signSchnorrDigest sp req ctx s =
     (let started = soNow sp (sgReads s); s0 = s\<lparr>sgReads := sgReads s + 1\<rparr>;
          details = no_details\<lparr>adPurpose := Some (drPurpose req), adDigest := Some (drDigest32 req)\<rparr>;
          m = (case digest_inspect sp req of Inl e \<Rightarrow> (Inl e, s0) | Inr digest \<Rightarrow> digest_decided sp req ctx started details digest s0)
      in finish_call sp SchnorrDigest (drKeyId req) ctx started details m)"

text \<open>\<open>publicKey\<close>: the key and the output key derived from it.\<close>

definition signer_publicKey :: "'tx SignerOptions \<Rightarrow> string \<Rightarrow> signer_exn + (string \<times> string \<times> string)" where
  "signer_publicKey sp keyId =
     ebind (signer_guard (KEY_ID keyId) InvalidRequest) (\<lambda>_.
     ebind (kpPublicKey (soKeys sp) keyId) (\<lambda>x.
     ebind (or_throw OtherExn (p2trTweakedPubkey (soLib sp) x)) (\<lambda>t.
     Inr (keyId, hexEncode (soLib sp) x, hexEncode (soLib sp) t))))"

end
