(* ===== verification/SignerProps.thy ===== *)
theory SignerProps imports Signer Verify begin

text \<open>
  What the signer promises: nothing is signed that the policies do not allow, every request leaves one audit record
  that says how it ended, and a key behind an output allowlist and a fee limit can only pay that fee away.
\<close>

subsection \<open>Inspection and audit\<close>

lemma emapM_nth: "emapM f xs = Inr ys \<Longrightarrow> i < length xs \<Longrightarrow> f (xs ! i) = Inr (ys ! i)"
proof (induction xs arbitrary: ys i)
  case (Cons x xs)
  then show ?case by (cases i) (auto simp: ebind_eq_Inr)
qed simp

text \<open>What an inspection that did not throw has established.\<close>

lemma inspected:
  assumes "inspectTaprootKeyPath L psbt index key network = Inr i"
  shows "\<exists>script target. p2trScript L key = Some script \<and> p2trTweakedPubkey L key = Some (tnOutputKey i) \<and>
      parsePsbt L psbt = Inr (tnTx i) \<and> index = int (tnInputIndex i) \<and> tnInputIndex i < inputsLength L (tnTx i) \<and>
      pvScript (tnInput i) = hexEncode L script \<and> tnInput i = tnInputs i ! tnInputIndex i \<and>
      getInput L (tnTx i) (tnInputIndex i) = Some target \<and> inTapKeySig target = None \<and> inFinalScriptWitness target = None \<and>
      inTapLeafScript target \<in> {None, Some []} \<and> inTapMerkleRoot target \<in> {None, Some []} \<and>
      inTapInternalKey target \<in> {None} \<union> {Some k |k. hexEncode L k = hexEncode L key} \<and>
      emapM (prevoutOf L (tnTx i)) [0..<inputsLength L (tnTx i)] = Inr (tnInputs i) \<and>
      emapM (output_of L network (tnTx i)) [0..<outputsLength L (tnTx i)] = Inr (tnOutputs i) \<and>
      (\<exists>scripts. emapM (\<lambda>p. or_throw (SignerError PsbtInvalid) (hexDecode L (pvScript p))) (tnInputs i) = Inr scripts \<and>
         keyPathPreimage L (tnTx i) (tnInputIndex i) scripts (tnSighashType i) (map pvAmount (tnInputs i)) = Some (tnDigest i)) \<and>
      tnFee i = sum_list (map pvAmount (tnInputs i)) - sum_list (map ouAmount (tnOutputs i))"
  using assms by (auto simp: inspectTaprootKeyPath_def Let_def ebind_eq_Inr check_target_def split: option.splits)

text \<open>An audit appends one record and returns, or the sink refuses the record and the audit throws.\<close>

lemma audit_appends:
  "audit sp knd keyId ctx dec why started details s = (m, s') \<Longrightarrow>
   sgSigned s' = sgSigned s \<and>
   (m = Inr () \<and> (\<exists>r. sgAudit s' = sgAudit s @ [r] \<and> auKind r = knd \<and> auKeyId r = keyId \<and> auDecision r = dec \<and> auReason r = why \<and>
      auDetails r = details \<and> auPrincipal r = principal_of ctx) \<or>
    m = Inl OtherExn \<and> sgAudit s' = sgAudit s \<and> (\<exists>r. soAuditFails sp r))"
  by (auto simp: audit_def Let_def split: if_splits)

text \<open>A record was written for the call, and it says how it ended.\<close>

definition recorded ::
  "audit_kind \<Rightarrow> string \<Rightarrow> CallContext \<Rightarrow> signer_exn + 'a \<Rightarrow> signer_state \<Rightarrow> signer_state \<Rightarrow> bool" where
  "recorded knd keyId ctx m s s' \<longleftrightarrow> (\<exists>r. sgAudit s' = sgAudit s @ [r] \<and> auKind r = knd \<and> auKeyId r = keyId \<and>
     auPrincipal r = principal_of ctx \<and>
     (case m of
        Inr _ \<Rightarrow> auDecision r = AuditAllow \<and> auReason r = None
      | Inl e \<Rightarrow> (if e = SignerError PolicyDenied then auDecision r = AuditDeny \<and> (\<exists>why. auReason r = Some (Denied why))
                  else auDecision r = AuditError \<and> (\<exists>c. auReason r = Some (Failed c) \<and> e = SignerError c))))"

text \<open>
  Errors with the code of a denial that are none: the key provider or a policy throws one instead of answering with it.
\<close>

definition raises_denial :: "'tx SignerOptions \<Rightarrow> bool" where
  "raises_denial sp \<longleftrightarrow>
     (\<exists>k. kpPublicKey (soKeys sp) k = Inl (SignerError PolicyDenied)) \<or>
     (\<exists>k d t. kpSign (soKeys sp) k d t = Inl (SignerError PolicyDenied)) \<or>
     (\<exists>r. poInspect (taproot_policy sp) r = Inl (SignerError PolicyDenied)) \<or>
     (\<exists>r. poInspect (digest_policy sp) r = Inl (SignerError PolicyDenied))"

text \<open>
  How a call may end: with the record of its outcome; without any, if a thrown denial passed the handler as one already
  audited, or if the sink refused the record, in which case the call throws.
\<close>

definition accounted ::
  "'tx SignerOptions \<Rightarrow> audit_kind \<Rightarrow> string \<Rightarrow> CallContext \<Rightarrow> signer_exn + 'a \<Rightarrow> signer_state \<Rightarrow> signer_state \<Rightarrow> bool" where
  "accounted sp knd keyId ctx m s s' \<longleftrightarrow> recorded knd keyId ctx m s s' \<or>
     (sgAudit s' = sgAudit s \<and>
      (m = Inl (SignerError PolicyDenied) \<and> raises_denial sp \<or> m = Inl OtherExn \<and> (\<exists>r. soAuditFails sp r)))"

text \<open>
  The body of a call is sound: it wrote the record of its outcome (an allow or a deny), or threw without writing any.
\<close>

definition body_ok ::
  "'tx SignerOptions \<Rightarrow> audit_kind \<Rightarrow> string \<Rightarrow> CallContext \<Rightarrow> (signer_exn + 'a) \<times> signer_state \<Rightarrow> signer_state \<Rightarrow> bool" where
  "body_ok sp knd keyId ctx m s \<longleftrightarrow>
     ((\<exists>a. fst m = Inr a) \<or> fst m = Inl (SignerError PolicyDenied)) \<and> recorded knd keyId ctx (fst m) s (snd m) \<or>
     (\<exists>e. fst m = Inl e \<and> (e = SignerError PolicyDenied \<longrightarrow> raises_denial sp) \<and> sgAudit (snd m) = sgAudit s)"

lemma finish_recorded:
  assumes body: "body_ok sp knd keyId ctx m s"
  shows "accounted sp knd keyId ctx (fst (finish_call sp knd keyId ctx started details m)) s
      (snd (finish_call sp knd keyId ctx started details m)) \<and>
    sgSigned (snd (finish_call sp knd keyId ctx started details m)) = sgSigned (snd m)"
proof (cases "fst m")
  case (Inr a)
  then show ?thesis using body by (cases m) (simp add: body_ok_def finish_call_def accounted_def)
next
  case (Inl e)
  show ?thesis
  proof (cases "e = SignerError PolicyDenied")
    case True
    then show ?thesis using body Inl by (cases m) (auto simp: body_ok_def finish_call_def accounted_def)
  next
    case False
    obtain s1 where m: "m = (Inl e, s1)" using Inl by (cases m) simp
    let ?c = "case e of SignerError c \<Rightarrow> c | OtherExn \<Rightarrow> KeyProviderError"
    obtain x s2 where a: "audit sp knd keyId ctx AuditError (Some (Failed ?c)) started details s1 = (x, s2)" by fastforce
    have "sgAudit s1 = sgAudit s" using body m False by (simp add: body_ok_def)
    moreover have "?c \<noteq> PolicyDenied" using False by (cases e) auto
    ultimately show ?thesis
      using audit_appends [OF a] False a by (auto simp: m finish_call_def recorded_def accounted_def)
  qed
qed

subsection \<open>Taproot signatures\<close>

lemma throws_no_denial [simp]: "or_throw e x = Inl d \<longleftrightarrow> x = None \<and> e = d" "signer_guard b c = Inl d \<longleftrightarrow> \<not> b \<and> d = SignerError c"
  by (auto simp: or_throw_def signer_guard_def split: option.split)

lemma ebind_eq_Inl: "ebind m f = Inl e \<longleftrightarrow> m = Inl e \<or> (\<exists>a. m = Inr a \<and> f a = Inl e)"
  by (cases m) auto

lemma emapM_eq_Inl: "emapM f xs = Inl e \<Longrightarrow> \<exists>x \<in> set xs. f x = Inl e"
  by (induction xs) (auto simp: ebind_eq_Inl)

lemma prevoutOf_no_denial: "prevoutOf L tx i \<noteq> Inl (SignerError PolicyDenied)"
  by (auto simp: prevoutOf_def ebind_eq_Inl split: option.split prod.split)

lemma output_of_no_denial: "output_of L n tx i \<noteq> Inl (SignerError PolicyDenied)"
  by (auto simp: output_of_def ebind_eq_Inl split: option.split prod.split)

lemma inspect_no_denial: "inspectTaprootKeyPath L psbt index key network \<noteq> Inl (SignerError PolicyDenied)"
  using prevoutOf_no_denial output_of_no_denial
  by (fastforce simp: inspectTaprootKeyPath_def ebind_eq_Inl parsePsbt_def check_target_def Let_def dest!: emapM_eq_Inl)

lemma attach_no_denial: "attachKeyPathSignature L i sig f \<noteq> Inl (SignerError PolicyDenied)"
  by (auto simp: attachKeyPathSignature_def ebind_eq_Inl Let_def split: if_splits)

lemma body_ok_throw:
  "(e = SignerError PolicyDenied \<Longrightarrow> raises_denial sp) \<Longrightarrow> sgAudit s' = sgAudit s \<Longrightarrow> body_ok sp knd keyId ctx (Inl e, s') s"
  by (simp add: body_ok_def)

lemma body_ok_written:
  assumes "(\<exists>a. m = Inr a) \<or> m = Inl (SignerError PolicyDenied)" "recorded knd keyId ctx m s s'"
  shows "body_ok sp knd keyId ctx (m, s') s"
  using assms by (auto simp: body_ok_def)

lemma taproot_inspect_denial: "taproot_inspect sp req = Inl (SignerError PolicyDenied) \<Longrightarrow> raises_denial sp"
  by (auto simp: taproot_inspect_def ebind_eq_Inl raises_denial_def inspect_no_denial)

lemma digest_inspect_no_denial: "digest_inspect sp req \<noteq> Inl (SignerError PolicyDenied)"
  by (auto simp: digest_inspect_def ebind_eq_Inl)

lemma decision_cases:
  obtains (throws) e where "(d :: signer_exn + PolicyDecision) = Inl e" | (deny) why where "d = Inr (Deny why)"
    | (allow) "d = Inr Allow"
proof (cases d)
  case (Inr p)
  then show ?thesis using deny allow by (cases p) simp_all
qed (use throws in simp)

lemma taproot_body:
  "body_ok sp TaprootKeypath (trKeyId req) ctx (snd (taproot_decided sp req ctx started i s)) s \<and>
    (sgSigned (snd (snd (taproot_decided sp req ctx started i s))) \<noteq> sgSigned s \<longrightarrow>
     poInspect (taproot_policy sp) (taproot_view (trKeyId req) (principal_of ctx) i) = Inr Allow)"
proof -
  let ?d = "poInspect (taproot_policy sp) (taproot_view (trKeyId req) (principal_of ctx) i)"
  let ?a = "\<lambda>dec why details s. audit sp TaprootKeypath (trKeyId req) ctx dec why started details s"
  let ?s1 = "s\<lparr>sgSigned := sgSigned s @ [(trKeyId req, tnDigest i, Bip341)]\<rparr>"
  let ?k = "ebind (kpSign (soKeys sp) (trKeyId req) (tnDigest i) Bip341) (\<lambda>sig.
      ebind (attachKeyPathSignature (soLib sp) i sig (trFinalize req)) (\<lambda>out. Inr (sig, out)))"
  show ?thesis
  proof (cases ?d rule: decision_cases)
    case throws
    then show ?thesis by (auto simp: taproot_decided_def Let_def raises_denial_def intro!: body_ok_throw)
  next
    case (deny why)
    obtain x s2 where a: "?a AuditDeny (Some (Denied why)) (taproot_details sp req i) s = (x, s2)" by fastforce
    show ?thesis using audit_appends [OF a] a deny
      by (auto simp: taproot_decided_def Let_def body_ok_def recorded_def)
  next
    case allow
    show ?thesis
    proof (cases ?k)
      case (Inl e)
      then have "e = SignerError PolicyDenied \<Longrightarrow> raises_denial sp"
        by (auto simp: ebind_eq_Inl raises_denial_def attach_no_denial)
      with allow Inl show ?thesis by (simp add: taproot_decided_def Let_def body_ok_throw)
    next
      case (Inr r)
      obtain sig psbt txid where r: "r = (sig, psbt, txid)" by (cases r)
      obtain x s2 where a: "?a AuditAllow None ((taproot_details sp req i)\<lparr>adTxid := txid\<rparr>) ?s1 = (x, s2)" by fastforce
      show ?thesis using audit_appends [OF a] a allow Inr
        by (auto simp: r taproot_decided_def Let_def body_ok_def recorded_def)
    qed
  qed
qed

lemma digest_body:
  "body_ok sp SchnorrDigest (drKeyId req) ctx (digest_decided sp req ctx started details digest s) s \<and>
    (sgSigned (snd (digest_decided sp req ctx started details digest s)) \<noteq> sgSigned s \<longrightarrow>
     poInspect (digest_policy sp) (digest_view req (principal_of ctx)) = Inr Allow)"
proof -
  let ?d = "poInspect (digest_policy sp) (digest_view req (principal_of ctx))"
  let ?s1 = "s\<lparr>sgSigned := sgSigned s @ [(drKeyId req, digest, NoTweak)]\<rparr>"
  obtain x s2 where a: "audit sp SchnorrDigest (drKeyId req) ctx AuditAllow None started details ?s1 = (x, s2)" by fastforce
  note allowed = audit_appends [OF a]
  show ?thesis
  proof (cases ?d rule: decision_cases)
    case throws
    then show ?thesis by (auto simp: digest_decided_def Let_def raises_denial_def intro!: body_ok_throw)
  next
    case (deny why)
    obtain y s3 where b: "audit sp SchnorrDigest (drKeyId req) ctx AuditDeny (Some (Denied why)) started details s = (y, s3)"
      by fastforce
    show ?thesis using audit_appends [OF b] b deny
      by (auto simp: digest_decided_def Let_def body_ok_def recorded_def)
  next
    case allow
    then show ?thesis using allowed a
      by (auto simp: digest_decided_def Let_def body_ok_def recorded_def raises_denial_def split: sum.split)
  qed
qed

text \<open>What a signed request went through.\<close>

definition signed_by ::
  "'tx SignerOptions \<Rightarrow> SignTaprootKeyPathRequest \<Rightarrow> CallContext \<Rightarrow> SignTaprootKeyPathResult \<Rightarrow> 'tx TaprootInspection \<Rightarrow> bytes \<Rightarrow> bool" where
  "signed_by sp req ctx res i sig \<longleftrightarrow>
     taproot_inspect sp req = Inr i \<and>
     poInspect (taproot_policy sp) (taproot_view (trKeyId req) (principal_of ctx) i) = Inr Allow \<and>
     kpSign (soKeys sp) (trKeyId req) (tnDigest i) Bip341 = Inr sig \<and> tsSignature res = hexEncode (soLib sp) sig \<and>
     (\<exists>psbt txid. attachKeyPathSignature (soLib sp) i sig (trFinalize req) = Inr (psbt, txid) \<and> tsPsbtBase64 res = psbt)"

lemma audit_Inr:
  "audit sp knd keyId ctx dec why started details s = (Inr u, s') \<Longrightarrow>
   sgSigned s' = sgSigned s \<and> (\<exists>r. sgAudit s' = sgAudit s @ [r] \<and> auDecision r = dec \<and> auKeyId r = keyId \<and> auPrincipal r = principal_of ctx)"
  by (auto simp: audit_def Let_def split: if_splits)

lemma finish_returns: "finish_call sp knd keyId ctx started details m = (Inr a, s') \<Longrightarrow> m = (Inr a, s')"
  by (cases m) (auto simp: finish_call_def Let_def split: sum.splits if_splits prod.splits)

lemma signTaproot_Inr:
  assumes "signTaprootKeyPath sp req ctx s = (Inr res, s')"
  obtains i sig r where "signed_by sp req ctx res i sig"
    "sgSigned s' = sgSigned s @ [(trKeyId req, tnDigest i, Bip341)]"
    "sgAudit s' = sgAudit s @ [r]" "auDecision r = AuditAllow" "auKeyId r = trKeyId req" "auPrincipal r = principal_of ctx"
proof -
  let ?s0 = "s\<lparr>sgReads := Suc (sgReads s)\<rparr>"
  define dm where "dm = (case taproot_inspect sp req of
      Inl e \<Rightarrow> (no_details\<lparr>adInputIndex := Some (trInputIndex req)\<rparr>, Inl e, ?s0)
    | Inr i \<Rightarrow> taproot_decided sp req ctx (soNow sp (sgReads s)) i ?s0)"
  have "finish_call sp TaprootKeypath (trKeyId req) ctx (soNow sp (sgReads s)) (fst dm) (snd dm) = (Inr res, s')"
    using assms unfolding dm_def by (simp add: signTaprootKeyPath_def Let_def split_beta)
  then have dm: "snd dm = (Inr res, s')" by (rule finish_returns)
  then obtain i where i: "taproot_inspect sp req = Inr i"
    and d: "snd (taproot_decided sp req ctx (soNow sp (sgReads s)) i ?s0) = (Inr res, s')"
    by (cases "taproot_inspect sp req") (simp_all add: dm_def)
  show thesis
  proof (cases "poInspect (taproot_policy sp) (taproot_view (trKeyId req) (principal_of ctx) i)" rule: decision_cases)
    case throws
    then show ?thesis using d by (simp add: taproot_decided_def Let_def)
  next
    case (deny why)
    then show ?thesis using d by (auto simp: taproot_decided_def Let_def split: prod.splits sum.splits)
  next
    case allow
    then obtain sig psbt txid where sig: "kpSign (soKeys sp) (trKeyId req) (tnDigest i) Bip341 = Inr sig"
        "attachKeyPathSignature (soLib sp) i sig (trFinalize req) = Inr (psbt, txid)"
      using d by (auto simp: taproot_decided_def Let_def ebind_eq_Inr split: sum.splits)
    obtain u where a: "audit sp TaprootKeypath (trKeyId req) ctx AuditAllow None (soNow sp (sgReads s))
        ((taproot_details sp req i)\<lparr>adTxid := txid\<rparr>) (?s0\<lparr>sgSigned := sgSigned s @ [(trKeyId req, tnDigest i, Bip341)]\<rparr>) = (Inr u, s')"
      and res: "tsSignature res = hexEncode (soLib sp) sig" "tsPsbtBase64 res = psbt"
      using d allow sig by (auto simp: taproot_decided_def Let_def split: prod.splits sum.splits)
    show ?thesis using that [OF _ _] audit_Inr [OF a] i allow sig res by (auto simp: signed_by_def)
  qed
qed

text \<open>
  C23: a signature is only made of what the policies allow. If \<open>signTaprootKeyPath\<close> returns, then the requested input of
  the decoded PSBT pays the key-path output of the key, carries neither a key-path signature nor a final witness, names no
  script leaf, no script tree and no other internal key, its hash type is one the signer allows, every configured policy
  allowed what the PSBT says, the one signing request that went to the key provider is the sighash of that very PSBT
  over all of its prevouts, the signature that is returned verifies against the output key, and an allow record with
  the key and the principal was written.
\<close>

theorem taproot_signature_allowed:
  assumes "signTaprootKeyPath sp req ctx s = (Inr res, s')"
  shows "\<exists>i sig x script target r. taproot_inspect sp req = Inr i \<and>
    parsePsbt (soLib sp) (trPsbtBase64 req) = Inr (tnTx i) \<and> trInputIndex req = int (tnInputIndex i) \<and>
    getInput (soLib sp) (tnTx i) (tnInputIndex i) = Some target \<and>
    inTapKeySig target = None \<and> inFinalScriptWitness target = None \<and>
    inTapLeafScript target \<in> {None, Some []} \<and> inTapMerkleRoot target \<in> {None, Some []} \<and>
    inTapInternalKey target \<in> {None} \<union> {Some k |k. hexEncode (soLib sp) k = hexEncode (soLib sp) x} \<and>
    kpPublicKey (soKeys sp) (trKeyId req) = Inr x \<and> p2trScript (soLib sp) x = Some script \<and>
    pvScript (tnInputs i ! tnInputIndex i) = hexEncode (soLib sp) script \<and>
    p2trTweakedPubkey (soLib sp) x = Some (tnOutputKey i) \<and>
    (\<exists>scripts. emapM (\<lambda>p. or_throw (SignerError PsbtInvalid) (hexDecode (soLib sp) (pvScript p))) (tnInputs i) = Inr scripts \<and>
      keyPathPreimage (soLib sp) (tnTx i) (tnInputIndex i) scripts (tnSighashType i) (map pvAmount (tnInputs i)) = Some (tnDigest i)) \<and>
    tnSighashType i \<in> set (case soAllowedSighashTypes sp of None \<Rightarrow> [0x00, 0x01] | Some ts \<Rightarrow> ts) \<and>
    (\<forall>p \<in> set (case soTaprootPolicies sp of None \<Rightarrow> [] | Some ps \<Rightarrow> ps).
       poInspect p (taproot_view (trKeyId req) (principal_of ctx) i) = Inr Allow) \<and>
    length sig = 64 \<and> schnorrVerify (soLib sp) sig (tnDigest i) (tnOutputKey i) \<and> tsSignature res = hexEncode (soLib sp) sig \<and>
    sgSigned s' = sgSigned s @ [(trKeyId req, tnDigest i, Bip341)] \<and>
    sgAudit s' = sgAudit s @ [r] \<and> auDecision r = AuditAllow \<and> auKeyId r = trKeyId req \<and> auPrincipal r = principal_of ctx"
proof -
  obtain i sig r where *: "signed_by sp req ctx res i sig"
    "sgSigned s' = sgSigned s @ [(trKeyId req, tnDigest i, Bip341)]"
    "sgAudit s' = sgAudit s @ [r]" "auDecision r = AuditAllow" "auKeyId r = trKeyId req" "auPrincipal r = principal_of ctx"
    using assms by (rule signTaproot_Inr)
  let ?v = "taproot_view (trKeyId req) (principal_of ctx) i"
  obtain x where x: "kpPublicKey (soKeys sp) (trKeyId req) = Inr x"
      "inspectTaprootKeyPath (soLib sp) (trPsbtBase64 req) (trInputIndex req) x (soNetwork sp) = Inr i"
    using * by (auto simp: signed_by_def taproot_inspect_def ebind_eq_Inr)
  have all: "poInspect (taproot_policy sp) ?v = Inr Allow" using * by (simp add: signed_by_def)
  have "tiSighashType ?v \<in> set (case soAllowedSighashTypes sp of None \<Rightarrow> [0x00, 0x01] | Some ts \<Rightarrow> ts)"
    using all unfolding taproot_policy_def by (rule sighash.in_allOf [rotated]) simp
  moreover have "\<forall>p \<in> set (case soTaprootPolicies sp of None \<Rightarrow> [] | Some ps \<Rightarrow> ps). poInspect p ?v = Inr Allow"
    using all by (simp add: taproot_policy_def allOf_def inspect_all_Allow list_all_iff del: inspect_all.simps(2) split: option.splits)
  moreover have "length sig = 64 \<and> schnorrVerify (soLib sp) sig (tnDigest i) (tnOutputKey i) \<and> tsSignature res = hexEncode (soLib sp) sig"
    using * by (auto simp: signed_by_def attachKeyPathSignature_def ebind_eq_Inr)
  moreover obtain script target where
    "p2trScript (soLib sp) x = Some script" "pvScript (tnInput i) = hexEncode (soLib sp) script"
    "tnInput i = tnInputs i ! tnInputIndex i" "p2trTweakedPubkey (soLib sp) x = Some (tnOutputKey i)"
    "parsePsbt (soLib sp) (trPsbtBase64 req) = Inr (tnTx i)" "trInputIndex req = int (tnInputIndex i)"
    "getInput (soLib sp) (tnTx i) (tnInputIndex i) = Some target" "inTapKeySig target = None"
    "inFinalScriptWitness target = None" "inTapLeafScript target \<in> {None, Some []}" "inTapMerkleRoot target \<in> {None, Some []}"
    "inTapInternalKey target \<in> {None} \<union> {Some k |k. hexEncode (soLib sp) k = hexEncode (soLib sp) x}"
    "\<exists>scripts. emapM (\<lambda>p. or_throw (SignerError PsbtInvalid) (hexDecode (soLib sp) (pvScript p))) (tnInputs i) = Inr scripts \<and>
      keyPathPreimage (soLib sp) (tnTx i) (tnInputIndex i) scripts (tnSighashType i) (map pvAmount (tnInputs i)) = Some (tnDigest i)"
    using inspected [OF x(2)] by blast
  ultimately show ?thesis using * x(1)
    by (intro exI [of _ i] exI [of _ sig] exI [of _ x] exI [of _ script] exI [of _ target] exI [of _ r] conjI)
       (simp_all add: signed_by_def taproot_view_def)
qed

text \<open>
  C24: a key behind an output allowlist and a fee limit can only give that fee away. If both policies are configured,
  every output of a transaction the signer signed pays an allowed script or address, and what the inputs hold beyond the
  outputs is between nothing and the limit.
\<close>

theorem treasury_keeps_value:
  assumes "signTaprootKeyPath sp req ctx s = (Inr res, s')"
    and "soTaprootPolicies sp = Some ps" and "outputAllowlist allowed \<in> set ps" and "maxFee m \<in> set ps"
  shows "\<exists>i. taproot_inspect sp req = Inr i \<and>
    emapM (prevoutOf (soLib sp) (tnTx i)) [0..<inputsLength (soLib sp) (tnTx i)] = Inr (tnInputs i) \<and>
    emapM (output_of (soLib sp) (soNetwork sp) (tnTx i)) [0..<outputsLength (soLib sp) (tnTx i)] = Inr (tnOutputs i) \<and>
    list_all (output_allowed allowed) (tnOutputs i) \<and>
    (let given = sum_list (map pvAmount (tnInputs i)); kept = sum_list (map ouAmount (tnOutputs i))
     in kept \<le> given \<and> given - kept \<le> m)"
proof -
  obtain i sig r where *: "signed_by sp req ctx res i sig" using assms(1) by (rule signTaproot_Inr)
  let ?v = "taproot_view (trKeyId req) (principal_of ctx) i"
  obtain x where x: "inspectTaprootKeyPath (soLib sp) (trPsbtBase64 req) (trInputIndex req) x (soNetwork sp) = Inr i"
    using * by (auto simp: signed_by_def taproot_inspect_def ebind_eq_Inr)
  have all: "poInspect (taproot_policy sp) ?v = Inr Allow" using * by (simp add: signed_by_def)
  have "list_all (output_allowed allowed) (tiOutputs ?v)"
    using all assms(2,3) unfolding taproot_policy_def by (intro outs.in_allOf [of allowed]) auto
  moreover have "0 \<le> tiFee ?v \<and> tiFee ?v \<le> m"
    using all assms(2,4) unfolding taproot_policy_def by (intro fee.in_allOf [of m]) auto
  ultimately show ?thesis using * inspected [OF x] by (auto simp: signed_by_def taproot_view_def Let_def)
qed

text \<open>
  C25: how calls are accounted for, and what the key is used for. Each call of either operation, under any policies, key
  provider and audit sink, appends exactly one record with the key and the principal: it says allow when the call
  returned, deny with the policy's reason when it was denied, and error with the code of the error that was thrown in every
  other case. The exceptions are two, and then no record is there: a key provider or a policy that throws a
  \<open>policy_denied\<close> of its own ends the call with that error, and a sink that refuses the record ends it with another; so
  a call that returns always left its allow record. The key provider was asked to sign only if the policies allowed the
  request.
\<close>

theorem signer_audits_every_call:
  "accounted sp TaprootKeypath (trKeyId treq) ctx (fst (signTaprootKeyPath sp treq ctx s)) s (snd (signTaprootKeyPath sp treq ctx s)) \<and>
    accounted sp SchnorrDigest (drKeyId dreq) ctx (fst (signSchnorrDigest sp dreq ctx s)) s (snd (signSchnorrDigest sp dreq ctx s)) \<and>
    (sgSigned (snd (signTaprootKeyPath sp treq ctx s)) = sgSigned s \<or> (\<exists>i. taproot_inspect sp treq = Inr i \<and>
       poInspect (taproot_policy sp) (taproot_view (trKeyId treq) (principal_of ctx) i) = Inr Allow)) \<and>
    (sgSigned (snd (signSchnorrDigest sp dreq ctx s)) = sgSigned s \<or>
       poInspect (digest_policy sp) (digest_view dreq (principal_of ctx)) = Inr Allow)"
proof -
  let ?s0 = "s\<lparr>sgReads := Suc (sgReads s)\<rparr>"
  have at0: "body_ok sp k id ctx m ?s0 = body_ok sp k id ctx m s" for k id and m :: "(signer_exn + 'x) \<times> signer_state"
    by (simp add: body_ok_def recorded_def)
  define t where "t = (case taproot_inspect sp treq of
      Inl e \<Rightarrow> (no_details\<lparr>adInputIndex := Some (trInputIndex treq)\<rparr>, Inl e, ?s0)
    | Inr i \<Rightarrow> taproot_decided sp treq ctx (soNow sp (sgReads s)) i ?s0)"
  have t: "body_ok sp TaprootKeypath (trKeyId treq) ctx (snd t) s \<and>
     (sgSigned (snd (snd t)) \<noteq> sgSigned s \<longrightarrow> (\<exists>i. taproot_inspect sp treq = Inr i \<and>
       poInspect (taproot_policy sp) (taproot_view (trKeyId treq) (principal_of ctx) i) = Inr Allow))"
    using taproot_body [of sp treq ctx "soNow sp (sgReads s)" _ ?s0] taproot_inspect_denial [of sp treq]
    by (auto simp: t_def at0 split: sum.split intro!: body_ok_throw)
  have ft: "signTaprootKeyPath sp treq ctx s =
      finish_call sp TaprootKeypath (trKeyId treq) ctx (soNow sp (sgReads s)) (fst t) (snd t)"
    unfolding t_def by (simp add: signTaprootKeyPath_def Let_def split_beta)
  define det where "det = no_details\<lparr>adPurpose := Some (drPurpose dreq), adDigest := Some (drDigest32 dreq)\<rparr>"
  define d where "d = (case digest_inspect sp dreq of Inl e \<Rightarrow> (Inl e, ?s0)
    | Inr digest \<Rightarrow> digest_decided sp dreq ctx (soNow sp (sgReads s)) det digest ?s0)"
  have d: "body_ok sp SchnorrDigest (drKeyId dreq) ctx d s \<and>
     (sgSigned (snd d) \<noteq> sgSigned s \<longrightarrow> poInspect (digest_policy sp) (digest_view dreq (principal_of ctx)) = Inr Allow)"
    using digest_body [of sp dreq ctx "soNow sp (sgReads s)" det _ ?s0] digest_inspect_no_denial
    by (auto simp: d_def at0 split: sum.split intro!: body_ok_throw)
  have fd: "signSchnorrDigest sp dreq ctx s =
      finish_call sp SchnorrDigest (drKeyId dreq) ctx (soNow sp (sgReads s)) det d"
    unfolding d_def det_def by (simp add: signSchnorrDigest_def Let_def)
  show ?thesis
    using finish_recorded t d unfolding ft fd by metis
qed

subsection \<open>A concrete signer\<close>

definition own_script :: bytes where "own_script = 0x51 # 0x20 # replicate 32 1"
definition treasury_script :: bytes where "treasury_script = 0x51 # 0x20 # replicate 32 9"

definition sweep_tx :: ConcTx where
  "sweep_tx = \<lparr>cxVersion = 2, cxLock = 0,
     cxIns = [empty_input\<lparr>inTxid := Some (replicate 32 7), inIndex := Some 0, inWitnessUtxo := Some (own_script, 1000)\<rparr>],
     cxOuts = [\<lparr>outScript = Some treasury_script, outAmount = Some 900\<rparr>]\<rparr>"

definition sweep_lib :: "ConcTx signer_lib" where
  "sweep_lib = btc_lib.extend (conc_lib sweep_tx) (signer_lib.fields (\<lambda>k. Some (replicate 32 4)) (\<lambda>t i s h a. Some (replicate 32 3))
     (\<lambda>t i v. None) (\<lambda>n s. None) (\<lambda>t. Some ''id''))"

definition sweep_signer :: "ConcTx SignerOptions" where
  "sweep_signer = \<lparr>soLib = sweep_lib,
     soKeys = \<lparr>kpPublicKey = (\<lambda>k. Inr (replicate 32 1)), kpSign = (\<lambda>k d t. Inr (replicate 64 2))\<rparr>,
     soAuditFails = (\<lambda>r. False), soAllowedPurposes = [''blockspace.certify''],
     soTaprootPolicies = Some [outputAllowlist [hex_string treasury_script], maxFee 500], soDigestPolicies = None,
     soAllowedSighashTypes = None, soNetwork = Signet, soNow = (\<lambda>n. int n), soNewId = (\<lambda>n. digits_of_nat n)\<rparr>"

definition sweep_request :: SignTaprootKeyPathRequest where
  "sweep_request = \<lparr>trPsbtBase64 = ''cA=='', trInputIndex = 0, trKeyId = ''sweep'', trFinalize = True\<rparr>"

definition digest_request :: SignSchnorrDigestRequest where
  "digest_request = \<lparr>drKeyId = ''sweep'', drDigest32 = replicate 64 (CHR ''a''), drPurpose = ''blockspace.certify''\<rparr>"

definition no_context :: CallContext where "no_context = \<lparr>ctPrincipal = None, ctRequestId = None\<rparr>"
definition new_signer :: signer_state where "new_signer = \<lparr>sgAudit = [], sgSigned = [], sgReads = 0, sgIds = 0\<rparr>"

lemma sweep_lib_simps:
  "base64Decode sweep_lib ''cA=='' = Some [1]" "fromPSBT sweep_lib [1] = Some sweep_tx" "hexEncode sweep_lib = hex_string"
  "hexDecode sweep_lib s = Some (unhex s)" "inputsLength sweep_lib t = length (cxIns t)" "outputsLength sweep_lib t = length (cxOuts t)"
  "getInput sweep_lib t k = (if k < length (cxIns t) then Some (cxIns t ! k) else None)"
  "getOutput sweep_lib t k = (if k < length (cxOuts t) then Some (cxOuts t ! k) else None)"
  "p2trScript sweep_lib key = Some (0x51 # 0x20 # key)" "schnorrVerify sweep_lib sg d key" "updateInput sweep_lib t k i keep = Some t"
  "finalizeIdx sweep_lib t k = Some t" "p2trTweakedPubkey sweep_lib key = Some (replicate 32 4)"
  "keyPathPreimage sweep_lib t k ss h am = Some (replicate 32 3)" "addressOfScript sweep_lib net script = None"
  by (simp_all add: sweep_lib_def btc_lib.extend_def signer_lib.fields_def conc_lib_def)

definition sweep_input :: Prevout where
  "sweep_input = \<lparr>pvTxid = hex_string (replicate 32 7), pvVout = 0, pvAmount = 1000, pvScript = hex_string own_script\<rparr>"

definition sweep_output :: TxOut where
  "sweep_output = \<lparr>ouAmount = 900, ouScript = hex_string treasury_script, ouAddress = None\<rparr>"

lemma sweep_signer_simps:
  "soLib sweep_signer = sweep_lib" "soNetwork sweep_signer = Signet" "kpPublicKey (soKeys sweep_signer) key = Inr (replicate 32 1)"
  "kpSign (soKeys sweep_signer) key d t = Inr (replicate 64 2)" "\<not> soAuditFails sweep_signer r"
  by (simp_all add: sweep_signer_def)

lemma sweep_prevout: "prevoutOf sweep_lib sweep_tx 0 = Inr sweep_input"
  by (simp add: prevoutOf_def sweep_lib_simps or_throw_def sweep_tx_def sweep_input_def)

lemma sweep_output: "output_of sweep_lib Signet sweep_tx 0 = Inr sweep_output"
  by (simp add: output_of_def addressOf_def sweep_lib_simps or_throw_def sweep_tx_def sweep_output_def)

lemma sweep_sizes: "length (cxIns sweep_tx) = 1" "length (cxOuts sweep_tx) = 1" "cxIns sweep_tx \<noteq> []"
  by (simp_all add: sweep_tx_def)

lemma sweep_target:
  "check_target sweep_lib (replicate 32 1) own_script sweep_input (cxIns sweep_tx ! 0) = Inr ()"
  "inSighashType (cxIns sweep_tx ! 0) = None"
  by (simp_all add: check_target_def sweep_lib_simps signer_guard_def sweep_tx_def empty_input_def sweep_input_def)

lemma sweep_key: "KEY_ID ''sweep''"
  by (simp add: KEY_ID_def lower_char_def is_digit_def Let_def of_char_def)

lemma sweep_inspection:
  "\<exists>i. taproot_inspect sweep_signer sweep_request = Inr i \<and> tnSighashType i = 0 \<and> tnFee i = 100 \<and> tnOutputs i = [sweep_output]"
proof -
  have "\<exists>i. inspectTaprootKeyPath sweep_lib ''cA=='' 0 (replicate 32 1) Signet = Inr i \<and> tnSighashType i = 0 \<and> tnFee i = 100 \<and>
      tnOutputs i = [sweep_output]"
    using sweep_target
    by (simp add: inspectTaprootKeyPath_def parsePsbt_def sweep_lib_simps or_throw_def signer_guard_def sweep_sizes
        sweep_prevout sweep_output SIGHASH_TYPES_def own_script_def Let_def) (simp add: sweep_input_def sweep_output_def)
  then show ?thesis
    by (simp add: taproot_inspect_def sweep_signer_simps sweep_request_def sweep_key signer_guard_def)
qed

lemma signs_when_allowed:
  assumes "\<And>r. \<not> soAuditFails sp r" and "taproot_inspect sp req = Inr i"
    and "poInspect (taproot_policy sp) (taproot_view (trKeyId req) (principal_of ctx) i) = Inr Allow"
    and "kpSign (soKeys sp) (trKeyId req) (tnDigest i) Bip341 = Inr sig"
    and "attachKeyPathSignature (soLib sp) i sig (trFinalize req) = Inr out"
  shows "\<exists>res s'. signTaprootKeyPath sp req ctx s = (Inr res, s')"
proof -
  have a: "\<exists>s'. audit sp knd id ctx dec why started details s1 = (Inr (), s')" for knd id dec why started details s1
    using assms(1) by (simp add: audit_def Let_def)
  obtain psbt txid where out: "out = (psbt, txid)" by (cases out)
  have "\<exists>d res s'. taproot_decided sp req ctx started i s0 = (d, Inr res, s')" for started s0
    using a [of TaprootKeypath "trKeyId req" AuditAllow None started "(taproot_details sp req i)\<lparr>adTxid := txid\<rparr>"
        "s0\<lparr>sgSigned := sgSigned s0 @ [(trKeyId req, tnDigest i, Bip341)]\<rparr>"] assms(3,4,5) out
    by (auto simp: taproot_decided_def Let_def)
  then obtain d res s' where "taproot_decided sp req ctx (soNow sp (sgReads s)) i (s\<lparr>sgReads := sgReads s + 1\<rparr>) = (d, Inr res, s')"
    by blast
  then show ?thesis unfolding signTaprootKeyPath_def Let_def assms(2) by (simp add: finish_call_def)
qed

lemma sweep_runs: "\<exists>res s'. signTaprootKeyPath sweep_signer sweep_request no_context new_signer = (Inr res, s')"
proof -
  obtain i where i: "taproot_inspect sweep_signer sweep_request = Inr i" "tnSighashType i = 0" "tnFee i = 100"
      "tnOutputs i = [sweep_output]"
    using sweep_inspection by blast
  have p: "poInspect (taproot_policy sweep_signer) (taproot_view key who i) = Inr Allow" for key who
    using i by (simp add: sweep_output_def taproot_policy_def allOf_def sweep_signer_def allowedSighashTypes_def
        outputAllowlist_def maxFee_def allow_if_def taproot_view_def output_allowed_def)
  have "\<exists>out. attachKeyPathSignature sweep_lib i (replicate 64 2) True = Inr out"
    by (simp add: attachKeyPathSignature_def signer_guard_def or_throw_def sweep_lib_simps Let_def)
  then show ?thesis
    using signs_when_allowed [OF sweep_signer_simps(5) i(1) p sweep_signer_simps(4)]
    by (auto simp: sweep_signer_simps sweep_request_def)
qed

theorem taproot_signature_allowed_witness:
  "\<exists>res s' i. signTaprootKeyPath sweep_signer sweep_request no_context new_signer = (Inr res, s') \<and>
     taproot_inspect sweep_signer sweep_request = Inr i \<and> sgSigned s' = [(''sweep'', tnDigest i, Bip341)]"
proof -
  obtain res s' where r: "signTaprootKeyPath sweep_signer sweep_request no_context new_signer = (Inr res, s')"
    using sweep_runs by blast
  from taproot_signature_allowed [OF r] r show ?thesis by (auto simp: new_signer_def sweep_request_def)
qed

theorem treasury_keeps_value_witness:
  "\<exists>res s' i. signTaprootKeyPath sweep_signer sweep_request no_context new_signer = (Inr res, s') \<and>
     taproot_inspect sweep_signer sweep_request = Inr i \<and>
     list_all (output_allowed [hex_string treasury_script]) (tnOutputs i) \<and>
     sum_list (map pvAmount (tnInputs i)) - sum_list (map ouAmount (tnOutputs i)) \<le> 500"
proof -
  obtain res s' where r: "signTaprootKeyPath sweep_signer sweep_request no_context new_signer = (Inr res, s')"
    using sweep_runs by blast
  have "soTaprootPolicies sweep_signer = Some [outputAllowlist [hex_string treasury_script], maxFee 500]"
    by (simp add: sweep_signer_def)
  from treasury_keeps_value [OF r this, of "[hex_string treasury_script]" 500] r show ?thesis
    by (auto simp: Let_def)
qed

lemma sweep_no_denial: "\<not> raises_denial sweep_signer" "\<not> soAuditFails sweep_signer r"
  by (auto simp: raises_denial_def sweep_signer_def taproot_policy_def digest_policy_def allOf_def allowedSighashTypes_def
      outputAllowlist_def maxFee_def purposeAllowlist_def allow_if_def ebind_eq_Inl allowAll_def
      split: option.splits if_splits PolicyDecision.splits)

theorem signer_audits_every_call_witness:
  "recorded TaprootKeypath ''sweep'' no_context (fst (signTaprootKeyPath sweep_signer sweep_request no_context new_signer)) new_signer
     (snd (signTaprootKeyPath sweep_signer sweep_request no_context new_signer)) \<and>
   recorded SchnorrDigest ''sweep'' no_context (fst (signSchnorrDigest sweep_signer digest_request no_context new_signer)) new_signer
     (snd (signSchnorrDigest sweep_signer digest_request no_context new_signer))"
  using signer_audits_every_call [of sweep_signer sweep_request no_context new_signer digest_request] sweep_no_denial
  by (simp add: accounted_def sweep_request_def digest_request_def)

end
