(* ===== verification/MintNumeric.thy ===== *)
theory MintNumeric imports Prelude begin

text \<open>
  \<open>numeric.ts\<close> of \<open>counters-mint\<close>: quantities beyond the exact range of a double, quoted in a JSON text before it is
  parsed, and read back as exact integers. Texts are of 8-bit characters.
\<close>

subsection \<open>Quoting\<close>

definition SAFE_INTEGER :: nat where "SAFE_INTEGER = 2 ^ 53 - 1"

text \<open>The inner loop over a string literal, behind its opening quote: what it consumes and what is left.\<close>

fun scan_literal :: "string \<Rightarrow> string \<times> string" where
  "scan_literal [] = ([], [])"
| "scan_literal [c] = ([c], [])"
| "scan_literal (c # d # s) =
     (if c = CHR 0x5C then (let (l, r) = scan_literal s in (c # d # l, r))
      else if c = CHR 0x22 then ([c], d # s)
      else (let (l, r) = scan_literal (d # s) in (c # l, r)))"

definition number_char :: "char \<Rightarrow> bool" where
  "number_char c = (is_digit c \<or> c \<in> set ''eE+-.'')"

text \<open>A number: its text, whether it is an integer literal, and what is left.\<close>

definition scan_number :: "string \<Rightarrow> string \<times> bool \<times> string" where
  "scan_number s =
     (let sign = (if s \<noteq> [] \<and> hd s = CHR ''-'' then ''-'' else []);
          ds = takeWhile is_digit (drop (length sign) s);
          r = dropWhile is_digit (drop (length sign) s)
      in if r \<noteq> [] \<and> hd r \<in> set ''.eE''
         then (sign @ ds @ takeWhile number_char r, False, dropWhile number_char r)
         else (sign @ ds, True, r))"

text \<open>
  \<open>Number.isSafeInteger(Number(literal))\<close> for an integer literal: a lone sign is not a number, and an integer of more than
  53 bits is rounded to one of at least 2 ^ 53.
\<close>

definition safe_literal :: "string \<Rightarrow> bool" where
  "safe_literal l =
     (let ds = (if l \<noteq> [] \<and> hd l = CHR ''-'' then tl l else l) in ds \<noteq> [] \<and> num_of_digits 0 ds \<le> SAFE_INTEGER)"

definition quote_literal :: "string \<Rightarrow> string" where
  "quote_literal l = CHR 0x22 # l @ [CHR 0x22]"

definition starts_number :: "char \<Rightarrow> bool" where "starts_number c = (c = CHR ''-'' \<or> is_digit c)"

lemma scan_literal_length: "length (snd (scan_literal s)) \<le> length s"
  by (induction s rule: scan_literal.induct) (auto split: prod.split)

lemma dropWhile_length: "length (dropWhile p xs) \<le> length xs"
  by (induction xs) auto

lemma scan_number_shorter: "starts_number c \<Longrightarrow> length (snd (snd (scan_number (c # s)))) \<le> length s"
proof -
  assume c: "starts_number c"
  have d: "length (dropWhile is_digit (drop (length sign) (c # s))) \<le> length s"
    if "sign = (if c = CHR ''-'' then ''-'' else [])" for sign :: string
    using that c dropWhile_length [of is_digit s] by (auto simp: starts_number_def)
  show ?thesis
    using d [OF refl] dropWhile_length [of number_char "dropWhile is_digit (drop (length (if c = CHR ''-'' then ''-'' else [])) (c # s))"]
    by (auto simp: scan_number_def Let_def)
qed

lemma scans_shorter:
  "scan_literal s = (l, r) \<Longrightarrow> length r \<le> length s"
  "scan_number (c # s) = (l, isInt, r) \<Longrightarrow> starts_number c \<Longrightarrow> length r \<le> length s"
  using scan_literal_length [of s] scan_number_shorter [of c s] by simp_all

function quoteUnsafeIntegers :: "string \<Rightarrow> string" where
  "quoteUnsafeIntegers [] = []"
| "quoteUnsafeIntegers (c # s) =
     (if c = CHR 0x22 then (let (l, r) = scan_literal s in c # l @ quoteUnsafeIntegers r)
      else if starts_number c then
        (let (l, isInt, r) = scan_number (c # s)
         in (if isInt \<and> \<not> safe_literal l then quote_literal l else l) @ quoteUnsafeIntegers r)
      else c # quoteUnsafeIntegers s)"
  by pat_completeness auto
termination
  by (relation "measure length") (auto simp: less_Suc_eq_le dest: scans_shorter(1) [OF sym] scans_shorter(2) [OF sym])

declare quoteUnsafeIntegers.simps(2) [simp del]

text \<open>\<open>toBigInt\<close>, \<open>big\<close> and \<open>quantityParam\<close>. A double is an integer or not; \<open>null\<close> and \<open>undefined\<close> are \<open>None\<close>.\<close>

datatype js_double = DInt int | DFraction string | DNonFinite

datatype raw_like = RawNumber js_double | RawString string | RawBigint int

definition decimal_integer :: "string \<Rightarrow> int option" where
  "decimal_integer s =
     (let neg = s \<noteq> [] \<and> hd s = CHR ''-''; ds = (if neg then tl s else s) in
      if ds \<noteq> [] \<and> list_all is_digit ds
      then Some (if neg then - int (num_of_digits 0 ds) else int (num_of_digits 0 ds)) else None)"

definition toBigInt :: "raw_like option \<Rightarrow> int option" where
  "toBigInt v =
     (case v of
        None \<Rightarrow> None
      | Some (RawBigint n) \<Rightarrow> Some n
      | Some (RawNumber (DInt n)) \<Rightarrow> if \<bar>n\<bar> \<le> int SAFE_INTEGER then Some n else None
      | Some (RawNumber _) \<Rightarrow> None
      | Some (RawString s) \<Rightarrow> decimal_integer (trim s))"

definition big :: "raw_like option \<Rightarrow> int" where
  "big v = (case toBigInt v of None \<Rightarrow> 0 | Some n \<Rightarrow> n)"

definition integer_text :: "int \<Rightarrow> string" where
  "integer_text n = (if n < 0 then CHR ''-'' # digits_of_nat (nat (- n)) else digits_of_nat (nat n))"

definition quantityParam :: "raw_like \<Rightarrow> string + string" where
  "quantityParam v =
     (case v of
        RawBigint n \<Rightarrow> Inr (integer_text n)
      | RawString s \<Rightarrow> Inr s
      | RawNumber DNonFinite \<Rightarrow> Inl ''non-finite''
      | RawNumber (DFraction _) \<Rightarrow> Inl ''fractional''
      | RawNumber (DInt n) \<Rightarrow> if \<bar>n\<bar> \<le> int SAFE_INTEGER then Inr (integer_text n) else Inl ''past the exact range'')"

subsection \<open>Tokens\<close>

text \<open>A JSON text as the walk sees it: string literals, integer literals, other numbers, and single characters.\<close>

datatype json_token = StringToken string | IntToken string | FloatToken string | CharToken char

primrec token_text :: "json_token \<Rightarrow> string" where
  "token_text (StringToken s) = s"
| "token_text (IntToken s) = s"
| "token_text (FloatToken s) = s"
| "token_text (CharToken c) = [c]"

function json_tokens :: "string \<Rightarrow> json_token list" where
  "json_tokens [] = []"
| "json_tokens (c # s) =
     (if c = CHR 0x22 then (let (l, r) = scan_literal s in StringToken (c # l) # json_tokens r)
      else if starts_number c then
        (let (l, isInt, r) = scan_number (c # s) in (if isInt then IntToken l else FloatToken l) # json_tokens r)
      else CharToken c # json_tokens s)"
  by pat_completeness auto
termination
  by (relation "measure length") (auto simp: less_Suc_eq_le dest: scans_shorter(1) [OF sym] scans_shorter(2) [OF sym])

declare json_tokens.simps(2) [simp del]

text \<open>What quoting does to a token.\<close>

definition quote_token :: "json_token \<Rightarrow> json_token" where
  "quote_token t = (case t of IntToken l \<Rightarrow> if safe_literal l then t else StringToken (quote_literal l) | _ \<Rightarrow> t)"

lemma scan_literal_append: "scan_literal s = (l, r) \<Longrightarrow> l @ r = s"
  by (induction s arbitrary: l r rule: scan_literal.induct) (auto split: if_splits prod.splits)

lemma scan_number_append: "scan_number s = (l, isInt, r) \<Longrightarrow> l @ r = s"
  by (cases s) (auto simp: scan_number_def Let_def split: if_splits)

lemma tokens_text: "concat (map token_text (json_tokens s)) = s"
proof (induction s rule: json_tokens.induct)
  case (2 c s)
  then show ?case
    by (subst json_tokens.simps) (auto split: prod.split dest: scan_literal_append scan_number_append)
qed simp

lemma quote_tokens: "quoteUnsafeIntegers s = concat (map (\<lambda>t. token_text (quote_token t)) (json_tokens s))"
proof (induction s rule: json_tokens.induct)
  case (2 c s)
  then show ?case
    by (subst json_tokens.simps, subst quoteUnsafeIntegers.simps) (auto simp: quote_token_def split: prod.split)
qed simp

text \<open>Literals and numbers read the same with other text behind them, as long as that does not continue them.\<close>

lemma scan_literal_Cons:
  "c \<noteq> CHR 0x22 \<Longrightarrow> c \<noteq> CHR 0x5C \<Longrightarrow> s \<noteq> [] \<Longrightarrow> scan_literal (c # s) = (let (l, r) = scan_literal s in (c # l, r))"
  by (cases s) auto

lemma scan_literal_end: "scan_literal (CHR 0x22 # r) = ([CHR 0x22], r)"
  by (cases r) auto

lemma scan_quoted: "list_all (\<lambda>c. c \<noteq> CHR 0x22 \<and> c \<noteq> CHR 0x5C) l \<Longrightarrow> scan_literal (l @ CHR 0x22 # r) = (l @ [CHR 0x22], r)"
  by (induction l) (simp_all add: scan_literal_Cons scan_literal_end)

lemma scan_literal_nonempty: "scan_literal s = (l, r) \<Longrightarrow> s \<noteq> [] \<Longrightarrow> l \<noteq> []"
  by (cases s rule: scan_literal.cases) (auto split: if_splits prod.splits)

lemma scan_literal_ext: "scan_literal s = (l, r) \<Longrightarrow> r \<noteq> [] \<Longrightarrow> scan_literal (l @ r') = (l, r')"
proof (induction s arbitrary: l r rule: scan_literal.induct)
  case (3 c d s)
  then show ?case
    by (cases "scan_literal (d # s)"; cases "scan_literal s")
      (auto simp: scan_literal_end scan_literal_Cons split: if_splits dest: scan_literal_append scan_literal_nonempty)
qed auto

lemma take_drop_ext: "r' = [] \<or> \<not> P (hd r') \<Longrightarrow> takeWhile P (takeWhile P x @ r') = takeWhile P x \<and> dropWhile P (takeWhile P x @ r') = r'"
  by (induction x) (auto simp: takeWhile_eq_Nil_iff dropWhile_eq_self_iff)

lemma number_tail:
  "scan_number s = (l, isInt, r) \<Longrightarrow> r = [] \<or> (if isInt then \<not> is_digit (hd r) \<and> hd r \<notin> set ''.eE'' else \<not> number_char (hd r))"
  using hd_dropWhile [of is_digit] hd_dropWhile [of number_char]
  by (auto simp: scan_number_def Let_def dropWhile_eq_Nil_conv split: if_splits)

definition scan_unsigned :: "string \<Rightarrow> string \<times> bool \<times> string" where
  "scan_unsigned t =
     (let ds = takeWhile is_digit t; r = dropWhile is_digit t
      in if r \<noteq> [] \<and> hd r \<in> set ''.eE'' then (ds @ takeWhile number_char r, False, dropWhile number_char r) else (ds, True, r))"

lemma scan_number_sign:
  "scan_number s = (if s \<noteq> [] \<and> hd s = CHR ''-'' then (let (l, b, r) = scan_unsigned (tl s) in (CHR ''-'' # l, b, r)) else scan_unsigned s)"
  by (cases s) (auto simp: scan_number_def scan_unsigned_def Let_def)

lemma scan_unsigned_ext:
  assumes "scan_unsigned t = (l, isInt, r)"
    and r': "r' = [] \<or> (if isInt then \<not> is_digit (hd r') \<and> hd r' \<notin> set ''.eE'' else \<not> number_char (hd r'))"
  shows "scan_unsigned (l @ r') = (l, isInt, r')"
proof -
  let ?ds = "takeWhile is_digit t" and ?r = "dropWhile is_digit t"
  show ?thesis
  proof (cases isInt)
    case True
    then have l: "l = ?ds" using assms(1) by (simp add: scan_unsigned_def Let_def split: if_splits)
    have "takeWhile is_digit (?ds @ r') = ?ds \<and> dropWhile is_digit (?ds @ r') = r'"
      using r' True by (intro take_drop_ext) auto
    then show ?thesis using r' True by (auto simp: l scan_unsigned_def Let_def)
  next
    case False
    then have r: "?r \<noteq> []" "hd ?r \<in> set ''.eE''" "l = ?ds @ takeWhile number_char ?r"
      using assms(1) by (auto simp: scan_unsigned_def Let_def split: if_splits)
    have nd: "\<not> is_digit (hd ?r)" "number_char (hd ?r)" using r(2) by (auto simp: number_char_def is_digit_def digit_val_def)
    obtain x xs where x: "?r = x # xs" using r(1) by (cases ?r) auto
    have hd: "takeWhile number_char ?r = x # takeWhile number_char xs" "x \<in> set ''.eE''" "\<not> is_digit x"
      using nd r(2) by (simp_all add: x)
    have a: "takeWhile is_digit (?ds @ takeWhile number_char ?r @ r') = ?ds \<and>
        dropWhile is_digit (?ds @ takeWhile number_char ?r @ r') = takeWhile number_char ?r @ r'"
      using hd by (intro take_drop_ext) auto
    have b: "takeWhile number_char (takeWhile number_char ?r @ r') = takeWhile number_char ?r \<and>
        dropWhile number_char (takeWhile number_char ?r @ r') = r'"
      using r' False by (intro take_drop_ext) auto
    show ?thesis using a b hd False by (simp add: r(3) scan_unsigned_def Let_def)
  qed
qed

lemma scan_number_ext:
  assumes "scan_number (c # s) = (l, isInt, r)" and "starts_number c"
    and "r' = [] \<or> (if isInt then \<not> is_digit (hd r') \<and> hd r' \<notin> set ''.eE'' else \<not> number_char (hd r'))"
  shows "scan_number (l @ r') = (l, isInt, r')"
proof (cases "c = CHR ''-''")
  case True
  then obtain l' where "scan_unsigned s = (l', isInt, r)" "l = CHR ''-'' # l'"
    using assms(1) by (auto simp: scan_number_sign split: prod.splits)
  with scan_unsigned_ext [of s l' isInt r r'] assms(3) show ?thesis by (simp add: scan_number_sign)
next
  case False
  then have u: "scan_unsigned (c # s) = (l, isInt, r)" using assms(1) by (simp add: scan_number_sign)
  have "is_digit c" using assms(2) False by (simp add: starts_number_def)
  then obtain l' where "l = c # l'" using u by (auto simp: scan_unsigned_def Let_def split: if_splits)
  with scan_unsigned_ext [OF u assms(3)] False show ?thesis by (simp add: scan_number_sign)
qed

lemma digit_not_quote: "is_digit c \<Longrightarrow> c \<noteq> CHR 0x22 \<and> c \<noteq> CHR 0x5C"
  by (auto simp: is_digit_def digit_val_def)

lemma int_chars: "scan_number s = (l, True, r) \<Longrightarrow> list_all (\<lambda>c. c = CHR ''-'' \<or> is_digit c) l"
  by (auto simp: scan_number_def Let_def list_all_iff split: if_splits dest: set_takeWhileD)

lemma number_nonempty: "starts_number c \<Longrightarrow> scan_number (c # s) = (l, isInt, r) \<Longrightarrow> \<exists>l'. l = c # l'"
  by (auto simp: scan_number_def Let_def starts_number_def split: if_splits)

lemma hd_quote: "r \<noteq> [] \<Longrightarrow> quoteUnsafeIntegers r \<noteq> [] \<and> hd (quoteUnsafeIntegers r) \<in> {hd r, CHR 0x22}"
proof (cases r)
  case (Cons c s)
  obtain l isInt t where n: "scan_number (c # s) = (l, isInt, t)" by (metis prod_cases3)
  show ?thesis using number_nonempty [OF _ n] n
    by (auto simp: Cons quoteUnsafeIntegers.simps quote_literal_def split: prod.split)
qed simp

text \<open>
  Quoting keeps a JSON text and makes its integers exact. Read again, the quoted text has the same tokens in the same
  places, except that an integer literal whose value a double cannot hold is now a string literal with its digits; no
  string boundary moves, and every integer that is left is at most 2 ^ 53 - 1.
\<close>

theorem quoting_keeps_tokens:
  "json_tokens (quoteUnsafeIntegers s) = map quote_token (json_tokens s) \<and>
   (\<forall>l. IntToken l \<in> set (json_tokens (quoteUnsafeIntegers s)) \<longrightarrow> safe_literal l) \<and>
   quoteUnsafeIntegers (quoteUnsafeIntegers s) = quoteUnsafeIntegers s"
proof -
  have tokens: "json_tokens (quoteUnsafeIntegers s) = map quote_token (json_tokens s)" for s
  proof (induction s rule: json_tokens.induct)
    case (2 c s)
    consider (str) "c = CHR 0x22" | (num) "starts_number c" "c \<noteq> CHR 0x22" | (other) "\<not> starts_number c" "c \<noteq> CHR 0x22" by blast
    then show ?case
    proof cases
      case str
      obtain l r where s: "scan_literal s = (l, r)" by fastforce
      have "scan_literal (l @ quoteUnsafeIntegers r) = (l, quoteUnsafeIntegers r)"
        using s scan_literal_ext [OF s] scan_literal_append [OF s] by (cases "r = []") auto
      then show ?thesis using 2(1) str s by (simp add: json_tokens.simps quoteUnsafeIntegers.simps quote_token_def)
    next
      case num
      obtain l isInt r where n: "scan_number (c # s) = (l, isInt, r)" by (metis prod_cases3)
      let ?q = "quoteUnsafeIntegers r"
      have ih: "json_tokens ?q = map quote_token (json_tokens r)" using 2(2) num n by simp
      show ?thesis
      proof (cases "isInt \<and> \<not> safe_literal l")
        case True
        then have "scan_number (c # s) = (l, True, r)" using n by simp
        then have "list_all (\<lambda>c. c = CHR ''-'' \<or> is_digit c) l" by (rule int_chars)
        then have "list_all (\<lambda>c. c \<noteq> CHR 0x22 \<and> c \<noteq> CHR 0x5C) l"
          by (rule list.pred_mono_strong) (auto dest: digit_not_quote)
        then have "json_tokens (quote_literal l @ ?q) = StringToken (quote_literal l) # json_tokens ?q"
          by (simp add: quote_literal_def json_tokens.simps scan_quoted)
        then show ?thesis using ih True num n
          by (simp add: json_tokens.simps(2) [of c s] quoteUnsafeIntegers.simps quote_token_def)
      next
        case False
        have "?q = [] \<or> (if isInt then \<not> is_digit (hd ?q) \<and> hd ?q \<notin> set ''.eE'' else \<not> number_char (hd ?q))"
          using number_tail [OF n] hd_quote [of r] by (cases "r = []") (auto simp: number_char_def is_digit_def digit_val_def)
        then have "scan_number (l @ ?q) = (l, isInt, ?q)" using scan_number_ext [OF n num(1)] by simp
        moreover obtain l' where "l = c # l'" using number_nonempty [OF num(1) n] by blast
        ultimately have "json_tokens (l @ ?q) = (if isInt then IntToken l else FloatToken l) # json_tokens ?q"
          using num by (simp add: json_tokens.simps)
        then show ?thesis using ih False num n
          by (auto simp: json_tokens.simps(2) [of c s] quoteUnsafeIntegers.simps quote_token_def)
      qed
    next
      case other
      then show ?thesis using 2 by (simp add: json_tokens.simps quoteUnsafeIntegers.simps quote_token_def)
    qed
  qed simp
  have safe: "safe_literal l" if "IntToken l \<in> set (map quote_token ts)" for l ts
    using that by (auto simp: quote_token_def split: json_token.splits if_splits)
  have again: "quote_token (quote_token t) = quote_token t" for t by (cases t) (auto simp: quote_token_def)
  have "quoteUnsafeIntegers (quoteUnsafeIntegers s) = concat (map token_text (map quote_token (map quote_token (json_tokens s))))"
    by (simp add: quote_tokens [of "quoteUnsafeIntegers s"] tokens comp_def)
  also have "\<dots> = quoteUnsafeIntegers s" by (simp add: quote_tokens [of s] comp_def again)
  finally show ?thesis using tokens safe by metis
qed

lemma trim_integer_text: "trim (integer_text n) = integer_text n"
proof -
  have d: "\<not> is_space c" if "c \<in> set (digits_of_nat k)" for c k
    using that digits_of_nat_digits [of k] not_space_digit by (auto simp: list_all_iff)
  have "\<not> is_space CHR ''-''" by (simp add: is_space_def)
  moreover have "\<not> is_space (hd (digits_of_nat k)) \<and> \<not> is_space (last (digits_of_nat k))" for k
    using d [of "hd (digits_of_nat k)" k] d [of "last (digits_of_nat k)" k] digits_of_nat_digits [of k] by simp
  ultimately show ?thesis using digits_of_nat_digits by (intro trim_id) (simp_all add: integer_text_def)
qed

text \<open>
  A quantity reaches the node as the integer it is. Every value that is read as an integer is accepted as a compose
  parameter, and the text of the parameter is read as the same integer.
\<close>

theorem quantity_roundtrip:
  assumes "toBigInt (Some v) = Some n"
  shows "\<exists>s. quantityParam v = Inr s \<and> toBigInt (Some (RawString s)) = Some n"
proof -
  have nodash: "hd (digits_of_nat k) \<noteq> CHR ''-''" for k
  proof -
    have "is_digit (hd (digits_of_nat k))" using digits_of_nat_digits [of k] by (cases "digits_of_nat k") auto
    moreover have "\<not> is_digit CHR ''-''" by (simp add: is_digit_def digit_val_def)
    ultimately show ?thesis by metis
  qed
  have t: "toBigInt (Some (RawString (integer_text m))) = Some m" for m
    using digits_of_nat_digits nodash
    by (simp add: toBigInt_def trim_integer_text) (auto simp: decimal_integer_def integer_text_def num_digits_of_nat)
  show ?thesis
  proof (cases v)
    case (RawNumber d)
    then show ?thesis using assms t by (cases d) (auto simp: toBigInt_def quantityParam_def split: if_splits)
  next
    case (RawString s)
    then show ?thesis using assms by (simp add: quantityParam_def)
  next
    case (RawBigint m)
    then show ?thesis using assms t by (auto simp: toBigInt_def quantityParam_def)
  qed
qed

theorem quoting_keeps_tokens_witness:
  "json_tokens (quoteUnsafeIntegers ''[10000000000000000]'') =
     [CharToken CHR ''['', StringToken (quote_literal ''10000000000000000''), CharToken CHR '']'']"
proof -
  have a: "json_tokens ''[10000000000000000]'' = [CharToken CHR ''['', IntToken ''10000000000000000'', CharToken CHR '']'']"
    by (simp add: json_tokens.simps(2) scan_number_def starts_number_def is_digit_def digit_val_def)
  have b: "\<not> safe_literal ''10000000000000000''" by (simp add: safe_literal_def SAFE_INTEGER_def digit_val_def)
  show ?thesis unfolding quoting_keeps_tokens [THEN conjunct1] a by (simp add: quote_token_def b)
qed

theorem quantity_roundtrip_witness: "\<exists>s. quantityParam (RawBigint 10000000000000000) = Inr s"
  using quantity_roundtrip [of "RawBigint 10000000000000000"] by (auto simp: toBigInt_def)

end
