(* ===== verification/MintCbor.thy ===== *)
theory MintCbor imports InscBase JsText begin

text \<open>
  \<open>cbor.ts\<close> of \<open>counters-mint\<close>: the slice of CBOR its messages use, and a reference decoder of RFC 8949 that takes shortest
  heads only. The encoding of a value is decoded to that value, whatever bytes follow.
\<close>

subsection \<open>The encoder\<close>

text \<open>A JavaScript number is an integer or it is not; a text is a list of UTF-16 code units.\<close>

datatype CborValue = CBigint int | CNumber int | CFraction | CBoolean bool | CNull | CText js_string | CByteString bytes
  | CArray "CborValue list"

definition cbor_error :: insc_error where "cbor_error = Error ''CBOR''"

definition be_bytes :: "nat \<Rightarrow> nat \<Rightarrow> bytes" where
  "be_bytes w n = map (\<lambda>i. u8 (n div 256 ^ (w - 1 - i))) [0..<w]"

definition cbor_head :: "nat \<Rightarrow> nat \<Rightarrow> insc_error + bytes" where
  "cbor_head major n =
     (let m = major * 32 in
      if n < 24 then Inr [u8 (m + n)]
      else if n \<le> 0xff then Inr [u8 (m + 24), u8 n]
      else if n \<le> 0xffff then Inr [u8 (m + 25), u8 (n div 256), u8 n]
      else if n \<le> 0xffffffff then Inr (u8 (m + 26) # be_bytes 4 n)
      else if n \<le> 0xffffffffffffffff then Inr (u8 (m + 27) # be_bytes 8 n)
      else Inl cbor_error)"

definition cbor_int :: "int \<Rightarrow> insc_error + bytes list" where
  "cbor_int v = ebind (if v < 0 then cbor_head 1 (nat (- v - 1)) else cbor_head 0 (nat v)) (\<lambda>h. Inr [h])"

lemma emapM_cong [fundef_cong]: "xs = ys \<Longrightarrow> (\<And>x. x \<in> set ys \<Longrightarrow> f x = g x) \<Longrightarrow> emapM f xs = emapM g ys"
  by (induction ys arbitrary: xs) auto

text \<open>The parts the writer collects, in order.\<close>

fun cbor_write :: "CborValue \<Rightarrow> insc_error + bytes list" where
  "cbor_write CNull = Inr [[0xf6]]"
| "cbor_write (CBoolean b) = Inr [[if b then 0xf5 else 0xf4]]"
| "cbor_write (CNumber v) = cbor_int v"
| "cbor_write CFraction = Inl cbor_error"
| "cbor_write (CBigint v) = cbor_int v"
| "cbor_write (CText s) = (let bs = utf8 s in ebind (cbor_head 3 (length bs)) (\<lambda>h. Inr [h, bs]))"
| "cbor_write (CByteString bs) = ebind (cbor_head 2 (length bs)) (\<lambda>h. Inr [h, bs])"
| "cbor_write (CArray xs) = ebind (cbor_head 4 (length xs)) (\<lambda>h.
     ebind (emapM cbor_write xs) (\<lambda>ps. Inr (h # concat ps)))"

definition cborEncode :: "CborValue \<Rightarrow> insc_error + bytes" where
  "cborEncode v = ebind (cbor_write v) (\<lambda>parts. Inr (concatBytes parts))"

subsection \<open>A reference decoder\<close>

text \<open>What a data item of this slice is: an integer of either JavaScript type is one integer, a text is its UTF-8
  bytes. A fraction has no encoding, so what it denotes does not matter.\<close>

datatype cbor_item = IInt int | IBool bool | INull | IText bytes | IBytes bytes | IArray "cbor_item list"

fun cbor_denotes :: "CborValue \<Rightarrow> cbor_item" where
  "cbor_denotes (CBigint v) = IInt v"
| "cbor_denotes (CNumber v) = IInt v"
| "cbor_denotes CFraction = INull"
| "cbor_denotes (CBoolean b) = IBool b"
| "cbor_denotes CNull = INull"
| "cbor_denotes (CText s) = IText (utf8 s)"
| "cbor_denotes (CByteString bs) = IBytes bs"
| "cbor_denotes (CArray xs) = IArray (map cbor_denotes xs)"

definition be_nat :: "bytes \<Rightarrow> nat" where "be_nat bs = foldl (\<lambda>v b. v * 256 + unat b) 0 bs"

text \<open>A head: major type, argument and rest. An argument that a shorter head could carry is refused.\<close>

definition long_head :: "nat \<Rightarrow> nat \<Rightarrow> bytes \<Rightarrow> (nat \<times> bytes) option" where
  "long_head w least bs =
     (let n = be_nat (take w bs) in if length bs < w \<or> n < least then None else Some (n, drop w bs))"

definition read_head :: "bytes \<Rightarrow> (nat \<times> nat \<times> bytes) option" where
  "read_head bs =
     (case bs of
        [] \<Rightarrow> None
      | b # r \<Rightarrow>
          let major = unat b div 32; low = unat b mod 32 in
          map_option (Pair major)
            (if low < 24 then Some (low, r)
             else if low = 24 then long_head 1 24 r
             else if low = 25 then long_head 2 0x100 r
             else if low = 26 then long_head 4 0x10000 r
             else if low = 27 then long_head 8 0x100000000 r
             else None))"

text \<open>\<open>n\<close> items from a byte string; the fuel bounds how many items are read in all.\<close>

fun read_items :: "nat \<Rightarrow> nat \<Rightarrow> bytes \<Rightarrow> (cbor_item list \<times> bytes) option" where
  "read_items fuel 0 bs = Some ([], bs)"
| "read_items 0 (Suc n) bs = None"
| "read_items (Suc fuel) (Suc n) bs =
     (let then_rest = (\<lambda>x r. map_option (\<lambda>(ys, r'). (x # ys, r')) (read_items fuel n r)) in
      case read_head bs of
        None \<Rightarrow> None
      | Some (major, arg, r) \<Rightarrow>
          if major = 0 then then_rest (IInt (int arg)) r
          else if major = 1 then then_rest (IInt (- int arg - 1)) r
          else if major = 2 \<and> arg \<le> length r then then_rest (IBytes (take arg r)) (drop arg r)
          else if major = 3 \<and> arg \<le> length r then then_rest (IText (take arg r)) (drop arg r)
          else if major = 4 then
            (case read_items fuel arg r of None \<Rightarrow> None | Some (xs, r') \<Rightarrow> then_rest (IArray xs) r')
          else if major = 7 \<and> arg = 20 then then_rest (IBool False) r
          else if major = 7 \<and> arg = 21 then then_rest (IBool True) r
          else if major = 7 \<and> arg = 22 then then_rest INull r
          else None)"

definition cbor_decode :: "bytes \<Rightarrow> (cbor_item \<times> bytes) option" where
  "cbor_decode bs = (case read_items (length bs) 1 bs of Some ([x], r) \<Rightarrow> Some (x, r) | _ \<Rightarrow> None)"

subsection \<open>Heads\<close>

lemma be_nat_append: "be_nat (xs @ [b]) = be_nat xs * 256 + unat b"
  by (simp add: be_nat_def)

lemma be_bytes_Suc: "be_bytes (Suc w) n = be_bytes w (n div 256) @ [u8 n]"
proof (rule nth_equalityI)
  fix i assume "i < length (be_bytes (Suc w) n)"
  then have i: "i < Suc w" by (simp add: be_bytes_def)
  show "be_bytes (Suc w) n ! i = (be_bytes w (n div 256) @ [u8 n]) ! i"
  proof (cases "i < w")
    case True
    then have "w - i = Suc (w - 1 - i)" by simp
    then show ?thesis using i True
      by (simp add: be_bytes_def nth_append div_mult2_eq [symmetric])
  next
    case False
    with i have "i = w" by simp
    then show ?thesis by (simp add: be_bytes_def nth_append)
  qed
qed (simp add: be_bytes_def)

lemma length_be_bytes [simp]: "length (be_bytes w n) = w"
  by (simp add: be_bytes_def)

lemma be_nat_be_bytes: "be_nat (be_bytes w n) = n mod 256 ^ w"
proof (induction w arbitrary: n)
  case 0
  then show ?case by (simp add: be_bytes_def be_nat_def)
next
  case (Suc w)
  have "n mod (256 * 256 ^ w) = 256 * (n div 256 mod 256 ^ w) + n mod 256" by (rule mod_mult2_eq)
  then show ?case by (simp add: be_bytes_Suc be_nat_append Suc.IH)
qed

lemma long_head_be: "n < 256 ^ w \<Longrightarrow> least \<le> n \<Longrightarrow> long_head w least (be_bytes w n @ r) = Some (n, r)"
  by (simp add: long_head_def be_nat_be_bytes)

lemma read_head_byte:
  assumes "major < 8" "k < 32"
  shows "read_head (u8 (major * 32 + k) # t) = map_option (Pair major)
    (if k < 24 then Some (k, t) else if k = 24 then long_head 1 24 t else if k = 25 then long_head 2 0x100 t
     else if k = 26 then long_head 4 0x10000 t else if k = 27 then long_head 8 0x100000000 t else None)"
proof -
  have "major * 32 + k < 256" using assms by simp
  then have "unat (u8 (major * 32 + k)) = major * 32 + k" by simp
  then have "unat (u8 (major * 32 + k)) div 32 = major" "unat (u8 (major * 32 + k)) mod 32 = k" using assms(2) by simp_all
  then show ?thesis by (simp only: read_head_def list.case Let_def)
qed

lemma be_bytes_short: "be_bytes 1 n = [u8 n]" "be_bytes 2 n = [u8 (n div 256), u8 n]"
  by (simp_all add: be_bytes_def numeral_2_eq_2)

lemma read_head_cbor:
  assumes "cbor_head major n = Inr h" and "major < 8"
  shows "read_head (h @ r) = Some (major, n, r)"
proof -
  consider "n < 24" | "24 \<le> n" "n \<le> 0xff" | "0xff < n" "n \<le> 0xffff" | "0xffff < n" "n \<le> 0xffffffff"
    | "0xffffffff < n" "n \<le> 0xffffffffffffffff" | "0xffffffffffffffff < n" by linarith
  then show ?thesis
  proof cases
    case 1
    then show ?thesis using assms read_head_byte [of major n r] by (auto simp: cbor_head_def Let_def)
  next
    case 2
    have "h = u8 (major * 32 + 24) # be_bytes 1 n" using assms(1) 2 unfolding be_bytes_short by (simp add: cbor_head_def Let_def)
    then show ?thesis using 2 assms(2) read_head_byte [of major 24] long_head_be [of n 1 24 r] by simp
  next
    case 3
    have "h = u8 (major * 32 + 25) # be_bytes 2 n" using assms(1) 3 by (simp add: cbor_head_def Let_def be_bytes_short)
    then show ?thesis using 3 assms(2) read_head_byte [of major 25] long_head_be [of n 2 "0x100" r] by simp
  next
    case 4
    have "h = u8 (major * 32 + 26) # be_bytes 4 n" using assms(1) 4 by (simp add: cbor_head_def Let_def)
    then show ?thesis using 4 assms(2) read_head_byte [of major 26] long_head_be [of n 4 "0x10000" r] by simp
  next
    case 5
    have "h = u8 (major * 32 + 27) # be_bytes 8 n" using assms(1) 5 by (simp add: cbor_head_def Let_def)
    then show ?thesis using 5 assms(2) read_head_byte [of major 27] long_head_be [of n 8 "0x100000000" r] by simp
  next
    case 6
    then show ?thesis using assms(1) by (simp add: cbor_head_def Let_def)
  qed
qed

subsection \<open>Round trip\<close>

lemma cbor_head_nonempty: "cbor_head major n = Inr h \<Longrightarrow> h \<noteq> []"
  by (auto simp: cbor_head_def Let_def split: if_splits)

fun cbor_size :: "CborValue \<Rightarrow> nat" where
  "cbor_size (CArray xs) = Suc (sum_list (map cbor_size xs))"
| "cbor_size _ = 1"

lemma cbor_size_le: "cbor_write v = Inr ps \<Longrightarrow> cbor_size v \<le> length (concat ps)"
proof (induction v arbitrary: ps rule: cbor_write.induct)
  case (8 xs)
  then obtain h pss where h: "cbor_head 4 (length xs) = Inr h" "emapM cbor_write xs = Inr pss" "ps = h # concat pss"
    by (auto simp: ebind_eq_Inr)
  have "sum_list (map cbor_size ys) \<le> length (concat (concat qss))"
    if "emapM cbor_write ys = Inr qss" "set ys \<subseteq> set xs" for ys qss
    using that
  proof (induction ys arbitrary: qss)
    case (Cons y ys)
    then obtain ps qs where y: "cbor_write y = Inr ps" "emapM cbor_write ys = Inr qs" "qss = ps # qs"
      by (auto simp: ebind_eq_Inr)
    with Cons 8(1) [of y ps] show ?case by force
  qed simp
  from this [OF h(2)] show ?case using cbor_head_nonempty [OF h(1)] h(3) by (cases h) auto
qed (auto simp: cbor_int_def ebind_eq_Inr Let_def Suc_le_eq dest!: cbor_head_nonempty split: if_splits)

lemma read_simple: "read_head (0xf6 # r) = Some (7, 22, r)" "read_head (0xf5 # r) = Some (7, 21, r)" "read_head (0xf4 # r) = Some (7, 20, r)"
  by (simp_all add: read_head_def)

text \<open>Reading the encodings of some values gives what they denote, for all fuel that is at least their size.\<close>

lemma read_items_written:
  assumes "emapM cbor_write vs = Inr pss" and "sum_list (map cbor_size vs) \<le> fuel"
  shows "read_items fuel (length vs) (concat (concat pss) @ r) = Some (map cbor_denotes vs, r)"
  using assms
proof (induction "sum_list (map cbor_size vs)" arbitrary: vs pss fuel r rule: less_induct)
  case less
  show ?case
  proof (cases vs)
    case Nil
    with less.prems show ?thesis by simp
  next
    case (Cons v us)
    then obtain ps qss where ps: "cbor_write v = Inr ps" "emapM cbor_write us = Inr qss" "pss = ps # qss"
      using less.prems(1) by (auto simp: ebind_eq_Inr)
    have pos: "0 < cbor_size v" by (cases v) simp_all
    then obtain k where k: "fuel = Suc k" using less.prems(2) Cons by (cases fuel) auto
    have rest: "read_items k (length us) (concat (concat qss) @ r) = Some (map cbor_denotes us, r)"
      using less.hyps [of us qss k r] less.prems(2) pos ps(2) Cons k by simp
    show ?thesis
    proof (cases v)
      case (CArray xs)
      then obtain h xss where h: "cbor_head 4 (length xs) = Inr h" "emapM cbor_write xs = Inr xss" "ps = h # concat xss"
        using ps(1) by (auto simp: ebind_eq_Inr)
      have "read_items k (length xs) (concat (concat xss) @ concat (concat qss) @ r) = Some (map cbor_denotes xs, concat (concat qss) @ r)"
        using less.hyps [of xs xss k "concat (concat qss) @ r"] h(2) less.prems(2) Cons CArray k by simp
      with rest show ?thesis using read_head_cbor [OF h(1)] by (simp add: Cons CArray ps(3) h(3) k)
    qed (use ps rest in \<open>auto simp: Cons k cbor_int_def ebind_eq_Inr Let_def read_head_cbor read_simple split: if_splits\<close>)
  qed
qed

text \<open>
  C30: decoding inverts encoding. Whatever follows it, the encoding of a value is read by the reference decoder as exactly
  the item the value denotes; so an encoding is never a proper prefix of another, and equal encodings denote the same item.
\<close>

theorem cbor_roundtrip:
  assumes "cborEncode v = Inr bs"
  shows "cbor_decode (bs @ r) = Some (cbor_denotes v, r)"
proof -
  obtain ps where ps: "cbor_write v = Inr ps" "bs = concat ps" using assms by (auto simp: cborEncode_def ebind_eq_Inr)
  have "emapM cbor_write [v] = Inr [ps]" by (simp add: ps)
  moreover have "sum_list (map cbor_size [v]) \<le> length (bs @ r)" using cbor_size_le [OF ps(1)] ps(2) by simp
  ultimately show ?thesis using read_items_written [of "[v]" "[ps]" "length (bs @ r)" r] by (simp add: cbor_decode_def ps(2))
qed

text \<open>The two values an encoding may come from denote one item.\<close>

lemma cbor_inj: "cborEncode v = Inr bs \<Longrightarrow> cborEncode w = Inr bs \<Longrightarrow> cbor_denotes v = cbor_denotes w"
  using cbor_roundtrip [of v bs "[]"] cbor_roundtrip [of w bs "[]"] by simp

text \<open>What has an encoding.\<close>

fun cbor_encodable :: "CborValue \<Rightarrow> bool" where
  "cbor_encodable (CBigint v) = (- (2 ^ 64) \<le> v \<and> v < 2 ^ 64)"
| "cbor_encodable (CNumber v) = (- (2 ^ 64) \<le> v \<and> v < 2 ^ 64)"
| "cbor_encodable CFraction = False"
| "cbor_encodable (CText s) = (length (utf8 s) < 2 ^ 64)"
| "cbor_encodable (CByteString bs) = (length bs < 2 ^ 64)"
| "cbor_encodable (CArray xs) = (length xs < 2 ^ 64 \<and> list_all cbor_encodable xs)"
| "cbor_encodable _ = True"

lemma is_ok_ebind: "is_ok (ebind m f) \<longleftrightarrow> (\<exists>x. m = Inr x \<and> is_ok (f x))"
  by (cases m) auto

lemma cbor_head_iff: "is_ok (cbor_head major n) \<longleftrightarrow> n < 2 ^ 64"
  by (auto simp: cbor_head_def Let_def)

lemma cbor_head_ex: "(\<exists>h. cbor_head major n = Inr h) \<longleftrightarrow> n < 2 ^ 64"
  using cbor_head_iff [of major n] by (simp add: is_ok_iff)

lemma cbor_int_iff: "is_ok (cbor_int v) \<longleftrightarrow> - (2 ^ 64) \<le> v \<and> v < 2 ^ 64"
  by (auto simp: cbor_int_def is_ok_ebind cbor_head_ex)

lemma emapM_is_ok: "is_ok (emapM f xs) \<longleftrightarrow> (\<forall>x \<in> set xs. is_ok (f x))"
  by (induction xs) (auto simp: is_ok_ebind is_ok_iff ebind_eq_Inr)

text \<open>
  Encoding fails for the fractions and for the integers and lengths that 64 bits cannot hold, anywhere in the value,
  and for nothing else.
\<close>

theorem cbor_encode_iff: "is_ok (cborEncode v) \<longleftrightarrow> cbor_encodable v"
proof -
  have "is_ok (cbor_write v) \<longleftrightarrow> cbor_encodable v"
  proof (induction v rule: cbor_write.induct)
    case (8 xs)
    have "is_ok (cbor_write (CArray xs)) \<longleftrightarrow> length xs < 2 ^ 64 \<and> is_ok (emapM cbor_write xs)"
      using cbor_head_ex [of 4 "length xs"] by (auto simp: is_ok_ebind is_ok_iff ebind_eq_Inr)
    then show ?case using 8 by (auto simp: emapM_is_ok list_all_iff cbor_head_ex [of 4, symmetric])
  qed (auto simp: cbor_int_iff is_ok_ebind Let_def cbor_head_ex)
  then show ?thesis by (auto simp: cborEncode_def is_ok_ebind is_ok_iff)
qed

theorem cbor_roundtrip_witness:
  "cbor_decode ([0x83, 0x16, 0x20, 0x61, 0x61] @ [0xff]) = Some (IArray [IInt 22, IInt (- 1), IText [0x61]], [0xff])"
proof -
  have "cborEncode (CArray [CNumber 22, CBigint (- 1), CText [97]]) = Inr [0x83, 0x16, 0x20, 0x61, 0x61]"
    by (simp add: cborEncode_def cbor_int_def cbor_head_def Let_def u8_def utf8_def utf8_point_def hi_surrogate_def lo_surrogate_def)
  from cbor_roundtrip [OF this] show ?thesis
    by (simp add: utf8_def utf8_point_def hi_surrogate_def lo_surrogate_def u8_def)
qed

end
