(* ===== verification/MintEnvelope.thy ===== *)
theory MintEnvelope imports Verify Roundtrip MintCbor begin

unbundle bit_operations_syntax

text \<open>
  \<open>bytes.ts\<close> and \<open>envelope.ts\<close> of \<open>counters-mint\<close>: hexadecimal text, the swap of the leaf key in Counterparty Core's
  envelope, the commit output of a leaf, and the envelope rebuilt from its message. What the byte helpers share with the
  inscription library (\<open>equalBytes\<close>, \<open>concatBytes\<close>, \<open>assertBytes\<close>, \<open>compactSizeLen\<close>) is defined there.
\<close>

subsection \<open>Hexadecimal text\<close>

text \<open>
  \<open>Number.parseInt(s, 16)\<close>: white space and a sign in front, an optional \<open>0x\<close>, then the digits up to the first
  character that is none; \<open>None\<close> is \<open>NaN\<close>.
\<close>

definition hex_number :: "string \<Rightarrow> nat" where
  "hex_number ds = foldl (\<lambda>n c. n * 16 + the (hex_val c)) 0 ds"

definition strip_0x :: "string \<Rightarrow> string" where
  "strip_0x s = (if take 2 s = ''0x'' \<or> take 2 s = ''0X'' then drop 2 s else s)"

definition parseInt16 :: "string \<Rightarrow> int option" where
  "parseInt16 s =
     (let t = dropWhile is_space s;
          signed = (t \<noteq> [] \<and> (hd t = CHR ''-'' \<or> hd t = CHR ''+''));
          ds = takeWhile is_hex (strip_0x (if signed then tl t else t))
      in if ds = [] then None
         else Some (if signed \<and> hd t = CHR ''-'' then - int (hex_number ds) else int (hex_number ds)))"

text \<open>A number stored in a \<open>Uint8Array\<close>.\<close>

definition to_uint8 :: "int \<Rightarrow> byte" where "to_uint8 n = word_of_int n"

fun hex_pairs :: "string \<Rightarrow> insc_error + bytes" where
  "hex_pairs (a # b # s) =
     (case parseInt16 [a, b] of
        None \<Rightarrow> Inl (Error ''invalid hex'')
      | Some n \<Rightarrow> ebind (hex_pairs s) (\<lambda>bs. Inr (to_uint8 n # bs)))"
| "hex_pairs s = Inr []"

definition hexToBytes :: "string \<Rightarrow> insc_error + bytes" where
  "hexToBytes h =
     (let clean = (if take 2 h = ''0x'' then drop 2 h else h) in
      if odd (length clean) then Inl (Error ''odd-length hex'') else hex_pairs clean)"

definition bytesToHex :: "bytes \<Rightarrow> string" where
  "bytesToHex bs = concat (map hex_byte bs)"

subsection \<open>Keys\<close>

definition KEY_SUFFIX_LEN :: nat where "KEY_SUFFIX_LEN = 34"
definition LEAF_VERSION :: byte where "LEAF_VERSION = 0xc0"

definition revealKeyFromHex :: "string \<Rightarrow> insc_error + bytes" where
  "revealKeyFromHex h =
     ebind (hexToBytes h) (\<lambda>key. if length key \<noteq> 32 then Inl (Error ''a reveal key is 32 bytes'') else Inr key)"

definition xOnlyPubkey :: "('tx, 'z) btc_lib_scheme \<Rightarrow> bytes \<Rightarrow> insc_error + bytes" where
  "xOnlyPubkey L privkey32 = ebind (assertBytes privkey32 32 ''privkey'') (\<lambda>_. lib_call (getPublicKey L privkey32))"

subsection \<open>Re-keying\<close>

definition reKeyEnvelope :: "bytes \<Rightarrow> bytes \<Rightarrow> insc_error + bytes" where
  "reKeyEnvelope script leafKey32 =
     ebind (assertBytes leafKey32 32 ''leafKey32'') (\<lambda>_.
     if length script < KEY_SUFFIX_LEN then Inl (Error ''too short to carry a key'')
     else
       let suffix = length script - KEY_SUFFIX_LEN in
       if script ! suffix \<noteq> OP_PUSH32 \<or> script ! (length script - 1) \<noteq> OP_CHECKSIG
       then Inl (Error ''does not end in a key check'')
       else Inr (take suffix script @ [OP_PUSH32] @ leafKey32 @ [OP_CHECKSIG]))"

definition envelopeLeafKey :: "bytes \<Rightarrow> insc_error + bytes" where
  "envelopeLeafKey script =
     (if length script < KEY_SUFFIX_LEN then Inl (Error ''too short to carry a key'')
      else Inr (take 32 (drop (length script - 33) script)))"

definition detectOrdEnvelope :: "bytes \<Rightarrow> bool" where
  "detectOrdEnvelope script = (length script > 6 \<and> take 6 script = [0x00, 0x63, 0x03, 0x6f, 0x72, 0x64])"

subsection \<open>Commit output\<close>

record CommitEnvelope =
  ceAddress :: string
  ceScript :: bytes
  ceControlBlock :: bytes
  ceTapLeafHash :: bytes
  ceLeaf :: bytes
  ceInternalKey :: bytes

definition commitEnvelope :: "('tx, 'z) btc_lib_scheme \<Rightarrow> bytes \<Rightarrow> Network \<Rightarrow> insc_error + CommitEnvelope" where
  "commitEnvelope L script network =
     (let leafHash = tapLeafHash L script LEAF_VERSION in
      ebind (lib_call (taprootTweakPubkey L (NUMS_INTERNAL_KEY L) leafHash)) (\<lambda>(outputKey, parity).
      Inr \<lparr>ceAddress = addressEncodeTr L (networkParams L network) outputKey, ceScript = encodeTr L outputKey,
           ceControlBlock = concatBytes [[u8 (unat LEAF_VERSION OR parity)], NUMS_INTERNAL_KEY L],
           ceTapLeafHash = leafHash, ceLeaf = script, ceInternalKey = NUMS_INTERNAL_KEY L\<rparr>))"

text \<open>Beyond \<open>btc_lib\<close>: the output script of a one-leaf tree under an internal key.\<close>

record 'tx mint_lib = "'tx btc_lib" +
  p2trLeafScript :: "bytes \<Rightarrow> bytes \<Rightarrow> byte \<Rightarrow> bytes option"

definition coreCommitScript :: "('tx, 'z) mint_lib_scheme \<Rightarrow> bytes \<Rightarrow> insc_error + bytes" where
  "coreCommitScript L script =
     ebind (envelopeLeafKey script) (\<lambda>ephemeral. lib_call (p2trLeafScript L ephemeral script LEAF_VERSION))"

subsection \<open>Core's envelope\<close>

definition pushData :: "bytes \<Rightarrow> insc_error + bytes" where
  "pushData data =
     (let n = length data in
      if n \<le> 75 then Inr (concatBytes [[u8 n], data])
      else if n \<le> 0xff then Inr (concatBytes [[0x4c, u8 n], data])
      else if n \<le> 0xffff then Inr (concatBytes [[0x4d, u8 (n mod 256), u8 (n div 256)], data])
      else Inl (Error ''push too large''))"

text \<open>\<open>chunks(data)\<close>: the loop advances by 520.\<close>

function chunks :: "bytes \<Rightarrow> bytes list" where
  "chunks data = (if data = [] then [] else take 520 data # chunks (drop 520 data))"
  by pat_completeness auto
termination
  by (relation "measure length") auto

declare chunks.simps [simp del]

definition LR_ISSUANCE :: nat where "LR_ISSUANCE = 22"
definition LR_SUBASSET :: nat where "LR_SUBASSET = 23"
definition FAIRMINTER :: nat where "FAIRMINTER = 90"

record CoreEnvelopeArgs =
  caTypeId :: nat
  caFields :: "CborValue list"
  caMimeType :: js_string
  caContent :: bytes
  caWrapOrd :: bool
  caLeafKey :: "bytes option"

text \<open>The UTF-16 units of a literal of the code.\<close>

definition js_literal :: "string \<Rightarrow> js_string" where
  "js_literal = map (\<lambda>c. word_of_nat (of_char c))"

definition ord_parts :: "CoreEnvelopeArgs \<Rightarrow> insc_error + bytes list" where
  "ord_parts a =
     ebind (cborEncode (CArray (CNumber (int (caTypeId a)) # caFields a))) (\<lambda>metadata.
     ebind (emapM pushData [utf8 (js_literal ''ord''), [0x07], utf8 (js_literal ''xcp''), [0x01],
        utf8 (if caMimeType a = [] then js_literal ''text/plain'' else caMimeType a)]) (\<lambda>tags.
     ebind (emapM (\<lambda>c. ebind (pushData [0x05]) (\<lambda>t. ebind (pushData c) (\<lambda>p. Inr [t, p]))) (chunks metadata)) (\<lambda>meta.
     ebind (emapM pushData (chunks (caContent a))) (\<lambda>body.
     Inr (tags @ concat meta @ [[0x00]] @ body)))))"

definition native_parts :: "CoreEnvelopeArgs \<Rightarrow> insc_error + bytes list" where
  "native_parts a =
     ebind (cborEncode (CArray (caFields a @ [CText (caMimeType a), CByteString (caContent a)]))) (\<lambda>message.
     emapM pushData (chunks (concatBytes [[u8 (caTypeId a)], message])))"

definition buildCoreEnvelope :: "('tx, 'z) btc_lib_scheme \<Rightarrow> CoreEnvelopeArgs \<Rightarrow> insc_error + bytes" where
  "buildCoreEnvelope L a =
     (let key = (case caLeafKey a of None \<Rightarrow> NUMS_INTERNAL_KEY L | Some k \<Rightarrow> k) in
      ebind (assertBytes key 32 ''leafKey'') (\<lambda>_.
      ebind (if caWrapOrd a then ord_parts a else native_parts a) (\<lambda>parts.
      Inr (concatBytes ([[0x00, 0x63]] @ parts @ [[0x68], [OP_PUSH32], key, [OP_CHECKSIG]])))))"

subsection \<open>Hexadecimal round trip\<close>

lemma parseInt16_byte: "parseInt16 (hex_byte b) = Some (int (unat b))"
proof -
  have d: "\<not> is_space (hex_digit n)" "hex_digit n \<noteq> CHR ''-''" "hex_digit n \<noteq> CHR ''+''" "hex_digit n \<noteq> CHR ''x''" "hex_digit n \<noteq> CHR ''X''" for n
    using is_hex_digit [of n] by (auto simp: is_hex_def hex_val_def is_space_def Let_def split: if_splits)
  have b: "unat b div 16 * 16 + unat b mod 16 = unat b" "unat b div 16 mod 16 = unat b div 16"
    using unat_byte_less [of b] by (simp_all add: less_mult_imp_div_less)
  show ?thesis using d b
    by (simp add: parseInt16_def hex_byte_def strip_0x_def Let_def hex_number_def hex_val_digit)
qed

lemma hex_pairs_bytes: "hex_pairs (concat (map hex_byte bs)) = Inr bs"
proof (induction bs)
  case (Cons b bs)
  obtain x y where xy: "hex_byte b = [x, y]" by (simp add: hex_byte_def)
  have "to_uint8 (int (unat b)) = b" by (simp add: to_uint8_def)
  then show ?case using Cons parseInt16_byte [of b] by (simp add: xy)
qed simp

lemma bytesToHex_eq: "bytesToHex = hex_string"
  by (simp add: bytesToHex_def hex_string_def fun_eq_iff)

lemma not_0x: "take 2 (hex_string bs) \<noteq> ''0x''"
proof
  assume "take 2 (hex_string bs) = ''0x''"
  then have "CHR ''x'' \<in> set (hex_string bs)" by (metis in_set_takeD list.set_intros(1,2))
  from is_hex_hex_string [OF this] show False by (simp add: is_hex_def hex_val_def)
qed

lemma hexToBytes_hex: "hexToBytes (bytesToHex bs) = Inr bs"
proof -
  have "hex_pairs (hex_string bs) = Inr bs" using hex_pairs_bytes [of bs] by (simp add: hex_string_def)
  then show ?thesis using not_0x by (simp add: hexToBytes_def bytesToHex_eq)
qed

text \<open>
  Hexadecimal text is read as what was written, and more than that is read. Bytes survive \<open>bytesToHex\<close> and
  \<open>hexToBytes\<close>; but a pair whose first character is a digit and whose second is none passes as one digit, and a sign
  passes as part of a byte.
\<close>

theorem hex_text_roundtrip:
  "hexToBytes (bytesToHex bs) = Inr bs \<and> hexToBytes (''0x'' @ bytesToHex bs) = Inr bs \<and>
   hexToBytes ''1g'' = Inr [0x01] \<and> hexToBytes ''-1'' = Inr [0xff]"
proof -
  have "hex_pairs (hex_string bs) = Inr bs" using hex_pairs_bytes [of bs] by (simp add: hex_string_def)
  moreover have "parseInt16 ''1g'' = Some 1" "parseInt16 ''-1'' = Some (- 1)"
    by (simp_all add: parseInt16_def is_space_def strip_0x_def is_hex_def hex_val_def hex_number_def Let_def)
  moreover have "to_uint8 1 = 0x01" "to_uint8 (- 1) = 0xff" by (simp_all add: to_uint8_def)
  ultimately show ?thesis using not_0x by (simp add: hexToBytes_def bytesToHex_eq)
qed

subsection \<open>The key swap\<close>

lemma reKey_split:
  assumes "reKeyEnvelope script key = Inr leaf"
  obtains pre old where "script = pre @ [OP_PUSH32] @ old @ [OP_CHECKSIG]" "length old = 32" "length key = 32"
    "leaf = pre @ [OP_PUSH32] @ key @ [OP_CHECKSIG]"
proof -
  let ?n = "length script - 34"
  have a: "length key = 32" "34 \<le> length script" "script ! ?n = OP_PUSH32" "script ! (length script - 1) = OP_CHECKSIG"
      "leaf = take ?n script @ [OP_PUSH32] @ key @ [OP_CHECKSIG]"
    using assms by (auto simp: reKeyEnvelope_def ebind_eq_Inr assertBytes_def KEY_SUFFIX_LEN_def Let_def split: if_splits)
  define old where "old = take 32 (drop (Suc ?n) script)"
  have "script = take ?n script @ drop ?n script" by simp
  also have "drop ?n script = OP_PUSH32 # drop (Suc ?n) script" using a by (metis Cons_nth_drop_Suc diff_less less_le_trans zero_less_numeral)
  also have "drop (Suc ?n) script = old @ drop (length script - 1) script"
  proof -
    have "32 + Suc ?n = length script - 1" using a(2) by linarith
    then show ?thesis using append_take_drop_id [of 32 "drop (Suc ?n) script"] by (simp only: old_def drop_drop)
  qed
  also have "drop (length script - 1) script = [OP_CHECKSIG]"
    using a(2,4) Cons_nth_drop_Suc [of "length script - 1" script] by simp
  finally have "script = take ?n script @ [OP_PUSH32] @ old @ [OP_CHECKSIG]" by simp
  moreover have "length old = 32" using a(2) by (simp add: old_def)
  ultimately show thesis using that a by blast
qed

lemma reKey_of_split:
  "length old = 32 \<Longrightarrow> length key = 32 \<Longrightarrow>
   reKeyEnvelope (pre @ [OP_PUSH32] @ old @ [OP_CHECKSIG]) key = Inr (pre @ [OP_PUSH32] @ key @ [OP_CHECKSIG])"
  by (simp add: reKeyEnvelope_def assertBytes_def KEY_SUFFIX_LEN_def Let_def nth_append)

lemma leafKey_of_split: "length key = 32 \<Longrightarrow> envelopeLeafKey (pre @ [OP_PUSH32] @ key @ [OP_CHECKSIG]) = Inr key"
  by (simp add: envelopeLeafKey_def KEY_SUFFIX_LEN_def)

text \<open>
  Swapping the key changes the key and nothing else. The re-keyed leaf has the length of the original and agrees with
  it up to the key; it names the new key; swapping again depends only on the last key, and swapping the original key back
  gives the original envelope.
\<close>

theorem rekey_swaps_key:
  assumes "reKeyEnvelope script key = Inr leaf"
  shows "length leaf = length script \<and> take (length leaf - 33) leaf = take (length script - 33) script \<and>
    envelopeLeafKey leaf = Inr key \<and> reKeyEnvelope leaf key' = reKeyEnvelope script key' \<and>
    (\<exists>old. envelopeLeafKey script = Inr old \<and> reKeyEnvelope leaf old = Inr script)"
proof -
  obtain pre old where s: "script = pre @ [OP_PUSH32] @ old @ [OP_CHECKSIG]" "length old = 32" "length key = 32"
      "leaf = pre @ [OP_PUSH32] @ key @ [OP_CHECKSIG]"
    using assms by (rule reKey_split)
  have "reKeyEnvelope leaf key' = reKeyEnvelope script key'"
  proof (cases "length key' = 32")
    case True
    then show ?thesis using reKey_of_split s by metis
  next
    case False
    then show ?thesis by (simp add: reKeyEnvelope_def assertBytes_def)
  qed
  then show ?thesis using s leafKey_of_split reKey_of_split by simp
qed

lemma build_split:
  "buildCoreEnvelope L a = Inr script \<longleftrightarrow>
   (let key = (case caLeafKey a of None \<Rightarrow> NUMS_INTERNAL_KEY L | Some k \<Rightarrow> k) in
    length key = 32 \<and> (\<exists>parts. (if caWrapOrd a then ord_parts a else native_parts a) = Inr parts \<and>
      script = ([0x00, 0x63] @ concat parts @ [0x68]) @ [OP_PUSH32] @ key @ [OP_CHECKSIG]))"
  by (auto simp: buildCoreEnvelope_def Let_def ebind_eq_Inr assertBytes_def)

lemma parts_of_key: "ord_parts (a\<lparr>caLeafKey := k\<rparr>) = ord_parts a" "native_parts (a\<lparr>caLeafKey := k\<rparr>) = native_parts a"
  by (simp_all add: ord_parts_def native_parts_def)

text \<open>
  Re-keying a rebuilt envelope is rebuilding it with the other key, so its length does not depend on the key.
\<close>

theorem rekey_build:
  assumes "buildCoreEnvelope L a = Inr script" and "length key = 32"
  shows "reKeyEnvelope script key = buildCoreEnvelope L (a\<lparr>caLeafKey := Some key\<rparr>)"
proof -
  obtain parts old where p: "(if caWrapOrd a then ord_parts a else native_parts a) = Inr parts" "length old = 32"
      "script = ([0x00, 0x63] @ concat parts @ [0x68]) @ [OP_PUSH32] @ old @ [OP_CHECKSIG]"
    using assms(1) unfolding build_split by (auto simp: Let_def)
  have "buildCoreEnvelope L (a\<lparr>caLeafKey := Some key\<rparr>) = Inr (([0x00, 0x63] @ concat parts @ [0x68]) @ [OP_PUSH32] @ key @ [OP_CHECKSIG])"
    unfolding build_split using p(1) assms(2) by (cases "caWrapOrd a") (auto simp: parts_of_key)
  then show ?thesis unfolding p(3) reKey_of_split [OF p(2) assms(2)] by simp
qed

subsection \<open>Reading a rebuilt envelope\<close>

text \<open>What the parser of the inscription library makes of fields with known tags, a body tag and a body.\<close>

definition field_of :: "(bytes \<times> bytes) list \<Rightarrow> nat \<Rightarrow> bytes option" where
  "field_of kvs t = map_option snd (List.find (\<lambda>x. fst x = Some t) (map (\<lambda>(k, v). (tag_of k, v)) kvs))"

lemma decodeRaw_fields:
  assumes ps: "map fst (rPushes raw) = kv_list kvs @ [] # bodies" and "list_all known_key (map fst kvs)"
    and "\<forall>(k, v) \<in> set kvs. k \<noteq> []" and "no_dup (fold (\<lambda>(k, v). bump L k) kvs [])"
  shows "let e = decodeRawEnvelope L raw in
    iContentType e = Option.bind (field_of kvs TAG_CONTENT_TYPE) utf8Decode \<and>
    iMetaprotocol e = Option.bind (field_of kvs TAG_METAPROTOCOL) utf8Decode \<and>
    iHasBody e \<and> iBody e = concat bodies \<and>
    iMetadata e = (let m = map snd (filter (\<lambda>x. fst x = Some TAG_METADATA) (map (\<lambda>(k, v). (tag_of k, v)) kvs))
                   in if m \<noteq> [] then Some (concat m) else None) \<and>
    iFlags e = \<lparr>pushnum = rPushnum raw, duplicateField = False, incompleteField = False, unrecognizedEvenField = False\<rparr> \<and>
    iOffset e = rOffset raw \<and> iLength e = rLength raw"
proof -
  obtain ph e r where sp: "rPushes raw = ph @ ([], e) # r" "map fst ph = kv_list kvs" "map fst r = bodies"
    using ps by (auto simp: map_eq_append_conv)
  have at: "body_index 0 (rPushes raw) = Some (length ph)"
    using body_index_kv [OF sp(2) assms(3), of 0 e r] by (simp add: sp(1))
  define s where "s = scan_fields L ph \<lparr>sFields = [], sSeen = [], sIncomplete = False, sUnrecognizedEven = False\<rparr>"
  have s: "map field_proj (sFields s) = map (\<lambda>(k, v). (tag_of k, v)) kvs"
     "\<not> sIncomplete s" "\<not> sUnrecognizedEven s" "no_dup (sSeen s)"
    using scan_fields_kv [OF sp(2) assms(2), of L] assms(4) by (simp_all add: s_def)
  have ff: "first_field (sFields s) t = field_of kvs t" for t
    by (simp add: first_field_proj s(1) field_of_def)
  have md: "map fValue (filter (\<lambda>f. fTag f = Some TAG_METADATA) (sFields s))
      = map snd (filter (\<lambda>x. fst x = Some TAG_METADATA) (map (\<lambda>(k, v). (tag_of k, v)) kvs))"
    by (simp only: filter_field_proj s(1))
  have nd: "list_ex (\<lambda>(k, n). n > 1 \<and> \<not> REPEATABLE_TAG_HEX k) (sSeen s) = False"
    using s(4) by (simp add: no_dup_def)
  have tk: "take (length ph) (rPushes raw) = ph" "drop (length ph + 1) (rPushes raw) = r"
    by (simp_all add: sp(1))
  show ?thesis
    unfolding decodeRawEnvelope_def Let_def at option.case tk s_def [symmetric] nd md
    using s(2,3) sp(3) by (simp add: ff)
qed

lemma pushData_eq: "length d \<le> 0xffff \<Longrightarrow> pushData d = Inr (push_bytes d)"
  by (auto simp: pushData_def push_bytes_def Let_def op_defs u8_def)

lemma pushData_iff: "pushData d = Inr p \<longleftrightarrow> length d \<le> 0xffff \<and> p = push_bytes d"
  using pushData_eq [of d] by (auto simp: pushData_def Let_def split: if_splits)

lemma chunks_eq: "chunks = chunked"
proof
  fix data show "chunks data = chunked data"
  proof (induction data rule: chunked.induct)
    case (1 data)
    then show ?case by (subst chunks.simps, subst chunked.simps) (simp add: CHUNK_eq)
  qed
qed

lemma emapM_pushData: "emapM pushData ds = Inr ps \<longleftrightarrow> list_all (\<lambda>d. length d \<le> 0xffff) ds \<and> ps = map push_bytes ds"
  by (induction ds arbitrary: ps) (auto simp: ebind_eq_Inr pushData_iff)

definition ord_mime :: "CoreEnvelopeArgs \<Rightarrow> js_string" where
  "ord_mime a = (if caMimeType a = [] then js_literal ''text/plain'' else caMimeType a)"

definition ord_fields :: "CoreEnvelopeArgs \<Rightarrow> bytes \<Rightarrow> (bytes \<times> bytes) list" where
  "ord_fields a meta = ([0x07], utf8 (js_literal ''xcp'')) # ([0x01], utf8 (ord_mime a)) # map (\<lambda>c. ([0x05], c)) (chunked meta)"

definition core_items :: "CoreEnvelopeArgs \<Rightarrow> bytes \<Rightarrow> bytes \<Rightarrow> script_item list" where
  "core_items a meta key = [Push [], Bare OP_IF, Push PROTOCOL_ID]
     @ map Push (kv_list (ord_fields a meta) @ [] # chunked (caContent a)) @ [Bare OP_ENDIF, Push key, Bare OP_CHECKSIG]"

lemma ord_envelope_items:
  assumes "caWrapOrd a" and "buildCoreEnvelope L a = Inr script"
  obtains meta key where "length key = 32" "script = items_bytes (core_items a meta key)"
    "cborEncode (CArray (CNumber (int (caTypeId a)) # caFields a)) = Inr meta"
proof -
  obtain key parts where b: "length key = 32" "ord_parts a = Inr parts"
      "script = ([0x00, 0x63] @ concat parts @ [0x68]) @ [OP_PUSH32] @ key @ [OP_CHECKSIG]"
    using assms unfolding build_split by (auto simp: Let_def)
  obtain meta tags ms body where m: "cborEncode (CArray (CNumber (int (caTypeId a)) # caFields a)) = Inr meta"
      "emapM pushData [utf8 (js_literal ''ord''), [0x07], utf8 (js_literal ''xcp''), [0x01], utf8 (ord_mime a)] = Inr tags"
      "emapM (\<lambda>c. ebind (pushData [0x05]) (\<lambda>t. ebind (pushData c) (\<lambda>p. Inr [t, p]))) (chunks meta) = Inr ms"
      "emapM pushData (chunks (caContent a)) = Inr body" "parts = tags @ concat ms @ [[0x00]] @ body"
    using b(2) unfolding ord_parts_def ord_mime_def [symmetric] by (elim ebind_eq_InrE) auto
  have five: "pushData [0x05] = Inr (push_bytes [0x05])" by (rule pushData_eq) simp
  have ms: "concat (concat qs) = items_bytes (map Push (kv_list (map (\<lambda>c. ([0x05], c)) cs)))"
    if "emapM (\<lambda>c. ebind (pushData [0x05]) (\<lambda>t. ebind (pushData c) (\<lambda>p. Inr [t, p]))) cs = Inr qs" for cs qs
    using that by (induction cs arbitrary: qs) (auto simp: ebind_eq_Inr five pushData_iff)
  have map_items: "concat (map push_bytes ds) = items_bytes (map Push ds)" for ds
    by (induction ds) simp_all
  have ord: "utf8 (js_literal ''ord'') = PROTOCOL_ID" by (simp add: PROTOCOL_ID_utf8 js_literal_def)
  have e: "push_bytes [] = [0x00]" "push_bytes key = OP_PUSH32 # key"
    using b(1) by (auto simp: push_bytes_def op_defs OP_PUSH32_def u8_def)
  have "concat tags = items_bytes (map Push [PROTOCOL_ID, [0x07], utf8 (js_literal ''xcp''), [0x01], utf8 (ord_mime a)])"
    using m(2) unfolding ord emapM_pushData by simp
  then have "concat parts = items_bytes (Push PROTOCOL_ID # map Push (kv_list (ord_fields a meta) @ [] # chunked (caContent a)))"
    using ms [OF m(3)] m(4) e(1) by (simp add: m(5) ord_fields_def chunks_eq emapM_pushData map_items)
  then have "script = items_bytes (core_items a meta key)"
    using e by (simp add: b(3) core_items_def op_defs)
  then show thesis using that b(1) m(1) by blast
qed

lemma core_items_ok:
  assumes "length key = 32" and "length (utf8 (ord_mime a)) \<le> 520"
  shows "list_all item_ok (core_items a meta key)"
proof -
  have "length (utf8 (js_literal ''xcp'')) = 3"
    by (simp add: js_literal_def utf8_def utf8_point_def hi_surrogate_def lo_surrogate_def)
  moreover have "list_all (\<lambda>d. length d \<le> 520) (kv_list (map (\<lambda>c. ([t], c)) (chunked m)))" for t m
    using chunk_lengths [of m] by (auto simp: kv_list_def list_all_iff)
  moreover have "list_all (\<lambda>d. length d \<le> 520) (chunked (caContent a))"
    using chunk_lengths by (auto simp: list_all_iff)
  ultimately show ?thesis using assms by (auto simp: core_items_def ord_fields_def op_defs PROTOCOL_ID_def list_all_iff)
qed

lemma find_core_items:
  assumes "length key = 32"
  shows "\<exists>ps. find_raw_envelopes base (ops_of 0 (core_items a meta key)) =
     [\<lparr>rOffset = base, rLength = length (items_bytes (core_items a meta key)) - 34, rPushes = ps, rPushnum = False\<rparr>] \<and>
     map fst ps = kv_list (ord_fields a meta) @ [] # chunked (caContent a)"
proof -
  define ds where "ds = kv_list (ord_fields a meta) @ [] # chunked (caContent a)"
  have e: "push_bytes [] = [OP_0]" "length (push_bytes PROTOCOL_ID) = 4" "length (push_bytes key) = 33"
    using assms by (auto simp: push_bytes_def PROTOCOL_ID_def Let_def)
  note c = collect_items [of base "Suc (Suc 4)" ds "[Push key, Bare OP_CHECKSIG]" "[]" False]
  have "core_items a meta key = [Push [], Bare OP_IF, Push PROTOCOL_ID] @ map Push ds @ Bare OP_ENDIF # [Push key, Bare OP_CHECKSIG]"
    by (simp add: core_items_def ds_def)
  then show ?thesis using e c unfolding ds_def [symmetric] by (auto simp: is_envelope_start_def)
qed

lemma ord_fields_facts:
  assumes "hex_documented L"
  shows "list_all known_key (map fst (ord_fields a meta))" "\<forall>(k, v) \<in> set (ord_fields a meta). k \<noteq> []"
    "no_dup (fold (\<lambda>(k, v). bump L k) (ord_fields a meta) [])"
    "field_of (ord_fields a meta) TAG_CONTENT_TYPE = Some (utf8 (ord_mime a))"
    "field_of (ord_fields a meta) TAG_METAPROTOCOL = Some (utf8 (js_literal ''xcp''))"
    "map snd (filter (\<lambda>x. fst x = Some TAG_METADATA) (map (\<lambda>(k, v). (tag_of k, v)) (ord_fields a meta))) = chunked meta"
proof -
  have d: "hex_digit 0 = CHR ''0''" "hex_digit 1 = CHR ''1''" "hex_digit (Suc 0) = CHR ''1''"
      "hex_digit 7 = CHR ''7''" "hex_digit 5 = CHR ''5''"
    by code_simp+
  have h: "hexEncode L [0x05] = ''05''" "hexEncode L [0x01] = ''01''" "hexEncode L [0x07] = ''07''"
    using assms d by (simp_all add: hex_documented_def)
  have "REPEATABLE_TAG_HEX (hexEncode L [0x05])" by (simp add: h REPEATABLE_TAG_HEX_def)
  note rep = no_dup_fold_repeatable [OF _ this]
  have "bump L [0x01] (bump L [0x07] []) = [(''07'', 1), (''01'', 1)]" unfolding bump_def h by simp
  moreover have "no_dup [(''07'', 1), (''01'', 1)]" by (simp add: no_dup_def)
  ultimately show "no_dup (fold (\<lambda>(k, v). bump L k) (ord_fields a meta) [])" by (simp add: ord_fields_def rep)
  show "list_all known_key (map fst (ord_fields a meta))" "\<forall>(k, v) \<in> set (ord_fields a meta). k \<noteq> []"
    by (auto simp: ord_fields_def known_key_def tag_of_def KNOWN_TAGS_def ENVELOPE_TAGS_def list_all_iff)
  show "field_of (ord_fields a meta) TAG_CONTENT_TYPE = Some (utf8 (ord_mime a))"
    "field_of (ord_fields a meta) TAG_METAPROTOCOL = Some (utf8 (js_literal ''xcp''))"
    by (simp_all add: field_of_def ord_fields_def tag_of_def tag_defs)
  show "map snd (filter (\<lambda>x. fst x = Some TAG_METADATA) (map (\<lambda>(k, v). (tag_of k, v)) (ord_fields a meta))) = chunked meta"
    by (simp add: ord_fields_def tag_of_def tag_defs comp_def)
qed

text \<open>
  C29: the inscription parser reads a rebuilt ord envelope back. Parsing the script finds exactly one envelope at its start;
  it has the MIME type, the content as its body, the metaprotocol \<open>xcp\<close>, none of ord's curses, and metadata that decodes
  to the message: its type followed by what its fields denote.
\<close>

theorem ord_envelope_parses:
  assumes "hex_documented L" and "caWrapOrd a" and "buildCoreEnvelope L a = Inr script"
    and "length (utf8 (ord_mime a)) \<le> 520" and "well_formed_utf16 (ord_mime a)" and "no_bom (ord_mime a)"
  shows "\<exists>e meta. parseEnvelopes L (Script script) base = [e] \<and>
    iContentType e = Some (ord_mime a) \<and> iMetaprotocol e = Some (js_literal ''xcp'') \<and>
    iHasBody e \<and> iBody e = caContent a \<and> iMetadata e = Some meta \<and>
    cbor_decode meta = Some (IArray (IInt (int (caTypeId a)) # map cbor_denotes (caFields a)), []) \<and>
    iFlags e = \<lparr>pushnum = False, duplicateField = False, incompleteField = False, unrecognizedEvenField = False\<rparr> \<and>
    iOffset e = base \<and> iLength e = length script - 34"
proof -
  obtain meta key where s: "length key = 32" "script = items_bytes (core_items a meta key)"
    "cborEncode (CArray (CNumber (int (caTypeId a)) # caFields a)) = Inr meta"
    using assms(2,3) by (rule ord_envelope_items)
  have cb: "cbor_decode meta = Some (IArray (IInt (int (caTypeId a)) # map cbor_denotes (caFields a)), [])"
    using cbor_roundtrip [OF s(3), of "[]"] by simp
  then have "meta \<noteq> []" by (auto simp: cbor_decode_def)
  then have ch: "chunked meta \<noteq> []" by (simp add: chunked_step)
  have "decodeOps script = ops_of 0 (core_items a meta key)"
    using core_items_ok [OF s(1) assms(4)] by (simp add: s(2) decodeOps_items_bytes)
  then obtain ps where ps: "findRawEnvelopes script base =
     [\<lparr>rOffset = base, rLength = length script - 34, rPushes = ps, rPushnum = False\<rparr>]"
     "map fst ps = kv_list (ord_fields a meta) @ [] # chunked (caContent a)"
    using find_core_items [OF s(1), of base a meta] by (auto simp: findRawEnvelopes_def s(2))
  let ?raw = "\<lparr>rOffset = base, rLength = length script - 34, rPushes = ps, rPushnum = False\<rparr>"
  have "well_formed_utf16 (js_literal ''xcp'')" "no_bom (js_literal ''xcp'')"
    by (simp_all add: js_literal_def no_bom_def utf8_def utf8_point_def hi_surrogate_def lo_surrogate_def u8_def)
  then have xcp: "utf8Decode (utf8 (js_literal ''xcp'')) = Some (js_literal ''xcp'')" by (rule utf8_roundtrip)
  have "map fst (rPushes ?raw) = kv_list (ord_fields a meta) @ [] # chunked (caContent a)" using ps(2) by simp
  note dec = decodeRaw_fields [OF this ord_fields_facts(1,2,3) [OF assms(1)], unfolded Let_def ord_fields_facts(4,5,6) [OF assms(1)]]
  have "parseEnvelopes L (Script script) base = [decodeRawEnvelope L ?raw]"
    by (simp add: parseEnvelopes_def toScript_def ps(1))
  then show ?thesis
    using dec cb ch xcp utf8_roundtrip [OF assms(5,6)] by (intro exI [of _ "decodeRawEnvelope L ?raw"] exI [of _ meta]) simp
qed

text \<open>
  The two styles of envelope are told apart. For every message type below 111, which all of Counterparty's are,
  \<open>detectOrdEnvelope\<close> says of a rebuilt envelope whether it was wrapped.
\<close>

theorem detect_ord_wrapper:
  assumes "buildCoreEnvelope L a = Inr script" and "caTypeId a < 0x6f"
  shows "detectOrdEnvelope script = caWrapOrd a"
proof (cases "caWrapOrd a")
  case True
  obtain meta key where s: "length key = 32" "script = items_bytes (core_items a meta key)"
    using True assms(1) by (rule ord_envelope_items)
  have "push_bytes [] = [0x00]" "push_bytes PROTOCOL_ID = [0x03, 0x6f, 0x72, 0x64]"
    by (simp_all add: push_bytes_def PROTOCOL_ID_def op_defs u8_def)
  then show ?thesis using True s by (simp add: core_items_def detectOrdEnvelope_def op_defs)
next
  case False
  obtain key parts where b: "native_parts a = Inr parts"
      "script = ([0x00, 0x63] @ concat parts @ [0x68]) @ [OP_PUSH32] @ key @ [OP_CHECKSIG]"
    using assms(1) False unfolding build_split by (auto simp: Let_def)
  then obtain message where m: "emapM pushData (chunks (u8 (caTypeId a) # message)) = Inr parts"
    by (auto simp: native_parts_def ebind_eq_Inr)
  define c where "c = take 520 (u8 (caTypeId a) # message)"
  obtain c' where c: "c = u8 (caTypeId a) # c'" by (simp add: c_def)
  have "chunks (u8 (caTypeId a) # message) = c # chunks (drop 520 (u8 (caTypeId a) # message))"
    by (subst chunks.simps) (simp add: c_def)
  then obtain ps where ps: "parts = push_bytes c # ps"
    using m by (auto simp: ebind_eq_Inr pushData_iff)
  have "u8 (caTypeId a) \<noteq> 0x6f"
  proof
    assume "u8 (caTypeId a) = 0x6f"
    then have "unat (u8 (caTypeId a)) = unat (0x6f :: byte)" by simp
    then show False using assms(2) by simp
  qed
  then have "take 2 (push_bytes c) \<noteq> [0x03, 0x6f]"
    by (auto simp: push_bytes_def Let_def op_defs c)
  moreover have "2 \<le> length (push_bytes c)" by (auto simp: push_bytes_def Let_def c)
  ultimately have "take 4 script \<noteq> [0x00, 0x63, 0x03, 0x6f]"
    by (simp add: b(2) ps eval_nat_numeral)
  then show ?thesis using False by (auto simp: detectOrdEnvelope_def dest: arg_cong [where f = "take 4"])
qed

text \<open>What can be rebuilt.\<close>

lemma chunks_push: "\<exists>ps. emapM pushData (chunks data) = Inr ps"
  using chunk_lengths [of data] by (fastforce simp: emapM_pushData chunks_eq list_all_iff)

lemma build_total:
  assumes "length (case caLeafKey a of None \<Rightarrow> NUMS_INTERNAL_KEY L | Some k \<Rightarrow> k) = 32"
    and "list_all cbor_encodable (caFields a)" "length (caFields a) < 1000" "caTypeId a < 256"
    and "length (utf8 (ord_mime a)) \<le> 0xffff" "length (utf8 (caMimeType a)) < 2 ^ 64" "length (caContent a) < 2 ^ 64"
  shows "\<exists>script. buildCoreEnvelope L a = Inr script"
proof -
  have "\<exists>parts. ord_parts a = Inr parts"
  proof -
    have "cbor_encodable (CArray (CNumber (int (caTypeId a)) # caFields a))" using assms by simp
    then obtain meta where m: "cborEncode (CArray (CNumber (int (caTypeId a)) # caFields a)) = Inr meta"
      using cbor_encode_iff is_ok_iff by metis
    have "\<exists>ts. emapM pushData [utf8 (js_literal ''ord''), [0x07], utf8 (js_literal ''xcp''), [0x01], utf8 (ord_mime a)] = Inr ts"
      using assms(5) unfolding emapM_pushData
      by (simp add: js_literal_def utf8_def utf8_point_def hi_surrogate_def lo_surrogate_def)
    moreover have "emapM (\<lambda>c. ebind (pushData [0x05]) (\<lambda>t. ebind (pushData c) (\<lambda>p. Inr [t, p]))) (chunks meta)
        = Inr (map (\<lambda>c. [push_bytes [0x05], push_bytes c]) (chunks meta))"
      using chunk_lengths [of meta] by (intro emapM_Inr) (fastforce simp: pushData_eq chunks_eq)
    moreover obtain body where "emapM pushData (chunks (caContent a)) = Inr body" using chunks_push by blast
    ultimately show ?thesis by (auto simp: ord_parts_def m ord_mime_def [symmetric] simp del: emapM.simps)
  qed
  moreover have "\<exists>parts. native_parts a = Inr parts"
  proof -
    have "cbor_encodable (CArray (caFields a @ [CText (caMimeType a), CByteString (caContent a)]))" using assms by simp
    then obtain m where "cborEncode (CArray (caFields a @ [CText (caMimeType a), CByteString (caContent a)])) = Inr m"
      using cbor_encode_iff is_ok_iff by metis
    then show ?thesis using chunks_push by (simp add: native_parts_def)
  qed
  ultimately show ?thesis using assms(1) unfolding build_split by (auto simp: Let_def)
qed

text \<open>What is rebuilt has a length that depends on the content only through its length, and on the key not at all.\<close>

lemma chunks_lengths_cong: "length c = length c' \<Longrightarrow> map length (chunks c) = map length (chunks c')"
proof (induction c arbitrary: c' rule: chunks.induct)
  case (1 c)
  show ?case
  proof (cases "c = []")
    case False
    then have "c' \<noteq> []" using 1(2) by auto
    then show ?thesis using 1 False by (simp add: chunks.simps [of c] chunks.simps [of c'])
  qed (use 1(2) in simp)
qed

lemma push_length_cong: "length d = length d' \<Longrightarrow> length (push_bytes d) = length (push_bytes d')"
  by (simp add: push_bytes_def Let_def)

lemma push_lengths_cong:
  "map length ds = map length ds' \<Longrightarrow> length (concat (map push_bytes ds)) = length (concat (map push_bytes ds'))"
proof (induction ds arbitrary: ds')
  case (Cons d ds)
  then obtain d' ds'' where "ds' = d' # ds''" "length d = length d'" "map length ds = map length ds''" by (cases ds') auto
  then show ?case using Cons.IH push_length_cong [of d d'] by simp
qed simp

lemma emapM_append: "emapM f (xs @ ys) = ebind (emapM f xs) (\<lambda>as. ebind (emapM f ys) (\<lambda>bs. Inr (as @ bs)))"
  by (induction xs) (auto split: sum.splits simp: ebind_def)

lemma native_message_length:
  assumes "cborEncode (CArray (fs @ [CText m, CByteString c])) = Inr r" and "length c' = length c"
  shows "\<exists>r'. cborEncode (CArray (fs @ [CText m, CByteString c'])) = Inr r' \<and> length r' = length r"
  using assms by (auto simp: cborEncode_def ebind_eq_Inr emapM_append Let_def)

lemma leaf_length:
  assumes "buildCoreEnvelope L a = Inr s" and "length c = length (caContent a)" and "length key = 32"
  shows "\<exists>s'. buildCoreEnvelope L' (a\<lparr>caContent := c, caLeafKey := Some key\<rparr>) = Inr s' \<and> length s' = length s"
proof -
  let ?a = "a\<lparr>caContent := c, caLeafKey := Some key\<rparr>"
  obtain parts old where p: "(if caWrapOrd a then ord_parts a else native_parts a) = Inr parts" "length old = 32"
      "s = ([0x00, 0x63] @ concat parts @ [0x68]) @ [OP_PUSH32] @ old @ [OP_CHECKSIG]"
    using assms(1) unfolding build_split by (auto simp: Let_def)
  have body: "emapM pushData (chunks d) = Inr (map push_bytes (chunks d))" for d
    using chunks_push [of d] by (auto simp: emapM_pushData)
  note same = push_lengths_cong [OF chunks_lengths_cong]
  have "\<exists>parts'. (if caWrapOrd ?a then ord_parts ?a else native_parts ?a) = Inr parts' \<and> length (concat parts') = length (concat parts)"
  proof (cases "caWrapOrd a")
    case True
    then show ?thesis using p(1) same [OF assms(2)]
      by (auto simp: ord_parts_def ebind_eq_Inr body simp del: emapM.simps)
  next
    case False
    then obtain r where r: "cborEncode (CArray (caFields a @ [CText (caMimeType a), CByteString (caContent a)])) = Inr r"
        "parts = map push_bytes (chunks (u8 (caTypeId a) # r))"
      using p(1) by (auto simp: native_parts_def ebind_eq_Inr body)
    obtain r' where r': "cborEncode (CArray (caFields a @ [CText (caMimeType a), CByteString c])) = Inr r'" "length r' = length r"
      using native_message_length [OF r(1) assms(2)] by blast
    then show ?thesis using False r(2) same [of "u8 (caTypeId a) # r'" "u8 (caTypeId a) # r"]
      by (simp add: native_parts_def body)
  qed
  then obtain parts' where "(if caWrapOrd ?a then ord_parts ?a else native_parts ?a) = Inr parts'" "length (concat parts') = length (concat parts)"
    by blast
  then show ?thesis unfolding build_split using p(2,3) assms(3) by (auto simp: Let_def)
qed

subsection \<open>A concrete envelope\<close>

definition mint_lib_btc :: "ConcTx btc_lib" where "mint_lib_btc = conc_lib (conc_tx None)"

definition issue_args :: "bool \<Rightarrow> CoreEnvelopeArgs" where
  "issue_args wrap = \<lparr>caTypeId = LR_ISSUANCE, caFields = [CBigint 7, CBoolean True], caMimeType = js_literal ''text/plain'',
     caContent = [0x68, 0x69], caWrapOrd = wrap, caLeafKey = Some (replicate 32 1)\<rparr>"

lemma issue_builds: "\<exists>script. buildCoreEnvelope mint_lib_btc (issue_args wrap) = Inr script"
  by (rule build_total)
    (simp_all add: issue_args_def ord_mime_def LR_ISSUANCE_def js_literal_def utf8_def utf8_point_def hi_surrogate_def lo_surrogate_def)

lemma issue_rekeys: "\<exists>script leaf. buildCoreEnvelope mint_lib_btc (issue_args wrap) = Inr script \<and> reKeyEnvelope script (replicate 32 2) = Inr leaf"
proof -
  obtain script where s: "buildCoreEnvelope mint_lib_btc (issue_args wrap) = Inr script" using issue_builds by blast
  then obtain pre old where "script = pre @ [OP_PUSH32] @ old @ [OP_CHECKSIG]" "length old = 32"
    unfolding build_split Let_def by blast
  then show ?thesis using s reKey_of_split [of old "replicate 32 2" pre] by auto
qed

theorem rekey_swaps_key_witness:
  "\<exists>script leaf. reKeyEnvelope script (replicate 32 2) = Inr leaf \<and> envelopeLeafKey leaf = Inr (replicate 32 2) \<and> length leaf = length script"
  using issue_rekeys rekey_swaps_key by blast

theorem rekey_build_witness:
  "\<exists>script. buildCoreEnvelope mint_lib_btc (issue_args True) = Inr script \<and>
     reKeyEnvelope script (replicate 32 2) = buildCoreEnvelope mint_lib_btc (issue_args True\<lparr>caLeafKey := Some (replicate 32 2)\<rparr>)"
proof -
  obtain script where s: "buildCoreEnvelope mint_lib_btc (issue_args True) = Inr script" using issue_builds by blast
  with rekey_build [OF s, of "replicate 32 2"] show ?thesis by simp
qed

theorem ord_envelope_parses_witness:
  "\<exists>script e. buildCoreEnvelope mint_lib_btc (issue_args True) = Inr script \<and>
     parseEnvelopes mint_lib_btc (Script script) 0 = [e] \<and> iBody e = [0x68, 0x69]"
proof -
  obtain script where s: "buildCoreEnvelope mint_lib_btc (issue_args True) = Inr script" using issue_builds by blast
  have "length (utf8 (ord_mime (issue_args True))) \<le> 520" "well_formed_utf16 (ord_mime (issue_args True))" "no_bom (ord_mime (issue_args True))"
    by (simp_all add: issue_args_def ord_mime_def no_bom_def js_literal_def utf8_def utf8_point_def hi_surrogate_def lo_surrogate_def u8_def)
  moreover have "hex_documented mint_lib_btc" by (simp add: mint_lib_btc_def conc_lib_documented)
  ultimately show ?thesis using ord_envelope_parses [OF _ _ s, of 0] s by (auto simp: issue_args_def)
qed

theorem detect_ord_wrapper_witness:
  "\<exists>script. buildCoreEnvelope mint_lib_btc (issue_args False) = Inr script \<and> \<not> detectOrdEnvelope script"
proof -
  obtain script where s: "buildCoreEnvelope mint_lib_btc (issue_args False) = Inr script" using issue_builds by blast
  with detect_ord_wrapper [OF s] show ?thesis by (auto simp: issue_args_def LR_ISSUANCE_def)
qed

end
