(* ===== verification/MintAssets.thy ===== *)
theory MintAssets imports Prelude begin

unbundle bit_operations_syntax

text \<open>
  \<open>assetnames.ts\<close> of \<open>counters-mint\<close>: the shapes of Counterparty asset names, their numeric ids and the compacted names
  of subassets. Characters are 8-bit; bigints that are never negative are natural numbers.
\<close>

subsection \<open>Names\<close>

definition NUMERIC_MIN :: nat where "NUMERIC_MIN = 26 ^ 12 + 1"
definition NUMERIC_MAX :: nat where "NUMERIC_MAX = 2 ^ 64 - 1"
definition RESERVED :: "string list" where "RESERVED = [''BTC'', ''XCP'']"
definition NAMED_ISSUANCE_BURN_XCP :: nat where "NAMED_ISSUANCE_BURN_XCP = 50000000"

definition upper_letter :: "char \<Rightarrow> bool" where
  "upper_letter c = (let n = of_char c :: nat in 65 \<le> n \<and> n \<le> 90)"

text \<open>\<open>/^[B-Z][A-Z]{3,11}$/\<close>, \<open>/^A\d{1,20}$/\<close> and \<open>/^[a-zA-Z0-9.\-_@!]{1,250}$/\<close>.\<close>

definition NAMED :: "string \<Rightarrow> bool" where
  "NAMED s = (4 \<le> length s \<and> length s \<le> 12 \<and> hd s \<noteq> CHR ''A'' \<and> list_all upper_letter s)"

definition NUMERIC :: "string \<Rightarrow> bool" where
  "NUMERIC s = (s \<noteq> [] \<and> hd s = CHR ''A'' \<and> 1 \<le> length (tl s) \<and> length (tl s) \<le> 20 \<and> list_all is_digit (tl s))"

definition SUBASSET_DIGITS :: string where
  "SUBASSET_DIGITS = ''abcdefghijklmnopqrstuvwxyzABCDEFGHIJKLMNOPQRSTUVWXYZ0123456789.-_@!''"

definition SUBASSET_CHILD :: "string \<Rightarrow> bool" where
  "SUBASSET_CHILD s = (1 \<le> length s \<and> length s \<le> 250 \<and>
     list_all (\<lambda>c. upper_letter c \<or> (let n = of_char c :: nat in 97 \<le> n \<and> n \<le> 122) \<or> is_digit c \<or> c \<in> set ''.-_@!'') s)"

datatype AssetNameKind = Named | Numeric | Subasset

datatype AssetNameProblem = Reserved | NumericOutOfRange | NamedShape | SubassetParent | SubassetChild | SubassetLength

text \<open>\<open>AssetNameCheck\<close>: the kind with the parent of a subasset, or the reason.\<close>

datatype AssetNameCheck = NameOk AssetNameKind "string option" | NameBad AssetNameProblem

definition isNumericAssetName :: "string \<Rightarrow> bool" where
  "isNumericAssetName name =
     (NUMERIC name \<and> (let v = num_of_digits 0 (tl name) in NUMERIC_MIN \<le> v \<and> v \<le> NUMERIC_MAX))"

text \<open>The part of a name before its first dot, and the part after it.\<close>

definition before_dot :: "string \<Rightarrow> string" where "before_dot = takeWhile (\<lambda>c. c \<noteq> CHR ''.'')"
definition after_dot :: "string \<Rightarrow> string" where "after_dot s = tl (dropWhile (\<lambda>c. c \<noteq> CHR ''.'') s)"

lemma trim_length: "length (trim s) \<le> length s"
proof -
  have "length (dropWhile p xs) \<le> length xs" for p and xs :: string by (induction xs) auto
  from this [of is_space "rev (dropWhile is_space s)"] this [of is_space s] show ?thesis by (simp add: trim_def)
qed

lemma before_dot_shorter: "CHR ''.'' \<in> set s \<Longrightarrow> length (before_dot s) < length s"
  by (induction s) (auto simp: before_dot_def)

function checkAssetName :: "string \<Rightarrow> AssetNameCheck" where
  "checkAssetName raw =
     (let name = trim raw in
      if name \<in> set RESERVED then NameBad Reserved
      else if CHR ''.'' \<in> set name then
        (case checkAssetName (before_dot name) of
           NameBad _ \<Rightarrow> NameBad SubassetParent
         | NameOk knd _ \<Rightarrow>
             if knd = Subasset then NameBad SubassetParent
             else if \<not> SUBASSET_CHILD (after_dot name) then NameBad SubassetChild
             else if length name > 250 then NameBad SubassetLength
             else NameOk Subasset (Some (before_dot name)))
      else if name \<noteq> [] \<and> hd name = CHR ''A'' \<and> list_all is_digit (tl name) then
        (if isNumericAssetName name then NameOk Numeric None else NameBad NumericOutOfRange)
      else if NAMED name then NameOk Named None else NameBad NamedShape)"
  by pat_completeness auto
termination
  by (relation "measure length") (auto dest: before_dot_shorter intro: less_le_trans [OF _ trim_length])

declare checkAssetName.simps [simp del]

text \<open>\<open>classifyAssetName\<close>: \<open>None\<close> is \<open>invalid\<close>.\<close>

definition classifyAssetName :: "string \<Rightarrow> AssetNameKind option" where
  "classifyAssetName name = (case checkAssetName name of NameOk k _ \<Rightarrow> Some k | NameBad _ \<Rightarrow> None)"

text \<open>A name drawn from eight random bytes.\<close>

definition randomNumericAsset :: "bytes \<Rightarrow> string" where
  "randomNumericAsset rnd =
     (let span = NUMERIC_MAX - NUMERIC_MIN; v = foldl (\<lambda>v b. push_bit 8 v OR unat b) 0 rnd
      in CHR ''A'' # digits_of_nat (NUMERIC_MIN + v mod span))"

definition issuanceBurnXcp :: "string \<Rightarrow> string + nat" where
  "issuanceBurnXcp name =
     (case classifyAssetName name of
        None \<Rightarrow> Inl ''not a valid asset name''
      | Some k \<Rightarrow> Inr (if k = Named then NAMED_ISSUANCE_BURN_XCP else 0))"

definition letter_value :: "char \<Rightarrow> nat" where "letter_value c = of_char c - 65"

definition assetId :: "string \<Rightarrow> string + nat" where
  "assetId name =
     (if name = ''BTC'' then Inr 0
      else if name = ''XCP'' then Inr 1
      else if name \<noteq> [] \<and> hd name = CHR ''A'' then
        (if isNumericAssetName name then Inr (num_of_digits 0 (tl name)) else Inl ''numeric asset name not in range'')
      else if NAMED name then Inr (foldl (\<lambda>n c. n * 26 + letter_value c) 0 name)
      else Inl ''not a valid named asset'')"

fun index_of :: "char \<Rightarrow> string \<Rightarrow> nat option" where
  "index_of c [] = None"
| "index_of c (d # ds) = (if c = d then Some 0 else map_option Suc (index_of c ds))"

fun longname_value :: "nat \<Rightarrow> string \<Rightarrow> string + nat" where
  "longname_value n [] = Inr n"
| "longname_value n (c # cs) =
     (case index_of c SUBASSET_DIGITS of
        None \<Rightarrow> Inl ''invalid subasset character''
      | Some d \<Rightarrow> longname_value (n * 68 + (d + 1)) cs)"

fun base256 :: "nat \<Rightarrow> bytes \<Rightarrow> bytes" where
  "base256 n out = (if n = 0 then out else base256 (n div 256) (u8 (n mod 256) # out))"

declare base256.simps [simp del]

definition compactSubassetLongname :: "string \<Rightarrow> string + bytes" where
  "compactSubassetLongname longname = ebind (longname_value 0 longname) (\<lambda>n. Inr (base256 n []))"

subsection \<open>Ids\<close>

text \<open>A number read in some base from digits that are all below it.\<close>

lemma base_value_bounds:
  fixes f :: "char \<Rightarrow> nat"
  assumes "list_all (\<lambda>c. f c < B) s" "0 < B"
  shows "a * B ^ length s \<le> foldl (\<lambda>n c. n * B + f c) a s \<and> foldl (\<lambda>n c. n * B + f c) a s < (a + 1) * B ^ length s"
  using assms(1)
proof (induction s arbitrary: a)
  case (Cons c s)
  have "f c + 1 \<le> B" using Cons.prems by simp
  then have "(a * B + f c + 1) * B ^ length s \<le> (a * B + B) * B ^ length s" by (intro mult_le_mono1) simp
  moreover have "a * B * B ^ length s \<le> (a * B + f c) * B ^ length s" by (intro mult_le_mono1) simp
  ultimately show ?case using Cons.IH [of "a * B + f c"] Cons.prems by (simp add: algebra_simps)
qed simp

lemma base_value_inj:
  fixes f :: "char \<Rightarrow> nat"
  assumes "list_all (\<lambda>c. f c < B) s" "list_all (\<lambda>c. f c < B) t" "length s = length t"
    and "foldl (\<lambda>n c. n * B + f c) a s = foldl (\<lambda>n c. n * B + f c) b t"
  shows "a = b \<and> map f s = map f t"
  using assms(3,1,2,4)
proof (induction s t arbitrary: a b rule: list_induct2)
  case (Cons c s d t)
  have "a * B + f c = b * B + f d \<and> map f s = map f t" using Cons by simp
  moreover have "f c < B" "f d < B" using Cons.prems by simp_all
  ultimately show ?case
    by (metis (no_types, lifting) add.commute add_right_cancel div_mult_self3 div_less add_0 gr_implies_not0 list.simps(9) mod_less mod_mult_self1)
qed simp

lemma letter_value_less: "upper_letter c \<Longrightarrow> letter_value c < 26"
  by (auto simp: upper_letter_def letter_value_def Let_def)

lemma letter_value_inj: "upper_letter c \<Longrightarrow> upper_letter d \<Longrightarrow> letter_value c = letter_value d \<longleftrightarrow> c = d"
proof -
  assume "upper_letter c" "upper_letter d"
  then have "65 \<le> (of_char c :: nat)" "65 \<le> (of_char d :: nat)" by (simp_all add: upper_letter_def Let_def)
  then have "letter_value c = letter_value d \<longleftrightarrow> (of_char c :: nat) = of_char d" unfolding letter_value_def by linarith
  then show "letter_value c = letter_value d \<longleftrightarrow> c = d" by simp
qed

lemma letters_inj: "list_all upper_letter s \<Longrightarrow> list_all upper_letter t \<Longrightarrow> map letter_value s = map letter_value t \<Longrightarrow> s = t"
  by (rule map_inj_on [of letter_value]) (auto simp: inj_on_def list_all_iff letter_value_inj)

definition named_value :: "string \<Rightarrow> nat" where
  "named_value s = foldl (\<lambda>n c. n * 26 + letter_value c) 0 s"

text \<open>A named asset of length \<open>k\<close> has an id of \<open>k\<close> digits in base 26: the first letter is not an \<open>A\<close>.\<close>

lemma named_value_bounds:
  assumes "NAMED s"
  shows "26 ^ (length s - 1) \<le> named_value s \<and> named_value s < 26 ^ length s"
proof -
  obtain c r where s: "s = c # r" using assms by (cases s) (auto simp: NAMED_def)
  have r: "list_all (\<lambda>c. letter_value c < 26) r" using assms letter_value_less by (auto simp: NAMED_def s list_all_iff)
  have "upper_letter CHR ''A''" "letter_value CHR ''A'' = 0" by (simp_all add: upper_letter_def letter_value_def)
  then have c: "1 \<le> letter_value c" "letter_value c < 26"
    using assms letter_value_inj [of c "CHR ''A''"] letter_value_less [of c] by (auto simp: NAMED_def s)
  have "1 * 26 ^ length r \<le> letter_value c * 26 ^ length r" "(letter_value c + 1) * 26 ^ length r \<le> 26 * 26 ^ length r"
    using c by (intro mult_le_mono1; simp)+
  moreover have "letter_value c * 26 ^ length r \<le> named_value s \<and> named_value s < (letter_value c + 1) * 26 ^ length r"
    using base_value_bounds [OF r, of "letter_value c"] by (simp add: named_value_def s)
  moreover have "(26 :: nat) ^ (length s - 1) = 26 ^ length r" "(26 :: nat) ^ length s = 26 * 26 ^ length r" by (simp_all add: s)
  ultimately have "26 ^ (length s - 1) \<le> named_value s" "named_value s < 26 ^ length s" by linarith+
  then show ?thesis ..
qed

lemma named_value_inj:
  assumes "NAMED s" "NAMED t" "named_value s = named_value t"
  shows "s = t"
proof -
  have len: "length s = length t"
  proof (rule ccontr)
    have no: False if "NAMED x" "NAMED y" "named_value x = named_value y" "length x < length y" for x y
    proof -
      have "(26 :: nat) ^ length x \<le> 26 ^ (length y - 1)" using that(4) by (intro power_increasing) simp_all
      then show False using named_value_bounds [OF that(1)] named_value_bounds [OF that(2)] that(3) by linarith
    qed
    assume "length s \<noteq> length t"
    then show False using no [of s t] no [of t s] assms by (cases "length s < length t") auto
  qed
  have "list_all (\<lambda>c. letter_value c < 26) s" "list_all (\<lambda>c. letter_value c < 26) t"
    using assms letter_value_less by (auto simp: NAMED_def list_all_iff)
  then have "map letter_value s = map letter_value t"
    using base_value_inj [of letter_value 26 s t 0 0] len assms(3) by (simp add: named_value_def)
  then show ?thesis using letters_inj assms by (simp add: NAMED_def)
qed

text \<open>A numeric name without leading zeros; other names as they are.\<close>

definition canonical_name :: "string \<Rightarrow> string" where
  "canonical_name s = (if s \<noteq> [] \<and> hd s = CHR ''A'' then CHR ''A'' # digits_of_nat (num_of_digits 0 (tl s)) else s)"

lemma assetId_cases:
  assumes "assetId s = Inr v"
  shows "(s = ''BTC'' \<and> v = 0) \<or> (s = ''XCP'' \<and> v = 1) \<or>
    (isNumericAssetName s \<and> v = num_of_digits 0 (tl s) \<and> 26 ^ 12 < v \<and> v < 2 ^ 64 \<and> s \<noteq> [] \<and> hd s = CHR ''A'') \<or>
    (NAMED s \<and> v = named_value s \<and> 26 ^ 3 \<le> v \<and> v < 26 ^ 12 \<and> hd s \<noteq> CHR ''A'')"
proof -
  have n: "26 ^ 3 \<le> named_value s \<and> named_value s < 26 ^ 12" if "NAMED s"
  proof -
    have l: "3 \<le> length s - 1" "length s \<le> 12" using that by (auto simp: NAMED_def)
    have "(26 :: nat) ^ 3 \<le> 26 ^ (length s - 1)" by (rule power_increasing [OF l(1)]) simp
    moreover have "(26 :: nat) ^ length s \<le> 26 ^ 12" by (rule power_increasing [OF l(2)]) simp
    ultimately show ?thesis using named_value_bounds [OF that] by linarith
  qed
  show ?thesis
    using assms n
    by (auto simp: assetId_def isNumericAssetName_def NUMERIC_MIN_def NUMERIC_MAX_def Let_def named_value_def split: if_splits)
qed

text \<open>
  An asset id names one asset. Two names with the same id are the same name, up to leading zeros behind the \<open>A\<close> of a
  numeric name; an id is below 2 ^ 64, and one above 26 ^ 12 exactly for the numeric names.
\<close>

theorem asset_id_identifies:
  assumes "assetId s = Inr v" and "assetId t = Inr v"
  shows "canonical_name s = canonical_name t \<and> v < 2 ^ 64 \<and> (26 ^ 12 < v \<longleftrightarrow> isNumericAssetName s)"
proof -
  have b: "\<not> isNumericAssetName ''BTC''" "\<not> isNumericAssetName ''XCP''" "\<not> NAMED s \<or> \<not> isNumericAssetName s"
    by (auto simp: isNumericAssetName_def NUMERIC_def NAMED_def)
  have c: "canonical_name ''BTC'' = ''BTC''" "canonical_name ''XCP'' = ''XCP''" "hd r \<noteq> CHR ''A'' \<Longrightarrow> canonical_name r = r" for r
    by (auto simp: canonical_name_def)
  have big: "(1 :: nat) < 26 ^ 3" "(26 :: nat) ^ 12 < 2 ^ 64" by simp_all
  show ?thesis
    using assetId_cases [OF assms(1)] assetId_cases [OF assms(2)] b c named_value_inj [of s t] big
    by (elim disjE conjE) (simp_all add: canonical_name_def)
qed

text \<open>
  Two names of one numeric asset. A zero written behind the \<open>A\<close> of a numeric name that is not yet 21 characters long
  gives another name that passes every check and has the same asset id.
\<close>

theorem leading_zero_aliases:
  assumes "isNumericAssetName s" and "length s \<le> 20"
  shows "let z = CHR ''A'' # CHR ''0'' # tl s in
    z \<noteq> s \<and> classifyAssetName z = Some Numeric \<and> classifyAssetName s = Some Numeric \<and> assetId z = assetId s"
proof -
  obtain ds where s: "s = CHR ''A'' # ds" "list_all is_digit ds" "ds \<noteq> []"
    using assms by (cases s; cases "tl s") (auto simp: isNumericAssetName_def NUMERIC_def)
  have digit: "is_digit CHR ''0''" "digit_val CHR ''0'' = Some 0" by (simp_all add: is_digit_def digit_val_def)
  have z: "isNumericAssetName (CHR ''A'' # CHR ''0'' # ds)"
    using assms s digit by (simp add: isNumericAssetName_def NUMERIC_def)
  have dot: "CHR ''.'' \<notin> set ds" using s(2) by (auto simp: list_all_iff is_digit_def digit_val_def)
  have sp: "\<not> is_space CHR ''A''" by (simp add: is_space_def)
  have "\<not> is_space (last ds)" using s(2,3) not_space_digit by (auto simp: list_all_iff)
  then have t: "trim s = s" "trim (CHR ''A'' # CHR ''0'' # ds) = CHR ''A'' # CHR ''0'' # ds"
    using s sp by (auto intro!: trim_id)
  have "classifyAssetName s = Some Numeric" "classifyAssetName (CHR ''A'' # CHR ''0'' # ds) = Some Numeric"
    using assms s z t dot digit
    by (simp_all add: classifyAssetName_def checkAssetName.simps [of "CHR ''A'' # ds"]
        checkAssetName.simps [of "CHR ''A'' # CHR ''0'' # ds"] RESERVED_def)
  then show ?thesis
    using assms s z digit by (auto simp: assetId_def Let_def)
qed

text \<open>
  A subasset may pass the check with a parent that does not. The check trims the part before the dot once more, but
  hands it on as it is: a blank between a valid named parent and the dot is accepted, and the parent it returns has
  neither a valid shape nor an asset id.
\<close>

theorem blank_before_dot_passes:
  assumes "NAMED p" and "SUBASSET_CHILD c" and "length p + length c + 2 \<le> 250"
    and "\<not> is_space (last c)" and "p \<notin> set RESERVED"
  shows "checkAssetName (p @ '' .'' @ c) = NameOk Subasset (Some (p @ '' '')) \<and>
    \<not> NAMED (p @ '' '') \<and> assetId (p @ '' '') = Inl ''not a valid named asset''"
proof -
  have up: "x \<noteq> CHR ''.'' \<and> \<not> is_space x" if "x \<in> set p" for x
    using assms(1) that by (auto simp: NAMED_def list_all_iff upper_letter_def is_space_def Let_def)
  have p: "p \<noteq> []" "hd p \<noteq> CHR ''A''" using assms(1) by (auto simp: NAMED_def)
  have c: "c \<noteq> []" using assms(2) by (auto simp: SUBASSET_CHILD_def)
  have dw: "dropWhile is_space p = p" "dropWhile is_space (rev p) = rev p"
    using up p by (metis dropWhile_eq_self_iff hd_in_set, metis dropWhile_eq_self_iff hd_rev last_in_set)
  have blank: "is_space CHR '' ''" by (simp add: is_space_def)
  have t1: "trim (p @ '' '') = p" using up p dw blank by (simp add: trim_def dropWhile_append3 dropWhile_append)
  have t2: "trim (p @ '' .'' @ c) = p @ '' .'' @ c" using up p c assms(4) by (intro trim_id) auto
  have "before_dot (p @ '' .'' @ c) = p @ '' ''" "after_dot (p @ '' .'' @ c) = c"
    using up by (simp_all add: before_dot_def after_dot_def takeWhile_append dropWhile_append)
  moreover have "checkAssetName (p @ '' '') = NameOk Named None"
    using up p assms(1,5) t1 by (subst checkAssetName.simps) (auto simp: Let_def)
  moreover have "p @ '' .'' @ c \<notin> set RESERVED" by (auto simp: RESERVED_def append_eq_Cons_conv)
  ultimately have "checkAssetName (p @ '' .'' @ c) = NameOk Subasset (Some (p @ '' ''))"
    using assms(2,3) t2 by (subst checkAssetName.simps) (simp add: Let_def)
  moreover have "\<not> NAMED (p @ '' '')" by (simp add: NAMED_def upper_letter_def)
  moreover have "assetId (p @ '' '') = Inl ''not a valid named asset''"
    using p \<open>\<not> NAMED (p @ '' '')\<close> by (auto simp: assetId_def append_eq_Cons_conv)
  ultimately show ?thesis by simp
qed

subsection \<open>Drawn names and compacted names\<close>

text \<open>
  A drawn name is free to use. Whatever bytes are drawn, the name is a valid numeric name and costs no XCP; its id lies
  in the range of numeric ids, and the last id of the range is never drawn.
\<close>

theorem drawn_name_valid:
  "classifyAssetName (randomNumericAsset rnd) = Some Numeric \<and> issuanceBurnXcp (randomNumericAsset rnd) = Inr 0 \<and>
   (\<exists>v. assetId (randomNumericAsset rnd) = Inr v \<and> NUMERIC_MIN \<le> v \<and> v < NUMERIC_MAX)"
proof -
  define v where "v = NUMERIC_MIN + foldl (\<lambda>v b. push_bit 8 v OR unat b) 0 rnd mod (NUMERIC_MAX - NUMERIC_MIN)"
  have "NUMERIC_MAX - NUMERIC_MIN > 0" by (simp add: NUMERIC_MAX_def NUMERIC_MIN_def)
  then have v: "NUMERIC_MIN \<le> v" "v < NUMERIC_MAX"
    using mod_less_divisor [of "NUMERIC_MAX - NUMERIC_MIN" "foldl (\<lambda>v b. push_bit 8 v OR unat b) 0 rnd"]
    unfolding v_def by linarith+
  have name: "randomNumericAsset rnd = CHR ''A'' # digits_of_nat v" by (simp add: randomNumericAsset_def v_def Let_def)
  have d: "list_all is_digit (digits_of_nat v)" "digits_of_nat v \<noteq> []"
    using digits_of_nat_digits by (auto simp: list_all_iff)
  have "v < 10 ^ Suc 19" using v(2) by (simp add: NUMERIC_MAX_def)
  then have "length (digits_of_nat v) \<le> 20" by (intro length_digits_of_nat) simp_all
  then have num: "isNumericAssetName (CHR ''A'' # digits_of_nat v)"
    using v d by (simp add: isNumericAssetName_def NUMERIC_def num_digits_of_nat Suc_le_eq)
  have "CHR ''.'' \<notin> set (digits_of_nat v)" using d(1) by (auto simp: list_all_iff is_digit_def digit_val_def)
  moreover have "trim (CHR ''A'' # digits_of_nat v) = CHR ''A'' # digits_of_nat v"
    using d not_space_digit by (intro trim_id) (auto simp: is_space_def list_all_iff)
  ultimately have "classifyAssetName (CHR ''A'' # digits_of_nat v) = Some Numeric"
    using num d by (simp add: classifyAssetName_def checkAssetName.simps [of "CHR ''A'' # digits_of_nat v"] RESERVED_def)
  then show ?thesis unfolding name using num v by (simp add: issuanceBurnXcp_def assetId_def num_digits_of_nat)
qed

lemma index_of_Some: "index_of c ds = Some i \<Longrightarrow> i < length ds \<and> ds ! i = c"
  by (induction ds arbitrary: i) (auto split: if_splits)

lemma index_of_member: "c \<in> set ds \<Longrightarrow> \<exists>i. index_of c ds = Some i"
  by (induction ds) auto

definition digit68 :: "char \<Rightarrow> nat" where
  "digit68 c = the (index_of c SUBASSET_DIGITS) + 1"

lemma longname_value_Inr:
  "longname_value n s = Inr v \<longleftrightarrow> set s \<subseteq> set SUBASSET_DIGITS \<and> v = foldl (\<lambda>n c. n * 68 + digit68 c) n s"
proof (induction s arbitrary: n)
  case (Cons c s)
  show ?case
  proof (cases "index_of c SUBASSET_DIGITS")
    case None
    then have "c \<notin> set SUBASSET_DIGITS" using index_of_member by fastforce
    with None show ?thesis by simp
  next
    case (Some i)
    then have "c \<in> set SUBASSET_DIGITS" using index_of_Some [OF Some] by (metis nth_mem)
    with Some Cons.IH show ?thesis by (simp add: digit68_def)
  qed
qed auto

lemma digit68_range: "c \<in> set SUBASSET_DIGITS \<Longrightarrow> 1 \<le> digit68 c \<and> digit68 c < 68"
proof -
  assume "c \<in> set SUBASSET_DIGITS"
  then obtain i where i: "index_of c SUBASSET_DIGITS = Some i" using index_of_member by blast
  have "length SUBASSET_DIGITS = 67" by (simp add: SUBASSET_DIGITS_def)
  then show ?thesis using index_of_Some [OF i] i by (simp add: digit68_def)
qed

lemma digit68_inj: "c \<in> set SUBASSET_DIGITS \<Longrightarrow> d \<in> set SUBASSET_DIGITS \<Longrightarrow> digit68 c = digit68 d \<Longrightarrow> c = d"
  by (metis Suc_eq_plus1 Suc_inject digit68_def index_of_Some index_of_member option.sel)

text \<open>No digit is zero, so the value tells the length as well.\<close>

lemma value68_inj:
  assumes "\<forall>c \<in> set s. 1 \<le> f c \<and> f c < B" "\<forall>c \<in> set t. 1 \<le> f c \<and> f c < (B :: nat)"
    and "foldl (\<lambda>n c. n * B + f c) 0 s = foldl (\<lambda>n c. n * B + f c) 0 t"
  shows "map f s = map f t"
  using assms
proof (induction s arbitrary: t rule: rev_induct)
  case Nil
  then show ?case by (cases t rule: rev_cases) auto
next
  case (snoc c s)
  show ?case
  proof (cases t rule: rev_cases)
    case (snoc r d)
    let ?v = "\<lambda>s. foldl (\<lambda>n c. n * B + f c) 0 s"
    have e: "?v s * B + f c = ?v r * B + f d" using snoc.prems(3) snoc by simp
    have l: "f c < B" "f d < B" using snoc.prems snoc by auto
    have "(?v s * B + f c) mod B = f c" "(?v r * B + f d) mod B = f d" using l by simp_all
    moreover have "B > 0" using l by simp
    moreover have "(?v s * B + f c) div B = ?v s" "(?v r * B + f d) div B = ?v r" using l \<open>B > 0\<close> by simp_all
    ultimately have "f c = f d" "?v s = ?v r" using e by simp_all
    then show ?thesis using snoc.IH [of r] snoc.prems snoc by simp
  qed (use snoc.prems in auto)
qed

lemma base256_value: "foldl (\<lambda>v b. v * 256 + unat b) 0 (base256 n out) = foldl (\<lambda>v b. v * 256 + unat b) n (out :: bytes)"
proof (induction n out rule: base256.induct)
  case (1 n out)
  show ?case
  proof (cases "n = 0")
    case False
    then show ?thesis using 1 by (subst base256.simps) simp
  qed (simp add: base256.simps)
qed

text \<open>
  The compacted name of a subasset determines its name. Compacting succeeds exactly for names over the subasset
  alphabet, and two names with the same bytes are the same name.
\<close>

theorem compact_longname_inj:
  "((\<exists>b. compactSubassetLongname s = Inr b) \<longleftrightarrow> set s \<subseteq> set SUBASSET_DIGITS) \<and>
   (compactSubassetLongname s = compactSubassetLongname t \<and> set s \<subseteq> set SUBASSET_DIGITS \<longrightarrow> s = t)"
proof -
  have val: "(\<exists>b. compactSubassetLongname x = Inr b) \<longleftrightarrow> set x \<subseteq> set SUBASSET_DIGITS"
    "set x \<subseteq> set SUBASSET_DIGITS \<Longrightarrow> compactSubassetLongname x = Inr (base256 (foldl (\<lambda>n c. n * 68 + digit68 c) 0 x) [])" for x
    using longname_value_Inr [of 0 x] by (auto simp: compactSubassetLongname_def ebind_eq_Inr)
  have "s = t" if eq: "compactSubassetLongname s = compactSubassetLongname t" and s: "set s \<subseteq> set SUBASSET_DIGITS"
  proof -
    have t: "set t \<subseteq> set SUBASSET_DIGITS" using eq s val(1) by metis
    let ?v = "\<lambda>x. foldl (\<lambda>n c. n * 68 + digit68 c) 0 x"
    have "base256 (?v s) [] = base256 (?v t) []" using eq val(2) [OF s] val(2) [OF t] by simp
    then have "?v s = ?v t" using base256_value [of _ "[]"] by (metis foldl_Nil)
    then have "map digit68 s = map digit68 t" using value68_inj [of s digit68 68 t] s t digit68_range by blast
    moreover have "inj_on digit68 (set s \<union> set t)" using s t digit68_inj unfolding inj_on_def by blast
    ultimately show "s = t" by (rule map_inj_on)
  qed
  then show ?thesis using val(1) by blast
qed

subsection \<open>Concrete names\<close>

theorem asset_id_identifies_witness:
  "canonical_name ''A095428956661682178'' = canonical_name ''A95428956661682178'' \<and> isNumericAssetName ''A95428956661682178''"
proof -
  have "assetId ''A95428956661682178'' = Inr 95428956661682178" "assetId ''A095428956661682178'' = Inr 95428956661682178"
    by (simp_all add: assetId_def isNumericAssetName_def NUMERIC_def NUMERIC_MIN_def NUMERIC_MAX_def is_digit_def digit_val_def)
  from asset_id_identifies [OF this(2) this(1)] asset_id_identifies [OF this] show ?thesis by simp
qed

theorem leading_zero_aliases_witness:
  "assetId ''A095428956661682178'' = assetId ''A95428956661682178'' \<and> classifyAssetName ''A095428956661682178'' = Some Numeric"
proof -
  have "isNumericAssetName ''A95428956661682178''"
    by (simp add: isNumericAssetName_def NUMERIC_def NUMERIC_MIN_def NUMERIC_MAX_def is_digit_def digit_val_def)
  from leading_zero_aliases [OF this] show ?thesis by (simp add: Let_def)
qed

theorem blank_before_dot_passes_witness: "checkAssetName ''RAREPEPE .x'' = NameOk Subasset (Some ''RAREPEPE '')"
proof -
  have "NAMED ''RAREPEPE''" "SUBASSET_CHILD ''x''" "\<not> is_space (last ''x'')" "''RAREPEPE'' \<notin> set RESERVED"
    by (simp_all add: NAMED_def upper_letter_def SUBASSET_CHILD_def is_space_def RESERVED_def)
  from blank_before_dot_passes [OF this(1,2) _ this(3,4)] show ?thesis by simp
qed

theorem compact_longname_inj_witness: "compactSubassetLongname ''a'' \<noteq> compactSubassetLongname ''b''"
proof -
  have "set ''a'' \<subseteq> set SUBASSET_DIGITS" by (simp add: SUBASSET_DIGITS_def)
  with compact_longname_inj [of "''a''" "''b''"] show ?thesis by auto
qed

end
