(* ===== verification/MintFees.thy ===== *)
theory MintFees imports MintNumeric MintEnvelope MintAssets begin

text \<open>
  \<open>estimate.ts\<close>, \<open>fairminter.ts\<close> and \<open>xcp69.ts\<close> of \<open>counters-mint\<close>: fees on doubles, the parameters of a launch, and the
  size and price of a mint before Counterparty Core is asked for it.
\<close>

subsection \<open>Doubles\<close>

text \<open>
  A finite double: its sign, and a value of \<open>m * 2 ^ k\<close>. Multiplication by an integer rounds the product to 53 bits, ties to
  even; results stay far from where exponents overflow.
\<close>

datatype js_float = JsFloat bool nat int

fun bit_len :: "nat \<Rightarrow> nat" where
  "bit_len n = (if n = 0 then 0 else Suc (bit_len (n div 2)))"

declare bit_len.simps [simp del]

definition round_shift :: "nat \<Rightarrow> nat \<Rightarrow> nat" where
  "round_shift n s =
     (let q = n div 2 ^ s; r = 2 * (n mod 2 ^ s) in if r < 2 ^ s \<or> (r = 2 ^ s \<and> even q) then q else q + 1)"

text \<open>\<open>v * x\<close> for an integer \<open>v\<close>, as a mantissa and an exponent.\<close>

definition float_times :: "nat \<Rightarrow> nat \<Rightarrow> int \<Rightarrow> nat \<times> int" where
  "float_times v m k =
     (let n = v * m; s = bit_len n - 53 in if s = 0 then (n, k) else (round_shift n s, k + int s))"

definition ceil_dyadic :: "nat \<times> int \<Rightarrow> nat" where
  "ceil_dyadic x =
     (case x of (q, e) \<Rightarrow> if 0 \<le> e then q * 2 ^ nat e else (q + 2 ^ nat (- e) - 1) div 2 ^ nat (- e))"

text \<open>\<open>Math.round\<close> of such a value with a sign: the integer below it and a half.\<close>

definition round_dyadic :: "bool \<Rightarrow> nat \<times> int \<Rightarrow> int" where
  "round_dyadic neg x =
     (case x of (q, e) \<Rightarrow>
        let v = (if neg then - int q else int q) in
        if 0 \<le> e then v * 2 ^ nat e else (v + 2 ^ (nat (- e) - 1)) div 2 ^ nat (- e))"

text \<open>A fee rate the code accepts: \<open>rate > 0\<close> and finite. \<open>None\<close> stands for \<open>NaN\<close> and the infinities.\<close>

definition valid_rate :: "js_float option \<Rightarrow> bool" where
  "valid_rate r = (case r of Some (JsFloat neg m k) \<Rightarrow> \<not> neg \<and> 0 < m | None \<Rightarrow> False)"

definition STANDARD_WITNESS_LIMIT_WU :: nat where "STANDARD_WITNESS_LIMIT_WU = 400000"

definition vbytesOf :: "nat \<Rightarrow> nat" where "vbytesOf weight = (weight + 3) div 4"

definition feeFor :: "nat \<Rightarrow> js_float option \<Rightarrow> nat" where
  "feeFor vbytes rate = (case rate of Some (JsFloat neg m k) \<Rightarrow> ceil_dyadic (float_times vbytes m k) | None \<Rightarrow> 0)"

subsection \<open>Launch parameters\<close>

definition FAIRMINT_POOL_ACTIVATION_BLOCK :: nat where "FAIRMINT_POOL_ACTIVATION_BLOCK = 961100"

record FairminterParams =
  fpLotPrice :: int
  fpLotSize :: int
  fpHardCap :: int
  fpSoftCap :: int
  fpPoolQuantity :: int
  fpMaxMintPerTx :: int
  fpMaxMintPerAddress :: int
  fpPremintQuantity :: int
  fpMintedAssetCommission :: js_float
  fpBurnPayment :: bool
  fpLockQuantity :: bool
  fpLockDescription :: bool
  fpDivisible :: bool
  fpStartBlock :: int
  fpEndBlock :: int
  fpSoftCapDeadlineBlock :: int
  fpLpAsset :: "string option"

datatype FairminterProblem = LotSizeNotPositive | NegativeQuantity | SoftCapAboveHardCap | NoDeadline | DeadlineBeforeStart
  | PoolWithoutSoftCap | PoolAboveHardCap | PoolBurnsPayment | CommissionOutOfRange | EndBeforeStart

text \<open>Whether a double is below 0 or at least 1.\<close>

definition float_out_of_unit :: "js_float \<Rightarrow> bool" where
  "float_out_of_unit x =
     (case x of JsFloat neg m k \<Rightarrow> if neg then 0 < m else if 0 \<le> k then 0 < m else 2 ^ nat (- k) \<le> m)"

definition fairminterProblems :: "FairminterParams \<Rightarrow> FairminterProblem list" where
  "fairminterProblems p =
     (if fpLotSize p \<le> 0 then [LotSizeNotPositive] else []) @
     (if fpHardCap p < 0 \<or> fpSoftCap p < 0 \<or> fpPoolQuantity p < 0 \<or> fpPremintQuantity p < 0 then [NegativeQuantity] else []) @
     (if fpSoftCap p > 0 \<and> fpHardCap p > 0 \<and> fpSoftCap p > fpHardCap p then [SoftCapAboveHardCap] else []) @
     (if fpSoftCap p > 0 \<and> fpSoftCapDeadlineBlock p \<le> 0 then [NoDeadline] else []) @
     (if fpSoftCap p > 0 \<and> fpStartBlock p > 0 \<and> fpSoftCapDeadlineBlock p \<le> fpStartBlock p then [DeadlineBeforeStart] else []) @
     (if fpPoolQuantity p > 0 \<and> fpSoftCap p \<le> 0 then [PoolWithoutSoftCap] else []) @
     (if fpPoolQuantity p > 0 \<and> fpHardCap p > 0 \<and> fpPoolQuantity p + fpSoftCap p > fpHardCap p then [PoolAboveHardCap] else []) @
     (if fpPoolQuantity p > 0 \<and> fpBurnPayment p then [PoolBurnsPayment] else []) @
     (if float_out_of_unit (fpMintedAssetCommission p) then [CommissionOutOfRange] else []) @
     (if fpEndBlock p > 0 \<and> fpStartBlock p > 0 \<and> fpEndBlock p \<le> fpStartBlock p then [EndBeforeStart] else [])"

definition bool_text :: "bool \<Rightarrow> string" where "bool_text b = (if b then ''true'' else ''false'')"

text \<open>The compose parameters in their order; \<open>text_of\<close> is \<open>String\<close> on a double.\<close>

definition fairminterComposeParams :: "(js_float \<Rightarrow> string) \<Rightarrow> FairminterParams \<Rightarrow> string \<Rightarrow> (string \<times> string) list" where
  "fairminterComposeParams text_of p asset =
     [(''asset'', asset), (''lot_price'', integer_text (fpLotPrice p)), (''lot_size'', integer_text (fpLotSize p)),
      (''hard_cap'', integer_text (fpHardCap p)), (''soft_cap'', integer_text (fpSoftCap p)),
      (''pool_quantity'', integer_text (fpPoolQuantity p)), (''max_mint_per_tx'', integer_text (fpMaxMintPerTx p)),
      (''max_mint_per_address'', integer_text (fpMaxMintPerAddress p)),
      (''premint_quantity'', integer_text (fpPremintQuantity p)),
      (''minted_asset_commission'', text_of (fpMintedAssetCommission p)), (''burn_payment'', bool_text (fpBurnPayment p)),
      (''lock_quantity'', bool_text (fpLockQuantity p)), (''lock_description'', bool_text (fpLockDescription p)),
      (''divisible'', bool_text (fpDivisible p)), (''start_block'', integer_text (fpStartBlock p)),
      (''end_block'', integer_text (fpEndBlock p)),
      (''soft_cap_deadline_block'', integer_text (fpSoftCapDeadlineBlock p))] @
     (case fpLpAsset p of None \<Rightarrow> [] | Some a \<Rightarrow> if a = [] then [] else [(''lp_asset'', a)])"

text \<open>\<open>BigInt(Math.round(commission * 1e8))\<close>.\<close>

definition scaled_commission :: "js_float \<Rightarrow> int" where
  "scaled_commission x = (case x of JsFloat neg m k \<Rightarrow> round_dyadic neg (float_times 100000000 m k))"

definition fairminterMessageFields :: "FairminterParams \<Rightarrow> int \<Rightarrow> int \<Rightarrow> CborValue list" where
  "fairminterMessageFields p assetIdValue assetParentId =
     [CBigint assetIdValue, CBigint assetParentId, CBigint (fpLotPrice p), CBigint (fpLotSize p), CBigint (fpMaxMintPerTx p),
      CBigint (fpMaxMintPerAddress p), CBigint (fpHardCap p), CBigint (fpPremintQuantity p), CNumber (fpStartBlock p),
      CNumber (fpEndBlock p), CBigint (fpSoftCap p), CNumber (fpSoftCapDeadlineBlock p),
      CBigint (scaled_commission (fpMintedAssetCommission p)), CBoolean (fpBurnPayment p), CBoolean (fpLockDescription p),
      CBoolean (fpLockQuantity p), CBoolean (fpDivisible p)]"

subsection \<open>XCP-69\<close>

definition XCP69_WINDOW :: int where "XCP69_WINDOW = 1000"
definition XCP69_MIN_START_LEAD :: int where "XCP69_MIN_START_LEAD = 1"
definition XCP69_DEFAULT_START_LEAD :: int where "XCP69_DEFAULT_START_LEAD = 3"

text \<open>\<open>XCP69_TEMPLATE\<close>, unscheduled.\<close>

definition XCP69_TEMPLATE :: FairminterParams where
  "XCP69_TEMPLATE = \<lparr>fpLotPrice = 1000000, fpLotSize = 100000000000, fpHardCap = 10000000000000000,
     fpSoftCap = 6900000000000000, fpPoolQuantity = 3100000000000000, fpMaxMintPerTx = 100000000000000,
     fpMaxMintPerAddress = 100000000000000, fpPremintQuantity = 0, fpMintedAssetCommission = JsFloat False 0 0,
     fpBurnPayment = False, fpLockQuantity = True, fpLockDescription = True, fpDivisible = True,
     fpStartBlock = 0, fpEndBlock = 0, fpSoftCapDeadlineBlock = XCP69_WINDOW, fpLpAsset = None\<rparr>"

definition xcp69Schedule :: "int \<Rightarrow> int option \<Rightarrow> int \<times> int" where
  "xcp69Schedule tip lead =
     (let start = tip + max XCP69_MIN_START_LEAD (case lead of None \<Rightarrow> XCP69_DEFAULT_START_LEAD | Some l \<Rightarrow> l)
      in (start, start + XCP69_WINDOW))"

definition xcp69Params :: "int \<Rightarrow> string option \<Rightarrow> FairminterParams" where
  "xcp69Params startBlock lpAsset = XCP69_TEMPLATE\<lparr>fpStartBlock := startBlock,
     fpSoftCapDeadlineBlock := startBlock + XCP69_WINDOW, fpLpAsset := lpAsset\<rparr>"

definition XCP69 :: FairminterParams where "XCP69 = xcp69Params 0 None"

definition xcp69ComposeParams :: "(js_float \<Rightarrow> string) \<Rightarrow> string \<Rightarrow> int \<Rightarrow> string \<Rightarrow> (string \<times> string) list" where
  "xcp69ComposeParams text_of asset startBlock lpAsset =
     fairminterComposeParams text_of (xcp69Params startBlock (Some lpAsset)) asset"

text \<open>
  A fairminter as the node reports it: quantities as they were parsed. Of a field that may be absent, \<open>None\<close> stands for
  \<open>undefined\<close>, and of one that may also be \<open>null\<close>, \<open>Some None\<close> for \<open>null\<close>.
\<close>

record Xcp69Shape =
  xsPrice :: raw_like
  xsQuantityByPrice :: raw_like
  xsHardCap :: raw_like
  xsSoftCap :: raw_like
  xsPoolQuantity :: "raw_like option"
  xsPremintQuantity :: raw_like
  xsMaxMintPerAddress :: "raw_like option"
  xsMaxMintPerTx :: "raw_like option option"
  xsCommission :: "raw_like option option"
  xsDivisible :: bool
  xsLockQuantity :: "bool option"
  xsLockDescription :: "bool option"
  xsBurnPayment :: "bool option"
  xsStartBlock :: "int option"
  xsSoftCapDeadlineBlock :: "int option"
  xsBlockIndex :: "int option"

definition matchesXcp69Template :: "Xcp69Shape \<Rightarrow> bool" where
  "matchesXcp69Template fm \<longleftrightarrow>
     big (Some (xsPrice fm)) = fpLotPrice XCP69_TEMPLATE \<and>
     big (Some (xsQuantityByPrice fm)) = fpLotSize XCP69_TEMPLATE \<and>
     big (Some (xsHardCap fm)) = fpHardCap XCP69_TEMPLATE \<and>
     big (Some (xsSoftCap fm)) = fpSoftCap XCP69_TEMPLATE \<and>
     big (xsPoolQuantity fm) = fpPoolQuantity XCP69_TEMPLATE \<and>
     big (Some (xsPremintQuantity fm)) = fpPremintQuantity XCP69_TEMPLATE \<and>
     big (xsMaxMintPerAddress fm) = fpMaxMintPerAddress XCP69_TEMPLATE \<and>
     xsDivisible fm = fpDivisible XCP69_TEMPLATE"

datatype Xcp69Problem = XTemplate | XMaxMintPerTx | XLockQuantity | XLockDescription | XBurnPayment | XCommission | XWindow
  | XStartBlock

definition isXcp69Conformant :: "Xcp69Shape \<Rightarrow> bool \<times> Xcp69Problem list" where
  "isXcp69Conformant fm =
     (let problems =
        (if \<not> matchesXcp69Template fm then [XTemplate] else []) @
        (case xsMaxMintPerTx fm of None \<Rightarrow> [] | Some v \<Rightarrow> if big v \<noteq> fpMaxMintPerTx XCP69_TEMPLATE then [XMaxMintPerTx] else []) @
        (if xsLockQuantity fm = Some False then [XLockQuantity] else []) @
        (if xsLockDescription fm = Some False then [XLockDescription] else []) @
        (if xsBurnPayment fm = Some True then [XBurnPayment] else []) @
        (case xsCommission fm of None \<Rightarrow> [] | Some v \<Rightarrow> if big v \<noteq> 0 then [XCommission] else []) @
        (case (xsStartBlock fm, xsSoftCapDeadlineBlock fm) of
           (Some s, Some d) \<Rightarrow> if d - s \<noteq> XCP69_WINDOW then [XWindow] else [] | _ \<Rightarrow> []) @
        (case (xsStartBlock fm, xsBlockIndex fm) of
           (Some s, Some b) \<Rightarrow> if \<not> s > b then [XStartBlock] else [] | _ \<Rightarrow> [])
      in (problems = [], problems))"

subsection \<open>Estimating a mint\<close>

datatype MintKind = CounterMint | ReinscriptionMint | FairminterMint

definition CNTRPRTY_OP_RETURN_SCRIPT_LEN :: nat where "CNTRPRTY_OP_RETURN_SCRIPT_LEN = 10"
definition MINT_P2TR_SCRIPT_LEN :: nat where "MINT_P2TR_SCRIPT_LEN = 34"
definition REGULAR_DUST :: nat where "REGULAR_DUST = 546"
definition SEGWIT_DUST :: nat where "SEGWIT_DUST = 330"

record EstimateMintArgs =
  emBytes :: int
  emFeeRate :: "js_float option"
  emKind :: MintKind
  emAssetName :: "string option"
  emHasOrdWrapper :: bool
  emMimeType :: "js_string option"
  emQuantity :: "int option"
  emFairminter :: "FairminterParams option"

record MintEstimate =
  meRevealWeight :: nat
  meRevealVsize :: nat
  meRevealFee :: int
  meCommitValue :: nat
  meCoreCommitValue :: nat
  meRevealOutputs :: nat
  meXcpBurn :: nat
  meStandardRelay :: bool
  meEnvelopeBytes :: nat

text \<open>A name error as an \<open>Error\<close>, and \<open>args.assetName\<close> as the code tests it.\<close>

definition name_call :: "string + 'a \<Rightarrow> insc_error + 'a" where
  "name_call m = (case m of Inl e \<Rightarrow> Inl (Error e) | Inr x \<Rightarrow> Inr x)"

definition given_name :: "EstimateMintArgs \<Rightarrow> string option" where
  "given_name args = (case emAssetName args of None \<Rightarrow> None | Some n \<Rightarrow> if n = [] then None else Some n)"

definition messageFields :: "EstimateMintArgs \<Rightarrow> insc_error + nat \<times> CborValue list" where
  "messageFields args =
     (let name = the (given_name args);
          checked = (case given_name args of None \<Rightarrow> None
                     | Some n \<Rightarrow> (case checkAssetName n of NameOk k p \<Rightarrow> Some (k, p) | NameBad _ \<Rightarrow> None)) in
      ebind (case checked of
               Some (k, _) \<Rightarrow> if k \<noteq> Subasset then name_call (assetId name) else Inr (2 ^ 64 - 1)
             | None \<Rightarrow> Inr (2 ^ 64 - 1)) (\<lambda>assetIdValue.
      if emKind args = FairminterMint then
        let p = (case emFairminter args of None \<Rightarrow> xcp69Params 1000000 None | Some p \<Rightarrow> p) in
        ebind (case checked of Some (Subasset, Some parent) \<Rightarrow> name_call (assetId parent) | _ \<Rightarrow> Inr 0) (\<lambda>parentId.
        Inr (FAIRMINTER, fairminterMessageFields p (int assetIdValue) (int parentId)))
      else
        let quantity = (if emKind args = ReinscriptionMint then 0 else case emQuantity args of None \<Rightarrow> 0 | Some q \<Rightarrow> q) in
        if (case checked of Some (k, _) \<Rightarrow> k = Subasset | None \<Rightarrow> False) \<and> emKind args = CounterMint then
          ebind (name_call (compactSubassetLongname (after_dot name))) (\<lambda>compact.
          Inr (LR_SUBASSET, [CBigint (2 ^ 64 - 1), CBigint quantity, CNumber 1, CNumber 0, CNumber 0,
            CNumber (int (length compact)), CByteString compact]))
        else Inr (LR_ISSUANCE, [CBigint (int assetIdValue), CBigint quantity, CBoolean True, CBoolean False, CBoolean False])))"

definition revealWeightFor :: "nat \<Rightarrow> nat list \<Rightarrow> nat \<Rightarrow> nat" where
  "revealWeightFor envelopeBytes outputScriptLens signatureBytes =
     (let base = foldl (\<lambda>b len. b + (8 + compactSizeLen len + len)) (4 + 1 + 41 + 1 + 4) outputScriptLens;
          witness = 2 + 1 + (1 + signatureBytes) + compactSizeLen envelopeBytes + envelopeBytes + (1 + 33)
      in base * 4 + witness)"

definition estimateMint :: "('tx, 'z) btc_lib_scheme \<Rightarrow> EstimateMintArgs \<Rightarrow> insc_error + MintEstimate" where
  "estimateMint L args =
     (if emBytes args < 0 then Inl (Error ''bytes must be a non-negative integer'')
      else if \<not> valid_rate (emFeeRate args) then Inl (Error ''fee rate must be a positive number'')
      else
        ebind (messageFields args) (\<lambda>(typeId, fields).
        ebind (buildCoreEnvelope L \<lparr>caTypeId = typeId, caFields = fields,
            caMimeType = (case emMimeType args of None \<Rightarrow> js_literal ''text/plain'' | Some m \<Rightarrow> m),
            caContent = replicate (nat (emBytes args)) 0, caWrapOrd = emHasOrdWrapper args, caLeafKey = None\<rparr>) (\<lambda>leaf.
        let outputs = CNTRPRTY_OP_RETURN_SCRIPT_LEN # (if emHasOrdWrapper args then [MINT_P2TR_SCRIPT_LEN] else []);
            revealOutputs = (if emHasOrdWrapper args then REGULAR_DUST else 0);
            coreWeight = revealWeightFor (length leaf) outputs 64;
            revealWeight = coreWeight + 1;
            coreCommitValue = max (feeFor (vbytesOf coreWeight) (emFeeRate args) + revealOutputs) SEGWIT_DUST;
            commitValue = max coreCommitValue (feeFor (vbytesOf revealWeight) (emFeeRate args) + revealOutputs) in
        ebind (if emKind args = ReinscriptionMint \<or> given_name args = None \<or> classifyAssetName (the (given_name args)) = None
               then Inr 0 else name_call (issuanceBurnXcp (the (given_name args)))) (\<lambda>xcpBurn.
        Inr \<lparr>meRevealWeight = revealWeight, meRevealVsize = vbytesOf revealWeight,
             meRevealFee = int commitValue - int revealOutputs, meCommitValue = commitValue,
             meCoreCommitValue = coreCommitValue, meRevealOutputs = revealOutputs, meXcpBurn = xcpBurn,
             meStandardRelay = (revealWeight \<le> STANDARD_WITNESS_LIMIT_WU), meEnvelopeBytes = length leaf\<rparr>))))"

subsection \<open>Fees follow the rate\<close>

lemma bit_len_0 [simp]: "bit_len 0 = 0"
  by (subst bit_len.simps) simp

lemma bit_len_bounds: "0 < n \<Longrightarrow> 2 ^ (bit_len n - 1) \<le> n \<and> n < 2 ^ bit_len n \<and> 0 < bit_len n"
proof (induction n rule: bit_len.induct)
  case (1 n)
  show ?case
  proof (cases "n < 2")
    case True
    then have "n = 1" using 1(2) by simp
    then show ?thesis by (simp add: bit_len.simps)
  next
    case False
    then have "2 ^ (bit_len (n div 2) - 1) \<le> n div 2 \<and> n div 2 < 2 ^ bit_len (n div 2) \<and> 0 < bit_len (n div 2)"
      using 1 by simp
    moreover obtain b where b: "bit_len (n div 2) = Suc b" using calculation by (cases "bit_len (n div 2)") auto
    moreover have "bit_len n = Suc (bit_len (n div 2))" using False by (subst bit_len.simps) simp
    ultimately show ?thesis by (auto simp: b)
  qed
qed

lemma round_shift_close:
  assumes "0 < s"
  shows "2 * (round_shift n s * 2 ^ s) \<le> 2 * n + 2 ^ s" "2 * n \<le> 2 * (round_shift n s * 2 ^ s) + 2 ^ s"
proof -
  have n: "n = n div 2 ^ s * 2 ^ s + n mod 2 ^ s" by (simp only: div_mult_mod_eq)
  have r: "n mod 2 ^ s < 2 ^ s" by simp
  have "round_shift n s = n div 2 ^ s \<and> 2 * (n mod 2 ^ s) \<le> 2 ^ s \<or> round_shift n s = n div 2 ^ s + 1 \<and> 2 ^ s \<le> 2 * (n mod 2 ^ s)"
    by (auto simp: round_shift_def Let_def)
  then have "2 * (round_shift n s * 2 ^ s) \<le> 2 * n + 2 ^ s \<and> 2 * n \<le> 2 * (round_shift n s * 2 ^ s) + 2 ^ s"
  proof (elim disjE conjE)
    assume a: "round_shift n s = n div 2 ^ s" "2 * (n mod 2 ^ s) \<le> 2 ^ s"
    then have "round_shift n s * 2 ^ s + n mod 2 ^ s = n" using n by simp
    then show ?thesis using a(2) by linarith
  next
    assume a: "round_shift n s = n div 2 ^ s + 1" "2 ^ s \<le> 2 * (n mod 2 ^ s)"
    then have "round_shift n s * 2 ^ s = n div 2 ^ s * 2 ^ s + 2 ^ s" by simp
    then show ?thesis using n r a(2) by linarith
  qed
  then show "2 * (round_shift n s * 2 ^ s) \<le> 2 * n + 2 ^ s" "2 * n \<le> 2 * (round_shift n s * 2 ^ s) + 2 ^ s" by simp_all
qed

definition dyadic :: "nat \<times> int \<Rightarrow> rat" where "dyadic x = (case x of (q, e) \<Rightarrow> of_nat q * 2 powi e)"

lemma ceil_dyadic_eq: "int (ceil_dyadic x) = \<lceil>dyadic x\<rceil>"
proof -
  obtain q e where x: "x = (q, e)" by (cases x)
  show ?thesis
  proof (cases "0 \<le> e")
    case True
    obtain k where e: "e = int k" using True by (cases e) auto
    have "dyadic x = of_nat (q * 2 ^ k)" by (simp add: x e dyadic_def)
    moreover have "ceil_dyadic x = q * 2 ^ k" by (simp add: x e ceil_dyadic_def)
    ultimately show ?thesis by (simp only: ceiling_of_nat)
  next
    case False
    define d where "d = nat (- e)"
    have ed: "e = - int d" using False by (simp add: d_def)
    have "dyadic x = rat_of_int (int q) / rat_of_int (2 ^ d)" by (simp add: x ed dyadic_def power_int_minus divide_inverse)
    moreover have "(int q + 2 ^ d - 1) div 2 ^ d = \<lceil>rat_of_int (int q) / rat_of_int (2 ^ d)\<rceil>" by (rule ceil_div) simp
    moreover have "int (q + 2 ^ d - 1) = int q + 2 ^ d - 1"
    proof -
      have "(1 :: nat) \<le> 2 ^ d" by simp
      then have "1 \<le> q + 2 ^ d" by linarith
      then show ?thesis by (simp only: of_nat_diff of_nat_add of_nat_power of_nat_numeral of_nat_1)
    qed
    moreover have "ceil_dyadic x = (q + 2 ^ d - 1) div 2 ^ d" using False by (simp add: x ceil_dyadic_def d_def)
    ultimately show ?thesis by (simp only: zdiv_int of_nat_power of_nat_numeral)
  qed
qed

lemma float_times_close:
  fixes m :: nat and k :: int
  defines "r \<equiv> dyadic (m, k)"
  shows "of_nat v * r * (1 - 1 / 2 ^ 53) \<le> dyadic (float_times v m k)" "dyadic (float_times v m k) \<le> of_nat v * r * (1 + 1 / 2 ^ 53)"
    "v * m < 2 ^ 53 \<Longrightarrow> dyadic (float_times v m k) = of_nat v * r"
proof -
  define n where "n = v * m"
  define s where "s = bit_len n - 53"
  have pk: "(0 :: rat) < 2 powi k" by simp
  have vr: "of_nat v * r = of_nat n * 2 powi k" by (simp add: r_def dyadic_def n_def)
  have exact: "dyadic (float_times v m k) = of_nat v * r" if "s = 0"
  proof -
    have "float_times v m k = (n, k)" using that by (simp add: float_times_def n_def s_def Let_def)
    then show ?thesis unfolding vr by (simp add: dyadic_def)
  qed
  show "dyadic (float_times v m k) = of_nat v * r" if "v * m < 2 ^ 53"
  proof (rule exact)
    have "bit_len n \<le> 53"
    proof (cases "n = 0")
      case False
      then have "2 ^ (bit_len n - 1) \<le> n" using bit_len_bounds [of n] by simp
      then have "(2 :: nat) ^ (bit_len n - 1) < 2 ^ 53" using that by (simp add: n_def)
      then have "bit_len n - 1 < 53" by (rule power_less_imp_less_exp [rotated]) simp
      then show ?thesis by linarith
    qed simp
    then show "s = 0" by (simp add: s_def)
  qed
  have "of_nat v * r * (1 - 1 / 2 ^ 53) \<le> dyadic (float_times v m k) \<and> dyadic (float_times v m k) \<le> of_nat v * r * (1 + 1 / 2 ^ 53)"
  proof (cases "s = 0")
    case True
    have "0 \<le> of_nat v * r" using pk by (simp add: vr)
    then show ?thesis using exact [OF True] by (simp add: algebra_simps)
  next
    case False
    then have n0: "0 < n" by (cases "n = 0") (simp_all add: s_def)
    have "bit_len n - 1 = 52 + s" using False by (simp add: s_def)
    then have big: "2 ^ (52 + s) \<le> n" using bit_len_bounds [OF n0] by simp
    define q where "q = round_shift n s * 2 ^ s"
    have q: "2 * q \<le> 2 * n + 2 ^ s" "2 * n \<le> 2 * q + 2 ^ s" using round_shift_close [of s n] False by (simp_all add: q_def)
    have "float_times v m k = (round_shift n s, k + int s)" using False by (simp add: float_times_def n_def s_def Let_def)
    then have d: "dyadic (float_times v m k) = of_nat q * 2 powi k" by (simp add: dyadic_def q_def power_int_add)
    have "(2 :: rat) ^ 52 * 2 ^ s \<le> of_nat n" using big by (metis of_nat_le_iff of_nat_numeral of_nat_power power_add)
    then have e: "(2 :: rat) ^ s \<le> 2 * of_nat n / 2 ^ 53" by (simp add: field_simps)
    have "2 * rat_of_nat q \<le> 2 * of_nat n + 2 ^ s" "2 * rat_of_nat n \<le> 2 * of_nat q + 2 ^ s"
      using q by (metis (mono_tags) of_nat_add of_nat_le_iff of_nat_mult of_nat_numeral of_nat_power)+
    then have "rat_of_nat n * (1 - 1 / 2 ^ 53) \<le> of_nat q" "rat_of_nat q \<le> of_nat n * (1 + 1 / 2 ^ 53)"
      using e by (simp_all add: algebra_simps)
    then have "rat_of_nat n * (1 - 1 / 2 ^ 53) * 2 powi k \<le> of_nat q * 2 powi k" "rat_of_nat q * 2 powi k \<le> of_nat n * (1 + 1 / 2 ^ 53) * 2 powi k"
      using pk by (intro mult_right_mono; simp)+
    then show ?thesis unfolding d vr by (simp only: mult.assoc mult.commute mult.left_commute)
  qed
  then show "of_nat v * r * (1 - 1 / 2 ^ 53) \<le> dyadic (float_times v m k)" "dyadic (float_times v m k) \<le> of_nat v * r * (1 + 1 / 2 ^ 53)"
    by simp_all
qed

text \<open>
  A fee is the rate times the size, up to the rounding of one multiplication. For every finite rate above zero, the
  fee is at least the exact product less one part in 2 ^ 53 and less than a satoshi above the product plus one such part;
  when the product fits into 53 bits it is the exact ceiling.
\<close>

theorem fee_follows_rate:
  "of_nat v * dyadic (m, k) * (1 - 1 / 2 ^ 53) \<le> of_nat (feeFor v (Some (JsFloat False m k))) \<and>
   of_nat (feeFor v (Some (JsFloat False m k))) < of_nat v * dyadic (m, k) * (1 + 1 / 2 ^ 53) + 1 \<and>
   (v * m < 2 ^ 53 \<longrightarrow> int (feeFor v (Some (JsFloat False m k))) = \<lceil>of_nat v * dyadic (m, k)\<rceil>)"
proof (intro conjI impI)
  let ?x = "float_times v m k"
  have f: "int (feeFor v (Some (JsFloat False m k))) = \<lceil>dyadic ?x\<rceil>" by (simp add: feeFor_def ceil_dyadic_eq)
  then have c: "rat_of_nat (feeFor v (Some (JsFloat False m k))) = of_int \<lceil>dyadic ?x\<rceil>" by (metis of_int_of_nat_eq)
  show "of_nat v * dyadic (m, k) * (1 - 1 / 2 ^ 53) \<le> of_nat (feeFor v (Some (JsFloat False m k)))"
    using float_times_close(1) [of v m k] le_of_int_ceiling [of "dyadic ?x"] unfolding c by linarith
  show "of_nat (feeFor v (Some (JsFloat False m k))) < of_nat v * dyadic (m, k) * (1 + 1 / 2 ^ 53) + 1"
    using float_times_close(2) [of v m k] ceiling_correct [of "dyadic ?x"] unfolding c by linarith
  show "int (feeFor v (Some (JsFloat False m k))) = \<lceil>of_nat v * dyadic (m, k)\<rceil>" if "v * m < 2 ^ 53"
    using f float_times_close(3) [OF that, of k] by simp
qed

text \<open>At 1.5 sat/vB, 101 virtual bytes cost 152 sat.\<close>

theorem fee_follows_rate_witness: "feeFor 101 (Some (JsFloat False 3 (- 1))) = 152"
proof -
  have "\<lceil>of_nat 101 * dyadic (3, - 1)\<rceil> = 152" by (simp add: dyadic_def power_int_def ceiling_unique)
  then show ?thesis using fee_follows_rate [of 101 3 "- 1"] by simp
qed

subsection \<open>The estimate is the reveal\<close>

text \<open>What is rebuilt for the content, once it is there, and the reveal that spends it.\<close>

definition mint_args :: "EstimateMintArgs \<Rightarrow> nat \<Rightarrow> CborValue list \<Rightarrow> bytes \<Rightarrow> bytes \<Rightarrow> CoreEnvelopeArgs" where
  "mint_args args typeId fs content key = \<lparr>caTypeId = typeId, caFields = fs,
     caMimeType = (case emMimeType args of None \<Rightarrow> js_literal ''text/plain'' | Some m \<Rightarrow> m),
     caContent = content, caWrapOrd = emHasOrdWrapper args, caLeafKey = Some key\<rparr>"

definition mint_reveal :: "bool \<Rightarrow> TxIn \<Rightarrow> bytes \<Rightarrow> bytes \<Rightarrow> bytes list \<Rightarrow> WitnessTx" where
  "mint_reveal wrap commitIn marker dest stack =
     \<lparr>wtVersion = 2, wtIns = [commitIn], wtOuts = (0, marker) # (if wrap then [(REGULAR_DUST, dest)] else []),
      wtWitness = [stack], wtLockTime = 0\<rparr>"

lemma chunks_short: "data \<noteq> [] \<Longrightarrow> length data \<le> 520 \<Longrightarrow> chunks data = [data]"
  by (simp add: chunks_eq chunked_step CHUNK_def MAX_SCRIPT_ELEMENT_SIZE_def)

lemma estimate_parts:
  assumes "estimateMint L args = Inr e" and "messageFields args = Inr (typeId, fs)"
  obtains leaf burn where "buildCoreEnvelope L (mint_args args typeId fs (replicate (nat (emBytes args)) 0) key\<lparr>caLeafKey := None\<rparr>) = Inr leaf"
    "e = (let outputs = CNTRPRTY_OP_RETURN_SCRIPT_LEN # (if emHasOrdWrapper args then [MINT_P2TR_SCRIPT_LEN] else []);
            revealOutputs = (if emHasOrdWrapper args then REGULAR_DUST else 0);
            coreWeight = revealWeightFor (length leaf) outputs 64;
            revealWeight = coreWeight + 1;
            coreCommitValue = max (feeFor (vbytesOf coreWeight) (emFeeRate args) + revealOutputs) SEGWIT_DUST;
            commitValue = max coreCommitValue (feeFor (vbytesOf revealWeight) (emFeeRate args) + revealOutputs) in
          \<lparr>meRevealWeight = revealWeight, meRevealVsize = vbytesOf revealWeight,
             meRevealFee = int commitValue - int revealOutputs, meCommitValue = commitValue,
             meCoreCommitValue = coreCommitValue, meRevealOutputs = revealOutputs, meXcpBurn = burn,
             meStandardRelay = (revealWeight \<le> STANDARD_WITNESS_LIMIT_WU), meEnvelopeBytes = length leaf\<rparr>)"
proof -
  have c: "\<not> emBytes args < 0" "valid_rate (emFeeRate args)"
    using assms(1) unfolding estimateMint_def by (metis Inl_Inr_False)+
  show thesis
    using assms(1) that unfolding estimateMint_def if_not_P [OF c(1)] assms(2) ebind_Inr prod.case
    by (simp only: c(2) not_True_eq_False if_False ebind_eq_Inr mint_args_def CoreEnvelopeArgs.simps Let_def prod.case sum.inject) blast
qed

lemma revealWeightFor_eq:
  assumes "commit_in_ok i" "length marker = 10" "length dest = 34" "length sig \<le> 65" "length cb = 33" "length leaf \<le> 0xffffffff"
  shows "revealWeightFor (length leaf) (CNTRPRTY_OP_RETURN_SCRIPT_LEN # (if wrap then [MINT_P2TR_SCRIPT_LEN] else [])) (length sig) =
    bip141_weight (mint_reveal wrap i marker dest [sig, leaf, cb])"
proof -
  have cs: "compactSizeLen n = 1" if "n < 253" for n using that by (simp add: compactSizeLen_def)
  have st: "length (stack_bytes [sig, leaf, cb]) = 1 + (1 + length sig) + (compactSizeLen (length leaf) + length leaf) + 34"
    using length_3_witness [OF refl assms(4,6,5)] assms(4) by (simp add: cs CONTROL_BLOCK_def)
  show ?thesis
    using assms by (simp add: revealWeightFor_def mint_reveal_def bip141_weight_split legacy_bytes_def body_bytes_def length_count_bytes
        length_in_bytes length_out_bytes st cs outputSize_def INPUT_BASE_def CNTRPRTY_OP_RETURN_SCRIPT_LEN_def MINT_P2TR_SCRIPT_LEN_def)
qed

text \<open>
  C28: the estimate made before the compose is the weight of the reveal made after it. Whatever content of the given length
  and whatever key go into the envelope, the signed reveal that spends it weighs what was estimated; and the commit value
  pays the reveal's outputs and its fee at the rate, and is not dust.
\<close>

theorem estimate_is_exact:
  assumes "estimateMint L args = Inr e" and "messageFields args = Inr (typeId, fs)"
    and "length content = nat (emBytes args)" and "length key = 32"
    and "commit_in_ok i" "length marker = 10" "length dest = 34" "length sig = 65" "length cb = 33" "meEnvelopeBytes e \<le> 0xffffffff"
  shows "\<exists>leaf. buildCoreEnvelope L' (mint_args args typeId fs content key) = Inr leaf \<and> length leaf = meEnvelopeBytes e \<and>
     bip141_weight (mint_reveal (emHasOrdWrapper args) i marker dest [sig, leaf, cb]) = meRevealWeight e \<and>
     meRevealVsize e = vbytesOf (meRevealWeight e) \<and>
     meRevealOutputs e + feeFor (meRevealVsize e) (emFeeRate args) \<le> meCommitValue e \<and>
     meRevealFee e = int (meCommitValue e) - int (meRevealOutputs e) \<and>
     meCoreCommitValue e \<le> meCommitValue e \<and> SEGWIT_DUST \<le> meCommitValue e"
proof -
  let ?a = "mint_args args typeId fs (replicate (nat (emBytes args)) 0) key\<lparr>caLeafKey := None\<rparr>"
  obtain leaf0 burn where l: "buildCoreEnvelope L ?a = Inr leaf0" and e: "e = (let outputs = CNTRPRTY_OP_RETURN_SCRIPT_LEN # (if emHasOrdWrapper args then [MINT_P2TR_SCRIPT_LEN] else []);
            revealOutputs = (if emHasOrdWrapper args then REGULAR_DUST else 0);
            coreWeight = revealWeightFor (length leaf0) outputs 64;
            revealWeight = coreWeight + 1;
            coreCommitValue = max (feeFor (vbytesOf coreWeight) (emFeeRate args) + revealOutputs) SEGWIT_DUST;
            commitValue = max coreCommitValue (feeFor (vbytesOf revealWeight) (emFeeRate args) + revealOutputs) in
          \<lparr>meRevealWeight = revealWeight, meRevealVsize = vbytesOf revealWeight,
             meRevealFee = int commitValue - int revealOutputs, meCommitValue = commitValue,
             meCoreCommitValue = coreCommitValue, meRevealOutputs = revealOutputs, meXcpBurn = burn,
             meStandardRelay = (revealWeight \<le> STANDARD_WITNESS_LIMIT_WU), meEnvelopeBytes = length leaf0\<rparr>)"
    using assms(1,2) by (rule estimate_parts)
  obtain leaf where b: "buildCoreEnvelope L' (mint_args args typeId fs content key) = Inr leaf" "length leaf = length leaf0"
    using leaf_length [OF l, of content key] assms(3,4) by (auto simp: mint_args_def)
  have "revealWeightFor (length leaf) outs 65 = revealWeightFor (length leaf) outs 64 + 1" for outs
    by (simp add: revealWeightFor_def)
  then show ?thesis using b e revealWeightFor_eq [OF assms(5,6,7) _ assms(9), of sig leaf "emHasOrdWrapper args"] assms(8,10)
    by (simp add: Let_def le_max_iff_disj add.commute)
qed

definition example_mint :: EstimateMintArgs where
  "example_mint = \<lparr>emBytes = 2, emFeeRate = Some (JsFloat False 3 (- 1)), emKind = CounterMint, emAssetName = None,
     emHasOrdWrapper = True, emMimeType = None, emQuantity = Some 1, emFairminter = None\<rparr>"

text \<open>Two bytes at 1.5 sat/vB, wrapped.\<close>

theorem estimate_is_exact_witness:
  "\<exists>e leaf. estimateMint mint_lib_btc example_mint = Inr e \<and> buildCoreEnvelope mint_lib_btc
     (mint_args example_mint LR_ISSUANCE [CBigint (2 ^ 64 - 1), CBigint 1, CBoolean True, CBoolean False, CBoolean False] [1, 2] (replicate 32 1)) = Inr leaf \<and>
     bip141_weight (mint_reveal True example_in (replicate 10 0) (replicate 34 0) [replicate 65 0, leaf, replicate 33 0]) = meRevealWeight e"
proof -
  let ?f = "[CBigint (2 ^ 64 - 1), CBigint 1, CBoolean True, CBoolean False, CBoolean False]"
  let ?a = "mint_args example_mint LR_ISSUANCE ?f (replicate 2 0) (replicate 32 1)"
  have m: "messageFields example_mint = Inr (LR_ISSUANCE, ?f)"
    by (simp add: messageFields_def example_mint_def given_name_def)
  have k: "NUMS_INTERNAL_KEY mint_lib_btc = replicate 32 0 \<or> length (NUMS_INTERNAL_KEY mint_lib_btc) = 32"
    by (simp add: mint_lib_btc_def conc_lib_def NUMS_INTERNAL_KEY_def)
  obtain leaf where b: "buildCoreEnvelope mint_lib_btc (?a\<lparr>caLeafKey := None\<rparr>) = Inr leaf"
    using build_total [of mint_lib_btc "?a\<lparr>caLeafKey := None\<rparr>"] k
    by (auto simp: mint_args_def example_mint_def ord_mime_def LR_ISSUANCE_def js_literal_def utf8_def utf8_point_def
        hi_surrogate_def lo_surrogate_def)
  then obtain e where e: "estimateMint mint_lib_btc example_mint = Inr e" "meEnvelopeBytes e = length leaf"
    using m by (simp add: estimateMint_def mint_args_def example_mint_def valid_rate_def given_name_def Let_def)
  have "length leaf \<le> 0xffffffff"
    using b unfolding build_split
    by (auto simp: mint_args_def example_mint_def ord_parts_def ebind_eq_Inr cborEncode_def cbor_head_def cbor_int_def be_bytes_def
        pushData_def Let_def js_literal_def utf8_def utf8_point_def hi_surrogate_def lo_surrogate_def chunks_short LR_ISSUANCE_def
        upt_rec split: if_splits)
  then show ?thesis
    using estimate_is_exact [OF e(1) m, of "[1, 2]" "replicate 32 1" example_in "replicate 10 0" "replicate 34 0" "replicate 65 0"
        "replicate 33 0" mint_lib_btc] e by (auto simp: example_mint_def example_in_def commit_in_ok_def)
qed

end
