(* ===== verification/MintPsbt.thy ===== *)
theory MintPsbt imports MintFees begin

text \<open>
  \<open>compose.ts\<close> and \<open>psbt.ts\<close> of \<open>counters-mint\<close>: the commit and reveal transactions made out of what Counterparty Core
  composed. \<open>RawTx.decode\<close> and the weight of a raw transaction are fields of the library record.
\<close>

subsection \<open>What Core returns\<close>

record ComposeResult =
  crRawtransaction :: "string option"
  crEnvelopeScript :: "string option"
  crSignedReveal :: "string option"
  crBtcFee :: "int option"
  crInputsValues :: "int list option"
  crLockScripts :: "string list option"

text \<open>A compose with all three transactions, as the code reads it from there.\<close>

record TaprootCompose =
  tcRawtransaction :: string
  tcEnvelopeScript :: string
  tcSignedReveal :: string

definition given :: "string option \<Rightarrow> string option" where
  "given s = (case s of None \<Rightarrow> None | Some t \<Rightarrow> if t = [] then None else Some t)"

definition requireTaprootCompose :: "ComposeResult \<Rightarrow> insc_error + TaprootCompose" where
  "requireTaprootCompose compose =
     (case given (crRawtransaction compose) of
        None \<Rightarrow> Inl (Error ''Core returned no rawtransaction.'')
      | Some raw \<Rightarrow>
          (case (given (crEnvelopeScript compose), given (crSignedReveal compose)) of
             (Some env, Some reveal) \<Rightarrow>
               Inr \<lparr>tcRawtransaction = raw, tcEnvelopeScript = env, tcSignedReveal = reveal\<rparr>
           | _ \<Rightarrow> Inl (Error ''Core returned no commit/reveal pair.'')))"

subsection \<open>Reading Core's pair\<close>

record RawIn =
  riTxid :: bytes
  riIndex :: nat
  riSequence :: nat

record RawOut =
  roAmount :: int
  roScript :: bytes

record RawTxData =
  rxVersion :: "int"
  rxInputs :: "RawIn list"
  rxOutputs :: "RawOut list"
  rxLockTime :: nat

record 'tx psbt_lib = "'tx mint_lib" +
  rawTxDecode :: "bytes \<Rightarrow> RawTxData option"
  rawTxWeight :: "bytes \<Rightarrow> nat option"
  hasPartialSig :: "'tx \<Rightarrow> nat \<Rightarrow> bool"

datatype RevealSighash = SigDefault | SigAll

definition mint_decodePsbt :: "('tx, 'z) psbt_lib_scheme \<Rightarrow> string \<Rightarrow> insc_error + 'tx" where
  "mint_decodePsbt L psbtBase64 =
     (case base64Decode L psbtBase64 of
        None \<Rightarrow> Inl (Error ''PSBT is not valid base64'')
      | Some bs \<Rightarrow> lib_call (fromPSBT L bs))"

definition raw_tx :: "('tx, 'z) psbt_lib_scheme \<Rightarrow> string \<Rightarrow> insc_error + RawTxData" where
  "raw_tx L h = ebind (hexToBytes h) (\<lambda>bs. lib_call (rawTxDecode L bs))"

definition coreCommitOutput :: "('tx, 'z) psbt_lib_scheme \<Rightarrow> ComposeResult \<Rightarrow> insc_error + nat \<times> int" where
  "coreCommitOutput L compose =
     ebind (requireTaprootCompose compose) (\<lambda>c.
     ebind (raw_tx L (tcRawtransaction c)) (\<lambda>core.
     ebind (hexToBytes (tcEnvelopeScript c)) (\<lambda>env.
     ebind (coreCommitScript L env) (\<lambda>script.
     case filter (\<lambda>i. equalBytes (roScript (rxOutputs core ! i)) script) [0..<length (rxOutputs core)] of
       [] \<Rightarrow> Inl (Error ''Could not find the commit output in the composed transaction. Nothing was signed.'')
     | [i] \<Rightarrow> Inr (i, roAmount (rxOutputs core ! i))
     | _ \<Rightarrow> Inl (Error ''Core composed more than one commit output'')))))"

definition revealOutputTotal :: "('tx, 'z) psbt_lib_scheme \<Rightarrow> ComposeResult \<Rightarrow> insc_error + int" where
  "revealOutputTotal L compose =
     ebind (requireTaprootCompose compose) (\<lambda>c.
     ebind (raw_tx L (tcSignedReveal c)) (\<lambda>tx. Inr (foldl (\<lambda>s o'. s + roAmount o') 0 (rxOutputs tx))))"

definition revealWeightOf :: "('tx, 'z) psbt_lib_scheme \<Rightarrow> ComposeResult \<Rightarrow> RevealSighash option \<Rightarrow> insc_error + nat" where
  "revealWeightOf L compose sighash =
     ebind (requireTaprootCompose compose) (\<lambda>c.
     ebind (hexToBytes (tcSignedReveal c)) (\<lambda>bs.
     ebind (lib_call (rawTxWeight L bs)) (\<lambda>w.
     Inr (w + (if (case sighash of None \<Rightarrow> SigAll | Some s \<Rightarrow> s) = SigAll then 1 else 0)))))"

definition commitTopUp :: "('tx, 'z) psbt_lib_scheme \<Rightarrow> ComposeResult \<Rightarrow> js_float option \<Rightarrow> insc_error + int" where
  "commitTopUp L compose feeRate =
     (if \<not> valid_rate feeRate then Inl (Error ''fee rate must be a positive number'')
      else
        ebind (revealOutputTotal L compose) (\<lambda>outputsValue.
        ebind (revealWeightOf L compose (Some SigAll)) (\<lambda>weight.
        let needed = outputsValue + int (feeFor (vbytesOf weight) feeRate) in
        ebind (coreCommitOutput L compose) (\<lambda>(_, funded). Inr (max 0 (needed - funded))))))"

subsection \<open>The commit\<close>

text \<open>A coin; \<open>value\<close> is a whole number of satoshis, as \<open>BigInt(value)\<close> insists.\<close>

record Utxo =
  utTxid :: string
  utVout :: nat
  utValue :: int
  utScriptPubKey :: string
  utTapInternalKey :: "string option"

text \<open>\<open>topUpSats\<close> that is no integer is refused like a negative one.\<close>

record CommitPsbtArgs =
  cpNetwork :: Network
  cpCompose :: ComposeResult
  cpLeafKey32 :: bytes
  cpUtxos :: "Utxo list"
  cpChangeAddress :: string
  cpFeeRate :: "js_float option"
  cpTopUpSats :: "int option"

record CommitPsbt =
  cmPsbtBase64 :: string
  cmCommitValue :: int
  cmCommitVout :: nat
  cmInputsToSign :: "nat list"
  cmCommit :: CommitEnvelope
  cmFee :: int

definition inputWeight :: "bytes \<Rightarrow> insc_error + nat" where
  "inputWeight script =
     (let base = 41 * 4 in
      if length script = 34 \<and> script ! 0 = 0x51 \<and> script ! 1 = 0x20 then Inr (base + 1 + 1 + 64)
      else if length script = 22 \<and> script ! 0 = 0x00 \<and> script ! 1 = 0x14 then Inr (base + 1 + 1 + 72 + 1 + 33)
      else if length script = 23 \<and> script ! 0 = 0xa9 then Inr (base + 23 * 4 + 1 + 1 + 72 + 1 + 33)
      else Inl (Error ''only P2TR, P2WPKH and P2SH-P2WPKH coins can fund a commit''))"

definition outputWeight :: "bytes \<Rightarrow> nat" where
  "outputWeight script = (8 + compactSizeLen (length script) + length script) * 4"

definition pay :: "bytes \<Rightarrow> int \<Rightarrow> TxOutput" where
  "pay script amount = \<lparr>outScript = Some script, outAmount = Some amount\<rparr>"

text \<open>\<open>forEach((x, i) => tx.add(f(i, x)))\<close>, from index \<open>i\<close> on.\<close>

primrec add_each :: "('tx \<Rightarrow> 'y \<Rightarrow> 'tx option) \<Rightarrow> (nat \<Rightarrow> 'x \<Rightarrow> insc_error + 'y) \<Rightarrow> 'tx \<Rightarrow> nat \<Rightarrow> 'x list \<Rightarrow> insc_error + 'tx" where
  "add_each add f tx i [] = Inr tx"
| "add_each add f tx i (x # xs) =
     ebind (f i x) (\<lambda>y. ebind (lib_call (add tx y)) (\<lambda>tx'. add_each add f tx' (Suc i) xs))"

text \<open>An input of Core's own, with the prevout Core reported for it.\<close>

definition prevout_at :: "'a list option \<Rightarrow> nat \<Rightarrow> 'a option" where
  "prevout_at xs i = (case xs of None \<Rightarrow> None | Some ys \<Rightarrow> if i < length ys then Some (ys ! i) else None)"

definition core_input :: "ComposeResult \<Rightarrow> nat \<Rightarrow> RawIn \<Rightarrow> insc_error + TxInput" where
  "core_input compose i input =
     (case (prevout_at (crLockScripts compose) i, prevout_at (crInputsValues compose) i) of
        (Some script, Some value') \<Rightarrow>
          ebind (hexToBytes script) (\<lambda>bs.
          Inr (empty_input\<lparr>inTxid := Some (riTxid input), inIndex := Some (riIndex input),
            inSequence := Some (riSequence input), inWitnessUtxo := Some (bs, value'), inSighashType := Some SIGHASH_ALL\<rparr>))
      | _ \<Rightarrow> Inl (Error ''Core returned no prevout for an input''))"

text \<open>Core's change output: the last one that is not the commit.\<close>

definition change_index :: "int \<Rightarrow> nat \<Rightarrow> nat \<Rightarrow> insc_error + nat option" where
  "change_index topUp n coreIndex =
     (if 0 < topUp then
        (case List.find (\<lambda>i. i \<noteq> coreIndex) (rev [0..<n]) of
           None \<Rightarrow> Inl (Error ''This envelope needs more in the commit than Core funded, and there is no change output.'')
         | Some i \<Rightarrow> Inr (Some i))
      else Inr None)"

definition commit_output :: "nat \<Rightarrow> nat option \<Rightarrow> bytes \<Rightarrow> int \<Rightarrow> int \<Rightarrow> nat \<Rightarrow> RawOut \<Rightarrow> insc_error + TxOutput" where
  "commit_output coreIndex changeIndex script commitValue topUp i output =
     (if i = coreIndex then Inr (pay script commitValue)
      else if changeIndex = Some i then
        let change = roAmount output - topUp in
        if change < int REGULAR_DUST then Inl (Error ''Topping up the commit would push the change below dust.'')
        else Inr (pay (roScript output) change)
      else Inr (pay (roScript output) (roAmount output)))"

text \<open>The selection loop: coins in order until they cover the commit value and the fee they have added up to.\<close>

record Selection =
  seFunded :: int
  seWeight :: nat
  seChosen :: "Utxo list"
  seFee :: nat

primrec select_coins :: "int \<Rightarrow> js_float option \<Rightarrow> Utxo list \<Rightarrow> Selection \<Rightarrow> insc_error + Selection" where
  "select_coins commitValue rate [] s = Inr s"
| "select_coins commitValue rate (u # us) s =
     ebind (hexToBytes (utScriptPubKey u)) (\<lambda>script.
     ebind (inputWeight script) (\<lambda>w.
     let weight = seWeight s + w;
         s' = \<lparr>seFunded = seFunded s + utValue u, seWeight = weight, seChosen = seChosen s @ [u],
               seFee = feeFor (vbytesOf weight) rate\<rparr>
     in if commitValue + int (seFee s') \<le> seFunded s' then Inr s' else select_coins commitValue rate us s'))"

definition coin_input :: "nat \<Rightarrow> Utxo \<Rightarrow> insc_error + TxInput" where
  "coin_input i u =
     ebind (hexToBytes (utScriptPubKey u)) (\<lambda>script.
     ebind (hexToBytes (utTxid u)) (\<lambda>txid.
     ebind (case given (utTapInternalKey u) of None \<Rightarrow> Inr None | Some k \<Rightarrow> ebind (hexToBytes k) (\<lambda>b. Inr (Some b))) (\<lambda>key.
     Inr (empty_input\<lparr>inTxid := Some txid, inIndex := Some (utVout u), inSequence := Some 0xfffffffd,
       inWitnessUtxo := Some (script, utValue u), inTapInternalKey := key, inSighashType := Some SIGHASH_ALL\<rparr>))))"

definition buildCommitPsbt :: "('tx, 'z) psbt_lib_scheme \<Rightarrow> CommitPsbtArgs \<Rightarrow> insc_error + CommitPsbt" where
  "buildCommitPsbt L args =
     ebind (requireTaprootCompose (cpCompose args)) (\<lambda>compose.
     let topUp = (case cpTopUpSats args of None \<Rightarrow> 0 | Some t \<Rightarrow> t) in
     if topUp < 0 then Inl (Error ''topUpSats must be a non-negative integer'')
     else
     ebind (hexToBytes (tcEnvelopeScript compose)) (\<lambda>env.
     ebind (reKeyEnvelope env (cpLeafKey32 args)) (\<lambda>leaf.
     ebind (commitEnvelope L leaf (cpNetwork args)) (\<lambda>commit.
     ebind (coreCommitOutput L (cpCompose args)) (\<lambda>(coreIndex, coreValue).
     let commitValue = coreValue + topUp in
     ebind (raw_tx L (tcRawtransaction compose)) (\<lambda>core.
     if cpUtxos args = [] then
       ebind (add_each (addInput L) (core_input (cpCompose args)) (newTransaction L (rxVersion core) (rxLockTime core) True) 0
         (rxInputs core)) (\<lambda>tx.
       ebind (change_index topUp (length (rxOutputs core)) coreIndex) (\<lambda>changeIndex.
       ebind (add_each (addOutput L) (commit_output coreIndex changeIndex (ceScript commit) commitValue topUp) tx 0
         (rxOutputs core)) (\<lambda>tx'.
       Inr \<lparr>cmPsbtBase64 = encodePsbt L tx', cmCommitValue = commitValue, cmCommitVout = coreIndex,
            cmInputsToSign = [0..<length (rxInputs core)], cmCommit = commit,
            cmFee = (case crBtcFee (cpCompose args) of None \<Rightarrow> 0 | Some f \<Rightarrow> f)\<rparr>)))
     else if \<not> valid_rate (cpFeeRate args) then Inl (Error ''fee rate must be a positive number'')
     else
       ebind (addressToScript L (cpChangeAddress args) (cpNetwork args)) (\<lambda>changeScript.
       let sorted' = sort_key (\<lambda>u. - utValue u) (cpUtxos args) in
       ebind (lib_call (addOutput L (newTransaction L 2 0 True) (pay (ceScript commit) commitValue))) (\<lambda>tx.
       let weight = (4 + 1 + 1 + 4) * 4 + 2 + outputWeight (ceScript commit) + outputWeight changeScript in
       ebind (select_coins commitValue (cpFeeRate args) sorted'
         \<lparr>seFunded = 0, seWeight = weight, seChosen = [], seFee = 0\<rparr>) (\<lambda>s.
       if seFunded s < commitValue + int (seFee s) then Inl (Error ''Insufficient funds'')
       else
         ebind (add_each (addInput L) coin_input tx 0 (seChosen s)) (\<lambda>tx'.
         let change = seFunded s - commitValue - int (seFee s);
             result = (\<lambda>tx fee. \<lparr>cmPsbtBase64 = encodePsbt L tx, cmCommitValue = commitValue, cmCommitVout = 0,
                cmInputsToSign = [0..<length (seChosen s)], cmCommit = commit, cmFee = fee\<rparr>)
         in if int REGULAR_DUST \<le> change
            then ebind (lib_call (addOutput L tx' (pay changeScript change))) (\<lambda>tx3. Inr (result tx3 (int (seFee s))))
            else Inr (result tx' (int (seFee s) + change))))))))))))"

subsection \<open>The reveal\<close>

record RevealPsbtArgs =
  rpNetwork :: Network
  rpCompose :: ComposeResult
  rpLeafKey32 :: bytes
  rpCommitOutpoint :: Outpoint
  rpCommitValue :: int
  rpDestinationAddress :: string
  rpSighash :: "RevealSighash option"

text \<open>One of Core's outputs: what pays a spendable script goes to the destination, the rest stays.\<close>

definition reveal_output :: "bytes \<Rightarrow> nat \<Rightarrow> RawOut \<Rightarrow> insc_error + TxOutput" where
  "reveal_output destination i output =
     (if 0 < roAmount output \<and> \<not> (roScript output \<noteq> [] \<and> roScript output ! 0 = 0x6a) then
        if length destination \<noteq> length (roScript output)
        then Inl (Error ''destinationAddress must be the same script type as the address Core composed the reveal output to.'')
        else Inr (pay destination (roAmount output))
      else Inr (pay (roScript output) (roAmount output)))"

definition buildRevealPsbt :: "('tx, 'z) psbt_lib_scheme \<Rightarrow> RevealPsbtArgs \<Rightarrow> insc_error + string \<times> nat \<times> CommitEnvelope" where
  "buildRevealPsbt L args =
     ebind (requireTaprootCompose (rpCompose args)) (\<lambda>compose.
     if \<not> is_txid (opTxid (rpCommitOutpoint args)) then Inl (Error ''commitOutpoint.txid must be a 64-hex txid'')
     else if rpCommitValue args \<le> 0 then Inl (Error ''commitValue must be a positive integer'')
     else
     ebind (hexToBytes (tcEnvelopeScript compose)) (\<lambda>env.
     ebind (reKeyEnvelope env (rpLeafKey32 args)) (\<lambda>leaf.
     ebind (commitEnvelope L leaf (rpNetwork args)) (\<lambda>commit.
     ebind (raw_tx L (tcSignedReveal compose)) (\<lambda>coreReveal.
     let sighashType = (if (case rpSighash args of None \<Rightarrow> SigAll | Some s \<Rightarrow> s) = SigAll then SIGHASH_ALL else SIGHASH_DEFAULT) in
     ebind (hexToBytes (opTxid (rpCommitOutpoint args))) (\<lambda>txid.
     ebind (lib_call (addInput L (newTransaction L (rxVersion coreReveal) (rxLockTime coreReveal) True)
       (empty_input\<lparr>inTxid := Some txid, inIndex := Some (opVout (rpCommitOutpoint args)),
          inSequence := (case rxInputs coreReveal of [] \<Rightarrow> None | i # _ \<Rightarrow> Some (riSequence i)),
          inWitnessUtxo := Some (ceScript commit, rpCommitValue args), inTapInternalKey := Some (NUMS_INTERNAL_KEY L),
          inTapLeafScript := Some [(\<lparr>cbVersion = unat (ceControlBlock commit ! 0), cbInternalKey = NUMS_INTERNAL_KEY L,
            cbMerklePath = []\<rparr>, leaf @ [LEAF_VERSION])],
          inSighashType := Some sighashType\<rparr>))) (\<lambda>tx.
     ebind (addressToScript L (rpDestinationAddress args) (rpNetwork args)) (\<lambda>destination.
     ebind (add_each (addOutput L) (reveal_output destination) tx 0 (rxOutputs coreReveal)) (\<lambda>tx'.
     Inr (encodePsbt L tx', 0, commit)))))))))) "

subsection \<open>Plain transactions, signing, finalizing\<close>

definition buildPlainPsbt :: "('tx, 'z) psbt_lib_scheme \<Rightarrow> ComposeResult \<Rightarrow> insc_error + string" where
  "buildPlainPsbt L compose =
     (case given (crRawtransaction compose) of
        None \<Rightarrow> Inl (Error ''Core returned no rawtransaction.'')
      | Some raw \<Rightarrow>
          ebind (raw_tx L raw) (\<lambda>core.
          ebind (add_each (addInput L) (core_input compose) (newTransaction L (rxVersion core) (rxLockTime core) True) 0
            (rxInputs core)) (\<lambda>tx.
          ebind (add_each (addOutput L) (\<lambda>i o'. Inr (pay (roScript o') (roAmount o'))) tx 0 (rxOutputs core)) (\<lambda>tx'.
          Inr (encodePsbt L tx')))))"

definition finalize :: "('tx, 'z) psbt_lib_scheme \<Rightarrow> string \<Rightarrow> insc_error + RawFacts" where
  "finalize L signedPsbtBase64 =
     ebind (mint_decodePsbt L signedPsbtBase64) (\<lambda>tx.
     ebind (emapM (\<lambda>i. ebind (lib_call (getInput L tx i)) (\<lambda>inp.
        if input_signed inp \<or> hasPartialSig L tx i then Inr () else Inl (Error ''input is unsigned''))) [0..<inputsLength L tx]) (\<lambda>_.
     ebind (lib_call (finalizeTx L tx)) (\<lambda>tx'.
     ebind (lib_call (toBytes L tx' True True)) (\<lambda>full.
     ebind (lib_call (toBytes L tx' True False)) (\<lambda>stripped.
     let weight = length stripped * 3 + length full in
     Inr \<lparr>rfHex = bytesToHex full, rfTxid = txId L tx', rfWeight = weight, rfVsize = vbytesOf weight\<rparr>)))))"

definition unsignedRevealTxid :: "('tx, 'z) psbt_lib_scheme \<Rightarrow> string \<Rightarrow> insc_error + string" where
  "unsignedRevealTxid L psbtBase64 = ebind (mint_decodePsbt L psbtBase64) (\<lambda>tx. Inr (txId L tx))"

text \<open>\<open>signIdx\<close> that throws and \<open>signIdx\<close> that signs nothing end in the same error.\<close>

definition signRevealLocally :: "('tx, 'z) psbt_lib_scheme \<Rightarrow> string \<Rightarrow> bytes \<Rightarrow> insc_error + string" where
  "signRevealLocally L psbtBase64 privkey =
     ebind (mint_decodePsbt L psbtBase64) (\<lambda>tx.
     case signIdx L tx privkey 0 (Some [SIGHASH_DEFAULT, SIGHASH_ALL]) of
       None \<Rightarrow> Inl (Error ''The reveal key does not match the envelope it is meant to open.'')
     | Some tx' \<Rightarrow> Inr (encodePsbt L tx'))"

end
