(* ===== verification/MintPsbtProps.thy ===== *)
theory MintPsbtProps imports MintPsbt begin

text \<open>
  What the commit and the reveal of \<open>counters-mint\<close> hold: read through the accessors of the PSBT library, inputs and
  outputs are lists, and the two transactions are characterised by them.
\<close>

subsection \<open>What was added\<close>

text \<open>The inputs and outputs of a transaction, read through its accessors.\<close>

definition tx_ins :: "('tx, 'z) btc_lib_scheme \<Rightarrow> 'tx \<Rightarrow> TxInput list" where
  "tx_ins L t = map (\<lambda>k. the (getInput L t k)) [0..<inputsLength L t]"

definition tx_outs :: "('tx, 'z) btc_lib_scheme \<Rightarrow> 'tx \<Rightarrow> TxOutput list" where
  "tx_outs L t = map (\<lambda>k. the (getOutput L t k)) [0..<outputsLength L t]"

lemma new_views:
  "tx_documented L \<Longrightarrow> tx_ins L (newTransaction L v l a) = [] \<and> tx_outs L (newTransaction L v l a) = [] \<and>
     txVersion L (newTransaction L v l a) = v \<and> txLockTime L (newTransaction L v l a) = l"
  by (simp add: tx_documented_def tx_ins_def tx_outs_def)

lemma addInput_views:
  assumes "tx_documented L" and "addInput L t i = Some u"
  shows "tx_ins L u = tx_ins L t @ [i] \<and> tx_outs L u = tx_outs L t \<and> same_frame L t u"
proof -
  have d: "same_frame L t u" "inputsLength L u = Suc (inputsLength L t)" "outputsLength L u = outputsLength L t"
      "getInput L u (inputsLength L t) = Some i" "\<And>k. k < inputsLength L t \<Longrightarrow> getInput L u k = getInput L t k"
      "\<And>k. getOutput L u k = getOutput L t k"
    using assms unfolding tx_documented_def by blast+
  then show ?thesis by (simp add: tx_ins_def tx_outs_def)
qed

lemma addOutput_views:
  assumes "tx_documented L" and "addOutput L t x = Some u"
  shows "tx_outs L u = tx_outs L t @ [x] \<and> tx_ins L u = tx_ins L t \<and> same_frame L t u"
proof -
  have d: "same_frame L t u" "inputsLength L u = inputsLength L t" "outputsLength L u = Suc (outputsLength L t)"
      "getOutput L u (outputsLength L t) = Some x" "\<And>k. k < outputsLength L t \<Longrightarrow> getOutput L u k = getOutput L t k"
      "\<And>k. getInput L u k = getInput L t k"
    using assms unfolding tx_documented_def by blast+
  then show ?thesis by (simp add: tx_ins_def tx_outs_def)
qed

text \<open>What \<open>forEach\<close> computed, element by element.\<close>

definition each_ok :: "(nat \<Rightarrow> 'x \<Rightarrow> 'e + 'y) \<Rightarrow> nat \<Rightarrow> 'x list \<Rightarrow> 'y list \<Rightarrow> bool" where
  "each_ok f i xs ys \<longleftrightarrow> length ys = length xs \<and> (\<forall>k < length xs. f (i + k) (xs ! k) = Inr (ys ! k))"

lemma each_ok_Cons: "f i x = Inr y \<Longrightarrow> each_ok f (Suc i) xs ys \<Longrightarrow> each_ok f i (x # xs) (y # ys)"
  by (auto simp: each_ok_def nth_Cons split: nat.split)

lemma add_inputs_views:
  assumes "tx_documented L" and "add_each (addInput L) f t i xs = Inr u"
  shows "\<exists>ys. each_ok f i xs ys \<and> tx_ins L u = tx_ins L t @ ys \<and> tx_outs L u = tx_outs L t \<and> same_frame L t u"
  using assms(2)
proof (induction xs arbitrary: t i)
  case (Cons x xs)
  then obtain y t1 where y: "f i x = Inr y" "addInput L t y = Some t1" "add_each (addInput L) f t1 (Suc i) xs = Inr u"
    by (auto simp: ebind_eq_Inr)
  obtain ys where "each_ok f (Suc i) xs ys" "tx_ins L u = tx_ins L t1 @ ys" "tx_outs L u = tx_outs L t1" "same_frame L t1 u"
    using Cons.IH [OF y(3)] by blast
  then show ?case using addInput_views [OF assms(1) y(2)] each_ok_Cons [of f i x y xs ys] y(1)
    by (intro exI [of _ "y # ys"]) (simp add: same_frame_def)
qed (simp add: each_ok_def same_frame_def)

lemma add_outputs_views:
  assumes "tx_documented L" and "add_each (addOutput L) f t i xs = Inr u"
  shows "\<exists>ys. each_ok f i xs ys \<and> tx_outs L u = tx_outs L t @ ys \<and> tx_ins L u = tx_ins L t \<and> same_frame L t u"
  using assms(2)
proof (induction xs arbitrary: t i)
  case (Cons x xs)
  then obtain y t1 where y: "f i x = Inr y" "addOutput L t y = Some t1" "add_each (addOutput L) f t1 (Suc i) xs = Inr u"
    by (auto simp: ebind_eq_Inr)
  obtain ys where "each_ok f (Suc i) xs ys" "tx_outs L u = tx_outs L t1 @ ys" "tx_ins L u = tx_ins L t1" "same_frame L t1 u"
    using Cons.IH [OF y(3)] by blast
  then show ?case using addOutput_views [OF assms(1) y(2)] each_ok_Cons [of f i x y xs ys] y(1)
    by (intro exI [of _ "y # ys"]) (simp add: same_frame_def)
qed (simp add: each_ok_def same_frame_def)

definition paid :: "TxOutput list \<Rightarrow> int" where "paid outs = (\<Sum>o' \<leftarrow> outs. the (outAmount o'))"

definition raw_paid :: "RawOut list \<Rightarrow> int" where "raw_paid outs = (\<Sum>o' \<leftarrow> outs. roAmount o')"

definition spent :: "TxInput list \<Rightarrow> int" where "spent ins = (\<Sum>i \<leftarrow> ins. snd (the (inWitnessUtxo i)))"

subsection \<open>The commit on Core's own inputs\<close>

lemma coreCommitOutput_ok:
  assumes "coreCommitOutput L compose = Inr (i, v)"
  shows "\<exists>c core. requireTaprootCompose compose = Inr c \<and> raw_tx L (tcRawtransaction c) = Inr core \<and>
    i < length (rxOutputs core) \<and> v = roAmount (rxOutputs core ! i)"
proof -
  obtain c core env script where c: "requireTaprootCompose compose = Inr c" "raw_tx L (tcRawtransaction c) = Inr core"
      and s: "(case filter (\<lambda>i. equalBytes (roScript (rxOutputs core ! i)) script) [0..<length (rxOutputs core)] of
        [] \<Rightarrow> Inl (Error ''Could not find the commit output in the composed transaction. Nothing was signed.'')
      | [i] \<Rightarrow> Inr (i, roAmount (rxOutputs core ! i))
      | _ \<Rightarrow> Inl (Error ''Core composed more than one commit output'')) = Inr (i, v)"
    using assms unfolding coreCommitOutput_def ebind_eq_Inr by blast
  have fl: "filter (\<lambda>i. equalBytes (roScript (rxOutputs core ! i)) script) [0..<length (rxOutputs core)] = [i] \<and>
      v = roAmount (rxOutputs core ! i)"
    using s by (auto split: list.split_asm)
  from fl have "i \<in> set [0..<length (rxOutputs core)]" by (metis filter_is_subset list.set_intros(1) subsetD)
  then show ?thesis using c fl by auto
qed

lemma change_index_ok:
  assumes "change_index topUp n c = Inr ci"
  shows "if 0 < topUp then \<exists>i. ci = Some i \<and> i < n \<and> i \<noteq> c \<and> (\<forall>j. i < j \<and> j < n \<longrightarrow> j = c) else ci = None"
proof (cases "0 < topUp")
  case True
  then obtain i where i: "List.find (\<lambda>i. i \<noteq> c) (rev [0..<n]) = Some i" "ci = Some i"
    using assms by (auto simp: change_index_def split: option.splits)
  obtain k where k: "k < n" "rev [0..<n] ! k = i" "i \<noteq> c" "\<And>j. j < k \<Longrightarrow> rev [0..<n] ! j = c"
    using i(1) by (auto simp: find_Some_iff)
  have r: "rev [0..<n] ! j = n - Suc j" if "j < n" for j using that by (simp add: rev_nth)
  have "j = c" if "i < j" "j < n" for j
  proof -
    have "n - Suc j < k" using that k(1,2) r [OF k(1)] by linarith
    then show ?thesis using k(4) [of "n - Suc j"] r [of "n - Suc j"] that by simp
  qed
  moreover have "i < n" using k(1,2) r by auto
  ultimately show ?thesis using True i(2) k(3) by auto
qed (use assms in \<open>simp add: change_index_def\<close>)

lemma commit_output_ok:
  "commit_output c ci script cv topUp k o' = Inr y \<Longrightarrow>
     y = (if k = c then pay script cv else pay (roScript o') (roAmount o' - (if ci = Some k then topUp else 0))) \<and>
     (k \<noteq> c \<and> ci = Some k \<longrightarrow> int REGULAR_DUST \<le> roAmount o' - topUp)"
  by (auto simp: commit_output_def Let_def split: if_splits)

lemma commit_outputs_sum:
  assumes "each_ok (commit_output c ci script (v + topUp) topUp) 0 outs ys" and "change_index topUp (length outs) c = Inr ci"
    and "0 \<le> topUp" and "c < length outs" and "v = roAmount (outs ! c)"
  shows "paid ys = raw_paid outs"
proof -
  let ?n = "length outs"
  have l: "length ys = ?n" and y: "\<And>k. k < ?n \<Longrightarrow> commit_output c ci script (v + topUp) topUp k (outs ! k) = Inr (ys ! k)"
    using assms(1) by (auto simp: each_ok_def)
  have a: "the (outAmount (ys ! k)) = roAmount (outs ! k) + (if k = c then topUp else 0) - (if ci = Some k then topUp else 0)"
    if "k < ?n" for k
  proof -
    have "ci = Some k \<Longrightarrow> k \<noteq> c" using change_index_ok [OF assms(2)] by (auto split: if_splits)
    then show ?thesis using commit_output_ok [OF y [OF that]] assms(5) by (auto simp: pay_def)
  qed
  have "paid ys = (\<Sum>k = 0..<?n. the (outAmount (ys ! k)))" by (simp add: paid_def sum_list_sum_nth l)
  also have "\<dots> = (\<Sum>k = 0..<?n. roAmount (outs ! k)) + (\<Sum>k = 0..<?n. if k = c then topUp else 0)
      - (\<Sum>k = 0..<?n. if ci = Some k then topUp else 0)"
    using a by (simp add: sum.distrib sum_subtractf)
  also have "(\<Sum>k = 0..<?n. if k = c then topUp else 0) = topUp" using assms(4) by simp
  also have "(\<Sum>k = 0..<?n. if ci = Some k then topUp else 0) = topUp"
  proof (cases "0 < topUp")
    case True
    then obtain i where "ci = Some i" "i < ?n" using change_index_ok [OF assms(2)] by auto
    then show ?thesis by (simp add: sum.delta')
  next
    case False
    then have "topUp = 0" using assms(3) by simp
    then show ?thesis by (simp cong: if_cong)
  qed
  also have "(\<Sum>k = 0..<?n. roAmount (outs ! k)) = raw_paid outs" by (simp add: raw_paid_def sum_list_sum_nth)
  finally show ?thesis by simp
qed

text \<open>The scripts Core composed, in their order, the amounts but for the commit and the change.\<close>

lemma commit_outputs_each:
  assumes "each_ok (commit_output c ci script (v + topUp) topUp) 0 outs ys" and "change_index topUp (length outs) c = Inr ci"
    and "k < length outs" "k \<noteq> c"
  shows "outScript (ys ! k) = Some (roScript (outs ! k)) \<and>
    (outAmount (ys ! k) = Some (roAmount (outs ! k)) \<or>
     (\<forall>j. k < j \<and> j < length outs \<longrightarrow> j = c) \<and>
     (\<exists>a. outAmount (ys ! k) = Some a \<and> int REGULAR_DUST \<le> a \<and> a < roAmount (outs ! k)))"
proof -
  have y: "ys ! k = pay (roScript (outs ! k)) (roAmount (outs ! k) - (if ci = Some k then topUp else 0))"
      "ci = Some k \<longrightarrow> int REGULAR_DUST \<le> roAmount (outs ! k) - topUp"
    using assms(1,3,4) commit_output_ok [of c ci script "v + topUp" topUp k "outs ! k" "ys ! k"] by (auto simp: each_ok_def)
  show ?thesis
  proof (cases "ci = Some k")
    case True
    then show ?thesis using y change_index_ok [OF assms(2)] by (auto simp: pay_def split: if_splits)
  qed (use y in \<open>simp add: pay_def\<close>)
qed

lemma core_inputs_each:
  assumes "each_ok (core_input compose) 0 ins xs"
  shows "length xs = length ins \<and> (\<forall>k < length ins. inTxid (xs ! k) = Some (riTxid (ins ! k)) \<and>
    inIndex (xs ! k) = Some (riIndex (ins ! k)) \<and> inSequence (xs ! k) = Some (riSequence (ins ! k)) \<and>
    inSighashType (xs ! k) = Some SIGHASH_ALL \<and>
    (\<exists>script v. inWitnessUtxo (xs ! k) = Some (script, v) \<and> prevout_at (crInputsValues compose) k = Some v \<and>
      map_option hexToBytes (prevout_at (crLockScripts compose) k) = Some (Inr script)))"
proof -
  have "inTxid x = Some (riTxid i) \<and> inIndex x = Some (riIndex i) \<and> inSequence x = Some (riSequence i) \<and>
      inSighashType x = Some SIGHASH_ALL \<and> (\<exists>script v. inWitnessUtxo x = Some (script, v) \<and>
        prevout_at (crInputsValues compose) k = Some v \<and> map_option hexToBytes (prevout_at (crLockScripts compose) k) = Some (Inr script))"
    if "core_input compose k i = Inr x" for k i x
    using that by (auto simp: core_input_def ebind_eq_Inr split: option.splits)
  then show ?thesis using assms by (simp add: each_ok_def) blast
qed

lemma reused_commit_parts:
  assumes "tx_documented L" and "buildCommitPsbt L args = Inr r" and "cpUtxos args = []"
  obtains c core v tx cix xs ys where "requireTaprootCompose (cpCompose args) = Inr c" "raw_tx L (tcRawtransaction c) = Inr core"
    "coreCommitOutput L (cpCompose args) = Inr (cmCommitVout r, v)" "0 \<le> (case cpTopUpSats args of None \<Rightarrow> 0 | Some t \<Rightarrow> t)"
    "change_index (case cpTopUpSats args of None \<Rightarrow> 0 | Some t \<Rightarrow> t) (length (rxOutputs core)) (cmCommitVout r) = Inr cix"
    "cmPsbtBase64 r = encodePsbt L tx" "cmCommitValue r = v + (case cpTopUpSats args of None \<Rightarrow> 0 | Some t \<Rightarrow> t)"
    "each_ok (core_input (cpCompose args)) 0 (rxInputs core) xs" "tx_ins L tx = xs"
    "each_ok (commit_output (cmCommitVout r) cix (ceScript (cmCommit r)) (v + (case cpTopUpSats args of None \<Rightarrow> 0 | Some t \<Rightarrow> t)) (case cpTopUpSats args of None \<Rightarrow> 0 | Some t \<Rightarrow> t)) 0 (rxOutputs core) ys" "tx_outs L tx = ys"
    "txVersion L tx = rxVersion core" "txLockTime L tx = rxLockTime core" "cmCommitVout r < length (rxOutputs core)"
    "v = roAmount (rxOutputs core ! cmCommitVout r)" "tx_outs L tx ! cmCommitVout r = pay (ceScript (cmCommit r)) (cmCommitValue r)"
    "cmCommitVout r < length (tx_outs L tx)"
proof -
  let ?t = "case cpTopUpSats args of None \<Rightarrow> 0 | Some t \<Rightarrow> t"
  obtain c where c: "requireTaprootCompose (cpCompose args) = Inr c" and t: "0 \<le> ?t"
    using assms(2) unfolding buildCommitPsbt_def ebind_eq_Inr Let_def by (metis Inl_Inr_False linorder_not_less)
  obtain env leaf commit ci v core tx tx' cix where
      b: "coreCommitOutput L (cpCompose args) = Inr (ci, v)" "raw_tx L (tcRawtransaction c) = Inr core"
      "add_each (addInput L) (core_input (cpCompose args)) (newTransaction L (rxVersion core) (rxLockTime core) True) 0 (rxInputs core) = Inr tx"
      "change_index ?t (length (rxOutputs core)) ci = Inr cix"
      "add_each (addOutput L) (commit_output ci cix (ceScript commit) (v + ?t) ?t) tx 0 (rxOutputs core) = Inr tx'"
      "r = \<lparr>cmPsbtBase64 = encodePsbt L tx', cmCommitValue = v + ?t, cmCommitVout = ci,
            cmInputsToSign = [0..<length (rxInputs core)], cmCommit = commit,
            cmFee = (case crBtcFee (cpCompose args) of None \<Rightarrow> 0 | Some f \<Rightarrow> f)\<rparr>"
    using assms(2) c t unfolding buildCommitPsbt_def assms(3)
    by (auto simp: ebind_eq_Inr Let_def simp del: if_splits split: prod.splits)
  obtain xs where xs: "each_ok (core_input (cpCompose args)) 0 (rxInputs core) xs" "tx_ins L tx = xs" "tx_outs L tx = []"
      "txVersion L tx = rxVersion core" "txLockTime L tx = rxLockTime core"
    using add_inputs_views [OF assms(1) b(3)] new_views [OF assms(1)] by (auto simp: same_frame_def)
  obtain ys where ys: "each_ok (commit_output ci cix (ceScript commit) (v + ?t) ?t) 0 (rxOutputs core) ys" "tx_outs L tx' = ys"
      "tx_ins L tx' = xs" "txVersion L tx' = rxVersion core" "txLockTime L tx' = rxLockTime core"
    using add_outputs_views [OF assms(1) b(5)] xs by (auto simp: same_frame_def)
  have ci: "ci < length (rxOutputs core)" "v = roAmount (rxOutputs core ! ci)"
    using coreCommitOutput_ok [OF b(1)] b(2) c by auto
  have "ys ! ci = pay (ceScript commit) (v + ?t)"
    using ys(1) ci(1) commit_output_ok by (fastforce simp: each_ok_def)
  then show thesis using b(1,2,4,6) c t ys xs(1) ci by (intro that [of c core v cix tx' xs ys]) (simp_all add: each_ok_def)
qed

text \<open>
  The commit on Core's own inputs changes one script and costs what Core's commit costs. It has Core's version, lock
  time, inputs and sequences, and as many outputs; only the commit output has another script, that of the re-keyed leaf,
  and a top-up moves from the last of the other outputs into it and leaves that one above dust; so the sum of the outputs,
  and with it the miner's fee, is Core's.
\<close>

theorem reused_commit_keeps_fee:
  assumes "tx_documented L" and "buildCommitPsbt L args = Inr r" and "cpUtxos args = []"
  shows "\<exists>c core v tx. requireTaprootCompose (cpCompose args) = Inr c \<and> raw_tx L (tcRawtransaction c) = Inr core \<and>
    coreCommitOutput L (cpCompose args) = Inr (cmCommitVout r, v) \<and> cmCommitValue r = v + (case cpTopUpSats args of None \<Rightarrow> 0 | Some t \<Rightarrow> t) \<and>
    cmPsbtBase64 r = encodePsbt L tx \<and> txVersion L tx = rxVersion core \<and> txLockTime L tx = rxLockTime core \<and>
    map inTxid (tx_ins L tx) = map (Some \<circ> riTxid) (rxInputs core) \<and> map inIndex (tx_ins L tx) = map (Some \<circ> riIndex) (rxInputs core) \<and>
    map inSequence (tx_ins L tx) = map (Some \<circ> riSequence) (rxInputs core) \<and>
    length (tx_outs L tx) = length (rxOutputs core) \<and> cmCommitVout r < length (rxOutputs core) \<and>
    tx_outs L tx ! cmCommitVout r = pay (ceScript (cmCommit r)) (cmCommitValue r) \<and>
    (\<forall>k < length (rxOutputs core). k \<noteq> cmCommitVout r \<longrightarrow>
       outScript (tx_outs L tx ! k) = Some (roScript (rxOutputs core ! k)) \<and>
       (outAmount (tx_outs L tx ! k) = Some (roAmount (rxOutputs core ! k)) \<or>
        (\<forall>j. k < j \<and> j < length (rxOutputs core) \<longrightarrow> j = cmCommitVout r) \<and>
        (\<exists>a. outAmount (tx_outs L tx ! k) = Some a \<and> int REGULAR_DUST \<le> a \<and> a < roAmount (rxOutputs core ! k)))) \<and>
    paid (tx_outs L tx) = raw_paid (rxOutputs core)"
proof -
  let ?t = "case cpTopUpSats args of None \<Rightarrow> 0 | Some t \<Rightarrow> t"
  obtain c core v tx cix xs ys where p: "requireTaprootCompose (cpCompose args) = Inr c" "raw_tx L (tcRawtransaction c) = Inr core"
    "coreCommitOutput L (cpCompose args) = Inr (cmCommitVout r, v)" "0 \<le> ?t"
    "change_index ?t (length (rxOutputs core)) (cmCommitVout r) = Inr cix"
    "cmPsbtBase64 r = encodePsbt L tx" "cmCommitValue r = v + ?t"
    "each_ok (core_input (cpCompose args)) 0 (rxInputs core) xs" "tx_ins L tx = xs"
    "each_ok (commit_output (cmCommitVout r) cix (ceScript (cmCommit r)) (v + ?t) ?t) 0 (rxOutputs core) ys" "tx_outs L tx = ys"
    "txVersion L tx = rxVersion core" "txLockTime L tx = rxLockTime core" "cmCommitVout r < length (rxOutputs core)"
    "v = roAmount (rxOutputs core ! cmCommitVout r)" "tx_outs L tx ! cmCommitVout r = pay (ceScript (cmCommit r)) (cmCommitValue r)"
    "cmCommitVout r < length (tx_outs L tx)"
    using assms by (rule reused_commit_parts)
  have "paid ys = raw_paid (rxOutputs core)" by (rule commit_outputs_sum [OF p(10,5,4,14,15)])
  moreover have "length ys = length (rxOutputs core)" using p(10) by (simp add: each_ok_def)
  moreover have "map inTxid xs = map (Some \<circ> riTxid) (rxInputs core)" "map inIndex xs = map (Some \<circ> riIndex) (rxInputs core)"
      "map inSequence xs = map (Some \<circ> riSequence) (rxInputs core)"
    using core_inputs_each [OF p(8)] by (auto intro!: nth_equalityI)
  moreover note commit_outputs_each [OF p(10,5)]
  ultimately show ?thesis using p(1-3,6,7,9,11-14,16)
    by (intro exI [of _ c] exI [of _ core] exI [of _ v] exI [of _ tx]) simp
qed

subsection \<open>The commit on the caller's coins\<close>

definition coin_weight :: "Utxo \<Rightarrow> nat" where
  "coin_weight u = (case ebind (hexToBytes (utScriptPubKey u)) inputWeight of Inr w \<Rightarrow> w | Inl _ \<Rightarrow> 0)"

definition coins_value :: "Utxo list \<Rightarrow> int" where "coins_value us = (\<Sum>u \<leftarrow> us. utValue u)"

definition coins_weight :: "Utxo list \<Rightarrow> nat" where "coins_weight us = (\<Sum>u \<leftarrow> us. coin_weight u)"

lemma coins_simps [simp]:
  "coins_value [] = 0" "coins_value (u # us) = utValue u + coins_value us"
  "coins_weight [] = 0" "coins_weight (u # us) = coin_weight u + coins_weight us"
  by (simp_all add: coins_value_def coins_weight_def)

text \<open>The prefix the loop takes: it stops at the first that is enough.\<close>

lemma select_coins_ok:
  assumes "select_coins cv rate us s = Inr s'" and "us \<noteq> []"
  shows "\<exists>k. 0 < k \<and> k \<le> length us \<and> seChosen s' = seChosen s @ take k us \<and>
    seFunded s' = seFunded s + coins_value (take k us) \<and>
    seFee s' = feeFor (vbytesOf (seWeight s + coins_weight (take k us))) rate \<and>
    (k < length us \<longrightarrow> cv + int (seFee s') \<le> seFunded s') \<and>
    (\<forall>j. 0 < j \<and> j < k \<longrightarrow>
       seFunded s + coins_value (take j us) < cv + int (feeFor (vbytesOf (seWeight s + coins_weight (take j us))) rate))"
  using assms
proof (induction us arbitrary: s)
  case (Cons u us)
  obtain script w where w: "hexToBytes (utScriptPubKey u) = Inr script" "inputWeight script = Inr w"
    using Cons.prems(1) by (auto simp: ebind_eq_Inr)
  then have cw: "coin_weight u = w" by (simp add: coin_weight_def)
  define s1 where "s1 = \<lparr>seFunded = seFunded s + utValue u, seWeight = seWeight s + w, seChosen = seChosen s @ [u],
      seFee = feeFor (vbytesOf (seWeight s + w)) rate\<rparr>"
  have step: "(if cv + int (seFee s1) \<le> seFunded s1 then Inr s1 else select_coins cv rate us s1) = Inr s'"
    using Cons.prems(1) by (auto simp: w s1_def Let_def split: if_splits)
  show ?case
  proof (cases "cv + int (seFee s1) \<le> seFunded s1 \<or> us = []")
    case True
    then have "s' = s1" using step by (auto split: if_splits)
    then show ?thesis using True by (intro exI [of _ 1]) (auto simp: s1_def cw)
  next
    case False
    then obtain k where k: "0 < k" "k \<le> length us" "seChosen s' = seChosen s1 @ take k us"
        "seFunded s' = seFunded s1 + coins_value (take k us)"
        "seFee s' = feeFor (vbytesOf (seWeight s1 + coins_weight (take k us))) rate"
        "k < length us \<longrightarrow> cv + int (seFee s') \<le> seFunded s'"
        "\<And>j. 0 < j \<Longrightarrow> j < k \<Longrightarrow> seFunded s1 + coins_value (take j us) < cv + int (feeFor (vbytesOf (seWeight s1 + coins_weight (take j us))) rate)"
      using Cons.IH [of s1] step by auto
    have "seFunded s + coins_value (take j (u # us)) < cv + int (feeFor (vbytesOf (seWeight s + coins_weight (take j (u # us)))) rate)"
      if jk: "0 < j" "j < Suc k" for j
    proof (cases "j = 1")
      case True
      then show ?thesis using False by (simp add: s1_def cw)
    next
      case j: False
      then obtain i where i: "j = Suc i" "0 < i" "i < k" using jk j by (cases j) auto
      then show ?thesis using k(7) [of i] by (simp add: s1_def cw add.assoc)
    qed
    then show ?thesis using k(1-6) by (intro exI [of _ "Suc k"]) (simp add: s1_def cw add.assoc)
  qed
qed simp

lemma coin_inputs_values:
  assumes "each_ok coin_input 0 us xs"
  shows "map (snd \<circ> the \<circ> inWitnessUtxo) xs = map utValue us" "map inIndex xs = map (Some \<circ> utVout) us" "spent xs = coins_value us"
proof -
  have c: "snd (the (inWitnessUtxo x)) = utValue u \<and> inIndex x = Some (utVout u)" if "coin_input k u = Inr x" for k u x
    using that by (auto simp: coin_input_def ebind_eq_Inr)
  have l: "length xs = length us" and "\<And>k. k < length us \<Longrightarrow> coin_input k (us ! k) = Inr (xs ! k)"
    using assms by (auto simp: each_ok_def)
  then have "snd (the (inWitnessUtxo (xs ! k))) = utValue (us ! k) \<and> inIndex (xs ! k) = Some (utVout (us ! k))" if "k < length us" for k
    using c that by blast
  then show m: "map (snd \<circ> the \<circ> inWitnessUtxo) xs = map utValue us" and "map inIndex xs = map (Some \<circ> utVout) us"
    using l by (auto intro!: nth_equalityI)
  show "spent xs = coins_value us" using m by (simp add: spent_def coins_value_def comp_def)
qed

text \<open>The input that spends a coin: its outpoint, its script and its value.\<close>

definition spends_coin :: "Utxo \<Rightarrow> TxInput \<Rightarrow> bool" where
  "spends_coin u i \<longleftrightarrow> (\<exists>txid script. hexToBytes (utTxid u) = Inr txid \<and> hexToBytes (utScriptPubKey u) = Inr script \<and>
     inTxid i = Some txid \<and> inIndex i = Some (utVout u) \<and> inWitnessUtxo i = Some (script, utValue u) \<and>
     inSighashType i = Some SIGHASH_ALL)"

lemma coin_inputs_spend: "each_ok coin_input 0 us xs \<Longrightarrow> list_all2 spends_coin us xs"
proof -
  have "spends_coin u x" if "coin_input k u = Inr x" for k u x
    using that by (auto simp: coin_input_def ebind_eq_Inr spends_coin_def)
  then show "each_ok coin_input 0 us xs \<Longrightarrow> list_all2 spends_coin us xs"
    by (auto simp: each_ok_def list_all2_conv_all_nth)
qed

text \<open>The weight the fee is computed over.\<close>

definition commit_weight :: "bytes \<Rightarrow> bytes \<Rightarrow> Utxo list \<Rightarrow> nat" where
  "commit_weight script changeScript us = (4 + 1 + 1 + 4) * 4 + 2 + outputWeight script + outputWeight changeScript + coins_weight us"

lemma funded_commit_parts:
  assumes "tx_documented L" and "buildCommitPsbt L args = Inr r" and "cpUtxos args \<noteq> []"
  obtains coins k changeScript xs fee tx change where "coins = sort_key (\<lambda>u. - utValue u) (cpUtxos args)"
    "0 < k" "k \<le> length coins" "addressToScript L (cpChangeAddress args) (cpNetwork args) = Inr changeScript"
    "each_ok coin_input 0 (take k coins) xs"
    "fee = int (feeFor (vbytesOf (commit_weight (ceScript (cmCommit r)) changeScript (take k coins))) (cpFeeRate args))"
    "cmPsbtBase64 r = encodePsbt L tx" "cmCommitVout r = 0" "tx_ins L tx = xs"
    "tx_outs L tx = pay (ceScript (cmCommit r)) (cmCommitValue r) # (if int REGULAR_DUST \<le> change then [pay changeScript change] else [])"
    "0 \<le> change" "coins_value (take k coins) = cmCommitValue r + fee + change"
    "cmFee r = fee + (if int REGULAR_DUST \<le> change then 0 else change)"
    "\<forall>j. 0 < j \<and> j < k \<longrightarrow> coins_value (take j coins) <
       cmCommitValue r + int (feeFor (vbytesOf (commit_weight (ceScript (cmCommit r)) changeScript (take j coins))) (cpFeeRate args))"
proof -
  let ?coins = "sort_key (\<lambda>u. - utValue u) (cpUtxos args)"
  obtain commit changeScript cv tx s tx' where
      b: "addressToScript L (cpChangeAddress args) (cpNetwork args) = Inr changeScript"
      "addOutput L (newTransaction L 2 0 True) (pay (ceScript commit) cv) = Some tx"
      "select_coins cv (cpFeeRate args) ?coins \<lparr>seFunded = 0, seWeight = commit_weight (ceScript commit) changeScript [],
         seChosen = [], seFee = 0\<rparr> = Inr s"
      "\<not> seFunded s < cv + int (seFee s)"
      "add_each (addInput L) coin_input tx 0 (seChosen s) = Inr tx'"
      "(let change = seFunded s - cv - int (seFee s);
             result = (\<lambda>tx fee. \<lparr>cmPsbtBase64 = encodePsbt L tx, cmCommitValue = cv, cmCommitVout = 0,
                cmInputsToSign = [0..<length (seChosen s)], cmCommit = commit, cmFee = fee\<rparr>)
         in if int REGULAR_DUST \<le> change
            then ebind (lib_call (addOutput L tx' (pay changeScript change))) (\<lambda>tx3. Inr (result tx3 (int (seFee s))))
            else Inr (result tx' (int (seFee s) + change))) = Inr r"
    using assms(2) unfolding buildCommitPsbt_def if_not_P [OF assms(3)]
    by (auto simp: ebind_eq_Inr Let_def commit_weight_def simp del: if_splits split: if_split_asm prod.splits)
  have ne: "?coins \<noteq> []" using assms(3) by (metis length_0_conv length_sort)
  let ?w = "\<lambda>us. commit_weight (ceScript commit) changeScript us"
  have w: "?w [] + coins_weight us = ?w us" for us by (simp add: commit_weight_def)
  obtain k where k: "0 < k" "k \<le> length ?coins" "seChosen s = take k ?coins" "seFunded s = coins_value (take k ?coins)"
      "seFee s = feeFor (vbytesOf (?w (take k ?coins))) (cpFeeRate args)"
      "\<forall>j. 0 < j \<and> j < k \<longrightarrow> coins_value (take j ?coins) < cv + int (feeFor (vbytesOf (?w (take j ?coins))) (cpFeeRate args))"
    using select_coins_ok [OF b(3) ne] by (auto simp: w)
  have t: "tx_outs L tx = [pay (ceScript commit) cv]" "tx_ins L tx = []"
    using addOutput_views [OF assms(1) b(2)] new_views [OF assms(1)] by auto
  obtain xs where xs: "each_ok coin_input 0 (take k ?coins) xs" "tx_ins L tx' = xs" "tx_outs L tx' = [pay (ceScript commit) cv]"
    using add_inputs_views [OF assms(1) b(5)] t k(3) by auto
  note v = coin_inputs_values [OF xs(1)]
  define change where "change = seFunded s - cv - int (seFee s)"
  have c0: "0 \<le> change" using b(4) by (simp add: change_def)
  have e: "coins_value (take k ?coins) = cv + int (seFee s) + change" by (simp add: change_def k(4))
  obtain tx3 fee where r: "r = \<lparr>cmPsbtBase64 = encodePsbt L tx3, cmCommitValue = cv, cmCommitVout = 0,
        cmInputsToSign = [0..<length (seChosen s)], cmCommit = commit, cmFee = fee\<rparr>"
      "fee = int (seFee s) + (if int REGULAR_DUST \<le> change then 0 else change)"
      "tx_ins L tx3 = xs"
      "tx_outs L tx3 = pay (ceScript commit) cv # (if int REGULAR_DUST \<le> change then [pay changeScript change] else [])"
  proof (cases "int REGULAR_DUST \<le> change")
    case True
    then obtain tx3 where a: "addOutput L tx' (pay changeScript change) = Some tx3"
        "r = \<lparr>cmPsbtBase64 = encodePsbt L tx3, cmCommitValue = cv, cmCommitVout = 0,
        cmInputsToSign = [0..<length (seChosen s)], cmCommit = commit, cmFee = int (seFee s)\<rparr>"
      using b(6) by (auto simp: Let_def change_def [symmetric] ebind_eq_Inr)
    then show thesis using that [OF a(2)] addOutput_views [OF assms(1) a(1)] True xs by simp
  next
    case False
    have ra: "r = \<lparr>cmPsbtBase64 = encodePsbt L tx', cmCommitValue = cv, cmCommitVout = 0,
        cmInputsToSign = [0..<length (seChosen s)], cmCommit = commit, cmFee = int (seFee s) + change\<rparr>"
      using b(6) unfolding Let_def change_def [symmetric] if_not_P [OF False] by simp
    show thesis by (rule that [OF ra]) (simp_all only: False xs if_False)
  qed
  show thesis
    by (rule that [of ?coins k changeScript xs "int (seFee s)" tx3 change])
      (simp_all only: r CommitPsbt.simps k(1-5) b(1) xs(1) c0 e, rule k(6))
qed

text \<open>
  C27: a commit on the caller's coins loses nothing. It spends the shortest prefix of the coins, from the most valuable
  down, that covers the commit value and the fee for so many inputs, each input being its coin's transaction id, index,
  script and value; it pays the commit value to the re-keyed leaf and what
  is left to the change address, unless that were dust; and what goes in is what comes out plus the reported fee, which is
  at least the rate's and less than a dust output above it.
\<close>

theorem funded_commit_conserves:
  assumes "tx_documented L" and "buildCommitPsbt L args = Inr r" and "cpUtxos args \<noteq> []"
  shows "\<exists>coins k changeScript tx fee change. coins = sort_key (\<lambda>u. - utValue u) (cpUtxos args) \<and> 0 < k \<and> k \<le> length coins \<and>
    addressToScript L (cpChangeAddress args) (cpNetwork args) = Inr changeScript \<and> cmPsbtBase64 r = encodePsbt L tx \<and>
    list_all2 spends_coin (take k coins) (tx_ins L tx) \<and>
    map (snd \<circ> the \<circ> inWitnessUtxo) (tx_ins L tx) = map utValue (take k coins) \<and>
    map inIndex (tx_ins L tx) = map (Some \<circ> utVout) (take k coins) \<and>
    tx_outs L tx = pay (ceScript (cmCommit r)) (cmCommitValue r) # (if int REGULAR_DUST \<le> change then [pay changeScript change] else []) \<and>
    cmCommitVout r = 0 \<and> spent (tx_ins L tx) = paid (tx_outs L tx) + cmFee r \<and>
    fee = int (feeFor (vbytesOf (commit_weight (ceScript (cmCommit r)) changeScript (take k coins))) (cpFeeRate args)) \<and>
    0 \<le> change \<and> coins_value (take k coins) = cmCommitValue r + fee + change \<and>
    fee \<le> cmFee r \<and> cmFee r < fee + int REGULAR_DUST \<and>
    (\<forall>j. 0 < j \<and> j < k \<longrightarrow> coins_value (take j coins) <
       cmCommitValue r + int (feeFor (vbytesOf (commit_weight (ceScript (cmCommit r)) changeScript (take j coins))) (cpFeeRate args)))"
proof -
  obtain coins k changeScript xs fee tx change where p: "coins = sort_key (\<lambda>u. - utValue u) (cpUtxos args)"
    "0 < k" "k \<le> length coins" "addressToScript L (cpChangeAddress args) (cpNetwork args) = Inr changeScript"
    "each_ok coin_input 0 (take k coins) xs"
    "fee = int (feeFor (vbytesOf (commit_weight (ceScript (cmCommit r)) changeScript (take k coins))) (cpFeeRate args))"
    "cmPsbtBase64 r = encodePsbt L tx" "cmCommitVout r = 0" "tx_ins L tx = xs"
    "tx_outs L tx = pay (ceScript (cmCommit r)) (cmCommitValue r) # (if int REGULAR_DUST \<le> change then [pay changeScript change] else [])"
    "0 \<le> change" "coins_value (take k coins) = cmCommitValue r + fee + change"
    "cmFee r = fee + (if int REGULAR_DUST \<le> change then 0 else change)"
    "\<forall>j. 0 < j \<and> j < k \<longrightarrow> coins_value (take j coins) <
       cmCommitValue r + int (feeFor (vbytesOf (commit_weight (ceScript (cmCommit r)) changeScript (take j coins))) (cpFeeRate args))"
    using assms by (rule funded_commit_parts)
  note v = coin_inputs_values [OF p(5)]
  note sc = coin_inputs_spend [OF p(5)]
  have sp: "spent xs = paid (pay (ceScript (cmCommit r)) (cmCommitValue r) # (if int REGULAR_DUST \<le> change then [pay changeScript change] else [])) + cmFee r"
    using p(13) v(3) p(12) by (simp add: paid_def pay_def)
  have f: "fee \<le> cmFee r" "cmFee r < fee + int REGULAR_DUST" using p(13,11) by (auto simp: REGULAR_DUST_def)
  show ?thesis
    by (rule exI [of _ coins], rule exI [of _ k], rule exI [of _ changeScript], rule exI [of _ tx], rule exI [of _ fee],
        rule exI [of _ change], intro conjI;
        (unfold p(9,10))?; (rule refl p(1-4,6-8,11,12,14) v(1,2) sc sp f)?)
qed

subsection \<open>The reveal is Core's, re-keyed\<close>

lemma reveal_output_ok:
  "reveal_output dest k o' = Inr y \<Longrightarrow> outAmount y = Some (roAmount o') \<and> length (the (outScript y)) = length (roScript o') \<and>
     outScript y = Some (if 0 < roAmount o' \<and> \<not> (roScript o' \<noteq> [] \<and> roScript o' ! 0 = 0x6a) then dest else roScript o')"
  by (auto simp: reveal_output_def pay_def split: if_splits)

lemma reveal_outputs_each:
  assumes "each_ok (reveal_output dest) 0 outs ys"
  shows "map (\<lambda>y. the (outAmount y)) ys = map roAmount outs" "map (\<lambda>y. length (the (outScript y))) ys = map (length \<circ> roScript) outs"
    "map outScript ys = map (\<lambda>o'. Some (if 0 < roAmount o' \<and> \<not> (roScript o' \<noteq> [] \<and> roScript o' ! 0 = 0x6a) then dest else roScript o')) outs"
    "paid ys = raw_paid outs"
proof -
  have l: "length ys = length outs" and o: "\<And>k. k < length outs \<Longrightarrow> reveal_output dest k (outs ! k) = Inr (ys ! k)"
    using assms by (auto simp: each_ok_def)
  have m: "map f ys = map g outs" if "\<And>k. k < length outs \<Longrightarrow> f (ys ! k) = g (outs ! k)" for f :: "TxOutput \<Rightarrow> 'a" and g
    using l that by (intro nth_equalityI) simp_all
  show a: "map (\<lambda>y. the (outAmount y)) ys = map roAmount outs" by (rule m) (simp add: reveal_output_ok [OF o])
  show "map (\<lambda>y. length (the (outScript y))) ys = map (length \<circ> roScript) outs"
    by (rule m) (simp add: reveal_output_ok [OF o, THEN conjunct2, THEN conjunct1])
  show "map outScript ys = map (\<lambda>o'. Some (if 0 < roAmount o' \<and> \<not> (roScript o' \<noteq> [] \<and> roScript o' ! 0 = 0x6a) then dest else roScript o')) outs"
    by (rule m) (simp only: reveal_output_ok [OF o, THEN conjunct2, THEN conjunct2])
  show "paid ys = raw_paid outs" by (simp only: paid_def raw_paid_def a)
qed

definition commit_spend :: "('tx, 'z) psbt_lib_scheme \<Rightarrow> CommitEnvelope \<Rightarrow> bytes \<Rightarrow> nat \<Rightarrow> int \<Rightarrow> TxInput \<Rightarrow> bool" where
  "commit_spend L commit leaf vout value' i \<longleftrightarrow>
     inIndex i = Some vout \<and> inWitnessUtxo i = Some (ceScript commit, value') \<and> inTapInternalKey i = Some (NUMS_INTERNAL_KEY L) \<and>
     inTapLeafScript i = Some [(\<lparr>cbVersion = unat (ceControlBlock commit ! 0), cbInternalKey = NUMS_INTERNAL_KEY L, cbMerklePath = []\<rparr>, leaf @ [LEAF_VERSION])]"

lemma buildRevealPsbt_ok:
  assumes "tx_documented L" and "buildRevealPsbt L args = Inr (p, vin, commit)"
  obtains c core env leaf dest tx i where "requireTaprootCompose (rpCompose args) = Inr c" "raw_tx L (tcSignedReveal c) = Inr core"
    "hexToBytes (tcEnvelopeScript c) = Inr env" "reKeyEnvelope env (rpLeafKey32 args) = Inr leaf"
    "commitEnvelope L leaf (rpNetwork args) = Inr commit" "addressToScript L (rpDestinationAddress args) (rpNetwork args) = Inr dest"
    "p = encodePsbt L tx" "vin = 0" "txVersion L tx = rxVersion core" "txLockTime L tx = rxLockTime core"
    "each_ok (reveal_output dest) 0 (rxOutputs core) (tx_outs L tx)" "tx_ins L tx = [i]"
    "commit_spend L commit leaf (opVout (rpCommitOutpoint args)) (rpCommitValue args) i"
    "map_option Inr (inTxid i) = Some (hexToBytes (opTxid (rpCommitOutpoint args)))"
proof -
  obtain c env leaf core txid t1 dest t2 where b: "requireTaprootCompose (rpCompose args) = Inr c" "raw_tx L (tcSignedReveal c) = Inr core"
    "hexToBytes (tcEnvelopeScript c) = Inr env" "reKeyEnvelope env (rpLeafKey32 args) = Inr leaf"
    "commitEnvelope L leaf (rpNetwork args) = Inr commit" "addressToScript L (rpDestinationAddress args) (rpNetwork args) = Inr dest"
    "addInput L (newTransaction L (rxVersion core) (rxLockTime core) True)
       (empty_input\<lparr>inTxid := Some txid, inIndex := Some (opVout (rpCommitOutpoint args)),
          inSequence := (case rxInputs core of [] \<Rightarrow> None | i # _ \<Rightarrow> Some (riSequence i)),
          inWitnessUtxo := Some (ceScript commit, rpCommitValue args), inTapInternalKey := Some (NUMS_INTERNAL_KEY L),
          inTapLeafScript := Some [(\<lparr>cbVersion = unat (ceControlBlock commit ! 0), cbInternalKey = NUMS_INTERNAL_KEY L,
            cbMerklePath = []\<rparr>, leaf @ [LEAF_VERSION])],
          inSighashType := Some (if (case rpSighash args of None \<Rightarrow> SigAll | Some s \<Rightarrow> s) = SigAll then SIGHASH_ALL else SIGHASH_DEFAULT)\<rparr>) = Some t1"
    "add_each (addOutput L) (reveal_output dest) t1 0 (rxOutputs core) = Inr t2" "p = encodePsbt L t2" "vin = 0"
    "hexToBytes (opTxid (rpCommitOutpoint args)) = Inr txid"
    using assms(2) unfolding buildRevealPsbt_def
    by (auto simp: ebind_eq_Inr Let_def simp del: if_splits split: if_split_asm)
  note v1 = addInput_views [OF assms(1) b(7)] and n = new_views [OF assms(1), of "rxVersion core" "rxLockTime core" True]
  obtain ys where "each_ok (reveal_output dest) 0 (rxOutputs core) ys" "tx_outs L t2 = tx_outs L t1 @ ys" "tx_ins L t2 = tx_ins L t1" "same_frame L t1 t2"
    using add_outputs_views [OF assms(1) b(8)] by blast
  then show thesis using v1 n b(9-11)
    by (intro that [OF b(1-6), of t2]) (auto simp: same_frame_def commit_spend_def)
qed

text \<open>What the library says of a raw transaction: the weight of \<open>Transaction.fromRaw\<close> is the BIP-141 weight.\<close>

definition raw_reveal :: "RawTxData \<Rightarrow> TxIn \<Rightarrow> bytes list \<Rightarrow> WitnessTx" where
  "raw_reveal core i stack = \<lparr>wtVersion = nat (rxVersion core), wtIns = [i],
     wtOuts = map (\<lambda>o'. (nat (roAmount o'), roScript o')) (rxOutputs core), wtWitness = [stack], wtLockTime = rxLockTime core\<rparr>"

definition signed_outs :: "TxOutput list \<Rightarrow> (nat \<times> bytes) list" where
  "signed_outs outs = map (\<lambda>o'. (nat (the (outAmount o')), the (outScript o'))) outs"

lemma out_bytes_lengths:
  assumes "map (length \<circ> snd) xs = map (length \<circ> snd) ys"
  shows "length (concat (map out_bytes xs)) = length (concat (map out_bytes ys))"
  using assms
proof (induction xs arbitrary: ys)
  case (Cons x xs)
  obtain y ys' where y: "ys = y # ys'" "length (snd x) = length (snd y)" "map (length \<circ> snd) xs = map (length \<circ> snd) ys'"
    using Cons.prems by (cases ys) (simp_all add: comp_def)
  have "length (out_bytes x) = length (out_bytes y)"
    using y(2) by (cases x; cases y) (auto simp: out_bytes_def var_bytes_def split: sum.splits)
  then show ?case using Cons.IH [OF y(3)] y(1) by simp
qed simp

text \<open>The outputs of the reveal: Core's amounts, and Core's scripts but for those that hold money.\<close>

definition reveal_out :: "bytes \<Rightarrow> RawOut \<Rightarrow> TxOutput" where
  "reveal_out dest o' = \<lparr>outScript = Some (if 0 < roAmount o' \<and> \<not> (roScript o' \<noteq> [] \<and> roScript o' ! 0 = 0x6a) then dest
     else roScript o'), outAmount = Some (roAmount o')\<rparr>"

lemma reveal_outs_ok: "each_ok (reveal_output dest) 0 outs ys \<Longrightarrow> ys = map (reveal_out dest) outs"
proof -
  have "y = reveal_out dest o'" if "reveal_output dest k o' = Inr y" for k o' y
    using reveal_output_ok [OF that] unfolding reveal_out_def by (intro TxOutput.equality) simp_all
  then have "ys ! k = reveal_out dest (outs ! k)" if "reveal_output dest k (outs ! k) = Inr (ys ! k)" for k
    using that by blast
  then show "each_ok (reveal_output dest) 0 outs ys \<Longrightarrow> ys = map (reveal_out dest) outs"
    unfolding each_ok_def by (intro nth_equalityI) simp_all
qed

text \<open>
  The reveal is Core's reveal with another key. It copies Core's version, lock time and outputs: every amount, and
  every script but those that hold money, which become the destination's and keep their length, so the \<open>OP_RETURN\<close> that
  makes it a counter is untouched; it spends the re-keyed leaf; and its weight, with a 65-byte signature, is what
  \<open>revealWeightOf\<close> reads off Core's 64-byte one before anything is signed.
\<close>

theorem reveal_reproduces_core:
  assumes "tx_documented L" and "buildRevealPsbt L args = Inr (p, vin, commit)"
    and "requireTaprootCompose (rpCompose args) = Inr c" and "raw_tx L (tcSignedReveal c) = Inr core"
    and "hexToBytes (tcEnvelopeScript c) = Inr env" and "hexToBytes (tcSignedReveal c) = Inr bs"
    and "rawTxWeight L bs = Some (bip141_weight (raw_reveal core i [sig, env, cb]))"
    and "commit_in_ok i" "length sig = 64" "length cb = 33" "length env \<le> 0xffffffff"
    and "commit_in_ok i'" "length sig' = 65" "length cb' = 33"
  shows "\<exists>tx leaf dest. p = encodePsbt L tx \<and> reKeyEnvelope env (rpLeafKey32 args) = Inr leaf \<and>
    commitEnvelope L leaf (rpNetwork args) = Inr commit \<and> addressToScript L (rpDestinationAddress args) (rpNetwork args) = Inr dest \<and>
    txVersion L tx = rxVersion core \<and> txLockTime L tx = rxLockTime core \<and>
    (\<exists>inp. tx_ins L tx = [inp] \<and> commit_spend L commit leaf (opVout (rpCommitOutpoint args)) (rpCommitValue args) inp) \<and>
    map outAmount (tx_outs L tx) = map (Some \<circ> roAmount) (rxOutputs core) \<and>
    map outScript (tx_outs L tx) =
      map (\<lambda>o'. Some (if 0 < roAmount o' \<and> \<not> (roScript o' \<noteq> [] \<and> roScript o' ! 0 = 0x6a) then dest else roScript o')) (rxOutputs core) \<and>
    revealWeightOf L (rpCompose args) None =
      Inr (bip141_weight \<lparr>wtVersion = nat (txVersion L tx), wtIns = [i'], wtOuts = signed_outs (tx_outs L tx),
             wtWitness = [[sig', leaf, cb']], wtLockTime = txLockTime L tx\<rparr>)"
proof -
  obtain leaf dest tx inp where b: "reKeyEnvelope env (rpLeafKey32 args) = Inr leaf"
    "commitEnvelope L leaf (rpNetwork args) = Inr commit" "addressToScript L (rpDestinationAddress args) (rpNetwork args) = Inr dest"
    "p = encodePsbt L tx" "vin = 0" "txVersion L tx = rxVersion core" "txLockTime L tx = rxLockTime core"
    "each_ok (reveal_output dest) 0 (rxOutputs core) (tx_outs L tx)" "tx_ins L tx = [inp]"
    "commit_spend L commit leaf (opVout (rpCommitOutpoint args)) (rpCommitValue args) inp"
    using buildRevealPsbt_ok [OF assms(1,2)] assms(3-5) by (metis sum.inject(2))
  note e = reveal_outputs_each [OF b(8)]
  have l: "length (tx_outs L tx) = length (rxOutputs core)" using b(8) by (simp add: each_ok_def)
  have "map outAmount (tx_outs L tx) = map (Some \<circ> roAmount) (rxOutputs core)"
  proof (rule nth_equalityI)
    fix k assume "k < length (map outAmount (tx_outs L tx))"
    then show "map outAmount (tx_outs L tx) ! k = map (Some \<circ> roAmount) (rxOutputs core) ! k"
      using b(8) l reveal_output_ok [of dest k "rxOutputs core ! k" "tx_outs L tx ! k"] by (simp add: each_ok_def)
  qed (simp add: l)
  moreover have ll: "length leaf = length env" using rekey_swaps_key [OF b(1)] by blast
  moreover have "length (concat (map out_bytes (signed_outs (tx_outs L tx)))) =
      length (concat (map out_bytes (map (\<lambda>o'. (nat (roAmount o'), roScript o')) (rxOutputs core))))"
    using e(2) by (intro out_bytes_lengths) (simp add: signed_outs_def comp_def)
  moreover have "length (stack_bytes [sig', leaf, cb']) = length (stack_bytes [sig, env, cb]) + 1"
    using length_3_witness [OF refl _ _ assms(14), of sig' leaf] length_3_witness [OF refl _ assms(11,10), of sig] assms(9,11,13) ll
    by (simp add: compactSizeLen_def)
  ultimately show ?thesis using b(1-4,6,7,9,10) e(3) assms(3,6,7) l
    by (intro exI [of _ tx] exI [of _ leaf] exI [of _ dest])
      (simp add: revealWeightOf_def bip141_weight_split legacy_bytes_def body_bytes_def raw_reveal_def length_in_bytes [OF assms(8)]
        length_in_bytes [OF assms(12)] signed_outs_def)
qed

text \<open>The money that goes in: how far the top-up lifts Core's commit value.\<close>

lemma commitTopUp_ok:
  assumes "commitTopUp L compose rate = Inr t"
  obtains i v o' w where "coreCommitOutput L compose = Inr (i, v)" "revealOutputTotal L compose = Inr o'"
    "revealWeightOf L compose None = Inr w" "0 \<le> t" "t = max 0 (o' + int (feeFor (vbytesOf w) rate) - v)"
proof -
  obtain o' w i v where "revealOutputTotal L compose = Inr o'" "revealWeightOf L compose (Some SigAll) = Inr w"
      "coreCommitOutput L compose = Inr (i, v)" "t = max 0 (o' + int (feeFor (vbytesOf w) rate) - v)"
    using assms by (auto simp: commitTopUp_def ebind_eq_Inr Let_def split: if_splits)
  then show thesis using that by (auto simp: revealWeightOf_def)
qed

lemma revealOutputTotal_ok:
  "revealOutputTotal L compose = Inr o' \<Longrightarrow> requireTaprootCompose compose = Inr c \<Longrightarrow> raw_tx L (tcSignedReveal c) = Inr core \<Longrightarrow>
     o' = raw_paid (rxOutputs core)"
proof -
  have "foldl (\<lambda>s o'. s + roAmount o') a xs = a + raw_paid xs" for a xs
    by (induction xs arbitrary: a) (simp_all add: raw_paid_def)
  then show "revealOutputTotal L compose = Inr o' \<Longrightarrow> requireTaprootCompose compose = Inr c \<Longrightarrow> raw_tx L (tcSignedReveal c) = Inr core \<Longrightarrow>
     o' = raw_paid (rxOutputs core)"
    by (simp add: revealOutputTotal_def)
qed

lemma commit_shape:
  assumes "tx_documented L" and "buildCommitPsbt L args = Inr r"
  obtains c env leaf v tx where "requireTaprootCompose (cpCompose args) = Inr c" "hexToBytes (tcEnvelopeScript c) = Inr env"
    "reKeyEnvelope env (cpLeafKey32 args) = Inr leaf" "commitEnvelope L leaf (cpNetwork args) = Inr (cmCommit r)"
    "coreCommitOutput L (cpCompose args) = Inr v" "cmCommitValue r = snd v + (case cpTopUpSats args of None \<Rightarrow> 0 | Some t \<Rightarrow> t)"
    "cmPsbtBase64 r = encodePsbt L tx" "cmCommitVout r < length (tx_outs L tx)"
    "tx_outs L tx ! cmCommitVout r = pay (ceScript (cmCommit r)) (cmCommitValue r)"
proof -
  obtain c where c: "requireTaprootCompose (cpCompose args) = Inr c"
      "\<not> (case cpTopUpSats args of None \<Rightarrow> 0 | Some t \<Rightarrow> t) < 0"
    using assms(2) unfolding buildCommitPsbt_def ebind_eq_Inr Let_def by (metis Inl_Inr_False)
  obtain env leaf commit v where b: "hexToBytes (tcEnvelopeScript c) = Inr env"
      "reKeyEnvelope env (cpLeafKey32 args) = Inr leaf" "commitEnvelope L leaf (cpNetwork args) = Inr commit"
      "coreCommitOutput L (cpCompose args) = Inr v" "cmCommitValue r = snd v + (case cpTopUpSats args of None \<Rightarrow> 0 | Some t \<Rightarrow> t)"
      "cmCommit r = commit"
    using assms(2) unfolding buildCommitPsbt_def c(1) ebind_Inr Let_def if_not_P [OF c(2)]
    by (auto simp: ebind_eq_Inr Let_def simp del: if_splits split: if_split_asm prod.splits)
  show thesis
  proof (cases "cpUtxos args = []")
    case True
    obtain tx where "cmPsbtBase64 r = encodePsbt L tx" "cmCommitVout r < length (tx_outs L tx)"
        "tx_outs L tx ! cmCommitVout r = pay (ceScript (cmCommit r)) (cmCommitValue r)"
      using assms True by (rule reused_commit_parts) (rule that; assumption)
    note a = this
    have "commitEnvelope L leaf (cpNetwork args) = Inr (cmCommit r)" using b(3,6) by simp
    from that [OF c(1) b(1,2) this b(4,5) a(1)] show thesis by (simp add: a(2,3))
  next
    case False
    obtain tx rest where "cmPsbtBase64 r = encodePsbt L tx" "cmCommitVout r = 0"
        "tx_outs L tx = pay (ceScript (cmCommit r)) (cmCommitValue r) # rest"
      using assms False by (rule funded_commit_parts) (rule that; assumption)
    note a = this
    have "commitEnvelope L leaf (cpNetwork args) = Inr (cmCommit r)" using b(3,6) by simp
    from that [OF c(1) b(1,2) this b(4,5) a(1)] show thesis by (simp add: a(2,3))
  qed
qed

text \<open>
  C26: the pair fits. A commit built with the top-up of its compose, and the reveal built for the same key from its value
  and output index: the reveal has one input, which is that index of the transaction it was given, with the script and value
  of the very output the commit pays; its version, lock time and outputs are Core's, amount by amount and script by script,
  save that a script that holds money (and is no \<open>OP_RETURN\<close>) is the destination's; and what the commit holds beyond those
  outputs is at least the fee of the reveal's own weight at the rate.
\<close>

theorem mint_pair_pays:
  assumes "tx_documented L" and "buildCommitPsbt L args = Inr r" and "commitTopUp L (cpCompose args) rate = Inr t"
    and "cpTopUpSats args = Some t" and "buildRevealPsbt L rargs = Inr (p, vin, commit)"
    and "rpCompose rargs = cpCompose args" "rpLeafKey32 rargs = cpLeafKey32 args" "rpNetwork rargs = cpNetwork args"
      "rpCommitValue rargs = cmCommitValue r" "opVout (rpCommitOutpoint rargs) = cmCommitVout r"
  shows "\<exists>c core dest tx tx' inp w. requireTaprootCompose (cpCompose args) = Inr c \<and> raw_tx L (tcSignedReveal c) = Inr core \<and>
    addressToScript L (rpDestinationAddress rargs) (rpNetwork rargs) = Inr dest \<and>
    cmPsbtBase64 r = encodePsbt L tx \<and> p = encodePsbt L tx' \<and> cmCommitVout r < length (tx_outs L tx) \<and>
    tx_ins L tx' = [inp] \<and> commit = cmCommit r \<and>
    map_option Inr (inTxid inp) = Some (hexToBytes (opTxid (rpCommitOutpoint rargs))) \<and> inIndex inp = Some (cmCommitVout r) \<and>
    txVersion L tx' = rxVersion core \<and> txLockTime L tx' = rxLockTime core \<and> tx_outs L tx' = map (reveal_out dest) (rxOutputs core) \<and>
    map_option (\<lambda>(s, v). pay s v) (inWitnessUtxo inp) = Some (tx_outs L tx ! cmCommitVout r) \<and>
    revealWeightOf L (rpCompose rargs) None = Inr w \<and>
    paid (tx_outs L tx') + int (feeFor (vbytesOf w) rate) \<le> spent (tx_ins L tx')"
proof -
  obtain c env leaf v tx where b: "requireTaprootCompose (cpCompose args) = Inr c" "hexToBytes (tcEnvelopeScript c) = Inr env"
    "reKeyEnvelope env (cpLeafKey32 args) = Inr leaf" "commitEnvelope L leaf (cpNetwork args) = Inr (cmCommit r)"
    "coreCommitOutput L (cpCompose args) = Inr v" "cmCommitValue r = snd v + t"
    "cmPsbtBase64 r = encodePsbt L tx" "cmCommitVout r < length (tx_outs L tx)"
    "tx_outs L tx ! cmCommitVout r = pay (ceScript (cmCommit r)) (cmCommitValue r)"
    using commit_shape [OF assms(1,2)] unfolding assms(4) option.case by metis
  obtain core dest tx' inp where q: "raw_tx L (tcSignedReveal c) = Inr core" "commit = cmCommit r" "p = encodePsbt L tx'"
    "each_ok (reveal_output dest) 0 (rxOutputs core) (tx_outs L tx')" "tx_ins L tx' = [inp]"
    "inWitnessUtxo inp = Some (ceScript (cmCommit r), cmCommitValue r)"
    "addressToScript L (rpDestinationAddress rargs) (rpNetwork rargs) = Inr dest"
    "txVersion L tx' = rxVersion core" "txLockTime L tx' = rxLockTime core" "inIndex inp = Some (cmCommitVout r)"
    "map_option Inr (inTxid inp) = Some (hexToBytes (opTxid (rpCommitOutpoint rargs)))"
    using buildRevealPsbt_ok [OF assms(1,5)] b(1-4) unfolding assms(6-10) commit_spend_def by (metis sum.inject(2))
  obtain o' w where w: "revealOutputTotal L (cpCompose args) = Inr o'" "revealWeightOf L (cpCompose args) None = Inr w"
      "t = max 0 (o' + int (feeFor (vbytesOf w) rate) - snd v)"
    using commitTopUp_ok [OF assms(3)] b(5) by (metis snd_conv sum.inject(2))
  have "o' = paid (tx_outs L tx')" using revealOutputTotal_ok [OF w(1) b(1) q(1)] reveal_outputs_each(4) [OF q(4)] by simp
  then have "paid (tx_outs L tx') + int (feeFor (vbytesOf w) rate) \<le> spent (tx_ins L tx')"
    using w(3) b(6) q(5,6) by (simp add: spent_def)
  then show ?thesis using b(1,7-9) q w(2) assms(6) reveal_outs_ok [OF q(4)]
    by (intro exI [of _ c] exI [of _ core] exI [of _ dest] exI [of _ tx] exI [of _ tx'] exI [of _ inp] exI [of _ w]) simp
qed

subsection \<open>What the commit's own fee misses\<close>

text \<open>
  The weight of a commit leaves out the flag bytes. Every input asks for \<open>SIGHASH_ALL\<close>, which makes a taproot
  signature 65 bytes, and the weight counts 64: a signed commit of \<open>n\<close> taproot coins with a change output weighs \<open>n\<close> more
  than what its fee was computed over.
\<close>

theorem commit_weight_misses_flags:
  assumes "\<forall>u \<in> set us. \<exists>s. hexToBytes (utScriptPubKey u) = Inr s \<and> isP2TR s"
    and "length ins = length us" "list_all commit_in_ok ins" "length sigs = length us" "list_all (\<lambda>s. length s = 65) sigs"
    and "length us \<le> 252" "length script \<le> 0xffffffff" "length changeScript \<le> 0xffffffff"
  shows "bip141_weight \<lparr>wtVersion = 2, wtIns = ins, wtOuts = [(v, script), (c, changeScript)],
      wtWitness = map (\<lambda>s. [s]) sigs, wtLockTime = 0\<rparr> = commit_weight script changeScript us + length us"
proof -
  have cw: "coins_weight us = 230 * length us" using assms(1)
  proof (induction us)
    case (Cons u us)
    have "coin_weight u = 230" using Cons.prems by (auto simp: coin_weight_def inputWeight_def isP2TR_def)
    then show ?case using Cons by simp
  qed simp
  have st: "length (concat (map stack_bytes (map (\<lambda>s. [s]) sigs))) = 67 * length sigs" using assms(5)
  proof (induction sigs)
    case (Cons s sigs)
    have "length (stack_bytes [s]) = 67" using Cons.prems by (simp add: stack_bytes_def length_count_bytes length_var_bytes compactSizeLen_def)
    then show ?case using Cons by simp
  qed simp
  have i: "length (concat (map in_bytes ins)) = 41 * length ins" using assms(3)
    by (induction ins) (simp_all add: length_in_bytes INPUT_BASE_def)
  show ?thesis
    using assms(2,4,6-8) by (simp add: bip141_weight_split legacy_bytes_def body_bytes_def i st [simplified] cw commit_weight_def
        outputWeight_def length_count_bytes length_out_bytes outputSize_def compactSizeLen_def)
qed

subsection \<open>A concrete mint\<close>

text \<open>A library of lists that adds outputs at any time, in which Core composed a commit of 1000 sat with change, and a native reveal.\<close>

definition core_env :: bytes where "core_env = OP_PUSH32 # replicate 32 7 @ [OP_CHECKSIG]"

definition core_commit :: RawTxData where
  "core_commit = \<lparr>rxVersion = 2, rxInputs = [\<lparr>riTxid = replicate 32 1, riIndex = 0, riSequence = 7\<rparr>],
     rxOutputs = [\<lparr>roAmount = 1000, roScript = 0x51 # 0x20 # replicate 32 7\<rparr>,
       \<lparr>roAmount = 50000, roScript = 0x51 # 0x20 # replicate 32 3\<rparr>], rxLockTime = 0\<rparr>"

definition core_reveal :: RawTxData where
  "core_reveal = \<lparr>rxVersion = 2, rxInputs = [\<lparr>riTxid = replicate 32 2, riIndex = 0, riSequence = 7\<rparr>],
     rxOutputs = [\<lparr>roAmount = 0, roScript = 0x6a # replicate 9 8\<rparr>], rxLockTime = 0\<rparr>"

definition core_stack :: "bytes list" where "core_stack = [replicate 64 1, core_env, replicate 33 1]"

definition psbt_conc :: "ConcTx psbt_lib" where
  "psbt_conc = mint_lib.extend (btc_lib.extend ((conc_lib (conc_tx None))\<lparr>addOutput := (\<lambda>t x. Some (t\<lparr>cxOuts := cxOuts t @ [x]\<rparr>))\<rparr>) (mint_lib.fields (\<lambda>k s v. Some (0x51 # 0x20 # k))))
     (psbt_lib.fields (\<lambda>bs. Some (if bs = [1] then core_commit else core_reveal))
       (\<lambda>bs. Some (bip141_weight (raw_reveal core_reveal example_in core_stack))) (\<lambda>t k. False))"

definition core_compose :: ComposeResult where
  "core_compose = \<lparr>crRawtransaction = Some (bytesToHex [1]), crEnvelopeScript = Some (bytesToHex core_env),
     crSignedReveal = Some (bytesToHex [2]), crBtcFee = Some 300, crInputsValues = Some [51300],
     crLockScripts = Some [bytesToHex (0x51 # 0x20 # replicate 32 3)]\<rparr>"

definition core_parts :: TaprootCompose where
  "core_parts = \<lparr>tcRawtransaction = bytesToHex [1], tcEnvelopeScript = bytesToHex core_env, tcSignedReveal = bytesToHex [2]\<rparr>"

definition one_coin :: Utxo where
  "one_coin = \<lparr>utTxid = bytesToHex (replicate 32 5), utVout = 1, utValue = 90000,
     utScriptPubKey = bytesToHex (0x51 # 0x20 # replicate 32 3), utTapInternalKey = None\<rparr>"

definition mint_commit_args :: "Utxo list \<Rightarrow> int \<Rightarrow> CommitPsbtArgs" where
  "mint_commit_args coins t = \<lparr>cpNetwork = Signet, cpCompose = core_compose, cpLeafKey32 = replicate 32 9, cpUtxos = coins,
     cpChangeAddress = ''R'', cpFeeRate = Some (JsFloat False 1 0), cpTopUpSats = Some t\<rparr>"

definition mint_reveal_args :: "int \<Rightarrow> RevealPsbtArgs" where
  "mint_reveal_args v = \<lparr>rpNetwork = Signet, rpCompose = core_compose, rpLeafKey32 = replicate 32 9,
     rpCommitOutpoint = \<lparr>opTxid = replicate 64 CHR ''a'', opVout = 0\<rparr>, rpCommitValue = v, rpDestinationAddress = ''R'', rpSighash = None\<rparr>"

lemma psbt_conc_documented: "tx_documented psbt_conc"
  by (auto simp: psbt_conc_def mint_lib.defs btc_lib.defs psbt_lib.defs conc_lib_def tx_documented_def same_frame_def nth_append)

lemma psbt_conc_simps:
  "addInput psbt_conc t i = Some (t\<lparr>cxIns := cxIns t @ [i]\<rparr>)" "addOutput psbt_conc t x = Some (t\<lparr>cxOuts := cxOuts t @ [x]\<rparr>)"
  "addressDecodeScript psbt_conc n a = Some (0x51 # 0x20 # replicate 32 (if a = ''R'' then 8 else 9))"
  "p2trLeafScript psbt_conc k s v = Some (0x51 # 0x20 # k)"
  "rawTxDecode psbt_conc bs = Some (if bs = [1] then core_commit else core_reveal)"
  "rawTxWeight psbt_conc bs = Some (bip141_weight (raw_reveal core_reveal example_in core_stack))"
  "taprootTweakPubkey psbt_conc k h = Some (replicate 32 4, 0)" "encodeTr psbt_conc k = 0x51 # 0x20 # k"
  by (simp_all add: psbt_conc_def mint_lib.defs btc_lib.defs psbt_lib.defs conc_lib_def)

lemma core_compose_parts: "requireTaprootCompose core_compose = Inr core_parts"
proof -
  have "bytesToHex (b # bs) \<noteq> []" for b bs by (simp add: bytesToHex_def hex_byte_def)
  then show ?thesis by (simp add: requireTaprootCompose_def core_compose_def core_parts_def given_def core_env_def)
qed

lemma core_txs: "raw_tx psbt_conc (tcRawtransaction core_parts) = Inr core_commit" "raw_tx psbt_conc (tcSignedReveal core_parts) = Inr core_reveal"
  "hexToBytes (tcEnvelopeScript core_parts) = Inr core_env" "hexToBytes (tcSignedReveal core_parts) = Inr [2]"
  by (simp_all add: raw_tx_def core_parts_def hexToBytes_hex psbt_conc_simps)

lemma core_leaf: "reKeyEnvelope core_env (replicate 32 9) = Inr (OP_PUSH32 # replicate 32 9 @ [OP_CHECKSIG])"
  using reKey_of_split [of "replicate 32 7" "replicate 32 9" "[]"] by (simp add: core_env_def)

lemma core_commit_found: "coreCommitOutput psbt_conc core_compose = Inr (0, 1000)"
proof -
  have "envelopeLeafKey core_env = Inr (replicate 32 7)"
    using leafKey_of_split [of "replicate 32 7" "[]"] by (simp add: core_env_def)
  moreover have "replicate 32 (3 :: byte) \<noteq> replicate 32 7" by (simp add: replicate_eq_replicate)
  ultimately show ?thesis
    by (simp add: coreCommitOutput_def core_compose_parts core_txs coreCommitScript_def psbt_conc_simps core_commit_def)
qed

lemma feeFor_small: "v * m < 2 ^ 53 \<Longrightarrow> feeFor v (Some (JsFloat False m 0)) = v * m"
proof -
  assume a: "v * m < 2 ^ 53"
  have "bit_len (v * m) \<le> 53"
  proof (cases "v * m = 0")
    case False
    then have "2 ^ (bit_len (v * m) - 1) \<le> v * m" using bit_len_bounds [of "v * m"] by simp
    then have "(2 :: nat) ^ (bit_len (v * m) - 1) < 2 ^ 53" using a by linarith
    then have "bit_len (v * m) - 1 < 53" by (rule power_less_imp_less_exp [rotated]) simp
    then show ?thesis by linarith
  qed (metis bit_len_0 le0)
  then show ?thesis by (simp add: feeFor_def float_times_def ceil_dyadic_def Let_def)
qed

definition conc_envelope :: CommitEnvelope where
  "conc_envelope = \<lparr>ceAddress = addressEncodeTr psbt_conc (networkParams psbt_conc Signet) (replicate 32 4), ceScript = 0x51 # 0x20 # replicate 32 4,
     ceControlBlock = u8 (unat LEAF_VERSION OR 0) # NUMS_INTERNAL_KEY psbt_conc,
     ceTapLeafHash = tapLeafHash psbt_conc (OP_PUSH32 # replicate 32 9 @ [OP_CHECKSIG]) LEAF_VERSION,
     ceLeaf = OP_PUSH32 # replicate 32 9 @ [OP_CHECKSIG], ceInternalKey = NUMS_INTERNAL_KEY psbt_conc\<rparr>"

lemma conc_envelope: "commitEnvelope psbt_conc (OP_PUSH32 # replicate 32 9 @ [OP_CHECKSIG]) Signet = Inr conc_envelope"
  by (simp add: commitEnvelope_def conc_envelope_def psbt_conc_simps)

lemmas mint_facts = core_compose_parts core_txs core_leaf conc_envelope core_commit_found

lemma reused_builds: "\<exists>r. buildCommitPsbt psbt_conc (mint_commit_args [] 100) = Inr r"
  by (simp add: buildCommitPsbt_def mint_commit_args_def mint_facts change_index_def)
    (simp add: core_commit_def core_input_def core_compose_def prevout_at_def hexToBytes_hex psbt_conc_simps commit_output_def REGULAR_DUST_def)

lemma funded_builds: "0 \<le> t \<Longrightarrow> t \<le> 1000 \<Longrightarrow> \<exists>r. buildCommitPsbt psbt_conc (mint_commit_args [one_coin] t) = Inr r"
  by (simp add: buildCommitPsbt_def mint_commit_args_def mint_facts valid_rate_def addressToScript_def psbt_conc_simps
      one_coin_def hexToBytes_hex inputWeight_def conc_envelope_def outputWeight_def compactSizeLen_def vbytesOf_def feeFor_small
      coin_input_def given_def Let_def)

lemma reveal_builds: "0 < v \<Longrightarrow> \<exists>p n c. buildRevealPsbt psbt_conc (mint_reveal_args v) = Inr (p, n, c)"
proof -
  have t: "is_txid (replicate 64 CHR ''a'')"
    by (simp add: is_txid_def list_all_iff is_hex_def hex_val_def)
  have "\<exists>bs. hexToBytes (replicate 64 CHR ''a'') = Inr bs"
  proof -
    have c: "concat (replicate n [a, a]) = replicate (2 * n) a" for n and a :: char by (induction n) simp_all
    have "hex_byte 0xaa = [CHR ''a'', CHR ''a'']" by code_simp
    then have "bytesToHex (replicate 32 0xaa) = replicate 64 CHR ''a''"
      by (simp only: bytesToHex_def map_replicate c) simp
    then show ?thesis using hexToBytes_hex [of "replicate 32 0xaa"] by metis
  qed
  then show "0 < v \<Longrightarrow> ?thesis"
    by (auto simp: buildRevealPsbt_def mint_reveal_args_def mint_facts t psbt_conc_simps addressToScript_def)
      (simp add: core_reveal_def reveal_output_def psbt_conc_simps)
qed

lemma core_reveal_weight: "bip141_weight (raw_reveal core_reveal example_in core_stack) = 417"
  by (simp add: bip141_weight_split legacy_bytes_def body_bytes_def raw_reveal_def core_reveal_def core_stack_def core_env_def
      length_in_bytes length_count_bytes length_out_bytes outputSize_def compactSizeLen_def INPUT_BASE_def example_in_def commit_in_ok_def
      stack_bytes_def length_var_bytes)

text \<open>The commit of 1000 sat with a top-up of 100, on Core's input; and on a coin of 90000 sat.\<close>

theorem reused_commit_keeps_fee_witness:
  "\<exists>r tx. buildCommitPsbt psbt_conc (mint_commit_args [] 100) = Inr r \<and> cmPsbtBase64 r = encodePsbt psbt_conc tx \<and> cmCommitValue r = 1100 \<and>
     paid (tx_outs psbt_conc tx) = 51000"
proof -
  obtain r where r: "buildCommitPsbt psbt_conc (mint_commit_args [] 100) = Inr r" using reused_builds by blast
  have a: "cpUtxos (mint_commit_args [] 100) = []" "cpCompose (mint_commit_args [] 100) = core_compose" "cpTopUpSats (mint_commit_args [] 100) = Some 100"
    by (simp_all add: mint_commit_args_def)
  have "raw_paid (rxOutputs core_commit) = 51000" by (simp add: raw_paid_def core_commit_def)
  then show ?thesis using reused_commit_keeps_fee [OF psbt_conc_documented r a(1)] r unfolding a by (auto simp: mint_facts)
qed

theorem funded_commit_conserves_witness:
  "\<exists>r tx. buildCommitPsbt psbt_conc (mint_commit_args [one_coin] 0) = Inr r \<and> cmPsbtBase64 r = encodePsbt psbt_conc tx \<and>
     spent (tx_ins psbt_conc tx) = paid (tx_outs psbt_conc tx) + cmFee r"
proof -
  obtain r where r: "buildCommitPsbt psbt_conc (mint_commit_args [one_coin] 0) = Inr r" using funded_builds [of 0] by auto
  have a: "cpUtxos (mint_commit_args [one_coin] 0) \<noteq> []" by (simp add: mint_commit_args_def)
  from funded_commit_conserves [OF psbt_conc_documented r a] obtain tx where
    "cmPsbtBase64 r = encodePsbt psbt_conc tx" "spent (tx_ins psbt_conc tx) = paid (tx_outs psbt_conc tx) + cmFee r" by blast
  then show ?thesis using r by blast
qed

text \<open>A reveal of 418 weight units: 105 virtual bytes at 16 sat/vB take 1680 sat, so the commit of 1000 needs 680 more.\<close>

lemma conc_top_up: "commitTopUp psbt_conc core_compose (Some (JsFloat False 16 0)) = Inr 680"
proof -
  have "revealOutputTotal psbt_conc core_compose = Inr 0" by (simp add: revealOutputTotal_def mint_facts) (simp add: core_reveal_def)
  moreover have "revealWeightOf psbt_conc core_compose (Some SigAll) = Inr 418"
    by (simp add: revealWeightOf_def mint_facts psbt_conc_simps core_reveal_weight)
  ultimately show ?thesis
    by (simp add: commitTopUp_def valid_rate_def mint_facts vbytesOf_def feeFor_small)
qed

theorem mint_pair_pays_witness:
  "\<exists>r p n c tx'. buildCommitPsbt psbt_conc (mint_commit_args [one_coin] 680) = Inr r \<and>
     buildRevealPsbt psbt_conc (mint_reveal_args (cmCommitValue r)) = Inr (p, n, c) \<and> p = encodePsbt psbt_conc tx' \<and>
     paid (tx_outs psbt_conc tx') + 1680 \<le> spent (tx_ins psbt_conc tx')"
proof -
  obtain r where r: "buildCommitPsbt psbt_conc (mint_commit_args [one_coin] 680) = Inr r" using funded_builds [of 680] by auto
  obtain v where "coreCommitOutput psbt_conc core_compose = Inr v" "cmCommitValue r = snd v + 680"
    using commit_shape [OF psbt_conc_documented r] by (simp add: mint_commit_args_def) blast
  then have "0 < cmCommitValue r" using core_commit_found by auto
  then obtain p n c where p: "buildRevealPsbt psbt_conc (mint_reveal_args (cmCommitValue r)) = Inr (p, n, c)" using reveal_builds by blast
  have "cmCommitVout r = 0"
    by (rule funded_commit_parts [OF psbt_conc_documented r]) (simp add: mint_commit_args_def)
  moreover have w: "revealWeightOf psbt_conc core_compose None = Inr 418"
    by (simp add: revealWeightOf_def mint_facts psbt_conc_simps core_reveal_weight)
  moreover have "feeFor (vbytesOf 418) (Some (JsFloat False 16 0)) = 1680" by (simp add: vbytesOf_def feeFor_small)
  ultimately show ?thesis
    using mint_pair_pays [OF psbt_conc_documented r _ _ p, of "Some (JsFloat False 16 0)" 680] r p conc_top_up w
    by (auto simp: mint_commit_args_def mint_reveal_args_def)
qed

theorem reveal_reproduces_core_witness:
  "\<exists>p n c tx. buildRevealPsbt psbt_conc (mint_reveal_args 2000) = Inr (p, n, c) \<and> p = encodePsbt psbt_conc tx \<and>
     map outScript (tx_outs psbt_conc tx) = [Some (0x6a # replicate 9 8)]"
proof -
  obtain p n c where p: "buildRevealPsbt psbt_conc (mint_reveal_args 2000) = Inr (p, n, c)" using reveal_builds [of 2000] by auto
  have a: "rpCompose (mint_reveal_args 2000) = core_compose" by (simp add: mint_reveal_args_def)
  have i: "commit_in_ok example_in" by (simp add: example_in_def commit_in_ok_def)
  have "\<exists>tx. p = encodePsbt psbt_conc tx \<and> map outScript (tx_outs psbt_conc tx) = map (\<lambda>o'. Some (if 0 < roAmount o' \<and> \<not> (roScript o' \<noteq> [] \<and> roScript o' ! 0 = 0x6a) then undefined else roScript o')) (rxOutputs core_reveal)"
    using reveal_reproduces_core [OF psbt_conc_documented p core_compose_parts [folded a] core_txs(2,3,4), of example_in "replicate 64 1" "replicate 33 1"
        example_in "replicate 65 1" "replicate 33 1"] i
    by (auto simp: psbt_conc_simps core_stack_def core_env_def core_reveal_def)
  then show ?thesis using p by (auto simp: core_reveal_def)
qed

text \<open>Four taproot coins: four weight units, one virtual byte.\<close>

theorem commit_weight_misses_flags_witness:
  "bip141_weight \<lparr>wtVersion = 2, wtIns = replicate 4 example_in, wtOuts = [(1000, replicate 34 1), (546, replicate 34 2)],
      wtWitness = map (\<lambda>s. [s]) (replicate 4 (replicate 65 0)), wtLockTime = 0\<rparr> =
   commit_weight (replicate 34 1) (replicate 34 2) (replicate 4 one_coin) + 4"
proof -
  have "length (replicate 4 one_coin) = 4" by simp
  then show ?thesis
    using commit_weight_misses_flags [of "replicate 4 one_coin" "replicate 4 example_in" "replicate 4 (replicate 65 0)" "replicate 34 1" "replicate 34 2" 1000 546]
    by (simp add: one_coin_def hexToBytes_hex isP2TR_def list_all_iff example_in_def commit_in_ok_def)
qed

end
