(* ===== verification/MintContent.thy ===== *)
theory MintContent imports MintEnvelope begin

text \<open>
  \<open>content.ts\<close> and the state machine of \<open>plan.ts\<close> of \<open>counters-mint\<close>: how a file becomes the description of an asset, and
  the stages a mint may go through. MIME types and file names are ASCII text.
\<close>

subsection \<open>MIME types\<close>

datatype content_kind = TextContent | BinaryContent

definition TEXTUAL_APPLICATION_MIME_TYPES :: "string list" where
  "TEXTUAL_APPLICATION_MIME_TYPES =
     [''application/xml'', ''application/javascript'', ''application/ecmascript'', ''application/x-javascript'',
      ''application/json'', ''application/manifest+json'', ''application/x-python-code'', ''application/x-sh'',
      ''application/x-csh'', ''application/x-tex'', ''application/x-latex'', ''application/postscript'', ''application/yaml'',
      ''application/x-yaml'', ''application/sql'']"

definition stripParameters :: "string \<Rightarrow> string" where
  "stripParameters mimeType = lower_string (trim (takeWhile (\<lambda>c. c \<noteq> CHR '';'') mimeType))"

definition starts_with :: "string \<Rightarrow> string \<Rightarrow> bool" where "starts_with p s = (take (length p) s = p)"

definition ends_with :: "string \<Rightarrow> string \<Rightarrow> bool" where
  "ends_with p s = (length p \<le> length s \<and> drop (length s - length p) s = p)"

definition classifyMimeType :: "string \<Rightarrow> content_kind" where
  "classifyMimeType mimeType =
     (let target = stripParameters mimeType in
      if starts_with ''text/'' target \<or> starts_with ''message/'' target \<or> ends_with ''+xml'' target \<or> ends_with ''+json'' target
      then TextContent
      else if target \<in> set TEXTUAL_APPLICATION_MIME_TYPES then TextContent else BinaryContent)"

definition EXTENSION_TYPES :: "(string \<times> string) list" where
  "EXTENSION_TYPES =
     [(''txt'', ''text/plain''), (''md'', ''text/markdown''), (''html'', ''text/html''), (''htm'', ''text/html''),
      (''css'', ''text/css''), (''csv'', ''text/csv''), (''js'', ''application/javascript''), (''json'', ''application/json''),
      (''xml'', ''application/xml''), (''yaml'', ''application/yaml''), (''yml'', ''application/yaml''), (''svg'', ''image/svg+xml''),
      (''png'', ''image/png''), (''jpg'', ''image/jpeg''), (''jpeg'', ''image/jpeg''), (''gif'', ''image/gif''), (''webp'', ''image/webp''),
      (''avif'', ''image/avif''), (''bmp'', ''image/bmp''), (''ico'', ''image/x-icon''), (''pdf'', ''application/pdf''),
      (''mp3'', ''audio/mpeg''), (''wav'', ''audio/wav''), (''ogg'', ''audio/ogg''), (''mp4'', ''video/mp4''), (''webm'', ''video/webm''),
      (''wasm'', ''application/wasm''), (''zip'', ''application/zip''), (''glb'', ''model/gltf-binary''), (''gltf'', ''model/gltf+json'')]"

text \<open>
  A lookup in an object literal also finds what it inherits from \<open>Object.prototype\<close>; of those names two are in lower case,
  and what is found there is no string.
\<close>

datatype js_lookup = Found string | Inherited | Missing

definition extension_lookup :: "string \<Rightarrow> js_lookup" where
  "extension_lookup ext =
     (case map_of EXTENSION_TYPES ext of Some t \<Rightarrow> Found t
      | None \<Rightarrow> if ext = ''constructor'' \<or> ext = ''__proto__'' then Inherited else Missing)"

definition last_dot_part :: "string \<Rightarrow> string" where
  "last_dot_part s = rev (takeWhile (\<lambda>c. c \<noteq> CHR ''.'') (rev s))"

definition guessContentType :: "string \<Rightarrow> string \<Rightarrow> js_lookup" where
  "guessContentType fileName reportedType =
     (let ext = (if CHR ''.'' \<in> set fileName then lower_string (last_dot_part fileName) else []) in
      case extension_lookup ext of
        Missing \<Rightarrow> Found (if reportedType = [] then ''application/octet-stream'' else reportedType)
      | r \<Rightarrow> r)"

subsection \<open>Content as a description\<close>

record EncodedContent =
  ecDescription :: js_string
  ecMimeType :: string
  ecKind :: content_kind

definition encodeContent :: "bytes \<Rightarrow> string \<Rightarrow> insc_error + EncodedContent" where
  "encodeContent bs mimeType =
     (if mimeType = [] \<or> stripParameters mimeType = [] then Inl (Error ''a MIME type is required'')
      else if classifyMimeType mimeType = BinaryContent
      then Inr \<lparr>ecDescription = js_literal (bytesToHex bs), ecMimeType = mimeType, ecKind = BinaryContent\<rparr>
      else case utf8Decode bs of
          None \<Rightarrow> Inl (Error ''a textual type, but its bytes are not valid UTF-8'')
        | Some text \<Rightarrow> Inr \<lparr>ecDescription = text, ecMimeType = mimeType, ecKind = TextContent\<rparr>)"

definition descriptionBytes :: "js_string option \<Rightarrow> string option \<Rightarrow> nat" where
  "descriptionBytes description mimeType =
     (case description of
        None \<Rightarrow> 0
      | Some d \<Rightarrow>
          if d = [] then 0
          else if classifyMimeType (case mimeType of None \<Rightarrow> ''text/plain'' | Some m \<Rightarrow> m) = TextContent then length (utf8 d)
          else length d div 2)"

subsection \<open>The decoder loses nothing\<close>

lemma cont_obtain:
  assumes "is_cont b"
  obtains x where "unat b = 128 + x" "x < 64"
proof -
  have "unat b = 128 + (unat b - 128)" "unat b - 128 < 64" using assms by (auto simp: is_cont_def)
  then show thesis using that by blast
qed

lemma u8_of: "unat b = n \<Longrightarrow> u8 n = b"
  by (auto simp: u8_def)

lemma split_digits: "x < 64 \<Longrightarrow> (a * 64 + x) div 64 = a" "x < 64 \<Longrightarrow> (a * 64 + x) mod 64 = (x :: nat)"
  by simp_all

lemma utf8_point_2:
  assumes "0xC2 \<le> unat b" "unat b \<le> 0xDF" "is_cont b1" and c: "c = (unat b - 0xC0) * 64 + (unat b1 - 0x80)"
  shows "utf8_point c = [b, b1] \<and> scalar c"
proof -
  obtain x where x: "unat b1 = 128 + x" "x < 64" using assms(3) by (rule cont_obtain)
  define n where "n = unat b - 0xC0"
  have n: "unat b = 0xC0 + n" "2 \<le> n" "n < 32" using assms(1,2) by (simp_all add: n_def)
  have cn: "c = n * 64 + x" by (simp add: c n x)
  have r: "\<not> c < 0x80" "c < 0x800" using n x(2) unfolding cn by linarith+
  have "c div 64 = n" "c mod 64 = x" unfolding cn using x(2) by (simp_all add: split_digits)
  then show ?thesis using r u8_of [OF n(1)] u8_of [OF x(1)] by (simp add: utf8_point_def scalar_def)
qed

lemma utf8_point_3:
  assumes "0xE0 \<le> unat b" "unat b \<le> 0xEF" "is_cont b1" "is_cont b2" "unat b = 0xE0 \<longrightarrow> 0xA0 \<le> unat b1" "unat b = 0xED \<longrightarrow> unat b1 \<le> 0x9F"
    and c: "c = (unat b - 0xE0) * 4096 + (unat b1 - 0x80) * 64 + (unat b2 - 0x80)"
  shows "utf8_point c = [b, b1, b2] \<and> scalar c"
proof -
  obtain x where x: "unat b1 = 128 + x" "x < 64" using assms(3) by (rule cont_obtain)
  obtain y where y: "unat b2 = 128 + y" "y < 64" using assms(4) by (rule cont_obtain)
  define n where "n = unat b - 0xE0"
  have n: "unat b = 0xE0 + n" "n < 16" using assms(1,2) by (simp_all add: n_def)
  have e: "n = 0 \<longrightarrow> 32 \<le> x" "n = 13 \<longrightarrow> x < 32" using assms(5,6) by (auto simp: n x)
  have cn: "c = (n * 64 + x) * 64 + y" by (simp add: c n x y algebra_simps)
  define p where "p = n * 64 + x"
  have p: "32 \<le> p" "p < 1024" "p < 864 \<or> 895 < p"
  proof -
    show "32 \<le> p" using e(1) by (cases n) (simp_all add: p_def)
    show "p < 1024" using n(2) x(2) unfolding p_def by linarith
    consider "n \<le> 12" | "n = 13" | "14 \<le> n" by linarith
    then show "p < 864 \<or> 895 < p" using x(2) e(2) by cases (simp_all add: p_def)
  qed
  have "c = p * 64 + y" by (simp add: cn p_def)
  then have r: "\<not> c < 0x800" "c < 0x10000" "\<not> (0xD800 \<le> c \<and> c \<le> 0xDFFF)" using p y(2) by linarith+
  have d: "c div 64 = n * 64 + x" "c mod 64 = y" unfolding cn using y(2) by (simp_all only: split_digits)
  have "c div 4096 = c div 64 div 64" by (simp add: div_mult2_eq [symmetric])
  then have "c div 4096 = n" "c div 64 mod 64 = x" using d(1) x(2) by (simp_all add: split_digits)
  then show ?thesis using r d(2) u8_of [OF n(1)] u8_of [OF x(1)] u8_of [OF y(1)] by (simp add: utf8_point_def scalar_def)
qed

lemma utf8_point_4:
  assumes "0xF0 \<le> unat b" "unat b \<le> 0xF4" "is_cont b1" "is_cont b2" "is_cont b3"
    "unat b = 0xF0 \<longrightarrow> 0x90 \<le> unat b1" "unat b = 0xF4 \<longrightarrow> unat b1 \<le> 0x8F"
    and c: "c = (unat b - 0xF0) * 262144 + (unat b1 - 0x80) * 4096 + (unat b2 - 0x80) * 64 + (unat b3 - 0x80)"
  shows "utf8_point c = [b, b1, b2, b3] \<and> scalar c"
proof -
  obtain x where x: "unat b1 = 128 + x" "x < 64" using assms(3) by (rule cont_obtain)
  obtain y where y: "unat b2 = 128 + y" "y < 64" using assms(4) by (rule cont_obtain)
  obtain z where z: "unat b3 = 128 + z" "z < 64" using assms(5) by (rule cont_obtain)
  define n where "n = unat b - 0xF0"
  have n: "unat b = 0xF0 + n" "n \<le> 4" using assms(1,2) by (simp_all add: n_def)
  have e: "n = 0 \<longrightarrow> 16 \<le> x" "n = 4 \<longrightarrow> x < 16" using assms(6,7) by (auto simp: n x)
  have cn: "c = ((n * 64 + x) * 64 + y) * 64 + z" by (simp add: c n x y z algebra_simps)
  define p where "p = n * 64 + x"
  have p: "16 \<le> p" "p < 272"
  proof -
    show "16 \<le> p" using e(1) by (cases n) (simp_all add: p_def)
    consider "n \<le> 3" | "n = 4" using n(2) by linarith
    then show "p < 272" using x(2) e(2) by cases (simp_all add: p_def)
  qed
  have "c = p * 4096 + y * 64 + z" by (simp add: cn p_def algebra_simps)
  then have r: "\<not> c < 0x10000" "c < 0x110000" using p y(2) z(2) by simp_all
  have d: "c div 64 = (n * 64 + x) * 64 + y" "c mod 64 = z" unfolding cn using z(2) by (simp_all only: split_digits)
  have "c div 4096 = c div 64 div 64" "c div 262144 = c div 64 div 64 div 64" by (simp_all add: div_mult2_eq [symmetric])
  then have "c div 262144 = n" "c div 4096 mod 64 = x" "c div 64 mod 64 = y"
    unfolding d(1) using x(2) y(2) by (simp_all only: split_digits)
  then show ?thesis using r d(2) u8_of [OF n(1)] u8_of [OF x(1)] u8_of [OF y(1)] u8_of [OF z(1)]
    by (simp add: utf8_point_def scalar_def)
qed

lemma utf8_scalars_inverse: "utf8_scalars bs = Some cs \<Longrightarrow> concat (map utf8_point cs) = bs \<and> (\<forall>c \<in> set cs. scalar c)"
proof (induction bs arbitrary: cs rule: utf8_scalars.induct)
  case (2 b r)
  let ?n = "unat b"
  consider "?n < 0x80" | "0xC2 \<le> ?n" "?n \<le> 0xDF" | "0xE0 \<le> ?n" "?n \<le> 0xEF" | "0xF0 \<le> ?n" "?n \<le> 0xF4"
    using 2(5) by (fastforce simp: Let_def split: if_splits)
  then show ?case
  proof cases
    case 1
    then obtain ds where "utf8_scalars r = Some ds" "cs = ?n # ds" using 2(5) by auto
    moreover have "utf8_point ?n = [b]" "scalar ?n" using 1 by (simp_all add: utf8_point_def u8_def scalar_def)
    ultimately show ?thesis using 2(1) [OF refl 1] by simp
  next
    case 2
    then obtain b1 r1 ds where "r = b1 # r1" "is_cont b1" "utf8_scalars r1 = Some ds" "cs = ((?n - 0xC0) * 64 + (unat b1 - 0x80)) # ds"
      using "2.prems" by (auto simp: Let_def split: list.splits if_splits)
    then show ?thesis using "2.IH"(2) [OF refl _ _ \<open>r = b1 # r1\<close>] utf8_point_2 [OF 2 _ refl, of b1] 2 by simp
  next
    case 3
    then obtain b1 b2 r2 ds where "r = b1 # b2 # r2" and c: "is_cont b1" "is_cont b2" "?n = 0xE0 \<longrightarrow> 0xA0 \<le> unat b1" "?n = 0xED \<longrightarrow> unat b1 \<le> 0x9F"
        and "utf8_scalars r2 = Some ds" "cs = ((?n - 0xE0) * 4096 + (unat b1 - 0x80) * 64 + (unat b2 - 0x80)) # ds"
      using "2.prems" by (auto simp: Let_def split: list.splits if_splits)
    then show ?thesis using "2.IH"(3) [OF refl _ _ _ \<open>r = b1 # b2 # r2\<close> refl] utf8_point_3 [OF 3 c refl] 3 by simp
  next
    case 4
    then obtain b1 b2 b3 r3 ds where "r = b1 # b2 # b3 # r3" and c: "is_cont b1" "is_cont b2" "is_cont b3"
        "?n = 0xF0 \<longrightarrow> 0x90 \<le> unat b1" "?n = 0xF4 \<longrightarrow> unat b1 \<le> 0x8F"
        and "utf8_scalars r3 = Some ds"
        "cs = ((?n - 0xF0) * 262144 + (unat b1 - 0x80) * 4096 + (unat b2 - 0x80) * 64 + (unat b3 - 0x80)) # ds"
      using "2.prems" by (auto simp: Let_def split: list.splits if_splits)
    then show ?thesis using "2.IH"(4) [OF refl _ _ _ _ \<open>r = b1 # b2 # b3 # r3\<close> refl refl] utf8_point_4 [OF 4 c refl] 4 by simp
  qed
qed simp

text \<open>UTF-16 is read back as the points it was written from.\<close>

lemma unit_of_nat: "n < 65536 \<Longrightarrow> unat (word_of_nat n :: 16 word) = n"
  by (simp add: unat_of_nat)

lemma utf16_points_point: "scalar c \<Longrightarrow> utf16_points (point_units c @ s) = c # utf16_points s"
proof -
  assume sc: "scalar c"
  show "utf16_points (point_units c @ s) = c # utf16_points s"
  proof (cases "c < 0x10000")
    case True
    then have u: "unat (word_of_nat c :: 16 word) = c" by (simp add: unat_of_nat)
    then have "\<not> hi_surrogate (word_of_nat c)" "\<not> lo_surrogate (word_of_nat c)"
      using sc by (auto simp: hi_surrogate_def lo_surrogate_def scalar_def)
    then show ?thesis using True u by (cases s) (simp_all add: point_units_def)
  next
    case False
    define d where "d = c - 0x10000"
    have d: "c = 0x10000 + d" "d < 0x100000" using False sc by (simp_all add: d_def scalar_def)
    have b: "d div 0x400 < 0x400" "d mod 0x400 < 0x400" using d(2) by (simp_all add: div_less_iff_less_mult)
    let ?u = "word_of_nat (0xD800 + d div 0x400) :: 16 word" and ?v = "word_of_nat (0xDC00 + d mod 0x400) :: 16 word"
    have uv: "unat ?u = 0xD800 + d div 0x400" "unat ?v = 0xDC00 + d mod 0x400"
      using b by (intro unit_of_nat; linarith)+
    then have "hi_surrogate ?u" "lo_surrogate ?v" using b by (simp_all add: hi_surrogate_def lo_surrogate_def)
    moreover have "pair_point ?u ?v = c" using uv d(1) by (simp add: pair_point_def)
    moreover have "point_units c = [?u, ?v]" using False by (simp add: point_units_def d_def)
    ultimately show ?thesis by simp
  qed
qed

lemma utf16_points_inverse: "\<forall>c \<in> set cs. scalar c \<Longrightarrow> utf16_points (concat (map point_units cs)) = cs"
  by (induction cs) (simp_all add: utf16_points_point)

lemma utf8Decode_inverse: "utf8Decode bs = Some s \<Longrightarrow> utf8 s = strip_bom bs"
  by (auto simp: utf8Decode_def utf8_def utf16_points_inverse dest!: utf8_scalars_inverse)

text \<open>
  C31: a file's bytes come back out of its description, but for a byte-order mark. What is encoded as binary is the
  hexadecimal of the bytes; what is encoded as text is UTF-8 of exactly those bytes, unless they begin with EF BB BF,
  which is dropped without an error; bytes that are no UTF-8 are refused under a textual type; and \<open>descriptionBytes\<close>
  counts what is kept.
\<close>

theorem content_kept_but_bom:
  "(case encodeContent bs mimeType of
      Inl _ \<Rightarrow> stripParameters mimeType = [] \<or> (classifyMimeType mimeType = TextContent \<and> utf8_scalars (strip_bom bs) = None)
    | Inr e \<Rightarrow> ecMimeType e = mimeType \<and> ecKind e = classifyMimeType mimeType \<and>
        (if ecKind e = BinaryContent
         then hexToBytes (map (\<lambda>u. char_of (unat u)) (ecDescription e)) = Inr bs \<and> descriptionBytes (Some (ecDescription e)) (Some mimeType) = length bs
         else utf8 (ecDescription e) = strip_bom bs \<and> descriptionBytes (Some (ecDescription e)) (Some mimeType) = length (strip_bom bs))) \<and>
   encodeContent [0xEF, 0xBB, 0xBF, 0x61] ''text/plain'' = encodeContent [0x61] ''text/plain''"
proof -
  have strip: "stripParameters [] = []" by (simp add: stripParameters_def lower_string_def trim_def)
  have lit: "map (\<lambda>u. char_of (unat u)) (js_literal s) = s" for s
  proof -
    have "char_of (unat (word_of_nat (of_char c) :: 16 word)) = c" for c
    proof -
      have "(of_char c :: nat) < 65536" by (rule less_trans [of _ 256]) simp_all
      then show ?thesis by (simp only: unit_of_nat char_of_char)
    qed
    then show ?thesis by (simp add: js_literal_def comp_def)
  qed
  have hexlen: "length (bytesToHex bs) = 2 * length bs" by (induction bs) (simp_all add: bytesToHex_def hex_byte_def)
  have "case encodeContent bs mimeType of
      Inl _ \<Rightarrow> stripParameters mimeType = [] \<or> (classifyMimeType mimeType = TextContent \<and> utf8_scalars (strip_bom bs) = None)
    | Inr e \<Rightarrow> ecMimeType e = mimeType \<and> ecKind e = classifyMimeType mimeType \<and>
        (if ecKind e = BinaryContent
         then hexToBytes (map (\<lambda>u. char_of (unat u)) (ecDescription e)) = Inr bs \<and> descriptionBytes (Some (ecDescription e)) (Some mimeType) = length bs
         else utf8 (ecDescription e) = strip_bom bs \<and> descriptionBytes (Some (ecDescription e)) (Some mimeType) = length (strip_bom bs))"
  proof (cases "mimeType = [] \<or> stripParameters mimeType = []")
    case True
    then show ?thesis using strip by (auto simp: encodeContent_def)
  next
    case False
    show ?thesis
    proof (cases "classifyMimeType mimeType")
      case BinaryContent
      have "length (js_literal s) = length s" "js_literal s = [] \<longleftrightarrow> s = []" for s by (simp_all add: js_literal_def)
      moreover have "bs = []" if "bytesToHex bs = []" using hexlen that by simp
      ultimately show ?thesis using False BinaryContent hexlen hexToBytes_hex [of bs]
        by (simp add: encodeContent_def lit descriptionBytes_def)
    next
      case TextContent
      show ?thesis
      proof (cases "utf8Decode bs")
        case None
        then show ?thesis using False TextContent by (simp add: encodeContent_def utf8Decode_def)
      next
        case (Some s)
        have "length (utf8 s) = length (strip_bom bs)" by (simp add: utf8Decode_inverse [OF Some])
        then show ?thesis using False TextContent Some utf8Decode_inverse [OF Some]
          by (simp add: encodeContent_def descriptionBytes_def) (metis length_0_conv utf8_eq_Nil)
      qed
    qed
  qed
  moreover have "encodeContent [0xEF, 0xBB, 0xBF, 0x61] ''text/plain'' = encodeContent [0x61] ''text/plain''"
  proof -
    have "utf8Decode [0xEF, 0xBB, 0xBF, 0x61] = utf8Decode [0x61]" by (simp add: utf8Decode_def strip_bom_def)
    moreover have "classifyMimeType ''text/plain'' = TextContent" by code_simp
    ultimately show ?thesis by (simp add: encodeContent_def)
  qed
  ultimately show ?thesis by blast
qed

subsection \<open>The stages of a mint\<close>

datatype MintStage = Idle | Composing | SigningCommit | BroadcastingCommit | SigningReveal | AwaitingCommit | BroadcastingReveal
  | Done | Failed

primrec MINT_TRANSITIONS :: "MintStage \<Rightarrow> MintStage list" where
  "MINT_TRANSITIONS Idle = [Composing]"
| "MINT_TRANSITIONS Composing = [SigningCommit, Failed]"
| "MINT_TRANSITIONS SigningCommit = [BroadcastingCommit, Failed]"
| "MINT_TRANSITIONS BroadcastingCommit = [SigningReveal, Failed]"
| "MINT_TRANSITIONS SigningReveal = [AwaitingCommit, BroadcastingReveal, Failed]"
| "MINT_TRANSITIONS AwaitingCommit = [BroadcastingReveal, Failed]"
| "MINT_TRANSITIONS BroadcastingReveal = [Done, Failed]"
| "MINT_TRANSITIONS Done = []"
| "MINT_TRANSITIONS Failed = [SigningReveal]"

definition canTransition :: "MintStage \<Rightarrow> MintStage \<Rightarrow> bool" where
  "canTransition from_stage to_stage = (to_stage \<in> set (MINT_TRANSITIONS from_stage))"

text \<open>The stages a mint has gone through, the last one first.\<close>

inductive mint_run :: "MintStage list \<Rightarrow> bool" where
  mint_start: "mint_run [Idle]"
| mint_step: "mint_run (s # h) \<Longrightarrow> canTransition s t \<Longrightarrow> mint_run (t # s # h)"

inductive_cases mint_run_cons: "mint_run (t # h)"

lemma canTransition_cases:
  "canTransition s t \<longleftrightarrow> (s, t) \<in> {(Idle, Composing), (Composing, SigningCommit), (SigningCommit, BroadcastingCommit),
     (BroadcastingCommit, SigningReveal), (SigningReveal, AwaitingCommit), (SigningReveal, BroadcastingReveal),
     (AwaitingCommit, BroadcastingReveal), (BroadcastingReveal, Done), (Failed, SigningReveal)} \<or>
     (t = Failed \<and> s \<in> {Composing, SigningCommit, BroadcastingCommit, SigningReveal, AwaitingCommit, BroadcastingReveal})"
  by (cases s; cases t) (simp_all add: canTransition_def)

lemma mint_run_suffix: "mint_run (a @ b) \<Longrightarrow> b \<noteq> [] \<Longrightarrow> mint_run b"
proof (induction a)
  case (Cons x a)
  then show ?case by (auto elim: mint_run_cons)
qed simp

definition mint_rank :: "MintStage \<Rightarrow> nat" where
  "mint_rank s = (case s of Idle \<Rightarrow> 1 | Composing \<Rightarrow> 2 | SigningCommit \<Rightarrow> 3 | BroadcastingCommit \<Rightarrow> 4 | SigningReveal \<Rightarrow> 5
     | AwaitingCommit \<Rightarrow> 6 | BroadcastingReveal \<Rightarrow> 7 | Done \<Rightarrow> 8 | Failed \<Rightarrow> 8)"

lemma mint_run_order:
  "mint_run h \<Longrightarrow> Failed \<notin> set h \<Longrightarrow> length h \<le> mint_rank (hd h) \<and>
     (hd h \<in> {SigningReveal, AwaitingCommit, BroadcastingReveal, Done} \<longrightarrow> BroadcastingCommit \<in> set (tl h))"
proof (induction rule: mint_run.induct)
  case (mint_step s h t)
  then have "length (s # h) \<le> mint_rank s" and o: "s \<in> {SigningReveal, AwaitingCommit, BroadcastingReveal, Done} \<longrightarrow> BroadcastingCommit \<in> set h"
    by auto
  moreover have "mint_rank s < mint_rank t" using mint_step.hyps(2) mint_step.prems by (auto simp: canTransition_cases mint_rank_def)
  moreover have "t \<in> {SigningReveal, AwaitingCommit, BroadcastingReveal, Done} \<longrightarrow> BroadcastingCommit \<in> set (s # h)"
    using mint_step.hyps(2) mint_step.prems o by (auto simp: canTransition_cases)
  ultimately show ?case by simp
qed (simp add: mint_rank_def)

text \<open>
  The commit is out before the reveal is signed, as long as nothing failed. A run that reaches the signing of the
  reveal without a failure has broadcast the commit; it takes at most eight stages, the last of them done. After a failure
  the table promises nothing: from a failed composition, with no commit at all, it goes on to signing the reveal.
\<close>

theorem commit_before_reveal:
  assumes "mint_run h" and "Failed \<notin> set h"
  shows "length h \<le> 8 \<and> (h = later @ SigningReveal # earlier \<longrightarrow> BroadcastingCommit \<in> set earlier) \<and>
    mint_run [SigningReveal, Failed, Composing, Idle]"
proof -
  have "length h \<le> 8"
  proof -
    have "mint_rank s \<le> 8" for s by (simp add: mint_rank_def split: MintStage.split)
    then show ?thesis using mint_run_order [OF assms] le_trans by blast
  qed
  moreover have "BroadcastingCommit \<in> set earlier" if "h = later @ SigningReveal # earlier"
    using mint_run_order [of "SigningReveal # earlier"] mint_run_suffix [of later "SigningReveal # earlier"] assms that by simp
  moreover have "mint_run [SigningReveal, Failed, Composing, Idle]"
    by (intro mint_run.intros) (simp_all add: canTransition_def)
  ultimately show ?thesis by blast
qed

theorem commit_before_reveal_witness:
  "mint_run [SigningReveal, BroadcastingCommit, SigningCommit, Composing, Idle] \<and>
   BroadcastingCommit \<in> set [BroadcastingCommit, SigningCommit, Composing, Idle]"
proof -
  have r: "mint_run [SigningReveal, BroadcastingCommit, SigningCommit, Composing, Idle]"
    by (intro mint_run.intros) (simp_all add: canTransition_def)
  from commit_before_reveal [OF r, of "[]" "[BroadcastingCommit, SigningCommit, Composing, Idle]"] r show ?thesis by simp
qed

end
