(* ===== verification/JsSplit.thy ===== *)
theory JsSplit imports JsText begin

text \<open>
  \<open>s.split(c)\<close> and \<open>parts.join(c)\<close> for one separator: splitting gives at least one part, no part holds the separator,
  and the two invert each other. Then literals and trimming of JavaScript strings.
\<close>

fun split_on :: "'a \<Rightarrow> 'a list \<Rightarrow> 'a list list" where
  "split_on c [] = [[]]"
| "split_on c (x # s) =
     (if x = c then [] # split_on c s
      else case split_on c s of [] \<Rightarrow> [[x]] | w # ws \<Rightarrow> (x # w) # ws)"

fun join_on :: "'a \<Rightarrow> 'a list list \<Rightarrow> 'a list" where
  "join_on c [] = []"
| "join_on c [w] = w"
| "join_on c (w # v # ws) = w @ c # join_on c (v # ws)"

lemma split_on_nonempty [simp]: "split_on c s \<noteq> []"
  by (induction s) (auto split: list.split)

lemma join_on_Cons: "ws \<noteq> [] \<Longrightarrow> join_on c (w # ws) = w @ c # join_on c ws"
  by (cases ws) simp_all

lemma join_split_on [simp]: "join_on c (split_on c s) = s"
proof (induction s)
  case (Cons x s)
  obtain w ws where w: "split_on c s = w # ws" by (cases "split_on c s") auto
  then have "join_on c ((x # w) # ws) = x # join_on c (w # ws)" by (cases ws) simp_all
  then show ?case using Cons w by (simp add: join_on_Cons)
qed simp

lemma split_on_word: "c \<notin> set w \<Longrightarrow> split_on c w = [w]"
  by (induction w) auto

lemma split_on_append: "c \<notin> set w \<Longrightarrow> split_on c (w @ c # s) = w # split_on c s"
  by (induction w) auto

lemma split_join_on: "ws \<noteq> [] \<Longrightarrow> list_all (\<lambda>w. c \<notin> set w) ws \<Longrightarrow> split_on c (join_on c ws) = ws"
proof (induction ws)
  case (Cons w ws)
  then show ?case by (cases ws) (auto simp: split_on_word split_on_append)
qed simp

lemma split_on_parts: "w \<in> set (split_on c s) \<Longrightarrow> c \<notin> set w"
  by (induction s arbitrary: w) (auto split: if_splits list.splits)

lemma split_on_set: "w \<in> set (split_on c s) \<Longrightarrow> set w \<subseteq> set s"
  by (induction s arbitrary: w) (fastforce split: if_splits list.splits)+

lemma join_on_set: "x \<in> set (join_on c ws) \<Longrightarrow> x = c \<or> (\<exists>w \<in> set ws. x \<in> set w)"
  by (induction c ws rule: join_on.induct) auto

lemma split_on_mem: "x \<in> set s \<Longrightarrow> x = c \<or> (\<exists>w \<in> set (split_on c s). x \<in> set w)"
  using join_on_set [of x c "split_on c s"] by simp

text \<open>A literal of the code, one unit per character.\<close>

definition js :: "string \<Rightarrow> js_string" where
  "js s = map (\<lambda>c. word_of_nat (of_char c)) s"

lemma js_append: "js (a @ b) = js a @ js b"
  by (simp add: js_def)

lemma length_js [simp]: "length (js s) = length s"
  by (simp add: js_def)

lemma js_eq_iff [simp]: "js a = js b \<longleftrightarrow> a = b"
proof -
  have "c = d" if "word_of_nat (of_char c) = (word_of_nat (of_char d) :: 16 word)" for c d :: char
  proof -
    have "unat (word_of_nat (of_char e) :: 16 word) = of_char e" for e :: char
      using less_trans [OF nat_of_char_less_256 [of e], of 65536] by (simp add: unat_of_nat)
    then have "(of_char c :: nat) = of_char d" using that by metis
    then show ?thesis by simp
  qed
  then have "inj (\<lambda>c. word_of_nat (of_char c) :: 16 word)" by (rule injI)
  then show ?thesis unfolding js_def by (rule inj_map_eq_map)
qed

text \<open>White space and line terminators: what \<open>\s\<close> matches and \<open>trim\<close> removes.\<close>

definition js_space :: "16 word \<Rightarrow> bool" where
  "js_space u = (let n = unat u in (9 \<le> n \<and> n \<le> 13) \<or> n = 32 \<or> n = 0xA0 \<or> n = 0x1680 \<or> (0x2000 \<le> n \<and> n \<le> 0x200A)
     \<or> n = 0x2028 \<or> n = 0x2029 \<or> n = 0x202F \<or> n = 0x205F \<or> n = 0x3000 \<or> n = 0xFEFF)"

definition js_trim :: "js_string \<Rightarrow> js_string" where
  "js_trim s = rev (dropWhile js_space (rev (dropWhile js_space s)))"

lemma js_trim_id: "list_all (\<lambda>u. \<not> js_space u) s \<Longrightarrow> js_trim s = s"
proof -
  have "dropWhile js_space t = t" if "list_all (\<lambda>u. \<not> js_space u) t" for t using that by (cases t) simp_all
  then show "list_all (\<lambda>u. \<not> js_space u) s \<Longrightarrow> js_trim s = s" by (simp add: js_trim_def)
qed

end
