(* ===== verification/IdMessage.thy ===== *)
theory IdMessage imports InscBase JsSplit begin

text \<open>
  The signed messages of Blockspace ID (\<open>platform/identity/src\<close>): \<open>bytes.ts\<close>, \<open>network.ts\<close>, \<open>address.ts\<close>,
  \<open>bip322.ts\<close> and \<open>legacy.ts\<close>. A wallet proves control of an address by a BIP-322 simple signature, over the digest of
  two virtual transactions, or by a recoverable signature of the older kind. The curve, RIPEMD-160, base64 and the address
  codec are libraries and hence arguments.
\<close>

subsection \<open>Libraries\<close>

record IdNetworkParams =
  npBech32 :: string
  npPubKeyHash :: nat
  npScriptHash :: nat
  npWif :: nat

text \<open>What \<open>Address(params).decode\<close> answers; the other types of output are told apart by their name.\<close>

datatype OutType = OutTr bytes | OutWpkh bytes | OutPkh bytes | OutSh bytes | OutOther string

record 'p id_lib = hash_lib +
  ripemd160 :: "bytes \<Rightarrow> bytes"
  base64Decode :: "js_string \<Rightarrow> bytes option"
  base64Encode :: "bytes \<Rightarrow> js_string"
  schnorrVerify :: "bytes \<Rightarrow> bytes \<Rightarrow> bytes \<Rightarrow> insc_error + bool"
  schnorrSign :: "bytes \<Rightarrow> bytes \<Rightarrow> bytes option \<Rightarrow> insc_error + bytes"
  schnorrPublic :: "bytes \<Rightarrow> insc_error + bytes"
  tweakPublic :: "bytes \<Rightarrow> bytes \<Rightarrow> insc_error + bytes"
  tweakPrivate :: "bytes \<Rightarrow> bytes \<Rightarrow> insc_error + bytes"
  ecdsaVerify :: "bytes \<Rightarrow> bytes \<Rightarrow> bytes \<Rightarrow> insc_error + bool"
  ecdsaSignDer :: "bytes \<Rightarrow> bytes \<Rightarrow> insc_error + bytes"
  ecdsaSignRecovered :: "bytes \<Rightarrow> bytes \<Rightarrow> insc_error + bytes"
  ecdsaPublic :: "bytes \<Rightarrow> insc_error + bytes"
  recoverPoint :: "bytes \<Rightarrow> bytes \<Rightarrow> insc_error + 'p"
  pointBytes :: "'p \<Rightarrow> bool \<Rightarrow> bytes"
  libNETWORK :: IdNetworkParams
  libTEST_NETWORK :: IdNetworkParams
  addressDecode :: "IdNetworkParams \<Rightarrow> js_string \<Rightarrow> insc_error + OutType"
  outScriptEncode :: "OutType \<Rightarrow> insc_error + bytes"

subsection \<open>Bytes\<close>

definition id_concatBytes :: "bytes list \<Rightarrow> bytes" where
  "id_concatBytes parts =
     (case concat_into (replicate (sum_list (map length parts)) 0) 0 parts of Some out \<Rightarrow> out | None \<Rightarrow> [])"

lemma id_concatBytes_eq [simp]: "id_concatBytes parts = concat parts"
  using concatBytes_eq [of parts] by (simp only: id_concatBytes_def concatBytes_def)

definition id_compactSize :: "nat \<Rightarrow> insc_error + bytes" where
  "id_compactSize n =
     (if n > MAX_SAFE_INTEGER then Inl (Error ''compactSize: invalid'')
      else if n < 0xfd then Inr [u8 n]
      else if n \<le> 0xffff then Inr [0xfd, u8 (n mod 256), u8 (n div 256)]
      else if n \<le> 0xffffffff
      then Inr [0xfe, u8 (n mod 256), u8 (n div 256 mod 256), u8 (n div 65536 mod 256), u8 (n div 16777216)]
      else Inl (Error ''compactSize: > 2^32 not supported''))"

definition varBytes :: "bytes \<Rightarrow> insc_error + bytes" where
  "varBytes b = ebind (id_compactSize (length b)) (\<lambda>n. Inr (id_concatBytes [n, b]))"

text \<open>\<open>setUint32(0, n >>> 0)\<close> and \<open>setBigUint64(0, n)\<close> store the residue.\<close>

definition id_u32le :: "nat \<Rightarrow> bytes" where
  "id_u32le n = le_bytes 4 (n mod 2 ^ 32)"

definition id_u64le :: "int \<Rightarrow> bytes" where
  "id_u64le n = le_bytes 8 (nat (n mod 2 ^ 64))"

definition decodeBase64 :: "('p, 'z) id_lib_scheme \<Rightarrow> js_string \<Rightarrow> bytes option" where
  "decodeBase64 L s = base64Decode L (js_trim s)"

definition encodeBase64 :: "('p, 'z) id_lib_scheme \<Rightarrow> bytes \<Rightarrow> js_string" where
  "encodeBase64 L b = base64Encode L b"

text \<open>The \<open>Reader\<close> keeps the bytes from its position on; every read answers what it read and what is left.\<close>

definition reader_bytes :: "nat \<Rightarrow> bytes \<Rightarrow> insc_error + bytes \<times> bytes" where
  "reader_bytes n buf = (if n > length buf then Inl (Error ''unexpected end of data'') else Inr (take n buf, drop n buf))"

definition reader_u8 :: "bytes \<Rightarrow> insc_error + byte \<times> bytes" where
  "reader_u8 buf = ebind (reader_bytes 1 buf) (\<lambda>(b, rest). Inr (b ! 0, rest))"

definition reader_compactSize :: "bytes \<Rightarrow> insc_error + nat \<times> bytes" where
  "reader_compactSize buf =
     ebind (reader_u8 buf) (\<lambda>(first, buf1).
       if first < 0xfd then Inr (unat first, buf1)
       else if first = 0xfd
       then ebind (reader_bytes 2 buf1) (\<lambda>(b, buf2).
              let n = unat (b ! 0) + 256 * unat (b ! 1) in
              if n < 0xfd then Inl (Error ''non-canonical compactSize'') else Inr (n, buf2))
       else if first = 0xfe
       then ebind (reader_bytes 4 buf1) (\<lambda>(b, buf2).
              let n = le_nat b in
              if n \<le> 0xffff then Inl (Error ''non-canonical compactSize'') else Inr (n, buf2))
       else Inl (Error ''compactSize > 2^32 not supported''))"

subsection \<open>Networks and addresses\<close>

definition BITCOIN_NETWORKS :: "js_string list" where
  "BITCOIN_NETWORKS = [js ''mainnet'', js ''testnet'', js ''signet'', js ''regtest'']"

definition ID_REGTEST :: IdNetworkParams where
  "ID_REGTEST = \<lparr>npBech32 = ''bcrt'', npPubKeyHash = 0x6f, npScriptHash = 0xc4, npWif = 0xef\<rparr>"

definition isBitcoinNetwork :: "js_string \<Rightarrow> bool" where
  "isBitcoinNetwork v = (v \<in> set BITCOIN_NETWORKS)"

definition id_networkParams :: "('p, 'z) id_lib_scheme \<Rightarrow> js_string \<Rightarrow> insc_error + IdNetworkParams" where
  "id_networkParams L network =
     (if network = js ''mainnet'' then Inr (libNETWORK L)
      else if network = js ''testnet'' \<or> network = js ''signet'' then Inr (libTEST_NETWORK L)
      else if network = js ''regtest'' then Inr ID_REGTEST
      else Inl (Error ''unknown network''))"

datatype AddressKind = P2tr | P2wpkh | P2pkh | P2sh

record DecodedAddress =
  daAddress :: js_string
  daNetwork :: js_string
  daKind :: AddressKind
  daScript :: bytes
  daProgram :: bytes

definition kind_of_out :: "OutType \<Rightarrow> insc_error + AddressKind \<times> bytes" where
  "kind_of_out t =
     (case t of OutTr k \<Rightarrow> Inr (P2tr, k) | OutWpkh h \<Rightarrow> Inr (P2wpkh, h) | OutPkh h \<Rightarrow> Inr (P2pkh, h) | OutSh h \<Rightarrow> Inr (P2sh, h)
      | OutOther n \<Rightarrow> Inl (Error (''unsupported address type: '' @ n)))"

definition decodeAddress :: "('p, 'z) id_lib_scheme \<Rightarrow> js_string \<Rightarrow> js_string \<Rightarrow> insc_error + DecodedAddress" where
  "decodeAddress L address network =
     (if length address < 14 \<or> length address > 90 then Inl (Error ''invalid address'')
      else if address \<noteq> js_trim address then Inl (Error ''invalid address'')
      else case ebind (id_networkParams L network) (\<lambda>p. addressDecode L p address) of
             Inl _ \<Rightarrow> Inl (Error ''invalid address of the network'')
           | Inr decoded \<Rightarrow>
               ebind (outScriptEncode L decoded) (\<lambda>script.
               ebind (kind_of_out decoded) (\<lambda>(kd, program).
                 Inr \<lparr>daAddress = address, daNetwork = network, daKind = kd, daScript = script, daProgram = program\<rparr>)))"

subsection \<open>BIP-322\<close>

datatype message = Text js_string | Raw bytes

definition BIP322_TAG :: js_string where "BIP322_TAG = js ''BIP0322-signed-message''"
definition ID_SIGHASH_DEFAULT :: nat where "ID_SIGHASH_DEFAULT = 0x00"
definition ID_SIGHASH_ALL :: nat where "ID_SIGHASH_ALL = 0x01"
definition OP_RETURN :: byte where "OP_RETURN = 0x6a"
definition ZERO32 :: bytes where "ZERO32 = replicate 32 0"

definition sha256d :: "('p, 'z) id_lib_scheme \<Rightarrow> bytes \<Rightarrow> bytes" where
  "sha256d L b = sha256 L (sha256 L b)"

definition hash160 :: "('p, 'z) id_lib_scheme \<Rightarrow> bytes \<Rightarrow> bytes" where
  "hash160 L b = ripemd160 L (sha256 L b)"

definition id_taggedHash :: "('p, 'z) id_lib_scheme \<Rightarrow> js_string \<Rightarrow> bytes list \<Rightarrow> bytes" where
  "id_taggedHash L tag msgs = (let t = sha256 L (utf8 tag) in sha256 L (id_concatBytes (t # t # msgs)))"

definition asBytes :: "message \<Rightarrow> bytes" where
  "asBytes m = (case m of Text s \<Rightarrow> utf8 s | Raw b \<Rightarrow> b)"

definition bip322MessageHash :: "('p, 'z) id_lib_scheme \<Rightarrow> message \<Rightarrow> bytes" where
  "bip322MessageHash L m = id_taggedHash L BIP322_TAG [asBytes m]"

record VirtualTx =
  vtVersion :: nat
  vtLocktime :: nat
  vtPrevTxid :: bytes
  vtPrevVout :: nat
  vtScriptSig :: bytes
  vtSequence :: nat
  vtOutValue :: int
  vtOutScript :: bytes

definition serializeNoWitness :: "VirtualTx \<Rightarrow> insc_error + bytes" where
  "serializeNoWitness tx =
     ebind (varBytes (vtScriptSig tx)) (\<lambda>scriptSig.
     ebind (varBytes (vtOutScript tx)) (\<lambda>outScript.
       Inr (id_concatBytes
         [id_u32le (vtVersion tx), [1], vtPrevTxid tx, id_u32le (vtPrevVout tx), scriptSig, id_u32le (vtSequence tx), [1],
          id_u64le (vtOutValue tx), outScript, id_u32le (vtLocktime tx)])))"

definition toSpendTx :: "('p, 'z) id_lib_scheme \<Rightarrow> bytes \<Rightarrow> message \<Rightarrow> VirtualTx" where
  "toSpendTx L messageChallenge m =
     \<lparr>vtVersion = 0, vtLocktime = 0, vtPrevTxid = ZERO32, vtPrevVout = 0xffffffff,
        vtScriptSig = id_concatBytes [[0x00, 0x20], bip322MessageHash L m], vtSequence = 0, vtOutValue = 0,
        vtOutScript = messageChallenge\<rparr>"

definition toSignTx :: "bytes \<Rightarrow> VirtualTx" where
  "toSignTx toSpendTxid =
     \<lparr>vtVersion = 0, vtLocktime = 0, vtPrevTxid = toSpendTxid, vtPrevVout = 0, vtScriptSig = [], vtSequence = 0,
        vtOutValue = 0, vtOutScript = [OP_RETURN]\<rparr>"

definition txidHex :: "bytes \<Rightarrow> string" where
  "txidHex internal = concat (map hex_byte (rev internal))"

definition toSpendTxid :: "('p, 'z) id_lib_scheme \<Rightarrow> bytes \<Rightarrow> message \<Rightarrow> insc_error + bytes" where
  "toSpendTxid L challenge m = emap (sha256d L) (serializeNoWitness (toSpendTx L challenge m))"

definition bip322VirtualTxids :: "('p, 'z) id_lib_scheme \<Rightarrow> bytes \<Rightarrow> message \<Rightarrow> insc_error + bytes \<times> bytes" where
  "bip322VirtualTxids L messageChallenge m =
     ebind (toSpendTxid L messageChallenge m) (\<lambda>spend.
     ebind (serializeNoWitness (toSignTx spend)) (\<lambda>sign. Inr (spend, sha256d L sign)))"

definition bip322SighashP2wpkh :: "('p, 'z) id_lib_scheme \<Rightarrow> bytes \<Rightarrow> message \<Rightarrow> insc_error + bytes" where
  "bip322SighashP2wpkh L pubkeyHash m =
     (if length pubkeyHash \<noteq> 20 then Inl (Error ''pubkeyHash must be 20 bytes'')
      else
        let challenge = id_concatBytes [[0x00, 0x14], pubkeyHash] in
        ebind (toSpendTxid L challenge m) (\<lambda>spend.
        let tx = toSignTx spend;
            outpoint = id_concatBytes [vtPrevTxid tx, id_u32le (vtPrevVout tx)];
            hashPrevouts = sha256d L outpoint;
            hashSequence = sha256d L (id_u32le (vtSequence tx)) in
        ebind (varBytes (vtOutScript tx)) (\<lambda>outScript.
        let hashOutputs = sha256d L (id_concatBytes [id_u64le (vtOutValue tx), outScript]) in
        ebind (varBytes (id_concatBytes [[0x76, 0xa9, 0x14], pubkeyHash, [0x88, 0xac]])) (\<lambda>scriptCode.
          Inr (sha256d L (id_concatBytes
            [id_u32le (vtVersion tx), hashPrevouts, hashSequence, outpoint, scriptCode, id_u64le 0, id_u32le (vtSequence tx),
             hashOutputs, id_u32le (vtLocktime tx), id_u32le ID_SIGHASH_ALL]))))))"

definition bip322SighashP2tr :: "('p, 'z) id_lib_scheme \<Rightarrow> bytes \<Rightarrow> message \<Rightarrow> nat \<Rightarrow> insc_error + bytes" where
  "bip322SighashP2tr L outputKey m hashType =
     (if length outputKey \<noteq> 32 then Inl (Error ''outputKey must be 32 bytes'')
      else if hashType \<noteq> ID_SIGHASH_DEFAULT \<and> hashType \<noteq> ID_SIGHASH_ALL then Inl (Error ''unsupported sighash type'')
      else
        let challenge = id_concatBytes [[0x51, 0x20], outputKey] in
        ebind (toSpendTxid L challenge m) (\<lambda>spend.
        let tx = toSignTx spend;
            shaPrevouts = sha256 L (id_concatBytes [vtPrevTxid tx, id_u32le (vtPrevVout tx)]);
            shaAmounts = sha256 L (id_u64le 0) in
        ebind (emap (sha256 L) (varBytes challenge)) (\<lambda>shaScriptPubkeys.
        let shaSequences = sha256 L (id_u32le (vtSequence tx)) in
        ebind (varBytes (vtOutScript tx)) (\<lambda>outScript.
        let shaOutputs = sha256 L (id_concatBytes [id_u64le (vtOutValue tx), outScript]);
            sigMsg = id_concatBytes
              [[0x00], [u8 hashType], id_u32le (vtVersion tx), id_u32le (vtLocktime tx), shaPrevouts, shaAmounts,
               shaScriptPubkeys, shaSequences, shaOutputs, [0x00], id_u32le 0]
        in Inr (id_taggedHash L (js ''TapSighash'') [sigMsg])))))"

primrec witness_items :: "nat \<Rightarrow> bytes \<Rightarrow> insc_error + bytes list \<times> bytes" where
  "witness_items 0 buf = Inr ([], buf)"
| "witness_items (Suc n) buf =
     ebind (reader_compactSize buf) (\<lambda>(k, buf1).
     ebind (reader_bytes k buf1) (\<lambda>(item, buf2).
     ebind (witness_items n buf2) (\<lambda>(items, rest). Inr (item # items, rest))))"

definition decodeWitness :: "bytes \<Rightarrow> insc_error + bytes list" where
  "decodeWitness raw =
     ebind (reader_compactSize raw) (\<lambda>(n, buf).
       if n > 100 then Inl (Error ''witness has too many items'')
       else ebind (witness_items n buf) (\<lambda>(items, rest).
         if rest \<noteq> [] then Inl (Error ''trailing bytes after witness'') else Inr items))"

definition encodeWitness :: "bytes list \<Rightarrow> insc_error + bytes" where
  "encodeWitness items =
     ebind (id_compactSize (length items)) (\<lambda>n. ebind (emapM varBytes items) (\<lambda>xs. Inr (id_concatBytes (n # xs))))"

text \<open>A check answers the kind of address it vouches for, or the reason of its refusal.\<close>

datatype checked = Valid string | Invalid string

definition error_text :: "insc_error \<Rightarrow> string" where
  "error_text e = (case e of Error m \<Rightarrow> m)"

definition verify_p2tr :: "('p, 'z) id_lib_scheme \<Rightarrow> bytes \<Rightarrow> message \<Rightarrow> bytes list \<Rightarrow> insc_error + checked" where
  "verify_p2tr L program m witness =
     (if length witness \<noteq> 1 then Inr (Invalid ''p2tr: expected a single key-path signature'')
      else
        let sig = hd witness in
        case (if length sig = 64 then Some ID_SIGHASH_DEFAULT
              else if length sig = 65 \<and> unat (sig ! 64) = ID_SIGHASH_ALL then Some ID_SIGHASH_ALL else None) of
          None \<Rightarrow> Inr (Invalid ''p2tr: signature must be 64 bytes or 65 bytes with SIGHASH_ALL'')
        | Some hashType \<Rightarrow>
            ebind (bip322SighashP2tr L program m hashType) (\<lambda>digest.
            ebind (schnorrVerify L (take 64 sig) digest program) (\<lambda>ok.
              Inr (if ok then Valid ''p2tr'' else Invalid ''p2tr: schnorr signature invalid''))))"

definition verify_p2wpkh :: "('p, 'z) id_lib_scheme \<Rightarrow> bytes \<Rightarrow> message \<Rightarrow> bytes list \<Rightarrow> insc_error + checked" where
  "verify_p2wpkh L program m witness =
     (if length witness \<noteq> 2 then Inr (Invalid ''p2wpkh: expected [signature, pubkey]'')
      else
        let sigWithType = witness ! 0; pubkey = witness ! 1 in
        if length pubkey \<noteq> 33 \<or> (pubkey ! 0 \<noteq> 0x02 \<and> pubkey ! 0 \<noteq> 0x03)
        then Inr (Invalid ''p2wpkh: pubkey must be 33-byte compressed'')
        else if \<not> equalBytes (hash160 L pubkey) program then Inr (Invalid ''p2wpkh: pubkey does not match address'')
        else if length sigWithType < 9 \<or> unat (last sigWithType) \<noteq> ID_SIGHASH_ALL
        then Inr (Invalid ''p2wpkh: signature must be DER with SIGHASH_ALL'')
        else
          let der = take (length sigWithType - 1) sigWithType in
          ebind (bip322SighashP2wpkh L program m) (\<lambda>digest.
          ebind (ecdsaVerify L der digest pubkey) (\<lambda>ok.
            Inr (if ok then Valid ''p2wpkh'' else Invalid ''p2wpkh: ecdsa signature invalid''))))"

definition verifyBip322SimpleDecoded ::
  "('p, 'z) id_lib_scheme \<Rightarrow> DecodedAddress \<Rightarrow> message \<Rightarrow> js_string \<Rightarrow> checked" where
  "verifyBip322SimpleDecoded L decoded m signatureBase64 =
     (case decodeBase64 L signatureBase64 of
        None \<Rightarrow> Invalid ''malformed signature''
      | Some raw \<Rightarrow>
          case decodeWitness raw of
            Inl e \<Rightarrow> Invalid (''malformed signature: '' @ error_text e)
          | Inr witness \<Rightarrow>
              case (case daKind decoded of
                      P2tr \<Rightarrow> verify_p2tr L (daProgram decoded) m witness
                    | P2wpkh \<Rightarrow> verify_p2wpkh L (daProgram decoded) m witness
                    | P2pkh \<Rightarrow> Inr (Invalid ''BIP-322 simple is not supported for p2pkh addresses'')
                    | P2sh \<Rightarrow> Inr (Invalid ''BIP-322 simple is not supported for p2sh addresses'')) of
                Inl e \<Rightarrow> Invalid (''verification error: '' @ error_text e)
              | Inr r \<Rightarrow> r)"

definition verifyBip322Simple ::
  "('p, 'z) id_lib_scheme \<Rightarrow> js_string \<Rightarrow> js_string \<Rightarrow> message \<Rightarrow> js_string \<Rightarrow> checked" where
  "verifyBip322Simple L address network m signatureBase64 =
     (case decodeAddress L address network of
        Inl e \<Rightarrow> Invalid (error_text e)
      | Inr decoded \<Rightarrow> verifyBip322SimpleDecoded L decoded m signatureBase64)"

datatype sign_kind = SignP2tr | SignP2wpkh

definition signBip322Simple ::
  "('p, 'z) id_lib_scheme \<Rightarrow> bytes \<Rightarrow> sign_kind \<Rightarrow> message \<Rightarrow> nat option \<Rightarrow> bytes option \<Rightarrow> insc_error + js_string" where
  "signBip322Simple L privateKey kd m hashTypeOpt auxRand =
     (case kd of
        SignP2wpkh \<Rightarrow>
          ebind (ecdsaPublic L privateKey) (\<lambda>pubkey.
          ebind (bip322SighashP2wpkh L (hash160 L pubkey) m) (\<lambda>digest.
          ebind (ecdsaSignDer L digest privateKey) (\<lambda>der.
          ebind (encodeWitness [id_concatBytes [der, [u8 ID_SIGHASH_ALL]], pubkey]) (\<lambda>w. Inr (encodeBase64 L w)))))
      | SignP2tr \<Rightarrow>
          let hashType = (case hashTypeOpt of None \<Rightarrow> ID_SIGHASH_DEFAULT | Some h \<Rightarrow> h) in
          ebind (schnorrPublic L privateKey) (\<lambda>internal.
          ebind (tweakPublic L internal []) (\<lambda>outputKey.
          ebind (tweakPrivate L privateKey []) (\<lambda>tweaked.
          ebind (bip322SighashP2tr L outputKey m hashType) (\<lambda>digest.
          ebind (schnorrSign L digest tweaked auxRand) (\<lambda>sig.
          let full = (if hashType = ID_SIGHASH_DEFAULT then sig else id_concatBytes [sig, [u8 hashType]])
          in ebind (encodeWitness [full]) (\<lambda>w. Inr (encodeBase64 L w))))))))"

subsection \<open>Legacy signatures\<close>

definition MAGIC :: bytes where
  "MAGIC = utf8 (js ''Bitcoin Signed Message:'' @ [10])"

definition legacyMessageHash :: "('p, 'z) id_lib_scheme \<Rightarrow> message \<Rightarrow> insc_error + bytes" where
  "legacyMessageHash L m =
     ebind (varBytes MAGIC) (\<lambda>a. ebind (varBytes (asBytes m)) (\<lambda>b. Inr (sha256d L (id_concatBytes [a, b]))))"

definition isLegacySignature :: "bytes \<Rightarrow> bool" where
  "isLegacySignature raw = (length raw = 65 \<and> unat (raw ! 0) \<ge> 27 \<and> unat (raw ! 0) \<le> 42)"

definition legacy_match :: "bool \<Rightarrow> string \<Rightarrow> checked" where
  "legacy_match same kd = (if same then Valid kd else Invalid ''legacy: key does not match address'')"

definition verify_recovered :: "('p, 'z) id_lib_scheme \<Rightarrow> DecodedAddress \<Rightarrow> bool \<Rightarrow> bytes \<Rightarrow> checked" where
  "verify_recovered L decoded compressed h =
     (case daKind decoded of
        P2pkh \<Rightarrow> legacy_match (equalBytes h (daProgram decoded)) ''p2pkh''
      | P2wpkh \<Rightarrow>
          if \<not> compressed then Invalid ''legacy: segwit requires a compressed key''
          else legacy_match (equalBytes h (daProgram decoded)) ''p2wpkh''
      | P2sh \<Rightarrow>
          if \<not> compressed then Invalid ''legacy: segwit requires a compressed key''
          else legacy_match (equalBytes (hash160 L (id_concatBytes [[0x00, 0x14], h])) (daProgram decoded)) ''p2sh-p2wpkh''
      | P2tr \<Rightarrow> Invalid ''legacy signatures are not accepted for p2tr addresses'')"

definition verifyLegacyDecoded ::
  "('p, 'z) id_lib_scheme \<Rightarrow> DecodedAddress \<Rightarrow> message \<Rightarrow> js_string \<Rightarrow> checked" where
  "verifyLegacyDecoded L decoded m signatureBase64 =
     (case decodeBase64 L signatureBase64 of
        None \<Rightarrow> Invalid ''malformed signature: not base64''
      | Some raw \<Rightarrow>
          if \<not> isLegacySignature raw then Invalid ''legacy: expected 65-byte compact signature''
          else
            let header = unat (raw ! 0);
                recid = (header - 27) mod 4;
                compressed = (header \<ge> 31);
                recovered = u8 recid # drop 1 raw in
            case ebind (legacyMessageHash L m) (recoverPoint L recovered) of
              Inl e \<Rightarrow> Invalid (''legacy: '' @ error_text e)
            | Inr point \<Rightarrow> verify_recovered L decoded compressed (hash160 L (pointBytes L point compressed)))"

definition verifyLegacyMessage ::
  "('p, 'z) id_lib_scheme \<Rightarrow> js_string \<Rightarrow> js_string \<Rightarrow> message \<Rightarrow> js_string \<Rightarrow> checked" where
  "verifyLegacyMessage L address network m signatureBase64 =
     (case decodeAddress L address network of
        Inl e \<Rightarrow> Invalid (error_text e)
      | Inr decoded \<Rightarrow> verifyLegacyDecoded L decoded m signatureBase64)"

datatype legacy_kind = LegacyP2pkh | LegacyP2pkhUncompressed | LegacyP2wpkh | LegacyP2shP2wpkh

definition legacy_base :: "legacy_kind \<Rightarrow> nat" where
  "legacy_base kd =
     (case kd of LegacyP2pkhUncompressed \<Rightarrow> 27 | LegacyP2pkh \<Rightarrow> 31 | LegacyP2shP2wpkh \<Rightarrow> 35 | LegacyP2wpkh \<Rightarrow> 39)"

definition signLegacyMessage ::
  "('p, 'z) id_lib_scheme \<Rightarrow> bytes \<Rightarrow> message \<Rightarrow> legacy_kind \<Rightarrow> insc_error + js_string" where
  "signLegacyMessage L privateKey m kd =
     ebind (legacyMessageHash L m) (\<lambda>h.
     ebind (ecdsaSignRecovered L h privateKey) (\<lambda>sig.
     let recid = unat (sig ! 0) in
     Inr (encodeBase64 L (id_concatBytes [[u8 (legacy_base kd + recid)], drop 1 sig]))))"


end
