(* ===== verification/IdMessageProps.thy ===== *)
theory IdMessageProps imports IdMessage begin

text \<open>
  What a signed message proves. The witness coding round-trips; digests of BIP-322 identify the address and the message
  up to a collision of SHA-256; what the reference signers produce, the verifiers accept; and what the verifiers accept
  was checked against the key that the address names.
\<close>

subsection \<open>Coding\<close>

lemma id_compactSize_eq: "n \<le> 0xffffffff \<Longrightarrow> id_compactSize n = compactSize n"
  by (simp add: id_compactSize_def compactSize_def)

lemma le_bytes_le_nat: "le_bytes (length bs) (le_nat bs) = bs"
proof (induction bs)
  case (Cons b bs)
  have "u8 (unat b + 256 * le_nat bs) = b" by (metis mod_mult_self2 u8_mod u8_unat)
  moreover have "(unat b + 256 * le_nat bs) div 256 = le_nat bs" by simp
  ultimately show ?case using Cons by simp
qed simp

lemma le_bytes_mod: "le_bytes w (n mod 256 ^ w) = le_bytes w n"
  using le_bytes_le_nat [of "le_bytes w n"] by (simp add: le_nat_le_bytes)

lemma id_u32le_eq [simp]: "id_u32le n = u32le n"
  using le_bytes_mod [of 4 n] by (simp add: id_u32le_def u32le_eq)

lemma length_id_u64le [simp]: "length (id_u64le n) = 8"
  by (simp add: id_u64le_def)

lemma reader_bytes_append [simp]: "reader_bytes (length b) (b @ r) = Inr (b, r)"
  by (simp add: reader_bytes_def)

lemma reader_u8_Cons [simp]: "reader_u8 (b # r) = Inr (b, r)"
  by (simp add: reader_u8_def reader_bytes_def)

lemma u8_less: "n < 256 \<Longrightarrow> u8 n < 0xfd \<longleftrightarrow> n < 0xfd"
  by (simp add: word_less_nat_alt)

lemma reader_compactSize_inverse:
  assumes "id_compactSize n = Inr bs"
  shows "reader_compactSize (bs @ r) = Inr (n, r)"
proof -
  consider "n < 0xfd" "bs = [u8 n]" | "0xfd \<le> n" "n \<le> 0xffff" "bs = [0xfd, u8 (n mod 256), u8 (n div 256)]"
    | "0xffff < n" "n \<le> 0xffffffff" "bs = 0xfe # u32le n"
    using assms by (auto simp: id_compactSize_def u32le_def u8_eq_iff split: if_splits)
  then show ?thesis
  proof cases
    case 1
    then show ?thesis by (simp add: reader_compactSize_def u8_less)
  next
    case 2
    have "n mod 256 + 256 * (n div 256) = n" by simp
    then show ?thesis using 2 by (simp add: reader_compactSize_def reader_bytes_def Let_def)
  next
    case 3
    have "reader_bytes 4 (u32le n @ r) = Inr (u32le n, r)" using reader_bytes_append [of "u32le n" r] by simp
    moreover have "le_nat (u32le n) = n" using 3 by (simp add: u32le_eq le_nat_le_bytes)
    ultimately show ?thesis using 3 by (simp add: reader_compactSize_def Let_def)
  qed
qed

lemma varBytes_ok: "length b \<le> 0xffffffff \<Longrightarrow> \<exists>n. id_compactSize (length b) = Inr n \<and> varBytes b = Inr (n @ b)"
  by (simp add: varBytes_def id_compactSize_def MAX_SAFE_INTEGER_def)

lemma varBytes_short: "length b < 0xfd \<Longrightarrow> varBytes b = Inr (u8 (length b) # b)"
  by (simp add: varBytes_def id_compactSize_def MAX_SAFE_INTEGER_def)

lemma varBytes_iff: "varBytes b = Inr x \<longleftrightarrow> (\<exists>n. id_compactSize (length b) = Inr n \<and> x = n @ b)"
  by (auto simp: varBytes_def ebind_eq_Inr)

lemma witness_items_inverse:
  "emapM varBytes items = Inr xs \<Longrightarrow> witness_items (length items) (concat xs @ r) = Inr (items, r)"
proof (induction items arbitrary: xs)
  case (Cons b items)
  then show ?case by (auto simp: ebind_eq_Inr varBytes_iff reader_compactSize_inverse)
qed simp

lemma encodeWitness_length: "encodeWitness items = Inr w \<Longrightarrow> length items \<le> 100 \<Longrightarrow> decodeWitness w = Inr items"
  by (auto simp: encodeWitness_def decodeWitness_def ebind_eq_Inr reader_compactSize_inverse witness_items_inverse
      witness_items_inverse [where r = "[]", simplified])

lemma reader_compactSize_inv:
  assumes "reader_compactSize buf = Inr (n, rest)"
  shows "\<exists>bs. id_compactSize n = Inr bs \<and> buf = bs @ rest"
proof (cases buf)
  case Nil
  then show ?thesis using assms by (simp add: reader_compactSize_def reader_u8_def reader_bytes_def)
next
  case (Cons f t)
  have small: "f < 0xfd \<Longrightarrow> unat f < 0xfd" by (simp add: word_less_nat_alt)
  consider "f < 0xfd" "n = unat f" "rest = t"
    | b0 b1 where "f = 0xfd" "t = b0 # b1 # rest" "n = unat b0 + 256 * unat b1" "0xfd \<le> n"
    | b where "f = 0xfe" "t = b @ rest" "length b = 4" "n = le_nat b" "0xffff < n"
  proof -
    consider "f < 0xfd" | "f = 0xfd" | "f = 0xfe" | "\<not> f < 0xfd \<and> f \<noteq> 0xfd \<and> f \<noteq> 0xfe" by blast
    then show thesis
    proof cases
      case 1
      then show ?thesis using assms Cons that(1) by (simp add: reader_compactSize_def)
    next
      case 2
      obtain b where b: "reader_bytes 2 t = Inr (b, rest)" "n = unat (b ! 0) + 256 * unat (b ! 1)" "0xfd \<le> n"
        using assms Cons 2 by (auto simp: reader_compactSize_def ebind_eq_Inr Let_def split: if_splits)
      then obtain b0 b1 where "t = b0 # b1 # rest" "b = [b0, b1]"
        by (cases t; cases "tl t") (auto simp: reader_bytes_def split: if_splits)
      then show ?thesis using b 2 that(2) by simp
    next
      case 3
      obtain b where b: "reader_bytes 4 t = Inr (b, rest)" "n = le_nat b" "0xffff < n"
        using assms Cons 3 by (auto simp: reader_compactSize_def ebind_eq_Inr Let_def split: if_splits)
      then have "t = b @ rest" "length b = 4" by (auto simp: reader_bytes_def split: if_splits)
      then show ?thesis using b 3 that(3) by simp
    next
      case 4
      then show ?thesis using assms Cons by (simp add: reader_compactSize_def)
    qed
  qed
  then show ?thesis
  proof cases
    case 1
    then show ?thesis using Cons small by (simp add: id_compactSize_def MAX_SAFE_INTEGER_def)
  next
    case 2
    have "n \<le> 0xffff" using unat_byte_less [of b0] unat_byte_less [of b1] 2(3) by linarith
    moreover have "n mod 256 = unat b0" "n div 256 = unat b1" unfolding 2(3) by simp_all
    ultimately show ?thesis using 2 Cons by (simp add: id_compactSize_def MAX_SAFE_INTEGER_def)
  next
    case 3
    have "n < 256 ^ 4" using le_nat_less [of b] 3 by simp
    moreover have "u32le n = b" using 3 le_bytes_le_nat [of b] by (simp add: u32le_eq)
    ultimately show ?thesis using 3 Cons by (simp add: id_compactSize_def MAX_SAFE_INTEGER_def u32le_def)
  qed
qed

lemma reader_bytes_inv: "reader_bytes k buf = Inr (b, rest) \<Longrightarrow> length b = k \<and> buf = b @ rest"
  by (auto simp: reader_bytes_def split: if_splits)

lemma witness_items_inv:
  "witness_items n buf = Inr (items, rest) \<Longrightarrow> length items = n \<and> (\<exists>xs. emapM varBytes items = Inr xs \<and> buf = concat xs @ rest)"
proof (induction n arbitrary: buf items)
  case (Suc n)
  obtain k b1 item b2 items' where s: "reader_compactSize buf = Inr (k, b1)" "reader_bytes k b1 = Inr (item, b2)"
      "witness_items n b2 = Inr (items', rest)" "items = item # items'"
    using Suc.prems by (auto simp: ebind_eq_Inr)
  then obtain cs xs where c: "id_compactSize k = Inr cs" "buf = cs @ b1" "b1 = item @ b2" "length item = k"
      "length items' = n" "emapM varBytes items' = Inr xs" "b2 = concat xs @ rest"
    using Suc.IH reader_compactSize_inv reader_bytes_inv by meson
  then have "emapM varBytes items = Inr ((cs @ item) # xs)" using s by (simp add: varBytes_def)
  then show ?case using s c by auto
qed auto

text \<open>
  A witness has one encoding. The bytes that decode to a list of items are exactly the encoding of these items, at most
  a hundred of them: no other size prefix, no trailing byte, and nothing that was encoded is refused.
\<close>

theorem witness_coding:
  "decodeWitness raw = Inr items \<longleftrightarrow> encodeWitness items = Inr raw \<and> length items \<le> 100"
proof
  assume "decodeWitness raw = Inr items"
  then obtain n buf where n: "reader_compactSize raw = Inr (n, buf)" "n \<le> 100" "witness_items n buf = Inr (items, [])"
    by (auto simp: decodeWitness_def ebind_eq_Inr split: if_splits)
  then have b: "reader_compactSize raw = Inr (length items, buf)" "length items \<le> 100"
      "witness_items (length items) buf = Inr (items, [])"
    using witness_items_inv [OF n(3)] by simp_all
  then obtain xs cs where "emapM varBytes items = Inr xs" "buf = concat xs"
      "id_compactSize (length items) = Inr cs" "raw = cs @ buf"
    using witness_items_inv [OF b(3)] reader_compactSize_inv [OF b(1)] by auto
  then show "encodeWitness items = Inr raw \<and> length items \<le> 100" using b by (simp add: encodeWitness_def)
qed (auto simp: encodeWitness_length)

subsection \<open>Digests\<close>

datatype challenge = TrChallenge bytes nat | WpkhChallenge bytes

definition challenge_digest :: "('p, 'z) id_lib_scheme \<Rightarrow> challenge \<Rightarrow> message \<Rightarrow> insc_error + bytes" where
  "challenge_digest L c m = (case c of TrChallenge k h \<Rightarrow> bip322SighashP2tr L k m h | WpkhChallenge h \<Rightarrow> bip322SighashP2wpkh L h m)"

definition challenge_script :: "challenge \<Rightarrow> bytes" where
  "challenge_script c = (case c of TrChallenge k _ \<Rightarrow> [0x51, 0x20] @ k | WpkhChallenge h \<Rightarrow> [0x00, 0x14] @ h)"

text \<open>The byte strings that are hashed on the way to a digest.\<close>

definition tagged_bytes :: "('p, 'z) id_lib_scheme \<Rightarrow> message \<Rightarrow> bytes" where
  "tagged_bytes L m = sha256 L (utf8 BIP322_TAG) @ sha256 L (utf8 BIP322_TAG) @ asBytes m"

definition spend_bytes :: "('p, 'z) id_lib_scheme \<Rightarrow> bytes \<Rightarrow> message \<Rightarrow> bytes" where
  "spend_bytes L script m =
     u32le 0 @ [1] @ ZERO32 @ u32le 0xffffffff @ [34, 0x00, 0x20] @ sha256 L (tagged_bytes L m) @ u32le 0 @ [1] @ id_u64le 0 @
     [u8 (length script)] @ script @ u32le 0"

definition outpoint_bytes :: "('p, 'z) id_lib_scheme \<Rightarrow> challenge \<Rightarrow> message \<Rightarrow> bytes" where
  "outpoint_bytes L c m = sha256d L (spend_bytes L (challenge_script c) m) @ u32le 0"

definition outputs_hashed :: bytes where
  "outputs_hashed = id_u64le 0 @ [1, OP_RETURN]"

definition digest_bytes :: "('p, 'z) id_lib_scheme \<Rightarrow> challenge \<Rightarrow> message \<Rightarrow> bytes" where
  "digest_bytes L c m =
     (case c of
        TrChallenge k h \<Rightarrow>
          sha256 L (utf8 (js ''TapSighash'')) @ sha256 L (utf8 (js ''TapSighash'')) @ [0x00, u8 h] @ u32le 0 @ u32le 0 @
          sha256 L (outpoint_bytes L c m) @ sha256 L (id_u64le 0) @ sha256 L (34 # challenge_script c) @ sha256 L (u32le 0) @
          sha256 L outputs_hashed @ [0x00] @ u32le 0
      | WpkhChallenge h \<Rightarrow>
          sha256 L (u32le 0 @ sha256d L (outpoint_bytes L c m) @ sha256d L (u32le 0) @ outpoint_bytes L c m @
            (25 # [0x76, 0xa9, 0x14] @ h @ [0x88, 0xac]) @ id_u64le 0 @ u32le 0 @ sha256d L outputs_hashed @ u32le 0 @ u32le 1))"

definition hashed_inputs :: "('p, 'z) id_lib_scheme \<Rightarrow> challenge \<Rightarrow> message \<Rightarrow> bytes set" where
  "hashed_inputs L c m =
     {tagged_bytes L m, spend_bytes L (challenge_script c) m, sha256 L (spend_bytes L (challenge_script c) m),
      outpoint_bytes L c m, digest_bytes L c m,
      u32le 0 @ sha256d L (outpoint_bytes L c m) @ sha256d L (u32le 0) @ outpoint_bytes L c m @
        (25 # [0x76, 0xa9, 0x14] @ drop 2 (challenge_script c) @ [0x88, 0xac]) @ id_u64le 0 @ u32le 0 @
        sha256d L outputs_hashed @ u32le 0 @ u32le 1}"

lemma toSpendTxid_eq:
  assumes "sha256_documented L" and "length script < 0xfd"
  shows "toSpendTxid L script m = Inr (sha256d L (spend_bytes L script m))"
proof -
  have "length (sha256 L b) = 32" for b using assms(1) by (simp add: sha256_documented_def)
  then show ?thesis using assms(2)
    by (simp add: toSpendTxid_def serializeNoWitness_def toSpendTx_def varBytes_short bip322MessageHash_def id_taggedHash_def
        tagged_bytes_def spend_bytes_def u8_def Let_def)
qed

lemma digest_eq:
  assumes "sha256_documented L" and "challenge_digest L c m = Inr d"
  shows "d = sha256 L (digest_bytes L c m) \<and>
    (case c of TrChallenge k h \<Rightarrow> length k = 32 \<and> (h = 0 \<or> h = 1) | WpkhChallenge h \<Rightarrow> length h = 20)"
proof (cases c)
  case (TrChallenge k h)
  then have "length k = 32" "h = 0 \<or> h = 1"
    using assms(2) by (auto simp: challenge_digest_def bip322SighashP2tr_def ID_SIGHASH_DEFAULT_def ID_SIGHASH_ALL_def split: if_splits)
  then show ?thesis using assms TrChallenge
    by (auto simp: challenge_digest_def bip322SighashP2tr_def ID_SIGHASH_DEFAULT_def ID_SIGHASH_ALL_def toSpendTxid_eq toSignTx_def
        varBytes_short id_taggedHash_def digest_bytes_def challenge_script_def
        outpoint_bytes_def outputs_hashed_def Let_def u8_def)
next
  case (WpkhChallenge h)
  then have "length h = 20"
    using assms(2) by (auto simp: challenge_digest_def bip322SighashP2wpkh_def split: if_splits)
  then show ?thesis using assms WpkhChallenge
    by (auto simp: challenge_digest_def bip322SighashP2wpkh_def ID_SIGHASH_ALL_def toSpendTxid_eq toSignTx_def
        varBytes_short sha256d_def digest_bytes_def challenge_script_def
        outpoint_bytes_def outputs_hashed_def Let_def u8_def)
qed

lemma spend_bytes_inj:
  assumes "sha256_documented L" and "spend_bytes L s m = spend_bytes L s' n"
  shows "s = s' \<and> sha256 L (tagged_bytes L m) = sha256 L (tagged_bytes L n)"
proof -
  have "length (sha256 L b) = 32" for b using assms(1) by (simp add: sha256_documented_def)
  then show ?thesis using assms(2) by (simp add: spend_bytes_def)
qed

lemma outpoint_inj:
  assumes "sha256_documented L" and "inj_on (sha256 L) (hashed_inputs L a m \<union> hashed_inputs L b n)"
    and "outpoint_bytes L a m = outpoint_bytes L b n"
  shows "challenge_script a = challenge_script b \<and> asBytes m = asBytes n"
proof -
  note inj = inj_onD [OF assms(2)]
  have "sha256 L (sha256 L (spend_bytes L (challenge_script a) m)) = sha256 L (sha256 L (spend_bytes L (challenge_script b) n))"
    using assms(3) by (simp add: outpoint_bytes_def sha256d_def)
  then have "sha256 L (spend_bytes L (challenge_script a) m) = sha256 L (spend_bytes L (challenge_script b) n)"
    by (rule inj) (simp_all add: hashed_inputs_def)
  then have "spend_bytes L (challenge_script a) m = spend_bytes L (challenge_script b) n"
    by (rule inj) (simp_all add: hashed_inputs_def)
  then have s: "challenge_script a = challenge_script b" and "sha256 L (tagged_bytes L m) = sha256 L (tagged_bytes L n)"
    using spend_bytes_inj [OF assms(1)] by blast+
  from this(2) have "tagged_bytes L m = tagged_bytes L n" by (rule inj) (simp_all add: hashed_inputs_def)
  with s show ?thesis by (simp add: tagged_bytes_def)
qed

text \<open>
  C34: a BIP-322 signature is for one address and one message. Unless SHA-256 collides on the byte strings hashed for
  the two digests, equal digests come from the same address kind, the same key or key hash, the same hash type and the
  same message.
\<close>

theorem bip322_digest_binding:
  assumes "sha256_documented L" and "inj_on (sha256 L) (hashed_inputs L a m \<union> hashed_inputs L b n)"
    and "challenge_digest L a m = Inr d" and "challenge_digest L b n = Inr d"
  shows "a = b \<and> asBytes m = asBytes n"
proof -
  note inj = inj_onD [OF assms(2)]
  have len: "length (sha256 L x) = 32" "length (sha256d L x) = 32" for x
    using assms(1) by (simp_all add: sha256_documented_def sha256d_def)
  have lo: "length (outpoint_bytes L c x) = 36" for c x by (simp add: outpoint_bytes_def len)
  note da = digest_eq [OF assms(1,3)] and db = digest_eq [OF assms(1,4)]
  have "sha256 L (digest_bytes L a m) = sha256 L (digest_bytes L b n)" using da db by simp
  then have eq: "digest_bytes L a m = digest_bytes L b n" by (rule inj) (simp_all add: hashed_inputs_def)
  show ?thesis
  proof (cases a; cases b)
    fix k h k' h' assume t: "a = TrChallenge k h" "b = TrChallenge k' h'"
    have "sha256 L (outpoint_bytes L a m) = sha256 L (outpoint_bytes L b n)" "u8 h = u8 h'"
      using eq t by (simp_all add: digest_bytes_def len)
    moreover from this(1) have "outpoint_bytes L a m = outpoint_bytes L b n" by (rule inj) (simp_all add: hashed_inputs_def)
    moreover have "h < 256" "h' < 256" using da db t by auto
    ultimately show ?thesis
      using outpoint_inj [OF assms(1,2)] t by (auto simp: challenge_script_def u8_eq_iff)
  next
    fix h h' assume t: "a = WpkhChallenge h" "b = WpkhChallenge h'"
    have "length h = length h'" using da db t by simp
    moreover have "u32le 0 @ sha256d L (outpoint_bytes L a m) @ sha256d L (u32le 0) @ outpoint_bytes L a m @
        (25 # [0x76, 0xa9, 0x14] @ drop 2 (challenge_script a) @ [0x88, 0xac]) @ id_u64le 0 @ u32le 0 @
        sha256d L outputs_hashed @ u32le 0 @ u32le 1
      = u32le 0 @ sha256d L (outpoint_bytes L b n) @ sha256d L (u32le 0) @ outpoint_bytes L b n @
        (25 # [0x76, 0xa9, 0x14] @ drop 2 (challenge_script b) @ [0x88, 0xac]) @ id_u64le 0 @ u32le 0 @
        sha256d L outputs_hashed @ u32le 0 @ u32le 1"
      by (rule inj) (use eq t in \<open>simp_all add: hashed_inputs_def digest_bytes_def challenge_script_def\<close>)
    ultimately have "outpoint_bytes L a m = outpoint_bytes L b n" by (simp add: len lo)
    then show ?thesis using outpoint_inj [OF assms(1,2)] t by (auto simp: challenge_script_def)
  next
    fix k h h' assume "a = TrChallenge k h" "b = WpkhChallenge h'"
    then show ?thesis using arg_cong [OF eq, of length] by (simp add: digest_bytes_def len)
  next
    fix k h h' assume "a = WpkhChallenge h'" "b = TrChallenge k h"
    then show ?thesis using arg_cong [OF eq, of length] by (simp add: digest_bytes_def len)
  qed
qed

text \<open>A concrete instance: a hash that separates lengths, and the empty message as a text and as bytes.\<close>

definition byte_lib :: "bytes id_lib" where
  "byte_lib = \<lparr>hexEncode = hex_string, hexDecode = (\<lambda>s. Some (unhex s)), sha256 = (\<lambda>bs. replicate 31 0 @ [u8 (length bs)]),
     ripemd160 = take 20, base64Decode = (\<lambda>s. Some (map (\<lambda>u. word_of_nat (unat u - 256)) s)),
     base64Encode = map (\<lambda>b. word_of_nat (unat b + 256)),
     schnorrVerify = (\<lambda>sig d k. Inr (sig = d @ k)),
     schnorrSign = (\<lambda>d k _. if length d = 32 \<and> length k = 32 then Inr (d @ k) else Inl (Error ''length'')), schnorrPublic = Inr,
     tweakPublic = (\<lambda>k _. Inr k), tweakPrivate = (\<lambda>k _. Inr k),
     ecdsaVerify = (\<lambda>der d k. Inr (der = d @ tl k)), 
     ecdsaSignDer = (\<lambda>d k. if length d = 32 then Inr (d @ k) else Inl (Error ''length'')),
     ecdsaSignRecovered = (\<lambda>d k. if length d = 32 then Inr (1 # d @ k) else Inl (Error ''length'')),
     ecdsaPublic = (\<lambda>k. if length k = 32 then Inr (2 # k) else Inl (Error ''length'')),
     recoverPoint = (\<lambda>sig d. Inr (drop 33 sig)), pointBytes = (\<lambda>p c. if c then 2 # p else 4 # p @ p),
     libNETWORK = \<lparr>npBech32 = ''bc'', npPubKeyHash = 0, npScriptHash = 5, npWif = 0x80\<rparr>,
     libTEST_NETWORK = \<lparr>npBech32 = ''tb'', npPubKeyHash = 0x6f, npScriptHash = 0xc4, npWif = 0xef\<rparr>,
     
     addressDecode = (\<lambda>_ s. let k = map (\<lambda>u. word_of_nat (unat u)) s in
       if 10 \<in> set s then Inl (Error ''address'') else Inr (if length s = 32 then OutTr k else if length s = 20 then OutWpkh k else if length s = 21 then OutPkh (tl k) else OutOther ''wsh'')), outScriptEncode = (\<lambda>_. Inr [])\<rparr>"

lemma byte_lib_documented: "sha256_documented byte_lib"
  by (simp add: byte_lib_def sha256_documented_def)

theorem bip322_digest_binding_witness:
  "\<exists>d. challenge_digest byte_lib (TrChallenge (replicate 32 7) 0) (Text []) = Inr d \<and>
       challenge_digest byte_lib (TrChallenge (replicate 32 7) 0) (Raw []) = Inr d \<and> asBytes (Text []) = asBytes (Raw [])"
proof -
  let ?c = "TrChallenge (replicate 32 7) 0"
  have same: "asBytes (Text []) = asBytes (Raw [])" by (simp add: asBytes_def)
  then have t: "toSpendTxid byte_lib s (Text []) = toSpendTxid byte_lib s (Raw [])" for s
    by (simp add: toSpendTxid_def toSpendTx_def bip322MessageHash_def)
  obtain d where d: "challenge_digest byte_lib ?c (Raw []) = Inr d"
    by (simp add: challenge_digest_def bip322SighashP2tr_def ID_SIGHASH_DEFAULT_def toSpendTxid_eq [OF byte_lib_documented]
        toSignTx_def varBytes_short Let_def)
  then have e: "challenge_digest byte_lib ?c (Text []) = Inr d"
    by (simp add: challenge_digest_def bip322SighashP2tr_def t)
  have h: "hashed_inputs byte_lib ?c (Text []) = hashed_inputs byte_lib ?c (Raw [])"
    by (simp add: hashed_inputs_def tagged_bytes_def spend_bytes_def outpoint_bytes_def digest_bytes_def same)
  have len: "length (sha256 byte_lib x) = 32" "length (sha256d byte_lib x) = 32" for x
    by (simp_all add: byte_lib_def sha256d_def)
  have sep: "sha256 byte_lib x = sha256 byte_lib y \<longleftrightarrow> length x mod 256 = length y mod 256" for x y
    by (simp add: byte_lib_def u8_eq_iff)
  let ?s = "spend_bytes byte_lib (challenge_script ?c) (Raw [])" and ?o = "outpoint_bytes byte_lib ?c (Raw [])"
  let ?in = "[tagged_bytes byte_lib (Raw []), ?s, sha256 byte_lib ?s, ?o, digest_bytes byte_lib ?c (Raw []),
      u32le 0 @ sha256d byte_lib ?o @ sha256d byte_lib (u32le 0) @ ?o @ (25 # [0x76, 0xa9, 0x14] @ drop 2 (challenge_script ?c) @ [0x88, 0xac]) @
      id_u64le 0 @ u32le 0 @ sha256d byte_lib outputs_hashed @ u32le 0 @ u32le 1]"
  have "map length ?in = [64, 128, 32, 36, 239, 194]"
    by (simp add: len tagged_bytes_def spend_bytes_def outpoint_bytes_def digest_bytes_def challenge_script_def asBytes_def ZERO32_def)
  then have "distinct (map (\<lambda>n. n mod 256) (map length ?in))" by (simp only:) simp
  then have "inj_on (\<lambda>x. length x mod 256) (set ?in)" by (simp only: map_map comp_def distinct_map)
  moreover have "hashed_inputs byte_lib ?c (Raw []) = set ?in" by (simp add: hashed_inputs_def)
  ultimately have "inj_on (sha256 byte_lib) (hashed_inputs byte_lib ?c (Raw []))" by (simp only: inj_on_def sep)
  then have "asBytes (Text []) = asBytes (Raw [])"
    using bip322_digest_binding [OF byte_lib_documented _ e d] h by simp
  with d e show ?thesis by blast
qed

subsection \<open>Signing and verifying\<close>

text \<open>Documented behaviour of the libraries: signatures verify under the key they were made for, and base64 inverts.\<close>

definition base64_documented :: "('p, 'z) id_lib_scheme \<Rightarrow> bool" where
  "base64_documented L \<longleftrightarrow>
     (\<forall>b. base64Decode L (base64Encode L b) = Some b \<and> js_trim (base64Encode L b) = base64Encode L b)"

definition schnorr_documented :: "('p, 'z) id_lib_scheme \<Rightarrow> bool" where
  "schnorr_documented L \<longleftrightarrow>
     (\<forall>sk pk key tweaked d aux sig. schnorrPublic L sk = Inr pk \<longrightarrow> tweakPublic L pk [] = Inr key \<longrightarrow>
        tweakPrivate L sk [] = Inr tweaked \<longrightarrow> schnorrSign L d tweaked aux = Inr sig \<longrightarrow>
        length sig = 64 \<and> schnorrVerify L sig d key = Inr True)"

definition ecdsa_documented :: "('p, 'z) id_lib_scheme \<Rightarrow> bool" where
  "ecdsa_documented L \<longleftrightarrow>
     (\<forall>sk pk d der. ecdsaPublic L sk = Inr pk \<longrightarrow> ecdsaSignDer L d sk = Inr der \<longrightarrow>
        length pk = 33 \<and> (pk ! 0 = 2 \<or> pk ! 0 = 3) \<and> 8 \<le> length der \<and> length der \<le> 72 \<and> ecdsaVerify L der d pk = Inr True) \<and>
     (\<forall>sk pk d sig. ecdsaPublic L sk = Inr pk \<longrightarrow> ecdsaSignRecovered L d sk = Inr sig \<longrightarrow>
        length sig = 65 \<and> unat (sig ! 0) < 4 \<and> (\<exists>p. recoverPoint L sig d = Inr p \<and> pointBytes L p True = pk))"

lemma decode_encodeBase64: "base64_documented L \<Longrightarrow> decodeBase64 L (encodeBase64 L b) = Some b"
  by (simp add: base64_documented_def decodeBase64_def encodeBase64_def)

text \<open>The address of a private key: the tweaked key for taproot, the hash of the public key otherwise.\<close>

definition key_address :: "('p, 'z) id_lib_scheme \<Rightarrow> bytes \<Rightarrow> DecodedAddress \<Rightarrow> bool" where
  "key_address L sk decoded =
     (case daKind decoded of
        P2tr \<Rightarrow> ebind (schnorrPublic L sk) (\<lambda>pk. tweakPublic L pk []) = Inr (daProgram decoded)
      | P2sh \<Rightarrow> emap (\<lambda>pk. hash160 L ([0x00, 0x14] @ hash160 L pk)) (ecdsaPublic L sk) = Inr (daProgram decoded)
      | _ \<Rightarrow> emap (hash160 L) (ecdsaPublic L sk) = Inr (daProgram decoded))"

text \<open>
  C35: what the reference signer signs is accepted. A BIP-322 signature made with the key of an address, of the kind of the
  address, verifies for that address and message, whatever hash type and randomness the signer was given.
\<close>

theorem bip322_sign_verify:
  assumes "base64_documented L" "schnorr_documented L" "ecdsa_documented L"
    and "decodeAddress L address network = Inr decoded" and "key_address L sk decoded"
    and "daKind decoded = (case kd of SignP2tr \<Rightarrow> P2tr | SignP2wpkh \<Rightarrow> P2wpkh)"
    and "signBip322Simple L sk kd m hashType aux = Inr signature"
  shows "verifyBip322Simple L address network m signature = Valid (case kd of SignP2tr \<Rightarrow> ''p2tr'' | SignP2wpkh \<Rightarrow> ''p2wpkh'')"
proof (cases kd)
  case SignP2wpkh
  obtain pk d der w where s: "ecdsaPublic L sk = Inr pk" "bip322SighashP2wpkh L (hash160 L pk) m = Inr d"
      "ecdsaSignDer L d sk = Inr der" "encodeWitness [der @ [1], pk] = Inr w" "signature = encodeBase64 L w"
    using assms(7) SignP2wpkh by (auto simp: signBip322Simple_def ebind_eq_Inr ID_SIGHASH_ALL_def u8_def)
  moreover have "decodeWitness w = Inr [der @ [1], pk]" using s by (simp add: witness_coding)
  moreover have "hash160 L pk = daProgram decoded" using assms(5,6) s SignP2wpkh by (simp add: key_address_def)
  moreover have "length pk = 33" "pk ! 0 = 2 \<or> pk ! 0 = 3" "8 \<le> length der" "ecdsaVerify L der d pk = Inr True"
    using assms(3) s by (auto simp: ecdsa_documented_def)
  ultimately show ?thesis using assms(1,4,6) SignP2wpkh
    by (auto simp: verifyBip322Simple_def verifyBip322SimpleDecoded_def decode_encodeBase64 verify_p2wpkh_def ID_SIGHASH_ALL_def)
next
  case SignP2tr
  define h where "h = (case hashType of None \<Rightarrow> ID_SIGHASH_DEFAULT | Some h \<Rightarrow> h)"
  define full where "full sig = (if h = ID_SIGHASH_DEFAULT then sig else id_concatBytes [sig, [u8 h]])" for sig
  obtain pk key tw d sig w where s: "schnorrPublic L sk = Inr pk" "tweakPublic L pk [] = Inr key" "tweakPrivate L sk [] = Inr tw"
      "bip322SighashP2tr L key m h = Inr d" "schnorrSign L d tw aux = Inr sig"
      "encodeWitness [full sig] = Inr w" "signature = encodeBase64 L w"
    using assms(7) SignP2tr unfolding signBip322Simple_def Let_def h_def [symmetric] full_def by (auto simp: ebind_eq_Inr)
  moreover have "decodeWitness w = Inr [full sig]" using s by (simp add: witness_coding)
  moreover have "key = daProgram decoded" using assms(5,6) s SignP2tr by (simp add: key_address_def)
  moreover have "length sig = 64" "schnorrVerify L sig d key = Inr True"
    using assms(2) s unfolding schnorr_documented_def by blast+
  moreover have "h = 0 \<or> h = 1" using s(4) by (auto simp: bip322SighashP2tr_def ID_SIGHASH_DEFAULT_def ID_SIGHASH_ALL_def split: if_splits)
  ultimately show ?thesis using assms(1,4,6) SignP2tr
    by (auto simp: verifyBip322Simple_def verifyBip322SimpleDecoded_def decode_encodeBase64 verify_p2tr_def full_def
        ID_SIGHASH_ALL_def ID_SIGHASH_DEFAULT_def nth_append)
qed

lemma byte_lib_base64: "base64_documented byte_lib"
proof -
  have u: "unat (ucast x + 256 :: 16 word) = unat x + 256" for x :: byte
  proof -
    have "(ucast x + 256 :: 16 word) = word_of_nat (unat x + 256)" by simp
    moreover have "unat x + 256 < 65536" using unat_byte_less [of x] by linarith
    ultimately show ?thesis by (simp only: unat_of_nat) simp
  qed
  have mid: "\<not> js_space v" if "256 \<le> unat v" "unat v < 512" for v using that by (auto simp: js_space_def Let_def)
  have "\<not> js_space (ucast x + 256)" for x :: byte
    by (rule mid; unfold u) (use unat_byte_less [of x] in linarith)+
  then show ?thesis by (simp add: base64_documented_def byte_lib_def js_trim_id list_all_iff comp_def u)
qed

lemma byte_lib_curve: "schnorr_documented byte_lib" "ecdsa_documented byte_lib"
  by (auto simp: schnorr_documented_def ecdsa_documented_def byte_lib_def)

theorem bip322_sign_verify_witness:
  "\<exists>signature. signBip322Simple byte_lib (replicate 32 97) SignP2tr (Text (js ''hi'')) None None = Inr signature \<and>
     verifyBip322Simple byte_lib (js (replicate 32 CHR ''a'')) (js ''mainnet'') (Text (js ''hi'')) signature = Valid ''p2tr''"
proof -
  let ?k = "replicate 32 97 :: bytes" and ?a = "js (replicate 32 CHR ''a'')" and ?n = "js ''mainnet''"
  have "js_trim ?a = ?a" by (rule js_trim_id) (simp add: js_def js_space_def list_all_iff)
  then obtain decoded where d: "decodeAddress byte_lib ?a ?n = Inr decoded" "daKind decoded = P2tr" "daProgram decoded = ?k"
    by (simp add: decodeAddress_def id_networkParams_def byte_lib_def kind_of_out_def js_def)
  have k: "key_address byte_lib ?k decoded" using d by (simp add: key_address_def byte_lib_def)
  obtain g where g: "challenge_digest byte_lib (TrChallenge ?k 0) (Text (js ''hi'')) = Inr g"
    by (simp add: challenge_digest_def bip322SighashP2tr_def ID_SIGHASH_DEFAULT_def toSpendTxid_eq [OF byte_lib_documented]
        toSignTx_def varBytes_short Let_def)
  then have "length g = 32" using digest_eq [OF byte_lib_documented g] by (simp add: byte_lib_def)
  then have sg: "schnorrSign byte_lib g ?k None = Inr (g @ ?k)" "length (g @ ?k) = 64" by (simp_all add: byte_lib_def)
  have keys: "schnorrPublic byte_lib ?k = Inr ?k" "tweakPublic byte_lib ?k [] = Inr ?k" "tweakPrivate byte_lib ?k [] = Inr ?k"
    by (simp_all add: byte_lib_def)
  have "bip322SighashP2tr byte_lib ?k (Text (js ''hi'')) 0 = Inr g" using g by (simp add: challenge_digest_def)
  then obtain signature where s: "signBip322Simple byte_lib ?k SignP2tr (Text (js ''hi'')) None None = Inr signature"
    using sg keys by (simp add: signBip322Simple_def ID_SIGHASH_DEFAULT_def encodeWitness_def varBytes_short id_compactSize_def
        MAX_SAFE_INTEGER_def)
  with bip322_sign_verify [OF byte_lib_base64 byte_lib_curve d(1) k, of SignP2tr] d(2) show ?thesis by simp
qed

text \<open>The public key of a private key in the form that a kind of legacy signature asks for.\<close>

definition legacy_address :: "legacy_kind \<Rightarrow> AddressKind" where
  "legacy_address kd = (case kd of LegacyP2wpkh \<Rightarrow> P2wpkh | LegacyP2shP2wpkh \<Rightarrow> P2sh | _ \<Rightarrow> P2pkh)"

lemma legacy_header:
  assumes "n < 4"
  shows "unat (u8 (legacy_base kd + n)) = legacy_base kd + n" "(legacy_base kd + n - 27) mod 4 = n"
    "27 \<le> legacy_base kd" "legacy_base kd + n \<le> 42"
proof -
  have b: "legacy_base kd \<in> {27, 31, 35, 39}" by (cases kd) (simp_all add: legacy_base_def)
  then show "27 \<le> legacy_base kd" "legacy_base kd + n \<le> 42" using assms by auto
  then have "legacy_base kd + n < 256" using assms by simp
  then show "unat (u8 (legacy_base kd + n)) = legacy_base kd + n" by simp
  have "legacy_base kd + n - 27 = 4 * ((legacy_base kd - 27) div 4) + n" using b by auto
  then show "(legacy_base kd + n - 27) mod 4 = n" using assms by simp
qed

text \<open>
  Legacy signatures with a compressed key are accepted where they apply. What the reference signer makes with the key of
  a P2PKH, P2WPKH or P2SH-P2WPKH address verifies for that address and message, and for no taproot address is any
  legacy signature accepted, whoever made it.
\<close>

theorem legacy_sign_verify:
  assumes "base64_documented L" "ecdsa_documented L"
    and "decodeAddress L address network = Inr decoded" and "key_address L sk decoded"
    and "daKind decoded = legacy_address kd" and "kd \<noteq> LegacyP2pkhUncompressed"
    and "ecdsaPublic L sk = Inr pk" and "signLegacyMessage L sk m kd = Inr signature"
  shows "(\<exists>k. verifyLegacyMessage L address network m signature = Valid k) \<and>
    (daKind other = P2tr \<longrightarrow> (\<nexists>k. verifyLegacyDecoded L other n s = Valid k))"
proof -
  obtain h sig where s: "legacyMessageHash L m = Inr h" "ecdsaSignRecovered L h sk = Inr sig"
      "signature = encodeBase64 L (u8 (legacy_base kd + unat (sig ! 0)) # drop 1 sig)"
    using assms(8) by (auto simp: signLegacyMessage_def ebind_eq_Inr)
  obtain p where p: "length sig = 65" "unat (sig ! 0) < 4" "recoverPoint L sig h = Inr p" "pointBytes L p True = pk"
    using assms(2,7) s(2) unfolding ecdsa_documented_def by blast
  have sig: "sig = sig ! 0 # drop 1 sig" using p(1) by (cases sig) simp_all
  have c: "31 \<le> legacy_base kd + unat (sig ! 0)" using assms(6) by (cases kd) (simp_all add: legacy_base_def)
  have "recoverPoint L (u8 (unat (sig ! 0)) # drop 1 sig) h = Inr p" using p(3) sig by simp
  then have "verifyLegacyDecoded L decoded m signature = verify_recovered L decoded True (hash160 L pk)"
    using s p c legacy_header [OF p(2), of kd] assms(1)
    by (simp add: verifyLegacyDecoded_def decode_encodeBase64 isLegacySignature_def Let_def del: u8_unat unat_u8)
  also have "\<exists>k. \<dots> = Valid k" using assms(4-7)
    by (cases kd) (simp_all add: verify_recovered_def legacy_match_def key_address_def legacy_address_def)
  finally have "\<exists>k. verifyLegacyMessage L address network m signature = Valid k"
    using assms(3) by (simp add: verifyLegacyMessage_def)
  moreover have "verifyLegacyDecoded L other n s \<noteq> Valid k" if "daKind other = P2tr" for k
    using that by (auto simp: verifyLegacyDecoded_def verify_recovered_def Let_def split: option.splits sum.splits)
  ultimately show ?thesis by blast
qed

theorem legacy_sign_verify_witness:
  "\<exists>k signature. signLegacyMessage byte_lib (replicate 32 1) (Text []) LegacyP2pkh = Inr signature \<and>
     verifyLegacyMessage byte_lib (replicate 21 0x100) (js ''mainnet'') (Text []) signature = Valid k"
proof -
  let ?k = "replicate 32 1 :: bytes" and ?a = "replicate 21 0x100 :: js_string" and ?n = "js ''mainnet''"
  have "js_trim ?a = ?a" by (rule js_trim_id) (simp add: js_space_def list_all_iff)
  then obtain decoded where d: "decodeAddress byte_lib ?a ?n = Inr decoded" "daKind decoded = P2pkh" "daProgram decoded = replicate 20 0"
    by (simp add: decodeAddress_def id_networkParams_def byte_lib_def kind_of_out_def)
  have p: "ecdsaPublic byte_lib ?k = Inr (2 # ?k)" by (simp add: byte_lib_def)
  then have k: "key_address byte_lib ?k decoded" using d by (simp add: key_address_def hash160_def) (simp add: byte_lib_def)
  have mg: "length MAGIC = 24" by (simp add: MAGIC_def utf8_def js_def hi_surrogate_def lo_surrogate_def utf8_point_def)
  have "asBytes (Text []) = []" by (simp add: asBytes_def)
  then have "\<exists>h. legacyMessageHash byte_lib (Text []) = Inr h \<and> length h = 32"
    by (simp add: legacyMessageHash_def varBytes_short mg sha256d_def) (simp add: byte_lib_def)
  then obtain signature where s: "signLegacyMessage byte_lib ?k (Text []) LegacyP2pkh = Inr signature"
    by (auto simp: signLegacyMessage_def) (simp add: byte_lib_def)
  from legacy_sign_verify [OF byte_lib_base64 byte_lib_curve(2) d(1) k _ _ p s] d(2) s show ?thesis
    by (auto simp: legacy_address_def)
qed

text \<open>What an accepted BIP-322 signature was checked against.\<close>

lemma verifyBip322_Valid:
  assumes "verifyBip322SimpleDecoded L decoded m s = Valid k"
  obtains c d sig where "challenge_digest L c m = Inr d" and
    "(case c of TrChallenge key _ \<Rightarrow> daKind decoded = P2tr \<and> key = daProgram decoded \<and> schnorrVerify L sig d key = Inr True
      | WpkhChallenge h \<Rightarrow> daKind decoded = P2wpkh \<and> h = daProgram decoded \<and> (\<exists>pk. hash160 L pk = h \<and> ecdsaVerify L sig d pk = Inr True))"
proof -
  obtain raw w where r: "decodeBase64 L s = Some raw" "decodeWitness raw = Inr w"
      "daKind decoded = P2tr \<and> verify_p2tr L (daProgram decoded) m w = Inr (Valid k) \<or>
       daKind decoded = P2wpkh \<and> verify_p2wpkh L (daProgram decoded) m w = Inr (Valid k)"
    using assms by (auto simp: verifyBip322SimpleDecoded_def split: option.splits sum.splits AddressKind.splits)
  from r(3) show thesis
  proof
    assume a: "daKind decoded = P2tr \<and> verify_p2tr L (daProgram decoded) m w = Inr (Valid k)"
    then obtain h d sig where "bip322SighashP2tr L (daProgram decoded) m h = Inr d" "schnorrVerify L sig d (daProgram decoded) = Inr True"
      by (auto simp: verify_p2tr_def ebind_eq_Inr Let_def split: if_splits)
    then show thesis using a that [of "TrChallenge (daProgram decoded) h"] by (simp add: challenge_digest_def)
  next
    assume a: "daKind decoded = P2wpkh \<and> verify_p2wpkh L (daProgram decoded) m w = Inr (Valid k)"
    then obtain pk d sig where "bip322SighashP2wpkh L (daProgram decoded) m = Inr d" "hash160 L pk = daProgram decoded"
        "ecdsaVerify L sig d pk = Inr True"
      by (auto simp: verify_p2wpkh_def ebind_eq_Inr Let_def split: if_splits)
    then show thesis using a that [of "WpkhChallenge (daProgram decoded)"] by (auto simp: challenge_digest_def)
  qed
qed

end
