(* ===== verification/IdSiwb.thy ===== *)
theory IdSiwb imports IdMessageProps begin

text \<open>
  Sign in with Bitcoin (\<open>siwb.ts\<close>) and its nonces (\<open>nonce.ts\<close>) of \<open>platform/identity/src\<close>, with the wallets linked to an
  identity (\<open>types.ts\<close>). \<open>URL\<close>, \<open>Date.parse\<close> and \<open>toISOString\<close> are arguments; a URL is what the code reads of it.
\<close>

subsection \<open>Fields\<close>

record SiwbFields =
  siDomain :: js_string
  siAddress :: js_string
  siStatement :: js_string
  siUri :: js_string
  siVersion :: js_string
  siNetwork :: js_string
  siNonce :: js_string
  siIssuedAt :: js_string
  siExpirationTime :: js_string
  siNotBefore :: "js_string option"
  siRequestId :: "js_string option"
  siResources :: "js_string list option"

record WebUrl =
  urlProtocol :: js_string
  urlHost :: js_string
  urlHostname :: js_string

record 'p web_lib = "'p id_lib" +
  newUrl :: "js_string \<Rightarrow> WebUrl option"
  dateParse :: "js_string \<Rightarrow> int option"
  toISOString :: "int \<Rightarrow> js_string option"

datatype siwb_error = SiwbError string string | RangeError

definition SIWB_VERSION :: js_string where "SIWB_VERSION = js ''1''"
definition MAX_TTL_SECONDS :: int where "MAX_TTL_SECONDS = 3600"
definition HEADER_SUFFIX :: js_string where
  "HEADER_SUFFIX = js '' wants you to sign in with your Bitcoin account:''"

text \<open>\<open>[a-z0-9](?:[a-z0-9-]{0,61}[a-z0-9])?\<close>.\<close>

definition unit_in :: "char \<Rightarrow> char \<Rightarrow> 16 word \<Rightarrow> bool" where
  "unit_in a b u = (of_char a \<le> unat u \<and> unat u \<le> of_char b)"

definition domain_end :: "16 word \<Rightarrow> bool" where
  "domain_end u = (unit_in CHR ''a'' CHR ''z'' u \<or> unit_in CHR ''0'' CHR ''9'' u)"

definition domain_label :: "js_string \<Rightarrow> bool" where
  "domain_label w = (1 \<le> length w \<and> length w \<le> 63 \<and> domain_end (hd w) \<and> domain_end (last w) \<and>
     list_all (\<lambda>u. domain_end u \<or> u = 45) w)"

definition DOMAIN_RE :: "js_string \<Rightarrow> bool" where
  "DOMAIN_RE s =
     (case split_on 58 s of
        [h] \<Rightarrow> list_all domain_label (split_on 46 h)
      | [h, p] \<Rightarrow> list_all domain_label (split_on 46 h) \<and> 1 \<le> length p \<and> length p \<le> 5 \<and> list_all (unit_in CHR ''0'' CHR ''9'') p
      | _ \<Rightarrow> False)"

definition NONCE_RE :: "js_string \<Rightarrow> bool" where
  "NONCE_RE s = (16 \<le> length s \<and> length s \<le> 64 \<and>
     list_all (\<lambda>u. unit_in CHR ''A'' CHR ''Z'' u \<or> unit_in CHR ''a'' CHR ''z'' u \<or> unit_in CHR ''0'' CHR ''9'' u) s)"

definition REQUEST_ID_RE :: "js_string \<Rightarrow> bool" where
  "REQUEST_ID_RE s = (1 \<le> length s \<and> length s \<le> 128 \<and> list_all (\<lambda>u. 0x21 \<le> unat u \<and> unat u \<le> 0x7e) s)"

text \<open>With the flag \<open>u\<close> the length is counted in code points.\<close>

definition STATEMENT_RE :: "js_string \<Rightarrow> bool" where
  "STATEMENT_RE s = (1 \<le> length (utf16_points s) \<and> length (utf16_points s) \<le> 280 \<and> list_all (\<lambda>u. 0x20 \<le> unat u \<and> unat u \<noteq> 0x7f) s)"

definition isCanonicalIso :: "('p, 'z) web_lib_scheme \<Rightarrow> js_string \<Rightarrow> bool" where
  "isCanonicalIso W s = (case dateParse W s of None \<Rightarrow> False | Some ms \<Rightarrow> toISOString W ms = Some s)"

definition isLoopback :: "js_string \<Rightarrow> bool" where
  "isLoopback hostname = (hostname = js ''localhost'' \<or> hostname = js ''127.0.0.1'' \<or> hostname = js ''[::1]'')"

text \<open>A comparison with the \<open>NaN\<close> of an unreadable date is false.\<close>

definition date_le :: "int option \<Rightarrow> int option \<Rightarrow> bool" where
  "date_le a b = (case (a, b) of (Some x, Some y) \<Rightarrow> x \<le> y | _ \<Rightarrow> False)"

definition siwb_guard :: "bool \<Rightarrow> string \<Rightarrow> string \<Rightarrow> siwb_error + unit" where
  "siwb_guard ok code why = eguard ok (SiwbError code why)"

definition check_uri :: "('p, 'z) web_lib_scheme \<Rightarrow> SiwbFields \<Rightarrow> siwb_error + unit" where
  "check_uri W f =
     (case newUrl W (siUri f) of
        None \<Rightarrow> Inl (SiwbError ''invalid_uri'' ''uri is not a valid URL'')
      | Some url \<Rightarrow>
          ebind (siwb_guard (urlProtocol url = js ''https:'' \<or> (urlProtocol url = js ''http:'' \<and> isLoopback (urlHostname url)))
            ''invalid_uri'' ''uri must be https (http only for loopback)'') (\<lambda>_.
          ebind (siwb_guard (urlHost url = siDomain f) ''invalid_uri'' ''uri host must equal domain'') (\<lambda>_.
          siwb_guard (\<not> list_ex js_space (siUri f)) ''invalid_uri'' ''uri must not contain whitespace'')))"

definition check_times :: "('p, 'z) web_lib_scheme \<Rightarrow> SiwbFields \<Rightarrow> siwb_error + unit" where
  "check_times W f =
     ebind (siwb_guard (isCanonicalIso W (siIssuedAt f)) ''invalid_time'' ''issuedAt must be a canonical ISO-8601 UTC timestamp'') (\<lambda>_.
     ebind (siwb_guard (isCanonicalIso W (siExpirationTime f)) ''invalid_time'' ''expirationTime must be a canonical ISO-8601 UTC timestamp'') (\<lambda>_.
     ebind (siwb_guard (case siNotBefore f of None \<Rightarrow> True | Some t \<Rightarrow> isCanonicalIso W t)
       ''invalid_time'' ''notBefore must be a canonical ISO-8601 UTC timestamp'') (\<lambda>_.
     siwb_guard (\<not> date_le (dateParse W (siExpirationTime f)) (dateParse W (siIssuedAt f)))
       ''invalid_time'' ''expirationTime must follow issuedAt'')))"

definition check_resource :: "('p, 'z) web_lib_scheme \<Rightarrow> js_string \<Rightarrow> siwb_error + unit" where
  "check_resource W r =
     ebind (siwb_guard (newUrl W r \<noteq> None) ''invalid_resource'' ''resources must be URIs'') (\<lambda>_.
     siwb_guard (\<not> list_ex js_space r) ''invalid_resource'' ''resources must not contain whitespace'')"

definition validateFields :: "('p, 'z) web_lib_scheme \<Rightarrow> SiwbFields \<Rightarrow> siwb_error + unit" where
  "validateFields W f =
     ebind (siwb_guard (length (siDomain f) \<le> 259 \<and> DOMAIN_RE (siDomain f)) ''invalid_domain'' ''domain must be a lower-case host[:port]'') (\<lambda>_.
     ebind (siwb_guard (STATEMENT_RE (siStatement f)) ''invalid_statement'' ''statement must be one printable line (1-280 chars)'') (\<lambda>_.
     ebind (check_uri W f) (\<lambda>_.
     ebind (siwb_guard (siVersion f = SIWB_VERSION) ''invalid_version'' ''unsupported version'') (\<lambda>_.
     ebind (siwb_guard (isBitcoinNetwork (siNetwork f)) ''invalid_network'' ''unknown network'') (\<lambda>_.
     ebind (siwb_guard (NONCE_RE (siNonce f)) ''invalid_nonce'' ''nonce must be 16-64 alphanumerics'') (\<lambda>_.
     ebind (check_times W f) (\<lambda>_.
     ebind (siwb_guard (case siRequestId f of None \<Rightarrow> True | Some r \<Rightarrow> REQUEST_ID_RE r) ''invalid_request_id'' ''invalid requestId'') (\<lambda>_.
     ebind (emapM (check_resource W) (case siResources f of None \<Rightarrow> [] | Some rs \<Rightarrow> rs)) (\<lambda>_.
     case decodeAddress W (siAddress f) (siNetwork f) of
       Inl e \<Rightarrow> Inl (SiwbError ''invalid_address'' (error_text e))
     | Inr _ \<Rightarrow> Inr ())))))))))"

subsection \<open>Messages\<close>

definition optional_line :: "string \<Rightarrow> js_string option \<Rightarrow> js_string list" where
  "optional_line label v = (case v of None \<Rightarrow> [] | Some x \<Rightarrow> [js label @ x])"

definition resource_lines :: "js_string list option \<Rightarrow> js_string list" where
  "resource_lines rs = (case rs of None \<Rightarrow> [] | Some [] \<Rightarrow> [] | Some xs \<Rightarrow> js ''Resources:'' # map (\<lambda>r. js ''- '' @ r) xs)"

definition siwb_lines :: "SiwbFields \<Rightarrow> js_string list" where
  "siwb_lines f =
     [siDomain f @ HEADER_SUFFIX, siAddress f, [], siStatement f, [], js ''URI: '' @ siUri f, js ''Version: '' @ siVersion f,
      js ''Network: '' @ siNetwork f, js ''Nonce: '' @ siNonce f, js ''Issued At: '' @ siIssuedAt f,
      js ''Expiration Time: '' @ siExpirationTime f] @
     optional_line ''Not Before: '' (siNotBefore f) @ optional_line ''Request ID: '' (siRequestId f) @ resource_lines (siResources f)"

definition formatSiwbMessage :: "SiwbFields \<Rightarrow> js_string" where
  "formatSiwbMessage f = join_on 10 (siwb_lines f)"

definition bad_message :: "string \<Rightarrow> siwb_error + 'a" where
  "bad_message why = Inl (SiwbError ''malformed_message'' why)"

definition unit_prefix :: "js_string \<Rightarrow> js_string \<Rightarrow> bool" where
  "unit_prefix p s = (take (length p) s = p)"

definition unit_suffix :: "js_string \<Rightarrow> js_string \<Rightarrow> bool" where
  "unit_suffix p s = (length p \<le> length s \<and> drop (length s - length p) s = p)"

text \<open>The parser keeps the lines that are still to be read.\<close>

definition next_line :: "js_string list \<Rightarrow> siwb_error + js_string \<times> js_string list" where
  "next_line lines = (case lines of [] \<Rightarrow> bad_message ''unexpected end of message'' | l # rest \<Rightarrow> Inr (l, rest))"

definition blank_line :: "string \<Rightarrow> js_string list \<Rightarrow> siwb_error + js_string list" where
  "blank_line why lines =
     ebind (next_line lines) (\<lambda>(l, rest). if l \<noteq> [] then bad_message why else Inr rest)"

definition tagged :: "string \<Rightarrow> js_string list \<Rightarrow> siwb_error + js_string \<times> js_string list" where
  "tagged label lines =
     ebind (next_line lines) (\<lambda>(l, rest).
       if \<not> unit_prefix (js (label @ '': '')) l then bad_message (''expected '' @ label)
       else Inr (drop (length label + 2) l, rest))"

definition tagged_opt :: "string \<Rightarrow> js_string list \<Rightarrow> siwb_error + js_string option \<times> js_string list" where
  "tagged_opt label lines =
     (case lines of
        [] \<Rightarrow> Inr (None, [])
      | l # _ \<Rightarrow> if unit_prefix (js (label @ '': '')) l then ebind (tagged label lines) (\<lambda>(v, rest). Inr (Some v, rest))
                else Inr (None, lines))"

definition parse_resources :: "js_string list \<Rightarrow> siwb_error + js_string list option \<times> js_string list" where
  "parse_resources lines =
     (case lines of
        [] \<Rightarrow> Inr (None, [])
      | l # rest \<Rightarrow>
          if l = js ''Resources:''
          then let rs = takeWhile (unit_prefix (js ''- '')) rest in
            if rs = [] then bad_message ''empty Resources list''
            else Inr (Some (map (drop 2) rs), dropWhile (unit_prefix (js ''- '')) rest)
          else Inr (None, lines))"

definition parse_lines :: "js_string list \<Rightarrow> siwb_error + SiwbFields" where
  "parse_lines lines =
     ebind (next_line lines) (\<lambda>(header, ls1).
     if \<not> unit_suffix HEADER_SUFFIX header then bad_message ''bad header line'' else
     let domain = take (length header - length HEADER_SUFFIX) header in
     ebind (next_line ls1) (\<lambda>(address, ls2).
     ebind (blank_line ''expected blank line after address'' ls2) (\<lambda>ls3.
     ebind (next_line ls3) (\<lambda>(statement, ls4).
     ebind (blank_line ''expected blank line after statement'' ls4) (\<lambda>ls5.
     ebind (tagged ''URI'' ls5) (\<lambda>(uri, ls6).
     ebind (tagged ''Version'' ls6) (\<lambda>(version, ls7).
     ebind (tagged ''Network'' ls7) (\<lambda>(network, ls8).
     ebind (tagged ''Nonce'' ls8) (\<lambda>(nonce, ls9).
     ebind (tagged ''Issued At'' ls9) (\<lambda>(issuedAt, ls10).
     ebind (tagged ''Expiration Time'' ls10) (\<lambda>(expirationTime, ls11).
     ebind (tagged_opt ''Not Before'' ls11) (\<lambda>(notBefore, ls12).
     ebind (tagged_opt ''Request ID'' ls12) (\<lambda>(requestId, ls13).
     ebind (parse_resources ls13) (\<lambda>(resources, ls14).
     if ls14 \<noteq> [] then bad_message ''unexpected trailing content''
     else Inr \<lparr>siDomain = domain, siAddress = address, siStatement = statement, siUri = uri, siVersion = version,
                siNetwork = network, siNonce = nonce, siIssuedAt = issuedAt, siExpirationTime = expirationTime,
                siNotBefore = notBefore, siRequestId = requestId, siResources = resources\<rparr>))))))))))))))"

definition parseSiwbMessage :: "('p, 'z) web_lib_scheme \<Rightarrow> js_string \<Rightarrow> siwb_error + SiwbFields" where
  "parseSiwbMessage W msg =
     (if length msg > 4096 then bad_message ''message too long''
      else
        ebind (parse_lines (split_on 10 msg)) (\<lambda>f.
        ebind (validateFields W f) (\<lambda>_.
        if formatSiwbMessage f \<noteq> msg then bad_message ''message is not canonical'' else Inr f)))"

subsection \<open>The parser inverts the formatter\<close>

text \<open>Documented behaviour: what the address codec decodes and what \<open>toISOString\<close> writes is one line.\<close>

definition lines_documented :: "('p, 'z) web_lib_scheme \<Rightarrow> bool" where
  "lines_documented W \<longleftrightarrow>
     (\<forall>n a t. addressDecode W n a = Inr t \<longrightarrow> 10 \<notin> set a) \<and> (\<forall>ms s. toISOString W ms = Some s \<longrightarrow> 10 \<notin> set s)"

lemma siwb_guard_Inr [simp]: "siwb_guard b c w = Inr u \<longleftrightarrow> b"
  by (simp add: siwb_guard_def)

lemma emapM_mem: "emapM f xs = Inr ys \<Longrightarrow> x \<in> set xs \<Longrightarrow> \<exists>y. f x = Inr y"
  by (induction xs arbitrary: ys) (auto simp: ebind_eq_Inr)

lemma js_space_10: "js_space 10"
  by (simp add: js_space_def)

lemma no_newline_digits: "list_all P s \<Longrightarrow> \<not> P 10 \<Longrightarrow> 10 \<notin> set s"
  by (auto simp: list_all_iff)

lemma domain_label_line: "domain_label w \<Longrightarrow> 10 \<notin> set w"
  by (rule no_newline_digits [of "\<lambda>u. domain_end u \<or> u = 45"]) (simp_all add: domain_label_def domain_end_def unit_in_def)

lemma domain_line:
  assumes "DOMAIN_RE s"
  shows "10 \<notin> set s"
proof -
  have host: "10 \<notin> set h" if "list_all domain_label (split_on 46 h)" for h
  proof
    assume "10 \<in> set h"
    then obtain w where "w \<in> set (split_on 46 h)" "10 \<in> set w" using split_on_mem [of 10 h 46] by auto
    then show False using that domain_label_line by (auto simp: list_all_iff)
  qed
  consider h where "split_on 58 s = [h]" "list_all domain_label (split_on 46 h)"
    | h p where "split_on 58 s = [h, p]" "list_all domain_label (split_on 46 h)" "list_all (unit_in CHR ''0'' CHR ''9'') p"
    using assms by (auto simp: DOMAIN_RE_def split: list.splits)
  then show ?thesis
  proof cases
    case 1
    then have "s = h" using join_split_on [of 58 s] by simp
    then show ?thesis using host 1 by simp
  next
    case 2
    then have "s = h @ 58 # p" using join_split_on [of 58 s] by simp
    then show ?thesis using host 2 by (auto simp: list_all_iff unit_in_def)
  qed
qed

definition one_line :: "SiwbFields \<Rightarrow> bool" where
  "one_line f \<longleftrightarrow> list_all (\<lambda>l. 10 \<notin> set l)
     ([siDomain f, siAddress f, siStatement f, siUri f, siVersion f, siNetwork f, siNonce f, siIssuedAt f, siExpirationTime f] @
      (case siNotBefore f of None \<Rightarrow> [] | Some t \<Rightarrow> [t]) @ (case siRequestId f of None \<Rightarrow> [] | Some r \<Rightarrow> [r]) @
      (case siResources f of None \<Rightarrow> [] | Some rs \<Rightarrow> rs))"

lemma validated_parts:
  assumes "validateFields W f = Inr u"
  shows "DOMAIN_RE (siDomain f)" "STATEMENT_RE (siStatement f)" "\<not> list_ex js_space (siUri f)" "siVersion f = SIWB_VERSION"
    "isBitcoinNetwork (siNetwork f)" "NONCE_RE (siNonce f)" "isCanonicalIso W (siIssuedAt f)" "isCanonicalIso W (siExpirationTime f)"
    "siNotBefore f = Some t \<Longrightarrow> isCanonicalIso W t" "siRequestId f = Some r \<Longrightarrow> REQUEST_ID_RE r"
    "siResources f = Some rs \<Longrightarrow> x \<in> set rs \<Longrightarrow> \<not> list_ex js_space x"
    "\<exists>d. decodeAddress W (siAddress f) (siNetwork f) = Inr d"
    "\<exists>a b. dateParse W (siIssuedAt f) = Some a \<and> dateParse W (siExpirationTime f) = Some b \<and> a < b"
proof -
  note v = assms [unfolded validateFields_def check_uri_def check_times_def]
  show "DOMAIN_RE (siDomain f)" "STATEMENT_RE (siStatement f)" "\<not> list_ex js_space (siUri f)" "siVersion f = SIWB_VERSION"
    "isBitcoinNetwork (siNetwork f)" "NONCE_RE (siNonce f)" "isCanonicalIso W (siIssuedAt f)" "isCanonicalIso W (siExpirationTime f)"
    "siNotBefore f = Some t \<Longrightarrow> isCanonicalIso W t" "siRequestId f = Some r \<Longrightarrow> REQUEST_ID_RE r"
    "\<exists>d. decodeAddress W (siAddress f) (siNetwork f) = Inr d"
    using v by (auto simp: ebind_eq_Inr split: option.splits sum.splits)
  show "\<exists>a b. dateParse W (siIssuedAt f) = Some a \<and> dateParse W (siExpirationTime f) = Some b \<and> a < b"
    using v by (auto simp: ebind_eq_Inr isCanonicalIso_def date_le_def split: option.splits sum.splits)
  show "\<not> list_ex js_space x" if r: "siResources f = Some rs" "x \<in> set rs"
  proof -
    have "\<exists>ys. emapM (check_resource W) (case siResources f of None \<Rightarrow> [] | Some rs \<Rightarrow> rs) = Inr ys"
      using assms unfolding validateFields_def ebind_eq_Inr by blast
    then obtain ys where "emapM (check_resource W) rs = Inr ys" using r(1) by auto
    then obtain z where "check_resource W x = Inr z" using emapM_mem [OF _ r(2)] by blast
    then show ?thesis by (auto simp: check_resource_def ebind_eq_Inr)
  qed
qed

lemma canonical_line: "lines_documented W \<Longrightarrow> isCanonicalIso W s \<Longrightarrow> 10 \<notin> set s"
  by (auto simp: lines_documented_def isCanonicalIso_def split: option.splits)

lemma validated_one_line:
  assumes "lines_documented W" and "validateFields W f = Inr u"
  shows "one_line f"
proof -
  note p = validated_parts [OF assms(2)]
  have "10 \<notin> set (siAddress f)"
    using p(12) assms(1) by (auto simp: decodeAddress_def lines_documented_def ebind_eq_Inr split: sum.splits if_splits)
  moreover have "10 \<notin> set (siVersion f)" "10 \<notin> set (siNetwork f)"
    using p(4,5) by (auto simp: SIWB_VERSION_def js_def isBitcoinNetwork_def BITCOIN_NETWORKS_def)
  moreover have "10 \<notin> set (siStatement f)" "10 \<notin> set (siNonce f)"
    using p(2,6) by (auto simp: STATEMENT_RE_def NONCE_RE_def unit_in_def list_all_iff)
  moreover have "10 \<notin> set r" if "siRequestId f = Some r" for r
    using p(10) that by (auto simp: REQUEST_ID_RE_def list_all_iff)
  moreover have "10 \<notin> set x" if "siResources f = Some rs" "x \<in> set rs" for x rs
    using p(11) that js_space_10 by (auto simp: list_ex_iff)
  moreover have "10 \<notin> set (siUri f)" using p(3) js_space_10 by (auto simp: list_ex_iff)
  ultimately show ?thesis
    using domain_line [OF p(1)] p(7,8,9) canonical_line [OF assms(1)]
    by (cases "siNotBefore f"; cases "siRequestId f"; cases "siResources f") (auto simp: one_line_def list_all_iff)
qed

lemma prefix_append [simp]: "unit_prefix p (p @ s)"
  by (simp add: unit_prefix_def)

lemma suffix_append [simp]: "unit_suffix p (s @ p)"
  by (simp add: unit_suffix_def)

lemma tagged_line: "tagged label ((js (label @ '': '') @ v) # rest) = Inr (v, rest)"
  by (simp add: tagged_def next_line_def)

lemmas tagged_lines = tagged_line [of "''URI''", simplified] tagged_line [of "''Version''", simplified]
  tagged_line [of "''Network''", simplified] tagged_line [of "''Nonce''", simplified]
  tagged_line [of "''Issued At''", simplified] tagged_line [of "''Expiration Time''", simplified]

lemma tagged_opt_line:
  assumes "case rest of [] \<Rightarrow> True | l # _ \<Rightarrow> \<not> unit_prefix (js (label @ '': '')) l"
  shows "tagged_opt label (optional_line (label @ '': '') v @ rest) = Inr (v, rest)"
proof (cases v)
  case None
  then show ?thesis using assms by (cases rest) (simp_all add: tagged_opt_def optional_line_def)
next
  case (Some x)
  then show ?thesis by (simp add: tagged_opt_def optional_line_def tagged_line)
qed

lemma parse_resources_lines: "rs \<noteq> Some [] \<Longrightarrow> parse_resources (resource_lines rs) = Inr (rs, [])"
  by (auto simp: parse_resources_def resource_lines_def takeWhile_eq_all_conv [THEN iffD2] comp_def
      split: option.splits list.splits)

lemma parse_siwb_lines:
  assumes "siResources f \<noteq> Some []"
  shows "parse_lines (siwb_lines f) = Inr f"
proof -
  have "\<not> unit_prefix (js ''Request ID: '') (js ''Resources:'')" "\<not> unit_prefix (js ''Not Before: '') (js ''Resources:'')"
      "\<not> unit_prefix (js ''Not Before: '') (js ''Request ID: '' @ x)" for x
    by (simp_all add: unit_prefix_def js_def)
  then have nb: "tagged_opt ''Not Before'' (optional_line ''Not Before: '' (siNotBefore f) @
      optional_line ''Request ID: '' (siRequestId f) @ resource_lines (siResources f))
      = Inr (siNotBefore f, optional_line ''Request ID: '' (siRequestId f) @ resource_lines (siResources f))"
    and rid: "tagged_opt ''Request ID'' (optional_line ''Request ID: '' (siRequestId f) @ resource_lines (siResources f))
      = Inr (siRequestId f, resource_lines (siResources f))"
    using tagged_opt_line [where rest = "optional_line ''Request ID: '' (siRequestId f) @ resource_lines (siResources f)"
        and label = "''Not Before''" and v = "siNotBefore f"]
      tagged_opt_line [where rest = "resource_lines (siResources f)" and label = "''Request ID''" and v = "siRequestId f"]
    by (auto simp: optional_line_def resource_lines_def split: option.splits list.splits)
  show ?thesis
    by (simp add: parse_lines_def siwb_lines_def next_line_def blank_line_def tagged_lines nb rid parse_resources_lines [OF assms])
qed

lemma siwb_lines_one_line: "one_line f \<Longrightarrow> list_all (\<lambda>l. 10 \<notin> set l) (siwb_lines f)"
  by (cases "siNotBefore f"; cases "siRequestId f"; cases "siResources f")
    (auto simp: one_line_def siwb_lines_def optional_line_def resource_lines_def HEADER_SUFFIX_def js_def list_all_iff
      split: list.splits)

text \<open>
  C33: the parser is the inverse of the formatter. A message is accepted, with certain fields, exactly when it is the text
  of these fields, it has at most 4096 units, the list of resources is not present and empty, and the fields pass every
  check. So a signed text stands for one set of fields, and a challenge longer than the limit, which nothing keeps
  \<open>createChallenge\<close> from making, can never be answered.
\<close>

theorem siwb_parse_iff:
  assumes "lines_documented W"
  shows "parseSiwbMessage W msg = Inr f \<longleftrightarrow>
    msg = formatSiwbMessage f \<and> length msg \<le> 4096 \<and> siResources f \<noteq> Some [] \<and> validateFields W f = Inr ()"
proof
  assume "parseSiwbMessage W msg = Inr f"
  then have p: "length msg \<le> 4096" "parse_lines (split_on 10 msg) = Inr f" "validateFields W f = Inr ()" "formatSiwbMessage f = msg"
    by (auto simp: parseSiwbMessage_def bad_message_def ebind_eq_Inr split: if_splits)
  have "siResources f \<noteq> Some []"
    using p(2) by (auto simp: parse_lines_def ebind_eq_Inr Let_def parse_resources_def bad_message_def split: if_splits list.splits)
  with p show "msg = formatSiwbMessage f \<and> length msg \<le> 4096 \<and> siResources f \<noteq> Some [] \<and> validateFields W f = Inr ()" by simp
next
  assume a: "msg = formatSiwbMessage f \<and> length msg \<le> 4096 \<and> siResources f \<noteq> Some [] \<and> validateFields W f = Inr ()"
  then have "list_all (\<lambda>l. 10 \<notin> set l) (siwb_lines f)" using assms validated_one_line siwb_lines_one_line by blast
  then have "split_on 10 (join_on 10 (siwb_lines f)) = siwb_lines f" by (intro split_join_on) (simp add: siwb_lines_def)
  then have "split_on 10 msg = siwb_lines f" using a by (simp only: formatSiwbMessage_def)
  moreover have "parse_lines (siwb_lines f) = Inr f" using a parse_siwb_lines by blast
  ultimately show "parseSiwbMessage W msg = Inr f" using a unfolding parseSiwbMessage_def by auto
qed

end
