(* ===== verification/IdSignIn.thy ===== *)
theory IdSignIn imports IdSiwb begin

text \<open>
  Challenges and sign-ins (\<open>siwb.ts\<close>), the nonce store behind them (\<open>nonce.ts\<close>) and the wallets linked to an identity
  (\<open>types.ts\<close>). The store is a port of the code: the sign-in takes its operations as arguments, the locale
  \<open>nonce_port\<close> states what the port promises, and the in-memory store is shown to keep it. The random bytes of a nonce
  and the clock are arguments or part of the state.
\<close>

subsection \<open>Nonces\<close>

datatype NonceConsumeResult = NonceOk | NonceUnknown | NonceExpired | NonceReplayed

text \<open>\<open>expiresAt\<close> is a number of milliseconds, \<open>None\<close> for \<open>NaN\<close>.\<close>

record NonceRecord =
  nrNonce :: js_string
  nrExpiresAt :: "int option"
  nrDomain :: js_string
  nrAddress :: js_string

record NonceEntry = NonceRecord +
  neUsed :: bool

text \<open>The entries of the \<open>Map\<close> in insertion order, the options, and what \<open>Date.now()\<close> answers.\<close>

record MemoryNonces =
  mnEntries :: "(js_string \<times> NonceEntry) list"
  mnMaxEntries :: "nat option"
  mnRetainMs :: "int option"
  mnNow :: int

primrec delete_each :: "('v \<Rightarrow> bool) \<Rightarrow> ('k \<times> 'v) list \<Rightarrow> ('k \<times> 'v) list \<Rightarrow> ('k \<times> 'v) list" where
  "delete_each P [] m = m"
| "delete_each P (x # xs) m = delete_each P xs (if P (snd x) then AList.delete (fst x) m else m)"

definition sweep :: "int \<Rightarrow> MemoryNonces \<Rightarrow> MemoryNonces" where
  "sweep now s =
     (let retain = (case mnRetainMs s of None \<Rightarrow> 60000 | Some r \<Rightarrow> r) in
      s\<lparr>mnEntries := delete_each (\<lambda>e. date_le (map_option (\<lambda>t. t + retain) (nrExpiresAt e)) (Some now)) (mnEntries s) (mnEntries s)\<rparr>)"

definition issue_nonce :: "NonceRecord \<Rightarrow> MemoryNonces \<Rightarrow> string option \<times> MemoryNonces" where
  "issue_nonce r s =
     (let s1 = sweep (mnNow s) s;
          max_entries = (case mnMaxEntries s of None \<Rightarrow> 100000 | Some m \<Rightarrow> m) in
      if map_of (mnEntries s1) (nrNonce r) \<noteq> None then (Some ''nonce already issued'', s1)
      else if length (mnEntries s1) \<ge> max_entries then (Some ''nonce store full'', s1)
      else (None, s1\<lparr>mnEntries := mnEntries s1 @ [(nrNonce r, \<lparr>nrNonce = nrNonce r, nrExpiresAt = nrExpiresAt r,
                 nrDomain = nrDomain r, nrAddress = nrAddress r, neUsed = False\<rparr>)]\<rparr>))"

definition consume_nonce ::
  "js_string \<Rightarrow> js_string \<Rightarrow> js_string \<Rightarrow> int \<Rightarrow> MemoryNonces \<Rightarrow> NonceConsumeResult \<times> MemoryNonces" where
  "consume_nonce nonce domain address now s =
     (case map_of (mnEntries s) nonce of
        None \<Rightarrow> (NonceUnknown, s)
      | Some e \<Rightarrow>
          if neUsed e then (NonceReplayed, s)
          else if nrDomain e \<noteq> domain \<or> nrAddress e \<noteq> address then (NonceUnknown, s)
          else if date_le (nrExpiresAt e) (Some now) then (NonceExpired, s)
          else (NonceOk, s\<lparr>mnEntries := AList.update nonce (e\<lparr>neUsed := True\<rparr>) (mnEntries s)\<rparr>))"

subsection \<open>Challenges\<close>

text \<open>\<open>ttlSeconds\<close> is \<open>None\<close> for a number that is no integer.\<close>

record CreateChallengeParams =
  ccDomain :: js_string
  ccAddress :: js_string
  ccNetwork :: js_string
  ccNonce :: "js_string option"
  ccTtlSeconds :: "int option"
  ccStatement :: "js_string option"
  ccUri :: "js_string option"
  ccRequestId :: "js_string option"
  ccResources :: "js_string list option"
  ccNotBefore :: "int option"
  ccNow :: int

record SiwbChallenge =
  scMessage :: js_string
  scFields :: SiwbFields

definition generateNonce :: "bytes \<Rightarrow> js_string" where
  "generateNonce random = js (hex_string random)"

definition iso_or_throw :: "('p, 'z) web_lib_scheme \<Rightarrow> int \<Rightarrow> siwb_error + js_string" where
  "iso_or_throw W ms = (case toISOString W ms of None \<Rightarrow> Inl RangeError | Some s \<Rightarrow> Inr s)"

definition default_statement :: js_string where
  "default_statement = js ''Sign in with your Bitcoin wallet. This request will not trigger a transaction or cost any fees.''"

definition createChallenge :: "('p, 'z) web_lib_scheme \<Rightarrow> bytes \<Rightarrow> CreateChallengeParams \<Rightarrow> siwb_error + SiwbChallenge" where
  "createChallenge W random p =
     (case ccTtlSeconds p of
        None \<Rightarrow> Inl (SiwbError ''invalid_ttl'' ''ttlSeconds must be an integer in [1, 3600]'')
      | Some ttl \<Rightarrow>
          if ttl < 1 \<or> ttl > MAX_TTL_SECONDS then Inl (SiwbError ''invalid_ttl'' ''ttlSeconds must be an integer in [1, 3600]'')
          else
            ebind (iso_or_throw W (ccNow p)) (\<lambda>issuedAt.
            ebind (iso_or_throw W (ccNow p + ttl * 1000)) (\<lambda>expirationTime.
            ebind (case ccNotBefore p of None \<Rightarrow> Inr None | Some t \<Rightarrow> emap Some (iso_or_throw W t)) (\<lambda>notBefore.
            let fields =
              \<lparr>siDomain = ccDomain p, siAddress = ccAddress p,
                 siStatement = (case ccStatement p of None \<Rightarrow> default_statement | Some s \<Rightarrow> s),
                 siUri = (case ccUri p of None \<Rightarrow> js ''https://'' @ ccDomain p | Some u \<Rightarrow> u),
                 siVersion = SIWB_VERSION, siNetwork = ccNetwork p,
                 siNonce = (case ccNonce p of None \<Rightarrow> generateNonce random | Some n \<Rightarrow> n),
                 siIssuedAt = issuedAt, siExpirationTime = expirationTime, siNotBefore = notBefore,
                 siRequestId = ccRequestId p,
                 siResources = (case ccResources p of None \<Rightarrow> None | Some [] \<Rightarrow> None | Some rs \<Rightarrow> Some rs)\<rparr>
            in ebind (validateFields W fields) (\<lambda>_. Inr \<lparr>scMessage = formatSiwbMessage fields, scFields = fields\<rparr>)))))"

text \<open>An error of the store passes through as what it is.\<close>

datatype issue_error = ChallengeError siwb_error | StoreError string

definition nonce_record :: "('p, 'z) web_lib_scheme \<Rightarrow> SiwbFields \<Rightarrow> NonceRecord" where
  "nonce_record W f =
     \<lparr>nrNonce = siNonce f, nrExpiresAt = dateParse W (siExpirationTime f), nrDomain = siDomain f, nrAddress = siAddress f\<rparr>"

definition issueChallenge ::
  "('p, 'z) web_lib_scheme \<Rightarrow> (NonceRecord \<Rightarrow> 's \<Rightarrow> string option \<times> 's) \<Rightarrow> bytes \<Rightarrow> CreateChallengeParams \<Rightarrow> 's \<Rightarrow>
     (issue_error + SiwbChallenge) \<times> 's" where
  "issueChallenge W issue random p s =
     (case createChallenge W random p of
        Inl e \<Rightarrow> (Inl (ChallengeError e), s)
      | Inr ch \<Rightarrow>
          (case issue (nonce_record W (scFields ch)) s of
             (Some e, s') \<Rightarrow> (Inl (StoreError e), s')
           | (None, s') \<Rightarrow> (Inr ch, s')))"

subsection \<open>Signing in\<close>

record VerifySignInInput =
  viMessage :: js_string
  viSignature :: js_string
  viAddress :: js_string

record VerifySignInOptions =
  voDomains :: "js_string list"
  voNetwork :: "js_string option"
  voNow :: int
  voClockSkewSeconds :: "int option"
  voAllowLegacy :: "bool option"

datatype SignInMethod = Bip322Simple | LegacyMessage

record SignedIn =
  sgAddress :: js_string
  sgNetwork :: js_string
  sgMethod :: SignInMethod
  sgFields :: SiwbFields

datatype SignInResult = SignInOk SignedIn | SignInFail string

definition date_lt :: "int option \<Rightarrow> int option \<Rightarrow> bool" where
  "date_lt a b = (case (a, b) of (Some x, Some y) \<Rightarrow> x < y | _ \<Rightarrow> False)"

text \<open>The checks before the nonce is consumed: what the message says, then who signed it.\<close>

definition sign_in_fields ::
  "('p, 'z) web_lib_scheme \<Rightarrow> VerifySignInInput \<Rightarrow> VerifySignInOptions \<Rightarrow> string + SiwbFields \<times> DecodedAddress" where
  "sign_in_fields W input opts =
     (case parseSiwbMessage W (viMessage input) of
        Inl _ \<Rightarrow> Inl ''malformed_message''
      | Inr f \<Rightarrow>
          let now = voNow opts; skew = (case voClockSkewSeconds opts of None \<Rightarrow> 60 | Some k \<Rightarrow> k) * 1000 in
          ebind (eguard (siDomain f \<in> set (voDomains opts)) ''domain_mismatch'') (\<lambda>_.
          ebind (eguard (viAddress input = siAddress f) ''address_mismatch'') (\<lambda>_.
          ebind (eguard (case voNetwork opts of None \<Rightarrow> True | Some n \<Rightarrow> n = siNetwork f) ''network_mismatch'') (\<lambda>_.
          case decodeAddress W (siAddress f) (siNetwork f) of
            Inl _ \<Rightarrow> Inl ''invalid_address''
          | Inr decoded \<Rightarrow>
              ebind (eguard (\<not> date_lt (Some (now + skew)) (dateParse W (siIssuedAt f))) ''not_yet_valid'') (\<lambda>_.
              ebind (eguard (case siNotBefore f of None \<Rightarrow> True | Some t \<Rightarrow> \<not> date_lt (Some (now + skew)) (dateParse W t)) ''not_yet_valid'') (\<lambda>_.
              ebind (eguard (\<not> date_le (dateParse W (siExpirationTime f)) (Some now)) ''expired'') (\<lambda>_.
              Inr (f, decoded))))))))"

definition sign_in_method ::
  "('p, 'z) web_lib_scheme \<Rightarrow> VerifySignInInput \<Rightarrow> VerifySignInOptions \<Rightarrow> DecodedAddress \<Rightarrow> string + SignInMethod" where
  "sign_in_method W input opts decoded =
     (case decodeBase64 W (viSignature input) of
        None \<Rightarrow> Inl ''invalid_signature''
      | Some raw \<Rightarrow>
          if isLegacySignature raw
          then if voAllowLegacy opts = Some False then Inl ''invalid_signature''
               else (case verifyLegacyDecoded W decoded (Text (viMessage input)) (viSignature input) of
                       Valid _ \<Rightarrow> Inr LegacyMessage | Invalid _ \<Rightarrow> Inl ''invalid_signature'')
          else (case verifyBip322SimpleDecoded W decoded (Text (viMessage input)) (viSignature input) of
                  Valid _ \<Rightarrow> Inr Bip322Simple | Invalid _ \<Rightarrow> Inl ''invalid_signature''))"

definition verifySignIn ::
  "('p, 'z) web_lib_scheme \<Rightarrow> (js_string \<Rightarrow> js_string \<Rightarrow> js_string \<Rightarrow> int \<Rightarrow> 's \<Rightarrow> NonceConsumeResult \<times> 's) \<Rightarrow>
     VerifySignInInput \<Rightarrow> VerifySignInOptions \<Rightarrow> 's \<Rightarrow> SignInResult \<times> 's" where
  "verifySignIn W consume input opts s =
     (case sign_in_fields W input opts of
        Inl e \<Rightarrow> (SignInFail e, s)
      | Inr (f, decoded) \<Rightarrow>
          (case sign_in_method W input opts decoded of
             Inl e \<Rightarrow> (SignInFail e, s)
           | Inr meth \<Rightarrow>
               (case consume (siNonce f) (siDomain f) (siAddress f) (voNow opts) s of
                  (NonceReplayed, s') \<Rightarrow> (SignInFail ''nonce_replayed'', s')
                | (NonceExpired, s') \<Rightarrow> (SignInFail ''expired'', s')
                | (NonceUnknown, s') \<Rightarrow> (SignInFail ''nonce_unknown'', s')
                | (NonceOk, s') \<Rightarrow>
                    (SignInOk \<lparr>sgAddress = siAddress f, sgNetwork = siNetwork f, sgMethod = meth, sgFields = f\<rparr>, s'))))"

subsection \<open>Linked wallets\<close>

record LinkedWallet =
  lwAddress :: js_string
  lwNetwork :: js_string
  lwVerifiedAt :: js_string
  lwMethod :: "SignInMethod option"

record BlockspaceIdentity =
  biId :: js_string
  biWallets :: "LinkedWallet list"
  biEmail :: "js_string option"
  biCreatedAt :: "js_string option"

definition linkWallet :: "BlockspaceIdentity \<Rightarrow> LinkedWallet \<Rightarrow> BlockspaceIdentity" where
  "linkWallet i w =
     i\<lparr>biWallets := filter (\<lambda>v. \<not> (lwAddress v = lwAddress w \<and> lwNetwork v = lwNetwork w)) (biWallets i) @ [w]\<rparr>"

definition unlinkWallet :: "BlockspaceIdentity \<Rightarrow> js_string \<Rightarrow> js_string \<Rightarrow> BlockspaceIdentity" where
  "unlinkWallet i address network =
     i\<lparr>biWallets := filter (\<lambda>v. \<not> (lwAddress v = address \<and> lwNetwork v = network)) (biWallets i)\<rparr>"

subsection \<open>Runs of a server\<close>

text \<open>
  What a server did, the newest first. Anyone may ask for a challenge or answer one, with any message, at any time; the
  environment moves the clock and sweeps.
\<close>

datatype server_event = Issued SiwbChallenge | Answered VerifySignInInput VerifySignInOptions SignInResult

inductive server_run ::
  "('p, 'z) web_lib_scheme \<Rightarrow> (NonceRecord \<Rightarrow> 's \<Rightarrow> string option \<times> 's) \<Rightarrow>
   (js_string \<Rightarrow> js_string \<Rightarrow> js_string \<Rightarrow> int \<Rightarrow> 's \<Rightarrow> NonceConsumeResult \<times> 's) \<Rightarrow> ('s \<Rightarrow> 's \<Rightarrow> bool) \<Rightarrow> 's \<Rightarrow>
   server_event list \<Rightarrow> 's \<Rightarrow> bool"
  for W issue consume env s0 where
  start: "server_run W issue consume env s0 [] s0"
| move: "server_run W issue consume env s0 es s \<Longrightarrow> env s s' \<Longrightarrow> server_run W issue consume env s0 es s'"
| issued: "server_run W issue consume env s0 es s \<Longrightarrow> issueChallenge W issue random p s = (Inr ch, s') \<Longrightarrow>
    server_run W issue consume env s0 (Issued ch # es) s'"
| refused: "server_run W issue consume env s0 es s \<Longrightarrow> issueChallenge W issue random p s = (Inl e, s') \<Longrightarrow>
    server_run W issue consume env s0 es s'"
| answered: "server_run W issue consume env s0 es s \<Longrightarrow> verifySignIn W consume input opts s = (r, s') \<Longrightarrow>
    server_run W issue consume env s0 (Answered input opts r # es) s'"

definition issue_of :: "js_string \<Rightarrow> server_event \<Rightarrow> bool" where
  "issue_of n e = (case e of Issued ch \<Rightarrow> siNonce (scFields ch) = n | _ \<Rightarrow> False)"

definition sign_in_of :: "js_string \<Rightarrow> server_event \<Rightarrow> bool" where
  "sign_in_of n e = (case e of Answered _ _ (SignInOk g) \<Rightarrow> siNonce (sgFields g) = n | _ \<Rightarrow> False)"

lemma event_simps [simp]:
  "issue_of n (Issued ch) \<longleftrightarrow> siNonce (scFields ch) = n" "\<not> issue_of n (Answered input opts r)"
  "\<not> sign_in_of n (Issued ch)" "sign_in_of n (Answered input opts (SignInOk g)) \<longleftrightarrow> siNonce (sgFields g) = n"
  "\<not> sign_in_of n (Answered input opts (SignInFail e))"
  by (simp_all add: issue_of_def sign_in_of_def)

definition how_many :: "('a \<Rightarrow> bool) \<Rightarrow> 'a list \<Rightarrow> nat" where
  "how_many P xs = length (filter P xs)"

lemma how_many_simps [simp]: "how_many P [] = 0" "how_many P (x # xs) = (if P x then Suc (how_many P xs) else how_many P xs)"
  by (simp_all add: how_many_def)

text \<open>An accepted answer passed every check.\<close>

lemma verifySignIn_Ok:
  assumes "verifySignIn W consume input opts s = (SignInOk g, s')"
  obtains decoded where "sign_in_fields W input opts = Inr (sgFields g, decoded)"
    and "sign_in_method W input opts decoded = Inr (sgMethod g)"
    and "consume (siNonce (sgFields g)) (siDomain (sgFields g)) (siAddress (sgFields g)) (voNow opts) s = (NonceOk, s')"
    and "sgAddress g = siAddress (sgFields g)" "sgNetwork g = siNetwork (sgFields g)"
  using assms by (auto simp: verifySignIn_def split: sum.splits prod.splits NonceConsumeResult.splits)

text \<open>
  The contract of a nonce store. \<open>live\<close> are the nonces that were issued and not used. Consuming answers \<open>NonceOk\<close> only for
  a live nonce with this binding that has not expired, and it is dead then; a failed issue and the environment make
  nothing live, a successful one only its own nonce.
\<close>

locale nonce_port =
  fixes issue :: "NonceRecord \<Rightarrow> 's \<Rightarrow> string option \<times> 's"
    and consume :: "js_string \<Rightarrow> js_string \<Rightarrow> js_string \<Rightarrow> int \<Rightarrow> 's \<Rightarrow> NonceConsumeResult \<times> 's"
    and env :: "'s \<Rightarrow> 's \<Rightarrow> bool"
    and live :: "'s \<Rightarrow> js_string \<rightharpoonup> NonceRecord"
  assumes consume_ok: "consume n d a t s = (NonceOk, s') \<Longrightarrow>
      \<exists>r. live s n = Some r \<and> nrDomain r = d \<and> nrAddress r = a \<and> \<not> date_le (nrExpiresAt r) (Some t) \<and> live s' = (live s)(n := None)"
    and consume_no: "consume n d a t s = (c, s') \<Longrightarrow> c \<noteq> NonceOk \<Longrightarrow> live s' \<subseteq>\<^sub>m live s"
    and issue_ok: "issue r s = (None, s') \<Longrightarrow> live s' \<subseteq>\<^sub>m (live s)(nrNonce r \<mapsto> r)"
    and issue_no: "issue r s = (Some e, s') \<Longrightarrow> live s' \<subseteq>\<^sub>m live s"
    and env_live: "env s s' \<Longrightarrow> live s' \<subseteq>\<^sub>m live s"

begin

lemma ok_live:
  assumes "verifySignIn W consume input opts s = (SignInOk g, s')"
  obtains r decoded where "sign_in_fields W input opts = Inr (sgFields g, decoded)"
    and "sign_in_method W input opts decoded = Inr (sgMethod g)" and "live s (siNonce (sgFields g)) = Some r"
    and "nrDomain r = siDomain (sgFields g)" and "nrAddress r = siAddress (sgFields g)"
    and "\<not> date_le (nrExpiresAt r) (Some (voNow opts))" and "live s' = (live s)(siNonce (sgFields g) := None)"
  using verifySignIn_Ok [OF assms] consume_ok by metis

lemma fail_live:
  assumes "verifySignIn W consume input opts s = (SignInFail e, s')"
  shows "live s' \<subseteq>\<^sub>m live s"
  using assms consume_no
  by (auto simp: verifySignIn_def map_le_refl split: sum.splits prod.splits NonceConsumeResult.splits)

lemma answer_live:
  assumes "verifySignIn W consume input opts s = (res, s')"
  shows "live s' \<subseteq>\<^sub>m live s"
proof (cases res)
  case (SignInOk g)
  then have ok: "verifySignIn W consume input opts s = (SignInOk g, s')" using assms by simp
  show ?thesis by (rule ok_live [OF ok]) (simp add: map_le_def)
qed (use assms fail_live in simp)

lemma challenge_live:
  assumes "issueChallenge W issue random p s = (Inr ch, s')"
  shows "live s' \<subseteq>\<^sub>m (live s)(siNonce (scFields ch) \<mapsto> nonce_record W (scFields ch))"
proof -
  have "issue (nonce_record W (scFields ch)) s = (None, s')"
    using assms by (auto simp: issueChallenge_def split: sum.splits prod.splits option.splits)
  then show ?thesis using issue_ok by (fastforce simp: nonce_record_def)
qed

lemma refused_live: "issueChallenge W issue random p s = (Inl e, s') \<Longrightarrow> live s' \<subseteq>\<^sub>m live s"
  using issue_no by (auto simp: issueChallenge_def map_le_refl split: sum.splits prod.splits option.splits)

lemma map_le_Some: "m \<subseteq>\<^sub>m m' \<Longrightarrow> m n = Some r \<Longrightarrow> m' n = Some r"
  by (metis domI map_le_def)

lemma live_issued:
  assumes "server_run W issue consume env s0 es s" and "live s0 = Map.empty" and "live s n = Some r"
  shows "\<exists>ch. Issued ch \<in> set es \<and> r = nonce_record W (scFields ch) \<and> nrNonce r = n"
  using assms
proof (induction arbitrary: n r rule: server_run.induct)
  case (issued es s random p ch s')
  have "((live s)(siNonce (scFields ch) \<mapsto> nonce_record W (scFields ch))) n = Some r"
    using map_le_Some [OF challenge_live [OF issued.hyps(2)]] issued.prems(2) by blast
  then show ?case using issued by (auto simp: nonce_record_def split: if_splits)
next
  case (refused es s random p e s')
  then show ?case using map_le_Some [OF refused_live] by blast
next
  case (answered es s input opts res s')
  then have "live s n = Some r" using map_le_Some [OF answer_live] by blast
  then show ?case using answered by auto
next
  case (move es s s')
  then show ?case using map_le_Some [OF env_live] by blast
qed simp

lemma live_less: "live s' \<subseteq>\<^sub>m live s \<Longrightarrow> (if live s' n = None then 0 else 1 :: nat) \<le> (if live s n = None then 0 else 1)"
  by (auto dest: map_le_Some)

lemma sign_ins_bounded:
  assumes "server_run W issue consume env s0 es s" and "live s0 = Map.empty"
  shows "how_many (sign_in_of n) es + (if live s n = None then 0 else 1) \<le> how_many (issue_of n) es"
  using assms
proof (induction rule: server_run.induct)
  case (issued es s random p ch s')
  have "live s' n = None \<or> siNonce (scFields ch) = n \<or> live s n \<noteq> None"
  proof (cases "live s' n")
    case (Some r)
    then show ?thesis using map_le_Some [OF challenge_live [OF issued.hyps(2)] Some] by (auto split: if_splits)
  qed simp
  then show ?case using issued by (auto split: if_splits)
next
  case (refused es s random p e s')
  then show ?case using live_less [OF refused_live] by (meson add_left_mono le_trans)
next
  case (answered es s input opts res s')
  show ?case
  proof (cases res)
    case (SignInOk g)
    then have ok: "verifySignIn W consume input opts s = (SignInOk g, s')" using answered by simp
    show ?thesis by (rule ok_live [OF ok]) (use answered SignInOk in \<open>auto split: if_splits\<close>)
  next
    case (SignInFail e)
    have "how_many (sign_in_of n) es + (if live s' n = None then 0 else 1) \<le> how_many (issue_of n) es"
      using answered live_less [OF answer_live [OF answered.hyps(2)]] by (meson add_left_mono le_trans)
    then show ?thesis using SignInFail by simp
  qed
next
  case (move es s s')
  then show ?case using live_less [OF env_live] by (meson add_left_mono le_trans)
qed simp

lemma sign_in_issued:
  assumes "server_run W issue consume env s0 es s" and "live s0 = Map.empty"
    and "Answered input opts (SignInOk g) \<in> set es"
  shows "\<exists>ch decoded. Issued ch \<in> set es \<and> siNonce (scFields ch) = siNonce (sgFields g) \<and>
    siDomain (scFields ch) = siDomain (sgFields g) \<and> siAddress (scFields ch) = siAddress (sgFields g) \<and>
    \<not> date_le (dateParse W (siExpirationTime (scFields ch))) (Some (voNow opts)) \<and>
    sign_in_fields W input opts = Inr (sgFields g, decoded) \<and> sign_in_method W input opts decoded = Inr (sgMethod g)"
  using assms
proof (induction rule: server_run.induct)
  case (answered es s input' opts' res s')
  show ?case
  proof (cases "Answered input opts (SignInOk g) \<in> set es")
    case True
    then show ?thesis using answered.IH answered.prems(1) by (meson list.set_intros(2))
  next
    case False
    then have eq: "verifySignIn W consume input opts s = (SignInOk g, s')" using answered by auto
    obtain r decoded where d: "sign_in_fields W input opts = Inr (sgFields g, decoded)"
        "sign_in_method W input opts decoded = Inr (sgMethod g)" "live s (siNonce (sgFields g)) = Some r"
        "nrDomain r = siDomain (sgFields g)" "nrAddress r = siAddress (sgFields g)"
        "\<not> date_le (nrExpiresAt r) (Some (voNow opts))"
      by (rule ok_live [OF eq])
    obtain ch where "Issued ch \<in> set es" "r = nonce_record W (scFields ch)" "nrNonce r = siNonce (sgFields g)"
      using live_issued [OF answered.hyps(1) answered.prems(1) d(3)] by blast
    then show ?thesis using d by (intro exI [of _ ch] exI [of _ decoded]) (simp add: nonce_record_def)
  qed
next
  case (issued es s random p ch s')
  then have "Answered input opts (SignInOk g) \<in> set es" by simp
  then show ?case using issued.IH issued.prems(1) by (meson list.set_intros(2))
qed auto

end

subsection \<open>The in-memory store keeps the contract\<close>

definition memory_live :: "MemoryNonces \<Rightarrow> js_string \<rightharpoonup> NonceRecord" where
  "memory_live s n = (case map_of (mnEntries s) n of None \<Rightarrow> None | Some e \<Rightarrow> if neUsed e then None else Some (NonceRecord.truncate e))"

text \<open>Time passes, in either direction, and the owner of the store may sweep it.\<close>

definition memory_env :: "MemoryNonces \<Rightarrow> MemoryNonces \<Rightarrow> bool" where
  "memory_env s s' \<longleftrightarrow> (\<exists>now. s' = s\<lparr>mnNow := now\<rparr> \<or> s' = sweep now s)"

lemma delete_each_le: "map_of (delete_each P xs m) \<subseteq>\<^sub>m map_of m"
proof (induction xs arbitrary: m)
  case (Cons x xs)
  have "map_of (AList.delete (fst x) m) \<subseteq>\<^sub>m map_of m" by (simp add: delete_conv' map_le_def)
  then show ?case using Cons [of m] Cons [of "AList.delete (fst x) m"] by (auto intro: map_le_trans)
qed simp

lemma memory_live_mono: "map_of (mnEntries s') \<subseteq>\<^sub>m map_of (mnEntries s) \<Longrightarrow> memory_live s' \<subseteq>\<^sub>m memory_live s"
  by (auto simp: map_le_def memory_live_def dom_def split: option.splits)

lemma sweep_live: "memory_live (sweep t s) \<subseteq>\<^sub>m memory_live s"
  by (rule memory_live_mono) (simp add: sweep_def Let_def delete_each_le)

lemma issue_memory:
  assumes "issue_nonce r s = (None, s')"
  shows "memory_live s' = (memory_live (sweep (mnNow s) s))(nrNonce r \<mapsto> NonceRecord.truncate r)"
proof -
  let ?s = "sweep (mnNow s) s"
  have "map_of (mnEntries ?s) (nrNonce r) = None" and "s' = ?s\<lparr>mnEntries := mnEntries ?s @ [(nrNonce r,
      \<lparr>nrNonce = nrNonce r, nrExpiresAt = nrExpiresAt r, nrDomain = nrDomain r, nrAddress = nrAddress r, neUsed = False\<rparr>)]\<rparr>"
    using assms by (auto simp: issue_nonce_def Let_def split: if_splits)
  then show ?thesis
    by (auto simp: memory_live_def map_add_def NonceRecord.truncate_def fun_eq_iff split: option.splits)
qed

interpretation mn: nonce_port issue_nonce consume_nonce memory_env memory_live
proof (unfold_locales, goal_cases)
  case (1 n d a t s s')
  then obtain e where e: "map_of (mnEntries s) n = Some e" "\<not> neUsed e" "nrDomain e = d" "nrAddress e = a"
      "\<not> date_le (nrExpiresAt e) (Some t)" "s' = s\<lparr>mnEntries := AList.update n (e\<lparr>neUsed := True\<rparr>) (mnEntries s)\<rparr>"
    by (auto simp: consume_nonce_def split: option.splits if_splits)
  then have "memory_live s' = (memory_live s)(n := None)" by (simp add: memory_live_def fun_eq_iff update_conv')
  with e show ?case by (simp add: memory_live_def NonceRecord.truncate_def)
next
  case (2 n d a t s c s')
  then show ?case by (auto simp: consume_nonce_def map_le_refl split: option.splits if_splits)
next
  case (3 r s s')
  have "NonceRecord.truncate r = r" by (simp add: NonceRecord.truncate_def)
  then show ?case using issue_memory [OF 3] sweep_live [of "mnNow s" s] by (simp add: map_le_upd)
next
  case (4 r s e s')
  then show ?case using sweep_live by (auto simp: issue_nonce_def Let_def split: if_splits)
next
  case (5 s s')
  then show ?case using sweep_live by (auto simp: memory_env_def memory_live_def fun_eq_iff map_le_def)
qed

lemma sign_in_fields_ok:
  assumes "sign_in_fields W input opts = Inr (f, decoded)"
  shows "parseSiwbMessage W (viMessage input) = Inr f" "siDomain f \<in> set (voDomains opts)" "viAddress input = siAddress f"
    "\<not> date_le (dateParse W (siExpirationTime f)) (Some (voNow opts))" "decodeAddress W (siAddress f) (siNetwork f) = Inr decoded"
  using assms by (auto simp: sign_in_fields_def ebind_eq_Inr Let_def split: sum.splits)

lemma sign_in_method_ok:
  assumes "sign_in_method W input opts decoded = Inr meth"
  shows "case meth of
      LegacyMessage \<Rightarrow> voAllowLegacy opts \<noteq> Some False \<and>
        (\<exists>k. verifyLegacyDecoded W decoded (Text (viMessage input)) (viSignature input) = Valid k)
    | Bip322Simple \<Rightarrow> \<exists>k. verifyBip322SimpleDecoded W decoded (Text (viMessage input)) (viSignature input) = Valid k"
  using assms by (auto simp: sign_in_method_def split: option.splits if_splits checked.splits)

text \<open>
  C32: a nonce signs in once, and only where it was issued. On a server with the in-memory store, whoever asks and answers,
  in whatever order and with whatever clocks, a nonce has at most as many accepted answers as it was issued times; and
  every accepted answer has a challenge with its nonce, domain and address that had not expired then, says what the
  server asked of it, and is signed, over its very text, with the key of its address.
\<close>

theorem sign_in_once:
  assumes "server_run W issue_nonce consume_nonce memory_env s0 es s" and "mnEntries s0 = []"
  shows "how_many (sign_in_of n) es \<le> how_many (issue_of n) es \<and>
    (Answered input opts (SignInOk g) \<in> set es \<longrightarrow>
      (\<exists>ch decoded. Issued ch \<in> set es \<and> siNonce (scFields ch) = siNonce (sgFields g) \<and>
        siDomain (scFields ch) = siDomain (sgFields g) \<and> siAddress (scFields ch) = siAddress (sgFields g) \<and>
        \<not> date_le (dateParse W (siExpirationTime (scFields ch))) (Some (voNow opts)) \<and>
        parseSiwbMessage W (viMessage input) = Inr (sgFields g) \<and> siDomain (sgFields g) \<in> set (voDomains opts) \<and>
        viAddress input = siAddress (sgFields g) \<and> \<not> date_le (dateParse W (siExpirationTime (sgFields g))) (Some (voNow opts)) \<and>
        decodeAddress W (siAddress (sgFields g)) (siNetwork (sgFields g)) = Inr decoded \<and>
        (case sgMethod g of
           LegacyMessage \<Rightarrow> voAllowLegacy opts \<noteq> Some False \<and>
             (\<exists>k. verifyLegacyDecoded W decoded (Text (viMessage input)) (viSignature input) = Valid k)
         | Bip322Simple \<Rightarrow> \<exists>k. verifyBip322SimpleDecoded W decoded (Text (viMessage input)) (viSignature input) = Valid k)))"
    (is "_ \<and> (_ \<longrightarrow> ?accepted)")
proof -
  have e: "memory_live s0 = Map.empty" using assms(2) by (simp add: memory_live_def fun_eq_iff)
  show ?thesis
  proof (intro conjI impI)
    show "how_many (sign_in_of n) es \<le> how_many (issue_of n) es" using mn.sign_ins_bounded [OF assms(1) e, of n] by linarith
  next
    assume "Answered input opts (SignInOk g) \<in> set es"
    from mn.sign_in_issued [OF assms(1) e this] obtain ch decoded where c: "Issued ch \<in> set es"
        "siNonce (scFields ch) = siNonce (sgFields g)" "siDomain (scFields ch) = siDomain (sgFields g)"
        "siAddress (scFields ch) = siAddress (sgFields g)"
        "\<not> date_le (dateParse W (siExpirationTime (scFields ch))) (Some (voNow opts))"
        "sign_in_fields W input opts = Inr (sgFields g, decoded)" "sign_in_method W input opts decoded = Inr (sgMethod g)"
      by blast
    then show "?accepted" using sign_in_fields_ok [OF c(6)] sign_in_method_ok [OF c(7)]
      by (intro exI [of _ ch] exI [of _ decoded]) simp
  qed
qed

text \<open>A concrete server: dates are single units, a URL is read as its scheme and the rest.\<close>

definition web_example :: "bytes web_lib" where
  "web_example = id_lib.extend byte_lib (web_lib.fields
     (\<lambda>s. Some \<lparr>urlProtocol = take 6 s, urlHost = drop 8 s, urlHostname = drop 8 s\<rparr>)
     (\<lambda>s. case s of [u] \<Rightarrow> Some (uint u) | _ \<Rightarrow> None)
     (\<lambda>ms. if 256 \<le> ms \<and> ms < 65536 then Some [word_of_int ms] else None))"

lemma web_example_simps:
  "newUrl web_example s = Some \<lparr>urlProtocol = take 6 s, urlHost = drop 8 s, urlHostname = drop 8 s\<rparr>"
  "dateParse web_example s = (case s of [u] \<Rightarrow> Some (uint u) | _ \<Rightarrow> None)"
  "toISOString web_example ms = (if 256 \<le> ms \<and> ms < 65536 then Some [word_of_int ms] else None)"
  "schnorrSign web_example = schnorrSign byte_lib" "schnorrPublic web_example = Inr"
  "tweakPublic web_example k t = Inr k" "tweakPrivate web_example k t = Inr k" "addressDecode web_example = addressDecode byte_lib"
  "outScriptEncode web_example ty = Inr []" "sha256 web_example = sha256 byte_lib"
  by (simp_all add: web_example_def id_lib.defs web_lib.defs byte_lib_def)

lemma documented_truncate:
  "base64_documented (id_lib.truncate L) = base64_documented L" "schnorr_documented (id_lib.truncate L) = schnorr_documented L"
  "ecdsa_documented (id_lib.truncate L) = ecdsa_documented L" "sha256_documented (id_lib.truncate L) = sha256_documented L"
  by (simp_all add: base64_documented_def schnorr_documented_def ecdsa_documented_def sha256_documented_def id_lib.defs)

lemma web_example_truncate: "id_lib.truncate web_example = byte_lib"
  by (simp add: web_example_def id_lib.defs)

lemma web_example_documented:
  "base64_documented web_example" "schnorr_documented web_example" "ecdsa_documented web_example"
  "sha256_documented web_example" "lines_documented web_example"
proof -
  show "base64_documented web_example" "schnorr_documented web_example" "ecdsa_documented web_example" "sha256_documented web_example"
    using byte_lib_base64 byte_lib_curve byte_lib_documented documented_truncate [of web_example]
    unfolding web_example_truncate by simp_all
  have "addressDecode byte_lib n a = Inr t \<Longrightarrow> 10 \<notin> set a" for n a t by (auto simp: byte_lib_def Let_def split: if_splits)
  moreover have "word_of_int ms \<noteq> (10 :: 16 word)" if "256 \<le> ms" "ms < 65536" for ms
    using that by (auto simp: word_uint_eq_iff uint_word_of_int)
  ultimately show "lines_documented web_example" by (auto simp: lines_documented_def web_example_simps split: if_splits)
qed

definition challenge_example :: CreateChallengeParams where
  "challenge_example =
     \<lparr>ccDomain = js ''id.example'', ccAddress = js (replicate 32 CHR ''a''), ccNetwork = js ''mainnet'', ccNonce = None,
        ccTtlSeconds = Some 1, ccStatement = None, ccUri = None, ccRequestId = None, ccResources = None, ccNotBefore = None, ccNow = 1000\<rparr>"

definition fields_example :: SiwbFields where
  "fields_example =
     \<lparr>siDomain = js ''id.example'', siAddress = js (replicate 32 CHR ''a''), siStatement = default_statement,
        siUri = js ''https://id.example'', siVersion = SIWB_VERSION, siNetwork = js ''mainnet'', siNonce = js (replicate 32 CHR ''0''),
        siIssuedAt = [1000], siExpirationTime = [2000], siNotBefore = None, siRequestId = None, siResources = None\<rparr>"

lemma address_example:
  obtains decoded where "decodeAddress web_example (js (replicate 32 CHR ''a'')) (js ''mainnet'') = Inr decoded"
    and "daKind decoded = P2tr" and "daProgram decoded = replicate 32 97"
proof -
  have "js_trim (js (replicate 32 CHR ''a'')) = js (replicate 32 CHR ''a'')"
    by (rule js_trim_id) (simp add: js_def js_space_def list_all_iff)
  then show thesis using that
    by (simp add: decodeAddress_def id_networkParams_def web_example_simps byte_lib_def kind_of_out_def js_def)
qed

lemma siwb_guard_True [simp]: "b \<Longrightarrow> siwb_guard b c w = Inr ()"
  by (simp add: siwb_guard_def)

lemma uri_example: "check_uri web_example fields_example = Inr ()"
proof -
  have "take 6 (js ''https://id.example'') = js ''https:''" "drop 8 (js ''https://id.example'') = js ''id.example''"
    "\<not> list_ex js_space (js ''https://id.example'')"
    by (simp_all add: js_def js_space_def)
  then show ?thesis by (simp only: check_uri_def web_example_simps option.case fields_example_def SiwbFields.simps WebUrl.simps
      siwb_guard_True refl ebind_Inr simp_thms)
qed

lemma times_example: "check_times web_example fields_example = Inr ()"
  by (simp add: check_times_def fields_example_def web_example_simps isCanonicalIso_def date_le_def)

lemma fields_example_valid: "validateFields web_example fields_example = Inr ()"
proof -
  have "DOMAIN_RE (js ''id.example'')" by (simp add: DOMAIN_RE_def js_def domain_label_def domain_end_def unit_in_def)
  moreover have "STATEMENT_RE default_statement"
    by (simp add: STATEMENT_RE_def default_statement_def js_def hi_surrogate_def lo_surrogate_def)
  moreover have "NONCE_RE (js (replicate 32 CHR ''0''))" by (simp add: NONCE_RE_def js_def unit_in_def list_all_iff)
  moreover have "isBitcoinNetwork (js ''mainnet'')" by (simp add: isBitcoinNetwork_def BITCOIN_NETWORKS_def)
  moreover obtain decoded where "decodeAddress web_example (js (replicate 32 CHR ''a'')) (js ''mainnet'') = Inr decoded"
    by (rule address_example)
  ultimately show ?thesis
    by (simp add: validateFields_def uri_example times_example) (simp add: fields_example_def)
qed

lemma fields_example_text: "length (formatSiwbMessage fields_example) \<le> 4096"
  by (simp add: formatSiwbMessage_def siwb_lines_def fields_example_def optional_line_def resource_lines_def HEADER_SUFFIX_def
      default_statement_def SIWB_VERSION_def)

lemma challenge_example_made:
  "createChallenge web_example (replicate 16 0) challenge_example
   = Inr \<lparr>scMessage = formatSiwbMessage fields_example, scFields = fields_example\<rparr>"
proof -
  have "js ''https://'' @ js ''id.example'' = js ''https://id.example''" by (simp add: js_def)
  moreover have "concat (replicate n [a, a]) = replicate (2 * n) a" for n and a :: char by (induction n) simp_all
  then have "generateNonce (replicate 16 0) = js (replicate 32 CHR ''0'')"
    by (simp add: generateNonce_def hex_string_def hex_byte_def hex_digit_def js_def)
  ultimately show ?thesis using fields_example_valid
    by (simp add: createChallenge_def challenge_example_def iso_or_throw_def web_example_simps MAX_TTL_SECONDS_def Let_def
        fields_example_def [symmetric])
qed

lemma run_example:
  obtains s input opts g where
    "server_run web_example issue_nonce consume_nonce memory_env \<lparr>mnEntries = [], mnMaxEntries = None, mnRetainMs = None, mnNow = 1000\<rparr>
       [Answered input opts (SignInOk g), Issued \<lparr>scMessage = formatSiwbMessage fields_example, scFields = fields_example\<rparr>] s"
    and "sgFields g = fields_example"
proof -
  let ?s0 = "\<lparr>mnEntries = [], mnMaxEntries = None, mnRetainMs = None, mnNow = 1000\<rparr>"
  let ?ch = "\<lparr>scMessage = formatSiwbMessage fields_example, scFields = fields_example\<rparr>"
  let ?k = "replicate 32 97 :: bytes" and ?m = "Text (formatSiwbMessage fields_example)"
  have f: "siNonce fields_example = js (replicate 32 CHR ''0'')" "siDomain fields_example = js ''id.example''"
      "siAddress fields_example = js (replicate 32 CHR ''a'')" "siNetwork fields_example = js ''mainnet''"
      "siIssuedAt fields_example = [1000]" "siExpirationTime fields_example = [2000]" "siNotBefore fields_example = None"
      "siResources fields_example = None"
    by (simp_all add: fields_example_def)
  define e :: NonceEntry where "e = \<lparr>nrNonce = siNonce fields_example, nrExpiresAt = Some 2000, nrDomain = siDomain fields_example,
      nrAddress = siAddress fields_example, neUsed = False\<rparr>"
  let ?s1 = "?s0\<lparr>mnEntries := [(siNonce fields_example, e)]\<rparr>"
  have "issueChallenge web_example issue_nonce (replicate 16 0) challenge_example ?s0 = (Inr ?ch, ?s1)"
    by (simp add: issueChallenge_def challenge_example_made issue_nonce_def sweep_def nonce_record_def f web_example_simps Let_def e_def)
  then have r1: "server_run web_example issue_nonce consume_nonce memory_env ?s0 [Issued ?ch] ?s1"
    by (rule server_run.issued [OF server_run.start])
  obtain d where d: "decodeAddress web_example (siAddress fields_example) (siNetwork fields_example) = Inr d"
      "daKind d = P2tr" "daProgram d = ?k"
    unfolding f by (rule address_example)
  have k: "key_address web_example ?k d" using d by (simp add: key_address_def web_example_simps)
  obtain h where h: "bip322SighashP2tr web_example ?k ?m 0 = Inr h"
    by (simp add: bip322SighashP2tr_def ID_SIGHASH_DEFAULT_def toSpendTxid_eq [OF web_example_documented(4)] toSignTx_def
        varBytes_short Let_def)
  then have "challenge_digest web_example (TrChallenge ?k 0) ?m = Inr h" by (simp add: challenge_digest_def)
  then have "length h = 32"
    using digest_eq [OF web_example_documented(4)] web_example_documented(4) by (auto simp: sha256_documented_def)
  then have sg: "schnorrSign web_example h ?k None = Inr (h @ ?k)" "length (h @ ?k) = 64"
    by (simp_all add: web_example_simps byte_lib_def)
  define sig where "sig = encodeBase64 web_example (1 # 64 # h @ ?k)"
  have "signBip322Simple web_example ?k SignP2tr ?m None None = Inr sig"
    using sg h by (simp add: signBip322Simple_def ID_SIGHASH_DEFAULT_def encodeWitness_def varBytes_short id_compactSize_def
        MAX_SAFE_INTEGER_def web_example_simps sig_def u8_def)
  then have v: "verifyBip322SimpleDecoded web_example d ?m sig = Valid ''p2tr''"
    using bip322_sign_verify [OF web_example_documented(1-3) d(1) k, of SignP2tr ?m None None sig] d
    by (simp add: verifyBip322Simple_def)
  define input where "input = \<lparr>viMessage = formatSiwbMessage fields_example, viSignature = sig, viAddress = siAddress fields_example\<rparr>"
  define opts where "opts = \<lparr>voDomains = [js ''id.example''], voNetwork = None, voNow = 1500, voClockSkewSeconds = None, voAllowLegacy = None\<rparr>"
  define g where "g = \<lparr>sgAddress = siAddress fields_example, sgNetwork = siNetwork fields_example, sgMethod = Bip322Simple,
      sgFields = fields_example\<rparr>"
  have "parseSiwbMessage web_example (formatSiwbMessage fields_example) = Inr fields_example"
    using siwb_parse_iff [OF web_example_documented(5)] fields_example_text fields_example_valid f by simp
  then have "sign_in_fields web_example input opts = Inr (fields_example, d)"
    using d by (simp add: sign_in_fields_def input_def opts_def f web_example_simps date_lt_def date_le_def)
  moreover have "sign_in_method web_example input opts d = Inr Bip322Simple"
    using v sg(2) by (simp add: sign_in_method_def input_def sig_def decode_encodeBase64 [OF web_example_documented(1)] isLegacySignature_def)
  ultimately obtain s where "verifySignIn web_example consume_nonce input opts ?s1 = (SignInOk g, s)"
    by (simp add: verifySignIn_def consume_nonce_def e_def opts_def date_le_def g_def)
  from that [OF server_run.answered [OF r1 this]] show thesis by (simp add: g_def)
qed

text \<open>One challenge, answered: the run above satisfies the hypotheses, and its answer is accepted.\<close>

theorem sign_in_once_witness:
  "\<exists>s0 es s input opts g ch. server_run web_example issue_nonce consume_nonce memory_env s0 es s \<and>
     Answered input opts (SignInOk g) \<in> set es \<and> Issued ch \<in> set es \<and> siNonce (scFields ch) = siNonce (sgFields g) \<and>
     how_many (sign_in_of (siNonce fields_example)) es = 1"
proof -
  let ?n = "siNonce fields_example"
  let ?s0 = "\<lparr>mnEntries = [], mnMaxEntries = None, mnRetainMs = None, mnNow = 1000\<rparr>"
  obtain s input opts g where r: "server_run web_example issue_nonce consume_nonce memory_env ?s0
      [Answered input opts (SignInOk g), Issued \<lparr>scMessage = formatSiwbMessage fields_example, scFields = fields_example\<rparr>] s"
      "sgFields g = fields_example"
    by (rule run_example)
  let ?ch = "\<lparr>scMessage = formatSiwbMessage fields_example, scFields = fields_example\<rparr>"
  let ?es = "[Answered input opts (SignInOk g), Issued ?ch]"
  have "how_many (sign_in_of ?n) ?es \<le> 1" using sign_in_once [OF r(1), of ?n input opts g] by simp
  moreover have "1 \<le> how_many (sign_in_of ?n) ?es" using r(2) by simp
  ultimately have "how_many (sign_in_of ?n) ?es = 1" by (rule antisym)
  then show ?thesis using r
    by (intro exI [of _ ?s0] exI [of _ ?es] exI [of _ s] exI [of _ input] exI [of _ opts] exI [of _ g] exI [of _ ?ch]) simp
qed

theorem siwb_parse_iff_witness:
  "parseSiwbMessage web_example (formatSiwbMessage fields_example) = Inr fields_example"
  using siwb_parse_iff [OF web_example_documented(5)] fields_example_text fields_example_valid by (simp add: fields_example_def)

end
