(* ===== verification/JsJson.thy ===== *)
theory JsJson imports JsSplit begin

text \<open>
  \<open>JSON.parse\<close> and \<open>JSON.stringify\<close> on JavaScript strings, as far as the code uses them: the grammar of RFC 8259 with
  every escape, the last of two equal keys kept, and the text without white space. A number stays the text it is written
  with; what it is worth is asked where it is read.
\<close>

subsection \<open>Values\<close>

datatype js_value =
    VNull
  | VBool bool
  | VNumber js_string
  | VString js_string
  | VArray "js_value list"
  | VObject "(js_string \<times> js_value) list"

subsection \<open>Writing\<close>

definition hex_unit :: "nat \<Rightarrow> 16 word" where
  "hex_unit n = word_of_nat (if n mod 16 < 10 then 48 + n mod 16 else 87 + n mod 16)"

definition unicode_escape :: "16 word \<Rightarrow> js_string" where
  "unicode_escape u = (let n = unat u in [92, 117, hex_unit (n div 4096), hex_unit (n div 256), hex_unit (n div 16), hex_unit n])"

definition escape_unit :: "16 word \<Rightarrow> js_string" where
  "escape_unit u =
     (if u = 34 then [92, 34] else if u = 92 then [92, 92] else if u = 8 then [92, 98] else if u = 9 then [92, 116]
      else if u = 10 then [92, 110] else if u = 12 then [92, 102] else if u = 13 then [92, 114]
      else if unat u < 32 then unicode_escape u else [u])"

text \<open>Surrogates that are no pair are escaped.\<close>

fun quote_units :: "js_string \<Rightarrow> js_string" where
  "quote_units [] = []"
| "quote_units [u] = (if hi_surrogate u \<or> lo_surrogate u then unicode_escape u else escape_unit u)"
| "quote_units (u # v # s) =
     (if hi_surrogate u \<and> lo_surrogate v then u # v # quote_units s
      else (if hi_surrogate u \<or> lo_surrogate u then unicode_escape u else escape_unit u) @ quote_units (v # s))"

definition quote_text :: "js_string \<Rightarrow> js_string" where
  "quote_text s = 34 # quote_units s @ [34]"

fun stringify :: "js_value \<Rightarrow> js_string" where
  "stringify VNull = js ''null''"
| "stringify (VBool b) = js (if b then ''true'' else ''false'')"
| "stringify (VNumber t) = t"
| "stringify (VString s) = quote_text s"
| "stringify (VArray vs) = 91 # join_on 44 (map stringify vs) @ [93]"
| "stringify (VObject kvs) = 123 # join_on 44 (map (\<lambda>(k, v). quote_text k @ 58 # stringify v) kvs) @ [125]"

subsection \<open>Reading\<close>

definition json_ws :: "16 word \<Rightarrow> bool" where
  "json_ws u = (u = 32 \<or> u = 9 \<or> u = 10 \<or> u = 13)"

abbreviation skip_ws :: "js_string \<Rightarrow> js_string" where
  "skip_ws \<equiv> dropWhile json_ws"

definition digit_unit :: "16 word \<Rightarrow> bool" where
  "digit_unit u = (48 \<le> unat u \<and> unat u \<le> 57)"

definition hex_value :: "16 word \<Rightarrow> nat option" where
  "hex_value u = (let n = unat u in
     if 48 \<le> n \<and> n \<le> 57 then Some (n - 48) else if 97 \<le> n \<and> n \<le> 102 then Some (n - 87)
     else if 65 \<le> n \<and> n \<le> 70 then Some (n - 55) else None)"

definition four_hex :: "16 word \<Rightarrow> 16 word \<Rightarrow> 16 word \<Rightarrow> 16 word \<Rightarrow> 16 word option" where
  "four_hex a b c d =
     (case (hex_value a, hex_value b, hex_value c, hex_value d) of
        (Some w, Some x, Some y, Some z) \<Rightarrow> Some (word_of_nat (w * 4096 + x * 256 + y * 16 + z))
      | _ \<Rightarrow> None)"

definition short_escape :: "16 word \<Rightarrow> 16 word option" where
  "short_escape e = map_of [(34, 34), (92, 92), (47, 47), (98, 8), (102, 12), (110, 10), (114, 13), (116, 9)] e"

text \<open>What a backslash stands for with the units behind it, and the rest.\<close>

definition parse_escape :: "js_string \<Rightarrow> (16 word \<times> js_string) option" where
  "parse_escape s =
     (case s of
        [] \<Rightarrow> None
      | e # t \<Rightarrow>
          if e = 117
          then (case t of
                  a # b # c # d # r \<Rightarrow> map_option (\<lambda>w. (w, r)) (four_hex a b c d)
                | _ \<Rightarrow> None)
          else map_option (\<lambda>w. (w, t)) (short_escape e))"

lemma parse_escape_length: "parse_escape s = Some (w, r) \<Longrightarrow> length r < length s"
  by (auto simp: parse_escape_def split: list.splits if_splits)

text \<open>The units of a string up to its closing quote, and what follows it.\<close>

function parse_units :: "js_string \<Rightarrow> (js_string \<times> js_string) option" where
  "parse_units [] = None"
| "parse_units (u # s) =
     (if u = 34 then Some ([], s)
      else if u = 92
      then (case parse_escape s of None \<Rightarrow> None | Some (w, r) \<Rightarrow> map_option (apfst (Cons w)) (parse_units r))
      else if unat u < 32 then None
      else map_option (apfst (Cons u)) (parse_units s))"
  by pat_completeness auto
termination by (relation "measure length") (auto dest: parse_escape_length)

text \<open>The longest number literal at the front.\<close>

definition digits_of :: "js_string \<Rightarrow> (js_string \<times> js_string) option" where
  "digits_of s = (let d = takeWhile digit_unit s in if d = [] then None else Some (d, dropWhile digit_unit s))"

definition parse_fraction :: "js_string \<Rightarrow> (js_string \<times> js_string) option" where
  "parse_fraction s =
     (case s of
        [] \<Rightarrow> Some ([], [])
      | c # t \<Rightarrow> if c = 46 then map_option (apfst (Cons 46)) (digits_of t) else Some ([], s))"

definition parse_exponent :: "js_string \<Rightarrow> (js_string \<times> js_string) option" where
  "parse_exponent s =
     (case s of
        [] \<Rightarrow> Some ([], [])
      | c # t \<Rightarrow>
          if c = 101 \<or> c = 69
          then (case t of
                  [] \<Rightarrow> None
                | g # r \<Rightarrow> if g = 43 \<or> g = 45 then map_option (apfst (\<lambda>d. c # g # d)) (digits_of r)
                           else map_option (apfst (Cons c)) (digits_of t))
          else Some ([], s))"

definition parse_number :: "js_string \<Rightarrow> (js_string \<times> js_string) option" where
  "parse_number s =
     (let (minus, s1) = (case s of [] \<Rightarrow> ([], []) | c # t \<Rightarrow> if c = 45 then ([45], t) else ([], s)) in
      case digits_of s1 of
        None \<Rightarrow> None
      | Some (whole, s2) \<Rightarrow>
          if hd whole = 48 \<and> length whole > 1 then None
          else (case parse_fraction s2 of
                  None \<Rightarrow> None
                | Some (frac, s3) \<Rightarrow>
                    (case parse_exponent s3 of
                       None \<Rightarrow> None
                     | Some (ex, s4) \<Rightarrow> Some (minus @ whole @ frac @ ex, s4))))"

definition word_prefix :: "string \<Rightarrow> js_string \<Rightarrow> js_string option" where
  "word_prefix w s = (if take (length w) s = js w then Some (drop (length w) s) else None)"

definition parse_word :: "js_string \<Rightarrow> (js_value \<times> js_string) option" where
  "parse_word s =
     (case word_prefix ''null'' s of Some r \<Rightarrow> Some (VNull, r)
      | None \<Rightarrow> (case word_prefix ''true'' s of Some r \<Rightarrow> Some (VBool True, r)
      | None \<Rightarrow> (case word_prefix ''false'' s of Some r \<Rightarrow> Some (VBool False, r)
      | None \<Rightarrow> map_option (apfst VNumber) (parse_number s))))"

text \<open>
  The recursive descent, with fuel for its nesting and its lists. \<open>parse_items\<close> reads the items of an array that is not
  empty up to the closing bracket, \<open>parse_members\<close> those of an object, keeping for each key the value written last.
\<close>

fun parse_value :: "nat \<Rightarrow> js_string \<Rightarrow> (js_value \<times> js_string) option"
  and parse_items :: "nat \<Rightarrow> js_string \<Rightarrow> (js_value list \<times> js_string) option"
  and parse_members :: "nat \<Rightarrow> (js_string \<times> js_value) list \<Rightarrow> js_string \<Rightarrow> ((js_string \<times> js_value) list \<times> js_string) option"
where
  "parse_value 0 s = None"
| "parse_value (Suc n) s =
     (case skip_ws s of
        [] \<Rightarrow> None
      | c # t \<Rightarrow>
          if c = 34 then map_option (apfst VString) (parse_units t)
          else if c = 91
          then (case skip_ws t of
                  [] \<Rightarrow> None
                | d # r \<Rightarrow> if d = 93 then Some (VArray [], r) else map_option (apfst VArray) (parse_items n t))
          else if c = 123
          then (case skip_ws t of
                  [] \<Rightarrow> None
                | d # r \<Rightarrow> if d = 125 then Some (VObject [], r) else map_option (apfst VObject) (parse_members n [] t))
          else parse_word (c # t))"
| "parse_items 0 s = None"
| "parse_items (Suc n) s =
     (case parse_value n s of
        None \<Rightarrow> None
      | Some (v, r) \<Rightarrow>
          (case skip_ws r of
             [] \<Rightarrow> None
           | d # t \<Rightarrow>
               if d = 93 then Some ([v], t)
               else if d = 44 then map_option (apfst (Cons v)) (parse_items n t)
               else None))"
| "parse_members 0 acc s = None"
| "parse_members (Suc n) acc s =
     (case skip_ws s of
        [] \<Rightarrow> None
      | c # t \<Rightarrow>
          if c \<noteq> 34 then None
          else (case parse_units t of
                  None \<Rightarrow> None
                | Some (k, r) \<Rightarrow>
                    (case skip_ws r of
                       [] \<Rightarrow> None
                     | d # r1 \<Rightarrow>
                         if d \<noteq> 58 then None
                         else (case parse_value n r1 of
                                 None \<Rightarrow> None
                               | Some (v, r2) \<Rightarrow>
                                   (case skip_ws r2 of
                                      [] \<Rightarrow> None
                                    | e # r3 \<Rightarrow>
                                        if e = 125 then Some (AList.update k v acc, r3)
                                        else if e = 44 then parse_members n (AList.update k v acc) r3
                                        else None)))))"

definition json_parse :: "js_string \<Rightarrow> js_value option" where
  "json_parse s =
     (case parse_value (length s + 1) s of
        Some (v, r) \<Rightarrow> if skip_ws r = [] then Some v else None
      | None \<Rightarrow> None)"

subsection \<open>Fuel\<close>

text \<open>More fuel changes no answer, and as much as there is text to read is enough.\<close>

lemma parse_mono:
  "parse_value n s = Some x \<Longrightarrow> n \<le> m \<Longrightarrow> parse_value m s = Some x"
  "parse_items n s = Some y \<Longrightarrow> n \<le> m \<Longrightarrow> parse_items m s = Some y"
  "parse_members n acc s = Some z \<Longrightarrow> n \<le> m \<Longrightarrow> parse_members m acc s = Some z"
proof (induction n s and n s and n acc s arbitrary: x m and y m and z m rule: parse_value_parse_items_parse_members.induct)
  case (2 n s)
  obtain k where k: "m = Suc k" "n \<le> k" using "2.prems"(2) by (cases m) auto
  obtain c t where s: "skip_ws s = c # t" using "2.prems"(1) by (cases "skip_ws s") simp_all
  show ?case
  proof (cases "\<exists>d r. skip_ws t = d # r \<and> (c = 91 \<and> d \<noteq> 93 \<or> c = 123 \<and> d \<noteq> 125)")
    case False
    then show ?thesis using "2.prems"(1) s k(1) by (cases "skip_ws t") (auto simp del: dropWhile_eq_Nil_conv split: if_splits)
  next
    case True
    then obtain d r where d: "skip_ws t = d # r" "c = 91 \<and> d \<noteq> 93 \<or> c = 123 \<and> d \<noteq> 125" by blast
    from d(2) show ?thesis
    proof
      assume c: "c = 91 \<and> d \<noteq> 93"
      then obtain y where y: "parse_items n t = Some y" "x = apfst VArray y" using "2.prems"(1) s d(1) by auto
      then have "parse_items k t = Some y" using "2.IH"(1) [of c t d r y k] s d(1) c k(2) by simp
      then show ?thesis using s d(1) c k(1) y(2) by simp
    next
      assume c: "c = 123 \<and> d \<noteq> 125"
      then obtain y where y: "parse_members n [] t = Some y" "x = apfst VObject y" using "2.prems"(1) s d(1) by auto
      then have "parse_members k [] t = Some y" using "2.IH"(2) [of c t d r y k] s d(1) c k(2) by simp
      then show ?thesis using s d(1) c k(1) y(2) by simp
    qed
  qed
next
  case (4 n s)
  obtain k where k: "m = Suc k" "n \<le> k" using "4.prems"(2) by (cases m) auto
  obtain v r where v: "parse_value n s = Some (v, r)" using 4(3) by (auto split: option.splits)
  have "parse_value k s = Some (v, r)" using 4(1) [OF v k(2)] .
  moreover obtain d t where "skip_ws r = d # t" using 4(3) v by (auto split: list.splits)
  ultimately show ?case using 4(2) [OF v refl, of d t _ k] 4(3) v k by (auto split: if_splits)
next
  case (6 n acc s)
  obtain k where k: "m = Suc k" "n \<le> k" using "6.prems"(2) by (cases m) auto
  obtain c t key r d r1 where s: "skip_ws s = c # t" "c = 34" "parse_units t = Some (key, r)" "skip_ws r = d # r1" "d = 58"
    using 6(3) by (auto split: list.splits option.splits if_splits)
  moreover obtain v r2 where v: "parse_value n r1 = Some (v, r2)" using 6(3) s by (auto split: option.splits)
  moreover obtain e r3 where e: "skip_ws r2 = e # r3" using 6(3) s v by (auto split: list.splits)
  moreover have "parse_value k r1 = Some (v, r2)" using 6(1) s v k(2) by blast
  ultimately show ?case using 6(2) [of c t "(key, r)" key r d r1 "(v, r2)" v r2 e r3 _ k] 6(3) k by (auto split: if_splits)
qed simp_all

lemma parse_units_shorter: "parse_units s = Some (u, r) \<Longrightarrow> length r < length s"
proof (induction s arbitrary: u r rule: parse_units.induct)
  case (2 c s)
  show ?case
  proof (cases "c = 92")
    case True
    then obtain w t u' where "parse_escape s = Some (w, t)" "parse_units t = Some (u', r)"
      using "2.prems" by (auto split: option.splits if_splits)
    then show ?thesis using "2.IH"(1) [of "(w, t)" w t u' r] True parse_escape_length [of s w t] by simp
  next
    case False
    then have "c = 34 \<and> r = s \<or> c \<noteq> 34 \<and> \<not> unat c < 32 \<and> (\<exists>u'. parse_units s = Some (u', r))"
      using "2.prems" by (auto split: if_splits)
    then show ?thesis using "2.IH"(2) False by fastforce
  qed
qed simp

lemma digits_of_shorter: "digits_of s = Some (d, r) \<Longrightarrow> length r < length s"
  by (cases s) (auto simp: digits_of_def Let_def length_dropWhile_le less_Suc_eq_le split: if_splits)

lemma parse_number_shorter:
  assumes "parse_number s = Some (t, r)"
  shows "length r < length s"
proof -
  define s1 where "s1 = (case s of [] \<Rightarrow> [] | c # t \<Rightarrow> if c = 45 then t else s)"
  obtain whole s2 frac s3 ex where p: "digits_of s1 = Some (whole, s2)" "parse_fraction s2 = Some (frac, s3)" "parse_exponent s3 = Some (ex, r)"
    using assms by (cases s) (auto simp: parse_number_def s1_def split: option.splits if_splits)
  have "length s1 \<le> length s" by (auto simp: s1_def split: list.splits)
  moreover have "length s2 < length s1" using p(1) digits_of_shorter by blast
  moreover have "length s3 \<le> length s2"
    using p(2) by (auto simp: parse_fraction_def split: list.splits if_splits dest!: digits_of_shorter)
  moreover have "length r \<le> length s3"
    using p(3) by (auto simp: parse_exponent_def split: list.splits if_splits dest!: digits_of_shorter)
  ultimately show ?thesis by simp
qed

lemma word_prefix_shorter: "word_prefix w s = Some r \<Longrightarrow> w \<noteq> [] \<Longrightarrow> length r < length s"
  by (cases s; cases w) (auto simp: word_prefix_def js_def split: if_splits)

lemma parse_word_shorter: "parse_word s = Some (v, r) \<Longrightarrow> length r < length s"
  by (auto simp: parse_word_def dest: word_prefix_shorter parse_number_shorter split: option.splits)

lemma skip_ws_length: "skip_ws s = c # t \<Longrightarrow> length t < length s"
  using length_dropWhile_le [of json_ws s] by simp

lemma parse_enough:
  "parse_value n s = Some (v, r) \<Longrightarrow> length r < length s \<and> parse_value (length s - length r) s = Some (v, r)"
  "parse_items n s = Some (vs, r) \<Longrightarrow> length r < length s \<and> parse_items (length s - length r) s = Some (vs, r)"
  "parse_members n acc s = Some (kvs, r) \<Longrightarrow> length r < length s \<and> parse_members (length s - length r) acc s = Some (kvs, r)"
proof (induction n s and n s and n acc s arbitrary: v r and vs r and kvs r rule: parse_value_parse_items_parse_members.induct)
  case (2 n s)
  obtain c t where s: "skip_ws s = c # t" using "2.prems" by (cases "skip_ws s") simp_all
  note ts = skip_ws_length [OF s]
  show ?case
  proof (cases "\<exists>d u. skip_ws t = d # u \<and> (c = 91 \<and> d \<noteq> 93 \<or> c = 123 \<and> d \<noteq> 125)")
    case False
    have "length r < length s" using "2.prems" s ts False
      by (cases "skip_ws t") (auto simp del: dropWhile_eq_Nil_conv dest!: parse_units_shorter parse_word_shorter skip_ws_length split: if_splits)
    moreover then obtain m where "length s - length r = Suc m" by (metis Suc_diff_Suc)
    ultimately show ?thesis using "2.prems" s False by (cases "skip_ws t") (auto simp del: dropWhile_eq_Nil_conv split: if_splits)
  next
    case True
    then obtain d u where d: "skip_ws t = d # u" "c = 91 \<and> d \<noteq> 93 \<or> c = 123 \<and> d \<noteq> 125" by blast
    from d(2) show ?thesis
    proof
      assume c: "c = 91 \<and> d \<noteq> 93"
      then obtain vs where y: "parse_items n t = Some (vs, r)" "v = VArray vs" using "2.prems" s d(1) by auto
      then have e: "length r < length t" "parse_items (length t - length r) t = Some (vs, r)"
        using "2.IH"(1) [of c t d u vs r] s d(1) c by simp_all
      obtain m where m: "length s - length r = Suc m" "length t - length r \<le> m" using e(1) ts by (cases "length s - length r") auto
      then show ?thesis using parse_mono(2) [OF e(2) m(2)] s d(1) c y(2) e(1) ts by simp
    next
      assume c: "c = 123 \<and> d \<noteq> 125"
      then obtain kvs where y: "parse_members n [] t = Some (kvs, r)" "v = VObject kvs" using "2.prems" s d(1) by auto
      then have e: "length r < length t" "parse_members (length t - length r) [] t = Some (kvs, r)"
        using "2.IH"(2) [of c t d u kvs r] s d(1) c by simp_all
      obtain m where m: "length s - length r = Suc m" "length t - length r \<le> m" using e(1) ts by (cases "length s - length r") auto
      then show ?thesis using parse_mono(3) [OF e(2) m(2)] s d(1) c y(2) e(1) ts by simp
    qed
  qed
next
  case (4 n s)
  obtain v r1 where v: "parse_value n s = Some (v, r1)" using "4.prems" by (auto split: option.splits)
  have e: "length r1 < length s" "parse_value (length s - length r1) s = Some (v, r1)" using "4.IH"(1) [OF v] by simp_all
  obtain d t where d: "skip_ws r1 = d # t" using "4.prems" v by (auto split: list.splits)
  note td = skip_ws_length [OF d]
  show ?case
  proof (cases "d = 93")
    case True
    then have r: "vs = [v]" "r = t" using "4.prems" v d by simp_all
    obtain m where m: "length s - length t = Suc m" "length s - length r1 \<le> m" using e(1) td by (cases "length s - length t") auto
    then show ?thesis using parse_mono(1) [OF e(2) m(2)] d True r e(1) td by simp
  next
    case False
    then obtain ws where w: "d = 44" "parse_items n t = Some (ws, r)" "vs = v # ws" using "4.prems" v d by (auto split: if_splits)
    have f: "length r < length t" "parse_items (length t - length r) t = Some (ws, r)"
      using "4.IH"(2) [OF v refl d False w(1,2)] by simp_all
    obtain m where m: "length s - length r = Suc m" "length s - length r1 \<le> m" "length t - length r \<le> m"
      using e(1) td f(1) by (cases "length s - length r") auto
    then show ?thesis using parse_mono(1) [OF e(2) m(2)] parse_mono(2) [OF f(2) m(3)] d w e(1) td f(1) by simp
  qed
next
  case (6 n acc s)
  obtain c t k r1 d r2 where s: "skip_ws s = c # t" "c = 34" "parse_units t = Some (k, r1)" "skip_ws r1 = d # r2" "d = 58"
    using "6.prems" by (auto split: list.splits option.splits if_splits)
  obtain v r3 where v: "parse_value n r2 = Some (v, r3)" using "6.prems" s by (auto split: option.splits)
  have e: "length r3 < length r2" "parse_value (length r2 - length r3) r2 = Some (v, r3)" using "6.IH"(1) s v by simp_all
  obtain x r4 where x: "skip_ws r3 = x # r4" using "6.prems" s v by (auto split: list.splits)
  have l: "length r2 < length s" "length r4 < length r3"
    using skip_ws_length [OF s(1)] parse_units_shorter [OF s(3)] skip_ws_length [OF s(4)] skip_ws_length [OF x] by simp_all
  show ?case
  proof (cases "x = 125")
    case True
    then have r: "kvs = AList.update k v acc" "r = r4" using "6.prems" s v x by simp_all
    obtain m where m: "length s - length r4 = Suc m" "length r2 - length r3 \<le> m" using e(1) l by (cases "length s - length r4") auto
    then show ?thesis using parse_mono(1) [OF e(2) m(2)] s x True r e(1) l by simp
  next
    case False
    then have w: "x = 44" "parse_members n (AList.update k v acc) r4 = Some (kvs, r)" using "6.prems" s v x by (auto split: if_splits)
    have f: "length r < length r4" "parse_members (length r4 - length r) (AList.update k v acc) r4 = Some (kvs, r)"
      using "6.IH"(2) [of c t "(k, r1)" k r1 d r2 "(v, r3)" v r3 x r4] s v x w by simp_all
    obtain m where m: "length s - length r = Suc m" "length r2 - length r3 \<le> m" "length r4 - length r \<le> m"
      using e(1) l f(1) by (cases "length s - length r") auto
    then show ?thesis using parse_mono(1) [OF e(2) m(2)] parse_mono(3) [OF f(2) m(3)] s x w e(1) l f(1) by simp
  qed
qed simp_all

lemma json_parse_fuel:
  assumes "length s \<le> n"
  shows "json_parse s = (case parse_value n s of Some (v, r) \<Rightarrow> if skip_ws r = [] then Some v else None | None \<Rightarrow> None)"
proof -
  have same: "parse_value m s = parse_value (length s) s" if "length s \<le> m" for m
  proof (cases "parse_value m s")
    case None
    then show ?thesis using parse_mono(1) [of "length s" s _ m] that by (cases "parse_value (length s) s") auto
  next
    case (Some x)
    obtain v r where x: "x = (v, r)" by (cases x)
    then show ?thesis using Some parse_enough(1) [of m s v r] parse_mono(1) [of "length s - length r" s "(v, r)" "length s"] by auto
  qed
  show ?thesis using same [of "length s + 1"] same [OF assms] by (simp add: json_parse_def)
qed

subsection \<open>Reading what was written\<close>

lemma parse_units_raw: "u \<noteq> 34 \<Longrightarrow> u \<noteq> 92 \<Longrightarrow> 32 \<le> unat u \<Longrightarrow> parse_units (u # s) = map_option (apfst (Cons u)) (parse_units s)"
  by simp

lemma unat_hex_unit: "unat (hex_unit n) = (if n mod 16 < 10 then 48 + n mod 16 else 87 + n mod 16)"
proof -
  have "unat (word_of_nat k :: 16 word) = k" if "k < 65536" for k using that by (simp add: unat_of_nat)
  then show ?thesis unfolding hex_unit_def by (rule) auto
qed

lemma hex_value_unit: "hex_value (hex_unit n) = Some (n mod 16)"
proof -
  have "n mod 16 < 16" by simp
  then show ?thesis by (auto simp: unat_hex_unit hex_value_def Let_def)
qed

lemma hex_sum:
  assumes "n < 65536"
  shows "n div 4096 mod 16 * 4096 + n div 256 mod 16 * 256 + n div 16 mod 16 * 16 + n mod 16 = (n :: nat)"
proof -
  have d: "n div 256 = n div 16 div 16" "n div 4096 = n div 16 div 16 div 16"
    by (simp_all add: div_mult2_eq [symmetric])
  have "n div 4096 < 16" using assms by simp
  then have c: "n div 4096 mod 16 = n div 16 div 16 div 16" using d by simp
  define x y z where "x = n div 16" and "y = x div 16" and "z = y div 16"
  have "x * 16 + n mod 16 = n" "y * 16 + x mod 16 = x" "z * 16 + y mod 16 = y" by (simp_all add: x_def y_def z_def)
  then have "z * 4096 + y mod 16 * 256 + x mod 16 * 16 + n mod 16 = n" by linarith
  then show ?thesis unfolding c d(1) by (simp only: x_def y_def z_def)
qed

lemma parse_units_unicode: "parse_units (unicode_escape u @ s) = map_option (apfst (Cons u)) (parse_units s)"
proof -
  have "unat u < 65536" using unsigned_less [of u] by simp
  from hex_sum [OF this] have "four_hex (hex_unit (unat u div 4096)) (hex_unit (unat u div 256)) (hex_unit (unat u div 16)) (hex_unit (unat u)) = Some u"
    by (simp only: four_hex_def hex_value_unit prod.case option.case) simp
  then show ?thesis by (simp add: unicode_escape_def parse_escape_def Let_def)
qed

lemma parse_units_escape: "parse_units (escape_unit u @ s) = map_option (apfst (Cons u)) (parse_units s)"
proof (cases "u \<in> {34, 92, 8, 9, 10, 12, 13}")
  case True
  then show ?thesis by (auto simp: escape_unit_def parse_escape_def short_escape_def)
next
  case False
  then show ?thesis by (cases "unat u < 32") (simp_all add: escape_unit_def parse_units_unicode del: parse_units.simps, simp)
qed

lemma surrogate_raw: "hi_surrogate u \<Longrightarrow> u \<noteq> 34 \<and> u \<noteq> 92 \<and> 32 \<le> unat u" "lo_surrogate u \<Longrightarrow> u \<noteq> 34 \<and> u \<noteq> 92 \<and> 32 \<le> unat u"
  by (auto simp: hi_surrogate_def lo_surrogate_def)

lemma parse_units_quote: "parse_units (quote_units s @ 34 # r) = Some (s, r)"
proof (induction s rule: quote_units.induct)
  case (2 u)
  then show ?case by (simp add: parse_units_unicode parse_units_escape del: parse_units.simps) simp
next
  case (3 u v s)
  then show ?case
    by (cases "hi_surrogate u \<and> lo_surrogate v")
      (auto simp add: parse_units_unicode parse_units_escape parse_units_raw surrogate_raw simp del: parse_units.simps)
qed simp

text \<open>A whole number as \<open>String(i)\<close> writes it.\<close>

definition int_units :: "int \<Rightarrow> js_string" where
  "int_units i = (if i < 0 then 45 # js (digits_of_nat (nat (- i))) else js (digits_of_nat (nat i)))"

text \<open>What the code stringifies: whole numbers, and objects without equal keys.\<close>

fun plain_value :: "js_value \<Rightarrow> bool" where
  "plain_value (VNumber t) \<longleftrightarrow> (\<exists>i. t = int_units i)"
| "plain_value (VArray vs) \<longleftrightarrow> (\<forall>v \<in> set vs. plain_value v)"
| "plain_value (VObject kvs) \<longleftrightarrow> distinct (map fst kvs) \<and> (\<forall>kv \<in> set kvs. plain_value (snd kv))"
| "plain_value _ \<longleftrightarrow> True"

definition number_stop :: "js_string \<Rightarrow> bool" where
  "number_stop r \<longleftrightarrow> (case r of [] \<Rightarrow> True | c # _ \<Rightarrow> \<not> digit_unit c \<and> c \<notin> {46, 101, 69})"

lemma digit_units: "list_all digit_unit (js (digits_of_nat n))" "js (digits_of_nat n) \<noteq> []"
proof -
  have "digit_unit (word_of_nat (of_char c))" if "is_digit c" for c
  proof -
    have "(of_char c :: nat) < 65536" by (rule less_trans [OF nat_of_char_less_256]) simp
    then have "unat (word_of_nat (of_char c) :: 16 word) = of_char c" by (simp add: unat_of_nat)
    then show ?thesis using that by (simp add: digit_unit_def is_digit_def digit_val_def Let_def split: if_splits)
  qed
  then show "list_all digit_unit (js (digits_of_nat n))" "js (digits_of_nat n) \<noteq> []"
    using digits_of_nat_digits [of n] by (auto simp: js_def list_all_iff)
qed

lemma digits_small: "n < 10 \<Longrightarrow> js (digits_of_nat n) = [word_of_nat (48 + n)]"
  by (subst digits_of_nat.simps) (simp add: js_def)

lemma digits_large: "10 \<le> n \<Longrightarrow> js (digits_of_nat n) = js (digits_of_nat (n div 10)) @ js [char_of (48 + n mod 10)]"
  by (subst digits_of_nat.simps) (simp add: js_append)

lemma digits_no_zero: "1 < length (js (digits_of_nat n)) \<Longrightarrow> hd (js (digits_of_nat n)) \<noteq> 48"
proof (induction n rule: less_induct)
  case (less n)
  then have n: "10 \<le> n" using digits_small [of n] by (cases "n < 10") simp_all
  let ?d = "js (digits_of_nat (n div 10))"
  have "hd ?d \<noteq> 48"
  proof (cases "n div 10 < 10")
    case True
    have k: "unat (word_of_nat (48 + n div 10) :: 16 word) = 48 + n div 10" using True by (simp add: unat_of_nat del: of_nat_add)
    have "0 < n div 10" using n by simp
    then have "word_of_nat (48 + n div 10) \<noteq> (48 :: 16 word)" using k by (auto simp del: of_nat_add)
    then show ?thesis using digits_small [OF True] by simp
  next
    case False
    then have "1 < length ?d"
      using digits_large [of "n div 10"] digits_of_nat_digits [of "n div 10 div 10"] by simp
    then show ?thesis using less.IH [of "n div 10"] n by simp
  qed
  then show ?case unfolding digits_large [OF n] using digit_units(2) [of "n div 10"] by simp
qed

lemma parse_natural:
  assumes "number_stop r"
  shows "digits_of (js (digits_of_nat n) @ r) = Some (js (digits_of_nat n), r)"
    and "parse_fraction r = Some ([], r)" and "parse_exponent r = Some ([], r)"
proof -
  have t: "takeWhile digit_unit (d @ r) = d" "dropWhile digit_unit (d @ r) = r" if "list_all digit_unit d" for d
    using that assms by (induction d) (auto simp: number_stop_def split: list.splits)
  show "digits_of (js (digits_of_nat n) @ r) = Some (js (digits_of_nat n), r)"
    using t [OF digit_units(1)] digit_units(2) by (simp add: digits_of_def)
  show "parse_fraction r = Some ([], r)" "parse_exponent r = Some ([], r)"
    using assms by (auto simp: parse_fraction_def parse_exponent_def number_stop_def split: list.splits)
qed

lemma int_units_start: "\<exists>c t. int_units i = c # t \<and> (digit_unit c \<or> c = 45)"
proof -
  have "\<exists>c t. js (digits_of_nat n) = c # t \<and> digit_unit c" for n
    using digit_units [of n] by (cases "js (digits_of_nat n)") auto
  then show ?thesis by (cases "i < 0") (simp_all add: int_units_def, metis)
qed

lemma parse_int:
  assumes "number_stop r"
  shows "parse_number (int_units i @ r) = Some (int_units i, r)"
proof -
  have nat: "parse_number (js (digits_of_nat n) @ r) = Some (js (digits_of_nat n), r)" for n
  proof -
    obtain c t where c: "js (digits_of_nat n) = c # t" "digit_unit c"
      using digit_units [of n] by (cases "js (digits_of_nat n)") auto
    then have "c \<noteq> 45" by (auto simp: digit_unit_def)
    then show ?thesis using c parse_natural(1) [OF assms, of n] parse_natural(2,3) [OF assms] digits_no_zero [of n] by (auto simp: parse_number_def)
  qed
  show ?thesis using nat parse_natural [OF assms] digits_no_zero
    by (auto simp: int_units_def parse_number_def Let_def)
qed

lemma update_fresh: "k \<notin> fst ` set al \<Longrightarrow> AList.update k v al = al @ [(k, v)]"
  by (induction al) auto

lemma stringify_start: "plain_value v \<Longrightarrow> \<exists>c t. stringify v = c # t \<and> \<not> json_ws c \<and> c \<noteq> 93 \<and> c \<noteq> 125"
proof (cases v)
  case (VNumber x)
  assume "plain_value v"
  then obtain i where "x = int_units i" using VNumber by auto
  then show ?thesis using int_units_start [of i] VNumber by (auto simp: digit_unit_def json_ws_def)
qed (simp_all add: js_def json_ws_def quote_text_def)

lemma skip_stringify: "plain_value v \<Longrightarrow> skip_ws (stringify v @ r) = stringify v @ r"
  using stringify_start [of v] by auto

lemma stringify_length: "plain_value v \<Longrightarrow> 1 \<le> length (stringify v)"
  using stringify_start [of v] by auto

lemma number_stop_marks [simp]: "number_stop (93 # r)" "number_stop (44 # r)" "number_stop (125 # r)" "number_stop []"
  by (simp_all add: number_stop_def digit_unit_def)

lemma json_ws_marks [simp]: "\<not> json_ws 93" "\<not> json_ws 44" "\<not> json_ws 125" "\<not> json_ws 58" "\<not> json_ws 34" "\<not> json_ws 91" "\<not> json_ws 123"
  by (simp_all add: json_ws_def)

text \<open>\<open>reads n v\<close>: with fuel \<open>n\<close> the text of \<open>v\<close> is read back, whatever follows.\<close>

definition reads :: "js_value \<Rightarrow> bool" where
  "reads v \<longleftrightarrow> (\<forall>n r. length (stringify v) \<le> n \<longrightarrow> number_stop r \<longrightarrow> parse_value n (stringify v @ r) = Some (v, r))"

lemma parse_items_join:
  assumes "vs \<noteq> []" and "\<forall>v \<in> set vs. plain_value v \<and> reads v"
  shows "length (join_on 44 (map stringify vs)) < n \<Longrightarrow> parse_items n (join_on 44 (map stringify vs) @ 93 # r) = Some (vs, r)"
  using assms
proof (induction vs arbitrary: n)
  case (Cons v vs)
  then obtain m where m: "n = Suc m" by (cases n) auto
  show ?case
  proof (cases "vs = []")
    case True
    then have "parse_value m (stringify v @ 93 # r) = Some (v, 93 # r)" using Cons.prems m by (simp add: reads_def)
    then show ?thesis using True m by simp
  next
    case False
    let ?rest = "join_on 44 (map stringify vs) @ 93 # r"
    have j: "join_on 44 (map stringify (v # vs)) = stringify v @ 44 # join_on 44 (map stringify vs)"
      using False by (simp add: join_on_Cons)
    have "parse_value m (stringify v @ 44 # ?rest) = Some (v, 44 # ?rest)" using Cons.prems j m by (simp add: reads_def)
    moreover have "parse_items m ?rest = Some (vs, r)"
      using Cons.IH [of m] Cons.prems False j m by simp
    ultimately show ?thesis unfolding j using m by simp
  qed
qed simp

lemma parse_members_join:
  assumes "kvs \<noteq> []" and "\<forall>kv \<in> set kvs. plain_value (snd kv) \<and> reads (snd kv)" and "distinct (map fst acc @ map fst kvs)"
  shows "length (join_on 44 (map (\<lambda>(k, v). quote_text k @ 58 # stringify v) kvs)) < n \<Longrightarrow>
    parse_members n acc (join_on 44 (map (\<lambda>(k, v). quote_text k @ 58 # stringify v) kvs) @ 125 # r) = Some (acc @ kvs, r)"
  using assms
proof (induction kvs arbitrary: n acc)
  case (Cons kv kvs)
  then obtain m where m: "n = Suc m" by (cases n) auto
  obtain k v where kv: "kv = (k, v)" by (cases kv)
  have fresh: "AList.update k v acc = acc @ [kv]" using Cons.prems(4) kv by (intro update_fresh [of k acc v, unfolded kv [symmetric]]) auto
  show ?case
  proof (cases "kvs = []")
    case True
    then have "parse_value m (stringify v @ 125 # r) = Some (v, 125 # r)" using Cons.prems m kv by (simp add: reads_def quote_text_def)
    then show ?thesis using True m kv fresh by (simp add: quote_text_def parse_units_quote)
  next
    case False
    let ?j = "join_on 44 (map (\<lambda>(k, v). quote_text k @ 58 # stringify v) kvs)"
    have j: "join_on 44 (map (\<lambda>(k, v). quote_text k @ 58 # stringify v) (kv # kvs)) = (quote_text k @ 58 # stringify v) @ 44 # ?j"
      using False kv by (simp add: join_on_Cons)
    have "parse_value m (stringify v @ 44 # ?j @ 125 # r) = Some (v, 44 # ?j @ 125 # r)"
      using Cons.prems j m kv by (simp add: reads_def quote_text_def)
    moreover have "parse_members m (acc @ [kv]) (?j @ 125 # r) = Some ((acc @ [kv]) @ kvs, r)"
      using Cons.IH [of m "acc @ [kv]"] Cons.prems False j m by simp
    ultimately show ?thesis unfolding j using m kv fresh by (simp add: quote_text_def parse_units_quote)
  qed
qed simp

lemma word_prefix_other: "s = c # t \<Longrightarrow> w = a # b \<Longrightarrow> c \<noteq> word_of_nat (of_char a) \<Longrightarrow> word_prefix w s = None"
  by (simp add: word_prefix_def js_def)

lemma reads_word:
  "parse_word (js ''null'' @ r) = Some (VNull, r)" "parse_word (js ''true'' @ r) = Some (VBool True, r)"
  "parse_word (js ''false'' @ r) = Some (VBool False, r)"
  by (simp_all add: parse_word_def word_prefix_def js_def)

lemma reads_number:
  assumes "number_stop r"
  shows "parse_word (int_units i @ r) = Some (VNumber (int_units i), r)"
proof -
  obtain c t where c: "int_units i = c # t" "digit_unit c \<or> c = 45" using int_units_start by blast
  then have "c \<noteq> 110" "c \<noteq> 116" "c \<noteq> 102" by (auto simp: digit_unit_def)
  then have "word_prefix ''null'' (int_units i @ r) = None" "word_prefix ''true'' (int_units i @ r) = None"
    "word_prefix ''false'' (int_units i @ r) = None"
    using c by (simp_all add: word_prefix_def js_def)
  then show ?thesis using parse_int [OF assms] by (simp add: parse_word_def)
qed

lemma fuel_Suc: "Suc k \<le> n \<Longrightarrow> (\<And>m. n = Suc m \<Longrightarrow> k \<le> m \<Longrightarrow> P) \<Longrightarrow> P"
  by (cases n) auto

lemma plain_reads: "plain_value v \<Longrightarrow> reads v"
proof (induction v)
  case VNull
  have "parse_word (js ''null'' @ r) = Some (VNull, r)" for r by (rule reads_word)
  then show ?case by (auto simp: reads_def js_def json_ws_def elim!: fuel_Suc)
next
  case (VBool b)
  have "parse_word (js (if b then ''true'' else ''false'') @ r) = Some (VBool b, r)" for r by (simp add: reads_word)
  then show ?case by (cases b) (auto simp: reads_def js_def json_ws_def elim!: fuel_Suc)
next
  case (VNumber x)
  then obtain i where i: "x = int_units i" by auto
  obtain c t where c: "int_units i = c # t" "digit_unit c \<or> c = 45" using int_units_start by blast
  then have "c \<notin> {34, 91, 123}" "\<not> json_ws c" by (auto simp: digit_unit_def json_ws_def)
  then show ?case using reads_number [of _ i] c i by (auto simp: reads_def elim!: fuel_Suc)
next
  case (VString s)
  then show ?case by (auto simp: reads_def quote_text_def parse_units_quote elim!: fuel_Suc)
next
  case (VArray vs)
  show ?case
  proof (cases "vs = []")
    case True
    then show ?thesis by (auto simp: reads_def elim!: fuel_Suc)
  next
    case False
    have all: "\<forall>v \<in> set vs. plain_value v \<and> reads v" using VArray by simp
    obtain v ws where "vs = v # ws" using False by (cases vs) auto
    then obtain c t where c: "join_on 44 (map stringify vs) = c # t" "\<not> json_ws c" "c \<noteq> 93"
      using stringify_start [of v] all by (cases ws) auto
    show ?thesis unfolding reads_def
    proof (intro allI impI)
      fix n r assume n: "length (stringify (VArray vs)) \<le> n"
      then obtain m where m: "n = Suc m" by (cases n) auto
      then have "parse_items m (join_on 44 (map stringify vs) @ 93 # r) = Some (vs, r)"
        using parse_items_join [OF False all, of m] n by simp
      then show "parse_value n (stringify (VArray vs) @ r) = Some (VArray vs, r)" using m c by simp
    qed
  qed
next
  case (VObject kvs)
  show ?case
  proof (cases "kvs = []")
    case True
    then show ?thesis by (auto simp: reads_def elim!: fuel_Suc)
  next
    case False
    have all: "\<forall>kv \<in> set kvs. plain_value (snd kv) \<and> reads (snd kv)" using VObject by (auto simp: snds.simps)
    obtain kv ws where "kvs = kv # ws" using False by (cases kvs) auto
    then obtain t where t: "join_on 44 (map (\<lambda>(k, v). quote_text k @ 58 # stringify v) kvs) = 34 # t"
      by (cases kv; cases ws) (auto simp: quote_text_def)
    show ?thesis unfolding reads_def
    proof (intro allI impI)
      fix n r assume n: "length (stringify (VObject kvs)) \<le> n"
      then obtain m where m: "n = Suc m" by (cases n) auto
      then have "parse_members m [] (join_on 44 (map (\<lambda>(k, v). quote_text k @ 58 # stringify v) kvs) @ 125 # r) = Some (kvs, r)"
        using parse_members_join [OF False all, of "[]" m] VObject.prems n by simp
      then show "parse_value n (stringify (VObject kvs) @ r) = Some (VObject kvs, r)" using m t by simp
    qed
  qed
qed

text \<open>
  What is stringified is parsed back. For every value of whole numbers and texts, whatever units these hold, lone
  surrogates too, in which no object has two equal keys, \<open>JSON.parse\<close> answers the value that was written.
\<close>

theorem json_roundtrip: "plain_value v \<Longrightarrow> json_parse (stringify v) = Some v"
  using plain_reads [of v] by (auto simp: reads_def json_parse_def dest!: spec [of _ "length (stringify v) + 1"] spec [of _ "[]"])

theorem json_roundtrip_witness:
  "json_parse (stringify (VObject [(js ''iat'', VNumber (int_units 12)), (js ''to'', VArray [VString [0xD800], VNull])]))
   = Some (VObject [(js ''iat'', VNumber (int_units 12)), (js ''to'', VArray [VString [0xD800], VNull])])"
  by (rule json_roundtrip) (auto simp: js_def)

subsection \<open>Texts are well-formed\<close>

lemma well_formed_append: "well_formed_utf16 a \<Longrightarrow> well_formed_utf16 b \<Longrightarrow> well_formed_utf16 (a @ b)"
proof (induction a rule: well_formed_utf16.induct)
  case (2 u)
  then show ?case by (cases b) simp_all
qed (auto split: if_splits)

lemma well_formed_units: "list_all (\<lambda>u. \<not> hi_surrogate u \<and> \<not> lo_surrogate u) s \<Longrightarrow> well_formed_utf16 s"
  by (induction s rule: well_formed_utf16.induct) simp_all

lemma low_unit: "unat u < 0xD800 \<Longrightarrow> \<not> hi_surrogate u \<and> \<not> lo_surrogate u"
  by (simp add: hi_surrogate_def lo_surrogate_def)

lemma js_low: "list_all (\<lambda>u. \<not> hi_surrogate u \<and> \<not> lo_surrogate u) (js s)"
proof -
  have "unat (word_of_nat (of_char c) :: 16 word) = of_char c" for c :: char
    using less_trans [OF nat_of_char_less_256 [of c], of 65536] by (simp add: unat_of_nat)
  moreover have "(of_char c :: nat) < 0xD800" for c :: char
    by (rule less_trans [OF nat_of_char_less_256]) simp
  ultimately show ?thesis by (simp add: js_def list_all_iff low_unit)
qed

lemma well_formed_unicode: "well_formed_utf16 (unicode_escape u)"
proof -
  have "unat (hex_unit n) < 0xD800" for n by (auto simp: unat_hex_unit intro: le_less_trans [of _ 102])
  then show ?thesis by (auto simp: unicode_escape_def Let_def low_unit intro!: well_formed_units)
qed

lemma well_formed_escape: "\<not> hi_surrogate u \<Longrightarrow> \<not> lo_surrogate u \<Longrightarrow> well_formed_utf16 (escape_unit u)"
  by (auto simp: escape_unit_def well_formed_unicode intro!: well_formed_units) (simp_all add: hi_surrogate_def lo_surrogate_def)

lemma well_formed_quote_units: "well_formed_utf16 (quote_units s)"
  by (induction s rule: quote_units.induct) (auto simp: well_formed_unicode well_formed_escape intro!: well_formed_append)

lemma well_formed_quote: "well_formed_utf16 (quote_text s)"
proof -
  have "well_formed_utf16 ([34] @ quote_units s @ [34])"
    by (intro well_formed_append well_formed_quote_units) (simp_all add: low_unit)
  then show ?thesis by (simp add: quote_text_def)
qed

lemma well_formed_join:
  "\<not> hi_surrogate c \<Longrightarrow> \<not> lo_surrogate c \<Longrightarrow> \<forall>w \<in> set ws. well_formed_utf16 w \<Longrightarrow> well_formed_utf16 (join_on c ws)"
proof (induction c ws rule: join_on.induct)
  case (3 c w v ws)
  have "well_formed_utf16 (w @ [c] @ join_on c (v # ws))" using 3 by (intro well_formed_append) simp_all
  then show ?case by simp
qed simp_all

lemma well_formed_stringify: "plain_value v \<Longrightarrow> well_formed_utf16 (stringify v)"
proof (induction v)
  case (VNumber t)
  then show ?case using js_low by (auto simp: int_units_def low_unit intro!: well_formed_units)
next
  case (VArray vs)
  have "well_formed_utf16 ([91] @ join_on 44 (map stringify vs) @ [93])"
    using VArray by (intro well_formed_append well_formed_join) (auto simp: low_unit)
  then show ?case by simp
next
  case (VObject kvs)
  have "well_formed_utf16 (quote_text k @ [58] @ stringify v)" if "(k, v) \<in> set kvs" for k v
    using VObject that by (intro well_formed_append well_formed_quote) (force simp: low_unit snds.simps)+
  then have "well_formed_utf16 ([123] @ join_on 44 (map (\<lambda>(k, v). quote_text k @ 58 # stringify v) kvs) @ [125])"
    by (intro well_formed_append well_formed_join) (auto simp: low_unit)
  then show ?case by simp
qed (auto simp: well_formed_quote intro!: well_formed_units js_low)

lemma ascii_no_bom: "unat c < 0x80 \<Longrightarrow> no_bom (c # s)"
proof -
  assume c: "unat c < 0x80"
  then have "utf16_points (c # s) = unat c # utf16_points s" using low_unit [of c] by (cases s) simp_all
  then have "hd (utf8 (c # s)) = c'" if "c' = u8 (unat c)" for c' using c that by (simp add: utf8_def utf8_point_def)
  moreover have "u8 (unat c) \<noteq> 0xEF"
  proof
    assume "u8 (unat c) = 0xEF"
    then have "unat (u8 (unat c)) = 0xEF" by simp
    then show False using c by simp
  qed
  ultimately show ?thesis by (cases "utf8 (c # s)") (auto simp: no_bom_def)
qed

lemma stringify_text: "plain_value (VObject kvs) \<Longrightarrow> utf8Decode (utf8 (stringify (VObject kvs))) = Some (stringify (VObject kvs))"
  by (intro utf8_roundtrip well_formed_stringify) (simp_all add: ascii_no_bom)

end
