(* ===== verification/IdSession.thy ===== *)
theory IdSession imports Complex_Main InscBase JsJson begin

text \<open>
  Session tokens (\<open>session.ts\<close> of \<open>platform/identity/src\<close>): compact JWS signed with Ed25519. Ed25519, base64url and the
  random number are libraries and hence arguments; so is the double that \<open>JSON.parse\<close> gives for the text of a number:
  \<open>numberValue\<close> is what the text is worth after rounding (and no integer where that is infinite). JSON is that of
  \<open>JsJson\<close>.
\<close>

subsection \<open>Keys, subjects, claims\<close>

record session_lib =
  b64urlEncode :: "bytes \<Rightarrow> js_string"
  b64urlDecode :: "js_string \<Rightarrow> bytes option"
  ed25519Public :: "bytes \<Rightarrow> bytes"
  ed25519Sign :: "bytes \<Rightarrow> bytes \<Rightarrow> bytes"
  ed25519Verify :: "bytes \<Rightarrow> bytes \<Rightarrow> bytes \<Rightarrow> bool option"
  numberValue :: "js_string \<Rightarrow> rat"

definition SESSION_ALG :: js_string where "SESSION_ALG = js ''EdDSA''"
definition DEFAULT_ISSUER :: js_string where "DEFAULT_ISSUER = js ''blockspace-id''"
definition MAX_TOKEN_LENGTH :: nat where "MAX_TOKEN_LENGTH = 8192"

definition unit_of :: "char \<Rightarrow> char \<Rightarrow> 16 word \<Rightarrow> bool" where
  "unit_of a b u = (of_char a \<le> unat u \<and> unat u \<le> of_char b)"

definition KID_RE :: "js_string \<Rightarrow> bool" where
  "KID_RE s = (1 \<le> length s \<and> length s \<le> 64 \<and>
     list_all (\<lambda>u. unit_of CHR ''A'' CHR ''Z'' u \<or> unit_of CHR ''a'' CHR ''z'' u \<or> unit_of CHR ''0'' CHR ''9'' u \<or> u \<in> {46, 95, 45}) s)"

definition SLUG_RE :: "js_string \<Rightarrow> bool" where
  "SLUG_RE s = (1 \<le> length s \<and> length s \<le> 64 \<and> (unit_of CHR ''a'' CHR ''z'' (hd s) \<or> unit_of CHR ''0'' CHR ''9'' (hd s)) \<and>
     list_all (\<lambda>u. unit_of CHR ''a'' CHR ''z'' u \<or> unit_of CHR ''0'' CHR ''9'' u \<or> u \<in> {46, 95, 58, 45}) (tl s))"

record SigningKey =
  skKid :: js_string
  skSecretKey :: bytes

record VerificationKey =
  vkKid :: js_string
  vkPublicKey :: bytes
  vkNotAfter :: "int option"

record SessionSubject =
  ssSub :: js_string
  ssAccounts :: "js_string list"
  ssProduct :: js_string
  ssScopes :: "js_string list"

record SessionClaims = SessionSubject +
  scIss :: js_string
  scAud :: js_string
  scIat :: int
  scNbf :: "int option"
  scExp :: int
  scJti :: js_string

text \<open>\<open>ttlSeconds\<close>: \<open>None\<close> inside for a number that is no integer. \<open>now\<close> is in milliseconds.\<close>

record IssueSessionOptions =
  isIssuer :: "js_string option"
  isAudience :: "js_string option"
  isTtlSeconds :: "int option option"
  isNow :: int
  isJti :: "js_string option"

record VerifySessionOptions =
  vsIssuer :: "js_string option"
  vsAudience :: "js_string list option"
  vsNow :: int
  vsLeewaySeconds :: "int option"
  vsRequiredScopes :: "js_string list option"

datatype SessionErrorCode =
    Malformed | UnsupportedAlg | UnknownKid | BadSignature | Expired | NotYetValid | WrongIssuer | WrongAudience
  | InsufficientScope | KeyRetired

datatype session_failure = SessionError SessionErrorCode | PlainError string

definition nowSeconds :: "int \<Rightarrow> int" where
  "nowSeconds ms = ms div 1000"

definition generateSigningKey :: "js_string \<Rightarrow> bytes \<Rightarrow> session_failure + SigningKey" where
  "generateSigningKey kid random =
     (if \<not> KID_RE kid then Inl (PlainError ''invalid kid'') else Inr \<lparr>skKid = kid, skSecretKey = random\<rparr>)"

definition toVerificationKey :: "'z session_lib_scheme \<Rightarrow> SigningKey \<Rightarrow> int option \<Rightarrow> VerificationKey" where
  "toVerificationKey L k notAfter = \<lparr>vkKid = skKid k, vkPublicKey = ed25519Public L (skSecretKey k), vkNotAfter = notAfter\<rparr>"

record Jwk =
  jwkKty :: "js_string option"
  jwkCrv :: "js_string option"
  jwkX :: "js_string option"
  jwkKid :: "js_string option"

definition toPublicJwk :: "'z session_lib_scheme \<Rightarrow> VerificationKey \<Rightarrow> Jwk" where
  "toPublicJwk L k = \<lparr>jwkKty = Some (js ''OKP''), jwkCrv = Some (js ''Ed25519''), jwkX = Some (b64urlEncode L (vkPublicKey k)),
     jwkKid = Some (vkKid k)\<rparr>"

definition fromPublicJwk :: "'z session_lib_scheme \<Rightarrow> Jwk \<Rightarrow> session_failure + VerificationKey" where
  "fromPublicJwk L jwk =
     (if jwkKty jwk \<noteq> Some (js ''OKP'') \<or> jwkCrv jwk \<noteq> Some (js ''Ed25519'') then Inl (PlainError ''not an Ed25519 public JWK'')
      else case (jwkX jwk, jwkKid jwk) of
        (Some x, Some kid) \<Rightarrow>
          (case b64urlDecode L x of
             None \<Rightarrow> Inl (PlainError ''base64url'')
           | Some publicKey \<Rightarrow>
               if length publicKey \<noteq> 32 then Inl (PlainError ''invalid Ed25519 public key'')
               else Inr \<lparr>vkKid = kid, vkPublicKey = publicKey, vkNotAfter = None\<rparr>)
      | _ \<Rightarrow> Inl (PlainError ''not an Ed25519 public JWK''))"

subsection \<open>Issuing\<close>

definition encodeJson :: "'z session_lib_scheme \<Rightarrow> js_value \<Rightarrow> js_string" where
  "encodeJson L v = b64urlEncode L (utf8 (stringify v))"

definition header_value :: "js_string \<Rightarrow> js_value" where
  "header_value kid = VObject [(js ''alg'', VString SESSION_ALG), (js ''typ'', VString (js ''JWT'')), (js ''kid'', VString kid)]"

definition claims_value :: "SessionClaims \<Rightarrow> js_value" where
  "claims_value c = VObject
     [(js ''iss'', VString (scIss c)), (js ''aud'', VString (scAud c)), (js ''sub'', VString (ssSub c)),
      (js ''accounts'', VArray (map VString (ssAccounts c))), (js ''product'', VString (ssProduct c)),
      (js ''scopes'', VArray (map VString (ssScopes c))), (js ''iat'', VNumber (int_units (scIat c))),
      (js ''exp'', VNumber (int_units (scExp c))), (js ''jti'', VString (scJti c))]"

definition issued_claims :: "SessionSubject \<Rightarrow> IssueSessionOptions \<Rightarrow> js_string \<Rightarrow> int \<Rightarrow> SessionClaims" where
  "issued_claims subject opts random ttl =
     (let iat = nowSeconds (isNow opts) in
      \<lparr>ssSub = ssSub subject, ssAccounts = ssAccounts subject, ssProduct = ssProduct subject, ssScopes = ssScopes subject,
         scIss = (case isIssuer opts of None \<Rightarrow> DEFAULT_ISSUER | Some i \<Rightarrow> i),
         scAud = (case isAudience opts of None \<Rightarrow> ssProduct subject | Some a \<Rightarrow> a),
         scIat = iat, scNbf = None, scExp = iat + ttl, scJti = (case isJti opts of None \<Rightarrow> random | Some j \<Rightarrow> j)\<rparr>)"

definition issueSession ::
  "'z session_lib_scheme \<Rightarrow> js_string \<Rightarrow> SessionSubject \<Rightarrow> SigningKey \<Rightarrow> IssueSessionOptions \<Rightarrow> session_failure + js_string" where
  "issueSession L random subject key opts =
     ebind (eguard (KID_RE (skKid key)) (PlainError ''invalid kid'')) (\<lambda>_.
     ebind (eguard (length (skSecretKey key) = 32) (PlainError ''secretKey must be 32 bytes'')) (\<lambda>_.
     ebind (eguard (ssSub subject \<noteq> []) (PlainError ''sub required'')) (\<lambda>_.
     ebind (eguard (SLUG_RE (ssProduct subject)) (PlainError ''invalid product'')) (\<lambda>_.
     case (case isTtlSeconds opts of None \<Rightarrow> Some 3600 | Some t \<Rightarrow> t) of
       None \<Rightarrow> Inl (PlainError ''ttlSeconds out of range'')
     | Some ttl \<Rightarrow>
         if ttl < 1 \<or> ttl > 30 * 86400 then Inl (PlainError ''ttlSeconds out of range'')
         else
           let signingInput = encodeJson L (header_value (skKid key)) @ [46] @ encodeJson L (claims_value (issued_claims subject opts random ttl));
               sig = ed25519Sign L (utf8 signingInput) (skSecretKey key)
           in Inr (signingInput @ [46] @ b64urlEncode L sig)))))"

subsection \<open>Verifying\<close>

datatype KeySet = OneKey VerificationKey | KeyList "VerificationKey list" | KeyMap "(js_string \<times> VerificationKey) list"

definition findKey :: "KeySet \<Rightarrow> js_string \<Rightarrow> VerificationKey option" where
  "findKey keys kid =
     (case keys of
        KeyMap m \<Rightarrow> map_of m kid
      | KeyList ks \<Rightarrow> find (\<lambda>k. vkKid k = kid) ks
      | OneKey k \<Rightarrow> find (\<lambda>k. vkKid k = kid) [k])"

definition parseJson :: "'z session_lib_scheme \<Rightarrow> js_string \<Rightarrow> session_failure + (js_string \<times> js_value) list" where
  "parseJson L seg =
     (case Option.bind (b64urlDecode L seg) (\<lambda>b. Option.bind (utf8Decode b) json_parse) of
        None \<Rightarrow> Inl (SessionError Malformed)
      | Some (VObject kvs) \<Rightarrow> Inr kvs
      | Some _ \<Rightarrow> Inl (SessionError Malformed))"

definition str_at :: "(js_string \<times> js_value) list \<Rightarrow> string \<Rightarrow> js_string option" where
  "str_at c k = (case map_of c (js k) of Some (VString s) \<Rightarrow> Some s | _ \<Rightarrow> None)"

definition isStrArray :: "js_value option \<Rightarrow> js_string list option" where
  "isStrArray v =
     (case v of
        Some (VArray xs) \<Rightarrow> those (map (\<lambda>x. case x of VString s \<Rightarrow> Some s | _ \<Rightarrow> None) xs)
      | _ \<Rightarrow> None)"

definition isInt :: "'z session_lib_scheme \<Rightarrow> js_value option \<Rightarrow> int option" where
  "isInt L v =
     (case v of
        Some (VNumber t) \<Rightarrow>
          let q = numberValue L t in
          if q = of_int \<lfloor>q\<rfloor> \<and> \<bar>\<lfloor>q\<rfloor>\<bar> \<le> 2 ^ 53 - 1 then Some \<lfloor>q\<rfloor> else None
      | _ \<Rightarrow> None)"

text \<open>The check of the shape of the claims, and what it leaves.\<close>

definition claims_of :: "'z session_lib_scheme \<Rightarrow> (js_string \<times> js_value) list \<Rightarrow> SessionClaims option" where
  "claims_of L c =
     (case (str_at c ''iss'', str_at c ''aud'', str_at c ''sub'', str_at c ''product'', str_at c ''jti'',
            isStrArray (map_of c (js ''accounts'')), isStrArray (map_of c (js ''scopes'')),
            isInt L (map_of c (js ''iat'')), isInt L (map_of c (js ''exp''))) of
        (Some iss, Some aud, Some sub, Some product, Some jti, Some accounts, Some scopes, Some iat, Some ex) \<Rightarrow>
          if map_of c (js ''nbf'') \<noteq> None \<and> isInt L (map_of c (js ''nbf'')) = None then None
          else Some \<lparr>ssSub = sub, ssAccounts = accounts, ssProduct = product, ssScopes = scopes, scIss = iss, scAud = aud,
                      scIat = iat, scNbf = isInt L (map_of c (js ''nbf'')), scExp = ex, scJti = jti\<rparr>
      | _ \<Rightarrow> None)"

definition session_guard :: "bool \<Rightarrow> SessionErrorCode \<Rightarrow> session_failure + unit" where
  "session_guard ok code = eguard ok (SessionError code)"

text \<open>The header and the signature: which key vouches for the payload.\<close>

definition signature_key :: "'z session_lib_scheme \<Rightarrow> js_string \<Rightarrow> js_string \<Rightarrow> js_string \<Rightarrow> KeySet \<Rightarrow> session_failure + VerificationKey" where
  "signature_key L h p s keys =
     ebind (parseJson L h) (\<lambda>header.
     ebind (session_guard (str_at header ''alg'' = Some SESSION_ALG) UnsupportedAlg) (\<lambda>_.
     ebind (session_guard (map_of header (js ''crit'') = None) Malformed) (\<lambda>_.
     case str_at header ''kid'' of
       None \<Rightarrow> Inl (SessionError UnknownKid)
     | Some kid \<Rightarrow>
         (case findKey keys kid of
            None \<Rightarrow> Inl (SessionError UnknownKid)
          | Some key \<Rightarrow>
              (case b64urlDecode L s of
                 None \<Rightarrow> Inl (SessionError Malformed)
               | Some sig \<Rightarrow>
                   ebind (session_guard (length sig = 64 \<and> ed25519Verify L sig (utf8 (h @ [46] @ p)) (vkPublicKey key) = Some True)
                     BadSignature) (\<lambda>_. Inr key))))))"

definition check_scopes :: "SessionClaims \<Rightarrow> VerifySessionOptions \<Rightarrow> bool" where
  "check_scopes c opts = list_all (\<lambda>scope. scope \<in> set (ssScopes c)) (case vsRequiredScopes opts of None \<Rightarrow> [] | Some rs \<Rightarrow> rs)"

definition check_claims :: "VerificationKey \<Rightarrow> VerifySessionOptions \<Rightarrow> SessionClaims \<Rightarrow> session_failure + SessionClaims" where
  "check_claims key opts c =
     (let now = nowSeconds (vsNow opts); leeway = (case vsLeewaySeconds opts of None \<Rightarrow> 30 | Some l \<Rightarrow> l) in
      ebind (session_guard (case vkNotAfter key of None \<Rightarrow> True | Some t \<Rightarrow> \<not> scIat c > t) KeyRetired) (\<lambda>_.
      ebind (session_guard (\<not> now \<ge> scExp c + leeway) Expired) (\<lambda>_.
      ebind (session_guard (case scNbf c of None \<Rightarrow> True | Some t \<Rightarrow> \<not> now + leeway < t) NotYetValid) (\<lambda>_.
      ebind (session_guard (\<not> now + leeway < scIat c) NotYetValid) (\<lambda>_.
      ebind (session_guard (scIss c = (case vsIssuer opts of None \<Rightarrow> DEFAULT_ISSUER | Some i \<Rightarrow> i)) WrongIssuer) (\<lambda>_.
      ebind (session_guard (case vsAudience opts of None \<Rightarrow> True | Some auds \<Rightarrow> scAud c \<in> set auds) WrongAudience) (\<lambda>_.
      ebind (session_guard (check_scopes c opts) InsufficientScope) (\<lambda>_. Inr c))))))))"

definition verifySession :: "'z session_lib_scheme \<Rightarrow> js_string \<Rightarrow> KeySet \<Rightarrow> VerifySessionOptions \<Rightarrow> session_failure + SessionClaims" where
  "verifySession L token keys opts =
     (if length token > MAX_TOKEN_LENGTH then Inl (SessionError Malformed)
      else case split_on 46 token of
        [h, p, s] \<Rightarrow>
          ebind (signature_key L h p s keys) (\<lambda>key.
          ebind (parseJson L p) (\<lambda>c.
          case claims_of L c of None \<Rightarrow> Inl (SessionError Malformed) | Some claims \<Rightarrow> check_claims key opts claims))
      | _ \<Rightarrow> Inl (SessionError Malformed))"

subsection \<open>The key ring\<close>

record SessionKeyRing =
  krVerification :: "(js_string \<times> VerificationKey) list"
  krActive :: SigningKey

definition newKeyRing :: "'z session_lib_scheme \<Rightarrow> SigningKey \<Rightarrow> VerificationKey list \<Rightarrow> SessionKeyRing" where
  "newKeyRing L act previous =
     \<lparr>krVerification = AList.update (skKid act) (toVerificationKey L act None)
        (fold (\<lambda>k m. AList.update (vkKid k) k m) previous []), krActive = act\<rparr>"

definition ring_rotate :: "'z session_lib_scheme \<Rightarrow> SigningKey \<Rightarrow> int option \<Rightarrow> SessionKeyRing \<Rightarrow> session_failure + SessionKeyRing" where
  "ring_rotate L nxt retireAt r =
     (if map_of (krVerification r) (skKid nxt) \<noteq> None then Inl (PlainError ''kid already used'')
      else
        let old = the (map_of (krVerification r) (skKid (krActive r)));
            m = (case retireAt of None \<Rightarrow> krVerification r | Some t \<Rightarrow> AList.update (vkKid old) (old\<lparr>vkNotAfter := Some t\<rparr>) (krVerification r))
        in Inr \<lparr>krVerification = AList.update (skKid nxt) (toVerificationKey L nxt None) m, krActive = nxt\<rparr>)"

definition ring_revoke :: "js_string \<Rightarrow> SessionKeyRing \<Rightarrow> session_failure + SessionKeyRing" where
  "ring_revoke kid r =
     (if kid = skKid (krActive r) then Inl (PlainError ''cannot revoke the active key; rotate first'')
      else Inr (r\<lparr>krVerification := AList.delete kid (krVerification r)\<rparr>))"

definition ring_issue :: "'z session_lib_scheme \<Rightarrow> js_string \<Rightarrow> SessionSubject \<Rightarrow> IssueSessionOptions \<Rightarrow> SessionKeyRing \<Rightarrow> session_failure + js_string" where
  "ring_issue L random subject opts r = issueSession L random subject (krActive r) opts"

definition ring_verify :: "'z session_lib_scheme \<Rightarrow> js_string \<Rightarrow> VerifySessionOptions \<Rightarrow> SessionKeyRing \<Rightarrow> session_failure + SessionClaims" where
  "ring_verify L token opts r = verifySession L token (KeyMap (krVerification r)) opts"

definition ring_jwks :: "'z session_lib_scheme \<Rightarrow> SessionKeyRing \<Rightarrow> Jwk list" where
  "ring_jwks L r = map (\<lambda>(_, k). toPublicJwk L k) (krVerification r)"

subsection \<open>Issued tokens verify\<close>

text \<open>
  Documented behaviour: base64url inverts and has no dot in its alphabet, a signature has 64 bytes and verifies under the
  public key, and the text of a safe integer is read as that integer (beyond 53 bits doubles round).
\<close>

definition safe_int :: "int \<Rightarrow> bool" where
  "safe_int i \<longleftrightarrow> \<bar>i\<bar> \<le> 2 ^ 53 - 1"

definition session_documented :: "'z session_lib_scheme \<Rightarrow> bool" where
  "session_documented L \<longleftrightarrow>
     (\<forall>b. b64urlDecode L (b64urlEncode L b) = Some b \<and> 46 \<notin> set (b64urlEncode L b)) \<and>
     (\<forall>m k. length k = 32 \<longrightarrow> length (ed25519Sign L m k) = 64 \<and> ed25519Verify L (ed25519Sign L m k) m (ed25519Public L k) = Some True) \<and>
     (\<forall>i. safe_int i \<longrightarrow> numberValue L (int_units i) = of_int i)"

lemma parse_encoded:
  assumes "session_documented L" and "plain_value (VObject kvs)"
  shows "parseJson L (encodeJson L (VObject kvs)) = Inr kvs"
  using assms stringify_text [OF assms(2)] json_roundtrip [OF assms(2)]
  by (simp add: parseJson_def encodeJson_def session_documented_def)

lemma plain_header: "\<exists>kvs. header_value kid = VObject kvs \<and> plain_value (VObject kvs) \<and> str_at kvs ''alg'' = Some SESSION_ALG \<and>
    map_of kvs (js ''crit'') = None \<and> str_at kvs ''kid'' = Some kid"
  by (simp add: header_value_def str_at_def)

lemma strings_read: "isStrArray (Some (VArray (map VString xs))) = Some xs"
  by (simp add: isStrArray_def comp_def) (induction xs; simp)

lemma claims_read:
  assumes "session_documented L" and "scNbf c = None" "safe_int (scIat c)" "safe_int (scExp c)"
  shows "\<exists>kvs. claims_value c = VObject kvs \<and> plain_value (VObject kvs) \<and> claims_of L kvs = Some c"
proof -
  have i: "isInt L (Some (VNumber (int_units i))) = Some i" if "safe_int i" for i
    using assms(1) that by (simp add: isInt_def session_documented_def safe_int_def)
  show ?thesis using assms i strings_read
    by (auto simp: claims_value_def claims_of_def str_at_def isInt_def [of _ None])
qed

lemma issueSession_ok:
  assumes "issueSession L random subject key opts = Inr token"
  obtains ttl where "1 \<le> ttl" "ttl \<le> 30 * 86400" "length (skSecretKey key) = 32"
    "token = (encodeJson L (header_value (skKid key)) @ [46] @ encodeJson L (claims_value (issued_claims subject opts random ttl))) @ [46] @
       b64urlEncode L (ed25519Sign L (utf8 (encodeJson L (header_value (skKid key)) @ [46] @
         encodeJson L (claims_value (issued_claims subject opts random ttl)))) (skSecretKey key))"
    "(case isTtlSeconds opts of None \<Rightarrow> Some 3600 | Some t \<Rightarrow> t) = Some ttl"
  using assms by (auto simp: issueSession_def Let_def ebind_eq_Inr split: option.splits if_splits)

text \<open>What becomes of an issued token is decided by its claims and the key found for it alone.\<close>

lemma issued_verified:
  assumes "session_documented L" and "issueSession L random subject key opts = Inr token"
    and "safe_int (nowSeconds (isNow opts))" "safe_int (nowSeconds (isNow opts) + 30 * 86400)" "length token \<le> MAX_TOKEN_LENGTH"
    and "\<And>vk. findKey keys (skKid key) = Some vk \<Longrightarrow> vkPublicKey vk = ed25519Public L (skSecretKey key)"
  obtains ttl where "(case isTtlSeconds opts of None \<Rightarrow> Some 3600 | Some t \<Rightarrow> t) = Some ttl" "1 \<le> ttl" "ttl \<le> 30 * 86400"
    and "verifySession L token keys vopts =
      (case findKey keys (skKid key) of None \<Rightarrow> Inl (SessionError UnknownKid)
       | Some vk \<Rightarrow> check_claims vk vopts (issued_claims subject opts random ttl))"
proof -
  obtain ttl where t: "1 \<le> ttl" "ttl \<le> 30 * 86400" "length (skSecretKey key) = 32"
    "token = (encodeJson L (header_value (skKid key)) @ [46] @ encodeJson L (claims_value (issued_claims subject opts random ttl))) @ [46] @
       b64urlEncode L (ed25519Sign L (utf8 (encodeJson L (header_value (skKid key)) @ [46] @
         encodeJson L (claims_value (issued_claims subject opts random ttl)))) (skSecretKey key))"
    "(case isTtlSeconds opts of None \<Rightarrow> Some 3600 | Some t \<Rightarrow> t) = Some ttl"
    using assms(2) by (rule issueSession_ok)
  define c where "c = issued_claims subject opts random ttl"
  define h p where "h = encodeJson L (header_value (skKid key))" and "p = encodeJson L (claims_value c)"
  have dots: "46 \<notin> set h" "46 \<notin> set p" "46 \<notin> set (b64urlEncode L s)" for s
    using assms(1) by (simp_all add: h_def p_def encodeJson_def session_documented_def)
  have sp: "split_on 46 token = [h, p, b64urlEncode L (ed25519Sign L (utf8 (h @ [46] @ p)) (skSecretKey key))]"
    using t(4) dots by (simp add: h_def [symmetric] p_def [symmetric] c_def [symmetric] split_on_append split_on_word)
  obtain hk where hk: "header_value (skKid key) = VObject hk" "plain_value (VObject hk)" "str_at hk ''alg'' = Some SESSION_ALG"
      "map_of hk (js ''crit'') = None" "str_at hk ''kid'' = Some (skKid key)"
    using plain_header by blast
  have "parseJson L h = Inr hk" using parse_encoded [OF assms(1) hk(2)] hk(1) by (simp add: h_def)
  then have sig: "signature_key L h p (b64urlEncode L (ed25519Sign L (utf8 (h @ [46] @ p)) (skSecretKey key))) keys =
      (case findKey keys (skKid key) of None \<Rightarrow> Inl (SessionError UnknownKid) | Some vk \<Rightarrow> Inr vk)"
    using hk assms(1,6) t(3) by (auto simp: signature_key_def session_guard_def session_documented_def split: option.splits)
  have "safe_int (scIat c)" "safe_int (scExp c)" "scNbf c = None"
    using assms(3,4) t(1,2) by (auto simp: c_def issued_claims_def Let_def safe_int_def)
  then obtain ck where ck: "claims_value c = VObject ck" "plain_value (VObject ck)" "claims_of L ck = Some c"
    using claims_read [OF assms(1)] by blast
  have "parseJson L p = Inr ck" using parse_encoded [OF assms(1) ck(2)] ck(1) by (simp add: p_def)
  then have "verifySession L token keys vopts =
      (case findKey keys (skKid key) of None \<Rightarrow> Inl (SessionError UnknownKid) | Some vk \<Rightarrow> check_claims vk vopts c)"
    using assms(5) sp sig ck(3) by (auto simp: verifySession_def split: option.splits)
  then show thesis using that t c_def by blast
qed

subsection \<open>Rotation and revocation\<close>

definition kids_ok :: "(js_string \<times> VerificationKey) list \<Rightarrow> bool" where
  "kids_ok m \<longleftrightarrow> distinct (map fst m) \<and> (\<forall>(kid, k) \<in> set m. vkKid k = kid)"

definition ring_ok :: "'z session_lib_scheme \<Rightarrow> SessionKeyRing \<Rightarrow> bool" where
  "ring_ok L r \<longleftrightarrow> kids_ok (krVerification r) \<and>
     map_of (krVerification r) (skKid (krActive r)) = Some (toVerificationKey L (krActive r) None)"

lemma kids_ok_Nil: "kids_ok []"
  by (simp add: kids_ok_def)

lemma kids_ok_update: "kids_ok m \<Longrightarrow> vkKid v = i \<Longrightarrow> kids_ok (AList.update i v m)"
  using set_update_subset [of i v m] by (auto simp: kids_ok_def distinct_update)

lemma kids_ok_delete: "kids_ok m \<Longrightarrow> kids_ok (AList.delete kid m)"
  by (auto simp: kids_ok_def AList.delete_eq distinct_map_filter)

lemma kids_ok_fold: "kids_ok m \<Longrightarrow> kids_ok (fold (\<lambda>k m. AList.update (vkKid k) k m) ks m)"
proof (induction ks arbitrary: m)
  case (Cons k ks)
  then show ?case using kids_ok_update [of m k "vkKid k"] by simp
qed simp

lemma ring_rotate_ok:
  assumes "ring_ok L r" and "ring_rotate L nxt retireAt r = Inr r'"
  shows "map_of (krVerification r) (skKid nxt) = None"
    and "krVerification r' = AList.update (skKid nxt) (toVerificationKey L nxt None)
      (case retireAt of None \<Rightarrow> krVerification r
       | Some t \<Rightarrow> AList.update (skKid (krActive r)) (toVerificationKey L (krActive r) (Some t)) (krVerification r))"
    and "krActive r' = nxt"
  using assms by (auto simp: ring_rotate_def ring_ok_def Let_def toVerificationKey_def split: if_splits option.splits)

text \<open>
  C38: the key ring stays in order. In a new ring, and after every rotation and revocation that succeeds, every kid has one
  key, under its own name, and the active key is there without an end.
\<close>

theorem key_ring_invariant:
  "ring_ok L (newKeyRing L act previous) \<and>
   (ring_ok L r \<longrightarrow> ring_rotate L nxt retireAt r = Inr r' \<longrightarrow> ring_ok L r') \<and>
   (ring_ok L r \<longrightarrow> ring_revoke kid r = Inr r'' \<longrightarrow> ring_ok L r'')"
proof (intro conjI impI)
  show "ring_ok L (newKeyRing L act previous)"
    by (simp add: ring_ok_def newKeyRing_def kids_ok_update kids_ok_fold kids_ok_Nil update_conv' toVerificationKey_def)
next
  assume r: "ring_ok L r" "ring_rotate L nxt retireAt r = Inr r'"
  then have "kids_ok (krVerification r)" by (simp add: ring_ok_def)
  then show "ring_ok L r'"
    using ring_rotate_ok [OF r] by (simp add: ring_ok_def kids_ok_update update_conv' toVerificationKey_def split: option.splits)
next
  assume "ring_ok L r" "ring_revoke kid r = Inr r''"
  then show "ring_ok L r''"
    by (auto simp: ring_ok_def ring_revoke_def kids_ok_delete delete_conv' split: if_splits)
qed

text \<open>
  C37: a token lives as long as its key. A token the ring issues claims to live for the seconds asked for, an hour by
  default and thirty days at most. It verifies in the ring by its claims alone; after a rotation
  it still does, except that it is refused as retired when it was issued after the end given to its key; and once its key
  is revoked it is unknown, whatever it claims.
\<close>

theorem token_follows_key:
  assumes "session_documented L" and "ring_ok L r" and "ring_issue L random subject opts r = Inr token"
    and "safe_int (nowSeconds (isNow opts))" "safe_int (nowSeconds (isNow opts) + 30 * 86400)" "length token \<le> MAX_TOKEN_LENGTH"
    and "ring_rotate L nxt retireAt r = Inr r'" and "ring_revoke (skKid (krActive r)) r' = Inr r''"
  shows "\<exists>ttl. (case isTtlSeconds opts of None \<Rightarrow> Some 3600 | Some t \<Rightarrow> t) = Some ttl \<and> 1 \<le> ttl \<and> ttl \<le> 30 * 86400 \<and>
    (let c = issued_claims subject opts random ttl; k = krActive r in
     ring_verify L token vopts r = check_claims (toVerificationKey L k None) vopts c \<and>
     ring_verify L token vopts r' = check_claims (toVerificationKey L k retireAt) vopts c \<and>
     ring_verify L token vopts r'' = Inl (SessionError UnknownKid))"
proof -
  let ?k = "krActive r"
  have i: "issueSession L random subject ?k opts = Inr token" using assms(3) by (simp add: ring_issue_def)
  have n: "skKid nxt \<noteq> skKid ?k" using ring_rotate_ok(1) [OF assms(2,7)] assms(2) by (auto simp: ring_ok_def)
  have f: "findKey (KeyMap (krVerification r)) (skKid ?k) = Some (toVerificationKey L ?k None)"
    "findKey (KeyMap (krVerification r')) (skKid ?k) = Some (toVerificationKey L ?k retireAt)"
    "findKey (KeyMap (krVerification r'')) (skKid ?k) = None"
    using assms(2,8) ring_rotate_ok [OF assms(2,7)] n
    by (auto simp: findKey_def ring_ok_def ring_revoke_def update_conv' delete_conv' split: option.splits if_splits)
  have k: "vkPublicKey (toVerificationKey L ?k e) = ed25519Public L (skSecretKey ?k)" for e by (simp add: toVerificationKey_def)
  note v = issued_verified [OF assms(1) i assms(4-6)]
  obtain ttl where t: "(case isTtlSeconds opts of None \<Rightarrow> Some 3600 | Some t \<Rightarrow> t) = Some ttl" "1 \<le> ttl" "ttl \<le> 30 * 86400"
      "verifySession L token (KeyMap (krVerification r)) vopts = check_claims (toVerificationKey L ?k None) vopts (issued_claims subject opts random ttl)"
    using v [of "KeyMap (krVerification r)" vopts] f k by auto
  moreover have "verifySession L token (KeyMap (krVerification r')) vopts
      = check_claims (toVerificationKey L ?k retireAt) vopts (issued_claims subject opts random ttl)"
    using v [of "KeyMap (krVerification r')" vopts] f k t(1) by auto
  moreover have "verifySession L token (KeyMap (krVerification r'')) vopts = Inl (SessionError UnknownKid)"
    using v [of "KeyMap (krVerification r'')" vopts] f by auto
  ultimately show ?thesis by (auto simp: ring_verify_def Let_def)
qed

lemma option_case_Inr: "(case m of None \<Rightarrow> Inl e | Some x \<Rightarrow> f x) = Inr y \<longleftrightarrow> (\<exists>x. m = Some x \<and> f x = Inr y)"
  by (cases m) auto

text \<open>The key a kid stands for, and the claims a payload states.\<close>

definition key_named :: "KeySet \<Rightarrow> js_string \<Rightarrow> VerificationKey \<Rightarrow> bool" where
  "key_named keys kid key \<longleftrightarrow>
     (case keys of
        KeyMap m \<Rightarrow> map_of m kid = Some key
      | KeyList ks \<Rightarrow> (\<exists>i < length ks. key = ks ! i \<and> vkKid key = kid \<and> (\<forall>j < i. vkKid (ks ! j) \<noteq> kid))
      | OneKey k \<Rightarrow> key = k \<and> vkKid k = kid)"

definition claims_stated :: "'z session_lib_scheme \<Rightarrow> (js_string \<times> js_value) list \<Rightarrow> SessionClaims \<Rightarrow> bool" where
  "claims_stated L c claims \<longleftrightarrow>
     str_at c ''iss'' = Some (scIss claims) \<and> str_at c ''aud'' = Some (scAud claims) \<and> str_at c ''sub'' = Some (ssSub claims) \<and>
     str_at c ''product'' = Some (ssProduct claims) \<and> str_at c ''jti'' = Some (scJti claims) \<and>
     isStrArray (map_of c (js ''accounts'')) = Some (ssAccounts claims) \<and>
     isStrArray (map_of c (js ''scopes'')) = Some (ssScopes claims) \<and>
     isInt L (map_of c (js ''iat'')) = Some (scIat claims) \<and> isInt L (map_of c (js ''exp'')) = Some (scExp claims) \<and>
     (case map_of c (js ''nbf'') of None \<Rightarrow> scNbf claims = None | Some v \<Rightarrow> \<exists>t. isInt L (Some v) = Some t \<and> scNbf claims = Some t)"

lemma findKey_iff: "findKey keys kid = Some key \<longleftrightarrow> key_named keys kid key"
  by (cases keys) (auto simp: findKey_def key_named_def find_Some_iff)

lemma claims_of_iff: "claims_of L c = Some claims \<longleftrightarrow> claims_stated L c claims"
proof -
  have n: "isInt L None = None" by (simp add: isInt_def)
  show ?thesis
    unfolding claims_of_def claims_stated_def by (cases claims) (auto simp: n split: option.splits)
qed

text \<open>
  C36: what a session token is accepted for. A token verifies, with certain claims, exactly when it has at most 8192 units
  and three parts, the header names EdDSA, no critical extension and a known key: the entry of a map under the kid, or the
  first key of a list (or the single key) that carries it; the signature over the first two parts is that key's, the payload
  states the claims in their types, and the claims are within the key's life, their own times and the audience, issuer
  and scopes asked for.
\<close>

theorem verifySession_iff:
  "verifySession L token keys opts = Inr claims \<longleftrightarrow>
    (\<exists>h p s header c kid key sig.
       length token \<le> MAX_TOKEN_LENGTH \<and> token = h @ [46] @ p @ [46] @ s \<and> 46 \<notin> set h \<and> 46 \<notin> set p \<and> 46 \<notin> set s \<and>
       parseJson L h = Inr header \<and> str_at header ''alg'' = Some SESSION_ALG \<and> map_of header (js ''crit'') = None \<and>
       str_at header ''kid'' = Some kid \<and> key_named keys kid key \<and> b64urlDecode L s = Some sig \<and> length sig = 64 \<and>
       ed25519Verify L sig (utf8 (h @ [46] @ p)) (vkPublicKey key) = Some True \<and>
       parseJson L p = Inr c \<and> claims_stated L c claims \<and>
       (case vkNotAfter key of None \<Rightarrow> True | Some t \<Rightarrow> scIat claims \<le> t) \<and>
       (let now = nowSeconds (vsNow opts); leeway = (case vsLeewaySeconds opts of None \<Rightarrow> 30 | Some l \<Rightarrow> l) in
        now < scExp claims + leeway \<and> scIat claims \<le> now + leeway \<and> (case scNbf claims of None \<Rightarrow> True | Some t \<Rightarrow> t \<le> now + leeway)) \<and>
       scIss claims = (case vsIssuer opts of None \<Rightarrow> DEFAULT_ISSUER | Some i \<Rightarrow> i) \<and>
       (case vsAudience opts of None \<Rightarrow> True | Some auds \<Rightarrow> scAud claims \<in> set auds) \<and>
       (case vsRequiredScopes opts of None \<Rightarrow> True | Some rs \<Rightarrow> set rs \<subseteq> set (ssScopes claims)))"
proof -
  have parts: "split_on 46 token = [h, p, s] \<longleftrightarrow> token = h @ [46] @ p @ [46] @ s \<and> 46 \<notin> set h \<and> 46 \<notin> set p \<and> 46 \<notin> set s" for h p s
  proof
    assume sp: "split_on 46 token = [h, p, s]"
    then show "token = h @ [46] @ p @ [46] @ s \<and> 46 \<notin> set h \<and> 46 \<notin> set p \<and> 46 \<notin> set s"
      using join_split_on [of 46 token] split_on_parts [of _ 46 token] by auto
  qed (simp add: split_on_append split_on_word)
  have sig: "signature_key L h p s keys = Inr key \<longleftrightarrow>
      (\<exists>header kid sig. parseJson L h = Inr header \<and> str_at header ''alg'' = Some SESSION_ALG \<and> map_of header (js ''crit'') = None \<and>
       str_at header ''kid'' = Some kid \<and> findKey keys kid = Some key \<and> b64urlDecode L s = Some sig \<and> length sig = 64 \<and>
       ed25519Verify L sig (utf8 (h @ [46] @ p)) (vkPublicKey key) = Some True)" for h p s key
    unfolding signature_key_def session_guard_def by (auto simp: ebind_eq_Inr option_case_Inr)
  have claims: "check_claims key opts c = Inr claims \<longleftrightarrow> c = claims \<and>
       (case vkNotAfter key of None \<Rightarrow> True | Some t \<Rightarrow> scIat claims \<le> t) \<and>
       (let now = nowSeconds (vsNow opts); leeway = (case vsLeewaySeconds opts of None \<Rightarrow> 30 | Some l \<Rightarrow> l) in
        now < scExp claims + leeway \<and> scIat claims \<le> now + leeway \<and> (case scNbf claims of None \<Rightarrow> True | Some t \<Rightarrow> t \<le> now + leeway)) \<and>
       scIss claims = (case vsIssuer opts of None \<Rightarrow> DEFAULT_ISSUER | Some i \<Rightarrow> i) \<and>
       (case vsAudience opts of None \<Rightarrow> True | Some auds \<Rightarrow> scAud claims \<in> set auds) \<and>
       (case vsRequiredScopes opts of None \<Rightarrow> True | Some rs \<Rightarrow> set rs \<subseteq> set (ssScopes claims))" for key c
    by (auto simp: check_claims_def session_guard_def check_scopes_def ebind_eq_Inr Let_def list_all_iff not_less not_le split: option.splits)
  have "verifySession L token keys opts = Inr claims \<longleftrightarrow> length token \<le> MAX_TOKEN_LENGTH \<and>
      (\<exists>h p s key c c'. split_on 46 token = [h, p, s] \<and> signature_key L h p s keys = Inr key \<and> parseJson L p = Inr c \<and>
         claims_of L c = Some c' \<and> check_claims key opts c' = Inr claims)"
    by (auto simp: verifySession_def ebind_eq_Inr option_case_Inr split: list.splits)
  then show ?thesis unfolding parts sig claims findKey_iff claims_of_iff by blast
qed

text \<open>A concrete instance: bytes are written in units beyond the dot, numbers are read in decimal.\<close>

definition unit_char :: "16 word \<Rightarrow> char" where
  "unit_char u = char_of (unat u)"

definition number_example :: "js_string \<Rightarrow> rat" where
  "number_example t = (case t of
     c # r \<Rightarrow> if c = 45 then - of_nat (num_of_digits 0 (map unit_char r)) else of_nat (num_of_digits 0 (map unit_char t))
   | [] \<Rightarrow> 0)"

definition session_example :: session_lib where
  "session_example =
     \<lparr>b64urlEncode = map (\<lambda>b. word_of_nat (unat b + 256)), b64urlDecode = (\<lambda>s. Some (map (\<lambda>u. word_of_nat (unat u - 256)) s)),
        ed25519Public = id, ed25519Sign = (\<lambda>m k. take 32 (m @ replicate 32 0) @ k),
        ed25519Verify = (\<lambda>sig m k. Some (sig = take 32 (m @ replicate 32 0) @ k)),
        numberValue = number_example\<rparr>"

lemma unit_char_js: "map unit_char (js s) = s"
proof -
  have "unit_char (word_of_nat (of_char c)) = c" for c
  proof -
    have "(of_char c :: nat) < 65536" by (rule less_trans [OF nat_of_char_less_256]) simp
    then have "unat (word_of_nat (of_char c) :: 16 word) = of_char c" by (simp add: unat_of_nat)
    then show ?thesis by (simp add: unit_char_def)
  qed
  then show ?thesis by (simp add: js_def comp_def)
qed

lemma number_example: "number_example (int_units i) = of_int i"
proof -
  have nat: "of_nat (num_of_digits 0 (map unit_char (js (digits_of_nat n)))) = (of_nat n :: rat)" for n
    by (simp add: unit_char_js num_digits_of_nat)
  have "number_example (js (digits_of_nat n)) = of_nat n" for n
  proof -
    obtain c t where c: "js (digits_of_nat n) = c # t" "digit_unit c"
      using digit_units [of n] by (cases "js (digits_of_nat n)") auto
    then have "c \<noteq> 45" by (auto simp: digit_unit_def)
    then show ?thesis using nat [of n] c(1) by (simp add: number_example_def)
  qed
  moreover have "number_example (45 # js (digits_of_nat n)) = - of_nat n" for n
    using nat [of n] by (simp add: number_example_def)
  ultimately show ?thesis by (simp add: int_units_def)
qed

lemma session_example_documented: "session_documented session_example"
proof -
  have u: "unat (word_of_nat (unat b + 256) :: 16 word) = unat b + 256" for b :: "8 word"
    using unat_byte_less [of b] by (subst unat_of_nat) (simp del: unat_byte_less)
  have "(46 :: 16 word) \<noteq> word_of_nat (unat b + 256)" for b :: "8 word"
  proof
    assume "(46 :: 16 word) = word_of_nat (unat b + 256)"
    then have "unat (46 :: 16 word) = unat b + 256" using u [of b] by metis
    then show False by simp
  qed
  then have "46 \<notin> set (b64urlEncode session_example b)" for b
    by (auto simp: session_example_def image_iff)
  moreover have "b64urlDecode session_example (b64urlEncode session_example b) = Some b" for b
  proof -
    have "map ((\<lambda>u. word_of_nat (unat u - 256)) \<circ> (\<lambda>b. word_of_nat (unat b + 256) :: 16 word)) b = b"
      by (rule map_idI) (simp add: u del: of_nat_add)
    then show ?thesis by (simp add: session_example_def del: of_nat_add)
  qed
  ultimately show ?thesis
    by (auto simp: session_documented_def session_example_def number_example min_def)
qed

definition key_example :: "string \<Rightarrow> SigningKey" where
  "key_example kid = \<lparr>skKid = js kid, skSecretKey = replicate 32 0\<rparr>"

definition subject_example :: SessionSubject where
  "subject_example = \<lparr>ssSub = js ''s'', ssAccounts = [], ssProduct = js ''mint'', ssScopes = []\<rparr>"

definition issue_example :: IssueSessionOptions where
  "issue_example = \<lparr>isIssuer = None, isAudience = None, isTtlSeconds = None, isNow = 1000, isJti = None\<rparr>"

definition verify_example :: VerifySessionOptions where
  "verify_example = \<lparr>vsIssuer = None, vsAudience = None, vsNow = 2000, vsLeewaySeconds = None, vsRequiredScopes = None\<rparr>"

definition ring_example :: SessionKeyRing where
  "ring_example = newKeyRing session_example (key_example ''a'') []"
lemma ring_example_ok: "ring_ok session_example ring_example"
  using key_ring_invariant [of session_example "key_example ''a''" "[]"] by (simp add: ring_example_def)

text \<open>A rotation and a revocation of the ring above.\<close>

lemma rotate_example:
  obtains r' where "ring_rotate session_example (key_example ''b'') (Some 5) ring_example = Inr r'"
    and "skKid (krActive r') \<noteq> skKid (krActive ring_example)"
proof -
  have "js ''b'' \<noteq> js ''a''" by (simp add: js_eq_iff)
  then show thesis using that
    by (simp add: ring_rotate_def ring_example_def newKeyRing_def key_example_def Let_def)
qed

lemma revoke_example:
  assumes "skKid (krActive r') \<noteq> skKid (krActive ring_example)"
  obtains r'' where "ring_revoke (skKid (krActive ring_example)) r' = Inr r''"
  using assms that by (simp add: ring_revoke_def)

lemma utf8_length: "length (utf8 s) \<le> 4 * length s"
proof -
  have p: "length (utf8_point c) \<le> 4" for c by (simp add: utf8_point_def Let_def)
  have "length (concat (map utf8_point cs)) \<le> 4 * length cs" for cs
  proof (induction cs)
    case (Cons c cs)
    then show ?case using p [of c] by simp
  qed simp
  moreover have "length (utf16_points s) \<le> length s" by (induction s rule: utf16_points.induct) (auto simp: Let_def)
  ultimately show ?thesis unfolding utf8_def using le_trans mult_le_mono2 by blast
qed

lemma quote_units_length: "length (quote_units s) \<le> 6 * length s"
proof -
  have u: "length (unicode_escape u) = 6" "length (escape_unit u) \<le> 6" for u
    by (simp_all add: escape_unit_def unicode_escape_def Let_def)
  show ?thesis
  proof (induction s rule: quote_units.induct)
    case (3 a b s)
    then show ?case using u(1) [of a] u(2) [of a] by auto
  qed (use u in auto)
qed

lemma quote_text_length: "length (quote_text s) \<le> 2 + 6 * length s"
  using quote_units_length [of s] by (simp add: quote_text_def)

lemma issue_ring_example:
  obtains token where "ring_issue session_example (js ''j'') subject_example issue_example ring_example = Inr token"
    and "length token \<le> MAX_TOKEN_LENGTH"
proof -
  let ?c = "claims_value (issued_claims subject_example issue_example (js ''j'') 3600)" and ?h = "header_value (js ''a'')"
  have r: "js ''s'' \<noteq> []" "KID_RE (js ''a'')" "SLUG_RE (js ''mint'')" by (simp_all add: KID_RE_def SLUG_RE_def js_def unit_of_def)
  moreover have q: "length (quote_text (js s)) \<le> 2 + 6 * length s" for s using quote_text_length [of "js s"] by (simp add: length_js)
  moreover have "length (stringify ?h) \<le> 200"
    using q [of "''alg''"] q [of "''EdDSA''"] q [of "''typ''"] q [of "''JWT''"] q [of "''kid''"] q [of "''a''"]
    by (simp add: header_value_def SESSION_ALG_def)
  moreover have d: "length (digits_of_nat (Suc 0)) = 1" "length (digits_of_nat 3601) = 4" by (simp_all add: digits_of_nat.simps)
  moreover have "length (stringify ?c) \<le> 700"
    using d q [of "''iss''"] q [of "''blockspace-id''"] q [of "''aud''"] q [of "''mint''"] q [of "''sub''"] q [of "''s''"]
      q [of "''accounts''"] q [of "''product''"] q [of "''scopes''"] q [of "''iat''"] q [of "''exp''"] q [of "''jti''"] q [of "''j''"]
    by (simp add: claims_value_def issued_claims_def subject_example_def issue_example_def Let_def DEFAULT_ISSUER_def nowSeconds_def int_units_def)
  ultimately have e: "length (encodeJson session_example ?h) \<le> 800" "length (encodeJson session_example ?c) \<le> 2800"
    using utf8_length [of "stringify ?h"] utf8_length [of "stringify ?c"] by (simp_all add: encodeJson_def session_example_def)
  define i where "i = encodeJson session_example ?h @ [46] @ encodeJson session_example ?c"
  have "ring_issue session_example (js ''j'') subject_example issue_example ring_example
      = Inr (i @ [46] @ b64urlEncode session_example (ed25519Sign session_example (utf8 i) (replicate 32 0)))"
    using r by (simp add: ring_issue_def ring_example_def newKeyRing_def issueSession_def key_example_def subject_example_def
        issue_example_def Let_def i_def)
  moreover have "length i \<le> 3601" using e by (simp add: i_def)
  ultimately show thesis using that by (simp add: session_example_def MAX_TOKEN_LENGTH_def)
qed

text \<open>The ring above, a key taken in from before, rotated and the old key revoked.\<close>

theorem key_ring_invariant_witness:
  "\<exists>r' r''. ring_rotate session_example (key_example ''b'') (Some 5) ring_example = Inr r' \<and>
     ring_revoke (skKid (krActive ring_example)) r' = Inr r'' \<and> ring_ok session_example r' \<and> ring_ok session_example r''"
proof -
  obtain r' where r': "ring_rotate session_example (key_example ''b'') (Some 5) ring_example = Inr r'"
      "skKid (krActive r') \<noteq> skKid (krActive ring_example)"
    by (rule rotate_example)
  obtain r'' where r'': "ring_revoke (skKid (krActive ring_example)) r' = Inr r''" using revoke_example [OF r'(2)] by blast
  have "ring_ok session_example r'" using key_ring_invariant [of session_example] ring_example_ok r'(1) by blast
  moreover from this have "ring_ok session_example r''" using key_ring_invariant [of session_example] r'' by blast
  ultimately show ?thesis using r'(1) r'' by blast
qed

theorem token_follows_key_witness:
  "\<exists>token r' r''. ring_issue session_example (js ''j'') subject_example issue_example ring_example = Inr token \<and>
     ring_rotate session_example (key_example ''b'') (Some 5) ring_example = Inr r' \<and>
     ring_revoke (skKid (krActive ring_example)) r' = Inr r'' \<and>
     ring_verify session_example token verify_example r'' = Inl (SessionError UnknownKid)"
proof -
  obtain token where t: "ring_issue session_example (js ''j'') subject_example issue_example ring_example = Inr token"
      "length token \<le> MAX_TOKEN_LENGTH"
    by (rule issue_ring_example)
  obtain r' where r': "ring_rotate session_example (key_example ''b'') (Some 5) ring_example = Inr r'"
      "skKid (krActive r') \<noteq> skKid (krActive ring_example)"
    by (rule rotate_example)
  obtain r'' where r'': "ring_revoke (skKid (krActive ring_example)) r' = Inr r''" using revoke_example [OF r'(2)] by blast
  have "safe_int (nowSeconds (isNow issue_example))" "safe_int (nowSeconds (isNow issue_example) + 30 * 86400)"
    by (simp_all add: issue_example_def nowSeconds_def safe_int_def)
  then have "ring_verify session_example token verify_example r'' = Inl (SessionError UnknownKid)"
    using token_follows_key [OF session_example_documented ring_example_ok t(1) _ _ t(2) r'(1) r'', of verify_example]
    by (auto simp: Let_def)
  then show ?thesis using t(1) r'(1) r'' by blast
qed

end
