(* ===== verification/EdgeIp.thy ===== *)
theory EdgeIp imports Prelude JsSplit begin

text \<open>
  IP literals and CIDR blocks (\<open>ip.ts\<close> of \<open>platform/edge/src\<close>). Header values are byte strings, hence a \<open>string\<close>; the
  \<open>bigint\<close> of an address is a \<open>nat\<close>, on which shifts by multiples of eight are written as multiplication and division.
\<close>

subsection \<open>Literals\<close>

datatype ip_version = V4 | V6

record ParsedIp =
  ipVersion :: ip_version
  ipValue :: nat

definition text_space :: "char \<Rightarrow> bool" where
  "text_space c = (let n = of_char c :: nat in (9 \<le> n \<and> n \<le> 13) \<or> n = 32 \<or> n = 160)"

definition trim_text :: "string \<Rightarrow> string" where
  "trim_text s = rev (dropWhile text_space (rev (dropWhile text_space s)))"

definition V4_PART :: "string \<Rightarrow> bool" where
  "V4_PART p = (p = ''0'' \<or> (p \<noteq> [] \<and> length p \<le> 3 \<and> list_all is_digit p \<and> hd p \<noteq> CHR ''0''))"

primrec v4_value :: "nat \<Rightarrow> string list \<Rightarrow> nat option" where
  "v4_value v [] = Some v"
| "v4_value v (p # ps) =
     (if \<not> V4_PART p then None
      else let n = num_of_digits 0 p in if n > 255 then None else v4_value (v * 2 ^ 8 + n) ps)"

definition parseV4 :: "string \<Rightarrow> nat option" where
  "parseV4 s = (let parts = split_on CHR ''.'' s in if length parts \<noteq> 4 then None else v4_value 0 parts)"

text \<open>\<open>s.split('::')\<close>: separators are found from the left and do not overlap.\<close>

fun split_twice :: "'a \<Rightarrow> 'a list \<Rightarrow> 'a list list" where
  "split_twice c [] = [[]]"
| "split_twice c [x] = [[x]]"
| "split_twice c (x # y # s) =
     (if x = c \<and> y = c then [] # split_twice c s
      else case split_twice c (y # s) of [] \<Rightarrow> [[x]] | w # ws \<Rightarrow> (x # w) # ws)"

definition V6_GROUP :: "string \<Rightarrow> bool" where
  "V6_GROUP g = (1 \<le> length g \<and> length g \<le> 4 \<and> list_all is_hex g)"

primrec num_of_hex :: "nat \<Rightarrow> string \<Rightarrow> nat" where
  "num_of_hex acc [] = acc"
| "num_of_hex acc (c # cs) = num_of_hex (16 * acc + the (hex_val c)) cs"

primrec v6_groups :: "string list \<Rightarrow> nat list option" where
  "v6_groups [] = Some []"
| "v6_groups (g # gs) =
     (if \<not> V6_GROUP g then None else map_option (Cons (num_of_hex 0 g)) (v6_groups gs))"

definition parse_half :: "string \<Rightarrow> nat list option" where
  "parse_half h = (if h = [] then Some [] else v6_groups (split_on CHR '':'' h))"

text \<open>The embedded IPv4 address at the end: its two groups, and what is left of the text.\<close>

definition v6_tail :: "string \<Rightarrow> (nat list \<times> string) option" where
  "v6_tail str =
     (if CHR ''.'' \<in> set str \<and> CHR '':'' \<in> set str
      then
        let last = rev (takeWhile (\<lambda>c. c \<noteq> CHR '':'') (rev str));
            prefix = take (length str - length last) str in
        case parseV4 last of
          None \<Rightarrow> None
        | Some v4 \<Rightarrow>
            Some ([v4 div 2 ^ 16, v4 mod 2 ^ 16],
              if take 2 (rev prefix) = ''::'' then prefix else take (length prefix - 1) prefix)
      else Some ([], str))"

primrec v6_value :: "nat \<Rightarrow> nat list \<Rightarrow> nat" where
  "v6_value v [] = v"
| "v6_value v (g # gs) = v6_value (v * 2 ^ 16 + g) gs"

definition parseV6 :: "string \<Rightarrow> nat option" where
  "parseV6 s =
     (case v6_tail (takeWhile (\<lambda>c. c \<noteq> CHR ''%'') s) of
        None \<Rightarrow> None
      | Some (tail, str) \<Rightarrow>
          let halves = split_twice CHR '':'' str in
          if length halves > 2 then None
          else
            case (parse_half (halves ! 0), if length halves = 2 then parse_half (halves ! 1) else Some []) of
              (Some head, Some rest) \<Rightarrow>
                let total = length head + length rest + length tail in
                if length halves = 2
                then (if total > 7 then None
                      else Some (v6_value 0 (head @ replicate (8 - total) 0 @ rest @ tail)))
                else (if total \<noteq> 8 then None else Some (v6_value 0 (head @ tail)))
            | _ \<Rightarrow> None)"

definition V4_MAPPED_PREFIX :: nat where
  "V4_MAPPED_PREFIX = 0xffff * 2 ^ 32"

definition ip_literal :: "string \<Rightarrow> ParsedIp option" where
  "ip_literal s =
     (if length s = 0 \<or> length s > 64 then None
      else if CHR '':'' \<notin> set s then map_option (\<lambda>v. \<lparr>ipVersion = V4, ipValue = v\<rparr>) (parseV4 s)
      else case parseV6 s of
             None \<Rightarrow> None
           | Some v \<Rightarrow>
               if v div 2 ^ 32 = 0xffff \<and> v - v mod 2 ^ 32 = V4_MAPPED_PREFIX
               then Some \<lparr>ipVersion = V4, ipValue = v mod 2 ^ 32\<rparr>
               else Some \<lparr>ipVersion = V6, ipValue = v\<rparr>)"

definition parseIp :: "string \<Rightarrow> ParsedIp option" where
  "parseIp input =
     (let s = trim_text input in
      ip_literal (if s \<noteq> [] \<and> hd s = CHR ''['' \<and> last s = CHR '']'' then take (length s - 2) (drop 1 s) else s))"

text \<open>\<open>n.toString(16)\<close>.\<close>

fun hex_of_nat :: "nat \<Rightarrow> string" where
  "hex_of_nat n = (if n < 16 then [hex_digit n] else hex_of_nat (n div 16) @ [hex_digit (n mod 16)])"

declare hex_of_nat.simps [simp del]

definition formatIp :: "ParsedIp \<Rightarrow> string" where
  "formatIp ip =
     (case ipVersion ip of
        V4 \<Rightarrow> join_on CHR ''.'' (map (\<lambda>s. digits_of_nat (ipValue ip div 2 ^ s mod 2 ^ 8)) [24, 16, 8, 0])
      | V6 \<Rightarrow> join_on CHR '':'' (map (\<lambda>i. hex_of_nat (ipValue ip div 2 ^ (i * 16) mod 2 ^ 16)) (rev [0..<8])))"

subsection \<open>Blocks\<close>

record Cidr =
  cdVersion :: ip_version
  cdBase :: nat
  cdBits :: nat

definition version_bits :: "ip_version \<Rightarrow> nat" where
  "version_bits v = (case v of V4 \<Rightarrow> 32 | V6 \<Rightarrow> 128)"

text \<open>An unreadable number of bits and one that is too long are both refused.\<close>

definition parseCidr :: "string \<Rightarrow> string + Cidr" where
  "parseCidr input =
     (let parts = split_on CHR ''/'' input in
      if length parts > 2 then Inl ''invalid CIDR''
      else case parseIp (parts ! 0) of
             None \<Rightarrow> Inl ''invalid CIDR''
           | Some ip \<Rightarrow>
               let mx = version_bits (ipVersion ip);
                   bits = (if length parts = 1 then Some mx
                           else let b = parts ! 1 in
                             if 1 \<le> length b \<and> length b \<le> 3 \<and> list_all is_digit b then Some (num_of_digits 0 b) else None) in
               case bits of
                 None \<Rightarrow> Inl ''invalid CIDR''
               | Some n \<Rightarrow>
                   if n > mx then Inl ''invalid CIDR''
                   else Inr \<lparr>cdVersion = ipVersion ip, cdBase = ipValue ip div 2 ^ (mx - n) * 2 ^ (mx - n), cdBits = n\<rparr>)"

definition cidrContains :: "Cidr \<Rightarrow> ParsedIp \<Rightarrow> bool" where
  "cidrContains c ip =
     (if cdVersion c \<noteq> ipVersion ip then False
      else let shift = version_bits (ipVersion ip) - cdBits c in ipValue ip div 2 ^ shift * 2 ^ shift = cdBase c)"

subsection \<open>Round trips\<close>

text \<open>The values \<open>parseIp\<close> answers: of the width of their version, and never an IPv4 address in IPv6 clothes.\<close>

definition valid_ip :: "ParsedIp \<Rightarrow> bool" where
  "valid_ip ip \<longleftrightarrow>
     (case ipVersion ip of V4 \<Rightarrow> ipValue ip < 2 ^ 32 | V6 \<Rightarrow> ipValue ip < 2 ^ 128 \<and> ipValue ip div 2 ^ 32 \<noteq> 0xffff)"

lemma v4_value_less: "v4_value v ps = Some r \<Longrightarrow> r < (v + 1) * 256 ^ length ps"
proof (induction ps arbitrary: v)
  case (Cons p ps)
  then have n: "num_of_digits 0 p \<le> 255" "v4_value (v * 2 ^ 8 + num_of_digits 0 p) ps = Some r"
    by (simp_all add: Let_def split: if_splits)
  have "r < (v * 2 ^ 8 + num_of_digits 0 p + 1) * 256 ^ length ps" using Cons.IH [OF n(2)] .
  also have "\<dots> \<le> (v + 1) * 256 * 256 ^ length ps" using n(1) by (intro mult_le_mono1) simp
  finally show ?case by (simp add: algebra_simps)
qed simp

lemma parseV4_less: "parseV4 s = Some v \<Longrightarrow> v < 2 ^ 32"
  using v4_value_less [of 0 "split_on CHR ''.'' s" v] by (auto simp: parseV4_def Let_def split: if_splits)

lemma num_of_hex_less: "list_all is_hex cs \<Longrightarrow> num_of_hex acc cs < (acc + 1) * 16 ^ length cs"
proof (induction cs arbitrary: acc)
  case (Cons c cs)
  then obtain v where v: "hex_val c = Some v" by (auto simp: is_hex_def)
  have "list_all is_hex cs" using Cons.prems by simp
  then have "num_of_hex (16 * acc + v) cs < (16 * acc + v + 1) * 16 ^ length cs" by (rule Cons.IH)
  also have "\<dots> \<le> (acc + 1) * 16 * 16 ^ length cs" using hex_val_less [OF v] by (intro mult_le_mono1) simp
  finally show ?case using v by (simp add: algebra_simps)
qed simp

lemma v6_groups_less: "v6_groups gs = Some ns \<Longrightarrow> n \<in> set ns \<Longrightarrow> n < 2 ^ 16"
proof (induction gs arbitrary: ns)
  case (Cons g gs)
  then obtain ms where g: "V6_GROUP g" "v6_groups gs = Some ms" "ns = num_of_hex 0 g # ms" by (auto split: if_splits)
  have "num_of_hex 0 g < 16 ^ length g" using num_of_hex_less [of g 0] g(1) by (simp add: V6_GROUP_def)
  also have "\<dots> \<le> 16 ^ 4" using g(1) unfolding V6_GROUP_def by (intro power_increasing) auto
  finally have "num_of_hex 0 g < 2 ^ 16" by simp
  then show ?case using Cons g by auto
qed simp

lemma v6_value_less: "\<forall>g \<in> set gs. g < 2 ^ 16 \<Longrightarrow> v6_value v gs < (v + 1) * (2 ^ 16) ^ length gs"
proof (induction gs arbitrary: v)
  case (Cons g gs)
  then have g: "g < 2 ^ 16" by simp
  have "v6_value (v * 2 ^ 16 + g) gs < (v * 2 ^ 16 + g + 1) * (2 ^ 16) ^ length gs" using Cons by simp
  also have "\<dots> \<le> (v + 1) * 2 ^ 16 * (2 ^ 16) ^ length gs" using g by (intro mult_le_mono1) simp
  finally show ?case by (simp add: algebra_simps)
qed simp

lemma parse_half_less: "parse_half h = Some ns \<Longrightarrow> n \<in> set ns \<Longrightarrow> n < 2 ^ 16"
  using v6_groups_less by (auto simp: parse_half_def split: if_splits)

lemma v6_tail_less:
  assumes "v6_tail s = Some (tail, str)" and "n \<in> set tail" shows "n < 2 ^ 16"
proof -
  from assms obtain v4 where "v4 < 2 ^ 32" "n = v4 div 2 ^ 16 \<or> n = v4 mod 2 ^ 16"
    by (auto simp: v6_tail_def Let_def simp del: One_nat_def power_numeral dest: parseV4_less split: if_splits option.splits)
  moreover have "v4 div 2 ^ 16 < 2 ^ 16" if "v4 < 2 ^ 32" for v4 :: nat
    using that by (intro less_mult_imp_div_less) simp
  ultimately show ?thesis by auto
qed

lemma parseV6_less:
  assumes "parseV6 s = Some v" shows "v < 2 ^ 128"
proof -
  obtain tail str where t: "v6_tail (takeWhile (\<lambda>c. c \<noteq> CHR ''%'') s) = Some (tail, str)"
    using assms by (auto simp: parseV6_def split: option.splits)
  have h: "\<forall>n \<in> set ns. n < 2 ^ 16" if "parse_half h = Some ns" for h ns using parse_half_less [OF that] by blast
  have "\<exists>gs. v = v6_value 0 gs \<and> length gs = 8 \<and> (\<forall>g \<in> set gs. g < 2 ^ 16)"
  proof (cases "length (split_twice CHR '':'' str) = 2")
    case True
    then obtain a b where ab: "parse_half (split_twice CHR '':'' str ! 0) = Some a" "parse_half (split_twice CHR '':'' str ! 1) = Some b"
        "length a + length b + length tail \<le> 7" "v = v6_value 0 (a @ replicate (8 - (length a + length b + length tail)) 0 @ b @ tail)"
      using assms t by (auto simp: parseV6_def Let_def split: option.splits if_splits)
    then show ?thesis using h [OF ab(1)] h [OF ab(2)] v6_tail_less [OF t]
      by (intro exI [of _ "a @ replicate (8 - (length a + length b + length tail)) 0 @ b @ tail"]) auto
  next
    case False
    then obtain a where a: "parse_half (split_twice CHR '':'' str ! 0) = Some a" "length a + length tail = 8" "v = v6_value 0 (a @ tail)"
      using assms t by (auto simp: parseV6_def Let_def split: option.splits if_splits)
    then show ?thesis using h [OF a(1)] v6_tail_less [OF t] by (intro exI [of _ "a @ tail"]) auto
  qed
  then obtain gs where gs: "v = v6_value 0 gs" "length gs = 8" "\<forall>g \<in> set gs. g < 2 ^ 16" by blast
  then show ?thesis using v6_value_less [OF gs(3), of 0] by simp
qed

lemma mapped_prefix: "v div 2 ^ 32 = 0xffff \<Longrightarrow> v - v mod 2 ^ 32 = V4_MAPPED_PREFIX"
  by (simp add: minus_mod_eq_div_mult V4_MAPPED_PREFIX_def)

lemma ip_literal_valid:
  assumes "ip_literal s = Some ip" shows "valid_ip ip"
proof (cases "CHR '':'' \<in> set s")
  case False
  then show ?thesis using assms parseV4_less by (auto simp: ip_literal_def valid_ip_def split: if_splits)
next
  case True
  then obtain v where v: "parseV6 s = Some v" using assms by (auto simp: ip_literal_def split: if_splits option.splits)
  then show ?thesis using assms True mapped_prefix [of v] parseV6_less [OF v]
    by (cases "v div 2 ^ 32 = 0xffff") (auto simp: ip_literal_def valid_ip_def split: if_splits)
qed

lemma parseIp_valid: "parseIp s = Some ip \<Longrightarrow> valid_ip ip"
  using ip_literal_valid by (simp add: parseIp_def Let_def)

text \<open>Formatted parts are read back.\<close>

lemma digits_length: "n < 10 ^ Suc k \<Longrightarrow> length (digits_of_nat n) \<le> Suc k"
proof (induction k arbitrary: n)
  case 0
  then show ?case by (subst digits_of_nat.simps) simp
next
  case (Suc k)
  then have "n div 10 < 10 ^ Suc k" by (intro less_mult_imp_div_less) simp
  then show ?case using Suc.IH [of "n div 10"] by (subst digits_of_nat.simps) simp
qed

lemma zero_char: "char_of (48 :: nat) = CHR ''0''"
proof -
  have "of_char (CHR ''0'') = (48 :: nat)" by simp
  then show ?thesis by (metis char_of_char)
qed

lemma digits_head: "hd (digits_of_nat n) = CHR ''0'' \<Longrightarrow> n = 0"
proof (induction n rule: digits_of_nat.induct)
  case (1 n)
  have z: "(CHR ''0'') = char_of (48 + 0 :: nat)" using zero_char by simp
  show ?case
  proof (cases "n < 10")
    case True
    then have "char_of (48 + n) = char_of (48 + 0 :: nat)" using 1(2) z by (subst (asm) digits_of_nat.simps) simp
    then have "digit_val (char_of (48 + n)) = digit_val (char_of (48 + 0 :: nat))" by (rule arg_cong)
    then show ?thesis using True by (simp only: digit_char) simp
  next
    case False
    have "hd (digits_of_nat n) = hd (digits_of_nat (n div 10))"
      using False digits_of_nat_digits [of "n div 10"] by (subst digits_of_nat.simps) simp
    then show ?thesis using 1 False by simp
  qed
qed

lemma digits_byte:
  assumes "n < 256" shows "V4_PART (digits_of_nat n) \<and> num_of_digits 0 (digits_of_nat n) = n"
proof -
  have "digits_of_nat 0 = ''0''" by (subst digits_of_nat.simps) (simp add: zero_char)
  then show ?thesis using assms digits_head [of n] digits_length [of n 2] digits_of_nat_digits [of n]
    by (auto simp: V4_PART_def num_digits_of_nat)
qed

lemma num_of_hex_append: "num_of_hex acc (xs @ ys) = num_of_hex (num_of_hex acc xs) ys"
  by (induction xs arbitrary: acc) auto

lemma hex_of_nat_value: "num_of_hex 0 (hex_of_nat n) = n \<and> list_all is_hex (hex_of_nat n) \<and> hex_of_nat n \<noteq> []"
proof (induction n rule: hex_of_nat.induct)
  case (1 n)
  show ?case
  proof (cases "n < 16")
    case True
    then show ?thesis by (subst (1 2 3) hex_of_nat.simps) (simp add: hex_val_digit)
  next
    case False
    have "num_of_hex 0 (hex_of_nat (n div 16)) = n div 16" "list_all is_hex (hex_of_nat (n div 16))" using 1 [OF False] by simp_all
    moreover have "hex_of_nat n = hex_of_nat (n div 16) @ [hex_digit (n mod 16)]" using False by (subst hex_of_nat.simps) simp
    ultimately show ?thesis by (simp add: num_of_hex_append hex_val_digit)
  qed
qed

lemma hex_of_nat_length: "n < 16 ^ Suc k \<Longrightarrow> length (hex_of_nat n) \<le> Suc k"
proof (induction k arbitrary: n)
  case 0
  then show ?case by (subst hex_of_nat.simps) simp
next
  case (Suc k)
  then have "n div 16 < 16 ^ Suc k" by (intro less_mult_imp_div_less) simp
  then show ?case using Suc.IH [of "n div 16"] by (subst hex_of_nat.simps) simp
qed

lemma hex_group: "n < 2 ^ 16 \<Longrightarrow> V6_GROUP (hex_of_nat n) \<and> num_of_hex 0 (hex_of_nat n) = n"
  using hex_of_nat_value [of n] hex_of_nat_length [of n 3] by (cases "hex_of_nat n") (auto simp: V6_GROUP_def)

lemma v6_groups_format: "\<forall>n \<in> set ns. n < 2 ^ 16 \<Longrightarrow> v6_groups (map hex_of_nat ns) = Some ns"
  using hex_group by (induction ns) auto

text \<open>A text without two separators side by side is not split by \<open>::\<close>.\<close>

lemma split_twice_id: "successively (\<lambda>x y. \<not> (x = c \<and> y = c)) s \<Longrightarrow> split_twice c s = [s]"
  by (induction c s rule: split_twice.induct) auto

lemma successively_word: "c \<notin> set w \<Longrightarrow> successively (\<lambda>x y. \<not> (x = c \<and> y = c)) w"
  by (induction w rule: induct_list012) auto

lemma hd_join: "w \<noteq> [] \<Longrightarrow> hd (join_on c (w # ws)) = hd w"
  by (cases ws) simp_all

lemma join_successively:
  "list_all (\<lambda>w. w \<noteq> [] \<and> c \<notin> set w) ws \<Longrightarrow> successively (\<lambda>x y. \<not> (x = c \<and> y = c)) (join_on c ws)"
proof (induction ws)
  case (Cons w ws)
  show ?case
  proof (cases ws)
    case Nil
    then show ?thesis using Cons.prems successively_word [of c w] by simp
  next
    case (Cons v vs)
    have "hd (join_on c ws) \<noteq> c" using Cons hd_join [of v c vs] Cons.prems by (cases v) auto
    moreover have "last w \<noteq> c" using Cons.prems last_in_set [of w] by auto
    moreover have "successively (\<lambda>x y. \<not> (x = c \<and> y = c)) w" using Cons.prems successively_word [of c w] by simp
    moreover have "successively (\<lambda>x y. \<not> (x = c \<and> y = c)) (join_on c ws)" using Cons.IH Cons.prems by simp
    moreover have "join_on c (w # ws) = w @ c # join_on c ws" using Cons by simp
    ultimately show ?thesis by (simp add: successively_append_iff successively_Cons)
  qed
qed simp

lemma split_twice_join:
  "list_all (\<lambda>w. w \<noteq> [] \<and> c \<notin> set w) ws \<Longrightarrow> split_twice c (join_on c ws) = [join_on c ws]"
  by (intro split_twice_id join_successively)

lemma digit_plain: "is_digit c \<Longrightarrow> c \<notin> {CHR ''.'', CHR '':'', CHR ''['', CHR '']'', CHR ''/'', CHR '',''} \<and> \<not> text_space c"
  by (auto simp: is_digit_def digit_val_def text_space_def Let_def split: if_splits)

lemma hex_plain: "is_hex c \<Longrightarrow> c \<notin> {CHR ''.'', CHR '':'', CHR ''['', CHR '']'', CHR ''%'', CHR ''/'', CHR '',''} \<and> \<not> text_space c"
  by (auto simp: is_hex_def hex_val_def text_space_def Let_def split: if_splits)

text \<open>A number put together again out of its digits to the base \<open>2 ^ k\<close>.\<close>

lemma digit_step: "v div 2 ^ (j + k) * 2 ^ k + v div 2 ^ j mod 2 ^ k = v div (2 :: nat) ^ j"
  by (simp only: power_add div_mult2_eq div_mult_mod_eq)

primrec place_value :: "nat \<Rightarrow> nat \<Rightarrow> nat list \<Rightarrow> nat" where
  "place_value k v [] = v"
| "place_value k v (n # ns) = place_value k (v * 2 ^ k + n) ns"

definition digits_below :: "nat \<Rightarrow> nat \<Rightarrow> nat \<Rightarrow> nat list" where
  "digits_below k m v = map (\<lambda>i. v div 2 ^ (i * k) mod 2 ^ k) (rev [0..<m])"

lemma place_digits: "place_value k (v div 2 ^ (m * k)) (digits_below k m v) = v"
proof (induction m)
  case (Suc m)
  have "digits_below k (Suc m) v = v div 2 ^ (m * k) mod 2 ^ k # digits_below k m v" by (simp add: digits_below_def)
  then show ?case using Suc digit_step [of v "m * k" k] by (simp add: add.commute)
qed (simp add: digits_below_def)

lemma place_digits_all: "v < 2 ^ (m * k) \<Longrightarrow> place_value k 0 (digits_below k m v) = v"
  using place_digits [of k v m] by simp

lemma digits_below_less: "n \<in> set (digits_below k m v) \<Longrightarrow> n < 2 ^ k"
  by (auto simp: digits_below_def)

lemma length_digits_below [simp]: "length (digits_below k m v) = m"
  by (simp add: digits_below_def)

lemma v4_value_format: "\<forall>n \<in> set ns. n < 2 ^ 8 \<Longrightarrow> v4_value v (map digits_of_nat ns) = Some (place_value 8 v ns)"
proof (induction ns arbitrary: v)
  case (Cons n ns)
  then show ?case using digits_byte [of n] by (simp add: Let_def)
qed simp

lemma v6_value_place: "v6_value v ns = place_value 16 v ns"
  by (induction ns arbitrary: v) simp_all

lemma places: "rev [0..<4] = [3, 2, 1, 0 :: nat]" "rev [0..<8] = [7, 6, 5, 4, 3, 2, 1, 0 :: nat]"
  by code_simp+

lemma format_v4:
  "formatIp \<lparr>ipVersion = V4, ipValue = v\<rparr> = join_on CHR ''.'' (map digits_of_nat (digits_below 8 4 v))"
  by (simp add: formatIp_def digits_below_def places comp_def)

lemma format_v6:
  "formatIp \<lparr>ipVersion = V6, ipValue = v\<rparr> = join_on CHR '':'' (map hex_of_nat (digits_below 16 8 v))"
  by (simp add: formatIp_def digits_below_def places comp_def)

lemma parseV4_format:
  assumes "v < 2 ^ 32"
  shows "parseV4 (join_on CHR ''.'' (map digits_of_nat (digits_below 8 4 v))) = Some v"
proof -
  let ?ws = "map digits_of_nat (digits_below 8 4 v)"
  have "digits_below 8 4 v \<noteq> []" using length_digits_below [of 8 4 v] by (metis length_0_conv zero_neq_numeral)
  moreover have "list_all (\<lambda>w. CHR ''.'' \<notin> set w) ?ws"
    using digits_of_nat_digits digit_plain by (auto simp: list_all_iff)
  ultimately have s: "split_on CHR ''.'' (join_on CHR ''.'' ?ws) = ?ws" by (intro split_join_on) simp_all
  have "v4_value 0 ?ws = Some (place_value 8 0 (digits_below 8 4 v))"
    by (rule v4_value_format) (use digits_below_less in blast)
  then show ?thesis using place_digits_all [of v 4 8] assms by (simp add: parseV4_def s)
qed

lemma parse_half_format:
  assumes "\<forall>n \<in> set ns. n < 2 ^ 16" "ns \<noteq> []"
  shows "parse_half (join_on CHR '':'' (map hex_of_nat ns)) = Some ns"
    and "split_twice CHR '':'' (join_on CHR '':'' (map hex_of_nat ns)) = [join_on CHR '':'' (map hex_of_nat ns)]"
proof -
  have w: "list_all (\<lambda>w. w \<noteq> [] \<and> CHR '':'' \<notin> set w) (map hex_of_nat ns)"
    using hex_of_nat_value hex_plain by (auto simp: list_all_iff)
  then have "split_on CHR '':'' (join_on CHR '':'' (map hex_of_nat ns)) = map hex_of_nat ns"
    using assms(2) by (intro split_join_on) (auto simp: list_all_iff)
  moreover have "join_on CHR '':'' (map hex_of_nat ns) \<noteq> []"
    using assms(2) hex_of_nat_value by (cases ns; cases "tl ns") auto
  ultimately show "parse_half (join_on CHR '':'' (map hex_of_nat ns)) = Some ns"
    using v6_groups_format [OF assms(1)] by (simp add: parse_half_def)
  show "split_twice CHR '':'' (join_on CHR '':'' (map hex_of_nat ns)) = [join_on CHR '':'' (map hex_of_nat ns)]"
    using w by (rule split_twice_join)
qed

lemma v6_chars: "x \<in> set (join_on CHR '':'' (map hex_of_nat ns)) \<Longrightarrow> x = CHR '':'' \<or> is_hex x"
  using join_on_set [of x "CHR '':''" "map hex_of_nat ns"] hex_of_nat_value by (auto simp: list_all_iff)

lemma parseV6_format:
  assumes "\<forall>n \<in> set ns. n < 2 ^ 16" "length ns = 8"
  shows "parseV6 (join_on CHR '':'' (map hex_of_nat ns)) = Some (v6_value 0 ns)"
proof -
  let ?s = "join_on CHR '':'' (map hex_of_nat ns)"
  have n: "ns \<noteq> []" using assms(2) by auto
  have "CHR ''%'' \<notin> set ?s" "CHR ''.'' \<notin> set ?s" using v6_chars [of _ ns] hex_plain by blast+
  then have t: "takeWhile (\<lambda>c. c \<noteq> CHR ''%'') ?s = ?s" "v6_tail ?s = Some ([], ?s)"
    by (auto simp: takeWhile_eq_all_conv v6_tail_def)
  show ?thesis unfolding parseV6_def t using parse_half_format [OF assms(1) n] assms(2) by simp
qed

lemma trim_text_id:
  assumes "\<And>c. c \<in> set s \<Longrightarrow> \<not> text_space c" shows "trim_text s = s"
proof -
  have "dropWhile text_space t = t" if "set t \<subseteq> set s" for t using assms that by (cases t) auto
  then show ?thesis by (simp add: trim_text_def)
qed

text \<open>A text without brackets and blanks is read as it is.\<close>

lemma parseIp_plain:
  assumes "\<And>c. c \<in> set s \<Longrightarrow> \<not> text_space c \<and> c \<noteq> CHR ''[''"
  shows "parseIp s = ip_literal s"
proof -
  have "trim_text s = s" using assms by (intro trim_text_id) blast
  moreover have "\<not> (s \<noteq> [] \<and> hd s = CHR ''['')" using assms hd_in_set [of s] by blast
  ultimately show ?thesis by (auto simp: parseIp_def)
qed

lemma length_join: "ws \<noteq> [] \<Longrightarrow> list_all (\<lambda>w. length w \<le> k) ws \<Longrightarrow> length (join_on c ws) < length ws * Suc k"
proof (induction ws)
  case (Cons w ws)
  then show ?case by (cases ws) auto
qed simp

lemma separator_plain: "\<not> text_space CHR ''.''" "\<not> text_space CHR '':''"
  by (simp_all add: text_space_def)

lemma parseIp_format:
  assumes "valid_ip ip" shows "parseIp (formatIp ip) = Some ip"
proof (cases ip)
  case (fields ver v)
  show ?thesis
  proof (cases ver)
    case V4
    let ?ws = "map digits_of_nat (digits_below 8 4 v)"
    let ?s = "join_on CHR ''.'' ?ws"
    have v: "v < 2 ^ 32" using assms fields V4 by (simp add: valid_ip_def)
    have c: "x = CHR ''.'' \<or> is_digit x" if "x \<in> set ?s" for x
      using join_on_set [OF that] digits_of_nat_digits by (auto simp: list_all_iff)
    then have "CHR '':'' \<notin> set ?s" using digit_plain by blast
    moreover have "parseIp ?s = ip_literal ?s"
      by (rule parseIp_plain) (use c digit_plain separator_plain in blast)
    moreover have "length ?s < 4 * 4"
    proof -
      have "length (digits_of_nat n) \<le> 3" if "n \<in> set (digits_below 8 4 v)" for n
        using digits_length [of n 2] digits_below_less [OF that] by simp
      then have "length ?s < length ?ws * Suc 3" by (intro length_join) (auto simp: list_all_iff digits_below_def)
      then show ?thesis by simp
    qed
    moreover have "?s \<noteq> []" using parseV4_format [OF v] by (auto simp: parseV4_def)
    ultimately show ?thesis using parseV4_format [OF v] fields V4 by (simp add: format_v4 ip_literal_def)
  next
    case V6
    let ?ws = "map hex_of_nat (digits_below 16 8 v)"
    let ?s = "join_on CHR '':'' ?ws"
    have v: "v < 2 ^ 128" "v div 2 ^ 32 \<noteq> 0xffff" using assms fields V6 by (simp_all add: valid_ip_def)
    then have p: "parseV6 ?s = Some v"
      using parseV6_format [of "digits_below 16 8 v"] digits_below_less [of _ 16 8 v] place_digits_all [of v 8 16]
      by (simp add: v6_value_place)
    have "parseIp ?s = ip_literal ?s"
      by (rule parseIp_plain) (use v6_chars hex_plain separator_plain in blast)
    moreover have "length ?s < 8 * 5"
    proof -
      have "length (hex_of_nat n) \<le> 4" if "n \<in> set (digits_below 16 8 v)" for n
        using hex_of_nat_length [of n 3] digits_below_less [OF that] by simp
      then have "length ?s < length ?ws * Suc 4" by (intro length_join) (auto simp: list_all_iff digits_below_def)
      then show ?thesis by simp
    qed
    moreover have "CHR '':'' \<in> set ?s" by (simp add: digits_below_def places)
    ultimately show ?thesis using p v(2) fields V6 by (auto simp: format_v6 ip_literal_def)
  qed
qed

text \<open>
  Keys of addresses are sound. What a text parses to is a value of its version's width, is never an IPv4 address in
  IPv6 clothes, and is what its canonical form parses to: so two texts give one key exactly when they name one address.
\<close>

theorem ip_keys_sound:
  assumes "parseIp s = Some ip"
  shows "valid_ip ip \<and> parseIp (formatIp ip) = Some ip \<and> (parseIp t = Some jp \<longrightarrow> (formatIp jp = formatIp ip \<longleftrightarrow> jp = ip))"
proof -
  have r: "parseIp (formatIp x) = Some x" if "parseIp u = Some x" for u x using parseIp_format [OF parseIp_valid [OF that]] .
  then have "jp = ip" if "parseIp t = Some jp" "formatIp jp = formatIp ip" using that assms by (metis option.inject)
  then show ?thesis using parseIp_valid [OF assms] r [OF assms] by blast
qed

lemma ip_example: "formatIp \<lparr>ipVersion = V4, ipValue = 167838211\<rparr> = ''10.1.2.3''"
  by (simp add: format_v4 digits_below_def places digits_of_nat.simps char_of_def bit_0)

theorem ip_keys_sound_witness:
  "parseIp ''10.1.2.3'' = Some \<lparr>ipVersion = V4, ipValue = 167838211\<rparr> \<and>
   parseIp (formatIp \<lparr>ipVersion = V4, ipValue = 167838211\<rparr>) = Some \<lparr>ipVersion = V4, ipValue = 167838211\<rparr>"
proof -
  have "parseIp ''10.1.2.3'' = Some \<lparr>ipVersion = V4, ipValue = 167838211\<rparr>"
    using parseIp_format [of "\<lparr>ipVersion = V4, ipValue = 167838211\<rparr>"] by (simp add: valid_ip_def ip_example)
  then show ?thesis using ip_keys_sound by blast
qed

text \<open>
  A block is an interval. A block that parses lies within its version's addresses, starts at a multiple of its size, and
  contains exactly the addresses of its version from its base on, as many as its free bits make.
\<close>

theorem cidr_is_interval:
  assumes "parseCidr s = Inr c"
  shows "cdBits c \<le> version_bits (cdVersion c) \<and>
    cdBase c mod 2 ^ (version_bits (cdVersion c) - cdBits c) = 0 \<and>
    cdBase c + 2 ^ (version_bits (cdVersion c) - cdBits c) \<le> 2 ^ version_bits (cdVersion c) \<and>
    (cidrContains c ip \<longleftrightarrow> ipVersion ip = cdVersion c \<and> cdBase c \<le> ipValue ip \<and>
       ipValue ip < cdBase c + 2 ^ (version_bits (cdVersion c) - cdBits c))"
proof -
  obtain a n where a: "parseIp (split_on CHR ''/'' s ! 0) = Some a" "n \<le> version_bits (ipVersion a)"
      "c = \<lparr>cdVersion = ipVersion a, cdBase = ipValue a div 2 ^ (version_bits (ipVersion a) - n) * 2 ^ (version_bits (ipVersion a) - n), cdBits = n\<rparr>"
    using assms by (auto simp: parseCidr_def Let_def split: option.splits if_splits)
  define k where "k = version_bits (ipVersion a) - n"
  define q where "q = ipValue a div 2 ^ k"
  have c: "c = \<lparr>cdVersion = ipVersion a, cdBase = q * 2 ^ k, cdBits = n\<rparr>" using a(3) by (simp add: k_def q_def)
  have w: "2 ^ version_bits (ipVersion a) = (2 ^ n * 2 ^ k :: nat)" using a(2) by (simp add: k_def flip: power_add)
  have "ipValue a < 2 ^ n * 2 ^ k"
    using parseIp_valid [OF a(1)] unfolding w [symmetric] by (cases "ipVersion a") (simp_all add: valid_ip_def version_bits_def)
  then have "q < 2 ^ n" unfolding q_def by (intro less_mult_imp_div_less)
  then have "q * 2 ^ k + 2 ^ k \<le> 2 ^ n * 2 ^ k" using mult_le_mono1 [of "Suc q" "2 ^ n" "2 ^ k"] by simp
  moreover have i: "v div 2 ^ k * 2 ^ k = q * 2 ^ k \<longleftrightarrow> q * 2 ^ k \<le> v \<and> v < q * 2 ^ k + 2 ^ k" for v :: nat
  proof -
    have "v div 2 ^ k * 2 ^ k = q * 2 ^ k \<longleftrightarrow> v div 2 ^ k = q" by simp
    also have "\<dots> \<longleftrightarrow> q * 2 ^ k \<le> v \<and> v < q * 2 ^ k + 2 ^ k"
    proof
      assume "v div 2 ^ k = q"
      then have "q * 2 ^ k + v mod 2 ^ k = v" using div_mult_mod_eq [of v "2 ^ k"] by simp
      moreover have "v mod 2 ^ k < 2 ^ k" by simp
      ultimately show "q * 2 ^ k \<le> v \<and> v < q * 2 ^ k + 2 ^ k" by linarith
    next
      assume "q * 2 ^ k \<le> v \<and> v < q * 2 ^ k + 2 ^ k"
      then show "v div 2 ^ k = q" by (intro div_nat_eqI) (simp_all add: mult.commute)
    qed
    finally show ?thesis .
  qed
  moreover have "cidrContains c ip \<longleftrightarrow> ipVersion ip = ipVersion a \<and> ipValue ip div 2 ^ k * 2 ^ k = q * 2 ^ k"
    unfolding c cidrContains_def k_def by (auto simp: Let_def)
  ultimately show ?thesis using a(2) unfolding i c w [symmetric] by (simp add: k_def [symmetric] w)
qed

theorem cidr_is_interval_witness:
  "parseCidr ''10.1.2.3/8'' = Inr \<lparr>cdVersion = V4, cdBase = 167772160, cdBits = 8\<rparr> \<and>
   cidrContains \<lparr>cdVersion = V4, cdBase = 167772160, cdBits = 8\<rparr> \<lparr>ipVersion = V4, ipValue = 167838211\<rparr>"
proof -
  have d: "CHR ''/'' \<notin> set ''10.1.2.3''" by simp
  have "split_on CHR ''/'' ''10.1.2.3/8'' = [''10.1.2.3'', ''8'']" using split_on_append [OF d, of "''8''"] by simp
  moreover have "parseIp ''10.1.2.3'' = Some \<lparr>ipVersion = V4, ipValue = 167838211\<rparr>"
    using parseIp_format [of "\<lparr>ipVersion = V4, ipValue = 167838211\<rparr>"] by (simp add: valid_ip_def ip_example)
  ultimately have p: "parseCidr ''10.1.2.3/8'' = Inr \<lparr>cdVersion = V4, cdBase = 167772160, cdBits = 8\<rparr>"
    by (simp add: parseCidr_def is_digit_def digit_val_def version_bits_def)
  show ?thesis using p cidr_is_interval [OF p, of "\<lparr>ipVersion = V4, ipValue = 167838211\<rparr>"] by (simp add: version_bits_def)
qed

end
