(* ===== verification/EdgeClient.thy ===== *)
theory EdgeClient imports EdgeIp begin

text \<open>
  Who a request comes from (\<open>client-ip.ts\<close> of \<open>platform/edge/src\<close>): the peer of the connection, or, where trusted proxies
  are configured, an entry of the forwarding header. The header's value, all its occurrences joined, and the peer are
  arguments.
\<close>

subsection \<open>Peers\<close>

datatype RemoteAddr = AddrText string | AddrHost "string option"

record RequestEnv =
  envSocketAddress :: "string option"
  envRemoteAddr :: "RemoteAddr option"

definition defaultRemoteAddress :: "RequestEnv option \<Rightarrow> string option" where
  "defaultRemoteAddress env =
     (case Option.bind env envSocketAddress of
        Some (c # cs) \<Rightarrow> Some (c # cs)
      | _ \<Rightarrow>
          (case Option.bind env envRemoteAddr of
             None \<Rightarrow> None | Some (AddrText a) \<Rightarrow> Some a | Some (AddrHost h) \<Rightarrow> h))"

definition UNKNOWN_IP :: string where "UNKNOWN_IP = ''unknown''"

definition canon :: "string option \<Rightarrow> string option" where
  "canon ip = (case ip of None \<Rightarrow> None | Some [] \<Rightarrow> None | Some (c # cs) \<Rightarrow> map_option formatIp (parseIp (c # cs)))"

definition getClientIp :: "string option \<Rightarrow> string option \<Rightarrow> string" where
  "getClientIp stored remote =
     (case stored of Some ip \<Rightarrow> ip | None \<Rightarrow> (case canon remote of Some ip \<Rightarrow> ip | None \<Rightarrow> UNKNOWN_IP))"

subsection \<open>Proxies\<close>

text \<open>The options; inside \<open>hops\<close>, \<open>None\<close> stands for a number that is no integer.\<close>

record TrustProxyOptions =
  tpHops :: "int option option"
  tpTrusted :: "string list option"

datatype proxy_trust = TrustHops nat | TrustBlocks "Cidr list"

definition trustProxy :: "TrustProxyOptions \<Rightarrow> string + proxy_trust" where
  "trustProxy opts =
     (if (tpHops opts = None) = (tpTrusted opts = None) then Inl ''trustProxy: set exactly one of hops or trusted''
      else case tpHops opts of
             Some None \<Rightarrow> Inl ''trustProxy: hops must be 1..10''
           | Some (Some h) \<Rightarrow> if h < 1 \<or> h > 10 then Inl ''trustProxy: hops must be 1..10'' else Inr (TrustHops (nat h))
           | None \<Rightarrow> emap TrustBlocks (emapM parseCidr (case tpTrusted opts of None \<Rightarrow> [] | Some ts \<Rightarrow> ts)))"

definition isTrusted :: "Cidr list \<Rightarrow> string \<Rightarrow> bool" where
  "isTrusted trusted ip = (case parseIp ip of None \<Rightarrow> False | Some p \<Rightarrow> list_ex (\<lambda>t. cidrContains t p) trusted)"

definition forwarded :: "string \<Rightarrow> string list" where
  "forwarded raw = filter (\<lambda>s. length s > 0) (map trim_text (split_on CHR '','' raw))"

text \<open>The loop to the right from the hop that is counted, and the one to the left over the trusted proxies.\<close>

primrec first_hop :: "string list \<Rightarrow> string option" where
  "first_hop [] = None"
| "first_hop (e # es) = (case canon (Some e) of Some ip \<Rightarrow> Some ip | None \<Rightarrow> first_hop es)"

primrec walk_back :: "Cidr list \<Rightarrow> string list \<Rightarrow> string option \<Rightarrow> string option" where
  "walk_back trusted [] client = client"
| "walk_back trusted (e # es) client =
     (case canon (Some e) of
        None \<Rightarrow> client
      | Some hop \<Rightarrow> if \<not> isTrusted trusted hop then Some hop else walk_back trusted es (Some hop))"

definition client_ip :: "proxy_trust \<Rightarrow> string option \<Rightarrow> string option \<Rightarrow> string" where
  "client_ip cfg remote header =
     (let peer = canon remote;
          xff = forwarded (case header of None \<Rightarrow> [] | Some raw \<Rightarrow> raw);
          chain = xff @ [case peer of None \<Rightarrow> UNKNOWN_IP | Some p \<Rightarrow> p];
          client = (case cfg of
             TrustHops hops \<Rightarrow> first_hop (drop (length chain - 1 - hops) chain)
           | TrustBlocks trusted \<Rightarrow>
               (case peer of
                  None \<Rightarrow> peer
                | Some p \<Rightarrow>
                    if isTrusted trusted p
                    then (case walk_back trusted (rev xff) None of Some c \<Rightarrow> Some c | None \<Rightarrow> peer)
                    else peer))
      in case client of None \<Rightarrow> UNKNOWN_IP | Some c \<Rightarrow> c)"

subsection \<open>What a client can forge\<close>

lemma split_on_middle: "split_on c (a @ c # b) = split_on c a @ split_on c b"
proof (induction a)
  case (Cons x a)
  obtain w ws where "split_on c a = w # ws" by (cases "split_on c a") auto
  then show ?case using Cons by simp
qed simp

lemma forwarded_append: "forwarded (a @ CHR '','' # b) = forwarded a @ forwarded b"
  by (simp add: forwarded_def split_on_middle)

lemma walk_back_proxies:
  assumes "\<forall>p \<in> set ps. \<exists>q. canon (Some p) = Some q \<and> isTrusted trusted q"
    and "canon (Some h) = Some c" and "\<not> isTrusted trusted c"
  shows "walk_back trusted (ps @ h # es) client = Some c"
  using assms by (induction ps arbitrary: client) auto

text \<open>
  C39: a forged header changes nothing. Let the proxies have seen the client at an address that parses, and every one of
  them have added what it saw. Then the client is that address, whatever it sent in the header before, when as many hops
  are trusted as there are proxies, or when the proxies, and not the client, are in the trusted blocks. A peer outside of
  the trusted blocks is itself the client.
\<close>

theorem forged_header_ignored:
  assumes "forwarded seen = h # proxies" and "canon (Some h) = Some c"
    and "canon remote = Some p"
    and "case cfg of TrustHops n \<Rightarrow> n = length (h # proxies)
       | TrustBlocks ts \<Rightarrow> isTrusted ts p \<and> \<not> isTrusted ts c \<and> (\<forall>x \<in> set proxies. \<exists>q. canon (Some x) = Some q \<and> isTrusted ts q)"
  shows "client_ip cfg remote (Some (forged @ CHR '','' # seen)) = c \<and> client_ip cfg remote (Some seen) = c \<and>
    (\<not> isTrusted blocks p \<longrightarrow> client_ip (TrustBlocks blocks) remote header = p)"
proof -
  have "client_ip cfg remote (Some raw) = c" if r: "forwarded raw = es @ h # proxies" for raw es
  proof (cases cfg)
    case (TrustHops n)
    then show ?thesis using assms r by (simp add: client_ip_def)
  next
    case (TrustBlocks ts)
    have "walk_back ts (rev proxies @ h # rev es) None = Some c"
      by (rule walk_back_proxies) (use assms TrustBlocks in auto)
    then show ?thesis using assms r TrustBlocks by (simp add: client_ip_def)
  qed
  from this [of "forged @ CHR '','' # seen" "forwarded forged"] this [of seen "[]"]
  show ?thesis using assms(1,3) by (simp add: forwarded_append) (simp add: client_ip_def)
qed

text \<open>Two proxies, one of them the peer; the client claims to be another.\<close>

lemma client_example: "formatIp \<lparr>ipVersion = V4, ipValue = 151587081\<rparr> = ''9.9.9.9''"
  by (simp add: format_v4 digits_below_def places digits_of_nat.simps char_of_def bit_0)

lemma parsed_examples:
  "parseIp ''9.9.9.9'' = Some \<lparr>ipVersion = V4, ipValue = 151587081\<rparr>"
  "parseIp ''10.1.2.3'' = Some \<lparr>ipVersion = V4, ipValue = 167838211\<rparr>"
  using parseIp_format [of "\<lparr>ipVersion = V4, ipValue = 151587081\<rparr>"] parseIp_format [of "\<lparr>ipVersion = V4, ipValue = 167838211\<rparr>"]
  by (simp_all add: valid_ip_def ip_example client_example)

theorem forged_header_ignored_witness:
  "client_ip (TrustBlocks [\<lparr>cdVersion = V4, cdBase = 167838208, cdBits = 24\<rparr>]) (Some ''10.1.2.3'')
     (Some (''127.0.0.1'' @ CHR '','' # '' 9.9.9.9, 10.1.2.3'')) = ''9.9.9.9''"
proof -
  have "forwarded '' 9.9.9.9, 10.1.2.3'' = ''9.9.9.9'' # [''10.1.2.3'']"
    by (simp add: forwarded_def trim_text_def text_space_def)
  moreover have c: "canon (Some ''9.9.9.9'') = Some ''9.9.9.9''" "canon (Some ''10.1.2.3'') = Some ''10.1.2.3''"
    by (simp_all add: canon_def parsed_examples client_example ip_example)
  moreover have "isTrusted [\<lparr>cdVersion = V4, cdBase = 167838208, cdBits = 24\<rparr>] ''10.1.2.3''"
      "\<not> isTrusted [\<lparr>cdVersion = V4, cdBase = 167838208, cdBits = 24\<rparr>] ''9.9.9.9''"
    by (simp_all add: isTrusted_def parsed_examples cidrContains_def version_bits_def)
  ultimately show ?thesis
    using forged_header_ignored [where seen = "'' 9.9.9.9, 10.1.2.3''" and h = "''9.9.9.9''" and proxies = "[''10.1.2.3'']"
        and c = "''9.9.9.9''" and remote = "Some ''10.1.2.3''" and p = "''10.1.2.3''" and forged = "''127.0.0.1''"
        and cfg = "TrustBlocks [\<lparr>cdVersion = V4, cdBase = 167838208, cdBits = 24\<rparr>]"] by simp
qed

end
