(* ===== verification/EdgeLimit.thy ===== *)
theory EdgeLimit imports Complex_Main Prelude begin

text \<open>
  Token buckets (\<open>rate-limit.ts\<close> of \<open>platform/edge/src\<close>). Tokens and times are fractions of the code's doubles and are
  rational numbers here: the rounding of doubles is left out. A \<open>Map\<close> is an association list in insertion order, which is
  the order of last use.
\<close>

subsection \<open>The store\<close>

record BucketRule =
  brCapacity :: rat
  brRefillPerMs :: rat

record TakeResult =
  trAllowed :: bool
  trRemaining :: int
  trRetryAfterMs :: int
  trResetMs :: int

record Bucket =
  bkTokens :: rat
  bkTs :: rat

record RateStore =
  rsBuckets :: "(string \<times> Bucket) list"
  rsMaxKeys :: nat

fun drop_oldest :: "nat \<Rightarrow> (string \<times> Bucket) list \<Rightarrow> (string \<times> Bucket) list" where
  "drop_oldest mx [] = []"
| "drop_oldest mx (b # bs) = (if length (b # bs) \<ge> mx then drop_oldest mx bs else b # bs)"

definition evict :: "rat \<Rightarrow> BucketRule \<Rightarrow> RateStore \<Rightarrow> RateStore" where
  "evict now rule s =
     s\<lparr>rsBuckets := drop_oldest (rsMaxKeys s)
         (filter (\<lambda>(k, b). \<not> bkTokens b + (now - bkTs b) * brRefillPerMs rule \<ge> brCapacity rule) (rsBuckets s))\<rparr>"

text \<open>The bucket of a key as \<open>take\<close> finds it: refilled, or full when there is none; and the store without it.\<close>

definition find_bucket :: "string \<Rightarrow> BucketRule \<Rightarrow> rat \<Rightarrow> RateStore \<Rightarrow> Bucket \<times> RateStore" where
  "find_bucket key rule now s =
     (case map_of (rsBuckets s) key of
        Some b \<Rightarrow>
          (\<lparr>bkTokens = min (brCapacity rule) (bkTokens b + max 0 (now - bkTs b) * brRefillPerMs rule), bkTs = now\<rparr>,
           s\<lparr>rsBuckets := AList.delete key (rsBuckets s)\<rparr>)
      | None \<Rightarrow>
          (\<lparr>bkTokens = brCapacity rule, bkTs = now\<rparr>, if length (rsBuckets s) \<ge> rsMaxKeys s then evict now rule s else s))"

definition take_tokens :: "string \<Rightarrow> rat \<Rightarrow> BucketRule \<Rightarrow> rat \<Rightarrow> RateStore \<Rightarrow> TakeResult \<times> RateStore" where
  "take_tokens key cost rule now s =
     (let (b, s1) = find_bucket key rule now s;
          allowed = (bkTokens b \<ge> cost);
          b1 = (if allowed then b\<lparr>bkTokens := bkTokens b - cost\<rparr> else b);
          deficit = (if allowed then 0 else cost - bkTokens b1)
      in (\<lparr>trAllowed = allowed, trRemaining = \<lfloor>bkTokens b1\<rfloor>,
            trRetryAfterMs = (if allowed then 0 else \<lceil>deficit / brRefillPerMs rule\<rceil>),
            trResetMs = \<lceil>(brCapacity rule - bkTokens b1) / brRefillPerMs rule\<rceil>\<rparr>,
          s1\<lparr>rsBuckets := rsBuckets s1 @ [(key, b1)]\<rparr>))"

subsection \<open>The middleware\<close>

datatype RateLimitKey = KeyIp | KeyApiKey | KeyCustom

record RateLimitOptions =
  rlWindowMs :: rat
  rlMax :: rat
  rlKey :: "RateLimitKey option"
  rlPrefix :: "string option"
  rlHeaders :: "bool option"

definition string_of_int :: "int \<Rightarrow> string" where
  "string_of_int i = (if i < 0 then CHR ''-'' # digits_of_nat (nat (- i)) else digits_of_nat (nat i))"

definition rateLimit :: "RateLimitOptions \<Rightarrow> string + BucketRule" where
  "rateLimit opts =
     (if rlWindowMs opts \<le> 0 then Inl ''rateLimit: windowMs must be > 0''
      else if rlMax opts \<noteq> of_int \<lfloor>rlMax opts\<rfloor> \<or> rlMax opts < 1 then Inl ''rateLimit: max must be a positive integer''
      else Inr \<lparr>brCapacity = rlMax opts, brRefillPerMs = rlMax opts / rlWindowMs opts\<rparr>)"

text \<open>What the request brings: the client's address, the API key's id, and what a custom function of it answered.\<close>

definition resolveKey :: "RateLimitOptions \<Rightarrow> string \<Rightarrow> string option \<Rightarrow> string option \<Rightarrow> string" where
  "resolveKey opts ip api_key custom =
     (case rlKey opts of
        Some KeyApiKey \<Rightarrow> (case api_key of Some k \<Rightarrow> ''key:'' @ k | None \<Rightarrow> ''ip:'' @ ip)
      | Some KeyCustom \<Rightarrow> (case custom of Some (c # cs) \<Rightarrow> ''custom:'' @ c # cs | _ \<Rightarrow> ''ip:'' @ ip)
      | _ \<Rightarrow> ''ip:'' @ ip)"

datatype limited = Passed "(string \<times> string) list" | TooMany "(string \<times> string) list"

definition limit_headers :: "RateLimitOptions \<Rightarrow> TakeResult \<Rightarrow> (string \<times> string) list" where
  "limit_headers opts r =
     (if rlHeaders opts = Some False then []
      else [(''RateLimit-Policy'', string_of_int \<lfloor>rlMax opts\<rfloor> @ '';w='' @ string_of_int \<lceil>rlWindowMs opts / 1000\<rceil>),
            (''RateLimit-Limit'', string_of_int \<lfloor>rlMax opts\<rfloor>),
            (''RateLimit-Remaining'', string_of_int (max 0 (trRemaining r))),
            (''RateLimit-Reset'', string_of_int \<lceil>of_int (trResetMs r) / 1000 :: rat\<rceil>)])"

definition rate_limited ::
  "RateLimitOptions \<Rightarrow> BucketRule \<Rightarrow> string \<Rightarrow> rat option \<Rightarrow> rat \<Rightarrow> RateStore \<Rightarrow> limited \<times> RateStore" where
  "rate_limited opts rule resolved cost now s =
     (let key = (case rlPrefix opts of None \<Rightarrow> ''rl'' | Some p \<Rightarrow> p) @ '':'' @ resolved;
          (r, s1) = take_tokens key (case cost of None \<Rightarrow> 1 | Some c \<Rightarrow> c) rule now s;
          hdrs = limit_headers opts r in
      (if \<not> trAllowed r
       then TooMany (hdrs @ [(''Retry-After'', string_of_int (max 1 \<lceil>of_int (trRetryAfterMs r) / 1000 :: rat\<rceil>))])
       else Passed hdrs, s1))"

subsection \<open>How much is let through\<close>

text \<open>The tokens a key has at a time: what \<open>take\<close> would find.\<close>

definition level :: "BucketRule \<Rightarrow> RateStore \<Rightarrow> string \<Rightarrow> rat \<Rightarrow> rat" where
  "level rule s key now = bkTokens (fst (find_bucket key rule now s))"

definition store_ok :: "BucketRule \<Rightarrow> rat \<Rightarrow> RateStore \<Rightarrow> bool" where
  "store_ok rule now s \<longleftrightarrow> distinct (map fst (rsBuckets s)) \<and>
     (\<forall>(k, b) \<in> set (rsBuckets s). 0 \<le> bkTokens b \<and> bkTokens b \<le> brCapacity rule \<and> bkTs b \<le> now)"

type_synonym request = "string \<times> rat \<times> rat"

text \<open>A run of requests, each with its key, cost and time; what is let through for a key.\<close>

primrec take_all :: "BucketRule \<Rightarrow> request list \<Rightarrow> RateStore \<Rightarrow> RateStore" where
  "take_all rule [] s = s"
| "take_all rule (q # qs) s = take_all rule qs (snd (take_tokens (fst q) (fst (snd q)) rule (snd (snd q)) s))"

primrec let_through :: "BucketRule \<Rightarrow> string \<Rightarrow> request list \<Rightarrow> RateStore \<Rightarrow> rat" where
  "let_through rule key [] s = 0"
| "let_through rule key (q # qs) s =
     (let (r, s1) = take_tokens (fst q) (fst (snd q)) rule (snd (snd q)) s in
      (if fst q = key \<and> trAllowed r then fst (snd q) else 0) + let_through rule key qs s1)"

primrec clock_from :: "rat \<Rightarrow> request list \<Rightarrow> bool" where
  "clock_from t [] = True"
| "clock_from t (q # qs) = (t \<le> snd (snd q) \<and> clock_from (snd (snd q)) qs)"

definition roomy :: "RateStore \<Rightarrow> request list \<Rightarrow> bool" where
  "roomy s qs \<longleftrightarrow> card (fst ` set (rsBuckets s) \<union> fst ` set qs) \<le> rsMaxKeys s"

lemma no_eviction:
  assumes "roomy s (q # qs)" and "distinct (map fst (rsBuckets s))" and "map_of (rsBuckets s) (fst q) = None"
  shows "length (rsBuckets s) < rsMaxKeys s"
proof -
  have "fst q \<notin> fst ` set (rsBuckets s)" using assms(3) by (simp add: map_of_eq_None_iff)
  then have "Suc (card (fst ` set (rsBuckets s))) = card (insert (fst q) (fst ` set (rsBuckets s)))" by simp
  also have "\<dots> \<le> card (fst ` set (rsBuckets s) \<union> fst ` set (q # qs))" by (intro card_mono) auto
  also have "\<dots> \<le> rsMaxKeys s" using assms(1) by (simp add: roomy_def)
  finally have "card (set (map fst (rsBuckets s))) < rsMaxKeys s" by simp
  then show ?thesis using distinct_card [OF assms(2)] by simp
qed

lemma find_bucket_kept:
  assumes "roomy s (q # qs)" and "distinct (map fst (rsBuckets s))"
  shows "snd (find_bucket (fst q) rule now s) = s\<lparr>rsBuckets := AList.delete (fst q) (rsBuckets s)\<rparr>"
proof (cases "map_of (rsBuckets s) (fst q)")
  case None
  then have "AList.delete (fst q) (rsBuckets s) = rsBuckets s" by (simp add: delete_id map_of_eq_None_iff)
  then show ?thesis using None no_eviction [OF assms None] by (simp add: find_bucket_def)
qed (simp add: find_bucket_def)

text \<open>The bucket that a request leaves for its key.\<close>

definition left_bucket :: "BucketRule \<Rightarrow> request \<Rightarrow> RateStore \<Rightarrow> Bucket" where
  "left_bucket rule q s =
     (let b = fst (find_bucket (fst q) rule (snd (snd q)) s) in
      if bkTokens b \<ge> fst (snd q) then b\<lparr>bkTokens := bkTokens b - fst (snd q)\<rparr> else b)"

lemma take_kept:
  assumes "roomy s (q # qs)" and "distinct (map fst (rsBuckets s))"
  shows "snd (take_tokens (fst q) (fst (snd q)) rule (snd (snd q)) s)
       = s\<lparr>rsBuckets := AList.delete (fst q) (rsBuckets s) @ [(fst q, left_bucket rule q s)]\<rparr>"
    and "trAllowed (fst (take_tokens (fst q) (fst (snd q)) rule (snd (snd q)) s)) \<longleftrightarrow> fst (snd q) \<le> level rule s (fst q) (snd (snd q))"
  using find_bucket_kept [OF assms, of rule "snd (snd q)"]
  by (cases "find_bucket (fst q) rule (snd (snd q)) s"; simp add: take_tokens_def left_bucket_def level_def Let_def)+

definition after :: "BucketRule \<Rightarrow> request \<Rightarrow> RateStore \<Rightarrow> RateStore" where
  "after rule q s = s\<lparr>rsBuckets := AList.delete (fst q) (rsBuckets s) @ [(fst q, left_bucket rule q s)]\<rparr>"

lemma after_lookup: "map_of (rsBuckets (after rule q s)) k = (if k = fst q then Some (left_bucket rule q s) else map_of (rsBuckets s) k)"
  by (simp add: after_def map_of_append map_add_def delete_conv' split: option.splits)

lemma roomy_after: "roomy s (q # qs) \<Longrightarrow> roomy (after rule q s) qs"
proof -
  assume r: "roomy s (q # qs)"
  have "fst ` set (rsBuckets (after rule q s)) \<union> fst ` set qs \<subseteq> fst ` set (rsBuckets s) \<union> fst ` set (q # qs)"
    by (auto simp: after_def AList.delete_eq)
  then have "card (fst ` set (rsBuckets (after rule q s)) \<union> fst ` set qs) \<le> card (fst ` set (rsBuckets s) \<union> fst ` set (q # qs))"
    by (intro card_mono) simp_all
  then show ?thesis using r by (simp add: roomy_def after_def)
qed

lemma level_found:
  "level rule s k now = (case map_of (rsBuckets s) k of None \<Rightarrow> brCapacity rule
     | Some b \<Rightarrow> min (brCapacity rule) (bkTokens b + max 0 (now - bkTs b) * brRefillPerMs rule))"
  by (simp add: level_def find_bucket_def split: option.splits)

text \<open>A rule as the middleware makes them: neither the capacity nor the refill is negative.\<close>

definition rule_ok :: "BucketRule \<Rightarrow> bool" where
  "rule_ok rule \<longleftrightarrow> 0 \<le> brCapacity rule \<and> 0 \<le> brRefillPerMs rule"

lemma level_bounds:
  assumes "store_ok rule t s" and "rule_ok rule"
  shows "0 \<le> level rule s k now" "level rule s k now \<le> brCapacity rule"
  using assms by (auto simp: level_found store_ok_def rule_ok_def split: option.splits dest!: map_of_SomeD)

lemma left_bucket_ok:
  assumes "store_ok rule t s" and "rule_ok rule" and "0 \<le> fst (snd q)"
  shows "0 \<le> bkTokens (left_bucket rule q s)" "bkTokens (left_bucket rule q s) \<le> brCapacity rule"
    "bkTs (left_bucket rule q s) = snd (snd q)"
  using assms(3) level_bounds [OF assms(1,2), of "fst q" "snd (snd q)"]
  by (auto simp: left_bucket_def level_def Let_def) (simp add: find_bucket_def split: option.splits)

lemma store_ok_after:
  assumes "store_ok rule t s" and "rule_ok rule" and "t \<le> snd (snd q)" and "0 \<le> fst (snd q)"
  shows "store_ok rule (snd (snd q)) (after rule q s)"
  using assms left_bucket_ok [OF assms(1,2,4)]
  by (auto simp: store_ok_def after_def distinct_map_filter AList.delete_eq intro: order_trans)

lemma level_later:
  assumes "store_ok rule t s" and "rule_ok rule" and "t \<le> t'"
  shows "level rule s k t' \<le> level rule s k t + brRefillPerMs rule * (t' - t)"
proof (cases "map_of (rsBuckets s) k")
  case (Some b)
  then have "bkTs b \<le> t" using assms(1) map_of_SomeD [OF Some] by (auto simp: store_ok_def)
  moreover from this have "bkTokens b + (t' - bkTs b) * brRefillPerMs rule = bkTokens b + (t - bkTs b) * brRefillPerMs rule + brRefillPerMs rule * (t' - t)"
    by (simp add: algebra_simps)
  moreover have "0 \<le> brRefillPerMs rule * (t' - t)" using assms(2,3) by (simp add: rule_ok_def)
  ultimately show ?thesis using Some assms(3) by (simp add: level_found min_def max_def)
qed (use assms in \<open>simp add: level_found rule_ok_def\<close>)

lemma level_after:
  assumes "store_ok rule t s" and "rule_ok rule" and "0 \<le> fst (snd q)"
  shows "level rule (after rule q s) k (snd (snd q)) = level rule s k (snd (snd q)) -
    (if k = fst q \<and> fst (snd q) \<le> level rule s k (snd (snd q)) then fst (snd q) else 0)"
proof (cases "k = fst q")
  case True
  have "bkTokens (left_bucket rule q s) = level rule s k (snd (snd q)) - (if fst (snd q) \<le> level rule s k (snd (snd q)) then fst (snd q) else 0)"
    using True by (simp add: left_bucket_def level_def Let_def)
  then show ?thesis using True left_bucket_ok [OF assms] by (simp add: level_found [of _ "after rule q s"] after_lookup)
qed (simp add: level_found after_lookup)

lemma let_through_bound:
  assumes "rule_ok rule"
  shows "store_ok rule t s \<Longrightarrow> roomy s qs \<Longrightarrow> clock_from t qs \<Longrightarrow> \<forall>q \<in> set qs. 0 \<le> fst (snd q) \<and> snd (snd q) \<le> e \<Longrightarrow> t \<le> e \<Longrightarrow>
    let_through rule key qs s \<le> level rule s key t + brRefillPerMs rule * (e - t)"
proof (induction qs arbitrary: s t)
  case Nil
  have "0 \<le> brRefillPerMs rule * (e - t)" using Nil(5) assms by (simp add: rule_ok_def)
  then show ?case using level_bounds [OF Nil(1) assms, of key t] by simp
next
  case (Cons q qs)
  let ?t = "snd (snd q)"
  have q: "t \<le> ?t" "?t \<le> e" "0 \<le> fst (snd q)" using Cons.prems by simp_all
  note k = take_kept [OF Cons.prems(2)]
  have d: "distinct (map fst (rsBuckets s))" using Cons.prems(1) by (simp add: store_ok_def)
  have "let_through rule key qs (after rule q s) \<le> level rule (after rule q s) key ?t + brRefillPerMs rule * (e - ?t)"
    using Cons store_ok_after [OF Cons.prems(1) assms q(1,3)] roomy_after [OF Cons.prems(2)] by simp
  moreover have "level rule s key ?t \<le> level rule s key t + brRefillPerMs rule * (?t - t)"
    using level_later [OF Cons.prems(1) assms q(1)] .
  moreover have "let_through rule key (q # qs) s = (if key = fst q \<and> fst (snd q) \<le> level rule s key ?t then fst (snd q) else 0)
      + let_through rule key qs (after rule q s)"
    using k [OF d, of rule] by (auto simp: after_def split: prod.splits)
  moreover have "brRefillPerMs rule * (?t - t) + brRefillPerMs rule * (e - ?t) = brRefillPerMs rule * (e - t)"
    by (simp add: algebra_simps)
  ultimately show ?case using level_after [OF Cons.prems(1) assms q(3), of key] by linarith
qed

lemma run_ok:
  assumes "rule_ok rule"
  shows "store_ok rule t s \<Longrightarrow> roomy s (qs @ rs) \<Longrightarrow> clock_from t (qs @ rs) \<Longrightarrow> \<forall>q \<in> set qs. 0 \<le> fst (snd q) \<Longrightarrow>
    \<exists>t' \<ge> t. store_ok rule t' (take_all rule qs s) \<and> roomy (take_all rule qs s) rs \<and> clock_from t' rs"
proof (induction qs arbitrary: s t)
  case (Cons q qs)
  have d: "distinct (map fst (rsBuckets s))" using Cons.prems(1) by (simp add: store_ok_def)
  have q: "t \<le> snd (snd q)" "0 \<le> fst (snd q)" using Cons.prems by simp_all
  have "take_all rule (q # qs) s = take_all rule qs (after rule q s)"
    using take_kept [OF Cons.prems(2) [simplified] d, of rule] by (simp add: after_def)
  then show ?case
    using Cons.IH [OF store_ok_after [OF Cons.prems(1) assms q], of ] roomy_after [of s q "qs @ rs" rule] Cons.prems q order_trans by fastforce
qed auto

lemma rateLimit_ok:
  assumes "rateLimit opts = Inr rule"
  shows "rule_ok rule" "brCapacity rule = rlMax opts" "brRefillPerMs rule = rlMax opts / rlWindowMs opts" "0 < brRefillPerMs rule"
  using assms by (auto simp: rateLimit_def rule_ok_def split: if_splits)

lemma store_ok_later: "store_ok rule t s \<Longrightarrow> t \<le> t' \<Longrightarrow> store_ok rule t' s"
  by (auto simp: store_ok_def)

text \<open>
  A limit limits. Take any run of requests of any keys under one rule, with a clock that does not go back, on a store with
  room for the keys of the run. Of any stretch of it, what is let through for a key costs at most the maximum and what flows
  in between the first request of the stretch and its end: the maximum, once for every window that passes.
\<close>

theorem token_bucket_bound:
  assumes "rateLimit opts = Inr rule" and "clock_from t (qs @ rs)" and "\<forall>q \<in> set (qs @ rs). 0 \<le> fst (snd q)"
    and "card (fst ` set (qs @ rs)) \<le> mx" and "rs \<noteq> []" and "\<forall>q \<in> set rs. snd (snd q) \<le> e"
  shows "let_through rule key rs (take_all rule qs \<lparr>rsBuckets = [], rsMaxKeys = mx\<rparr>)
    \<le> rlMax opts + rlMax opts * ((e - snd (snd (hd rs))) / rlWindowMs opts)"
proof -
  note r = rateLimit_ok [OF assms(1)]
  let ?b = "snd (snd (hd rs))"
  have "store_ok rule t \<lparr>rsBuckets = [], rsMaxKeys = mx\<rparr>" "roomy \<lparr>rsBuckets = [], rsMaxKeys = mx\<rparr> (qs @ rs)"
    using assms(4) by (simp_all add: store_ok_def roomy_def)
  then obtain t' where t': "store_ok rule t' (take_all rule qs \<lparr>rsBuckets = [], rsMaxKeys = mx\<rparr>)"
      "roomy (take_all rule qs \<lparr>rsBuckets = [], rsMaxKeys = mx\<rparr>) rs" "clock_from t' rs"
    using run_ok [OF r(1)] assms(2,3) by (metis Un_iff set_append)
  have b: "t' \<le> ?b" "clock_from ?b rs" "?b \<le> e" using t'(3) assms(5,6) by (cases rs; simp)+
  let ?s = "take_all rule qs \<lparr>rsBuckets = [], rsMaxKeys = mx\<rparr>"
  have "let_through rule key rs ?s \<le> level rule ?s key ?b + brRefillPerMs rule * (e - ?b)"
    using let_through_bound [OF r(1) store_ok_later [OF t'(1) b(1)] t'(2) b(2) _ b(3)] assms(3,6) by simp
  then show ?thesis using level_bounds(2) [OF t'(1) r(1), of key ?b] r(2,3) by simp
qed

theorem token_bucket_bound_witness:
  "let_through \<lparr>brCapacity = 2, brRefillPerMs = 2 / 1000\<rparr> ''a'' [(''a'', 1, 500), (''a'', 1, 600)]
     (take_all \<lparr>brCapacity = 2, brRefillPerMs = 2 / 1000\<rparr> [(''a'', 1, 0), (''b'', 1, 10)] \<lparr>rsBuckets = [], rsMaxKeys = 2\<rparr>)
   \<le> 2 + 2 * ((600 - 500) / 1000)"
proof -
  let ?o = "\<lparr>rlWindowMs = 1000, rlMax = 2, rlKey = None, rlPrefix = None, rlHeaders = None\<rparr>"
  have "rateLimit ?o = Inr \<lparr>brCapacity = 2, brRefillPerMs = 2 / 1000\<rparr>" by (simp add: rateLimit_def)
  moreover have "card {''a'', ''b'', ''a''} \<le> 2" by (simp add: card_insert_if)
  ultimately show ?thesis using token_bucket_bound [of ?o _ 0 "[(''a'', 1, 0), (''b'', 1, 10)]" "[(''a'', 1, 500), (''a'', 1, 600)]" 2 600 "''a''"] by simp
qed

lemma drop_oldest_subset: "set (drop_oldest n bs) \<subseteq> set bs"
  by (induction n bs rule: drop_oldest.induct) auto

lemma find_bucket_fresh: "map_of (rsBuckets (snd (find_bucket key rule now s))) key = None"
proof (cases "map_of (rsBuckets s) key")
  case None
  then have "key \<notin> fst ` set (rsBuckets s)" by (simp add: map_of_eq_None_iff)
  moreover have "set (rsBuckets (evict now rule s)) \<subseteq> set (rsBuckets s)"
    using drop_oldest_subset by (fastforce simp: evict_def)
  ultimately show ?thesis unfolding find_bucket_def None by (auto simp: map_of_eq_None_iff)
qed (simp add: find_bucket_def delete_conv')

text \<open>
  The advice of a refusal is exact. A refused request whose cost is within the maximum is let through again, when
  nothing else has been asked for its key, from the very millisecond the refusal names, and not before.
\<close>

theorem retry_after_exact:
  assumes "rateLimit opts = Inr rule" and "take_tokens key cost rule now s = (r, s')" and "\<not> trAllowed r"
    and "cost \<le> brCapacity rule" and "0 \<le> n"
  shows "trAllowed (fst (take_tokens key cost rule (now + of_int n) s')) \<longleftrightarrow> trRetryAfterMs r \<le> n"
proof -
  note rl = rateLimit_ok [OF assms(1)]
  obtain b s1 where b: "find_bucket key rule now s = (b, s1)" by fastforce
  have f: "bkTokens b < cost" "bkTs b = now" "map_of (rsBuckets s1) key = None"
      "trRetryAfterMs r = \<lceil>(cost - bkTokens b) / brRefillPerMs rule\<rceil>" "s' = s1\<lparr>rsBuckets := rsBuckets s1 @ [(key, b)]\<rparr>"
    using assms(2,3) b find_bucket_fresh [of key rule now s]
    by (auto simp: take_tokens_def Let_def find_bucket_def split: if_splits option.splits)
  have "map_of (rsBuckets s') key = Some b" using f(3,5) by (simp add: map_of_append map_add_def)
  then have "bkTokens (fst (find_bucket key rule (now + of_int n) s')) = min (brCapacity rule) (bkTokens b + of_int n * brRefillPerMs rule)"
    using assms(5) f(2) by (simp add: find_bucket_def)
  moreover have "trAllowed (fst (take_tokens key cost rule t s')) \<longleftrightarrow> cost \<le> bkTokens (fst (find_bucket key rule t s'))" for t
    by (cases "find_bucket key rule t s'") (simp add: take_tokens_def Let_def)
  ultimately have "trAllowed (fst (take_tokens key cost rule (now + of_int n) s')) \<longleftrightarrow> cost \<le> min (brCapacity rule) (bkTokens b + of_int n * brRefillPerMs rule)"
    by simp
  also have "\<dots> \<longleftrightarrow> (cost - bkTokens b) / brRefillPerMs rule \<le> of_int n"
    using assms(4) rl(4) by (auto simp: pos_divide_le_eq)
  finally show ?thesis by (simp add: f(4) ceiling_le_iff)
qed

theorem retry_after_exact_witness:
  "\<exists>r s'. take_tokens ''a'' 1 \<lparr>brCapacity = 1, brRefillPerMs = 1 / 1000\<rparr> 250
       \<lparr>rsBuckets = [(''a'', \<lparr>bkTokens = 0, bkTs = 0\<rparr>)], rsMaxKeys = 9\<rparr> = (r, s') \<and>
     trAllowed (fst (take_tokens ''a'' 1 \<lparr>brCapacity = 1, brRefillPerMs = 1 / 1000\<rparr> (250 + of_int 750) s')) \<and>
     \<not> trAllowed (fst (take_tokens ''a'' 1 \<lparr>brCapacity = 1, brRefillPerMs = 1 / 1000\<rparr> (250 + of_int 749) s'))"
proof -
  let ?s = "\<lparr>rsBuckets = [(''a'', \<lparr>bkTokens = 0, bkTs = 0\<rparr>)], rsMaxKeys = 9\<rparr>" and ?r = "\<lparr>brCapacity = 1, brRefillPerMs = 1 / 1000\<rparr>"
  let ?o = "\<lparr>rlWindowMs = 1000, rlMax = 1, rlKey = None, rlPrefix = None, rlHeaders = None\<rparr>"
  have o: "rateLimit ?o = Inr ?r" by (simp add: rateLimit_def)
  obtain r s' where t: "take_tokens ''a'' 1 ?r 250 ?s = (r, s')" by fastforce
  then have r: "\<not> trAllowed r" "trRetryAfterMs r = 750" by (auto simp: take_tokens_def find_bucket_def Let_def)
  show ?thesis using retry_after_exact [OF o t r(1), of 750] retry_after_exact [OF o t r(1), of 749] t r(2) by (intro exI [of _ r] exI [of _ s']) simp
qed

end
