(* ===== verification/EdgeKeys.thy ===== *)
theory EdgeKeys imports EdgeIp EdgeLimit begin

text \<open>
  API keys (\<open>api-keys.ts\<close> of \<open>platform/edge/src\<close>): keys, the in-memory store and the middleware. SHA-256, base58 and the
  random bytes are arguments, as are the header values of a request. Times are whole milliseconds.
\<close>

unbundle bit_operations_syntax

subsection \<open>Keys\<close>

datatype ApiKeyEnv = EnvLive | EnvTest

definition env_text :: "ApiKeyEnv \<Rightarrow> string" where
  "env_text e = (case e of EnvLive \<Rightarrow> ''live'' | EnvTest \<Rightarrow> ''test'')"

definition char_between :: "char \<Rightarrow> char \<Rightarrow> char \<Rightarrow> bool" where
  "char_between a b c = (of_char a \<le> (of_char c :: nat) \<and> of_char c \<le> (of_char b :: nat))"

definition base58_char :: "char \<Rightarrow> bool" where
  "base58_char c = (char_between CHR ''1'' CHR ''9'' c \<or> char_between CHR ''A'' CHR ''H'' c \<or> char_between CHR ''J'' CHR ''N'' c
     \<or> char_between CHR ''P'' CHR ''Z'' c \<or> char_between CHR ''a'' CHR ''k'' c \<or> char_between CHR ''m'' CHR ''z'' c)"

definition key_secret :: "string \<Rightarrow> bool" where
  "key_secret s = (40 \<le> length s \<and> length s \<le> 50 \<and> list_all base58_char s)"

text \<open>\<open>API_KEY_RE\<close> and what it captures of the environment.\<close>

definition parseApiKey :: "string \<Rightarrow> ApiKeyEnv option" where
  "parseApiKey key =
     (if take 9 key = ''bsh_live_'' \<and> key_secret (drop 9 key) then Some EnvLive
      else if take 9 key = ''bsh_test_'' \<and> key_secret (drop 9 key) then Some EnvTest else None)"

definition hashApiKey :: "(bytes \<Rightarrow> bytes) \<Rightarrow> string \<Rightarrow> string" where
  "hashApiKey sha key = hex_string (sha (utf8 (js key)))"

function pad_secret :: "string \<Rightarrow> string" where
  "pad_secret secret = (if length secret < 40 then pad_secret (CHR ''1'' # secret) else secret)"
  by auto
termination by (relation "measure (\<lambda>s. 40 - length s)") auto

declare pad_secret.simps [simp del]

text \<open>A new key, its hash and its hint, of which the ellipsis is left out.\<close>

definition generateApiKey :: "(bytes \<Rightarrow> bytes) \<Rightarrow> (bytes \<Rightarrow> string) \<Rightarrow> ApiKeyEnv \<Rightarrow> bytes \<Rightarrow> string \<times> string \<times> string" where
  "generateApiKey sha base58 env random =
     (let secret = pad_secret (base58 random);
          key = ''bsh_'' @ env_text env @ ''_'' @ secret
      in (key, hashApiKey sha key, ''bsh_'' @ env_text env @ ''_'' @ drop (length secret - 4) secret))"

primrec char_diff :: "nat \<Rightarrow> (char \<times> char) list \<Rightarrow> nat" where
  "char_diff d [] = d"
| "char_diff d (p # ps) = char_diff (d OR (of_char (fst p) XOR of_char (snd p))) ps"

definition timingSafeEqual :: "string \<Rightarrow> string \<Rightarrow> bool" where
  "timingSafeEqual a b = (if length a \<noteq> length b then False else char_diff 0 (zip a b) = 0)"

subsection \<open>The store\<close>

record ApiKeyRecord =
  arId :: string
  arHash :: string
  arEnv :: ApiKeyEnv
  arScopes :: "string list"
  arOwnerId :: "string option"
  arRevokedAt :: "int option"
  arExpiresAt :: "int option"
  arQuota :: "(int \<times> int) option"

record KeyUsage =
  kuCount :: int
  kuExpires :: int

record ApiKeyStore =
  asByHash :: "(string \<times> ApiKeyRecord) list"
  asUsage :: "(string \<times> KeyUsage) list"

definition key_add_record :: "ApiKeyRecord \<Rightarrow> ApiKeyStore \<Rightarrow> string + ApiKeyStore" where
  "key_add_record r s =
     (if \<not> (length (arHash r) = 64 \<and> list_all (\<lambda>c. char_between CHR ''0'' CHR ''9'' c \<or> char_between CHR ''a'' CHR ''f'' c) (arHash r))
      then Inl ''hash must be SHA-256 hex''
      else Inr (s\<lparr>asByHash := AList.update (arHash r) r (asByHash s)\<rparr>))"

definition key_revoke :: "string \<Rightarrow> int \<Rightarrow> ApiKeyStore \<Rightarrow> ApiKeyStore" where
  "key_revoke i time s =
     s\<lparr>asByHash := map (\<lambda>(h, r). (h, if arId r = i then r\<lparr>arRevokedAt := Some time\<rparr> else r)) (asByHash s)\<rparr>"

definition findByHash :: "string \<Rightarrow> ApiKeyStore \<Rightarrow> ApiKeyRecord option" where
  "findByHash h s = map_of (asByHash s) h"

definition usage_key :: "string \<Rightarrow> int \<Rightarrow> string" where
  "usage_key i windowStart = i @ '':'' @ string_of_int windowStart"

definition incrementUsage :: "string \<Rightarrow> int \<Rightarrow> int \<Rightarrow> ApiKeyStore \<Rightarrow> int \<times> ApiKeyStore" where
  "incrementUsage i windowStart windowMs s =
     (let k = usage_key i windowStart;
          usage = (if length (asUsage s) > 10000 then filter (\<lambda>(_, v). \<not> kuExpires v \<le> windowStart) (asUsage s) else asUsage s);
          e = (case map_of usage k of Some e \<Rightarrow> e | None \<Rightarrow> \<lparr>kuCount = 0, kuExpires = windowStart + windowMs\<rparr>);
          e1 = e\<lparr>kuCount := kuCount e + 1\<rparr>
      in (kuCount e1, s\<lparr>asUsage := AList.update k e1 usage\<rparr>))"

subsection \<open>The middleware\<close>

record ApiKeysOptions =
  aoRequired :: "bool option"
  aoScopes :: "string list option"
  aoEnvironment :: "ApiKeyEnv option"

record ApiKeyPrincipal =
  apId :: string
  apEnv :: ApiKeyEnv
  apScopes :: "string list"
  apOwnerId :: "string option"

text \<open>How a request ends here: refused with status, code and headers, or passed on.\<close>

datatype key_outcome =
    KeyRefused nat string "(string \<times> string) list"
  | KeyAnonymous
  | KeyAdmitted ApiKeyPrincipal "(string \<times> string) list"

definition in_quotes :: "string \<Rightarrow> string" where "in_quotes s = CHR 0x22 # s @ [CHR 0x22]"

definition BEARER_REALM :: string where "BEARER_REALM = ''Bearer realm='' @ in_quotes ''api''"

definition WWW_AUTH :: string where "WWW_AUTH = BEARER_REALM @ '', error='' @ in_quotes ''invalid_token''"

definition bearer_key :: "string \<Rightarrow> string option" where
  "bearer_key auth =
     (let r = drop 6 auth; k = dropWhile text_space r in
      if lower_string (take 6 auth) = ''bearer'' \<and> k \<noteq> r \<and> lower_string (take 4 k) = ''bsh_'' \<and> length k > 4 \<and>
         list_all (\<lambda>c. \<not> text_space c) k
      then Some k else None)"

definition presented_key :: "string option \<Rightarrow> string option \<Rightarrow> string option" where
  "presented_key header auth =
     (case map_option trim_text header of
        Some (c # cs) \<Rightarrow> Some (c # cs)
      | _ \<Rightarrow> (case auth of Some (a # as) \<Rightarrow> bearer_key (trim_text (a # as)) | _ \<Rightarrow> None))"

definition invalid_key :: key_outcome where
  "invalid_key = KeyRefused 401 ''invalid_api_key'' [(''WWW-Authenticate'', WWW_AUTH)]"

text \<open>The quota of a record: the headers, and whether the request is over it.\<close>

definition check_quota :: "ApiKeyRecord \<Rightarrow> int \<Rightarrow> ApiKeyStore \<Rightarrow> (string \<times> string) list \<times> string option \<times> ApiKeyStore" where
  "check_quota r t s =
     (case arQuota r of
        None \<Rightarrow> ([], None, s)
      | Some (limit, windowMs) \<Rightarrow>
          let windowStart = t div windowMs * windowMs;
              (used, s1) = incrementUsage (arId r) windowStart windowMs s;
              resetS = max 1 \<lceil>of_int (windowStart + windowMs - t) / 1000 :: rat\<rceil>
          in ([(''X-Quota-Limit'', string_of_int limit), (''X-Quota-Remaining'', string_of_int (max 0 (limit - used))),
               (''X-Quota-Reset'', string_of_int resetS)],
              if used > limit then Some (string_of_int resetS) else None, s1))"

definition key_admit :: "ApiKeyRecord \<Rightarrow> int \<Rightarrow> ApiKeyStore \<Rightarrow> key_outcome \<times> ApiKeyStore" where
  "key_admit r t s =
     (let (hdrs, over, s1) = check_quota r t s in
      (case over of
         Some resetS \<Rightarrow> (KeyRefused 429 ''quota_exceeded'' (hdrs @ [(''Retry-After'', resetS)]), s1)
       | None \<Rightarrow> (KeyAdmitted \<lparr>apId = arId r, apEnv = arEnv r, apScopes = arScopes r, apOwnerId = arOwnerId r\<rparr> hdrs, s1)))"

definition apiKeys ::
  "(bytes \<Rightarrow> bytes) \<Rightarrow> ApiKeysOptions \<Rightarrow> string option \<Rightarrow> string option \<Rightarrow> int \<Rightarrow> ApiKeyStore \<Rightarrow> key_outcome \<times> ApiKeyStore" where
  "apiKeys sha opts header auth t s =
     (let requiredScopes = (case aoScopes opts of None \<Rightarrow> [] | Some ss \<Rightarrow> ss) in
      case presented_key header auth of
        None \<Rightarrow>
          (if aoRequired opts = Some False then KeyAnonymous
           else KeyRefused 401 ''missing_api_key'' [(''WWW-Authenticate'', BEARER_REALM)], s)
      | Some presented \<Rightarrow>
          (case parseApiKey presented of
             None \<Rightarrow> (invalid_key, s)
           | Some env \<Rightarrow>
               if aoEnvironment opts \<noteq> None \<and> aoEnvironment opts \<noteq> Some env then (invalid_key, s)
               else
                 let hash = hashApiKey sha presented in
                 case findByHash hash s of
                   None \<Rightarrow> (invalid_key, s)
                 | Some r \<Rightarrow>
                     if \<not> timingSafeEqual (arHash r) hash \<or> arEnv r \<noteq> env then (invalid_key, s)
                     else if (case arRevokedAt r of None \<Rightarrow> False | Some x \<Rightarrow> x \<le> t) then (invalid_key, s)
                     else if (case arExpiresAt r of None \<Rightarrow> False | Some x \<Rightarrow> x \<le> t) then (invalid_key, s)
                     else if filter (\<lambda>sc. sc \<notin> set (arScopes r)) requiredScopes \<noteq> []
                     then (KeyRefused 403 ''insufficient_scope''
                             [(''WWW-Authenticate'', BEARER_REALM @ '', error='' @ in_quotes ''insufficient_scope'' @ '', scope='' @
                                 in_quotes (join_on CHR '' '' requiredScopes))], s)
                     else key_admit r t s))"

subsection \<open>Which keys are let in\<close>

lemma char_diff_zero: "char_diff d ps = 0 \<longleftrightarrow> d = 0 \<and> (\<forall>p \<in> set ps. fst p = snd p)"
proof (induction ps arbitrary: d)
  case (Cons p ps)
  have "of_char a XOR of_char b = (0 :: nat) \<longleftrightarrow> a = b" for a b :: char
  proof
    assume x: "of_char a XOR of_char b = (0 :: nat)"
    have "bit (of_char a :: nat) n = bit (of_char b :: nat) n" for n using arg_cong [OF x, of "\<lambda>v. bit v n"] by (auto simp: bit_xor_iff)
    then have "(of_char a :: nat) = of_char b" by (rule bit_eqI)
    then show "a = b" by simp
  qed simp
  then show ?case using Cons by (auto simp: or_eq_0_iff)
qed simp

lemma timingSafeEqual_iff: "timingSafeEqual a b \<longleftrightarrow> a = b"
proof
  assume "timingSafeEqual a b"
  then have l: "length a = length b" and "\<forall>p \<in> set (zip a b). fst p = snd p"
    by (simp_all add: timingSafeEqual_def char_diff_zero split: if_splits)
  then show "a = b" by (simp add: list_eq_iff_zip_eq case_prod_beta)
qed (auto simp: timingSafeEqual_def char_diff_zero zip_same_conv_map)

text \<open>
  Whom an API key lets in. A request is admitted, as a certain principal, exactly when it presents a key of the right
  form and environment whose hash is recorded, the record being of that hash and environment, neither revoked nor expired
  and of every scope asked for, and the record's quota is not used up; the principal is the record's.
\<close>

theorem api_key_admits_iff:
  "fst (apiKeys sha opts header auth t s) = KeyAdmitted p hdrs \<longleftrightarrow>
    (\<exists>key env r. presented_key header auth = Some key \<and> parseApiKey key = Some env \<and>
       (aoEnvironment opts = None \<or> aoEnvironment opts = Some env) \<and>
       findByHash (hashApiKey sha key) s = Some r \<and> arHash r = hashApiKey sha key \<and> arEnv r = env \<and>
       (\<forall>x. arRevokedAt r = Some x \<longrightarrow> t < x) \<and> (\<forall>x. arExpiresAt r = Some x \<longrightarrow> t < x) \<and>
       (\<forall>sc \<in> set (case aoScopes opts of None \<Rightarrow> [] | Some ss \<Rightarrow> ss). sc \<in> set (arScopes r)) \<and>
       p = \<lparr>apId = arId r, apEnv = arEnv r, apScopes = arScopes r, apOwnerId = arOwnerId r\<rparr> \<and>
       hdrs = fst (check_quota r t s) \<and> fst (snd (check_quota r t s)) = None)"
proof -
  have e: "filter (\<lambda>sc. sc \<notin> A) ss = [] \<longleftrightarrow> (\<forall>sc \<in> set ss. sc \<in> A)" for ss and A :: "string set"
    by (simp add: filter_empty_conv)
  show ?thesis
    by (auto simp: apiKeys_def key_admit_def Let_def e timingSafeEqual_iff not_le invalid_key_def split: option.splits prod.splits if_splits)
qed

subsection \<open>Quotas\<close>

lemma string_of_int_inj: "string_of_int a = string_of_int b \<longleftrightarrow> a = b"
proof -
  have n: "digits_of_nat m = digits_of_nat n \<longleftrightarrow> m = n" for m n using num_digits_of_nat by metis
  have "CHR ''-'' # digits_of_nat m \<noteq> digits_of_nat n" for m n
    using digits_of_nat_digits [of n] by (cases "digits_of_nat n") (auto simp: is_digit_def digit_val_def Let_def)
  then show ?thesis by (auto simp: string_of_int_def n dest: sym)
qed

lemma string_of_int_plain: "CHR '':'' \<notin> set (string_of_int a)"
  using digits_of_nat_digits digit_plain by (auto simp: string_of_int_def list_all_iff)

lemma last_colon: "CHR '':'' \<notin> set x \<Longrightarrow> CHR '':'' \<notin> set y \<Longrightarrow> a @ CHR '':'' # x = b @ CHR '':'' # y \<Longrightarrow> a = b \<and> x = y"
  by (auto simp: append_eq_append_conv2 append_eq_Cons_conv Cons_eq_append_conv)

lemma usage_key_inj: "usage_key i w = usage_key j v \<longleftrightarrow> i = j \<and> w = v"
  using last_colon [OF string_of_int_plain string_of_int_plain, of i w j v] by (auto simp: usage_key_def string_of_int_inj)

lemma map_of_filter_distinct:
  "distinct (map fst m) \<Longrightarrow> map_of (filter P m) k = (case map_of m k of None \<Rightarrow> None | Some v \<Rightarrow> if P (k, v) then Some v else None)"
  by (induction m) (auto simp: map_of_eq_None_iff image_iff split: option.splits)

definition usage_ok :: "string \<Rightarrow> int \<Rightarrow> int \<Rightarrow> ApiKeyStore \<Rightarrow> bool" where
  "usage_ok i w windowMs s \<longleftrightarrow> distinct (map fst (asUsage s)) \<and>
     (\<forall>e. map_of (asUsage s) (usage_key i w) = Some e \<longrightarrow> kuExpires e = w + windowMs)"

definition used :: "string \<Rightarrow> int \<Rightarrow> ApiKeyStore \<Rightarrow> int" where
  "used i w s = (case map_of (asUsage s) (usage_key i w) of None \<Rightarrow> 0 | Some e \<Rightarrow> kuCount e)"

lemma incrementUsage_used:
  assumes "usage_ok i w windowMs s" and "i = j \<and> w = v \<longrightarrow> m = windowMs"
  shows "usage_ok i w windowMs (snd (incrementUsage j v m s))"
    and "v < w + windowMs \<Longrightarrow> used i w (snd (incrementUsage j v m s)) = used i w s + (if i = j \<and> w = v then 1 else 0)"
    and "i = j \<and> w = v \<Longrightarrow> 0 < windowMs \<Longrightarrow> fst (incrementUsage j v m s) = used i w s + 1"
    and "asByHash (snd (incrementUsage j v m s)) = asByHash s"
  using assms
  by (auto simp: incrementUsage_def Let_def usage_ok_def used_def distinct_update update_conv' usage_key_inj map_of_filter_distinct
      distinct_map_filter split: option.splits if_splits)

lemma incrementUsage_pos:
  assumes "usage_ok i w windowMs s" and "0 \<le> used i w s"
  shows "0 \<le> used i w (snd (incrementUsage j v m s))"
  using assms
  by (auto simp: incrementUsage_def Let_def usage_ok_def used_def update_conv' usage_key_inj map_of_filter_distinct
      simp del: map_of_eq_Some_iff split: option.splits if_splits)

text \<open>Requests one after the other, and how many the key of an identity lets in within a window.\<close>

record KeyRequest =
  kqOpts :: ApiKeysOptions
  kqHeader :: "string option"
  kqAuth :: "string option"
  kqTime :: int

primrec admitted_within :: "(bytes \<Rightarrow> bytes) \<Rightarrow> string \<Rightarrow> int \<Rightarrow> int \<Rightarrow> KeyRequest list \<Rightarrow> ApiKeyStore \<Rightarrow> int" where
  "admitted_within sha i w windowMs [] s = 0"
| "admitted_within sha i w windowMs (q # qs) s =
     (let (out, s1) = apiKeys sha (kqOpts q) (kqHeader q) (kqAuth q) (kqTime q) s in
      (if w \<le> kqTime q \<and> kqTime q < w + windowMs \<and> (case out of KeyAdmitted p _ \<Rightarrow> apId p = i | _ \<Rightarrow> False) then 1 else 0)
      + admitted_within sha i w windowMs qs s1)"

primrec in_order :: "int \<Rightarrow> KeyRequest list \<Rightarrow> bool" where
  "in_order t [] = True"
| "in_order t (q # qs) = (t \<le> kqTime q \<and> in_order (kqTime q) qs)"

text \<open>What a request does to the store: nothing, or it counts once for a record, and is let in only within its limit.\<close>

lemma apiKeys_counts:
  obtains "snd (apiKeys sha opts header auth t s) = s"
      and "\<And>p hdrs. fst (apiKeys sha opts header auth t s) = KeyAdmitted p hdrs \<Longrightarrow>
         \<exists>h r. map_of (asByHash s) h = Some r \<and> apId p = arId r \<and> arQuota r = None"
  | h r limit m where "map_of (asByHash s) h = Some r" and "arQuota r = Some (limit, m)"
      and "snd (apiKeys sha opts header auth t s) = snd (incrementUsage (arId r) (t div m * m) m s)"
      and "\<And>p hdrs. fst (apiKeys sha opts header auth t s) = KeyAdmitted p hdrs \<Longrightarrow>
         apId p = arId r \<and> fst (incrementUsage (arId r) (t div m * m) m s) \<le> limit"
proof -
  have "(snd (apiKeys sha opts header auth t s) = s \<and> (\<forall>p hdrs. fst (apiKeys sha opts header auth t s) \<noteq> KeyAdmitted p hdrs)) \<or>
      (\<exists>h r. map_of (asByHash s) h = Some r \<and> apiKeys sha opts header auth t s = key_admit r t s)"
    by (auto simp: apiKeys_def Let_def findByHash_def invalid_key_def split: option.splits if_splits)
  then show ?thesis
  proof
    assume "\<exists>h r. map_of (asByHash s) h = Some r \<and> apiKeys sha opts header auth t s = key_admit r t s"
    then obtain h r where r: "map_of (asByHash s) h = Some r" "apiKeys sha opts header auth t s = key_admit r t s" by blast
    show ?thesis
    proof (cases "arQuota r")
      case None
      then have "snd (key_admit r t s) = s" "\<And>p hdrs. fst (key_admit r t s) = KeyAdmitted p hdrs \<Longrightarrow> apId p = arId r"
        by (auto simp: key_admit_def check_quota_def)
      then show ?thesis using that(1) r None by metis
    next
      case (Some lm)
      obtain l m where lm: "lm = (l, m)" by fastforce
      have "snd (key_admit r t s) = snd (incrementUsage (arId r) (t div m * m) m s)"
          "\<And>p hdrs. fst (key_admit r t s) = KeyAdmitted p hdrs \<Longrightarrow> apId p = arId r \<and> fst (incrementUsage (arId r) (t div m * m) m s) \<le> l"
        using Some lm by (cases "incrementUsage (arId r) (t div m * m) m s"; auto simp: key_admit_def check_quota_def Let_def split: if_splits)+
      then show ?thesis using that(2) [OF r(1)] r(2) Some lm by metis
    qed
  qed (use that(1) in blast)
qed

lemma admitted_bound:
  assumes "0 < windowMs" and "w mod windowMs = 0"
  shows "usage_ok i w windowMs s \<Longrightarrow> 0 \<le> used i w s \<Longrightarrow> in_order t qs \<Longrightarrow>
    \<forall>h r. map_of (asByHash s) h = Some r \<longrightarrow> (arId r = i \<longrightarrow> arQuota r = Some (limit, windowMs)) \<and>
      (\<forall>l m. arQuota r = Some (l, m) \<longrightarrow> 0 < m) \<Longrightarrow>
    admitted_within sha i w windowMs qs s \<le> (if w + windowMs \<le> t then 0 else max 0 (limit - used i w s))"
proof (induction qs arbitrary: s t)
  case (Cons q qs)
  let ?a = "apiKeys sha (kqOpts q) (kqHeader q) (kqAuth q) (kqTime q) s"
  have t: "t \<le> kqTime q" "in_order (kqTime q) qs" using Cons.prems(3) by simp_all
  have win: "kqTime q div windowMs * windowMs = w \<longleftrightarrow> w \<le> kqTime q \<and> kqTime q < w + windowMs"
  proof
    assume "kqTime q div windowMs * windowMs = w"
    then have "w + kqTime q mod windowMs = kqTime q" using div_mult_mod_eq [of "kqTime q" windowMs] by simp
    moreover have "0 \<le> kqTime q mod windowMs" "kqTime q mod windowMs < windowMs" using assms(1) by simp_all
    ultimately show "w \<le> kqTime q \<and> kqTime q < w + windowMs" by linarith
  next
    assume k: "w \<le> kqTime q \<and> kqTime q < w + windowMs"
    obtain c where c: "w = windowMs * c" using assms(2) by auto
    have "kqTime q = (kqTime q - w) + c * windowMs" using c by simp
    then have "kqTime q div windowMs = ((kqTime q - w) + c * windowMs) div windowMs" by simp
    also have "\<dots> = c" using k assms(1) by simp
    finally have "kqTime q div windowMs = c" .
    then show "kqTime q div windowMs * windowMs = w" using c by simp
  qed
  show ?case
  proof (rule apiKeys_counts [of sha "kqOpts q" "kqHeader q" "kqAuth q" "kqTime q" s])
    assume "snd ?a = s" and n: "\<And>p hdrs. fst ?a = KeyAdmitted p hdrs \<Longrightarrow> \<exists>h r. map_of (asByHash s) h = Some r \<and> apId p = arId r \<and> arQuota r = None"
    moreover have "apId p \<noteq> i" if "fst ?a = KeyAdmitted p hdrs" for p hdrs using n [OF that] Cons.prems(4) by fastforce
    ultimately have "admitted_within sha i w windowMs (q # qs) s = admitted_within sha i w windowMs qs s"
      by (auto simp: split: prod.splits key_outcome.splits)
    then show ?thesis using Cons.IH [OF Cons.prems(1,2) t(2) Cons.prems(4)] t(1) by (auto split: if_splits)
  next
    fix h r l m
    assume r: "map_of (asByHash s) h = Some r" "arQuota r = Some (l, m)"
      and s1: "snd ?a = snd (incrementUsage (arId r) (kqTime q div m * m) m s)"
      and adm: "\<And>p hdrs. fst ?a = KeyAdmitted p hdrs \<Longrightarrow> apId p = arId r \<and> fst (incrementUsage (arId r) (kqTime q div m * m) m s) \<le> l"
    have m: "0 < m" "arId r = i \<longrightarrow> m = windowMs \<and> l = limit" using Cons.prems(4) r by auto
    note u = incrementUsage_used [OF Cons.prems(1), of "arId r" "kqTime q div m * m" m, folded s1]
    have mm: "i = arId r \<and> w = kqTime q div m * m \<longrightarrow> m = windowMs" using m(2) by auto
    have v: "kqTime q div m * m \<le> kqTime q" using m(1) by (simp add: minus_mod_eq_div_mult [symmetric])
    have hit: "i = arId r \<and> w = kqTime q div m * m \<and> used i w s + 1 \<le> limit"
      if a: "w \<le> kqTime q \<and> kqTime q < w + windowMs \<and> (case fst ?a of KeyAdmitted p _ \<Rightarrow> apId p = i | _ \<Rightarrow> False)"
    proof -
      obtain p hdrs where p: "fst ?a = KeyAdmitted p hdrs" "apId p = i" using a by (cases "fst ?a") auto
      have i: "arId r = i" and l: "fst (incrementUsage (arId r) (kqTime q div m * m) m s) \<le> l" using adm [OF p(1)] p(2) by simp_all
      then have c: "m = windowMs" "l = limit" using m(2) by simp_all
      have w: "w = kqTime q div m * m" using win a unfolding c by blast
      have "fst (incrementUsage (arId r) (kqTime q div m * m) m s) = used i w s + 1" by (rule u(3) [OF mm]) (use i w assms(1) in auto)
      then show ?thesis using i w l c by simp
    qed
    have pos: "0 \<le> used i w (snd ?a)" unfolding s1 by (rule incrementUsage_pos [OF Cons.prems(1,2)])
    have IH: "admitted_within sha i w windowMs qs (snd ?a) \<le> (if w + windowMs \<le> kqTime q then 0 else max 0 (limit - used i w (snd ?a)))"
      using Cons.IH [OF u(1) [OF mm] pos t(2)] Cons.prems(4) u(4) [OF mm] by simp
    let ?hit = "w \<le> kqTime q \<and> kqTime q < w + windowMs \<and> (case fst ?a of KeyAdmitted p _ \<Rightarrow> apId p = i | _ \<Rightarrow> False)"
    have e: "admitted_within sha i w windowMs (q # qs) s = (if ?hit then 1 else 0) + admitted_within sha i w windowMs qs (snd ?a)"
      by (simp split: prod.splits)
    show ?thesis
    proof (cases ?hit)
      case True
      then have h: "i = arId r \<and> w = kqTime q div m * m \<and> used i w s + 1 \<le> limit" by (rule hit)
      then have "used i w (snd ?a) = used i w s + 1" using u(2) [OF mm] assms(1) by simp
      then show ?thesis using IH e True h t(1) by auto
    next
      case False
      have "used i w s \<le> used i w (snd ?a)" if "kqTime q < w + windowMs" using u(2) [OF mm] v that by simp
      then show ?thesis using IH e False t(1) by (auto split: if_splits)
    qed
  qed
qed simp

text \<open>
  C40: a quota holds. Let the records of an identity give it one quota and all quotas have real windows. Then, of any requests
  with a clock that does not go back, whatever other keys are used in between and however the counts are swept, its keys let
  in at most the limit within a window.
\<close>

theorem key_quota_bound:
  assumes "0 < windowMs" and "w mod windowMs = 0" and "asUsage s = []" and "in_order t qs"
    and "\<forall>h r. map_of (asByHash s) h = Some r \<longrightarrow>
      (arId r = i \<longrightarrow> arQuota r = Some (limit, windowMs)) \<and> (\<forall>l m. arQuota r = Some (l, m) \<longrightarrow> 0 < m)"
  shows "admitted_within sha i w windowMs qs s \<le> max 0 limit"
proof -
  have "usage_ok i w windowMs s" "used i w s = 0" using assms(3) by (simp_all add: usage_ok_def used_def)
  then show ?thesis using admitted_bound [OF assms(1,2), of i s t qs limit sha] assms(4,5) by (auto split: if_splits)
qed

text \<open>
  A new key is a key. With base58 texts of at most 50 letters of its alphabet, as 32 bytes have them, what is generated
  for an environment is parsed as a key of that environment, its hash is the one that is looked up, and its record lets it in.
\<close>

theorem new_key_works:
  assumes "\<And>b. length (base58 b) \<le> 50 \<and> list_all base58_char (base58 b)"
    and "generateApiKey sha base58 env random = (key, hash, hint)"
    and "key_add_record \<lparr>arId = i, arHash = hash, arEnv = env, arScopes = scopes, arOwnerId = owner, arRevokedAt = None,
      arExpiresAt = None, arQuota = None\<rparr> s = Inr s'"
    and "aoEnvironment opts \<in> {None, Some env}" and "set (case aoScopes opts of None \<Rightarrow> [] | Some ss \<Rightarrow> ss) \<subseteq> set scopes"
  shows "parseApiKey key = Some env \<and>
    fst (apiKeys sha opts (Some key) auth t s') = KeyAdmitted \<lparr>apId = i, apEnv = env, apScopes = scopes, apOwnerId = owner\<rparr> []"
proof -
  have pad: "length u \<le> 50 \<Longrightarrow> list_all base58_char u \<Longrightarrow> key_secret (pad_secret u)" for u
  proof (induction u rule: pad_secret.induct)
    case (1 u)
    have one: "base58_char CHR ''1''" by (simp add: base58_char_def char_between_def)
    show ?case using 1 one by (subst pad_secret.simps) (simp add: key_secret_def)
  qed
  have k: "key = ''bsh_'' @ env_text env @ ''_'' @ pad_secret (base58 random)" and h: "hash = hashApiKey sha key"
    using assms(2) by (auto simp: generateApiKey_def Let_def)
  have p: "parseApiKey key = Some env" using pad assms(1) unfolding k by (cases env) (simp_all add: parseApiKey_def env_text_def)
  have "\<not> text_space c" if "c \<in> set key" for c
  proof -
    have "\<not> text_space c" if "base58_char c" for c using that by (auto simp: base58_char_def char_between_def text_space_def Let_def)
    moreover have "list_all base58_char (pad_secret (base58 random))" using pad assms(1) by (simp add: key_secret_def)
    ultimately show ?thesis using that unfolding k by (cases env) (auto simp: env_text_def text_space_def list_all_iff)
  qed
  then have "trim_text key = key" by (rule trim_text_id)
  then have "presented_key (Some key) auth = Some key" using k by (simp add: presented_key_def)
  moreover have "findByHash (hashApiKey sha key) s' = Some \<lparr>arId = i, arHash = hash, arEnv = env, arScopes = scopes, arOwnerId = owner,
      arRevokedAt = None, arExpiresAt = None, arQuota = None\<rparr>"
    using assms(3) h by (auto simp: key_add_record_def findByHash_def update_conv' split: if_splits)
  ultimately have "fst (apiKeys sha opts (Some key) auth t s') = KeyAdmitted \<lparr>apId = i, apEnv = env, apScopes = scopes, apOwnerId = owner\<rparr> []"
    using p h assms(4,5) by (auto simp: api_key_admits_iff check_quota_def)
  with p show ?thesis by blast
qed

text \<open>A key with a quota of two requests a second: it lets the first in, and no more than two of three.\<close>

definition quota_key :: string where "quota_key = ''bsh_live_'' @ replicate 40 CHR ''1''"

definition quota_record :: ApiKeyRecord where
  "quota_record = \<lparr>arId = ''k'', arHash = hashApiKey (\<lambda>_. replicate 32 7) quota_key, arEnv = EnvLive, arScopes = [''mint''], arOwnerId = None,
     arRevokedAt = None, arExpiresAt = None, arQuota = Some (2, 1000)\<rparr>"

definition quota_store :: ApiKeyStore where
  "quota_store = \<lparr>asByHash = [(arHash quota_record, quota_record)], asUsage = []\<rparr>"

definition quota_options :: ApiKeysOptions where
  "quota_options = \<lparr>aoRequired = None, aoScopes = Some [''mint''], aoEnvironment = Some EnvLive\<rparr>"

definition quota_request :: "int \<Rightarrow> KeyRequest" where
  "quota_request t = \<lparr>kqOpts = quota_options, kqHeader = Some quota_key, kqAuth = None, kqTime = t\<rparr>"

lemma quota_key_presented: "presented_key (Some quota_key) auth = Some quota_key" "parseApiKey quota_key = Some EnvLive"
proof -
  have "trim_text quota_key = quota_key"
    by (rule trim_text_id) (auto simp: quota_key_def text_space_def)
  then show "presented_key (Some quota_key) auth = Some quota_key" by (simp add: presented_key_def quota_key_def)
  show "parseApiKey quota_key = Some EnvLive"
    by (simp add: parseApiKey_def quota_key_def key_secret_def list_all_iff base58_char_def char_between_def)
qed

theorem key_quota_bound_witness:
  "(\<exists>p hdrs. fst (apiKeys (\<lambda>_. replicate 32 7) quota_options (Some quota_key) None 0 quota_store) = KeyAdmitted p hdrs \<and> apId p = ''k'') \<and>
   admitted_within (\<lambda>_. replicate 32 7) ''k'' 0 1000 [quota_request 0, quota_request 1, quota_request 999] quota_store \<le> 2"
proof
  let ?p = "\<lparr>apId = ''k'', apEnv = EnvLive, apScopes = [''mint''], apOwnerId = None\<rparr>"
  have "fst (snd (check_quota quota_record 0 quota_store)) = None"
    by (simp add: check_quota_def quota_record_def quota_store_def incrementUsage_def Let_def)
  then have "fst (apiKeys (\<lambda>_. replicate 32 7) quota_options (Some quota_key) None 0 quota_store) =
      KeyAdmitted ?p (fst (check_quota quota_record 0 quota_store))"
    unfolding api_key_admits_iff
    by (intro exI [of _ quota_key] exI [of _ EnvLive] exI [of _ quota_record])
      (simp add: quota_key_presented quota_options_def findByHash_def quota_store_def, simp add: quota_record_def)
  then show "\<exists>p hdrs. fst (apiKeys (\<lambda>_. replicate 32 7) quota_options (Some quota_key) None 0 quota_store) = KeyAdmitted p hdrs \<and> apId p = ''k''"
    by (intro exI conjI) (assumption, simp)
  show "admitted_within (\<lambda>_. replicate 32 7) ''k'' 0 1000 [quota_request 0, quota_request 1, quota_request 999] quota_store \<le> 2"
    using key_quota_bound [of 1000 0 quota_store 0 "[quota_request 0, quota_request 1, quota_request 999]" "''k''" 2]
    by (simp add: quota_store_def quota_request_def quota_record_def del: admitted_within.simps)
qed

end
