(* ===== verification/Spec2Isabelle.thy ===== *)
theory Spec2Isabelle imports Roundtrip Wallet EventsLedger EventsDrain SignerProps MintPsbtProps MintContent IdSignIn IdSession EdgeClient EdgeKeys begin

text \<open>
  Verification of the core of the scribbit repository (TypeScript). Seven parts are modelled: the
  inscription library (\<open>src/platform/inscription\<close>), which builds, parses, prices, signs and verifies the Bitcoin
  transactions that carry an inscription; the ledger (\<open>src/platform/ledger\<close>), which takes orders and payments; the
  event platform (\<open>src/platform/events\<close>), on which the ledger publishes what changed; the signer
  (\<open>src/platform/signer\<close>), the only holder of keys; Blockspace ID (\<open>src/platform/identity\<close>), which signs people in
  with their wallets; the edge (\<open>src/platform/edge\<close>), which says who a request comes from and how much is let through; and
  the minting library of the product (\<open>src/products/scribbit/packages/counters-mint\<close>), which
  puts Counterparty issuances into taproot envelopes.

  \<^bold>\<open>How they interact.\<close> A browser builds a tapscript with the envelope of its content and a half-signed reveal
  transaction for it; a service prices it, verifies that it is what the order expects and attaches a parent; anyone can
  parse the envelope back out of the script. Orders and payments go through \<open>LedgerService\<close> over a versioned store, with
  payment providers behind a port, a worker that polls them, and an event for every status change. Events are checked
  against the schema of their topic, put into a CloudEvents envelope and delivered by way of an outbox. The
  signer inspects a PSBT, asks its policies, signs and writes an audit record. A wallet signs the text of a challenge, its
  nonce is consumed once, and the session that follows is a token of the key ring. In front of the services, requests are
  told apart by the client's address or by an API key, and counted.

  \<^bold>\<open>Theories and code.\<close> Definitions carry the names of the code; where two parts use one name or HOL has it already, a
  prefix tells them apart (\<open>memGetOrder\<close> for the store's \<open>getOrder\<close>, \<open>outbox_claim\<close> for the outbox store's \<open>claim\<close>).
  \<^item> \<open>Prelude\<close>, \<open>JsText\<close>: bytes, buffers, the error sum with its bind, digits; JavaScript strings and UTF-8.
  \<^item> \<open>InscBase\<close> (\<open>constants.ts\<close>, \<open>bytes.ts\<close>), \<open>Envelope\<close> (\<open>envelope.ts\<close>), \<open>Parse\<close> (\<open>parse.ts\<close>), \<open>Roundtrip\<close>:
    the writer on its preallocated buffer, the parser, and the proof that parsing inverts building.
  \<^item> \<open>Sizing\<close> (\<open>sizing.ts\<close>): weights and fees against the serialized transaction and exact rational arithmetic.
  \<^item> \<open>Sighash\<close> (\<open>sighash.ts\<close>): the signed message, and that equal digests mean equal transactions or a collision.
  \<^item> \<open>Psbt\<close> (\<open>psbt.ts\<close>, \<open>network.ts\<close>, \<open>commit.ts\<close>, \<open>leaf.ts\<close>), \<open>Reveal\<close> (\<open>reveal.ts\<close>), \<open>Verify\<close> (\<open>verify.ts\<close>),
    \<open>Wallet\<close> (\<open>wallet.ts\<close>): construction and verification of reveals, characterised by what the verifiers accept.
  \<^item> \<open>LedgerTypes\<close> (\<open>domain/*.ts\<close>, \<open>money.ts\<close>), \<open>LedgerStore\<close> (\<open>store/memory-store.ts\<close>), \<open>LedgerJson\<close> (request
    validation and the canonical text of \<open>service.ts\<close>), \<open>LedgerService\<close> (\<open>service.ts\<close>), \<open>LedgerWorker\<close> (\<open>worker.ts\<close>,
    \<open>providers/onchain.ts\<close>, \<open>providers/fake.ts\<close>), \<open>LedgerReceipt\<close> (\<open>receipt.ts\<close>).
  \<^item> \<open>LedgerSafety\<close>, \<open>LedgerOps\<close>: the store's invariant and, for every operation, a rely-guarantee triple: each await of
    the service is a point where other writers may move the store, and the operation keeps the invariant whatever
    legal moves they make. \<open>LedgerProps\<close>, \<open>LedgerReplay\<close>, \<open>LedgerMoney\<close>: what follows for whole runs.
  \<^item> \<open>EventsMatch\<close> (\<open>match.ts\<close>), \<open>EventsSchema\<close> (\<open>schema.ts\<close>), \<open>EventsTopics\<close> (\<open>topics.ts\<close>, \<open>envelope.ts\<close>),
    \<open>EventsPlatform\<close> (\<open>platform-topics.ts\<close>): patterns, the JSON Schema validator, topics and the registry.
    \<open>EventsLedger\<close>: the ledger's own check of an event is the one its topic makes.
  \<^item> \<open>EventsOutbox\<close> (\<open>backoff.ts\<close>, \<open>outbox.ts\<close>), \<open>EventsRelay\<close>, \<open>EventsDrain\<close>: the outbox, relays as a step relation,
    at-least-once and exactly-once delivery, and the relay pass as a run of steps that drains the outbox.
  \<^item> \<open>SignerPolicy\<close> (\<open>policy.ts\<close>, \<open>audit.ts\<close>, \<open>errors.ts\<close>), \<open>Signer\<close> (\<open>taproot.ts\<close>, \<open>key-provider.ts\<close>,
    \<open>signer.ts\<close>), \<open>SignerProps\<close>: what is signed was allowed, what a treasury key can lose, and which calls are audited.
    Calls of one signer are taken one at a time: they share nothing but the audit log.
  \<^item> \<open>MintAssets\<close> (\<open>assetnames.ts\<close>), \<open>MintCbor\<close> (\<open>cbor.ts\<close>), \<open>MintNumeric\<close> (\<open>numeric.ts\<close>), \<open>MintEnvelope\<close> (\<open>bytes.ts\<close>,
    \<open>envelope.ts\<close>), \<open>MintContent\<close> (\<open>content.ts\<close>, the stages of \<open>plan.ts\<close>): names and ids, CBOR against a reference
    decoder, exact integers in JSON texts, envelopes that the inscription parser reads back, content types.
  \<^item> \<open>MintFees\<close> (\<open>estimate.ts\<close>, \<open>fairminter.ts\<close>, \<open>xcp69.ts\<close>), \<open>MintPsbt\<close> (\<open>compose.ts\<close>, \<open>psbt.ts\<close>), \<open>MintPsbtProps\<close>:
    estimates on the doubles of the code (sign, mantissa, exponent), the commit and reveal transactions rebuilt from the
    node's, and that the pair fits: what the commit pays in, the reveal pays out, at the rate.
  \<^item> \<open>JsSplit\<close>, \<open>JsJson\<close>: \<open>split\<close>, \<open>join\<close>, \<open>trim\<close>; \<open>JSON.stringify\<close> and \<open>JSON.parse\<close> on JavaScript strings, and that the
    one inverts the other.
  \<^item> \<open>IdMessage\<close> (\<open>bytes.ts\<close>, \<open>network.ts\<close>, \<open>address.ts\<close>, \<open>bip322.ts\<close>, \<open>legacy.ts\<close> of \<open>platform/identity/src\<close>),
    \<open>IdMessageProps\<close>: BIP-322 and legacy signatures, what a digest binds, that what is signed verifies.
  \<^item> \<open>IdSiwb\<close> (\<open>siwb.ts\<close>: grammar and parser), \<open>IdSignIn\<close> (\<open>siwb.ts\<close>: issuing and answering; \<open>nonce.ts\<close>, \<open>types.ts\<close>): runs
    of a sign-in server as a step relation over its trace. \<open>IdSession\<close> (\<open>session.ts\<close>): tokens and the key ring.
  \<^item> \<open>EdgeIp\<close> (\<open>ip.ts\<close>), \<open>EdgeClient\<close> (\<open>client-ip.ts\<close>): addresses and blocks, parsed and printed, and the address of the
    client behind proxies. \<open>EdgeLimit\<close> (\<open>rate-limit.ts\<close>): token buckets with rationals for the code's doubles.
    \<open>EdgeKeys\<close> (\<open>api-keys.ts\<close>): keys, quotas and whom a key lets in.

  \<^bold>\<open>Interfaces.\<close> \<open>versioned_store\<close> is the optimistic-concurrency contract of the order store, interpreted on its orders
  and payments; \<open>rely_guarantee\<close> the triples of the service, interpreted on the ledger's moves; \<open>outbox_port\<close> the contract
  of the outbox store, interpreted on the in-memory one; \<open>policy_contract\<close> what a policy promises of the requests it
  allows, interpreted on the signer's built-in policies; \<open>nonce_port\<close> what a nonce store promises a sign-in server,
  interpreted on the in-memory one.

  \<^bold>\<open>State and effects.\<close> A \<open>Map\<close> of the code is an association list in insertion order. An operation that throws returns
  \<open>Inl\<close>; in the ledger it keeps the effects it had. What other requests do between the awaits of an operation is an
  explicit schedule in the state, or a step of another process.

  \<^bold>\<open>Bounds and fuel.\<close> The retries of the ledger have the code's own counts (three attempts; \<open>createOrder\<close> calls itself
  again after a lost race, with fuel 2, and is shown never to need more). The schema validator takes fuel for \<open>$ref\<close>; any
  amount beyond the size of a schema without references gives the same answer. \<open>JSON.parse\<close> takes one more than the length
  of its text as fuel, and more never changes its answer. Everything else is total without fuel.

  \<^bold>\<open>Parameters.\<close> Code outside the repository is an argument: the PSBT, curve and hash libraries (\<open>btc_lib\<close>, \<open>hash_lib\<close>),
  address derivation and the chain backend, the parser of raw transactions, identifiers and clocks, \<open>Date.parse\<close>, \<open>toISOString\<close>, \<open>URL\<close>, \<open>localeCompare\<close> and the regular
  expression engine, Ed25519, RIPEMD-160, base58, base64 and the address codec. What is relied on is named in
  \<open>tx_documented\<close> and \<open>add_documented\<close> (a transaction without signatures takes inputs and outputs), \<open>hex_documented\<close>,
  \<open>sha256_documented\<close> and \<open>session_documented\<close>. The text of a JSON number stands for the double \<open>JSON.parse\<close> rounds it
  to; in \<open>EdgeLimit\<close> and the back-off of \<open>EventsOutbox\<close> the rounding of doubles is left out.

  \<^bold>\<open>Not modelled.\<close> HTTP surfaces, SQL stores, card and BTCPay clients, the in-memory bus and AMQP, CORS and security headers, wallets in the browser, user interfaces and
  command lines: input and output around the modelled core.
\<close>

end
